(* ===== verification/Prelude.thy ===== *)
theory Prelude
  imports Main "HOL-Library.Word" "HOL-Library.Multiset"
begin

section \<open>Prelude: machine integers, sizes and shared lemmas\<close>

text \<open>
  The program is a 32-bit Windows DLL: \<open>SIZE_T\<close>, \<open>LPVOID\<close>, \<open>DWORD\<close> and
  \<open>ULONG_PTR\<close> are 32 bits wide, \<open>ULONGLONG\<close>, \<open>LONG64\<close> and \<open>uint64_t\<close> are 64 bits
  wide.  They are words here, so that every addition and subtraction wraps as it
  does in the code; \<open>unat\<close> reads a word as a natural number and \<open>sint\<close> reads it as
  two's complement.  A null pointer is the word 0.

  The theory also holds the \<open>named_theorems\<close> collections of the development and the
  few facts on words and lists that several components share.
\<close>

unbundle bit_operations_syntax

type_synonym u8 = "8 word"
type_synonym u16 = "16 word"
type_synonym u32 = "32 word"
type_synonym u64 = "64 word"

named_theorems arena_defs \<open>definitions of the arena allocator, for unfolding in its proofs\<close>
named_theorems cover_simps \<open>how many blocks of a list cover an address\<close>
named_theorems hook_defs \<open>definitions of the hook layer\<close>
named_theorems phase_defs \<open>definitions of the heartbeat state machine\<close>

subsection \<open>Word arithmetic without overflow\<close>

lemma unat_plus_no_wrap:
  fixes a b :: "'a::len word"
  assumes "unat a + unat b < 2 ^ LENGTH('a)"
  shows "unat (a + b) = unat a + unat b"
  using assms by (simp add: unat_word_ariths)

lemma unat_minus_no_wrap:
  fixes a b :: "'a::len word"
  assumes "b \<le> a"
  shows "unat (a - b) = unat a - unat b"
  using assms by (simp add: unat_sub)

lemma unat_lt_2p32: "unat (w :: u32) < 4294967296"
  using unsigned_less [of w] by simp

lemma u32_plus: "unat (a :: u32) + unat b < 4294967296 \<Longrightarrow> unat (a + b) = unat a + unat b"
  by (rule unat_plus_no_wrap) simp

lemma u32_le_unat: "(a :: u32) \<le> b \<longleftrightarrow> unat a \<le> unat b"
  by (simp add: word_le_nat_alt)

lemma u32_less_unat: "(a :: u32) < b \<longleftrightarrow> unat a < unat b"
  by (simp add: word_less_nat_alt)

lemma u32_eq_unat: "(a :: u32) = b \<longleftrightarrow> unat a = unat b"
  by (simp add: word_unat_eq_iff)

lemmas u32_unat = u32_le_unat u32_less_unat u32_eq_unat

lemma unat_u64_plus:
  "unat (a :: u64) + unat b < 2 ^ 64 \<Longrightarrow> unat (a + b) = unat a + unat b"
  by (rule unat_plus_no_wrap) simp

lemma unat_ucast_u32_u64 [simp]: "unat (ucast (w :: u32) :: u64) = unat w"
  using unat_lt_2p32 [of w] by (simp add: unsigned_ucast_eq take_bit_nat_eq_self)

lemmas u64_le_unat = word_le_nat_alt [where 'a = 64]

text \<open>Clearing the low bits rounds down to a multiple of a power of two.\<close>

lemma and_not_mask_push_drop:
  "(x :: 'a::len word) AND NOT (mask n) = push_bit n (drop_bit n x)"
  by (rule bit_word_eqI) (auto simp: bit_simps)

lemma unat_and_not_mask:
  "n < LENGTH('a) \<Longrightarrow> unat ((x :: 'a::len word) AND NOT (mask n)) = unat x div 2 ^ n * 2 ^ n"
proof -
  assume n: "n < LENGTH('a)"
  have le: "unat x div 2 ^ n * 2 ^ n \<le> unat x" by (simp add: div_times_less_eq_dividend)
  have ux: "unat x < 2 ^ LENGTH('a)" by (rule unsigned_less)
  have lt: "unat x div 2 ^ n * 2 ^ n < 2 ^ LENGTH('a)" by (rule le_less_trans [OF le ux])
  have "unat (push_bit n (drop_bit n x)) = take_bit LENGTH('a) (push_bit n (drop_bit n (unat x)))"
    using ux by (simp add: unsigned_push_bit_eq unsigned_drop_bit_eq take_bit_nat_eq_self)
  also have "\<dots> = unat x div 2 ^ n * 2 ^ n"
    using lt by (simp add: push_bit_eq_mult drop_bit_eq_div take_bit_eq_mod)
  finally show ?thesis by (simp add: and_not_mask_push_drop)
qed

subsection \<open>Lists\<close>

text \<open>Sum of a list after replacing or removing one element.\<close>

lemma sum_list_map_update:
  fixes f :: "'a \<Rightarrow> nat"
  assumes "i < length xs"
  shows "sum_list (map f (xs[i := y])) + f (xs ! i) = sum_list (map f xs) + f y"
  using assms
proof (induction xs arbitrary: i)
  case Nil
  then show ?case by simp
next
  case (Cons x xs)
  then show ?case by (cases i) (auto simp: algebra_simps)
qed

lemma concat_map_update_nth:
  assumes "i < length xs"
  shows "concat (map f (xs[i := y])) =
         concat (map f (take i xs)) @ f y @ concat (map f (drop (Suc i) xs))"
  using assms by (simp add: upd_conv_take_nth_drop)

lemma concat_map_nth:
  assumes "i < length xs"
  shows "concat (map f xs) =
         concat (map f (take i xs)) @ f (xs ! i) @ concat (map f (drop (Suc i) xs))"
  using concat_map_update_nth [OF assms, of f "xs ! i"] by simp

lemma list_all2_left: "list_all2 P xs ys \<Longrightarrow> x \<in> set xs \<Longrightarrow> \<exists>y\<in>set ys. P x y"
  by (induction rule: list_all2_induct) auto

lemma list_all2_right: "list_all2 P xs ys \<Longrightarrow> y \<in> set ys \<Longrightarrow> \<exists>x\<in>set xs. P x y"
  by (induction rule: list_all2_induct) auto

text \<open>Keys that are unique in a table are unique among its occupied entries.\<close>

lemma distinct_map_nonfree:
  assumes "\<forall>i<length xs. \<forall>j<length xs. f (xs ! i) = f (xs ! j) \<longrightarrow> f (xs ! i) \<noteq> z \<longrightarrow> i = j"
  shows "distinct (map f (filter (\<lambda>s. f s \<noteq> z) xs))"
  using assms
proof (induction xs)
  case (Cons x xs)
  have u: "i = j" if "i < length (x # xs)" "j < length (x # xs)" "f ((x # xs) ! i) = f ((x # xs) ! j)" "f ((x # xs) ! i) \<noteq> z" for i j
    using Cons.prems that by blast
  have "\<forall>i<length xs. \<forall>j<length xs. f (xs ! i) = f (xs ! j) \<longrightarrow> f (xs ! i) \<noteq> z \<longrightarrow> i = j"
  proof (intro allI impI)
    fix i j assume "i < length xs" "j < length xs" "f (xs ! i) = f (xs ! j)" "f (xs ! i) \<noteq> z"
    then show "i = j" using u [of "Suc i" "Suc j"] by simp
  qed
  then have "distinct (map f (filter (\<lambda>s. f s \<noteq> z) xs))" by (rule Cons.IH)
  moreover have "f y \<noteq> f x" if y: "y \<in> set xs" "f y \<noteq> z" for y
  proof
    assume e: "f y = f x"
    obtain j where j: "j < length xs" "y = xs ! j" using y(1) unfolding in_set_conv_nth by metis
    show False using u [of 0 "Suc j"] j e y(2) by simp
  qed
  ultimately show ?case by force
qed simp

subsection \<open>C library text helpers\<close>

text \<open>\<open>atoi\<close> of the C library: white space, a sign, then digits up to the first other character; 32 bits, saturating (as \<open>strtol\<close> in base 10).\<close>

definition is_space :: "char \<Rightarrow> bool" where
  "is_space c \<longleftrightarrow> of_char c \<in> {9, 10, 11, 12, 13, 32 :: nat}"

definition is_digit :: "char \<Rightarrow> bool" where
  "is_digit c \<longleftrightarrow> (48 :: nat) \<le> of_char c \<and> of_char c \<le> (57 :: nat)"

fun digits_val :: "int \<Rightarrow> string \<Rightarrow> int" where
  "digits_val acc [] = acc"
| "digits_val acc (c # cs) =
     (if is_digit c then digits_val (10 * acc + (of_char c - 48)) cs else acc)"

definition signed_digits :: "string \<Rightarrow> int" where
  "signed_digits s =
     (case dropWhile is_space s of
        [] \<Rightarrow> 0
      | c # t \<Rightarrow> if c = CHR ''-'' then - digits_val 0 t
                 else if c = CHR ''+'' then digits_val 0 t
                 else digits_val 0 (c # t))"

definition atoi :: "string \<Rightarrow> int" where
  "atoi s = max (- 2147483648) (min 2147483647 (signed_digits s))"

text \<open>
  \<open>GetEnvironmentVariableA\<close> into a buffer of \<open>n\<close> bytes: the callers use the value only when
  the returned length is positive and smaller than the buffer.
\<close>

text \<open>
  Callers that test only the returned length: a variable that is set and not empty, and what
  its value leaves in a zeroed buffer of \<open>n\<close> bytes (nothing when it does not fit).
\<close>

definition env_set :: "string option \<Rightarrow> bool" where
  "env_set e \<longleftrightarrow> e \<noteq> None \<and> e \<noteq> Some []"

definition env_text :: "nat \<Rightarrow> string option \<Rightarrow> string" where
  "env_text n e = (case e of None \<Rightarrow> [] | Some v \<Rightarrow> if length v < n then v else [])"

definition env_in_buf :: "nat \<Rightarrow> string option \<Rightarrow> string option" where
  "env_in_buf n e = (case e of None \<Rightarrow> None | Some v \<Rightarrow> if 0 < length v \<and> length v < n then Some v else None)"

text \<open>Lower case of the ASCII letters.\<close>

definition lower :: "char \<Rightarrow> char" where
  "lower c = (if 65 \<le> (of_char c :: nat) \<and> (of_char c :: nat) \<le> 90 then char_of ((of_char c :: nat) + 32) else c)"

text \<open>
  The C string after the last backslash of a path (\<open>strrchr\<close>), or the whole of it.
\<close>

definition base_name :: "string \<Rightarrow> string" where
  "base_name path = rev (takeWhile (\<lambda>c. c \<noteq> CHR 0x5C) (rev path))"

text \<open>Flags of the environment: the first character decides.\<close>

definition says_yes :: "string \<Rightarrow> bool" where
  "says_yes v \<longleftrightarrow> v \<noteq> [] \<and> v ! 0 \<in> set ''1yYtT''"

definition says_no :: "string \<Rightarrow> bool" where
  "says_no v \<longleftrightarrow> v \<noteq> [] \<and> v ! 0 \<in> set ''0fFnN''"

text \<open>The flags of the Windows memory functions the code names.\<close>

definition MEM_COMMIT :: u32 where "MEM_COMMIT = 0x1000"
definition MEM_RESERVE :: u32 where "MEM_RESERVE = 0x2000"
definition MEM_WRITE_WATCH :: u32 where "MEM_WRITE_WATCH = 0x200000"
definition MEM_PHYSICAL :: u32 where "MEM_PHYSICAL = 0x400000"
definition MEM_LARGE_PAGES :: u32 where "MEM_LARGE_PAGES = 0x20000000"
definition PAGE_READWRITE :: u32 where "PAGE_READWRITE = 4"

end
