(* ===== verification/ArenaBlocks.thy ===== *)
theory ArenaBlocks
  imports Prelude
begin

section \<open>Blocks of the arena: the free list and its three algorithms\<close>

text \<open>
  The list algorithms of \<open>ProxyAllocator.cpp\<close>: \<open>AlignUp\<close>, the address-sorted insertion
  with its coalescing pass (\<open>InsertFreeSortedAndCoalesce\<close>), and the two searches of
  \<open>TakeFreeFit\<close> (first fit from the low end, last fit from the high end).  The code's
  free list is an intrusive singly linked list of \<open>Block\<close> nodes; here it is the HOL list
  of the nodes' contents, in link order.  The functions are executable and word-level;
  what they do to the address space is stated with \<open>cover\<close>, the number of blocks of a
  list that contain an address.
\<close>

subsection \<open>Blocks\<close>

text \<open>\<open>struct Block \<open>{ LPVOID address; SIZE_T size; Block* next; }\<close>\<close>: the link is the list.\<close>

record block =
  address :: u32
  blk_size :: u32

definition AlignUp :: "u32 \<Rightarrow> u32 \<Rightarrow> u32" where
  "AlignUp v a = (v + (a - 1)) AND NOT (a - 1)"

text \<open>The power-of-two granularities the constructor accepts: 4, 8, 16, 32 and 64 KB.\<close>

definition gran_ok :: "u32 \<Rightarrow> bool" where
  "gran_ok g \<longleftrightarrow> g \<in> {0x1000, 0x2000, 0x4000, 0x8000, 0x10000}"

text \<open>\<open>AlignUp\<close> is the least multiple above, unless \<open>v + (a - 1)\<close> wraps.\<close>

lemma gran_cases:
  assumes "gran_ok g"
  obtains n where "g = 2 ^ n" and "g - 1 = mask n" and "n < 17" and "12 \<le> n" and "unat g = 2 ^ n"
proof -
  have "g = 2 ^ 12 \<or> g = 2 ^ 13 \<or> g = 2 ^ 14 \<or> g = 2 ^ 15 \<or> g = 2 ^ 16"
    using assms by (auto simp: gran_ok_def)
  then have "\<exists>n. g = 2 ^ n \<and> n < 17 \<and> 12 \<le> n \<and> unat g = 2 ^ n"
    apply (elim disjE)
    apply (rule exI [of _ 12]; simp)
    apply (rule exI [of _ 13]; simp)
    apply (rule exI [of _ 14]; simp)
    apply (rule exI [of _ 15]; simp)
    apply (rule exI [of _ 16]; simp)
    done
  then obtain n where "g = 2 ^ n" "n < 17" "12 \<le> n" "unat g = 2 ^ n" by blast
  with that [of n] show thesis by (simp add: mask_eq_decr_exp)
qed

lemma AlignUp_unat:
  assumes "gran_ok g" "unat v + unat g \<le> 4294967296"
  shows "unat (AlignUp v g) = (unat v + (unat g - 1)) div unat g * unat g"
proof -
  from assms(1) obtain n where n: "g = 2 ^ n" "g - 1 = mask n" "n < 17" "unat g = 2 ^ n"
    by (rule gran_cases)
  have g0: "g \<noteq> 0" using n(4) by auto
  have g1: "unat (g - 1) = unat g - 1" using g0 by (rule unat_minus_one)
  have g2: "0 < unat g" using n(4) by simp
  have "unat (v + (g - 1)) = unat v + (unat g - 1)"
    using assms(2) g2 by (subst u32_plus) (auto simp: g1)
  moreover have "unat (AlignUp v g) = unat (v + (g - 1)) div 2 ^ n * 2 ^ n"
    unfolding AlignUp_def n(2) using n(3) by (intro unat_and_not_mask) simp
  ultimately show ?thesis using n(4) by simp
qed
subsection \<open>Sorted insertion and coalescing\<close>

text \<open>
  The walk \<open>while (cur->next && cur->next->address < addr) cur = cur->next\<close>, then the
  node is linked after \<open>cur\<close>.
\<close>

fun insert_after :: "block \<Rightarrow> block list \<Rightarrow> block list" where
  "insert_after node [] = [node]"
| "insert_after node [cur] = [cur, node]"
| "insert_after node (cur # nxt # rest) =
     (if address nxt < address node then cur # insert_after node (nxt # rest)
      else cur # node # nxt # rest)"

definition insert_sorted :: "block \<Rightarrow> block list \<Rightarrow> block list" where
  "insert_sorted node fl =
     (case fl of [] \<Rightarrow> [node]
      | h # _ \<Rightarrow> if address h > address node then node # fl else insert_after node fl)"

text \<open>
  The coalescing pass over the whole list.  The second result is the number of nodes it
  gives back to the node pool with \<open>FreeNode\<close>.
\<close>

fun coalesce :: "block list \<Rightarrow> block list \<times> nat" where
  "coalesce (cur # nxt # rest) =
     (if address cur + blk_size cur = address nxt
      then (let (l, k) = coalesce (cur\<lparr>blk_size := blk_size cur + blk_size nxt\<rparr> # rest)
            in (l, Suc k))
      else (let (l, k) = coalesce (nxt # rest) in (cur # l, k)))"
| "coalesce l = (l, 0)"

subsection \<open>Searches\<close>

text \<open>What carving a fitting block yields: the grant, the new list, and whether a node left it.\<close>

record carve =
  c_addr :: u32
  c_size :: u32
  c_list :: "block list"
  c_taken :: bool

text \<open>Bottom-up: first block that fits, carved from its start.\<close>

fun take_first :: "u32 \<Rightarrow> u32 \<Rightarrow> block list \<Rightarrow> carve option" where
  "take_first g need [] = None"
| "take_first g need (cur # rest) =
     (if blk_size cur \<ge> need then
        (let remain = blk_size cur - need in
         if remain \<ge> g
         then Some \<lparr>c_addr = address cur, c_size = need,
                    c_list = \<lparr>address = address cur + need, blk_size = remain\<rparr> # rest,
                    c_taken = False\<rparr>
         else Some \<lparr>c_addr = address cur, c_size = blk_size cur, c_list = rest, c_taken = True\<rparr>)
      else map_option (\<lambda>c. c\<lparr>c_list := cur # c_list c\<rparr>) (take_first g need rest))"

text \<open>Top-down: the scan keeps the position of the last block that fits \<open>(best)\<close>.\<close>

fun last_fit :: "u32 \<Rightarrow> nat \<Rightarrow> nat option \<Rightarrow> block list \<Rightarrow> nat option" where
  "last_fit need i best [] = best"
| "last_fit need i best (cur # rest) =
     last_fit need (Suc i) (if blk_size cur \<ge> need then Some i else best) rest"

text \<open>The best block is carved from its end.\<close>

definition take_last :: "u32 \<Rightarrow> u32 \<Rightarrow> block list \<Rightarrow> carve option" where
  "take_last g need fl =
     (case last_fit need 0 None fl of
        None \<Rightarrow> None
      | Some i \<Rightarrow>
          (let best = fl ! i; remain = blk_size best - need in
           if remain \<ge> g
           then Some \<lparr>c_addr = address best + remain, c_size = need,
                      c_list = fl[i := best\<lparr>blk_size := remain\<rparr>], c_taken = False\<rparr>
           else Some \<lparr>c_addr = address best, c_size = blk_size best,
                      c_list = take i fl @ drop (Suc i) fl, c_taken = True\<rparr>))"

definition find_fit :: "u32 \<Rightarrow> u32 \<Rightarrow> bool \<Rightarrow> block list \<Rightarrow> carve option" where
  "find_fit g need fromTop fl =
     (if \<not> fromTop then take_first g need fl else take_last g need fl)"

subsection \<open>The address space a list of blocks covers\<close>

abbreviation blo :: "block \<Rightarrow> nat" where "blo b \<equiv> unat (address b)"
abbreviation bsz :: "block \<Rightarrow> nat" where "bsz b \<equiv> unat (blk_size b)"
abbreviation bend :: "block \<Rightarrow> nat" where "bend b \<equiv> blo b + bsz b"

definition in_block :: "block \<Rightarrow> nat \<Rightarrow> bool" where
  "in_block b x \<longleftrightarrow> blo b \<le> x \<and> x < bend b"

text \<open>How many blocks of the list contain the address \<open>x\<close>.\<close>

definition cover :: "block list \<Rightarrow> nat \<Rightarrow> nat" where
  "cover bs x = length (filter (\<lambda>b. in_block b x) bs)"

lemma cover_Nil [simp, cover_simps]: "cover [] x = 0"
  by (simp add: cover_def)

lemma cover_Cons [simp, cover_simps]: "cover (b # bs) x = of_bool (in_block b x) + cover bs x"
  by (simp add: cover_def)

lemma cover_append [simp, cover_simps]: "cover (as @ bs) x = cover as x + cover bs x"
  by (simp add: cover_def)

lemma cover_mset: "mset as = mset bs \<Longrightarrow> cover as x = cover bs x"
  by (metis cover_def mset_filter size_mset)

lemma cover_pos: "b \<in> set bs \<Longrightarrow> in_block b x \<Longrightarrow> 0 < cover bs x"
  by (induction bs) auto

lemma cover_in_iff: "0 < cover bs x \<longleftrightarrow> (\<exists>b\<in>set bs. in_block b x)"
  by (induction bs) auto

lemma in_block_start: "0 < bsz b \<Longrightarrow> in_block b (blo b)"
  by (simp add: in_block_def)

text \<open>A block of the arena: aligned to the granularity, not empty, inside \<open>[lo, hi)\<close>.\<close>

definition wf_block :: "nat \<Rightarrow> nat \<Rightarrow> nat \<Rightarrow> block \<Rightarrow> bool" where
  "wf_block g lo hi b \<longleftrightarrow>
     g dvd blo b \<and> g dvd bsz b \<and> 0 < bsz b \<and> lo \<le> blo b \<and> bend b \<le> hi"

text \<open>Sorted by address without overlap, and sorted with a gap between neighbours.\<close>

abbreviation addr_sorted :: "block list \<Rightarrow> bool" where
  "addr_sorted \<equiv> sorted_wrt (\<lambda>a b. blo a < blo b)"
abbreviation disj_sorted :: "block list \<Rightarrow> bool" where
  "disj_sorted \<equiv> sorted_wrt (\<lambda>a b. bend a \<le> blo b)"
abbreviation gap_sorted :: "block list \<Rightarrow> bool" where
  "gap_sorted \<equiv> sorted_wrt (\<lambda>a b. bend a < blo b)"

lemma wf_block_pos: "wf_block g lo hi b \<Longrightarrow> 0 < bsz b"
  by (simp add: wf_block_def)

lemma gap_imp_addr: "gap_sorted bs \<Longrightarrow> addr_sorted bs"
  by (erule sorted_wrt_mono_rel [rotated]) auto

text \<open>Blocks that start in order and never overlap are laid out one after the other.\<close>

lemma disj_sorted_from_cover:
  assumes "addr_sorted bs" "\<forall>b\<in>set bs. 0 < bsz b" "\<And>x. cover bs x \<le> 1"
  shows "disj_sorted bs"
  using assms
proof (induction bs)
  case Nil
  then show ?case by simp
next
  case (Cons a bs)
  have c: "cover bs x \<le> 1" for x using Cons.prems(3) [of x] by simp
  have "bend a \<le> blo b" if b: "b \<in> set bs" for b
  proof (rule ccontr)
    assume "\<not> bend a \<le> blo b"
    then have "in_block a (blo b)" using Cons.prems(1) b by (auto simp: in_block_def)
    moreover have "0 < cover bs (blo b)"
      using Cons.prems(2) b by (intro cover_pos [OF b] in_block_start) auto
    ultimately show False using Cons.prems(3) [of "blo b"] by simp
  qed
  then show ?case using Cons c by simp
qed

subsection \<open>Insertion and coalescing are right\<close>

lemma mset_insert_after: "l \<noteq> [] \<Longrightarrow> mset (insert_after n l) = add_mset n (mset l)"
  by (induction n l rule: insert_after.induct) auto

lemma mset_insert_sorted: "mset (insert_sorted n fl) = add_mset n (mset fl)"
  by (auto simp: insert_sorted_def mset_insert_after split: list.splits)

lemma set_insert_sorted: "set (insert_sorted n fl) = insert n (set fl)"
  by (metis mset_insert_sorted set_mset_add_mset_insert set_mset_mset)

lemma length_insert_sorted: "length (insert_sorted n fl) = Suc (length fl)"
  by (metis mset_insert_sorted size_add_mset size_mset)

lemma cover_insert_sorted [cover_simps]: "cover (insert_sorted n fl) x = cover (n # fl) x"
  by (rule cover_mset) (simp add: mset_insert_sorted)

lemma addr_sorted_insert_after:
  assumes "addr_sorted (h # t)" "blo h < blo n" "\<forall>b\<in>set t. blo b \<noteq> blo n"
  shows "addr_sorted (insert_after n (h # t))"
  using assms
proof (induction t arbitrary: h)
  case Nil
  then show ?case by simp
next
  case (Cons k t)
  have "set (insert_after n (k # t)) = insert n (set (k # t))"
    by (metis list.distinct(1) mset_insert_after set_mset_add_mset_insert set_mset_mset)
  then show ?case using Cons by (auto simp: u32_unat)
qed

lemma addr_sorted_insert_sorted:
  assumes "addr_sorted fl" "\<forall>b\<in>set fl. blo b \<noteq> blo n"
  shows "addr_sorted (insert_sorted n fl)"
proof (cases fl)
  case Nil
  then show ?thesis by (simp add: insert_sorted_def)
next
  case (Cons h t)
  show ?thesis
  proof (cases "blo n < blo h")
    case True
    then show ?thesis using assms Cons by (auto simp: insert_sorted_def u32_unat)
  next
    case False
    then have "blo h < blo n" using assms(2) Cons by (auto simp: nat_neq_iff)
    then show ?thesis using assms Cons False
      by (simp add: insert_sorted_def u32_unat addr_sorted_insert_after)
  qed
qed

lemma length_coalesce: "length (fst (coalesce l)) + snd (coalesce l) = length l"
  by (induction l rule: coalesce.induct) (auto simp: Let_def split: prod.splits)

text \<open>Two adjacent blocks of the arena merge into one block of the arena.\<close>

lemma merge_adjacent:
  assumes "wf_block g lo hi a" "wf_block g lo hi b" "hi < 4294967296" "bend a = blo b"
  shows "bsz (a\<lparr>blk_size := blk_size a + blk_size b\<rparr>) = bsz a + bsz b"
    and "wf_block g lo hi (a\<lparr>blk_size := blk_size a + blk_size b\<rparr>)"
    and "of_bool (in_block (a\<lparr>blk_size := blk_size a + blk_size b\<rparr>) x) =
         (of_bool (in_block a x) + of_bool (in_block b x) :: nat)"
proof -
  have s: "unat (blk_size a + blk_size b) = bsz a + bsz b"
    using assms by (intro u32_plus) (auto simp: wf_block_def)
  then show "bsz (a\<lparr>blk_size := blk_size a + blk_size b\<rparr>) = bsz a + bsz b" by simp
  show "wf_block g lo hi (a\<lparr>blk_size := blk_size a + blk_size b\<rparr>)"
    using assms s by (auto simp: wf_block_def)
  show "of_bool (in_block (a\<lparr>blk_size := blk_size a + blk_size b\<rparr>) x) =
         (of_bool (in_block a x) + of_bool (in_block b x) :: nat)"
    using assms s by (auto simp: in_block_def)
qed

lemma bend_eq_word:
  assumes "wf_block g lo hi a" "hi < 4294967296"
  shows "address a + blk_size a = address b \<longleftrightarrow> bend a = blo b"
proof -
  have "unat (address a + blk_size a) = bend a"
    using assms by (intro u32_plus) (auto simp: wf_block_def)
  then show ?thesis by (simp add: u32_eq_unat)
qed

text \<open>
  Coalescing a sorted free list keeps the covered address space, leaves a gap between any
  two neighbours and starts no block below the first one.
\<close>

lemma coalesce_correct:
  assumes "disj_sorted l" "\<forall>b\<in>set l. wf_block g lo hi b" "hi < 4294967296"
  shows "gap_sorted (fst (coalesce l)) \<and> (\<forall>b\<in>set (fst (coalesce l)). wf_block g lo hi b) \<and>
         (\<forall>x. cover (fst (coalesce l)) x = cover l x) \<and>
         (\<forall>b\<in>set (fst (coalesce l)). blo (hd l) \<le> blo b)"
  using assms(1,2)
proof (induction l rule: coalesce.induct)
  case (1 cur nxt rest)
  have wf: "wf_block g lo hi cur" "wf_block g lo hi nxt" using "1.prems"(2) by auto
  show ?case
  proof (cases "address cur + blk_size cur = address nxt")
    case True
    let ?m = "cur\<lparr>blk_size := blk_size cur + blk_size nxt\<rparr>"
    have adj: "bend cur = blo nxt" using True wf assms(3) by (simp add: bend_eq_word)
    note m = merge_adjacent [OF wf assms(3) adj]
    have d: "disj_sorted (?m # rest)" using "1.prems"(1) adj m(1) by auto
    have w: "\<forall>b\<in>set (?m # rest). wf_block g lo hi b" using "1.prems"(2) m(2) by auto
    have "fst (coalesce (cur # nxt # rest)) = fst (coalesce (?m # rest))"
      using True by (simp add: split_beta)
    then show ?thesis using "1.IH"(1) [OF True d w] m(3) by (simp add: add.assoc)
  next
    case False
    have lt: "bend cur < blo nxt"
      using "1.prems"(1) False bend_eq_word [OF wf(1) assms(3), of nxt] by auto
    have e: "fst (coalesce (cur # nxt # rest)) = cur # fst (coalesce (nxt # rest))"
      using False by (simp add: split_beta)
    have ih: "gap_sorted (fst (coalesce (nxt # rest)))"
      "\<forall>b\<in>set (fst (coalesce (nxt # rest))). wf_block g lo hi b"
      "\<forall>x. cover (fst (coalesce (nxt # rest))) x = cover (nxt # rest) x"
      "\<forall>b\<in>set (fst (coalesce (nxt # rest))). blo nxt \<le> blo b"
      using "1.IH"(2) [OF False] "1.prems" by auto
    show ?thesis unfolding e using ih wf lt by fastforce
  qed
qed auto

lemmas coalesce_facts =
  coalesce_correct [THEN conjunct1]
  coalesce_correct [THEN conjunct2, THEN conjunct1]
  coalesce_correct [THEN conjunct2, THEN conjunct2, THEN conjunct1]

text \<open>The whole insertion, for a block that overlaps no block of the free list.\<close>

lemma insert_coalesce_correct:
  assumes "gap_sorted fl" "\<forall>b\<in>set fl. wf_block g lo hi b" "wf_block g lo hi n"
    and "hi < 4294967296" "\<And>x. cover (n # fl) x \<le> 1"
  defines "r \<equiv> fst (coalesce (insert_sorted n fl))"
  shows "gap_sorted r" "\<forall>b\<in>set r. wf_block g lo hi b" "\<And>x. cover r x = cover (n # fl) x"
proof -
  have ne: "\<forall>b\<in>set fl. blo b \<noteq> blo n"
  proof
    fix b assume b: "b \<in> set fl"
    show "blo b \<noteq> blo n"
    proof
      assume eq: "blo b = blo n"
      have "0 < cover fl (blo b)"
        using assms(2) b by (intro cover_pos [OF b] in_block_start) (auto simp: wf_block_def)
      moreover have "in_block n (blo b)" using assms(3) eq in_block_start [of n] by (simp add: wf_block_def)
      ultimately show False using assms(5) [of "blo b"] by simp
    qed
  qed
  have a: "addr_sorted (insert_sorted n fl)"
    using assms(1) ne by (intro addr_sorted_insert_sorted gap_imp_addr)
  have w: "\<forall>b\<in>set (insert_sorted n fl). wf_block g lo hi b"
    using assms(2,3) by (simp add: set_insert_sorted)
  have d: "disj_sorted (insert_sorted n fl)"
    using a w assms(5) by (intro disj_sorted_from_cover) (auto simp: cover_insert_sorted wf_block_def)
  note c = coalesce_correct [OF d w assms(4)]
  from c show "gap_sorted r" "\<forall>b\<in>set r. wf_block g lo hi b" by (simp_all add: r_def)
  from c show "cover r x = cover (n # fl) x" for x
    by (simp add: r_def cover_insert_sorted del: cover_Cons)
qed

subsection \<open>The two searches are right\<close>

text \<open>
  Carving \<open>need\<close> bytes from the block \<open>b\<close> that stands between \<open>pre\<close> and \<open>post\<close>: from its
  start or from its end, or the whole block when less than a granule would remain.
\<close>

definition carve_low :: "u32 \<Rightarrow> u32 \<Rightarrow> block list \<Rightarrow> block \<Rightarrow> block list \<Rightarrow> carve" where
  "carve_low g need pre b post =
     (if blk_size b - need \<ge> g
      then \<lparr>c_addr = address b, c_size = need,
            c_list = pre @ \<lparr>address = address b + need, blk_size = blk_size b - need\<rparr> # post,
            c_taken = False\<rparr>
      else \<lparr>c_addr = address b, c_size = blk_size b, c_list = pre @ post, c_taken = True\<rparr>)"

definition carve_high :: "u32 \<Rightarrow> u32 \<Rightarrow> block list \<Rightarrow> block \<Rightarrow> block list \<Rightarrow> carve" where
  "carve_high g need pre b post =
     (if blk_size b - need \<ge> g
      then \<lparr>c_addr = address b + (blk_size b - need), c_size = need,
            c_list = pre @ b\<lparr>blk_size := blk_size b - need\<rparr> # post, c_taken = False\<rparr>
      else \<lparr>c_addr = address b, c_size = blk_size b, c_list = pre @ post, c_taken = True\<rparr>)"

lemma take_first_None: "take_first g need fl = None \<longleftrightarrow> (\<forall>b\<in>set fl. blk_size b < need)"
  by (induction g need fl rule: take_first.induct) (auto simp: Let_def not_le)

lemma take_first_Some:
  assumes "take_first g need fl = Some c"
  shows "\<exists>pre b post. fl = pre @ b # post \<and> need \<le> blk_size b \<and>
           (\<forall>p\<in>set pre. blk_size p < need) \<and> c = carve_low g need pre b post"
  using assms
proof (induction g need fl arbitrary: c rule: take_first.induct)
  case (1 g need)
  then show ?case by simp
next
  case (2 g need cur rest)
  show ?case
  proof (cases "need \<le> blk_size cur")
    case True
    then have "cur # rest = [] @ cur # rest \<and> need \<le> blk_size cur \<and>
      (\<forall>p\<in>set []. blk_size p < need) \<and> c = carve_low g need [] cur rest"
      using 2(2) by (auto simp: Let_def carve_low_def split: if_splits)
    then show ?thesis by blast
  next
    case False
    then obtain c' where c': "take_first g need rest = Some c'" "c = c'\<lparr>c_list := cur # c_list c'\<rparr>"
      using 2(2) by auto
    from 2(1) [OF False c'(1)] obtain pre b post where
      "rest = pre @ b # post" "need \<le> blk_size b" "\<forall>p\<in>set pre. blk_size p < need"
      "c' = carve_low g need pre b post" by blast
    then have "cur # rest = (cur # pre) @ b # post \<and> need \<le> blk_size b \<and>
      (\<forall>p\<in>set (cur # pre). blk_size p < need) \<and> c = carve_low g need (cur # pre) b post"
      using False c'(2) by (auto simp: carve_low_def not_le)
    then show ?thesis by blast
  qed
qed

text \<open>The scan keeps the last index that fits; \<open>best\<close> survives only when none does.\<close>

lemma last_fit_spec:
  "last_fit need i best fl =
     (case last_fit need 0 None fl of None \<Rightarrow> best | Some j \<Rightarrow> Some (i + j))"
proof (induction fl arbitrary: i best)
  case Nil
  then show ?case by simp
next
  case (Cons b fl)
  show ?case by (simp add: Cons [of "Suc i"] Cons [of "Suc 0"] split: option.splits)
qed

lemma last_fit_None: "last_fit need 0 None fl = None \<longleftrightarrow> (\<forall>b\<in>set fl. blk_size b < need)"
proof (induction fl)
  case Nil
  then show ?case by simp
next
  case (Cons b fl)
  then show ?case
    by (subst last_fit.simps, subst last_fit_spec) (auto split: option.splits simp: not_le)
qed

lemma last_fit_Some:
  "last_fit need 0 None fl = Some i \<Longrightarrow>
   i < length fl \<and> need \<le> blk_size (fl ! i) \<and> (\<forall>p\<in>set (drop (Suc i) fl). blk_size p < need)"
proof (induction fl arbitrary: i)
  case Nil
  then show ?case by simp
next
  case (Cons b fl)
  show ?case
  proof (cases "last_fit need 0 None fl")
    case None
    then show ?thesis using Cons.prems last_fit_None [of need fl]
      by (subst (asm) last_fit.simps, subst (asm) last_fit_spec) (auto split: if_splits)
  next
    case (Some j)
    then have "i = Suc j" using Cons.prems
      by (subst (asm) last_fit.simps, subst (asm) last_fit_spec) simp
    then show ?thesis using Cons.IH [OF Some] by simp
  qed
qed

lemma take_last_None: "take_last g need fl = None \<longleftrightarrow> (\<forall>b\<in>set fl. blk_size b < need)"
  by (auto simp: take_last_def Let_def last_fit_None [symmetric] split: option.splits)

lemma take_last_Some:
  assumes "take_last g need fl = Some c"
  shows "\<exists>pre b post. fl = pre @ b # post \<and> need \<le> blk_size b \<and>
           (\<forall>p\<in>set post. blk_size p < need) \<and> c = carve_high g need pre b post"
proof -
  obtain i where i: "last_fit need 0 None fl = Some i"
    using assms by (auto simp: take_last_def split: option.splits)
  note f = last_fit_Some [OF i]
  then have "fl = take i fl @ fl ! i # drop (Suc i) fl" by (simp add: id_take_nth_drop)
  moreover have "c = carve_high g need (take i fl) (fl ! i) (drop (Suc i) fl)"
    using assms i f by (auto simp: take_last_def Let_def carve_high_def upd_conv_take_nth_drop split: if_splits)
  ultimately show ?thesis using f by blast
qed

text \<open>The block a carve hands out.\<close>

abbreviation granted :: "carve \<Rightarrow> block" where
  "granted c \<equiv> \<lparr>address = c_addr c, blk_size = c_size c\<rparr>"

text \<open>What both searches promise of a carve, for a request of \<open>need\<close> bytes from \<open>fl\<close>.\<close>

definition carve_ok :: "nat \<Rightarrow> nat \<Rightarrow> nat \<Rightarrow> u32 \<Rightarrow> block list \<Rightarrow> carve \<Rightarrow> bool" where
  "carve_ok g lo hi need fl c \<longleftrightarrow>
     c_size c = need \<and> g dvd blo (granted c) \<and> lo \<le> blo (granted c) \<and> bend (granted c) \<le> hi \<and>
     (\<forall>x. cover (granted c # c_list c) x = cover fl x) \<and>
     gap_sorted (c_list c) \<and> (\<forall>b\<in>set (c_list c). wf_block g lo hi b) \<and>
     length (c_list c) + of_bool (c_taken c) = length fl"

text \<open>Splitting a block leaves either nothing or at least a granule.\<close>

lemma remainder_dvd:
  assumes "wf_block (unat g) lo hi b" "unat g dvd unat need" "need \<le> blk_size b" "\<not> g \<le> blk_size b - need"
  shows "blk_size b = need"
proof -
  have u: "unat (blk_size b - need) = bsz b - unat need" using assms(3) by (rule unat_minus_no_wrap)
  have "unat g dvd bsz b - unat need" using assms(1,2) by (simp add: wf_block_def dvd_diff_nat)
  moreover have "bsz b - unat need < unat g" using assms(4) u by (simp add: u32_unat)
  ultimately have "bsz b - unat need = 0" using nat_dvd_not_less by blast
  then show ?thesis using assms(3) by (simp add: u32_unat)
qed

lemma carve_low_ok:
  assumes "gap_sorted (pre @ b # post)" "\<forall>b\<in>set (pre @ b # post). wf_block (unat g) lo hi b"
    and "hi < 4294967296" "unat g dvd unat need" "need \<le> blk_size b" "0 < unat g"
  shows "carve_ok (unat g) lo hi need (pre @ b # post) (carve_low g need pre b post)"
proof -
  have wf: "wf_block (unat g) lo hi b" using assms(2) by simp
  have r: "unat (blk_size b - need) = bsz b - unat need" using assms(5) by (rule unat_minus_no_wrap)
  have le: "unat need \<le> bsz b" using assms(5) by (simp add: u32_unat)
  have a: "unat (address b + need) = blo b + unat need"
    using wf le assms(3) by (intro u32_plus) (auto simp: wf_block_def)
  show ?thesis
  proof (cases "g \<le> blk_size b - need")
    case True
    then have "unat g \<le> bsz b - unat need" using r by (simp add: u32_unat)
    then have pos: "0 < bsz b - unat need" using assms(6) by simp
    have "gap_sorted (pre @ \<lparr>address = address b + need, blk_size = blk_size b - need\<rparr> # post)"
      using assms(1) a r le by (fastforce simp: sorted_wrt_append)
    then show ?thesis using True wf assms(2,4) a r le pos
      by (auto simp: carve_ok_def carve_low_def wf_block_def in_block_def dvd_diff_nat)
  next
    case False
    then have "blk_size b = need" using wf assms(4,5) remainder_dvd by blast
    then show ?thesis using False assms(1,2) wf
      by (auto simp: carve_ok_def carve_low_def wf_block_def in_block_def sorted_wrt_append)
  qed
qed

lemma carve_high_ok:
  assumes "gap_sorted (pre @ b # post)" "\<forall>b\<in>set (pre @ b # post). wf_block (unat g) lo hi b"
    and "hi < 4294967296" "unat g dvd unat need" "need \<le> blk_size b" "0 < unat g"
  shows "carve_ok (unat g) lo hi need (pre @ b # post) (carve_high g need pre b post)"
proof -
  have wf: "wf_block (unat g) lo hi b" using assms(2) by simp
  have r: "unat (blk_size b - need) = bsz b - unat need" using assms(5) by (rule unat_minus_no_wrap)
  have le: "unat need \<le> bsz b" using assms(5) by (simp add: u32_unat)
  have a: "unat (address b + (blk_size b - need)) = blo b + (bsz b - unat need)"
    using wf le assms(3) r by (subst u32_plus) (auto simp: wf_block_def)
  show ?thesis
  proof (cases "g \<le> blk_size b - need")
    case True
    then have "unat g \<le> bsz b - unat need" using r by (simp add: u32_unat)
    then have pos: "0 < bsz b - unat need" using assms(6) by simp
    have "gap_sorted (pre @ b\<lparr>blk_size := blk_size b - need\<rparr> # post)"
      using assms(1) r le by (fastforce simp: sorted_wrt_append)
    then show ?thesis using True wf assms(2,4) a r le pos
      by (auto simp: carve_ok_def carve_high_def wf_block_def in_block_def dvd_diff_nat)
  next
    case False
    then have "blk_size b = need" using wf assms(4,5) remainder_dvd by blast
    then show ?thesis using False assms(1,2) wf
      by (auto simp: carve_ok_def carve_high_def wf_block_def in_block_def sorted_wrt_append)
  qed
qed

lemma find_fit_None: "find_fit g need fromTop fl = None \<longleftrightarrow> (\<forall>b\<in>set fl. blk_size b < need)"
  by (simp add: find_fit_def take_first_None take_last_None)

lemma find_fit_Some:
  assumes "gap_sorted fl" "\<forall>b\<in>set fl. wf_block (unat g) lo hi b"
    and "hi < 4294967296" "unat g dvd unat need" "0 < unat g" "find_fit g need fromTop fl = Some c"
  shows "carve_ok (unat g) lo hi need fl c"
proof (cases fromTop)
  case True
  then obtain pre b post where "fl = pre @ b # post" "need \<le> blk_size b" "c = carve_high g need pre b post"
    using assms(6) take_last_Some [of g need fl c] by (auto simp: find_fit_def)
  then show ?thesis using assms carve_high_ok by blast
next
  case False
  then obtain pre b post where "fl = pre @ b # post" "need \<le> blk_size b" "c = carve_low g need pre b post"
    using assms(6) take_first_Some [of g need fl c] by (auto simp: find_fit_def)
  then show ?thesis using assms carve_low_ok by blast
qed

text \<open>
  Placement: the low search grants the lowest block that fits from its start, the high
  search the highest one from its end.
\<close>

lemma take_first_lowest:
  assumes "gap_sorted fl" "take_first g need fl = Some c" "b \<in> set fl" "need \<le> blk_size b"
  shows "c_addr c \<le> address b"
proof -
  obtain pre b0 post where f: "fl = pre @ b0 # post" "\<forall>p\<in>set pre. blk_size p < need"
    "c = carve_low g need pre b0 post" using take_first_Some [OF assms(2)] by blast
  have "b \<notin> set pre" using f(2) assms(4) by (auto simp: not_le [symmetric])
  then have "b = b0 \<or> b \<in> set post" using assms(3) f(1) by auto
  then have "blo b0 \<le> blo b" using assms(1) f(1) by (auto simp: sorted_wrt_append)
  then show ?thesis using f(3) by (simp add: carve_low_def u32_unat)
qed

lemma take_last_highest:
  assumes "gap_sorted fl" "\<forall>b\<in>set fl. wf_block (unat g) lo hi b" "hi < 4294967296"
    and "unat g dvd unat need" "0 < unat g"
    and "take_last g need fl = Some c" "b \<in> set fl" "need \<le> blk_size b"
  shows "bend b \<le> bend (granted c)"
proof -
  obtain pre b0 post where f: "fl = pre @ b0 # post" "\<forall>p\<in>set post. blk_size p < need"
    "c = carve_high g need pre b0 post" "need \<le> blk_size b0" using take_last_Some [OF assms(6)] by blast
  have wf: "wf_block (unat g) lo hi b0" using assms(2) f(1) by simp
  have r: "unat (blk_size b0 - need) = bsz b0 - unat need" using f(4) by (rule unat_minus_no_wrap)
  have a: "unat (address b0 + (blk_size b0 - need)) = blo b0 + (bsz b0 - unat need)"
    using wf assms(3) r by (subst u32_plus) (auto simp: wf_block_def)
  have "bend (granted c) = bend b0"
    using f(3,4) a remainder_dvd [OF wf assms(4) f(4)] by (auto simp: carve_high_def u32_unat)
  moreover have "b \<notin> set post" using f(2) assms(8) by (auto simp: not_le [symmetric])
  then have "b = b0 \<or> b \<in> set pre" using assms(7) f(1) by auto
  then have "bend b \<le> bend b0" using assms(1) f(1) by (auto simp: sorted_wrt_append)
  ultimately show ?thesis by simp
qed

end
