(* ===== verification/SizeClasses.thy ===== *)
theory SizeClasses
  imports ArenaBlocks
begin

section \<open>Size-class reuse caches and the node pool\<close>

text \<open>
  \<open>PopSizeClass\<close>, \<open>PushSizeClass\<close>, \<open>AllocNode\<close> and \<open>FreeNode\<close> of \<open>ProxyAllocator.cpp\<close>.  The
  array \<open>m_sizeClasses\<close> with its \<open>m_sizeClassCount\<close> used entries is a list of that
  length.  List nodes come from a fixed pool; all that matters of the pool is how many
  nodes are on \<open>m_nodeFreeList\<close>, so it is a number.
\<close>

subsection \<open>The node pool\<close>

text \<open>\<open>AllocNode\<close>: \<open>None\<close> when the pool is empty.\<close>

definition AllocNode :: "nat \<Rightarrow> nat option" where
  "AllocNode nodeFree = (if nodeFree = 0 then None else Some (nodeFree - 1))"

definition FreeNode :: "nat \<Rightarrow> nat" where
  "FreeNode nodeFree = Suc nodeFree"

subsection \<open>The caches\<close>

text \<open>\<open>struct SizeClassList \<open>{ SIZE_T classSize; Block* head; int count; }\<close>\<close>\<close>

record sizeclass =
  classSize :: u32
  sc_head :: "block list"
  sc_count :: int

definition kMaxSizeClasses :: nat where "kMaxSizeClasses = 256"
definition kMaxCachedPerClass :: int where "kMaxCachedPerClass = 16"

fun PopSizeClass :: "u32 \<Rightarrow> sizeclass list \<Rightarrow> (block \<times> sizeclass list) option" where
  "PopSizeClass s [] = None"
| "PopSizeClass s (c # cs) =
     (if classSize c = s \<and> sc_head c \<noteq> []
      then Some (hd (sc_head c), c\<lparr>sc_head := tl (sc_head c), sc_count := sc_count c - 1\<rparr> # cs)
      else map_option (\<lambda>(n, cs'). (n, c # cs')) (PopSizeClass s cs))"

fun find_class :: "u32 \<Rightarrow> sizeclass list \<Rightarrow> nat option" where
  "find_class s [] = None"
| "find_class s (c # cs) = (if classSize c = s then Some 0 else map_option Suc (find_class s cs))"

text \<open>
  The result is (cached?, the classes, the free nodes).  A class opened here stays open
  when the push then fails.
\<close>

definition PushSizeClass ::
    "u32 \<Rightarrow> u32 \<Rightarrow> sizeclass list \<Rightarrow> nat \<Rightarrow> bool \<times> sizeclass list \<times> nat" where
  "PushSizeClass addr s cs nodeFree =
     (let push = \<lambda>idx cs.
        (if sc_count (cs ! idx) \<ge> kMaxCachedPerClass then (False, cs, nodeFree)
         else (case AllocNode nodeFree of
             None \<Rightarrow> (False, cs, nodeFree)
           | Some nodes \<Rightarrow>
               (True,
                cs[idx := (cs ! idx)\<lparr>sc_head := \<lparr>address = addr, blk_size = s\<rparr> # sc_head (cs ! idx),
                                    sc_count := sc_count (cs ! idx) + 1\<rparr>],
                nodes)))
      in case find_class s cs of
           Some idx \<Rightarrow> push idx cs
         | None \<Rightarrow>
             if length cs \<ge> kMaxSizeClasses then (False, cs, nodeFree)
             else push (length cs) (cs @ [\<lparr>classSize = s, sc_head = [], sc_count = 0\<rparr>]))"

subsection \<open>Invariant of the caches\<close>

definition cached :: "sizeclass list \<Rightarrow> block list" where
  "cached cs = concat (map sc_head cs)"

lemma cached_simps [simp]:
  "cached [] = []" "cached (c # cs) = sc_head c @ cached cs" "cached (as @ bs) = cached as @ cached bs"
  by (simp_all add: cached_def)

definition wf_class :: "sizeclass \<Rightarrow> bool" where
  "wf_class c \<longleftrightarrow> sc_count c = int (length (sc_head c)) \<and> sc_count c \<le> kMaxCachedPerClass \<and>
     (\<forall>b\<in>set (sc_head c). blk_size b = classSize c)"

definition wf_classes :: "sizeclass list \<Rightarrow> bool" where
  "wf_classes cs \<longleftrightarrow> length cs \<le> kMaxSizeClasses \<and> distinct (map classSize cs) \<and> (\<forall>c\<in>set cs. wf_class c)"

lemma wf_classes_Nil [simp]: "wf_classes []"
  by (simp add: wf_classes_def)

text \<open>Popping takes one cached block of exactly the class, and nothing else.\<close>

lemma PopSizeClass_Some:
  "PopSizeClass s cs = Some (n, cs') \<Longrightarrow> \<forall>c\<in>set cs. wf_class c \<Longrightarrow>
     blk_size n = s \<and> mset (cached cs) = add_mset n (mset (cached cs')) \<and>
     map classSize cs' = map classSize cs \<and> (\<forall>c\<in>set cs'. wf_class c)"
proof (induction s cs arbitrary: n cs' rule: PopSizeClass.induct)
  case (1 s)
  then show ?case by simp
next
  case (2 s c cs)
  show ?case
  proof (cases "classSize c = s \<and> sc_head c \<noteq> []")
    case True
    then obtain h t where ht: "sc_head c = h # t" by (cases "sc_head c") auto
    then show ?thesis using 2(2,3) True by (auto simp: wf_class_def)
  next
    case False
    then obtain cs1 where c1: "PopSizeClass s cs = Some (n, cs1)" "cs' = c # cs1" using 2(2) by auto
    show ?thesis using 2(1) [OF False c1(1)] 2(3) c1(2) by auto
  qed
qed

lemma PopSizeClass_wf:
  assumes "PopSizeClass s cs = Some (n, cs')" "wf_classes cs"
  shows "wf_classes cs'"
proof -
  have "map classSize cs' = map classSize cs" "\<forall>c\<in>set cs'. wf_class c"
    using PopSizeClass_Some [OF assms(1)] assms(2) by (auto simp: wf_classes_def)
  moreover from this have "length cs' = length cs" using map_eq_imp_length_eq by blast
  ultimately show ?thesis using assms(2) by (simp add: wf_classes_def)
qed

text \<open>Popping misses exactly when no cached block has the class.\<close>

lemma PopSizeClass_None:
  "\<forall>c\<in>set cs. wf_class c \<Longrightarrow>
     PopSizeClass s cs = None \<longleftrightarrow> (\<forall>b\<in>set (cached cs). blk_size b \<noteq> s)"
proof (induction s cs rule: PopSizeClass.induct)
  case (1 s)
  then show ?case by simp
next
  case (2 s c cs)
  show ?case
  proof (cases "classSize c = s \<and> sc_head c \<noteq> []")
    case True
    then have "hd (sc_head c) \<in> set (sc_head c)" by simp
    moreover have "blk_size (hd (sc_head c)) = s" using 2(2) True by (simp add: wf_class_def)
    ultimately show ?thesis using True by (auto intro!: bexI)
  next
    case False
    then have "\<forall>b\<in>set (sc_head c). blk_size b \<noteq> s" using 2(2) by (auto simp: wf_class_def)
    then show ?thesis using 2(1) [OF False] 2(2) False by auto
  qed
qed

lemma find_class_None: "find_class s cs = None \<longleftrightarrow> s \<notin> classSize ` set cs"
  by (induction s cs rule: find_class.induct) auto

lemma find_class_Some: "find_class s cs = Some i \<Longrightarrow> i < length cs \<and> classSize (cs ! i) = s"
  by (induction s cs arbitrary: i rule: find_class.induct) (auto split: if_splits)

text \<open>A push either caches the block with one node of the pool, or caches nothing.\<close>

lemma cached_push_nth:
  "i < length cs \<Longrightarrow>
   mset (cached (cs[i := (cs ! i)\<lparr>sc_head := b # sc_head (cs ! i), sc_count := k\<rparr>]))
     = add_mset b (mset (cached cs))"
  unfolding cached_def
  by (subst concat_map_nth [of i cs sc_head], assumption, subst concat_map_update_nth) auto

lemma wf_classes_push_nth:
  assumes "wf_classes cs" "i < length cs" "classSize (cs ! i) = blk_size b"
    and "\<not> kMaxCachedPerClass \<le> sc_count (cs ! i)"
  shows "wf_classes (cs[i := (cs ! i)\<lparr>sc_head := b # sc_head (cs ! i), sc_count := sc_count (cs ! i) + 1\<rparr>])"
    (is "wf_classes (cs[i := ?c])")
proof -
  have "wf_class (cs ! i)" using assms(1,2) by (simp add: wf_classes_def)
  then have "wf_class ?c" using assms(3,4) by (auto simp: wf_class_def)
  moreover have "map classSize (cs[i := ?c]) = map classSize cs"
    using assms(2) list_update_id [of "map classSize cs" i] by (simp add: map_update)
  ultimately show ?thesis using assms(1,2) set_update_subset_insert [of cs i ?c]
    by (auto simp: wf_classes_def)
qed

lemma wf_classes_open:
  "wf_classes cs \<Longrightarrow> s \<notin> classSize ` set cs \<Longrightarrow> \<not> kMaxSizeClasses \<le> length cs \<Longrightarrow>
   wf_classes (cs @ [\<lparr>classSize = s, sc_head = [], sc_count = 0\<rparr>])"
  by (auto simp: wf_classes_def wf_class_def kMaxCachedPerClass_def)

lemma PushSizeClass_correct:
  assumes "PushSizeClass a s cs k = (ok, cs', k')" "wf_classes cs"
  shows "wf_classes cs' \<and> k = k' + of_bool ok \<and>
     mset (cached cs') = (if ok then add_mset \<lparr>address = a, blk_size = s\<rparr> (mset (cached cs))
                          else mset (cached cs))"
proof (cases "find_class s cs")
  case (Some i)
  note f = find_class_Some [OF Some]
  show ?thesis
    using assms Some f cached_push_nth [of i cs _ "\<lparr>address = a, blk_size = s\<rparr>"]
      wf_classes_push_nth [OF assms(2), of i "\<lparr>address = a, blk_size = s\<rparr>"]
    by (auto simp: PushSizeClass_def Let_def AllocNode_def split: if_splits)
next
  case None
  let ?cs = "cs @ [\<lparr>classSize = s, sc_head = [], sc_count = 0\<rparr>]"
  show ?thesis
  proof (cases "kMaxSizeClasses \<le> length cs")
    case True
    then show ?thesis using assms None by (simp add: PushSizeClass_def Let_def)
  next
    case False
    have w: "wf_classes ?cs" using assms(2) None False
      by (intro wf_classes_open) (auto simp: find_class_None)
    show ?thesis
      using assms None False w cached_push_nth [of "length cs" ?cs _ "\<lparr>address = a, blk_size = s\<rparr>"]
        wf_classes_push_nth [OF w, of "length cs" "\<lparr>address = a, blk_size = s\<rparr>"]
      by (auto simp: PushSizeClass_def Let_def AllocNode_def kMaxCachedPerClass_def split: if_splits)
  qed
qed

end
