(* ===== verification/ArenaReserve.thy ===== *)
theory ArenaReserve
  imports ArenaBlocks
begin

section \<open>Reserving the arena's address range\<close>

text \<open>
  \<open>ReserveArenaContiguous\<close> of \<open>ProxyAllocator.cpp\<close>.  What Windows answers is a parameter:
  the bounds of the application address space, one \<open>VirtualQuery\<close> answer per address, and
  the address \<open>VirtualAlloc\<close> reserves for a hint (0 when it fails).
\<close>

text \<open>The fields of \<open>MEMORY_BASIC_INFORMATION\<close> the scan reads.\<close>

record mbi =
  BaseAddress :: u32
  RegionSize :: u32
  State_free :: bool

record arena_os =
  os_min :: u32
  os_max :: u32
  os_query :: "u32 \<Rightarrow> mbi option"
  os_reserve :: "u32 \<Rightarrow> u32 \<Rightarrow> u32"
  os_pool :: "u32 \<Rightarrow> u32"

text \<open>The walk over the preferred range: the reservation made, or \<open>None\<close> when it ends without.\<close>

function reserve_scan :: "arena_os \<Rightarrow> u32 \<Rightarrow> u32 \<Rightarrow> u32 \<Rightarrow> u32 \<Rightarrow> u32 option" where
  "reserve_scan os gran want prefEnd p =
     (if \<not> p < prefEnd then None
      else (case os_query os p of
          None \<Rightarrow> None
        | Some m \<Rightarrow>
            (let cand = AlignUp (BaseAddress m) gran;
                 cend = BaseAddress m + RegionSize m;
                 reserved = os_reserve os cand want
             in if State_free m \<and> cand + want \<le> cend \<and> reserved \<noteq> 0 then Some reserved
                else if BaseAddress m + RegionSize m \<le> p then None
                else reserve_scan os gran want prefEnd (BaseAddress m + RegionSize m))))"
  by auto
termination
proof (relation "measure (\<lambda>(os, gran, want, prefEnd, p). 4294967296 - unat p)", goal_cases)
  case 1
  then show ?case by simp
next
  case (2 os gran want prefEnd p m cand cend reserved)
  then show ?case using unat_lt_2p32 [of "BaseAddress m + RegionSize m"] by (auto simp: u32_unat not_le)
qed

declare reserve_scan.simps [simp del]

definition ReserveArenaContiguous :: "arena_os \<Rightarrow> u32 \<Rightarrow> u32 \<Rightarrow> u32" where
  "ReserveArenaContiguous os gran sz =
     (let want = AlignUp sz gran;
          prefStart = 0xC0000000 :: u32;
          prefEnd = prefStart + 0x40000000;
          prefStart = (if prefStart < os_min os then os_min os else prefStart);
          prefEnd = (if prefEnd > os_max os then os_max os else prefEnd)
      in case reserve_scan os gran want prefEnd prefStart of
           Some reserved \<Rightarrow> reserved
         | None \<Rightarrow> os_reserve os 0 want)"

text \<open>The scan only ever returns what the system reserved for it.\<close>

lemma reserve_scan_Some:
  "reserve_scan os gran want prefEnd p = Some r \<Longrightarrow> r \<noteq> 0 \<and> (\<exists>cand. r = os_reserve os cand want)"
proof (induction os gran want prefEnd p rule: reserve_scan.induct)
  case (1 os gran want prefEnd p)
  from "1.prems" obtain m where m: "p < prefEnd" "os_query os p = Some m"
    by (subst (asm) reserve_scan.simps) (auto split: if_splits option.splits)
  show ?case
  proof (cases "State_free m \<and> AlignUp (BaseAddress m) gran + want \<le> BaseAddress m + RegionSize m \<and>
      os_reserve os (AlignUp (BaseAddress m) gran) want \<noteq> 0")
    case True
    then show ?thesis using "1.prems" m
      by (subst (asm) reserve_scan.simps) (auto simp: Let_def)
  next
    case False
    then have "\<not> BaseAddress m + RegionSize m \<le> p \<and>
        reserve_scan os gran want prefEnd (BaseAddress m + RegionSize m) = Some r"
      using "1.prems" m by (subst (asm) reserve_scan.simps) (auto simp: Let_def split: if_splits)
    then show ?thesis using "1.IH" m False by blast
  qed
qed

text \<open>\<open>0xC0000000 + 1 GB\<close> is 0 in 32 bits, so the scan has an empty range.\<close>

lemma reserve_scan_empty: "\<not> p < prefEnd \<Longrightarrow> reserve_scan os gran want prefEnd p = None"
  by (subst reserve_scan.simps) simp

end
