(* ===== verification/ProxyAllocator.thy ===== *)
theory ProxyAllocator
  imports SizeClasses ArenaReserve
begin

section \<open>The arena allocator\<close>

text \<open>
  \<open>ProxyAllocator.cpp\<close>: one reserved address range, an address-sorted free list, exact-size
  reuse caches in front of it, and the statistics.  Every operation runs under the critical
  section \<open>m_cs\<close>, so an operation is one state transformer; the trace marks and the nesting
  depth in thread-local storage are telemetry and are left out.  The first part holds the
  operations, the second the invariant \<open>pa_inv\<close> and what the operations do to it.
\<close>

subsection \<open>State\<close>

record proxy_allocator =
  m_arenaBase :: u32
  m_arenaSize :: u32
  m_allocGranularity :: u32
  m_topDownBytes :: u32
  m_ownsArena :: bool
  m_nodePoolMem :: u32
  m_nodePoolSize :: u32
  nodeFree :: nat
  m_freeList :: "block list"
  m_usedBytes :: u32
  m_liveRequestedBytes :: u32
  m_activeAllocations :: u64
  m_totalAllocationRequests :: u64
  m_totalAllocationFailures :: u64
  m_totalGrantedBytes :: u64
  m_totalFreedBytes :: u64
  m_totalReusedBytes :: u64
  m_hasMainArenaFree :: bool
  m_sizeClasses :: "sizeclass list"
  m_classCachedBytes :: u64
  m_bandReqBytes :: "u64 list"
  m_bandSlotBytes :: "u64 list"

definition kNodePoolBytes :: nat where "kNodePoolBytes = 1024 * 1024"

text \<open>\<open>sizeof(Block)\<close> is three 32-bit words.\<close>

definition pool_cap :: nat where "pool_cap = kNodePoolBytes div 12"

text \<open>The constructor: page size and the two environment overrides.\<close>

definition ProxyAllocator_init :: "u32 \<Rightarrow> string option \<Rightarrow> string option \<Rightarrow> proxy_allocator" where
  "ProxyAllocator_init dwPageSize granEnv topDownEnv =
     (let granKB = (if dwPageSize \<noteq> 0 then dwPageSize else 4096) div 1024;
          granKB = (case env_in_buf 8 granEnv of
                      None \<Rightarrow> granKB
                    | Some gv \<Rightarrow> let k = atoi gv in
                        if k = 4 \<or> k = 8 \<or> k = 16 \<or> k = 32 \<or> k = 64 then word_of_int k else granKB);
          topDown = (case env_in_buf 8 topDownEnv of
                      None \<Rightarrow> 256 * 1024
                    | Some tv \<Rightarrow> let kb = atoi tv in if kb > 0 then word_of_int kb * 1024 else 256 * 1024)
      in \<lparr>m_arenaBase = 0, m_arenaSize = 0, m_allocGranularity = granKB * 1024,
          m_topDownBytes = topDown, m_ownsArena = False, m_nodePoolMem = 0, m_nodePoolSize = 0,
          nodeFree = 0, m_freeList = [], m_usedBytes = 0, m_liveRequestedBytes = 0,
          m_activeAllocations = 0, m_totalAllocationRequests = 0, m_totalAllocationFailures = 0,
          m_totalGrantedBytes = 0, m_totalFreedBytes = 0, m_totalReusedBytes = 0,
          m_hasMainArenaFree = False, m_sizeClasses = [], m_classCachedBytes = 0,
          m_bandReqBytes = replicate 8 0, m_bandSlotBytes = replicate 8 0\<rparr>)"

subsection \<open>Node pool and free list\<close>

text \<open>\<open>InitNodePool\<close> gets its memory from \<open>VirtualAlloc\<close> and links all nodes as free.\<close>

definition InitNodePool :: "arena_os \<Rightarrow> proxy_allocator \<Rightarrow> bool \<times> proxy_allocator" where
  "InitNodePool os pa =
     (if m_nodePoolMem pa \<noteq> 0 then (True, pa)
      else (let bytes = of_nat kNodePoolBytes;
                mem = os_pool os bytes;
                pa = pa\<lparr>m_nodePoolSize := bytes, m_nodePoolMem := mem\<rparr>
            in if mem = 0 then (False, pa) else (True, pa\<lparr>nodeFree := pool_cap\<rparr>)))"

definition DestroyNodePool :: "proxy_allocator \<Rightarrow> proxy_allocator" where
  "DestroyNodePool pa =
     (let pa = pa\<lparr>nodeFree := 0\<rparr>
      in if m_nodePoolMem pa \<noteq> 0 then pa\<lparr>m_nodePoolMem := 0, m_nodePoolSize := 0\<rparr> else pa)"

definition InsertFreeSortedAndCoalesce ::
    "u32 \<Rightarrow> u32 \<Rightarrow> proxy_allocator \<Rightarrow> bool \<times> proxy_allocator" where
  "InsertFreeSortedAndCoalesce addr sz pa =
     (case AllocNode (nodeFree pa) of
        None \<Rightarrow> (False, pa)
      | Some nodes \<Rightarrow>
          (let (fl, k) = coalesce (insert_sorted \<lparr>address = addr, blk_size = sz\<rparr> (m_freeList pa))
           in (True, pa\<lparr>m_freeList := fl, nodeFree := (FreeNode ^^ k) nodes\<rparr>)))"

text \<open>
  The result: was a node unlinked (the caller owns it), \<open>grantedSize\<close>, \<open>grantedAddr\<close> and the
  new state.
\<close>

definition TakeFreeFit ::
    "u32 \<Rightarrow> bool \<Rightarrow> proxy_allocator \<Rightarrow> bool \<times> u32 \<times> u32 \<times> proxy_allocator" where
  "TakeFreeFit sz fromTop pa =
     (case find_fit (m_allocGranularity pa) (AlignUp sz (m_allocGranularity pa)) fromTop (m_freeList pa) of
        None \<Rightarrow> (False, 0, 0, pa)
      | Some c \<Rightarrow> (c_taken c, c_size c, c_addr c, pa\<lparr>m_freeList := c_list c\<rparr>))"

text \<open>\<open>ReclaimCache\<close>: the inner loop over the nodes of one class, then the loop over the classes.\<close>

fun reclaim_nodes :: "block list \<Rightarrow> proxy_allocator \<Rightarrow> proxy_allocator" where
  "reclaim_nodes [] pa = pa"
| "reclaim_nodes (n # rest) pa =
     (let pa = snd (InsertFreeSortedAndCoalesce (address n) (blk_size n) pa);
          pa = pa\<lparr>m_hasMainArenaFree := True\<rparr>;
          pa = (if m_classCachedBytes pa \<ge> ucast (blk_size n)
                then pa\<lparr>m_classCachedBytes := m_classCachedBytes pa - ucast (blk_size n)\<rparr> else pa);
          pa = pa\<lparr>nodeFree := FreeNode (nodeFree pa)\<rparr>
      in reclaim_nodes rest pa)"

definition reclaim_class :: "nat \<Rightarrow> proxy_allocator \<Rightarrow> proxy_allocator" where
  "reclaim_class i pa =
     (let pa = reclaim_nodes (sc_head (m_sizeClasses pa ! i)) pa
      in pa\<lparr>m_sizeClasses :=
             (m_sizeClasses pa)[i := (m_sizeClasses pa ! i)\<lparr>sc_head := [], sc_count := 0\<rparr>]\<rparr>)"

definition ReclaimCache :: "proxy_allocator \<Rightarrow> proxy_allocator" where
  "ReclaimCache pa = fold reclaim_class [0..<length (m_sizeClasses pa)] pa"

subsection \<open>Initialisation and shutdown\<close>

definition Initialize :: "arena_os \<Rightarrow> u32 \<Rightarrow> proxy_allocator \<Rightarrow> bool \<times> proxy_allocator" where
  "Initialize os arenaSize pa =
     (if m_arenaBase pa \<noteq> 0 then (True, pa)
      else (let (ok, pa) = InitNodePool os pa
      in if \<not> ok then (False, pa)
      else (let reserved = ReserveArenaContiguous os (m_allocGranularity pa) arenaSize
      in if reserved = 0 then (False, pa)
      else (let pa = pa\<lparr>m_arenaBase := reserved, m_arenaSize := AlignUp arenaSize (m_allocGranularity pa),
                        m_freeList := [], m_ownsArena := True\<rparr>;
                (ok, pa) = InsertFreeSortedAndCoalesce (m_arenaBase pa) (m_arenaSize pa) pa
      in if \<not> ok then (False, pa\<lparr>m_arenaBase := 0, m_arenaSize := 0, m_ownsArena := False\<rparr>)
         else (True, pa)))))"

definition InitFromShared :: "arena_os \<Rightarrow> u32 \<Rightarrow> u32 \<Rightarrow> proxy_allocator \<Rightarrow> bool \<times> proxy_allocator" where
  "InitFromShared os base sz pa =
     (if m_arenaBase pa \<noteq> 0 then (True, pa)
      else (let (ok, pa) = InitNodePool os pa
      in if \<not> ok then (False, pa)
      else (let pa = pa\<lparr>m_arenaBase := base, m_arenaSize := AlignUp sz (m_allocGranularity pa),
                        m_ownsArena := False, m_freeList := []\<rparr>;
                (ok, pa) = InsertFreeSortedAndCoalesce (m_arenaBase pa) (m_arenaSize pa) pa
      in if \<not> ok then (False, pa\<lparr>m_arenaBase := 0, m_arenaSize := 0\<rparr>) else (True, pa))))"

definition Shutdown :: "proxy_allocator \<Rightarrow> proxy_allocator" where
  "Shutdown pa = DestroyNodePool
     (pa\<lparr>m_arenaBase := 0, m_arenaSize := 0, m_ownsArena := False, m_freeList := [],
         m_usedBytes := 0, m_activeAllocations := 0, m_hasMainArenaFree := False\<rparr>)"

subsection \<open>Allocation and release\<close>

definition ProxyArenaBand :: "u32 \<Rightarrow> nat" where
  "ProxyArenaBand sz =
     (if sz < 4 * 1024 then 0 else if sz < 64 * 1024 then 1 else if sz < 256 * 1024 then 2
      else if sz < 512 * 1024 then 3 else if sz < 1024 * 1024 then 4
      else if sz < 4 * 1024 * 1024 then 5 else if sz < 16 * 1024 * 1024 then 6 else 7)"

text \<open>The accounting at the end of a successful \<open>Allocate\<close>.\<close>

definition account_grant :: "u32 \<Rightarrow> u32 \<Rightarrow> proxy_allocator \<Rightarrow> proxy_allocator" where
  "account_grant sz grantedSize pa =
     (let b = ProxyArenaBand sz in
      pa\<lparr>m_usedBytes := m_usedBytes pa + grantedSize,
         m_liveRequestedBytes := m_liveRequestedBytes pa + sz,
         m_bandReqBytes := (m_bandReqBytes pa)[b := m_bandReqBytes pa ! b + ucast sz],
         m_bandSlotBytes := (m_bandSlotBytes pa)[b := m_bandSlotBytes pa ! b + ucast grantedSize],
         m_activeAllocations := m_activeAllocations pa + 1,
         m_totalGrantedBytes := m_totalGrantedBytes pa + ucast grantedSize\<rparr>)"

definition Allocate :: "u32 \<Rightarrow> bool \<Rightarrow> proxy_allocator \<Rightarrow> u32 \<times> proxy_allocator" where
  "Allocate sz fromTop pa =
     (let pa = pa\<lparr>m_totalAllocationRequests := m_totalAllocationRequests pa + 1\<rparr>
      in if m_arenaBase pa = 0
         then (0, pa\<lparr>m_totalAllocationFailures := m_totalAllocationFailures pa + 1\<rparr>)
      else (case PopSizeClass (AlignUp sz (m_allocGranularity pa)) (m_sizeClasses pa) of
        Some (n, classes) \<Rightarrow>
          (let pa = pa\<lparr>m_sizeClasses := classes, nodeFree := FreeNode (nodeFree pa)\<rparr>;
               pa = (if m_classCachedBytes pa \<ge> ucast (blk_size n)
                     then pa\<lparr>m_classCachedBytes := m_classCachedBytes pa - ucast (blk_size n)\<rparr> else pa);
               pa = pa\<lparr>m_totalReusedBytes := m_totalReusedBytes pa + ucast (blk_size n)\<rparr>
           in (address n, account_grant sz (blk_size n) pa))
      | None \<Rightarrow>
          (let (removed, grantedSize, grantedAddr, pa) = TakeFreeFit sz fromTop pa;
               (removed, grantedSize, grantedAddr, pa) =
                 (if grantedAddr = 0 \<and> m_classCachedBytes pa > 0
                  then TakeFreeFit sz fromTop (ReclaimCache pa)
                  else (removed, grantedSize, grantedAddr, pa))
           in if grantedAddr = 0
              then (0, pa\<lparr>m_totalAllocationFailures := m_totalAllocationFailures pa + 1\<rparr>)
              else (let pa = (if removed then pa\<lparr>nodeFree := FreeNode (nodeFree pa)\<rparr> else pa)
                    in (grantedAddr, account_grant sz grantedSize pa)))))"

definition IsProxyAddress :: "u32 \<Rightarrow> proxy_allocator \<Rightarrow> bool" where
  "IsProxyAddress a pa \<longleftrightarrow>
     m_arenaBase pa \<noteq> 0 \<and> a \<ge> m_arenaBase pa \<and> a < m_arenaBase pa + m_arenaSize pa"

definition Free :: "u32 \<Rightarrow> u32 \<Rightarrow> proxy_allocator \<Rightarrow> proxy_allocator" where
  "Free ptr sz pa =
     (if ptr = 0 then pa
      else if \<not> IsProxyAddress ptr pa then pa
      else (let rsz = AlignUp sz (m_allocGranularity pa);
                (ok, classes, nodes) = PushSizeClass ptr rsz (m_sizeClasses pa) (nodeFree pa);
                pa = pa\<lparr>m_sizeClasses := classes, nodeFree := nodes\<rparr>;
                pa = (if ok then pa\<lparr>m_classCachedBytes := m_classCachedBytes pa + ucast rsz\<rparr>
                      else (snd (InsertFreeSortedAndCoalesce ptr rsz pa))\<lparr>m_hasMainArenaFree := True\<rparr>)
            in pa\<lparr>m_usedBytes := (if m_usedBytes pa \<ge> rsz then m_usedBytes pa - rsz else 0),
                  m_liveRequestedBytes :=
                    (if m_liveRequestedBytes pa \<ge> sz then m_liveRequestedBytes pa - sz else 0),
                  m_activeAllocations :=
                    (if m_activeAllocations pa > 0 then m_activeAllocations pa - 1
                     else m_activeAllocations pa),
                  m_totalFreedBytes := m_totalFreedBytes pa + ucast rsz\<rparr>))"

text \<open>\<open>Free(ptr)\<close> releases one granule.\<close>

definition Free1 :: "u32 \<Rightarrow> proxy_allocator \<Rightarrow> proxy_allocator" where
  "Free1 ptr pa = Free ptr (m_allocGranularity pa) pa"

definition PrefersTopDown :: "u32 \<Rightarrow> proxy_allocator \<Rightarrow> bool" where
  "PrefersTopDown sz pa \<longleftrightarrow> sz \<ge> m_topDownBytes pa"

subsection \<open>Statistics\<close>

record pa_stats =
  arenaSize :: u32
  usedBytes :: u32
  freeBytes :: u32
  largestFreeSpan :: u32
  activeAllocations :: u64
  totalAllocationRequests :: u64
  totalAllocationFailures :: u64
  totalGrantedBytes :: u64
  totalFreedBytes :: u64
  totalReusedBytes :: u64
  classCachedBytes :: u64
  liveRequestedBytes :: u32
  bandReqBytes :: "u64 list"
  bandSlotBytes :: "u64 list"

definition GetStats :: "proxy_allocator \<Rightarrow> pa_stats" where
  "GetStats pa =
     fold (\<lambda>cur st. st\<lparr>freeBytes := freeBytes st + blk_size cur,
                       largestFreeSpan := (if blk_size cur > largestFreeSpan st then blk_size cur
                                           else largestFreeSpan st)\<rparr>)
       (m_freeList pa)
       \<lparr>arenaSize = m_arenaSize pa, usedBytes = m_usedBytes pa, freeBytes = 0, largestFreeSpan = 0,
        activeAllocations = m_activeAllocations pa,
        totalAllocationRequests = m_totalAllocationRequests pa,
        totalAllocationFailures = m_totalAllocationFailures pa,
        totalGrantedBytes = m_totalGrantedBytes pa, totalFreedBytes = m_totalFreedBytes pa,
        totalReusedBytes = m_totalReusedBytes pa, classCachedBytes = m_classCachedBytes pa,
        liveRequestedBytes = m_liveRequestedBytes pa,
        bandReqBytes = take 8 (m_bandReqBytes pa), bandSlotBytes = take 8 (m_bandSlotBytes pa)\<rparr>"

end
