(* ===== verification/ArenaInv.thy ===== *)
theory ArenaInv
  imports ProxyAllocator
begin

section \<open>The allocator's invariant\<close>

text \<open>
  \<open>pa_inv pa live\<close> relates the allocator to the list \<open>live\<close> of the allocations its callers
  hold, each an address with the size that was asked for.  Every address of the arena lies
  in at most one block of the free list, the reuse caches and the live slots; nothing lies
  outside the arena; the free list is sorted and coalesced; the node pool is conserved; the
  counters are the sums they claim to be.  \<open>pa_full\<close> adds that no address is lost.
\<close>

subsection \<open>Geometry\<close>

text \<open>A free list together with the other blocks \<open>ext\<close> of the arena \<open>[lo, hi)\<close>.\<close>

definition geo :: "nat \<Rightarrow> nat \<Rightarrow> nat \<Rightarrow> block list \<Rightarrow> block list \<Rightarrow> bool" where
  "geo g lo hi fl ext \<longleftrightarrow>
     0 < g \<and> hi < 4294967296 \<and> gap_sorted fl \<and> (\<forall>b\<in>set (fl @ ext). wf_block g lo hi b) \<and>
     (\<forall>x. cover (fl @ ext) x \<le> 1)"

lemma geo_mset: "mset ext = mset ext' \<Longrightarrow> geo g lo hi fl ext \<Longrightarrow> geo g lo hi fl ext'"
  using cover_mset [of ext ext'] by (auto simp: geo_def dest: mset_eq_setD)

lemma geo_drop: "geo g lo hi fl (b # ext) \<Longrightarrow> geo g lo hi fl ext"
proof -
  assume g: "geo g lo hi fl (b # ext)"
  have "cover (fl @ ext) x \<le> 1" for x
  proof -
    have "cover (fl @ b # ext) x \<le> 1" using g unfolding geo_def by blast
    then show ?thesis by simp
  qed
  then show ?thesis using g by (simp add: geo_def del: cover_append)
qed

lemma geo_insert:
  assumes "geo g lo hi fl (b # ext)"
  shows "geo g lo hi (fst (coalesce (insert_sorted b fl))) ext"
    and "\<And>x. cover (fst (coalesce (insert_sorted b fl))) x = cover (b # fl) x"
proof -
  have c: "cover (b # fl) x \<le> 1" for x
  proof -
    have "cover (fl @ b # ext) x \<le> 1" using assms unfolding geo_def by blast
    then show ?thesis by simp
  qed
  have "gap_sorted fl" "\<forall>b\<in>set fl. wf_block g lo hi b" "wf_block g lo hi b" "hi < 4294967296"
    using assms by (auto simp: geo_def)
  note ins = insert_coalesce_correct [OF this c]
  have "cover (fst (coalesce (insert_sorted b fl)) @ ext) x = cover (fl @ b # ext) x" for x
    using ins(3) [of x] by simp
  then show "geo g lo hi (fst (coalesce (insert_sorted b fl))) ext"
    using assms ins(1,2) unfolding geo_def by (simp add: ball_Un del: cover_append)
  show "cover (fst (coalesce (insert_sorted b fl))) x = cover (b # fl) x" for x
    by (rule ins(3))
qed

lemma geo_carve:
  assumes "geo (unat g) lo hi fl ext" "unat g dvd unat need" "0 < unat need"
    and "find_fit g need fromTop fl = Some c"
  shows "geo (unat g) lo hi (c_list c) (granted c # ext)" "carve_ok (unat g) lo hi need fl c"
proof -
  show ok: "carve_ok (unat g) lo hi need fl c"
    using assms by (intro find_fit_Some) (auto simp: geo_def)
  have w: "wf_block (unat g) lo hi (granted c)" and
    fl: "gap_sorted (c_list c)" "\<forall>b\<in>set (c_list c). wf_block (unat g) lo hi b"
    using ok assms(2,3) by (auto simp: carve_ok_def wf_block_def)
  have "cover (c_list c @ granted c # ext) x \<le> 1" for x
  proof -
    have "cover (granted c # c_list c) x = cover fl x" using ok unfolding carve_ok_def by blast
    then have "cover (c_list c @ granted c # ext) x = cover (fl @ ext) x" by simp
    then show ?thesis using assms(1) by (simp add: geo_def del: cover_append)
  qed
  then show "geo (unat g) lo hi (c_list c) (granted c # ext)"
    using assms(1) w fl unfolding geo_def by (simp add: ball_Un del: cover_append)
qed

text \<open>Counting addresses: the sizes of the blocks add up to the addresses they cover.\<close>

lemma sum_cover:
  assumes "\<forall>b\<in>set bs. lo \<le> blo b \<and> bend b \<le> hi"
  shows "(\<Sum>x=lo..<hi. cover bs x) = sum_list (map bsz bs)"
  using assms
proof (induction bs)
  case Nil
  then show ?case by simp
next
  case (Cons b bs)
  have "{x \<in> {lo..<hi}. in_block b x} = {blo b..<bend b}"
    using Cons.prems by (auto simp: in_block_def)
  moreover have "card {x \<in> {lo..<hi}. in_block b x} = (\<Sum>x=lo..<hi. of_bool (in_block b x))"
    unfolding card_eq_sum of_bool_def by (subst sum.inter_filter) auto
  ultimately have "(\<Sum>x=lo..<hi. of_bool (in_block b x)) = bsz b" by simp
  then show ?case using Cons by (simp add: sum.distrib)
qed

lemma sum_blocks_le:
  assumes "\<forall>b\<in>set bs. lo \<le> blo b \<and> bend b \<le> hi" "\<And>x. cover bs x \<le> 1"
  shows "sum_list (map bsz bs) \<le> hi - lo"
proof -
  have "(\<Sum>x=lo..<hi. cover bs x) \<le> (\<Sum>x=lo..<hi. 1)" using assms(2) by (intro sum_mono)
  then show ?thesis using sum_cover [OF assms(1)] by simp
qed

lemma sum_blocks_eq:
  assumes "\<forall>b\<in>set bs. lo \<le> blo b \<and> bend b \<le> hi" "\<And>x. lo \<le> x \<Longrightarrow> x < hi \<Longrightarrow> cover bs x = 1"
  shows "sum_list (map bsz bs) = hi - lo"
proof -
  have "(\<Sum>x=lo..<hi. cover bs x) = (\<Sum>x=lo..<hi. 1)" using assms(2) by (intro sum.cong) auto
  then show ?thesis using sum_cover [OF assms(1)] by simp
qed

text \<open>Every block has at least one granule, so the blocks are no more than the granules.\<close>

lemma length_blocks_le:
  assumes "\<forall>b\<in>set bs. wf_block g lo hi b" "\<And>x. cover bs x \<le> 1" 
  shows "length bs * g \<le> hi - lo"
proof -
  have "length bs * g \<le> sum_list (map bsz bs)"
    using assms(1)
  proof (induction bs)
    case (Cons b bs)
    have "g \<le> bsz b" using Cons.prems by (auto simp: wf_block_def dest: dvd_imp_le)
    then show ?case using Cons by simp
  qed simp
  also have "\<dots> \<le> hi - lo" using assms by (intro sum_blocks_le) (auto simp: wf_block_def)
  finally show ?thesis .
qed

text \<open>
  A range that the free list covers completely lies inside one of its blocks, because the
  list is coalesced.
\<close>

lemma covered_range_in_block:
  assumes "gap_sorted fl" "a < e" "\<And>x. a \<le> x \<Longrightarrow> x < e \<Longrightarrow> 0 < cover fl x"
  shows "\<exists>b\<in>set fl. blo b \<le> a \<and> e \<le> bend b"
proof -
  obtain b where b: "b \<in> set fl" "in_block b a"
    using assms(2) assms(3) [of a] by (auto simp: cover_in_iff)
  have "e \<le> bend b"
  proof (rule ccontr)
    assume "\<not> e \<le> bend b"
    then have "0 < cover fl (bend b)" using b(2) assms(3) [of "bend b"] by (simp add: in_block_def)
    then obtain b' where b': "b' \<in> set fl" "in_block b' (bend b)" by (auto simp: cover_in_iff)
    have "b \<noteq> b'" using b'(2) by (auto simp: in_block_def)
    then have "bend b < blo b' \<or> bend b' < blo b"
      using assms(1) b(1) b'(1) 
    proof (induction fl)
      case (Cons c fl)
      then show ?case by auto
    qed simp
    then show False using b'(2) b(2) by (auto simp: in_block_def)
  qed
  then show ?thesis using b by (auto simp: in_block_def)
qed

subsection \<open>The invariant\<close>

abbreviation gran :: "proxy_allocator \<Rightarrow> nat" where "gran pa \<equiv> unat (m_allocGranularity pa)"
abbreviation arena_lo :: "proxy_allocator \<Rightarrow> nat" where "arena_lo pa \<equiv> unat (m_arenaBase pa)"
abbreviation arena_hi :: "proxy_allocator \<Rightarrow> nat" where
  "arena_hi pa \<equiv> unat (m_arenaBase pa) + unat (m_arenaSize pa)"

text \<open>The slot of a live allocation: its address and its rounded size.\<close>

definition slot :: "u32 \<Rightarrow> u32 \<times> u32 \<Rightarrow> block" where
  "slot g pr = \<lparr>address = fst pr, blk_size = AlignUp (snd pr) g\<rparr>"

text \<open>Sizes that do not wrap when they are rounded up to the granularity.\<close>

definition req_ok :: "u32 \<Rightarrow> u32 \<Rightarrow> bool" where
  "req_ok g r \<longleftrightarrow> 0 < unat r \<and> unat r + unat g \<le> 4294967296"

text \<open>
  Between two steps of an operation: \<open>ext\<close> are the blocks outside the allocator, \<open>k\<close> the
  nodes it has unlinked and not yet given back.
\<close>

definition pa_core :: "proxy_allocator \<Rightarrow> block list \<Rightarrow> nat \<Rightarrow> bool" where
  "pa_core pa ext k \<longleftrightarrow>
     gran_ok (m_allocGranularity pa) \<and> 0 < arena_lo pa \<and>
     geo (gran pa) (arena_lo pa) (arena_hi pa) (m_freeList pa) (cached (m_sizeClasses pa) @ ext) \<and>
     wf_classes (m_sizeClasses pa) \<and>
     nodeFree pa + length (m_freeList pa) + length (cached (m_sizeClasses pa)) + k = pool_cap \<and>
     unat (m_classCachedBytes pa) = sum_list (map bsz (cached (m_sizeClasses pa)))"

definition pa_inv :: "proxy_allocator \<Rightarrow> (u32 \<times> u32) list \<Rightarrow> bool" where
  "pa_inv pa live \<longleftrightarrow>
     pa_core pa (map (slot (m_allocGranularity pa)) live) 0 \<and>
     (\<forall>pr\<in>set live. req_ok (m_allocGranularity pa) (snd pr)) \<and>
     unat (m_usedBytes pa) = sum_list (map (\<lambda>pr. bsz (slot (m_allocGranularity pa) pr)) live) \<and>
     unat (m_liveRequestedBytes pa) = sum_list (map (\<lambda>pr. unat (snd pr)) live) \<and>
     unat (m_activeAllocations pa) = length live"

text \<open>Every block of the arena that somebody accounts for.\<close>

definition all_blocks :: "proxy_allocator \<Rightarrow> block list \<Rightarrow> block list" where
  "all_blocks pa ext = m_freeList pa @ cached (m_sizeClasses pa) @ ext"

definition pa_full :: "proxy_allocator \<Rightarrow> (u32 \<times> u32) list \<Rightarrow> bool" where
  "pa_full pa live \<longleftrightarrow>
     (\<forall>x. arena_lo pa \<le> x \<longrightarrow> x < arena_hi pa \<longrightarrow>
        cover (all_blocks pa (map (slot (m_allocGranularity pa)) live)) x = 1)"

lemma gran_ok_pos: "gran_ok g \<Longrightarrow> 0 < unat g"
  by (auto elim: gran_cases)

lemma req_ok_AlignUp:
  assumes "gran_ok g" "req_ok g r"
  shows "unat g dvd unat (AlignUp r g)" "unat r \<le> unat (AlignUp r g)"
    "unat (AlignUp r g) < unat r + unat g" "0 < unat (AlignUp r g)"
proof -
  have e: "unat (AlignUp r g) = (unat r + (unat g - 1)) div unat g * unat g"
    using assms by (intro AlignUp_unat) (auto simp: req_ok_def)
  have g: "0 < unat g" using assms(1) by (rule gran_ok_pos)
  show "unat g dvd unat (AlignUp r g)" by (simp add: e)
  have d: "(unat r + (unat g - 1)) div unat g * unat g + (unat r + (unat g - 1)) mod unat g
            = unat r + (unat g - 1)" by simp
  have m: "(unat r + (unat g - 1)) mod unat g < unat g" using g by simp
  from d m g show le: "unat r \<le> unat (AlignUp r g)" unfolding e by linarith
  from d m g show "unat (AlignUp r g) < unat r + unat g" unfolding e by linarith
  from le assms(2) show "0 < unat (AlignUp r g)" by (simp add: req_ok_def)
qed

subsection \<open>The steps of the operations\<close>

lemma FreeNode_pow [simp]: "(FreeNode ^^ k) n = n + k"
  by (induction k) (auto simp: FreeNode_def)

lemma Insert_step:
  assumes "geo g lo hi (m_freeList pa) (\<lparr>address = a, blk_size = s\<rparr> # ext)"
    and "InsertFreeSortedAndCoalesce a s pa = (ok, pa')"
  shows "geo g lo hi (m_freeList pa') ext"
    and "nodeFree pa' + length (m_freeList pa') = nodeFree pa + length (m_freeList pa)"
    and "pa' = pa\<lparr>m_freeList := m_freeList pa', nodeFree := nodeFree pa'\<rparr>"
    and "ok \<longleftrightarrow> 0 < nodeFree pa"
    and "ok \<Longrightarrow> cover (m_freeList pa') x = cover (\<lparr>address = a, blk_size = s\<rparr> # m_freeList pa) x"
    and "\<not> ok \<Longrightarrow> pa' = pa"
proof -
  let ?b = "\<lparr>address = a, blk_size = s\<rparr>"
  let ?r = "coalesce (insert_sorted ?b (m_freeList pa))"
  have l: "length (fst ?r) + snd ?r = Suc (length (m_freeList pa))"
    by (metis length_coalesce length_insert_sorted)
  have e: "(ok, pa') = (if nodeFree pa = 0 then (False, pa)
      else (True, pa\<lparr>m_freeList := fst ?r, nodeFree := nodeFree pa - 1 + snd ?r\<rparr>))"
    using assms(2) by (auto simp: InsertFreeSortedAndCoalesce_def AllocNode_def split_beta)
  show "geo g lo hi (m_freeList pa') ext"
    using e geo_insert(1) [OF assms(1)] geo_drop [OF assms(1)] by (auto split: if_splits)
  show "nodeFree pa' + length (m_freeList pa') = nodeFree pa + length (m_freeList pa)"
    using e l by (auto split: if_splits)
  show "pa' = pa\<lparr>m_freeList := m_freeList pa', nodeFree := nodeFree pa'\<rparr>" "ok \<longleftrightarrow> 0 < nodeFree pa"
    "\<not> ok \<Longrightarrow> pa' = pa"
    using e by (auto split: if_splits)
  show "ok \<Longrightarrow> cover (m_freeList pa') x = cover (?b # m_freeList pa) x"
    using e geo_insert(2) [OF assms(1)] by (auto split: if_splits)
qed

text \<open>Draining a list of cached nodes into the free list.\<close>

lemma reclaim_nodes_step:
  assumes "geo g lo hi (m_freeList pa) (ns @ ext)"
    and "sum_list (map bsz ns) \<le> unat (m_classCachedBytes pa)"
  shows "geo g lo hi (m_freeList (reclaim_nodes ns pa)) ext \<and>
    nodeFree (reclaim_nodes ns pa) + length (m_freeList (reclaim_nodes ns pa)) =
      nodeFree pa + length (m_freeList pa) + length ns \<and>
    unat (m_classCachedBytes (reclaim_nodes ns pa)) = unat (m_classCachedBytes pa) - sum_list (map bsz ns) \<and>
    reclaim_nodes ns pa = pa\<lparr>m_freeList := m_freeList (reclaim_nodes ns pa),
       nodeFree := nodeFree (reclaim_nodes ns pa),
       m_hasMainArenaFree := m_hasMainArenaFree (reclaim_nodes ns pa),
       m_classCachedBytes := m_classCachedBytes (reclaim_nodes ns pa)\<rparr> \<and>
    (0 < nodeFree pa \<longrightarrow> 0 < nodeFree (reclaim_nodes ns pa) \<and>
       (\<forall>x. cover (m_freeList (reclaim_nodes ns pa)) x = cover (m_freeList pa @ ns) x))"
  using assms
proof (induction ns arbitrary: pa)
  case Nil
  then show ?case by simp
next
  case (Cons n ns)
  obtain ok pa1 where i: "InsertFreeSortedAndCoalesce (address n) (blk_size n) pa = (ok, pa1)"
    by (cases "InsertFreeSortedAndCoalesce (address n) (blk_size n) pa")
  have n: "\<lparr>address = address n, blk_size = blk_size n\<rparr> = n" by simp
  have "geo g lo hi (m_freeList pa) (\<lparr>address = address n, blk_size = blk_size n\<rparr> # ns @ ext)"
    unfolding n using Cons.prems(1) by simp
  note s = Insert_step [OF this i, unfolded n]
  have cc: "m_classCachedBytes pa1 = m_classCachedBytes pa" by (subst s(3)) simp
  have le: "ucast (blk_size n) \<le> m_classCachedBytes pa1"
    using Cons.prems(2) by (simp add: cc u64_le_unat)
  let ?pa2 = "pa1\<lparr>m_hasMainArenaFree := True,
      m_classCachedBytes := m_classCachedBytes pa1 - ucast (blk_size n), nodeFree := Suc (nodeFree pa1)\<rparr>"
  have e: "reclaim_nodes (n # ns) pa = reclaim_nodes ns ?pa2"
    using le by (simp add: i Let_def FreeNode_def)
  have u: "unat (m_classCachedBytes ?pa2) = unat (m_classCachedBytes pa) - bsz n"
    using unat_minus_no_wrap [OF le] by (simp add: cc)
  have g: "geo g lo hi (m_freeList ?pa2) (ns @ ext)" using s(1) by simp
  have m: "sum_list (map bsz ns) \<le> unat (m_classCachedBytes ?pa2)" using Cons.prems(2) u by simp
  note ih = Cons.IH [OF g m]
  show ?case unfolding e
  proof (intro conjI)
    show "geo g lo hi (m_freeList (reclaim_nodes ns ?pa2)) ext" using ih by blast
    show "nodeFree (reclaim_nodes ns ?pa2) + length (m_freeList (reclaim_nodes ns ?pa2)) =
      nodeFree pa + length (m_freeList pa) + length (n # ns)" using ih s(2) by simp
    show "unat (m_classCachedBytes (reclaim_nodes ns ?pa2)) =
      unat (m_classCachedBytes pa) - sum_list (map bsz (n # ns))" using ih u by simp
    have f: "?pa2 = pa\<lparr>m_freeList := m_freeList ?pa2, nodeFree := nodeFree ?pa2,
        m_hasMainArenaFree := True, m_classCachedBytes := m_classCachedBytes ?pa2\<rparr>"
      by (subst s(3)) simp
    have "reclaim_nodes ns ?pa2 = ?pa2\<lparr>m_freeList := m_freeList (reclaim_nodes ns ?pa2),
       nodeFree := nodeFree (reclaim_nodes ns ?pa2),
       m_hasMainArenaFree := m_hasMainArenaFree (reclaim_nodes ns ?pa2),
       m_classCachedBytes := m_classCachedBytes (reclaim_nodes ns ?pa2)\<rparr>" using ih by blast
    also have "\<dots> = pa\<lparr>m_freeList := m_freeList (reclaim_nodes ns ?pa2),
       nodeFree := nodeFree (reclaim_nodes ns ?pa2),
       m_hasMainArenaFree := m_hasMainArenaFree (reclaim_nodes ns ?pa2),
       m_classCachedBytes := m_classCachedBytes (reclaim_nodes ns ?pa2)\<rparr>"
      by (subst f) simp
    finally show "reclaim_nodes ns ?pa2 = pa\<lparr>m_freeList := m_freeList (reclaim_nodes ns ?pa2),
       nodeFree := nodeFree (reclaim_nodes ns ?pa2),
       m_hasMainArenaFree := m_hasMainArenaFree (reclaim_nodes ns ?pa2),
       m_classCachedBytes := m_classCachedBytes (reclaim_nodes ns ?pa2)\<rparr>" .
    show "0 < nodeFree pa \<longrightarrow> 0 < nodeFree (reclaim_nodes ns ?pa2) \<and>
       (\<forall>x. cover (m_freeList (reclaim_nodes ns ?pa2)) x = cover (m_freeList pa @ n # ns) x)"
      using ih s(4,5) by simp
  qed
qed

text \<open>What an operation leaves alone while it moves blocks between the lists.\<close>

definition same_rest :: "proxy_allocator \<Rightarrow> proxy_allocator \<Rightarrow> bool" where
  "same_rest pa pa' \<longleftrightarrow>
     m_arenaBase pa' = m_arenaBase pa \<and> m_arenaSize pa' = m_arenaSize pa \<and>
     m_allocGranularity pa' = m_allocGranularity pa \<and> m_topDownBytes pa' = m_topDownBytes pa \<and>
     m_ownsArena pa' = m_ownsArena pa \<and> m_nodePoolMem pa' = m_nodePoolMem pa \<and>
     m_nodePoolSize pa' = m_nodePoolSize pa \<and> m_usedBytes pa' = m_usedBytes pa \<and>
     m_liveRequestedBytes pa' = m_liveRequestedBytes pa \<and>
     m_activeAllocations pa' = m_activeAllocations pa \<and>
     m_totalAllocationRequests pa' = m_totalAllocationRequests pa \<and>
     m_totalAllocationFailures pa' = m_totalAllocationFailures pa \<and>
     m_totalGrantedBytes pa' = m_totalGrantedBytes pa \<and> m_totalFreedBytes pa' = m_totalFreedBytes pa \<and>
     m_totalReusedBytes pa' = m_totalReusedBytes pa \<and>
     m_bandReqBytes pa' = m_bandReqBytes pa \<and> m_bandSlotBytes pa' = m_bandSlotBytes pa"

lemma same_rest_refl [simp]: "same_rest pa pa"
  by (simp add: same_rest_def)

lemma same_rest_trans: "same_rest a b \<Longrightarrow> same_rest b c \<Longrightarrow> same_rest a c"
  by (simp add: same_rest_def)

lemma same_rest_update:
  assumes "pa' = pa\<lparr>m_freeList := a, nodeFree := b, m_hasMainArenaFree := c, m_classCachedBytes := d\<rparr>"
  shows "same_rest pa pa'" "m_sizeClasses pa' = m_sizeClasses pa"
  using assms by (simp_all add: same_rest_def)

lemma cached_clear:
  assumes "i < length cs"
  shows "mset (cached cs) = mset (sc_head (cs ! i)) +
           mset (cached (cs[i := (cs ! i)\<lparr>sc_head := [], sc_count := 0\<rparr>]))"
  unfolding cached_def
  by (subst concat_map_nth [OF assms, of sc_head], subst concat_map_update_nth [OF assms]) simp

lemma wf_classes_clear:
  assumes "wf_classes cs" "i < length cs"
  shows "wf_classes (cs[i := (cs ! i)\<lparr>sc_head := [], sc_count := 0\<rparr>])" (is "wf_classes (cs[i := ?c])")
proof -
  have "wf_class ?c" by (simp add: wf_class_def kMaxCachedPerClass_def)
  moreover have "map classSize (cs[i := ?c]) = map classSize cs"
    using assms(2) list_update_id [of "map classSize cs" i] by (simp add: map_update)
  ultimately show ?thesis using assms set_update_subset_insert [of cs i ?c]
    by (auto simp: wf_classes_def)
qed

lemma sum_mset_list: "mset xs = mset ys \<Longrightarrow> sum_list (map f xs) = (sum_list (map f ys) :: nat)"
  by (metis mset_map sum_mset_sum_list)

lemma reclaim_class_step:
  assumes "pa_core pa ext k" "i < length (m_sizeClasses pa)"
  shows "pa_core (reclaim_class i pa) ext k" "same_rest pa (reclaim_class i pa)"
    "m_sizeClasses (reclaim_class i pa) =
       (m_sizeClasses pa)[i := (m_sizeClasses pa ! i)\<lparr>sc_head := [], sc_count := 0\<rparr>]"
    "0 < nodeFree pa \<Longrightarrow> 0 < nodeFree (reclaim_class i pa) \<and>
       (\<forall>x. cover (all_blocks (reclaim_class i pa) ext) x = cover (all_blocks pa ext) x)"
proof -
  let ?cs = "m_sizeClasses pa" and ?ns = "sc_head (m_sizeClasses pa ! i)"
  let ?cs' = "?cs[i := (?cs ! i)\<lparr>sc_head := [], sc_count := 0\<rparr>]"
  let ?r = "reclaim_nodes ?ns pa"
  have ms: "mset (cached ?cs) = mset (?ns @ cached ?cs')" using cached_clear [OF assms(2)] by simp
  have g: "geo (gran pa) (arena_lo pa) (arena_hi pa) (m_freeList pa) (?ns @ cached ?cs' @ ext)"
  proof (rule geo_mset)
    show "mset (cached ?cs @ ext) = mset (?ns @ cached ?cs' @ ext)"
      by (simp only: mset_append ms add.assoc)
    show "geo (gran pa) (arena_lo pa) (arena_hi pa) (m_freeList pa) (cached ?cs @ ext)"
      using assms(1) by (simp add: pa_core_def)
  qed
  have sm: "sum_list (map bsz (cached ?cs)) = sum_list (map bsz (?ns @ cached ?cs'))"
    using ms by (rule sum_mset_list)
  then have le: "sum_list (map bsz ?ns) \<le> unat (m_classCachedBytes pa)"
    using assms(1) by (simp add: pa_core_def)
  note r = reclaim_nodes_step [OF g le]
  note st = r [THEN conjunct1] r [THEN conjunct2, THEN conjunct1]
    r [THEN conjunct2, THEN conjunct2, THEN conjunct1]
    r [THEN conjunct2, THEN conjunct2, THEN conjunct2, THEN conjunct1]
    r [THEN conjunct2, THEN conjunct2, THEN conjunct2, THEN conjunct2]
  note fr = same_rest_update [OF st(4)]
  have rc: "reclaim_class i pa = ?r\<lparr>m_sizeClasses := ?cs'\<rparr>"
    by (simp add: reclaim_class_def Let_def fr(2))
  show "m_sizeClasses (reclaim_class i pa) = ?cs'" by (simp add: rc)
  show sr: "same_rest pa (reclaim_class i pa)" using fr(1) by (simp add: rc same_rest_def)
  have len: "length (cached ?cs) = length ?ns + length (cached ?cs')"
    using ms by (metis length_append size_mset)
  show "pa_core (reclaim_class i pa) ext k"
    using assms(1) st(1-3) fr(1) len sm wf_classes_clear [OF _ assms(2)]
    by (simp add: pa_core_def rc same_rest_def)
  assume "0 < nodeFree pa"
  then have "0 < nodeFree ?r \<and> (\<forall>x. cover (m_freeList ?r) x = cover (m_freeList pa @ ?ns) x)"
    using st(5) by blast
  moreover have "cover (cached ?cs) x = cover (?ns @ cached ?cs') x" for x using ms by (rule cover_mset)
  ultimately show "0 < nodeFree (reclaim_class i pa) \<and>
       (\<forall>x. cover (all_blocks (reclaim_class i pa) ext) x = cover (all_blocks pa ext) x)"
    by (simp add: rc all_blocks_def)
qed

text \<open>Draining every class empties the caches and keeps the invariant.\<close>

lemma reclaim_upto:
  assumes "pa_core pa ext k" "m \<le> length (m_sizeClasses pa)"
  shows "pa_core (fold reclaim_class [0..<m] pa) ext k \<and> same_rest pa (fold reclaim_class [0..<m] pa) \<and>
    length (m_sizeClasses (fold reclaim_class [0..<m] pa)) = length (m_sizeClasses pa) \<and>
    (\<forall>j<m. sc_head (m_sizeClasses (fold reclaim_class [0..<m] pa) ! j) = []) \<and>
    (0 < nodeFree pa \<longrightarrow> 0 < nodeFree (fold reclaim_class [0..<m] pa) \<and>
      (\<forall>x. cover (all_blocks (fold reclaim_class [0..<m] pa) ext) x = cover (all_blocks pa ext) x))"
  using assms(2)
proof (induction m)
  case 0
  then show ?case using assms(1) by simp
next
  case (Suc m)
  let ?p = "fold reclaim_class [0..<m] pa"
  have ih: "pa_core ?p ext k" "same_rest pa ?p" "length (m_sizeClasses ?p) = length (m_sizeClasses pa)"
    "\<forall>j<m. sc_head (m_sizeClasses ?p ! j) = []"
    "0 < nodeFree pa \<longrightarrow> 0 < nodeFree ?p \<and> (\<forall>x. cover (all_blocks ?p ext) x = cover (all_blocks pa ext) x)"
    using Suc by auto
  have lt: "m < length (m_sizeClasses ?p)" using Suc.prems ih(3) by simp
  note s = reclaim_class_step [OF ih(1) lt]
  have f: "fold reclaim_class [0..<Suc m] pa = reclaim_class m ?p" by simp
  show ?case unfolding f
    using s ih same_rest_trans [OF ih(2) s(2)] lt by (auto simp: nth_list_update less_Suc_eq)
qed

lemma ReclaimCache_step:
  assumes "pa_core pa ext k"
  shows "pa_core (ReclaimCache pa) ext k" "same_rest pa (ReclaimCache pa)"
    "cached (m_sizeClasses (ReclaimCache pa)) = []"
    "0 < nodeFree pa \<Longrightarrow> 0 < nodeFree (ReclaimCache pa)"
    "0 < nodeFree pa \<Longrightarrow> cover (all_blocks (ReclaimCache pa) ext) x = cover (all_blocks pa ext) x"
  using reclaim_upto [OF assms order_refl]
  by (auto simp: ReclaimCache_def cached_def in_set_conv_nth)

lemma geo_nonnull:
  "geo g lo hi fl ext \<Longrightarrow> 0 < lo \<Longrightarrow> b \<in> set (fl @ ext) \<Longrightarrow> address b \<noteq> 0"
proof
  assume a: "geo g lo hi fl ext" "0 < lo" "b \<in> set (fl @ ext)" "address b = 0"
  then have "wf_block g lo hi b" unfolding geo_def by blast
  then show False using a by (simp add: wf_block_def)
qed

lemma insert_frame:
  "pa' = pa\<lparr>m_freeList := a, nodeFree := b\<rparr> \<Longrightarrow>
   same_rest pa pa' \<and> m_sizeClasses pa' = m_sizeClasses pa \<and> m_classCachedBytes pa' = m_classCachedBytes pa"
  by (simp add: same_rest_def)

text \<open>Carving a rounded request out of the free list.\<close>

lemma Take_step:
  assumes "pa_core pa ext k" "req_ok (m_allocGranularity pa) sz"
    and "TakeFreeFit sz fromTop pa = (removed, gs, ga, pa')"
  shows "ga \<noteq> 0 \<Longrightarrow> gs = AlignUp sz (m_allocGranularity pa)"
    and "ga \<noteq> 0 \<Longrightarrow> pa_core pa' (\<lparr>address = ga, blk_size = gs\<rparr> # ext) (k + of_bool removed)"
    and "ga \<noteq> 0 \<Longrightarrow> cover (all_blocks pa' (\<lparr>address = ga, blk_size = gs\<rparr> # ext)) x = cover (all_blocks pa ext) x"
    and "ga = 0 \<Longrightarrow> pa' = pa \<and> (\<forall>b\<in>set (m_freeList pa). blk_size b < AlignUp sz (m_allocGranularity pa))"
    and "same_rest pa pa'" "m_sizeClasses pa' = m_sizeClasses pa" "nodeFree pa' = nodeFree pa"
    and "m_classCachedBytes pa' = m_classCachedBytes pa"
proof -
  let ?g = "m_allocGranularity pa" and ?need = "AlignUp sz (m_allocGranularity pa)"
  have gr: "gran_ok ?g" using assms(1) by (simp add: pa_core_def)
  note al = req_ok_AlignUp [OF gr assms(2)]
  have geo: "geo (unat ?g) (arena_lo pa) (arena_hi pa) (m_freeList pa) (cached (m_sizeClasses pa) @ ext)"
    using assms(1) by (simp add: pa_core_def)
  have all: "(ga \<noteq> 0 \<longrightarrow> gs = ?need \<and> pa_core pa' (\<lparr>address = ga, blk_size = gs\<rparr> # ext) (k + of_bool removed) \<and>
      (\<forall>x. cover (all_blocks pa' (\<lparr>address = ga, blk_size = gs\<rparr> # ext)) x = cover (all_blocks pa ext) x)) \<and>
     (ga = 0 \<longrightarrow> pa' = pa \<and> (\<forall>b\<in>set (m_freeList pa). blk_size b < ?need)) \<and> same_rest pa pa' \<and>
     m_sizeClasses pa' = m_sizeClasses pa \<and> nodeFree pa' = nodeFree pa \<and>
     m_classCachedBytes pa' = m_classCachedBytes pa"
  proof (cases "find_fit ?g ?need fromTop (m_freeList pa)")
    case None
    then show ?thesis using assms(3) find_fit_None [of ?g ?need fromTop "m_freeList pa"]
      by (simp add: TakeFreeFit_def)
  next
    case (Some c)
    note cv = geo_carve [OF geo al(1,4) Some]
    have e: "removed = c_taken c" "gs = c_size c" "ga = c_addr c" "pa' = pa\<lparr>m_freeList := c_list c\<rparr>"
      using assms(3) Some by (auto simp: TakeFreeFit_def)
    have ok: "c_size c = ?need" "\<And>x. cover (granted c # c_list c) x = cover (m_freeList pa) x"
      "length (c_list c) + of_bool (c_taken c) = length (m_freeList pa)"
      using cv(2) unfolding carve_ok_def by blast+
    have ga: "ga \<noteq> 0" using geo_nonnull [OF cv(1), of "granted c"] assms(1) e(3)
      by (simp add: pa_core_def)
    have "geo (unat ?g) (arena_lo pa) (arena_hi pa) (c_list c) (cached (m_sizeClasses pa) @ granted c # ext)"
      by (rule geo_mset [OF _ cv(1)]) simp
    then have "pa_core pa' (granted c # ext) (k + of_bool removed)"
      using assms(1) ok(3) by (simp add: pa_core_def e)
    moreover have "cover (all_blocks pa' (granted c # ext)) x = cover (all_blocks pa ext) x" for x
      using ok(2) [of x] by (simp add: all_blocks_def e)
    ultimately show ?thesis using ga ok(1) e by (simp add: same_rest_def del: of_bool_eq_iff)
  qed
  then show "ga \<noteq> 0 \<Longrightarrow> gs = ?need"
    "ga \<noteq> 0 \<Longrightarrow> pa_core pa' (\<lparr>address = ga, blk_size = gs\<rparr> # ext) (k + of_bool removed)"
    "ga \<noteq> 0 \<Longrightarrow> cover (all_blocks pa' (\<lparr>address = ga, blk_size = gs\<rparr> # ext)) x = cover (all_blocks pa ext) x"
    "ga = 0 \<Longrightarrow> pa' = pa \<and> (\<forall>b\<in>set (m_freeList pa). blk_size b < ?need)"
    "same_rest pa pa'" "m_sizeClasses pa' = m_sizeClasses pa" "nodeFree pa' = nodeFree pa"
    "m_classCachedBytes pa' = m_classCachedBytes pa"
    by blast+
qed

text \<open>A cache hit: the state after the node is back in the pool and the counter is lowered.\<close>

lemma Pop_step:
  assumes "pa_core pa ext k" "PopSizeClass s (m_sizeClasses pa) = Some (n, cs')"
  defines "pa' \<equiv> pa\<lparr>m_sizeClasses := cs', nodeFree := Suc (nodeFree pa),
                   m_classCachedBytes := m_classCachedBytes pa - ucast (blk_size n)\<rparr>"
  shows "blk_size n = s" "ucast (blk_size n) \<le> m_classCachedBytes pa" "pa_core pa' (n # ext) k"
    "cover (all_blocks pa' (n # ext)) x = cover (all_blocks pa ext) x" "address n \<noteq> 0"
proof -
  have wf: "wf_classes (m_sizeClasses pa)" using assms(1) by (simp add: pa_core_def)
  then have "\<forall>c\<in>set (m_sizeClasses pa). wf_class c" by (simp add: wf_classes_def)
  note p = PopSizeClass_Some [OF assms(2) this]
  show "blk_size n = s" using p by blast
  have ms: "mset (cached (m_sizeClasses pa)) = mset (n # cached cs')" using p by simp
  have sm: "sum_list (map bsz (cached (m_sizeClasses pa))) = bsz n + sum_list (map bsz (cached cs'))"
    using sum_mset_list [OF ms, of bsz] by simp
  show le: "ucast (blk_size n) \<le> m_classCachedBytes pa"
    using assms(1) sm by (simp add: pa_core_def u64_le_unat)
  have g: "geo (gran pa) (arena_lo pa) (arena_hi pa) (m_freeList pa) (cached cs' @ n # ext)"
  proof (rule geo_mset)
    show "mset (cached (m_sizeClasses pa) @ ext) = mset (cached cs' @ n # ext)" using ms by simp
    show "geo (gran pa) (arena_lo pa) (arena_hi pa) (m_freeList pa) (cached (m_sizeClasses pa) @ ext)"
      using assms(1) by (simp add: pa_core_def)
  qed
  have len: "length (cached (m_sizeClasses pa)) = Suc (length (cached cs'))"
    using ms by (metis length_Cons size_mset)
  show "pa_core pa' (n # ext) k"
    using assms(1) g len sm PopSizeClass_wf [OF assms(2) wf] unat_minus_no_wrap [OF le]
    by (simp add: pa_core_def pa'_def)
  show "cover (all_blocks pa' (n # ext)) x = cover (all_blocks pa ext) x"
    using cover_mset [OF ms, of x] by (simp add: all_blocks_def pa'_def)
  show "address n \<noteq> 0"
    using assms(1) g geo_nonnull [OF g, of n] by (simp add: pa_core_def)
qed

text \<open>Releasing a block that is outside: cached in its class, or coalesced.\<close>

lemma Push_step:
  assumes "pa_core pa (b # ext) 0" "b = \<lparr>address = a, blk_size = s\<rparr>"
    and "PushSizeClass a s (m_sizeClasses pa) (nodeFree pa) = (ok, cs', nodes)"
  defines "pa1 \<equiv> pa\<lparr>m_sizeClasses := cs', nodeFree := nodes\<rparr>"
  defines "pa' \<equiv> (if ok then pa1\<lparr>m_classCachedBytes := m_classCachedBytes pa + ucast s\<rparr>
                   else (snd (InsertFreeSortedAndCoalesce a s pa1))\<lparr>m_hasMainArenaFree := True\<rparr>)"
  shows "pa_core pa' ext 0" "same_rest pa pa'"
    "0 < nodeFree pa \<Longrightarrow> cover (all_blocks pa' ext) x = cover (all_blocks pa (b # ext)) x"
proof -
  have wf: "wf_classes (m_sizeClasses pa)" using assms(1) by (simp add: pa_core_def)
  note p = PushSizeClass_correct [OF assms(3) wf]
  have geo0: "geo (gran pa) (arena_lo pa) (arena_hi pa) (m_freeList pa) (cached (m_sizeClasses pa) @ b # ext)"
    using assms(1) by (simp add: pa_core_def)
  have "pa_core pa' ext 0 \<and> same_rest pa pa' \<and>
    (0 < nodeFree pa \<longrightarrow> cover (all_blocks pa' ext) x = cover (all_blocks pa (b # ext)) x)"
  proof (cases ok)
    case True
    have ms: "mset (cached cs') = mset (b # cached (m_sizeClasses pa))" using p True assms(2) by simp
    have sm: "sum_list (map bsz (cached cs')) = unat s + sum_list (map bsz (cached (m_sizeClasses pa)))"
      using sum_mset_list [OF ms, of bsz] assms(2) by simp
    have g: "geo (gran pa) (arena_lo pa) (arena_hi pa) (m_freeList pa) (cached cs' @ ext)"
      by (rule geo_mset [OF _ geo0]) (use ms in simp)
    have "sum_list (map bsz (m_freeList pa @ cached cs' @ ext)) \<le> arena_hi pa - arena_lo pa"
      using g unfolding geo_def by (intro sum_blocks_le) (auto simp: wf_block_def)
    then have "sum_list (map bsz (cached cs')) < 4294967296"
      using unat_lt_2p32 [of "m_arenaSize pa"] by simp
    then have "unat (m_classCachedBytes pa + ucast s) = sum_list (map bsz (cached cs'))"
      using assms(1) sm by (subst unat_u64_plus) (auto simp: pa_core_def)
    moreover have "length (cached cs') = Suc (length (cached (m_sizeClasses pa)))"
      using ms by (metis length_Cons size_mset)
    ultimately have "pa_core pa' ext 0"
      using assms(1) p True g by (simp add: pa_core_def pa'_def pa1_def)
    then show ?thesis using True cover_mset [OF ms, of x]
      by (simp add: same_rest_def pa'_def pa1_def all_blocks_def)
  next
    case False
    have ms: "mset (cached cs') = mset (cached (m_sizeClasses pa))" using p False by simp
    have nd: "nodes = nodeFree pa" using p False by simp
    obtain ok2 pa2 where i: "InsertFreeSortedAndCoalesce a s pa1 = (ok2, pa2)"
      by (cases "InsertFreeSortedAndCoalesce a s pa1")
    have g: "geo (gran pa) (arena_lo pa) (arena_hi pa) (m_freeList pa1)
        (\<lparr>address = a, blk_size = s\<rparr> # cached cs' @ ext)"
      using geo0 by (auto simp: pa1_def assms(2) ms intro: geo_mset [OF _ geo0])
    note st = Insert_step [OF g i]
    note fr = insert_frame [OF st(3)]
    have e: "pa' = pa2\<lparr>m_hasMainArenaFree := True\<rparr>" using False i by (simp add: pa'_def)
    have sr: "same_rest pa pa'" using fr by (simp add: e same_rest_def pa1_def)
    have "wf_classes cs'" using p by blast
    moreover have "length (cached cs') = length (cached (m_sizeClasses pa))"
      using ms by (metis size_mset)
    ultimately have "pa_core pa' ext 0"
      using assms(1) st(1,2) fr sum_mset_list [OF ms, of bsz] nd
      by (simp add: pa_core_def e pa1_def same_rest_def)
    moreover have "cover (all_blocks pa' ext) x = cover (all_blocks pa (b # ext)) x" if "0 < nodeFree pa"
      using st(4) st(5) [of x] that nd fr cover_mset [OF ms, of x]
      by (simp add: all_blocks_def e pa1_def assms(2))
    ultimately show ?thesis using sr by blast
  qed
  then show "pa_core pa' ext 0" "same_rest pa pa'"
    "0 < nodeFree pa \<Longrightarrow> cover (all_blocks pa' ext) x = cover (all_blocks pa (b # ext)) x"
    by blast+
qed

subsection \<open>Allocate\<close>

text \<open>The fields that the geometry and the node count depend on.\<close>

definition core_eq :: "proxy_allocator \<Rightarrow> proxy_allocator \<Rightarrow> bool" where
  "core_eq a b \<longleftrightarrow>
     m_allocGranularity a = m_allocGranularity b \<and> m_arenaBase a = m_arenaBase b \<and>
     m_arenaSize a = m_arenaSize b \<and> m_freeList a = m_freeList b \<and>
     m_sizeClasses a = m_sizeClasses b \<and> nodeFree a = nodeFree b \<and>
     m_classCachedBytes a = m_classCachedBytes b"

lemma core_eq_core: "core_eq a b \<Longrightarrow> pa_core a ext k \<longleftrightarrow> pa_core b ext k"
  by (simp add: core_eq_def pa_core_def)

lemma core_eq_all_blocks: "core_eq a b \<Longrightarrow> all_blocks a ext = all_blocks b ext"
  by (simp add: core_eq_def all_blocks_def)

lemma account_grant_core_eq [simp]: "core_eq (account_grant sz gs pa) pa"
  by (simp add: core_eq_def account_grant_def Let_def)

text \<open>The counters as sums over the live list.\<close>

definition counters_ok :: "proxy_allocator \<Rightarrow> (u32 \<times> u32) list \<Rightarrow> bool" where
  "counters_ok pa live \<longleftrightarrow>
     (\<forall>pr\<in>set live. req_ok (m_allocGranularity pa) (snd pr)) \<and>
     unat (m_usedBytes pa) = sum_list (map (\<lambda>pr. bsz (slot (m_allocGranularity pa) pr)) live) \<and>
     unat (m_liveRequestedBytes pa) = sum_list (map (\<lambda>pr. unat (snd pr)) live) \<and>
     unat (m_activeAllocations pa) = length live"

lemma pa_inv_split:
  "pa_inv pa live \<longleftrightarrow> pa_core pa (map (slot (m_allocGranularity pa)) live) 0 \<and> counters_ok pa live"
  by (simp add: pa_inv_def counters_ok_def)

lemma live_sums_bound:
  assumes "pa_core pa (map (slot (m_allocGranularity pa)) live) k"
    and "\<forall>pr\<in>set live. req_ok (m_allocGranularity pa) (snd pr)"
  shows "sum_list (map (\<lambda>pr. bsz (slot (m_allocGranularity pa) pr)) live) < 4294967296"
    "sum_list (map (\<lambda>pr. unat (snd pr)) live) < 4294967296" "length live < 4294967296"
proof -
  let ?g = "m_allocGranularity pa"
  have gr: "gran_ok ?g" using assms(1) by (simp add: pa_core_def)
  have geo: "geo (unat ?g) (arena_lo pa) (arena_hi pa) (m_freeList pa)
      (cached (m_sizeClasses pa) @ map (slot ?g) live)" using assms(1) by (simp add: pa_core_def)
  have c: "cover (map (slot ?g) live) x \<le> 1" for x
  proof -
    have "cover (m_freeList pa @ cached (m_sizeClasses pa) @ map (slot ?g) live) x \<le> 1"
      using geo unfolding geo_def by blast
    then show ?thesis by simp
  qed
  have w: "\<forall>b\<in>set (map (slot ?g) live). wf_block (unat ?g) (arena_lo pa) (arena_hi pa) b"
    using geo unfolding geo_def by simp
  have "sum_list (map bsz (map (slot ?g) live)) \<le> arena_hi pa - arena_lo pa"
    using w c by (intro sum_blocks_le) (auto simp: wf_block_def)
  then show u: "sum_list (map (\<lambda>pr. bsz (slot ?g pr)) live) < 4294967296"
    using unat_lt_2p32 [of "m_arenaSize pa"] by (simp add: comp_def)
  have "sum_list (map (\<lambda>pr. unat (snd pr)) live) \<le> sum_list (map (\<lambda>pr. bsz (slot ?g pr)) live)"
    using assms(2) by (intro sum_list_mono) (auto simp: slot_def intro: req_ok_AlignUp(2) [OF gr])
  then show "sum_list (map (\<lambda>pr. unat (snd pr)) live) < 4294967296" using u by simp
  have "sum_list (map (\<lambda>pr. 1) live) \<le> sum_list (map (\<lambda>pr. unat (snd pr)) live)"
    using assms(2) by (intro sum_list_mono) (auto simp: req_ok_def)
  then show "length live < 4294967296" using u
    \<open>sum_list (map (\<lambda>pr. unat (snd pr)) live) < 4294967296\<close>
    by (simp add: sum_list_triv)
qed

lemma grant_step:
  assumes "pa_core q (slot (m_allocGranularity q) (p, sz) # map (slot (m_allocGranularity q)) live) 0"
    and "req_ok (m_allocGranularity q) sz" "counters_ok q live"
  shows "pa_inv (account_grant sz (AlignUp sz (m_allocGranularity q)) q) ((p, sz) # live)"
proof -
  let ?q = "account_grant sz (AlignUp sz (m_allocGranularity q)) q"
  have gq: "m_allocGranularity ?q = m_allocGranularity q" by (simp add: account_grant_def Let_def)
  have core: "pa_core ?q (map (slot (m_allocGranularity q)) ((p, sz) # live)) 0"
    using assms(1) core_eq_core [OF account_grant_core_eq] by simp
  have rq: "\<forall>pr\<in>set ((p, sz) # live). req_ok (m_allocGranularity q) (snd pr)"
    using assms(2,3) by (simp add: counters_ok_def)
  note b = live_sums_bound [of ?q "(p, sz) # live", unfolded gq, OF core rq]
  have "unat (m_usedBytes q + AlignUp sz (m_allocGranularity q)) =
      sum_list (map (\<lambda>pr. bsz (slot (m_allocGranularity q) pr)) ((p, sz) # live))"
    using b(1) assms(3) by (subst u32_plus) (auto simp: counters_ok_def slot_def)
  moreover have "unat (m_liveRequestedBytes q + sz) = sum_list (map (\<lambda>pr. unat (snd pr)) ((p, sz) # live))"
    using b(2) assms(3) by (subst u32_plus) (auto simp: counters_ok_def)
  moreover have "unat (m_activeAllocations q + 1) = Suc (length live)"
    using b(3) assms(3) by (subst unat_u64_plus) (auto simp: counters_ok_def)
  ultimately have "counters_ok ?q ((p, sz) # live)"
    using rq by (simp add: counters_ok_def account_grant_def Let_def)
  then show ?thesis using core by (simp add: pa_inv_split gq del: list.map)
qed

lemma counters_same_rest: "same_rest pa q \<Longrightarrow> counters_ok q live \<longleftrightarrow> counters_ok pa live"
  by (simp add: same_rest_def counters_ok_def)

text \<open>The state after the request is counted; it has the invariant of the state before.\<close>

abbreviation counted :: "proxy_allocator \<Rightarrow> proxy_allocator" where
  "counted pa \<equiv> pa\<lparr>m_totalAllocationRequests := m_totalAllocationRequests pa + 1\<rparr>"

text \<open>
  The three ways \<open>Allocate\<close> ends when the arena exists: a cache hit, a carve (after a drain
  of the caches when that was needed), and a failure.
\<close>

lemma Allocate_hit:
  assumes "m_arenaBase pa \<noteq> 0"
    and "PopSizeClass (AlignUp sz (m_allocGranularity pa)) (m_sizeClasses pa) = Some (n, cs')"
    and "ucast (blk_size n) \<le> m_classCachedBytes pa"
  shows "Allocate sz fromTop pa = (address n, account_grant sz (blk_size n)
    (pa\<lparr>m_totalAllocationRequests := m_totalAllocationRequests pa + 1, m_sizeClasses := cs',
        nodeFree := Suc (nodeFree pa),
        m_classCachedBytes := m_classCachedBytes pa - ucast (blk_size n),
        m_totalReusedBytes := m_totalReusedBytes pa + ucast (blk_size n)\<rparr>))"
  using assms by (simp add: Allocate_def Let_def FreeNode_def)

definition take_or_reclaim :: "u32 \<Rightarrow> bool \<Rightarrow> proxy_allocator \<Rightarrow> bool \<times> u32 \<times> u32 \<times> proxy_allocator" where
  "take_or_reclaim sz fromTop pa =
     (let (removed, gs, ga, pa1) = TakeFreeFit sz fromTop pa
      in if ga = 0 \<and> m_classCachedBytes pa1 > 0 then TakeFreeFit sz fromTop (ReclaimCache pa1)
         else (removed, gs, ga, pa1))"

lemma Allocate_carve:
  assumes "m_arenaBase pa \<noteq> 0"
    and "PopSizeClass (AlignUp sz (m_allocGranularity pa)) (m_sizeClasses pa) = None"
    and "take_or_reclaim sz fromTop (counted pa) = (removed, gs, ga, pa1)"
  shows "Allocate sz fromTop pa =
    (if ga = 0 then (0, pa1\<lparr>m_totalAllocationFailures := m_totalAllocationFailures pa1 + 1\<rparr>)
     else (ga, account_grant sz gs (if removed then pa1\<lparr>nodeFree := Suc (nodeFree pa1)\<rparr> else pa1)))"
proof -
  obtain r0 gs0 ga0 q0 where t: "TakeFreeFit sz fromTop (counted pa) = (r0, gs0, ga0, q0)"
    by (cases "TakeFreeFit sz fromTop (counted pa)")
  show ?thesis using assms t
    by (auto simp: Allocate_def Let_def take_or_reclaim_def FreeNode_def split: if_splits prod.splits)
qed

lemma take_or_reclaim_step:
  assumes "pa_core pa ext 0" "req_ok (m_allocGranularity pa) sz"
    and "take_or_reclaim sz fromTop pa = (removed, gs, ga, pa1)"
  shows "same_rest pa pa1"
    and "ga \<noteq> 0 \<Longrightarrow> gs = AlignUp sz (m_allocGranularity pa) \<and>
           pa_core pa1 (\<lparr>address = ga, blk_size = gs\<rparr> # ext) (of_bool removed)"
    and "ga = 0 \<Longrightarrow> pa_core pa1 ext 0 \<and> cached (m_sizeClasses pa1) = [] \<and>
           (\<forall>b\<in>set (m_freeList pa1). blk_size b < AlignUp sz (m_allocGranularity pa))"
    and "0 < nodeFree pa \<Longrightarrow> cover (all_blocks pa1 (if ga = 0 then ext
           else \<lparr>address = ga, blk_size = gs\<rparr> # ext)) x = cover (all_blocks pa ext) x"
proof -
  obtain r0 gs0 ga0 q0 where t: "TakeFreeFit sz fromTop pa = (r0, gs0, ga0, q0)"
    by (cases "TakeFreeFit sz fromTop pa")
  note t0 = Take_step [OF assms(1,2) t]
  have "same_rest pa pa1 \<and>
    (ga \<noteq> 0 \<longrightarrow> gs = AlignUp sz (m_allocGranularity pa) \<and>
           pa_core pa1 (\<lparr>address = ga, blk_size = gs\<rparr> # ext) (of_bool removed)) \<and>
    (ga = 0 \<longrightarrow> pa_core pa1 ext 0 \<and> cached (m_sizeClasses pa1) = [] \<and>
           (\<forall>b\<in>set (m_freeList pa1). blk_size b < AlignUp sz (m_allocGranularity pa))) \<and>
    (0 < nodeFree pa \<longrightarrow> cover (all_blocks pa1 (if ga = 0 then ext
           else \<lparr>address = ga, blk_size = gs\<rparr> # ext)) x = cover (all_blocks pa ext) x)"
  proof (cases "ga0 = 0 \<and> 0 < m_classCachedBytes q0")
    case True
    let ?r = "ReclaimCache pa"
    have q0: "q0 = pa" using t0(4) True by blast
    have t1: "TakeFreeFit sz fromTop ?r = (removed, gs, ga, pa1)"
      using assms(3) t True q0 by (simp add: take_or_reclaim_def)
    note rc = ReclaimCache_step [OF assms(1)]
    have g: "m_allocGranularity ?r = m_allocGranularity pa" using rc(2) by (simp add: same_rest_def)
    note t2 = Take_step [OF rc(1) _ t1, unfolded g, OF assms(2)]
    show ?thesis
      using t2(1-4) rc(1,3,5) same_rest_trans [OF rc(2) t2(5)] by (auto split: if_splits)
  next
    case False
    have e: "removed = r0" "gs = gs0" "ga = ga0" "pa1 = q0"
      using assms(3) t False by (auto simp: take_or_reclaim_def)
    have "cached (m_sizeClasses pa) = []" if z: "ga0 = 0"
    proof -
      have "unat (m_classCachedBytes pa) = 0" using False z t0(8) by (simp add: word_gt_0)
      then have s0: "sum_list (map bsz (cached (m_sizeClasses pa))) = 0"
        using assms(1) by (simp add: pa_core_def)
      have "0 < bsz b" if "b \<in> set (cached (m_sizeClasses pa))" for b
        using assms(1) that unfolding pa_core_def geo_def by (auto simp: wf_block_def)
      then show ?thesis using s0 by (cases "cached (m_sizeClasses pa)", simp, force)
    qed
    then show ?thesis using t0(1-5) assms(1) e by auto
  qed
  then show "same_rest pa pa1"
    "ga \<noteq> 0 \<Longrightarrow> gs = AlignUp sz (m_allocGranularity pa) \<and>
           pa_core pa1 (\<lparr>address = ga, blk_size = gs\<rparr> # ext) (of_bool removed)"
    "ga = 0 \<Longrightarrow> pa_core pa1 ext 0 \<and> cached (m_sizeClasses pa1) = [] \<and>
           (\<forall>b\<in>set (m_freeList pa1). blk_size b < AlignUp sz (m_allocGranularity pa))"
    "0 < nodeFree pa \<Longrightarrow> cover (all_blocks pa1 (if ga = 0 then ext
           else \<lparr>address = ga, blk_size = gs\<rparr> # ext)) x = cover (all_blocks pa ext) x"
    by blast+
qed

lemma slot_eq [simp]: "slot g (a, r) = \<lparr>address = a, blk_size = AlignUp r g\<rparr>"
  by (simp add: slot_def)

lemma pa_inv_base: "pa_inv pa live \<Longrightarrow> m_arenaBase pa \<noteq> 0"
  by (auto simp: pa_inv_def pa_core_def)

text \<open>
  A grant extends the live list and a failure leaves it; while the node pool is not empty
  no address is lost.
\<close>

lemma Allocate_step:
  assumes "pa_inv pa live" "req_ok (m_allocGranularity pa) sz" "Allocate sz fromTop pa = (p, pa')"
  shows "p \<noteq> 0 \<Longrightarrow> pa_inv pa' ((p, sz) # live)" "p = 0 \<Longrightarrow> pa_inv pa' live"
    and "m_allocGranularity pa' = m_allocGranularity pa \<and> m_arenaBase pa' = m_arenaBase pa \<and>
         m_arenaSize pa' = m_arenaSize pa"
    and "0 < nodeFree pa \<Longrightarrow>
         cover (all_blocks pa' (map (slot (m_allocGranularity pa)) (if p = 0 then live else (p, sz) # live))) x =
         cover (all_blocks pa (map (slot (m_allocGranularity pa)) live)) x"
    and "p = 0 \<Longrightarrow> cached (m_sizeClasses pa') = [] \<and>
           (\<forall>b\<in>set (m_freeList pa'). blk_size b < AlignUp sz (m_allocGranularity pa))"
proof -
  let ?g = "m_allocGranularity pa" and ?ext = "map (slot (m_allocGranularity pa)) live"
  have core: "pa_core pa ?ext 0" and cnt: "counters_ok pa live" using assms(1) by (auto simp: pa_inv_split)
  have base: "m_arenaBase pa \<noteq> 0" using assms(1) by (rule pa_inv_base)
  have "(p \<noteq> 0 \<longrightarrow> pa_inv pa' ((p, sz) # live)) \<and> (p = 0 \<longrightarrow> pa_inv pa' live) \<and>
    (m_allocGranularity pa' = ?g \<and> m_arenaBase pa' = m_arenaBase pa \<and> m_arenaSize pa' = m_arenaSize pa) \<and>
    (0 < nodeFree pa \<longrightarrow> cover (all_blocks pa' (map (slot ?g) (if p = 0 then live else (p, sz) # live))) x =
       cover (all_blocks pa ?ext) x) \<and>
    (p = 0 \<longrightarrow> cached (m_sizeClasses pa') = [] \<and> (\<forall>b\<in>set (m_freeList pa'). blk_size b < AlignUp sz ?g))"
  proof (cases "PopSizeClass (AlignUp sz ?g) (m_sizeClasses pa)")
    case (Some a)
    obtain n cs' where a: "a = (n, cs')" by (cases a)
    let ?q = "pa\<lparr>m_totalAllocationRequests := m_totalAllocationRequests pa + 1, m_sizeClasses := cs',
        nodeFree := Suc (nodeFree pa),
        m_classCachedBytes := m_classCachedBytes pa - ucast (blk_size n),
        m_totalReusedBytes := m_totalReusedBytes pa + ucast (blk_size n)\<rparr>"
    note ps = Pop_step [OF core Some [unfolded a]]
    have e: "p = address n" "pa' = account_grant sz (AlignUp sz ?g) ?q"
      using Allocate_hit [OF base Some [unfolded a] ps(2), of fromTop] assms(3) ps(1) by auto
    have n: "n = slot ?g (p, sz)" using ps(1) e(1) by simp
    have qc: "pa_core ?q (slot ?g (p, sz) # ?ext) 0"
      using ps(3) n by (simp add: pa_core_def)
    have "pa_inv (account_grant sz (AlignUp sz (m_allocGranularity ?q)) ?q) ((p, sz) # live)"
      by (rule grant_step) (use qc assms(2) cnt in \<open>simp_all add: counters_ok_def\<close>)
    then have inv: "pa_inv pa' ((p, sz) # live)" by (simp add: e(2))
    have "cover (all_blocks pa' (slot ?g (p, sz) # ?ext)) x = cover (all_blocks pa ?ext) x"
      using ps(4) [of x, unfolded n] by (simp add: e(2) all_blocks_def account_grant_def Let_def)
    then show ?thesis using inv ps(5) e by (simp add: account_grant_def Let_def)
  next
    case None
    obtain removed gs ga pa1 where t: "take_or_reclaim sz fromTop (counted pa) = (removed, gs, ga, pa1)"
      by (cases "take_or_reclaim sz fromTop (counted pa)")
    have core': "pa_core (counted pa) ?ext 0" using core by (simp add: pa_core_def)
    have "req_ok (m_allocGranularity (counted pa)) sz" using assms(2) by simp
    note st = take_or_reclaim_step [OF core' this t]
    note al = Allocate_carve [OF base None t]
    have g1: "m_allocGranularity pa1 = ?g" "m_arenaBase pa1 = m_arenaBase pa" "m_arenaSize pa1 = m_arenaSize pa"
      and c1: "counters_ok pa1 live"
      using st(1) cnt by (auto simp: same_rest_def counters_ok_def)
    show ?thesis
    proof (cases "ga = 0")
      case True
      have e: "p = 0" "pa' = pa1\<lparr>m_totalAllocationFailures := m_totalAllocationFailures pa1 + 1\<rparr>"
        using al assms(3) True by auto
      have "pa_core pa' ?ext 0" using st(3) [OF True] by (auto simp: e pa_core_def)
      then have "pa_inv pa' live" using c1 g1 by (simp add: e pa_inv_split counters_ok_def)
      then show ?thesis using st(3,4) True g1 e by (auto simp: all_blocks_def)
    next
      case False
      let ?q = "if removed then pa1\<lparr>nodeFree := Suc (nodeFree pa1)\<rparr> else pa1"
      have gs: "gs = AlignUp sz ?g" using st(2) [OF False] by simp
      have e: "p = ga" "pa' = account_grant sz (AlignUp sz ?g) ?q"
        using al assms(3) False gs by auto
      have gq: "m_allocGranularity ?q = ?g" using g1 by simp
      have "pa_core ?q (slot ?g (ga, sz) # ?ext) 0"
        using st(2) [OF False] by (cases removed) (auto simp: pa_core_def)
      moreover have "counters_ok ?q live" using c1 by (simp add: counters_ok_def)
      ultimately have "pa_inv (account_grant sz (AlignUp sz (m_allocGranularity ?q)) ?q) ((ga, sz) # live)"
        using gq assms(2) by (intro grant_step) auto
      then have inv: "pa_inv pa' ((p, sz) # live)" using gq by (simp add: e)
      have ab: "all_blocks pa' ext = all_blocks pa1 ext" for ext
        by (simp add: e all_blocks_def account_grant_def Let_def)
      have "all_blocks (counted pa) ?ext = all_blocks pa ?ext" by (simp add: all_blocks_def)
      then have "0 < nodeFree pa \<longrightarrow> cover (all_blocks pa' (slot ?g (p, sz) # ?ext)) x = cover (all_blocks pa ?ext) x"
        using st(4) [of x] False gs by (simp add: e(1) ab)
      then show ?thesis using inv False e g1 by (simp add: account_grant_def Let_def)
    qed
  qed
  then show "p \<noteq> 0 \<Longrightarrow> pa_inv pa' ((p, sz) # live)" "p = 0 \<Longrightarrow> pa_inv pa' live"
    "m_allocGranularity pa' = ?g \<and> m_arenaBase pa' = m_arenaBase pa \<and> m_arenaSize pa' = m_arenaSize pa"
    "0 < nodeFree pa \<Longrightarrow>
         cover (all_blocks pa' (map (slot ?g) (if p = 0 then live else (p, sz) # live))) x =
         cover (all_blocks pa ?ext) x"
    "p = 0 \<Longrightarrow> cached (m_sizeClasses pa') = [] \<and> (\<forall>b\<in>set (m_freeList pa'). blk_size b < AlignUp sz ?g)"
    by blast+
qed

subsection \<open>Free\<close>

lemma live_block_wf:
  assumes "pa_inv pa live" "pr \<in> set live"
  shows "wf_block (gran pa) (arena_lo pa) (arena_hi pa) (slot (m_allocGranularity pa) pr)"
  using assms unfolding pa_inv_def pa_core_def geo_def by auto

lemma live_IsProxyAddress:
  assumes "pa_inv pa live" "(p, r) \<in> set live"
  shows "IsProxyAddress p pa" "p \<noteq> 0"
proof -
  have w: "wf_block (gran pa) (arena_lo pa) (arena_hi pa) (slot (m_allocGranularity pa) (p, r))"
    using live_block_wf [OF assms] .
  have c: "0 < arena_lo pa" "arena_hi pa < 4294967296"
    using assms(1) by (auto simp: pa_inv_def pa_core_def geo_def)
  show "p \<noteq> 0" using w c by (auto simp: wf_block_def)
  have "unat (m_arenaBase pa + m_arenaSize pa) = arena_hi pa" using c by (intro u32_plus) simp
  then show "IsProxyAddress p pa"
    using w c pa_inv_base [OF assms(1)] by (simp add: IsProxyAddress_def u32_unat wf_block_def)
qed

lemma sum_member_le:
  fixes f :: "'a \<Rightarrow> nat"
  shows "a \<in> set xs \<Longrightarrow> f a \<le> sum_list (map f xs)"
  by (induction xs) auto

lemma sum_remove1:
  fixes f :: "'a \<Rightarrow> nat"
  assumes "a \<in> set xs"
  shows "sum_list (map f (remove1 a xs)) = sum_list (map f xs) - f a"
  using sum_list_map_remove1 [OF assms, of f] by simp

lemma Free_step:
  assumes "pa_inv pa live" "(p, r) \<in> set live"
  shows "pa_inv (Free p r pa) (remove1 (p, r) live)"
    and "m_allocGranularity (Free p r pa) = m_allocGranularity pa \<and>
         m_arenaBase (Free p r pa) = m_arenaBase pa \<and> m_arenaSize (Free p r pa) = m_arenaSize pa"
    and "0 < nodeFree pa \<Longrightarrow>
         cover (all_blocks (Free p r pa) (map (slot (m_allocGranularity pa)) (remove1 (p, r) live))) x =
         cover (all_blocks pa (map (slot (m_allocGranularity pa)) live)) x"
proof -
  let ?g = "m_allocGranularity pa" and ?live = "remove1 (p, r) live"
  let ?ext = "map (slot ?g) ?live"
  have core: "pa_core pa (map (slot ?g) live) 0" and cnt: "counters_ok pa live"
    using assms(1) by (auto simp: pa_inv_split)
  have ms: "mset (map (slot ?g) live) = mset (slot ?g (p, r) # ?ext)"
  proof -
    have "mset live = add_mset (p, r) (mset ?live)" using assms(2) by simp
    then have "mset (map (slot ?g) live) = image_mset (slot ?g) (add_mset (p, r) (mset ?live))"
      by (simp only: mset_map)
    then show ?thesis by simp
  qed
  have "geo (gran pa) (arena_lo pa) (arena_hi pa) (m_freeList pa)
      (cached (m_sizeClasses pa) @ slot ?g (p, r) # ?ext)"
  proof (rule geo_mset)
    show "mset (cached (m_sizeClasses pa) @ map (slot ?g) live) =
      mset (cached (m_sizeClasses pa) @ slot ?g (p, r) # ?ext)" using ms by simp
    show "geo (gran pa) (arena_lo pa) (arena_hi pa) (m_freeList pa)
      (cached (m_sizeClasses pa) @ map (slot ?g) live)" using core by (simp add: pa_core_def)
  qed
  then have core1: "pa_core pa (slot ?g (p, r) # ?ext) 0" using core by (simp add: pa_core_def)
  obtain ok cs' nodes where push:
    "PushSizeClass p (AlignUp r ?g) (m_sizeClasses pa) (nodeFree pa) = (ok, cs', nodes)"
    by (cases "PushSizeClass p (AlignUp r ?g) (m_sizeClasses pa) (nodeFree pa)")
  let ?pa1 = "pa\<lparr>m_sizeClasses := cs', nodeFree := nodes\<rparr>"
  let ?pa2 = "if ok then ?pa1\<lparr>m_classCachedBytes := m_classCachedBytes pa + ucast (AlignUp r ?g)\<rparr>
              else (snd (InsertFreeSortedAndCoalesce p (AlignUp r ?g) ?pa1))\<lparr>m_hasMainArenaFree := True\<rparr>"
  note ps = Push_step [OF core1 slot_eq push]
  have rq: "\<forall>pr\<in>set live. req_ok ?g (snd pr)" using cnt by (simp add: counters_ok_def)
  note isp = live_IsProxyAddress [OF assms]
  let ?pa3 = "?pa2\<lparr>m_usedBytes := m_usedBytes pa - AlignUp r ?g,
      m_liveRequestedBytes := m_liveRequestedBytes pa - r,
      m_activeAllocations := m_activeAllocations pa - 1,
      m_totalFreedBytes := m_totalFreedBytes pa + ucast (AlignUp r ?g)\<rparr>"
  have le: "AlignUp r ?g \<le> m_usedBytes pa" "r \<le> m_liveRequestedBytes pa"
    using cnt sum_member_le [OF assms(2), of "\<lambda>pr. bsz (slot ?g pr)"]
      sum_member_le [OF assms(2), of "\<lambda>pr. unat (snd pr)"] by (auto simp: counters_ok_def u32_unat)
  have act: "1 \<le> m_activeAllocations pa"
  proof -
    have "1 \<le> length live" using assms(2) by (cases live) auto
    then show ?thesis using cnt by (simp add: counters_ok_def u64_le_unat)
  qed
  have sr: "m_allocGranularity ?pa2 = ?g" "m_arenaBase ?pa2 = m_arenaBase pa"
    "m_arenaSize ?pa2 = m_arenaSize pa" "m_usedBytes ?pa2 = m_usedBytes pa"
    "m_liveRequestedBytes ?pa2 = m_liveRequestedBytes pa"
    "m_activeAllocations ?pa2 = m_activeAllocations pa" "m_totalFreedBytes ?pa2 = m_totalFreedBytes pa"
    using ps(2) unfolding same_rest_def by blast+
  have act0: "0 < m_activeAllocations pa" using act by (simp add: u64_le_unat word_less_nat_alt)
  have e0: "Free p r pa = (let q = ?pa2 in
      q\<lparr>m_usedBytes := (if m_usedBytes q \<ge> AlignUp r ?g then m_usedBytes q - AlignUp r ?g else 0),
        m_liveRequestedBytes := (if m_liveRequestedBytes q \<ge> r then m_liveRequestedBytes q - r else 0),
        m_activeAllocations := (if m_activeAllocations q > 0 then m_activeAllocations q - 1
                                else m_activeAllocations q),
        m_totalFreedBytes := m_totalFreedBytes q + ucast (AlignUp r ?g)\<rparr>)"
    using isp push by (simp only: Free_def Let_def prod.case if_False not_True_eq_False) simp
  have e: "Free p r pa = ?pa3"
    unfolding e0 Let_def sr by (simp only: le act0 if_True)
  have "counters_ok ?pa3 ?live"
    using cnt sr unat_minus_no_wrap [OF le(1)] unat_minus_no_wrap [OF le(2)] unat_minus_no_wrap [OF act]
      sum_remove1 [OF assms(2), of "\<lambda>pr. bsz (slot ?g pr)"] sum_remove1 [OF assms(2), of "\<lambda>pr. unat (snd pr)"]
      assms(2) rq notin_set_remove1 [of _ live "(p, r)"]
    by (auto simp: counters_ok_def length_remove1)
  moreover have "pa_core ?pa3 ?ext 0" using ps(1) core_eq_core [of ?pa3 ?pa2 ?ext 0]
    by (simp add: core_eq_def)
  ultimately show "pa_inv (Free p r pa) ?live" using sr(1) by (simp add: e pa_inv_split)
  show "m_allocGranularity (Free p r pa) = ?g \<and> m_arenaBase (Free p r pa) = m_arenaBase pa \<and>
    m_arenaSize (Free p r pa) = m_arenaSize pa" using sr by (simp add: e)
  assume "0 < nodeFree pa"
  then have "cover (all_blocks ?pa2 ?ext) x = cover (all_blocks pa (slot ?g (p, r) # ?ext)) x"
    by (rule ps(3))
  moreover have "cover (map (slot ?g) live) x = cover (slot ?g (p, r) # ?ext) x"
    using ms by (rule cover_mset)
  then have "cover (all_blocks pa (map (slot ?g) live)) x = cover (all_blocks pa (slot ?g (p, r) # ?ext)) x"
    by (simp only: all_blocks_def cover_append)
  moreover have "all_blocks (Free p r pa) ?ext = all_blocks ?pa2 ?ext" by (simp add: e all_blocks_def)
  ultimately show "cover (all_blocks (Free p r pa) ?ext) x = cover (all_blocks pa (map (slot ?g) live)) x"
    by (simp only:)
qed

subsection \<open>Consequences of the invariant\<close>

lemma pa_inv_geo:
  assumes "pa_inv pa live"
  shows "geo (gran pa) (arena_lo pa) (arena_hi pa) (m_freeList pa)
      (cached (m_sizeClasses pa) @ map (slot (m_allocGranularity pa)) live)"
    and "gran_ok (m_allocGranularity pa)"
    and "\<forall>pr\<in>set live. req_ok (m_allocGranularity pa) (snd pr)"
  using assms by (auto simp: pa_inv_def pa_core_def)

lemma pa_inv_cover: "pa_inv pa live \<Longrightarrow> cover (all_blocks pa (map (slot (m_allocGranularity pa)) live)) x \<le> 1"
  using pa_inv_geo(1) [of pa live] unfolding geo_def all_blocks_def by blast

lemma pa_inv_blocks_wf:
  "pa_inv pa live \<Longrightarrow> \<forall>b\<in>set (all_blocks pa (map (slot (m_allocGranularity pa)) live)).
     wf_block (gran pa) (arena_lo pa) (arena_hi pa) b"
  using pa_inv_geo(1) [of pa live] unfolding geo_def all_blocks_def by blast

text \<open>
  The node pool cannot run dry when the arena has fewer granules than the pool has nodes:
  every node in use stands for a block of at least one granule.
\<close>

lemma nodes_remain:
  assumes "pa_inv pa live" "unat (m_arenaSize pa) < pool_cap * gran pa"
  shows "0 < nodeFree pa"
proof -
  let ?bs = "all_blocks pa (map (slot (m_allocGranularity pa)) live)"
  have "length ?bs * gran pa \<le> arena_hi pa - arena_lo pa"
    by (rule length_blocks_le [OF pa_inv_blocks_wf [OF assms(1)] pa_inv_cover [OF assms(1)]])
  then have "length ?bs * gran pa < pool_cap * gran pa" using assms(2) by linarith
  then have "length ?bs < pool_cap" by (simp only: mult_less_cancel2)
  then show ?thesis using assms(1) by (auto simp: pa_inv_def pa_core_def all_blocks_def)
qed

lemma pa_full_Allocate:
  assumes "pa_inv pa live" "pa_full pa live" "0 < nodeFree pa" "req_ok (m_allocGranularity pa) sz"
    and "Allocate sz fromTop pa = (p, pa')"
  shows "pa_full pa' (if p = 0 then live else (p, sz) # live)"
  using Allocate_step(3,4) [OF assms(1,4,5)] assms(2,3) by (simp add: pa_full_def)

lemma pa_full_Free:
  assumes "pa_inv pa live" "pa_full pa live" "0 < nodeFree pa" "(p, r) \<in> set live"
  shows "pa_full (Free p r pa) (remove1 (p, r) live)"
  using Free_step(2,3) [OF assms(1,4)] assms(2,3) by (simp add: pa_full_def)

text \<open>Two positions of the live list never share a byte.\<close>

lemma cover_two:
  "i < length bs \<Longrightarrow> j < length bs \<Longrightarrow> i < j \<Longrightarrow> in_block (bs ! i) x \<Longrightarrow> in_block (bs ! j) x \<Longrightarrow>
   2 \<le> cover bs x"
proof (induction bs arbitrary: i j)
  case (Cons b bs)
  show ?case
  proof (cases i)
    case 0
    then have "0 < cover bs x" using Cons.prems by (intro cover_pos [of "bs ! (j - 1)"]) auto
    then show ?thesis using 0 Cons.prems(4) by simp
  next
    case (Suc i')
    then have "2 \<le> cover bs x" using Cons.IH [of i' "j - 1"] Cons.prems by auto
    then show ?thesis by simp
  qed
qed simp

lemma live_slots_apart:
  assumes "pa_inv pa live" "i < length live" "j < length live" "i < j"
  defines "si \<equiv> slot (m_allocGranularity pa) (live ! i)" and "sj \<equiv> slot (m_allocGranularity pa) (live ! j)"
  shows "bend si \<le> blo sj \<or> bend sj \<le> blo si"
proof (rule ccontr)
  assume n: "\<not> ?thesis"
  define x where "x = max (blo si) (blo sj)"
  have "0 < bsz si" "0 < bsz sj"
    using live_block_wf [OF assms(1)] assms(2,3) by (auto simp: si_def sj_def wf_block_def)
  then have x: "in_block si x" "in_block sj x" using n by (auto simp: in_block_def x_def)
  have "2 \<le> cover (map (slot (m_allocGranularity pa)) live) x"
    using x assms(2-4) by (intro cover_two [of i _ j]) (auto simp: si_def sj_def)
  then show False using pa_inv_cover [OF assms(1), of x] by (simp add: all_blocks_def)
qed

text \<open>
  A failed \<open>Allocate\<close> leaves a free list that covers everything not live, in blocks that are
  all too small: there is no hole of the requested size.
\<close>

lemma Allocate_fails_no_hole:
  assumes "pa_inv pa live" "pa_full pa live" "0 < nodeFree pa" "req_ok (m_allocGranularity pa) sz"
    and "Allocate sz fromTop pa = (0, pa')"
    and "arena_lo pa \<le> a" "a + unat (AlignUp sz (m_allocGranularity pa)) \<le> arena_hi pa"
  shows "\<exists>pr\<in>set live. \<exists>x. a \<le> x \<and> x < a + unat (AlignUp sz (m_allocGranularity pa)) \<and>
           in_block (slot (m_allocGranularity pa) pr) x"
proof (rule ccontr)
  assume n: "\<not> ?thesis"
  let ?n = "unat (AlignUp sz (m_allocGranularity pa))"
  note st = Allocate_step [OF assms(1,4,5)]
  have inv': "pa_inv pa' live" using st(2) by simp
  have full': "pa_full pa' live" using pa_full_Allocate [OF assms(1-5)] by simp
  have g: "m_allocGranularity pa' = m_allocGranularity pa" "m_arenaBase pa' = m_arenaBase pa"
    "m_arenaSize pa' = m_arenaSize pa" using st(3) by auto
  have c: "cached (m_sizeClasses pa') = []"
    and small: "\<forall>b\<in>set (m_freeList pa'). blk_size b < AlignUp sz (m_allocGranularity pa)"
    using st(5) by auto
  have "0 < cover (m_freeList pa') x" if x: "a \<le> x" "x < a + ?n" for x
  proof -
    have "cover (map (slot (m_allocGranularity pa)) live) x = 0"
      using n x cover_in_iff [of "map (slot (m_allocGranularity pa)) live" x] by auto
    moreover have "cover (all_blocks pa' (map (slot (m_allocGranularity pa)) live)) x = 1"
      using full' x assms(6,7) by (simp add: pa_full_def g)
    ultimately show ?thesis by (simp add: all_blocks_def c)
  qed
  moreover have "0 < ?n" using req_ok_AlignUp(4) assms(4) pa_inv_geo(2) [OF assms(1)] by blast
  moreover have "gap_sorted (m_freeList pa')" using pa_inv_geo(1) [OF inv'] by (simp add: geo_def)
  ultimately obtain b where b: "b \<in> set (m_freeList pa')" "blo b \<le> a" "a + ?n \<le> bend b"
    using covered_range_in_block [of "m_freeList pa'" a "a + ?n"] by auto
  then show False using small by (auto simp: u32_unat)
qed

subsection \<open>Statistics and start-up\<close>

lemma sum_sizes_word:
  "unat acc + sum_list (map bsz bs) < 4294967296 \<Longrightarrow>
   unat (fold (\<lambda>b a. a + blk_size b) bs acc) = unat acc + sum_list (map bsz bs)"
proof (induction bs arbitrary: acc)
  case (Cons b bs)
  have "unat (acc + blk_size b) = unat acc + bsz b" using Cons.prems by (intro u32_plus) simp
  then show ?case using Cons by simp
qed simp

lemma GetStats_fold:
  "fold (\<lambda>cur st. st\<lparr>freeBytes := freeBytes st + blk_size cur,
       largestFreeSpan := (if blk_size cur > largestFreeSpan st then blk_size cur else largestFreeSpan st)\<rparr>) bs st =
   st\<lparr>freeBytes := fold (\<lambda>b a. a + blk_size b) bs (freeBytes st),
      largestFreeSpan := fold (\<lambda>b m. if blk_size b > m then blk_size b else m) bs (largestFreeSpan st)\<rparr>"
  by (induction bs arbitrary: st) auto

lemma largest_fold:
  "fold (\<lambda>b m. if blk_size b > m then blk_size b else m) bs m = fold max (map blk_size bs) (m :: u32)"
proof (induction bs arbitrary: m)
  case (Cons b bs)
  have "(if blk_size b > m then blk_size b else m) = max (blk_size b) m" by (auto simp: max_def)
  then show ?case using Cons by simp
qed simp

lemma GetStats_spans:
  "freeBytes (GetStats pa) = fold (\<lambda>b a. a + blk_size b) (m_freeList pa) 0"
  "largestFreeSpan (GetStats pa) = fold max (map blk_size (m_freeList pa)) 0"
  by (simp_all add: GetStats_def GetStats_fold largest_fold)

lemma freeBytes_unat:
  assumes "pa_inv pa live"
  shows "unat (freeBytes (GetStats pa)) = sum_list (map bsz (m_freeList pa))"
proof -
  let ?bs = "all_blocks pa (map (slot (m_allocGranularity pa)) live)"
  have "sum_list (map bsz ?bs) \<le> arena_hi pa - arena_lo pa"
    using pa_inv_blocks_wf [OF assms] pa_inv_cover [OF assms] by (intro sum_blocks_le) (auto simp: wf_block_def)
  then have "sum_list (map bsz (m_freeList pa)) < 4294967296"
    using unat_lt_2p32 [of "m_arenaSize pa"] by (simp add: all_blocks_def)
  then show ?thesis by (simp add: GetStats_spans sum_sizes_word)
qed

lemma bytes_conserved:
  assumes "pa_inv pa live" "pa_full pa live"
  shows "unat (freeBytes (GetStats pa)) + unat (m_classCachedBytes pa) + unat (m_usedBytes pa) =
         unat (m_arenaSize pa)"
proof -
  let ?bs = "all_blocks pa (map (slot (m_allocGranularity pa)) live)"
  have "sum_list (map bsz ?bs) = arena_hi pa - arena_lo pa"
    using pa_inv_blocks_wf [OF assms(1)] assms(2) unfolding pa_full_def
    by (intro sum_blocks_eq) (auto simp: wf_block_def)
  then show ?thesis using assms(1) freeBytes_unat [OF assms(1)]
    by (simp add: all_blocks_def pa_inv_def pa_core_def comp_def)
qed

text \<open>
  A constructed allocator that has not been initialised, and a range it can be given: the
  base is not null and aligned, the rounded size does not wrap and the range ends below
  \<open>2^32\<close> (what a mapping in a 32-bit address space satisfies).
\<close>

definition fresh :: "proxy_allocator \<Rightarrow> bool" where
  "fresh pa \<longleftrightarrow> m_arenaBase pa = 0 \<and> m_nodePoolMem pa = 0 \<and> gran_ok (m_allocGranularity pa) \<and>
     m_sizeClasses pa = [] \<and> m_classCachedBytes pa = 0 \<and> m_usedBytes pa = 0 \<and>
     m_liveRequestedBytes pa = 0 \<and> m_activeAllocations pa = 0"

definition range_ok :: "u32 \<Rightarrow> u32 \<Rightarrow> u32 \<Rightarrow> bool" where
  "range_ok g base sz \<longleftrightarrow> base \<noteq> 0 \<and> unat g dvd unat base \<and> req_ok g sz \<and>
     unat base + unat (AlignUp sz g) < 4294967296"

lemma fresh_init:
  "env_in_buf 8 ge = None \<Longrightarrow> ps = 4096 \<Longrightarrow> fresh (ProxyAllocator_init ps ge te)"
  by (simp add: fresh_def ProxyAllocator_init_def Let_def gran_ok_def)

text \<open>The constructor only ever picks a supported granularity on 4 KB pages.\<close>

lemma fresh_init_env: "fresh (ProxyAllocator_init 4096 ge te)"
  by (auto simp: fresh_def ProxyAllocator_init_def Let_def gran_ok_def split: option.splits)

lemma insert_first:
  assumes "m_freeList pa = []" "0 < nodeFree pa"
  shows "InsertFreeSortedAndCoalesce a s pa =
    (True, pa\<lparr>m_freeList := [\<lparr>address = a, blk_size = s\<rparr>], nodeFree := nodeFree pa - 1\<rparr>)"
  using assms by (simp add: InsertFreeSortedAndCoalesce_def AllocNode_def insert_sorted_def)

lemma pool_cap_pos: "0 < pool_cap"
  by (simp add: pool_cap_def kNodePoolBytes_def)

lemma one_block_inv:
  assumes "gran_ok g" "range_ok g base sz" "m_allocGranularity pa = g" "m_arenaBase pa = base"
    "m_arenaSize pa = AlignUp sz g" "m_freeList pa = [\<lparr>address = base, blk_size = AlignUp sz g\<rparr>]"
    "m_sizeClasses pa = []" "m_classCachedBytes pa = 0" "m_usedBytes pa = 0"
    "m_liveRequestedBytes pa = 0" "m_activeAllocations pa = 0" "nodeFree pa = pool_cap - 1"
  shows "pa_inv pa []" "pa_full pa []"
proof -
  have rq: "req_ok g sz" using assms(2) by (simp add: range_ok_def)
  note al = req_ok_AlignUp [OF assms(1) rq]
  have "geo (unat g) (unat base) (unat base + unat (AlignUp sz g)) (m_freeList pa) []"
    using assms(2,6) al gran_ok_pos [OF assms(1)] by (auto simp: geo_def wf_block_def range_ok_def)
  then show "pa_inv pa []"
    using assms pool_cap_pos by (auto simp: pa_inv_def pa_core_def range_ok_def unat_gt_0)
  show "pa_full pa []"
    using assms by (simp add: pa_full_def all_blocks_def in_block_def)
qed

lemma InitFromShared_inv:
  assumes "fresh pa" "os_pool os (of_nat kNodePoolBytes) \<noteq> 0"
    and "range_ok (m_allocGranularity pa) base sz" "InitFromShared os base sz pa = (ok, pa')"
  shows "ok" "pa_inv pa' []" "pa_full pa' []" "m_allocGranularity pa' = m_allocGranularity pa"
    "m_arenaBase pa' = base" "m_arenaSize pa' = AlignUp sz (m_allocGranularity pa)" "\<not> m_ownsArena pa'"
proof -
  let ?g = "m_allocGranularity pa"
  have e: "(ok, pa') = (True, pa\<lparr>m_nodePoolSize := of_nat kNodePoolBytes,
      m_nodePoolMem := os_pool os (of_nat kNodePoolBytes),
      m_arenaBase := base, m_arenaSize := AlignUp sz ?g, m_ownsArena := False,
      m_freeList := [\<lparr>address = base, blk_size = AlignUp sz ?g\<rparr>], nodeFree := pool_cap - 1\<rparr>)"
    using assms(1,2,4) pool_cap_pos
    by (auto simp add: InitFromShared_def InitNodePool_def fresh_def Let_def insert_first)
  then show "ok" "m_allocGranularity pa' = ?g" "m_arenaBase pa' = base"
    "m_arenaSize pa' = AlignUp sz ?g" "\<not> m_ownsArena pa'" by auto
  have f: "gran_ok ?g" using assms(1) by (simp add: fresh_def)
  show "pa_inv pa' []" "pa_full pa' []"
    using e assms(1) by (auto intro!: one_block_inv [OF f assms(3)] simp: fresh_def)
qed

lemma Initialize_inv:
  assumes "fresh pa" "os_pool os (of_nat kNodePoolBytes) \<noteq> 0"
    and "range_ok (m_allocGranularity pa) (ReserveArenaContiguous os (m_allocGranularity pa) sz) sz"
    and "Initialize os sz pa = (ok, pa')"
  shows "ok" "pa_inv pa' []" "pa_full pa' []" "m_ownsArena pa'"
    "m_arenaBase pa' = ReserveArenaContiguous os (m_allocGranularity pa) sz"
    "m_arenaSize pa' = AlignUp sz (m_allocGranularity pa)"
proof -
  let ?g = "m_allocGranularity pa"
  let ?b = "ReserveArenaContiguous os ?g sz"
  have "?b \<noteq> 0" using assms(3) by (simp add: range_ok_def)
  then have e: "(ok, pa') = (True, pa\<lparr>m_nodePoolSize := of_nat kNodePoolBytes,
      m_nodePoolMem := os_pool os (of_nat kNodePoolBytes),
      m_arenaBase := ?b, m_arenaSize := AlignUp sz ?g, m_ownsArena := True,
      m_freeList := [\<lparr>address = ?b, blk_size = AlignUp sz ?g\<rparr>], nodeFree := pool_cap - 1\<rparr>)"
    using assms(1,2,4) pool_cap_pos
    by (auto simp add: Initialize_def InitNodePool_def fresh_def Let_def insert_first)
  then show "ok" "m_arenaBase pa' = ?b" "m_arenaSize pa' = AlignUp sz ?g" "m_ownsArena pa'" by auto
  have f: "gran_ok ?g" using assms(1) by (simp add: fresh_def)
  show "pa_inv pa' []" "pa_full pa' []"
    using e assms(1) by (auto intro!: one_block_inv [OF f assms(3)] simp: fresh_def)
qed

subsection \<open>Reuse and the boundary cases\<close>

lemma find_class_first:
  "find_class s cs = Some i \<Longrightarrow> \<forall>j<i. classSize (cs ! j) \<noteq> s"
proof (induction s cs arbitrary: i rule: find_class.induct)
  case (2 s c cs)
  show ?case
  proof (cases "classSize c = s")
    case True
    then show ?thesis using 2 by simp
  next
    case False
    then obtain i' where i': "find_class s cs = Some i'" "i = Suc i'" using 2(2) by auto
    then have "\<forall>j<i'. classSize (cs ! j) \<noteq> s" using 2(1) False by blast
    then show ?thesis using False i'(2) by (auto simp: nth_Cons split: nat.splits)
  qed
qed simp

lemma PopSizeClass_first:
  "i < length cs \<Longrightarrow> \<forall>j<i. classSize (cs ! j) \<noteq> s \<Longrightarrow> classSize (cs ! i) = s \<Longrightarrow>
   sc_head (cs ! i) = b # t \<Longrightarrow>
   PopSizeClass s cs = Some (b, cs[i := (cs ! i)\<lparr>sc_head := t, sc_count := sc_count (cs ! i) - 1\<rparr>])"
proof (induction cs arbitrary: i)
  case (Cons c cs)
  show ?case
  proof (cases i)
    case 0
    then show ?thesis using Cons.prems by simp
  next
    case (Suc i')
    then have "classSize c \<noteq> s" "\<forall>j<i'. classSize (cs ! j) \<noteq> s" using Cons.prems(2) by auto
    then show ?thesis using Cons.IH [of i'] Cons.prems Suc by auto
  qed
qed simp

text \<open>A block cached last is handed out first.\<close>

lemma Pop_after_Push:
  assumes "PushSizeClass a s cs k = (True, cs', k')" "\<forall>c\<in>set cs. wf_class c"
  shows "\<exists>cs''. PopSizeClass s cs' = Some (\<lparr>address = a, blk_size = s\<rparr>, cs'')"
proof (cases "find_class s cs")
  case (Some i)
  note f = find_class_Some [OF Some] find_class_first [OF Some]
  have "cs' = cs[i := (cs ! i)\<lparr>sc_head := \<lparr>address = a, blk_size = s\<rparr> # sc_head (cs ! i),
      sc_count := sc_count (cs ! i) + 1\<rparr>]"
    using assms(1) Some by (auto simp: PushSizeClass_def Let_def split: if_splits option.splits)
  then show ?thesis using PopSizeClass_first [of i cs' s] f by (simp add: nth_list_update)
next
  case None
  let ?c = "\<lparr>classSize = s, sc_head = [\<lparr>address = a, blk_size = s\<rparr>], sc_count = 1\<rparr>"
  have e: "cs' = cs @ [?c]"
    using assms(1) None by (auto simp: PushSizeClass_def Let_def list_update_append split: if_splits option.splits)
  have "\<forall>j<length cs. classSize (cs ! j) \<noteq> s" using None by (auto simp: find_class_None)
  then show ?thesis using PopSizeClass_first [of "length cs" cs' s] e by (simp add: nth_append)
qed

text \<open>Rounding a size within one granule of \<open>2^32\<close> wraps to zero.\<close>

lemma AlignUp_wraps:
  assumes "gran_ok g" "4294967296 < unat sz + unat g"
  shows "AlignUp sz g = 0"
proof -
  from assms(1) obtain n where n: "g = 2 ^ n" "g - 1 = mask n" "n < 17" "unat g = 2 ^ n"
    by (rule gran_cases)
  have g0: "g \<noteq> 0" using n(4) by auto
  have g1: "unat (g - 1) = unat g - 1" using g0 by (rule unat_minus_one)
  have g2: "0 < unat g" using n(4) by simp
  have lt: "unat sz + (unat g - 1) - 4294967296 < unat g" 
    using unat_lt_2p32 [of sz] g2 by linarith
  have "unat (sz + (g - 1)) = (unat sz + (unat g - 1)) mod 4294967296"
    by (simp add: unat_word_ariths g1)
  also have "\<dots> = unat sz + (unat g - 1) - 4294967296"
  proof -
    have "unat g \<le> 65536" using n(3,4) power_increasing [of n 16 "2::nat"] by simp
    then show ?thesis using assms(2) unat_lt_2p32 [of sz] by (simp add: mod_if)
  qed
  finally have u: "unat (sz + (g - 1)) < 2 ^ n" using lt n(4) by simp
  have "unat (AlignUp sz g) = unat (sz + (g - 1)) div 2 ^ n * 2 ^ n"
    unfolding AlignUp_def n(2) using n(3) by (intro unat_and_not_mask) simp
  then have "unat (AlignUp sz g) = 0" using u by simp
  then show ?thesis by (simp only: unat_eq_0)
qed

end
