(* ===== verification/SlotContract.thy ===== *)
theory SlotContract
  imports Prelude
begin

section \<open>The contract of a slot allocator\<close>

text \<open>
  What the callers of the arena rely on.  The interface is \<open>alloc\<close> and \<open>release\<close> over a
  state, and a ghost list of the allocations the callers hold.  The lemmas are about any run
  of requests and releases; the arena allocator is shown to meet the contract where it is
  modelled.
\<close>

text \<open>A caller's step: request \<open>n\<close> bytes, or release the \<open>i\<close>-th live allocation (newest first).\<close>

datatype arena_op = Request u32 bool | Release nat

definition run_op ::
    "(u32 \<Rightarrow> bool \<Rightarrow> 's \<Rightarrow> u32 \<times> 's) \<Rightarrow> (u32 \<Rightarrow> u32 \<Rightarrow> 's \<Rightarrow> 's) \<Rightarrow> arena_op \<Rightarrow>
     's \<times> (u32 \<times> u32) list \<Rightarrow> 's \<times> (u32 \<times> u32) list" where
  "run_op alloc release oper st =
     (case oper of
        Request n t \<Rightarrow> (let (p, s) = alloc n t (fst st)
                          in (s, if p = 0 then snd st else (p, n) # snd st))
      | Release i \<Rightarrow> (if i < length (snd st)
                      then (let (p, n) = snd st ! i in (release p n (fst st), remove1 (p, n) (snd st)))
                      else st))"

text \<open>Two allocations share no byte of what was asked for.\<close>

definition apart :: "u32 \<times> u32 \<Rightarrow> u32 \<times> u32 \<Rightarrow> bool" where
  "apart a b \<longleftrightarrow> unat (fst a) + unat (snd a) \<le> unat (fst b) \<or> unat (fst b) + unat (snd b) \<le> unat (fst a)"

fun op_fits :: "(u32 \<Rightarrow> bool) \<Rightarrow> arena_op \<Rightarrow> bool" where
  "op_fits fits (Request n _) = fits n"
| "op_fits fits (Release _) = True"

locale slot_allocator =
  fixes alloc :: "u32 \<Rightarrow> bool \<Rightarrow> 's \<Rightarrow> u32 \<times> 's"
    and release :: "u32 \<Rightarrow> u32 \<Rightarrow> 's \<Rightarrow> 's"
    and inv :: "'s \<Rightarrow> (u32 \<times> u32) list \<Rightarrow> bool"
    and fits :: "'s \<Rightarrow> u32 \<Rightarrow> bool"
    and owns :: "u32 \<Rightarrow> 's \<Rightarrow> bool"
  assumes alloc_some: "inv s L \<Longrightarrow> fits s n \<Longrightarrow> alloc n t s = (p, s') \<Longrightarrow> p \<noteq> 0 \<Longrightarrow> inv s' ((p, n) # L)"
    and alloc_none: "inv s L \<Longrightarrow> fits s n \<Longrightarrow> alloc n t s = (0, s') \<Longrightarrow> inv s' L"
    and alloc_fits: "inv s L \<Longrightarrow> fits s n \<Longrightarrow> fits (snd (alloc n t s)) = fits s"
    and release_live: "inv s L \<Longrightarrow> (p, n) \<in> set L \<Longrightarrow> inv (release p n s) (remove1 (p, n) L)"
    and release_fits: "inv s L \<Longrightarrow> (p, n) \<in> set L \<Longrightarrow> fits (release p n s) = fits s"
    and live_apart: "inv s L \<Longrightarrow> sorted_wrt apart L"
    and live_owned: "inv s L \<Longrightarrow> (p, n) \<in> set L \<Longrightarrow> p \<noteq> 0 \<and> owns p s"
begin

lemma run_op_inv:
  assumes "inv s L" "op_fits (fits s) oper" "run_op alloc release oper (s, L) = (s', L')"
  shows "inv s' L' \<and> fits s' = fits s"
proof (cases oper)
  case (Request n t)
  obtain p q where a: "alloc n t s = (p, q)" by (cases "alloc n t s")
  show ?thesis
    using assms Request a alloc_some [OF assms(1) _ a] alloc_none [OF assms(1), of n t q]
      alloc_fits [OF assms(1), of n t]
    by (auto simp: run_op_def split: if_splits)
next
  case (Release i)
  show ?thesis
  proof (cases "i < length L")
    case True
    obtain p n where pn: "L ! i = (p, n)" by (cases "L ! i")
    then have "(p, n) \<in> set L" using True nth_mem by fastforce
    then show ?thesis using assms Release True pn release_live release_fits by (simp add: run_op_def) blast
  next
    case False
    then show ?thesis using assms Release by (simp add: run_op_def)
  qed
qed

text \<open>Any run of fitting requests keeps the invariant, so what is live never overlaps.\<close>

lemma run_inv:
  assumes "inv s L" "\<forall>oper\<in>set ops. op_fits (fits s) oper"
    and "fold (run_op alloc release) ops (s, L) = (s', L')"
  shows "inv s' L' \<and> fits s' = fits s"
  using assms
proof (induction ops arbitrary: s L)
  case Nil
  then show ?case by simp
next
  case (Cons oper ops)
  obtain s1 L1 where r: "run_op alloc release oper (s, L) = (s1, L1)"
    by (cases "run_op alloc release oper (s, L)")
  have "inv s1 L1 \<and> fits s1 = fits s" using run_op_inv [OF Cons.prems(1) _ r] Cons.prems(2) by simp
  then show ?case using Cons.IH [of s1 L1] Cons.prems r by simp
qed

lemma run_apart:
  assumes "inv s L" "\<forall>oper\<in>set ops. op_fits (fits s) oper"
    and "fold (run_op alloc release) ops (s, L) = (s', L')"
  shows "sorted_wrt apart L' \<and> (\<forall>(p, n)\<in>set L'. p \<noteq> 0 \<and> owns p s')"
  using run_inv [OF assms] live_apart live_owned by fast

end

end
