(* ===== verification/ArenaProps.thy ===== *)
theory ArenaProps
  imports ArenaInv SlotContract
begin

section \<open>What the arena allocator promises\<close>

text \<open>
  The allocator meets the contract of \<open>SlotContract\<close>, with its invariant alone and with the
  stronger one that no byte is lost.  The properties follow, and with them the places where
  the code does less than it means to.
\<close>

interpretation arena: slot_allocator Allocate Free pa_inv "\<lambda>pa. req_ok (m_allocGranularity pa)" IsProxyAddress
proof
  fix s :: proxy_allocator and L n t p s'
  assume a: "pa_inv s L" "req_ok (m_allocGranularity s) n" "Allocate n t s = (p, s')" "p \<noteq> 0"
  show "pa_inv s' ((p, n) # L)" by (rule Allocate_step(1) [OF a])
next
  fix s :: proxy_allocator and L n t s'
  assume a: "pa_inv s L" "req_ok (m_allocGranularity s) n" "Allocate n t s = (0, s')"
  show "pa_inv s' L" by (rule Allocate_step(2) [OF a]) simp
next
  fix s :: proxy_allocator and L n t
  assume a: "pa_inv s L" "req_ok (m_allocGranularity s) n"
  have "Allocate n t s = (fst (Allocate n t s), snd (Allocate n t s))" by simp
  from Allocate_step(3) [OF a this]
  show "req_ok (m_allocGranularity (snd (Allocate n t s))) = req_ok (m_allocGranularity s)" by simp
next
  fix s :: proxy_allocator and L p n
  assume a: "pa_inv s L" "(p, n) \<in> set L"
  show "pa_inv (Free p n s) (remove1 (p, n) L)" by (rule Free_step(1) [OF a])
  show "req_ok (m_allocGranularity (Free p n s)) = req_ok (m_allocGranularity s)"
    using Free_step(2) [OF a] by simp
  show "p \<noteq> 0 \<and> IsProxyAddress p s" using live_IsProxyAddress [OF a] by simp
next
  fix s :: proxy_allocator and L
  assume a: "pa_inv s L"
  show "sorted_wrt apart L"
    unfolding sorted_wrt_iff_nth_less
  proof (intro allI impI)
    fix i j assume ij: "i < j" "j < length L"
    have r: "unat (snd (L ! k)) \<le> bsz (slot (m_allocGranularity s) (L ! k))" if "k < length L" for k
      using req_ok_AlignUp(2) pa_inv_geo(2,3) [OF a] that nth_mem [OF that] by (auto simp: slot_def)
    show "apart (L ! i) (L ! j)"
      using live_slots_apart [OF a _ ij(2) ij(1)] ij r [of i] r [of j]
      by (auto simp: apart_def slot_def)
  qed
qed

definition demo_os :: arena_os where
  "demo_os = \<lparr>os_min = 0x10000, os_max = 0x7FFEFFFF, os_query = \<lambda>_. None,
     os_reserve = \<lambda>_ _. 0x20000, os_pool = \<lambda>_. 0x5000000\<rparr>"

definition demo_pa :: proxy_allocator where
  "demo_pa = snd (InitFromShared demo_os 0x10000 0x10000 (ProxyAllocator_init 4096 None None))"

lemma demo_init:
  "m_allocGranularity (ProxyAllocator_init 4096 None None) = 0x1000"
  "range_ok 0x1000 0x10000 0x10000" "os_pool demo_os (of_nat kNodePoolBytes) \<noteq> 0"
  by (simp_all add: ProxyAllocator_init_def env_in_buf_def range_ok_def req_ok_def AlignUp_def demo_os_def)

lemma demo_inv: "pa_inv demo_pa []" "pa_full demo_pa []" "m_allocGranularity demo_pa = 0x1000"
proof -
  obtain ok pa where i: "InitFromShared demo_os 0x10000 0x10000 (ProxyAllocator_init 4096 None None) = (ok, pa)"
    by (cases "InitFromShared demo_os 0x10000 0x10000 (ProxyAllocator_init 4096 None None)")
  note f = InitFromShared_inv [OF fresh_init_env demo_init(3) _ i, unfolded demo_init(1), OF demo_init(2)]
  show "pa_inv demo_pa []" "pa_full demo_pa []" "m_allocGranularity demo_pa = 0x1000"
    using f by (simp_all add: demo_pa_def i)
qed

text \<open>Evaluation of the operations by the simplifier.\<close>

lemmas arena_eval = InitFromShared_def InitNodePool_def InsertFreeSortedAndCoalesce_def AllocNode_def
  FreeNode_def insert_sorted_def pool_cap_def kNodePoolBytes_def ProxyAllocator_init_def env_in_buf_def
  AlignUp_def Allocate_def TakeFreeFit_def find_fit_def take_last_def account_grant_def ProxyArenaBand_def
  Free_def PushSizeClass_def IsProxyAddress_def Let_def kMaxSizeClasses_def kMaxCachedPerClass_def demo_os_def
  ReclaimCache_def reclaim_class_def


lemma bounded_pool_full:
  fixes cap g
  shows "pa_inv s L \<and> pa_full s L \<and> unat (m_arenaSize s) < pool_cap * gran s \<Longrightarrow> 0 < nodeFree s"
  using nodes_remain by blast

interpretation arena_full: slot_allocator Allocate Free
  "\<lambda>pa L. pa_inv pa L \<and> pa_full pa L \<and> unat (m_arenaSize pa) < pool_cap * gran pa"
  "\<lambda>pa. req_ok (m_allocGranularity pa)" IsProxyAddress
proof
  fix s :: proxy_allocator and L n t p s'
  assume i: "pa_inv s L \<and> pa_full s L \<and> unat (m_arenaSize s) < pool_cap * gran s"
    and r: "req_ok (m_allocGranularity s) n" and a: "Allocate n t s = (p, s')" and p: "p \<noteq> 0"
  have f: "pa_inv s L" "pa_full s L" "0 < nodeFree s" using i bounded_pool_full by auto
  show "pa_inv s' ((p, n) # L) \<and> pa_full s' ((p, n) # L) \<and> unat (m_arenaSize s') < pool_cap * gran s'"
    using i Allocate_step(1,3) [OF f(1) r a] pa_full_Allocate [OF f r a] p by simp
next
  fix s :: proxy_allocator and L n t s'
  assume i: "pa_inv s L \<and> pa_full s L \<and> unat (m_arenaSize s) < pool_cap * gran s"
    and r: "req_ok (m_allocGranularity s) n" and a: "Allocate n t s = (0, s')"
  have f: "pa_inv s L" "pa_full s L" "0 < nodeFree s" using i bounded_pool_full by auto
  show "pa_inv s' L \<and> pa_full s' L \<and> unat (m_arenaSize s') < pool_cap * gran s'"
    using i Allocate_step(2,3) [OF f(1) r a] pa_full_Allocate [OF f r a] by simp
next
  fix s :: proxy_allocator and L n t
  assume "pa_inv s L \<and> pa_full s L \<and> unat (m_arenaSize s) < pool_cap * gran s"
    "req_ok (m_allocGranularity s) n"
  then show "req_ok (m_allocGranularity (snd (Allocate n t s))) = req_ok (m_allocGranularity s)"
    by (intro arena.alloc_fits) auto
next
  fix s :: proxy_allocator and L p n
  assume i: "pa_inv s L \<and> pa_full s L \<and> unat (m_arenaSize s) < pool_cap * gran s"
    and m: "(p, n) \<in> set L"
  have f: "pa_inv s L" "pa_full s L" "0 < nodeFree s" using i bounded_pool_full by auto
  show "pa_inv (Free p n s) (remove1 (p, n) L) \<and> pa_full (Free p n s) (remove1 (p, n) L) \<and>
      unat (m_arenaSize (Free p n s)) < pool_cap * gran (Free p n s)"
    using i Free_step(1,2) [OF f(1) m] pa_full_Free [OF f m] by simp
  show "req_ok (m_allocGranularity (Free p n s)) = req_ok (m_allocGranularity s)"
    using f(1) m by (rule arena.release_fits)
  show "p \<noteq> 0 \<and> IsProxyAddress p s" using f(1) m by (rule arena.live_owned)
next
  fix s :: proxy_allocator and L
  assume "pa_inv s L \<and> pa_full s L \<and> unat (m_arenaSize s) < pool_cap * gran s"
  then show "sorted_wrt apart L" by (intro arena.live_apart) auto
qed

subsection \<open>Properties\<close>

text \<open>C1: Start the allocator on a shared mapping and let its callers request and release
  in any order.  The allocations they hold at the end never share a byte, none is null and
  every one lies in the arena.\<close>

theorem arena_run_apart:
  assumes "fresh pa" "os_pool os (of_nat kNodePoolBytes) \<noteq> 0"
    and "range_ok (m_allocGranularity pa) base sz" "InitFromShared os base sz pa = (ok, pa1)"
    and "\<forall>oper\<in>set ops. op_fits (req_ok (m_allocGranularity pa)) oper"
    and "fold (run_op Allocate Free) ops (pa1, []) = (pa2, live)"
  shows "sorted_wrt apart live \<and> (\<forall>(p, n)\<in>set live. p \<noteq> 0 \<and> IsProxyAddress p pa2)"
  using InitFromShared_inv [OF assms(1-4)] assms(5,6) by (intro arena.run_apart [of pa1 "[]" ops]) auto

lemma arena_run_apart_witness:
  "\<exists>pa2. fold (run_op Allocate Free)
       [Request 0x1800 False, Request 100 True, Release 1, Request 0x1900 True] (demo_pa, []) =
       (pa2, [(0x10000, 0x1900), (0x1F000, 100)]) \<and>
     sorted_wrt apart [(0x10000, 0x1900), (0x1F000, 100)] \<and> IsProxyAddress 0x1F000 pa2"
proof -
  obtain ok pa1 where i: "InitFromShared demo_os 0x10000 0x10000 (ProxyAllocator_init 4096 None None) = (ok, pa1)"
    by (cases "InitFromShared demo_os 0x10000 0x10000 (ProxyAllocator_init 4096 None None)")
  let ?ops = "[Request 0x1800 False, Request 100 True, Release 1, Request 0x1900 True]"
  have d: "demo_pa = pa1" by (simp add: demo_pa_def i)
  obtain pa2 live where r: "fold (run_op Allocate Free) ?ops (pa1, []) = (pa2, live)"
    by (cases "fold (run_op Allocate Free) ?ops (pa1, [])")
  have l: "live = [(0x10000, 0x1900), (0x1F000, 100)]"
    using r unfolding d [symmetric] demo_pa_def by (simp add: arena_eval run_op_def)
  have ops: "\<forall>oper\<in>set ?ops. op_fits (req_ok 0x1000) oper" by (simp add: req_ok_def)
  have rg: "range_ok (m_allocGranularity (ProxyAllocator_init 4096 None None)) 0x10000 0x10000"
    by (simp only: demo_init)
  show ?thesis using arena_run_apart [OF fresh_init_env demo_init(3) rg i _ r] ops r
    unfolding demo_init(1) d l by (intro exI [of _ pa2]) auto
qed

text \<open>C2: On an arena with fewer granules than the node pool has nodes no byte is ever lost:
  after any run of requests and releases the free bytes, the cached bytes and the used bytes
  that \<open>GetStats\<close> reports add up to the arena.\<close>

theorem arena_run_conserves:
  assumes "fresh pa" "os_pool os (of_nat kNodePoolBytes) \<noteq> 0"
    and "range_ok (m_allocGranularity pa) base sz" "InitFromShared os base sz pa = (ok, pa1)"
    and "\<forall>oper\<in>set ops. op_fits (req_ok (m_allocGranularity pa)) oper"
    and "unat (AlignUp sz (m_allocGranularity pa)) < pool_cap * gran pa"
    and "fold (run_op Allocate Free) ops (pa1, []) = (pa2, live)"
  shows "unat (freeBytes (GetStats pa2)) + unat (m_classCachedBytes pa2) + unat (m_usedBytes pa2) =
         unat (m_arenaSize pa2)"
proof -
  note i = InitFromShared_inv [OF assms(1-4)]
  have "pa_inv pa2 live \<and> pa_full pa2 live \<and> unat (m_arenaSize pa2) < pool_cap * gran pa2"
    using arena_full.run_inv [of pa1 "[]" ops pa2 live] i assms(5-7) by simp
  then show ?thesis by (intro bytes_conserved) auto
qed

lemma arena_run_conserves_witness:
  "\<exists>pa2 live. fold (run_op Allocate Free) [Request 0x1800 False, Request 100 True, Release 1] (demo_pa, [])
       = (pa2, live) \<and>
     unat (freeBytes (GetStats pa2)) + unat (m_classCachedBytes pa2) + unat (m_usedBytes pa2) =
         unat (m_arenaSize pa2)"
proof -
  obtain ok pa1 where i: "InitFromShared demo_os 0x10000 0x10000 (ProxyAllocator_init 4096 None None) = (ok, pa1)"
    by (cases "InitFromShared demo_os 0x10000 0x10000 (ProxyAllocator_init 4096 None None)")
  let ?ops = "[Request 0x1800 False, Request 100 True, Release 1]"
  have d: "demo_pa = pa1" by (simp add: demo_pa_def i)
  obtain pa2 live where r: "fold (run_op Allocate Free) ?ops (pa1, []) = (pa2, live)"
    by (cases "fold (run_op Allocate Free) ?ops (pa1, [])")
  have ops: "\<forall>oper\<in>set ?ops. op_fits (req_ok 0x1000) oper" by (simp add: req_ok_def)
  have rg: "range_ok (m_allocGranularity (ProxyAllocator_init 4096 None None)) 0x10000 0x10000"
    by (simp only: demo_init)
  have sm: "unat (AlignUp 0x10000 (m_allocGranularity (ProxyAllocator_init 4096 None None))) <
      pool_cap * gran (ProxyAllocator_init 4096 None None)"
    by (simp add: demo_init AlignUp_def pool_cap_def kNodePoolBytes_def)
  show ?thesis using arena_run_conserves [OF fresh_init_env demo_init(3) rg i _ sm r] ops r
    unfolding demo_init(1) d by blast
qed

text \<open>C14: On an arena with fewer granules than the node pool has nodes (at a granularity of 4 KB: below 341 MB,
  so not the default arena of 1 GB) a request fails only when there is no room: after any run of
  requests and releases from the start of the allocator, if \<open>Allocate\<close> returns null then every range of
  the arena of the rounded size overlaps a slot that is live, wherever the free blocks and the
  cached blocks were before.  On a larger arena nodes can run out, and then addresses are lost
  (\<open>Free_without_nodes_leaks\<close>).\<close>

theorem Allocate_complete:
  assumes "fresh pa" "os_pool os (of_nat kNodePoolBytes) \<noteq> 0"
    and "range_ok (m_allocGranularity pa) base sz" "InitFromShared os base sz pa = (ok, pa1)"
    and "\<forall>oper\<in>set ops. op_fits (req_ok (m_allocGranularity pa)) oper"
    and "unat (AlignUp sz (m_allocGranularity pa)) < pool_cap * gran pa"
    and "fold (run_op Allocate Free) ops (pa1, []) = (pa2, live)"
    and "req_ok (m_allocGranularity pa2) n" "Allocate n fromTop pa2 = (0, pa3)"
    and "arena_lo pa2 \<le> a" "a + unat (AlignUp n (m_allocGranularity pa2)) \<le> arena_hi pa2"
  shows "\<exists>pr\<in>set live. \<exists>x. a \<le> x \<and> x < a + unat (AlignUp n (m_allocGranularity pa2)) \<and>
           in_block (slot (m_allocGranularity pa2) pr) x"
proof -
  note i = InitFromShared_inv [OF assms(1-4)]
  have f: "pa_inv pa2 live" "pa_full pa2 live" "unat (m_arenaSize pa2) < pool_cap * gran pa2"
    using arena_full.run_inv [of pa1 "[]" ops pa2 live] i assms(5-7) by simp_all
  show ?thesis using Allocate_fails_no_hole [OF f(1,2) _ assms(8-11)] nodes_remain [OF f(1,3)] by blast
qed

text \<open>The demonstration arena with everything allocated.\<close>

definition demo_full_pa :: proxy_allocator where
  "demo_full_pa = snd (Allocate 0x10000 False demo_pa)"

lemma demo_full_state:
  "pa_inv demo_full_pa [(0x10000, 0x10000)]" "pa_full demo_full_pa [(0x10000, 0x10000)]"
  "unat (m_arenaSize demo_full_pa) < pool_cap * gran demo_full_pa" "m_allocGranularity demo_full_pa = 0x1000"
  "arena_lo demo_full_pa = 0x10000" "arena_hi demo_full_pa = 0x20000"
  "fst (Allocate 0x1000 False demo_full_pa) = 0"
proof -
  have e: "Allocate 0x10000 False demo_pa = (0x10000, demo_full_pa)"
    unfolding demo_full_pa_def demo_pa_def by (simp add: arena_eval)
  have s: "unat (m_arenaSize demo_pa) < pool_cap * gran demo_pa"
    unfolding demo_pa_def by (simp add: arena_eval)
  have r: "req_ok (m_allocGranularity demo_pa) 0x10000" by (simp add: demo_inv req_ok_def)
  show "pa_inv demo_full_pa [(0x10000, 0x10000)]" "pa_full demo_full_pa [(0x10000, 0x10000)]"
    "unat (m_arenaSize demo_full_pa) < pool_cap * gran demo_full_pa"
    using arena_full.alloc_some [OF _ r e] demo_inv s by auto
  show "m_allocGranularity demo_full_pa = 0x1000" "arena_lo demo_full_pa = 0x10000"
    "arena_hi demo_full_pa = 0x20000" "fst (Allocate 0x1000 False demo_full_pa) = 0"
    unfolding demo_full_pa_def demo_pa_def by (simp_all add: arena_eval)
qed

lemma Allocate_complete_witness:
  "\<exists>pa2. fold (run_op Allocate Free) [Request 0x10000 False] (demo_pa, []) = (pa2, [(0x10000, 0x10000)]) \<and>
     fst (Allocate 0x1000 False pa2) = 0 \<and>
     (\<exists>x. 0x10000 \<le> x \<and> x < 0x11000 \<and> in_block (slot 0x1000 (0x10000, 0x10000)) x)"
proof -
  obtain ok pa1 where i: "InitFromShared demo_os 0x10000 0x10000 (ProxyAllocator_init 4096 None None) = (ok, pa1)"
    by (cases "InitFromShared demo_os 0x10000 0x10000 (ProxyAllocator_init 4096 None None)")
  have d: "pa1 = demo_pa" by (simp add: demo_pa_def i)
  have "Allocate 0x10000 False demo_pa = (0x10000, demo_full_pa)"
    unfolding demo_full_pa_def demo_pa_def by (simp add: arena_eval)
  then have r: "fold (run_op Allocate Free) [Request 0x10000 False] (pa1, []) = (demo_full_pa, [(0x10000, 0x10000)])"
    by (simp add: run_op_def d)
  have ops: "\<forall>oper\<in>set [Request 0x10000 False]. op_fits (req_ok (m_allocGranularity (ProxyAllocator_init 4096 None None))) oper"
    unfolding demo_init(1) by (simp add: req_ok_def)
  have rg: "range_ok (m_allocGranularity (ProxyAllocator_init 4096 None None)) 0x10000 0x10000"
    by (simp only: demo_init)
  have sm: "unat (AlignUp 0x10000 (m_allocGranularity (ProxyAllocator_init 4096 None None))) <
      pool_cap * gran (ProxyAllocator_init 4096 None None)"
    by (simp add: demo_init AlignUp_def pool_cap_def kNodePoolBytes_def)
  have a: "Allocate 0x1000 False demo_full_pa = (0, snd (Allocate 0x1000 False demo_full_pa))"
    using demo_full_state(7) by (metis prod.collapse)
  have q: "req_ok (m_allocGranularity demo_full_pa) 0x1000" by (simp add: demo_full_state req_ok_def)
  have u: "unat (AlignUp 0x1000 0x1000) = 0x1000" by (simp add: AlignUp_def)
  show ?thesis
    using Allocate_complete [OF fresh_init_env demo_init(3) rg i ops sm r q a, of "0x10000"] demo_full_state(4-7) u r
    unfolding d by (intro exI [of _ demo_full_pa]) auto
qed

text \<open>A slot comes back: freeing an allocation into its size class and asking for the same
  rounded size again returns the same address, whatever the placement preference.\<close>

theorem Free_then_Allocate:
  assumes "pa_inv pa live" "(p, r) \<in> set live"
    and "AlignUp sz (m_allocGranularity pa) = AlignUp r (m_allocGranularity pa)"
    and "fst (PushSizeClass p (AlignUp r (m_allocGranularity pa)) (m_sizeClasses pa) (nodeFree pa))"
  shows "fst (Allocate sz fromTop (Free p r pa)) = p"
proof -
  let ?g = "m_allocGranularity pa"
  obtain cs' k where push: "PushSizeClass p (AlignUp r ?g) (m_sizeClasses pa) (nodeFree pa) = (True, cs', k)"
    using assms(4) by (metis prod.collapse)
  have "wf_classes (m_sizeClasses pa)" using assms(1) by (simp add: pa_inv_def pa_core_def)
  then obtain cs'' where pop: "PopSizeClass (AlignUp r ?g) cs' = Some (\<lparr>address = p, blk_size = AlignUp r ?g\<rparr>, cs'')"
    using Pop_after_Push [OF push] by (auto simp: wf_classes_def)
  note l = live_IsProxyAddress [OF assms(1,2)]
  have cl: "m_sizeClasses (Free p r pa) = cs'" using l push by (simp add: Free_def Let_def)
  have g: "m_allocGranularity (Free p r pa) = ?g" "m_arenaBase (Free p r pa) = m_arenaBase pa"
    using Free_step(2) [OF assms(1,2)] by auto
  show ?thesis using pop pa_inv_base [OF assms(1)] assms(3)
    by (simp add: Allocate_def Let_def cl g)
qed

lemma Free_then_Allocate_witness:
  "fst (Allocate 0xF801 True (Free 0x10000 0x10000 demo_full_pa)) = 0x10000"
  by (rule Free_then_Allocate [OF demo_full_state(1)])
    (simp_all add: demo_full_state(4) AlignUp_def demo_full_pa_def demo_pa_def arena_eval)

text \<open>Placement of fresh space: with no cached block of the class, a bottom-up request is
  carved at or below every free block that could hold it, and a top-down request ends at or
  above every such block, so the two populations grow from opposite ends.\<close>

theorem Allocate_placement:
  assumes "pa_inv pa live" "req_ok (m_allocGranularity pa) sz"
    and "PopSizeClass (AlignUp sz (m_allocGranularity pa)) (m_sizeClasses pa) = None"
    and "b \<in> set (m_freeList pa)" "AlignUp sz (m_allocGranularity pa) \<le> blk_size b"
    and "Allocate sz fromTop pa = (p, pa')"
  shows "p \<noteq> 0 \<and> (if fromTop then bend b \<le> unat p + unat (AlignUp sz (m_allocGranularity pa))
                  else p \<le> address b)"
proof -
  let ?g = "m_allocGranularity pa" and ?need = "AlignUp sz (m_allocGranularity pa)"
  have geo: "geo (unat ?g) (arena_lo pa) (arena_hi pa) (m_freeList pa)
      (cached (m_sizeClasses pa) @ map (slot ?g) live)" and gr: "gran_ok ?g"
    using pa_inv_geo [OF assms(1)] by auto
  then have gs: "gap_sorted (m_freeList pa)" "\<forall>b\<in>set (m_freeList pa). wf_block (unat ?g) (arena_lo pa) (arena_hi pa) b"
    "arena_hi pa < 4294967296" "0 < unat ?g" by (auto simp: geo_def)
  note al = req_ok_AlignUp [OF gr assms(2)]
  obtain c where c: "find_fit ?g ?need fromTop (m_freeList pa) = Some c"
    using find_fit_None [of ?g ?need fromTop "m_freeList pa"] assms(4,5) by (auto simp: not_less)
  note cv = geo_carve [OF geo al(1,4) c]
  have nz: "c_addr c \<noteq> 0" using geo_nonnull [OF cv(1), of "granted c"] assms(1)
    by (simp add: pa_inv_def pa_core_def)
  have t: "take_or_reclaim sz fromTop (counted pa) =
      (c_taken c, c_size c, c_addr c, (counted pa)\<lparr>m_freeList := c_list c\<rparr>)"
    using c nz by (simp add: take_or_reclaim_def TakeFreeFit_def)
  have p: "p = c_addr c"
    using Allocate_carve [OF pa_inv_base [OF assms(1)] assms(3) t] nz assms(6) by simp
  show ?thesis
  proof (cases fromTop)
    case True
    have "bend b \<le> bend (granted c)"
      using take_last_highest [OF gs(1-3) al(1) gs(4) _ assms(4,5)] c True by (simp add: find_fit_def)
    moreover have "c_size c = ?need" using cv(2) by (simp add: carve_ok_def)
    ultimately show ?thesis using True p nz by simp
  next
    case False
    have "c_addr c \<le> address b" using take_first_lowest [OF gs(1) _ assms(4,5)] c False
      by (simp add: find_fit_def)
    then show ?thesis using False p nz by simp
  qed
qed

lemma Allocate_placement_witness:
  "\<exists>p pa'. Allocate 0x1800 True demo_pa = (p, pa') \<and> 0x20000 \<le> unat p + 0x2000"
proof -
  obtain p pa' where a: "Allocate 0x1800 True demo_pa = (p, pa')" by (cases "Allocate 0x1800 True demo_pa")
  let ?b = "\<lparr>address = 0x10000, blk_size = 0x10000\<rparr>"
  have fl: "m_freeList demo_pa = [?b]" "m_sizeClasses demo_pa = []" "AlignUp 0x1800 0x1000 = (0x2000 :: u32)"
    unfolding demo_pa_def by (simp_all add: arena_eval)
  have "p \<noteq> 0 \<and> (if True then bend ?b \<le> unat p + unat (AlignUp 0x1800 (m_allocGranularity demo_pa))
      else p \<le> address ?b)"
    by (rule Allocate_placement [OF demo_inv(1) _ _ _ _ a]) (simp_all add: demo_inv(3) fl req_ok_def)
  then show ?thesis using a fl by (auto simp: demo_inv(3))
qed

text \<open>The lifetime totals, whatever the state: only a grant changes them.\<close>

abbreviation totals :: "proxy_allocator \<Rightarrow> u64 \<times> u64" where
  "totals pa \<equiv> (m_totalGrantedBytes pa, m_totalReusedBytes pa)"

lemma totals_Insert: "totals (snd (InsertFreeSortedAndCoalesce a s pa)) = totals pa"
  by (simp add: InsertFreeSortedAndCoalesce_def split_beta split: option.split)

lemma totals_reclaim_nodes: "totals (reclaim_nodes ns pa) = totals pa"
  by (induction ns arbitrary: pa) (use totals_Insert in \<open>auto simp: Let_def\<close>)

lemma totals_ReclaimCache: "totals (ReclaimCache pa) = totals pa"
proof -
  have "totals (fold reclaim_class is pa) = totals pa" for "is"
    by (induction "is" arbitrary: pa) (use totals_reclaim_nodes in \<open>auto simp: reclaim_class_def Let_def\<close>)
  then show ?thesis by (simp add: ReclaimCache_def)
qed

lemma totals_Take: "TakeFreeFit sz t pa = (r, gs, ga, pa') \<Longrightarrow> totals pa' = totals pa"
  by (auto simp: TakeFreeFit_def split: option.splits)

lemma totals_take_or_reclaim:
  assumes "take_or_reclaim sz t pa = (r, gs, ga, pa')"
  shows "totals pa' = totals pa"
proof -
  obtain r0 gs0 ga0 q0 where q: "TakeFreeFit sz t pa = (r0, gs0, ga0, q0)" by (cases "TakeFreeFit sz t pa")
  show ?thesis
    using assms q totals_Take [OF q] totals_ReclaimCache [of q0] totals_Take [of sz t "ReclaimCache q0" r gs ga pa']
    by (auto simp: take_or_reclaim_def split: if_splits)
qed

lemma totals_Allocate:
  "\<exists>x. totals (snd (Allocate sz t pa)) =
     (m_totalGrantedBytes pa + ucast (x :: u32), m_totalReusedBytes pa + ucast x) \<or>
   totals (snd (Allocate sz t pa)) = (m_totalGrantedBytes pa + ucast x, m_totalReusedBytes pa) \<or>
   totals (snd (Allocate sz t pa)) = totals pa"
proof (cases "m_arenaBase pa = 0")
  case True
  then show ?thesis by (simp add: Allocate_def Let_def)
next
  case base: False
  show ?thesis
  proof (cases "PopSizeClass (AlignUp sz (m_allocGranularity pa)) (m_sizeClasses pa)")
    case (Some a)
    then show ?thesis using base
      by (intro exI [of _ "blk_size (fst a)"]) (cases a, simp add: Allocate_def Let_def account_grant_def)
  next
    case None
    obtain r gs ga pa1 where t: "take_or_reclaim sz t (counted pa) = (r, gs, ga, pa1)"
      by (cases "take_or_reclaim sz t (counted pa)")
    show ?thesis using Allocate_carve [OF base None t] totals_take_or_reclaim [OF t]
      by (intro exI [of _ gs]) (auto simp: account_grant_def Let_def)
  qed
qed

lemma totals_Free: "totals (Free p n pa) = totals pa"
  using totals_Insert by (auto simp: Free_def Let_def split: prod.splits)

lemma reuse_run:
  assumes "unat (m_totalReusedBytes pa) \<le> unat (m_totalGrantedBytes pa)"
    and "unat (m_totalGrantedBytes pa) + length ops * 4294967296 < 2 ^ 64"
    and "fold (run_op Allocate Free) ops (pa, L) = (pa', L')"
  shows "unat (m_totalReusedBytes pa') \<le> unat (m_totalGrantedBytes pa')"
  using assms
proof (induction ops arbitrary: pa L)
  case Nil
  then show ?case by simp
next
  case (Cons oper ops)
  obtain pa1 L1 where r: "run_op Allocate Free oper (pa, L) = (pa1, L1)"
    by (cases "run_op Allocate Free oper (pa, L)")
  have "unat (m_totalReusedBytes pa1) \<le> unat (m_totalGrantedBytes pa1) \<and>
      unat (m_totalGrantedBytes pa1) \<le> unat (m_totalGrantedBytes pa) + 4294967296"
  proof (cases oper)
    case (Request n t)
    then have p1: "pa1 = snd (Allocate n t pa)" using r by (auto simp: run_op_def split_beta)
    obtain x where x: "totals pa1 = (m_totalGrantedBytes pa + ucast (x :: u32), m_totalReusedBytes pa + ucast x) \<or>
        totals pa1 = (m_totalGrantedBytes pa + ucast x, m_totalReusedBytes pa) \<or> totals pa1 = totals pa"
      using totals_Allocate [of n t pa] unfolding p1 by blast
    have "unat (m_totalGrantedBytes pa + ucast x) = unat (m_totalGrantedBytes pa) + unat x"
      using Cons.prems(2) unat_lt_2p32 [of x] by (subst unat_u64_plus) auto
    moreover have "unat (m_totalReusedBytes pa + ucast x) = unat (m_totalReusedBytes pa) + unat x"
      using Cons.prems(1,2) unat_lt_2p32 [of x] by (subst unat_u64_plus) auto
    ultimately show ?thesis using x Cons.prems(1) unat_lt_2p32 [of x] by auto
  next
    case (Release i)
    then have "totals pa1 = totals pa"
      using r totals_Free by (auto simp: run_op_def split: if_splits prod.splits)
    then show ?thesis using Cons.prems(1) by simp
  qed
  then show ?case using Cons.IH [of pa1 L1] Cons.prems(2,3) r by simp
qed

text \<open>The reuse rate is at most 100 percent: in any run of fewer than \<open>2^31\<close> operations
  from a new allocator, valid or not, the reused bytes never exceed the granted bytes.\<close>

theorem reuse_rate_bounded:
  assumes "m_totalGrantedBytes pa = 0" "m_totalReusedBytes pa = 0" "length ops < 2147483648"
    and "fold (run_op Allocate Free) ops (pa, []) = (pa', L)"
  shows "unat (totalReusedBytes (GetStats pa')) \<le> unat (totalGrantedBytes (GetStats pa'))"
  using reuse_run [of pa ops "[]" pa' L] assms by (simp add: GetStats_def GetStats_fold)

lemma reuse_rate_bounded_witness:
  "\<exists>pa' L. fold (run_op Allocate Free) [Request 5000 False, Release 0, Request 5000 False] (demo_pa, []) = (pa', L) \<and>
     m_totalReusedBytes pa' = 0x2000 \<and>
     unat (totalReusedBytes (GetStats pa')) \<le> unat (totalGrantedBytes (GetStats pa'))"
proof -
  let ?ops = "[Request 5000 False, Release 0, Request 5000 False]"
  obtain pa' L where r: "fold (run_op Allocate Free) ?ops (demo_pa, []) = (pa', L)"
    by (cases "fold (run_op Allocate Free) ?ops (demo_pa, [])")
  have z: "m_totalGrantedBytes demo_pa = 0" "m_totalReusedBytes demo_pa = 0"
    unfolding demo_pa_def by (simp_all add: arena_eval)
  have "m_totalReusedBytes pa' = 0x2000"
    using r unfolding demo_pa_def by (auto simp: arena_eval run_op_def)
  then show ?thesis using reuse_rate_bounded [OF z _ r] r by auto
qed

text \<open>With the node pool exhausted a release loses memory: the freed slot enters neither a
  cache nor the free list (the result of \<open>InsertFreeSortedAndCoalesce\<close> is ignored), so none
  of its addresses belongs to any block afterwards, while the counters say it was freed.\<close>

theorem Free_without_nodes_leaks:
  assumes "pa_inv pa live" "(p, r) \<in> set live" "nodeFree pa = 0"
    and "in_block (slot (m_allocGranularity pa) (p, r)) x"
  shows "cover (all_blocks (Free p r pa) (map (slot (m_allocGranularity pa)) (remove1 (p, r) live))) x = 0 \<and>
    unat (m_usedBytes (Free p r pa)) + bsz (slot (m_allocGranularity pa) (p, r)) = unat (m_usedBytes pa)"
proof -
  let ?g = "m_allocGranularity pa"
  obtain ok cs' k where push: "PushSizeClass p (AlignUp r ?g) (m_sizeClasses pa) (nodeFree pa) = (ok, cs', k)"
    by (cases "PushSizeClass p (AlignUp r ?g) (m_sizeClasses pa) (nodeFree pa)")
  have "wf_classes (m_sizeClasses pa)" using assms(1) by (simp add: pa_inv_def pa_core_def)
  from PushSizeClass_correct [OF push this]
  have f: "\<not> ok" "k = 0" "mset (cached cs') = mset (cached (m_sizeClasses pa))"
    using assms(3) by (auto split: if_splits)
  note l = live_IsProxyAddress [OF assms(1,2)]
  have fl: "m_freeList (Free p r pa) = m_freeList pa" "m_sizeClasses (Free p r pa) = cs'"
    using l push f(1,2) by (simp_all add: Free_def Let_def InsertFreeSortedAndCoalesce_def AllocNode_def)
  let ?rest = "map (slot ?g) (remove1 (p, r) live)"
  have "mset live = add_mset (p, r) (mset (remove1 (p, r) live))" using assms(2) by simp
  then have "mset (map (slot ?g) live) = image_mset (slot ?g) (add_mset (p, r) (mset (remove1 (p, r) live)))"
    by (simp only: mset_map)
  then have "cover (map (slot ?g) live) x = cover (slot ?g (p, r) # ?rest) x"
    by (intro cover_mset) simp
  then have "Suc (cover (all_blocks (Free p r pa) ?rest) x) = cover (all_blocks pa (map (slot ?g) live)) x"
    using assms(4) cover_mset [OF f(3), of x] by (simp add: all_blocks_def fl)
  then have "cover (all_blocks (Free p r pa) ?rest) x = 0" using pa_inv_cover [OF assms(1), of x] by simp
  moreover have "pa_inv (Free p r pa) (remove1 (p, r) live)" by (rule Free_step(1) [OF assms(1,2)])
  then have "unat (m_usedBytes (Free p r pa)) + bsz (slot ?g (p, r)) = unat (m_usedBytes pa)"
    using assms(1) Free_step(2) [OF assms(1,2)] sum_remove1 [OF assms(2), of "\<lambda>pr. bsz (slot ?g pr)"]
      sum_member_le [OF assms(2), of "\<lambda>pr. bsz (slot ?g pr)"]
    by (simp add: pa_inv_def)
  ultimately show ?thesis by blast
qed

text \<open>
  A checkerboard arena: free and live granules alternate, so no two free blocks merge and
  every free block costs a node of the pool.
\<close>

definition comb :: "nat \<Rightarrow> nat \<Rightarrow> block list" where
  "comb B n = map (\<lambda>i. \<lparr>address = of_nat (B + i * 0x2000), blk_size = 0x1000\<rparr>) [0..<n]"

lemma unat_of_nat_u32: "k < 4294967296 \<Longrightarrow> unat (of_nat k :: u32) = k"
  by (simp add: unat_of_nat take_bit_nat_eq_self)

lemma comb_Suc: "comb B (Suc n) = comb B n @ [\<lparr>address = of_nat (B + n * 0x2000), blk_size = 0x1000\<rparr>]"
  by (simp add: comb_def)

lemma cover_comb:
  "B + n * 0x2000 < 4294967296 \<Longrightarrow>
   cover (comb B n) x = of_bool (B \<le> x \<and> x < B + n * 0x2000 \<and> (x - B) mod 0x2000 < 0x1000)"
proof (induction n)
  case 0
  then show ?case by (simp add: comb_def)
next
  case (Suc n)
  have u: "unat (of_nat (B + n * 0x2000) :: u32) = B + n * 0x2000"
    using Suc.prems by (intro unat_of_nat_u32) simp
  have "(x - B) mod 0x2000 = x - B - n * 0x2000" if "B + n * 0x2000 \<le> x" "x < B + n * 0x2000 + 0x2000"
  proof -
    have "x - B = (x - B - n * 0x2000) + n * 0x2000" using that by simp
    then have "(x - B) mod 0x2000 = (x - B - n * 0x2000) mod 0x2000" by (metis mod_mult_self1)
    then show ?thesis using that by simp
  qed
  then show ?case using Suc u
    by (auto simp: comb_Suc in_block_def simp del: of_nat_add of_nat_mult)
qed

lemma comb_wf:
  assumes "0x1000 dvd B" "lo \<le> B" "B + n * 0x2000 \<le> hi + 0x1000" "hi < 4294967296"
  shows "\<forall>b\<in>set (comb B n). wf_block 0x1000 lo hi b"
proof
  fix b assume "b \<in> set (comb B n)"
  then obtain i where i: "i < n" "b = \<lparr>address = of_nat (B + i * 0x2000), blk_size = 0x1000\<rparr>"
    by (auto simp: comb_def)
  have "Suc i * 0x2000 \<le> n * 0x2000" using i(1) by (intro mult_le_mono1) simp
  then have le: "B + i * 0x2000 + 0x1000 \<le> hi" using assms(3) by simp
  have u: "unat (of_nat (B + i * 0x2000) :: u32) = B + i * 0x2000"
    using le assms(4) by (intro unat_of_nat_u32) simp
  have "0x1000 dvd i * (0x2000 :: nat)" by (intro dvd_mult) simp
  then show "wf_block 0x1000 lo hi b" using u le assms(1,2)
    by (simp add: wf_block_def i(2) del: of_nat_add of_nat_mult)
qed

lemma comb_gap: "B + n * 0x2000 < 4294967296 \<Longrightarrow> gap_sorted (comb B n)"
  unfolding sorted_wrt_iff_nth_less
proof (intro allI impI)
  fix i j assume n: "B + n * 0x2000 < 4294967296" and ij: "i < j" "j < length (comb B n)"
  have le: "Suc i * 0x2000 \<le> j * 0x2000" "j * 0x2000 \<le> n * 0x2000"
    using ij by (intro mult_le_mono1; simp add: comb_def)+
  have "unat (of_nat (B + i * 0x2000) :: u32) = B + i * 0x2000"
    "unat (of_nat (B + j * 0x2000) :: u32) = B + j * 0x2000"
    using le n by (intro unat_of_nat_u32; simp)+
  then show "bend (comb B n ! i) < blo (comb B n ! j)"
    using ij le by (simp add: comb_def del: of_nat_add of_nat_mult)
qed

definition comb_pa :: proxy_allocator where
  "comb_pa = demo_pa\<lparr>m_arenaBase := 0x10000000, m_arenaSize := of_nat (pool_cap * 0x2000),
     m_freeList := comb 0x10000000 pool_cap, nodeFree := 0,
     m_usedBytes := of_nat (pool_cap * 0x1000), m_liveRequestedBytes := of_nat (pool_cap * 0x1000),
     m_activeAllocations := of_nat pool_cap\<rparr>"

definition comb_live :: "(u32 \<times> u32) list" where
  "comb_live = map (\<lambda>i. (of_nat (0x10001000 + i * 0x2000), 0x1000)) [0..<pool_cap]"

lemma pool_cap_eval: "pool_cap = 87381"
  by (simp add: pool_cap_def kNodePoolBytes_def)

lemma slot_comb_live: "map (slot 0x1000) comb_live = comb 0x10001000 pool_cap"
  by (simp add: comb_live_def comb_def slot_def AlignUp_def)

lemma demo_pa_fields:
  "m_allocGranularity demo_pa = 0x1000" "m_sizeClasses demo_pa = []" "m_classCachedBytes demo_pa = 0"
  unfolding demo_pa_def by (simp_all add: arena_eval)

lemma comb_mod: "((x - 0x10000000) mod 0x2000 < (0x1000 :: nat)) \<noteq> ((x - 0x10001000) mod 0x2000 < 0x1000)"
  if "0x10001000 \<le> x" for x :: nat
proof -
  define y where "y = x - 0x10001000"
  have x: "x - 0x10000000 = y + 0x1000" using that by (simp add: y_def)
  have r: "y mod 0x2000 < 0x2000" by simp
  have "(y + 0x1000) mod 0x2000 = (y mod 0x2000 + 0x1000) mod 0x2000" by (simp add: mod_simps)
  also have "\<dots> = (if y mod 0x2000 < 0x1000 then y mod 0x2000 + 0x1000 else y mod 0x2000 - 0x1000)"
    using r by (simp add: mod_if [of "y mod 0x2000 + 0x1000"])
  finally show ?thesis unfolding x y_def [symmetric] using r by (simp split: if_splits)
qed

lemma comb_cover:
  assumes "0x10000000 \<le> x" "x < 0x10000000 + pool_cap * 0x2000"
  shows "cover (comb 0x10000000 pool_cap @ comb 0x10001000 pool_cap) x = 1"
proof (cases "0x10001000 \<le> x")
  case True
  then show ?thesis using assms comb_mod [OF True] 
    by (auto simp: cover_comb pool_cap_eval)
next
  case False
  then have "x - 0x10000000 < 0x1000" using assms(1) by simp
  then show ?thesis using assms False by (simp add: cover_comb pool_cap_eval)
qed

lemma comb_cover_le: "cover (comb 0x10000000 pool_cap @ comb 0x10001000 pool_cap) x \<le> 1"
proof (cases "0x10001000 \<le> x")
  case True
  then show ?thesis using comb_mod [OF True] by (auto simp: cover_comb pool_cap_eval)
qed (simp add: cover_comb pool_cap_eval)

lemma comb_inv:
  "pa_inv comb_pa comb_live" "pa_full comb_pa comb_live" "nodeFree comb_pa = 0"
  "m_allocGranularity comb_pa = 0x1000"
proof -
  have sz: "unat (of_nat (pool_cap * 0x2000) :: u32) = pool_cap * 0x2000"
    "unat (of_nat (pool_cap * 0x1000) :: u32) = pool_cap * 0x1000"
    by (intro unat_of_nat_u32; simp add: pool_cap_eval)+
  have act: "unat (of_nat pool_cap :: u64) = pool_cap"
    by (simp add: unat_of_nat take_bit_nat_eq_self pool_cap_eval)
  have hi: "arena_lo comb_pa = 0x10000000" "unat (m_arenaSize comb_pa) = pool_cap * 0x2000"
    using sz by (simp_all add: comb_pa_def)
  have len: "length (comb B pool_cap) = pool_cap" for B by (simp add: comb_def)
  have geo: "geo 0x1000 (arena_lo comb_pa) (arena_hi comb_pa) (comb 0x10000000 pool_cap)
      (comb 0x10001000 pool_cap)"
    unfolding geo_def hi using comb_cover_le comb_gap [of "0x10000000" pool_cap]
      comb_wf [of "0x10000000" "0x10000000" pool_cap] comb_wf [of "0x10001000" "0x10000000" pool_cap]
    by (auto simp: pool_cap_eval ball_Un)
  have sums: "sum_list (map (\<lambda>pr. bsz (slot 0x1000 pr)) comb_live) = pool_cap * 0x1000"
    "sum_list (map (\<lambda>pr. unat (snd pr)) comb_live) = pool_cap * 0x1000"
    by (simp_all add: comb_live_def slot_def AlignUp_def comp_def sum_list_triv)
  show g: "m_allocGranularity comb_pa = 0x1000" "nodeFree comb_pa = 0"
    by (simp_all add: comb_pa_def demo_pa_fields)
  have "gran_ok 0x1000" by (simp add: gran_ok_def)
  then have "pa_core comb_pa (map (slot 0x1000) comb_live) 0"
    using geo hi by (simp add: pa_core_def slot_comb_live g comb_pa_def demo_pa_fields len)
  moreover have "\<forall>pr\<in>set comb_live. req_ok 0x1000 (snd pr)" by (auto simp: comb_live_def req_ok_def)
  moreover have "m_usedBytes comb_pa = of_nat (pool_cap * 0x1000)"
    "m_liveRequestedBytes comb_pa = of_nat (pool_cap * 0x1000)"
    "m_activeAllocations comb_pa = of_nat pool_cap" "length comb_live = pool_cap"
    by (simp_all add: comb_pa_def comb_live_def)
  ultimately show "pa_inv comb_pa comb_live"
    using sums sz act by (simp add: pa_inv_def g)
  show "pa_full comb_pa comb_live"
    using comb_cover hi by (simp add: pa_full_def all_blocks_def g slot_comb_live comb_pa_def demo_pa_fields)
qed

lemma Free_without_nodes_leaks_witness:
  "cover (all_blocks (Free 0x10001000 0x1000 comb_pa)
     (map (slot 0x1000) (remove1 (0x10001000, 0x1000) comb_live))) 0x10001800 = 0"
proof -
  have m: "(0x10001000, 0x1000) \<in> set comb_live"
    unfolding comb_live_def set_map by (rule image_eqI [of _ _ 0]) (simp_all add: pool_cap_pos)
  have b: "in_block (slot (m_allocGranularity comb_pa) (0x10001000, 0x1000)) 0x10001800"
    by (simp add: comb_inv(4) in_block_def AlignUp_def)
  show ?thesis using Free_without_nodes_leaks [OF comb_inv(1) m comb_inv(3) b] by (simp add: comb_inv(4))
qed

text \<open>Sizes within a granule of \<open>2^32\<close> are not refused: the rounding wraps to zero, and
  \<open>Allocate\<close> reports success with the address of the first free block while it takes no byte
  of it, so the next caller is handed the same address.\<close>

theorem Allocate_wraps:
  assumes "pa_inv pa live" "4294967296 < unat sz + gran pa" "m_freeList pa = b # fl"
  shows "address b \<noteq> 0 \<and> fst (Allocate sz False pa) = address b \<and>
         m_freeList (snd (Allocate sz False pa)) = b # fl"
proof -
  let ?g = "m_allocGranularity pa"
  have gr: "gran_ok ?g" by (rule pa_inv_geo(2) [OF assms(1)])
  have z: "AlignUp sz ?g = 0" using gr assms(2) by (rule AlignUp_wraps)
  have w: "\<forall>b\<in>set (all_blocks pa (map (slot ?g) live)). wf_block (gran pa) (arena_lo pa) (arena_hi pa) b"
    by (rule pa_inv_blocks_wf [OF assms(1)])
  have "blk_size c \<noteq> 0" if c: "c \<in> set (cached (m_sizeClasses pa))" for c
  proof -
    have "wf_block (gran pa) (arena_lo pa) (arena_hi pa) c" using w c by (simp add: all_blocks_def)
    then show ?thesis by (auto simp: wf_block_def)
  qed
  moreover have "\<forall>c\<in>set (m_sizeClasses pa). wf_class c"
    using assms(1) by (simp add: pa_inv_def pa_core_def wf_classes_def)
  ultimately have pop: "PopSizeClass (AlignUp sz ?g) (m_sizeClasses pa) = None"
    using PopSizeClass_None [of "m_sizeClasses pa" 0] z by auto
  have wb: "wf_block (gran pa) (arena_lo pa) (arena_hi pa) b" using w assms(3) by (simp add: all_blocks_def)
  have nz: "address b \<noteq> 0" using wb assms(1) by (auto simp: wf_block_def pa_inv_def pa_core_def)
  have big: "?g \<le> blk_size b" using wb by (auto simp: wf_block_def u32_unat dest: dvd_imp_le)
  have t: "take_or_reclaim sz False (counted pa) = (False, 0, address b, (counted pa)\<lparr>m_freeList := b # fl\<rparr>)"
    using z big nz assms(3) by (simp add: take_or_reclaim_def TakeFreeFit_def find_fit_def)
  show ?thesis
    using Allocate_carve [OF pa_inv_base [OF assms(1)] pop t] nz by (simp_all add: account_grant_def Let_def)
qed

lemma Allocate_wraps_witness: "fst (Allocate 0xFFFFFFFF False demo_pa) = 0x10000"
proof -
  have f: "m_freeList demo_pa = [\<lparr>address = 0x10000, blk_size = 0x10000\<rparr>]"
    unfolding demo_pa_def by (simp add: arena_eval)
  show ?thesis using Allocate_wraps [OF demo_inv(1) _ f, of "0xFFFFFFFF"] by (simp add: demo_inv(3))
qed

text \<open>\<open>Shutdown\<close> destroys the node pool but keeps the size classes that point into it: after
  a shutdown and a new start on another mapping, the next request of a cached size is served
  with the address the old arena had cached.\<close>

theorem Shutdown_keeps_stale_blocks:
  assumes "PopSizeClass (AlignUp sz (m_allocGranularity pa)) (m_sizeClasses pa) = Some (n, cs')"
    and "InitFromShared os base mapsz (Shutdown pa) = (True, pa2)" "base \<noteq> 0"
  shows "nodeFree (Shutdown pa) = 0 \<and> m_nodePoolMem (Shutdown pa) = 0 \<and>
         fst (Allocate sz fromTop pa2) = address n"
proof -
  have s: "m_sizeClasses (Shutdown pa) = m_sizeClasses pa" "m_allocGranularity (Shutdown pa) = m_allocGranularity pa"
    "m_arenaBase (Shutdown pa) = 0" "nodeFree (Shutdown pa) = 0" "m_nodePoolMem (Shutdown pa) = 0"
    by (simp_all add: Shutdown_def DestroyNodePool_def Let_def)
  have "m_sizeClasses pa2 = m_sizeClasses pa \<and> m_allocGranularity pa2 = m_allocGranularity pa \<and> m_arenaBase pa2 = base"
    using assms(2,3) s
    by (auto simp: InitFromShared_def InitNodePool_def Let_def insert_first InsertFreeSortedAndCoalesce_def
      split_beta split: if_splits option.splits)
  then show ?thesis using assms(1,3) s by (simp add: Allocate_def Let_def)
qed

lemma Shutdown_keeps_stale_blocks_witness:
  "\<exists>pa2. InitFromShared demo_os 0x700000 0x20000 (Shutdown (Free 0x10000 0x10000 demo_full_pa)) = (True, pa2) \<and>
     fst (Allocate 0x10000 False pa2) = 0x10000 \<and> \<not> IsProxyAddress 0x10000 pa2"
proof -
  let ?pa = "Free 0x10000 0x10000 demo_full_pa"
  obtain pa2 where i: "InitFromShared demo_os 0x700000 0x20000 (Shutdown ?pa) = (True, pa2)"
    unfolding demo_full_pa_def demo_pa_def by (simp add: arena_eval Shutdown_def DestroyNodePool_def)
  obtain cs' where p: "PopSizeClass (AlignUp 0x10000 (m_allocGranularity ?pa)) (m_sizeClasses ?pa) =
      Some (\<lparr>address = 0x10000, blk_size = 0x10000\<rparr>, cs')"
    unfolding demo_full_pa_def demo_pa_def by (simp add: arena_eval)
  have "\<not> IsProxyAddress 0x10000 pa2"
    using i unfolding demo_full_pa_def demo_pa_def
    by (auto simp: arena_eval Shutdown_def DestroyNodePool_def)
  then show ?thesis using Shutdown_keeps_stale_blocks [OF p i, of False] i by auto
qed

text \<open>The search for the preferred top gigabyte never runs: its end \<open>0xC0000000 + 1 GB\<close>
  wraps to 0, so whatever is free there the reservation is left to the system's choice.\<close>

theorem ReserveArena_ignores_preferred_range:
  "ReserveArenaContiguous os g sz = os_reserve os 0 (AlignUp sz g)"
proof -
  have z: "(4294967296 :: u32) = 0" by code_simp
  show ?thesis by (simp add: z ReserveArenaContiguous_def Let_def reserve_scan_empty)
qed

end
