(* ===== verification/ProxyTrace.thy ===== *)
theory ProxyTrace
  imports Prelude
begin

section \<open>The trace ring of the allocator\<close>

text \<open>
  \<open>ProxyAllocatorTrace.cpp\<close>: a ring of 8192 fixed-size records that any thread appends to
  with one interlocked increment.  The write index is a signed 32-bit counter that wraps;
  the slot is taken from its unsigned reading.  Clock, thread id and return address are
  parameters of each call.
\<close>

definition kTraceCapacity :: u32 where "kTraceCapacity = 8192"

record trace_rec =
  tr_qpc :: u64
  tr_tid :: u32
  tr_code :: u32
  tr_spanId :: u32
  tr_seq :: u64
  tr_h :: u32
  tr_a :: u32
  tr_b :: u32
  tr_err :: u32
  tr_ctx :: u8
  tr_depth :: u8
  tr_rip :: u32

text \<open>\<open>s_traceBuf\<close> is a null pointer until the buffer is committed.\<close>

record trace_state =
  s_traceBuf :: "trace_rec list option"
  s_traceCap :: u32
  s_traceWriteIdx :: u32
  s_traceSeq :: u64
  s_spanIdGen :: u32

definition trace_initial :: trace_state where
  "trace_initial = \<lparr>s_traceBuf = None, s_traceCap = 0, s_traceWriteIdx = -1, s_traceSeq = 0, s_spanIdGen = 1\<rparr>"

definition blank_rec :: "u64 \<Rightarrow> trace_rec" where
  "blank_rec now = \<lparr>tr_qpc = now, tr_tid = 0, tr_code = 0, tr_spanId = 0, tr_seq = 0, tr_h = 0, tr_a = 0, tr_b = 0,
     tr_err = 0, tr_ctx = 0, tr_depth = 0, tr_rip = 0\<rparr>"

text \<open>\<open>committed\<close> says whether \<open>VirtualAlloc\<close> returned memory.\<close>

definition Trace_Initialize :: "bool \<Rightarrow> u64 \<Rightarrow> trace_state \<Rightarrow> trace_state" where
  "Trace_Initialize committed now st =
     (if s_traceBuf st \<noteq> None then st
      else (let st = st\<lparr>s_traceCap := kTraceCapacity\<rparr>
            in if \<not> committed then st
               else st\<lparr>s_traceWriteIdx := -1, s_traceSeq := 0,
                       s_traceBuf := Some (replicate (unat (s_traceCap st)) (blank_rec now))\<rparr>))"

text \<open>What a caller passes to \<open>Emit\<close> together with what the call reads from the system.\<close>

definition Emit :: "trace_rec \<Rightarrow> trace_state \<Rightarrow> trace_state" where
  "Emit r st =
     (case s_traceBuf st of
        None \<Rightarrow> st
      | Some buf \<Rightarrow>
          (let idx = s_traceWriteIdx st + 1;
               slot = idx mod s_traceCap st;
               sq = s_traceSeq st + 1
           in st\<lparr>s_traceWriteIdx := idx, s_traceSeq := sq,
                 s_traceBuf := Some (buf[unat slot := r\<lparr>tr_seq := sq\<rparr>])\<rparr>))"

definition Mark :: "u64 \<Rightarrow> u32 \<Rightarrow> u32 \<Rightarrow> u32 \<Rightarrow> u32 \<Rightarrow> u32 \<Rightarrow> u32 \<Rightarrow> u32 \<Rightarrow> u32 \<Rightarrow> u8 \<Rightarrow> trace_state \<Rightarrow> trace_state" where
  "Mark now thread tlsDepth ra cd hnd a b er cx st =
     Emit \<lparr>tr_qpc = now, tr_tid = thread, tr_code = cd, tr_spanId = 0, tr_seq = 0, tr_h = hnd, tr_a = a, tr_b = b,
           tr_err = er, tr_ctx = cx, tr_depth = ucast tlsDepth, tr_rip = ra\<rparr> st"

definition SpanBegin :: "u64 \<Rightarrow> u32 \<Rightarrow> u32 \<Rightarrow> u32 \<Rightarrow> u32 \<Rightarrow> u32 \<Rightarrow> u32 \<Rightarrow> u32 \<Rightarrow> u8 \<Rightarrow> trace_state \<Rightarrow> u32 \<times> trace_state" where
  "SpanBegin now thread tlsDepth ra cd hnd a b cx st =
     (let i = s_spanIdGen st + 1;
          st = st\<lparr>s_spanIdGen := i\<rparr>
      in (i, Emit \<lparr>tr_qpc = now, tr_tid = thread, tr_code = cd, tr_spanId = i, tr_seq = 0, tr_h = hnd, tr_a = a, tr_b = b,
                   tr_err = 0, tr_ctx = cx, tr_depth = ucast tlsDepth + 1, tr_rip = ra\<rparr> st))"

definition SpanEnd :: "u64 \<Rightarrow> u32 \<Rightarrow> u32 \<Rightarrow> u32 \<Rightarrow> u32 \<Rightarrow> u32 \<Rightarrow> u32 \<Rightarrow> u32 \<Rightarrow> u32 \<Rightarrow> u32 \<Rightarrow> u8 \<Rightarrow> trace_state \<Rightarrow> trace_state" where
  "SpanEnd now thread tlsDepth ra sid cd hnd a b er cx st =
     Emit \<lparr>tr_qpc = now, tr_tid = thread, tr_code = cd, tr_spanId = sid, tr_seq = 0, tr_h = hnd, tr_a = a, tr_b = b,
           tr_err = er, tr_ctx = cx, tr_depth = ucast tlsDepth, tr_rip = ra\<rparr> st"

text \<open>
  \<open>CopySnapshot\<close> copies raw bytes; \<open>rec_bytes\<close> is the memory image of a record (64 bytes on the
  target).  The first result is the byte count.
\<close>

definition CopySnapshot :: "(trace_rec \<Rightarrow> u8 list) \<Rightarrow> bool \<Rightarrow> nat \<Rightarrow> trace_state \<Rightarrow> nat \<times> u8 list" where
  "CopySnapshot rec_bytes dst bytes st =
     (case s_traceBuf st of
        None \<Rightarrow> (0, [])
      | Some buf \<Rightarrow>
          if \<not> dst then (0, [])
          else (let want = unat (s_traceCap st) * 64;
                    n = (if bytes < want then bytes else want)
                in (n, take n (concat (map rec_bytes buf)))))"

subsection \<open>The ring keeps the latest records\<close>

text \<open>A ring in use: committed, of the full capacity, with \<open>n\<close> records written so far.\<close>

definition ring_after :: "nat \<Rightarrow> trace_state \<Rightarrow> bool" where
  "ring_after n st \<longleftrightarrow> s_traceCap st = kTraceCapacity \<and> s_traceWriteIdx st = of_nat n - 1 \<and>
     s_traceSeq st = of_nat n \<and> (\<exists>buf. s_traceBuf st = Some buf \<and> length buf = 8192)"

lemma slot_of_index: "unat ((of_nat n :: u32) mod kTraceCapacity) = n mod 8192"
proof -
  have "unat (of_nat n :: u32) = n mod 4294967296" by (simp add: unat_of_nat take_bit_eq_mod)
  moreover have "n mod 4294967296 mod 8192 = n mod 8192" by (rule mod_mod_cancel) simp
  ultimately show ?thesis by (simp add: kTraceCapacity_def unat_mod)
qed

lemma Emit_ring:
  assumes "ring_after n st" "s_traceBuf st = Some buf"
  shows "ring_after (Suc n) (Emit r st)"
    and "s_traceBuf (Emit r st) = Some (buf[n mod 8192 := r\<lparr>tr_seq := of_nat (Suc n)\<rparr>])"
  using assms slot_of_index [of n] by (auto simp: ring_after_def Emit_def Let_def add.commute)

lemma Emits_ring:
  assumes "ring_after n st" "s_traceBuf st = Some buf"
  shows "\<exists>buf'. ring_after (n + length rs) (fold Emit rs st) \<and> s_traceBuf (fold Emit rs st) = Some buf' \<and>
    (\<forall>i < length rs. length rs \<le> i + 8192 \<longrightarrow>
       buf' ! ((n + i) mod 8192) = (rs ! i)\<lparr>tr_seq := of_nat (Suc (n + i))\<rparr>)"
proof (induction rs rule: rev_induct)
  case Nil
  then show ?case using assms by auto
next
  case (snoc r rs)
  then obtain buf' where b: "ring_after (n + length rs) (fold Emit rs st)" "s_traceBuf (fold Emit rs st) = Some buf'"
    "\<forall>i < length rs. length rs \<le> i + 8192 \<longrightarrow>
       buf' ! ((n + i) mod 8192) = (rs ! i)\<lparr>tr_seq := of_nat (Suc (n + i))\<rparr>" by blast
  let ?k = "(n + length rs) mod 8192" and ?r = "r\<lparr>tr_seq := of_nat (Suc (n + length rs))\<rparr>"
  note e = Emit_ring [OF b(1,2), of r]
  have len: "length buf' = 8192" using b(1,2) by (simp add: ring_after_def)
  have "buf'[?k := ?r] ! ((n + i) mod 8192) = ((rs @ [r]) ! i)\<lparr>tr_seq := of_nat (Suc (n + i))\<rparr>"
    if i: "i < length (rs @ [r])" "length (rs @ [r]) \<le> i + 8192" for i
  proof (cases "i = length rs")
    case True
    then show ?thesis using len by simp
  next
    case False
    then have lt: "i < length rs" using i(1) by simp
    have "(n + i) mod 8192 \<noteq> ?k"
    proof
      assume "(n + i) mod 8192 = ?k"
      then have "(8192 :: nat) dvd (n + length rs) - (n + i)" by (metis mod_eq_dvd_iff_nat nat_add_left_cancel_le lt less_imp_le)
      then have "(8192 :: nat) dvd length rs - i" by simp
      then show False using lt i(2) dvd_imp_le [of 8192 "length rs - i"] by simp
    qed
    then show ?thesis using b(3) lt i(2) by (simp add: nth_append)
  qed
  then show ?case using e by auto
qed

text \<open>After any number of records, however often the 32-bit write index has wrapped, the
  ring holds the latest 8192 of them, each in the slot of its number and with its sequence
  number.\<close>

theorem trace_keeps_latest:
  assumes "i < length rs" "length rs \<le> i + 8192"
  shows "map_option (\<lambda>buf. buf ! (i mod 8192)) (s_traceBuf (fold Emit rs (Trace_Initialize True now trace_initial))) =
         Some ((rs ! i)\<lparr>tr_seq := of_nat (Suc i)\<rparr>)"
proof -
  let ?st = "Trace_Initialize True now trace_initial"
  have "ring_after 0 ?st" "s_traceBuf ?st = Some (replicate 8192 (blank_rec now))"
    by (auto simp: ring_after_def Trace_Initialize_def trace_initial_def kTraceCapacity_def Let_def)
  from Emits_ring [OF this, of rs] show ?thesis using assms by auto
qed

lemma trace_keeps_latest_witness:
  "map_option (\<lambda>buf. buf ! 1) (s_traceBuf (fold Emit [blank_rec 5, blank_rec 6]
     (Trace_Initialize True 1 trace_initial))) = Some ((blank_rec 6)\<lparr>tr_seq := 2\<rparr>)"
  using trace_keeps_latest [of 1 "[blank_rec 5, blank_rec 6]" 1] by simp

end
