(* ===== verification/Analytics.thy ===== *)
theory Analytics
  imports Prelude
begin

section \<open>Named counters and timers\<close>

text \<open>
  \<open>Analytics.cpp\<close>: two append-only tables of at most 512 names, and per thread two small
  caches from names to table indices.  A name is a C string without its terminator; a null
  name behaves like the empty one.  An operation whose \<open>strcpy_s\<close> would overflow the 64-byte
  name field ends the process, which is the value \<open>None\<close>.  The first part holds the
  operations, the second shows that the caches never change an answer and that the counters
  are a map from names to sums.
\<close>

definition MAX_ANALYTICS_ITEMS :: nat where "MAX_ANALYTICS_ITEMS = 512"
definition kNameIdCacheSlots :: nat where "kNameIdCacheSlots = 64"
definition kMaxNameLen :: nat where "kMaxNameLen = 63"

record NameIdCacheEntry =
  nc_name :: string
  nc_hash :: u32
  nc_id :: int
  nc_valid :: bool

text \<open>One thread's cache with its replacement cursor.\<close>

record name_cache =
  nc_slots :: "NameIdCacheEntry list"
  nc_cursor :: nat

definition cache_initial :: name_cache where
  "cache_initial = \<lparr>nc_slots = replicate kNameIdCacheSlots
     \<lparr>nc_name = [], nc_hash = 0, nc_id = 0, nc_valid = False\<rparr>, nc_cursor = 0\<rparr>"

text \<open>32-bit FNV-1a over at most 63 characters.\<close>

definition FastNameHash :: "string \<Rightarrow> u32" where
  "FastNameHash s = fold (\<lambda>c h. (h XOR of_nat (of_char c)) * 16777619) (take kMaxNameLen s) 2166136261"

fun cache_scan :: "string \<Rightarrow> u32 \<Rightarrow> NameIdCacheEntry list \<Rightarrow> int" where
  "cache_scan name hash [] = - 1"
| "cache_scan name hash (e # es) =
     (if nc_valid e \<and> nc_hash e = hash \<and> nc_name e = name then nc_id e else cache_scan name hash es)"

definition LookupThreadLocalId :: "name_cache \<Rightarrow> string \<Rightarrow> int" where
  "LookupThreadLocalId cache name =
     (if name = [] then - 1 else cache_scan name (FastNameHash name) (nc_slots cache))"

definition StoreThreadLocalId :: "string \<Rightarrow> int \<Rightarrow> name_cache \<Rightarrow> name_cache" where
  "StoreThreadLocalId name ix cache =
     (if name = [] \<or> ix < 0 then cache
      else (let nm = take kMaxNameLen name in
            \<lparr>nc_slots = (nc_slots cache)[nc_cursor cache :=
               \<lparr>nc_name = nm, nc_hash = FastNameHash nm, nc_id = ix, nc_valid = True\<rparr>],
             nc_cursor = (nc_cursor cache + 1) mod kNameIdCacheSlots\<rparr>))"

subsection \<open>The tables\<close>

record timing_data =
  td_start :: u64
  td_total :: u64
  td_count :: u64

record analytics =
  m_timings :: "(string \<times> timing_data) list"
  m_counters :: "(string \<times> u64) list"

definition analytics_initial :: analytics where
  "analytics_initial = \<lparr>m_timings = [], m_counters = []\<rparr>"

text \<open>\<open>FindTimingIdNoLock\<close> and \<open>FindCounterIdNoLock\<close>: the index of a name, or -1.\<close>

fun find_id :: "nat \<Rightarrow> string \<Rightarrow> (string \<times> 'a) list \<Rightarrow> int" where
  "find_id i name [] = - 1"
| "find_id i name ((n, _) # rest) = (if n = name then int i else find_id (Suc i) name rest)"

definition FindTimingIdNoLock :: "analytics \<Rightarrow> string \<Rightarrow> int" where
  "FindTimingIdNoLock an name = find_id 0 name (m_timings an)"

definition FindCounterIdNoLock :: "analytics \<Rightarrow> string \<Rightarrow> int" where
  "FindCounterIdNoLock an name = find_id 0 name (m_counters an)"

text \<open>
  \<open>GetTimingId\<close> and \<open>GetCounterId\<close> with the thread's cache: cached index, table index, or a
  new entry.  A thread without a TLS array \<open>(tlsOk = False)\<close> never touches its cache.
\<close>

definition GetTimingId :: "bool \<Rightarrow> string \<Rightarrow> analytics \<times> name_cache \<Rightarrow> (int \<times> analytics \<times> name_cache) option" where
  "GetTimingId tlsOk name st =
     (let (an, cache) = st;
          store = (\<lambda>ix. if tlsOk then StoreThreadLocalId name ix cache else cache)
      in if name = [] then Some (- 1, st)
      else (let ix = (if tlsOk then LookupThreadLocalId cache name else - 1)
      in if ix \<ge> 0 then Some (ix, st)
      else (let ix = FindTimingIdNoLock an name
      in if ix \<ge> 0 then Some (ix, an, store ix)
      else (let count = length (m_timings an)
      in if count \<ge> MAX_ANALYTICS_ITEMS then Some (- 1, st)
      else if length name > kMaxNameLen then None
      else Some (int count,
                 an\<lparr>m_timings := m_timings an @ [(name, \<lparr>td_start = 0, td_total = 0, td_count = 0\<rparr>)]\<rparr>,
                 store (int count))))))"

definition GetCounterId :: "bool \<Rightarrow> string \<Rightarrow> analytics \<times> name_cache \<Rightarrow> (int \<times> analytics \<times> name_cache) option" where
  "GetCounterId tlsOk name st =
     (let (an, cache) = st;
          store = (\<lambda>ix. if tlsOk then StoreThreadLocalId name ix cache else cache)
      in if name = [] then Some (- 1, st)
      else (let ix = (if tlsOk then LookupThreadLocalId cache name else - 1)
      in if ix \<ge> 0 then Some (ix, st)
      else (let ix = FindCounterIdNoLock an name
      in if ix \<ge> 0 then Some (ix, an, store ix)
      else (let count = length (m_counters an)
      in if count \<ge> MAX_ANALYTICS_ITEMS then Some (- 1, st)
      else if length name > kMaxNameLen then None
      else Some (int count, an\<lparr>m_counters := m_counters an @ [(name, 0)]\<rparr>, store (int count))))))"

definition BeginTiming :: "u64 \<Rightarrow> bool \<Rightarrow> string \<Rightarrow> analytics \<times> name_cache \<Rightarrow> (analytics \<times> name_cache) option" where
  "BeginTiming now tlsOk name st =
     (case GetTimingId tlsOk name st of
        None \<Rightarrow> None
      | Some (ix, an, cache) \<Rightarrow>
          Some (if ix \<noteq> - 1
                then (an\<lparr>m_timings := (m_timings an)[nat ix :=
                        (fst (m_timings an ! nat ix), (snd (m_timings an ! nat ix))\<lparr>td_start := now\<rparr>)]\<rparr>, cache)
                else (an, cache)))"

definition EndTiming :: "u64 \<Rightarrow> bool \<Rightarrow> string \<Rightarrow> analytics \<times> name_cache \<Rightarrow> (analytics \<times> name_cache) option" where
  "EndTiming now tlsOk name st =
     (case GetTimingId tlsOk name st of
        None \<Rightarrow> None
      | Some (ix, an, cache) \<Rightarrow>
          Some (if ix \<noteq> - 1
                then (let (n, t) = m_timings an ! nat ix in
                      (an\<lparr>m_timings := (m_timings an)[nat ix :=
                        (n, t\<lparr>td_total := td_total t + (now - td_start t), td_count := td_count t + 1\<rparr>)]\<rparr>, cache))
                else (an, cache)))"

definition IncrementCounter :: "bool \<Rightarrow> string \<Rightarrow> u64 \<Rightarrow> analytics \<times> name_cache \<Rightarrow> (analytics \<times> name_cache) option" where
  "IncrementCounter tlsOk name v st =
     (case GetCounterId tlsOk name st of
        None \<Rightarrow> None
      | Some (ix, an, cache) \<Rightarrow>
          Some (if ix \<noteq> - 1
                then (an\<lparr>m_counters := (m_counters an)[nat ix :=
                        (fst (m_counters an ! nat ix), snd (m_counters an ! nat ix) + v)]\<rparr>, cache)
                else (an, cache)))"

definition GetCounterValue :: "analytics \<Rightarrow> string \<Rightarrow> u64" where
  "GetCounterValue an name =
     (let ix = FindCounterIdNoLock an name in if ix < 0 then 0 else snd (m_counters an ! nat ix))"

text \<open>\<open>GenerateCounterReport\<close> and \<open>GenerateTimingReport\<close>: the entries that are printed.\<close>

definition GenerateCounterReport :: "analytics \<Rightarrow> (string \<times> int) list" where
  "GenerateCounterReport an =
     filter (\<lambda>(n, v). v > 0) (map (\<lambda>(n, v). (n, sint v)) (m_counters an))"

definition GenerateTimingReport :: "analytics \<Rightarrow> (string \<times> int \<times> int) list" where
  "GenerateTimingReport an =
     filter (\<lambda>(n, total, count). count > 0)
       (map (\<lambda>(n, t). (n, sint (td_total t), sint (td_count t))) (m_timings an))"

subsection \<open>Tables and caches stay consistent\<close>

definition wf_names :: "(string \<times> 'a) list \<Rightarrow> bool" where
  "wf_names tab \<longleftrightarrow> distinct (map fst tab) \<and> length tab \<le> MAX_ANALYTICS_ITEMS \<and>
     (\<forall>n\<in>fst ` set tab. n \<noteq> [] \<and> length n \<le> kMaxNameLen)"

text \<open>Every valid cache entry names the table entry at its index.\<close>

definition cache_ok :: "(string \<times> 'a) list \<Rightarrow> name_cache \<Rightarrow> bool" where
  "cache_ok tab c \<longleftrightarrow> length (nc_slots c) = kNameIdCacheSlots \<and> nc_cursor c < kNameIdCacheSlots \<and>
     (\<forall>e\<in>set (nc_slots c). nc_valid e \<longrightarrow>
        0 \<le> nc_id e \<and> nat (nc_id e) < length tab \<and> fst (tab ! nat (nc_id e)) = nc_name e \<and>
        nc_hash e = FastNameHash (nc_name e))"

lemma find_id_None: "find_id i name tab = - 1 \<longleftrightarrow> name \<notin> fst ` set tab"
  by (induction i name tab rule: find_id.induct) auto

lemma find_id_range: "find_id i name tab = - 1 \<or> int i \<le> find_id i name tab"
  by (induction i name tab rule: find_id.induct) auto

lemma find_id_at:
  "distinct (map fst tab) \<Longrightarrow> j < length tab \<Longrightarrow> fst (tab ! j) = name \<Longrightarrow> find_id i name tab = int (i + j)"
proof (induction i name tab arbitrary: j rule: find_id.induct)
  case (2 i name n u rest)
  show ?case
  proof (cases j)
    case 0
    then show ?thesis using 2(4) by simp
  next
    case (Suc j')
    then have "name \<in> fst ` set rest" using 2(3,4) by (auto intro!: image_eqI [of _ _ "rest ! j'"])
    then have "n \<noteq> name" using 2(2) by auto
    then show ?thesis using 2(1) [of j'] 2(2-4) Suc by simp
  qed
qed simp

lemma find_id_Some:
  "find_id i name tab = k \<Longrightarrow> 0 \<le> k \<Longrightarrow>
   int i \<le> k \<and> nat k - i < length tab \<and> fst (tab ! (nat k - i)) = name"
proof (induction i name tab arbitrary: k rule: find_id.induct)
  case (2 i name n u rest)
  show ?case
  proof (cases "n = name")
    case True
    then show ?thesis using 2(2,3) by auto
  next
    case False
    then have f: "int (Suc i) \<le> k" "nat k - Suc i < length rest" "fst (rest ! (nat k - Suc i)) = name"
      using 2(1) [OF False, of k] 2(2,3) by auto
    then have "nat k - i = Suc (nat k - Suc i)" by simp
    then show ?thesis using f by simp
  qed
qed simp

lemma cache_scan_result:
  assumes "\<forall>e\<in>set es. nc_valid e \<longrightarrow> 0 \<le> nc_id e \<and> nat (nc_id e) < length tab \<and> fst (tab ! nat (nc_id e)) = nc_name e"
  shows "cache_scan name hash es = - 1 \<or>
    0 \<le> cache_scan name hash es \<and> nat (cache_scan name hash es) < length tab \<and>
    fst (tab ! nat (cache_scan name hash es)) = name"
  using assms by (induction name hash es rule: cache_scan.induct) auto

text \<open>A cached answer is the answer of the table.\<close>

lemma Lookup_agrees:
  assumes "cache_ok tab c" "wf_names tab" "0 \<le> LookupThreadLocalId c name"
  shows "LookupThreadLocalId c name = find_id 0 name tab"
proof -
  have "name \<noteq> []" using assms(3) by (auto simp: LookupThreadLocalId_def)
  then have "LookupThreadLocalId c name = cache_scan name (FastNameHash name) (nc_slots c)"
    by (simp add: LookupThreadLocalId_def)
  then have "nat (LookupThreadLocalId c name) < length tab \<and> fst (tab ! nat (LookupThreadLocalId c name)) = name"
    using cache_scan_result [of "nc_slots c" tab name "FastNameHash name"] assms(1,3)
    by (auto simp: cache_ok_def)
  then show ?thesis using find_id_at [of tab "nat (LookupThreadLocalId c name)" name 0] assms(2,3)
    by (simp add: wf_names_def)
qed

lemma cache_ok_append: "cache_ok tab c \<Longrightarrow> cache_ok (tab @ [x]) c"
  by (auto simp: cache_ok_def nth_append)

lemma cache_ok_update:
  "cache_ok tab c \<Longrightarrow> i < length tab \<Longrightarrow> cache_ok (tab[i := (fst (tab ! i), v)]) c"
  by (auto simp: cache_ok_def nth_list_update)

lemma cache_ok_Store:
  assumes "cache_ok tab c" "wf_names tab" "0 \<le> ix" "nat ix < length tab" "fst (tab ! nat ix) = name"
  shows "cache_ok tab (StoreThreadLocalId name ix c)"
proof -
  have "name \<in> fst ` set tab" using assms(4,5) by (metis image_eqI nth_mem)
  then have "name \<noteq> []" "take kMaxNameLen name = name" using assms(2) by (auto simp: wf_names_def)
  then show ?thesis using assms
    by (auto simp: StoreThreadLocalId_def Let_def cache_ok_def kNameIdCacheSlots_def dest!: set_update_subset_insert [THEN subsetD])
qed

lemma wf_names_append:
  "wf_names tab \<Longrightarrow> length tab < MAX_ANALYTICS_ITEMS \<Longrightarrow> name \<noteq> [] \<Longrightarrow> length name \<le> kMaxNameLen \<Longrightarrow>
   name \<notin> fst ` set tab \<Longrightarrow> wf_names (tab @ [(name, v)])"
  by (auto simp: wf_names_def)

lemma map_fst_update: "i < length tab \<Longrightarrow> map fst (tab[i := (fst (tab ! i), v)]) = map fst tab"
  by (metis fst_conv list_update_id map_update nth_map)

lemma wf_names_update:
  assumes "wf_names tab" "i < length tab"
  shows "wf_names (tab[i := (fst (tab ! i), v)])"
proof -
  have "fst ` set (tab[i := (fst (tab ! i), v)]) = fst ` set tab"
    using arg_cong [OF map_fst_update [OF assms(2), of v], of set] by simp
  then show ?thesis using assms map_fst_update [OF assms(2)] by (simp add: wf_names_def)
qed

text \<open>
  \<open>GetCounterId\<close> answers as if there were no cache, and keeps table and cache consistent.
\<close>

lemma GetCounterId_correct:
  assumes "wf_names (m_counters an)" "cache_ok (m_counters an) cache"
    and "GetCounterId tlsOk name (an, cache) = Some (ix, an', cache')"
  shows "wf_names (m_counters an') \<and> cache_ok (m_counters an') cache' \<and> m_timings an' = m_timings an \<and>
    (ix = - 1 \<and> m_counters an' = m_counters an \<and> (name = [] \<or> name \<notin> fst ` set (m_counters an) \<and>
        MAX_ANALYTICS_ITEMS \<le> length (m_counters an)) \<or>
     0 \<le> ix \<and> nat ix < length (m_counters an') \<and> fst (m_counters an' ! nat ix) = name \<and>
       m_counters an' = (if name \<in> fst ` set (m_counters an) then m_counters an else m_counters an @ [(name, 0)]))"
proof (cases "name = []")
  case True
  then show ?thesis using assms by (auto simp: GetCounterId_def Let_def)
next
  case ne: False
  show ?thesis
  proof (cases "tlsOk \<and> 0 \<le> LookupThreadLocalId cache name")
    case True
    then have e: "ix = LookupThreadLocalId cache name" "an' = an" "cache' = cache"
      using assms(3) ne by (auto simp: GetCounterId_def Let_def)
    have "find_id 0 name (m_counters an) = ix" using Lookup_agrees [OF assms(2,1)] True e by simp
    moreover have "0 \<le> ix" using True e by simp
    ultimately show ?thesis using find_id_Some [of 0 name "m_counters an" ix] find_id_None [of 0 name "m_counters an"]
        assms(1,2) e by auto
  next
    case nc: False
    let ?k = "find_id 0 name (m_counters an)"
    show ?thesis
    proof (cases "0 \<le> ?k")
      case True
      then have e: "ix = ?k" "an' = an" "cache' = (if tlsOk then StoreThreadLocalId name ?k cache else cache)"
        using assms(3) ne nc by (auto simp: GetCounterId_def Let_def FindCounterIdNoLock_def split: if_splits)
      have f: "nat ?k < length (m_counters an)" "fst (m_counters an ! nat ?k) = name"
        using find_id_Some [of 0 name "m_counters an" ?k] True by auto
      have "cache_ok (m_counters an) cache'" using cache_ok_Store [OF assms(2,1) True f] assms(2) e by simp
      moreover have "name \<in> fst ` set (m_counters an)" using find_id_None [of 0 name "m_counters an"] True by auto
      ultimately show ?thesis using e f True assms(1) by auto
    next
      case False
      then have nin: "name \<notin> fst ` set (m_counters an)"
        using find_id_None [of 0 name "m_counters an"] find_id_range [of 0 name "m_counters an"] by auto
      show ?thesis
      proof (cases "MAX_ANALYTICS_ITEMS \<le> length (m_counters an)")
        case True
        then show ?thesis using assms ne nc False nin
          by (auto simp: GetCounterId_def Let_def FindCounterIdNoLock_def split: if_splits)
      next
        case room: False
        let ?tab = "m_counters an @ [(name, 0)]"
        have e: "length name \<le> kMaxNameLen" "ix = int (length (m_counters an))"
          "an' = an\<lparr>m_counters := ?tab\<rparr>"
          "cache' = (if tlsOk then StoreThreadLocalId name (int (length (m_counters an))) cache else cache)"
          using assms(3) ne nc False room
          by (auto simp: GetCounterId_def Let_def FindCounterIdNoLock_def split: if_splits)
        have w: "wf_names ?tab" using wf_names_append [OF assms(1)] room ne e(1) nin by simp
        have "cache_ok ?tab cache'"
          using cache_ok_Store [OF cache_ok_append [OF assms(2), of "(name, 0)"] w] cache_ok_append [OF assms(2)] e(4)
          by simp
        then show ?thesis using e w nin by auto
      qed
    qed
  qed
qed

subsection \<open>The counters are a map from names to sums\<close>

lemma find_id_map_of:
  "map_of tab name = (if find_id i name tab = - 1 then None else Some (snd (tab ! (nat (find_id i name tab) - i))))"
proof (induction i name tab rule: find_id.induct)
  case (2 i name n u rest)
  have r: "find_id (Suc i) name rest = - 1 \<or> int (Suc i) \<le> find_id (Suc i) name rest"
    by (rule find_id_range)
  show ?case
  proof (cases "n = name")
    case False
    then show ?thesis using 2 [OF False] r
      by (auto simp: nth_Cons' Suc_diff_Suc [symmetric] nat_le_iff le_diff_conv split: if_splits)
  qed simp
qed simp

lemma GetCounterValue_map_of:
  "GetCounterValue an name = (case map_of (m_counters an) name of None \<Rightarrow> 0 | Some v \<Rightarrow> v)"
  using find_id_map_of [of "m_counters an" name 0] find_id_range [of 0 name "m_counters an"]
  by (auto simp: GetCounterValue_def FindCounterIdNoLock_def Let_def split: if_splits)

lemma map_of_update:
  "distinct (map fst tab) \<Longrightarrow> i < length tab \<Longrightarrow>
   map_of (tab[i := (fst (tab ! i), v)]) = (map_of tab)(fst (tab ! i) \<mapsto> v)"
proof (induction tab arbitrary: i)
  case (Cons p tab)
  show ?case
  proof (cases i)
    case 0
    then show ?thesis by (cases p) (auto simp: fun_eq_iff)
  next
    case (Suc j)
    then have "fst (tab ! j) \<in> fst ` set tab" using Cons.prems(2) by (intro imageI nth_mem) simp
    moreover have "fst p \<notin> fst ` set tab" using Cons.prems(1) by simp
    ultimately have "fst (tab ! j) \<noteq> fst p" by metis
    then show ?thesis using Cons Suc by (cases p) (auto simp: fun_eq_iff)
  qed
qed simp

lemma map_of_nth_fst: "distinct (map fst tab) \<Longrightarrow> i < length tab \<Longrightarrow> map_of tab (fst (tab ! i)) = Some (snd (tab ! i))"
  by (rule map_of_eq_Some_iff [THEN iffD2]) (auto simp: prod_eq_iff)

lemma Increment_step:
  assumes "wf_names (m_counters an)" "cache_ok (m_counters an) cache"
    and "name \<noteq> []" "length name \<le> kMaxNameLen"
    and "name \<in> fst ` set (m_counters an) \<or> length (m_counters an) < MAX_ANALYTICS_ITEMS"
  shows "\<exists>an' cache'. IncrementCounter tlsOk name v (an, cache) = Some (an', cache') \<and>
    wf_names (m_counters an') \<and> cache_ok (m_counters an') cache' \<and>
    (\<forall>c. cache_ok (m_counters an) c \<longrightarrow> cache_ok (m_counters an') c) \<and>
    fst ` set (m_counters an') = insert name (fst ` set (m_counters an)) \<and>
    (\<forall>n. GetCounterValue an' n = GetCounterValue an n + (if n = name then v else 0))"
proof -
  have "GetCounterId tlsOk name (an, cache) \<noteq> None"
    using assms(3-5) find_id_None [of 0 name "m_counters an"] find_id_range [of 0 name "m_counters an"]
    by (auto simp: GetCounterId_def Let_def FindCounterIdNoLock_def)
  then obtain ix an1 cache1 where g: "GetCounterId tlsOk name (an, cache) = Some (ix, an1, cache1)" by auto
  note c = GetCounterId_correct [OF assms(1,2) g]
  have ix: "0 \<le> ix" "nat ix < length (m_counters an1)" "fst (m_counters an1 ! nat ix) = name"
    and tab: "m_counters an1 = (if name \<in> fst ` set (m_counters an) then m_counters an else m_counters an @ [(name, 0)])"
    using c assms(3,5) not_le by blast+
  let ?i = "nat ix"
  let ?tab = "(m_counters an1)[?i := (fst (m_counters an1 ! ?i), snd (m_counters an1 ! ?i) + v)]"
  have e: "IncrementCounter tlsOk name v (an, cache) = Some (an1\<lparr>m_counters := ?tab\<rparr>, cache1)"
    using g ix(1) by (simp add: IncrementCounter_def)
  have w1: "wf_names (m_counters an1)" and c1: "cache_ok (m_counters an1) cache1" using c by auto
  then have d1: "distinct (map fst (m_counters an1))" by (simp add: wf_names_def)
  have names: "fst ` set ?tab = insert name (fst ` set (m_counters an))"
    using arg_cong [OF map_fst_update [OF ix(2), of "snd (m_counters an1 ! ?i) + v"], of set] tab by auto
  have val: "GetCounterValue an1 n = GetCounterValue an n" for n
    using tab by (auto simp: GetCounterValue_map_of map_add_def map_of_eq_None_iff [symmetric] split: if_splits option.splits)
  have "GetCounterValue (an1\<lparr>m_counters := ?tab\<rparr>) n = GetCounterValue an1 n + (if n = name then v else 0)" for n
    using map_of_update [OF d1 ix(2), of "snd (m_counters an1 ! ?i) + v"] map_of_nth_fst [OF d1 ix(2)] ix(3)
    by (auto simp: GetCounterValue_map_of)
  moreover have "cache_ok ?tab c" if "cache_ok (m_counters an) c" for c
  proof (rule cache_ok_update [OF _ ix(2)])
    show "cache_ok (m_counters an1) c" using that cache_ok_append [OF that] tab by simp
  qed
  ultimately show ?thesis
    using e names val wf_names_update [OF w1 ix(2)] cache_ok_update [OF c1 ix(2)]
    by (intro exI [of _ "an1\<lparr>m_counters := ?tab\<rparr>"] exI [of _ cache1]) simp
qed

text \<open>
  A history of increments by several threads: each step names the thread, whether it has a
  TLS array, the counter and the amount.
\<close>

fun run_increments ::
    "(nat \<times> bool \<times> string \<times> u64) list \<Rightarrow> analytics \<times> (nat \<Rightarrow> name_cache) \<Rightarrow> (analytics \<times> (nat \<Rightarrow> name_cache)) option" where
  "run_increments [] st = Some st"
| "run_increments ((t, tlsOk, name, v) # rest) st =
     (case IncrementCounter tlsOk name v (fst st, snd st t) of
        None \<Rightarrow> None
      | Some (an, cache) \<Rightarrow> run_increments rest (an, (snd st)(t := cache)))"

definition total_of :: "string \<Rightarrow> (nat \<times> bool \<times> string \<times> u64) list \<Rightarrow> u64" where
  "total_of n ops = sum_list (map (\<lambda>(t, tlsOk, name, v). if name = n then v else 0) ops)"

lemma run_increments_sum:
  assumes "wf_names (m_counters an)" "\<And>t. cache_ok (m_counters an) (caches t)"
    and "\<forall>(t, k, name, v)\<in>set ops. name \<noteq> [] \<and> length name \<le> kMaxNameLen"
    and "card (fst ` set (m_counters an) \<union> (\<lambda>(t, k, name, v). name) ` set ops) \<le> MAX_ANALYTICS_ITEMS"
  shows "\<exists>an' caches'. run_increments ops (an, caches) = Some (an', caches') \<and>
    (\<forall>n. GetCounterValue an' n = GetCounterValue an n + total_of n ops)"
  using assms
proof (induction ops arbitrary: an caches)
  case Nil
  then show ?case by (simp add: total_of_def)
next
  case (Cons oper ops)
  obtain t k name v where o: "oper = (t, k, name, v)" by (cases oper)
  have nm: "name \<noteq> []" "length name \<le> kMaxNameLen" using Cons.prems(3) o by auto
  have room: "name \<in> fst ` set (m_counters an) \<or> length (m_counters an) < MAX_ANALYTICS_ITEMS"
  proof (rule disjCI)
    assume full: "\<not> length (m_counters an) < MAX_ANALYTICS_ITEMS"
    let ?S = "fst ` set (m_counters an)"
    have "card ?S = length (m_counters an)"
      using Cons.prems(1) by (metis wf_names_def distinct_card length_map set_map)
    moreover have "card (insert name ?S) \<le> card (?S \<union> (\<lambda>(t, k, name, v). name) ` set (oper # ops))"
      using o by (intro card_mono) auto
    ultimately have "card (insert name ?S) \<le> card ?S" using Cons.prems(4) full by simp
    then show "name \<in> ?S" by (metis card_insert_disjoint finite_imageI finite_set not_less_eq_eq order_refl)
  qed
  from Increment_step [OF Cons.prems(1) Cons.prems(2) [of t] nm room, of k v] obtain an1 cache1 where
    s: "IncrementCounter k name v (an, caches t) = Some (an1, cache1)" "wf_names (m_counters an1)"
      "cache_ok (m_counters an1) cache1" "\<forall>c. cache_ok (m_counters an) c \<longrightarrow> cache_ok (m_counters an1) c"
      "fst ` set (m_counters an1) = insert name (fst ` set (m_counters an))"
      "\<forall>n. GetCounterValue an1 n = GetCounterValue an n + (if n = name then v else 0)" by blast
  have "\<exists>an' caches'. run_increments ops (an1, caches(t := cache1)) = Some (an', caches') \<and>
    (\<forall>n. GetCounterValue an' n = GetCounterValue an1 n + total_of n ops)"
  proof (rule Cons.IH [OF s(2)])
    show "cache_ok (m_counters an1) ((caches(t := cache1)) u)" for u using s(3,4) Cons.prems(2) by simp
    show "\<forall>(t, k, name, v)\<in>set ops. name \<noteq> [] \<and> length name \<le> kMaxNameLen" using Cons.prems(3) by auto
    show "card (fst ` set (m_counters an1) \<union> (\<lambda>(t, k, name, v). name) ` set ops) \<le> MAX_ANALYTICS_ITEMS"
      using Cons.prems(4) s(5) o by (simp add: insert_commute Un_commute)
  qed
  then show ?case using s(1,6) o by (auto simp: total_of_def add.assoc eq_commute [of name])
qed

lemma initial_ok: "wf_names (m_counters analytics_initial)" "cache_ok (m_counters analytics_initial) cache_initial"
  by (simp_all add: wf_names_def analytics_initial_def cache_ok_def cache_initial_def kNameIdCacheSlots_def)

text \<open>Whatever the threads and their caches do, a counter reads the sum of what was added
  to it: every history of increments with at most 512 distinct names of at most 63 characters
  succeeds, and afterwards \<open>GetCounterValue\<close> is the total modulo \<open>2^64\<close>.\<close>

theorem counters_read_sums:
  assumes "\<forall>(t, k, name, v)\<in>set ops. name \<noteq> [] \<and> length name \<le> kMaxNameLen"
    and "card ((\<lambda>(t, k, name, v). name) ` set ops) \<le> MAX_ANALYTICS_ITEMS"
  shows "\<exists>an caches. run_increments ops (analytics_initial, \<lambda>_. cache_initial) = Some (an, caches) \<and>
    (\<forall>n. GetCounterValue an n = total_of n ops)"
  using run_increments_sum [OF initial_ok(1) initial_ok(2), of ops] assms
  by (auto simp: analytics_initial_def GetCounterValue_map_of)

lemma counters_read_sums_witness:
  "\<exists>an caches. run_increments [(1, True, ''Alloc'', 5), (2, False, ''Free'', 1), (1, True, ''Alloc'', 7)]
      (analytics_initial, \<lambda>_. cache_initial) = Some (an, caches) \<and> GetCounterValue an ''Alloc'' = 12"
proof -
  let ?ops = "[(1, True, ''Alloc'', 5), (2, False, ''Free'', 1), (1, True, ''Alloc'', 7)]"
  have "\<exists>an caches. run_increments ?ops (analytics_initial, \<lambda>_. cache_initial) = Some (an, caches) \<and>
      (\<forall>n. GetCounterValue an n = total_of n ?ops)"
    by (rule counters_read_sums) (simp_all add: kMaxNameLen_def MAX_ANALYTICS_ITEMS_def card_insert_if)
  moreover have "total_of ''Alloc'' ?ops = 12" by (simp add: total_of_def)
  ultimately show ?thesis by metis
qed

end
