(* ===== verification/Monitors.thy ===== *)
theory Monitors
  imports Prelude
begin

section \<open>Pressure, collection cadence, hitch detection and lanes\<close>

text \<open>
  Four small components the heartbeat and the hooks call: \<open>VASPressureMonitor.cpp\<close>,
  \<open>ProxyGc.cpp\<close>, \<open>HitchDetector.cpp\<close> and \<open>ContainmentLane.cpp\<close>.  Clock readings,
  environment strings and thread ids are parameters; what a component writes to the log or
  signals is part of its result.
\<close>

subsection \<open>VAS pressure\<close>

datatype VASPressureLevel = Normal | Warning | Critical

definition WARNING_THRESHOLD :: u32 where "WARNING_THRESHOLD = 128 * 1024 * 1024"
definition CRITICAL_THRESHOLD :: u32 where "CRITICAL_THRESHOLD = 64 * 1024 * 1024"

record vas_monitor =
  m_availableVAS :: u32
  m_pressureLevel :: VASPressureLevel

definition vas_monitor_init :: vas_monitor where
  "vas_monitor_init = \<lparr>m_availableVAS = 2000 * 1024 * 1024, m_pressureLevel = Normal\<rparr>"

text \<open>The message is the new level with the available megabytes.\<close>

definition VAS_Update :: "u32 \<Rightarrow> vas_monitor \<Rightarrow> vas_monitor \<times> (VASPressureLevel \<times> u32) option" where
  "VAS_Update availableVAS m =
     (let newLevel = (if availableVAS < CRITICAL_THRESHOLD then Critical
                      else if availableVAS < WARNING_THRESHOLD then Warning else Normal);
          oldLevel = m_pressureLevel m
      in (\<lparr>m_availableVAS = availableVAS, m_pressureLevel = newLevel\<rparr>,
          if oldLevel \<noteq> newLevel then Some (newLevel, availableVAS div (1024 * 1024)) else None))"

text \<open>The enum's order, for the comparison of \<open>ShouldThrottle\<close>.\<close>

fun level_rank :: "VASPressureLevel \<Rightarrow> nat" where
  "level_rank Normal = 0" | "level_rank Warning = 1" | "level_rank Critical = 2"

definition ShouldThrottle :: "vas_monitor \<Rightarrow> bool" where
  "ShouldThrottle m \<longleftrightarrow> level_rank (m_pressureLevel m) \<ge> level_rank Warning"

definition ShouldPause :: "vas_monitor \<Rightarrow> bool" where
  "ShouldPause m \<longleftrightarrow> m_pressureLevel m = Critical"

subsection \<open>Collection requests to the managed heap\<close>

text \<open>
  \<open>EnvU64\<close>: \<open>_strtoui64\<close> in base 10 of a value that fits a 32-byte buffer; 0 and text that is
  not a number give the default.  The C function saturates at \<open>2^64 - 1\<close> and negates after a
  minus sign.
\<close>

definition strtoui64 :: "string \<Rightarrow> u64" where
  "strtoui64 s =
     (case dropWhile is_space s of
        [] \<Rightarrow> 0
      | c # t \<Rightarrow>
          (let sat = (\<lambda>v. if v > 18446744073709551615 then - 1 else word_of_int v)
           in if c = CHR ''-''
              then (let v = digits_val 0 t in if v > 18446744073709551615 then - 1 else - word_of_int v)
              else if c = CHR ''+'' then sat (digits_val 0 t)
              else sat (digits_val 0 (c # t))))"

definition EnvU64 :: "string option \<Rightarrow> u64 \<Rightarrow> u64" where
  "EnvU64 env dflt =
     (case env_in_buf 32 env of
        None \<Rightarrow> dflt
      | Some v \<Rightarrow> (let r = strtoui64 v in if r \<noteq> 0 then r else dflt))"

definition MB :: u64 where "MB = 1024 * 1024"

record proxy_gc =
  s_gcReqEvent :: bool
  s_lastGcReqMs :: u64
  s_pressureBytes :: u64
  s_proactiveIntervalMs :: u64
  s_pressureIntervalMs :: u64
  s_shHeap :: "u64 option"

text \<open>Whether the event could be created and the block of the heap size mapped is the system's answer.\<close>

definition ProxyGc_Init ::
    "string option \<Rightarrow> string option \<Rightarrow> string option \<Rightarrow> bool \<Rightarrow> bool \<Rightarrow> proxy_gc \<Rightarrow> proxy_gc" where
  "ProxyGc_Init pressureEnv intervalEnv pressureSecEnv mapped created g =
     g\<lparr>s_pressureBytes := EnvU64 pressureEnv 1024 * MB,
       s_proactiveIntervalMs := EnvU64 intervalEnv 60 * 1000,
       s_pressureIntervalMs := EnvU64 pressureSecEnv 15 * 1000,
       s_shHeap := (if mapped then Some 0 else s_shHeap g),
       s_gcReqEvent := created\<rparr>"

text \<open>The second result: was the event set, and was it for pressure.\<close>

definition MaybeRequestMonoCollect :: "u64 \<Rightarrow> u32 \<Rightarrow> proxy_gc \<Rightarrow> proxy_gc \<times> bool option" where
  "MaybeRequestMonoCollect now largestFreeBytes g =
     (if \<not> s_gcReqEvent g then (g, None)
      else (let sinceLast = (if s_lastGcReqMs g = 0 then - 1 else now - s_lastGcReqMs g);
                pressure = (largestFreeBytes > 0 \<and> ucast largestFreeBytes < s_pressureBytes g);
                interval = (if pressure then s_pressureIntervalMs g else s_proactiveIntervalMs g)
            in if sinceLast < interval then (g, None)
               else (g\<lparr>s_lastGcReqMs := now\<rparr>, Some pressure)))"

definition GetScriptHeapBytes :: "proxy_gc \<Rightarrow> u64" where
  "GetScriptHeapBytes g = (case s_shHeap g of None \<Rightarrow> 0 | Some v \<Rightarrow> v)"

subsection \<open>Hitch detection\<close>

definition GetEnvIntOrDefault :: "string option \<Rightarrow> int \<Rightarrow> int" where
  "GetEnvIntOrDefault env defVal =
     (case env_in_buf 32 env of
        None \<Rightarrow> defVal
      | Some b \<Rightarrow> (let v = atoi b in if v > 0 then v else defVal))"

text \<open>The five settings, read once.\<close>

record hitch_config =
  FrequencyCheckIntervalMs :: int
  ReadFileFrequencyThreshold :: int
  AllocFrequencyThreshold :: int
  FreeFrequencyThreshold :: int
  HitchCaptureStacks :: int

definition hitch_config_of ::
    "string option \<Rightarrow> string option \<Rightarrow> string option \<Rightarrow> string option \<Rightarrow> string option \<Rightarrow> hitch_config" where
  "hitch_config_of e1 e2 e3 e4 e5 =
     \<lparr>FrequencyCheckIntervalMs = GetEnvIntOrDefault e1 250,
      ReadFileFrequencyThreshold = GetEnvIntOrDefault e2 2000,
      AllocFrequencyThreshold = GetEnvIntOrDefault e3 20000,
      FreeFrequencyThreshold = GetEnvIntOrDefault e4 20000,
      HitchCaptureStacks = GetEnvIntOrDefault e5 0\<rparr>"

definition HitchCaptureStacksEnabled :: "hitch_config \<Rightarrow> bool" where
  "HitchCaptureStacksEnabled cfg \<longleftrightarrow> HitchCaptureStacks cfg > 0"

text \<open>The counters and the static locals of \<open>CheckApiFrequency\<close>.\<close>

record hitch =
  m_readFileCount :: u64
  m_allocCount :: u64
  m_freeCount :: u64
  lastCheckTime :: u32
  lastReadFileCount :: u64
  lastAllocCount :: u64
  lastFreeCount :: u64

definition hitch_init :: hitch where
  "hitch_init = \<lparr>m_readFileCount = 0, m_allocCount = 0, m_freeCount = 0, lastCheckTime = 0,
     lastReadFileCount = 0, lastAllocCount = 0, lastFreeCount = 0\<rparr>"

definition IncrementReadFile :: "hitch \<Rightarrow> hitch" where
  "IncrementReadFile d = d\<lparr>m_readFileCount := m_readFileCount d + 1\<rparr>"
definition IncrementAlloc :: "hitch \<Rightarrow> hitch" where
  "IncrementAlloc d = d\<lparr>m_allocCount := m_allocCount d + 1\<rparr>"
definition IncrementFree :: "hitch \<Rightarrow> hitch" where
  "IncrementFree d = d\<lparr>m_freeCount := m_freeCount d + 1\<rparr>"

text \<open>What a check reports: the kinds that are over their threshold with their deltas, and
  whether a stack capture is requested.\<close>

datatype hitch_kind = ReadFileTraffic | AllocTraffic | FreeTraffic

definition CheckApiFrequency ::
    "hitch_config \<Rightarrow> u32 \<Rightarrow> hitch \<Rightarrow> hitch \<times> (hitch_kind \<times> int) list \<times> bool" where
  "CheckApiFrequency cfg now d =
     (if lastCheckTime d = 0 then (d\<lparr>lastCheckTime := now\<rparr>, [], False)
      else (let delta_t = now - lastCheckTime d
      in if delta_t < word_of_int (FrequencyCheckIntervalMs cfg) then (d, [], False)
      else (let deltaReads = sint (m_readFileCount d - lastReadFileCount d);
                deltaAllocs = sint (m_allocCount d - lastAllocCount d);
                deltaFrees = sint (m_freeCount d - lastFreeCount d);
                reports =
                  (if deltaReads > ReadFileFrequencyThreshold cfg then [(ReadFileTraffic, deltaReads)] else []) @
                  (if deltaAllocs > AllocFrequencyThreshold cfg then [(AllocTraffic, deltaAllocs)] else []) @
                  (if deltaFrees > FreeFrequencyThreshold cfg then [(FreeTraffic, deltaFrees)] else [])
            in (d\<lparr>lastReadFileCount := m_readFileCount d, lastAllocCount := m_allocCount d,
                  lastFreeCount := m_freeCount d, lastCheckTime := now\<rparr>,
                reports, reports \<noteq> [] \<and> HitchCaptureStacksEnabled cfg))))"

subsection \<open>Containment lanes\<close>

datatype ContainmentLane =
  LANE_CONTAINED_A | LANE_EXCLUDED_A | LANE_EXCLUDED_B | LANE_EXCLUDED_C
  | LANE_CONTAINED_B | LANE_CONTAINED_C | LANE_EXCLUDED_D | LANE_CONTAINED_D

definition LaneShard4 :: "u32 \<Rightarrow> u32" where
  "LaneShard4 threadId = threadId AND 3"

definition ContainmentLane_FromCallerKind :: "u32 \<Rightarrow> int \<Rightarrow> ContainmentLane" where
  "ContainmentLane_FromCallerKind threadId callerKind =
     (let shard = LaneShard4 threadId
      in if callerKind = 1
         then (if shard = 0 then LANE_EXCLUDED_A else if shard = 1 then LANE_EXCLUDED_B
               else if shard = 2 then LANE_EXCLUDED_C else LANE_EXCLUDED_D)
         else (if shard = 0 then LANE_CONTAINED_A else if shard = 1 then LANE_CONTAINED_B
               else if shard = 2 then LANE_CONTAINED_C else LANE_CONTAINED_D))"

subsection \<open>Properties\<close>

text \<open>The level is a function of the last update alone.\<close>

lemma VAS_Update_level:
  "m_pressureLevel (fst (VAS_Update v m)) = Critical \<longleftrightarrow> v < 0x4000000"
  "m_pressureLevel (fst (VAS_Update v m)) = Normal \<longleftrightarrow> 0x8000000 \<le> v"
  by (auto simp: VAS_Update_def Let_def CRITICAL_THRESHOLD_def WARNING_THRESHOLD_def u32_unat)

text \<open>A sequence of updates with the levels it announces.\<close>

fun vas_run :: "u32 list \<Rightarrow> vas_monitor \<Rightarrow> vas_monitor \<times> VASPressureLevel list" where
  "vas_run [] m = (m, [])"
| "vas_run (v # vs) m =
     (let (m1, w) = VAS_Update v m; (m2, ws) = vas_run vs m1
      in (m2, (case w of None \<Rightarrow> [] | Some (l, _) \<Rightarrow> [l]) @ ws))"

definition level_of :: "u32 \<Rightarrow> VASPressureLevel" where
  "level_of v = (if v < 0x4000000 then Critical else if v < 0x8000000 then Warning else Normal)"

lemma vas_run_levels:
  "snd (vas_run vs m) = tl (remdups_adj (m_pressureLevel m # map level_of vs))"
proof (induction vs arbitrary: m)
  case (Cons v vs)
  have l: "m_pressureLevel (fst (VAS_Update v m)) = level_of v"
    by (simp add: VAS_Update_def Let_def CRITICAL_THRESHOLD_def WARNING_THRESHOLD_def level_of_def)
  have w: "snd (VAS_Update v m) = (if m_pressureLevel m \<noteq> level_of v then Some (level_of v, v div (1024 * 1024)) else None)"
    by (simp add: VAS_Update_def Let_def CRITICAL_THRESHOLD_def WARNING_THRESHOLD_def level_of_def)
  have "remdups_adj (level_of v # map level_of vs) = level_of v # tl (remdups_adj (level_of v # map level_of vs))"
    by (metis list.collapse list.distinct(1) remdups_adj_Cons_alt remdups_adj_Nil_iff hd_remdups_adj list.sel(1))
  then show ?case using Cons [of "fst (VAS_Update v m)"] l w
    by (simp add: split_beta Let_def)
qed simp

lemma vas_run_final:
  "vs \<noteq> [] \<Longrightarrow> m_pressureLevel (fst (vas_run vs m)) = level_of (last vs)"
proof (induction vs arbitrary: m)
  case (Cons v vs)
  have "m_pressureLevel (fst (VAS_Update v m)) = level_of v"
    by (simp add: VAS_Update_def Let_def CRITICAL_THRESHOLD_def WARNING_THRESHOLD_def level_of_def)
  then show ?case using Cons.IH [of "fst (VAS_Update v m)"] by (cases vs) (simp_all add: split_beta Let_def)
qed simp

text \<open>Over any sequence of updates the monitor announces exactly the changes of level: what
  it logs is the sequence of levels with repetitions removed.  At the end it throttles when the
  last reading is below 128 MB and pauses when it is below 64 MB.\<close>

theorem vas_monitor_announces_changes:
  assumes "vs \<noteq> []"
  shows "snd (vas_run vs m) = tl (remdups_adj (m_pressureLevel m # map level_of vs)) \<and>
    (ShouldThrottle (fst (vas_run vs m)) \<longleftrightarrow> last vs < 0x8000000) \<and>
    (ShouldPause (fst (vas_run vs m)) \<longleftrightarrow> last vs < 0x4000000)"
  using vas_run_levels [of vs m] vas_run_final [OF assms, of m]
  by (auto simp: ShouldThrottle_def ShouldPause_def level_of_def u32_unat)

lemma vas_monitor_announces_changes_witness:
  "snd (vas_run [0x7000000, 0x6000000, 0x100, 0x9000000] vas_monitor_init) = [Warning, Critical, Normal] \<and>
   \<not> ShouldThrottle (fst (vas_run [0x7000000, 0x6000000, 0x100, 0x9000000] vas_monitor_init))"
  using vas_monitor_announces_changes [of "[0x7000000, 0x6000000, 0x100, 0x9000000]" vas_monitor_init]
  by (simp add: vas_monitor_init_def level_of_def)

text \<open>The times at which a sequence of heartbeat calls (tick, largest free span) requests a collection.\<close>

fun gc_run :: "(u64 \<times> u32) list \<Rightarrow> proxy_gc \<Rightarrow> u64 list" where
  "gc_run [] g = []"
| "gc_run ((now, lf) # rest) g =
     (case MaybeRequestMonoCollect now lf g of
        (g', None) \<Rightarrow> gc_run rest g'
      | (g', Some _) \<Rightarrow> now # gc_run rest g')"

text \<open>A call requests exactly when no request was made yet or the interval has passed.\<close>

lemma Maybe_request:
  assumes "s_gcReqEvent g" "s_lastGcReqMs g \<le> now" "s_pressureIntervalMs g \<le> s_proactiveIntervalMs g"
    and "MaybeRequestMonoCollect now lf g = (g', r)"
  shows "g' = (if r = None then g else g\<lparr>s_lastGcReqMs := now\<rparr>)"
    and "r \<noteq> None \<Longrightarrow> s_lastGcReqMs g = 0 \<or> unat (s_lastGcReqMs g) + unat (s_pressureIntervalMs g) \<le> unat now"
proof -
  show "g' = (if r = None then g else g\<lparr>s_lastGcReqMs := now\<rparr>)"
    using assms by (auto simp: MaybeRequestMonoCollect_def Let_def split: if_splits)
  assume "r \<noteq> None"
  then have "s_lastGcReqMs g = 0 \<or> s_pressureIntervalMs g \<le> now - s_lastGcReqMs g"
    using assms by (auto simp: MaybeRequestMonoCollect_def Let_def not_less split: if_splits)
  then show "s_lastGcReqMs g = 0 \<or> unat (s_lastGcReqMs g) + unat (s_pressureIntervalMs g) \<le> unat now"
    using unat_minus_no_wrap [OF assms(2)] assms(2) by (auto simp: u64_le_unat)
qed

lemma gc_run_gap:
  assumes "s_gcReqEvent g" "s_pressureIntervalMs g \<le> s_proactiveIntervalMs g"
    and "sorted (s_lastGcReqMs g # map fst calls)" "\<forall>c\<in>set calls. fst c \<noteq> 0"
  shows "sorted_wrt (\<lambda>a b. unat a + unat (s_pressureIntervalMs g) \<le> unat b) (gc_run calls g) \<and>
    (s_lastGcReqMs g \<noteq> 0 \<longrightarrow>
      (\<forall>t\<in>set (gc_run calls g). unat (s_lastGcReqMs g) + unat (s_pressureIntervalMs g) \<le> unat t))"
  using assms
proof (induction calls arbitrary: g)
  case (Cons c calls)
  obtain now lf where c: "c = (now, lf)" by (cases c)
  obtain g' r where m: "MaybeRequestMonoCollect now lf g = (g', r)" by (cases "MaybeRequestMonoCollect now lf g")
  have le: "s_lastGcReqMs g \<le> now" using Cons.prems(3) c by simp
  note f = Maybe_request [OF Cons.prems(1) le Cons.prems(2) m]
  show ?case
  proof (cases r)
    case None
    then show ?thesis using Cons f m c by auto
  next
    case (Some b)
    have g': "g' = g\<lparr>s_lastGcReqMs := now\<rparr>" using f(1) Some by simp
    have "now \<noteq> 0" using Cons.prems(4) c by simp
    then have ih: "sorted_wrt (\<lambda>a b. unat a + unat (s_pressureIntervalMs g) \<le> unat b) (gc_run calls g')"
      "\<forall>t\<in>set (gc_run calls g'). unat now + unat (s_pressureIntervalMs g) \<le> unat t"
      using Cons.IH [of g'] Cons.prems g' c by auto
    then show ?thesis using f(2) Some m c by fastforce
  qed
qed simp

text \<open>Collection requests are rate limited: however the free space moves, two requests of
  a run of heartbeats are never closer than the pressure interval (when that is the shorter of
  the two configured intervals).\<close>

theorem gc_requests_rate_limited:
  assumes "s_gcReqEvent g" "s_lastGcReqMs g = 0" "s_pressureIntervalMs g \<le> s_proactiveIntervalMs g"
    and "sorted (map fst calls)" "\<forall>c\<in>set calls. fst c \<noteq> 0"
  shows "sorted_wrt (\<lambda>a b. unat a + unat (s_pressureIntervalMs g) \<le> unat b) (gc_run calls g)"
  using gc_run_gap [of g calls] assms by simp

definition demo_gc :: proxy_gc where
  "demo_gc = ProxyGc_Init None (Some ''30'') None True True
     \<lparr>s_gcReqEvent = False, s_lastGcReqMs = 0, s_pressureBytes = 0, s_proactiveIntervalMs = 0,
      s_pressureIntervalMs = 0, s_shHeap = None\<rparr>"

lemma demo_gc_fields:
  "s_gcReqEvent demo_gc" "s_lastGcReqMs demo_gc = 0" "s_pressureIntervalMs demo_gc = 15000"
  "s_proactiveIntervalMs demo_gc = 30000" "s_pressureBytes demo_gc = 1024 * MB"
  by (simp_all add: demo_gc_def ProxyGc_Init_def EnvU64_def env_in_buf_def strtoui64_def
    is_space_def is_digit_def Let_def)

lemma gc_requests_rate_limited_witness:
  "gc_run [(1000, 0x50000000), (3000, 0x10000000), (16500, 0x10000000), (20000, 0x50000000)] demo_gc = [1000, 16500] \<and>
   sorted_wrt (\<lambda>a b. unat a + unat (s_pressureIntervalMs demo_gc) \<le> unat b)
     (gc_run [(1000, 0x50000000), (3000, 0x10000000), (16500, 0x10000000), (20000, 0x50000000)] demo_gc)"
proof
  let ?calls = "[(1000, 0x50000000), (3000, 0x10000000), (16500, 0x10000000), (20000, 0x50000000)] :: (u64 \<times> u32) list"
  show "gc_run ?calls demo_gc = [1000, 16500]"
    by (simp add: MaybeRequestMonoCollect_def Let_def demo_gc_fields MB_def)
  show "sorted_wrt (\<lambda>a b. unat a + unat (s_pressureIntervalMs demo_gc) \<le> unat b) (gc_run ?calls demo_gc)"
    by (rule gc_requests_rate_limited) (simp_all add: demo_gc_fields)
qed

text \<open>A check is due exactly when the interval has passed, also when the 32-bit tick
  counter has wrapped in between; a check that is not due changes nothing, and one that is due
  reports a kind exactly when its calls since the last check exceed its threshold and then
  moves the baseline.\<close>

theorem hitch_check_is_wrap_safe:
  assumes "lastCheckTime d \<noteq> 0" "e < 4294967296" "0 \<le> FrequencyCheckIntervalMs cfg"
    "FrequencyCheckIntervalMs cfg < 4294967296"
  shows "CheckApiFrequency cfg (lastCheckTime d + of_nat e) d =
    (if int e < FrequencyCheckIntervalMs cfg then (d, [], False)
     else (let reports = filter (\<lambda>(k, n).
               n > (case k of ReadFileTraffic \<Rightarrow> ReadFileFrequencyThreshold cfg
                    | AllocTraffic \<Rightarrow> AllocFrequencyThreshold cfg | FreeTraffic \<Rightarrow> FreeFrequencyThreshold cfg))
             [(ReadFileTraffic, sint (m_readFileCount d - lastReadFileCount d)),
              (AllocTraffic, sint (m_allocCount d - lastAllocCount d)),
              (FreeTraffic, sint (m_freeCount d - lastFreeCount d))]
           in (d\<lparr>lastReadFileCount := m_readFileCount d, lastAllocCount := m_allocCount d,
                 lastFreeCount := m_freeCount d, lastCheckTime := lastCheckTime d + of_nat e\<rparr>,
               reports, reports \<noteq> [] \<and> HitchCaptureStacksEnabled cfg)))"
proof -
  have "(of_nat e :: u32) < word_of_int (FrequencyCheckIntervalMs cfg) \<longleftrightarrow> int e < FrequencyCheckIntervalMs cfg"
    
  proof -
    have "unat (of_nat e :: u32) = e" using assms(2) by (simp add: unat_of_nat take_bit_nat_eq_self)
    moreover have "uint (word_of_int (FrequencyCheckIntervalMs cfg) :: u32) = FrequencyCheckIntervalMs cfg"
      using assms(3,4) by (simp add: unsigned_of_int take_bit_int_eq_self)
    ultimately show ?thesis using assms(2) by (simp add: word_less_def unsigned_of_nat take_bit_int_eq_self)
  qed
  then show ?thesis using assms(1) by (simp add: CheckApiFrequency_def Let_def)
qed

lemma hitch_check_is_wrap_safe_witness:
  "fst (CheckApiFrequency (hitch_config_of None None None None None) (0xFFFFFFF0 + 250)
     (hitch_init\<lparr>lastCheckTime := 0xFFFFFFF0, m_readFileCount := 2001\<rparr>)) =
   hitch_init\<lparr>m_readFileCount := 2001, lastReadFileCount := 2001, lastCheckTime := 0xFFFFFFF0 + 250\<rparr> \<and>
   fst (snd (CheckApiFrequency (hitch_config_of None None None None None) (0xFFFFFFF0 + 250)
     (hitch_init\<lparr>lastCheckTime := 0xFFFFFFF0, m_readFileCount := 2001\<rparr>))) = [(ReadFileTraffic, 2001)]"
proof -
  let ?cfg = "hitch_config_of None None None None None"
  let ?d = "hitch_init\<lparr>lastCheckTime := 0xFFFFFFF0, m_readFileCount := 2001\<rparr>"
  have c: "FrequencyCheckIntervalMs ?cfg = 250" "ReadFileFrequencyThreshold ?cfg = 2000"
    "AllocFrequencyThreshold ?cfg = 20000" "FreeFrequencyThreshold ?cfg = 20000"
    by (simp_all add: hitch_config_of_def GetEnvIntOrDefault_def env_in_buf_def)
  have s: "sint (2001 :: u64) = 2001" by code_simp
  show ?thesis using hitch_check_is_wrap_safe [of ?d 250 ?cfg]
    by (simp add: c s hitch_init_def)
qed

text \<open>The first check only stores the time: its baseline counts stay 0, so the second check
  reports everything since the process started and not since the baseline.\<close>

theorem hitch_baseline_counts_from_start:
  assumes "lastCheckTime d = 0" "lastReadFileCount d = 0" "t1 \<noteq> 0"
    and "\<not> t2 - t1 < word_of_int (FrequencyCheckIntervalMs cfg)"
    and "d1 = fst (CheckApiFrequency cfg t1 d)"
    and "sint (m_readFileCount d + extra) > ReadFileFrequencyThreshold cfg"
  shows "(ReadFileTraffic, sint (m_readFileCount d + extra)) \<in>
    set (fst (snd (CheckApiFrequency cfg t2 (d1\<lparr>m_readFileCount := m_readFileCount d1 + extra\<rparr>))))"
  using assms by (simp add: CheckApiFrequency_def Let_def)

lemma hitch_baseline_counts_from_start_witness:
  "(ReadFileTraffic, 5000) \<in> set (fst (snd (CheckApiFrequency (hitch_config_of None None None None None) 1300
     (fst (CheckApiFrequency (hitch_config_of None None None None None) 1000
        (hitch_init\<lparr>m_readFileCount := 5000\<rparr>))))))"
proof -
  let ?cfg = "hitch_config_of None None None None None"
  let ?d = "hitch_init\<lparr>m_readFileCount := 5000\<rparr>"
  have c: "FrequencyCheckIntervalMs ?cfg = 250" "ReadFileFrequencyThreshold ?cfg = 2000"
    by (simp_all add: hitch_config_of_def GetEnvIntOrDefault_def env_in_buf_def)
  have s: "sint (5000 :: u64) = 5000" by code_simp
  have m: "m_readFileCount (fst (CheckApiFrequency ?cfg 1000 ?d)) = 5000"
    by (simp add: CheckApiFrequency_def hitch_init_def)
  show ?thesis using hitch_baseline_counts_from_start [of ?d 1000 1300 ?cfg _ 0, OF _ _ _ _ refl]
    by (simp add: c s m hitch_init_def)
qed

end
