(* ===== verification/ScriptScanDedup.thy ===== *)
theory ScriptScanDedup
  imports Prelude
begin

section \<open>The single-report set of package scripts\<close>

text \<open>
  \<open>ScriptScanDedup.cpp\<close>: two scanners report each package once.  A package is a 64-bit hash of
  its lower-cased base name; the set is an open-addressing table of 16384 interlocked slots
  that is never emptied.  \<open>MarkOnce\<close> is given twice: as a sequential function, and as the
  steps a thread takes, one interlocked operation each, so that any interleaving of any
  number of threads is a run of \<open>mo_step\<close>.
\<close>

definition kSlots :: nat where "kSlots = 16384"

definition fnv1a64_byte :: "u64 \<Rightarrow> u8 \<Rightarrow> u64" where
  "fnv1a64_byte h c = (h XOR ucast c) * 0x100000001b3"

text \<open>\<open>std::tolower\<close> in the C locale.\<close>

definition tolower :: "u8 \<Rightarrow> u8" where
  "tolower c = (if 65 \<le> c \<and> c \<le> 90 then c + 32 else c)"

definition KeyFromBaseNameA :: "u8 list \<Rightarrow> u64" where
  "KeyFromBaseNameA b =
     (if b = [] then 0 else fold (\<lambda>c h. fnv1a64_byte h (tolower c)) b 0xcbf29ce484222325)"

text \<open>\<open>std::towlower\<close> depends on the locale and is a parameter.\<close>

definition KeyFromBaseNameW :: "(u16 \<Rightarrow> u16) \<Rightarrow> u16 list \<Rightarrow> u64" where
  "KeyFromBaseNameW towlower b =
     (if b = [] then 0 else fold (\<lambda>c h. fnv1a64_byte h (ucast (towlower c AND 0xFF))) b 0xcbf29ce484222325)"

subsection \<open>MarkOnce without interference\<close>

type_synonym slots = "nat \<Rightarrow> u64"

definition slot_of :: "u64 \<Rightarrow> nat \<Rightarrow> nat" where
  "slot_of key probe = (unat (key mod of_nat kSlots) + probe) mod kSlots"

fun mark_from :: "nat \<Rightarrow> u64 \<Rightarrow> nat \<Rightarrow> slots \<Rightarrow> bool \<times> slots" where
  "mark_from 0 key probe t = (False, t)"
| "mark_from (Suc n) key probe t =
     (let idx = slot_of key probe; cur = t idx
      in if cur = key then (True, t)
         else if cur = 0 then (False, t(idx := key))
         else mark_from n key (Suc probe) t)"

definition MarkOnce :: "u64 \<Rightarrow> slots \<Rightarrow> bool \<times> slots" where
  "MarkOnce key t = (let key = (if key = 0 then 1 else key) in mark_from 64 key 0 t)"

subsection \<open>MarkOnce among threads\<close>

text \<open>
  A call at probe \<open>p\<close> is about to read its slot, or has read 0 and is about to exchange;
  or it has returned: the key was there, it claimed slot \<open>p\<close>, or it gave up.
\<close>

datatype mo_pc = Reading nat | Exchanging nat | Seen | Claimed nat | Pressure

text \<open>What the call returns, once it has returned.\<close>

fun mo_result :: "mo_pc \<Rightarrow> bool option" where
  "mo_result Seen = Some True"
| "mo_result (Claimed _) = Some False"
| "mo_result Pressure = Some False"
| "mo_result _ = None"

text \<open>One atomic step of a call for \<open>key\<close>, deterministic in the table it finds.\<close>

fun mo_local :: "u64 \<Rightarrow> mo_pc \<Rightarrow> slots \<Rightarrow> mo_pc \<times> slots" where
  "mo_local key (Reading p) t =
     (if p \<ge> 64 then (Pressure, t)
      else if t (slot_of key p) = key then (Seen, t)
      else if t (slot_of key p) = 0 then (Exchanging p, t)
      else (Reading (Suc p), t))"
| "mo_local key (Exchanging p) t =
     (if t (slot_of key p) = 0 then (Claimed p, t(slot_of key p := key))
      else if t (slot_of key p) = key then (Seen, t)
      else (Reading (Suc p), t))"
| "mo_local key pc t = (pc, t)"

type_synonym mo_state = "slots \<times> (nat \<Rightarrow> mo_pc)"

text \<open>Any thread may take its next step; thread \<open>i\<close> runs \<open>MarkOnce\<close> for the key \<open>key i\<close>.\<close>

inductive mo_step :: "(nat \<Rightarrow> u64) \<Rightarrow> mo_state \<Rightarrow> mo_state \<Rightarrow> bool" for key where
  step: "mo_local (key i) (pcs i) t = (pc', t') \<Longrightarrow> mo_step key (t, pcs) (t', pcs(i := pc'))"

inductive mo_reach :: "(nat \<Rightarrow> u64) \<Rightarrow> mo_state \<Rightarrow> bool" for key where
  start: "mo_reach key (\<lambda>_. 0, \<lambda>_. Reading 0)"
| more: "mo_reach key s \<Longrightarrow> mo_step key s s' \<Longrightarrow> mo_reach key s'"

inductive_cases mo_stepE: "mo_step key s s'"

subsection \<open>The set reports each key exactly once\<close>

text \<open>The probes before \<open>p\<close> have found other keys.\<close>

definition passed :: "u64 \<Rightarrow> nat \<Rightarrow> slots \<Rightarrow> bool" where
  "passed k p t \<longleftrightarrow> (\<forall>q<p. t (slot_of k q) \<noteq> 0 \<and> t (slot_of k q) \<noteq> k)"

fun pc_ok :: "u64 \<Rightarrow> slots \<Rightarrow> mo_pc \<Rightarrow> bool" where
  "pc_ok k t (Reading p) = passed k p t"
| "pc_ok k t (Exchanging p) = passed k p t"
| "pc_ok k t (Claimed p) = (passed k p t \<and> t (slot_of k p) = k)"
| "pc_ok k t Seen = (\<exists>p. t (slot_of k p) = k)"
| "pc_ok k t Pressure = True"

definition mo_inv :: "(nat \<Rightarrow> u64) \<Rightarrow> mo_state \<Rightarrow> bool" where
  "mo_inv key s \<longleftrightarrow>
     (\<forall>i. pc_ok (key i) (fst s) (snd s i)) \<and>
     (\<forall>i j p q. snd s i = Claimed p \<longrightarrow> snd s j = Claimed q \<longrightarrow> key i = key j \<longrightarrow> i = j) \<and>
     (\<forall>x. fst s x \<noteq> 0 \<longrightarrow> (\<exists>i p. key i = fst s x \<and> snd s i = Claimed p))"

text \<open>The table only ever grows, so what a call has passed stays passed.\<close>

lemma passed_mono: "passed k p t \<Longrightarrow> t x = 0 \<Longrightarrow> passed k p (t(x := v))"
  by (auto simp: passed_def)

lemma pc_ok_mono: "pc_ok k t pc \<Longrightarrow> t x = 0 \<Longrightarrow> k \<noteq> 0 \<Longrightarrow> pc_ok k (t(x := v)) pc"
proof (cases pc)
  case Seen
  assume a: "pc_ok k t pc" "t x = 0" "k \<noteq> 0"
  then obtain p where "t (slot_of k p) = k" using Seen by auto
  then have "(t(x := v)) (slot_of k p) = k" using a by auto
  then show ?thesis using Seen by (auto simp del: fun_upd_apply)
qed (auto simp: passed_mono)

lemma passed_Suc: "passed k (Suc p) t \<longleftrightarrow> passed k p t \<and> t (slot_of k p) \<noteq> 0 \<and> t (slot_of k p) \<noteq> k"
  by (auto simp: passed_def less_Suc_eq)

lemma mo_inv_step:
  assumes "mo_inv key (t, pcs)" "\<And>i. key i \<noteq> 0" "mo_local (key i) (pcs i) t = (pc', t')"
  shows "mo_inv key (t', pcs(i := pc'))"
proof (cases "\<exists>p. pcs i = Exchanging p \<and> t (slot_of (key i) p) = 0")
  case True
  then obtain p where p: "pcs i = Exchanging p" "t (slot_of (key i) p) = 0" by blast
  let ?x = "slot_of (key i) p"
  have e: "pc' = Claimed p" "t' = t(?x := key i)" using assms(3) p by auto
  have ok: "pc_ok (key j) t (pcs j)" for j using assms(1) by (simp add: mo_inv_def)
  have "passed (key i) p t" using ok [of i] p(1) by simp
  then have me: "pc_ok (key i) t' pc'" using p(2) e by (simp add: passed_mono)
  have other: "pc_ok (key j) t' (pcs j)" for j
    unfolding e(2) by (rule pc_ok_mono [OF ok p(2) assms(2)])
  have noclaim: "pcs j \<noteq> Claimed q" if "key j = key i" for j q
  proof
    assume c: "pcs j = Claimed q"
    then have q: "passed (key i) q t" "t (slot_of (key i) q) = key i" using ok [of j] that by auto
    have pi: "passed (key i) p t" using ok [of i] p(1) by simp
    show False
    proof (cases "q < p")
      case True
      then show ?thesis using pi q(2) by (auto simp: passed_def)
    next
      case False
      then have "q = p \<or> p < q" by auto
      then show ?thesis using p(2) q assms(2) [of i] by (auto simp: passed_def)
    qed
  qed
  have "\<exists>j q. key j = t' x \<and> (pcs(i := pc')) j = Claimed q" if "t' x \<noteq> 0" for x
  proof (cases "x = ?x")
    case True
    then show ?thesis using e by (intro exI [of _ i] exI [of _ p]) auto
  next
    case False
    then have "t x \<noteq> 0" using that e by simp
    then obtain j q where j: "key j = t x" "pcs j = Claimed q" using assms(1) by (auto simp: mo_inv_def)
    then have "j \<noteq> i" using p(1) by auto
    then show ?thesis using j e False by (intro exI [of _ j] exI [of _ q]) auto
  qed
  then show ?thesis using me other noclaim assms(1) e p(1) unfolding mo_inv_def by auto
next
  case False
  then have e: "t' = t" and nc: "\<And>q. pcs i \<noteq> Claimed q \<Longrightarrow> pc' \<noteq> Claimed q" and
    same: "\<And>q. pcs i = Claimed q \<Longrightarrow> pc' = Claimed q"
    using assms(3) by (cases "pcs i"; auto split: if_splits)+
  have ok: "pc_ok (key i) t (pcs i)" using assms(1) by (simp add: mo_inv_def)
  have "pc_ok (key i) t pc'"
  proof (cases "pcs i")
    case (Claimed q)
    then have "pc' = pcs i" using assms(3) by simp
    then show ?thesis using ok by (simp only:)
  qed (use ok assms(3) False in \<open>auto simp: passed_Suc split: if_splits\<close>)
  then show ?thesis using assms(1) e nc same unfolding mo_inv_def
    by (auto simp: fun_upd_def) metis+
qed

lemma mo_reach_inv:
  assumes "mo_reach key s" "\<And>i. key i \<noteq> 0"
  shows "mo_inv key s"
  using assms(1)
proof (induction rule: mo_reach.induct)
  case start
  then show ?case by (auto simp: mo_inv_def passed_def)
next
  case (more s s')
  obtain t pcs where s: "s = (t, pcs)" by (cases s)
  from more(2) [unfolded s] obtain i pc' t' where "mo_local (key i) (pcs i) t = (pc', t')" "s' = (t', pcs(i := pc'))"
    by (auto elim: mo_stepE)
  then show ?case using mo_inv_step more(3) assms(2) s by blast
qed

text \<open>C25: However the calls of any number of threads interleave, at most one of the calls for a
  package claims it (returns False because it was new), and whenever a call answers that the
  package was already recorded some call has claimed it.\<close>

theorem MarkOnce_reports_once:
  assumes "mo_reach key (t, pcs)" "\<And>i. key i \<noteq> 0"
  shows "(\<forall>i j p q. pcs i = Claimed p \<and> pcs j = Claimed q \<and> key i = key j \<longrightarrow> i = j) \<and>
    (\<forall>i. mo_result (pcs i) = Some True \<longrightarrow> (\<exists>j p. key j = key i \<and> pcs j = Claimed p))"
proof -
  have inv: "mo_inv key (t, pcs)" using mo_reach_inv [OF assms(1) assms(2)] .
  have "\<exists>j p. key j = key i \<and> pcs j = Claimed p" if "mo_result (pcs i) = Some True" for i
  proof -
    have "pcs i = Seen" using that by (cases "pcs i") auto
    moreover have "pc_ok (key i) t (pcs i)" using inv by (simp add: mo_inv_def)
    ultimately obtain p where "t (slot_of (key i) p) = key i" by auto
    moreover have "\<forall>x. t x \<noteq> 0 \<longrightarrow> (\<exists>j p. key j = t x \<and> pcs j = Claimed p)"
      using inv by (simp add: mo_inv_def)
    ultimately show ?thesis using assms(2) [of i] by metis
  qed
  then show ?thesis using inv by (auto simp: mo_inv_def)
qed

text \<open>A schedule names the thread that moves next.\<close>

definition mo_exec :: "(nat \<Rightarrow> u64) \<Rightarrow> nat list \<Rightarrow> mo_state \<Rightarrow> mo_state" where
  "mo_exec key sched s = fold (\<lambda>i (t, pcs).
     (let (pc', t') = mo_local (key i) (pcs i) t in (t', pcs(i := pc')))) sched s"

lemma mo_exec_reach: "mo_reach key s \<Longrightarrow> mo_reach key (mo_exec key sched s)"
proof (induction sched arbitrary: s)
  case Nil
  then show ?case by (simp add: mo_exec_def)
next
  case (Cons i sched)
  obtain t pcs where s: "s = (t, pcs)" by (cases s)
  obtain pc' t' where l: "mo_local (key i) (pcs i) t = (pc', t')" by (cases "mo_local (key i) (pcs i) t")
  have "mo_reach key (t', pcs(i := pc'))" 
    using mo_reach.more [OF Cons.prems] mo_step.step [where key = key and i = i and pcs = pcs, OF l] s by blast
  then show ?case using Cons.IH s l by (simp add: mo_exec_def)
qed

lemma MarkOnce_reports_once_witness:
  "snd (mo_exec (\<lambda>_. 7) [0, 1, 1, 0] (\<lambda>_. 0, \<lambda>_. Reading 0)) 0 = Seen \<and>
   (\<exists>j p. snd (mo_exec (\<lambda>_. 7) [0, 1, 1, 0] (\<lambda>_. 0, \<lambda>_. Reading 0)) j = Claimed p)"
proof -
  let ?s = "mo_exec (\<lambda>_. 7) [0, 1, 1, 0] (\<lambda>_. 0, \<lambda>_. Reading 0)"
  have r: "mo_reach (\<lambda>_. 7) (fst ?s, snd ?s)" using mo_exec_reach [OF mo_reach.start] by simp
  have z: "snd ?s 0 = Seen" by (simp add: mo_exec_def)
  have k: "(\<lambda>_. 7 :: u64) i \<noteq> 0" for i :: nat by simp
  have "mo_result (snd ?s 0) = Some True" by (simp only: z mo_result.simps)
  then have "\<exists>j p. (\<lambda>_. 7 :: u64) j = (\<lambda>_. 7) 0 \<and> snd ?s j = Claimed p"
    using MarkOnce_reports_once [OF r k] by blast
  then show ?thesis using z by blast
qed

subsection \<open>Keys\<close>

lemma low_byte: "ucast ((ucast (c :: u8) :: u16) AND 0xFF) = c"
proof -
  have "(0xFF :: u16) = mask 8" by (simp add: mask_eq_decr_exp)
  then have "(ucast c :: u16) AND 0xFF = take_bit 8 (ucast c)" by (simp only: take_bit_eq_mask)
  moreover have "ucast (take_bit 8 (ucast c :: u16)) = c"
    by (rule bit_word_eqI) (auto simp: bit_simps)
  ultimately show ?thesis by simp
qed

lemma unat_byte: "unat (c :: u8) < 256" "unat (ucast (c :: u8) :: u16) = unat c"
proof -
  show l: "unat c < 256" using unsigned_less [of c] by simp
  then show "unat (ucast c :: u16) = unat c" by (simp add: unsigned_ucast_eq take_bit_nat_eq_self)
qed

lemma tolower_idem: "tolower (tolower c) = tolower c"
proof -
  have "unat c < 256" by (rule unat_byte)
  moreover have "unat (c + 32) = unat c + 32" if "unat c \<le> 90" using that by (subst unat_plus_no_wrap) auto
  ultimately show ?thesis by (auto simp: tolower_def word_le_nat_alt)
qed

lemma key_fold_W:
  fixes towlower :: "u16 \<Rightarrow> u16"
  assumes "\<forall>c\<in>set s. towlower (ucast c) = ucast (tolower c)"
  shows "fold (\<lambda>c h. fnv1a64_byte h (ucast (towlower c AND 0xFF))) (map ucast s) h =
         fold (\<lambda>c h. fnv1a64_byte h (tolower c)) s h"
  using assms
proof (induction s arbitrary: h)
  case (Cons a s)
  have "ucast (towlower (ucast a) AND 0xFF) = tolower a" using Cons.prems low_byte [of "tolower a"] by (simp only: list.set ball_simps insert_iff)
  then show ?case using Cons by simp
qed simp

text \<open>Both scanners compute one key for a package: on names of ASCII characters the wide and
  the narrow hash agree (for any \<open>towlower\<close> that maps ASCII as the C locale does), and the key
  does not depend on the case of the name.\<close>

theorem package_keys_agree:
  assumes "\<forall>c < 128. towlower (ucast c) = ucast (tolower c)" "\<forall>c\<in>set s. c < 128"
  shows "KeyFromBaseNameW towlower (map ucast s) = KeyFromBaseNameA s \<and>
         KeyFromBaseNameA (map tolower s) = KeyFromBaseNameA s"
proof -
  have "fold (\<lambda>c h. fnv1a64_byte h (tolower c)) (map tolower s) h = fold (\<lambda>c h. fnv1a64_byte h (tolower c)) s h" for h
    by (induction s arbitrary: h) (simp_all add: tolower_idem)
  moreover have "\<forall>c\<in>set s. towlower (ucast c) = ucast (tolower c)" using assms by blast
  ultimately show ?thesis
    using key_fold_W [of s towlower] by (simp add: KeyFromBaseNameW_def KeyFromBaseNameA_def)
qed

definition ascii_towlower :: "u16 \<Rightarrow> u16" where
  "ascii_towlower c = (if 65 \<le> c \<and> c \<le> 90 then c + 32 else c)"

lemma ascii_towlower_ok: "\<forall>c < 128. ascii_towlower (ucast c) = ucast (tolower c)"
proof (intro allI impI)
  fix c :: u8 assume "c < 128"
  then have c: "unat c < 128" by (simp add: word_less_nat_alt)
  have u: "unat (ucast c :: u16) = unat c"
    by (rule unat_byte)
  have "unat (c + 32) = unat c + 32" using c by (subst unat_plus_no_wrap) auto
  moreover have "unat ((ucast c :: u16) + 32) = unat c + 32" using c u by (subst unat_plus_no_wrap) auto
  moreover have "unat (ucast (c + 32) :: u16) = unat (c + 32)"
    by (rule unat_byte)
  ultimately show "ascii_towlower (ucast c) = ucast (tolower c)"
    using u by (auto simp: ascii_towlower_def tolower_def word_le_nat_alt word_unat_eq_iff)
qed

lemma package_keys_agree_witness:
  "KeyFromBaseNameW ascii_towlower (map ucast [0x4E, 0x52, 0x61 :: u8]) = KeyFromBaseNameA [0x4E, 0x52, 0x61]"
  using package_keys_agree [OF ascii_towlower_ok, of "[0x4E, 0x52, 0x61]"] by simp

end
