(* ===== verification/ProbeTable.thy ===== *)
theory ProbeTable
  imports Prelude
begin

section \<open>Open-addressing tables that only grow\<close>

text \<open>
  The contract of a fixed table with linear probing and no deletion, as the type table of the
  view tracker and the caller table of the local reserves have it: \<open>find k t\<close> walks the probe
  sequence of \<open>k\<close> and stops at the first slot that holds \<open>k\<close> or is free, which it then takes.
  What follows from the contract alone is that keys sit in one slot each and stay there.
\<close>

locale probe_table =
  fixes key_at :: "'t \<Rightarrow> nat \<Rightarrow> 'k"
    and free :: 'k
    and slot :: "'k \<Rightarrow> nat \<Rightarrow> nat"
    and probes :: nat
    and find :: "'k \<Rightarrow> 't \<Rightarrow> nat option \<times> 't"
    and good :: "'t \<Rightarrow> bool"
  assumes find_hit: "good t \<Longrightarrow> k \<noteq> free \<Longrightarrow> p < probes \<Longrightarrow>
      (\<forall>q<p. key_at t (slot k q) \<noteq> free \<and> key_at t (slot k q) \<noteq> k) \<Longrightarrow>
      key_at t (slot k p) = k \<Longrightarrow> find k t = (Some (slot k p), t)"
    and find_new: "good t \<Longrightarrow> k \<noteq> free \<Longrightarrow> p < probes \<Longrightarrow>
      (\<forall>q<p. key_at t (slot k q) \<noteq> free \<and> key_at t (slot k q) \<noteq> k) \<Longrightarrow>
      key_at t (slot k p) = free \<Longrightarrow>
      fst (find k t) = Some (slot k p) \<and> good (snd (find k t)) \<and>
      (\<forall>i. key_at (snd (find k t)) i = (if i = slot k p then k else key_at t i))"
    and find_full: "good t \<Longrightarrow> k \<noteq> free \<Longrightarrow>
      (\<forall>q<probes. key_at t (slot k q) \<noteq> free \<and> key_at t (slot k q) \<noteq> k) \<Longrightarrow> find k t = (None, t)"
begin

definition passed :: "'t \<Rightarrow> 'k \<Rightarrow> nat \<Rightarrow> bool" where
  "passed t k p \<longleftrightarrow> (\<forall>q<p. key_at t (slot k q) \<noteq> free \<and> key_at t (slot k q) \<noteq> k)"

text \<open>Every key sits at the end of a fully occupied stretch of its own probe sequence.\<close>

definition placed :: "'t \<Rightarrow> bool" where
  "placed t \<longleftrightarrow> good t \<and>
     (\<forall>i. key_at t i \<noteq> free \<longrightarrow>
        (\<exists>p<probes. slot (key_at t i) p = i \<and> passed t (key_at t i) p))"

text \<open>The walk has three outcomes.\<close>

lemma find_cases:
  assumes "good t" "k \<noteq> free"
  obtains (hit) p where "p < probes" "passed t k p" "key_at t (slot k p) = k" "find k t = (Some (slot k p), t)"
  | (new) p where "p < probes" "passed t k p" "key_at t (slot k p) = free" "fst (find k t) = Some (slot k p)"
      "good (snd (find k t))"
      "\<And>i. key_at (snd (find k t)) i = (if i = slot k p then k else key_at t i)"
  | (full) "passed t k probes" "find k t = (None, t)"
proof (cases "passed t k probes")
  case True
  show ?thesis by (rule full [OF True find_full [OF assms True [unfolded passed_def]]])
next
  case False
  let ?P = "\<lambda>q. q < probes \<and> (key_at t (slot k q) = free \<or> key_at t (slot k q) = k)"
  have "\<exists>q. ?P q" using False by (auto simp: passed_def)
  then have p: "?P (LEAST q. ?P q)" by (rule LeastI_ex)
  have ps: "passed t k (LEAST q. ?P q)"
    unfolding passed_def
  proof (intro allI impI)
    fix q assume q: "q < (LEAST q. ?P q)"
    then have "\<not> ?P q" by (rule not_less_Least)
    then show "key_at t (slot k q) \<noteq> free \<and> key_at t (slot k q) \<noteq> k" using q p by auto
  qed
  show ?thesis
  proof (cases "key_at t (slot k (LEAST q. ?P q)) = k")
    case True
    show ?thesis
      by (rule hit [OF conjunct1 [OF p] ps True
            find_hit [OF assms conjunct1 [OF p] ps [unfolded passed_def] True]])
  next
    case False
    then have f: "key_at t (slot k (LEAST q. ?P q)) = free" using p by auto
    note n = find_new [OF assms conjunct1 [OF p] ps [unfolded passed_def] f]
    show ?thesis
      by (rule new [OF conjunct1 [OF p] ps f conjunct1 [OF n] conjunct1 [OF conjunct2 [OF n]]
            spec [OF conjunct2 [OF conjunct2 [OF n]]]])
  qed
qed

text \<open>In a placed table a key has at most one slot.\<close>

lemma placed_unique:
  assumes "placed t" "key_at t i = key_at t j" "key_at t i \<noteq> free"
  shows "i = j"
proof -
  let ?k = "key_at t i"
  obtain p where p: "slot ?k p = i" "passed t ?k p" using assms(1,3) by (auto simp: placed_def)
  obtain q where q: "slot ?k q = j" "passed t ?k q" using assms by (auto simp: placed_def)
  have "\<not> p < q" using p(1) q(2) by (auto simp: passed_def)
  moreover have "\<not> q < p" using q(1) p(2) assms(2) by (auto simp: passed_def)
  ultimately have "p = q" by simp
  then show ?thesis using p(1) q(1) by simp
qed

lemma placed_find:
  assumes "placed t" "k \<noteq> free"
  shows "placed (snd (find k t))"
proof -
  have g: "good t" using assms(1) by (simp add: placed_def)
  from g assms(2) show ?thesis
  proof (cases rule: find_cases)
    case (hit p)
    then show ?thesis using assms(1) by simp
  next
    case full
    then show ?thesis using assms(1) by simp
  next
    case (new p)
    let ?t = "snd (find k t)"
    have mono: "passed t h q \<Longrightarrow> h \<noteq> k \<Longrightarrow> passed ?t h q" for h q
      using new(6) assms(2) by (auto simp: passed_def)
    have me: "passed ?t k p" using new(2,3,6) by (auto simp: passed_def)
    have "\<exists>q<probes. slot (key_at ?t i) q = i \<and> passed ?t (key_at ?t i) q" if i: "key_at ?t i \<noteq> free" for i
    proof (cases "i = slot k p")
      case True
      then show ?thesis using new(1,6) me by auto
    next
      case False
      then have ki: "key_at ?t i = key_at t i" using new(6) by simp
      then obtain q where q: "q < probes" "slot (key_at t i) q = i" "passed t (key_at t i) q"
        using assms(1) i by (auto simp: placed_def)
      have "key_at t i \<noteq> k"
      proof
        assume e: "key_at t i = k"
        have "\<not> q < p" using q(2) new(2) e by (auto simp: passed_def)
        moreover have "\<not> p < q" using q(3) new(3) e by (auto simp: passed_def)
        ultimately have "q = p" by simp
        then show False using q(2) e False by simp
      qed
      then show ?thesis using q ki mono by auto
    qed
    then show ?thesis using new(5) by (simp add: placed_def)
  qed
qed

text \<open>What \<open>find\<close> answers in a placed table, and that it disturbs no other key.\<close>

lemma find_answer:
  assumes "placed t" "k \<noteq> free" "find k t = (r, t')"
  shows "case r of
      Some i \<Rightarrow> key_at t' i = k \<and> (\<forall>j. j \<noteq> i \<longrightarrow> key_at t' j = key_at t j) \<and> (key_at t i = k \<and> t' = t \<or> key_at t i = free)
        \<and> (key_at t i = free \<longrightarrow> (\<forall>j. key_at t j \<noteq> k))
    | None \<Rightarrow> t' = t \<and> (\<forall>j. key_at t j \<noteq> k)"
proof -
  have g: "good t" using assms(1) by (simp add: placed_def)
  have absent: "key_at t j \<noteq> k" if p: "passed t k p" "p = probes \<or> key_at t (slot k p) = free" for j p
  proof
    assume j: "key_at t j = k"
    then obtain q where q: "q < probes" "slot k q = j" "passed t k q"
      using assms(1,2) by (auto simp: placed_def)
    have "\<not> q < p" using p(1) q(2) j by (auto simp: passed_def)
    then have "p < q \<and> p \<noteq> probes \<or> p = q" using q(1) p by auto
    then show False using p q j assms(2) by (auto simp: passed_def)
  qed
  from g assms(2) show ?thesis
  proof (cases rule: find_cases)
    case (hit p)
    then show ?thesis using assms(2,3) by auto
  next
    case (new p)
    then show ?thesis using assms(2,3) absent [OF new(2)] by auto
  next
    case full
    then show ?thesis using assms(3) absent [OF full(1)] by auto
  qed
qed

text \<open>As long as no more keys occur than a probe sequence has slots, \<open>find\<close> has room.\<close>

lemma find_room:
  assumes t: "placed t" and k: "k \<noteq> free" "k \<in> K" and K: "finite K" "card K \<le> card (slot k ` {..<probes})"
    and keys: "\<And>i. key_at t i \<noteq> free \<Longrightarrow> key_at t i \<in> K"
  shows "fst (find k t) \<noteq> None"
proof
  assume none: "fst (find k t) = None"
  have g: "good t" using t by (simp add: placed_def)
  have full: "passed t k probes"
    using g k(1) by (rule find_cases) (use none in auto)
  let ?N = "slot k ` {..<probes}"
  have inj: "inj_on (key_at t) ?N"
  proof (rule inj_onI)
    fix i j assume "i \<in> ?N" "key_at t i = key_at t j"
    then show "i = j" using full placed_unique [OF t] by (auto simp: passed_def)
  qed
  have "key_at t ` ?N \<subseteq> K - {k}" using full keys by (auto simp: passed_def)
  then have "card (key_at t ` ?N) \<le> card (K - {k})" using K(1) by (intro card_mono) auto
  also have "\<dots> < card K" using K(1) k(2) by (rule card_Diff1_less)
  finally show False using K(2) card_image [OF inj] by simp
qed

end

end
