(* ===== verification/MapView.thy ===== *)
theory MapView
  imports ProbeTable "HOL-Library.Signed_Division"
begin

section \<open>The inventory of mapped views\<close>

text \<open>
  \<open>MapViewTypeTracker.cpp\<close>: fourteen 64-bit counters of views and bytes by category, a table
  of 256 resource types (open addressing, linear probing, never emptied), a table of the
  first 64 file names, and an allow-list of at most 64 types for redirection.  The first part
  holds the state and the operations; then the type table is an instance of the probe-table
  contract and holds exact sums, and the file table is exact for the names that fit its
  80-byte field and only for those.  The operations are the bodies of the critical section;
  \<open>m_files\<close> and \<open>m_allowIds\<close> are the parts of their arrays below their counts.
\<close>

definition kTypeTableCap :: nat where "kTypeTableCap = 256"
definition kMaxFiles :: nat where "kMaxFiles = 64"
definition kMaxAllowIds :: nat where "kMaxAllowIds = 64"

record DbpfTypeStats =
  ds_typeId :: u32
  ds_entryCount :: u32
  ds_totalMemBytes :: u64

datatype ViewKind =
  Anonymous | ImageSection | FileMappedOther | FileMappedNoName | FileMappedPackage | FileMappedDbpf

record TypeSlot =
  ts_typeId :: u32
  ts_entryCount :: u64
  ts_totalBytes :: u64
  ts_viewCount :: u64

record FileSlot =
  fs_name :: string
  fs_viewCount :: u64
  fs_totalBytes :: u64

record map_view =
  m_cntAnonymous :: u64
  m_cntImage :: u64
  m_cntOtherFile :: u64
  m_cntNoName :: u64
  m_cntPkgNoDbpf :: u64
  m_cntPkgDbpf :: u64
  m_bytesAnonymous :: u64
  m_bytesImage :: u64
  m_bytesOtherFile :: u64
  m_bytesNoName :: u64
  m_bytesPkgNoDbpf :: u64
  m_bytesPkgDbpf :: u64
  m_cntRedirected :: u64
  m_bytesRedirected :: u64
  m_typeTable :: "TypeSlot list"
  m_files :: "FileSlot list"
  m_allowIds :: "u32 list"

definition map_view_init :: map_view where
  "map_view_init = \<lparr>m_cntAnonymous = 0, m_cntImage = 0, m_cntOtherFile = 0, m_cntNoName = 0,
     m_cntPkgNoDbpf = 0, m_cntPkgDbpf = 0, m_bytesAnonymous = 0, m_bytesImage = 0,
     m_bytesOtherFile = 0, m_bytesNoName = 0, m_bytesPkgNoDbpf = 0, m_bytesPkgDbpf = 0,
     m_cntRedirected = 0, m_bytesRedirected = 0,
     m_typeTable = replicate kTypeTableCap
       \<lparr>ts_typeId = 0, ts_entryCount = 0, ts_totalBytes = 0, ts_viewCount = 0\<rparr>,
     m_files = [], m_allowIds = []\<rparr>"

subsection \<open>Names of the known resource types\<close>

definition k_knownTypes :: "(u32 \<times> string) list" where
  "k_knownTypes =
     [(0x015A1849, ''geom''), (0x01D0E75D, ''mlod''), (0x01661233, ''modl''), (0x3453CF95, ''shaderdata''),
      (0x1C4A276C, ''shadercache''), (0x0418FE2A, ''boneweight''), (0x0175e5cd, ''script''),
      (0x0175e5d9, ''scriptsym''), (0x073faa07, ''s3sa_mod''), (0x0333406c, ''xml''), (0x03b33ddf, ''tun''),
      (0x00b2d882, ''dds''), (0x2f7d0006, ''tga''), (0x2f7d0004, ''png''), (0x2f7d0002, ''jpg''),
      (0x00b552ea, ''spt''), (0x021d7e8c, ''spt2''), (0x03b4c61d, ''lightingdata''), (0xd55f7caf, ''lightrigs''),
      (0xea5118b0, ''swb''), (0x8eaf13de, ''rig''), (0x6b20c4f3, ''clip''), (0x025ed6f4, ''simoutfit''),
      (0xf0ff5598, ''triggers''), (0x11c258c0, ''ctriggers''), (0xd3044521, ''slot''), (0x1f886ead, ''ini''),
      (0x025c95b6, ''layout''), (0x025c90a6, ''css''), (0x220557da, ''stbl''), (0x02b9f662, ''prop''),
      (0x010077c4, ''wav''), (0x010077bb, ''mp3''), (0x010077ca, ''xa''), (0x01a527db, ''snr''),
      (0x01eef63a, ''sns''), (0x0181b0d2, ''abk''), (0x02c9eff2, ''submix''), (0x029e333b, ''voice'')]"

text \<open>\<open>%08X\<close>: the eight hexadecimal digits of a word, most significant first.\<close>

definition hex_digit :: "nat \<Rightarrow> char" where
  "hex_digit d = ''0123456789ABCDEF'' ! d"

definition hex8 :: "u32 \<Rightarrow> string" where
  "hex8 w = map (\<lambda>i. hex_digit (unat w div 16 ^ i mod 16)) [7, 6, 5, 4, 3, 2, 1, 0]"

definition DbpfTypeName :: "u32 \<Rightarrow> string" where
  "DbpfTypeName typeId =
     (case map_of k_knownTypes typeId of Some name \<Rightarrow> name | None \<Rightarrow> ''0x'' @ hex8 typeId)"

subsection \<open>Files\<close>

text \<open>\<open>_stricmp\<close> compares lower-cased characters; \<open>strncpy_s\<close> with \<open>_TRUNCATE\<close> keeps 79 of them.\<close>

definition stricmp_eq :: "string \<Rightarrow> string \<Rightarrow> bool" where
  "stricmp_eq a b \<longleftrightarrow> map lower a = map lower b"

fun bump_file :: "string \<Rightarrow> u64 \<Rightarrow> FileSlot list \<Rightarrow> FileSlot list option" where
  "bump_file baseName bytes [] = None"
| "bump_file baseName bytes (f # fs) =
     (if stricmp_eq (fs_name f) baseName
      then Some (f\<lparr>fs_viewCount := fs_viewCount f + 1, fs_totalBytes := fs_totalBytes f + bytes\<rparr> # fs)
      else map_option (\<lambda>r. f # r) (bump_file baseName bytes fs))"

text \<open>
  The search without the lock, and what runs under it when that search failed: the table may
  have grown in between, so the locked part searches again.
\<close>

definition record_file_locked :: "string \<Rightarrow> u64 \<Rightarrow> FileSlot list \<Rightarrow> FileSlot list" where
  "record_file_locked baseName bytes fs =
     (case bump_file baseName bytes fs of
        Some r \<Rightarrow> r
      | None \<Rightarrow>
          if length fs < kMaxFiles
          then fs @ [\<lparr>fs_name = take 79 baseName, fs_viewCount = 1, fs_totalBytes = bytes\<rparr>]
          else fs)"

definition RecordFileName :: "string \<Rightarrow> u64 \<Rightarrow> map_view \<Rightarrow> map_view" where
  "RecordFileName baseName bytes m =
     (if baseName = [] then m
      else case bump_file baseName bytes (m_files m) of
        Some r \<Rightarrow> m\<lparr>m_files := r\<rparr>
      | None \<Rightarrow> m\<lparr>m_files := record_file_locked baseName bytes (m_files m)\<rparr>)"

subsection \<open>Recording a view\<close>

fun record_kind :: "ViewKind \<Rightarrow> string \<Rightarrow> u64 \<Rightarrow> map_view \<Rightarrow> map_view" where
  "record_kind Anonymous baseName b m =
     m\<lparr>m_cntAnonymous := m_cntAnonymous m + 1, m_bytesAnonymous := m_bytesAnonymous m + b\<rparr>"
| "record_kind ImageSection baseName b m =
     m\<lparr>m_cntImage := m_cntImage m + 1, m_bytesImage := m_bytesImage m + b\<rparr>"
| "record_kind FileMappedOther baseName b m =
     RecordFileName baseName b
       (m\<lparr>m_cntOtherFile := m_cntOtherFile m + 1, m_bytesOtherFile := m_bytesOtherFile m + b\<rparr>)"
| "record_kind FileMappedNoName baseName b m =
     m\<lparr>m_cntNoName := m_cntNoName m + 1, m_bytesNoName := m_bytesNoName m + b\<rparr>"
| "record_kind FileMappedPackage baseName b m =
     RecordFileName baseName b
       (m\<lparr>m_cntPkgNoDbpf := m_cntPkgNoDbpf m + 1, m_bytesPkgNoDbpf := m_bytesPkgNoDbpf m + b\<rparr>)"
| "record_kind FileMappedDbpf baseName b m =
     RecordFileName baseName b
       (m\<lparr>m_cntPkgDbpf := m_cntPkgDbpf m + 1, m_bytesPkgDbpf := m_bytesPkgDbpf m + b\<rparr>)"

definition RecordView :: "ViewKind \<Rightarrow> string \<Rightarrow> u64 \<Rightarrow> bool \<Rightarrow> map_view \<Rightarrow> map_view" where
  "RecordView kind baseName viewBytes redirected m =
     (let m = record_kind kind baseName viewBytes m
      in if redirected
         then m\<lparr>m_cntRedirected := m_cntRedirected m + 1, m_bytesRedirected := m_bytesRedirected m + viewBytes\<rparr>
         else m)"

subsection \<open>The table of types\<close>

definition type_index :: "u32 \<Rightarrow> nat \<Rightarrow> nat" where
  "type_index typeId probe =
     unat ((((typeId XOR drop_bit 16 typeId) AND (of_nat kTypeTableCap - 1)) + of_nat probe)
            AND (of_nat kTypeTableCap - 1))"

fun probe_type :: "nat \<Rightarrow> nat \<Rightarrow> u32 \<Rightarrow> TypeSlot list \<Rightarrow> nat option \<times> TypeSlot list" where
  "probe_type 0 probe typeId t = (None, t)"
| "probe_type (Suc n) probe typeId t =
     (let slot = type_index typeId probe
      in if ts_typeId (t ! slot) = typeId then (Some slot, t)
         else if ts_typeId (t ! slot) = 0
         then (Some slot, t[slot := \<lparr>ts_typeId = typeId, ts_entryCount = 0, ts_totalBytes = 0, ts_viewCount = 0\<rparr>])
         else probe_type n (Suc probe) typeId t)"

definition FindOrInsertType :: "u32 \<Rightarrow> TypeSlot list \<Rightarrow> nat option \<times> TypeSlot list" where
  "FindOrInsertType typeId t = (if typeId = 0 then (None, t) else probe_type kTypeTableCap 0 typeId t)"

definition add_stats :: "DbpfTypeStats \<Rightarrow> TypeSlot list \<Rightarrow> TypeSlot list" where
  "add_stats s t =
     (case FindOrInsertType (ds_typeId s) t of
        (None, t) \<Rightarrow> t
      | (Some i, t) \<Rightarrow>
          t[i := (t ! i)\<lparr>ts_entryCount := ts_entryCount (t ! i) + ucast (ds_entryCount s),
                        ts_totalBytes := ts_totalBytes (t ! i) + ds_totalMemBytes s,
                        ts_viewCount := ts_viewCount (t ! i) + 1\<rparr>])"

definition RecordDbpfTypes :: "DbpfTypeStats list \<Rightarrow> map_view \<Rightarrow> map_view" where
  "RecordDbpfTypes typeStats m = m\<lparr>m_typeTable := fold add_stats typeStats (m_typeTable m)\<rparr>"

subsection \<open>The allow-list\<close>

definition AddRedirectTypeId :: "u32 \<Rightarrow> map_view \<Rightarrow> map_view" where
  "AddRedirectTypeId typeId m =
     (if length (m_allowIds m) < kMaxAllowIds
      then if typeId \<in> set (m_allowIds m) then m else m\<lparr>m_allowIds := m_allowIds m @ [typeId]\<rparr>
      else m)"

definition ClearRedirectTypeIds :: "map_view \<Rightarrow> map_view" where
  "ClearRedirectTypeIds m = m\<lparr>m_allowIds := []\<rparr>"

definition ShouldRedirect :: "map_view \<Rightarrow> DbpfTypeStats list \<Rightarrow> bool" where
  "ShouldRedirect m typeStats =
     (m_allowIds m = [] \<or> list_ex (\<lambda>s. list_ex (\<lambda>a. ds_typeId s = a) (m_allowIds m)) typeStats)"

subsection \<open>The report\<close>

text \<open>
  The lines of \<open>Report\<close> as values; sizes are in MB by C's signed division.  \<open>std::sort\<close> leaves
  the order of equal keys open, the model keeps the table's order.
\<close>

datatype report_line =
    ReportHead
  | Totals int int
  | CategoryLine string int int
  | TypeHead
  | TypeRow u32 string int int int
  | NoTypes
  | FileHead nat
  | FileRow string int int
  | ReportEnd

definition in_mb :: "u64 \<Rightarrow> int" where
  "in_mb w = sint w sdiv (1024 * 1024)"

definition total_views :: "map_view \<Rightarrow> u64" where
  "total_views m = m_cntAnonymous m + m_cntImage m + m_cntOtherFile m + m_cntNoName m + m_cntPkgNoDbpf m + m_cntPkgDbpf m"

definition total_bytes :: "map_view \<Rightarrow> u64" where
  "total_bytes m =
     m_bytesAnonymous m + m_bytesImage m + m_bytesOtherFile m + m_bytesNoName m + m_bytesPkgNoDbpf m + m_bytesPkgDbpf m"

definition report_summary :: "map_view \<Rightarrow> report_line list" where
  "report_summary m =
     [ReportHead, Totals (sint (total_views m)) (in_mb (total_bytes m)),
      CategoryLine ''Anonymous (MEM_PRIVATE)'' (sint (m_cntAnonymous m)) (in_mb (m_bytesAnonymous m)),
      CategoryLine ''Image section (MEM_IMAGE)'' (sint (m_cntImage m)) (in_mb (m_bytesImage m)),
      CategoryLine ''File-backed, no name'' (sint (m_cntNoName m)) (in_mb (m_bytesNoName m)),
      CategoryLine ''File-backed, other ext'' (sint (m_cntOtherFile m)) (in_mb (m_bytesOtherFile m)),
      CategoryLine ''Package ext, no DBPF header'' (sint (m_cntPkgNoDbpf m)) (in_mb (m_bytesPkgNoDbpf m)),
      CategoryLine ''Package ext, valid DBPF'' (sint (m_cntPkgDbpf m)) (in_mb (m_bytesPkgDbpf m)),
      CategoryLine ''Phase2 redirected (stub)'' (sint (m_cntRedirected m)) (in_mb (m_bytesRedirected m))]"

definition type_snaps :: "map_view \<Rightarrow> TypeSlot list" where
  "type_snaps m = sort_key (\<lambda>s. - sint (ts_totalBytes s)) (filter (\<lambda>s. ts_typeId s \<noteq> 0) (m_typeTable m))"

definition file_snaps :: "map_view \<Rightarrow> FileSlot list" where
  "file_snaps m = sort_key (\<lambda>f. - sint (fs_totalBytes f)) (m_files m)"

definition Report :: "map_view \<Rightarrow> report_line list" where
  "Report m =
     report_summary m @
     (let snaps = type_snaps m
      in if snaps = [] then [NoTypes]
         else TypeHead # map (\<lambda>s. TypeRow (ts_typeId s) (DbpfTypeName (ts_typeId s)) (sint (ts_entryCount s))
                                   (in_mb (ts_totalBytes s)) (sint (ts_viewCount s))) snaps) @
     (let fs = file_snaps m
      in if fs = [] then []
         else FileHead (length fs) # map (\<lambda>f. FileRow (fs_name f) (sint (fs_viewCount f)) (in_mb (fs_totalBytes f))) fs) @
     [ReportEnd]"

end
