(* ===== verification/MapViewProps.thy ===== *)
theory MapViewProps
  imports MapView
begin

section \<open>What the inventory reports\<close>

text \<open>
  Every recorded view is counted once; the type table, an instance of the probe-table contract,
  holds exact sums per type while at most 256 types occur; the file table is exact for names
  below 80 characters while at most 64 of them occur, and wrong for longer ones.
\<close>

subsection \<open>View counters\<close>

type_synonym view_rec = "ViewKind \<times> string \<times> u64 \<times> bool"

definition record_views :: "view_rec list \<Rightarrow> map_view \<Rightarrow> map_view" where
  "record_views vs m = fold (\<lambda>(k, n, b, r). RecordView k n b r) vs m"

lemma RecordFileName_only_files:
  obtains fs where "RecordFileName n b m = m\<lparr>m_files := fs\<rparr>"
proof (cases "n = []")
  case True
  then have "RecordFileName n b m = m\<lparr>m_files := m_files m\<rparr>" by (simp add: RecordFileName_def)
  then show ?thesis by (rule that)
next
  case False
  then show ?thesis using that by (cases "bump_file n b (m_files m)") (auto simp: RecordFileName_def)
qed

lemma RecordView_totals:
  "total_views (RecordView k n b r m) = total_views m + 1"
  "total_bytes (RecordView k n b r m) = total_bytes m + b"
  "m_cntRedirected (RecordView k n b r m) = m_cntRedirected m + of_bool r"
  "m_bytesRedirected (RecordView k n b r m) = m_bytesRedirected m + (if r then b else 0)"
proof -
  have *: "total_views (record_kind k n b m) = total_views m + 1 \<and>
     total_bytes (record_kind k n b m) = total_bytes m + b \<and>
     m_cntRedirected (record_kind k n b m) = m_cntRedirected m \<and>
     m_bytesRedirected (record_kind k n b m) = m_bytesRedirected m"
  proof (cases k)
    case FileMappedOther
    obtain fs where "RecordFileName n b (m\<lparr>m_cntOtherFile := m_cntOtherFile m + 1, m_bytesOtherFile := m_bytesOtherFile m + b\<rparr>)
       = m\<lparr>m_cntOtherFile := m_cntOtherFile m + 1, m_bytesOtherFile := m_bytesOtherFile m + b\<rparr>\<lparr>m_files := fs\<rparr>"
      by (rule RecordFileName_only_files)
    then show ?thesis using FileMappedOther by (simp add: total_views_def total_bytes_def)
  next
    case FileMappedPackage
    obtain fs where "RecordFileName n b (m\<lparr>m_cntPkgNoDbpf := m_cntPkgNoDbpf m + 1, m_bytesPkgNoDbpf := m_bytesPkgNoDbpf m + b\<rparr>)
       = m\<lparr>m_cntPkgNoDbpf := m_cntPkgNoDbpf m + 1, m_bytesPkgNoDbpf := m_bytesPkgNoDbpf m + b\<rparr>\<lparr>m_files := fs\<rparr>"
      by (rule RecordFileName_only_files)
    then show ?thesis using FileMappedPackage by (simp add: total_views_def total_bytes_def)
  next
    case FileMappedDbpf
    obtain fs where "RecordFileName n b (m\<lparr>m_cntPkgDbpf := m_cntPkgDbpf m + 1, m_bytesPkgDbpf := m_bytesPkgDbpf m + b\<rparr>)
       = m\<lparr>m_cntPkgDbpf := m_cntPkgDbpf m + 1, m_bytesPkgDbpf := m_bytesPkgDbpf m + b\<rparr>\<lparr>m_files := fs\<rparr>"
      by (rule RecordFileName_only_files)
    then show ?thesis using FileMappedDbpf by (simp add: total_views_def total_bytes_def)
  qed (simp_all add: total_views_def total_bytes_def)
  show "total_views (RecordView k n b r m) = total_views m + 1"
    "total_bytes (RecordView k n b r m) = total_bytes m + b"
    "m_cntRedirected (RecordView k n b r m) = m_cntRedirected m + of_bool r"
    "m_bytesRedirected (RecordView k n b r m) = m_bytesRedirected m + (if r then b else 0)"
    using * by (simp_all add: RecordView_def Let_def total_views_def total_bytes_def)
qed

lemma record_views_totals:
  "total_views (record_views vs m) = total_views m + of_nat (length vs) \<and>
   total_bytes (record_views vs m) = total_bytes m + sum_list (map (\<lambda>(k, n, b, r). b) vs) \<and>
   m_cntRedirected (record_views vs m) = m_cntRedirected m + of_nat (length (filter (\<lambda>(k, n, b, r). r) vs)) \<and>
   m_bytesRedirected (record_views vs m) =
     m_bytesRedirected m + sum_list (map (\<lambda>(k, n, b, r). b) (filter (\<lambda>(k, n, b, r). r) vs))"
proof (induction vs arbitrary: m)
  case Nil
  then show ?case by (simp add: record_views_def)
next
  case (Cons v vs)
  obtain k n b r where v: "v = (k, n, b, r)" by (cases v) auto
  have step: "record_views (v # vs) m = record_views vs (RecordView k n b r m)" by (simp add: record_views_def v)
  show ?case using Cons.IH [of "RecordView k n b r m"] unfolding step by (simp add: v RecordView_totals)
qed

text \<open>However the views fall into categories, the two totals of the report are the number of
  recorded views and the sum of their bytes, and the redirected line is the number and the
  bytes of the redirected ones (all modulo 2^64).\<close>

theorem views_counted_once:
  "total_views (record_views vs map_view_init) = of_nat (length vs) \<and>
   total_bytes (record_views vs map_view_init) = sum_list (map (\<lambda>(k, n, b, r). b) vs) \<and>
   m_cntRedirected (record_views vs map_view_init) = of_nat (length (filter (\<lambda>(k, n, b, r). r) vs)) \<and>
   m_bytesRedirected (record_views vs map_view_init) =
     sum_list (map (\<lambda>(k, n, b, r). b) (filter (\<lambda>(k, n, b, r). r) vs))"
  using record_views_totals [of vs map_view_init]
  by (simp add: map_view_init_def total_views_def total_bytes_def)

subsection \<open>The type table\<close>

lemma and_255: "(x :: u32) AND 255 = take_bit 8 x"
  by (simp add: take_bit_eq_mask mask_eq_exp_minus_1)

lemma type_index_mod: "type_index k p = (type_index k 0 + p) mod kTypeTableCap"
proof -
  let ?a = "(k XOR drop_bit 16 k) AND 255"
  have u: "unat (x AND 255) = unat x mod 256" for x :: u32
  proof -
    have "unat (x AND 255) = take_bit 8 (unat x)" unfolding and_255 by (simp add: unsigned_take_bit_eq)
    then show ?thesis by (simp add: take_bit_eq_mod)
  qed
  have "unat (?a + of_nat p) = (unat ?a + p) mod 4294967296"
    by (simp add: unat_word_ariths unsigned_of_nat take_bit_eq_mod mod_simps)
  then have "unat ((?a + of_nat p) AND 255) = (unat ?a + p) mod 256"
    unfolding u by (simp add: mod_mod_cancel)
  moreover have "unat (?a AND 255) mod 256 = unat ?a mod 256" unfolding u by simp
  ultimately show ?thesis by (simp add: type_index_def kTypeTableCap_def u mod_simps)
qed

lemma type_index_lt: "type_index k p < kTypeTableCap"
  by (subst type_index_mod) (simp add: kTypeTableCap_def)

lemma type_index_onto:
  assumes "i < kTypeTableCap"
  shows "\<exists>p<kTypeTableCap. type_index k p = i"
proof -
  define c where "c = type_index k 0"
  have c: "c < 256" using type_index_lt [of k 0] by (simp add: c_def kTypeTableCap_def)
  have i: "i < 256" using assms by (simp add: kTypeTableCap_def)
  have "(c + (i + 256 - c) mod 256) mod 256 = (c + (i + 256 - c)) mod 256" by (simp add: mod_simps)
  also have "\<dots> = i" using c i by simp
  finally have "type_index k ((i + 256 - c) mod 256) = i"
    by (subst type_index_mod) (simp add: kTypeTableCap_def flip: c_def)
  then show ?thesis
    by (intro exI [of _ "(i + 256 - c) mod 256"]) (simp add: kTypeTableCap_def)
qed

definition type_key :: "TypeSlot list \<Rightarrow> nat \<Rightarrow> u32" where
  "type_key t i = (if i < length t then ts_typeId (t ! i) else 0)"

definition type_good :: "TypeSlot list \<Rightarrow> bool" where
  "type_good t \<longleftrightarrow> length t = kTypeTableCap"

lemma type_key_index: "type_good t \<Longrightarrow> type_key t (type_index k p) = ts_typeId (t ! type_index k p)"
  using type_index_lt [of k p] by (simp add: type_key_def type_good_def)

lemma probe_type_walk:
  assumes "\<forall>q<d. type_key t (type_index k q) \<noteq> 0 \<and> type_key t (type_index k q) \<noteq> k" "type_good t"
  shows "probe_type (n + d) 0 k t = probe_type n d k t"
  using assms(1)
proof (induction d arbitrary: n)
  case (Suc d)
  have "probe_type (n + Suc d) 0 k t = probe_type (Suc n) d k t" using Suc.IH [of "Suc n"] Suc.prems by simp
  also have "\<dots> = probe_type n (Suc d) k t"
    using Suc.prems [rule_format, of d] assms(2) by (simp add: Let_def type_key_index)
  finally show ?case .
qed simp

lemma FindOrInsertType_walk:
  assumes "\<forall>q<p. type_key t (type_index k q) \<noteq> 0 \<and> type_key t (type_index k q) \<noteq> k" "type_good t"
    "k \<noteq> 0" "p < kTypeTableCap"
  shows "FindOrInsertType k t =
     (if ts_typeId (t ! type_index k p) = k then (Some (type_index k p), t)
      else if ts_typeId (t ! type_index k p) = 0
      then (Some (type_index k p),
            t[type_index k p := \<lparr>ts_typeId = k, ts_entryCount = 0, ts_totalBytes = 0, ts_viewCount = 0\<rparr>])
      else probe_type (kTypeTableCap - Suc p) (Suc p) k t)"
proof -
  have "kTypeTableCap = Suc (kTypeTableCap - Suc p) + p" using assms(4) by simp
  then have "probe_type kTypeTableCap 0 k t = probe_type (Suc (kTypeTableCap - Suc p)) p k t"
    using probe_type_walk [OF assms(1,2), of "Suc (kTypeTableCap - Suc p)"] by simp
  then show ?thesis using assms(3) by (simp add: FindOrInsertType_def Let_def)
qed

interpretation types: probe_table type_key 0 type_index kTypeTableCap FindOrInsertType type_good
proof (unfold_locales, goal_cases)
  case (1 t k p)
  then show ?case using FindOrInsertType_walk [OF 1(4,1,2,3)] by (simp add: type_key_index)
next
  case (2 t k p)
  have "FindOrInsertType k t = (Some (type_index k p),
      t[type_index k p := \<lparr>ts_typeId = k, ts_entryCount = 0, ts_totalBytes = 0, ts_viewCount = 0\<rparr>])"
    using FindOrInsertType_walk [OF 2(4,1,2,3)] 2 by (simp add: type_key_index)
  then show ?case using 2(1) type_index_lt [of k p] by (auto simp: type_good_def type_key_def nth_list_update)
next
  case (3 t k)
  then show ?case using probe_type_walk [of kTypeTableCap t k 0] by (simp add: FindOrInsertType_def)
qed

lemma type_slots_all: "type_index k ` {..<kTypeTableCap} = {..<kTypeTableCap}"
  using type_index_lt [of k] type_index_onto [of _ k] by (auto simp: image_iff)

text \<open>What the table should hold for a type: its entries, bytes and occurrences among the records.\<close>

definition occurrences :: "u32 \<Rightarrow> DbpfTypeStats list \<Rightarrow> DbpfTypeStats list" where
  "occurrences k ss = filter (\<lambda>s. ds_typeId s = k) ss"

definition type_total :: "u32 \<Rightarrow> DbpfTypeStats list \<Rightarrow> TypeSlot" where
  "type_total k ss =
     \<lparr>ts_typeId = k, ts_entryCount = sum_list (map (\<lambda>s. ucast (ds_entryCount s)) (occurrences k ss)),
      ts_totalBytes = sum_list (map ds_totalMemBytes (occurrences k ss)),
      ts_viewCount = of_nat (length (occurrences k ss))\<rparr>"

definition types_of :: "DbpfTypeStats list \<Rightarrow> u32 set" where
  "types_of ss = ds_typeId ` set ss - {0}"

lemma finite_types: "finite (types_of ss)"
  by (simp add: types_of_def)

definition table_of :: "DbpfTypeStats list \<Rightarrow> TypeSlot list \<Rightarrow> bool" where
  "table_of ss t \<longleftrightarrow> types.placed t \<and>
     (\<forall>i. type_key t i \<noteq> 0 \<longrightarrow> type_key t i \<in> types_of ss \<and> t ! i = type_total (type_key t i) ss) \<and>
     (\<forall>k\<in>types_of ss. \<exists>i. type_key t i = k)"

lemma type_total_snoc_other: "ds_typeId s \<noteq> k \<Longrightarrow> type_total k (ss @ [s]) = type_total k ss"
  by (simp add: type_total_def occurrences_def)

lemma type_total_snoc:
  "type_total (ds_typeId s) (ss @ [s]) =
     (type_total (ds_typeId s) ss)\<lparr>ts_entryCount := ts_entryCount (type_total (ds_typeId s) ss) + ucast (ds_entryCount s),
        ts_totalBytes := ts_totalBytes (type_total (ds_typeId s) ss) + ds_totalMemBytes s,
        ts_viewCount := ts_viewCount (type_total (ds_typeId s) ss) + 1\<rparr>"
  by (simp add: type_total_def occurrences_def add.commute)

lemma type_total_absent: "k \<noteq> 0 \<Longrightarrow> k \<notin> types_of ss \<Longrightarrow>
    type_total k ss = \<lparr>ts_typeId = k, ts_entryCount = 0, ts_totalBytes = 0, ts_viewCount = 0\<rparr>"
proof -
  assume a: "k \<noteq> 0" "k \<notin> types_of ss"
  then have "occurrences k ss = []" by (auto simp: occurrences_def types_of_def filter_empty_conv)
  then show ?thesis by (simp add: type_total_def)
qed

text \<open>The slot that a new type takes is fresh, and the slot of a known one is untouched.\<close>

lemma FindOrInsertType_slot:
  assumes "table_of ss t" "k \<noteq> 0" "FindOrInsertType k t = (Some i, t')"
  shows "t' ! i = type_total k ss \<and> i < kTypeTableCap \<and> length t' = kTypeTableCap \<and>
     (\<forall>j. j \<noteq> i \<longrightarrow> t' ! j = t ! j)"
proof -
  have p: "types.placed t" using assms(1) by (simp add: table_of_def)
  have g: "type_good t" using p by (simp add: types.placed_def)
  from g assms(2) show ?thesis
  proof (cases rule: types.find_cases)
    case (hit p)
    then have "t' = t" "i = type_index k p" "type_key t i = k" using assms(3) by auto
    then show ?thesis using assms(1,2) type_index_lt [of k p] g by (auto simp: table_of_def type_good_def)
  next
    case (new p)
    have eq: "t' = t[type_index k p := \<lparr>ts_typeId = k, ts_entryCount = 0, ts_totalBytes = 0, ts_viewCount = 0\<rparr>] \<and> i = type_index k p"
      using FindOrInsertType_walk [OF new(2) [unfolded types.passed_def] g assms(2) new(1)] new(3) assms(2,3) g
      by (auto simp: type_key_index)
    have "k \<notin> types_of ss"
    proof
      assume "k \<in> types_of ss"
      then obtain j where "type_key t j = k" using assms(1) by (auto simp: table_of_def)
      then show False
        using types.find_answer [OF p assms(2,3)] new(3) eq assms(2) by auto
    qed
    then show ?thesis using eq type_total_absent [OF assms(2)] type_index_lt [of k p] g by (auto simp: type_good_def)
  next
    case full
    then show ?thesis using assms(3) by simp
  qed
qed

lemma table_of_add:
  assumes t: "table_of ss t" and room: "card (types_of (ss @ [s])) \<le> kTypeTableCap"
  shows "table_of (ss @ [s]) (add_stats s t)"
proof (cases "ds_typeId s = 0")
  case True
  have "type_total k (ss @ [s]) = type_total k ss" if "k \<noteq> 0" for k
    using that True by (intro type_total_snoc_other) simp
  moreover have "types_of (ss @ [s]) = types_of ss" using True by (auto simp: types_of_def)
  ultimately show ?thesis using t True by (auto simp: table_of_def add_stats_def FindOrInsertType_def)
next
  case False
  define k where "k = ds_typeId s"
  have k0: "k \<noteq> 0" using False by (simp add: k_def)
  have p: "types.placed t" using t by (simp add: table_of_def)
  have ty: "types_of (ss @ [s]) = insert k (types_of ss)" using k0 by (auto simp: types_of_def k_def)
  have "fst (FindOrInsertType k t) \<noteq> None"
    by (rule types.find_room [where K = "types_of (ss @ [s])", OF p k0])
      (use room t in \<open>simp_all add: ty type_slots_all table_of_def finite_types\<close>)
  then obtain i t' where f: "FindOrInsertType k t = (Some i, t')" by (cases "FindOrInsertType k t") auto
  note ans = types.find_answer [OF p k0 f, simplified]
  note sl = FindOrInsertType_slot [OF t k0 f]
  have p': "types.placed t'" using types.placed_find [OF p k0] f by simp
  let ?u = "t'[i := type_total k (ss @ [s])]"
  have add: "add_stats s t = ?u"
    using f sl by (simp add: add_stats_def k_def type_total_snoc)
  have key: "type_key ?u j = type_key t' j" for j
    using ans sl by (auto simp: type_key_def nth_list_update type_total_def)
  have placed: "types.placed ?u"
    using p' unfolding types.placed_def types.passed_def key by (simp add: type_good_def)
  have vals: "?u ! j = type_total (type_key ?u j) (ss @ [s])" if "type_key ?u j \<noteq> 0" for j
  proof (cases "j = i")
    case True
    then show ?thesis using sl ans key [of i] by simp
  next
    case False
    then have kj: "type_key ?u j = type_key t j" using ans key [of j] by simp
    have "type_key t j \<noteq> k"
    proof
      assume e: "type_key t j = k"
      then have "type_key t' j = type_key t' i" using ans kj key [of j] by simp
      then show False using types.placed_unique [OF p', of j i] ans k0 e kj key [of j] False by simp
    qed
    then have "type_total (type_key t j) (ss @ [s]) = type_total (type_key t j) ss"
      by (intro type_total_snoc_other) (simp add: k_def)
    moreover have "t ! j = type_total (type_key t j) ss" using t that kj by (simp add: table_of_def)
    ultimately show ?thesis using False sl kj by simp
  qed
  have keys: "type_key ?u j \<in> types_of (ss @ [s])" if "type_key ?u j \<noteq> 0" for j
    using that t ans key [of j] unfolding ty by (cases "j = i") (auto simp: table_of_def)
  have ex: "\<exists>j. type_key ?u j = h" if "h \<in> types_of (ss @ [s])" for h
  proof (cases "h = k")
    case True
    then show ?thesis using ans key [of i] by auto
  next
    case False
    then have "h \<in> types_of ss" using that by (simp add: ty)
    then obtain j where j: "type_key t j = h" using t by (auto simp: table_of_def)
    have "j \<noteq> i"
    proof
      assume e: "j = i"
      have "h \<noteq> 0" using that by (simp add: types_of_def)
      then show False using ans j e False by auto
    qed
    then show ?thesis using ans key [of j] j by auto
  qed
  show ?thesis unfolding add using placed vals keys ex by (auto simp: table_of_def)
qed

lemma type_table_init: "table_of [] (m_typeTable map_view_init)"
proof -
  have k: "type_key (m_typeTable map_view_init) i = 0" for i by (simp add: type_key_def map_view_init_def)
  have "types.placed (m_typeTable map_view_init)"
    unfolding types.placed_def k by (simp add: type_good_def map_view_init_def)
  then show ?thesis by (simp add: table_of_def types_of_def k)
qed

lemma types_of_mono: "types_of ss \<subseteq> types_of (ss @ rs)"
  by (auto simp: types_of_def)

lemma table_of_fold:
  "table_of ss t \<Longrightarrow> card (types_of (ss @ rs)) \<le> kTypeTableCap \<Longrightarrow> table_of (ss @ rs) (fold add_stats rs t)"
proof (induction rs arbitrary: ss t)
  case (Cons r rs)
  have "types_of (ss @ [r]) \<subseteq> types_of (ss @ r # rs)" by (auto simp: types_of_def)
  then have "card (types_of (ss @ [r])) \<le> kTypeTableCap"
    using Cons.prems(2) card_mono [OF finite_types] by (meson le_trans)
  then have "table_of (ss @ [r]) (add_stats r t)" by (rule table_of_add [OF Cons.prems(1)])
  then show ?case using Cons.IH [of "ss @ [r]" "add_stats r t"] Cons.prems(2) by simp
qed simp

lemma record_types_fold:
  "m_typeTable (fold RecordDbpfTypes bs m) = fold add_stats (concat bs) (m_typeTable m)"
  by (induction bs arbitrary: m) (simp_all add: RecordDbpfTypes_def)

lemma type_keys_distinct:
  assumes "table_of ss t"
  shows "distinct (map ts_typeId (filter (\<lambda>s. ts_typeId s \<noteq> 0) t))"
proof -
  have p: "types.placed t" using assms by (simp add: table_of_def)
  show ?thesis
  proof (rule distinct_map_nonfree, intro allI impI)
    fix i j assume "i < length t" "j < length t" "ts_typeId (t ! i) = ts_typeId (t ! j)" "ts_typeId (t ! i) \<noteq> 0"
    then show "i = j" using types.placed_unique [OF p, of i j] by (simp add: type_key_def)
  qed
qed

lemma type_snaps_exact:
  assumes "table_of ss (m_typeTable m)"
  shows "set (type_snaps m) = (\<lambda>k. type_total k ss) ` types_of ss"
proof -
  let ?t = "m_typeTable m"
  have "s \<in> (\<lambda>k. type_total k ss) ` types_of ss" if s: "s \<in> set ?t" "ts_typeId s \<noteq> 0" for s
  proof -
    obtain i where i: "i < length ?t" "s = ?t ! i" using s by (auto simp: in_set_conv_nth)
    then have k: "type_key ?t i = ts_typeId s" by (simp add: type_key_def)
    then have "type_key ?t i \<in> types_of ss \<and> ?t ! i = type_total (type_key ?t i) ss"
      using assms s(2) unfolding table_of_def by metis
    then show ?thesis unfolding k i(2) [symmetric] by blast
  qed
  moreover have "type_total k ss \<in> set ?t \<and> ts_typeId (type_total k ss) \<noteq> 0" if k: "k \<in> types_of ss" for k
  proof -
    obtain i where i: "type_key ?t i = k" using assms k by (auto simp: table_of_def)
    have k0: "k \<noteq> 0" using k by (simp add: types_of_def)
    then have l: "i < length ?t" using i by (simp add: type_key_def split: if_splits)
    have "?t ! i = type_total k ss" using assms i k0 by (auto simp: table_of_def)
    then have "type_total k ss \<in> set ?t" using nth_mem [OF l] by simp
    then show ?thesis using k0 by (simp add: type_total_def)
  qed
  ultimately show ?thesis by (auto simp: type_snaps_def)
qed

text \<open>While at most 256 resource types occur, the type table of the report is exact: it has one
  row for every type among the recorded statistics (type 0 excepted, which marks a free slot),
  no type twice, each row with the sums of its entries and bytes and the number of its
  records, and the rows stand by descending bytes.\<close>

theorem type_rows_exact:
  assumes "card (types_of (concat bs)) \<le> kTypeTableCap"
  shows "set (type_snaps (fold RecordDbpfTypes bs map_view_init)) = (\<lambda>k. type_total k (concat bs)) ` types_of (concat bs) \<and>
    distinct (map ts_typeId (type_snaps (fold RecordDbpfTypes bs map_view_init))) \<and>
    sorted (map (\<lambda>s. - sint (ts_totalBytes s)) (type_snaps (fold RecordDbpfTypes bs map_view_init)))"
proof -
  let ?m = "fold RecordDbpfTypes bs map_view_init"
  have t: "table_of (concat bs) (m_typeTable ?m)"
    using table_of_fold [OF type_table_init, of "concat bs"] assms by (simp add: record_types_fold)
  have "mset (map ts_typeId (type_snaps ?m)) = mset (map ts_typeId (filter (\<lambda>s. ts_typeId s \<noteq> 0) (m_typeTable ?m)))"
    by (simp add: type_snaps_def)
  then have "distinct (map ts_typeId (type_snaps ?m))"
    using type_keys_distinct [OF t] mset_eq_imp_distinct_iff by blast
  then show ?thesis using type_snaps_exact [OF t] by (simp add: type_snaps_def)
qed

definition demo_stats :: "DbpfTypeStats list" where
  "demo_stats = [\<lparr>ds_typeId = 7, ds_entryCount = 2, ds_totalMemBytes = 100\<rparr>,
     \<lparr>ds_typeId = 0, ds_entryCount = 1, ds_totalMemBytes = 1\<rparr>,
     \<lparr>ds_typeId = 7, ds_entryCount = 3, ds_totalMemBytes = 50\<rparr>]"

theorem type_rows_exact_witness:
  "distinct (map ts_typeId (type_snaps (fold RecordDbpfTypes [demo_stats, demo_stats] map_view_init)))"
proof -
  have "types_of (concat [demo_stats, demo_stats]) = {7}" by (auto simp: types_of_def demo_stats_def)
  then have "card (types_of (concat [demo_stats, demo_stats])) \<le> kTypeTableCap" by (simp add: kTypeTableCap_def)
  from type_rows_exact [OF this] show ?thesis by blast
qed

subsection \<open>The file table\<close>

definition file_key :: "FileSlot \<Rightarrow> string" where
  "file_key f = map lower (fs_name f)"

definition seen :: "string \<Rightarrow> (string \<times> u64) list \<Rightarrow> (string \<times> u64) list" where
  "seen key hs = filter (\<lambda>h. map lower (fst h) = key) hs"

definition file_keys :: "(string \<times> u64) list \<Rightarrow> string set" where
  "file_keys hs = (\<lambda>h. map lower (fst h)) ` set hs"

text \<open>A table that counts the recorded names: one row per name up to case, with its count and bytes.\<close>

definition counts :: "(string \<times> u64) list \<Rightarrow> FileSlot list \<Rightarrow> bool" where
  "counts hs fs \<longleftrightarrow> distinct (map file_key fs) \<and> set (map file_key fs) = file_keys hs \<and>
     (\<forall>f\<in>set fs. fs_viewCount f = of_nat (length (seen (file_key f) hs)) \<and>
                fs_totalBytes f = sum_list (map snd (seen (file_key f) hs)))"

lemma bump_file_cases:
  obtains (absent) "bump_file n b fs = None" "\<forall>f\<in>set fs. file_key f \<noteq> map lower n"
  | (found) us f vs where "fs = us @ f # vs" "file_key f = map lower n"
      "bump_file n b fs = Some (us @ f\<lparr>fs_viewCount := fs_viewCount f + 1, fs_totalBytes := fs_totalBytes f + b\<rparr> # vs)"
proof -
  have "(bump_file n b fs = None \<and> (\<forall>f\<in>set fs. file_key f \<noteq> map lower n)) \<or>
    (\<exists>us f vs. fs = us @ f # vs \<and> file_key f = map lower n \<and>
      bump_file n b fs = Some (us @ f\<lparr>fs_viewCount := fs_viewCount f + 1, fs_totalBytes := fs_totalBytes f + b\<rparr> # vs))"
  proof (induction fs)
    case (Cons x xs)
    show ?case
    proof (cases "stricmp_eq (fs_name x) n")
      case True
      then have "x # xs = [] @ x # xs \<and> file_key x = map lower n \<and> bump_file n b (x # xs) =
          Some ([] @ x\<lparr>fs_viewCount := fs_viewCount x + 1, fs_totalBytes := fs_totalBytes x + b\<rparr> # xs)"
        by (simp add: stricmp_eq_def file_key_def)
      then show ?thesis by metis
    next
      case False
      from Cons.IH show ?thesis
      proof (elim disjE exE conjE)
        fix us f vs
        assume "xs = us @ f # vs" "file_key f = map lower n" "bump_file n b xs =
          Some (us @ f\<lparr>fs_viewCount := fs_viewCount f + 1, fs_totalBytes := fs_totalBytes f + b\<rparr> # vs)"
        then have "x # xs = (x # us) @ f # vs \<and> file_key f = map lower n \<and> bump_file n b (x # xs) =
          Some ((x # us) @ f\<lparr>fs_viewCount := fs_viewCount f + 1, fs_totalBytes := fs_totalBytes f + b\<rparr> # vs)"
          using False by simp
        then show ?thesis by metis
      qed (use False in \<open>simp add: stricmp_eq_def file_key_def\<close>)
    qed
  qed simp
  then show ?thesis using that by metis
qed

lemma seen_snoc: "seen key (hs @ [h]) = seen key hs @ (if map lower (fst h) = key then [h] else [])"
  by (simp add: seen_def)

lemma file_keys_snoc: "file_keys (hs @ [h]) = insert (map lower (fst h)) (file_keys hs)"
  by (simp add: file_keys_def)

lemma counts_RecordFileName:
  assumes c: "counts hs (m_files m)" and n: "n \<noteq> []" "length n < 80"
    and room: "card (file_keys (hs @ [(n, b)])) \<le> kMaxFiles"
  shows "counts (hs @ [(n, b)]) (m_files (RecordFileName n b m))"
proof (cases rule: bump_file_cases [of n b "m_files m"])
  case absent
  have k: "file_keys hs = file_key ` set (m_files m)" using c by (simp add: counts_def)
  have new: "map lower n \<notin> file_keys hs" unfolding k using absent(2) by auto
  have "card (file_keys hs) < kMaxFiles"
    using room new by (simp add: file_keys_snoc file_keys_def)
  moreover have "card (file_keys hs) = length (m_files m)"
    using c distinct_card [of "map file_key (m_files m)"] by (simp add: counts_def)
  ultimately have files: "m_files (RecordFileName n b m) =
      m_files m @ [\<lparr>fs_name = n, fs_viewCount = 1, fs_totalBytes = b\<rparr>]"
    using n absent(1) by (simp add: RecordFileName_def record_file_locked_def)
  have "seen (map lower n) hs = []" using new unfolding seen_def file_keys_def filter_empty_conv by force
  then show ?thesis
    using c new absent(2) unfolding files by (auto simp: counts_def file_keys_snoc seen_snoc file_key_def)
next
  case (found us f vs)
  have files: "m_files (RecordFileName n b m) =
      us @ f\<lparr>fs_viewCount := fs_viewCount f + 1, fs_totalBytes := fs_totalBytes f + b\<rparr> # vs"
    using n found(3) by (simp add: RecordFileName_def)
  have other: "\<forall>g\<in>set us \<union> set vs. file_key g \<noteq> map lower n"
  proof -
    have "distinct (map file_key us @ map lower n # map file_key vs)" using c found(1,2) by (simp add: counts_def)
    then have "map lower n \<notin> file_key ` set us" "map lower n \<notin> file_key ` set vs" by simp_all
    then show ?thesis by (metis Un_iff imageI)
  qed
  have "map lower n \<in> file_keys hs" using c found(1,2) by (auto simp: counts_def)
  then show ?thesis
    using c other found(1,2) unfolding files
    by (auto simp: counts_def file_keys_snoc seen_snoc file_key_def insert_absorb)
qed

definition record_files :: "(string \<times> u64) list \<Rightarrow> map_view \<Rightarrow> map_view" where
  "record_files hs m = fold (\<lambda>(n, b). RecordFileName n b) hs m"

lemma counts_fold:
  "counts hs (m_files m) \<Longrightarrow> \<forall>(n, b)\<in>set rs. n \<noteq> [] \<and> length n < 80 \<Longrightarrow>
   card (file_keys (hs @ rs)) \<le> kMaxFiles \<Longrightarrow> counts (hs @ rs) (m_files (record_files rs m))"
proof (induction rs arbitrary: hs m)
  case (Cons r rs)
  obtain n b where r: "r = (n, b)" by (cases r)
  have "card (file_keys (hs @ [(n, b)])) \<le> card (file_keys (hs @ r # rs))"
    by (rule card_mono) (auto simp: file_keys_def r)
  then have "card (file_keys (hs @ [(n, b)])) \<le> kMaxFiles" using Cons.prems(3) by simp
  then have "counts (hs @ [(n, b)]) (m_files (RecordFileName n b m))"
    using Cons.prems(1,2) by (intro counts_RecordFileName) (auto simp: r)
  then show ?case using Cons.IH [of "hs @ [(n, b)]" "RecordFileName n b m"] Cons.prems(2,3)
    by (simp add: record_files_def r)
qed (simp add: record_files_def)

text \<open>While the names stay below 80 characters and at most 64 of them differ up to case, the
  file table counts exactly: one row per name, with the number of its views and the sum of
  their bytes.\<close>

theorem file_rows_exact:
  assumes "\<forall>(n, b)\<in>set hs. n \<noteq> [] \<and> length n < 80" "card (file_keys hs) \<le> kMaxFiles"
  shows "counts hs (m_files (record_files hs map_view_init))"
  using counts_fold [of "[]" map_view_init hs] assms
  by (simp add: counts_def file_keys_def map_view_init_def)

theorem file_rows_exact_witness:
  "counts [(''A.package'', 5), (''a.PACKAGE'', 6)]
     (m_files (record_files [(''A.package'', 5), (''a.PACKAGE'', 6)] map_view_init))"
proof (rule file_rows_exact)
  let ?hs = "[(''A.package'', 5), (''a.PACKAGE'', 6)] :: (string \<times> u64) list"
  have "card (file_keys ?hs) \<le> card (set ?hs)" unfolding file_keys_def by (rule card_image_le) simp
  also have "\<dots> \<le> length ?hs" by (rule card_length)
  finally show "card (file_keys ?hs) \<le> kMaxFiles" by (simp add: kMaxFiles_def)
qed simp

text \<open>A name that does not fit its field is never found again.\<close>

lemma bump_file_long:
  assumes "\<forall>f\<in>set fs. length (fs_name f) < 80" "80 \<le> length n"
  shows "bump_file n b fs = None"
proof (cases rule: bump_file_cases [of n b fs])
  case (found us f vs)
  then have "length (fs_name f) = length n" unfolding file_key_def by (metis length_map)
  then show ?thesis using assms found(1) by simp
qed

text \<open>Names of 80 characters and more are cut when stored and compared whole, so each view of
  the same file adds a row: after \<open>n\<close> views the table holds \<open>n\<close> identical rows of one view each, up
  to 64, and from then on no other file is recorded.\<close>

theorem long_names_fill_the_table:
  assumes "80 \<le> length name"
  shows "m_files (record_files (replicate n (name, b)) map_view_init) =
      replicate (min n 64) \<lparr>fs_name = take 79 name, fs_viewCount = 1, fs_totalBytes = b\<rparr> \<and>
    (64 \<le> n \<longrightarrow> length other < 79 \<longrightarrow>
      m_files (RecordFileName other c (record_files (replicate n (name, b)) map_view_init)) =
      m_files (record_files (replicate n (name, b)) map_view_init))"
proof -
  let ?row = "\<lparr>fs_name = take 79 name, fs_viewCount = 1, fs_totalBytes = b\<rparr>"
  have ne: "name \<noteq> []" using assms by auto
  have run: "m_files (record_files (replicate n (name, b)) m) = replicate (min (k + n) 64) ?row"
    if "m_files m = replicate k ?row" "k \<le> 64" for k m
    using that
  proof (induction n arbitrary: k m)
    case (Suc n)
    have none: "bump_file name b (m_files m) = None"
      by (rule bump_file_long) (use assms in \<open>simp_all add: Suc.prems(1)\<close>)
    have "m_files (RecordFileName name b m) = replicate (min (Suc k) 64) ?row"
      using none ne Suc.prems
      by (simp add: RecordFileName_def record_file_locked_def kMaxFiles_def min_def replicate_append_same)
    from Suc.IH [OF this] show ?case using Suc.prems(2) by (simp add: record_files_def min_def)
  qed (simp add: record_files_def)
  have r: "m_files (record_files (replicate n (name, b)) map_view_init) = replicate (min n 64) ?row"
    using run [of map_view_init 0] by (simp add: map_view_init_def)
  have "m_files (RecordFileName other c m) = m_files m"
    if m: "m_files m = replicate 64 ?row" and o: "length other < 79" for m
  proof (cases rule: bump_file_cases [of other c "m_files m"])
    case absent
    then show ?thesis using m by (simp add: RecordFileName_def record_file_locked_def kMaxFiles_def)
  next
    case (found us f vs)
    have "f \<in> set (m_files m)" using found(1) by simp
    then have "f = ?row" unfolding m by simp
    then have "length (take 79 name) = length other" using found(2) unfolding file_key_def by (metis FileSlot.select_convs(1) length_map)
    then show ?thesis using assms o by simp
  qed
  then show ?thesis using r by (simp add: min_def)
qed

theorem long_names_fill_the_table_witness:
  "m_files (record_files (replicate 3 (replicate 90 CHR ''x'', 1)) map_view_init) =
   replicate 3 \<lparr>fs_name = replicate 79 CHR ''x'', fs_viewCount = 1, fs_totalBytes = 1\<rparr>"
  using long_names_fill_the_table [of "replicate 90 CHR ''x''" 3 1 "[]" 0] by simp

end
