(* ===== verification/Modules.thy ===== *)
theory Modules
  imports Prelude "HOL-Library.Sublist"
begin

section \<open>Who is calling: modules, caller classes and heaps\<close>

text \<open>
  The first part of \<open>WorkingHooks.cpp\<close>: matching of module names, the cache of caller modules
  with their graphics and audio flags, the table of heaps with their first caller, and the
  classification of a captured stack.  The loader's answers (\<open>GetModuleHandleExA\<close>,
  \<open>GetModuleInformation\<close>, \<open>GetModuleBaseNameA\<close>, \<open>GetModuleFileNameA\<close>) are a parameter, a
  captured stack is an argument, and the per-thread cache of the last heap is part of the state.
\<close>

subsection \<open>Module names\<close>

fun match_at :: "string \<Rightarrow> string \<Rightarrow> bool" where
  "match_at [] h = True"
| "match_at (b # bs) [] = False"
| "match_at (b # bs) (a # as) = (lower a = lower b \<and> match_at bs as)"

fun contains_from :: "string \<Rightarrow> string \<Rightarrow> bool" where
  "contains_from [] needle = False"
| "contains_from (c # cs) needle = (match_at needle (c # cs) \<or> contains_from cs needle)"

definition StringContainsI :: "string \<Rightarrow> string \<Rightarrow> bool" where
  "StringContainsI haystack needle = (needle = [] \<or> contains_from haystack needle)"

definition IsCorralModule :: "string \<Rightarrow> bool" where
  "IsCorralModule m = False"

definition graphics_names :: "string list" where
  "graphics_names = [''d3d9.dll'', ''dxgi.dll'', ''opengl32.dll'', ''vulkan-1.dll'', ''nvd3dum'', ''nvwgf2um'',
     ''nvoglv'', ''nvldumd'', ''nvumdshim'', ''atidxx'', ''atidx9'', ''AMDXN32'', ''amdxc32'', ''amdihk'',
     ''igd10'', ''igdumd'']"

definition IsGraphicsModule :: "string \<Rightarrow> bool" where
  "IsGraphicsModule m = (m \<noteq> [] \<and> list_ex (StringContainsI m) graphics_names)"

definition audio_names :: "string list" where
  "audio_names = [''dsound'', ''audioses'', ''mmdevapi'', ''wdmaud'', ''winmm'', ''msacm'', ''midimap'', ''avrt'',
     ''msdmo'', ''resampledmo'', ''audioeng'']"

definition IsAudioModule :: "string \<Rightarrow> bool" where
  "IsAudioModule m = (m \<noteq> [] \<and> list_ex (StringContainsI m) audio_names)"

text \<open>
  The loader: the module that owns an address, a module's range (base and \<open>SizeOfImage\<close>), its
  base name and its file name (empty where the call fails).
\<close>

record loader =
  ld_module :: "u32 \<Rightarrow> u32 option"
  ld_info :: "u32 \<Rightarrow> (u32 \<times> u32) option"
  ld_basename :: "u32 \<Rightarrow> string"
  ld_filename :: "u32 \<Rightarrow> string"

subsection \<open>The cache of caller modules\<close>

record CallerModRange =
  cm_base :: u32
  cm_end :: u32
  cm_gfx :: bool
  cm_audio :: bool

definition kCallerModMax :: nat where "kCallerModMax = 256"

text \<open>\<open>s_callerMods\<close> up to \<open>s_callerModCount\<close>.\<close>

type_synonym caller_mods = "CallerModRange list"

definition in_range :: "u32 \<Rightarrow> CallerModRange \<Rightarrow> bool" where
  "in_range a r \<longleftrightarrow> cm_base r \<le> a \<and> a < cm_end r"

text \<open>\<open>csInit\<close> is \<open>s_diagCSInit\<close>.\<close>

definition CallerIsGraphicsModule :: "loader \<Rightarrow> bool \<Rightarrow> u32 \<Rightarrow> caller_mods \<Rightarrow> bool \<times> caller_mods" where
  "CallerIsGraphicsModule ld csInit ra mods =
     (if ra = 0 \<or> \<not> csInit then (False, mods)
      else case find (in_range ra) mods of
        Some r \<Rightarrow> (cm_gfx r, mods)
      | None \<Rightarrow>
          (case ld_module ld ra of
             None \<Rightarrow> (False, mods)
           | Some h \<Rightarrow>
               (case ld_info ld h of
                  None \<Rightarrow> (False, mods)
                | Some (base, isize) \<Rightarrow>
                    (let name = take 63 (ld_basename ld h);
                         gfx = IsGraphicsModule name;
                         aud = IsAudioModule name;
                         known = list_ex (\<lambda>r. cm_base r = base) mods
                     in (gfx,
                         if \<not> known \<and> length mods < kCallerModMax
                         then mods @ [\<lparr>cm_base = base, cm_end = base + isize, cm_gfx = gfx, cm_audio = aud\<rparr>]
                         else mods)))))"

definition CallerIsAudioModule :: "loader \<Rightarrow> bool \<Rightarrow> u32 \<Rightarrow> caller_mods \<Rightarrow> bool \<times> caller_mods" where
  "CallerIsAudioModule ld csInit ra mods =
     (if ra = 0 \<or> \<not> csInit then (False, mods)
      else case find (in_range ra) mods of
        Some r \<Rightarrow> (cm_audio r, mods)
      | None \<Rightarrow>
          (let mods = snd (CallerIsGraphicsModule ld csInit ra mods)
           in case find (in_range ra) mods of
                Some r \<Rightarrow> (cm_audio r, mods)
              | None \<Rightarrow> (False, mods)))"

subsection \<open>Heaps by their first caller\<close>

record HeapUseRec =
  hu_handle :: u32
  hu_count :: u64
  hu_bytes :: u64
  hu_module :: string
  hu_corralTarget :: bool
  hu_sardineExclude :: bool

definition kHeapUseMax :: nat where "kHeapUseMax = 128"

text \<open>
  \<open>s_heapUse\<close> up to \<open>s_heapUseCount\<close>, and the calling thread's \<open>t_lastHeapHandle\<close> with
  \<open>t_lastHeapSlot\<close> (\<open>None\<close> for -1).
\<close>

type_synonym heap_use = "HeapUseRec list"
type_synonym last_heap = "u32 \<times> nat option"

definition count_use :: "nat \<Rightarrow> u32 \<Rightarrow> heap_use \<Rightarrow> heap_use" where
  "count_use i sz t =
     t[i := (t ! i)\<lparr>hu_count := hu_count (t ! i) + 1, hu_bytes := hu_bytes (t ! i) + ucast sz\<rparr>]"

fun find_heap :: "nat \<Rightarrow> u32 \<Rightarrow> heap_use \<Rightarrow> nat option" where
  "find_heap i h [] = None"
| "find_heap i h (r # rs) = (if hu_handle r = h then Some i else find_heap (Suc i) h rs)"

text \<open>The record of a heap seen for the first time.\<close>

definition new_heap :: "loader \<Rightarrow> u32 \<Rightarrow> u32 \<Rightarrow> HeapUseRec" where
  "new_heap ld h retAddr =
     (let m = (if retAddr = 0 then [] else case ld_module ld retAddr of None \<Rightarrow> [] | Some md \<Rightarrow> take 39 (ld_basename ld md));
          name = (if m = [] then ''<?>'' else m)
      in \<lparr>hu_handle = h, hu_count = 0, hu_bytes = 0, hu_module = name, hu_corralTarget = IsCorralModule name,
          hu_sardineExclude = (IsGraphicsModule name \<or> IsAudioModule name)\<rparr>)"

definition RecordHeapUse ::
  "loader \<Rightarrow> bool \<Rightarrow> u32 \<Rightarrow> u32 \<Rightarrow> u32 \<Rightarrow> heap_use \<times> last_heap \<Rightarrow> bool \<times> heap_use \<times> last_heap"
where
  "RecordHeapUse ld csInit heap sz retAddr s =
     (case s of (t, lh, ls) \<Rightarrow>
        if heap = 0 \<or> \<not> csInit then (False, t, lh, ls)
        else case (if heap = lh then ls else None) of
          Some i \<Rightarrow> (hu_corralTarget (t ! i), count_use i sz t, lh, ls)
        | None \<Rightarrow>
            (case find_heap 0 heap t of
               Some i \<Rightarrow> (hu_corralTarget (t ! i), count_use i sz t, heap, Some i)
             | None \<Rightarrow>
                 if length t < kHeapUseMax
                 then (let i = length t; t = t @ [new_heap ld heap retAddr]
                       in (hu_corralTarget (t ! i), count_use i sz t, heap, Some i))
                 else (False, t, lh, ls)))"

definition HeapIsSardineExcluded :: "bool \<Rightarrow> u32 \<Rightarrow> heap_use \<times> last_heap \<Rightarrow> bool" where
  "HeapIsSardineExcluded csInit heap s =
     (case s of (t, lh, ls) \<Rightarrow>
        if heap = 0 \<or> \<not> csInit then False
        else case (if heap = lh then ls else None) of
          Some i \<Rightarrow> hu_sardineExclude (t ! i)
        | None \<Rightarrow> (case find_heap 0 heap t of Some i \<Rightarrow> hu_sardineExclude (t ! i) | None \<Rightarrow> False))"

text \<open>The rows of the dump: handle, allocations, MB, first caller.\<close>

definition DumpHeapUsage :: "heap_use \<Rightarrow> (u32 \<times> int \<times> int \<times> string) list" where
  "DumpHeapUsage t =
     map (\<lambda>r. (hu_handle r, sint (hu_count r), sint (hu_bytes r) div (1024 * 1024), hu_module r)) t"

subsection \<open>Classes of callers\<close>

datatype AllocCallerKind = GameExe | Graphics | RuntimeDll | SystemDll | ModDll | Unknown

definition is_game_exe :: "string \<Rightarrow> bool" where
  "is_game_exe b = (StringContainsI b ''TS3W.exe'' \<or> StringContainsI b ''TS3.exe'' \<or> StringContainsI b ''Game_Win32.exe'')"

definition is_runtime :: "string \<Rightarrow> bool" where
  "is_runtime b = (StringContainsI b ''msvcr'' \<or> StringContainsI b ''msvcp'' \<or> StringContainsI b ''vcruntime'' \<or> StringContainsI b ''ucrtbase'')"

text \<open>The base name of a frame's module, as \<open>GetModuleFileNameA\<close> into a \<open>MAX_PATH\<close> buffer gives it.\<close>

definition frame_base :: "loader \<Rightarrow> u32 \<Rightarrow> string option" where
  "frame_base ld a =
     (case ld_module ld a of None \<Rightarrow> None
      | Some h \<Rightarrow> (let path = take 259 (ld_filename ld h) in if path = [] then None else Some (base_name path)))"

text \<open>The walk: the class, and the base names copied to the caller's buffer in turn.\<close>

fun classify_frames :: "loader \<Rightarrow> u32 list \<Rightarrow> AllocCallerKind \<times> string list" where
  "classify_frames ld [] = (SystemDll, [])"
| "classify_frames ld (a # rest) =
     (if a = 0 then (SystemDll, [])
      else case frame_base ld a of
        None \<Rightarrow> classify_frames ld rest
      | Some b \<Rightarrow>
          if is_game_exe b then (GameExe, [b])
          else if is_runtime b then (RuntimeDll, [b])
          else if StringContainsI b ''TS3VASManager'' then (case classify_frames ld rest of (k, ns) \<Rightarrow> (k, b # ns))
          else if StringContainsI b ''.asi'' then (ModDll, [b])
          else if IsGraphicsModule b then (Graphics, [b])
          else (case classify_frames ld rest of (k, ns) \<Rightarrow> (k, b # ns)))"

text \<open>
  The class and the name left in a buffer of \<open>cap\<close> bytes; \<open>None\<close> when \<open>strcpy_s\<close> would overflow it,
  which ends the process.
\<close>

definition ClassifyCallerModule :: "loader \<Rightarrow> u32 list \<Rightarrow> u32 \<Rightarrow> nat \<Rightarrow> (AllocCallerKind \<times> string) option" where
  "ClassifyCallerModule ld stack returnAddress cap =
     (if returnAddress = 0 then Some (Unknown, [])
      else case classify_frames ld stack of
        (k, ns) \<Rightarrow> if list_ex (\<lambda>n. cap \<le> length n) ns then None else Some (k, if ns = [] then [] else last ns))"

definition IsProxyCandidate :: "AllocCallerKind \<Rightarrow> bool" where
  "IsProxyCandidate kind = (kind \<in> {GameExe, Graphics, RuntimeDll, SystemDll, ModDll})"

fun VaCallerBucketTag :: "AllocCallerKind \<Rightarrow> bool \<Rightarrow> string" where
  "VaCallerBucketTag kind True = ''Self''"
| "VaCallerBucketTag GameExe False = ''Game''"
| "VaCallerBucketTag Graphics False = ''Graphics''"
| "VaCallerBucketTag RuntimeDll False = ''Runtime''"
| "VaCallerBucketTag SystemDll False = ''System''"
| "VaCallerBucketTag ModDll False = ''Mod''"
| "VaCallerBucketTag Unknown False = ''Unknown''"

fun self_frames :: "loader \<Rightarrow> nat \<Rightarrow> bool \<Rightarrow> u32 list \<Rightarrow> bool" where
  "self_frames ld leading sawNonSelf [] = (leading \<ge> 3)"
| "self_frames ld leading sawNonSelf (a # rest) =
     (if a = 0 then leading \<ge> 3
      else case frame_base ld a of
        None \<Rightarrow> self_frames ld leading sawNonSelf rest
      | Some b \<Rightarrow>
          (let isSelf = StringContainsI b ''TS3VASManager''
           in if \<not> sawNonSelf
              then if isSelf then self_frames ld (Suc leading) False rest else self_frames ld leading True rest
              else isSelf \<or> self_frames ld leading True rest))"

definition IsSelfOnCurrentStack :: "loader \<Rightarrow> u32 list \<Rightarrow> bool" where
  "IsSelfOnCurrentStack ld stack = self_frames ld 0 False stack"

text \<open>
  The originating frame of a reserve: the first game frame, else the first frame outside our
  DLL and the C runtime.  The result is the frame, its module's name and its offset there
  (frame 0 for null).
\<close>

definition frame_offset :: "loader \<Rightarrow> u32 \<Rightarrow> u32 \<Rightarrow> u32" where
  "frame_offset ld h a = (case ld_info ld h of None \<Rightarrow> 0 | Some (base, isize) \<Rightarrow> a - base)"

fun originator :: "loader \<Rightarrow> (u32 \<times> string \<times> u32) option \<Rightarrow> u32 list \<Rightarrow> u32 \<times> string \<times> u32" where
  "originator ld fb [] = (case fb of None \<Rightarrow> (0, [], 0) | Some f \<Rightarrow> f)"
| "originator ld fb (a # rest) =
     (if a = 0 then originator ld fb []
      else case ld_module ld a of
        None \<Rightarrow> originator ld fb rest
      | Some h \<Rightarrow>
          (let base = take 63 (ld_basename ld h)
           in if StringContainsI base ''TS3VASManager'' \<or> is_runtime base then originator ld fb rest
              else if is_game_exe base then (a, base, frame_offset ld h a)
              else originator ld (if fb = None then Some (a, base, frame_offset ld h a) else fb) rest))"

definition ResolveOriginatorFrame :: "loader \<Rightarrow> u32 list \<Rightarrow> u32 \<times> string \<times> u32" where
  "ResolveOriginatorFrame ld stack = originator ld None stack"

end
