(* ===== verification/ModulesProps.thy ===== *)
theory ModulesProps
  imports Modules
begin

section \<open>What the caller and heap tables answer\<close>

text \<open>
  Name matching is case-insensitive search for a substring; the module cache never changes an
  answer while it has room, and turns audio callers into ordinary ones when it is full; the
  heap table counts every allocation by heap and keeps the class of the heap's first caller.
\<close>

lemma match_at_prefix: "match_at n h \<longleftrightarrow> prefix (map lower n) (map lower h)"
  by (induction n h rule: match_at.induct) auto

lemma contains_from_sublist: "n \<noteq> [] \<Longrightarrow> contains_from h n \<longleftrightarrow> sublist (map lower n) (map lower h)"
proof (induction h)
  case (Cons c cs)
  have "prefix (map lower n) (map lower (c # cs)) \<or> sublist (map lower n) (map lower cs) \<longleftrightarrow>
    sublist (map lower n) (map lower (c # cs))"
    by (simp only: list.map sublist_Cons_right)
  then show ?case using Cons by (simp only: contains_from.simps match_at_prefix) blast
qed simp

lemma StringContainsI_sublist: "StringContainsI h n \<longleftrightarrow> sublist (map lower n) (map lower h)"
  by (cases "n = []") (simp_all add: StringContainsI_def contains_from_sublist)

subsection \<open>The module cache\<close>

text \<open>The loader is consistent: the range it reports for a module holds exactly the addresses the module owns.\<close>

definition loader_ok :: "loader \<Rightarrow> bool" where
  "loader_ok ld \<longleftrightarrow> (\<forall>a h. ld_module ld a = Some h \<longrightarrow>
     (\<exists>b n. ld_info ld h = Some (b, n) \<and> (\<forall>x. b \<le> x \<and> x < b + n \<longleftrightarrow> ld_module ld x = Some h)))"

definition cached_as :: "loader \<Rightarrow> u32 \<Rightarrow> CallerModRange \<Rightarrow> bool" where
  "cached_as ld h r \<longleftrightarrow> ld_info ld h = Some (cm_base r, cm_end r - cm_base r) \<and>
     (\<forall>x. in_range x r \<longleftrightarrow> ld_module ld x = Some h) \<and>
     cm_gfx r = IsGraphicsModule (take 63 (ld_basename ld h)) \<and>
     cm_audio r = IsAudioModule (take 63 (ld_basename ld h))"

text \<open>Every entry is right for its own module, and no module is entered twice.\<close>

definition mods_ok :: "loader \<Rightarrow> caller_mods \<Rightarrow> bool" where
  "mods_ok ld mods \<longleftrightarrow> (\<exists>hs. length hs = length mods \<and> distinct hs \<and> Some ` set hs \<subseteq> range (ld_module ld) \<and>
     list_all2 (cached_as ld) hs mods)"

lemma mods_ok_find:
  assumes ok: "mods_ok ld mods" and f: "find (in_range ra) mods = Some r"
  obtains h where "ld_module ld ra = Some h" "cached_as ld h r"
proof -
  obtain hs where hs: "list_all2 (cached_as ld) hs mods" using ok by (auto simp: mods_ok_def)
  have "r \<in> set mods" "in_range ra r" using f by (auto simp: find_Some_iff)
  then obtain h where "cached_as ld h r" using list_all2_right [OF hs] by blast
  then show ?thesis using that \<open>in_range ra r\<close> by (auto simp: cached_as_def)
qed

text \<open>The answer the caches should give.\<close>

definition caller_flag :: "loader \<Rightarrow> bool \<Rightarrow> u32 \<Rightarrow> bool" where
  "caller_flag ld audio ra = (ra \<noteq> 0 \<and> (case ld_module ld ra of None \<Rightarrow> False
     | Some h \<Rightarrow> (if audio then IsAudioModule else IsGraphicsModule) (take 63 (ld_basename ld h))))"

lemma cached_flag: "ld_module ld ra = Some h \<Longrightarrow> cached_as ld h r \<Longrightarrow> ra \<noteq> 0 \<Longrightarrow>
    cm_gfx r = caller_flag ld False ra \<and> cm_audio r = caller_flag ld True ra"
  by (simp add: caller_flag_def cached_as_def)

lemma gfx_query:
  assumes "loader_ok ld" "mods_ok ld mods" "CallerIsGraphicsModule ld True ra mods = (ans, mods')"
  shows "ans = caller_flag ld False ra \<and> mods_ok ld mods' \<and>
    (length mods < kCallerModMax \<longrightarrow> ra \<noteq> 0 \<longrightarrow> ld_module ld ra \<noteq> None \<longrightarrow> find (in_range ra) mods' \<noteq> None)"
proof (cases "ra = 0")
  case True
  then show ?thesis using assms by (simp add: CallerIsGraphicsModule_def caller_flag_def)
next
  case ra: False
  show ?thesis
  proof (cases "find (in_range ra) mods")
    case (Some r)
    then obtain h where "ld_module ld ra = Some h" "cached_as ld h r" using mods_ok_find [OF assms(2)] by metis
    then show ?thesis using assms(2,3) ra Some cached_flag by (simp add: CallerIsGraphicsModule_def)
  next
    case miss: None
    show ?thesis
    proof (cases "ld_module ld ra")
      case None
      then show ?thesis using assms(2,3) ra miss by (simp add: CallerIsGraphicsModule_def caller_flag_def)
    next
      case (Some h)
      then obtain b n where i: "ld_info ld h = Some (b, n)" "\<forall>x. b \<le> x \<and> x < b + n \<longleftrightarrow> ld_module ld x = Some h"
        using assms(1) Some unfolding loader_ok_def by blast
      let ?r = "\<lparr>cm_base = b, cm_end = b + n, cm_gfx = IsGraphicsModule (take 63 (ld_basename ld h)),
                 cm_audio = IsAudioModule (take 63 (ld_basename ld h))\<rparr>"
      have r: "cached_as ld h ?r" using i by (simp add: cached_as_def in_range_def)
      obtain hs where hs: "length hs = length mods" "distinct hs" "Some ` set hs \<subseteq> range (ld_module ld)"
        "list_all2 (cached_as ld) hs mods" using assms(2) by (auto simp: mods_ok_def)
      have notin: "h \<notin> set hs"
      proof
        assume "h \<in> set hs"
        then obtain q where "q \<in> set mods" "cached_as ld h q"
          using list_all2_left [OF hs(4)] by blast
        then have "q \<in> set mods" "in_range ra q" using Some by (auto simp: cached_as_def)
        then show False using miss by (auto simp: find_None_iff)
      qed
      have unknown: "\<not> list_ex (\<lambda>q. cm_base q = b) mods"
      proof
        assume "list_ex (\<lambda>q. cm_base q = b) mods"
        then obtain q where "q \<in> set mods" "cm_base q = b" by (auto simp: list_ex_iff)
        then obtain k where q: "k \<in> set hs" "cm_base q = b" "cached_as ld k q"
          using list_all2_right [OF hs(4)] by blast
        have "b \<le> ra" "ra < b + n" using i(2) Some by auto
        then have own: "ld_module ld b = Some h" using i(2) by (meson order_refl order_le_less_trans)
        obtain x where "ld_module ld x = Some k" using q(1) hs(3) by (metis image_subset_iff rangeE)
        then have "in_range x q" using q(3) by (simp add: cached_as_def)
        then have "in_range b q" using q(2) by (auto simp: in_range_def)
        then have "ld_module ld b = Some k" using q(3) by (simp add: cached_as_def)
        then show False using own q(1) notin by simp
      qed
      have res: "ans = caller_flag ld False ra"
        "mods' = (if length mods < kCallerModMax then mods @ [?r] else mods)"
        using assms(3) ra miss Some i(1) unknown by (auto simp: CallerIsGraphicsModule_def caller_flag_def Let_def)
      have "list_all2 (cached_as ld) (hs @ [h]) (mods @ [?r])" using hs(4) r by (simp add: list_all2_appendI)
      moreover have "Some ` set (hs @ [h]) \<subseteq> range (ld_module ld)" using hs(3) Some by (auto intro: rangeI) (metis rangeI)
      ultimately have "mods_ok ld (mods @ [?r])" using hs(1,2) notin unfolding mods_ok_def
        by (intro exI [of _ "hs @ [h]"]) simp
      moreover have "find (in_range ra) (mods @ [?r]) \<noteq> None"
      proof -
        have "in_range ra ?r" using i(2) Some by (simp add: in_range_def)
        then show ?thesis unfolding find_None_iff by (metis in_set_conv_decomp)
      qed
      ultimately show ?thesis using res assms(2) by simp
    qed
  qed
qed

lemma audio_query:
  assumes "loader_ok ld" "mods_ok ld mods" "CallerIsAudioModule ld True ra mods = (ans, mods')"
    "length mods < kCallerModMax \<or> ld_module ld ra = None \<or> find (in_range ra) mods \<noteq> None"
  shows "ans = caller_flag ld True ra \<and> mods_ok ld mods'"
proof (cases "ra = 0")
  case True
  then show ?thesis using assms by (simp add: CallerIsAudioModule_def caller_flag_def)
next
  case ra: False
  obtain g m1 where g: "CallerIsGraphicsModule ld True ra mods = (g, m1)" by (cases "CallerIsGraphicsModule ld True ra mods")
  note q = gfx_query [OF assms(1,2) g]
  show ?thesis
  proof (cases "find (in_range ra) mods")
    case (Some r)
    then obtain h where "ld_module ld ra = Some h" "cached_as ld h r" using mods_ok_find [OF assms(2)] by metis
    then show ?thesis using assms(2,3) ra Some cached_flag by (simp add: CallerIsAudioModule_def)
  next
    case None
    show ?thesis
    proof (cases "find (in_range ra) m1")
      case None': None
      then have "ld_module ld ra = None" using q assms(4) ra None by auto
      then show ?thesis using assms(3) ra None None' g q by (auto simp: CallerIsAudioModule_def caller_flag_def)
    next
      case (Some r)
      then obtain h where "ld_module ld ra = Some h" "cached_as ld h r" using mods_ok_find [of ld m1] q by metis
      then show ?thesis using assms(3) ra Some None g q cached_flag by (auto simp: CallerIsAudioModule_def)
    qed
  qed
qed

definition loaded :: "loader \<Rightarrow> u32 set" where
  "loaded ld = {h. Some h \<in> range (ld_module ld)}"

text \<open>With at most 256 modules the cache has room for every module it does not hold.\<close>

lemma mods_room:
  assumes ok: "mods_ok ld mods" and few: "finite (loaded ld)" "card (loaded ld) \<le> kCallerModMax"
  shows "length mods < kCallerModMax \<or> ld_module ld ra = None \<or> find (in_range ra) mods \<noteq> None"
proof (rule ccontr)
  assume "\<not> ?thesis"
  then obtain h where h: "kCallerModMax \<le> length mods" "ld_module ld ra = Some h" "find (in_range ra) mods = None"
    by auto
  obtain hs where hs: "length hs = length mods" "distinct hs" "Some ` set hs \<subseteq> range (ld_module ld)"
    "list_all2 (cached_as ld) hs mods" using ok by (auto simp: mods_ok_def)
  have "h \<notin> set hs"
  proof
    assume "h \<in> set hs"
    then obtain q where "q \<in> set mods" "cached_as ld h q"
      using list_all2_left [OF hs(4)] by blast
    then have "q \<in> set mods" "in_range ra q" using h(2) by (auto simp: cached_as_def)
    then show False using h(3) by (auto simp: find_None_iff)
  qed
  moreover have "insert h (set hs) \<subseteq> loaded ld" using hs(3) h(2) by (auto simp: loaded_def) (metis rangeI)
  then have "card (insert h (set hs)) \<le> card (loaded ld)" using few(1) by (rule card_mono [rotated])
  ultimately show False using hs(1,2) h(1) few(2) by (simp add: distinct_card)
qed

text \<open>A run of queries: graphics (\<open>False\<close>) or audio (\<open>True\<close>), each for a return address.\<close>

fun ask_all :: "loader \<Rightarrow> (bool \<times> u32) list \<Rightarrow> caller_mods \<Rightarrow> bool list" where
  "ask_all ld [] mods = []"
| "ask_all ld ((audio, ra) # qs) mods =
     (case (if audio then CallerIsAudioModule else CallerIsGraphicsModule) ld True ra mods of
        (ans, mods) \<Rightarrow> ans # ask_all ld qs mods)"

lemma ask_all_right:
  assumes "loader_ok ld" "finite (loaded ld)" "card (loaded ld) \<le> kCallerModMax"
  shows "mods_ok ld mods \<Longrightarrow> ask_all ld qs mods = map (\<lambda>(audio, ra). caller_flag ld audio ra) qs"
proof (induction qs arbitrary: mods)
  case (Cons q qs)
  obtain audio ra where q: "q = (audio, ra)" by (cases q)
  show ?case
  proof (cases audio)
    case True
    obtain ans m' where r: "CallerIsAudioModule ld True ra mods = (ans, m')" by (cases "CallerIsAudioModule ld True ra mods")
    show ?thesis using audio_query [OF assms(1) Cons.prems r mods_room [OF Cons.prems assms(2,3)]] Cons.IH r True
      by (simp add: q)
  next
    case False
    obtain ans m' where r: "CallerIsGraphicsModule ld True ra mods = (ans, m')" by (cases "CallerIsGraphicsModule ld True ra mods")
    show ?thesis using gfx_query [OF assms(1) Cons.prems r] Cons.IH r False by (simp add: q)
  qed
qed simp

text \<open>C24: With a consistent loader and at most 256 modules the lock-free module cache is invisible:
  every query in any run answers whether the module owning the return address, or none, is
  a graphics (an audio) module by its name.\<close>

theorem caller_cache_transparent:
  assumes "loader_ok ld" "finite (loaded ld)" "card (loaded ld) \<le> kCallerModMax"
  shows "ask_all ld qs [] = map (\<lambda>(audio, ra). caller_flag ld audio ra) qs"
  using ask_all_right [OF assms] by (simp add: mods_ok_def)

text \<open>One audio module and one graphics driver, loaded at two places.\<close>

definition demo_loader :: loader where
  "demo_loader = \<lparr>
     ld_module = (\<lambda>a. if 0x70000000 \<le> a \<and> a < 0x70010000 then Some 0x70000000
                      else if 0x71000000 \<le> a \<and> a < 0x71010000 then Some 0x71000000 else None),
     ld_info = (\<lambda>h. if h = 0x70000000 \<or> h = 0x71000000 then Some (h, 0x10000) else None),
     ld_basename = (\<lambda>h. if h = 0x70000000 then ''DSound'' else if h = 0x71000000 then ''igd10'' else []),
     ld_filename = (\<lambda>h. if h = 0x70000000 then ''DSound'' else if h = 0x71000000 then ''igd10'' else [])\<rparr>"

lemma demo_loader_ok: "loader_ok demo_loader"
  by (auto simp: loader_ok_def demo_loader_def word_le_nat_alt word_less_nat_alt)

lemma demo_loaded: "loaded demo_loader \<subseteq> {0x70000000, 0x71000000}"
  by (auto simp: loaded_def demo_loader_def split: if_splits)

lemma demo_loaded_few: "finite (loaded demo_loader)" "card (loaded demo_loader) \<le> kCallerModMax"
proof -
  show "finite (loaded demo_loader)" using demo_loaded by (rule finite_subset) simp
  have "card (loaded demo_loader) \<le> card {0x70000000, 0x71000000 :: u32}"
    by (rule card_mono [OF _ demo_loaded]) simp
  then show "card (loaded demo_loader) \<le> kCallerModMax" by (simp add: kCallerModMax_def)
qed

theorem caller_cache_transparent_witness:
  "ask_all demo_loader [(True, 0x70000010), (False, 0x71000010), (True, 0x71000020), (False, 0x10)] [] =
   [True, True, False, False]"
proof -
  have "caller_flag demo_loader True 0x70000010" by code_simp
  moreover have "caller_flag demo_loader False 0x71000010" by code_simp
  moreover have "\<not> caller_flag demo_loader True 0x71000020" by code_simp
  moreover have "\<not> caller_flag demo_loader False 0x10" by code_simp
  ultimately show ?thesis unfolding caller_cache_transparent [OF demo_loader_ok demo_loaded_few] by simp
qed

text \<open>Once the cache holds 256 modules, an audio caller of any further module is answered as an
  ordinary caller although its graphics question is still answered from its name: its
  allocations are no longer kept out of the arena.\<close>

theorem audio_caller_missed_when_full:
  assumes "kCallerModMax \<le> length mods" "find (in_range ra) mods = None" "ra \<noteq> 0"
    "ld_module ld ra = Some h" "ld_info ld h = Some (b, n)"
  shows "CallerIsAudioModule ld True ra mods = (False, mods) \<and>
    CallerIsGraphicsModule ld True ra mods = (IsGraphicsModule (take 63 (ld_basename ld h)), mods)"
  using assms by (simp add: CallerIsAudioModule_def CallerIsGraphicsModule_def Let_def)

definition full_mods :: caller_mods where
  "full_mods = map (\<lambda>i. \<lparr>cm_base = of_nat (i * 4096), cm_end = of_nat (i * 4096 + 4096), cm_gfx = False, cm_audio = False\<rparr>) [0..<256]"

theorem audio_caller_missed_when_full_witness:
  "CallerIsAudioModule demo_loader True 0x70000010 full_mods = (False, full_mods) \<and> caller_flag demo_loader True 0x70000010"
proof -
  have "find (in_range 0x70000010) full_mods = None"
    by (auto simp: find_None_iff full_mods_def in_range_def word_less_nat_alt unsigned_of_nat take_bit_nat_eq_self
        simp del: of_nat_add of_nat_mult of_nat_Suc)
  moreover have "kCallerModMax \<le> length full_mods" by (simp add: full_mods_def kCallerModMax_def)
  ultimately have "CallerIsAudioModule demo_loader True 0x70000010 full_mods = (False, full_mods)"
    using audio_caller_missed_when_full [of full_mods "0x70000010" demo_loader "0x70000000" "0x70000000" "0x10000"]
    by (simp add: demo_loader_def)
  moreover have "caller_flag demo_loader True 0x70000010" by code_simp
  ultimately show ?thesis by blast
qed

subsection \<open>The heap table\<close>

text \<open>Calls of any threads: thread, heap, size, return address; each thread has its own last heap.\<close>

type_synonym heap_call = "nat \<times> u32 \<times> u32 \<times> u32"
type_synonym heap_world = "heap_use \<times> (nat \<Rightarrow> last_heap)"

definition heap_step :: "loader \<Rightarrow> heap_call \<Rightarrow> heap_world \<Rightarrow> heap_world" where
  "heap_step ld c w =
     (case c of (th, heap, sz, ra) \<Rightarrow> case w of (t, tls) \<Rightarrow>
        case RecordHeapUse ld True heap sz ra (t, tls th) of (corral, t, lh) \<Rightarrow> (t, tls(th := lh)))"

definition heap_start :: heap_world where
  "heap_start = ([], \<lambda>th. (0, None))"

definition calls_of :: "u32 \<Rightarrow> heap_call list \<Rightarrow> heap_call list" where
  "calls_of h cs = filter (\<lambda>(th, heap, sz, ra). heap = h) cs"

definition heaps_of :: "heap_call list \<Rightarrow> u32 set" where
  "heaps_of cs = (\<lambda>(th, heap, sz, ra). heap) ` set cs"

text \<open>The row a heap should have: calls, bytes, and the class of its first caller.\<close>

definition heap_row :: "loader \<Rightarrow> u32 \<Rightarrow> heap_call list \<Rightarrow> HeapUseRec" where
  "heap_row ld h cs =
     (new_heap ld h (case hd (calls_of h cs) of (th, heap, sz, ra) \<Rightarrow> ra))
       \<lparr>hu_count := of_nat (length (calls_of h cs)),
        hu_bytes := sum_list (map (\<lambda>(th, heap, sz, ra). ucast sz) (calls_of h cs))\<rparr>"

definition heap_inv :: "loader \<Rightarrow> heap_call list \<Rightarrow> heap_world \<Rightarrow> bool" where
  "heap_inv ld cs w \<longleftrightarrow>
     distinct (map hu_handle (fst w)) \<and> set (fst w) = (\<lambda>h. heap_row ld h cs) ` heaps_of cs \<and>
     (\<forall>th i. snd (snd w th) = Some i \<longrightarrow> i < length (fst w) \<and> hu_handle (fst w ! i) = fst (snd w th))"

lemma heap_inv_last:
  assumes "heap_inv ld cs (t, tls)" "tls th = (lh, Some i)"
  shows "i < length t \<and> hu_handle (t ! i) = lh"
proof -
  have "\<forall>th i. snd (tls th) = Some i \<longrightarrow> i < length t \<and> hu_handle (t ! i) = fst (tls th)"
    using assms(1) by (simp add: heap_inv_def)
  from this [rule_format, of th i] show ?thesis by (simp add: assms(2))
qed

lemma heaps_of_finite: "finite (heaps_of cs)"
  by (simp add: heaps_of_def)

lemma heaps_of_mono: "set cs \<subseteq> set ds \<Longrightarrow> heaps_of cs \<subseteq> heaps_of ds"
  unfolding heaps_of_def by (rule image_mono)

lemma new_heap_handle [simp]: "hu_handle (new_heap ld h ra) = h"
  by (simp add: new_heap_def Let_def)

lemma heap_row_handle [simp]: "hu_handle (heap_row ld h cs) = h"
  by (simp add: heap_row_def)

lemma find_heap_Some:
  "find_heap k h t = Some i \<Longrightarrow> k \<le> i \<and> i < k + length t \<and> hu_handle (t ! (i - k)) = h"
  by (induction k h t rule: find_heap.induct) (auto split: if_splits simp: nth_Cons' Suc_diff_le)

lemma find_heap_None: "find_heap k h t = None \<longleftrightarrow> h \<notin> hu_handle ` set t"
  by (induction k h t rule: find_heap.induct) auto

lemma calls_of_snoc:
  "calls_of h (cs @ [(th, heap, sz, ra)]) = calls_of h cs @ (if heap = h then [(th, heap, sz, ra)] else [])"
  by (simp add: calls_of_def)

lemma heaps_of_snoc: "heaps_of (cs @ [(th, heap, sz, ra)]) = insert heap (heaps_of cs)"
  by (auto simp: heaps_of_def)

lemma calls_of_ne: "h \<in> heaps_of cs \<Longrightarrow> calls_of h cs \<noteq> []"
  by (force simp: heaps_of_def calls_of_def filter_empty_conv)

lemma calls_of_empty: "h \<notin> heaps_of cs \<Longrightarrow> calls_of h cs = []"
  by (force simp: heaps_of_def calls_of_def filter_empty_conv)

lemma heap_row_other: "heap \<noteq> h \<Longrightarrow> heap_row ld h (cs @ [(th, heap, sz, ra)]) = heap_row ld h cs"
  by (simp add: heap_row_def calls_of_snoc)

lemma heap_row_again:
  "heap \<in> heaps_of cs \<Longrightarrow> heap_row ld heap (cs @ [(th, heap, sz, ra)]) =
     (heap_row ld heap cs)\<lparr>hu_count := hu_count (heap_row ld heap cs) + 1,
                          hu_bytes := hu_bytes (heap_row ld heap cs) + ucast sz\<rparr>"
  using calls_of_ne [of heap cs] by (simp add: heap_row_def calls_of_snoc add.commute)

lemma heap_row_first:
  "heap \<notin> heaps_of cs \<Longrightarrow> heap_row ld heap (cs @ [(th, heap, sz, ra)]) =
     (new_heap ld heap ra)\<lparr>hu_count := hu_count (new_heap ld heap ra) + 1, hu_bytes := hu_bytes (new_heap ld heap ra) + ucast sz\<rparr>"
  using calls_of_empty [of heap cs] by (simp add: heap_row_def calls_of_snoc new_heap_def Let_def)

text \<open>Counting one more call in the row of its heap.\<close>

lemma count_use_inv:
  assumes inv: "heap_inv ld cs (t, tls)" and i: "i < length t" "hu_handle (t ! i) = heap"
  shows "heap_inv ld (cs @ [(th, heap, sz, ra)]) (count_use i sz t, tls(th := (heap, Some i)))"
proof -
  have d: "distinct (map hu_handle t)" and rows: "set t = (\<lambda>h. heap_row ld h cs) ` heaps_of cs"
    and lasts: "\<forall>th i. snd (tls th) = Some i \<longrightarrow> i < length t \<and> hu_handle (t ! i) = fst (tls th)"
    using inv by (simp_all add: heap_inv_def)
  have "t ! i \<in> (\<lambda>h. heap_row ld h cs) ` heaps_of cs" using i(1) rows nth_mem by blast
  then have row: "t ! i = heap_row ld heap cs" and hin: "heap \<in> heaps_of cs" using i(2) by auto
  let ?r = "heap_row ld heap (cs @ [(th, heap, sz, ra)])"
  have upd: "count_use i sz t = t[i := ?r]"
    by (simp add: count_use_def row heap_row_again [OF hin])
  have handles: "map hu_handle (t[i := ?r]) = map hu_handle t"
    using i by (simp add: map_update list_update_same_conv)
  have nth: "hu_handle (t[i := ?r] ! j) = hu_handle (t ! j)" for j using i by (cases "j = i") simp_all
  have "set (t[i := ?r]) = insert ?r (set t - {t ! i})"
    using set_update_distinct [OF _ i(1)] d by (simp add: distinct_map)
  also have "set t - {t ! i} = (\<lambda>h. heap_row ld h cs) ` (heaps_of cs - {heap})"
  proof -
    have "inj_on (\<lambda>h. heap_row ld h cs) (heaps_of cs)" by (rule inj_onI) (metis heap_row_handle)
    then show ?thesis unfolding rows row using hin by (simp add: inj_on_image_set_diff)
  qed
  also have "\<dots> = (\<lambda>h. heap_row ld h (cs @ [(th, heap, sz, ra)])) ` (heaps_of cs - {heap})"
    by (rule image_cong [OF refl], rule heap_row_other [symmetric]) auto
  finally have "set (t[i := ?r]) = (\<lambda>h. heap_row ld h (cs @ [(th, heap, sz, ra)])) ` heaps_of (cs @ [(th, heap, sz, ra)])"
    unfolding heaps_of_snoc by blast
  then show ?thesis
    using d lasts i unfolding heap_inv_def upd by (simp add: handles nth)
qed

lemma heap_step_inv:
  assumes inv: "heap_inv ld cs w" and h: "heap \<noteq> 0" and room: "card (heaps_of (cs @ [(th, heap, sz, ra)])) \<le> kHeapUseMax"
  shows "heap_inv ld (cs @ [(th, heap, sz, ra)]) (heap_step ld (th, heap, sz, ra) w)"
proof -
  obtain t tls where w: "w = (t, tls)" by (cases w)
  obtain lh ls where l: "tls th = (lh, ls)" by (cases "tls th")
  note inv' = inv [unfolded w]
  show ?thesis
  proof (cases "if heap = lh then ls else None")
    case (Some i)
    then have e: "heap = lh" "ls = Some i" by (auto split: if_splits)
    then have "i < length t" "hu_handle (t ! i) = heap" using heap_inv_last [OF inv'] l by auto
    moreover have "heap_step ld (th, heap, sz, ra) w = (count_use i sz t, tls(th := (heap, Some i)))"
      using e h by (simp add: heap_step_def w l RecordHeapUse_def)
    ultimately show ?thesis using count_use_inv [OF inv'] by simp
  next
    case miss: None
    show ?thesis
    proof (cases "find_heap 0 heap t")
      case (Some i)
      then have "i < length t" "hu_handle (t ! i) = heap" using find_heap_Some [OF Some] by simp_all
      moreover have "heap_step ld (th, heap, sz, ra) w = (count_use i sz t, tls(th := (heap, Some i)))"
        using miss Some h by (simp add: heap_step_def w l RecordHeapUse_def split del: if_split)
      ultimately show ?thesis using count_use_inv [OF inv'] by simp
    next
      case None
      have rows: "set t = (\<lambda>h. heap_row ld h cs) ` heaps_of cs" and d: "distinct (map hu_handle t)"
        and lasts: "\<forall>th i. snd (tls th) = Some i \<longrightarrow> i < length t \<and> hu_handle (t ! i) = fst (tls th)"
        using inv' by (simp_all add: heap_inv_def)
      have notin: "heap \<notin> heaps_of cs" using None rows by (auto simp: find_heap_None image_image)
      have "length t = card (heaps_of cs)"
      proof -
        have "length t = card (hu_handle ` set t)" using distinct_card [OF d] by simp
        then show ?thesis unfolding rows by (simp add: image_image)
      qed
      then have room': "length t < kHeapUseMax" using room notin by (simp add: heaps_of_snoc heaps_of_def)
      let ?r = "heap_row ld heap (cs @ [(th, heap, sz, ra)])"
      have step: "heap_step ld (th, heap, sz, ra) w = (t @ [?r], tls(th := (heap, Some (length t))))"
        using miss None h room'
        by (simp add: heap_step_def w l RecordHeapUse_def count_use_def heap_row_first [OF notin] split del: if_split)
      have "(\<lambda>h. heap_row ld h cs) ` heaps_of cs = (\<lambda>h. heap_row ld h (cs @ [(th, heap, sz, ra)])) ` heaps_of cs"
        by (rule image_cong [OF refl], rule heap_row_other [symmetric]) (use notin in auto)
      then have "set (t @ [?r]) = (\<lambda>h. heap_row ld h (cs @ [(th, heap, sz, ra)])) ` heaps_of (cs @ [(th, heap, sz, ra)])"
        using rows by (simp add: heaps_of_snoc)
      moreover have "heap \<notin> hu_handle ` set t" using None by (simp add: find_heap_None)
      ultimately show ?thesis using d lasts unfolding heap_inv_def step
        by (auto simp: nth_append less_Suc_eq)
    qed
  qed
qed

lemma heap_run_inv:
  "heap_inv ld cs w \<Longrightarrow> \<forall>(th, heap, sz, ra)\<in>set ds. heap \<noteq> 0 \<Longrightarrow> card (heaps_of (cs @ ds)) \<le> kHeapUseMax \<Longrightarrow>
   heap_inv ld (cs @ ds) (fold (heap_step ld) ds w)"
proof (induction ds arbitrary: cs w)
  case (Cons d ds)
  obtain th heap sz ra where d: "d = (th, heap, sz, ra)" by (cases d) auto
  have "card (heaps_of (cs @ [d])) \<le> card (heaps_of (cs @ d # ds))" by (intro card_mono heaps_of_mono heaps_of_finite) auto
  then have "card (heaps_of (cs @ [d])) \<le> kHeapUseMax" using Cons.prems(3) by simp
  then have "heap_inv ld (cs @ [d]) (heap_step ld d w)"
    using heap_step_inv [OF Cons.prems(1)] Cons.prems(2) by (auto simp: d)
  then show ?case using Cons.IH [of "cs @ [d]" "heap_step ld d w"] Cons.prems(2,3) by simp
qed simp

text \<open>Allocations of any threads in any order over at most 128 heaps: the table has exactly one
  row per heap with the number and the bytes of its allocations and the class of its first
  caller, whatever the threads' caches of their last heap hold, and the sardine exclusion
  answers by that first caller.\<close>

theorem heap_use_exact:
  assumes "\<forall>(th, heap, sz, ra)\<in>set cs. heap \<noteq> 0" "card (heaps_of cs) \<le> kHeapUseMax" "heap \<in> heaps_of cs"
  shows "set (fst (fold (heap_step ld) cs heap_start)) = (\<lambda>h. heap_row ld h cs) ` heaps_of cs \<and>
    distinct (map hu_handle (fst (fold (heap_step ld) cs heap_start))) \<and>
    HeapIsSardineExcluded True heap (fst (fold (heap_step ld) cs heap_start), snd (fold (heap_step ld) cs heap_start) th) =
      hu_sardineExclude (heap_row ld heap cs)"
proof -
  obtain t tls where w: "fold (heap_step ld) cs heap_start = (t, tls)" by (cases "fold (heap_step ld) cs heap_start")
  have "heap_inv ld [] heap_start" by (simp add: heap_inv_def heap_start_def heaps_of_def)
  then have inv: "heap_inv ld cs (t, tls)" using heap_run_inv [of ld "[]" heap_start cs] assms(1,2) w by simp
  have rows: "set t = (\<lambda>h. heap_row ld h cs) ` heaps_of cs" using inv by (simp add: heap_inv_def)
  have nz: "heap \<noteq> 0" using assms(1,3) by (auto simp: heaps_of_def)
  have row: "t ! i = heap_row ld heap cs" if i: "i < length t" "hu_handle (t ! i) = heap" for i
    using nth_mem [OF i(1)] i(2) unfolding rows by auto
  obtain lh ls where l: "tls th = (lh, ls)" by (cases "tls th")
  have "HeapIsSardineExcluded True heap (t, tls th) = hu_sardineExclude (heap_row ld heap cs)"
  proof (cases "if heap = lh then ls else None")
    case (Some i)
    then have "i < length t" "hu_handle (t ! i) = heap" using heap_inv_last [OF inv] l by (auto split: if_splits)
    then show ?thesis using row Some nz l by (simp add: HeapIsSardineExcluded_def)
  next
    case None
    have "find_heap 0 heap t \<noteq> None" using assms(3) rows by (auto simp: find_heap_None image_image)
    then obtain i where f: "find_heap 0 heap t = Some i" by auto
    then have "i < length t" "hu_handle (t ! i) = heap" using find_heap_Some [OF f] by simp_all
    then show ?thesis using row None nz l f by (simp add: HeapIsSardineExcluded_def split del: if_split)
  qed
  then show ?thesis using inv by (simp add: w heap_inv_def)
qed

definition demo_heap_calls :: "heap_call list" where
  "demo_heap_calls = [(1, 0x10000, 100, 0x71000010), (2, 0x10000, 50, 0x400010), (2, 0x20000, 8, 0x400010)]"

theorem heap_use_exact_witness:
  "HeapIsSardineExcluded True 0x10000 (fst (fold (heap_step demo_loader) demo_heap_calls heap_start),
     snd (fold (heap_step demo_loader) demo_heap_calls heap_start) 2)"
proof -
  have h: "heaps_of demo_heap_calls = {0x10000, 0x20000}" by (auto simp: heaps_of_def demo_heap_calls_def)
  have "calls_of 0x10000 demo_heap_calls = [(1, 0x10000, 100, 0x71000010), (2, 0x10000, 50, 0x400010)]"
    by (simp add: calls_of_def demo_heap_calls_def)
  then have "heap_row demo_loader 0x10000 demo_heap_calls =
     (new_heap demo_loader 0x10000 0x71000010)\<lparr>hu_count := of_nat 2, hu_bytes := ucast (100 :: u32) + ucast (50 :: u32)\<rparr>"
    by (simp add: heap_row_def)
  moreover have "hu_sardineExclude (new_heap demo_loader 0x10000 0x71000010)" by code_simp
  ultimately have "hu_sardineExclude (heap_row demo_loader 0x10000 demo_heap_calls)" by simp
  then show ?thesis
    using heap_use_exact [of demo_heap_calls "0x10000" demo_loader 2] h
    by (simp add: kHeapUseMax_def) (simp add: demo_heap_calls_def)
qed

end
