(* ===== verification/LocalVas.thy ===== *)
theory LocalVas
  imports Modules ProbeTable
begin

section \<open>Attribution of allocations and local reserves\<close>

text \<open>
  \<open>WorkingHooks.cpp\<close>: the callsite report of large heap allocations, the tally of address
  space the game still reserves outside the arena (by caller class, and by originating frame in
  a table of 64 interlocked slots), the five largest local reservers of the report, and the mix
  counters of \<open>VirtualAlloc\<close>.  Counters of \<open>Analytics\<close> are results: the list of increments
  (name and amount) in the order they are made.
\<close>

type_synonym increments = "(string \<times> u64) list"

subsection \<open>The callsite report\<close>

record RtlAllocReportStats =
  totalLargeAllocs :: u64
  gameExeAllocs :: u64
  graphicsAllocs :: u64
  runtimeDllAllocs :: u64
  systemDllAllocs :: u64
  modDllAllocs :: u64
  unknownAllocs :: u64
  proxyCandidates :: u64
  skippedRuntimeDll :: u64
  skippedGraphics :: u64
  skippedSystemDll :: u64
  skippedModDll :: u64
  skippedUnknown :: u64
  captured :: u64
  captureFailed :: u64
  observedBeforeActive :: u64
  bytesGameExe :: u64
  bytesGraphics :: u64
  bytesRuntimeDll :: u64
  bytesSystemDll :: u64
  bytesModDll :: u64
  bytesUnknown :: u64

definition report_stats_init :: RtlAllocReportStats where
  "report_stats_init = \<lparr>totalLargeAllocs = 0, gameExeAllocs = 0, graphicsAllocs = 0, runtimeDllAllocs = 0,
     systemDllAllocs = 0, modDllAllocs = 0, unknownAllocs = 0, proxyCandidates = 0, skippedRuntimeDll = 0,
     skippedGraphics = 0, skippedSystemDll = 0, skippedModDll = 0, skippedUnknown = 0, captured = 0,
     captureFailed = 0, observedBeforeActive = 0, bytesGameExe = 0, bytesGraphics = 0, bytesRuntimeDll = 0,
     bytesSystemDll = 0, bytesModDll = 0, bytesUnknown = 0\<rparr>"

fun bucket_of ::
  "AllocCallerKind \<Rightarrow> u32 \<Rightarrow> string \<Rightarrow> RtlAllocReportStats \<Rightarrow> RtlAllocReportStats \<times> increments"
where
  "bucket_of GameExe sz m r =
     (r\<lparr>gameExeAllocs := gameExeAllocs r + 1, bytesGameExe := bytesGameExe r + ucast sz\<rparr>,
      [(''RtlAlloc_ByModule_TS3W'', 1)])"
| "bucket_of Graphics sz m r =
     (r\<lparr>graphicsAllocs := graphicsAllocs r + 1, bytesGraphics := bytesGraphics r + ucast sz\<rparr>,
      (''RtlAlloc_ByModule_Graphics'', 1) #
      (if StringContainsI m ''d3d9'' then [(''RtlAlloc_ByModule_d3d9'', 1)] else []))"
| "bucket_of RuntimeDll sz m r =
     (r\<lparr>runtimeDllAllocs := runtimeDllAllocs r + 1, bytesRuntimeDll := bytesRuntimeDll r + ucast sz\<rparr>,
      [(''RtlAlloc_ByModule_RuntimeDll'', 1)])"
| "bucket_of SystemDll sz m r =
     (r\<lparr>systemDllAllocs := systemDllAllocs r + 1, bytesSystemDll := bytesSystemDll r + ucast sz\<rparr>,
      [(''RtlAlloc_ByModule_SystemDll'', 1)])"
| "bucket_of ModDll sz m r =
     (r\<lparr>modDllAllocs := modDllAllocs r + 1, bytesModDll := bytesModDll r + ucast sz\<rparr>,
      [(''RtlAlloc_ByModule_ModDll'', 1)])"
| "bucket_of Unknown sz m r =
     (r\<lparr>unknownAllocs := unknownAllocs r + 1, bytesUnknown := bytesUnknown r + ucast sz,
        skippedUnknown := skippedUnknown r + 1\<rparr>,
      [(''RtlAlloc_ByModule_unknown'', 1), (''RtlAlloc_ProxySkipped_Unknown'', 1)])"

definition RecordCallerBucket ::
  "AllocCallerKind \<Rightarrow> u32 \<Rightarrow> string \<Rightarrow> RtlAllocReportStats \<Rightarrow> RtlAllocReportStats \<times> increments"
where
  "RecordCallerBucket kind sz m r =
     (let r = r\<lparr>totalLargeAllocs := totalLargeAllocs r + 1\<rparr>
      in case bucket_of kind sz m r of
        (r, incs) \<Rightarrow>
          if IsProxyCandidate kind
          then (r\<lparr>proxyCandidates := proxyCandidates r + 1\<rparr>, incs @ [(''RtlAlloc_ProxyCandidate'', 1)])
          else (r, incs))"

text \<open>The four lines of \<open>ReportAllocCallsites\<close>, as the numbers they print.\<close>

definition in_mib :: "u64 \<Rightarrow> int" where
  "in_mib w = (if sint w < 0 then - (- sint w div (1024 * 1024)) else sint w div (1024 * 1024))"

definition ReportAllocCallsites :: "RtlAllocReportStats \<Rightarrow> int list list" where
  "ReportAllocCallsites r =
     [map sint [totalLargeAllocs r, proxyCandidates r, captured r, captureFailed r, observedBeforeActive r],
      map sint [gameExeAllocs r, graphicsAllocs r, runtimeDllAllocs r, systemDllAllocs r, modDllAllocs r, unknownAllocs r],
      map in_mib [bytesGameExe r, bytesGraphics r, bytesRuntimeDll r, bytesSystemDll r, bytesModDll r, bytesUnknown r],
      map sint [skippedGraphics r, skippedRuntimeDll r, skippedSystemDll r, skippedModDll r, skippedUnknown r]]"

subsection \<open>Local reserves\<close>

record LocalVasSourceStats =
  reserveCalls :: u64
  reserveBytes :: u64
  reserveFailedCalls :: u64
  reserveFailedBytes :: u64
  byGraphicsBytes :: u64
  byRuntimeBytes :: u64
  byGameBytes :: u64
  bySystemBytes :: u64
  byModBytes :: u64
  byUnknownBytes :: u64

record LocalVasCallerStat =
  lc_addr :: u32
  lc_calls :: u64
  lc_bytes :: u64

definition kLocalVasCallerSlots :: nat where "kLocalVasCallerSlots = 64"

type_synonym caller_stats = "LocalVasCallerStat list"

definition local_vas_init :: LocalVasSourceStats where
  "local_vas_init = \<lparr>reserveCalls = 0, reserveBytes = 0, reserveFailedCalls = 0, reserveFailedBytes = 0,
     byGraphicsBytes = 0, byRuntimeBytes = 0, byGameBytes = 0, bySystemBytes = 0, byModBytes = 0, byUnknownBytes = 0\<rparr>"

definition caller_stats_init :: caller_stats where
  "caller_stats_init = replicate kLocalVasCallerSlots \<lparr>lc_addr = 0, lc_calls = 0, lc_bytes = 0\<rparr>"

definition caller_index :: "u32 \<Rightarrow> nat \<Rightarrow> nat" where
  "caller_index a i = (unat (drop_bit 4 a) mod kLocalVasCallerSlots + i) mod kLocalVasCallerSlots"

text \<open>The probe of \<open>TrackLocalVasCaller\<close> when no other thread interferes: the slot it counts in.\<close>

fun claim_caller :: "nat \<Rightarrow> nat \<Rightarrow> u32 \<Rightarrow> caller_stats \<Rightarrow> nat option \<times> caller_stats" where
  "claim_caller 0 i key t = (None, t)"
| "claim_caller (Suc n) i key t =
     (let idx = caller_index key i
      in if lc_addr (t ! idx) = key then (Some idx, t)
         else if lc_addr (t ! idx) = 0 then (Some idx, t[idx := (t ! idx)\<lparr>lc_addr := key\<rparr>])
         else claim_caller n (Suc i) key t)"

definition find_caller :: "u32 \<Rightarrow> caller_stats \<Rightarrow> nat option \<times> caller_stats" where
  "find_caller key t = claim_caller kLocalVasCallerSlots 0 key t"

definition TrackLocalVasCaller :: "u32 \<Rightarrow> u32 \<Rightarrow> caller_stats \<Rightarrow> caller_stats" where
  "TrackLocalVasCaller callerAddr sz t =
     (if callerAddr = 0 then t
      else case find_caller callerAddr t of
        (None, t) \<Rightarrow> t
      | (Some i, t) \<Rightarrow> t[i := (t ! i)\<lparr>lc_calls := lc_calls (t ! i) + 1, lc_bytes := lc_bytes (t ! i) + ucast sz\<rparr>])"

text \<open>
  The same walk among threads, one interlocked operation per step: about to read slot \<open>i\<close>, or
  about to exchange it because it was free, or done with the slot it counts in.  A lost exchange
  goes on to the next slot whoever won it.
\<close>

datatype tc_pc = TcReading nat | TcExchanging nat | TcCounting nat | TcGaveUp

fun tc_local :: "u32 \<Rightarrow> tc_pc \<Rightarrow> (nat \<Rightarrow> u32) \<Rightarrow> tc_pc \<times> (nat \<Rightarrow> u32)" where
  "tc_local key (TcReading i) t =
     (if i \<ge> kLocalVasCallerSlots then (TcGaveUp, t)
      else if t (caller_index key i) = key then (TcCounting (caller_index key i), t)
      else if t (caller_index key i) = 0 then (TcExchanging i, t)
      else (TcReading (Suc i), t))"
| "tc_local key (TcExchanging i) t =
     (if t (caller_index key i) = 0 then (TcCounting (caller_index key i), t(caller_index key i := key))
      else (TcReading (Suc i), t))"
| "tc_local key pc t = (pc, t)"

inductive tc_reach :: "(nat \<Rightarrow> u32) \<Rightarrow> (nat \<Rightarrow> u32) \<Rightarrow> (nat \<Rightarrow> tc_pc) \<Rightarrow> bool" for key where
  tc_start: "tc_reach key (\<lambda>i. 0) (\<lambda>th. TcReading 0)"
| tc_step: "tc_reach key t pcs \<Longrightarrow> tc_local (key th) (pcs th) t = (pc, t') \<Longrightarrow> tc_reach key t' (pcs(th := pc))"

fun add_by_kind :: "AllocCallerKind \<Rightarrow> u32 \<Rightarrow> LocalVasSourceStats \<Rightarrow> LocalVasSourceStats" where
  "add_by_kind Graphics sz s = s\<lparr>byGraphicsBytes := byGraphicsBytes s + ucast sz\<rparr>"
| "add_by_kind RuntimeDll sz s = s\<lparr>byRuntimeBytes := byRuntimeBytes s + ucast sz\<rparr>"
| "add_by_kind GameExe sz s = s\<lparr>byGameBytes := byGameBytes s + ucast sz\<rparr>"
| "add_by_kind SystemDll sz s = s\<lparr>bySystemBytes := bySystemBytes s + ucast sz\<rparr>"
| "add_by_kind ModDll sz s = s\<lparr>byModBytes := byModBytes s + ucast sz\<rparr>"
| "add_by_kind Unknown sz s = s\<lparr>byUnknownBytes := byUnknownBytes s + ucast sz\<rparr>"

definition IsExecProtect :: "u32 \<Rightarrow> bool" where
  "IsExecProtect protect = (protect AND (0x10 OR 0x20 OR 0x40 OR 0x80) \<noteq> 0)"

definition reserve_flags :: "u32 \<Rightarrow> u32 \<Rightarrow> bool \<Rightarrow> string" where
  "reserve_flags allocType protect fixedBase =
     (let f = (if allocType AND MEM_WRITE_WATCH \<noteq> 0 then ''ww,'' else []) @
              (if IsExecProtect protect then ''exec,'' else []) @
              (if allocType AND (MEM_PHYSICAL OR MEM_LARGE_PAGES) \<noteq> 0 then ''phys,'' else []) @
              (if fixedBase then ''fixedbase,'' else [])
      in if f = [] then ''plain'' else f)"

text \<open>
  \<open>stack\<close> is the function's own capture, \<open>cstack\<close> the one inside \<open>ClassifyCallerModule\<close>.  The
  result has the \<open>RESERVE_CTX\<close> line of a reserve of 1 MB or more: class, module, offset, KB, flags.
\<close>

definition RecordLocalVasReserve ::
  "loader \<Rightarrow> u32 list \<Rightarrow> u32 list \<Rightarrow> u32 \<Rightarrow> bool \<Rightarrow> u32 \<Rightarrow> u32 \<Rightarrow> bool \<Rightarrow> LocalVasSourceStats \<times> caller_stats \<Rightarrow>
     (LocalVasSourceStats \<times> caller_stats) \<times> (AllocCallerKind \<times> string \<times> u32 \<times> u32 \<times> string) option"
where
  "RecordLocalVasReserve ld stack cstack sz failed allocType protect fixedBase w =
     (case w of (s, t) \<Rightarrow>
        let s = s\<lparr>reserveCalls := reserveCalls s + 1, reserveBytes := reserveBytes s + ucast sz\<rparr>;
            s = (if failed
                 then s\<lparr>reserveFailedCalls := reserveFailedCalls s + 1, reserveFailedBytes := reserveFailedBytes s + ucast sz\<rparr>
                 else s);
            frame0 = (if stack = [] then 0 else stack ! 0)
        in case ResolveOriginatorFrame ld stack of
          (origin, originMod, originOff) \<Rightarrow>
            let origin = (if origin = 0 then frame0 else origin);
                t = TrackLocalVasCaller origin sz t;
                kind = (case ClassifyCallerModule ld cstack frame0 260 of None \<Rightarrow> Unknown | Some (k, m) \<Rightarrow> k);
                s = add_by_kind kind sz s
            in ((s, t),
                if sz \<ge> 1024 * 1024
                then Some (kind, if originMod = [] then ''<unknown>'' else originMod, originOff, sz div 1024,
                           reserve_flags allocType protect fixedBase)
                else None))"

subsection \<open>The largest local reservers\<close>

record TopEntry =
  te_addr :: u32
  te_bytes :: int
  te_calls :: int

fun top_insert :: "TopEntry \<Rightarrow> TopEntry list \<Rightarrow> TopEntry list" where
  "top_insert e [] = []"
| "top_insert e (x # xs) = (if te_bytes e > te_bytes x then e # butlast (x # xs) else x # top_insert e xs)"

definition top_start :: "TopEntry list" where
  "top_start = replicate 5 \<lparr>te_addr = 0, te_bytes = 0, te_calls = 0\<rparr>"

definition top_candidates :: "caller_stats \<Rightarrow> TopEntry list" where
  "top_candidates t =
     filter (\<lambda>e. te_bytes e > 0)
       (map (\<lambda>c. \<lparr>te_addr = lc_addr c, te_bytes = sint (lc_bytes c), te_calls = sint (lc_calls c)\<rparr>)
         (filter (\<lambda>c. lc_addr c \<noteq> 0) t))"

definition top_five :: "caller_stats \<Rightarrow> TopEntry list" where
  "top_five t = filter (\<lambda>e. te_addr e \<noteq> 0 \<and> te_bytes e > 0) (fold top_insert (top_candidates t) top_start)"

text \<open>The lines of \<open>ReportLocalVasSources\<close>: two of numbers, then one per top entry with module and offset.\<close>

definition top_module :: "loader \<Rightarrow> u32 \<Rightarrow> string \<times> u32" where
  "top_module ld a =
     (case ld_module ld a of None \<Rightarrow> (''<unknown>'', 0) | Some h \<Rightarrow> (take 259 (ld_basename ld h), frame_offset ld h a))"

definition ReportLocalVasSources ::
  "loader \<Rightarrow> LocalVasSourceStats \<times> caller_stats \<Rightarrow> int list \<times> int list \<times> (string \<times> u32 \<times> int \<times> int \<times> u32) list"
where
  "ReportLocalVasSources ld w =
     (case w of (s, t) \<Rightarrow>
        ([sint (reserveCalls s), in_mib (reserveBytes s), sint (reserveFailedCalls s), in_mib (reserveFailedBytes s)],
         map in_mib [byGraphicsBytes s, byRuntimeBytes s, byGameBytes s, bySystemBytes s, byModBytes s, byUnknownBytes s],
         map (\<lambda>e. case top_module ld (te_addr e) of (m, off) \<Rightarrow> (m, off, te_calls e, te_bytes e div (1024 * 1024), te_addr e))
           (top_five t)))"

text \<open>The snapshot for the heartbeat: counts and bytes by class.\<close>

record RtlAllocSnapshot =
  sn_captured :: u64
  sn_captureFailed :: u64
  sn_bytesByModule :: "u64 list"
  sn_capturedBytes :: u64
  sn_localVasReserveBytes :: u64
  sn_localVasByModule :: "u64 list"

definition CaptureAllocSnapshot :: "RtlAllocReportStats \<Rightarrow> LocalVasSourceStats \<Rightarrow> RtlAllocSnapshot" where
  "CaptureAllocSnapshot r s =
     \<lparr>sn_captured = captured r, sn_captureFailed = captureFailed r,
      sn_bytesByModule = [bytesGameExe r, bytesGraphics r, bytesRuntimeDll r, bytesSystemDll r, bytesModDll r, bytesUnknown r],
      sn_capturedBytes = bytesGameExe r + bytesGraphics r + bytesRuntimeDll r,
      sn_localVasReserveBytes = reserveBytes s,
      sn_localVasByModule = [byGameBytes s, byGraphicsBytes s, byRuntimeBytes s, bySystemBytes s, byModBytes s, byUnknownBytes s]\<rparr>"

subsection \<open>The mix of VirtualAlloc calls\<close>

definition va_prefix :: "u32 \<Rightarrow> string" where
  "va_prefix allocType =
     (if allocType AND MEM_RESERVE \<noteq> 0 \<and> allocType AND MEM_COMMIT = 0 then ''ReserveOnly''
      else if allocType AND MEM_COMMIT \<noteq> 0 \<and> allocType AND MEM_RESERVE = 0 then ''CommitOnly''
      else ''ReserveCommit'')"

text \<open>\<open>stack\<close> and \<open>cstack\<close> are the captures of the self test and of the classification, \<open>ra\<close> the return address.\<close>

definition RecordVaMixCounters ::
  "loader \<Rightarrow> u32 list \<Rightarrow> u32 list \<Rightarrow> u32 \<Rightarrow> u32 \<Rightarrow> u32 \<Rightarrow> u32 \<Rightarrow> increments"
where
  "RecordVaMixCounters ld stack cstack ra sz allocType protect =
     (if sz = 0 then []
      else let kind = va_prefix allocType;
               isSelf = IsSelfOnCurrentStack ld stack;
               callerKind = (case ClassifyCallerModule ld cstack ra 260 of None \<Rightarrow> Unknown | Some (k, m) \<Rightarrow> k);
               bucket = VaCallerBucketTag callerKind isSelf
           in [(''VAS_VA_Call_Total'', 1), (''VAS_VA_'' @ kind @ ''_Count'', 1), (''VAS_VA_Bytes_'' @ kind, ucast sz),
               (''VAS_VA_'' @ kind @ ''_'' @ bucket @ ''_Count'', 1), (''VAS_VA_'' @ kind @ ''_'' @ bucket @ ''_Bytes'', ucast sz)] @
              (if IsExecProtect protect
               then [(''VAS_VA_ExecProtect_Count'', 1), (''VAS_VA_ExecProtect_Bytes'', ucast sz),
                     (''VAS_VA_ExecProtect_'' @ bucket @ ''_Count'', 1), (''VAS_VA_ExecProtect_'' @ bucket @ ''_Bytes'', ucast sz)]
               else []))"

text \<open>Whether \<open>LogRoGameContext\<close> writes its line for a reserve-only call.\<close>

definition LogRoGameContext :: "loader \<Rightarrow> u32 list \<Rightarrow> u32 list \<Rightarrow> u32 \<Rightarrow> u32 \<Rightarrow> u32 \<Rightarrow> bool" where
  "LogRoGameContext ld stack cstack ra sz allocType =
     (allocType AND MEM_RESERVE \<noteq> 0 \<and> allocType AND MEM_COMMIT = 0 \<and> sz \<ge> 4 * 1024 \<and>
      \<not> IsSelfOnCurrentStack ld stack \<and>
      (case ClassifyCallerModule ld cstack ra 260 of Some (GameExe, m) \<Rightarrow> True | _ \<Rightarrow> False))"

end
