(* ===== verification/LocalVasProps.thy ===== *)
theory LocalVasProps
  imports LocalVas
begin

section \<open>What the attribution tables show\<close>

text \<open>
  Every large allocation falls into one class; without interference a caller keeps one slot,
  but two threads of one caller can take two; and the report's five rows are the five largest.
\<close>

subsection \<open>The callsite report\<close>

definition class_sum :: "RtlAllocReportStats \<Rightarrow> u64" where
  "class_sum r = gameExeAllocs r + graphicsAllocs r + runtimeDllAllocs r + systemDllAllocs r + modDllAllocs r + unknownAllocs r"

definition class_bytes :: "RtlAllocReportStats \<Rightarrow> u64" where
  "class_bytes r = bytesGameExe r + bytesGraphics r + bytesRuntimeDll r + bytesSystemDll r + bytesModDll r + bytesUnknown r"

definition record_buckets :: "(AllocCallerKind \<times> u32 \<times> string) list \<Rightarrow> RtlAllocReportStats \<Rightarrow> RtlAllocReportStats" where
  "record_buckets cs r = fold (\<lambda>(k, sz, m) r. fst (RecordCallerBucket k sz m r)) cs r"

lemma RecordCallerBucket_sums:
  "totalLargeAllocs (fst (RecordCallerBucket k sz m r)) = totalLargeAllocs r + 1"
  "class_sum (fst (RecordCallerBucket k sz m r)) = class_sum r + 1"
  "class_bytes (fst (RecordCallerBucket k sz m r)) = class_bytes r + ucast sz"
  "proxyCandidates (fst (RecordCallerBucket k sz m r)) = proxyCandidates r + of_bool (k \<noteq> Unknown)"
  by (cases k; simp add: RecordCallerBucket_def IsProxyCandidate_def class_sum_def class_bytes_def)+

text \<open>In any run of large allocations the six class counters add up to the total, the six byte
  counters to the bytes, and the proxy candidates are those of a known class.\<close>

theorem callsite_report_balances:
  "totalLargeAllocs (record_buckets cs report_stats_init) = of_nat (length cs) \<and>
   class_sum (record_buckets cs report_stats_init) = totalLargeAllocs (record_buckets cs report_stats_init) \<and>
   class_bytes (record_buckets cs report_stats_init) = sum_list (map (\<lambda>(k, sz, m). ucast sz) cs) \<and>
   proxyCandidates (record_buckets cs report_stats_init) = of_nat (length (filter (\<lambda>(k, sz, m). k \<noteq> Unknown) cs))"
proof -
  have "totalLargeAllocs (record_buckets cs r) = totalLargeAllocs r + of_nat (length cs) \<and>
    class_sum (record_buckets cs r) = class_sum r + of_nat (length cs) \<and>
    class_bytes (record_buckets cs r) = class_bytes r + sum_list (map (\<lambda>(k, sz, m). ucast sz) cs) \<and>
    proxyCandidates (record_buckets cs r) =
      proxyCandidates r + of_nat (length (filter (\<lambda>(k, sz, m). k \<noteq> Unknown) cs))" for r
  proof (induction cs arbitrary: r)
    case Nil
    then show ?case by (simp add: record_buckets_def)
  next
    case (Cons c cs)
    obtain k sz m where c: "c = (k, sz, m)" by (cases c) auto
    have run: "record_buckets (c # cs) r = record_buckets cs (fst (RecordCallerBucket k sz m r))"
      by (simp add: record_buckets_def c)
    show ?case unfolding run using Cons.IH [of "fst (RecordCallerBucket k sz m r)"]
      by (simp add: c RecordCallerBucket_sums)
  qed
  from this [of report_stats_init] show ?thesis
    by (simp add: report_stats_init_def class_sum_def class_bytes_def)
qed

subsection \<open>One slot per caller\<close>

definition caller_key :: "caller_stats \<Rightarrow> nat \<Rightarrow> u32" where
  "caller_key t i = (if i < length t then lc_addr (t ! i) else 0)"

definition callers_good :: "caller_stats \<Rightarrow> bool" where
  "callers_good t \<longleftrightarrow> length t = kLocalVasCallerSlots"

lemma caller_index_lt: "caller_index k p < kLocalVasCallerSlots"
  by (simp add: caller_index_def kLocalVasCallerSlots_def)

lemma caller_key_index: "callers_good t \<Longrightarrow> caller_key t (caller_index k p) = lc_addr (t ! caller_index k p)"
  using caller_index_lt [of k p] by (simp add: caller_key_def callers_good_def)

lemma claim_caller_walk:
  assumes "\<forall>q<d. caller_key t (caller_index k q) \<noteq> 0 \<and> caller_key t (caller_index k q) \<noteq> k" "callers_good t"
  shows "claim_caller (n + d) 0 k t = claim_caller n d k t"
  using assms(1)
proof (induction d arbitrary: n)
  case (Suc d)
  have "claim_caller (n + Suc d) 0 k t = claim_caller (Suc n) d k t" using Suc.IH [of "Suc n"] Suc.prems by simp
  also have "\<dots> = claim_caller n (Suc d) k t"
    using Suc.prems [rule_format, of d] assms(2) by (simp add: Let_def caller_key_index)
  finally show ?case .
qed simp

lemma find_caller_walk:
  assumes "\<forall>q<p. caller_key t (caller_index k q) \<noteq> 0 \<and> caller_key t (caller_index k q) \<noteq> k" "callers_good t"
    "p < kLocalVasCallerSlots"
  shows "find_caller k t =
     (if lc_addr (t ! caller_index k p) = k then (Some (caller_index k p), t)
      else if lc_addr (t ! caller_index k p) = 0
      then (Some (caller_index k p), t[caller_index k p := (t ! caller_index k p)\<lparr>lc_addr := k\<rparr>])
      else claim_caller (kLocalVasCallerSlots - Suc p) (Suc p) k t)"
proof -
  have "kLocalVasCallerSlots = Suc (kLocalVasCallerSlots - Suc p) + p" using assms(3) by simp
  then have "claim_caller kLocalVasCallerSlots 0 k t = claim_caller (Suc (kLocalVasCallerSlots - Suc p)) p k t"
    using claim_caller_walk [OF assms(1,2), of "Suc (kLocalVasCallerSlots - Suc p)"] by simp
  then show ?thesis by (simp add: find_caller_def Let_def)
qed

interpretation callers: probe_table caller_key 0 caller_index kLocalVasCallerSlots find_caller callers_good
proof (unfold_locales, goal_cases)
  case (1 t k p)
  then show ?case using find_caller_walk [OF 1(4,1,3)] by (simp add: caller_key_index)
next
  case (2 t k p)
  have "find_caller k t = (Some (caller_index k p), t[caller_index k p := (t ! caller_index k p)\<lparr>lc_addr := k\<rparr>])"
    using find_caller_walk [OF 2(4,1,3)] 2 by (simp add: caller_key_index)
  then show ?case using 2(1) caller_index_lt [of k p] by (auto simp: callers_good_def caller_key_def nth_list_update)
next
  case (3 t k)
  then show ?case using claim_caller_walk [of kLocalVasCallerSlots t k 0] by (simp add: find_caller_def)
qed

lemma TrackLocalVasCaller_placed:
  assumes "callers.placed t"
  shows "callers.placed (TrackLocalVasCaller a sz t)"
proof (cases "a = 0")
  case True
  then show ?thesis using assms by (simp add: TrackLocalVasCaller_def)
next
  case False
  have p: "callers.placed (snd (find_caller a t))" by (rule callers.placed_find [OF assms False])
  obtain r u where f: "find_caller a t = (r, u)" by (cases "find_caller a t")
  show ?thesis
  proof (cases r)
    case None
    then show ?thesis using p f False by (simp add: TrackLocalVasCaller_def)
  next
    case (Some i)
    let ?v = "u[i := (u ! i)\<lparr>lc_calls := lc_calls (u ! i) + 1, lc_bytes := lc_bytes (u ! i) + ucast sz\<rparr>]"
    have key: "caller_key ?v j = caller_key u j" for j by (cases "j = i") (simp_all add: caller_key_def)
    have "callers.placed ?v"
      using p unfolding f snd_conv callers.placed_def callers.passed_def key by (simp add: callers_good_def)
    then show ?thesis using f Some False by (simp add: TrackLocalVasCaller_def)
  qed
qed

lemma callers_init: "callers.placed caller_stats_init"
proof -
  have k: "caller_key caller_stats_init i = 0" for i by (simp add: caller_key_def caller_stats_init_def)
  show ?thesis unfolding callers.placed_def k by (simp add: callers_good_def caller_stats_init_def)
qed

text \<open>Called one after the other, the tracker gives every caller one slot: in no run do two slots
  hold the same address.\<close>

theorem callers_unique_in_sequence:
  "distinct (map lc_addr (filter (\<lambda>c. lc_addr c \<noteq> 0) (fold (\<lambda>(a, sz). TrackLocalVasCaller a sz) cs caller_stats_init)))"
proof -
  have p: "callers.placed (fold (\<lambda>(a, sz). TrackLocalVasCaller a sz) cs caller_stats_init)"
    by (rule fold_invariant [where Q = "\<lambda>_. True"]) (auto simp: callers_init TrackLocalVasCaller_placed)
  show ?thesis
  proof (rule distinct_map_nonfree, intro allI impI)
    fix i j
    let ?t = "fold (\<lambda>(a, sz). TrackLocalVasCaller a sz) cs caller_stats_init"
    assume "i < length ?t" "j < length ?t" "lc_addr (?t ! i) = lc_addr (?t ! j)" "lc_addr (?t ! i) \<noteq> 0"
    then show "i = j" using callers.placed_unique [OF p, of i j] by (simp add: caller_key_def)
  qed
qed

text \<open>Among threads this fails: when two threads of one caller both find its first slot free, the
  one that loses the exchange does not look at who won, and takes the next slot for the same
  address.  The caller's bytes are then split over two rows of the report.\<close>

theorem caller_race_takes_two_slots:
  assumes "k \<noteq> 0"
  shows "\<exists>t pcs. tc_reach (\<lambda>th. k) t pcs \<and> pcs 0 = TcCounting (caller_index k 0) \<and> pcs 1 = TcCounting (caller_index k 1) \<and>
    t (caller_index k 0) = k \<and> t (caller_index k 1) = k \<and> caller_index k 0 \<noteq> caller_index k 1"
proof -
  let ?i = "caller_index k"
  have ne: "?i 0 \<noteq> ?i 1"
  proof -
    have "(x + 0) mod 64 \<noteq> (x + 1) mod 64" for x :: nat by (simp add: mod_Suc)
    from this [of "unat (drop_bit 4 k) mod 64"] show ?thesis unfolding caller_index_def kLocalVasCallerSlots_def .
  qed
  have s: "0 < kLocalVasCallerSlots" "1 < kLocalVasCallerSlots" by (simp_all add: kLocalVasCallerSlots_def)
  define p0 where "p0 = (\<lambda>th::nat. TcReading 0)"
  define p1 where "p1 = p0(0 := TcExchanging 0)"
  define p2 where "p2 = p1(1 := TcExchanging 0)"
  define p3 where "p3 = p2(0 := TcCounting (?i 0))"
  define p4 where "p4 = p3(1 := TcReading 1)"
  define p5 where "p5 = p4(1 := TcExchanging 1)"
  define p6 where "p6 = p5(1 := TcCounting (?i 1))"
  define t0 where "t0 = (\<lambda>i::nat. 0 :: u32)"
  define t1 where "t1 = t0(?i 0 := k)"
  define t2 where "t2 = t1(?i 1 := k)"
  have "tc_reach (\<lambda>th. k) t0 p0" unfolding t0_def p0_def by (rule tc_start)
  then have "tc_reach (\<lambda>th. k) t0 p1" unfolding p1_def
    by (rule tc_step [where th = 0]) (use assms s in \<open>simp add: p0_def t0_def\<close>)
  then have "tc_reach (\<lambda>th. k) t0 p2" unfolding p2_def
    by (rule tc_step [where th = 1]) (use assms s in \<open>simp add: p1_def p0_def t0_def\<close>)
  then have "tc_reach (\<lambda>th. k) t1 p3" unfolding p3_def
    by (rule tc_step [where th = 0]) (simp add: p2_def p1_def t1_def t0_def)
  then have "tc_reach (\<lambda>th. k) t1 p4" unfolding p4_def
    by (rule tc_step [where th = 1]) (use assms in \<open>simp add: p3_def p2_def t1_def\<close>)
  then have "tc_reach (\<lambda>th. k) t1 p5" unfolding p5_def
    by (rule tc_step [where th = 1]) (use assms s ne in \<open>simp add: p4_def t1_def t0_def\<close>)
  then have r: "tc_reach (\<lambda>th. k) t2 p6" unfolding p6_def
    by (rule tc_step [where th = 1]) (use ne in \<open>simp add: p5_def t2_def t1_def t0_def\<close>)
  have "p6 0 = TcCounting (?i 0)" "p6 1 = TcCounting (?i 1)"
    by (simp_all add: p6_def p5_def p4_def p3_def)
  moreover have "t2 (?i 0) = k" "t2 (?i 1) = k" using ne by (simp_all add: t2_def t1_def)
  ultimately show ?thesis using r ne by blast
qed

theorem caller_race_takes_two_slots_witness:
  "\<exists>t pcs. tc_reach (\<lambda>th. 0x401000) t pcs \<and> t (caller_index 0x401000 0) = 0x401000 \<and> t (caller_index 0x401000 1) = 0x401000"
  using caller_race_takes_two_slots [of "0x401000"] by auto

subsection \<open>The five largest\<close>

text \<open>Insertion behind equal keys without a bound, and the bounded insertion as its prefix.\<close>

fun insert_desc :: "TopEntry \<Rightarrow> TopEntry list \<Rightarrow> TopEntry list" where
  "insert_desc e [] = [e]"
| "insert_desc e (x # xs) = (if te_bytes e > te_bytes x then e # x # xs else x # insert_desc e xs)"

lemma top_insert_take: "top_insert e xs = take (length xs) (insert_desc e xs)"
  by (induction xs) (auto simp: butlast_conv_take)

lemma take_insert_desc: "take n (insert_desc e (take n xs)) = take n (insert_desc e xs)"
proof (induction xs arbitrary: n)
  case (Cons x xs)
  show ?case by (cases n) (auto simp: Cons.IH take_Cons')
qed simp

lemma insert_desc_sorted: "sorted (map (\<lambda>e. - te_bytes e) xs) \<Longrightarrow> sorted (map (\<lambda>e. - te_bytes e) (insert_desc e xs))"
proof (induction xs)
  case (Cons x xs)
  have s: "set (insert_desc e xs) = insert e (set xs)" by (induction xs) auto
  show ?case using Cons by (auto simp: s)
qed simp

lemma insert_desc_mset: "mset (insert_desc e xs) = add_mset e (mset xs)"
  by (induction xs) auto

lemma insert_desc_filter:
  "sorted (map (\<lambda>e. - te_bytes e) xs) \<Longrightarrow>
   filter (\<lambda>x. k = - te_bytes x) (insert_desc e xs) = filter (\<lambda>x. k = - te_bytes x) (xs @ [e])"
proof (induction xs)
  case (Cons x xs)
  show ?case
  proof (cases "te_bytes x < te_bytes e")
    case True
    then have "\<forall>y\<in>set (x # xs). te_bytes y < te_bytes e" using Cons.prems by fastforce
    then have "k = - te_bytes e \<Longrightarrow> filter (\<lambda>x. k = - te_bytes x) (x # xs) = []" by (auto simp: filter_empty_conv)
    then show ?thesis using True by (cases "k = - te_bytes e") simp_all
  next
    case False
    have "sorted (map (\<lambda>e. - te_bytes e) xs)" using Cons.prems by simp
    from Cons.IH [OF this] False show ?thesis
      by (simp only: insert_desc.simps if_False filter.simps append_Cons if_cancel)
  qed
qed simp

abbreviation by_bytes :: "TopEntry list \<Rightarrow> TopEntry list" where
  "by_bytes xs \<equiv> sort_key (\<lambda>e. - te_bytes e) xs"

lemma insert_desc_sort: "insert_desc e (by_bytes xs) = by_bytes (xs @ [e])"
proof (rule properties_for_sort_key [symmetric])
  show "mset (insert_desc e (by_bytes xs)) = mset (xs @ [e])" by (simp add: insert_desc_mset)
  show "sorted (map (\<lambda>e. - te_bytes e) (insert_desc e (by_bytes xs)))" by (rule insert_desc_sorted) simp
  show "filter (\<lambda>x. - te_bytes k = - te_bytes x) (insert_desc e (by_bytes xs)) =
      filter (\<lambda>x. - te_bytes k = - te_bytes x) (xs @ [e])" for k
  proof -
    have "filter (\<lambda>x. - te_bytes k = - te_bytes x) (by_bytes xs) = filter (\<lambda>x. - te_bytes k = - te_bytes x) xs"
      unfolding eq_commute [of "- te_bytes k"] by (rule sort_key_stable)
    then show ?thesis by (subst insert_desc_filter) simp_all
  qed
qed

lemma fold_top_insert:
  "length ys = 5 \<Longrightarrow> \<forall>z\<in>set zs. te_bytes z = 0 \<Longrightarrow> ys = take 5 (by_bytes (old @ zs)) \<Longrightarrow> 5 \<le> length zs \<Longrightarrow>
   \<forall>x\<in>set xs. 0 < te_bytes x \<Longrightarrow> \<forall>x\<in>set old. 0 < te_bytes x \<Longrightarrow>
   fold top_insert xs ys = take 5 (by_bytes ((old @ xs) @ zs))"
proof (induction xs arbitrary: old ys)
  case (Cons x xs)
  have "by_bytes (old @ zs @ [x]) = by_bytes ((old @ [x]) @ zs)"
  proof (rule properties_for_sort_key)
    fix k assume "k \<in> set (by_bytes ((old @ [x]) @ zs))"
    have "filter (\<lambda>e. - te_bytes k = - te_bytes e) (by_bytes ((old @ [x]) @ zs)) =
        filter (\<lambda>e. - te_bytes k = - te_bytes e) ((old @ [x]) @ zs)"
      unfolding eq_commute [of "- te_bytes k"] by (rule sort_key_stable)
    moreover have "te_bytes k = te_bytes x \<Longrightarrow> filter (\<lambda>e. te_bytes k = te_bytes e) zs = []"
      using Cons.prems(2,5) by (auto simp: filter_empty_conv)
    ultimately show "filter (\<lambda>e. - te_bytes k = - te_bytes e) (by_bytes ((old @ [x]) @ zs)) =
        filter (\<lambda>e. - te_bytes k = - te_bytes e) (old @ zs @ [x])" by auto
  qed simp_all
  then have "top_insert x ys = take 5 (by_bytes ((old @ [x]) @ zs))"
    using Cons.prems(1,3) by (simp add: top_insert_take take_insert_desc insert_desc_sort)
  then show ?case using Cons.IH [of "top_insert x ys" "old @ [x]"] Cons.prems(2,4,5,6) by simp
qed simp

lemma sort_positive_zero:
  assumes "\<forall>x\<in>set xs. 0 < te_bytes x" "\<forall>z\<in>set zs. te_bytes z = 0"
  shows "by_bytes (xs @ zs) = by_bytes xs @ zs"
proof (rule properties_for_sort_key)
  show "mset (by_bytes xs @ zs) = mset (xs @ zs)" by simp
  have "sorted (map (\<lambda>e. - te_bytes e) zs)"
    using assms(2) by (induction zs) auto
  then show "sorted (map (\<lambda>e. - te_bytes e) (by_bytes xs @ zs))"
    using assms by (fastforce simp: sorted_append)
  fix k assume "k \<in> set (by_bytes xs @ zs)"
  have "filter (\<lambda>e. - te_bytes k = - te_bytes e) (by_bytes xs) = filter (\<lambda>e. - te_bytes k = - te_bytes e) xs"
    unfolding eq_commute [of "- te_bytes k"] by (rule sort_key_stable)
  then show "filter (\<lambda>e. - te_bytes k = - te_bytes e) (by_bytes xs @ zs) =
      filter (\<lambda>e. - te_bytes k = - te_bytes e) (xs @ zs)" by simp
qed

text \<open>The rows of the local-reserve report are the five callers with the most bytes, largest
  first and earlier slots first among equals.\<close>

theorem top_five_exact:
  "top_five t = take 5 (sort_key (\<lambda>e. - te_bytes e) (top_candidates t))"
proof -
  let ?c = "top_candidates t"
  have pos: "\<forall>x\<in>set ?c. 0 < te_bytes x" by (auto simp: top_candidates_def)
  have z: "\<forall>z\<in>set top_start. te_bytes z = 0" by (simp add: top_start_def)
  have nz: "\<forall>x\<in>set ?c. te_addr x \<noteq> 0" by (auto simp: top_candidates_def)
  have l: "length top_start = 5" by (simp add: top_start_def)
  have "by_bytes top_start = top_start" by (rule sort_key_id_if_sorted) (simp add: top_start_def)
  then have "fold top_insert ?c top_start = take 5 (by_bytes (([] @ ?c) @ top_start))"
    by (intro fold_top_insert) (use pos z l in auto)
  then have "fold top_insert ?c top_start = take 5 (by_bytes ?c @ top_start)"
    using sort_positive_zero [OF pos z] by simp
  moreover have "filter (\<lambda>e. te_addr e \<noteq> 0 \<and> te_bytes e > 0) (take 5 (by_bytes ?c @ top_start)) = take 5 (by_bytes ?c)"
  proof -
    have "filter (\<lambda>e. te_addr e \<noteq> 0 \<and> te_bytes e > 0) (take 5 (by_bytes ?c)) = take 5 (by_bytes ?c)"
      using pos nz by (auto simp: filter_id_conv dest: in_set_takeD)
    moreover have "filter (\<lambda>e. te_addr e \<noteq> 0 \<and> te_bytes e > 0) (take n top_start) = []" for n
      using z by (auto simp: filter_empty_conv dest: in_set_takeD)
    ultimately show ?thesis by simp
  qed
  ultimately show ?thesis by (simp add: top_five_def)
qed

end
