(* ===== verification/SwapTables.thy ===== *)
theory SwapTables
  imports Modules
begin

section \<open>Tables with swap-removal\<close>

text \<open>
  \<open>WorkingHooks.cpp\<close> keeps two flat arrays under a lock: the redirected \<open>VirtualAlloc\<close> slots
  (\<open>VatTrack\<close>, \<open>VatUntrack\<close>) and the outstanding local reserves (\<open>RegisterDiagnosticAlloc\<close>,
  \<open>RemoveDiagnosticAlloc\<close>).  Both append, and remove by moving the last entry into the gap.
  Their common contract is the locale \<open>swap_table\<close>; inside it a run with fresh keys is shown to
  refine a finite map of bounded size, and both tables interpret it.
\<close>

text \<open>The entry at \<open>i\<close> removed: the last entry takes its place.\<close>

definition swap_remove :: "nat \<Rightarrow> 'a list \<Rightarrow> 'a list" where
  "swap_remove i xs = (if i < length xs - 1 then butlast (xs[i := last xs]) else butlast xs)"

fun find_index :: "nat \<Rightarrow> ('a \<Rightarrow> bool) \<Rightarrow> 'a list \<Rightarrow> nat option" where
  "find_index i P [] = None"
| "find_index i P (x # xs) = (if P x then Some i else find_index (Suc i) P xs)"

lemma find_index_None: "find_index i P xs = None \<longleftrightarrow> (\<forall>x\<in>set xs. \<not> P x)"
  by (induction i P xs rule: find_index.induct) auto

lemma find_index_Some: "find_index k P xs = Some i \<Longrightarrow> k \<le> i \<and> i < k + length xs \<and> P (xs ! (i - k))"
  by (induction k P xs rule: find_index.induct) (auto split: if_splits simp: nth_Cons' Suc_diff_le)

lemma mset_swap_remove: "i < length xs \<Longrightarrow> mset xs = add_mset (xs ! i) (mset (swap_remove i xs))"
proof (cases "i < length xs - 1")
  case True
  then have ne: "xs \<noteq> []" by auto
  obtain ys y where xs: "xs = ys @ [y]" using ne by (cases xs rule: rev_cases) auto
  have i: "i < length ys" using True xs by simp
  have "mset (ys[i := y]) = add_mset y (mset ys) - {#ys ! i#}"
    using i by (simp add: mset_update)
  moreover have "ys ! i \<in># mset ys" using i by simp
  ultimately show ?thesis using i True
    by (simp add: swap_remove_def xs nth_append list_update_append butlast_append)
next
  assume "i < length xs"
  case False
  then have i: "i = length xs - 1" and ne: "xs \<noteq> []" using \<open>i < length xs\<close> by auto
  then show ?thesis using False by (cases xs rule: rev_cases) (simp_all add: swap_remove_def)
qed

subsection \<open>The contract\<close>

locale swap_table =
  fixes add :: "'e \<Rightarrow> 't \<Rightarrow> 't"
    and grab :: "'k \<Rightarrow> 't \<Rightarrow> 'e option \<times> 't"
    and entries :: "'t \<Rightarrow> 'e multiset"
    and key :: "'e \<Rightarrow> 'k"
    and cap :: nat
  assumes add_room: "size (entries t) < cap \<Longrightarrow> entries (add e t) = add_mset e (entries t)"
    and add_full: "cap \<le> size (entries t) \<Longrightarrow> add e t = t"
    and grab_none: "\<forall>e\<in>#entries t. key e \<noteq> k \<Longrightarrow> grab k t = (None, t)"
    and grab_some: "e \<in># entries t \<Longrightarrow> key e = k \<Longrightarrow>
      \<exists>e' t'. grab k t = (Some e', t') \<and> key e' = k \<and> entries t = add_mset e' (entries t')"
begin

text \<open>The table holds the map \<open>m\<close>: its entries are the values of \<open>m\<close>, each once.\<close>

definition holds :: "'t \<Rightarrow> ('k \<Rightarrow> 'e option) \<Rightarrow> bool" where
  "holds t m \<longleftrightarrow> finite (dom m) \<and> (\<forall>k e. m k = Some e \<longrightarrow> key e = k) \<and> entries t = mset_set (ran m)"

lemma ran_inj: "(\<forall>k e. m k = Some e \<longrightarrow> key e = k) \<Longrightarrow> e \<in> ran m \<longleftrightarrow> m (key e) = Some e"
  by (auto simp: ran_def)

lemma card_ran: "finite (dom m) \<Longrightarrow> \<forall>k e. m k = Some e \<longrightarrow> key e = k \<Longrightarrow> card (ran m) = card (dom m)"
proof -
  assume "finite (dom m)" and k: "\<forall>k e. m k = Some e \<longrightarrow> key e = k"
  have "dom m = key ` ran m" using k by (force simp: dom_def ran_def)
  moreover have "inj_on key (ran m)" using ran_inj [OF k] by (intro inj_onI) (metis option.inject)
  ultimately show ?thesis by (simp add: card_image)
qed

lemma holds_size: "holds t m \<Longrightarrow> size (entries t) = card (dom m)"
  by (simp add: holds_def card_ran)

lemma holds_add:
  assumes "holds t m" "m (key e) = None"
  shows "holds (add e t) (if card (dom m) < cap then m(key e \<mapsto> e) else m)"
proof (cases "card (dom m) < cap")
  case True
  have "e \<notin> ran m" using assms by (auto simp: holds_def ran_def)
  moreover have "ran (m(key e \<mapsto> e)) = insert e (ran m)" using assms(2) by (rule ran_map_upd)
  moreover have "finite (ran m)" using assms(1) by (simp add: holds_def finite_ran)
  ultimately show ?thesis using assms True holds_size [OF assms(1)] by (simp add: holds_def add_room)
next
  case False
  then show ?thesis using assms holds_size [OF assms(1)] by (simp add: add_full)
qed

lemma holds_grab:
  assumes "holds t m"
  shows "fst (grab k t) = m k \<and> holds (snd (grab k t)) (m(k := None))"
proof (cases "m k")
  case None
  have "finite (ran m)" using assms by (simp add: holds_def finite_ran)
  then have "\<forall>e\<in>#entries t. key e \<noteq> k" using assms None by (auto simp: holds_def ran_def)
  moreover have "m(k := None) = m" using None by (simp add: fun_upd_idem)
  ultimately show ?thesis using assms None by (simp add: grab_none)
next
  case (Some e)
  have fin: "finite (ran m)" and keys: "\<forall>k e. m k = Some e \<longrightarrow> key e = k" and ent: "entries t = mset_set (ran m)"
    using assms by (simp_all add: holds_def finite_ran)
  have "e \<in># entries t" "key e = k" using Some keys fin by (auto simp: ent ran_def)
  then obtain e' t' where g: "grab k t = (Some e', t')" "key e' = k" "entries t = add_mset e' (entries t')"
    using grab_some by blast
  have "e' \<in># entries t" using g(3) by simp
  then have "e' \<in> ran m" using fin by (simp add: ent)
  then have e': "e' = e" using ran_inj [OF keys] g(2) Some by simp
  have "ran (m(k := None)) = ran m - {e}" 
  proof (rule set_eqI)
    fix x
    show "x \<in> ran (m(k := None)) \<longleftrightarrow> x \<in> ran m - {e}"
      using keys Some by (auto simp: ran_def) (metis option.inject)+
  qed
  then have "entries t' = mset_set (ran (m(k := None)))"
    using g(3) fin Some ent e' by (simp add: mset_set_Diff ranI)
  then show ?thesis using g(1) e' Some keys assms by (simp add: holds_def)
qed

end

subsection \<open>Redirected slots\<close>

definition kVatMax :: nat where "kVatMax = 8192"

text \<open>\<open>s_vatAddr\<close> and \<open>s_vatSize\<close> up to \<open>s_vatCount\<close>.\<close>

type_synonym vat_table = "(u32 \<times> u32) list"

definition VatTrack :: "u32 \<times> u32 \<Rightarrow> vat_table \<Rightarrow> vat_table" where
  "VatTrack e t = (if length t < kVatMax then t @ [e] else t)"

definition VatUntrack :: "u32 \<Rightarrow> vat_table \<Rightarrow> (u32 \<times> u32) option \<times> vat_table" where
  "VatUntrack addr t =
     (case find_index 0 (\<lambda>e. fst e = addr) t of
        None \<Rightarrow> (None, t)
      | Some i \<Rightarrow> (Some (t ! i), swap_remove i t))"

subsection \<open>Outstanding local reserves\<close>

definition kDiagMax :: nat where "kDiagMax = 8192"

record DiagnosticAllocRecord =
  da_address :: u32
  da_size :: u32
  da_retAddr :: u32
  da_allocTick :: u32
  da_moduleName :: string

type_synonym diag_table = "DiagnosticAllocRecord list"

definition diag_add :: "DiagnosticAllocRecord \<Rightarrow> diag_table \<Rightarrow> diag_table" where
  "diag_add e t = (if length t < kDiagMax then t @ [e] else t)"

text \<open>\<open>None\<close> when the module name does not fit its 64 bytes, which ends the process.\<close>

definition RegisterDiagnosticAlloc ::
  "loader \<Rightarrow> u32 list \<Rightarrow> bool \<Rightarrow> u32 \<Rightarrow> u32 \<Rightarrow> u32 \<Rightarrow> u32 \<Rightarrow> diag_table \<Rightarrow> diag_table option"
where
  "RegisterDiagnosticAlloc ld stack csInit tick address sz retAddr t =
     (if address = 0 \<or> sz = 0 \<or> \<not> csInit then Some t
      else case ClassifyCallerModule ld stack retAddr 64 of
        None \<Rightarrow> None
      | Some (k, m) \<Rightarrow>
          Some (diag_add \<lparr>da_address = address, da_size = sz, da_retAddr = retAddr, da_allocTick = tick,
                          da_moduleName = (if m = [] then ''<unknown>'' else m)\<rparr> t))"

definition diag_remove :: "u32 \<Rightarrow> diag_table \<Rightarrow> DiagnosticAllocRecord option \<times> diag_table" where
  "diag_remove key t =
     (case find_index 0 (\<lambda>r. da_address r = key) t of
        None \<Rightarrow> (None, t)
      | Some i \<Rightarrow> (Some (t ! i), swap_remove i t))"

text \<open>
  The record removed gives the provenance line: address, KB, who allocated it, who frees it
  (module and offset), and its lifetime in ms.
\<close>

definition free_module :: "loader \<Rightarrow> u32 \<Rightarrow> string \<times> u32" where
  "free_module ld ra =
     (if ra = 0 then (''<unknown>'', 0)
      else case ld_module ld ra of
        None \<Rightarrow> (''<unknown>'', 0)
      | Some h \<Rightarrow> (take 63 (ld_basename ld h), frame_offset ld h ra))"

definition RemoveDiagnosticAlloc ::
  "loader \<Rightarrow> bool \<Rightarrow> u32 \<Rightarrow> u32 \<Rightarrow> u32 \<Rightarrow> diag_table \<Rightarrow>
     (u32 \<times> u32 \<times> string \<times> u32 \<times> (string \<times> u32) \<times> u32) option \<times> diag_table"
where
  "RemoveDiagnosticAlloc ld csInit tick address freeRetAddr t =
     (if address = 0 \<or> \<not> csInit then (None, t)
      else case diag_remove address t of
        (None, t) \<Rightarrow> (None, t)
      | (Some r, t) \<Rightarrow>
          (Some (address, da_size r div 1024, da_moduleName r, da_retAddr r, free_module ld freeRetAddr,
                 tick - da_allocTick r), t))"

subsection \<open>Both tables satisfy the contract\<close>

lemma swap_grab:
  assumes g: "grab = (\<lambda>k t. case find_index 0 (\<lambda>e. key e = k) t of None \<Rightarrow> (None, t) | Some i \<Rightarrow> (Some (t ! i), swap_remove i t))"
  shows "\<forall>e\<in>#mset t. key e \<noteq> k \<Longrightarrow> grab k t = (None, t)"
    and "e \<in># mset t \<Longrightarrow> key e = k \<Longrightarrow> \<exists>e' t'. grab k t = (Some e', t') \<and> key e' = k \<and> mset t = add_mset e' (mset t')"
proof -
  show "grab k t = (None, t)" if "\<forall>e\<in>#mset t. key e \<noteq> k"
    using that find_index_None [of 0 "\<lambda>e. key e = k" t] by (simp add: g)
  show "\<exists>e' t'. grab k t = (Some e', t') \<and> key e' = k \<and> mset t = add_mset e' (mset t')"
    if e: "e \<in># mset t" "key e = k"
  proof -
    have "find_index 0 (\<lambda>e. key e = k) t \<noteq> None" using e find_index_None [of 0 "\<lambda>e. key e = k" t] by auto
    then obtain i where i: "find_index 0 (\<lambda>e. key e = k) t = Some i" by blast
    then show ?thesis using find_index_Some [OF i] mset_swap_remove [of i t] by (simp add: g)
  qed
qed

interpretation vat: swap_table VatTrack VatUntrack mset fst kVatMax
proof (unfold_locales, goal_cases)
  case (1 t e)
  then show ?case by (simp add: VatTrack_def)
next
  case (2 t e)
  then show ?case by (simp add: VatTrack_def)
next
  case (3 t k)
  then show ?case by (rule swap_grab(1) [rotated]) (simp add: fun_eq_iff VatUntrack_def)
next
  case (4 e t k)
  then show ?case by (rule swap_grab(2) [rotated]) (simp add: fun_eq_iff VatUntrack_def)
qed

interpretation diag: swap_table diag_add diag_remove mset da_address kDiagMax
proof (unfold_locales, goal_cases)
  case (1 t e)
  then show ?case by (simp add: diag_add_def)
next
  case (2 t e)
  then show ?case by (simp add: diag_add_def)
next
  case (3 t k)
  then show ?case by (rule swap_grab(1) [rotated]) (simp add: fun_eq_iff diag_remove_def)
next
  case (4 e t k)
  then show ?case by (rule swap_grab(2) [rotated]) (simp add: fun_eq_iff diag_remove_def)
qed

subsection \<open>Tracked slots are a map\<close>

text \<open>Runs of tracking and releasing, with the sizes the releases return, and the same on a map.\<close>

datatype vat_op = Track u32 u32 | Release u32

fun vat_run :: "vat_op list \<Rightarrow> vat_table \<Rightarrow> u32 option list" where
  "vat_run [] t = []"
| "vat_run (Track a s # ops) t = vat_run ops (VatTrack (a, s) t)"
| "vat_run (Release a # ops) t = (case VatUntrack a t of (r, t) \<Rightarrow> map_option snd r # vat_run ops t)"

fun map_run :: "vat_op list \<Rightarrow> (u32 \<Rightarrow> u32 option) \<Rightarrow> u32 option list" where
  "map_run [] m = []"
| "map_run (Track a s # ops) m = map_run ops (if card (dom m) < kVatMax then m(a \<mapsto> s) else m)"
| "map_run (Release a # ops) m = m a # map_run ops (m(a := None))"

text \<open>No slot is tracked that is still held.\<close>

fun fresh_run :: "vat_op list \<Rightarrow> u32 set \<Rightarrow> bool" where
  "fresh_run [] held = True"
| "fresh_run (Track a s # ops) held = (a \<notin> held \<and> fresh_run ops (insert a held))"
| "fresh_run (Release a # ops) held = fresh_run ops (held - {a})"

lemma vat_run_map:
  "vat.holds t (\<lambda>a. map_option (\<lambda>s. (a, s)) (m a)) \<Longrightarrow> dom m \<subseteq> held \<Longrightarrow> fresh_run ops held \<Longrightarrow>
   vat_run ops t = map_run ops m"
proof (induction ops arbitrary: t m held)
  case (Cons op ops)
  let ?p = "\<lambda>m a. map_option (\<lambda>s. (a, s)) (m a) :: (u32 \<times> u32) option"
  have dom: "dom (?p m) = dom m" by auto
  show ?case
  proof (cases op)
    case (Track a s)
    have "?p m (fst (a, s)) = None" using Cons.prems(2,3) Track by (auto simp: dom_def)
    from vat.holds_add [OF Cons.prems(1) this]
    have "vat.holds (VatTrack (a, s) t) (if card (dom m) < kVatMax then (?p m)(a \<mapsto> (a, s)) else ?p m)"
      by (simp only: dom fst_conv)
    moreover have "(?p m)(a \<mapsto> (a, s)) = ?p (m(a \<mapsto> s))" by auto
    ultimately have "vat.holds (VatTrack (a, s) t) (?p (if card (dom m) < kVatMax then m(a \<mapsto> s) else m))"
      by (cases "card (dom m) < kVatMax") (simp_all only: if_True if_False)
    moreover have "dom (if card (dom m) < kVatMax then m(a \<mapsto> s) else m) \<subseteq> insert a held"
      using Cons.prems(2) by (simp add: subset_insertI2 insert_mono)
    ultimately have "vat_run ops (VatTrack (a, s) t) = map_run ops (if card (dom m) < kVatMax then m(a \<mapsto> s) else m)"
      by (rule Cons.IH) (use Cons.prems(3) Track in simp)
    then show ?thesis using Track by simp
  next
    case (Release a)
    note g = vat.holds_grab [OF Cons.prems(1), of a]
    have "(?p m)(a := None) = ?p (m(a := None))" by auto
    then have "vat.holds (snd (VatUntrack a t)) (?p (m(a := None)))" using g by simp
    moreover have "dom (m(a := None)) \<subseteq> held - {a}" using Cons.prems(2) by auto
    ultimately have "vat_run ops (snd (VatUntrack a t)) = map_run ops (m(a := None))"
      by (rule Cons.IH) (use Cons.prems(3) Release in simp)
    moreover have "map_option snd (fst (VatUntrack a t)) = m a" using conjunct1 [OF g] by (cases "m a") simp_all
    ultimately show ?thesis using Release by (simp add: case_prod_unfold)
  qed
qed simp

text \<open>C15: For slots that are fresh when tracked, the table of redirected slots refines a map from
  addresses to sizes that ignores insertions beyond 8192 entries: every release returns what
  the map returns, in any order of releases although removal reorders the array.\<close>

theorem vat_table_is_a_map:
  assumes "fresh_run ops {}"
  shows "vat_run ops [] = map_run ops Map.empty"
  by (rule vat_run_map [OF _ _ assms]) (simp_all add: vat.holds_def)

theorem vat_table_is_a_map_witness:
  "vat_run [Track 0x10000 1, Track 0x20000 2, Track 0x30000 3, Release 0x10000, Release 0x30000, Release 0x10000] [] =
   [Some 1, Some 3, None]"
  by (subst vat_table_is_a_map) (simp_all add: kVatMax_def)

text \<open>A slot tracked while the table holds 8192 entries is forgotten: its release is not
  recognised, so the hook frees it as if it were a local region.\<close>

theorem vat_full_forgets:
  assumes "length t = kVatMax" "a \<notin> fst ` set t"
  shows "VatTrack (a, s) t = t \<and> VatUntrack a (VatTrack (a, s) t) = (None, t)"
proof -
  have "VatTrack (a, s) t = t" using assms(1) by (simp add: VatTrack_def)
  moreover have "\<forall>e\<in>#mset t. fst e \<noteq> a" using assms(2) by auto
  ultimately show ?thesis by (simp add: vat.grab_none)
qed

theorem vat_full_forgets_witness:
  "VatUntrack 0x10000 (VatTrack (0x10000, 5) (replicate kVatMax (0x20000, 1))) = (None, replicate kVatMax (0x20000, 1))"
  by (rule conjunct2 [OF vat_full_forgets]) (simp_all add: set_replicate_conv_if)

end
