(* ===== verification/Dbpf.thy ===== *)
theory Dbpf
  imports MapView ScriptScanDedup LocalVas
begin

section \<open>Reading package indexes out of mapped views\<close>

text \<open>
  \<open>ScanDbpfIndex\<close> and the script probe of \<open>WorkingHooks.cpp\<close>.  A view is the list of its
  readable bytes together with the size the caller claims; a read beyond the readable bytes is a
  fault (\<open>None\<close>), which \<open>SafeScanDbpfIndex\<close> turns into an empty result.  Shown below: a scan of
  a fully readable view never faults, and its tallies are exact for the first types it meets.
\<close>

definition rd32 :: "u8 list \<Rightarrow> nat \<Rightarrow> u32 option" where
  "rd32 bs i =
     (if i + 4 \<le> length bs
      then Some (ucast (bs ! i) OR push_bit 8 (ucast (bs ! (i + 1))) OR push_bit 16 (ucast (bs ! (i + 2)))
                 OR push_bit 24 (ucast (bs ! (i + 3))))
      else None)"

text \<open>The packed header: its size, and the offsets of the fields the scan reads.\<close>

definition sizeof_DbpfHeaderMV :: nat where "sizeof_DbpfHeaderMV = 64"
definition hdr_majorVersion :: nat where "hdr_majorVersion = 4"
definition hdr_indexEntryCount :: nat where "hdr_indexEntryCount = 36"
definition hdr_indexOffset :: nat where "hdr_indexOffset = 60"

text \<open>The packed index entry.\<close>

definition sizeof_DbpfIndexEntryMV :: nat where "sizeof_DbpfIndexEntryMV = 32"
definition ent_typeId :: nat where "ent_typeId = 0"
definition ent_memSize :: nat where "ent_memSize = 24"

text \<open>One entry counted in the output array, which holds at most \<open>cap\<close> types.\<close>

fun bump_stats :: "u32 \<Rightarrow> u32 \<Rightarrow> DbpfTypeStats list \<Rightarrow> DbpfTypeStats list option" where
  "bump_stats t s [] = None"
| "bump_stats t s (d # ds) =
     (if ds_typeId d = t
      then Some (d\<lparr>ds_entryCount := ds_entryCount d + 1, ds_totalMemBytes := ds_totalMemBytes d + ucast s\<rparr> # ds)
      else map_option (\<lambda>r. d # r) (bump_stats t s ds))"

definition tally_entry :: "nat \<Rightarrow> u32 \<times> u32 \<Rightarrow> DbpfTypeStats list \<Rightarrow> DbpfTypeStats list" where
  "tally_entry cap e out =
     (case e of (t, s) \<Rightarrow>
        case bump_stats t s out of
          Some r \<Rightarrow> r
        | None \<Rightarrow>
            if length out \<ge> cap then out
            else out @ [\<lparr>ds_typeId = t, ds_entryCount = 0 + 1, ds_totalMemBytes = 0 + ucast s\<rparr>])"

text \<open>The type and size of \<open>n\<close> entries from \<open>off\<close>.\<close>

fun read_entries :: "u8 list \<Rightarrow> nat \<Rightarrow> nat \<Rightarrow> (u32 \<times> u32) list option" where
  "read_entries bs off 0 = Some []"
| "read_entries bs off (Suc n) =
     (case (rd32 bs (off + ent_typeId), rd32 bs (off + ent_memSize)) of
        (Some t, Some s) \<Rightarrow> map_option (\<lambda>r. (t, s) # r) (read_entries bs (off + sizeof_DbpfIndexEntryMV) n)
      | _ \<Rightarrow> None)"

text \<open>The number of entries the scan will read: the header's count, cut to what fits the view.\<close>

definition scan_count :: "u32 \<Rightarrow> u32 \<Rightarrow> u32 \<Rightarrow> nat" where
  "scan_count viewSize indexOffset entryCount =
     (let maxEntries = (viewSize - indexOffset) div of_nat sizeof_DbpfIndexEntryMV
      in if entryCount > maxEntries then unat maxEntries else unat entryCount)"

definition ScanDbpfIndex :: "u8 list \<Rightarrow> u32 \<Rightarrow> nat \<Rightarrow> DbpfTypeStats list option" where
  "ScanDbpfIndex view viewSize outCap =
     (if outCap = 0 \<or> unat viewSize < sizeof_DbpfHeaderMV then Some []
      else case (rd32 view 0, rd32 view hdr_majorVersion) of
        (Some magic, Some major) \<Rightarrow>
          if magic \<noteq> 0x46504244 \<or> major \<noteq> 2 then Some []
          else (case (rd32 view hdr_indexOffset, rd32 view hdr_indexEntryCount) of
             (Some indexOffset, Some entryCount) \<Rightarrow>
               if indexOffset = 0 \<or> entryCount = 0 \<or> indexOffset \<ge> viewSize then Some []
               else map_option (\<lambda>es. fold (tally_entry outCap) es [])
                      (read_entries view (unat indexOffset) (scan_count viewSize indexOffset entryCount))
           | _ \<Rightarrow> None)
      | _ \<Rightarrow> None)"

definition SafeScanDbpfIndex :: "u8 list \<Rightarrow> u32 \<Rightarrow> nat \<Rightarrow> DbpfTypeStats list" where
  "SafeScanDbpfIndex view viewSize outCap =
     (case ScanDbpfIndex view viewSize outCap of Some r \<Rightarrow> r | None \<Rightarrow> [])"

subsection \<open>Scripts\<close>

definition kDbpfTypeScript :: u32 where "kDbpfTypeScript = 0x0175e5cd"
definition kDbpfTypeScriptSym :: u32 where "kDbpfTypeScriptSym = 0x0175e5d9"
definition kDbpfTypeS3SAMod :: u32 where "kDbpfTypeS3SAMod = 0x073faa07"
definition kDbpfTypeXml :: u32 where "kDbpfTypeXml = 0x0333406c"

definition TypeStatsHaveScript :: "DbpfTypeStats list \<Rightarrow> bool" where
  "TypeStatsHaveScript ts =
     list_ex (\<lambda>d. ds_typeId d = kDbpfTypeScript \<or> ds_typeId d = kDbpfTypeScriptSym \<or> ds_typeId d = kDbpfTypeS3SAMod) ts"

record script_tally =
  st_scrCount :: u32
  st_symCount :: u32
  st_modCount :: u32
  st_xmlCount :: u32
  st_scrBytes :: u64
  st_xmlBytes :: u64

definition tally_script :: "DbpfTypeStats \<Rightarrow> script_tally \<Rightarrow> script_tally" where
  "tally_script d s =
     (if ds_typeId d = kDbpfTypeScript
      then s\<lparr>st_scrCount := st_scrCount s + ds_entryCount d, st_scrBytes := st_scrBytes s + ds_totalMemBytes d\<rparr>
      else if ds_typeId d = kDbpfTypeScriptSym then s\<lparr>st_symCount := st_symCount s + ds_entryCount d\<rparr>
      else if ds_typeId d = kDbpfTypeS3SAMod
      then s\<lparr>st_modCount := st_modCount s + ds_entryCount d, st_scrBytes := st_scrBytes s + ds_totalMemBytes d\<rparr>
      else if ds_typeId d = kDbpfTypeXml
      then s\<lparr>st_xmlCount := st_xmlCount s + ds_entryCount d, st_xmlBytes := st_xmlBytes s + ds_totalMemBytes d\<rparr>
      else s)"

text \<open>The base name of a device path in bytes.\<close>

definition base_bytes :: "u8 list \<Rightarrow> u8 list" where
  "base_bytes path = rev (takeWhile (\<lambda>c. c \<noteq> 0x5C) (rev path))"

text \<open>
  \<open>devName\<close> is what \<open>GetMappedFileNameA\<close> gives for the view (empty on failure).  The result is
  the tally of the log line, the increments, and the set of reported packages.
\<close>

definition ProbeScriptAssembly ::
  "DbpfTypeStats list \<Rightarrow> u8 list \<Rightarrow> slots \<Rightarrow> (u8 list \<times> script_tally) option \<times> increments \<times> slots"
where
  "ProbeScriptAssembly ts devName reported =
     (if \<not> TypeStatsHaveScript ts then (None, [], reported)
      else let named = (devName \<noteq> []);
               base = base_bytes devName;
               (was, reported) = (if named then MarkOnce (KeyFromBaseNameA base) reported else (False, reported))
           in if was then (None, [], reported)
              else let s = fold tally_script ts
                             \<lparr>st_scrCount = 0, st_symCount = 0, st_modCount = 0, st_xmlCount = 0, st_scrBytes = 0, st_xmlBytes = 0\<rparr>
                   in (Some (base, s),
                       [(''Script_Packages'', 1),
                        (''Script_Resources'', ucast (st_scrCount s + st_symCount s + st_modCount s)),
                        (''Script_Xml_Resources'', ucast (st_xmlCount s))],
                       reported))"

definition kGraphicsProxyWindowMs :: u64 where "kGraphicsProxyWindowMs = 3000"

definition IsDbpfMapContextRecent :: "u64 \<Rightarrow> u64 \<Rightarrow> bool" where
  "IsDbpfMapContextRecent now_ms last_ms =
     (if sint last_ms \<le> 0 then False else now_ms \<ge> last_ms \<and> now_ms - last_ms \<le> kGraphicsProxyWindowMs)"

subsection \<open>The scan stays in the view\<close>

lemma read_entries_in_bounds:
  "off + n * sizeof_DbpfIndexEntryMV \<le> length bs \<Longrightarrow> \<exists>es. read_entries bs off n = Some es \<and> length es = n"
proof (induction n arbitrary: off)
  case (Suc n)
  then have "\<exists>es. read_entries bs (off + sizeof_DbpfIndexEntryMV) n = Some es \<and> length es = n" by simp
  moreover have "off + 32 \<le> length bs" using Suc.prems by (simp add: sizeof_DbpfIndexEntryMV_def)
  then have "rd32 bs (off + ent_typeId) \<noteq> None" "rd32 bs (off + ent_memSize) \<noteq> None"
    by (simp_all add: rd32_def ent_typeId_def ent_memSize_def)
  ultimately show ?case by auto
qed simp

lemma scan_count_bound:
  assumes "indexOffset < viewSize"
  shows "unat indexOffset + scan_count viewSize indexOffset entryCount * sizeof_DbpfIndexEntryMV \<le> unat viewSize"
proof -
  let ?m = "(viewSize - indexOffset) div of_nat sizeof_DbpfIndexEntryMV"
  have "unat (viewSize - indexOffset) = unat viewSize - unat indexOffset"
    using assms by (intro unat_minus_no_wrap) simp
  then have m: "unat ?m = (unat viewSize - unat indexOffset) div 32"
    by (simp add: sizeof_DbpfIndexEntryMV_def unat_div)
  have "scan_count viewSize indexOffset entryCount \<le> unat ?m"
    by (auto simp: scan_count_def Let_def word_less_nat_alt)
  then have "scan_count viewSize indexOffset entryCount * 32 \<le> unat viewSize - unat indexOffset"
    unfolding m using div_times_less_eq_dividend [of "unat viewSize - unat indexOffset" 32]
    by (meson le_trans mult_le_mono1)
  then show ?thesis using assms by (simp add: sizeof_DbpfIndexEntryMV_def word_less_nat_alt)
qed

text \<open>What the entries of a scanned view are.\<close>

definition scanned :: "u8 list \<Rightarrow> (u32 \<times> u32) list" where
  "scanned view =
     (case (rd32 view 0, rd32 view hdr_majorVersion, rd32 view hdr_indexOffset, rd32 view hdr_indexEntryCount) of
        (Some magic, Some major, Some off, Some n) \<Rightarrow>
          if magic = 0x46504244 \<and> major = 2 \<and> off \<noteq> 0 \<and> off < of_nat (length view)
          then (case read_entries view (unat off) (scan_count (of_nat (length view)) off n) of Some es \<Rightarrow> es | None \<Rightarrow> [])
          else []
      | _ \<Rightarrow> [])"

lemma scan_of_scanned:
  assumes "length view < 2 ^ 32" "0 < cap" "64 \<le> length view"
  shows "ScanDbpfIndex view (of_nat (length view)) cap = Some (fold (tally_entry cap) (scanned view) [])"
proof -
  have u: "unat (of_nat (length view) :: u32) = length view" using assms(1) by (simp add: unsigned_of_nat take_bit_nat_eq_self)
  have "rd32 view 0 \<noteq> None" "rd32 view hdr_majorVersion \<noteq> None" "rd32 view hdr_indexOffset \<noteq> None"
    "rd32 view hdr_indexEntryCount \<noteq> None"
    using assms(3) by (simp_all add: rd32_def hdr_majorVersion_def hdr_indexOffset_def hdr_indexEntryCount_def)
  then obtain magic major off n where r: "rd32 view 0 = Some magic" "rd32 view hdr_majorVersion = Some major"
    "rd32 view hdr_indexOffset = Some off" "rd32 view hdr_indexEntryCount = Some n" by blast
  show ?thesis
  proof (cases "magic = 0x46504244 \<and> major = 2 \<and> off \<noteq> 0 \<and> off < of_nat (length view)")
    case True
    then have "off < of_nat (length view)" by simp
    from scan_count_bound [OF this, of n] obtain es
      where es: "read_entries view (unat off) (scan_count (of_nat (length view)) off n) = Some es"
        "length es = scan_count (of_nat (length view)) off n"
      using read_entries_in_bounds [of "unat off" "scan_count (of_nat (length view)) off n" view] u by auto
    have "n = 0 \<Longrightarrow> es = []" using es(2) by (simp add: scan_count_def)
    then show ?thesis using True r es(1) assms(2,3) u
      by (auto simp: ScanDbpfIndex_def scanned_def sizeof_DbpfHeaderMV_def)
  next
    case False
    then show ?thesis using r assms(2,3) u
      by (auto simp: ScanDbpfIndex_def scanned_def sizeof_DbpfHeaderMV_def)
  qed
qed

subsection \<open>The tallies are exact\<close>

definition sizes_of :: "u32 \<Rightarrow> (u32 \<times> u32) list \<Rightarrow> u32 list" where
  "sizes_of t es = map snd (filter (\<lambda>e. fst e = t) es)"

text \<open>Distinct types in the order of their first entry.\<close>

fun first_types :: "(u32 \<times> u32) list \<Rightarrow> u32 list \<Rightarrow> u32 list" where
  "first_types [] ts = ts"
| "first_types (e # es) ts = first_types es (if fst e \<in> set ts then ts else ts @ [fst e])"

definition stats_row :: "(u32 \<times> u32) list \<Rightarrow> u32 \<Rightarrow> DbpfTypeStats" where
  "stats_row es t = \<lparr>ds_typeId = t, ds_entryCount = of_nat (length (sizes_of t es)),
     ds_totalMemBytes = sum_list (map ucast (sizes_of t es))\<rparr>"

lemma stats_row_type [simp]: "ds_typeId (stats_row es t) = t"
  by (simp add: stats_row_def)

lemma stats_row_other: "t' \<noteq> t \<Longrightarrow> stats_row (es @ [(t, s)]) t' = stats_row es t'"
  by (simp add: stats_row_def sizes_of_def)

lemma stats_row_same:
  "stats_row (es @ [(t, s)]) t =
     (stats_row es t)\<lparr>ds_entryCount := ds_entryCount (stats_row es t) + 1,
                      ds_totalMemBytes := ds_totalMemBytes (stats_row es t) + ucast s\<rparr>"
  by (simp add: stats_row_def sizes_of_def add.commute)

lemma bump_stats_rows:
  "distinct ts \<Longrightarrow> bump_stats t s (map (stats_row es) ts) =
     (if t \<in> set ts then Some (map (stats_row (es @ [(t, s)])) ts) else None)"
proof (induction ts)
  case (Cons x xs)
  show ?case
  proof (cases "x = t")
    case True
    then have "map (stats_row (es @ [(t, s)])) xs = map (stats_row es) xs"
      using Cons.prems by (intro map_cong [OF refl] stats_row_other) auto
    then show ?thesis using True by (simp add: stats_row_same)
  next
    case False
    then show ?thesis using Cons by (auto simp: stats_row_other)
  qed
qed simp

lemma first_types_app: "\<exists>us. first_types es ts = ts @ us"
  by (induction es ts rule: first_types.induct) auto

lemma first_types_distinct: "distinct ts \<Longrightarrow> distinct (first_types es ts)"
  by (induction es ts rule: first_types.induct) auto

lemma first_types_snoc:
  "first_types (es @ [e]) ts = (if fst e \<in> set (first_types es ts) then first_types es ts else first_types es ts @ [fst e])"
  by (induction es arbitrary: ts) simp_all

lemma first_types_set: "set (first_types es ts) = set ts \<union> fst ` set es"
  by (induction es ts rule: first_types.induct) auto

lemma tally_rows:
  "fold (tally_entry cap) es [] = map (stats_row es) (take cap (first_types es []))"
proof (induction es rule: rev_induct)
  case (snoc e es)
  obtain t s where e: "e = (t, s)" by (cases e)
  let ?T = "first_types es []"
  have d: "distinct (take cap ?T)" using first_types_distinct [of "[]" es] by simp
  note b = bump_stats_rows [OF d, of t s es]
  show ?case
  proof (cases "t \<in> set (take cap ?T)")
    case True
    then have "t \<in> set ?T" by (rule in_set_takeD)
    then show ?thesis using snoc True b by (simp add: e tally_entry_def first_types_snoc)
  next
    case False
    have other: "map (stats_row (es @ [(t, s)])) (take cap ?T) = map (stats_row es) (take cap ?T)"
      using False by (intro map_cong [OF refl] stats_row_other) auto
    show ?thesis
    proof (cases "t \<in> set ?T")
      case True
      then have "cap < length ?T" using False by (metis not_le take_all)
      then show ?thesis using snoc False True b other by (simp add: e tally_entry_def first_types_snoc)
    next
      case new: False
      have none: "sizes_of t es = []" using new by (auto simp: sizes_of_def filter_empty_conv first_types_set)
      show ?thesis
      proof (cases "length ?T < cap")
        case True
        have row: "stats_row (es @ [(t, s)]) t = \<lparr>ds_typeId = t, ds_entryCount = 0 + 1, ds_totalMemBytes = 0 + ucast s\<rparr>"
          unfolding stats_row_same by (simp add: stats_row_def none)
        have all: "take cap ?T = ?T" using True by simp
        show ?thesis using snoc False new b other True
          by (simp add: e tally_entry_def first_types_snoc row all)
      next
        case full: False
        then show ?thesis using snoc False new b other by (simp add: e tally_entry_def first_types_snoc)
      qed
    qed
  qed
qed simp

text \<open>C16: Scanning a readable view never reads outside it, whatever its header claims: with room
  for \<open>cap\<close> types the result is one row for each of the first \<open>cap\<close> distinct types of the
  index, in the order of their first entry, with the number and the summed sizes of all
  their entries.\<close>

theorem ScanDbpfIndex_exact:
  assumes "length view < 2 ^ 32" "0 < cap" "64 \<le> length view"
  shows "ScanDbpfIndex view (of_nat (length view)) cap =
    Some (map (stats_row (scanned view)) (take cap (first_types (scanned view) []))) \<and>
    (\<forall>off n. rd32 view hdr_indexOffset = Some off \<longrightarrow> off < of_nat (length view) \<longrightarrow>
      unat off + scan_count (of_nat (length view)) off n * sizeof_DbpfIndexEntryMV \<le> length view)"
proof -
  have u: "unat (of_nat (length view) :: u32) = length view" using assms(1) by (simp add: unsigned_of_nat take_bit_nat_eq_self)
  show ?thesis using scan_of_scanned [OF assms] tally_rows scan_count_bound [of _ "of_nat (length view)"] u by simp
qed

text \<open>A view of two entries whose header claims four thousand.\<close>

definition demo_view :: "u8 list" where
  "demo_view = [0x44, 0x42, 0x50, 0x46, 2, 0, 0, 0] @ replicate 28 0 @ [0xA0, 0x0F, 0, 0] @ replicate 20 0 @ [64, 0, 0, 0] @
     [7, 0, 0, 0] @ replicate 20 0 @ [10, 0, 0, 0] @ replicate 4 0 @
     [7, 0, 0, 0] @ replicate 20 0 @ [5, 0, 0, 0] @ replicate 4 0"

theorem ScanDbpfIndex_exact_witness:
  "ScanDbpfIndex demo_view (of_nat (length demo_view)) 4 =
   Some [\<lparr>ds_typeId = 7, ds_entryCount = 2, ds_totalMemBytes = 15\<rparr>]"
proof -
  have "map (stats_row (scanned demo_view)) (take 4 (first_types (scanned demo_view) [])) =
      [\<lparr>ds_typeId = 7, ds_entryCount = 2, ds_totalMemBytes = 15\<rparr>]" by code_simp
  moreover have "length demo_view = 128" by (simp add: demo_view_def)
  ultimately show ?thesis using ScanDbpfIndex_exact [of demo_view 4] by simp
qed

end
