(* ===== verification/Config.thy ===== *)
theory Config
  imports LocalVas
begin

section \<open>Settings, switches, and log throttles of the hooks\<close>

text \<open>
  The switches of \<open>WorkingHooks.cpp\<close>: environment flags (each read once; the environment is an
  argument), passive mode, activation and shutdown of the proxy, the address range log, the
  throttled tally of granted allocations, and the sampling of noisy API events.
\<close>

subsection \<open>Policy flags\<close>

text \<open>A flag that is on unless the variable is set and starts with 0, f, F, n or N.\<close>

definition IsForceProxyActiveMode :: "string option \<Rightarrow> bool" where
  "IsForceProxyActiveMode env = (if env_set env then \<not> says_no (env_text 32 env) else True)"

definition IsForceHeapProxyMode :: "string option \<Rightarrow> bool" where
  "IsForceHeapProxyMode env = (if env_set env then \<not> says_no (env_text 32 env) else True)"

definition IsStrictRenderLocalOnlyMode :: "string option \<Rightarrow> bool" where
  "IsStrictRenderLocalOnlyMode env = (if env_set env then \<not> says_no (env_text 32 env) else False)"

text \<open>Passive mode: the variable says yes, or the flag file exists.\<close>

definition IsPassiveMode :: "string option \<Rightarrow> bool \<Rightarrow> bool" where
  "IsPassiveMode env flagFile = (env_set env \<and> says_yes (env_text 16 env) \<or> flagFile)"

text \<open>The switches after they are resolved, with the process-wide state they guard.\<close>

record control =
  c_passive :: bool
  c_strict :: bool
  c_forceProxy :: bool
  c_forceHeap :: bool
  s_proxyActive :: bool
  s_shuttingDown :: bool

definition ActivateProxy :: "control \<Rightarrow> control" where
  "ActivateProxy c = (if c_passive c then c else c\<lparr>s_proxyActive := True\<rparr>)"

definition IsProxyActive :: "control \<Rightarrow> bool" where
  "IsProxyActive c = s_proxyActive c"

definition IsShuttingDown :: "control \<Rightarrow> bool" where
  "IsShuttingDown c = s_shuttingDown c"

definition BeginShutdown :: "control \<Rightarrow> control" where
  "BeginShutdown c = c\<lparr>s_shuttingDown := True\<rparr>"

definition kForceVirtualAllocMinSize :: u32 where "kForceVirtualAllocMinSize = 4 * 1024"

definition EnsureProxyActiveForVirtualPath :: "u32 \<Rightarrow> u32 \<Rightarrow> u32 \<Rightarrow> control \<Rightarrow> control" where
  "EnsureProxyActiveForVirtualPath sz allocType protect c =
     (if IsProxyActive c then c
      else if \<not> c_forceProxy c then c
      else if allocType AND MEM_RESERVE = 0 then c
      else if sz < kForceVirtualAllocMinSize then c
      else if allocType AND (MEM_PHYSICAL OR MEM_LARGE_PAGES) \<noteq> 0 then c
      else if IsExecProtect protect then c
      else ActivateProxy c)"

subsection \<open>The range log\<close>

text \<open>\<open>strtoull\<close> with base 0: the value and whether any digit was read; it saturates at \<open>2^64 - 1\<close>.\<close>

definition digit_in :: "int \<Rightarrow> char \<Rightarrow> int option" where
  "digit_in base c =
     (let v = (if is_digit c then of_char c - 48
               else if (97 :: int) \<le> of_char (lower c) \<and> of_char (lower c) \<le> (122 :: int)
               then of_char (lower c) - 87 else 36)
      in if v < base then Some v else None)"

fun read_digits :: "int \<Rightarrow> int \<Rightarrow> string \<Rightarrow> int" where
  "read_digits base acc [] = acc"
| "read_digits base acc (c # cs) =
     (case digit_in base c of None \<Rightarrow> acc | Some d \<Rightarrow> read_digits base (base * acc + d) cs)"

definition starts_digit :: "int \<Rightarrow> string \<Rightarrow> bool" where
  "starts_digit base s = (case s of [] \<Rightarrow> False | c # cs \<Rightarrow> digit_in base c \<noteq> None)"

definition strtoull0 :: "string \<Rightarrow> u64 \<times> bool" where
  "strtoull0 s =
     (let s = dropWhile is_space s;
          neg = (s \<noteq> [] \<and> hd s = CHR ''-'');
          s = (if s \<noteq> [] \<and> (hd s = CHR ''-'' \<or> hd s = CHR ''+'') then tl s else s);
          hex = (length s \<ge> 3 \<and> s ! 0 = CHR ''0'' \<and> lower (s ! 1) = CHR ''x'' \<and> starts_digit 16 (drop 2 s));
          base = (if hex then 16 else if s \<noteq> [] \<and> s ! 0 = CHR ''0'' then 8 else 10);
          s = (if hex then drop 2 s else s);
          v = read_digits base 0 s
      in (if v > 18446744073709551615 then - 1 else if neg then - word_of_int v else word_of_int v, starts_digit base s))"

record range_log =
  s_rangeLogEnabled :: bool
  s_rangeLogStart :: u32
  s_rangeLogEnd :: u32

definition InitRangeLogConfig :: "string option \<Rightarrow> string option \<Rightarrow> string option \<Rightarrow> range_log" where
  "InitRangeLogConfig enableEnv startEnv endEnv =
     (let off = \<lparr>s_rangeLogEnabled = False, s_rangeLogStart = 0, s_rangeLogEnd = 0\<rparr>;
          s0 = env_text 64 startEnv;
          s1 = env_text 64 endEnv;
          (a, ok0) = strtoull0 s0;
          (b, ok1) = strtoull0 s1
      in if \<not> says_yes (env_text 32 enableEnv) then off
         else if s0 = [] \<or> s1 = [] then off
         else if \<not> ok0 \<or> \<not> ok1 \<or> a \<ge> b then off
         else \<lparr>s_rangeLogEnabled = True, s_rangeLogStart = ucast a, s_rangeLogEnd = ucast b\<rparr>)"

definition ShouldLogRangeHit :: "range_log \<Rightarrow> AllocCallerKind \<Rightarrow> u32 \<Rightarrow> u32 \<Rightarrow> bool" where
  "ShouldLogRangeHit r kind base sz =
     (if \<not> s_rangeLogEnabled r then False
      else if \<not> (kind = GameExe \<or> kind = SystemDll) then False
      else if sz = 0 then False
      else base < s_rangeLogEnd r \<and> base + sz > s_rangeLogStart r)"

text \<open>The fields of the line \<open>LogRangeAllocationHit\<close> writes: class, module, base, size, end.\<close>

definition LogRangeAllocationHit ::
  "loader \<Rightarrow> u32 list \<Rightarrow> range_log \<Rightarrow> u32 \<Rightarrow> u32 \<Rightarrow> u32 \<Rightarrow> (AllocCallerKind \<times> string \<times> u32 \<times> u32 \<times> u32) option"
where
  "LogRangeAllocationHit ld stack r retAddr base sz =
     (case ClassifyCallerModule ld stack retAddr 260 of
        None \<Rightarrow> None
      | Some (kind, m) \<Rightarrow>
          if ShouldLogRangeHit r kind base sz
          then Some (kind, if m = [] then ''<unknown>'' else m, base, sz, base + sz) else None)"

subsection \<open>The tally of grants\<close>

record grant_log =
  gl_verbose :: bool
  gl_tallyMs :: u32
  gl_count :: u64
  gl_bytes :: u64
  gl_countSnap :: u64
  gl_bytesSnap :: u64
  gl_lastTick :: u32

definition InitProxyGrantLogCfg :: "string option \<Rightarrow> string option \<Rightarrow> grant_log \<Rightarrow> grant_log" where
  "InitProxyGrantLogCfg verboseEnv tallyEnv g =
     (let g = (case env_in_buf 32 verboseEnv of
                 None \<Rightarrow> g | Some v \<Rightarrow> if says_yes v then g\<lparr>gl_verbose := True\<rparr> else g)
      in case env_in_buf 32 tallyEnv of
           None \<Rightarrow> g
         | Some v \<Rightarrow> if atoi v \<ge> 250 then g\<lparr>gl_tallyMs := word_of_int (atoi v)\<rparr> else g)"

definition grant_log_init :: grant_log where
  "grant_log_init = \<lparr>gl_verbose = False, gl_tallyMs = 5000, gl_count = 0, gl_bytes = 0, gl_countSnap = 0,
     gl_bytesSnap = 0, gl_lastTick = 0\<rparr>"

text \<open>The line, when one is due: new and all allocations, new and all bytes.\<close>

definition MaybeLogProxyGrantTally :: "u32 \<Rightarrow> grant_log \<Rightarrow> grant_log \<times> (u64 \<times> u64 \<times> u64 \<times> u64) option" where
  "MaybeLogProxyGrantTally now_ms g =
     (if now_ms - gl_lastTick g < gl_tallyMs g then (g, None)
      else (g\<lparr>gl_lastTick := now_ms, gl_countSnap := gl_count g, gl_bytesSnap := gl_bytes g\<rparr>,
            Some (gl_count g - gl_countSnap g, gl_bytes g - gl_bytesSnap g, gl_count g, gl_bytes g)))"

definition record_grant :: "u32 \<Rightarrow> u32 \<Rightarrow> grant_log \<Rightarrow> grant_log \<times> (u64 \<times> u64 \<times> u64 \<times> u64) option" where
  "record_grant now_ms sz g =
     (let g = g\<lparr>gl_count := gl_count g + 1, gl_bytes := gl_bytes g + ucast sz\<rparr>
      in if gl_verbose g then (g, None) else MaybeLogProxyGrantTally now_ms g)"

subsection \<open>Sampling of noisy API events\<close>

record api_etw =
  ae_init :: bool
  ae_verboseNoisy :: bool
  ae_mask :: u32
  ae_vqTick :: u32
  ae_vqExTick :: u32
  ae_heapSizeTick :: u32

definition api_etw_init :: api_etw where
  "api_etw_init = \<lparr>ae_init = False, ae_verboseNoisy = False, ae_mask = 0x7FF, ae_vqTick = 0, ae_vqExTick = 0, ae_heapSizeTick = 0\<rparr>"

definition InitApiEtwConfig :: "string option \<Rightarrow> string option \<Rightarrow> api_etw \<Rightarrow> api_etw" where
  "InitApiEtwConfig noisyEnv pow2Env e =
     (if ae_init e then e
      else (let verbose = (env_set noisyEnv \<and> \<not> says_no (env_text 32 noisyEnv));
                v = (if env_set pow2Env then atoi (env_text 32 pow2Env) else 0);
                pow2 = (if 1 \<le> v \<and> v \<le> 20 then nat v else 11)
            in e\<lparr>ae_init := True, ae_verboseNoisy := verbose, ae_mask := push_bit pow2 1 - 1\<rparr>))"

definition ShouldEmitNoisySample :: "u32 \<Rightarrow> u32 \<Rightarrow> bool \<times> u32" where
  "ShouldEmitNoisySample msk counter = (let tick = counter + 1 in (tick AND msk = 0, tick))"

text \<open>The APIs that the code names; all others are never sampled.\<close>

datatype api = VirtualQuery | VirtualQueryEx | HeapSizeApi | OtherApi

definition ShouldEmitApiHookEvent ::
  "string option \<Rightarrow> string option \<Rightarrow> api \<Rightarrow> bool \<Rightarrow> api_etw \<Rightarrow> bool \<times> api_etw"
where
  "ShouldEmitApiHookEvent noisyEnv pow2Env a failed e =
     (if failed then (True, e)
      else (let e = InitApiEtwConfig noisyEnv pow2Env e
            in if ae_verboseNoisy e then (True, e)
               else case a of
                 VirtualQuery \<Rightarrow> (case ShouldEmitNoisySample (ae_mask e) (ae_vqTick e) of (b, t) \<Rightarrow> (b, e\<lparr>ae_vqTick := t\<rparr>))
               | VirtualQueryEx \<Rightarrow> (case ShouldEmitNoisySample (ae_mask e) (ae_vqExTick e) of (b, t) \<Rightarrow> (b, e\<lparr>ae_vqExTick := t\<rparr>))
               | HeapSizeApi \<Rightarrow> (case ShouldEmitNoisySample (ae_mask e) (ae_heapSizeTick e) of (b, t) \<Rightarrow> (b, e\<lparr>ae_heapSizeTick := t\<rparr>))
               | OtherApi \<Rightarrow> (True, e)))"

text \<open>The status of the event: the last error of a failed call, which is restored afterwards; 0 otherwise.\<close>

definition EmitApiHookWin32 ::
  "string option \<Rightarrow> string option \<Rightarrow> api \<Rightarrow> u32 \<Rightarrow> bool \<Rightarrow> api_etw \<Rightarrow> u32 option \<times> api_etw \<times> u32"
where
  "EmitApiHookWin32 noisyEnv pow2Env a postCallGle ok e =
     (case ShouldEmitApiHookEvent noisyEnv pow2Env a (\<not> ok) e of
        (emit, e) \<Rightarrow> (if emit then Some (if \<not> ok then postCallGle else 0) else None, e, postCallGle))"

definition EmitApiHookWin32Size ::
  "string option \<Rightarrow> string option \<Rightarrow> api \<Rightarrow> u32 \<Rightarrow> bool \<Rightarrow> api_etw \<Rightarrow> u32 option \<times> api_etw \<times> u32"
where
  "EmitApiHookWin32Size noisyEnv pow2Env a postCallGle failed e =
     (case ShouldEmitApiHookEvent noisyEnv pow2Env a failed e of
        (emit, e) \<Rightarrow> (if emit then Some (if failed then postCallGle else 0) else None, e, postCallGle))"

text \<open>Native events carry the status itself and are never sampled.\<close>

definition EmitApiHookNt :: "u32 \<Rightarrow> u32" where
  "EmitApiHookNt status = status"

subsection \<open>Activation\<close>

text \<open>In passive mode no path activates the proxy, whatever is allocated; otherwise a forced
  activation happens exactly for page-sized reserves that are neither physical, large-page nor
  executable, and once active the proxy stays active.\<close>

theorem activation_policy:
  "(c_passive c \<longrightarrow> \<not> s_proxyActive c \<longrightarrow>
     \<not> s_proxyActive (fold (\<lambda>(s, a, p). EnsureProxyActiveForVirtualPath s a p) calls c) \<and> \<not> s_proxyActive (ActivateProxy c)) \<and>
   (s_proxyActive c \<longrightarrow> s_proxyActive (EnsureProxyActiveForVirtualPath sz allocType protect c)) \<and>
   (\<not> c_passive c \<longrightarrow> \<not> s_proxyActive c \<longrightarrow>
     (s_proxyActive (EnsureProxyActiveForVirtualPath sz allocType protect c) \<longleftrightarrow>
      c_forceProxy c \<and> allocType AND MEM_RESERVE \<noteq> 0 \<and> 4096 \<le> unat sz \<and>
      allocType AND (MEM_PHYSICAL OR MEM_LARGE_PAGES) = 0 \<and> \<not> IsExecProtect protect))"
proof (intro conjI impI)
  assume p: "c_passive c" "\<not> s_proxyActive c"
  have e: "EnsureProxyActiveForVirtualPath s a q c = c" for s a q
    using p by (simp add: EnsureProxyActiveForVirtualPath_def ActivateProxy_def)
  have "fold (\<lambda>(s, a, p). EnsureProxyActiveForVirtualPath s a p) calls c = c"
    by (induction calls) (auto simp: e)
  then show "\<not> s_proxyActive (fold (\<lambda>(s, a, p). EnsureProxyActiveForVirtualPath s a p) calls c)" using p by simp
  show "\<not> s_proxyActive (ActivateProxy c)" using p by (simp add: ActivateProxy_def)
next
  assume "s_proxyActive c"
  then show "s_proxyActive (EnsureProxyActiveForVirtualPath sz allocType protect c)"
    by (simp add: EnsureProxyActiveForVirtualPath_def IsProxyActive_def)
next
  assume "\<not> c_passive c" "\<not> s_proxyActive c"
  then show "s_proxyActive (EnsureProxyActiveForVirtualPath sz allocType protect c) \<longleftrightarrow>
      c_forceProxy c \<and> allocType AND MEM_RESERVE \<noteq> 0 \<and> 4096 \<le> unat sz \<and>
      allocType AND (MEM_PHYSICAL OR MEM_LARGE_PAGES) = 0 \<and> \<not> IsExecProtect protect"
    by (auto simp: EnsureProxyActiveForVirtualPath_def IsProxyActive_def ActivateProxy_def kForceVirtualAllocMinSize_def
        word_less_nat_alt)
qed

theorem activation_policy_witness:
  "s_proxyActive (EnsureProxyActiveForVirtualPath 0x10000 0x3000 4
     \<lparr>c_passive = False, c_strict = False, c_forceProxy = True, c_forceHeap = True, s_proxyActive = False, s_shuttingDown = False\<rparr>)"
  by (subst activation_policy [THEN conjunct2, THEN conjunct2, rule_format])
    (simp_all add: MEM_RESERVE_def MEM_PHYSICAL_def MEM_LARGE_PAGES_def IsExecProtect_def)

subsection \<open>The tally of grants loses nothing\<close>

text \<open>Grants (time, size) in order, with the lines they write.\<close>

fun grant_run :: "(u32 \<times> u32) list \<Rightarrow> grant_log \<Rightarrow> grant_log \<times> (u64 \<times> u64 \<times> u64 \<times> u64) list" where
  "grant_run [] g = (g, [])"
| "grant_run ((now_ms, sz) # rest) g =
     (case record_grant now_ms sz g of
        (g, line) \<Rightarrow> case grant_run rest g of (g, ls) \<Rightarrow> (g, (case line of None \<Rightarrow> ls | Some l \<Rightarrow> l # ls)))"

lemma grant_run_sums:
  "grant_run gs g = (g', ls) \<Longrightarrow>
   sum_list (map fst ls) + (gl_count g' - gl_countSnap g') = (gl_count g - gl_countSnap g) + of_nat (length gs) \<and>
   sum_list (map (fst \<circ> snd) ls) + (gl_bytes g' - gl_bytesSnap g') =
     (gl_bytes g - gl_bytesSnap g) + sum_list (map (\<lambda>p. ucast (snd p)) gs) \<and>
   gl_verbose g' = gl_verbose g \<and> gl_tallyMs g' = gl_tallyMs g"
proof (induction gs arbitrary: g ls)
  case Nil
  then show ?case by simp
next
  case (Cons a gs)
  obtain t s where a: "a = (t, s)" by (cases a)
  obtain g1 line where g1: "record_grant t s g = (g1, line)" by (cases "record_grant t s g")
  obtain ls1 where r: "grant_run gs g1 = (g', ls1)" and ls: "ls = (case line of None \<Rightarrow> ls1 | Some l \<Rightarrow> l # ls1)"
    using Cons.prems g1 by (auto simp: a split: prod.splits)
  note ih = Cons.IH [OF r]
  show ?case
  proof (cases line)
    case None
    then have "g1 = g\<lparr>gl_count := gl_count g + 1, gl_bytes := gl_bytes g + ucast s\<rparr>"
      using g1 by (auto simp: record_grant_def MaybeLogProxyGrantTally_def Let_def split: if_splits)
    then show ?thesis using ih ls None by (simp add: a algebra_simps)
  next
    case (Some l)
    then have "g1 = g\<lparr>gl_count := gl_count g + 1, gl_bytes := gl_bytes g + ucast s, gl_lastTick := t,
        gl_countSnap := gl_count g + 1, gl_bytesSnap := gl_bytes g + ucast s\<rparr>"
      "l = (gl_count g + 1 - gl_countSnap g, gl_bytes g + ucast s - gl_bytesSnap g, gl_count g + 1, gl_bytes g + ucast s)"
      using g1 by (auto simp: record_grant_def MaybeLogProxyGrantTally_def Let_def split: if_splits)
    then show ?thesis using ih ls Some by (simp add: a algebra_simps)
  qed
qed

text \<open>However the throttle delays its lines, the allocations and bytes they report, with what is
  pending since the last line, are exactly those granted (modulo 2^64).\<close>

theorem grant_tally_conserves:
  "sum_list (map fst (snd (grant_run gs grant_log_init))) +
     (gl_count (fst (grant_run gs grant_log_init)) - gl_countSnap (fst (grant_run gs grant_log_init))) = of_nat (length gs) \<and>
   sum_list (map (fst \<circ> snd) (snd (grant_run gs grant_log_init))) +
     (gl_bytes (fst (grant_run gs grant_log_init)) - gl_bytesSnap (fst (grant_run gs grant_log_init))) =
     sum_list (map (\<lambda>p. ucast (snd p)) gs)"
  using grant_run_sums [of gs grant_log_init "fst (grant_run gs grant_log_init)" "snd (grant_run gs grant_log_init)"]
  by (simp add: grant_log_init_def)

subsection \<open>Sampling\<close>

text \<open>How many of \<open>n\<close> successful calls in a row are emitted.\<close>

fun emitted :: "string option \<Rightarrow> string option \<Rightarrow> api \<Rightarrow> nat \<Rightarrow> api_etw \<Rightarrow> nat" where
  "emitted noisyEnv pow2Env a 0 e = 0"
| "emitted noisyEnv pow2Env a (Suc n) e =
     (case ShouldEmitApiHookEvent noisyEnv pow2Env a False e of
        (b, e) \<Rightarrow> of_bool b + emitted noisyEnv pow2Env a n e)"

fun samples :: "u32 \<Rightarrow> nat \<Rightarrow> u32 \<Rightarrow> nat" where
  "samples msk 0 c = 0"
| "samples msk (Suc n) c = of_bool ((c + 1) AND msk = 0) + samples msk n (c + 1)"

lemma emitted_samples:
  assumes "ae_init e" "\<not> ae_verboseNoisy e"
  shows "emitted ne pe VirtualQuery n e = samples (ae_mask e) n (ae_vqTick e) \<and>
    emitted ne pe VirtualQueryEx n e = samples (ae_mask e) n (ae_vqExTick e) \<and>
    emitted ne pe HeapSizeApi n e = samples (ae_mask e) n (ae_heapSizeTick e)"
  using assms
  by (induction n arbitrary: e)
    (simp_all add: ShouldEmitApiHookEvent_def InitApiEtwConfig_def ShouldEmitNoisySample_def Let_def)

lemma samples_card: "samples msk n c = card {i. i < n \<and> (c + of_nat (Suc i)) AND msk = 0}"
proof (induction n arbitrary: c)
  case (Suc n)
  let ?P = "\<lambda>i. (c + of_nat (Suc i)) AND msk = 0"
  have "{i. i < Suc n \<and> ?P i} = {i. i = 0 \<and> ?P 0} \<union> Suc ` {i. i < n \<and> (c + 1 + of_nat (Suc i)) AND msk = 0}"
    by (auto simp: image_iff less_Suc_eq_0_disj add.assoc)
  moreover have "card ({i. i = 0 \<and> ?P 0} \<union> Suc ` {i. i < n \<and> (c + 1 + of_nat (Suc i)) AND msk = 0}) =
      card {i. i = (0::nat) \<and> ?P 0} + card {i. i < n \<and> (c + 1 + of_nat (Suc i)) AND msk = 0}"
    by (subst card_Un_disjoint) (auto simp: card_image)
  moreover have "card {i. i = (0::nat) \<and> ?P 0} = of_bool (?P 0)" by simp
  ultimately show ?case using Suc.IH [of "c + 1"] by simp
qed simp

lemma one_multiple: "0 < m \<Longrightarrow> card {i. i < m \<and> (c + Suc i) mod m = 0} = 1"
proof -
  assume m: "0 < m"
  have "{i. i < m \<and> (c + Suc i) mod m = 0} = {m - 1 - c mod m}"
  proof (rule set_eqI)
    fix i
    have s: "(c + Suc i) mod m = (c mod m + Suc i) mod m" by (simp only: mod_add_left_eq)
    have lt: "c mod m < m" using m by simp
    have "(c mod m + Suc i) mod m = 0 \<longleftrightarrow> c mod m + Suc i = m" if "i < m"
    proof
      assume "(c mod m + Suc i) mod m = 0"
      then obtain q where q: "c mod m + Suc i = m * q" by auto
      have "q < 2" using q lt that by (metis add_less_le_mono mult_2_right not_le_imp_less Suc_leI mult_le_mono2 not_le)
      then have "q = 1" using q by (cases q) auto
      then show "c mod m + Suc i = m" using q by simp
    qed simp
    then show "i \<in> {i. i < m \<and> (c + Suc i) mod m = 0} \<longleftrightarrow> i \<in> {m - 1 - c mod m}"
      using lt unfolding mem_Collect_eq singleton_iff s by auto
  qed
  then show ?thesis by simp
qed

lemma samples_one:
  assumes "p \<le> 32"
  shows "samples (push_bit p 1 - 1) (2 ^ p) c = 1"
proof -
  have m: "push_bit p 1 - 1 = (mask p :: u32)" by (simp add: mask_eq_exp_minus_1 push_bit_eq_mult)
  have "(c + of_nat (Suc i)) AND mask p = 0 \<longleftrightarrow> (unat c + Suc i) mod 2 ^ p = 0" for i
  proof -
    have d: "(2 :: nat) ^ p dvd 2 ^ 32" using assms by (rule le_imp_power_dvd)
    have "unat (c + of_nat (Suc i)) = (unat c + Suc i) mod 2 ^ 32"
      by (simp add: unat_word_ariths unsigned_of_nat take_bit_eq_mod mod_simps del: of_nat_Suc)
    moreover have "unat (take_bit p (c + of_nat (Suc i))) = unat (c + of_nat (Suc i)) mod 2 ^ p"
      unfolding unsigned_take_bit_eq by (simp only: take_bit_eq_mod)
    ultimately have "unat (take_bit p (c + of_nat (Suc i))) = (unat c + Suc i) mod 2 ^ p"
      using mod_mod_cancel [OF d] by simp
    then show ?thesis unfolding take_bit_eq_mask [symmetric] by (metis unat_eq_0)
  qed
  then show ?thesis unfolding samples_card m using one_multiple [of "2 ^ p" "unat c"] by simp
qed

text \<open>Unless the verbose variable is set, exactly one of any \<open>2^p\<close> successful calls of a noisy API
  in a row is emitted, where \<open>p\<close> is the variable's power if it is between 1 and 20 and 11
  otherwise; the counters may wrap.  A failed call is always emitted.\<close>

theorem one_sample_per_period:
  assumes "\<not> ae_init e" "\<not> (env_set noisyEnv \<and> \<not> says_no (env_text 32 noisyEnv))"
    "v = (if env_set pow2Env then atoi (env_text 32 pow2Env) else 0)" "p = (if 1 \<le> v \<and> v \<le> 20 then nat v else 11)"
    "a \<noteq> OtherApi"
  shows "emitted noisyEnv pow2Env a (2 ^ p) e = 1 \<and> fst (ShouldEmitApiHookEvent noisyEnv pow2Env a True e)"
proof -
  have p: "p \<le> 32" using assms(4) by auto
  let ?e = "InitApiEtwConfig noisyEnv pow2Env e"
  have e: "ae_init ?e" "\<not> ae_verboseNoisy ?e" "ae_mask ?e = push_bit p 1 - 1"
    using assms by (simp_all add: InitApiEtwConfig_def Let_def)
  have first: "emitted noisyEnv pow2Env a n e = emitted noisyEnv pow2Env a n ?e" for n
    by (cases n) (use e(1) in \<open>simp_all add: ShouldEmitApiHookEvent_def InitApiEtwConfig_def [of _ _ ?e]\<close>)
  have "emitted noisyEnv pow2Env a (2 ^ p) ?e = 1"
    using emitted_samples [OF e(1,2), of noisyEnv pow2Env "2 ^ p"] samples_one [OF p] e(3) assms(5) by (cases a) simp_all
  then show ?thesis by (simp add: first ShouldEmitApiHookEvent_def)
qed

theorem one_sample_per_period_witness:
  "emitted None (Some ''2'') VirtualQuery 4 api_etw_init = 1"
proof -
  have v: "atoi (env_text 32 (Some ''2'')) = 2" by code_simp
  have "emitted None (Some ''2'') VirtualQuery (2 ^ 2) api_etw_init = 1 \<and>
      fst (ShouldEmitApiHookEvent None (Some ''2'') VirtualQuery True api_etw_init)"
    by (rule one_sample_per_period [where v = 2]) (simp_all only: v, simp_all add: api_etw_init_def env_set_def)
  then show ?thesis by (simp only: power2_eq_square mult_2_right numeral_times_numeral arith_simps)
qed

end
