(* ===== verification/OrderedMap.thy ===== *)
theory OrderedMap
  imports Prelude
begin

section \<open>Ordered maps\<close>

text \<open>
  The program's \<open>std::map\<close>s as association lists in ascending order of their keys, which is
  the order in which the code walks them.  \<open>map_of\<close> is the look-up; the lemmas say that
  insertion and removal are those of a map and keep the order.
\<close>

fun om_insert :: "'a::linorder \<Rightarrow> 'b \<Rightarrow> ('a \<times> 'b) list \<Rightarrow> ('a \<times> 'b) list" where
  "om_insert k v [] = [(k, v)]"
| "om_insert k v (e # es) =
     (if k < fst e then (k, v) # e # es
      else if k = fst e then (k, v) # es
      else e # om_insert k v es)"

definition om_erase :: "'a \<Rightarrow> ('a \<times> 'b) list \<Rightarrow> ('a \<times> 'b) list" where
  "om_erase k m = filter (\<lambda>e. fst e \<noteq> k) m"

definition ordered :: "('a::linorder \<times> 'b) list \<Rightarrow> bool" where
  "ordered m \<longleftrightarrow> sorted_wrt (<) (map fst m)"

lemma ordered_Nil [simp]: "ordered []"
  by (simp add: ordered_def)

lemma ordered_Cons: "ordered (e # es) \<longleftrightarrow> (\<forall>x\<in>set es. fst e < fst x) \<and> ordered es"
  by (auto simp: ordered_def)

lemma ordered_distinct: "ordered m \<Longrightarrow> distinct (map fst m)"
  by (induction m) (auto simp: ordered_Cons)

lemma set_om_insert_subset: "set (om_insert k v m) \<subseteq> insert (k, v) (set m)"
  by (induction m) auto

lemma ordered_om_insert: "ordered m \<Longrightarrow> ordered (om_insert k v m)"
proof (induction m)
  case (Cons e es)
  have s: "x = (k, v) \<or> x \<in> set es" if "x \<in> set (om_insert k v es)" for x
    using that set_om_insert_subset by fastforce
  show ?case
  proof (cases "k < fst e \<or> k = fst e")
    case True
    then show ?thesis using Cons.prems by (auto simp: ordered_Cons dest: order_less_trans)
  next
    case False
    then have "fst e < k" by auto
    then have "\<forall>x\<in>set (om_insert k v es). fst e < fst x"
      using s Cons.prems by (metis fst_conv ordered_Cons)
    then show ?thesis using False Cons by (simp add: ordered_Cons)
  qed
qed (simp add: ordered_def)

lemma ordered_om_erase: "ordered m \<Longrightarrow> ordered (om_erase k m)"
  by (induction m) (auto simp: om_erase_def ordered_Cons)

lemma map_of_om_insert: "ordered m \<Longrightarrow> map_of (om_insert k v m) = (map_of m)(k \<mapsto> v)"
proof (induction m)
  case (Cons e es)
  have out: "map_of es k = None" if "k < fst e"
    using Cons.prems that by (force simp: ordered_Cons map_of_eq_None_iff)
  obtain a b where e: "e = (a, b)" by (cases e)
  show ?case
  proof (cases "k < a")
    case True
    then show ?thesis by (auto simp: e fun_eq_iff)
  next
    case False
    then show ?thesis using Cons by (auto simp: ordered_Cons e)
  qed
qed simp

lemma map_of_om_erase: "map_of (om_erase k m) = (map_of m)(k := None)"
proof
  fix x show "map_of (om_erase k m) x = ((map_of m)(k := None)) x"
    by (induction m) (auto simp: om_erase_def)
qed

lemma mset_om_insert_new: "map_of m k = None \<Longrightarrow> mset (om_insert k v m) = add_mset (k, v) (mset m)"
  by (induction m) (auto split: if_splits)

lemma mset_om_erase:
  "ordered m \<Longrightarrow> map_of m k = Some v \<Longrightarrow> mset m = add_mset (k, v) (mset (om_erase k m))"
proof (induction m)
  case (Cons e es)
  obtain a b where e: "e = (a, b)" by (cases e)
  show ?case
  proof (cases "k = a")
    case True
    then have "om_erase k es = es"
      using Cons.prems by (fastforce simp: e om_erase_def ordered_Cons filter_id_conv)
    then show ?thesis using True Cons.prems by (simp add: e om_erase_def)
  next
    case False
    then show ?thesis using Cons by (auto simp: e om_erase_def ordered_Cons split: if_splits)
  qed
qed simp

lemma om_walk_order:
  "ordered m \<Longrightarrow> find P m = Some e \<Longrightarrow> map_of m (fst e) = Some (snd e) \<and> (\<forall>x\<in>set m. P x \<longrightarrow> fst e \<le> fst x)"
proof (induction m)
  case (Cons x xs)
  show ?case
  proof (cases "P x")
    case True
    then show ?thesis using Cons.prems by (auto simp: ordered_Cons intro: less_imp_le)
  next
    case False
    moreover have "fst e \<noteq> fst x"
    proof -
      have "e \<in> set xs" using Cons.prems(2) False by (auto simp: find_Some_iff)
      then show ?thesis using Cons.prems(1) by (auto simp: ordered_Cons)
    qed
    ultimately show ?thesis using Cons by (cases x) (auto simp: ordered_Cons)
  qed
qed simp

end
