(* ===== verification/MemoryManager.thy ===== *)
theory MemoryManager
  imports ProxyAllocator OrderedMap Monitors "HOL-Library.Signed_Division"
begin

section \<open>The memory manager\<close>

text \<open>
  \<open>MemoryManager.cpp\<close>: the records of the redirected allocations over the arena allocator,
  the script arena (the \<open>corral\<close>) that grows by segments, and the throttled tally of
  creations.  The file-level variables of the source are the record \<open>create_globals\<close>, the
  members of the class the record \<open>memory_manager\<close>.  What Windows answers a call (its
  environment block, the captured stack, the tick count, the outcome of a commit or a
  reservation) is the record \<open>mm_env\<close>, an argument of every operation; what an operation
  tells the rest of the process is the list of its events, in the order of the code.
\<close>

subsection \<open>Calls out\<close>

record mm_env =
  me_analytics :: bool
  me_logger :: bool
  me_getenv :: "string \<Rightarrow> string option"
  me_tick :: u32
  me_thread :: u32
  me_tls :: bool
  me_self :: "(u32 \<times> u32) option"
  me_frames :: "u32 list"
  me_avail :: "u32 option"
  me_commit :: "u32 \<Rightarrow> u32 \<Rightarrow> u32 \<Rightarrow> bool"
  me_reserve :: "u32 \<Rightarrow> u32"
  me_new :: bool
  me_page :: u32
  me_os :: arena_os

datatype mm_event =
    Counter string u64
  | AllocFail string u32 string u32
  | CreateTally u64 u64 u64 int u64 u64 u64 int
  | FloorActive u32 u32
  | VerboseEnter u32 ContainmentLane
  | VerboseMisaligned u32
  | VerboseExit u32
  | CommitFailed u32 u32 u32
  | SlotAssigned u32 u32 ContainmentLane u32
  | SlotReleased u32 u32
  | Decommit u32 u32
  | ReleaseRegion u32

definition count :: "mm_env \<Rightarrow> string \<Rightarrow> u64 \<Rightarrow> mm_event list" where
  "count env name n = (if me_analytics env then [Counter name n] else [])"

subsection \<open>Settings and the tally of creations\<close>

record create_globals =
  g_lowVasInit :: bool
  g_lowVasSkipBytes :: u32
  g_proxyCreateLogCfgInit :: bool
  g_proxyCreateVerbose :: bool
  g_proxyCreateTallyIntervalMs :: u32
  s_proxyCreateReqTotal :: u64
  s_proxyCreateOkTotal :: u64
  s_proxyCreateFailTotal :: u64
  s_proxyCreateBytesTotal :: u64
  s_proxyCreateReqSnap :: u64
  s_proxyCreateOkSnap :: u64
  s_proxyCreateFailSnap :: u64
  s_proxyCreateBytesSnap :: u64
  s_proxyCreateLastLogTick :: u32
  s_allocFailStreak :: u32
  s_lowVasGateLogged :: bool
  s_base :: u32
  s_end :: u32
  t_lastCreateSelfSkip :: "u32 \<Rightarrow> bool"

definition create_globals_init :: create_globals where
  "create_globals_init =
     \<lparr>g_lowVasInit = False, g_lowVasSkipBytes = 0, g_proxyCreateLogCfgInit = False,
      g_proxyCreateVerbose = False, g_proxyCreateTallyIntervalMs = 5000,
      s_proxyCreateReqTotal = 0, s_proxyCreateOkTotal = 0, s_proxyCreateFailTotal = 0,
      s_proxyCreateBytesTotal = 0, s_proxyCreateReqSnap = 0, s_proxyCreateOkSnap = 0,
      s_proxyCreateFailSnap = 0, s_proxyCreateBytesSnap = 0, s_proxyCreateLastLogTick = 0,
      s_allocFailStreak = 0, s_lowVasGateLogged = False, s_base = 0, s_end = 0,
      t_lastCreateSelfSkip = (\<lambda>_. False)\<rparr>"

definition LastCreateWasSelfSkip :: "mm_env \<Rightarrow> create_globals \<Rightarrow> bool" where
  "LastCreateWasSelfSkip env g \<longleftrightarrow> me_tls env \<and> t_lastCreateSelfSkip g (me_thread env)"

definition set_self_skip :: "mm_env \<Rightarrow> bool \<Rightarrow> create_globals \<Rightarrow> create_globals" where
  "set_self_skip env b g =
     (if me_tls env then g\<lparr>t_lastCreateSelfSkip := (t_lastCreateSelfSkip g)(me_thread env := b)\<rparr> else g)"

definition ResolveLowVasSkipBytes :: "mm_env \<Rightarrow> create_globals \<Rightarrow> u32 \<times> create_globals" where
  "ResolveLowVasSkipBytes env g =
     (let g = (if g_lowVasInit g then g
               else (let g = g\<lparr>g_lowVasInit := True\<rparr>
                     in case env_in_buf 32 (me_getenv env ''TS3VAS_LOWVAS_SKIP_MB'') of
                          None \<Rightarrow> g
                        | Some v \<Rightarrow> g\<lparr>g_lowVasSkipBytes :=
                            (if atoi v \<le> 0 then 0 else word_of_int (atoi v) * 1024 * 1024)\<rparr>))
      in (g_lowVasSkipBytes g, g))"

definition ResolveDynamicLowVasSkipBytes :: "u32 \<Rightarrow> u32" where
  "ResolveDynamicLowVasSkipBytes base = base"

definition InitProxyCreateLogCfg :: "mm_env \<Rightarrow> create_globals \<Rightarrow> create_globals" where
  "InitProxyCreateLogCfg env g =
     (if g_proxyCreateLogCfgInit g then g
      else (let g = g\<lparr>g_proxyCreateLogCfgInit := True\<rparr>;
                g = (case env_in_buf 32 (me_getenv env ''TS3VAS_VERBOSE_PROXY_CREATE_LOGS'') of
                       None \<Rightarrow> g | Some v \<Rightarrow> if says_yes v then g\<lparr>g_proxyCreateVerbose := True\<rparr> else g)
            in case env_in_buf 32 (me_getenv env ''TS3VAS_PROXY_TALLY_MS'') of
                 None \<Rightarrow> g
               | Some v \<Rightarrow> if atoi v \<ge> 250
                           then g\<lparr>g_proxyCreateTallyIntervalMs := word_of_int (atoi v)\<rparr> else g))"

definition MaybeLogProxyCreateTally :: "mm_env \<Rightarrow> create_globals \<Rightarrow> mm_event list \<times> create_globals" where
  "MaybeLogProxyCreateTally env g =
     (if \<not> me_logger env then ([], g)
      else if me_tick env - s_proxyCreateLastLogTick g < g_proxyCreateTallyIntervalMs g then ([], g)
      else (let req = s_proxyCreateReqTotal g; ok = s_proxyCreateOkTotal g;
                fail = s_proxyCreateFailTotal g; bytes = s_proxyCreateBytesTotal g
            in ([CreateTally (req - s_proxyCreateReqSnap g) (ok - s_proxyCreateOkSnap g)
                   (fail - s_proxyCreateFailSnap g)
                   (sint (bytes - s_proxyCreateBytesSnap g) sdiv (1024 * 1024))
                   req ok fail (sint bytes sdiv (1024 * 1024))],
                g\<lparr>s_proxyCreateLastLogTick := me_tick env, s_proxyCreateReqSnap := req,
                  s_proxyCreateOkSnap := ok, s_proxyCreateFailSnap := fail,
                  s_proxyCreateBytesSnap := bytes\<rparr>)))"

subsection \<open>Counters by size and lane\<close>

definition bucket_name :: "u32 \<Rightarrow> string" where
  "bucket_name sz =
     (if sz < 256 * 1024 then ''128to256KB'' else if sz < 512 * 1024 then ''256to512KB''
      else if sz < 1024 * 1024 then ''512KBto1MB'' else if sz < 4 * 1024 * 1024 then ''1to4MB''
      else if sz < 16 * 1024 * 1024 then ''4to16MB'' else ''16MBplus'')"

definition ProxyBucket :: "mm_env \<Rightarrow> string \<Rightarrow> u32 \<Rightarrow> mm_event list" where
  "ProxyBucket env prefx sz =
     (if prefx \<in> {''PROXY_Alloc_Request'', ''PROXY_Alloc_Succeeded'', ''PROXY_Alloc_Failed''}
      then count env (prefx @ ''_'' @ bucket_name sz) 1 else [])"

definition band_name :: "u32 \<Rightarrow> string" where
  "band_name sz =
     (if sz < 4 * 1024 then ''0to4KB'' else if sz < 64 * 1024 then ''4to64KB''
      else if sz < 256 * 1024 then ''64to256KB'' else if sz < 512 * 1024 then ''256to512KB''
      else if sz < 1024 * 1024 then ''512KBto1MB'' else if sz < 4 * 1024 * 1024 then ''1to4MB''
      else if sz < 16 * 1024 * 1024 then ''4to16MB'' else ''16MBplus'')"

definition RecordProxyBandPair :: "mm_env \<Rightarrow> string \<Rightarrow> string \<Rightarrow> u32 \<Rightarrow> mm_event list" where
  "RecordProxyBandPair env cntPrefix bytePrefix sz =
     count env (cntPrefix @ ''_'' @ band_name sz) 1 @ count env (bytePrefix @ ''_'' @ band_name sz) (ucast sz)"

definition LaneFailTag :: "ContainmentLane \<Rightarrow> string" where
  "LaneFailTag ln =
     (case ln of LANE_EXCLUDED_A \<Rightarrow> ''Excluded'' | LANE_EXCLUDED_B \<Rightarrow> ''Excluded''
      | LANE_EXCLUDED_C \<Rightarrow> ''Excluded'' | LANE_EXCLUDED_D \<Rightarrow> ''Excluded'' | _ \<Rightarrow> ''Contained'')"

definition RecordAllocFailForLane ::
  "mm_env \<Rightarrow> ContainmentLane \<Rightarrow> string \<Rightarrow> u32 \<Rightarrow> create_globals \<Rightarrow> mm_event list \<times> create_globals"
where
  "RecordAllocFailForLane env ln reason sz g =
     (let streak = s_allocFailStreak g + 1
      in (count env (''PROXY_Alloc_Fail_'' @ LaneFailTag ln) 1 @
          (if reason \<noteq> [] then count env (''PROXY_Alloc_Fail_'' @ LaneFailTag ln @ ''_'' @ reason) 1 else []) @
          [AllocFail (LaneFailTag ln) sz reason streak],
          g\<lparr>s_allocFailStreak := streak\<rparr>))"

definition RecordAllocSuccessStreakReset :: "create_globals \<Rightarrow> create_globals" where
  "RecordAllocSuccessStreakReset g = g\<lparr>s_allocFailStreak := 0\<rparr>"

subsection \<open>State\<close>

record ProxyAllocRecord =
  proxy_base :: u32
  proxy_size :: u32
  protection :: u32
  lane :: ContainmentLane
  alloc_tick :: u32

record corral_seg =
  m_corralSegBase :: u32
  m_corralSegSize :: u32
  m_corralSegAlloc :: proxy_allocator

text \<open>The three segment arrays are one list, of length \<open>m_corralSegCount\<close>.\<close>

record memory_manager =
  m_proxyAllocator :: proxy_allocator
  m_allocations :: "(u32 \<times> ProxyAllocRecord) list"
  m_pageSize :: u32
  m_proxyMaxBytes :: u32
  m_corralSegs :: "corral_seg list"
  m_corralStartBytes :: u32
  m_corralGrowFloor :: u32
  m_corralMaxReserved :: u32
  m_corralTotalReserved :: u32
  m_corralSizes :: "(u32 \<times> u32) list"
  m_corralPeakBytes :: u64
  m_corralReady :: bool

definition kMaxCorralSegs :: nat where "kMaxCorralSegs = 64"

definition PROXY_ARENA_SIZE :: u32 where "PROXY_ARENA_SIZE = 1024 * 1024 * 1024"

definition new_allocator :: "mm_env \<Rightarrow> proxy_allocator" where
  "new_allocator env = ProxyAllocator_init (me_page env)
     (me_getenv env ''TS3VAS_PROXY_ARENA_GRAN_KB'') (me_getenv env ''TS3VAS_PROXY_TOPDOWN_KB'')"

definition MemoryManager_init :: "mm_env \<Rightarrow> memory_manager" where
  "MemoryManager_init env =
     \<lparr>m_proxyAllocator = new_allocator env, m_allocations = [], m_pageSize = me_page env,
      m_proxyMaxBytes = 0, m_corralSegs = [], m_corralStartBytes = 0, m_corralGrowFloor = 0,
      m_corralMaxReserved = 0, m_corralTotalReserved = 0, m_corralSizes = [],
      m_corralPeakBytes = 0, m_corralReady = False\<rparr>"

text \<open>The destructor decommits the live slots, releases the segments and shuts the arena down.\<close>

definition MemoryManager_destroy :: "memory_manager \<Rightarrow> mm_event list \<times> memory_manager" where
  "MemoryManager_destroy m =
     (map (\<lambda>e. Decommit (proxy_base (snd e)) (proxy_size (snd e))) (m_allocations m) @
      concat (map (\<lambda>s. if m_corralSegBase s \<noteq> 0 then [ReleaseRegion (m_corralSegBase s)] else []) (m_corralSegs m)),
      m\<lparr>m_allocations := [], m_corralSegs := [], m_proxyAllocator := Shutdown (m_proxyAllocator m)\<rparr>)"

subsection \<open>The script arena\<close>

definition EnvMb :: "string option \<Rightarrow> u32 \<Rightarrow> u32" where
  "EnvMb e dfltMb =
     (let mb = (case env_in_buf 32 e of None \<Rightarrow> 0 | Some v \<Rightarrow> ucast (strtoui64 v));
          mb = (if mb = 0 then dfltMb else mb)
      in mb * 1024 * 1024)"

definition AddCorralSegment ::
  "mm_env \<Rightarrow> u32 \<Rightarrow> memory_manager \<Rightarrow> bool \<times> mm_event list \<times> memory_manager" where
  "AddCorralSegment env sz m =
     (if length (m_corralSegs m) \<ge> kMaxCorralSegs then (False, [], m)
      else if m_corralMaxReserved m \<noteq> 0 \<and> m_corralTotalReserved m + sz > m_corralMaxReserved m
      then (False, [], m)
      else (let base = me_reserve env sz in
        if base = 0 then (False, [], m)
        else if \<not> me_new env then (False, [ReleaseRegion base], m)
        else (case InitFromShared (me_os env) base sz (new_allocator env) of
                (ok, a) \<Rightarrow>
                  if \<not> ok then (False, [ReleaseRegion base], m)
                  else (True, [],
                        m\<lparr>m_corralSegs := m_corralSegs m @
                            [\<lparr>m_corralSegBase = base, m_corralSegSize = sz, m_corralSegAlloc = a\<rparr>],
                          m_corralTotalReserved := m_corralTotalReserved m + sz\<rparr>))))"

definition InitScriptArena :: "mm_env \<Rightarrow> memory_manager \<Rightarrow> bool \<times> mm_event list \<times> memory_manager" where
  "InitScriptArena env m =
     (let m = m\<lparr>m_corralStartBytes := EnvMb (me_getenv env ''TS3VAS_SCRIPT_ARENA_MB'') 126,
                m_corralGrowFloor := EnvMb (me_getenv env ''TS3VAS_SCRIPT_ARENA_GROW_MB'') 32,
                m_corralMaxReserved := EnvMb (me_getenv env ''TS3VAS_SCRIPT_ARENA_MAX_MB'') 512\<rparr>
      in case AddCorralSegment env (m_corralStartBytes m) m of
           (ok, ev, m) \<Rightarrow> (ok, ev, m\<lparr>m_corralReady := ok\<rparr>))"

text \<open>The first loop of \<open>CorralReserve\<close>: a segment that cannot serve the request counts a failure.\<close>

fun corral_try :: "u32 \<Rightarrow> corral_seg list \<Rightarrow> u32 \<times> nat \<times> corral_seg list" where
  "corral_try sz [] = (0, 0, [])"
| "corral_try sz (s # ss) =
     (case Allocate sz False (m_corralSegAlloc s) of
        (p, a) \<Rightarrow>
          if p \<noteq> 0 then (p, 0, s\<lparr>m_corralSegAlloc := a\<rparr> # ss)
          else (case corral_try sz ss of (q, i, ss') \<Rightarrow> (q, Suc i, s\<lparr>m_corralSegAlloc := a\<rparr> # ss')))"

definition on_seg :: "nat \<Rightarrow> (proxy_allocator \<Rightarrow> proxy_allocator) \<Rightarrow> corral_seg list \<Rightarrow> corral_seg list" where
  "on_seg i f ss = ss[i := (ss ! i)\<lparr>m_corralSegAlloc := f (m_corralSegAlloc (ss ! i))\<rparr>]"

definition corral_used :: "corral_seg list \<Rightarrow> u32" where
  "corral_used ss = fold (\<lambda>s used. used + usedBytes (GetStats (m_corralSegAlloc s))) ss 0"

text \<open>The slot for a request: from the segments there are, or from a new one.\<close>

definition corral_slot ::
  "mm_env \<Rightarrow> u32 \<Rightarrow> memory_manager \<Rightarrow> u32 \<times> nat \<times> mm_event list \<times> memory_manager" where
  "corral_slot env sz m =
     (case corral_try sz (m_corralSegs m) of
        (p, i, ss) \<Rightarrow>
          let m = m\<lparr>m_corralSegs := ss\<rparr> in
          if p \<noteq> 0 then (p, i, [], m)
          else (let segSz = sz * 2;
                    segSz = (if segSz < m_corralGrowFloor m then m_corralGrowFloor m else segSz)
                in case AddCorralSegment env segSz m of
                     (ok, ev, m) \<Rightarrow>
                       if \<not> ok then (0, 0, ev, m)
                       else (let i = length (m_corralSegs m) - 1;
                                 (p, a) = Allocate sz False (m_corralSegAlloc (m_corralSegs m ! i))
                             in (p, i, ev, m\<lparr>m_corralSegs := on_seg i (\<lambda>_. a) (m_corralSegs m)\<rparr>))))"

definition CorralReserve ::
  "mm_env \<Rightarrow> u32 \<Rightarrow> u32 \<Rightarrow> u32 \<Rightarrow> memory_manager \<Rightarrow> u32 \<times> mm_event list \<times> memory_manager" where
  "CorralReserve env sz allocType protect m =
     (if \<not> m_corralReady m \<or> sz = 0 then (0, [], m)
      else (case corral_slot env sz m of
        (slot, i, ev, m) \<Rightarrow>
          if slot = 0 then (0, ev, m)
          else if allocType AND MEM_COMMIT \<noteq> 0 \<and>
                  \<not> me_commit env slot sz (if protect \<noteq> 0 then protect else PAGE_READWRITE)
          then (0, ev, m\<lparr>m_corralSegs := on_seg i (Free slot sz) (m_corralSegs m)\<rparr>)
          else (let m = m\<lparr>m_corralSizes := om_insert slot sz (m_corralSizes m)\<rparr>;
                    used = ucast (corral_used (m_corralSegs m)) :: u64
                in (slot, ev, if sint used \<le> sint (m_corralPeakBytes m) then m
                              else m\<lparr>m_corralPeakBytes := used\<rparr>))))"

definition in_seg :: "u32 \<Rightarrow> corral_seg \<Rightarrow> bool" where
  "in_seg a s \<longleftrightarrow> a \<ge> m_corralSegBase s \<and> a < m_corralSegBase s + m_corralSegSize s"

fun seg_index :: "u32 \<Rightarrow> corral_seg list \<Rightarrow> nat option" where
  "seg_index a [] = None"
| "seg_index a (s # ss) = (if in_seg a s then Some 0 else map_option Suc (seg_index a ss))"

definition CorralFree :: "u32 \<Rightarrow> memory_manager \<Rightarrow> bool \<times> mm_event list \<times> memory_manager" where
  "CorralFree addr m =
     (if \<not> m_corralReady m \<or> addr = 0 then (False, [], m)
      else (case map_of (m_corralSizes m) addr of
        None \<Rightarrow> (False, [], m)
      | Some sz \<Rightarrow>
          (let m = m\<lparr>m_corralSizes := om_erase addr (m_corralSizes m)\<rparr>
           in case (if sz = 0 then None else seg_index addr (m_corralSegs m)) of
                None \<Rightarrow> (False, [], m)
              | Some i \<Rightarrow> (True, [Decommit addr sz],
                           m\<lparr>m_corralSegs := on_seg i (Free addr sz) (m_corralSegs m)\<rparr>))))"

definition IsCorralAddress :: "u32 \<Rightarrow> memory_manager \<Rightarrow> bool" where
  "IsCorralAddress addr m \<longleftrightarrow>
     m_corralReady m \<and> addr \<noteq> 0 \<and> (\<exists>s\<in>set (m_corralSegs m). in_seg addr s)"

definition GetCorralUsedBytes :: "memory_manager \<Rightarrow> u32" where
  "GetCorralUsedBytes m = (if \<not> m_corralReady m then 0 else corral_used (m_corralSegs m))"

text \<open>Used, peak and reserved MB, segments, fill in percent, slots, and the note of the line.\<close>

definition ReportCorralUsage ::
  "mm_env \<Rightarrow> memory_manager \<Rightarrow> (u32 \<times> u32 \<times> u32 \<times> nat \<times> u32 \<times> u64 \<times> string) option" where
  "ReportCorralUsage env m =
     (if \<not> m_corralReady m \<or> \<not> me_logger env then None
      else (let segs = length (m_corralSegs m);
                slots = fold (\<lambda>s n. n + activeAllocations (GetStats (m_corralSegAlloc s))) (m_corralSegs m) 0;
                usedMb = corral_used (m_corralSegs m) div (1024 * 1024);
                peakMb = word_of_int (sint (m_corralPeakBytes m) sdiv (1024 * 1024));
                rsvMb = m_corralTotalReserved m div (1024 * 1024);
                fillPct = (if rsvMb \<noteq> 0 then (peakMb * 100) div rsvMb else 0)
            in Some (usedMb, peakMb, rsvMb, segs, fillPct, slots,
                 if segs \<ge> kMaxCorralSegs then ''at segment cap''
                 else if m_corralTotalReserved m \<ge> m_corralMaxReserved m then ''at VAS cap'' else '''')))"

subsection \<open>Whose allocation it is\<close>

text \<open>
  The walk over the captured frames: the leading run in the DLL's own module is the hook
  itself, a frame of the module above it is the DLL's own code.
\<close>

fun self_reappears :: "u32 \<Rightarrow> u32 \<Rightarrow> bool \<Rightarrow> u32 list \<Rightarrow> bool" where
  "self_reappears lo hi pastInfra [] = False"
| "self_reappears lo hi pastInfra (a # as) =
     (let isSelf = (a \<ge> lo \<and> a < hi)
      in if \<not> pastInfra \<and> isSelf then self_reappears lo hi False as
         else if isSelf then True
         else self_reappears lo hi True as)"

definition CallerIsSelf :: "mm_env \<Rightarrow> create_globals \<Rightarrow> bool \<times> create_globals" where
  "CallerIsSelf env g =
     (let g = (if s_base g = 0
               then (case me_self env of
                       None \<Rightarrow> g
                     | Some (base, isize) \<Rightarrow> g\<lparr>s_end := base + isize, s_base := base\<rparr>)
               else g)
      in (s_base g \<noteq> 0 \<and> self_reappears (s_base g) (s_end g) False (take 32 (me_frames env)), g))"

subsection \<open>Creating and freeing a redirected allocation\<close>

definition IsProxyAddress_mm :: "u32 \<Rightarrow> memory_manager \<Rightarrow> bool" where
  "IsProxyAddress_mm p m = IsProxyAddress p (m_proxyAllocator m)"

text \<open>What every failed creation records first.\<close>

definition note_create_failure ::
  "mm_env \<Rightarrow> ContainmentLane \<Rightarrow> string \<Rightarrow> u32 \<Rightarrow> create_globals \<Rightarrow> mm_event list \<times> create_globals" where
  "note_create_failure env ln reason sz g =
     (let g = g\<lparr>s_proxyCreateReqTotal := s_proxyCreateReqTotal g + 1,
                s_proxyCreateBytesTotal := s_proxyCreateBytesTotal g + ucast sz,
                s_proxyCreateFailTotal := s_proxyCreateFailTotal g + 1\<rparr>;
          (ev, g) = RecordAllocFailForLane env ln reason sz g;
          (ev', g) = MaybeLogProxyCreateTally env g
      in (ev @ ev', g))"

text \<open>A rejected slot goes back to the allocator.\<close>

definition reject_slot :: "u32 \<Rightarrow> u32 \<Rightarrow> memory_manager \<Rightarrow> memory_manager" where
  "reject_slot p sz m = m\<lparr>m_proxyAllocator := Free p sz (m_proxyAllocator m)\<rparr>"

text \<open>The two intentional skips, before anything is counted.\<close>

definition create_skip :: "mm_env \<Rightarrow> u32 \<Rightarrow> memory_manager \<Rightarrow> create_globals \<Rightarrow> string option \<times> create_globals" where
  "create_skip env sz m g =
     (let g = set_self_skip env False g;
          (self, g) = CallerIsSelf env g
      in if self then (Some ''PROXY_Skipped_SelfAlloc'', set_self_skip env True g)
         else if m_proxyMaxBytes m \<noteq> 0 \<and> sz \<ge> m_proxyMaxBytes m
         then (Some ''PROXY_Skipped_TooBig'', set_self_skip env True g)
         else (None, g))"

text \<open>What is recorded between the skips and the request to the arena.\<close>

definition create_enter ::
  "mm_env \<Rightarrow> u32 \<Rightarrow> ContainmentLane \<Rightarrow> create_globals \<Rightarrow> mm_event list \<times> create_globals" where
  "create_enter env sz ln g =
     (let g = InitProxyCreateLogCfg env g;
          ev = (if g_proxyCreateVerbose g then [VerboseEnter sz ln] else []) @ ProxyBucket env ''PROXY_Alloc_Request'' sz;
          (base, g) = ResolveLowVasSkipBytes env g;
          low = ResolveDynamicLowVasSkipBytes base;
          ev = ev @ (if \<not> s_lowVasGateLogged g \<and> me_logger env
                     then [FloorActive (base div (1024 * 1024)) (low div (1024 * 1024))] else []);
          g = g\<lparr>s_lowVasGateLogged := True\<rparr>;
          ev = ev @ (if low > 0 \<and> (case me_avail env of None \<Rightarrow> False | Some a \<Rightarrow> a < low)
                     then count env ''PROXY_LowVAS_PressureSignal'' 1 else [])
      in (ev, g))"

text \<open>What is recorded for a slot that is handed out.\<close>

definition create_succeed ::
  "mm_env \<Rightarrow> u32 \<Rightarrow> u32 \<Rightarrow> u32 \<Rightarrow> ContainmentLane \<Rightarrow> create_globals \<Rightarrow> mm_event list \<times> create_globals" where
  "create_succeed env p sz protect ln g =
     (let tag = (if ln \<in> {LANE_EXCLUDED_A, LANE_EXCLUDED_B, LANE_EXCLUDED_C, LANE_EXCLUDED_D}
                 then ''Excluded'' else ''Contained'');
          ev = count env (''PROXY_Alloc_'' @ tag @ ''_Count'') 1 @
               count env (''PROXY_Alloc_'' @ tag @ ''_Bytes'') (ucast sz) @
               count env ''PROXY_Allocations_Local_Count'' 1 @
               count env ''PROXY_Allocations_Local'' (ucast sz) @
               RecordProxyBandPair env ''ProxySize'' ''ProxyBytes'' sz @
               ProxyBucket env ''PROXY_Alloc_Succeeded'' sz;
          g = g\<lparr>s_proxyCreateReqTotal := s_proxyCreateReqTotal g + 1,
                s_proxyCreateBytesTotal := s_proxyCreateBytesTotal g + ucast sz,
                s_proxyCreateOkTotal := s_proxyCreateOkTotal g + 1\<rparr>;
          (ev', g) = MaybeLogProxyCreateTally env (RecordAllocSuccessStreakReset g)
      in (ev @ ev' @ [SlotAssigned p sz ln protect] @ (if g_proxyCreateVerbose g then [VerboseExit p] else []), g))"

definition CreateProxyAllocation ::
  "mm_env \<Rightarrow> u32 \<Rightarrow> u32 \<Rightarrow> ContainmentLane \<Rightarrow> memory_manager \<times> create_globals \<Rightarrow>
   u32 \<times> mm_event list \<times> memory_manager \<times> create_globals" where
  "CreateProxyAllocation env sz protect ln s =
     (case s of (m, g) \<Rightarrow>
      case create_skip env sz m g of
        (Some why, g) \<Rightarrow> (0, count env why 1, m, g)
      | (None, g) \<Rightarrow>
         (case create_enter env sz ln g of (ev, g) \<Rightarrow>
          case Allocate sz (PrefersTopDown sz (m_proxyAllocator m)) (m_proxyAllocator m) of (p, pa) \<Rightarrow>
            let m = m\<lparr>m_proxyAllocator := pa\<rparr> in
            if p = 0
            then (case note_create_failure env ln ''ProxyExhausted'' sz g of (ev', g) \<Rightarrow>
                  (0, ev @ ev' @ ProxyBucket env ''PROXY_Alloc_Failed'' sz @
                      count env ''PROXY_Allocations_Failed_Proxy'' 1 @
                      count env ''PROXY_Allocations_Failed_Bytes'' (ucast sz), m, g))
            else if \<not> IsProxyAddress p (m_proxyAllocator m)
            then (case note_create_failure env ln ''NonProxySlot'' sz g of (ev', g) \<Rightarrow>
                  (0, ev @ ev' @ count env ''PROXY_Allocations_Failed_NonProxySlot'' 1 @
                      ProxyBucket env ''PROXY_Alloc_Failed'' sz, reject_slot p sz m, g))
            else if p AND (m_pageSize m - 1) \<noteq> 0
            then (case note_create_failure env ln ''MisalignedProxy'' sz g of (ev', g) \<Rightarrow>
                  (0, ev @ (if g_proxyCreateVerbose g then [VerboseMisaligned p] else []) @ ev' @
                      count env ''PROXY_Allocations_Failed_MisalignedProxy'' 1 @
                      ProxyBucket env ''PROXY_Alloc_Failed'' sz, reject_slot p sz m, g))
            else if \<not> me_commit env p sz (if protect \<noteq> 0 then protect else PAGE_READWRITE)
            then (case note_create_failure env ln ''EagerCommitFail'' sz g of (ev', g) \<Rightarrow>
                  (0, ev @ [CommitFailed p sz (if protect \<noteq> 0 then protect else PAGE_READWRITE)] @ ev' @
                      count env ''PROXY_Allocations_Failed_EagerCommit'' 1 @
                      ProxyBucket env ''PROXY_Alloc_Failed'' sz, reject_slot p sz m, g))
            else (case create_succeed env p sz protect ln g of (ev', g) \<Rightarrow>
                  (p, ev @ ev',
                   m\<lparr>m_allocations := om_insert p
                       \<lparr>proxy_base = p, proxy_size = sz, protection = protect, lane = ln,
                        alloc_tick = me_tick env\<rparr> (m_allocations m)\<rparr>, g))))"

definition FreeProxyAllocation :: "mm_env \<Rightarrow> u32 \<Rightarrow> memory_manager \<Rightarrow> bool \<times> mm_event list \<times> memory_manager" where
  "FreeProxyAllocation env p m =
     (if \<not> IsProxyAddress_mm p m then (False, [], m)
      else (case map_of (m_allocations m) p of
        None \<Rightarrow> (False, [], m)
      | Some r \<Rightarrow>
          (True, [Decommit (proxy_base r) (proxy_size r)] @
                 RecordProxyBandPair env ''FreeSize'' ''FreeBytes'' (proxy_size r) @
                 [SlotReleased p (proxy_size r)],
           m\<lparr>m_allocations := om_erase p (m_allocations m),
             m_proxyAllocator := Free p (proxy_size r) (m_proxyAllocator m)\<rparr>)))"

definition FindRecordByAddress :: "u32 \<Rightarrow> memory_manager \<Rightarrow> ProxyAllocRecord option" where
  "FindRecordByAddress a m =
     map_option snd (find (\<lambda>e. a \<ge> fst e \<and> a < fst e + proxy_size (snd e)) (m_allocations m))"

subsection \<open>Initialisation and reports\<close>

definition MemoryManager_Initialize ::
  "mm_env \<Rightarrow> memory_manager \<Rightarrow> bool \<times> mm_event list \<times> memory_manager" where
  "MemoryManager_Initialize env m =
     (case Initialize (me_os env) PROXY_ARENA_SIZE (m_proxyAllocator m) of
        (ok, pa) \<Rightarrow>
          let m = m\<lparr>m_proxyAllocator := pa, m_proxyMaxBytes := EnvMb (me_getenv env ''TS3VAS_PROXY_MAX_MB'') 0\<rparr>
          in if me_getenv env ''TS3VAS_SCRIPT_ARENA'' = Some ''0'' then (ok, [], m)
             else (case InitScriptArena env m of (_, ev, m) \<Rightarrow> (ok, ev, m)))"

record mm_stats =
  proxyArenaSize :: u32
  proxyUsedBytes :: u32
  proxyFreeBytes :: u32
  proxyLargestFreeSpan :: u32
  mm_activeAllocations :: u64
  mm_totalAllocationRequests :: u64
  mm_totalAllocationFailures :: u64
  mm_totalGrantedBytes :: u64
  mm_totalFreedBytes :: u64
  mm_totalReusedBytes :: u64

definition GetStats_mm :: "memory_manager \<Rightarrow> mm_stats" where
  "GetStats_mm m =
     (let pa = GetStats (m_proxyAllocator m)
      in \<lparr>proxyArenaSize = arenaSize pa, proxyUsedBytes = usedBytes pa, proxyFreeBytes = freeBytes pa,
          proxyLargestFreeSpan = largestFreeSpan pa, mm_activeAllocations = activeAllocations pa,
          mm_totalAllocationRequests = totalAllocationRequests pa,
          mm_totalAllocationFailures = totalAllocationFailures pa,
          mm_totalGrantedBytes = totalGrantedBytes pa, mm_totalFreedBytes = totalFreedBytes pa,
          mm_totalReusedBytes = totalReusedBytes pa\<rparr>)"

text \<open>The lines of the report; a loss in percent is the pair of its lost and its granted bytes.\<close>

datatype stats_line =
    ArenaLine u32 u32 u32 u32 u64 u32
  | LossLine string u64 u64 u64 u64
  | ReuseLine u64 u64 u64 u32

definition kBandLbl :: "string list" where
  "kBandLbl = [''0-4KB'', ''4-64KB'', ''64-256KB'', ''256-512KB'', ''512KB-1MB'', ''1-4MB'', ''4-16MB'', ''16MB+'']"

definition loss_lines :: "pa_stats \<Rightarrow> stats_line list" where
  "loss_lines pa =
     concat (map (\<lambda>b. let actB = bandSlotBytes pa ! b; rqB = bandReqBytes pa ! b;
                          lost = (if actB > rqB then actB - rqB else 0)
                      in if actB = 0 then []
                         else [LossLine (kBandLbl ! b) (rqB div (1024 * 1024)) (actB div (1024 * 1024)) lost actB])
                 [0..<8])"

definition ReportStats :: "mm_env \<Rightarrow> memory_manager \<Rightarrow> stats_line list" where
  "ReportStats env m =
     (if \<not> me_logger env then []
      else (let s = GetStats_mm m; pa = GetStats (m_proxyAllocator m)
            in [ArenaLine (proxyUsedBytes s div (1024 * 1024)) (proxyFreeBytes s div (1024 * 1024))
                  (proxyLargestFreeSpan s div (1024 * 1024)) (proxyArenaSize s div (1024 * 1024))
                  (mm_activeAllocations s) (m_allocGranularity (m_proxyAllocator m) div 1024)] @
               loss_lines pa @
               [ReuseLine (classCachedBytes pa div (1024 * 1024)) (totalReusedBytes pa div (1024 * 1024))
                  (totalGrantedBytes pa div (1024 * 1024))
                  (if totalGrantedBytes pa \<noteq> 0
                   then ucast ((totalReusedBytes pa * 100) div totalGrantedBytes pa) else 0)]))"

end
