(* ===== verification/AddressMap.thy ===== *)
theory AddressMap
  imports SlotContract OrderedMap
begin

section \<open>The contract of a registry of slots\<close>

text \<open>
  The memory manager hands out slots and takes them back in two places, the arena and the
  script arena.  What its callers may rely on is one abstract object: a map from addresses to
  sizes.  A creation that answers an address adds a range that overlaps no range of the map, a
  release answers whether the address is in the map and removes it.  A trace of calls and
  answers is accepted when every answer is one the map allows.
\<close>

datatype slot_call = Created u32 u32 | FreedAt u32 bool

fun addr_map :: "slot_call list \<Rightarrow> (u32 \<rightharpoonup> u32) \<Rightarrow> (u32 \<rightharpoonup> u32) option" where
  "addr_map [] A = Some A"
| "addr_map (Created n p # cs) A =
     (if p = 0 then addr_map cs A
      else if \<exists>q k. A q = Some k \<and> \<not> apart (p, n) (q, k) then None
      else addr_map cs (A(p \<mapsto> n)))"
| "addr_map (FreedAt p b # cs) A =
     (if b = (A p \<noteq> None) then addr_map cs (A(p := None)) else None)"

fun slot_trace :: "('op \<Rightarrow> 's \<Rightarrow> slot_call \<times> 's) \<Rightarrow> 'op list \<Rightarrow> 's \<Rightarrow> slot_call list \<times> 's" where
  "slot_trace step [] s = ([], s)"
| "slot_trace step (a # as) s =
     (let (c, s1) = step a s; (cs, s2) = slot_trace step as s1 in (c # cs, s2))"

text \<open>Every step of the run meets its condition in the state it is taken in.\<close>

fun run_meets :: "('s \<Rightarrow> 'op \<Rightarrow> bool) \<Rightarrow> ('op \<Rightarrow> 's \<Rightarrow> slot_call \<times> 's) \<Rightarrow> 'op list \<Rightarrow> 's \<Rightarrow> bool" where
  "run_meets cond step [] s = True"
| "run_meets cond step (a # as) s \<longleftrightarrow> cond s a \<and> run_meets cond step as (snd (step a s))"

locale slot_registry =
  fixes step :: "'op \<Rightarrow> 's \<Rightarrow> slot_call \<times> 's"
    and inv :: "'s \<Rightarrow> bool"
    and cond :: "'s \<Rightarrow> 'op \<Rightarrow> bool"
    and recs :: "'s \<Rightarrow> u32 \<rightharpoonup> u32"
  assumes step_inv: "inv s \<Longrightarrow> cond s a \<Longrightarrow> step a s = (c, s') \<Longrightarrow> inv s'"
    and created_none: "inv s \<Longrightarrow> cond s a \<Longrightarrow> step a s = (Created n 0, s') \<Longrightarrow> recs s' = recs s"
    and created_some: "inv s \<Longrightarrow> cond s a \<Longrightarrow> step a s = (Created n p, s') \<Longrightarrow> p \<noteq> 0 \<Longrightarrow>
      recs s' = (recs s)(p \<mapsto> n) \<and> (\<forall>q k. recs s q = Some k \<longrightarrow> apart (p, n) (q, k))"
    and freed: "inv s \<Longrightarrow> cond s a \<Longrightarrow> step a s = (FreedAt p b, s') \<Longrightarrow>
      b = (recs s p \<noteq> None) \<and> recs s' = (recs s)(p := None)"
begin

text \<open>Every trace of the registry is one of the map, and the records are the map's.\<close>

lemma trace_accepted:
  assumes "inv s" "run_meets cond step as s" "slot_trace step as s = (cs, s')"
  shows "addr_map cs (recs s) = Some (recs s') \<and> inv s'"
  using assms
proof (induction as arbitrary: s cs)
  case Nil
  then show ?case by simp
next
  case (Cons a as)
  obtain c s1 where c: "step a s = (c, s1)" by (cases "step a s")
  obtain cs1 s2 where t: "slot_trace step as s1 = (cs1, s2)" by (cases "slot_trace step as s1")
  have r: "cs = c # cs1" "s' = s2" using Cons.prems(3) by (simp_all add: c t)
  have k: "inv s" "cond s a" using Cons.prems by simp_all
  have IH: "addr_map cs1 (recs s1) = Some (recs s') \<and> inv s'"
    using Cons.IH [of s1 cs1] step_inv [OF k c] Cons.prems(2) by (simp add: c t r)
  show ?case
  proof (cases c)
    case (Created n p)
    show ?thesis
    proof (cases "p = 0")
      case True
      then show ?thesis using IH created_none [OF k] c Created r by simp
    next
      case False
      then show ?thesis using IH created_some [OF k c [unfolded Created]] Created r by auto
    qed
  next
    case (FreedAt p b)
    then show ?thesis using IH freed [OF k c [unfolded FreedAt]] r by simp
  qed
qed

end

text \<open>Ranges of an accepted map never overlap.\<close>

lemma apart_sym: "apart a b \<Longrightarrow> apart b a"
  by (auto simp: apart_def)

lemma addr_map_apart:
  assumes "addr_map cs A = Some B" "\<forall>p n q k. A p = Some n \<longrightarrow> A q = Some k \<longrightarrow> p \<noteq> q \<longrightarrow> apart (p, n) (q, k)"
    "B p = Some n" "B q = Some k" "p \<noteq> q"
  shows "apart (p, n) (q, k)"
  using assms
proof (induction cs A rule: addr_map.induct)
  case (2 m r cs A)
  show ?case
  proof (cases "r = 0")
    case True
    then show ?thesis using 2 by simp
  next
    case False
    then have a: "\<forall>q k. A q = Some k \<longrightarrow> apart (r, m) (q, k)" and n: "addr_map cs (A(r \<mapsto> m)) = Some B"
      using "2.prems"(1) by (auto split: if_splits)
    have "\<forall>p n q k. (A(r \<mapsto> m)) p = Some n \<longrightarrow> (A(r \<mapsto> m)) q = Some k \<longrightarrow> p \<noteq> q \<longrightarrow> apart (p, n) (q, k)"
      using a "2.prems"(2) apart_sym by (auto split: if_splits)
    then show ?thesis using "2.IH"(2) False a n "2.prems"(3-5) by blast
  qed
next
  case (3 r b cs A)
  have "\<forall>p n q k. (A(r := None)) p = Some n \<longrightarrow> (A(r := None)) q = Some k \<longrightarrow> p \<noteq> q \<longrightarrow> apart (p, n) (q, k)"
    using "3.prems"(2) by (auto split: if_splits)
  moreover have "b = (A r \<noteq> None)" "addr_map cs (A(r := None)) = Some B"
    using "3.prems"(1) by (simp_all split: if_splits)
  ultimately show ?case using "3.IH" "3.prems"(3-5) by blast
qed simp

end
