(* ===== verification/ManagerProps.thy ===== *)
theory ManagerProps
  imports MemoryManager AddressMap ArenaProps
begin

section \<open>What the memory manager promises\<close>

text \<open>
  Redirected allocations and script-arena slots are both registries in the sense of
  \<open>AddressMap\<close>: whatever the environment answers, creations and releases behave as on a map
  from addresses to sizes.  The arena allocator's contract carries the proofs.
\<close>

subsection \<open>Live lists up to order\<close>

lemma pa_inv_mset:
  assumes "pa_inv pa live" "mset live = mset live'"
  shows "pa_inv pa live'"
proof -
  have "mset (cached (m_sizeClasses pa) @ map (slot (m_allocGranularity pa)) live) =
      mset (cached (m_sizeClasses pa) @ map (slot (m_allocGranularity pa)) live')"
    using assms(2) by (metis mset_append mset_map)
  then have "pa_core pa (map (slot (m_allocGranularity pa)) live') 0"
    using assms(1) geo_mset unfolding pa_inv_def pa_core_def by blast
  moreover have "length live = length live'" "set live = set live'"
    using assms(2) mset_eq_length mset_eq_setD by blast+
  ultimately show ?thesis
    using assms(1) sum_mset_list [OF assms(2)] unfolding pa_inv_def by simp
qed

text \<open>A new slot is apart from every live one, so its address is new.\<close>

lemma pa_inv_new_apart:
  assumes "pa_inv pa ((p, n) # live)" "(q, k) \<in> set live"
  shows "apart (p, n) (q, k)" "p \<noteq> q"
proof -
  show a: "apart (p, n) (q, k)" using arena.live_apart [OF assms(1)] assms(2) by simp
  have "0 < unat n" "0 < unat k"
    using pa_inv_geo(3) [OF assms(1)] assms(2) by (auto simp: req_ok_def)
  then show "p \<noteq> q" using a by (auto simp: apart_def)
qed

subsection \<open>Redirected allocations\<close>

definition mm_sizes :: "(u32 \<times> ProxyAllocRecord) list \<Rightarrow> (u32 \<times> u32) list" where
  "mm_sizes rs = map (\<lambda>e. (fst e, proxy_size (snd e))) rs"

text \<open>
  \<open>ext\<close> are the slots other parts of the program have taken from the arena: the heap shards
  and the redirected virtual allocations.
\<close>

definition mm_with :: "memory_manager \<Rightarrow> (u32 \<times> u32) list \<Rightarrow> bool" where
  "mm_with m ext \<longleftrightarrow> ordered (m_allocations m) \<and>
     pa_inv (m_proxyAllocator m) (mm_sizes (m_allocations m) @ ext) \<and>
     (\<forall>e\<in>set (m_allocations m). proxy_base (snd e) = fst e)"

abbreviation mm_inv :: "memory_manager \<Rightarrow> bool" where
  "mm_inv m \<equiv> mm_with m []"

definition mm_recs :: "memory_manager \<Rightarrow> u32 \<rightharpoonup> u32" where
  "mm_recs m p = map_option proxy_size (map_of (m_allocations m) p)"

lemma mm_recs_sizes: "mm_recs m p = map_of (mm_sizes (m_allocations m)) p"
  by (simp add: mm_recs_def mm_sizes_def map_of_map [symmetric] case_prod_beta) (metis (mono_tags, lifting) map_of_map case_prod_beta map_eq_conv comp_def)

lemma mm_recs_member: "mm_recs m q = Some k \<Longrightarrow> (q, k) \<in> set (mm_sizes (m_allocations m))"
  by (simp add: mm_recs_sizes map_of_SomeD)

text \<open>The commands to the manager, and the call a command turns out to be.\<close>

datatype mm_op = Create mm_env u32 u32 ContainmentLane | Dispose mm_env u32

fun mm_do :: "mm_op \<Rightarrow> memory_manager \<times> create_globals \<Rightarrow> slot_call \<times> memory_manager \<times> create_globals" where
  "mm_do (Create env sz protect ln) s =
     (case CreateProxyAllocation env sz protect ln s of (p, ev, s) \<Rightarrow> (Created sz p, s))"
| "mm_do (Dispose env p) (m, g) =
     (case FreeProxyAllocation env p m of (b, ev, m) \<Rightarrow> (FreedAt p b, m, g))"

fun mm_fits :: "u32 \<Rightarrow> mm_op \<Rightarrow> bool" where
  "mm_fits gr (Create env sz protect ln) = req_ok gr sz"
| "mm_fits gr (Dispose env p) = True"

definition mm_cond :: "memory_manager \<times> create_globals \<Rightarrow> mm_op \<Rightarrow> bool" where
  "mm_cond s a = mm_fits (m_allocGranularity (m_proxyAllocator (fst s))) a"

lemma reject_slot_undoes:
  assumes "pa_inv (m_proxyAllocator m) ((p, sz) # live)"
  shows "pa_inv (m_proxyAllocator (reject_slot p sz m)) live"
  using Free_step(1) [OF assms, of p sz] by (simp add: reject_slot_def)

lemma reject_slot_fields [simp]:
  "m_allocations (reject_slot p sz m) = m_allocations m"
  by (simp add: reject_slot_def)

text \<open>Every way through a creation: skipped, failed with the slot given back, or recorded.\<close>

lemma Create_cases:
  assumes "CreateProxyAllocation env sz protect ln (m, g) = (p, ev, m', g')"
  obtains (skip) "p = 0" "m' = m"
  | (full) pa where "p = 0" "Allocate sz (PrefersTopDown sz (m_proxyAllocator m)) (m_proxyAllocator m) = (0, pa)"
      "m' = m\<lparr>m_proxyAllocator := pa\<rparr>"
  | (rejected) q pa where "p = 0" "q \<noteq> 0"
      "Allocate sz (PrefersTopDown sz (m_proxyAllocator m)) (m_proxyAllocator m) = (q, pa)"
      "m' = reject_slot q sz (m\<lparr>m_proxyAllocator := pa\<rparr>)"
  | (recorded) pa where "p \<noteq> 0"
      "Allocate sz (PrefersTopDown sz (m_proxyAllocator m)) (m_proxyAllocator m) = (p, pa)"
      "m' = m\<lparr>m_proxyAllocator := pa, m_allocations := om_insert p
         \<lparr>proxy_base = p, proxy_size = sz, protection = protect, lane = ln, alloc_tick = me_tick env\<rparr>
         (m_allocations m)\<rparr>"
proof -
  obtain pq pa where a: "Allocate sz (PrefersTopDown sz (m_proxyAllocator m)) (m_proxyAllocator m) = (pq, pa)"
    by (cases "Allocate sz (PrefersTopDown sz (m_proxyAllocator m)) (m_proxyAllocator m)")
  obtain w g1 where sk: "create_skip env sz m g = (w, g1)" by (cases "create_skip env sz m g")
  obtain ev2 g2 where en: "create_enter env sz ln g1 = (ev2, g2)" by (cases "create_enter env sz ln g1")
  have "(p = 0 \<and> m' = m) \<or> (p = 0 \<and> pq = 0 \<and> m' = m\<lparr>m_proxyAllocator := pa\<rparr>) \<or>
    (p = 0 \<and> pq \<noteq> 0 \<and> m' = reject_slot pq sz (m\<lparr>m_proxyAllocator := pa\<rparr>)) \<or>
    (p \<noteq> 0 \<and> pq = p \<and>
       m' = m\<lparr>m_proxyAllocator := pa, m_allocations := om_insert p
         \<lparr>proxy_base = p, proxy_size = sz, protection = protect, lane = ln, alloc_tick = me_tick env\<rparr>
         (m_allocations m)\<rparr>)"
    using assms
    by (auto simp: CreateProxyAllocation_def sk en a Let_def split: option.splits if_splits prod.splits)
  then show ?thesis using a skip full rejected recorded by blast
qed

lemma mm_recs_insert:
  assumes "ordered (m_allocations m)" "m' = m\<lparr>m_proxyAllocator := pa, m_allocations := om_insert p r (m_allocations m)\<rparr>"
  shows "mm_recs m' = (mm_recs m)(p \<mapsto> proxy_size r)"
  using map_of_om_insert [OF assms(1)] assms(2) by (auto simp: mm_recs_def)

lemma mm_sizes_insert_new:
  assumes "map_of rs p = None"
  shows "mset (mm_sizes (om_insert p r rs)) = mset ((p, proxy_size r) # mm_sizes rs)"
  using mset_om_insert_new [OF assms, of r] by (simp add: mm_sizes_def)

lemma mm_sizes_erase:
  assumes "ordered rs" "map_of rs p = Some r"
  shows "mset (remove1 (p, proxy_size r) (mm_sizes rs)) = mset (mm_sizes (om_erase p rs))"
proof -
  have "mset (mm_sizes rs) = add_mset (p, proxy_size r) (mset (mm_sizes (om_erase p rs)))"
    using mset_om_erase [OF assms] by (simp add: mm_sizes_def)
  then show ?thesis by simp
qed

lemma Create_step:
  assumes i: "mm_with m ext" and r: "req_ok (m_allocGranularity (m_proxyAllocator m)) sz"
    and c: "CreateProxyAllocation env sz protect ln (m, g) = (p, ev, m', g')"
  shows "mm_with m' ext" "p = 0 \<Longrightarrow> m_allocations m' = m_allocations m"
    "p \<noteq> 0 \<Longrightarrow> mm_recs m' = (mm_recs m)(p \<mapsto> sz) \<and>
       (\<forall>(q, k)\<in>set (mm_sizes (m_allocations m) @ ext). apart (p, sz) (q, k) \<and> p \<noteq> q)"
    "m_allocGranularity (m_proxyAllocator m') = m_allocGranularity (m_proxyAllocator m) \<and>
     m_arenaBase (m_proxyAllocator m') = m_arenaBase (m_proxyAllocator m) \<and>
     m_arenaSize (m_proxyAllocator m') = m_arenaSize (m_proxyAllocator m)"
proof -
  let ?L = "mm_sizes (m_allocations m) @ ext"
  have o: "ordered (m_allocations m)" and pi: "pa_inv (m_proxyAllocator m) ?L"
    and b: "\<forall>e\<in>set (m_allocations m). proxy_base (snd e) = fst e"
    using i by (auto simp: mm_with_def)
  note al = Allocate_step [OF pi r]
  let ?geo = "m_allocGranularity (m_proxyAllocator m') = m_allocGranularity (m_proxyAllocator m) \<and>
     m_arenaBase (m_proxyAllocator m') = m_arenaBase (m_proxyAllocator m) \<and>
     m_arenaSize (m_proxyAllocator m') = m_arenaSize (m_proxyAllocator m)"
  have "mm_with m' ext \<and> (p = 0 \<longrightarrow> m_allocations m' = m_allocations m) \<and>
    (p \<noteq> 0 \<longrightarrow> mm_recs m' = (mm_recs m)(p \<mapsto> sz) \<and> (\<forall>(q, k)\<in>set ?L. apart (p, sz) (q, k) \<and> p \<noteq> q)) \<and> ?geo"
    using c
  proof (cases rule: Create_cases)
    case skip
    then show ?thesis using i by simp
  next
    case (full pa)
    then show ?thesis using al(2,3) [OF full(2)] o b by (simp add: mm_with_def)
  next
    case (rejected q pa)
    have "pa_inv pa ((q, sz) # ?L)" by (rule al(1) [OF rejected(3,2)])
    then have "pa_inv (Free q sz pa) ?L" "m_allocGranularity (Free q sz pa) = m_allocGranularity pa \<and>
        m_arenaBase (Free q sz pa) = m_arenaBase pa \<and> m_arenaSize (Free q sz pa) = m_arenaSize pa"
      using Free_step [of pa "(q, sz) # ?L" q sz] by auto
    then show ?thesis using al(3) [OF rejected(3)] rejected o b by (simp add: mm_with_def reject_slot_def)
  next
    case (recorded pa)
    let ?r = "\<lparr>proxy_base = p, proxy_size = sz, protection = protect, lane = ln, alloc_tick = me_tick env\<rparr>"
    have pa: "pa_inv pa ((p, sz) # ?L)" by (rule al(1) [OF recorded(2,1)])
    have ap: "\<forall>(q, k)\<in>set ?L. apart (p, sz) (q, k) \<and> p \<noteq> q"
      using pa_inv_new_apart [OF pa] by blast
    have "mm_recs m p = None"
    proof (cases "mm_recs m p")
      case (Some k)
      then show ?thesis using ap mm_recs_member [OF Some] by fastforce
    qed simp
    then have new: "map_of (m_allocations m) p = None" by (simp add: mm_recs_def)
    have "pa_inv pa (mm_sizes (om_insert p ?r (m_allocations m)) @ ext)"
      using pa_inv_mset [OF pa] mm_sizes_insert_new [OF new, of ?r] by simp
    moreover have "\<forall>e\<in>set (om_insert p ?r (m_allocations m)). proxy_base (snd e) = fst e"
      using b set_om_insert_subset by fastforce
    ultimately show ?thesis
      using recorded ap ordered_om_insert [OF o] mm_recs_insert [OF o recorded(3)] al(3) [OF recorded(2)]
      by (simp add: mm_with_def)
  qed
  then show "mm_with m' ext" "p = 0 \<Longrightarrow> m_allocations m' = m_allocations m"
    "p \<noteq> 0 \<Longrightarrow> mm_recs m' = (mm_recs m)(p \<mapsto> sz) \<and> (\<forall>(q, k)\<in>set ?L. apart (p, sz) (q, k) \<and> p \<noteq> q)" ?geo by auto
qed

lemma Dispose_step:
  assumes i: "mm_with m ext" and f: "FreeProxyAllocation env p m = (b, ev, m')"
  shows "mm_with m' ext" "b = (mm_recs m p \<noteq> None)" "mm_recs m' = (mm_recs m)(p := None)"
    "m_allocGranularity (m_proxyAllocator m') = m_allocGranularity (m_proxyAllocator m) \<and>
     m_arenaBase (m_proxyAllocator m') = m_arenaBase (m_proxyAllocator m) \<and>
     m_arenaSize (m_proxyAllocator m') = m_arenaSize (m_proxyAllocator m)"
proof -
  let ?L = "mm_sizes (m_allocations m) @ ext"
  have o: "ordered (m_allocations m)" and pi: "pa_inv (m_proxyAllocator m) ?L"
    and bs: "\<forall>e\<in>set (m_allocations m). proxy_base (snd e) = fst e"
    using i by (auto simp: mm_with_def)
  let ?geo = "m_allocGranularity (m_proxyAllocator m') = m_allocGranularity (m_proxyAllocator m) \<and>
     m_arenaBase (m_proxyAllocator m') = m_arenaBase (m_proxyAllocator m) \<and>
     m_arenaSize (m_proxyAllocator m') = m_arenaSize (m_proxyAllocator m)"
  have "mm_with m' ext \<and> b = (mm_recs m p \<noteq> None) \<and> mm_recs m' = (mm_recs m)(p := None) \<and> ?geo"
  proof (cases "map_of (m_allocations m) p")
    case None
    then have "m' = m \<and> \<not> b" using f by (auto simp: FreeProxyAllocation_def split: if_splits)
    then show ?thesis using None i by (auto simp: mm_recs_def)
  next
    case (Some r)
    have m: "(p, proxy_size r) \<in> set (mm_sizes (m_allocations m))"
      using Some map_of_SomeD by (force simp: mm_sizes_def)
    then have mem: "(p, proxy_size r) \<in> set ?L" by simp
    have pr: "IsProxyAddress_mm p m"
      using live_IsProxyAddress(1) [OF pi mem] by (simp add: IsProxyAddress_mm_def)
    have e: "b" "m' = m\<lparr>m_allocations := om_erase p (m_allocations m),
        m_proxyAllocator := Free p (proxy_size r) (m_proxyAllocator m)\<rparr>"
      using f pr Some by (auto simp: FreeProxyAllocation_def)
    have "mset (remove1 (p, proxy_size r) ?L) = mset (mm_sizes (om_erase p (m_allocations m)) @ ext)"
      using mm_sizes_erase [OF o Some] m by (simp add: remove1_append)
    then have "pa_inv (Free p (proxy_size r) (m_proxyAllocator m)) (mm_sizes (om_erase p (m_allocations m)) @ ext)"
      by (rule pa_inv_mset [OF Free_step(1) [OF pi mem]])
    moreover have "\<forall>e\<in>set (om_erase p (m_allocations m)). proxy_base (snd e) = fst e"
      using bs by (simp add: om_erase_def)
    moreover have "mm_recs m' = (mm_recs m)(p := None)"
      by (auto simp: e(2) mm_recs_def map_of_om_erase)
    ultimately show ?thesis using e ordered_om_erase [OF o] Some Free_step(2) [OF pi mem]
      by (simp add: mm_with_def mm_recs_def)
  qed
  then show "mm_with m' ext" "b = (mm_recs m p \<noteq> None)" "mm_recs m' = (mm_recs m)(p := None)" ?geo by auto
qed

interpretation manager: slot_registry mm_do "\<lambda>s. mm_inv (fst s)" mm_cond "\<lambda>s. mm_recs (fst s)"
proof
  fix s a c s'
  assume i: "mm_inv (fst s)" and k: "mm_cond s a" and st: "mm_do a s = (c, s')"
  obtain m g where s: "s = (m, g)" by (cases s)
  show "mm_inv (fst s')"
  proof (cases a)
    case (Create env sz protect ln)
    obtain p ev m' g' where c: "CreateProxyAllocation env sz protect ln (m, g) = (p, ev, m', g')"
      by (metis prod_cases4)
    then show ?thesis using Create_step(1) [OF _ _ c] i k st s Create by (auto simp: mm_cond_def)
  next
    case (Dispose env p)
    obtain b ev m' where f: "FreeProxyAllocation env p m = (b, ev, m')" by (metis prod_cases3)
    then show ?thesis using Dispose_step(1) [OF _ f] i st s Dispose by auto
  qed
next
  fix s a n s'
  assume i: "mm_inv (fst s)" and k: "mm_cond s a" and st: "mm_do a s = (Created n 0, s')"
  obtain m g where s: "s = (m, g)" by (cases s)
  obtain env protect ln where a: "a = Create env n protect ln"
    using st s by (cases a) (auto split: prod.splits)
  obtain p ev m' g' where c: "CreateProxyAllocation env n protect ln (m, g) = (p, ev, m', g')"
    by (metis prod_cases4)
  then show "mm_recs (fst s') = mm_recs (fst s)"
    using Create_step(2) [OF _ _ c] i k st s a by (auto simp: mm_cond_def mm_recs_def)
next
  fix s a n p s'
  assume i: "mm_inv (fst s)" and k: "mm_cond s a" and st: "mm_do a s = (Created n p, s')" and p: "p \<noteq> 0"
  obtain m g where s: "s = (m, g)" by (cases s)
  obtain env protect ln where a: "a = Create env n protect ln"
    using st s by (cases a) (auto split: prod.splits)
  obtain p' ev m' g' where c: "CreateProxyAllocation env n protect ln (m, g) = (p', ev, m', g')"
    by (metis prod_cases4)
  then show "mm_recs (fst s') = (mm_recs (fst s))(p \<mapsto> n) \<and>
      (\<forall>q k. mm_recs (fst s) q = Some k \<longrightarrow> apart (p, n) (q, k))"
    using Create_step(3) [OF _ _ c, of "[]"] i k st s a p mm_recs_member by (fastforce simp: mm_cond_def)
next
  fix s a p b s'
  assume i: "mm_inv (fst s)" and k: "mm_cond s a" and st: "mm_do a s = (FreedAt p b, s')"
  obtain m g where s: "s = (m, g)" by (cases s)
  obtain env where a: "a = Dispose env p"
    using st s by (cases a) (auto split: prod.splits)
  obtain b' ev m' where f: "FreeProxyAllocation env p m = (b', ev, m')" by (metis prod_cases3)
  then show "b = (mm_recs (fst s) p \<noteq> None) \<and> mm_recs (fst s') = (mm_recs (fst s))(p := None)"
    using Dispose_step(2,3) [OF _ f] i st s a by (auto simp: mm_cond_def)
qed

lemma mm_gran_const:
  assumes "mm_inv (fst s)" "mm_cond s a" "mm_do a s = (c, s')"
  shows "m_allocGranularity (m_proxyAllocator (fst s')) = m_allocGranularity (m_proxyAllocator (fst s))"
proof -
  obtain m g where s: "s = (m, g)" by (cases s)
  show ?thesis
  proof (cases a)
    case (Create env sz protect ln)
    obtain p ev m' g' where c: "CreateProxyAllocation env sz protect ln (m, g) = (p, ev, m', g')"
      by (metis prod_cases4)
    then show ?thesis using Create_step(4) [OF _ _ c] assms s Create by (auto simp: mm_cond_def)
  next
    case (Dispose env p)
    have g: "m_allocGranularity (Free q k pa) = m_allocGranularity pa" for q k pa
      by (simp add: Free_def InsertFreeSortedAndCoalesce_def Let_def split: prod.splits option.splits)
    show ?thesis using assms(3) s Dispose
      by (auto simp: FreeProxyAllocation_def g split: if_splits option.splits prod.splits)
  qed
qed

lemma mm_run_meets:
  assumes "mm_inv (fst s)"
    "\<forall>a\<in>set ops. mm_fits (m_allocGranularity (m_proxyAllocator (fst s))) a"
  shows "run_meets mm_cond mm_do ops s"
  using assms
proof (induction ops arbitrary: s)
  case (Cons a as)
  obtain c s' where st: "mm_do a s = (c, s')" by (cases "mm_do a s")
  have k: "mm_cond s a" using Cons.prems(2) by (simp add: mm_cond_def)
  have "mm_inv (fst s')" by (rule manager.step_inv [OF Cons.prems(1) k st])
  then show ?case
    using Cons.IH [of s'] Cons.prems(2) k mm_gran_const [OF Cons.prems(1) k st] by (simp add: st)
qed simp

text \<open>The manager as it stands after its initialisation.\<close>

lemma AddCorralSegment_keeps:
  assumes "AddCorralSegment env sz m = (ok, ev, m')"
  shows "m_allocations m' = m_allocations m" "m_proxyAllocator m' = m_proxyAllocator m"
  using assms by (auto simp: AddCorralSegment_def Let_def split: if_splits prod.splits)

lemma InitScriptArena_keeps:
  assumes "InitScriptArena env m = (ok, ev, m')"
  shows "m_allocations m' = m_allocations m" "m_proxyAllocator m' = m_proxyAllocator m"
  using assms AddCorralSegment_keeps
  by (fastforce simp: InitScriptArena_def Let_def split: prod.splits)+

abbreviation new_gran :: "mm_env \<Rightarrow> u32" where
  "new_gran env \<equiv> m_allocGranularity (new_allocator env)"

lemma fresh_new_allocator: "me_page env = 4096 \<Longrightarrow> fresh (new_allocator env)"
  by (simp add: new_allocator_def fresh_init_env)

lemma mm_start:
  assumes "me_page env = 4096" "os_pool (me_os env) (of_nat kNodePoolBytes) \<noteq> 0"
    and "range_ok (new_gran env) (ReserveArenaContiguous (me_os env) (new_gran env) PROXY_ARENA_SIZE) PROXY_ARENA_SIZE"
    and "MemoryManager_Initialize env (MemoryManager_init env) = (ok, ev, m)"
  shows "ok" "mm_inv m" "m_allocations m = []" "m_allocGranularity (m_proxyAllocator m) = new_gran env"
proof -
  obtain ok' pa where i: "Initialize (me_os env) PROXY_ARENA_SIZE (new_allocator env) = (ok', pa)"
    by (cases "Initialize (me_os env) PROXY_ARENA_SIZE (new_allocator env)")
  note ii = Initialize_inv [OF fresh_new_allocator [OF assms(1)] assms(2,3) i]
  have gr: "m_allocGranularity pa = new_gran env"
    using i ii(1) by (auto simp: Initialize_def InitNodePool_def InsertFreeSortedAndCoalesce_def Let_def
        split: if_splits prod.splits option.splits)
  have "ok = ok' \<and> m_allocations m = [] \<and> m_proxyAllocator m = pa"
    using assms(4) i InitScriptArena_keeps
    by (fastforce simp: MemoryManager_Initialize_def MemoryManager_init_def Let_def split: if_splits prod.splits)
  then show "ok" "mm_inv m" "m_allocations m = []" "m_allocGranularity (m_proxyAllocator m) = new_gran env"
    using ii gr by (simp_all add: mm_with_def mm_sizes_def)
qed

text \<open>C3: The redirected allocations are a map from addresses to sizes: in any run of creations
  and releases from a fresh manager, whatever the environment answers (self skips, size cap,
  full arena, failed commits), a creation that answers an address adds a range apart from all
  others, a failed one leaves nothing behind, and a release succeeds exactly for an address in
  the map and removes it.  The records are the map, and every address lies in the arena.\<close>

theorem redirects_are_a_map:
  assumes "me_page env = 4096" "os_pool (me_os env) (of_nat kNodePoolBytes) \<noteq> 0"
    and "range_ok (new_gran env) (ReserveArenaContiguous (me_os env) (new_gran env) PROXY_ARENA_SIZE) PROXY_ARENA_SIZE"
    and "MemoryManager_Initialize env (MemoryManager_init env) = (ok, ev, m)"
    and "\<forall>a\<in>set ops. mm_fits (new_gran env) a"
    and "slot_trace mm_do ops (m, g) = (calls, m', g')"
  shows "(addr_map calls Map.empty = Some (mm_recs m'))
    \<and> (\<forall>p n q k. mm_recs m' p = Some n \<longrightarrow> mm_recs m' q = Some k \<longrightarrow> p \<noteq> q \<longrightarrow> apart (p, n) (q, k))
    \<and> (\<forall>p n. mm_recs m' p = Some n \<longrightarrow> p \<noteq> 0 \<and> IsProxyAddress p (m_proxyAllocator m'))"
proof (intro conjI)
  note i = mm_start [OF assms(1-4)]
  have "run_meets mm_cond mm_do ops (m, g)" using mm_run_meets [of "(m, g)" ops] i assms(5) by simp
  from manager.trace_accepted [OF _ this assms(6)]
  have t: "addr_map calls (mm_recs m) = Some (mm_recs m')" and inv: "mm_inv m'" using i by simp_all
  have "mm_recs m = Map.empty" using i(3) by (simp add: mm_recs_def fun_eq_iff)
  then show "addr_map calls Map.empty = Some (mm_recs m')" using t by simp
  then show "\<forall>p n q k. mm_recs m' p = Some n \<longrightarrow> mm_recs m' q = Some k \<longrightarrow> p \<noteq> q \<longrightarrow> apart (p, n) (q, k)"
    using addr_map_apart [of calls Map.empty] by simp
  show "\<forall>p n. mm_recs m' p = Some n \<longrightarrow> p \<noteq> 0 \<and> IsProxyAddress p (m_proxyAllocator m')"
    using inv mm_recs_member arena.live_owned unfolding mm_with_def append_Nil2 by blast
qed

definition demo_mm_env :: "bool \<Rightarrow> mm_env" where
  "demo_mm_env commits =
     \<lparr>me_analytics = False, me_logger = False, me_getenv = (\<lambda>_. None), me_tick = 7, me_thread = 1, me_tls = True,
      me_self = Some (0x70000000, 0x1000), me_frames = [0x70000010, 0x60000000], me_avail = None,
      me_commit = (\<lambda>_ _ _. commits), me_reserve = (\<lambda>_. 0), me_new = True, me_page = 4096,
      me_os = \<lparr>os_min = 0x10000, os_max = 0x7FFEFFFF, os_query = \<lambda>_. None,
               os_reserve = \<lambda>_ _. 0x20000000, os_pool = \<lambda>_. 0x5000000\<rparr>\<rparr>"

definition demo_mm :: memory_manager where
  "demo_mm = snd (snd (MemoryManager_Initialize (demo_mm_env True) (MemoryManager_init (demo_mm_env True))))"

lemmas mm_eval = MemoryManager_Initialize_def MemoryManager_init_def new_allocator_def PROXY_ARENA_SIZE_def
  InitScriptArena_def AddCorralSegment_def EnvMb_def demo_mm_env_def Initialize_def kMaxCorralSegs_def
  ReserveArenaContiguous_def reserve_scan_empty PrefersTopDown_def

lemmas create_eval = CreateProxyAllocation_def create_skip_def set_self_skip_def CallerIsSelf_def create_enter_def
  InitProxyCreateLogCfg_def ProxyBucket_def count_def ResolveLowVasSkipBytes_def ResolveDynamicLowVasSkipBytes_def
  note_create_failure_def RecordAllocFailForLane_def MaybeLogProxyCreateTally_def reject_slot_def create_succeed_def
  RecordAllocSuccessStreakReset_def RecordProxyBandPair_def FreeProxyAllocation_def IsProxyAddress_mm_def
  create_globals_init_def om_erase_def PAGE_READWRITE_def

lemma demo_mm_geo:
  "me_page (demo_mm_env True) = 4096" "os_pool (me_os (demo_mm_env True)) (of_nat kNodePoolBytes) \<noteq> 0"
  "new_gran (demo_mm_env True) = 0x1000"
  "range_ok 0x1000 (ReserveArenaContiguous (me_os (demo_mm_env True)) 0x1000 PROXY_ARENA_SIZE) PROXY_ARENA_SIZE"
  by (simp_all add: mm_eval arena_eval range_ok_def req_ok_def)

lemma redirects_are_a_map_witness:
  "\<exists>m' g'. slot_trace mm_do
      [Create (demo_mm_env True) 0x1800 4 LANE_CONTAINED_A, Create (demo_mm_env False) 0x1000 4 LANE_CONTAINED_A,
       Create (demo_mm_env True) 0x40000 4 LANE_EXCLUDED_A, Dispose (demo_mm_env True) 0x20000000,
       Dispose (demo_mm_env True) 0x20000000] (demo_mm, create_globals_init) =
    ([Created 0x1800 0x20000000, Created 0x1000 0, Created 0x40000 0x5FFC0000, FreedAt 0x20000000 True,
      FreedAt 0x20000000 False], m', g') \<and>
    addr_map [Created 0x1800 0x20000000, Created 0x1000 0, Created 0x40000 0x5FFC0000, FreedAt 0x20000000 True,
      FreedAt 0x20000000 False] Map.empty = Some (mm_recs m')"
proof -
  let ?ops = "[Create (demo_mm_env True) 0x1800 4 LANE_CONTAINED_A, Create (demo_mm_env False) 0x1000 4 LANE_CONTAINED_A,
       Create (demo_mm_env True) 0x40000 4 LANE_EXCLUDED_A, Dispose (demo_mm_env True) 0x20000000,
       Dispose (demo_mm_env True) 0x20000000]"
  obtain ok ev where i: "MemoryManager_Initialize (demo_mm_env True) (MemoryManager_init (demo_mm_env True)) = (ok, ev, demo_mm)"
    unfolding demo_mm_def by (metis prod.collapse)
  obtain cs m' g' where t: "slot_trace mm_do ?ops (demo_mm, create_globals_init) = (cs, m', g')"
    by (metis prod_cases3)
  have c: "cs = [Created 0x1800 0x20000000, Created 0x1000 0, Created 0x40000 0x5FFC0000, FreedAt 0x20000000 True,
      FreedAt 0x20000000 False]"
    using t unfolding demo_mm_def
    by (simp add: mm_eval arena_eval create_eval)
  show ?thesis
    using redirects_are_a_map [OF demo_mm_geo(1,2) _ i _ t, THEN conjunct1] t c demo_mm_geo(3,4) by (simp add: req_ok_def)
qed

end
