(* ===== verification/CorralProps.thy ===== *)
theory CorralProps
  imports ManagerProps
begin

section \<open>What the script arena promises\<close>

text \<open>
  The script arena is a list of zones, each with an allocator of its own, and one map of the
  slots handed out.  The invariant says that every zone's allocator accounts for exactly the
  slots of the map that lie in the zone, that the zones do not overlap, and that the total is
  the sum of the zones and stays below the cap.  It holds for the default granularity of 4 KB;
  with a larger one the allocator of a zone can reach past the zone's end.
\<close>

definition zone :: "corral_seg \<Rightarrow> block" where
  "zone s = \<lparr>address = m_corralSegBase s, blk_size = AlignUp (m_corralSegSize s) 0x1000\<rparr>"

definition zones_apart :: "corral_seg \<Rightarrow> corral_seg \<Rightarrow> bool" where
  "zones_apart s t \<longleftrightarrow> bend (zone s) \<le> blo (zone t) \<or> bend (zone t) \<le> blo (zone s)"

text \<open>A zone whose allocator has the live list \<open>L\<close>.\<close>

definition seg_with :: "corral_seg \<Rightarrow> (u32 \<times> u32) list \<Rightarrow> bool" where
  "seg_with s L \<longleftrightarrow> pa_inv (m_corralSegAlloc s) L \<and> m_allocGranularity (m_corralSegAlloc s) = 0x1000 \<and>
     m_arenaBase (m_corralSegAlloc s) = m_corralSegBase s \<and>
     m_arenaSize (m_corralSegAlloc s) = AlignUp (m_corralSegSize s) 0x1000 \<and>
     range_ok 0x1000 (m_corralSegBase s) (m_corralSegSize s)"

definition seg_live :: "corral_seg \<Rightarrow> (u32 \<times> u32) list \<Rightarrow> (u32 \<times> u32) list" where
  "seg_live s sizes = filter (\<lambda>e. in_seg (fst e) s) sizes"

definition corral_inv :: "memory_manager \<Rightarrow> bool" where
  "corral_inv m \<longleftrightarrow> ordered (m_corralSizes m) \<and>
     (\<forall>s\<in>set (m_corralSegs m). seg_with s (seg_live s (m_corralSizes m))) \<and>
     sorted_wrt zones_apart (m_corralSegs m) \<and>
     (\<forall>e\<in>set (m_corralSizes m). fst e \<noteq> 0 \<and> snd e \<noteq> 0 \<and> (\<exists>s\<in>set (m_corralSegs m). in_seg (fst e) s)) \<and>
     unat (m_corralTotalReserved m) = sum_list (map (\<lambda>s. unat (m_corralSegSize s)) (m_corralSegs m)) \<and>
     (m_corralMaxReserved m \<noteq> 0 \<longrightarrow> m_corralTotalReserved m \<le> m_corralMaxReserved m) \<and>
     length (m_corralSegs m) \<le> kMaxCorralSegs"

subsection \<open>Zones and slots\<close>

lemma range_ok_zone:
  assumes "range_ok 0x1000 (m_corralSegBase s) (m_corralSegSize s)"
  shows "bend (zone s) < 4294967296" "unat (m_corralSegSize s) \<le> bsz (zone s)"
    "bsz (zone s) < unat (m_corralSegSize s) + 0x1000" "0 < unat (m_corralSegSize s)"
    "in_seg a s \<longleftrightarrow> blo (zone s) \<le> unat a \<and> unat a < blo (zone s) + unat (m_corralSegSize s)"
proof -
  have r: "req_ok 0x1000 (m_corralSegSize s)" and w: "unat (m_corralSegBase s) + bsz (zone s) < 4294967296"
    using assms by (auto simp: range_ok_def zone_def)
  have g: "gran_ok 0x1000" by (simp add: gran_ok_def)
  note al = req_ok_AlignUp [OF g r]
  show "bend (zone s) < 4294967296" using w by (simp add: zone_def)
  show "unat (m_corralSegSize s) \<le> bsz (zone s)" "bsz (zone s) < unat (m_corralSegSize s) + 0x1000"
    using al by (simp_all add: zone_def)
  show "0 < unat (m_corralSegSize s)" using r by (simp add: req_ok_def)
  have "unat (m_corralSegBase s + m_corralSegSize s) = unat (m_corralSegBase s) + unat (m_corralSegSize s)"
    using w al(2) by (intro u32_plus) (simp add: zone_def)
  then show "in_seg a s \<longleftrightarrow> blo (zone s) \<le> unat a \<and> unat a < blo (zone s) + unat (m_corralSegSize s)"
    by (simp add: in_seg_def u32_unat zone_def)
qed

lemma in_seg_zone: "range_ok 0x1000 (m_corralSegBase s) (m_corralSegSize s) \<Longrightarrow> in_seg a s \<Longrightarrow> in_block (zone s) (unat a)"
  using range_ok_zone [of s] by (auto simp: in_block_def)

lemma zone_slot:
  assumes "seg_with s L" "(p, n) \<in> set L"
  shows "in_seg p s" "unat p + unat n \<le> bend (zone s)" "p \<noteq> 0" "n \<noteq> 0"
proof -
  have i: "pa_inv (m_corralSegAlloc s) L" and g: "m_allocGranularity (m_corralSegAlloc s) = 0x1000"
    and b: "m_arenaBase (m_corralSegAlloc s) = m_corralSegBase s"
      "m_arenaSize (m_corralSegAlloc s) = AlignUp (m_corralSegSize s) 0x1000"
    and r: "range_ok 0x1000 (m_corralSegBase s) (m_corralSegSize s)"
    using assms(1) by (auto simp: seg_with_def)
  have w: "wf_block 0x1000 (blo (zone s)) (bend (zone s)) (slot 0x1000 (p, n))"
    using live_block_wf [OF i assms(2)] by (simp add: g b zone_def)
  have q: "req_ok 0x1000 n" using pa_inv_geo(3) [OF i] assms(2) g by auto
  have gr: "gran_ok 0x1000" by (simp add: gran_ok_def)
  note al = req_ok_AlignUp [OF gr q]
  have p: "blo (zone s) \<le> unat p" "unat p + unat (AlignUp n 0x1000) \<le> bend (zone s)"
    using w by (auto simp: wf_block_def)
  have "0x1000 \<le> unat (AlignUp n 0x1000)" using al(1,4) by (auto elim!: dvdE)
  then show "in_seg p s" using p range_ok_zone [OF r] by auto
  show "unat p + unat n \<le> bend (zone s)" using p(2) al(2) by simp
  show "p \<noteq> 0" by (rule live_IsProxyAddress(2) [OF i assms(2)])
  show "n \<noteq> 0" using q by (auto simp: req_ok_def)
qed

lemma zones_apart_sym: "zones_apart s t \<Longrightarrow> zones_apart t s"
  by (auto simp: zones_apart_def)

lemma in_one_zone:
  assumes "zones_apart s t" "range_ok 0x1000 (m_corralSegBase s) (m_corralSegSize s)"
    "range_ok 0x1000 (m_corralSegBase t) (m_corralSegSize t)" "in_seg a s"
  shows "\<not> in_seg a t"
  using assms in_seg_zone [of s a] in_seg_zone [of t a] by (auto simp: zones_apart_def in_block_def)

lemma nth_zones_apart: "sorted_wrt zones_apart ss \<Longrightarrow> i < length ss \<Longrightarrow> j < length ss \<Longrightarrow> i \<noteq> j \<Longrightarrow> zones_apart (ss ! i) (ss ! j)"
  using zones_apart_sym by (metis linorder_neqE_nat sorted_wrt_nth_less)

lemma slots_of_zones_apart:
  assumes "zones_apart s t" "seg_with s L" "seg_with t K" "(p, n) \<in> set L" "(q, k) \<in> set K"
  shows "apart (p, n) (q, k)"
proof -
  have r: "range_ok 0x1000 (m_corralSegBase s) (m_corralSegSize s)" "range_ok 0x1000 (m_corralSegBase t) (m_corralSegSize t)"
    using assms(2,3) by (auto simp: seg_with_def)
  have "blo (zone s) \<le> unat p" "blo (zone t) \<le> unat q"
    using zone_slot(1) [OF assms(2,4)] zone_slot(1) [OF assms(3,5)] range_ok_zone(5) r by auto
  then show ?thesis
    using assms(1) zone_slot(2) [OF assms(2,4)] zone_slot(2) [OF assms(3,5)]
    by (auto simp: zones_apart_def apart_def)
qed

lemma seg_index_unique:
  assumes "sorted_wrt zones_apart ss" "\<forall>s\<in>set ss. range_ok 0x1000 (m_corralSegBase s) (m_corralSegSize s)"
    "i < length ss" "in_seg a (ss ! i)"
  shows "seg_index a ss = Some i"
  using assms
proof (induction ss arbitrary: i)
  case (Cons s ss)
  show ?case
  proof (cases i)
    case 0
    then show ?thesis using Cons.prems by simp
  next
    case (Suc j)
    then have j: "j < length ss" "in_seg a (ss ! j)" using Cons.prems by auto
    have "\<not> in_seg a s"
      using in_one_zone [of s "ss ! j" a] Cons.prems(1,2) j nth_mem [OF j(1)] by auto
    then show ?thesis using Cons.IH [OF _ _ j] Cons.prems Suc by simp
  qed
qed simp

subsection \<open>Reserving\<close>

definition zone_of :: "corral_seg \<Rightarrow> u32 \<times> u32" where
  "zone_of s = (m_corralSegBase s, m_corralSegSize s)"

lemma zone_of_facts:
  assumes "zone_of s = zone_of t"
  shows "zone s = zone t" "in_seg a s = in_seg a t" "seg_live s sizes = seg_live t sizes"
    "m_corralSegSize s = m_corralSegSize t"
  using assms by (simp_all add: zone_of_def zone_def in_seg_def seg_live_def)

lemma same_zones_nth: "map zone_of ss = map zone_of ts \<Longrightarrow> j < length ss \<Longrightarrow> zone_of (ss ! j) = zone_of (ts ! j)"
  by (metis length_map nth_map)

lemma Allocate_seg:
  assumes "seg_with s L" "req_ok 0x1000 sz" "Allocate sz False (m_corralSegAlloc s) = (p, a)"
  shows "seg_with (s\<lparr>m_corralSegAlloc := a\<rparr>) (if p = 0 then L else (p, sz) # L)"
  using assms Allocate_step(1-3) [of "m_corralSegAlloc s" L sz False p a] by (auto simp: seg_with_def)

lemma Free_seg:
  assumes "seg_with s L" "(p, n) \<in> set L"
  shows "seg_with (s\<lparr>m_corralSegAlloc := Free p n (m_corralSegAlloc s)\<rparr>) (remove1 (p, n) L)"
  using assms Free_step(1,2) [of "m_corralSegAlloc s" L p n] by (auto simp: seg_with_def)

lemma seg_with_mset: "seg_with s L \<Longrightarrow> mset L = mset K \<Longrightarrow> seg_with s K"
  using pa_inv_mset by (auto simp: seg_with_def)

lemma corral_try_step:
  assumes "\<forall>j<length ss. seg_with (ss ! j) (lv j)" "req_ok 0x1000 sz" "corral_try sz ss = (p, i, ss')"
  shows "map zone_of ss' = map zone_of ss \<and>
    (\<forall>j<length ss. seg_with (ss' ! j) ((if p = 0 then lv else lv(i := (p, sz) # lv i)) j)) \<and>
    (p \<noteq> 0 \<longrightarrow> i < length ss)"
  using assms
proof (induction ss arbitrary: lv p i ss')
  case Nil
  then show ?case by simp
next
  case (Cons s ss)
  obtain q a where a: "Allocate sz False (m_corralSegAlloc s) = (q, a)" by (cases "Allocate sz False (m_corralSegAlloc s)")
  have s0: "seg_with s (lv 0)" and rest: "\<forall>j<length ss. seg_with (ss ! j) (lv (Suc j))"
    using Cons.prems(1) by (force, auto)
  note sa = Allocate_seg [OF s0 Cons.prems(2) a]
  show ?case
  proof (cases "q = 0")
    case False
    then have "p = q" "i = 0" "ss' = s\<lparr>m_corralSegAlloc := a\<rparr> # ss" using Cons.prems(3) a by auto
    then show ?thesis using False sa rest by (auto simp: zone_of_def nth_Cons split: nat.splits)
  next
    case True
    obtain r k ts where t: "corral_try sz ss = (r, k, ts)" by (metis prod_cases3)
    then have e: "p = r" "i = Suc k" "ss' = s\<lparr>m_corralSegAlloc := a\<rparr> # ts" using Cons.prems(3) a True by auto
    note ih = Cons.IH [OF rest Cons.prems(2) t]
    have "seg_with (ss' ! j) ((if p = 0 then lv else lv(i := (p, sz) # lv i)) j)" if "j < length (s # ss)" for j
    proof (cases j)
      case 0
      then show ?thesis using sa True e by simp
    next
      case (Suc j')
      then have "seg_with (ts ! j') ((if r = 0 then \<lambda>j. lv (Suc j) else (\<lambda>j. lv (Suc j))(k := (r, sz) # lv (Suc k))) j')"
        using ih that by simp
      then show ?thesis using e Suc by (auto split: if_splits)
    qed
    then show ?thesis using ih e by (simp add: zone_of_def)
  qed
qed

text \<open>The state between the two steps of a reservation: zone \<open>j\<close> accounts for \<open>lv j\<close>.\<close>

definition corral_core :: "memory_manager \<Rightarrow> (nat \<Rightarrow> (u32 \<times> u32) list) \<Rightarrow> bool" where
  "corral_core m lv \<longleftrightarrow> ordered (m_corralSizes m) \<and>
     (\<forall>j<length (m_corralSegs m). seg_with (m_corralSegs m ! j) (lv j)) \<and>
     sorted_wrt zones_apart (m_corralSegs m) \<and>
     (\<forall>e\<in>set (m_corralSizes m). fst e \<noteq> 0 \<and> snd e \<noteq> 0 \<and> (\<exists>s\<in>set (m_corralSegs m). in_seg (fst e) s)) \<and>
     unat (m_corralTotalReserved m) = sum_list (map (\<lambda>s. unat (m_corralSegSize s)) (m_corralSegs m)) \<and>
     (m_corralMaxReserved m \<noteq> 0 \<longrightarrow> m_corralTotalReserved m \<le> m_corralMaxReserved m) \<and>
     length (m_corralSegs m) \<le> kMaxCorralSegs"

definition zone_live :: "memory_manager \<Rightarrow> nat \<Rightarrow> (u32 \<times> u32) list" where
  "zone_live m j = seg_live (m_corralSegs m ! j) (m_corralSizes m)"

lemma corral_inv_core: "corral_inv m \<longleftrightarrow> corral_core m (zone_live m)"
proof -
  show ?thesis by (simp add: corral_inv_def corral_core_def zone_live_def all_set_conv_all_nth)
qed

lemma corral_core_cong:
  assumes "corral_core m lv" "\<forall>j<length (m_corralSegs m). mset (lv j) = mset (lv' j)"
  shows "corral_core m lv'"
  using assms seg_with_mset unfolding corral_core_def by blast

lemma corral_core_zone: "corral_core m lv \<Longrightarrow> u \<in> set (m_corralSegs m) \<Longrightarrow> \<exists>L. seg_with u L"
  by (auto simp: corral_core_def in_set_conv_nth)

text \<open>Replacing the allocators without moving the zones.\<close>

lemma corral_core_segs:
  assumes "corral_core m lv" "map zone_of ss = map zone_of (m_corralSegs m)"
    "\<forall>j<length ss. seg_with (ss ! j) (lv' j)"
  shows "corral_core (m\<lparr>m_corralSegs := ss\<rparr>) lv'"
proof -
  let ?os = "m_corralSegs m"
  have l: "length ss = length ?os" using assms(2) by (metis length_map)
  have z: "zone_of (ss ! j) = zone_of (?os ! j)" if "j < length ss" for j using same_zones_nth [OF assms(2) that] .
  have "sorted_wrt zones_apart ss"
    unfolding sorted_wrt_iff_nth_less
  proof (intro allI impI)
    fix i j assume ij: "i < j" "j < length ss"
    then have "zones_apart (?os ! i) (?os ! j)"
      using assms(1) l unfolding corral_core_def sorted_wrt_iff_nth_less by simp
    then show "zones_apart (ss ! i) (ss ! j)"
      using zone_of_facts(1) [OF z] ij by (simp add: zones_apart_def)
  qed
  moreover have "\<exists>s\<in>set ss. in_seg a s" if "s \<in> set ?os" "in_seg a s" for a s
    using that zone_of_facts(2) [OF z] l by (force simp: in_set_conv_nth)
  moreover have "map (\<lambda>s. unat (m_corralSegSize s)) ss = map (\<lambda>s. unat (m_corralSegSize s)) ?os"
    using zone_of_facts(4) [OF z] l by (intro nth_equalityI) simp_all
  moreover have "\<exists>s\<in>set ss. in_seg (fst e) s" if "e \<in> set (m_corralSizes m)" for e
    using that assms(1) calculation(2) unfolding corral_core_def by blast
  ultimately show ?thesis using assms(1,3) l unfolding corral_core_def by simp
qed

lemma corral_sum_bound:
  assumes "sorted_wrt zones_apart ss" "\<forall>s\<in>set ss. range_ok 0x1000 (m_corralSegBase s) (m_corralSegSize s)"
  shows "sum_list (map (\<lambda>s. unat (m_corralSegSize s)) ss) < 4294967296"
proof -
  have c: "cover (map zone ss) x \<le> 1" for x
    using assms(1)
  proof (induction ss)
    case (Cons s ss)
    have "cover (map zone ss) x = 0" if "in_block (zone s) x"
    proof (rule ccontr)
      assume "cover (map zone ss) x \<noteq> 0"
      then obtain t where "t \<in> set ss" "in_block (zone t) x"
        by (fastforce simp: cover_def filter_empty_conv)
      then show False using Cons.prems that by (auto simp: zones_apart_def in_block_def)
    qed
    then show ?case using Cons by (simp add: cover_def)
  qed (simp add: cover_def)
  have h: "\<forall>b\<in>set (map zone ss). 0 \<le> blo b \<and> bend b \<le> 4294967295"
    using assms(2) range_ok_zone(1) by fastforce
  have "sum_list (map (\<lambda>s. unat (m_corralSegSize s)) ss) \<le> sum_list (map (\<lambda>s. bsz (zone s)) ss)"
    using assms(2) range_ok_zone(2) by (intro sum_list_mono) auto
  also have "\<dots> = sum_list (map bsz (map zone ss))" by (simp add: comp_def)
  also have "\<dots> \<le> 4294967295 - 0" by (rule sum_blocks_le [OF h c])
  finally show ?thesis by simp
qed

subsection \<open>Growing\<close>

text \<open>
  What a new zone is assumed to be: \<open>VirtualAlloc\<close> reserves a range that is page aligned, ends
  below 4 GB and overlaps no zone reserved before; pages have 4 KB and the granularity is not
  overridden.
\<close>

definition reserves_fresh :: "mm_env \<Rightarrow> memory_manager \<Rightarrow> bool" where
  "reserves_fresh env m \<longleftrightarrow> me_page env = 4096 \<and> me_getenv env ''TS3VAS_PROXY_ARENA_GRAN_KB'' = None \<and>
     (\<forall>n. me_reserve env n \<noteq> 0 \<longrightarrow> range_ok 0x1000 (me_reserve env n) n \<and>
        (\<forall>s\<in>set (m_corralSegs m).
           bend (zone s) \<le> unat (me_reserve env n) \<or>
           unat (me_reserve env n) + unat (AlignUp n 0x1000) \<le> blo (zone s)))"

lemma InitFromShared_pool:
  assumes "fresh pa" "InitFromShared os base sz pa = (True, pa')"
  shows "os_pool os (of_nat kNodePoolBytes) \<noteq> 0"
  using assms by (auto simp: InitFromShared_def InitNodePool_def fresh_def split: if_splits)

lemma AddCorralSegment_step:
  assumes c: "corral_core m lv" and lv: "lv (length (m_corralSegs m)) = []"
    and e: "reserves_fresh env m" and a: "AddCorralSegment env sz m = (ok, ev, m')"
  shows "\<not> ok \<Longrightarrow> m' = m" "ok \<Longrightarrow> corral_core m' lv"
    "ok \<Longrightarrow> length (m_corralSegs m') = Suc (length (m_corralSegs m))"
    "ok \<Longrightarrow> \<exists>s. m' = m\<lparr>m_corralSegs := m_corralSegs m @ [s], m_corralTotalReserved := m_corralTotalReserved m + sz\<rparr> \<and>
       m_corralSegSize s = sz \<and> seg_with s []"
proof -
  show "\<not> ok \<Longrightarrow> m' = m"
    using a by (auto simp: AddCorralSegment_def Let_def split: if_splits prod.splits)
  assume ok
  let ?b = "me_reserve env sz"
  obtain al where st: "length (m_corralSegs m) < kMaxCorralSegs"
    "\<not> (m_corralMaxReserved m \<noteq> 0 \<and> m_corralTotalReserved m + sz > m_corralMaxReserved m)" "?b \<noteq> 0"
    "InitFromShared (me_os env) ?b sz (new_allocator env) = (True, al)"
    "m' = m\<lparr>m_corralSegs := m_corralSegs m @ [\<lparr>m_corralSegBase = ?b, m_corralSegSize = sz, m_corralSegAlloc = al\<rparr>],
         m_corralTotalReserved := m_corralTotalReserved m + sz\<rparr>"
    using a \<open>ok\<close> by (auto simp: AddCorralSegment_def Let_def not_le split: if_splits prod.splits)
  let ?s = "\<lparr>m_corralSegBase = ?b, m_corralSegSize = sz, m_corralSegAlloc = al\<rparr>"
  have fr: "fresh (new_allocator env)" using e fresh_new_allocator by (simp add: reserves_fresh_def)
  have gr: "m_allocGranularity (new_allocator env) = 0x1000"
    using e by (simp add: reserves_fresh_def new_allocator_def ProxyAllocator_init_def env_in_buf_def Let_def)
  have rg: "range_ok 0x1000 ?b sz" using e st(3) by (auto simp: reserves_fresh_def)
  note ii = InitFromShared_inv [OF fr InitFromShared_pool [OF fr st(4)] _ st(4), unfolded gr, OF rg]
  have sw: "seg_with ?s []" using ii rg by (simp add: seg_with_def)
  show "\<exists>s. m' = m\<lparr>m_corralSegs := m_corralSegs m @ [s], m_corralTotalReserved := m_corralTotalReserved m + sz\<rparr> \<and>
       m_corralSegSize s = sz \<and> seg_with s []" using st(5) sw by auto
  show "length (m_corralSegs m') = Suc (length (m_corralSegs m))" by (simp add: st(5))
  have ap: "sorted_wrt zones_apart (m_corralSegs m @ [?s])"
    using c e st(3) by (auto simp: corral_core_def reserves_fresh_def sorted_wrt_append zones_apart_def zone_def)
  have "\<forall>s\<in>set (m_corralSegs m @ [?s]). range_ok 0x1000 (m_corralSegBase s) (m_corralSegSize s)"
    using c rg by (auto simp: corral_core_def seg_with_def in_set_conv_nth)
  from corral_sum_bound [OF ap this]
  have "unat (m_corralTotalReserved m) + unat sz < 4294967296" using c by (simp add: corral_core_def)
  then have "unat (m_corralTotalReserved m + sz) = unat (m_corralTotalReserved m) + unat sz" by (rule u32_plus)
  then show "corral_core m' lv"
    using c st ap sw lv by (auto simp: corral_core_def nth_append less_Suc_eq not_less)
qed

text \<open>The slot search of a reservation, with or without a new zone.\<close>

lemma corral_slot_step:
  assumes i: "corral_inv m" and e: "reserves_fresh env m" and r: "req_ok 0x1000 sz"
    and s: "corral_slot env sz m = (p, i, ev, m')"
  shows "p = 0 \<Longrightarrow> corral_inv m'"
    "p \<noteq> 0 \<Longrightarrow> i < length (m_corralSegs m') \<and> corral_core m' ((zone_live m')(i := (p, sz) # zone_live m' i))"
    "m_corralSizes m' = m_corralSizes m" "m_corralReady m' = m_corralReady m"
proof -
  obtain q k ss where t: "corral_try sz (m_corralSegs m) = (q, k, ss)" by (metis prod_cases3)
  have c: "corral_core m (zone_live m)" using i by (simp add: corral_inv_core)
  have sw: "\<forall>j<length (m_corralSegs m). seg_with (m_corralSegs m ! j) (zone_live m j)"
    using c by (simp add: corral_core_def)
  note ts = corral_try_step [OF sw r t]
  let ?m1 = "m\<lparr>m_corralSegs := ss\<rparr>"
  have l: "length ss = length (m_corralSegs m)" using ts by (metis length_map)
  have zl: "zone_live ?m1 j = zone_live m j" if "j < length ss" for j
    using zone_of_facts(3) [OF same_zones_nth [of ss "m_corralSegs m" j]] ts that by (simp add: zone_live_def)
  have "(p = 0 \<longrightarrow> corral_inv m') \<and>
    (p \<noteq> 0 \<longrightarrow> i < length (m_corralSegs m') \<and> corral_core m' ((zone_live m')(i := (p, sz) # zone_live m' i))) \<and>
    m_corralSizes m' = m_corralSizes m \<and> m_corralReady m' = m_corralReady m"
  proof (cases "q = 0")
    case False
    then have r: "p = q" "i = k" "m' = ?m1" using s t by (auto simp: corral_slot_def)
    have "\<forall>j<length ss. seg_with (ss ! j) (((zone_live ?m1)(k := (q, sz) # zone_live ?m1 k)) j)"
      using ts False l zl by auto
    then show ?thesis using corral_core_segs [OF c] ts False l r by simp
  next
    case True
    have "\<forall>j<length ss. seg_with (ss ! j) (zone_live ?m1 j)" using ts True l zl by simp
    then have c1: "corral_core ?m1 (zone_live ?m1)" using corral_core_segs [OF c] ts by blast
    define lv where "lv j = (if j < length ss then zone_live ?m1 j else [])" for j
    have c2: "corral_core ?m1 lv" by (rule corral_core_cong [OF c1]) (simp add: lv_def)
    have e1: "reserves_fresh env ?m1"
    proof -
      have "\<exists>u\<in>set (m_corralSegs m). zone u = zone v" if "v \<in> set ss" for v
        using that l zone_of_facts(1) [OF same_zones_nth [of ss "m_corralSegs m"]] ts
        by (metis in_set_conv_nth)
      then show ?thesis using e by (simp add: reserves_fresh_def) metis
    qed
    let ?g = "if sz * 2 < m_corralGrowFloor m then m_corralGrowFloor m else sz * 2"
    obtain ok ev2 m2 where a: "AddCorralSegment env ?g ?m1 = (ok, ev2, m2)" by (metis prod_cases3)
    have lv0: "lv (length (m_corralSegs ?m1)) = []" by (simp add: lv_def)
    note as = AddCorralSegment_step [OF c2 lv0 e1 a]
    show ?thesis
    proof (cases ok)
      case False
      then have "p = 0" "m' = ?m1" using s t True a as(1) by (auto simp: corral_slot_def Let_def cong: if_cong)
      then show ?thesis using c1 by (simp add: corral_inv_core)
    next
      case ok: True
      obtain z where z: "m2 = ?m1\<lparr>m_corralSegs := ss @ [z], m_corralTotalReserved := m_corralTotalReserved m + ?g\<rparr>"
        "seg_with z []" using as(4) [OF ok] by auto
      obtain pp al where al: "Allocate sz False (m_corralSegAlloc z) = (pp, al)" by (cases "Allocate sz False (m_corralSegAlloc z)")
      let ?z = "z\<lparr>m_corralSegAlloc := al\<rparr>"
      have r2: "p = pp" "i = length ss" "m' = m2\<lparr>m_corralSegs := ss @ [?z]\<rparr>"
        using s t True a ok z al by (auto simp: corral_slot_def Let_def on_seg_def cong: if_cong)
      have zs: "seg_with ?z (if pp = 0 then [] else [(pp, sz)])" using Allocate_seg [OF z(2) r al] by simp
      have "\<not> in_seg (fst x) z" if "x \<in> set (m_corralSizes m)" for x
      proof -
        have ap: "sorted_wrt zones_apart (ss @ [z])"
          using as(2) [OF ok] z(1) by (simp add: corral_core_def)
        have "\<exists>u\<in>set ss. in_seg (fst x) u" using c1 that by (simp add: corral_core_def)
        then obtain u where u: "u \<in> set ss" "in_seg (fst x) u" by blast
        moreover obtain L where "seg_with u L" using corral_core_zone [OF c1] u(1) by auto
        ultimately show ?thesis
          using in_one_zone [of u z] ap z(2) by (auto simp: seg_with_def sorted_wrt_append)
      qed
      then have new: "seg_live z (m_corralSizes m) = []" by (simp add: seg_live_def filter_empty_conv)
      have zl2: "zone_live m' j = (if j < length ss then zone_live ?m1 j else [])" if "j \<le> length ss" for j
        using that new r2 z(1) zone_of_facts(3) [of ?z z]
        by (auto simp: zone_live_def nth_append zone_of_def)
      have "corral_core m' (if pp = 0 then zone_live m' else (zone_live m')(i := (pp, sz) # zone_live m' i))"
        unfolding r2(3)
      proof (rule corral_core_segs [OF as(2) [OF ok]])
        show "map zone_of (ss @ [?z]) = map zone_of (m_corralSegs m2)" by (simp add: z zone_of_def)
        show "\<forall>j<length (ss @ [?z]). seg_with ((ss @ [?z]) ! j) ((if pp = 0 then zone_live (m2\<lparr>m_corralSegs := ss @ [?z]\<rparr>)
           else (zone_live (m2\<lparr>m_corralSegs := ss @ [?z]\<rparr>))(i := (pp, sz) # zone_live (m2\<lparr>m_corralSegs := ss @ [?z]\<rparr>) i)) j)"
          using c1 zs zl2 r2 by (auto simp: corral_core_def nth_append less_Suc_eq)
      qed
      then show ?thesis using r2 z(1) by (simp add: corral_inv_core split: if_splits)
    qed
  qed
  then show "p = 0 \<Longrightarrow> corral_inv m'"
    "p \<noteq> 0 \<Longrightarrow> i < length (m_corralSegs m') \<and> corral_core m' ((zone_live m')(i := (p, sz) # zone_live m' i))"
    "m_corralSizes m' = m_corralSizes m" "m_corralReady m' = m_corralReady m" by auto
qed

subsection \<open>The registry of script-arena slots\<close>

lemma zone_of_on_seg: "map zone_of (on_seg i f ss) = map zone_of ss"
proof (cases "i < length ss")
  case True
  then show ?thesis by (intro nth_equalityI) (simp_all add: on_seg_def nth_list_update zone_of_def)
qed (simp add: on_seg_def list_update_beyond)

lemma zone_live_on_seg:
  "j < length (m_corralSegs m) \<Longrightarrow> zone_live (m\<lparr>m_corralSegs := on_seg i f (m_corralSegs m)\<rparr>) j = zone_live m j"
  using zone_of_facts(3) [OF same_zones_nth [OF zone_of_on_seg, of j i f "m_corralSegs m"]]
  by (simp add: zone_live_def on_seg_def)

lemma seg_live_mset:
  "mset sizes = add_mset e (mset sizes') \<Longrightarrow>
   mset (seg_live s sizes) = mset (if in_seg (fst e) s then e # seg_live s sizes' else seg_live s sizes')"
  by (simp add: seg_live_def)

text \<open>Giving a slot of zone \<open>i\<close> back to its allocator.\<close>

lemma corral_core_free:
  assumes "corral_core m lv" "i < length (m_corralSegs m)" "(p, n) \<in> set (lv i)"
  shows "corral_core (m\<lparr>m_corralSegs := on_seg i (Free p n) (m_corralSegs m)\<rparr>) (lv(i := remove1 (p, n) (lv i)))"
proof (rule corral_core_segs [OF assms(1) zone_of_on_seg])
  have "\<forall>j<length (m_corralSegs m). seg_with (m_corralSegs m ! j) (lv j)" using assms(1) by (simp add: corral_core_def)
  then show "\<forall>j<length (on_seg i (Free p n) (m_corralSegs m)).
      seg_with (on_seg i (Free p n) (m_corralSegs m) ! j) ((lv(i := remove1 (p, n) (lv i))) j)"
    using Free_seg [OF _ assms(3)] assms(2) by (auto simp: on_seg_def nth_list_update)
qed

text \<open>Entering a slot that zone \<open>i\<close> accounts for.\<close>

lemma corral_core_new_slot:
  assumes c: "corral_core m ((zone_live m)(i := (p, sz) # zone_live m i))" and i: "i < length (m_corralSegs m)"
  shows "corral_inv (m\<lparr>m_corralSizes := om_insert p sz (m_corralSizes m)\<rparr>)"
    "\<forall>(q, k)\<in>set (m_corralSizes m). apart (p, sz) (q, k)" "map_of (m_corralSizes m) p = None"
proof -
  let ?ss = "m_corralSegs m" and ?lv = "(zone_live m)(i := (p, sz) # zone_live m i)"
  have sw: "seg_with (?ss ! j) (?lv j)" if "j < length ?ss" for j using c that by (simp add: corral_core_def)
  have swi: "seg_with (?ss ! i) ((p, sz) # zone_live m i)" using sw [OF i] by simp
  have rg: "range_ok 0x1000 (m_corralSegBase (?ss ! j)) (m_corralSegSize (?ss ! j))" if "j < length ?ss" for j
    using sw [OF that] by (simp add: seg_with_def)
  have ap: "zones_apart (?ss ! a) (?ss ! b)" if "a < length ?ss" "b < length ?ss" "a \<noteq> b" for a b
    using c that nth_zones_apart by (auto simp: corral_core_def)
  have pz: "in_seg p (?ss ! j) \<longleftrightarrow> j = i" if "j < length ?ss" for j
    using zone_slot(1) [OF swi, of p sz] in_one_zone [OF ap [OF i that] rg [OF i] rg [OF that], of p] by auto
  have all: "apart (p, sz) (q, k) \<and> p \<noteq> q" if m: "(q, k) \<in> set (m_corralSizes m)" for q k
  proof -
    have "\<exists>s\<in>set ?ss. in_seg q s" using c m by (force simp: corral_core_def)
    then obtain j where j: "j < length ?ss" "in_seg q (?ss ! j)" by (metis in_set_conv_nth)
    have l: "(q, k) \<in> set (zone_live m j)" using j m by (simp add: zone_live_def seg_live_def)
    show ?thesis
    proof (cases "j = i")
      case True
      then show ?thesis using pa_inv_new_apart [of "m_corralSegAlloc (?ss ! i)" p sz "zone_live m i" q k] swi l
        by (simp add: seg_with_def)
    next
      case False
      then have "seg_with (?ss ! j) (zone_live m j)" using sw [OF j(1)] by simp
      then have "apart (p, sz) (q, k)" using slots_of_zones_apart [OF ap [OF i j(1)] swi _ _ l] False by auto
      moreover have "p \<noteq> q" using pz [OF j(1)] j(2) False by blast
      ultimately show ?thesis by simp
    qed
  qed
  then show "\<forall>(q, k)\<in>set (m_corralSizes m). apart (p, sz) (q, k)" by auto
  show new: "map_of (m_corralSizes m) p = None"
  proof (cases "map_of (m_corralSizes m) p")
    case (Some k)
    then show ?thesis using all [OF map_of_SomeD [OF Some]] by simp
  qed simp
  let ?m = "m\<lparr>m_corralSizes := om_insert p sz (m_corralSizes m)\<rparr>"
  have ms: "mset (zone_live ?m j) = mset (?lv j)" if "j < length ?ss" for j
    using seg_live_mset [OF mset_om_insert_new [OF new, of sz], of "?ss ! j"] pz [OF that]
    by (auto simp: zone_live_def)
  have o: "ordered (m_corralSizes m)" using c by (simp add: corral_core_def)
  have ex: "fst e \<noteq> 0 \<and> snd e \<noteq> 0 \<and> (\<exists>s\<in>set ?ss. in_seg (fst e) s)" if "e \<in> set (om_insert p sz (m_corralSizes m))" for e
  proof (cases "e = (p, sz)")
    case True
    then show ?thesis using zone_slot(1,3,4) [OF swi, of p sz] i by auto
  next
    case False
    then have "e \<in> set (m_corralSizes m)" using that set_om_insert_subset by fastforce
    then show ?thesis using c by (simp add: corral_core_def)
  qed
  have "corral_core ?m ?lv"
    using c ordered_om_insert [OF o, of p sz] ex unfolding corral_core_def by simp
  then show "corral_inv ?m"
    unfolding corral_inv_core using corral_core_cong [of ?m ?lv "zone_live ?m"] ms by simp
qed

lemma CorralReserve_step:
  assumes i: "corral_inv m" and e: "reserves_fresh env m" and r: "req_ok 0x1000 sz"
    and c: "CorralReserve env sz allocType protect m = (p, ev, m')"
  shows "corral_inv m'" "p = 0 \<Longrightarrow> m_corralSizes m' = m_corralSizes m"
    "p \<noteq> 0 \<Longrightarrow> m_corralSizes m' = om_insert p sz (m_corralSizes m) \<and>
       (\<forall>(q, k)\<in>set (m_corralSizes m). apart (p, sz) (q, k))"
    "m_corralReady m' = m_corralReady m"
proof -
  obtain q k ev1 m1 where s: "corral_slot env sz m = (q, k, ev1, m1)" by (metis prod_cases4)
  note st = corral_slot_step [OF i e r s]
  have "corral_inv m' \<and> (p = 0 \<longrightarrow> m_corralSizes m' = m_corralSizes m) \<and>
    (p \<noteq> 0 \<longrightarrow> m_corralSizes m' = om_insert p sz (m_corralSizes m) \<and>
       (\<forall>(q, k)\<in>set (m_corralSizes m). apart (p, sz) (q, k))) \<and> m_corralReady m' = m_corralReady m"
  proof (cases "\<not> m_corralReady m \<or> sz = 0 \<or> q = 0")
    case True
    then have "p = 0" "m' = m \<or> (q = 0 \<and> m' = m1)" using c s by (auto simp: CorralReserve_def split: if_splits)
    then show ?thesis using i st by auto
  next
    case False
    then have k: "k < length (m_corralSegs m1)" "corral_core m1 ((zone_live m1)(k := (q, sz) # zone_live m1 k))"
      using st(2) by auto
    note ns = corral_core_new_slot [OF k(2,1)]
    show ?thesis
    proof (cases "allocType AND MEM_COMMIT \<noteq> 0 \<and> \<not> me_commit env q sz (if protect \<noteq> 0 then protect else PAGE_READWRITE)")
      case True
      let ?f = "m1\<lparr>m_corralSegs := on_seg k (Free q sz) (m_corralSegs m1)\<rparr>"
      have e: "p = 0" "m' = ?f" using c s False True by (auto simp: CorralReserve_def)
      have "corral_core ?f (((zone_live m1)(k := (q, sz) # zone_live m1 k))(k := zone_live m1 k))"
        using corral_core_free [OF k(2,1), of q sz] by simp
      then have "corral_core ?f (zone_live m1)" by (simp add: fun_upd_idem)
      then have "corral_core ?f (zone_live ?f)"
        using corral_core_cong [of ?f "zone_live m1" "zone_live ?f"] zone_live_on_seg [of _ m1 k "Free q sz"]
        by (simp add: on_seg_def)
      then show ?thesis using e st(3,4) by (simp add: corral_inv_core)
    next
      case ok: False
      let ?m2 = "m1\<lparr>m_corralSizes := om_insert q sz (m_corralSizes m1)\<rparr>"
      have "p = q \<and> (m' = ?m2 \<or> (\<exists>pk. m' = ?m2\<lparr>m_corralPeakBytes := pk\<rparr>))"
        using c s False ok by (auto simp: CorralReserve_def Let_def split: if_splits)
      moreover have "?m2 = ?m2\<lparr>m_corralPeakBytes := m_corralPeakBytes ?m2\<rparr>" by simp
      ultimately obtain pk where e: "p = q" and pk: "m' = ?m2\<lparr>m_corralPeakBytes := pk\<rparr>" by metis
      have "corral_inv m'" using ns(1) by (simp add: pk corral_inv_def)
      then show ?thesis using ns(2) False e st(3,4) by (simp add: pk)
    qed
  qed
  then show "corral_inv m'" "p = 0 \<Longrightarrow> m_corralSizes m' = m_corralSizes m"
    "p \<noteq> 0 \<Longrightarrow> m_corralSizes m' = om_insert p sz (m_corralSizes m) \<and>
       (\<forall>(q, k)\<in>set (m_corralSizes m). apart (p, sz) (q, k))"
    "m_corralReady m' = m_corralReady m" by auto
qed

lemma CorralFree_step:
  assumes i: "corral_inv m" and rd: "m_corralReady m" and f: "CorralFree p m = (b, ev, m')"
  shows "corral_inv m'" "b = (map_of (m_corralSizes m) p \<noteq> None)"
    "map_of (m_corralSizes m') = (map_of (m_corralSizes m))(p := None)" "m_corralReady m'"
proof -
  have c: "corral_core m (zone_live m)" using i by (simp add: corral_inv_core)
  have o: "ordered (m_corralSizes m)" using i by (simp add: corral_inv_def)
  have nz: "fst x \<noteq> 0 \<and> snd x \<noteq> 0 \<and> (\<exists>s\<in>set (m_corralSegs m). in_seg (fst x) s)" if "x \<in> set (m_corralSizes m)" for x
    using i that by (simp add: corral_inv_def)
  have "corral_inv m' \<and> b = (map_of (m_corralSizes m) p \<noteq> None) \<and>
    map_of (m_corralSizes m') = (map_of (m_corralSizes m))(p := None) \<and> m_corralReady m'"
  proof (cases "map_of (m_corralSizes m) p")
    case None
    then have "m' = m" "\<not> b" using f by (auto simp: CorralFree_def split: if_splits)
    then show ?thesis using None i rd by (auto simp: fun_upd_idem)
  next
    case (Some n)
    have mem: "(p, n) \<in> set (m_corralSizes m)" using Some by (rule map_of_SomeD)
    have z: "p \<noteq> 0" "n \<noteq> 0" "\<exists>s\<in>set (m_corralSegs m). in_seg p s" using nz [OF mem] by auto
    then obtain j where j: "j < length (m_corralSegs m)" "in_seg p (m_corralSegs m ! j)" by (metis in_set_conv_nth)
    have ix: "seg_index p (m_corralSegs m) = Some j"
      using seg_index_unique [OF _ _ j] i by (auto simp: corral_inv_def seg_with_def)
    have l: "(p, n) \<in> set (zone_live m j)" using j mem by (simp add: zone_live_def seg_live_def)
    let ?f = "m\<lparr>m_corralSegs := on_seg j (Free p n) (m_corralSegs m)\<rparr>"
    let ?g = "m\<lparr>m_corralSegs := on_seg j (Free p n) (m_corralSegs m), m_corralSizes := om_erase p (m_corralSizes m)\<rparr>"
    have e: "b" "m' = ?g" using f Some ix z rd by (auto simp: CorralFree_def)
    have cf: "corral_core ?f ((zone_live m)(j := remove1 (p, n) (zone_live m j)))"
      by (rule corral_core_free [OF c j(1) l])
    then have cg: "corral_core ?g ((zone_live m)(j := remove1 (p, n) (zone_live m j)))"
      using ordered_om_erase [OF o] by (simp add: corral_core_def om_erase_def)
    have pz: "in_seg p (m_corralSegs m ! k) \<longleftrightarrow> k = j" if "k < length (m_corralSegs m)" for k
      using seg_index_unique [OF _ _ that] i ix j(2) by (auto simp: corral_inv_def seg_with_def)
    have "mset (zone_live ?g k) = mset (((zone_live m)(j := remove1 (p, n) (zone_live m j))) k)"
      if k: "k < length (m_corralSegs m)" for k
    proof -
      have "zone_live ?g k = seg_live (m_corralSegs m ! k) (om_erase p (m_corralSizes m))"
        using zone_of_facts(3) [OF same_zones_nth [OF zone_of_on_seg, of k j "Free p n" "m_corralSegs m"]] k
        by (simp add: zone_live_def on_seg_def)
      then show ?thesis
        using seg_live_mset [OF mset_om_erase [OF o Some], of "m_corralSegs m ! k"] pz [OF k]
        by (auto simp: zone_live_def)
    qed
    then have "corral_core ?g (zone_live ?g)"
      using corral_core_cong [OF cg, of "zone_live ?g"] by (simp add: on_seg_def)
    then show ?thesis using e rd Some map_of_om_erase [of p "m_corralSizes m"] by (simp add: corral_inv_core)
  qed
  then show "corral_inv m'" "b = (map_of (m_corralSizes m) p \<noteq> None)"
    "map_of (m_corralSizes m') = (map_of (m_corralSizes m))(p := None)" "m_corralReady m'" by auto
qed

datatype corral_op = Reserve mm_env u32 u32 u32 | Recycle u32

fun corral_do :: "corral_op \<Rightarrow> memory_manager \<Rightarrow> slot_call \<times> memory_manager" where
  "corral_do (Reserve env sz allocType protect) m =
     (case CorralReserve env sz allocType protect m of (p, ev, m) \<Rightarrow> (Created sz p, m))"
| "corral_do (Recycle p) m = (case CorralFree p m of (b, ev, m) \<Rightarrow> (FreedAt p b, m))"

fun corral_cond :: "memory_manager \<Rightarrow> corral_op \<Rightarrow> bool" where
  "corral_cond m (Reserve env sz allocType protect) \<longleftrightarrow> req_ok 0x1000 sz \<and> reserves_fresh env m"
| "corral_cond m (Recycle p) = True"

interpretation corral: slot_registry corral_do "\<lambda>m. corral_inv m \<and> m_corralReady m" corral_cond
  "\<lambda>m. map_of (m_corralSizes m)"
proof
  fix m a c m'
  assume i: "corral_inv m \<and> m_corralReady m" and k: "corral_cond m a" and st: "corral_do a m = (c, m')"
  show "corral_inv m' \<and> m_corralReady m'"
  proof (cases a)
    case (Reserve env sz allocType protect)
    obtain p ev m2 where r: "CorralReserve env sz allocType protect m = (p, ev, m2)" by (metis prod_cases3)
    then show ?thesis using CorralReserve_step(1,4) [OF _ _ _ r] i k st Reserve by auto
  next
    case (Recycle p)
    obtain b ev m2 where f: "CorralFree p m = (b, ev, m2)" by (metis prod_cases3)
    then show ?thesis using CorralFree_step(1,4) [OF _ _ f] i st Recycle by auto
  qed
next
  fix m a n m'
  assume i: "corral_inv m \<and> m_corralReady m" and k: "corral_cond m a" and st: "corral_do a m = (Created n 0, m')"
  then obtain env allocType protect where a: "a = Reserve env n allocType protect"
    by (cases a) (auto split: prod.splits)
  obtain p ev m2 where r: "CorralReserve env n allocType protect m = (p, ev, m2)" by (metis prod_cases3)
  then show "map_of (m_corralSizes m') = map_of (m_corralSizes m)"
    using CorralReserve_step(2) [OF _ _ _ r] i k st a by auto
next
  fix m a n p m'
  assume i: "corral_inv m \<and> m_corralReady m" and k: "corral_cond m a" and st: "corral_do a m = (Created n p, m')"
    and p: "p \<noteq> 0"
  then obtain env allocType protect where a: "a = Reserve env n allocType protect"
    by (cases a) (auto split: prod.splits)
  obtain q ev m2 where r: "CorralReserve env n allocType protect m = (q, ev, m2)" by (metis prod_cases3)
  have e: "q = p" "m2 = m'" using st a r by auto
  have "ordered (m_corralSizes m)" using i by (simp add: corral_inv_def)
  then show "map_of (m_corralSizes m') = (map_of (m_corralSizes m))(p \<mapsto> n) \<and>
      (\<forall>q k. map_of (m_corralSizes m) q = Some k \<longrightarrow> apart (p, n) (q, k))"
    using CorralReserve_step(3) [OF _ _ _ r] i k a p e map_of_om_insert map_of_SomeD by fastforce
next
  fix m a p b m'
  assume i: "corral_inv m \<and> m_corralReady m" and st: "corral_do a m = (FreedAt p b, m')"
  then have a: "a = Recycle p" by (cases a) (auto split: prod.splits)
  obtain b2 ev m2 where f: "CorralFree p m = (b2, ev, m2)" by (metis prod_cases3)
  then show "b = (map_of (m_corralSizes m) p \<noteq> None) \<and> map_of (m_corralSizes m') = (map_of (m_corralSizes m))(p := None)"
    using CorralFree_step(2,3) [OF _ _ f] i st a by auto
qed

lemma InitScriptArena_inv:
  assumes "m_corralSegs m = []" "m_corralSizes m = []" "m_corralTotalReserved m = 0"
    "reserves_fresh env m" "InitScriptArena env m = (True, ev, m')"
  shows "corral_inv m'" "m_corralReady m'" "m_corralSizes m' = []"
proof -
  let ?m = "m\<lparr>m_corralStartBytes := EnvMb (me_getenv env ''TS3VAS_SCRIPT_ARENA_MB'') 126,
                m_corralGrowFloor := EnvMb (me_getenv env ''TS3VAS_SCRIPT_ARENA_GROW_MB'') 32,
                m_corralMaxReserved := EnvMb (me_getenv env ''TS3VAS_SCRIPT_ARENA_MAX_MB'') 512\<rparr>"
  obtain ok ev2 m2 where a: "AddCorralSegment env (m_corralStartBytes ?m) ?m = (ok, ev2, m2)" by (metis prod_cases3)
  have r: ok "m' = m2\<lparr>m_corralReady := True\<rparr>" using assms(5) a by (auto simp: InitScriptArena_def Let_def)
  have c: "corral_core ?m (\<lambda>_. [])" using assms(1-3) by (simp add: corral_core_def)
  have e: "reserves_fresh env ?m" using assms(4) by (simp add: reserves_fresh_def)
  note as = AddCorralSegment_step [OF c _ e a]
  have s: "m_corralSizes m2 = []" using as(4) r(1) assms(2) by auto
  have "corral_core m' (\<lambda>_. [])" using as(2) r by (simp add: corral_core_def)
  then show "corral_inv m'"
    unfolding corral_inv_core by (rule corral_core_cong) (simp add: zone_live_def seg_live_def r(2) s)
  show "m_corralReady m'" "m_corralSizes m' = []" by (simp_all add: r(2) s)
qed

text \<open>C4: The script arena is one map of slots over all its zones: in any run of reservations and
  releases, whichever zone serves a request and whenever a zone is added, no two slots overlap,
  a release succeeds exactly for a slot in the map, every slot lies in a zone, and the address
  space reserved for the zones never exceeds the cap.  (The system is assumed to reserve
  page-aligned ranges that overlap none reserved before.)\<close>

theorem script_arena_is_a_map:
  assumes "m_corralSegs m0 = []" "m_corralSizes m0 = []" "m_corralTotalReserved m0 = 0"
    and "reserves_fresh env m0" "InitScriptArena env m0 = (True, ev, m)"
    and "run_meets corral_cond corral_do ops m" "slot_trace corral_do ops m = (calls, m')"
  shows "(addr_map calls Map.empty = Some (map_of (m_corralSizes m')))
    \<and> (\<forall>p n q k. map_of (m_corralSizes m') p = Some n \<longrightarrow> map_of (m_corralSizes m') q = Some k \<longrightarrow> p \<noteq> q \<longrightarrow>
      apart (p, n) (q, k))
    \<and> (\<forall>p n. map_of (m_corralSizes m') p = Some n \<longrightarrow> IsCorralAddress p m')
    \<and> (m_corralMaxReserved m' \<noteq> 0 \<longrightarrow>
      sum_list (map (\<lambda>s. unat (m_corralSegSize s)) (m_corralSegs m')) \<le> unat (m_corralMaxReserved m'))"
proof (intro conjI)
  note i = InitScriptArena_inv [OF assms(1-5)]
  from corral.trace_accepted [OF _ assms(6,7)] i
  have t: "addr_map calls Map.empty = Some (map_of (m_corralSizes m'))" and inv: "corral_inv m'" "m_corralReady m'"
    by simp_all
  show "addr_map calls Map.empty = Some (map_of (m_corralSizes m'))" by (rule t)
  then show "\<forall>p n q k. map_of (m_corralSizes m') p = Some n \<longrightarrow> map_of (m_corralSizes m') q = Some k \<longrightarrow> p \<noteq> q \<longrightarrow>
      apart (p, n) (q, k)" using addr_map_apart [of calls Map.empty] by simp
  show "\<forall>p n. map_of (m_corralSizes m') p = Some n \<longrightarrow> IsCorralAddress p m'"
    using inv map_of_SomeD unfolding IsCorralAddress_def corral_inv_def by fastforce
  show "m_corralMaxReserved m' \<noteq> 0 \<longrightarrow>
      sum_list (map (\<lambda>s. unat (m_corralSegSize s)) (m_corralSegs m')) \<le> unat (m_corralMaxReserved m')"
    using inv(1) by (auto simp: corral_inv_def u32_le_unat)
qed

definition demo_corral_env :: "u32 \<Rightarrow> mm_env" where
  "demo_corral_env b = demo_mm_env True\<lparr>me_reserve := \<lambda>n. if unat b + unat (AlignUp n 0x1000) < 4294967296 \<and> req_ok 0x1000 n then b else 0\<rparr>"

lemma demo_corral_fresh:
  "b \<noteq> 0 \<Longrightarrow> 0x1000 dvd unat b \<Longrightarrow>
   \<forall>s\<in>set (m_corralSegs m). bend (zone s) \<le> unat b \<Longrightarrow> reserves_fresh (demo_corral_env b) m"
  by (simp add: reserves_fresh_def demo_corral_env_def demo_mm_env_def range_ok_def)

text \<open>A request that does not fit the first zone opens a second one.\<close>

lemmas corral_eval = CorralReserve_def corral_slot_def CorralFree_def on_seg_def in_seg_def om_erase_def
  corral_used_def GetStats_def demo_corral_env_def req_ok_def

definition demo_corral :: memory_manager where
  "demo_corral = snd (snd (InitScriptArena (demo_corral_env 0x30000000) (MemoryManager_init (demo_mm_env True))))"

lemma script_arena_is_a_map_witness:
  "\<exists>m'. slot_trace corral_do
      [Reserve (demo_mm_env True) 0x10000 0x2000 4, Reserve (demo_corral_env 0x38000000) 0x8000000 0x3000 0x40,
       Recycle 0x30000000, Recycle 0x30000000] demo_corral =
    ([Created 0x10000 0x30000000, Created 0x8000000 0x38000000, FreedAt 0x30000000 True, FreedAt 0x30000000 False], m') \<and>
    map_of (m_corralSizes m') = [0x38000000 \<mapsto> 0x8000000] \<and> IsCorralAddress 0x38000000 m'"
proof -
  let ?ops = "[Reserve (demo_mm_env True) 0x10000 0x2000 4, Reserve (demo_corral_env 0x38000000) 0x8000000 0x3000 0x40,
       Recycle 0x30000000, Recycle 0x30000000]"
  let ?m0 = "MemoryManager_init (demo_mm_env True)"
  have f0: "reserves_fresh (demo_corral_env 0x30000000) ?m0"
    by (rule demo_corral_fresh) (simp_all add: MemoryManager_init_def)
  have i: "InitScriptArena (demo_corral_env 0x30000000) ?m0 = (True, [], demo_corral)"
    unfolding demo_corral_def by (simp add: mm_eval arena_eval corral_eval)
  obtain cs m' where t: "slot_trace corral_do ?ops demo_corral = (cs, m')" by (cases "slot_trace corral_do ?ops demo_corral")
  have c: "cs = [Created 0x10000 0x30000000, Created 0x8000000 0x38000000, FreedAt 0x30000000 True, FreedAt 0x30000000 False]"
    using t unfolding demo_corral_def by (simp add: mm_eval arena_eval corral_eval MEM_COMMIT_def PAGE_READWRITE_def)
  have fr: "reserves_fresh (demo_mm_env True) m" for m by (simp add: reserves_fresh_def demo_mm_env_def)
  have m: "run_meets corral_cond corral_do ?ops demo_corral"
  proof -
    have "\<forall>s\<in>set (m_corralSegs (snd (corral_do (hd ?ops) demo_corral))). bend (zone s) \<le> unat (0x38000000 :: u32)"
      unfolding demo_corral_def
      by (simp add: mm_eval arena_eval corral_eval MEM_COMMIT_def PAGE_READWRITE_def zone_def)
    then have "reserves_fresh (demo_corral_env 0x38000000) (snd (corral_do (hd ?ops) demo_corral))"
      by (intro demo_corral_fresh) simp_all
    then show ?thesis using fr by (simp add: req_ok_def)
  qed
  note th = script_arena_is_a_map [OF _ _ _ f0 i m t]
  have "Some (map_of (m_corralSizes m')) = Some [0x38000000 \<mapsto> 0x8000000]"
    using th [THEN conjunct1] c by (auto simp: MemoryManager_init_def apart_def fun_eq_iff split: if_splits)
  moreover from this have "IsCorralAddress 0x38000000 m'" using th [THEN conjunct2, THEN conjunct2, THEN conjunct1] by (simp add: MemoryManager_init_def)
  ultimately show ?thesis using t c by simp
qed

text \<open>A reservation of 2 GB or more wraps the doubled zone size: the new zone, which is meant
  to be at least twice the request, is smaller than the request, so the request still gets
  nothing while the zone stays reserved and counts against the cap.\<close>

theorem corral_growth_wraps:
  assumes "corral_inv m" "m_corralReady m" "reserves_fresh env m" "req_ok 0x1000 sz"
    and "0x80000000 \<le> unat sz" "unat (m_corralGrowFloor m) + 0x1000 \<le> unat sz"
    and "corral_try sz (m_corralSegs m) = (0, k, ss)"
    and "AddCorralSegment env (if sz * 2 < m_corralGrowFloor m then m_corralGrowFloor m else sz * 2)
           (m\<lparr>m_corralSegs := ss\<rparr>) = (True, ev, m2)"
    and "CorralReserve env sz allocType protect m = (p, ev', m')"
  shows "p = 0 \<and> m_corralSizes m' = m_corralSizes m \<and>
    length (m_corralSegs m') = Suc (length (m_corralSegs m)) \<and>
    unat (m_corralTotalReserved m) < unat (m_corralTotalReserved m')"
proof -
  let ?g = "if sz * 2 < m_corralGrowFloor m then m_corralGrowFloor m else sz * 2"
  obtain q j ev2 m3 where s: "corral_slot env sz m = (q, j, ev2, m3)" by (metis prod_cases4)
  note st = corral_slot_step [OF assms(1,3,4) s]
  obtain z where z: "m2 = m\<lparr>m_corralSegs := ss @ [z], m_corralTotalReserved := m_corralTotalReserved m + ?g\<rparr>"
      "m_corralSegSize z = ?g"
    using assms(8) by (auto simp: AddCorralSegment_def Let_def split: if_splits prod.splits)
  obtain a where al: "m3 = m2\<lparr>m_corralSegs := ss @ [z\<lparr>m_corralSegAlloc := a\<rparr>]\<rparr>" "j = length ss"
    using s assms(7,8) z by (auto simp: corral_slot_def Let_def on_seg_def cong: if_cong split: prod.splits)
  have l: "length ss = length (m_corralSegs m)"
    using corral_try_step [OF _ assms(4,7)] assms(1) unfolding corral_inv_core corral_core_def
    by (metis length_map)
  have w: "unat (sz * 2) = 2 * unat sz - 4294967296" "0 < unat sz" "unat sz + 0x1000 \<le> 4294967296"
    using assms(4,5) unat_lt_2p32 [of sz] by (auto simp: req_ok_def unat_word_ariths mod_if)
  have g: "unat ?g + 0x1000 \<le> unat sz" using w assms(5,6) by (auto simp: u32_unat)
  have c3: "corral_core m3 (if q = 0 then zone_live m3 else (zone_live m3)(j := (q, sz) # zone_live m3 j))"
    using st(1,2) by (simp add: corral_inv_core)
  then have r: "range_ok 0x1000 (m_corralSegBase z) (m_corralSegSize z)"
    using corral_core_zone [OF c3, of "z\<lparr>m_corralSegAlloc := a\<rparr>"] al by (auto simp: seg_with_def)
  have q0: "q = 0"
  proof (rule ccontr)
    assume q: "q \<noteq> 0"
    then have "seg_with (z\<lparr>m_corralSegAlloc := a\<rparr>) ((q, sz) # zone_live m3 j)"
      using st(2) al by (auto simp: corral_core_def)
    from zone_slot(1,2) [OF this, of q sz]
    have "in_seg q z" "unat q + unat sz \<le> bend (zone z)"
      by (simp_all add: in_seg_def zone_def)
    then show False using range_ok_zone(3,5) [OF r] g z(2) by auto
  qed
  have "sz \<noteq> 0" using w(2) by auto
  then have e: "p = 0" "m' = m3" using assms(2,9) s q0 by (auto simp: CorralReserve_def)
  have "unat (m_corralTotalReserved m3) = unat (m_corralTotalReserved m) + unat ?g"
  proof -
    have ci: "corral_inv m3" using st(1) q0 by simp
    have f: "map zone_of ss = map zone_of (m_corralSegs m)"
      using corral_try_step [OF _ assms(4,7)] assms(1) unfolding corral_inv_core corral_core_def by blast
    have "map (\<lambda>s. unat (m_corralSegSize s)) ss = map (\<lambda>s. unat (m_corralSegSize s)) (m_corralSegs m)"
      using zone_of_facts(4) [OF same_zones_nth [OF f]] l by (intro nth_equalityI) simp_all
    then show ?thesis using ci assms(1) al z(2) by (simp add: corral_inv_def)
  qed
  moreover have "0 < unat ?g" using range_ok_zone(4) [OF r] z(2) by simp
  ultimately show ?thesis using e st(3) al l by simp
qed

lemma corral_growth_wraps_witness:
  "fst (CorralReserve (demo_corral_env 0x38000000) 0x80010000 0x2000 4 demo_corral) = 0 \<and>
   length (m_corralSegs demo_corral) = 1 \<and>
   length (m_corralSegs (snd (snd (CorralReserve (demo_corral_env 0x38000000) 0x80010000 0x2000 4 demo_corral)))) = 2"
proof -
  let ?m0 = "MemoryManager_init (demo_mm_env True)" and ?e = "demo_corral_env 0x38000000"
  have f0: "reserves_fresh (demo_corral_env 0x30000000) ?m0"
    by (rule demo_corral_fresh) (simp_all add: MemoryManager_init_def)
  have i: "InitScriptArena (demo_corral_env 0x30000000) ?m0 = (True, [], demo_corral)"
    unfolding demo_corral_def by (simp add: mm_eval arena_eval corral_eval)
  have inv: "corral_inv demo_corral" "m_corralReady demo_corral"
    using InitScriptArena_inv [OF _ _ _ f0 i] by (simp_all add: MemoryManager_init_def)
  have z: "\<forall>s\<in>set (m_corralSegs demo_corral). bend (zone s) \<le> unat (0x38000000 :: u32)"
    unfolding demo_corral_def by (simp add: mm_eval arena_eval corral_eval zone_def)
  have f: "reserves_fresh ?e demo_corral" using z by (intro demo_corral_fresh) simp_all
  have gf: "m_corralGrowFloor demo_corral = 0x2000000"
    unfolding demo_corral_def by (simp add: mm_eval arena_eval corral_eval)
  obtain p0 k ss where t: "corral_try 0x80010000 (m_corralSegs demo_corral) = (p0, k, ss)" by (metis prod_cases3)
  have p0: "p0 = 0" using t unfolding demo_corral_def by (auto simp: mm_eval arena_eval corral_eval)
  obtain ok ev m2 where a: "AddCorralSegment ?e (if 0x80010000 * 2 < m_corralGrowFloor demo_corral then m_corralGrowFloor demo_corral else 0x80010000 * 2)
      (demo_corral\<lparr>m_corralSegs := ss\<rparr>) = (ok, ev, m2)" by (metis prod_cases3)
  have ok: "ok = True"
  proof -
    have "map zone_of ss = map zone_of (m_corralSegs demo_corral)" "length (m_corralSegs demo_corral) = 1"
      "m_corralMaxReserved demo_corral = 0x20000000" "m_corralTotalReserved demo_corral = 0x7E00000"
      using corral_try_step [OF _ _ t, of "zone_live demo_corral"] inv(1) unfolding corral_inv_core corral_core_def
      by (simp_all add: req_ok_def) (simp_all add: demo_corral_def mm_eval arena_eval corral_eval)
    moreover from this have "length ss = 1" by (metis length_map)
    ultimately show ?thesis using a gf
      by (simp add: AddCorralSegment_def kMaxCorralSegs_def demo_corral_env_def demo_mm_env_def req_ok_def arena_eval
          new_allocator_def map_eq_conv split: if_splits)
  qed
  obtain p ev' m' where c: "CorralReserve ?e 0x80010000 0x2000 4 demo_corral = (p, ev', m')" by (metis prod_cases3)
  have l: "length (m_corralSegs demo_corral) = 1"
    unfolding demo_corral_def by (simp add: mm_eval arena_eval corral_eval)
  show ?thesis
    using corral_growth_wraps [OF inv f _ _ _ t [unfolded p0] a [unfolded ok] c] gf c l by (simp add: req_ok_def)
qed

end
