(* ===== verification/ProxyHeaps.thy ===== *)
theory ProxyHeaps
  imports MemoryManager Config
begin

section \<open>The sharded sub-allocator for small blocks\<close>

text \<open>
  Small heap allocations are packed into a few private heaps (the shards), carved from the
  arena where possible (\<open>WorkingHooks.cpp\<close>, \<open>ProxyHeap*\<close>).  The heaps themselves are the
  system's: what \<open>RtlAllocateHeap\<close> and its relatives answer, and what \<open>VirtualQuery\<close> says of
  an address, is the record \<open>heap_sys\<close>.  What an operation asks of a heap is part of its result,
  so that it can be stated to which heap a block goes back.  During every request to a shard
  the thread's in-hook flag is set, and it is as before afterwards.
\<close>

subsection \<open>The system's heaps\<close>

record heap_sys =
  hs_query :: "u32 \<Rightarrow> (bool \<times> u32) option"
  hs_alloc :: "u32 \<Rightarrow> u32 \<Rightarrow> u32 \<Rightarrow> u32"
  hs_realloc :: "u32 \<Rightarrow> u32 \<Rightarrow> u32 \<Rightarrow> u32 \<Rightarrow> u32"
  hs_free :: "u32 \<Rightarrow> u32 \<Rightarrow> u32 \<Rightarrow> bool"
  hs_size :: "(u32 \<Rightarrow> u32 \<Rightarrow> u32 \<Rightarrow> u32) option"
  hs_before :: "int \<Rightarrow> u32"

text \<open>The requests: heap, flags, and size or block.\<close>

datatype heap_req = AskAlloc u32 u32 u32 | AskFree u32 u32 u32 | AskReAlloc u32 u32 u32 u32 | AskSize u32 u32 u32

definition HEAP_NO_SERIALIZE :: u32 where "HEAP_NO_SERIALIZE = 1"
definition HEAP_ZERO_MEMORY :: u32 where "HEAP_ZERO_MEMORY = 8"
definition HEAP_CREATE_ENABLE_EXECUTE :: u32 where "HEAP_CREATE_ENABLE_EXECUTE = 0x40000"
definition PAGE_NOACCESS :: u32 where "PAGE_NOACCESS = 1"
definition PAGE_GUARD :: u32 where "PAGE_GUARD = 0x100"

subsection \<open>State\<close>

record shard =
  sh_heap :: u32
  sh_lo :: u32
  sh_hi :: u32

record proxy_heaps =
  s_proxyHeaps :: "shard list"
  s_proxyHeapInit :: bool
  s_proxyHeapEnabled :: bool
  s_proxyHeapRR :: u32
  s_sardineLossProbe :: bool
  s_sardineReqB :: "u64 list"
  s_sardineActB :: "u64 list"

definition proxy_heaps_init :: proxy_heaps where
  "proxy_heaps_init = \<lparr>s_proxyHeaps = [], s_proxyHeapInit = False, s_proxyHeapEnabled = False,
     s_proxyHeapRR = 0, s_sardineLossProbe = True, s_sardineReqB = replicate 8 0, s_sardineActB = replicate 8 0\<rparr>"

definition kHeapSubAllocMax :: u32 where "kHeapSubAllocMax = 64 * 1024"
definition kMaxProxyHeapShards :: nat where "kMaxProxyHeapShards = 8"

definition sardine_band :: "u32 \<Rightarrow> nat" where
  "sardine_band req =
     (if req < 512 then 0 else if req < 1024 then 1 else if req < 2 * 1024 then 2
      else if req < 4 * 1024 then 3 else if req < 8 * 1024 then 4 else if req < 16 * 1024 then 5
      else if req < 32 * 1024 then 6 else 7)"

definition RecordSardineLoss :: "u32 \<Rightarrow> u32 \<Rightarrow> proxy_heaps \<Rightarrow> proxy_heaps" where
  "RecordSardineLoss req act h =
     (let b = sardine_band req in
      h\<lparr>s_sardineReqB := (s_sardineReqB h)[b := s_sardineReqB h ! b + ucast req],
        s_sardineActB := (s_sardineActB h)[b := s_sardineActB h ! b + ucast act]\<rparr>)"

definition ProxyHeapOn :: "proxy_heaps \<Rightarrow> bool" where
  "ProxyHeapOn h = s_proxyHeapEnabled h"

subsection \<open>Executable heaps\<close>

definition kMaxExecHeaps :: nat where "kMaxExecHeaps = 16"

definition ProxyHeapNoteExecHeap :: "u32 \<Rightarrow> u32 list \<Rightarrow> u32 list" where
  "ProxyHeapNoteExecHeap h ex = (if h = 0 then ex else if length ex \<ge> kMaxExecHeaps then ex else ex @ [h])"

definition ProxyHeapIsExecHeap :: "u32 \<Rightarrow> u32 list \<Rightarrow> bool" where
  "ProxyHeapIsExecHeap h ex = (h \<in> set ex)"

subsection \<open>Bringing the shards up\<close>

text \<open>
  \<open>ProxyHeapInit\<close> asks the arena for a slot per shard, commits it and builds a heap over it; a
  shard that fails on the way is a heap of its own.  \<open>rtlCreate\<close> is \<open>RtlCreateHeap\<close> over a slot
  when the function could be resolved, \<open>heapCreate\<close> the answer of the \<open>i\<close>-th \<open>HeapCreate\<close>.
\<close>

definition shard_slot ::
  "mm_env \<Rightarrow> (u32 \<Rightarrow> u32 \<Rightarrow> u32) option \<Rightarrow> u32 \<Rightarrow> memory_manager option \<Rightarrow> (u32 \<times> u32) option \<times> memory_manager option"
where
  "shard_slot env rtlCreate maxSize mm =
     (case (mm, rtlCreate) of
        (Some m, Some rtl) \<Rightarrow>
          (case Allocate maxSize False (m_proxyAllocator m) of
             (slot, pa) \<Rightarrow>
               let m = m\<lparr>m_proxyAllocator := pa\<rparr> in
               if slot = 0 then (None, Some m)
               else (let h = (if me_commit env slot maxSize PAGE_READWRITE then rtl slot maxSize else 0)
                     in if h \<noteq> 0 then (Some (h, slot), Some m)
                        else (None, Some (m\<lparr>m_proxyAllocator := Free slot maxSize (m_proxyAllocator m)\<rparr>))))
      | _ \<Rightarrow> (None, mm))"

fun init_shards ::
  "mm_env \<Rightarrow> (u32 \<Rightarrow> u32 \<Rightarrow> u32) option \<Rightarrow> (nat \<Rightarrow> u32) \<Rightarrow> u32 \<Rightarrow> nat \<Rightarrow> nat \<Rightarrow> memory_manager option \<Rightarrow>
   shard list \<times> memory_manager option"
where
  "init_shards env rtlCreate heapCreate maxSize i 0 mm = ([], mm)"
| "init_shards env rtlCreate heapCreate maxSize i (Suc n) mm =
     (case shard_slot env rtlCreate maxSize mm of
        (Some (h, base), mm) \<Rightarrow>
          (case init_shards env rtlCreate heapCreate maxSize (Suc i) n mm of
             (ss, mm) \<Rightarrow> (\<lparr>sh_heap = h, sh_lo = base, sh_hi = base + maxSize\<rparr> # ss, mm))
      | (None, mm) \<Rightarrow>
          (case init_shards env rtlCreate heapCreate maxSize (Suc i) n mm of
             (ss, mm) \<Rightarrow>
               (if heapCreate i = 0 then ss
                else \<lparr>sh_heap = heapCreate i, sh_lo = heapCreate i, sh_hi = heapCreate i + maxSize\<rparr> # ss, mm)))"

text \<open>A number of the environment that fits the buffer, 0 when there is none.\<close>

definition env_atoi :: "nat \<Rightarrow> string option \<Rightarrow> int" where
  "env_atoi n e = (case env_in_buf n e of None \<Rightarrow> 0 | Some v \<Rightarrow> atoi v)"

text \<open>The size of a shard, 54 MB unless \<open>TS3VAS_PROXY_HEAP_SHARD_MB\<close> says otherwise; the product wraps.\<close>

definition shard_bytes :: "mm_env \<Rightarrow> u32" where
  "shard_bytes env =
     (let mb = word_of_int (env_atoi 16 (me_getenv env ''TS3VAS_PROXY_HEAP_SHARD_MB''));
          shardMb = (if mb \<noteq> 0 then mb else 54)
      in shardMb * 1024 * 1024)"

definition ProxyHeapInit ::
  "mm_env \<Rightarrow> bool \<Rightarrow> (u32 \<Rightarrow> u32 \<Rightarrow> u32) option \<Rightarrow> (nat \<Rightarrow> u32) \<Rightarrow> proxy_heaps \<times> memory_manager option \<Rightarrow>
   proxy_heaps \<times> memory_manager option"
where
  "ProxyHeapInit env passive rtlCreate heapCreate s =
     (case s of (h, mm) \<Rightarrow>
      if s_proxyHeapInit h then (h, mm)
      else (let h = h\<lparr>s_proxyHeapInit := True\<rparr>;
                sub = me_getenv env ''TS3VAS_PROXY_HEAP_SUBALLOC''
            in if passive then (h, mm)
               else if env_set sub \<and> says_no (env_text 16 sub) then (h, mm)
               else (let c = env_atoi 16 (me_getenv env ''TS3VAS_PROXY_HEAP_SHARDS'');
                         shardCount = (if 1 \<le> c \<and> c \<le> int kMaxProxyHeapShards then nat c else 3);
                         (ss, mm) = init_shards env rtlCreate heapCreate (shard_bytes env) 0 shardCount mm;
                         probe = me_getenv env ''TS3VAS_SARDINE_LOSS_PROBE''
                     in (h\<lparr>s_proxyHeaps := ss, s_proxyHeapEnabled := (ss \<noteq> []),
                           s_sardineLossProbe :=
                             (if env_set probe \<and> says_no (env_text 8 probe) then False else s_sardineLossProbe h)\<rparr>,
                         mm))))"

subsection \<open>Requests to the shards\<close>

fun shard_index :: "u32 \<Rightarrow> shard list \<Rightarrow> nat option" where
  "shard_index a [] = None"
| "shard_index a (s # ss) = (if a \<ge> sh_lo s \<and> a < sh_hi s then Some 0 else map_option Suc (shard_index a ss))"

definition ProxyHeapShardOf :: "u32 \<Rightarrow> proxy_heaps \<Rightarrow> nat option" where
  "ProxyHeapShardOf p h = (if p = 0 then None else shard_index p (s_proxyHeaps h))"

definition ShardHandleLive :: "heap_sys \<Rightarrow> u32 \<Rightarrow> bool" where
  "ShardHandleLive sys h =
     (h \<noteq> 0 \<and> (case hs_query sys h of
        None \<Rightarrow> False
      | Some (committed, protect) \<Rightarrow> committed \<and> protect AND (PAGE_NOACCESS OR PAGE_GUARD) = 0))"

text \<open>
  The index \<open>(start + k) % n\<close> is computed on signed 32-bit numbers, and C's remainder has the
  sign of its left operand: a negative index reads a word that lies before the array.
\<close>

definition rr_index :: "u32 \<Rightarrow> nat \<Rightarrow> nat \<Rightarrow> int" where
  "rr_index start k n = sint (start + of_nat k) smod int n"

definition shard_at :: "heap_sys \<Rightarrow> shard list \<Rightarrow> int \<Rightarrow> u32" where
  "shard_at sys ss i = (if i < 0 then hs_before sys i else if nat i < length ss then sh_heap (ss ! nat i) else 0)"

fun shard_loop :: "heap_sys \<Rightarrow> shard list \<Rightarrow> u32 \<Rightarrow> u32 \<Rightarrow> u32 \<Rightarrow> nat \<Rightarrow> nat \<Rightarrow> u32 \<times> heap_req list" where
  "shard_loop sys ss flags sz start k 0 = (0, [])"
| "shard_loop sys ss flags sz start k (Suc n) =
     (let h = shard_at sys ss (rr_index start k (length ss))
      in if \<not> ShardHandleLive sys h then shard_loop sys ss flags sz start (Suc k) n
         else (let p = hs_alloc sys h (flags AND HEAP_ZERO_MEMORY) sz;
                   req = AskAlloc h (flags AND HEAP_ZERO_MEMORY) sz
               in if p \<noteq> 0 then (p, [req])
                  else (case shard_loop sys ss flags sz start (Suc k) n of (q, reqs) \<Rightarrow> (q, req # reqs))))"

definition ProxyHeapAlloc :: "heap_sys \<Rightarrow> u32 \<Rightarrow> u32 \<Rightarrow> proxy_heaps \<Rightarrow> u32 \<times> heap_req list \<times> proxy_heaps" where
  "ProxyHeapAlloc sys flags sz h =
     (if s_proxyHeaps h = [] then (0, [], h)
      else (let h = h\<lparr>s_proxyHeapRR := s_proxyHeapRR h + 1\<rparr>;
                (p, reqs) = shard_loop sys (s_proxyHeaps h) flags sz (s_proxyHeapRR h) 0 (length (s_proxyHeaps h))
            in (p, reqs, h)))"

definition ProxyHeapFree :: "heap_sys \<Rightarrow> u32 \<Rightarrow> u32 \<Rightarrow> proxy_heaps \<Rightarrow> bool \<times> heap_req list" where
  "ProxyHeapFree sys flags p h =
     (case ProxyHeapShardOf p h of
        None \<Rightarrow> (False, [])
      | Some s \<Rightarrow> (let hp = sh_heap (s_proxyHeaps h ! s)
                   in if \<not> ShardHandleLive sys hp then (False, [])
                      else (True, [AskFree hp (flags AND NOT HEAP_NO_SERIALIZE) p])))"

definition ProxyHeapReAlloc :: "heap_sys \<Rightarrow> u32 \<Rightarrow> u32 \<Rightarrow> u32 \<Rightarrow> proxy_heaps \<Rightarrow> u32 \<times> heap_req list" where
  "ProxyHeapReAlloc sys flags p sz h =
     (case ProxyHeapShardOf p h of
        None \<Rightarrow> (0, [])
      | Some s \<Rightarrow> (let hp = sh_heap (s_proxyHeaps h ! s)
                   in if \<not> ShardHandleLive sys hp then (0, [])
                      else (hs_realloc sys hp (flags AND HEAP_ZERO_MEMORY) p sz,
                            [AskReAlloc hp (flags AND HEAP_ZERO_MEMORY) p sz])))"

definition ProxyHeapSize :: "heap_sys \<Rightarrow> u32 \<Rightarrow> u32 \<Rightarrow> proxy_heaps \<Rightarrow> u32 \<times> heap_req list" where
  "ProxyHeapSize sys flags p h =
     (case ProxyHeapShardOf p h of
        None \<Rightarrow> (- 1, [])
      | Some s \<Rightarrow>
          (case hs_size sys of
             None \<Rightarrow> (- 1, [])
           | Some size_of \<Rightarrow>
               (let hp = sh_heap (s_proxyHeaps h ! s); fl = flags AND NOT HEAP_NO_SERIALIZE
                in (size_of hp fl p, [AskSize hp fl p]))))"

subsection \<open>Committed bytes and the report\<close>

text \<open>
  The walk over a shard's range.  \<open>query\<close> is \<open>VirtualQuery\<close>: the base and size of the region
  that holds an address and whether it is committed.  The fuel is the number of addresses
  below the end: the walk stops when a region does not move it past the start of the range, and
  any region that holds the address moves it forward.
\<close>

fun shard_committed :: "nat \<Rightarrow> (u32 \<Rightarrow> (u32 \<times> u32 \<times> bool) option) \<Rightarrow> u32 \<Rightarrow> u32 \<Rightarrow> u32 \<Rightarrow> u32 \<Rightarrow> u32 option" where
  "shard_committed 0 query lo hi a acc = None"
| "shard_committed (Suc n) query lo hi a acc =
     (if \<not> a < hi then Some acc
      else (case query a of
        None \<Rightarrow> Some acc
      | Some (base, rsize, committed) \<Rightarrow>
          (let rEnd = (if base + rsize > hi then hi else base + rsize);
               acc = (if committed then acc + (rEnd - a) else acc);
               a = base + rsize
           in if a \<le> lo then Some acc else shard_committed n query lo hi a acc)))"

definition ProxyHeapShardCommitted :: "(u32 \<Rightarrow> (u32 \<times> u32 \<times> bool) option) \<Rightarrow> u32 \<Rightarrow> u32 \<Rightarrow> u32 option" where
  "ProxyHeapShardCommitted query lo hi = shard_committed (unat (hi - lo) + 2) query lo hi lo 0"

datatype heap_line =
    SubAllocatorOff
  | HeapLine nat u32 u32 u64 u64 u64 u64 u64
  | SardineLoss nat int int u64 u64

definition ReportProxyHeapUsage ::
  "bool \<Rightarrow> (string \<Rightarrow> u64) option \<Rightarrow> (u32 \<Rightarrow> (u32 \<times> u32 \<times> bool) option) \<Rightarrow> proxy_heaps \<Rightarrow> heap_line list option" where
  "ReportProxyHeapUsage logger counters query h =
     (if \<not> logger then Some []
      else if \<not> ProxyHeapOn h \<or> s_proxyHeaps h = [] then Some [SubAllocatorOff]
      else (let C = (case counters of None \<Rightarrow> (\<lambda>_. 0) | Some c \<Rightarrow> c);
                commits = map (\<lambda>s. ProxyHeapShardCommitted query (sh_lo s) (sh_hi s)) (s_proxyHeaps h);
                reserved = fold (\<lambda>s n. n + (sh_hi s - sh_lo s)) (s_proxyHeaps h) 0;
                al = C ''ProxyHeap_Alloc''; fr = C ''ProxyHeap_Free'';
                live = (if al > fr then al - fr else 0)
            in if list_ex (\<lambda>c. c = None) commits then None
               else Some (HeapLine (length (s_proxyHeaps h)) (reserved div (1024 * 1024))
                        (fold (\<lambda>c n. n + the c) commits 0 div (1024 * 1024)) live al fr
                        (C ''ProxyHeap_AllocBytes'' div (1024 * 1024)) (C ''ProxyHeap_Full_Fallback'') #
                    (if s_sardineLossProbe h
                     then concat (map (\<lambda>b. let req = s_sardineReqB h ! b; act = s_sardineActB h ! b
                                           in if sint act \<le> 0 then []
                                              else [SardineLoss b (sint req sdiv (1024 * 1024))
                                                      (sint act sdiv (1024 * 1024)) (act - req) act]) [0..<8])
                     else []))))"

end
