(* ===== verification/HeapHooks.thy ===== *)
theory HeapHooks
  imports ProxyHeaps SwapTables
begin

section \<open>The heap hooks\<close>

text \<open>
  \<open>Hooked_RtlCreateHeap\<close>, \<open>Hooked_RtlAllocateHeap\<close>, \<open>Hooked_RtlFreeHeap\<close> and
  \<open>Hooked_RtlReAllocateHeap\<close> of \<open>WorkingHooks.cpp\<close>: every heap call of the game comes through
  here and is answered by the shards, the arena, or the system's heap.  The state \<open>hooks\<close> is
  what the hooks of one thread see: the process-wide components and the thread's in-hook
  marks.  \<open>hook_env\<close> is what the system answers during the call.  The events are what a hook
  tells the log and the counters, and which requests it passes on.
\<close>

subsection \<open>State\<close>

record hooks =
  h_mm :: "(memory_manager \<times> create_globals) option"
  h_tlActive :: bool
  h_inHook :: bool
  s_activeHookCalls :: u32
  h_heaps :: proxy_heaps
  s_execHeaps :: "u32 list"
  h_csInit :: bool
  h_use :: "heap_use \<times> last_heap"
  h_mods :: caller_mods
  h_control :: control
  s_allocReport :: RtlAllocReportStats
  h_grants :: grant_log
  h_hitch :: "hitch option"
  h_vat :: vat_table
  h_diag :: "DiagnosticAllocRecord list"
  activationLogged :: bool
  policyLogged :: bool

record hook_env =
  he_mm :: mm_env
  he_sys :: heap_sys
  he_ld :: loader
  kForceHeapProxyMinSize :: u32
  he_boot :: bool
  he_ra :: u32
  he_stack :: "u32 list"
  he_cstack :: "u32 list"

datatype hook_event =
    Tell mm_event
  | Ask heap_req
  | RealCreateHeap u32 u32
  | RealAlloc u32 u32 u32
  | RealFree u32 u32 u32
  | RealReAlloc u32 u32 u32 u32
  | CopyBytes u32 u32 u32
  | HeapCreated u32 u32 string
  | ProxyActivated AllocCallerKind string
  | PolicyLine bool bool
  | GrantLine string u32 u32
  | GrantTally u64 u64 u64 u64

definition HEAP_CAPTURE_THRESHOLD :: u32 where "HEAP_CAPTURE_THRESHOLD = 64 * 1024"

text \<open>The floor of the force-heap mode: 4 KB, unless \<open>Install\<close> finds another in the environment.\<close>

definition HeapProxyMinSize :: "string option \<Rightarrow> u32" where
  "HeapProxyMinSize e = (let kb = word_of_int (env_atoi 16 e) in if kb > 0 then kb * 1024 else 4 * 1024)"

definition tally :: "hook_env \<Rightarrow> string \<Rightarrow> u64 \<Rightarrow> hook_event list" where
  "tally env name n = map Tell (count (he_mm env) name n)"

text \<open>The guard of most hooks, and the marks a hook sets and clears around its body.\<close>

definition passes_through :: "hook_env \<Rightarrow> hooks \<Rightarrow> bool" where
  "passes_through env h \<longleftrightarrow> he_boot env \<or> h_tlActive h \<or> h_inHook h \<or> IsShuttingDown (h_control h)"

definition enter_hook :: "hooks \<Rightarrow> hooks" where
  "enter_hook h = h\<lparr>h_tlActive := True, h_inHook := True, s_activeHookCalls := s_activeHookCalls h + 1\<rparr>"

definition leave_hook :: "hooks \<Rightarrow> hooks" where
  "leave_hook h = h\<lparr>h_tlActive := False, h_inHook := False, s_activeHookCalls := s_activeHookCalls h - 1\<rparr>"

definition create_on ::
  "hook_env \<Rightarrow> u32 \<Rightarrow> u32 \<Rightarrow> ContainmentLane \<Rightarrow> hooks \<Rightarrow> u32 \<times> hook_event list \<times> hooks" where
  "create_on env sz protect ln h =
     (case h_mm h of
        None \<Rightarrow> (0, [], h)
      | Some s \<Rightarrow> (case CreateProxyAllocation (he_mm env) sz protect ln s of
                    (p, ev, s) \<Rightarrow> (p, map Tell ev, h\<lparr>h_mm := Some s\<rparr>)))"

definition free_on :: "hook_env \<Rightarrow> u32 \<Rightarrow> hooks \<Rightarrow> bool \<times> hook_event list \<times> hooks" where
  "free_on env p h =
     (case h_mm h of
        None \<Rightarrow> (False, [], h)
      | Some (m, g) \<Rightarrow> (case FreeProxyAllocation (he_mm env) p m of
                          (b, ev, m) \<Rightarrow> (b, map Tell ev, h\<lparr>h_mm := Some (m, g)\<rparr>)))"

definition is_arena_address :: "u32 \<Rightarrow> hooks \<Rightarrow> bool" where
  "is_arena_address p h \<longleftrightarrow> (case h_mm h of None \<Rightarrow> False | Some (m, g) \<Rightarrow> IsProxyAddress_mm p m)"

definition classify :: "hook_env \<Rightarrow> u32 \<Rightarrow> AllocCallerKind \<times> string" where
  "classify env ra =
     (case ClassifyCallerModule (he_ld env) (he_cstack env) ra 260 of None \<Rightarrow> (Unknown, []) | Some r \<Rightarrow> r)"

fun kind_number :: "AllocCallerKind \<Rightarrow> int" where
  "kind_number GameExe = 0"
| "kind_number Graphics = 1"
| "kind_number RuntimeDll = 2"
| "kind_number SystemDll = 3"
| "kind_number ModDll = 4"
| "kind_number Unknown = 5"

definition first_frame :: "u32 list \<Rightarrow> u32" where
  "first_frame st = (case st of [] \<Rightarrow> 0 | a # _ \<Rightarrow> a)"

subsection \<open>Creating a heap\<close>

text \<open>The class of the creator is looked up with a buffer of 64 bytes; a longer name ends the process.\<close>

definition Hooked_RtlCreateHeap ::
  "hook_env \<Rightarrow> u32 \<Rightarrow> u32 \<Rightarrow> hooks \<Rightarrow> (u32 \<times> hook_event list \<times> hooks) option" where
  "Hooked_RtlCreateHeap env flags answer h =
     (if passes_through env h then Some (answer, [RealCreateHeap flags answer], h)
      else (let h = enter_hook h;
                h = (if answer \<noteq> 0 \<and> flags AND HEAP_CREATE_ENABLE_EXECUTE \<noteq> 0
                     then h\<lparr>s_execHeaps := ProxyHeapNoteExecHeap answer (s_execHeaps h)\<rparr> else h);
                seen = (if h_mm h \<noteq> None then tally env ''RtlCreateHeap_Seen'' 1 else [])
            in if answer \<noteq> 0 \<and> me_logger (he_mm env)
               then (case ClassifyCallerModule (he_ld env) (he_cstack env) (first_frame (he_stack env)) 64 of
                       None \<Rightarrow> None
                     | Some (k, m) \<Rightarrow> Some (answer, [RealCreateHeap flags answer] @ seen @ [HeapCreated answer flags m], leave_hook h))
               else Some (answer, [RealCreateHeap flags answer] @ seen, leave_hook h)))"

subsection \<open>Allocating\<close>

definition RecordAllocSizeBucket :: "hook_env \<Rightarrow> u32 \<Rightarrow> hook_event list" where
  "RecordAllocSizeBucket env sz =
     tally env (''AllocSize_'' @ band_name sz) 1 @ tally env (''AllocBytes_'' @ band_name sz) (ucast sz)"

definition RecordHeapBandBucket :: "hook_env \<Rightarrow> u32 \<Rightarrow> string \<Rightarrow> hook_event list" where
  "RecordHeapBandBucket env sz prefx =
     (if sz < HEAP_CAPTURE_THRESHOLD then []
      else tally env (prefx @ ''_'' @
             (if sz < 256 * 1024 then ''64to256KB'' else if sz < 512 * 1024 then ''256to512KB''
              else if sz < 1024 * 1024 then ''512KBto1MB'' else if sz < 4 * 1024 * 1024 then ''1to4MB''
              else if sz < 16 * 1024 * 1024 then ''4to16MB'' else ''16MBplus'')) 1)"

definition activate :: "hooks \<Rightarrow> hooks" where
  "activate h = (if IsProxyActive (h_control h) then h else h\<lparr>h_control := ActivateProxy (h_control h)\<rparr>)"

text \<open>A stage of the hook yields the answer, or 0 when the next stage has to find one.\<close>

definition corral_stage :: "hook_env \<Rightarrow> bool \<Rightarrow> u32 \<Rightarrow> hooks \<Rightarrow> u32 \<times> hook_event list \<times> hooks" where
  "corral_stage env corralTarget sz h =
     (if corralTarget \<and> sz > 0 \<and> h_mm h \<noteq> None
      then (let h = activate h
            in if IsProxyActive (h_control h)
               then (case create_on env sz PAGE_READWRITE LANE_CONTAINED_A h of
                       (p, ev, h) \<Rightarrow>
                         (p, ev @ (if p \<noteq> 0
                                   then RecordHeapBandBucket env sz ''HeapBandCaptured'' @
                                        tally env ''HeapCorral_Redirected'' 1 @
                                        tally env ''HeapCorral_RedirectedBytes'' (ucast sz)
                                   else []), h))
               else (0, [], h))
      else (0, [], h))"

text \<open>The conditions of the sardine stage are tested in order, and the two caller tests fill the module cache.\<close>

definition sardine_wanted :: "hook_env \<Rightarrow> u32 \<Rightarrow> u32 \<Rightarrow> hooks \<Rightarrow> bool \<times> hooks" where
  "sardine_wanted env heap sz h =
     (if ProxyHeapOn (h_heaps h) \<and> sz > 0 \<and> sz < kHeapSubAllocMax \<and> \<not> ProxyHeapIsExecHeap heap (s_execHeaps h) \<and>
         \<not> HeapIsSardineExcluded (h_csInit h) heap (h_use h)
      then (case CallerIsGraphicsModule (he_ld env) (h_csInit h) (he_ra env) (h_mods h) of
              (g, mods) \<Rightarrow>
                if g then (False, h\<lparr>h_mods := mods\<rparr>)
                else (case CallerIsAudioModule (he_ld env) (h_csInit h) (he_ra env) mods of
                        (a, mods) \<Rightarrow> (\<not> a, h\<lparr>h_mods := mods\<rparr>)))
      else (False, h))"

definition sardine_stage :: "hook_env \<Rightarrow> u32 \<Rightarrow> u32 \<Rightarrow> u32 \<Rightarrow> hooks \<Rightarrow> u32 \<times> hook_event list \<times> hooks" where
  "sardine_stage env heap flags sz h =
     (case sardine_wanted env heap sz h of
        (False, h) \<Rightarrow> (0, [], h)
      | (True, h) \<Rightarrow>
          (case ProxyHeapAlloc (he_sys env) flags sz (h_heaps h) of
             (hp, reqs, ph) \<Rightarrow>
               let h = h\<lparr>h_heaps := ph\<rparr> in
               if hp = 0 then (0, map Ask reqs @ tally env ''ProxyHeap_Full_Fallback'' 1, h)
               else (let ev = map Ask reqs @ tally env ''ProxyHeap_Alloc'' 1 @ tally env ''ProxyHeap_AllocBytes'' (ucast sz)
                     in if s_sardineLossProbe ph
                        then (case ProxyHeapSize (he_sys env) 0 hp ph of
                                (act, reqs') \<Rightarrow>
                                  (hp, ev @ map Ask reqs',
                                   if act \<noteq> - 1 then h\<lparr>h_heaps := RecordSardineLoss sz act ph\<rparr> else h))
                        else (hp, ev, h))))"

definition in_capture_range :: "hook_env \<Rightarrow> hooks \<Rightarrow> u32 \<Rightarrow> bool" where
  "in_capture_range env h sz \<longleftrightarrow>
     sz \<ge> HEAP_CAPTURE_THRESHOLD \<or> (sz \<ge> kForceHeapProxyMinSize env \<and> c_forceHeap (h_control h))"

text \<open>What the first large allocations of the process leave in the log.\<close>

definition large_lines :: "hook_env \<Rightarrow> AllocCallerKind \<Rightarrow> string \<Rightarrow> hooks \<Rightarrow> hook_event list \<times> hooks" where
  "large_lines env k m h =
     (let lg = me_logger (he_mm env);
          was = IsProxyActive (h_control h);
          h = activate h;
          act = (\<not> was \<and> \<not> activationLogged h \<and> lg);
          pol = (\<not> policyLogged h \<and> lg)
      in ((if act then [ProxyActivated k m] else []) @
          (if pol then [PolicyLine (c_strict (h_control h)) (c_forceProxy (h_control h))] else []),
          h\<lparr>activationLogged := activationLogged h \<or> act, policyLogged := policyLogged h \<or> pol\<rparr>))"

text \<open>What a captured allocation records.\<close>

definition grant_events :: "hook_env \<Rightarrow> string \<Rightarrow> u32 \<Rightarrow> u32 \<Rightarrow> hooks \<Rightarrow> hook_event list \<times> hooks" where
  "grant_events env m sz p h =
     (let ev = RecordHeapBandBucket env sz ''HeapBandCaptured'' @
               tally env ''RtlAllocHeap_Captureed'' (ucast sz) @ tally env ''RtlAllocHeap_CaptureCount'' 1
      in if me_logger (he_mm env)
         then (case record_grant (me_tick (he_mm env)) sz (h_grants h) of
                 (g, line) \<Rightarrow>
                   (ev @ (if gl_verbose g then [GrantLine m (sz div 1024) p] else []) @
                    (case line of None \<Rightarrow> [] | Some (a, b, c, d) \<Rightarrow> [GrantTally a b c d]),
                    h\<lparr>h_grants := g\<rparr>))
         else (ev, h))"

definition large_stage :: "hook_env \<Rightarrow> u32 \<Rightarrow> hooks \<Rightarrow> u32 \<times> hook_event list \<times> hooks" where
  "large_stage env sz h =
     (if \<not> in_capture_range env h sz then (0, [], h)
      else
       (case classify env (first_frame (he_stack env)) of (k, m) \<Rightarrow>
        case RecordCallerBucket k sz m (s_allocReport h) of (rep, incs) \<Rightarrow>
        case large_lines env k m (h\<lparr>s_allocReport := rep\<rparr>) of (lines, h) \<Rightarrow>
        let ev = concat (map (\<lambda>(n, x). tally env n x) incs) @ lines in
        if IsProxyActive (h_control h)
        then (let try = (sz > 0 \<and> \<not> IsAudioModule m \<and>
                         (sz \<ge> 64 * 1024 \<or> (c_forceHeap (h_control h) \<and> sz \<ge> kForceHeapProxyMinSize env)))
              in case (if try then create_on env sz PAGE_READWRITE
                                     (ContainmentLane_FromCallerKind (me_thread (he_mm env)) (kind_number k)) h
                       else (0, [], h)) of
                   (p, ev', h) \<Rightarrow>
                     if p \<noteq> 0
                     then (case grant_events env m sz p h of
                             (ev'', h) \<Rightarrow>
                               (p, ev @ ev' @ ev'', h\<lparr>s_allocReport := (s_allocReport h)\<lparr>captured := captured (s_allocReport h) + 1\<rparr>\<rparr>))
                     else if try \<and> (case h_mm h of None \<Rightarrow> False | Some (mm, g) \<Rightarrow> LastCreateWasSelfSkip (he_mm env) g)
                     then (0, ev @ ev' @ RecordHeapBandBucket env sz ''HeapBandSelf'', h)
                     else (0, ev @ ev' @ RecordHeapBandBucket env sz ''HeapBandMissed'',
                           h\<lparr>s_allocReport := (s_allocReport h)\<lparr>captureFailed := captureFailed (s_allocReport h) + 1\<rparr>\<rparr>))
        else (0, ev @ tally env ''RtlAllocHeap_Observed'' (ucast sz) @ tally env ''RtlAllocHeap_ObservedCount'' 1 @
                 RecordHeapBandBucket env sz ''HeapBandMissed'',
              h\<lparr>s_allocReport := (s_allocReport h)\<lparr>observedBeforeActive := observedBeforeActive (s_allocReport h) + 1\<rparr>\<rparr>)))"

text \<open>
  The whole hook.  Its settings (\<open>InitProxyGrantLogCfg\<close> and the mode switches, each read once)
  are those in \<open>h_grants\<close> and \<open>h_control\<close>.
\<close>

definition alloc_body :: "hook_env \<Rightarrow> u32 \<Rightarrow> u32 \<Rightarrow> u32 \<Rightarrow> hooks \<Rightarrow> u32 \<times> hook_event list \<times> hooks" where
  "alloc_body env heap flags sz h =
     (let h = h\<lparr>h_hitch := map_option IncrementAlloc (h_hitch h)\<rparr>;
          (target, use) = RecordHeapUse (he_ld env) (h_csInit h) heap sz (he_ra env) (h_use h);
          h = h\<lparr>h_use := use\<rparr>;
          ev0 = RecordAllocSizeBucket env sz;
          (p, ev1, h) = corral_stage env target sz h
      in if p \<noteq> 0 then (p, ev0 @ ev1, h)
         else (case sardine_stage env heap flags sz h of
                 (p, ev2, h) \<Rightarrow>
                   if p \<noteq> 0 then (p, ev0 @ ev1 @ ev2, h)
                   else (case large_stage env sz h of
                           (p, ev3, h) \<Rightarrow>
                             if p \<noteq> 0 then (p, ev0 @ ev1 @ ev2 @ ev3, h)
                             else (hs_alloc (he_sys env) heap flags sz,
                                   ev0 @ ev1 @ ev2 @ ev3 @ [RealAlloc heap flags sz], h))))"

definition Hooked_RtlAllocateHeap ::
  "hook_env \<Rightarrow> u32 \<Rightarrow> u32 \<Rightarrow> u32 \<Rightarrow> hooks \<Rightarrow> u32 \<times> hook_event list \<times> hooks" where
  "Hooked_RtlAllocateHeap env heap flags sz h =
     (if passes_through env h \<or> h_mm h = None
      then (hs_alloc (he_sys env) heap flags sz, [RealAlloc heap flags sz], h)
      else (case alloc_body env heap flags sz (enter_hook h) of (p, ev, h) \<Rightarrow> (p, ev, leave_hook h)))"

subsection \<open>Freeing and reallocating\<close>

text \<open>
  A block goes back by its address: to its shard, to the arena, or to the system's heap.  The
  first two come before the guard, which has no shutdown test here.
\<close>

definition Hooked_RtlFreeHeap :: "hook_env \<Rightarrow> u32 \<Rightarrow> u32 \<Rightarrow> u32 \<Rightarrow> hooks \<Rightarrow> bool \<times> hook_event list \<times> hooks" where
  "Hooked_RtlFreeHeap env heap flags p h =
     (if p = 0 then (True, [], h)
      else (case ProxyHeapFree (he_sys env) flags p (h_heaps h) of
        (True, reqs) \<Rightarrow> (True, map Ask reqs @ tally env ''ProxyHeap_Free'' 1, h)
      | (False, _) \<Rightarrow>
          if is_arena_address p h
          then (case free_on env p h of (b, ev, h) \<Rightarrow> (True, ev @ tally env ''RtlFreeHeap_Proxy'' 1, h))
          else if he_boot env \<or> h_tlActive h \<or> h_inHook h \<or> h_mm h = None
          then (hs_free (he_sys env) heap flags p, [RealFree heap flags p], h)
          else (let h = enter_hook h;
                    h = h\<lparr>h_hitch := map_option IncrementFree (h_hitch h)\<rparr>
                in (hs_free (he_sys env) heap flags p, [RealFree heap flags p], leave_hook h))))"

text \<open>
  A block of the arena is moved: to a new slot, or to the system's heap, with as many bytes
  as both have; then the old slot is freed, also when no new block was found.
\<close>

definition move_block :: "hook_env \<Rightarrow> u32 \<Rightarrow> u32 \<Rightarrow> u32 \<Rightarrow> u32 \<Rightarrow> hooks \<Rightarrow> u32 \<times> hook_event list \<times> hooks" where
  "move_block env heap flags p sz h =
     (case (if in_capture_range env h sz \<and> IsProxyActive (h_control h) \<and> \<not> IsShuttingDown (h_control h)
            then create_on env sz PAGE_READWRITE LANE_CONTAINED_A h else (0, [], h)) of
        (q, ev, h) \<Rightarrow>
          let (q, ev) = (if q \<noteq> 0 then (q, ev)
                         else (hs_alloc (he_sys env) heap flags sz, ev @ [RealAlloc heap flags sz]))
          in if q \<noteq> 0
             then (let copy = (case h_mm h of None \<Rightarrow> [] | Some (m, g) \<Rightarrow>
                         (case FindRecordByAddress p m of
                            None \<Rightarrow> []
                          | Some r \<Rightarrow> if proxy_base r \<noteq> 0 \<and> proxy_size r > 0 \<and> sz > 0
                                      then [CopyBytes q (proxy_base r) (min (proxy_size r) sz)] else []))
                   in case free_on env p h of
                        (b, ev', h) \<Rightarrow> (q, ev @ copy @ ev' @ tally env ''RtlReAllocHeap_ProxyHandled'' 1, h))
             else (case free_on env p h of (b, ev', h) \<Rightarrow> (0, ev @ ev', h)))"

definition Hooked_RtlReAllocateHeap ::
  "hook_env \<Rightarrow> u32 \<Rightarrow> u32 \<Rightarrow> u32 \<Rightarrow> u32 \<Rightarrow> hooks \<Rightarrow> u32 \<times> hook_event list \<times> hooks" where
  "Hooked_RtlReAllocateHeap env heap flags p sz h =
     (let real = (hs_realloc (he_sys env) heap flags p sz, [RealReAlloc heap flags p sz])
      in if passes_through env h \<or> h_mm h = None then (fst real, snd real, h)
         else if p \<noteq> 0 \<and> ProxyHeapShardOf p (h_heaps h) \<noteq> None
         then (case ProxyHeapReAlloc (he_sys env) flags p sz (h_heaps h) of (q, reqs) \<Rightarrow> (q, map Ask reqs, h))
         else if p \<noteq> 0 \<and> is_arena_address p h
         then move_block env heap flags p sz h
         else (let h = enter_hook h
               in (fst real,
                   snd real @ (if fst real \<noteq> 0 \<and> sz \<ge> HEAP_CAPTURE_THRESHOLD
                               then tally env ''RtlReAllocHeap_LargePassThrough'' 1 else []),
                   leave_hook h)))"

end
