(* ===== verification/HeapHookProps.thy ===== *)
theory HeapHookProps
  imports HeapHooks ManagerProps
begin

section \<open>What the heap hooks promise\<close>

text \<open>
  The hooks are clients of the memory manager's contract: whatever the game allocates, frees
  and reallocates, the records of the arena stay apart from each other and from \<open>ext\<close>, the
  slots the shards and the virtual-memory hooks hold.  The second part follows single blocks
  and the counters.
\<close>

subsection \<open>The invariant of the arena under the hooks\<close>

definition world :: "hooks \<Rightarrow> (u32 \<times> u32) list \<Rightarrow> bool" where
  "world h ext \<longleftrightarrow> (\<exists>m g. h_mm h = Some (m, g) \<and> mm_with m ext)"

definition the_mm :: "hooks \<Rightarrow> memory_manager" where
  "the_mm h = fst (the (h_mm h))"

definition recs :: "hooks \<Rightarrow> u32 \<rightharpoonup> u32" where
  "recs h = (case h_mm h of None \<Rightarrow> Map.empty | Some (m, g) \<Rightarrow> mm_recs m)"

definition arena_live :: "hooks \<Rightarrow> (u32 \<times> u32) list \<Rightarrow> (u32 \<times> u32) list" where
  "arena_live h ext = mm_sizes (m_allocations (the_mm h)) @ ext"

definition arena_geo :: "hooks \<Rightarrow> u32 \<times> u32 \<times> u32" where
  "arena_geo h = (m_allocGranularity (m_proxyAllocator (the_mm h)), m_arenaBase (m_proxyAllocator (the_mm h)),
     m_arenaSize (m_proxyAllocator (the_mm h)))"

text \<open>Sizes that do not wrap when they are rounded up.\<close>

definition size_ok :: "hooks \<Rightarrow> u32 \<Rightarrow> bool" where
  "size_ok h sz \<longleftrightarrow> unat sz + unat (fst (arena_geo h)) \<le> 4294967296"

text \<open>What a step that may hand out an arena slot \<open>p\<close> does to the records.\<close>

definition granted_or_same :: "hooks \<Rightarrow> (u32 \<times> u32) list \<Rightarrow> u32 \<Rightarrow> u32 \<Rightarrow> hooks \<Rightarrow> bool" where
  "granted_or_same h ext sz p h' \<longleftrightarrow>
     world h' ext \<and> arena_geo h' = arena_geo h \<and> s_proxyHeaps (h_heaps h') = s_proxyHeaps (h_heaps h) \<and>
     (recs h' = recs h \<or>
      (p \<noteq> 0 \<and> recs h' = (recs h)(p \<mapsto> sz) \<and> (\<forall>(q, k)\<in>set (arena_live h ext). apart (p, sz) (q, k) \<and> p \<noteq> q)))"

lemma same_mm:
  assumes "h_mm h' = h_mm h"
  shows "world h' ext = world h ext" "recs h' = recs h" "arena_live h' ext = arena_live h ext" "arena_geo h' = arena_geo h"
    "size_ok h' sz = size_ok h sz"
  using assms by (simp_all add: world_def recs_def arena_live_def arena_geo_def the_mm_def size_ok_def)

lemma create_on_other:
  assumes "create_on env sz protect ln h = (p, ev, h')"
  shows "h' = h\<lparr>h_mm := h_mm h'\<rparr>"
  using assms by (auto simp: create_on_def split: option.splits prod.splits)

lemma create_on_world:
  assumes "world h ext" "size_ok h sz" "sz > 0" "create_on env sz protect ln h = (p, ev, h')"
  shows "granted_or_same h ext sz p h'" "p = 0 \<Longrightarrow> recs h' = recs h" "p \<noteq> 0 \<Longrightarrow> recs h' = (recs h)(p \<mapsto> sz)"
proof -
  obtain m g where m: "h_mm h = Some (m, g)" "mm_with m ext" using assms(1) by (auto simp: world_def)
  obtain p0 ev0 m' g' where c: "CreateProxyAllocation (he_mm env) sz protect ln (m, g) = (p0, ev0, m', g')"
    by (metis prod_cases4)
  have r: "p = p0" "h' = h\<lparr>h_mm := Some (m', g')\<rparr>" using assms(4) m c by (auto simp: create_on_def)
  have q: "req_ok (m_allocGranularity (m_proxyAllocator m)) sz"
    using assms(2,3) m by (auto simp: size_ok_def arena_geo_def the_mm_def req_ok_def unat_gt_0 Let_def)
  note st = Create_step [OF m(2) q c]
  have "granted_or_same h ext sz p h' \<and> (p = 0 \<longrightarrow> recs h' = recs h) \<and> (p \<noteq> 0 \<longrightarrow> recs h' = (recs h)(p \<mapsto> sz))"
    using st m r by (cases "p0 = 0"; auto simp: granted_or_same_def world_def recs_def arena_live_def arena_geo_def the_mm_def mm_recs_def)
  then show "granted_or_same h ext sz p h'" "p = 0 \<Longrightarrow> recs h' = recs h" "p \<noteq> 0 \<Longrightarrow> recs h' = (recs h)(p \<mapsto> sz)"
    by auto
qed

lemma activate_mm [simp]:
  "h_mm (activate h) = h_mm h" "h_heaps (activate h) = h_heaps h" "h_tlActive (activate h) = h_tlActive h"
  "h_inHook (activate h) = h_inHook h" "s_activeHookCalls (activate h) = s_activeHookCalls h"
  by (simp_all add: activate_def)

lemma granted_or_same_refl:
  assumes "world h ext" "h_mm h' = h_mm h" "s_proxyHeaps (h_heaps h') = s_proxyHeaps (h_heaps h)"
  shows "granted_or_same h ext sz p h'"
  using assms same_mm [OF assms(2)] by (simp add: granted_or_same_def)

lemma granted_or_same_start:
  assumes "h_mm h1 = h_mm h" "s_proxyHeaps (h_heaps h1) = s_proxyHeaps (h_heaps h)"
  shows "granted_or_same h1 ext sz p h' = granted_or_same h ext sz p h'"
  unfolding granted_or_same_def same_mm [OF assms(1)] assms(2) by (rule refl)

lemma granted_or_same_end:
  assumes "h_mm h2 = h_mm h'" "s_proxyHeaps (h_heaps h2) = s_proxyHeaps (h_heaps h')"
  shows "granted_or_same h ext sz p h2 = granted_or_same h ext sz p h'"
  unfolding granted_or_same_def same_mm [OF assms(1)] assms(2) by (rule refl)

lemma corral_stage_world:
  assumes "world h ext" "size_ok h sz" "corral_stage env target sz h = (p, ev, h')"
  shows "granted_or_same h ext sz p h'" "p = 0 \<Longrightarrow> recs h' = recs h"
proof -
  have "granted_or_same h ext sz p h' \<and> (p = 0 \<longrightarrow> recs h' = recs h)"
  proof (cases "target \<and> sz > 0 \<and> h_mm h \<noteq> None \<and> IsProxyActive (h_control (activate h))")
    case True
    obtain q ev' h2 where c: "create_on env sz PAGE_READWRITE LANE_CONTAINED_A (activate h) = (q, ev', h2)"
      by (metis prod_cases3)
    have "p = q" "h' = h2" using assms(3) True c by (auto simp: corral_stage_def Let_def split: if_splits)
    moreover have "world (activate h) ext" "size_ok (activate h) sz" using assms(1,2) same_mm(1,5) [OF activate_mm(1)] by blast+
    ultimately show ?thesis
      using create_on_world [OF _ _ _ c] True same_mm(2) [OF activate_mm(1)] granted_or_same_start [of "activate h" h] by simp
  next
    case False
    then have "p = 0" "h_mm h' = h_mm h" "s_proxyHeaps (h_heaps h') = s_proxyHeaps (h_heaps h)"
      using assms(3) by (auto simp: corral_stage_def Let_def split: if_splits)
    then show ?thesis using granted_or_same_refl [OF assms(1)] same_mm(2) by blast
  qed
  then show "granted_or_same h ext sz p h'" "p = 0 \<Longrightarrow> recs h' = recs h" by auto
qed

lemma sardine_wanted_mm:
  assumes "sardine_wanted env heap sz h = (b, h')"
  shows "h' = h \<or> (\<exists>mods. h' = h\<lparr>h_mods := mods\<rparr>)"
  using assms by (auto simp: sardine_wanted_def split: if_splits prod.splits)

lemma ProxyHeapAlloc_shards:
  "ProxyHeapAlloc sys flags sz ph = (p, reqs, ph') \<Longrightarrow> s_proxyHeaps ph' = s_proxyHeaps ph"
  by (auto simp: ProxyHeapAlloc_def Let_def split: if_splits prod.splits)

lemma sardine_stage_mm:
  assumes "sardine_stage env heap flags sz h = (p, ev, h')"
  shows "h_mm h' = h_mm h" "s_proxyHeaps (h_heaps h') = s_proxyHeaps (h_heaps h)"
    "h_tlActive h' = h_tlActive h" "h_inHook h' = h_inHook h" "s_activeHookCalls h' = s_activeHookCalls h"
    "h_control h' = h_control h"
proof -
  obtain b h1 where w: "sardine_wanted env heap sz h = (b, h1)" by (cases "sardine_wanted env heap sz h")
  obtain hp reqs ph where a: "ProxyHeapAlloc (he_sys env) flags sz (h_heaps h1) = (hp, reqs, ph)" by (metis prod_cases3)
  have h1: "h_mm h1 = h_mm h \<and> h_heaps h1 = h_heaps h \<and> h_tlActive h1 = h_tlActive h \<and> h_inHook h1 = h_inHook h \<and>
      s_activeHookCalls h1 = s_activeHookCalls h \<and> h_control h1 = h_control h"
    using sardine_wanted_mm [OF w] by auto
  have "h' = h1 \<or> (\<exists>ph'. h' = h1\<lparr>h_heaps := ph'\<rparr> \<and> s_proxyHeaps ph' = s_proxyHeaps (h_heaps h1))"
    using assms ProxyHeapAlloc_shards [OF a] unfolding sardine_stage_def w
    by (cases b; cases "hp = 0"; cases "s_sardineLossProbe ph")
      (simp_all add: a Let_def RecordSardineLoss_def split: prod.splits if_splits, auto)
  then show "h_mm h' = h_mm h" "s_proxyHeaps (h_heaps h') = s_proxyHeaps (h_heaps h)"
    "h_tlActive h' = h_tlActive h" "h_inHook h' = h_inHook h" "s_activeHookCalls h' = s_activeHookCalls h"
    "h_control h' = h_control h"
    using h1 by auto
qed

definition marks :: "hooks \<Rightarrow> bool \<times> bool \<times> u32" where
  "marks h = (h_tlActive h, h_inHook h, s_activeHookCalls h)"

text \<open>What the surrounding bookkeeping of a stage leaves alone.\<close>

definition same_core :: "hooks \<Rightarrow> hooks \<Rightarrow> bool" where
  "same_core h h' \<longleftrightarrow> h_mm h' = h_mm h \<and> h_heaps h' = h_heaps h \<and> marks h' = marks h"

lemma same_core_refl [simp]: "same_core h h"
  by (simp add: same_core_def)

lemma same_core_trans: "same_core a b \<Longrightarrow> same_core b c \<Longrightarrow> same_core a c"
  by (simp add: same_core_def)

lemma same_core_activate: "same_core h (activate h)"
  by (simp add: same_core_def marks_def)

lemma same_core_large_lines: "large_lines env k m h = (ev, h') \<Longrightarrow> same_core h h'"
  by (auto simp: large_lines_def Let_def same_core_def marks_def)

lemma same_core_grant_events: "grant_events env m sz p h = (ev, h') \<Longrightarrow> same_core h h'"
  by (auto simp: grant_events_def Let_def same_core_def marks_def split: if_splits prod.splits)

lemma same_core_report: "same_core h (h\<lparr>s_allocReport := r\<rparr>)"
  by (simp add: same_core_def marks_def)

lemma create_on_marks: "create_on env sz protect ln h = (p, ev, h') \<Longrightarrow> marks h' = marks h \<and> h_heaps h' = h_heaps h"
  by (auto simp: create_on_def marks_def split: option.splits prod.splits)

text \<open>A large allocation is at most one request to the manager between steps of bookkeeping.\<close>

lemma large_stage_cases:
  assumes "large_stage env sz h = (p, ev, h')"
  obtains (none) "p = 0" "same_core h h'"
  | (tried) h1 ev1 h2 ln where "sz > 0" "same_core h h1" "create_on env sz PAGE_READWRITE ln h1 = (p, ev1, h2)" "same_core h2 h'"
proof (cases "in_capture_range env h sz")
  case False
  then show ?thesis using assms none by (simp add: large_stage_def)
next
  case True
  obtain k m where k: "classify env (first_frame (he_stack env)) = (k, m)" by (metis prod.exhaust)
  obtain rep incs where r: "RecordCallerBucket k sz m (s_allocReport h) = (rep, incs)" by (metis prod.exhaust)
  obtain ls h1 where l: "large_lines env k m (h\<lparr>s_allocReport := rep\<rparr>) = (ls, h1)" by (metis prod.exhaust)
  have c1: "same_core h h1"
    using same_core_trans [OF same_core_report same_core_large_lines [OF l]] .
  let ?attempt = "sz > 0 \<and> \<not> IsAudioModule m \<and> (sz \<ge> 64 * 1024 \<or> (c_forceHeap (h_control h1) \<and> sz \<ge> kForceHeapProxyMinSize env))"
  let ?ln = "ContainmentLane_FromCallerKind (me_thread (he_mm env)) (kind_number k)"
  show ?thesis
  proof (cases "IsProxyActive (h_control h1) \<and> ?attempt")
    case False
    then have "p = 0 \<and> (\<exists>r. h' = h1\<lparr>s_allocReport := r\<rparr>)"
      using assms True by (cases "IsProxyActive (h_control h1)"; auto simp: large_stage_def k r l Let_def)
    then show ?thesis using none same_core_trans [OF c1 same_core_report] by blast
  next
    case t: True
    obtain q ev1 h2 where c: "create_on env sz PAGE_READWRITE ?ln h1 = (q, ev1, h2)" by (metis prod_cases3)
    obtain ev2 h3 where g: "grant_events env m sz q h2 = (ev2, h3)" by (metis prod.exhaust)
    have "p = q \<and> (h' = h2 \<or> (\<exists>r. h' = h2\<lparr>s_allocReport := r\<rparr>) \<or> (\<exists>r. h' = h3\<lparr>s_allocReport := r\<rparr>))"
      using assms True t by (cases "q = 0"; auto simp: large_stage_def k r l Let_def c g split: if_splits)
    then have "p = q" "same_core h2 h'"
      using same_core_trans [OF same_core_grant_events [OF g] same_core_report] same_core_report by auto
    then show ?thesis using tried t c1 c by blast
  qed
qed

lemma large_stage_world:
  assumes "world h ext" "size_ok h sz" "large_stage env sz h = (p, ev, h')"
  shows "granted_or_same h ext sz p h'" "p = 0 \<Longrightarrow> recs h' = recs h"
proof -
  have "granted_or_same h ext sz p h' \<and> (p = 0 \<longrightarrow> recs h' = recs h)"
    using assms(3)
  proof (cases rule: large_stage_cases)
    case none
    then have "h_mm h' = h_mm h" "h_heaps h' = h_heaps h" by (simp_all add: same_core_def)
    then show ?thesis using granted_or_same_refl [OF assms(1)] same_mm(2) by metis
  next
    case (tried h1 ev1 h2 ln)
    have m: "h_mm h1 = h_mm h" "h_heaps h1 = h_heaps h" "h_mm h' = h_mm h2" "h_heaps h' = h_heaps h2"
      using tried by (simp_all add: same_core_def)
    have "world h1 ext" "size_ok h1 sz" using assms(1,2) same_mm(1,5) [OF m(1)] by blast+
    note c = create_on_world [OF this tried(1,3)]
    have "granted_or_same h ext sz p h2" using c(1) granted_or_same_start [OF m(1)] m(2) by simp
    then have "granted_or_same h ext sz p h'" using granted_or_same_end [OF m(3)] m(4) by simp
    moreover have "p = 0 \<longrightarrow> recs h' = recs h"
      using c(2) same_mm(2) [OF m(1)] same_mm(2) [OF m(3)] by simp
    ultimately show ?thesis by simp
  qed
  then show "granted_or_same h ext sz p h'" "p = 0 \<Longrightarrow> recs h' = recs h" by auto
qed

lemma corral_stage_marks:
  assumes "corral_stage env target sz h = (p, ev, h')"
  shows "marks h' = marks h" "h_heaps h' = h_heaps h"
proof -
  obtain q ev1 h2 where c: "create_on env sz PAGE_READWRITE LANE_CONTAINED_A (activate h) = (q, ev1, h2)" by (metis prod_cases3)
  have "h' = h \<or> h' = activate h \<or> h' = h2"
    using assms c by (simp add: corral_stage_def Let_def split: if_splits)
  then show "marks h' = marks h" "h_heaps h' = h_heaps h"
    using create_on_marks [OF c] same_core_activate [of h] by (auto simp: same_core_def)
qed

lemma large_stage_marks:
  assumes "large_stage env sz h = (p, ev, h')"
  shows "marks h' = marks h" "h_heaps h' = h_heaps h"
  using assms by (cases rule: large_stage_cases; use create_on_marks in \<open>fastforce simp: same_core_def\<close>)+

lemma in_capture_range_pos: "in_capture_range env h sz \<Longrightarrow> kForceHeapProxyMinSize env \<noteq> 0 \<Longrightarrow> sz > 0"
  by (auto simp: in_capture_range_def HEAP_CAPTURE_THRESHOLD_def word_gt_0)

lemma granted_or_same_world: "granted_or_same h ext sz p h' \<Longrightarrow> world h' ext \<and> arena_geo h' = arena_geo h"
  by (simp add: granted_or_same_def)

lemma size_ok_geo: "arena_geo h' = arena_geo h \<Longrightarrow> size_ok h' sz = size_ok h sz"
  by (simp add: size_ok_def)

text \<open>A first step that left the records alone, then one that may grant.\<close>

lemma granted_or_same_trans:
  assumes w: "world h ext" and "granted_or_same h ext sz q h1" "recs h1 = recs h" "granted_or_same h1 ext sz p h2"
  shows "granted_or_same h ext sz p h2"
proof -
  have "set (arena_live h1 ext) = set (arena_live h ext)"
  proof -
    obtain m g where m0: "h_mm h = Some (m, g)" "mm_with m ext" using w by (auto simp: world_def)
    moreover obtain m1 g1 where m1: "h_mm h1 = Some (m1, g1)" "mm_with m1 ext"
      using granted_or_same_world [OF assms(2)] by (auto simp: world_def)
    ultimately have m: "h_mm h = Some (m, g)" "mm_with m ext" "h_mm h1 = Some (m1, g1)" "mm_with m1 ext" by auto
    have d: "distinct (map fst (mm_sizes (m_allocations x)))" if "mm_with x ext" for x
      using ordered_distinct [of "m_allocations x"] that by (simp add: mm_with_def mm_sizes_def comp_def)
    have "mm_recs m1 = mm_recs m" using assms(3) m by (simp add: recs_def)
    then have "map_of (mm_sizes (m_allocations m1)) = map_of (mm_sizes (m_allocations m))"
      by (simp add: fun_eq_iff mm_recs_sizes)
    then have "set (mm_sizes (m_allocations m1)) = set (mm_sizes (m_allocations m))"
      using d [OF m(2)] d [OF m(4)] map_of_inject_set by blast
    then show ?thesis using m by (simp add: arena_live_def the_mm_def)
  qed
  then show ?thesis using assms unfolding granted_or_same_def by auto
qed

lemma alloc_body_world:
  assumes w: "world h ext" "size_ok h sz" and b: "alloc_body env heap flags sz h = (p, ev, h')"
  shows "granted_or_same h ext sz p h' \<and> marks h' = marks h"
proof -
  let ?h0 = "h\<lparr>h_hitch := map_option IncrementAlloc (h_hitch h)\<rparr>"
  obtain target use where u: "RecordHeapUse (he_ld env) (h_csInit h) heap sz (he_ra env) (h_use h) = (target, use)"
    by (metis prod.exhaust)
  let ?h1 = "?h0\<lparr>h_use := use\<rparr>"
  have m1: "h_mm ?h1 = h_mm h" by simp
  have w1: "world ?h1 ext" "size_ok ?h1 sz" using w same_mm(1,5) [OF m1] by blast+
  obtain p1 ev1 h2 where c: "corral_stage env target sz ?h1 = (p1, ev1, h2)" by (metis prod_cases3)
  note cw = corral_stage_world [OF w1 c] and cm = corral_stage_marks [OF c]
  have mk: "marks ?h1 = marks h" by (simp add: marks_def)
  have g2: "granted_or_same h ext sz p1 h2" using cw(1) granted_or_same_start [OF m1] by simp
  show ?thesis
  proof (cases "p1 = 0")
    case False
    then have "p = p1" "h' = h2" using b c u by (auto simp: alloc_body_def Let_def)
    then show ?thesis using g2 cm mk by simp
  next
    case p1: True
    obtain p2 ev2 h3 where s: "sardine_stage env heap flags sz h2 = (p2, ev2, h3)" by (metis prod_cases3)
    note sm = sardine_stage_mm [OF s]
    have mk3: "marks h3 = marks h" using sm cm mk by (simp add: marks_def)
    have r2: "recs h2 = recs h" using cw(2) p1 same_mm(2) [OF m1] by simp
    have w2: "world h2 ext" "size_ok h2 sz"
      using granted_or_same_world [OF g2] size_ok_geo w(2) by blast+
    have g3: "granted_or_same h2 ext sz q h3" for q by (rule granted_or_same_refl [OF w2(1) sm(1,2)])
    show ?thesis
    proof (cases "p2 = 0")
      case False
      then have "p = p2" "h' = h3" using b c u p1 s by (auto simp: alloc_body_def Let_def)
      then show ?thesis using granted_or_same_trans [OF w(1) g2 r2 g3] mk3 by simp
    next
      case p2: True
      obtain p3 ev3 h4 where l: "large_stage env sz h3 = (p3, ev3, h4)" by (metis prod_cases3)
      have w3: "world h3 ext" "size_ok h3 sz" using w2 same_mm(1,5) [OF sm(1)] by blast+
      note lw = large_stage_world [OF w3 l] and lm = large_stage_marks [OF l]
      have "granted_or_same h2 ext sz p3 h4" using lw(1) granted_or_same_start [OF sm(1,2)] by simp
      then have g4: "granted_or_same h ext sz p3 h4" by (rule granted_or_same_trans [OF w(1) g2 r2])
      have e: "h' = h4" "p3 \<noteq> 0 \<Longrightarrow> p = p3"
        using b c u p1 s p2 l by (auto simp: alloc_body_def Let_def split: if_splits)
      have "granted_or_same h ext sz p h4"
      proof (cases "p3 = 0")
        case True
        then have "recs h4 = recs h" using lw(2) same_mm(2) [OF sm(1)] r2 by simp
        then show ?thesis using g4 by (simp add: granted_or_same_def)
      next
        case False
        then show ?thesis using g4 e(2) by simp
      qed
      then show ?thesis using e lm mk3 by simp
    qed
  qed
qed

lemma Hooked_RtlAllocateHeap_world:
  assumes "world h ext" "size_ok h sz" "Hooked_RtlAllocateHeap env heap flags sz h = (p, ev, h')"
  shows "granted_or_same h ext sz p h'" "\<not> h_tlActive h \<Longrightarrow> \<not> h_inHook h \<Longrightarrow> marks h' = marks h"
proof -
  have "granted_or_same h ext sz p h' \<and> (\<not> h_tlActive h \<longrightarrow> \<not> h_inHook h \<longrightarrow> marks h' = marks h)"
  proof (cases "passes_through env h \<or> h_mm h = None")
    case True
    then have "h' = h" using assms(3) by (auto simp: Hooked_RtlAllocateHeap_def)
    then show ?thesis using granted_or_same_refl [OF assms(1)] by simp
  next
    case False
    obtain q ev1 h1 where b: "alloc_body env heap flags sz (enter_hook h) = (q, ev1, h1)" by (metis prod_cases3)
    have r: "p = q" "h' = leave_hook h1" using assms(3) b False by (auto simp: Hooked_RtlAllocateHeap_def)
    have m: "h_mm (enter_hook h) = h_mm h" "h_heaps (enter_hook h) = h_heaps h" by (simp_all add: enter_hook_def)
    have "world (enter_hook h) ext" "size_ok (enter_hook h) sz" using assms(1,2) same_mm(1,5) [OF m(1)] by blast+
    note a = alloc_body_world [OF this b]
    have "granted_or_same h ext sz p h1" using a granted_or_same_start [OF m(1)] m(2) r(1) by simp
    then have "granted_or_same h ext sz p h'"
      using granted_or_same_end [of h' h1] r(2) by (simp add: leave_hook_def)
    then show ?thesis using a r(2) by (simp add: leave_hook_def enter_hook_def marks_def)
  qed
  then show "granted_or_same h ext sz p h'" "\<not> h_tlActive h \<Longrightarrow> \<not> h_inHook h \<Longrightarrow> marks h' = marks h" by auto
qed

definition kept :: "hooks \<Rightarrow> (u32 \<times> u32) list \<Rightarrow> hooks \<Rightarrow> bool" where
  "kept h ext h' \<longleftrightarrow> world h' ext \<and> arena_geo h' = arena_geo h \<and> s_proxyHeaps (h_heaps h') = s_proxyHeaps (h_heaps h)"

lemma granted_kept: "granted_or_same h ext sz p h' \<Longrightarrow> kept h ext h'"
  by (simp add: granted_or_same_def kept_def)

lemma kept_trans: "kept h ext h1 \<Longrightarrow> kept h1 ext h2 \<Longrightarrow> kept h ext h2"
  by (simp add: kept_def)

lemma kept_same:
  assumes "world h ext" "h_mm h' = h_mm h" "s_proxyHeaps (h_heaps h') = s_proxyHeaps (h_heaps h)"
  shows "kept h ext h'"
  using granted_kept [OF granted_or_same_refl [OF assms]] .

lemma free_on_world:
  assumes "world h ext" "free_on env p h = (b, ev, h')"
  shows "kept h ext h'" "b = (recs h p \<noteq> None)" "recs h' = (recs h)(p := None)" "marks h' = marks h"
    "h' = h\<lparr>h_mm := h_mm h'\<rparr>"
proof -
  obtain m g where m: "h_mm h = Some (m, g)" "mm_with m ext" using assms(1) by (auto simp: world_def)
  obtain b0 ev0 m' where f: "FreeProxyAllocation (he_mm env) p m = (b0, ev0, m')" by (metis prod_cases3)
  have r: "b = b0" "h' = h\<lparr>h_mm := Some (m', g)\<rparr>" using assms(2) m f by (auto simp: free_on_def)
  note st = Dispose_step [OF m(2) f]
  show "kept h ext h'" using st m r by (auto simp: kept_def world_def arena_geo_def the_mm_def)
  show "b = (recs h p \<noteq> None)" "recs h' = (recs h)(p := None)" "marks h' = marks h" "h' = h\<lparr>h_mm := h_mm h'\<rparr>"
    using st m r by (auto simp: recs_def marks_def)
qed

lemma Hooked_RtlFreeHeap_world:
  assumes "world h ext" "Hooked_RtlFreeHeap env heap flags p h = (b, ev, h')"
  shows "kept h ext h'" "\<not> h_tlActive h \<Longrightarrow> \<not> h_inHook h \<Longrightarrow> marks h' = marks h"
proof -
  obtain fr reqs where s: "ProxyHeapFree (he_sys env) flags p (h_heaps h) = (fr, reqs)" by (metis prod.exhaust)
  obtain b1 ev1 h1 where f: "free_on env p h = (b1, ev1, h1)" by (metis prod_cases3)
  note fw = free_on_world [OF assms(1) f]
  have "h' = h \<or> h' = h1 \<or> (h' = leave_hook ((enter_hook h)\<lparr>h_hitch := map_option IncrementFree (h_hitch (enter_hook h))\<rparr>))"
    using assms(2) s f by (auto simp: Hooked_RtlFreeHeap_def Let_def split: if_splits bool.splits)
  then show "kept h ext h'" "\<not> h_tlActive h \<Longrightarrow> \<not> h_inHook h \<Longrightarrow> marks h' = marks h"
    using fw kept_same [OF assms(1), of h'] by (auto simp: enter_hook_def leave_hook_def marks_def)
qed

lemma move_block_world:
  assumes "world h ext" "size_ok h sz" "move_block env heap flags p sz h = (q, ev, h')" "kForceHeapProxyMinSize env \<noteq> 0"
  shows "kept h ext h'" "marks h' = marks h"
proof -
  let ?c = "in_capture_range env h sz \<and> IsProxyActive (h_control h) \<and> \<not> IsShuttingDown (h_control h)"
  obtain q1 ev1 h1 where c: "(if ?c then create_on env sz PAGE_READWRITE LANE_CONTAINED_A h else (0, [], h)) = (q1, ev1, h1)"
    by (metis prod_cases3)
  have k1: "kept h ext h1 \<and> marks h1 = marks h"
  proof (cases ?c)
    case True
    then have "sz > 0" using in_capture_range_pos assms(4) by blast
    then show ?thesis
      using create_on_world(1) [OF assms(1,2)] create_on_marks c True granted_kept by (metis (no_types, lifting))
  next
    case False
    then show ?thesis using c kept_same [OF assms(1)] by (auto split: if_splits)
  qed
  then have w1: "world h1 ext" by (simp add: kept_def)
  obtain b2 ev2 h2 where f: "free_on env p h1 = (b2, ev2, h2)" by (metis prod_cases3)
  have "h' = h2"
    using assms(3) unfolding move_block_def c by (auto simp: f Let_def split: if_splits prod.splits)
  then show "kept h ext h'" "marks h' = marks h"
    using free_on_world [OF w1 f] k1 kept_trans by auto
qed

lemma Hooked_RtlReAllocateHeap_world:
  assumes "world h ext" "size_ok h sz" "Hooked_RtlReAllocateHeap env heap flags p sz h = (q, ev, h')" "kForceHeapProxyMinSize env \<noteq> 0"
  shows "kept h ext h'" "\<not> h_tlActive h \<Longrightarrow> \<not> h_inHook h \<Longrightarrow> marks h' = marks h"
proof -
  obtain q1 ev1 h1 where m: "move_block env heap flags p sz h = (q1, ev1, h1)" by (metis prod_cases3)
  have "h' = h \<or> h' = h1 \<or> h' = leave_hook (enter_hook h)"
    using assms(3) m by (auto simp: Hooked_RtlReAllocateHeap_def Let_def split: if_splits prod.splits)
  then show "kept h ext h'" "\<not> h_tlActive h \<Longrightarrow> \<not> h_inHook h \<Longrightarrow> marks h' = marks h"
    using move_block_world [OF assms(1,2) m assms(4)] kept_same [OF assms(1), of h']
    by (auto simp: enter_hook_def leave_hook_def marks_def)
qed

lemma Hooked_RtlCreateHeap_world:
  assumes "world h ext" "Hooked_RtlCreateHeap env flags answer h = Some (q, ev, h')"
  shows "kept h ext h'" "\<not> h_tlActive h \<Longrightarrow> \<not> h_inHook h \<Longrightarrow> marks h' = marks h"
proof -
  have "h' = h \<or> (\<exists>ex. h' = leave_hook ((enter_hook h)\<lparr>s_execHeaps := ex\<rparr>)) \<or> h' = leave_hook (enter_hook h)"
    using assms(2) by (auto simp: Hooked_RtlCreateHeap_def Let_def split: if_splits option.splits prod.splits)
  then show "kept h ext h'" "\<not> h_tlActive h \<Longrightarrow> \<not> h_inHook h \<Longrightarrow> marks h' = marks h"
    using kept_same [OF assms(1), of h'] by (auto simp: enter_hook_def leave_hook_def marks_def)
qed

subsection \<open>Runs of heap calls\<close>

datatype heap_call =
    CallCreate hook_env u32 u32
  | CallAlloc hook_env u32 u32 u32
  | CallFree hook_env u32 u32 u32
  | CallReAlloc hook_env u32 u32 u32 u32

fun heap_do :: "heap_call \<Rightarrow> hooks \<Rightarrow> hooks" where
  "heap_do (CallCreate env flags answer) h =
     (case Hooked_RtlCreateHeap env flags answer h of None \<Rightarrow> h | Some (p, ev, h') \<Rightarrow> h')"
| "heap_do (CallAlloc env heap flags sz) h = snd (snd (Hooked_RtlAllocateHeap env heap flags sz h))"
| "heap_do (CallFree env heap flags p) h = snd (snd (Hooked_RtlFreeHeap env heap flags p h))"
| "heap_do (CallReAlloc env heap flags p sz) h = snd (snd (Hooked_RtlReAllocateHeap env heap flags p sz h))"

fun call_fits :: "hooks \<Rightarrow> heap_call \<Rightarrow> bool" where
  "call_fits h (CallAlloc env heap flags sz) = size_ok h sz"
| "call_fits h (CallReAlloc env heap flags p sz) = (size_ok h sz \<and> kForceHeapProxyMinSize env \<noteq> 0)"
| "call_fits h _ = True"

lemma heap_do_kept:
  assumes "world h ext" "call_fits h c"
  shows "kept h ext (heap_do c h)" "\<not> h_tlActive h \<Longrightarrow> \<not> h_inHook h \<Longrightarrow> marks (heap_do c h) = marks h"
proof -
  have t: "\<exists>p ev h'. x = (p, ev, h')" for x :: "'a \<times> 'b \<times> hooks" by (metis prod_cases3)
  have "kept h ext (heap_do c h) \<and> (\<not> h_tlActive h \<longrightarrow> \<not> h_inHook h \<longrightarrow> marks (heap_do c h) = marks h)"
  proof (cases c)
    case (CallCreate env flags answer)
    then show ?thesis
      using Hooked_RtlCreateHeap_world [OF assms(1), of env flags answer] kept_same [OF assms(1), of h]
      by (auto split: option.splits)
  next
    case (CallAlloc env heap flags sz)
    then show ?thesis
      using Hooked_RtlAllocateHeap_world [OF assms(1) _ ] assms(2) granted_kept
      by (metis call_fits.simps(1) heap_do.simps(2) prod.collapse)
  next
    case (CallFree env heap flags p)
    then show ?thesis
      using Hooked_RtlFreeHeap_world [OF assms(1)] by (metis heap_do.simps(3) prod.collapse)
  next
    case (CallReAlloc env heap flags p sz)
    then show ?thesis
      using Hooked_RtlReAllocateHeap_world [OF assms(1)] assms(2)
      by (metis call_fits.simps(2) heap_do.simps(4) prod.collapse)
  qed
  then show "kept h ext (heap_do c h)" "\<not> h_tlActive h \<Longrightarrow> \<not> h_inHook h \<Longrightarrow> marks (heap_do c h) = marks h" by auto
qed

lemma call_fits_geo:
  assumes "arena_geo h' = arena_geo h"
  shows "call_fits h' c = call_fits h c"
  by (cases c) (simp_all add: size_ok_def assms)

lemma heap_run_kept:
  assumes "world h ext" "\<forall>c\<in>set calls. call_fits h c" "\<not> h_tlActive h" "\<not> h_inHook h"
  shows "kept h ext (fold heap_do calls h) \<and> marks (fold heap_do calls h) = marks h"
  using assms
proof (induction calls arbitrary: h)
  case Nil
  then show ?case using kept_same by simp
next
  case (Cons c cs)
  let ?h = "heap_do c h"
  have k: "kept h ext ?h" "marks ?h = marks h" using heap_do_kept [of h ext c] Cons.prems by auto
  have w: "world ?h ext" "\<forall>c\<in>set cs. call_fits ?h c" "\<not> h_tlActive ?h" "\<not> h_inHook ?h"
    using k Cons.prems call_fits_geo [of ?h h] by (auto simp: kept_def marks_def)
  then show ?case using Cons.IH [OF w] k kept_trans by auto
qed

lemma world_apart:
  assumes "world h ext"
  shows "recs h p = Some n \<Longrightarrow> recs h q = Some k \<Longrightarrow> p \<noteq> q \<Longrightarrow> apart (p, n) (q, k)"
    "recs h p = Some n \<Longrightarrow> (q, k) \<in> set ext \<Longrightarrow> apart (p, n) (q, k)"
    "recs h p = Some n \<Longrightarrow> p \<noteq> 0 \<and> is_arena_address p h"
proof -
  obtain m g where m: "h_mm h = Some (m, g)" "mm_with m ext" using assms by (auto simp: world_def)
  let ?L = "mm_sizes (m_allocations m)"
  have i: "pa_inv (m_proxyAllocator m) (?L @ ext)" using m by (simp add: mm_with_def)
  have mem: "(a, b) \<in> set ?L" if "recs h a = Some b" for a b using that m mm_recs_member by (simp add: recs_def)
  have s: "sorted_wrt apart (?L @ ext)" by (rule arena.live_apart [OF i])
  show "recs h p = Some n \<Longrightarrow> (q, k) \<in> set ext \<Longrightarrow> apart (p, n) (q, k)"
    using s mem by (auto simp: sorted_wrt_append)
  show "recs h p = Some n \<Longrightarrow> p \<noteq> 0 \<and> is_arena_address p h"
    using arena.live_owned [OF i] mem m by (auto simp: is_arena_address_def IsProxyAddress_mm_def)
  assume a: "recs h p = Some n" "recs h q = Some k" "p \<noteq> q"
  obtain i where i': "i < length ?L" "?L ! i = (p, n)" using mem [OF a(1)] unfolding in_set_conv_nth by blast
  obtain j where j': "j < length ?L" "?L ! j = (q, k)" using mem [OF a(2)] unfolding in_set_conv_nth by blast
  note ij = i' j'
  have sl: "sorted_wrt apart ?L" using s by (simp add: sorted_wrt_append)
  note nl = sorted_wrt_nth_less [OF sl, of i j] sorted_wrt_nth_less [OF sl, of j i]
  have "i \<noteq> j" using ij a(3) by auto
  then consider "i < j" | "j < i" by linarith
  then show "apart (p, n) (q, k)"
  proof cases
    case 1
    then show ?thesis using nl(1) ij by simp
  next
    case 2
    then show ?thesis using nl(2) ij apart_sym by simp
  qed
qed

end
