(* ===== verification/ShardProps.thy ===== *)
theory ShardProps
  imports HeapHookProps
begin

section \<open>The shards and the arena they are carved from\<close>

text \<open>
  Bringing the shards up takes slots of the arena, which the manager's invariant carries from
  then on as slots it does not own.  Then: an allocation tries every shard once, the walk over
  a shard's range ends, and which block goes to which heap.
\<close>

subsection \<open>Bringing the shards up\<close>

definition same_geo :: "memory_manager \<Rightarrow> memory_manager \<Rightarrow> bool" where
  "same_geo m m' \<longleftrightarrow>
     m_allocGranularity (m_proxyAllocator m') = m_allocGranularity (m_proxyAllocator m) \<and>
     m_arenaBase (m_proxyAllocator m') = m_arenaBase (m_proxyAllocator m) \<and>
     m_arenaSize (m_proxyAllocator m') = m_arenaSize (m_proxyAllocator m)"

lemma shard_slot_step:
  assumes i: "mm_with m ext" and r: "req_ok (m_allocGranularity (m_proxyAllocator m)) sz"
    and s: "shard_slot env rtl sz (Some m) = (res, mm')"
  obtains m' where "mm' = Some m'" "same_geo m m'" "m_allocations m' = m_allocations m"
    "res = None \<Longrightarrow> mm_with m' ext" "\<And>h base. res = Some (h, base) \<Longrightarrow> mm_with m' ((base, sz) # ext)"
proof (cases rtl)
  case None
  then show ?thesis using s i that by (auto simp: shard_slot_def same_geo_def)
next
  case (Some f)
  let ?L = "mm_sizes (m_allocations m) @ ext"
  have o: "ordered (m_allocations m)" and pi: "pa_inv (m_proxyAllocator m) ?L"
    and b: "\<forall>e\<in>set (m_allocations m). proxy_base (snd e) = fst e"
    using i by (auto simp: mm_with_def)
  obtain p pa where a: "Allocate sz False (m_proxyAllocator m) = (p, pa)" by (metis prod.exhaust)
  note al = Allocate_step [OF pi r a]
  show ?thesis
  proof (cases "p = 0")
    case True
    then show ?thesis using s Some a al(2,3) o b that by (auto simp: shard_slot_def same_geo_def mm_with_def)
  next
    case False
    note pa = al(1) [OF False]
    have keep: "pa_inv pa (mm_sizes (m_allocations m) @ (p, sz) # ext)" by (rule pa_inv_mset [OF pa]) simp
    have undo: "pa_inv (Free p sz pa) ?L" "same_geo m (m\<lparr>m_proxyAllocator := Free p sz pa\<rparr>)"
      using Free_step [OF pa, of p sz] al(3) by (simp_all add: same_geo_def)
    show ?thesis
    proof (cases "me_commit env p sz PAGE_READWRITE \<and> f p sz \<noteq> 0")
      case True
      then have "res = Some (f p sz, p)" "mm' = Some (m\<lparr>m_proxyAllocator := pa\<rparr>)"
        using s Some a False by (auto simp: shard_slot_def Let_def)
      then show ?thesis using keep al(3) o b that by (auto simp: same_geo_def mm_with_def)
    next
      case False
      then have "res = None" "mm' = Some (m\<lparr>m_proxyAllocator := Free p sz pa\<rparr>)"
        using s Some a \<open>p \<noteq> 0\<close> by (auto simp: shard_slot_def Let_def split: if_splits)
      then show ?thesis using undo o b that by (auto simp: mm_with_def)
    qed
  qed
qed

text \<open>Where a shard lies: in a slot of \<open>ext\<close>, or where \<open>HeapCreate\<close> put a heap.\<close>

definition shard_home :: "(u32 \<times> u32) list \<Rightarrow> (nat \<Rightarrow> u32) \<Rightarrow> u32 \<Rightarrow> shard \<Rightarrow> bool" where
  "shard_home ext heapCreate sz s \<longleftrightarrow> sh_hi s = sh_lo s + sz \<and>
     ((sh_lo s, sz) \<in> set ext \<or> (\<exists>i. sh_lo s = heapCreate i \<and> heapCreate i \<noteq> 0))"

lemma shard_home_mono: "shard_home ext hc sz s \<Longrightarrow> set ext \<subseteq> set ext' \<Longrightarrow> shard_home ext' hc sz s"
  by (auto simp: shard_home_def)

lemma init_shards_step:
  assumes "mm_with m ext" "req_ok (m_allocGranularity (m_proxyAllocator m)) sz"
    and "init_shards env rtl heapCreate sz i n (Some m) = (ss, mm')"
  shows "\<exists>m' ext'. mm' = Some m' \<and> same_geo m m' \<and> m_allocations m' = m_allocations m \<and>
     mm_with m' ext' \<and> set ext \<subseteq> set ext' \<and> (\<forall>s\<in>set ss. shard_home ext' heapCreate sz s)"
  using assms
proof (induction n arbitrary: i m ext ss mm')
  case 0
  then show ?case by (auto simp: same_geo_def)
next
  case (Suc n)
  obtain res mm1 where s: "shard_slot env rtl sz (Some m) = (res, mm1)" by (metis prod.exhaust)
  obtain ss2 mm2 where t: "init_shards env rtl heapCreate sz (Suc i) n mm1 = (ss2, mm2)" by (metis prod.exhaust)
  from shard_slot_step [OF Suc.prems(1,2) s] obtain m1 where m1: "mm1 = Some m1" "same_geo m m1"
    "m_allocations m1 = m_allocations m" "res = None \<Longrightarrow> mm_with m1 ext"
    "\<And>h base. res = Some (h, base) \<Longrightarrow> mm_with m1 ((base, sz) # ext)" by blast
  have r1: "req_ok (m_allocGranularity (m_proxyAllocator m1)) sz" using Suc.prems(2) m1(2) by (simp add: same_geo_def)
  let ?ext = "case res of None \<Rightarrow> ext | Some (h, base) \<Rightarrow> (base, sz) # ext"
  have "mm_with m1 ?ext" using m1(4,5) by (auto split: option.splits)
  from Suc.IH [OF this r1 t [unfolded m1(1)]] obtain m2 ext2 where m2: "mm2 = Some m2" "same_geo m1 m2"
    "m_allocations m2 = m_allocations m1" "mm_with m2 ext2" "set ?ext \<subseteq> set ext2"
    "\<forall>s\<in>set ss2. shard_home ext2 heapCreate sz s" by blast
  have "mm' = mm2 \<and> (ss = ss2 \<or> (\<exists>s. ss = s # ss2 \<and> shard_home ext2 heapCreate sz s))"
    using Suc.prems(3) s t m2(5) by (cases res) (auto simp: shard_home_def split: if_splits)
  moreover have "set ext \<subseteq> set ext2" using m2(5) by (auto split: option.splits)
  ultimately show ?case using m1 m2 by (auto simp: same_geo_def)
qed

lemma ProxyHeapInit_step:
  assumes "mm_with m ext" "req_ok (m_allocGranularity (m_proxyAllocator m)) (shard_bytes env)"
    and "ProxyHeapInit env passive rtl heapCreate (proxy_heaps_init, Some m) = (ph, mm')"
  shows "\<exists>m' ext'. mm' = Some m' \<and> same_geo m m' \<and> m_allocations m' = m_allocations m \<and>
     mm_with m' ext' \<and> (\<forall>s\<in>set (s_proxyHeaps ph). shard_home ext' heapCreate (shard_bytes env) s)"
proof -
  let ?c = "env_atoi 16 (me_getenv env ''TS3VAS_PROXY_HEAP_SHARDS'')"
  let ?n = "if 1 \<le> ?c \<and> ?c \<le> int kMaxProxyHeapShards then nat ?c else 3"
  obtain ss mm1 where t: "init_shards env rtl heapCreate (shard_bytes env) 0 ?n (Some m) = (ss, mm1)" by (metis prod.exhaust)
  have "s_proxyHeaps ph = [] \<and> mm' = Some m \<or> s_proxyHeaps ph = ss \<and> mm' = mm1"
    using assms(3) t unfolding ProxyHeapInit_def proxy_heaps_init_def by (auto simp: Let_def split: if_splits)
  then show ?thesis
  proof
    assume "s_proxyHeaps ph = [] \<and> mm' = Some m"
    then show ?thesis using assms(1) by (auto simp: same_geo_def)
  next
    assume "s_proxyHeaps ph = ss \<and> mm' = mm1"
    then show ?thesis using init_shards_step [OF assms(1,2) t] by auto
  qed
qed

text \<open>
  Sizes of heap calls that do not wrap when they are rounded up to the granularity \<open>gr\<close>, and a
  floor of the force-heap mode that \<open>Install\<close> has not wrapped to 0.
\<close>

fun call_sizes_ok :: "u32 \<Rightarrow> heap_call \<Rightarrow> bool" where
  "call_sizes_ok gr (CallAlloc env heap flags sz) = (unat sz + unat gr \<le> 4294967296)"
| "call_sizes_ok gr (CallReAlloc env heap flags p sz) = (unat sz + unat gr \<le> 4294967296 \<and> kForceHeapProxyMinSize env \<noteq> 0)"
| "call_sizes_ok gr _ = True"

lemma call_sizes_ok_fits: "call_sizes_ok (fst (arena_geo h)) c \<Longrightarrow> call_fits h c"
  by (cases c) (simp_all add: size_ok_def)

text \<open>The composition of the manager, the shards and the heap hooks keeps the arena consistent.
  From a fresh manager, after the shards are brought up, and after any sequence of heap
  creations, allocations, releases and reallocations by the game, whatever the system answers
  with sizes that do not wrap and a force-heap floor that is not 0: the redirected blocks are pairwise apart, not null, inside the
  arena, and apart from every shard that was carved from the arena; and the thread's in-hook
  marks and the count of active hooks are as before.\<close>

theorem heap_hooks_keep_arena:
  assumes "me_page env = 4096" "os_pool (me_os env) (of_nat kNodePoolBytes) \<noteq> 0"
    and "range_ok (new_gran env) (ReserveArenaContiguous (me_os env) (new_gran env) PROXY_ARENA_SIZE) PROXY_ARENA_SIZE"
    and "MemoryManager_Initialize env (MemoryManager_init env) = (ok, ev, m)"
    and "req_ok (new_gran env) (shard_bytes env)"
    and "ProxyHeapInit env passive rtl heapCreate (proxy_heaps_init, Some m) = (ph, Some m1)"
    and "\<forall>i. heapCreate i \<noteq> 0 \<longrightarrow> \<not> IsProxyAddress (heapCreate i) (m_proxyAllocator m)"
    and "h_mm h = Some (m1, g)" "h_heaps h = ph" "\<not> h_tlActive h" "\<not> h_inHook h"
    and "\<forall>c\<in>set calls. call_sizes_ok (new_gran env) c"
    and "h' = fold heap_do calls h"
  shows "(\<forall>p n q k. recs h' p = Some n \<longrightarrow> recs h' q = Some k \<longrightarrow> p \<noteq> q \<longrightarrow> apart (p, n) (q, k))
    \<and> (\<forall>p n. recs h' p = Some n \<longrightarrow> p \<noteq> 0 \<and> is_arena_address p h' \<and>
      (\<forall>s\<in>set (s_proxyHeaps (h_heaps h')). is_arena_address (sh_lo s) h' \<longrightarrow> apart (p, n) (sh_lo s, sh_hi s - sh_lo s)))
    \<and> (marks h' = marks h)"
proof (intro conjI)
  note i = mm_start [OF assms(1-4)]
  obtain ext where e: "same_geo m m1" "mm_with m1 ext" "\<forall>s\<in>set (s_proxyHeaps ph). shard_home ext heapCreate (shard_bytes env) s"
    using ProxyHeapInit_step [OF i(2) _ assms(6)] i(4) assms(5) by auto
  have w: "world h ext" using assms(8) e(2) by (simp add: world_def)
  have gr: "fst (arena_geo h) = new_gran env" using e(1) i(4) assms(8) by (simp add: same_geo_def arena_geo_def the_mm_def)
  have "\<forall>c\<in>set calls. call_fits h c" using assms(12) call_sizes_ok_fits [of h] gr by auto
  then have k: "kept h ext h'" "marks h' = marks h" using heap_run_kept [OF w _ assms(10,11)] assms(13) by auto
  then have w': "world h' ext" by (simp add: kept_def)
  show "marks h' = marks h" by (rule k(2))
  show "\<forall>p n q k. recs h' p = Some n \<longrightarrow> recs h' q = Some k \<longrightarrow> p \<noteq> q \<longrightarrow> apart (p, n) (q, k)"
    using world_apart(1) [OF w'] by blast
  have own: "is_arena_address a h' = IsProxyAddress a (m_proxyAllocator m)" for a
  proof -
    obtain m2 g2 where m2: "h_mm h' = Some (m2, g2)" using w' by (auto simp: world_def)
    then have "m_arenaBase (m_proxyAllocator m2) = m_arenaBase (m_proxyAllocator m) \<and>
        m_arenaSize (m_proxyAllocator m2) = m_arenaSize (m_proxyAllocator m)"
      using k(1) e(1) assms(8) by (simp add: kept_def arena_geo_def the_mm_def same_geo_def)
    then show ?thesis using m2 by (simp add: is_arena_address_def IsProxyAddress_mm_def IsProxyAddress_def)
  qed
  have sh: "s_proxyHeaps (h_heaps h') = s_proxyHeaps ph" using k(1) assms(9) by (simp add: kept_def)
  have "(sh_lo s, sh_hi s - sh_lo s) \<in> set ext" if "s \<in> set (s_proxyHeaps ph)" "is_arena_address (sh_lo s) h'" for s
    using e(3) that own assms(7) by (fastforce simp: shard_home_def)
  then show "\<forall>p n. recs h' p = Some n \<longrightarrow> p \<noteq> 0 \<and> is_arena_address p h' \<and>
      (\<forall>s\<in>set (s_proxyHeaps (h_heaps h')). is_arena_address (sh_lo s) h' \<longrightarrow> apart (p, n) (sh_lo s, sh_hi s - sh_lo s))"
    unfolding sh using world_apart(2,3) [OF w'] by metis
qed

subsection \<open>The walk over a shard's range ends\<close>

text \<open>What \<open>VirtualQuery\<close> documents: the region it reports holds the address; and it ends below the end of the address space.\<close>

definition region_holds :: "(u32 \<Rightarrow> (u32 \<times> u32 \<times> bool) option) \<Rightarrow> bool" where
  "region_holds query \<longleftrightarrow> (\<forall>a base n c. query a = Some (base, n, c) \<longrightarrow>
     unat base \<le> unat a \<and> unat a < unat base + unat n \<and> unat base + unat n < 4294967296)"

lemma shard_committed_ends:
  assumes "region_holds query" "lo \<le> a" "lo \<le> hi" "unat hi - unat a < n" "unat acc \<le> min (unat a) (unat hi) - unat lo"
  shows "\<exists>c. shard_committed n query lo hi a acc = Some c \<and> unat c \<le> unat hi - unat lo"
  using assms(2-5)
proof (induction n arbitrary: a acc)
  case (Suc n)
  have lh: "unat lo \<le> unat a" "unat lo \<le> unat hi" using Suc.prems by (simp_all add: word_le_nat_alt)
  show ?case
  proof (cases "a < hi \<and> query a \<noteq> None")
    case False
    then show ?thesis using Suc.prems by (auto simp: split: option.splits)
  next
    case True
    then obtain base m c where q: "query a = Some (base, m, c)" by (metis not_None_eq prod_cases3)
    have ah: "unat a < unat hi" using True by (simp add: word_less_nat_alt)
    have b: "unat base \<le> unat a" "unat a < unat base + unat m" "unat base + unat m < 4294967296"
      using assms(1) q unfolding region_holds_def by blast+
    let ?e = "base + m"
    let ?r = "if ?e > hi then hi else ?e"
    have e: "unat ?e = unat base + unat m" using b(3) unat_add_lem [of base m] by simp
    have r: "unat ?r = min (unat ?e) (unat hi)" by (simp add: word_less_nat_alt)
    have ra: "unat (?r - a) = unat ?r - unat a" using r e b(2) ah by (simp add: unat_sub word_le_nat_alt)
    have "unat acc + (unat ?r - unat a) < 2 ^ LENGTH(32)"
      using Suc.prems(4) r ah lh unsigned_less [of hi, where 'a = nat] by simp
    then have sum: "unat (acc + (?r - a)) = unat acc + (unat ?r - unat a)" using ra by (metis unat_add_lem)
    let ?acc = "if c then acc + (?r - a) else acc"
    have acc: "unat ?acc \<le> min (unat ?e) (unat hi) - unat lo"
      using Suc.prems(4) sum r e b(2) ah lh by (cases c) auto
    have le: "\<not> ?e \<le> lo" using e b(2) lh by (simp add: word_le_nat_alt)
    have "\<exists>x. shard_committed n query lo hi ?e ?acc = Some x \<and> unat x \<le> unat hi - unat lo"
      using Suc.IH [of ?e ?acc] le Suc.prems(2,3) acc e b(2) ah by (simp add: not_le less_imp_le)
    then show ?thesis using True q le by (simp add: Let_def)
  qed
qed simp

text \<open>C13: The walk \<open>ProxyHeapShardCommitted\<close> over a shard's range ends, for every answer of
  \<open>VirtualQuery\<close> that holds the address asked for and ends below the end of the address
  space, and counts no more bytes than the range has.\<close>

theorem shard_walk_terminates:
  assumes "region_holds query" "lo \<le> hi"
  shows "\<exists>c. ProxyHeapShardCommitted query lo hi = Some c \<and> c \<le> hi - lo"
proof -
  have d: "unat (hi - lo) = unat hi - unat lo" using assms(2) unat_sub by (simp add: word_le_nat_alt)
  have "unat hi - unat lo < unat (hi - lo) + 2" using d by simp
  from shard_committed_ends [OF assms(1) order_refl assms(2) this, of 0]
  show ?thesis by (auto simp: ProxyHeapShardCommitted_def word_le_nat_alt d)
qed

subsection \<open>Taking turns\<close>

text \<open>While the counter is a small number, an allocation tries every shard, starting with the next one.\<close>

lemma smod_nat: "0 < n \<Longrightarrow> int m smod int n = int (m mod n)"
  by (cases "m = 0") (simp_all add: signed_modulo_int_def zmod_int)

lemma signed_small: "m < 2147483648 \<Longrightarrow> signed_take_bit 31 (int m) = int m"
  by (intro signed_take_bit_int_eq_self) simp_all

lemma rr_index_cycle:
  assumes "unat start + k < 2147483648" "0 < n"
  shows "rr_index start k n = int ((unat start + k) mod n)"
proof -
  have "unat (start + of_nat k) = unat start + k"
    using assms(1) by (simp add: unat_word_ariths unat_of_nat)
  then have "uint (start + of_nat k) = int (unat start + k)" by (metis uint_nat)
  then have "sint (start + of_nat k) = int (unat start + k)"
    using signed_small [OF assms(1)] by (simp add: sint_uint del: of_nat_add)
  then show ?thesis using smod_nat [OF assms(2)] by (simp only: rr_index_def)
qed

text \<open>What a shard answers: nothing when its handle is dead.\<close>

definition shard_grant :: "heap_sys \<Rightarrow> u32 \<Rightarrow> u32 \<Rightarrow> u32 \<Rightarrow> u32" where
  "shard_grant sys flags sz hp = (if ShardHandleLive sys hp then hs_alloc sys hp (flags AND HEAP_ZERO_MEMORY) sz else 0)"

definition turn_order :: "nat \<Rightarrow> nat \<Rightarrow> nat list" where
  "turn_order start n = map (\<lambda>k. (start + k) mod n) [0..<n]"

lemma set_turn_order: "set (turn_order start n) = {..<n}"
proof
  show "{..<n} \<subseteq> set (turn_order start n)"
  proof
    fix i assume i: "i \<in> {..<n}"
    then have n: "0 < n" by auto
    define k where "k = (i + (n - start mod n)) mod n"
    have "(start + k) mod n = (start mod n + (i + (n - start mod n))) mod n" by (simp add: k_def mod_simps)
    also have "start mod n \<le> n" using n by (simp add: less_imp_le)
    then have "start mod n + (i + (n - start mod n)) = i + n" by linarith
    finally have "i = (start + k) mod n" using i by simp
    moreover have "k < n" using n by (simp add: k_def)
    ultimately show "i \<in> set (turn_order start n)" by (auto simp: turn_order_def)
  qed
qed (auto simp: turn_order_def)

lemma shard_loop_first:
  "fst (shard_loop sys ss flags sz start k n) =
     (let f = (\<lambda>k. shard_grant sys flags sz (shard_at sys ss (rr_index start k (length ss))))
      in case find (\<lambda>k. f k \<noteq> 0) [k..<k + n] of None \<Rightarrow> 0 | Some k \<Rightarrow> f k)"
proof (induction n arbitrary: k)
  case (Suc n)
  have l: "[k..<k + Suc n] = k # [Suc k..<Suc k + n]" by (simp add: upt_rec)
  define f where "f = (\<lambda>k. shard_grant sys flags sz (shard_at sys ss (rr_index start k (length ss))))"
  have "fst (shard_loop sys ss flags sz start k (Suc n)) =
      (if f k \<noteq> 0 then f k else fst (shard_loop sys ss flags sz start (Suc k) n))"
    by (simp add: f_def shard_grant_def Let_def case_prod_beta)
  then show ?case unfolding l using Suc.IH [of "Suc k"] by (simp add: f_def [symmetric] Let_def)
qed simp

lemma find_map: "find P (map f xs) = map_option f (find (\<lambda>x. P (f x)) xs)"
  by (induction xs) auto

lemma set_find_Some: "find P xs = Some x \<Longrightarrow> x \<in> set xs \<and> P x"
  by (induction xs) (auto split: if_splits)

lemma find_cong_set: "(\<And>x. x \<in> set xs \<Longrightarrow> P x = Q x) \<Longrightarrow> find P xs = find Q xs"
  by (induction xs) auto

lemma ProxyHeapAlloc_first:
  assumes "ProxyHeapAlloc sys flags sz h = (p, reqs, h')" "s_proxyHeaps h = ss" "ss \<noteq> []"
  defines "f \<equiv> \<lambda>k. shard_grant sys flags sz (shard_at sys ss (rr_index (s_proxyHeapRR h + 1) k (length ss)))"
  shows "p = (case find (\<lambda>k. f k \<noteq> 0) [0..<length ss] of None \<Rightarrow> 0 | Some k \<Rightarrow> f k)"
  unfolding f_def using assms(1-3) shard_loop_first [of sys ss flags sz "s_proxyHeapRR h + 1" 0 "length ss"]
  by (auto simp: ProxyHeapAlloc_def Let_def split: prod.splits)

lemma first_in_turn:
  assumes "n = length ss" "0 < n" "unat start < 2147483648" "unat start + n \<le> 2147483648"
    and p: "p = (case find (\<lambda>k. F (shard_at sys ss (rr_index start k n)) \<noteq> (0 :: u32)) [0..<n] of
                   None \<Rightarrow> 0 | Some k \<Rightarrow> F (shard_at sys ss (rr_index start k n)))"
  shows "p = (case find (\<lambda>i. F (sh_heap (ss ! i)) \<noteq> 0) (turn_order (unat start) n) of None \<Rightarrow> 0 | Some i \<Rightarrow> F (sh_heap (ss ! i)))"
proof -
  let ?i = "\<lambda>k. (unat start + k) mod n"
  have f: "F (shard_at sys ss (rr_index start k n)) = F (sh_heap (ss ! ?i k))" if "k < n" for k
  proof -
    have "rr_index start k n = int (?i k)" using rr_index_cycle [of start k n] assms(2-4) that by simp
    then show ?thesis using assms(1,2) by (simp add: shard_at_def)
  qed
  have fk: "find (\<lambda>k. F (shard_at sys ss (rr_index start k n)) \<noteq> 0) [0..<n] = find (\<lambda>k. F (sh_heap (ss ! ?i k)) \<noteq> 0) [0..<n]"
    using f by (intro find_cong_set) simp
  show ?thesis
  proof (cases "find (\<lambda>k. F (sh_heap (ss ! ?i k)) \<noteq> 0) [0..<n]")
    case None
    then show ?thesis using p fk by (simp add: turn_order_def find_map)
  next
    case (Some k)
    then have "k < n" using set_find_Some [OF Some] by simp
    then show ?thesis using p fk f Some by (simp add: turn_order_def find_map)
  qed
qed

lemma turn_order_complete:
  "(case find (\<lambda>i. g i \<noteq> (0 :: u32)) (turn_order start n) of None \<Rightarrow> 0 | Some i \<Rightarrow> g i) = 0 \<longleftrightarrow> (\<forall>i<n. g i = 0)"
proof (cases "find (\<lambda>i. g i \<noteq> 0) (turn_order start n)")
  case None
  then have "\<forall>i\<in>set (turn_order start n). g i = 0" by (auto simp: find_None_iff)
  then show ?thesis using None by (simp add: set_turn_order)
next
  case (Some i)
  then have "i \<in> set (turn_order start n) \<and> g i \<noteq> 0" using set_find_Some [OF Some] by simp
  then show ?thesis using Some by (auto simp: set_turn_order)
qed

text \<open>C12: The shards take turns.  As long as the counter is a small number, \<open>ProxyHeapAlloc\<close>
  starts with the shard after the last one and takes the first, in cyclic order, that is alive
  and has room, so that it fails only when none is; a dead shard is never asked.  When the
  counter passes 2147483647 the index is negative: with three shards the handle is then read
  two words before the array, and a block is allocated from whatever heap that word names.\<close>

theorem shards_take_turns:
  assumes "ProxyHeapAlloc sys flags sz h = (p, reqs, h')" "s_proxyHeaps h = ss" "ss \<noteq> []"
  shows "(unat (s_proxyHeapRR h) + length ss < 2147483648 \<longrightarrow>
      p = (case find (\<lambda>i. shard_grant sys flags sz (sh_heap (ss ! i)) \<noteq> 0) (turn_order (unat (s_proxyHeapRR h) + 1) (length ss)) of
      None \<Rightarrow> 0 | Some i \<Rightarrow> shard_grant sys flags sz (sh_heap (ss ! i))) \<and>
      (p = 0 \<longleftrightarrow> (\<forall>s\<in>set ss. shard_grant sys flags sz (sh_heap s) = 0)))
    \<and> (s_proxyHeapRR h = 0x7FFFFFFF \<longrightarrow> length ss = 3 \<longrightarrow> shard_grant sys flags sz (hs_before sys (- 2)) \<noteq> 0 \<longrightarrow>
      p = shard_grant sys flags sz (hs_before sys (- 2)))"
proof (intro conjI)
  note p = ProxyHeapAlloc_first [OF assms]
  let ?g = "\<lambda>i. shard_grant sys flags sz (sh_heap (ss ! i))"
  have turns: "p = (case find (\<lambda>i. ?g i \<noteq> 0) (turn_order (unat (s_proxyHeapRR h) + 1) (length ss)) of None \<Rightarrow> 0 | Some i \<Rightarrow> ?g i) \<and>
      (p = 0 \<longleftrightarrow> (\<forall>s\<in>set ss. shard_grant sys flags sz (sh_heap s) = 0))"
    if small: "unat (s_proxyHeapRR h) + length ss < 2147483648"
  proof -
    have s: "unat (s_proxyHeapRR h + 1) = unat (s_proxyHeapRR h) + 1" "0 < length ss"
      using small assms(3) by (simp_all add: unat_word_ariths)
    have "p = (case find (\<lambda>i. ?g i \<noteq> 0) (turn_order (unat (s_proxyHeapRR h) + 1) (length ss)) of None \<Rightarrow> 0 | Some i \<Rightarrow> ?g i)"
      using first_in_turn [OF refl s(2) _ _ p] small s by simp
    then show ?thesis by (simp add: turn_order_complete all_set_conv_all_nth)
  qed
  then show "unat (s_proxyHeapRR h) + length ss < 2147483648 \<longrightarrow>
      p = (case find (\<lambda>i. ?g i \<noteq> 0) (turn_order (unat (s_proxyHeapRR h) + 1) (length ss)) of None \<Rightarrow> 0 | Some i \<Rightarrow> ?g i) \<and>
      (p = 0 \<longleftrightarrow> (\<forall>s\<in>set ss. shard_grant sys flags sz (sh_heap s) = 0))" by blast
  have "p = shard_grant sys flags sz (hs_before sys (- 2))"
    if "s_proxyHeapRR h = 0x7FFFFFFF" "length ss = 3" "shard_grant sys flags sz (hs_before sys (- 2)) \<noteq> 0"
  proof -
    have "rr_index (s_proxyHeapRR h + 1) 0 (length ss) = - 2"
      using that(1,2) by (simp add: rr_index_def signed_modulo_int_def sint_uint)
    then have "shard_at sys ss (rr_index (s_proxyHeapRR h + 1) 0 (length ss)) = hs_before sys (- 2)"
      by (simp add: shard_at_def)
    then show ?thesis using p that by (simp add: upt_rec)
  qed
  then show "s_proxyHeapRR h = 0x7FFFFFFF \<longrightarrow> length ss = 3 \<longrightarrow> shard_grant sys flags sz (hs_before sys (- 2)) \<noteq> 0 \<longrightarrow>
      p = shard_grant sys flags sz (hs_before sys (- 2))" by blast
qed

subsection \<open>A small process\<close>

text \<open>A manager over a fresh arena, a system whose heaps answer a fixed address, no loaded modules.\<close>

definition demo_sys :: heap_sys where
  "demo_sys = \<lparr>hs_query = \<lambda>_. Some (True, 4), hs_alloc = \<lambda>hp fl n. hp + 0x100, hs_realloc = \<lambda>hp fl p n. p,
     hs_free = \<lambda>_ _ _. True, hs_size = None, hs_before = \<lambda>_. 0x9000\<rparr>"

definition demo_env :: "bool \<Rightarrow> hook_env" where
  "demo_env analytics =
     \<lparr>he_mm = (demo_mm_env True)\<lparr>me_analytics := analytics\<rparr>, he_sys = demo_sys,
      he_ld = \<lparr>ld_module = \<lambda>_. None, ld_info = \<lambda>_. None, ld_basename = \<lambda>_. [], ld_filename = \<lambda>_. []\<rparr>,
      kForceHeapProxyMinSize = 4096, he_boot = False, he_ra = 0, he_stack = [], he_cstack = []\<rparr>"

definition demo_hooks :: "memory_manager \<Rightarrow> proxy_heaps \<Rightarrow> hooks" where
  "demo_hooks m ph =
     \<lparr>h_mm = Some (m, create_globals_init), h_tlActive = False, h_inHook = False, s_activeHookCalls = 0,
      h_heaps = ph, s_execHeaps = [], h_csInit = False, h_use = ([], (0, None)), h_mods = [],
      h_control = \<lparr>c_passive = False, c_strict = False, c_forceProxy = False, c_forceHeap = True,
                   s_proxyActive = True, s_shuttingDown = False\<rparr>,
      s_allocReport = report_stats_init, h_grants = grant_log_init, h_hitch = None, h_vat = [], h_diag = [],
      activationLogged = False, policyLogged = False\<rparr>"

lemmas hook_eval = Hooked_RtlAllocateHeap_def alloc_body_def passes_through_def IsShuttingDown_def enter_hook_def
  leave_hook_def RecordHeapUse_def corral_stage_def sardine_stage_def sardine_wanted_def ProxyHeapOn_def
  large_stage_def in_capture_range_def HEAP_CAPTURE_THRESHOLD_def classify_def first_frame_def
  ClassifyCallerModule_def RecordCallerBucket_def large_lines_def activate_def IsProxyActive_def IsAudioModule_def
  create_on_def grant_events_def RecordHeapBandBucket_def RecordAllocSizeBucket_def tally_def
  demo_env_def demo_hooks_def demo_sys_def demo_mm_env_def proxy_heaps_init_def report_stats_init_def
  IsProxyCandidate_def ContainmentLane_FromCallerKind_def LaneShard4_def kHeapSubAllocMax_def


definition demo_query :: "u32 \<Rightarrow> (u32 \<times> u32 \<times> bool) option" where
  "demo_query a = (if a < 0x10000 then None else if a < 0x18000 then Some (0x10000, 0x8000, True)
     else if a < 0x40000 then Some (0x18000, 0x28000, a < 0x20000) else None)"

lemma shard_walk_terminates_witness:
  "region_holds demo_query \<and> (\<exists>c. ProxyHeapShardCommitted demo_query 0x10000 0x20000 = Some c \<and> c \<le> 0x10000)"
proof -
  have r: "region_holds demo_query"
    by (auto simp: region_holds_def demo_query_def word_less_nat_alt split: if_splits)
  then show ?thesis using shard_walk_terminates [OF r, of "0x10000" "0x20000"] by simp
qed

definition demo_shards :: "u32 \<Rightarrow> proxy_heaps" where
  "demo_shards rr = proxy_heaps_init\<lparr>s_proxyHeapRR := rr, s_proxyHeaps :=
     map (\<lambda>b. \<lparr>sh_heap = b, sh_lo = b, sh_hi = b + 0x100000\<rparr>) [0x1000000, 0x2000000, 0x3000000]\<rparr>"

lemma shards_take_turns_witness:
  "fst (ProxyHeapAlloc demo_sys 0 64 (demo_shards 1)) = 0x3000100 \<and>
   fst (ProxyHeapAlloc demo_sys 0 64 (demo_shards 0x7FFFFFFF)) = 0x9100"
proof -
  obtain p r h where a: "ProxyHeapAlloc demo_sys 0 64 (demo_shards 1) = (p, r, h)" by (metis prod_cases3)
  obtain q r' h' where b: "ProxyHeapAlloc demo_sys 0 64 (demo_shards 0x7FFFFFFF) = (q, r', h')" by (metis prod_cases3)
  have g: "shard_grant demo_sys 0 64 x = (if x = 0 then 0 else x + 0x100)" for x
    by (simp add: shard_grant_def ShardHandleLive_def demo_sys_def PAGE_NOACCESS_def PAGE_GUARD_def)
  have "p = 0x3000100"
    using shards_take_turns [OF a refl, THEN conjunct1] by (simp add: demo_shards_def turn_order_def g upt_rec)
  moreover have "hs_before demo_sys (- 2) = 0x9000" by (simp add: demo_sys_def)
  then have "q = 0x9100" using shards_take_turns [OF b refl, THEN conjunct2] by (simp add: demo_shards_def g)
  ultimately show ?thesis using a b by simp
qed

lemma demo_mm_started: "\<exists>ok ev. MemoryManager_Initialize (demo_mm_env True) (MemoryManager_init (demo_mm_env True)) = (ok, ev, demo_mm)"
  unfolding demo_mm_def by (metis prod.collapse)

lemma demo_shard_bytes: "shard_bytes (demo_mm_env True) = 0x3600000"
  by (simp add: shard_bytes_def demo_mm_env_def env_atoi_def env_in_buf_def)

lemma heap_hooks_keep_arena_witness:
  "\<exists>m1 ph h'. ProxyHeapInit (demo_mm_env True) False (Some (\<lambda>slot n. slot)) (\<lambda>i. 0) (proxy_heaps_init, Some demo_mm) = (ph, Some m1) \<and>
     h' = fold heap_do [CallAlloc (demo_env True) 0x600000 0 0x20000, CallAlloc (demo_env True) 0x600000 0 0x40,
            CallReAlloc (demo_env True) 0x600000 0 0x20000000 0x30000, CallFree (demo_env True) 0x600000 0 0x20000000]
          (demo_hooks m1 ph) \<and>
     (\<forall>p n q k. recs h' p = Some n \<longrightarrow> recs h' q = Some k \<longrightarrow> p \<noteq> q \<longrightarrow> apart (p, n) (q, k)) \<and>
     marks h' = (False, False, 0)"
proof -
  obtain ok ev where i: "MemoryManager_Initialize (demo_mm_env True) (MemoryManager_init (demo_mm_env True)) = (ok, ev, demo_mm)"
    using demo_mm_started by blast
  have ro: "range_ok (new_gran (demo_mm_env True))
      (ReserveArenaContiguous (me_os (demo_mm_env True)) (new_gran (demo_mm_env True)) PROXY_ARENA_SIZE) PROXY_ARENA_SIZE"
    using demo_mm_geo(3,4) by simp
  have rq: "req_ok (new_gran (demo_mm_env True)) (shard_bytes (demo_mm_env True))"
    using demo_mm_geo(3) by (simp add: demo_shard_bytes req_ok_def)
  note st = mm_start [OF demo_mm_geo(1,2) ro i]
  obtain ph mm' where u: "ProxyHeapInit (demo_mm_env True) False (Some (\<lambda>slot n. slot)) (\<lambda>i. 0) (proxy_heaps_init, Some demo_mm) = (ph, mm')"
    by (metis prod.exhaust)
  then obtain m1 where m1: "mm' = Some m1"
    using ProxyHeapInit_step [OF st(2) _ u] st(4) rq by auto
  let ?calls = "[CallAlloc (demo_env True) 0x600000 0 0x20000, CallAlloc (demo_env True) 0x600000 0 0x40,
      CallReAlloc (demo_env True) 0x600000 0 0x20000000 0x30000, CallFree (demo_env True) 0x600000 0 0x20000000]"
  have h: "h_mm (demo_hooks m1 ph) = Some (m1, create_globals_init)" "h_heaps (demo_hooks m1 ph) = ph"
    "\<not> h_tlActive (demo_hooks m1 ph)" "\<not> h_inHook (demo_hooks m1 ph)" "marks (demo_hooks m1 ph) = (False, False, 0)"
    by (simp_all add: demo_hooks_def marks_def)
  have c: "\<forall>c\<in>set ?calls. call_sizes_ok (new_gran (demo_mm_env True)) c" using demo_mm_geo(3) by (simp add: demo_env_def)
  note r = heap_hooks_keep_arena [OF demo_mm_geo(1,2) ro i rq u [unfolded m1] _ h(1-4) c refl]
  have "\<forall>i. (0 :: u32) \<noteq> 0 \<longrightarrow> \<not> IsProxyAddress 0 (m_proxyAllocator demo_mm)" by simp
  note r = r [OF this]
  show ?thesis
    by (intro exI conjI) (rule u [unfolded m1], rule refl, rule r [THEN conjunct1], rule trans [OF r [THEN conjunct2, THEN conjunct2] h(5)])
qed

end
