(* ===== verification/HeapBlocks.thy ===== *)
theory HeapBlocks
  imports ShardProps
begin

section \<open>What the heap hooks do with a block, and what they count\<close>

text \<open>
  Single calls of the hooks: where a large allocation is counted, where a block goes back to,
  and what becomes of a block of the arena whose reallocation fails.
\<close>

subsection \<open>Counters\<close>

fun counter_of :: "mm_event \<Rightarrow> string option" where
  "counter_of (Counter n x) = Some n"
| "counter_of _ = None"

fun counter_name :: "hook_event \<Rightarrow> string option" where
  "counter_name (Tell e) = counter_of e"
| "counter_name _ = None"

text \<open>The counters whose name starts with \<open>pre\<close>, in the order they are incremented.\<close>

definition counted_as :: "string \<Rightarrow> hook_event list \<Rightarrow> string list" where
  "counted_as pre ev = filter (\<lambda>n. take (length pre) n = pre) (List.map_filter counter_name ev)"

lemma counted_append [simp]: "counted_as pre (a @ b) = counted_as pre a @ counted_as pre b"
  by (simp add: counted_as_def map_filter_def)

lemma counted_Nil [simp]: "counted_as pre [] = []"
  by (simp add: counted_as_def map_filter_def)

lemma counted_Cons_other [simp]: "counter_name e = None \<Longrightarrow> counted_as pre (e # ev) = counted_as pre ev"
  by (simp add: counted_as_def map_filter_def)

lemma counted_tally:
  "counted_as pre (tally env n x) = (if me_analytics (he_mm env) \<and> take (length pre) n = pre then [n] else [])"
  by (simp add: counted_as_def tally_def count_def map_filter_def)

lemma counted_asks [simp]: "counted_as pre (map Ask reqs) = []"
  by (induction reqs) simp_all

text \<open>No counter of the manager starts with the letter \<open>c\<close>.\<close>

definition quiet :: "char \<Rightarrow> mm_event list \<Rightarrow> bool" where
  "quiet c ev \<longleftrightarrow> (\<forall>e\<in>set ev. case counter_of e of None \<Rightarrow> True | Some n \<Rightarrow> n \<noteq> [] \<and> hd n \<noteq> c)"

lemma quiet_append [simp]: "quiet c (a @ b) \<longleftrightarrow> quiet c a \<and> quiet c b"
  by (auto simp: quiet_def)

lemma quiet_Nil [simp]: "quiet c []"
  by (simp add: quiet_def)

lemma quiet_Cons [simp]:
  "quiet c (e # ev) \<longleftrightarrow> (case counter_of e of None \<Rightarrow> True | Some n \<Rightarrow> n \<noteq> [] \<and> hd n \<noteq> c) \<and> quiet c ev"
  by (auto simp: quiet_def)

lemma quiet_count [simp]: "n \<noteq> [] \<Longrightarrow> hd n \<noteq> c \<Longrightarrow> quiet c (count env n x)"
  by (simp add: count_def)

lemma counted_quiet: "quiet c ev \<Longrightarrow> counted_as (c # cs) (map Tell ev) = []"
proof (induction ev)
  case (Cons e ev)
  then have "counted_as (c # cs) (map Tell ev) = []" by simp
  then show ?case using Cons.prems
    by (cases "counter_of e") (auto simp: counted_as_def map_filter_def neq_Nil_conv)
qed simp

lemma bucket_quiet: "c \<noteq> CHR ''P'' \<Longrightarrow> quiet c (ProxyBucket env pre sz)"
  by (auto simp: ProxyBucket_def)

lemma tally_quiet: "MaybeLogProxyCreateTally env g = (ev, g') \<Longrightarrow> quiet c ev"
  by (auto simp: MaybeLogProxyCreateTally_def Let_def split: if_splits)

lemma failure_quiet: "c \<noteq> CHR ''P'' \<Longrightarrow> note_create_failure env ln reason sz g = (ev, g') \<Longrightarrow> quiet c ev"
  by (auto simp: note_create_failure_def RecordAllocFailForLane_def Let_def tally_quiet split: prod.splits)

lemma enter_quiet: "c \<noteq> CHR ''P'' \<Longrightarrow> create_enter env sz ln g = (ev, g') \<Longrightarrow> quiet c ev"
  by (auto simp: create_enter_def Let_def bucket_quiet split: prod.splits)

lemma succeed_quiet: "c \<noteq> CHR ''P'' \<Longrightarrow> create_succeed env p sz protect ln g = (ev, g') \<Longrightarrow> quiet c ev"
  by (auto simp: create_succeed_def RecordProxyBandPair_def Let_def bucket_quiet tally_quiet split: prod.splits if_splits)

lemma skip_name: "create_skip env sz m g = (Some why, g') \<Longrightarrow> why \<noteq> [] \<and> hd why = CHR ''P''"
  by (auto simp: create_skip_def Let_def split: prod.splits if_splits)

lemma create_quiet:
  assumes "c \<noteq> CHR ''P''" "CreateProxyAllocation env sz protect ln s = (p, ev, s')"
  shows "quiet c ev"
proof -
  obtain m g where s: "s = (m, g)" by (cases s)
  obtain sk g1 where k: "create_skip env sz m g = (sk, g1)" by (metis prod.exhaust)
  show ?thesis
  proof (cases sk)
    case (Some why)
    then show ?thesis using assms s k skip_name [of env sz m g why g1] by (auto simp: CreateProxyAllocation_def)
  next
    case None
    obtain ev1 g2 where e: "create_enter env sz ln g1 = (ev1, g2)" by (metis prod.exhaust)
    obtain q pa where a: "Allocate sz (PrefersTopDown sz (m_proxyAllocator m)) (m_proxyAllocator m) = (q, pa)"
      by (metis prod.exhaust)
    have f: "quiet c (fst (note_create_failure env ln r sz g2))" for r
      using failure_quiet [OF assms(1)] by (metis prod.collapse)
    have t: "quiet c (fst (create_succeed env q sz protect ln g2))"
      using succeed_quiet [OF assms(1)] by (metis prod.collapse)
    show ?thesis
      using assms(2) enter_quiet [OF assms(1) e] bucket_quiet [OF assms(1)] f t assms(1)
      unfolding s CreateProxyAllocation_def by (simp add: k None e a Let_def case_prod_beta split: if_splits) auto
  qed
qed

lemma create_on_counted:
  assumes "c \<noteq> CHR ''P''" "create_on env sz protect ln h = (p, ev, h')"
  shows "counted_as (c # cs) ev = []"
  using assms counted_quiet create_quiet [OF assms(1)]
  by (auto simp: create_on_def split: option.splits prod.splits)

text \<open>For allocations of 64 KB and more the two ways to name a size band agree.\<close>

abbreviation band :: "string \<Rightarrow> u32 \<Rightarrow> string" where
  "band pre sz \<equiv> pre @ ''_'' @ band_name sz"

lemma band_bucket:
  assumes "sz \<ge> HEAP_CAPTURE_THRESHOLD"
  shows "RecordHeapBandBucket env sz pre = tally env (band pre sz) 1"
proof -
  have "\<not> sz < 65536" "\<not> sz < 4096" using assms by (auto simp: HEAP_CAPTURE_THRESHOLD_def word_less_nat_alt word_le_nat_alt)
  then show ?thesis by (simp add: RecordHeapBandBucket_def band_name_def HEAP_CAPTURE_THRESHOLD_def)
qed

lemma alloc_size_counted:
  "counted_as ''HeapBand'' (RecordAllocSizeBucket env sz) = []"
  "me_analytics (he_mm env) \<Longrightarrow> counted_as ''AllocSize_'' (RecordAllocSizeBucket env sz) = [''AllocSize_'' @ band_name sz]"
  by (simp_all add: RecordAllocSizeBucket_def counted_tally)

lemma corral_counted:
  assumes "me_analytics (he_mm env)" "sz \<ge> HEAP_CAPTURE_THRESHOLD" "corral_stage env target sz h = (p, ev, h')"
  shows "counted_as ''HeapBand'' ev = (if p = 0 then [] else [band ''HeapBandCaptured'' sz])" "counted_as ''AllocSize_'' ev = []"
proof -
  obtain q ev1 h2 where c: "create_on env sz PAGE_READWRITE LANE_CONTAINED_A (activate h) = (q, ev1, h2)" by (metis prod_cases3)
  have n: "counted_as ''HeapBand'' ev1 = []" "counted_as ''AllocSize_'' ev1 = []" by (rule create_on_counted [OF _ c]; simp)+
  have "counted_as ''HeapBand'' ev = (if p = 0 then [] else [band ''HeapBandCaptured'' sz]) \<and> counted_as ''AllocSize_'' ev = []"
  proof (cases "target \<and> sz > 0 \<and> h_mm h \<noteq> None \<and> IsProxyActive (h_control (activate h))")
    case False
    then have "p = 0 \<and> ev = []" using assms(3) by (auto simp: corral_stage_def Let_def split: if_splits)
    then show ?thesis by simp
  next
    case True
    then have "p = q \<and> ev = ev1 @ (if q \<noteq> 0 then tally env (band ''HeapBandCaptured'' sz) 1 @
        tally env ''HeapCorral_Redirected'' 1 @ tally env ''HeapCorral_RedirectedBytes'' (ucast sz) else [])"
      using assms(3) by (cases "q = 0") (auto simp: corral_stage_def Let_def c band_bucket [OF assms(2)])
    then show ?thesis using n assms(1) by (simp add: counted_tally)
  qed
  then show "counted_as ''HeapBand'' ev = (if p = 0 then [] else [band ''HeapBandCaptured'' sz])" "counted_as ''AllocSize_'' ev = []"
    by auto
qed

lemma sardine_none:
  assumes "sz \<ge> HEAP_CAPTURE_THRESHOLD"
  shows "sardine_stage env heap flags sz h = (0, [], h)"
proof -
  have "\<not> sz < kHeapSubAllocMax" using assms by (simp add: HEAP_CAPTURE_THRESHOLD_def kHeapSubAllocMax_def)
  then show ?thesis by (simp add: sardine_stage_def sardine_wanted_def)
qed

lemma caller_bucket_counted:
  assumes "RecordCallerBucket k sz m r = (rep, incs)" "x \<noteq> CHR ''R''"
  shows "counted_as (x # cs) (concat (map (\<lambda>(n, y). tally env n y) incs)) = []"
  using assms by (cases k) (auto simp: RecordCallerBucket_def Let_def counted_tally split: if_splits)

lemma large_lines_counted: "large_lines env k m h = (ev, h') \<Longrightarrow> counted_as pre ev = []"
  by (auto simp: large_lines_def Let_def)

lemma grant_counted:
  assumes "me_analytics (he_mm env)" "sz \<ge> HEAP_CAPTURE_THRESHOLD" "grant_events env m sz p h = (ev, h')"
  shows "counted_as ''HeapBand'' ev = [band ''HeapBandCaptured'' sz]" "counted_as ''AllocSize_'' ev = []"
  using assms by (auto simp: grant_events_def Let_def counted_tally band_bucket split: if_splits prod.splits option.splits)

text \<open>The three ways a large allocation ends.\<close>

definition dispositions :: "u32 \<Rightarrow> u32 \<Rightarrow> string list list" where
  "dispositions p sz = (if p \<noteq> 0 then [[band ''HeapBandCaptured'' sz]]
     else [[band ''HeapBandMissed'' sz], [band ''HeapBandSelf'' sz]])"

lemma large_counted:
  assumes "me_analytics (he_mm env)" "sz \<ge> HEAP_CAPTURE_THRESHOLD" "large_stage env sz h = (p, ev, h')"
  shows "counted_as ''HeapBand'' ev \<in> set (dispositions p sz)" "counted_as ''AllocSize_'' ev = []"
proof -
  have cap: "in_capture_range env h sz" using assms(2) by (simp add: in_capture_range_def)
  obtain k m where k: "classify env (first_frame (he_stack env)) = (k, m)" by (metis prod.exhaust)
  obtain rep incs where r: "RecordCallerBucket k sz m (s_allocReport h) = (rep, incs)" by (metis prod.exhaust)
  obtain ls h1 where l: "large_lines env k m (h\<lparr>s_allocReport := rep\<rparr>) = (ls, h1)" by (metis prod.exhaust)
  let ?attempt = "sz > 0 \<and> \<not> IsAudioModule m \<and> (sz \<ge> 64 * 1024 \<or> (c_forceHeap (h_control h1) \<and> sz \<ge> kForceHeapProxyMinSize env))"
  let ?ln = "ContainmentLane_FromCallerKind (me_thread (he_mm env)) (kind_number k)"
  obtain q ev1 h2 where c: "create_on env sz PAGE_READWRITE ?ln h1 = (q, ev1, h2)" by (metis prod_cases3)
  obtain ev2 h3 where g: "grant_events env m sz q h2 = (ev2, h3)" by (metis prod.exhaust)
  have nc: "counted_as ''HeapBand'' ev1 = []" "counted_as ''AllocSize_'' ev1 = []" by (rule create_on_counted [OF _ c]; simp)+
  have nr: "counted_as ''HeapBand'' (concat (map (\<lambda>(n, y). tally env n y) incs)) = []"
    "counted_as ''AllocSize_'' (concat (map (\<lambda>(n, y). tally env n y) incs)) = []" by (rule caller_bucket_counted [OF r]; simp)+
  note n = nc nr large_lines_counted [OF l] grant_counted [OF assms(1,2) g]
  define t where "t = ?attempt"
  let ?ev0 = "concat (map (\<lambda>(n, y). tally env n y) incs) @ ls"
  have st: "large_stage env sz h =
     (if IsProxyActive (h_control h1)
      then (case (if t then (q, ev1, h2) else (0, [], h1)) of (p, ev', h) \<Rightarrow>
              if p \<noteq> 0 then (p, ?ev0 @ ev' @ ev2, h3\<lparr>s_allocReport := (s_allocReport h3)\<lparr>captured := captured (s_allocReport h3) + 1\<rparr>\<rparr>)
              else if t \<and> (case h_mm h of None \<Rightarrow> False | Some (mm, g) \<Rightarrow> LastCreateWasSelfSkip (he_mm env) g)
              then (0, ?ev0 @ ev' @ tally env (band ''HeapBandSelf'' sz) 1, h)
              else (0, ?ev0 @ ev' @ tally env (band ''HeapBandMissed'' sz) 1,
                    h\<lparr>s_allocReport := (s_allocReport h)\<lparr>captureFailed := captureFailed (s_allocReport h) + 1\<rparr>\<rparr>))
      else (0, ?ev0 @ tally env ''RtlAllocHeap_Observed'' (ucast sz) @ tally env ''RtlAllocHeap_ObservedCount'' 1 @
               tally env (band ''HeapBandMissed'' sz) 1,
            h1\<lparr>s_allocReport := (s_allocReport h1)\<lparr>observedBeforeActive := observedBeforeActive (s_allocReport h1) + 1\<rparr>\<rparr>))"
    using cap unfolding large_stage_def k r l prod.case Let_def t_def [symmetric] c band_bucket [OF assms(2)]
    by (simp add: g)
  have "counted_as ''HeapBand'' ev \<in> set (dispositions p sz) \<and> counted_as ''AllocSize_'' ev = []"
    using assms(3) n assms(1) unfolding st
    by (cases "IsProxyActive (h_control h1)"; cases t; cases "q = 0")
      (auto simp: dispositions_def counted_tally split: if_splits)
  then show "counted_as ''HeapBand'' ev \<in> set (dispositions p sz)" "counted_as ''AllocSize_'' ev = []" by auto
qed

lemma RealAlloc_bookkeeping [simp]:
  "RealAlloc x y z \<notin> set (tally env n c)" "RealAlloc x y z \<notin> Tell ` M" "RealAlloc x y z \<notin> set (RecordHeapBandBucket env sz pre)"
  "RealAlloc x y z \<notin> set (RecordAllocSizeBucket env sz)"
  by (auto simp: tally_def RecordHeapBandBucket_def RecordAllocSizeBucket_def)

lemma create_on_not_real: "create_on env sz protect ln h = (p, ev, h') \<Longrightarrow> RealAlloc x y z \<notin> set ev"
  by (auto simp: create_on_def split: option.splits prod.splits)

lemma corral_not_real: "corral_stage env target sz h = (p, ev, h') \<Longrightarrow> RealAlloc x y z \<notin> set ev"
  by (auto simp: corral_stage_def Let_def create_on_not_real split: if_splits prod.splits)

lemma grant_not_real: "grant_events env m sz p h = (ev, h') \<Longrightarrow> RealAlloc x y z \<notin> set ev"
  by (auto simp: grant_events_def Let_def split: if_splits prod.splits option.splits)

lemma large_lines_not_real: "large_lines env k m h = (ev, h') \<Longrightarrow> RealAlloc x y z \<notin> set ev"
  by (auto simp: large_lines_def Let_def)

lemma large_not_real: "large_stage env sz h = (p, ev, h') \<Longrightarrow> RealAlloc x y z \<notin> set ev"
  by (auto simp: large_stage_def Let_def create_on_not_real large_lines_not_real grant_not_real split: if_splits prod.splits)

lemma alloc_body_counted:
  assumes "me_analytics (he_mm env)" "sz \<ge> HEAP_CAPTURE_THRESHOLD" "alloc_body env heap flags sz h = (p, ev, h')"
  shows "counted_as ''AllocSize_'' ev = [band ''AllocSize'' sz] \<and>
    (\<exists>r. counted_as ''HeapBand'' ev \<in> set (dispositions r sz) \<and> (r \<noteq> 0 \<longleftrightarrow> RealAlloc heap flags sz \<notin> set ev))"
proof -
  let ?h0 = "h\<lparr>h_hitch := map_option IncrementAlloc (h_hitch h)\<rparr>"
  obtain target use where u: "RecordHeapUse (he_ld env) (h_csInit h) heap sz (he_ra env) (h_use h) = (target, use)"
    by (metis prod.exhaust)
  obtain p1 ev1 h2 where c: "corral_stage env target sz (?h0\<lparr>h_use := use\<rparr>) = (p1, ev1, h2)" by (metis prod_cases3)
  obtain p3 ev3 h4 where l: "large_stage env sz h2 = (p3, ev3, h4)" by (metis prod_cases3)
  note s = sardine_none [OF assms(2), of env heap flags h2]
  have ev: "ev = RecordAllocSizeBucket env sz @ ev1 @
      (if p1 \<noteq> 0 then [] else ev3 @ (if p3 \<noteq> 0 then [] else [RealAlloc heap flags sz]))"
    using assms(3) c u l s by (auto simp: alloc_body_def Let_def split: if_splits)
  note n = alloc_size_counted(1) [of env sz] alloc_size_counted(2) [OF assms(1)] corral_counted [OF assms(1,2) c]
    large_counted [OF assms(1,2) l] corral_not_real [OF c] large_not_real [OF l]
  show ?thesis
  proof (cases "p1 = 0")
    case False
    then show ?thesis using n by (intro conjI exI [of _ p1]) (simp_all add: ev dispositions_def)
  next
    case True
    then show ?thesis using n by (intro conjI exI [of _ p3]; cases "p3 = 0") (simp_all add: ev)
  qed
qed

text \<open>C10: The three dispositions of a large heap allocation reconcile with the size distribution,
  as the comment of \<open>RecordHeapBandBucket\<close> claims: every call of \<open>Hooked_RtlAllocateHeap\<close> of
  64 KB or more that does not pass through counts its size band exactly once under
  \<open>AllocSize\<close> and exactly once under one of \<open>HeapBandCaptured\<close>, \<open>HeapBandMissed\<close> and
  \<open>HeapBandSelf\<close>, in the same band; it is counted as captured exactly when the system's heap
  is not asked.\<close>

theorem alloc_disposition_reconciles:
  assumes "\<not> passes_through env h" "h_mm h \<noteq> None" "me_analytics (he_mm env)" "sz \<ge> HEAP_CAPTURE_THRESHOLD"
    and "Hooked_RtlAllocateHeap env heap flags sz h = (p, ev, h')"
  shows "(counted_as ''AllocSize_'' ev = [band ''AllocSize'' sz])
    \<and> (\<exists>pre\<in>{''HeapBandCaptured'', ''HeapBandMissed'', ''HeapBandSelf''}.
      counted_as ''HeapBand'' ev = [band pre sz] \<and> (pre = ''HeapBandCaptured'' \<longleftrightarrow> RealAlloc heap flags sz \<notin> set ev))"
proof (intro conjI)
  obtain q ev1 h1 where b: "alloc_body env heap flags sz (enter_hook h) = (q, ev1, h1)" by (metis prod_cases3)
  have "ev = ev1" using assms(1,2,5) b by (auto simp: Hooked_RtlAllocateHeap_def)
  note a = alloc_body_counted [OF assms(3,4) b, folded this]
  then show "counted_as ''AllocSize_'' ev = [band ''AllocSize'' sz]" by blast
  obtain r where r: "counted_as ''HeapBand'' ev \<in> set (dispositions r sz)" "r \<noteq> 0 \<longleftrightarrow> RealAlloc heap flags sz \<notin> set ev"
    using a by blast
  then show "\<exists>pre\<in>{''HeapBandCaptured'', ''HeapBandMissed'', ''HeapBandSelf''}.
      counted_as ''HeapBand'' ev = [band pre sz] \<and> (pre = ''HeapBandCaptured'' \<longleftrightarrow> RealAlloc heap flags sz \<notin> set ev)"
    by (cases "r = 0") (auto simp: dispositions_def)
qed

subsection \<open>A block of the arena goes back to the arena\<close>

text \<open>The shards lie in slots the records are apart from.\<close>

definition shards_in :: "(u32 \<times> u32) list \<Rightarrow> hooks \<Rightarrow> bool" where
  "shards_in ext h \<longleftrightarrow> (\<forall>s\<in>set (s_proxyHeaps (h_heaps h)). (sh_lo s, sh_hi s - sh_lo s) \<in> set ext)"

lemma shard_index_in: "shard_index a ss = Some i \<Longrightarrow> \<exists>s\<in>set ss. sh_lo s \<le> a \<and> a < sh_hi s"
  by (induction ss arbitrary: i) (auto split: if_splits)

lemma world_pos:
  assumes "world h ext" "recs h p = Some n"
  shows "0 < n" "unat p + unat n < 4294967296"
proof -
  obtain m g where m: "h_mm h = Some (m, g)" "mm_with m ext" using assms(1) by (auto simp: world_def)
  have i: "pa_inv (m_proxyAllocator m) (mm_sizes (m_allocations m) @ ext)" using m by (simp add: mm_with_def)
  have mem: "(p, n) \<in> set (mm_sizes (m_allocations m) @ ext)" using assms(2) m mm_recs_member by (simp add: recs_def)
  show "0 < n" using bspec [OF pa_inv_geo(3) [OF i] mem] by (simp add: req_ok_def word_less_nat_alt)
  have g: "gran_ok (m_allocGranularity (m_proxyAllocator m))" by (rule pa_inv_geo(2) [OF i])
  have r: "req_ok (m_allocGranularity (m_proxyAllocator m)) n" using bspec [OF pa_inv_geo(3) [OF i] mem] by simp
  have "unat p + unat (AlignUp n (m_allocGranularity (m_proxyAllocator m))) < 4294967296"
    using live_block_wf [OF i mem] pa_inv_geo(1) [OF i] by (simp add: wf_block_def slot_def geo_def)
  then show "unat p + unat n < 4294967296" using req_ok_AlignUp(2) [OF g r] by linarith
qed

lemma record_outside_shards:
  assumes "world h ext" "shards_in ext h" "recs h p = Some n"
  shows "ProxyHeapShardOf p (h_heaps h) = None"
proof (rule ccontr)
  assume "ProxyHeapShardOf p (h_heaps h) \<noteq> None"
  then obtain s where s: "s \<in> set (s_proxyHeaps (h_heaps h))" "sh_lo s \<le> p" "p < sh_hi s"
    using shard_index_in by (auto simp: ProxyHeapShardOf_def split: if_splits)
  have "apart (p, n) (sh_lo s, sh_hi s - sh_lo s)"
    using world_apart(2) [OF assms(1,3)] assms(2) s(1) by (auto simp: shards_in_def)
  moreover have "unat (sh_hi s - sh_lo s) = unat (sh_hi s) - unat (sh_lo s)"
    using s(2,3) by (intro unat_sub) (simp add: word_le_nat_alt word_less_nat_alt)
  ultimately show False
    using s(2,3) world_pos(1) [OF assms(1,3)] by (auto simp: apart_def word_le_nat_alt word_less_nat_alt)
qed

lemma free_record:
  assumes "world h ext" "shards_in ext h" "recs h p = Some n" "Hooked_RtlFreeHeap env heap flags p h = (b, ev, h')"
  shows "b" "recs h' = (recs h)(p := None)" "\<And>x y z. RealFree x y z \<notin> set ev" "\<And>r. Ask r \<notin> set ev"
proof -
  obtain b1 ev1 h1 where f: "free_on env p h = (b1, ev1, h1)" by (metis prod_cases3)
  have "p \<noteq> 0 \<and> is_arena_address p h" by (rule world_apart(3) [OF assms(1,3)])
  then have e: "b" "ev = ev1 @ tally env ''RtlFreeHeap_Proxy'' 1" "h' = h1"
    using assms(4) f record_outside_shards [OF assms(1-3)] by (auto simp: Hooked_RtlFreeHeap_def ProxyHeapFree_def)
  then show "b" "recs h' = (recs h)(p := None)" using free_on_world(3) [OF assms(1) f] by auto
  have "\<forall>x\<in>set ev. \<exists>e. x = Tell e"
    using f e(2) by (auto simp: free_on_def tally_def split: option.splits prod.splits)
  then show "\<And>x y z. RealFree x y z \<notin> set ev" "\<And>r. Ask r \<notin> set ev" by blast+
qed

text \<open>C9: A large allocation that the arena serves and its release cancel: after
  \<open>Hooked_RtlAllocateHeap\<close> the records have the new block, which lies apart from everything
  that was live; \<open>Hooked_RtlFreeHeap\<close> of its address, whatever heap and flags the game names,
  finds no shard that claims it, reports success, leaves the records as they were before, and
  asks neither a shard nor the system's heap.\<close>

theorem arena_block_roundtrip:
  assumes "world h ext" "shards_in ext h" "size_ok h sz"
    and "Hooked_RtlAllocateHeap env heap flags sz h = (p, ev, h1)" "recs h1 \<noteq> recs h"
    and "Hooked_RtlFreeHeap env' heap' flags' p h1 = (b, ev', h2)"
  shows "recs h1 = (recs h)(p \<mapsto> sz)
    \<and> recs h p = None
    \<and> (\<forall>q k. recs h q = Some k \<longrightarrow> apart (p, sz) (q, k))
    \<and> b
    \<and> recs h2 = recs h
    \<and> (RealFree heap' flags' p \<notin> set ev')
    \<and> (\<forall>r. Ask r \<notin> set ev')"
proof (intro conjI)
  note a = Hooked_RtlAllocateHeap_world(1) [OF assms(1,3,4)]
  have r: "recs h1 = (recs h)(p \<mapsto> sz)" and ap: "\<forall>(q, k)\<in>set (arena_live h ext). apart (p, sz) (q, k) \<and> p \<noteq> q"
    using a assms(5) by (auto simp: granted_or_same_def)
  have live: "(q, k) \<in> set (arena_live h ext)" if "recs h q = Some k" for q k
    using that assms(1) mm_recs_member by (auto simp: recs_def world_def arena_live_def the_mm_def)
  show n: "recs h p = None" using live [of p] ap by (cases "recs h p") auto
  show "recs h1 = (recs h)(p \<mapsto> sz)" by (rule r)
  show "\<forall>q k. recs h q = Some k \<longrightarrow> apart (p, sz) (q, k)" using live ap by blast
  have w1: "world h1 ext" "shards_in ext h1" "recs h1 p = Some sz"
    using a r assms(2) by (simp_all add: granted_or_same_def shards_in_def)
  note f = free_record [OF w1 assms(6)]
  show "b" "RealFree heap' flags' p \<notin> set ev'" "\<forall>r. Ask r \<notin> set ev'" using f by auto
  show "recs h2 = recs h" using f(2) r n by (simp add: fun_upd_idem)
qed

subsection \<open>Moving a block out of the arena\<close>

lemma find_record:
  assumes "world h ext" "recs h p = Some n" "h_mm h = Some (m, g)"
  shows "\<exists>r. FindRecordByAddress p m = Some r \<and> proxy_base r = p \<and> proxy_size r = n"
proof -
  have m: "mm_with m ext" using assms(1,3) by (simp add: world_def)
  have o: "ordered (m_allocations m)" and b: "\<forall>e\<in>set (m_allocations m). proxy_base (snd e) = fst e"
    using m by (auto simp: mm_with_def)
  obtain r where r: "map_of (m_allocations m) p = Some r" "proxy_size r = n"
    using assms(2,3) by (auto simp: recs_def mm_recs_def)
  let ?P = "\<lambda>e. p \<ge> fst e \<and> p < fst e + proxy_size (snd e)"
  have w: "0 < n" "unat p + unat n < 4294967296" by (rule world_pos [OF assms(1,2)])+
  have mem: "(p, r) \<in> set (m_allocations m)" using r(1) by (rule map_of_SomeD)
  have "p < p + n" using w unat_add_lem [of p n] by (simp add: word_less_nat_alt)
  then have "?P (p, r)" using r(2) by simp
  then have "find ?P (m_allocations m) \<noteq> None" using mem unfolding find_None_iff by blast
  then obtain e where e: "find ?P (m_allocations m) = Some e" by blast
  have es: "e \<in> set (m_allocations m)" "?P e" using e unfolding find_Some_iff by (metis nth_mem)+
  have k: "map_of (m_allocations m) (fst e) = Some (snd e)"
    using es(1) ordered_distinct [OF o] by (simp add: map_of_eq_Some_iff)
  have "fst e = p"
  proof (rule ccontr)
    assume n: "fst e \<noteq> p"
    have re: "recs h (fst e) = Some (proxy_size (snd e))" using k assms(3) by (simp add: recs_def mm_recs_def)
    have "apart (fst e, proxy_size (snd e)) (p, n)" by (rule world_apart(1) [OF assms(1) re assms(2) n])
    moreover have "unat (fst e + proxy_size (snd e)) = unat (fst e) + unat (proxy_size (snd e))"
      using world_pos(2) [OF assms(1) re] unat_add_lem [of "fst e" "proxy_size (snd e)"] by simp
    ultimately show False using es(2) w(1) by (auto simp: apart_def word_le_nat_alt word_less_nat_alt)
  qed
  then have "e = (p, r)" using k r(1) by (metis option.inject prod.collapse)
  then have "FindRecordByAddress p m = Some r" "proxy_base r = p"
    using e bspec [OF b mem] by (simp_all add: FindRecordByAddress_def)
  then show ?thesis using r(2) by blast
qed

lemma CopyBytes_bookkeeping [simp]: "CopyBytes x y z \<notin> set (tally env n c)"
  by (auto simp: tally_def)

lemma create_on_tells: "create_on env sz protect ln h = (p, ev, h') \<Longrightarrow> CopyBytes x y z \<notin> set ev"
  by (auto simp: create_on_def split: option.splits prod.splits)

lemma free_on_tells: "free_on env p h = (b, ev, h') \<Longrightarrow> CopyBytes x y z \<notin> set ev"
  by (auto simp: free_on_def split: option.splits prod.splits)

text \<open>The first step of a move: a new slot next to the records, or nothing.\<close>

lemma new_slot:
  assumes "world h ext" "size_ok h sz" "sz > 0"
    and "(if c then create_on env sz PAGE_READWRITE LANE_CONTAINED_A h else (0, [], h)) = (q, ev, h')"
  shows "granted_or_same h ext sz q h'" "q = 0 \<Longrightarrow> recs h' = recs h" "CopyBytes x y z \<notin> set ev"
proof -
  have "granted_or_same h ext sz q h' \<and> (q = 0 \<longrightarrow> recs h' = recs h) \<and> CopyBytes x y z \<notin> set ev"
  proof (cases c)
    case True
    then have e: "create_on env sz PAGE_READWRITE LANE_CONTAINED_A h = (q, ev, h')" using assms(4) by simp
    show ?thesis using create_on_world [OF assms(1-3) e] create_on_tells [OF e] by simp
  next
    case False
    then show ?thesis using assms(4) granted_or_same_refl [OF assms(1), of h] by (auto split: if_splits)
  qed
  then show "granted_or_same h ext sz q h'" "q = 0 \<Longrightarrow> recs h' = recs h" "CopyBytes x y z \<notin> set ev" by auto
qed

lemma record_live: "world h ext \<Longrightarrow> recs h a = Some b \<Longrightarrow> (a, b) \<in> set (arena_live h ext)"
  using mm_recs_member by (auto simp: recs_def world_def arena_live_def the_mm_def)

text \<open>A grant is a new record, so the old ones stand.\<close>

lemma granted_records:
  assumes "world h ext" "granted_or_same h ext sz q h'" "recs h p = Some n"
  shows "recs h' p = Some n"
    "recs h' = recs h \<or> q \<noteq> 0 \<and> q \<noteq> p \<and> recs h q = None \<and> recs h' = (recs h)(q \<mapsto> sz)"
proof -
  have "recs h' = recs h \<or> q \<noteq> 0 \<and> q \<noteq> p \<and> recs h q = None \<and> recs h' = (recs h)(q \<mapsto> sz)"
  proof (cases "recs h' = recs h")
    case False
    then have q: "q \<noteq> 0" "recs h' = (recs h)(q \<mapsto> sz)" "\<forall>(a, b)\<in>set (arena_live h ext). q \<noteq> a"
      using assms(2) by (auto simp: granted_or_same_def)
    have "q \<noteq> p" using q(3) record_live [OF assms(1,3)] by blast
    moreover have "recs h q = None" using q(3) record_live [OF assms(1), of q] by (cases "recs h q") blast+
    ultimately show ?thesis using q by blast
  qed simp
  then show "recs h' = recs h \<or> q \<noteq> 0 \<and> q \<noteq> p \<and> recs h q = None \<and> recs h' = (recs h)(q \<mapsto> sz)"
    "recs h' p = Some n" using assms(3) by auto
qed

lemma realloc_is_move:
  assumes "\<not> passes_through env h" "world h ext" "shards_in ext h" "recs h p = Some n"
  shows "Hooked_RtlReAllocateHeap env heap flags p sz h = move_block env heap flags p sz h"
proof -
  have "p \<noteq> 0 \<and> is_arena_address p h" by (rule world_apart(3) [OF assms(2,4)])
  then show ?thesis
    using assms(1,2) record_outside_shards [OF assms(2-4)]
    by (auto simp: Hooked_RtlReAllocateHeap_def world_def)
qed

text \<open>C11: Reallocating a live block of the arena moves it: the answer is a new block, of the
  arena or of the system's heap, and as many bytes as both blocks have are copied to it from
  the start of the old one; the old slot is released in every case.  So when neither the arena
  nor the system's heap has room, the call answers null and the game's block is gone without a
  copy, although a failed reallocation must leave the block as it is.\<close>

theorem arena_realloc_moves:
  assumes "\<not> passes_through env h" "world h ext" "shards_in ext h" "recs h p = Some n" "size_ok h sz" "sz > 0"
    and "Hooked_RtlReAllocateHeap env heap flags p sz h = (q, ev, h')"
  shows "(recs h' = (recs h)(p := None) \<or> q \<noteq> 0 \<and> q \<noteq> p \<and> recs h q = None \<and> recs h' = (recs h)(p := None, q \<mapsto> sz))
    \<and> recs h' p = None
    \<and> (q \<noteq> 0 \<longrightarrow> CopyBytes q p (min n sz) \<in> set ev)
    \<and> (q = 0 \<longrightarrow> (\<forall>x y z. CopyBytes x y z \<notin> set ev))"
proof (intro conjI)
  let ?c = "in_capture_range env h sz \<and> IsProxyActive (h_control h) \<and> \<not> IsShuttingDown (h_control h)"
  obtain q1 ev1 h1 where c: "(if ?c then create_on env sz PAGE_READWRITE LANE_CONTAINED_A h else (0, [], h)) = (q1, ev1, h1)"
    by (metis prod_cases3)
  note g = new_slot [OF assms(2,5,6) c]
  have w1: "world h1 ext" using g(1) by (simp add: granted_or_same_def)
  note gr = granted_records [OF assms(2) g(1) assms(4)]
  obtain m1 g1 where m1: "h_mm h1 = Some (m1, g1)" using w1 by (auto simp: world_def)
  obtain r where r: "FindRecordByAddress p m1 = Some r" "proxy_base r = p" "proxy_size r = n"
    using find_record [OF w1 gr(1) m1] by blast
  obtain b2 ev2 h2 where f: "free_on env p h1 = (b2, ev2, h2)" by (metis prod_cases3)
  let ?q = "if q1 \<noteq> 0 then q1 else hs_alloc (he_sys env) heap flags sz"
  let ?ev = "if q1 \<noteq> 0 then ev1 else ev1 @ [RealAlloc heap flags sz]"
  have pn: "p \<noteq> 0" "n > 0" using world_apart(3) [OF assms(2,4)] world_pos(1) [OF assms(2,4)] by auto
  have e: "h' = h2 \<and> q = ?q \<and> ev = ?ev @ (if ?q \<noteq> 0 then [CopyBytes ?q p (min n sz)] @ ev2 @ tally env ''RtlReAllocHeap_ProxyHandled'' 1 else ev2)"
    using assms(6,7) pn unfolding realloc_is_move [OF assms(1-4)] move_block_def c
    by (auto simp: f m1 r Let_def split: if_splits)
  note fw = free_on_world [OF w1 f]
  show "recs h' p = None" using fw(3) e by simp
  show "q \<noteq> 0 \<longrightarrow> CopyBytes q p (min n sz) \<in> set ev" using e by auto
  show "q = 0 \<longrightarrow> (\<forall>x y z. CopyBytes x y z \<notin> set ev)" using e g(3) free_on_tells [OF f] by auto
  show "recs h' = (recs h)(p := None) \<or> q \<noteq> 0 \<and> q \<noteq> p \<and> recs h q = None \<and> recs h' = (recs h)(p := None, q \<mapsto> sz)"
    using gr(2) fw(3) e by (auto simp: fun_upd_twist)
qed

subsection \<open>The claims at concrete inputs\<close>

lemma alloc_disposition_reconciles_witness:
  "\<exists>p ev h'. Hooked_RtlAllocateHeap (demo_env True) 0x600000 0 0x20000 (demo_hooks demo_mm proxy_heaps_init) = (p, ev, h') \<and>
     counted_as ''AllocSize_'' ev = [''AllocSize_64to256KB''] \<and>
     (\<exists>pre\<in>{''HeapBandCaptured'', ''HeapBandMissed'', ''HeapBandSelf''}. counted_as ''HeapBand'' ev = [pre @ ''_64to256KB''])"
proof -
  let ?h = "demo_hooks demo_mm proxy_heaps_init"
  obtain p ev h' where a: "Hooked_RtlAllocateHeap (demo_env True) 0x600000 0 0x20000 ?h = (p, ev, h')" by (metis prod_cases3)
  have "\<not> passes_through (demo_env True) ?h" "h_mm ?h \<noteq> None" "me_analytics (he_mm (demo_env True))"
    "(0x20000 :: u32) \<ge> HEAP_CAPTURE_THRESHOLD"
    by (simp_all add: passes_through_def demo_env_def demo_hooks_def IsShuttingDown_def HEAP_CAPTURE_THRESHOLD_def)
  note r = alloc_disposition_reconciles [OF this a]
  have b: "band_name 0x20000 = ''64to256KB''" by (simp add: band_name_def)
  show ?thesis using a r unfolding b by auto
qed

lemma demo_world: "world (demo_hooks demo_mm ph) []" "size_ok (demo_hooks demo_mm ph) 0x20000"
proof -
  obtain ok ev where i: "MemoryManager_Initialize (demo_mm_env True) (MemoryManager_init (demo_mm_env True)) = (ok, ev, demo_mm)"
    using demo_mm_started by blast
  have ro: "range_ok (new_gran (demo_mm_env True))
      (ReserveArenaContiguous (me_os (demo_mm_env True)) (new_gran (demo_mm_env True)) PROXY_ARENA_SIZE) PROXY_ARENA_SIZE"
    using demo_mm_geo(3,4) by simp
  note st = mm_start [OF demo_mm_geo(1,2) ro i]
  show "world (demo_hooks demo_mm ph) []" "size_ok (demo_hooks demo_mm ph) 0x20000"
    using st(2,4) demo_mm_geo(3) by (simp_all add: world_def demo_hooks_def size_ok_def arena_geo_def the_mm_def)
qed

lemma demo_alloc:
  "\<exists>ev h'. Hooked_RtlAllocateHeap (demo_env False) 0x600000 0 0x20000 (demo_hooks demo_mm proxy_heaps_init) =
     (0x20000000, ev, h') \<and> recs h' = [0x20000000 \<mapsto> 0x20000] \<and> recs (demo_hooks demo_mm proxy_heaps_init) = Map.empty"
  unfolding demo_mm_def
  by (simp add: mm_eval arena_eval create_eval hook_eval recs_def mm_recs_def fun_eq_iff)

lemma arena_block_roundtrip_witness:
  "\<exists>ev h1 ev' h2. Hooked_RtlAllocateHeap (demo_env False) 0x600000 0 0x20000 (demo_hooks demo_mm proxy_heaps_init) =
       (0x20000000, ev, h1) \<and> recs h1 = [0x20000000 \<mapsto> 0x20000] \<and>
     Hooked_RtlFreeHeap (demo_env False) 0x600000 0 0x20000000 h1 = (True, ev', h2) \<and> recs h2 = Map.empty"
proof -
  let ?h = "demo_hooks demo_mm proxy_heaps_init"
  obtain ev h1 where a: "Hooked_RtlAllocateHeap (demo_env False) 0x600000 0 0x20000 ?h = (0x20000000, ev, h1)"
    "recs h1 = [0x20000000 \<mapsto> 0x20000]" "recs ?h = Map.empty" using demo_alloc by blast
  obtain b ev' h2 where f: "Hooked_RtlFreeHeap (demo_env False) 0x600000 0 0x20000000 h1 = (b, ev', h2)" by (metis prod_cases3)
  have "shards_in [] ?h" by (simp add: shards_in_def demo_hooks_def proxy_heaps_init_def)
  note r = arena_block_roundtrip [OF demo_world(1) this demo_world(2) a(1) _ f]
  have "recs h1 \<noteq> recs ?h" by (simp add: a)
  then show ?thesis using a f r by auto
qed

lemma demo_realloc:
  assumes "world (demo_hooks m proxy_heaps_init) []" "recs (demo_hooks m proxy_heaps_init) p = Some n"
    and "Hooked_RtlReAllocateHeap env 0x600000 0 p 0x100 (demo_hooks m proxy_heaps_init) = (q, ev, h')" "\<not> he_boot env" "kForceHeapProxyMinSize env = 4096"
  shows "q = hs_alloc (he_sys env) 0x600000 0 0x100"
proof -
  have p: "p \<noteq> 0 \<and> is_arena_address p (demo_hooks m proxy_heaps_init)" by (rule world_apart(3) [OF assms(1,2)])
  have "ProxyHeapShardOf p proxy_heaps_init = None" by (simp add: ProxyHeapShardOf_def proxy_heaps_init_def)
  then have "move_block env 0x600000 0 p 0x100 (demo_hooks m proxy_heaps_init) = (q, ev, h')"
    using assms(3,4) p
    by (simp add: Hooked_RtlReAllocateHeap_def demo_hooks_def passes_through_def IsShuttingDown_def)
  then show ?thesis
    using assms(5)
    by (auto simp: move_block_def in_capture_range_def demo_hooks_def HEAP_CAPTURE_THRESHOLD_def
        Let_def split: if_splits prod.splits)
qed

lemma arena_realloc_moves_witness:
  "\<exists>m ev h' ev' h''. recs (demo_hooks m proxy_heaps_init) 0x20000000 = Some 0x20000 \<and>
     Hooked_RtlReAllocateHeap (demo_env False) 0x600000 0 0x20000000 0x100 (demo_hooks m proxy_heaps_init) = (0x600100, ev, h') \<and>
     CopyBytes 0x600100 0x20000000 0x100 \<in> set ev \<and> recs h' 0x20000000 = None \<and>
     Hooked_RtlReAllocateHeap ((demo_env False)\<lparr>he_sys := demo_sys\<lparr>hs_alloc := \<lambda>_ _ _. 0\<rparr>\<rparr>) 0x600000 0 0x20000000 0x100
       (demo_hooks m proxy_heaps_init) = (0, ev', h'') \<and>
     CopyBytes 0 0x20000000 0x100 \<notin> set ev' \<and> recs h'' 0x20000000 = None"
proof -
  let ?e = "demo_env False" and ?noroom = "(demo_env False)\<lparr>he_sys := demo_sys\<lparr>hs_alloc := \<lambda>_ _ _. 0\<rparr>\<rparr>"
  obtain ev0 h1 where a: "Hooked_RtlAllocateHeap ?e 0x600000 0 0x20000 (demo_hooks demo_mm proxy_heaps_init) = (0x20000000, ev0, h1)"
    "recs h1 = [0x20000000 \<mapsto> 0x20000]" using demo_alloc by blast
  have g: "granted_or_same (demo_hooks demo_mm proxy_heaps_init) [] 0x20000 0x20000000 h1"
    by (rule Hooked_RtlAllocateHeap_world(1) [OF demo_world a(1)])
  then obtain m g1 where m: "h_mm h1 = Some (m, g1)" "mm_with m []" by (auto simp: granted_or_same_def world_def)
  let ?h = "demo_hooks m proxy_heaps_init"
  have w: "world ?h []" using m by (simp add: world_def demo_hooks_def)
  have rc: "recs ?h 0x20000000 = Some 0x20000" using a(2) m by (simp add: recs_def demo_hooks_def)
  have "arena_geo h1 = arena_geo (demo_hooks demo_mm proxy_heaps_init)" using g by (simp add: granted_or_same_def)
  then have "fst (arena_geo ?h) = fst (arena_geo (demo_hooks demo_mm proxy_heaps_init))"
    using m by (simp add: arena_geo_def the_mm_def demo_hooks_def)
  then have sz: "size_ok ?h 0x100" using demo_world(2) [of proxy_heaps_init] by (simp add: size_ok_def)
  have sh: "shards_in [] ?h" by (simp add: shards_in_def demo_hooks_def proxy_heaps_init_def)
  have pt: "\<not> passes_through ?e ?h" "\<not> passes_through ?noroom ?h"
    by (simp_all add: passes_through_def demo_env_def demo_hooks_def IsShuttingDown_def)
  obtain q ev h' where r: "Hooked_RtlReAllocateHeap ?e 0x600000 0 0x20000000 0x100 ?h = (q, ev, h')" by (metis prod_cases3)
  obtain q0 ev' h'' where r0: "Hooked_RtlReAllocateHeap ?noroom 0x600000 0 0x20000000 0x100 ?h = (q0, ev', h'')" by (metis prod_cases3)
  have q: "q = 0x600100" using demo_realloc [OF w rc r] by (simp add: demo_env_def demo_sys_def)
  have q0: "q0 = 0" using demo_realloc [OF w rc r0] by (simp add: demo_env_def)
  note x = arena_realloc_moves [OF pt(1) w sh rc sz _ r] and y = arena_realloc_moves [OF pt(2) w sh rc sz _ r0]
  have "recs h' 0x20000000 = None \<and> CopyBytes q 0x20000000 (min 0x20000 0x100) \<in> set ev" using x q by simp
  moreover have "recs h'' 0x20000000 = None \<and> CopyBytes 0 0x20000000 0x100 \<notin> set ev'" using y q0 by simp
  ultimately show ?thesis using rc r r0 q q0 by (intro exI [of _ m] exI [of _ ev] exI [of _ h'] exI [of _ ev'] exI [of _ h'']) simp
qed

end
