(* ===== verification/VirtualHooks.thy ===== *)
theory VirtualHooks
  imports HeapHooks LocalVas
begin

section \<open>The virtual-memory hooks\<close>

text \<open>
  \<open>VirtualAlloc\<close>, \<open>VirtualFree\<close>, \<open>NtAllocateVirtualMemory\<close>, \<open>NtFreeVirtualMemory\<close> and
  \<open>NtAllocateVirtualMemoryEx\<close> of \<open>WorkingHooks.cpp\<close>, and the hooks that only observe.  A reserve
  without a base address is served from the arena (its slot is kept in the table of redirected
  slots), a write-watch reserve from the script arena, and everything else from the system.  The
  commits and decommits of the hooks' own code are single steps: an outcome of \<open>me_commit\<close>, an
  event \<open>Decommit\<close>.  The range log is taken as \<open>InitRangeLogConfig\<close> has left it.
\<close>

subsection \<open>State and events\<close>

record vhooks =
  vh_core :: hooks
  vh_local :: "LocalVasSourceStats \<times> caller_stats"
  vh_range :: range_log
  vh_etw :: api_etw

text \<open>
  What the system answers: the real functions where they could be resolved, the last error, and
  for the native calls the status with the base and the size they leave in their arguments.
\<close>

record virt_sys =
  vs_alloc :: "(u32 \<Rightarrow> u32 \<Rightarrow> u32 \<Rightarrow> u32 \<Rightarrow> u32) option"
  vs_free :: "(u32 \<Rightarrow> u32 \<Rightarrow> u32 \<Rightarrow> bool) option"
  vs_nt_alloc :: "u32 \<Rightarrow> u32 \<Rightarrow> u32 \<Rightarrow> u32 \<Rightarrow> u32 \<Rightarrow> u32 \<Rightarrow> u32 \<times> u32 \<times> u32"
  vs_nt_free :: "u32 \<Rightarrow> u32 \<Rightarrow> u32 \<Rightarrow> u32 \<Rightarrow> u32 \<times> u32 \<times> u32"
  vs_nt_alloc_ex :: "(u32 \<Rightarrow> u32 \<Rightarrow> u32 \<Rightarrow> u32 \<Rightarrow> u32 \<Rightarrow> u32 \<times> u32 \<times> u32) option"
  vs_last_error :: u32
  vs_this_process :: u32

datatype virt_event =
    Hook hook_event
  | RealVirtualAlloc u32 u32 u32 u32
  | RealVirtualFree u32 u32 u32
  | RealNtAlloc u32 u32 u32 u32 u32
  | RealNtFree u32 u32 u32 u32
  | RealCall string "u64 list"
  | EtwSlotAssigned u32 u32 ContainmentLane u32
  | EtwSlotReleased u32 u32
  | EtwVirtualAlloc u32 u32 u32 u32 u32 bool nat
  | EtwVirtualFree u32 u32 u32 bool
  | EtwApi string "u64 list" u64 u32
  | RedirectFailed string u32 string u32 u32 u32 u32 u32
  | GameReserve string u32 u32 u32 u32 bool bool
  | ReserveCtx AllocCallerKind string u32 u32 string
  | MemHook u32 u32 u32 u32 u32
  | FreeFailed u32 u32 u32
  | RangeHit AllocCallerKind string u32 u32 u32
  | WriteWatchReserve bool string u32 u32 u32 u32
  | Provenance u32 u32 string u32 "string \<times> u32" u32

definition MEM_RELEASE :: u32 where "MEM_RELEASE = 0x8000"
definition ERROR_NOT_ENOUGH_MEMORY :: u32 where "ERROR_NOT_ENOUGH_MEMORY = 8"
definition STATUS_NOT_IMPLEMENTED :: u32 where "STATUS_NOT_IMPLEMENTED = 0xC0000002"
definition NT_SUCCESS :: "u32 \<Rightarrow> bool" where "NT_SUCCESS status \<longleftrightarrow> 0 \<le> sint status"

abbreviation vtally :: "hook_env \<Rightarrow> string \<Rightarrow> u64 \<Rightarrow> virt_event list" where
  "vtally env n x \<equiv> map Hook (tally env n x)"

definition vtallies :: "hook_env \<Rightarrow> increments \<Rightarrow> virt_event list" where
  "vtallies env incs = concat (map (\<lambda>(n, x). vtally env n x) incs)"

text \<open>The marks: \<open>RtlHookScope\<close> with \<open>SetInHook(true)\<close>, and its counterpart where the code has one.\<close>

definition enter_scope :: "hooks \<Rightarrow> hooks" where
  "enter_scope h = h\<lparr>h_tlActive := True, h_inHook := True\<rparr>"

definition leave_scope :: "hooks \<Rightarrow> hooks" where
  "leave_scope h = h\<lparr>h_tlActive := False, h_inHook := False\<rparr>"

text \<open>The native hooks never clear the in-hook mark.\<close>

definition leave_nt :: "hooks \<Rightarrow> hooks" where
  "leave_nt h = h\<lparr>h_tlActive := False, s_activeHookCalls := s_activeHookCalls h - 1\<rparr>"

abbreviation core :: "(hooks \<Rightarrow> hooks) \<Rightarrow> vhooks \<Rightarrow> vhooks" where
  "core f v \<equiv> v\<lparr>vh_core := f (vh_core v)\<rparr>"

subsection \<open>Redirection\<close>

definition redirectable :: "u32 \<Rightarrow> u32 \<Rightarrow> u32 \<Rightarrow> u32 \<Rightarrow> hooks \<Rightarrow> bool" where
  "redirectable base sz allocType protect h \<longleftrightarrow>
     base = 0 \<and> allocType AND MEM_RESERVE \<noteq> 0 \<and>
     allocType AND (MEM_WRITE_WATCH OR MEM_PHYSICAL OR MEM_LARGE_PAGES) = 0 \<and> \<not> IsExecProtect protect \<and>
     (sz \<ge> HEAP_CAPTURE_THRESHOLD \<or> sz \<ge> kForceVirtualAllocMinSize) \<and>
     (case h_mm h of None \<Rightarrow> False | Some (m, g) \<Rightarrow> m_proxyMaxBytes m = 0 \<or> sz < m_proxyMaxBytes m) \<and>
     IsProxyActive (h_control h)"

text \<open>The slot, or why there is none; a slot that cannot be committed goes back to the arena.\<close>

definition redirect_slot :: "hook_env \<Rightarrow> u32 \<Rightarrow> u32 \<Rightarrow> hooks \<Rightarrow> u32 \<times> string \<times> hooks" where
  "redirect_slot env sz protect h =
     (case h_mm h of
        None \<Rightarrow> (0, [], h)
      | Some (m, g) \<Rightarrow>
          (case Allocate sz (PrefersTopDown sz (m_proxyAllocator m)) (m_proxyAllocator m) of
             (slot, pa) \<Rightarrow>
               if slot \<noteq> 0 \<and> me_commit (he_mm env) slot sz protect
               then (slot, [], h\<lparr>h_mm := Some (m\<lparr>m_proxyAllocator := pa\<rparr>, g), h_vat := VatTrack (slot, sz) (h_vat h)\<rparr>)
               else if slot \<noteq> 0
               then (0, ''commit_fail'', h\<lparr>h_mm := Some (m\<lparr>m_proxyAllocator := Free slot sz pa\<rparr>, g)\<rparr>)
               else (0, ''slot_null'', h\<lparr>h_mm := Some (m\<lparr>m_proxyAllocator := pa\<rparr>, g)\<rparr>)))"

definition slot_assigned :: "hook_env \<Rightarrow> u32 \<Rightarrow> u32 \<Rightarrow> u32 \<Rightarrow> virt_event" where
  "slot_assigned env slot sz protect =
     EtwSlotAssigned slot sz
       (ContainmentLane_FromCallerKind (me_thread (he_mm env)) (kind_number (fst (classify env (he_ra env))))) protect"

definition not_redirected :: "hook_env \<Rightarrow> string \<Rightarrow> u32 \<Rightarrow> u32 \<Rightarrow> u32 \<Rightarrow> u32 \<Rightarrow> virt_event list" where
  "not_redirected env pre base allocType protect sz =
     (let ww = (allocType AND MEM_WRITE_WATCH \<noteq> 0); ex = IsExecProtect protect; n = pre @ ''_NotRedirected'';
          both = (\<lambda>s. vtally env (n @ s) 1 @ vtally env (n @ s @ ''Bytes'') (ucast sz))
      in vtally env n 1 @ vtally env (n @ ''_Bytes'') (ucast sz) @
         (if base \<noteq> 0 then vtally env (n @ ''_NonNullBase'') 1 else []) @
         (if allocType AND MEM_RESERVE = 0 then vtally env (n @ ''_NoReserve'') 1 else []) @
         (if allocType AND MEM_COMMIT \<noteq> 0 \<and> allocType AND MEM_RESERVE = 0 then both ''_CommitOnly'' else []) @
         (if ww then both ''_WriteWatch'' else []) @
         (if ex then both ''_ExecProtect'' else []) @
         (if ww \<and> ex then both ''_WriteWatchExec'' else []))"

definition game_reserve ::
  "hook_env \<Rightarrow> string \<Rightarrow> u32 \<Rightarrow> u32 \<Rightarrow> u32 \<Rightarrow> u32 \<Rightarrow> bool \<Rightarrow> bool \<Rightarrow> virt_event list" where
  "game_reserve env api base sz allocType protect eligible redirected =
     (if LogRoGameContext (he_ld env) (he_stack env) (he_cstack env) (he_ra env) sz allocType \<and> me_logger (he_mm env)
      then [GameReserve api base sz allocType protect eligible redirected] else [])"

text \<open>The line of a large local reserve needs a logger, the accounts do not.\<close>

definition local_reserve ::
  "hook_env \<Rightarrow> u32 \<Rightarrow> bool \<Rightarrow> u32 \<Rightarrow> u32 \<Rightarrow> bool \<Rightarrow> vhooks \<Rightarrow> virt_event list \<times> vhooks" where
  "local_reserve env sz failed allocType protect fixedBase v =
     (case RecordLocalVasReserve (he_ld env) (he_stack env) (he_cstack env) sz failed allocType protect fixedBase (vh_local v) of
        (w, line) \<Rightarrow>
          ((case line of Some (k, m, off, kb, fl) \<Rightarrow> (if me_logger (he_mm env) then [ReserveCtx k m off kb fl] else [])
            | None \<Rightarrow> []), v\<lparr>vh_local := w\<rparr>))"

definition range_hit :: "hook_env \<Rightarrow> u32 \<Rightarrow> u32 \<Rightarrow> vhooks \<Rightarrow> virt_event list" where
  "range_hit env base sz v =
     (if \<not> me_logger (he_mm env) then []
      else case LogRangeAllocationHit (he_ld env) (he_cstack env) (vh_range v) (first_frame (he_stack env)) base sz of
        None \<Rightarrow> [] | Some (k, m, b, n, e) \<Rightarrow> [RangeHit k m b n e])"

definition size_band :: "hook_env \<Rightarrow> u32 \<Rightarrow> virt_event list" where
  "size_band env sz =
     vtally env (if sz < 1024 * 1024 then ''VirtualAlloc_sub1MB''
                 else if sz < 16 * 1024 * 1024 then ''VirtualAlloc_1to16MB'' else ''VirtualAlloc_16to256MB'') 1"

definition va_mix :: "hook_env \<Rightarrow> u32 \<Rightarrow> u32 \<Rightarrow> u32 \<Rightarrow> virt_event list" where
  "va_mix env sz allocType protect =
     vtallies env (RecordVaMixCounters (he_ld env) (he_stack env) (he_cstack env) (he_ra env) sz allocType protect)"

subsection \<open>VirtualAlloc\<close>

text \<open>
  The class of a write-watch reserver, looked up with a buffer of 64 bytes (\<open>None\<close>: a longer name
  ends the process), and its counters.
\<close>

definition write_watch :: "hook_env \<Rightarrow> u32 \<Rightarrow> (AllocCallerKind \<times> virt_event list) option" where
  "write_watch env sz =
     (case ClassifyCallerModule (he_ld env) (he_cstack env) (he_ra env) 64 of
        None \<Rightarrow> None
      | Some (k, m) \<Rightarrow>
          (let pfx = (if k = Graphics then ''GfxDriverWW'' else ''ScriptWW'');
               band = (if sz < 0x40000 then ''Lt256K'' else if sz = 0x40000 then ''256K''
                       else if sz \<le> 0x100000 then ''256Kto1M'' else if sz \<le> 0x1000000 then ''1Mto16M'' else ''Gt16M'')
           in Some (k, vtally env (pfx @ ''_Count'') 1 @ vtally env (pfx @ ''_Bytes'') (ucast sz) @
                       vtally env (pfx @ ''_'' @ band) 1 @ vtally env (pfx @ ''_'' @ band @ ''_Bytes'') (ucast sz))))"

text \<open>The caller in the line of a failed redirection: base name and offset.\<close>

definition frame_name :: "loader \<Rightarrow> u32 \<Rightarrow> string \<times> u32" where
  "frame_name ld a = (if a = 0 then (''<unknown>'', 0) else top_module ld a)"

definition redirect_failed :: "hook_env \<Rightarrow> virt_sys \<Rightarrow> string \<Rightarrow> u32 \<Rightarrow> u32 \<Rightarrow> u32 \<Rightarrow> virt_event list" where
  "redirect_failed env vs reason sz allocType protect =
     (if reason \<noteq> [] \<and> me_logger (he_mm env)
      then (case frame_name (he_ld env) (first_frame (he_stack env)) of
              (m, off) \<Rightarrow> [RedirectFailed reason
                             (if reason = ''commit_fail'' then vs_last_error vs else ERROR_NOT_ENOUGH_MEMORY)
                             m off (first_frame (he_stack env)) sz allocType protect])
      else [])"

text \<open>The counters of a reserve that could not be redirected at all.\<close>

definition va_not_redirected :: "hook_env \<Rightarrow> u32 \<Rightarrow> u32 \<Rightarrow> u32 \<Rightarrow> u32 \<Rightarrow> hooks \<Rightarrow> virt_event list" where
  "va_not_redirected env base sz allocType protect h =
     (if sz = 0 then []
      else not_redirected env ''VirtualAlloc'' base allocType protect sz @
           (if allocType AND (MEM_PHYSICAL OR MEM_LARGE_PAGES) \<noteq> 0
            then vtally env ''VirtualAlloc_NotRedirected_PhysicalOrLargePages'' 1 else []) @
           (if sz < kForceVirtualAllocMinSize then vtally env ''VirtualAlloc_NotRedirected_SizeTooSmall'' 1 else []) @
           (if h_mm h = None then vtally env ''VirtualAlloc_NotRedirected_NoMemManager'' 1 else []) @
           (if \<not> IsProxyActive (h_control h) then vtally env ''VirtualAlloc_NotRedirected_ProxyInactive'' 1 else []))"

text \<open>The path to the script arena or the system: the address, whether the arena placed it, events.\<close>

definition corral_on :: "hook_env \<Rightarrow> u32 \<Rightarrow> u32 \<Rightarrow> u32 \<Rightarrow> hooks \<Rightarrow> u32 \<times> virt_event list \<times> hooks" where
  "corral_on env sz allocType protect h =
     (case h_mm h of
        None \<Rightarrow> (0, [], h)
      | Some (m, g) \<Rightarrow> (case CorralReserve (he_mm env) sz allocType protect m of
                          (p, ev, m) \<Rightarrow> (p, map (Hook \<circ> Tell) ev, h\<lparr>h_mm := Some (m, g)\<rparr>)))"

definition real_path ::
  "hook_env \<Rightarrow> virt_sys \<Rightarrow> bool \<Rightarrow> u32 \<Rightarrow> u32 \<Rightarrow> u32 \<Rightarrow> u32 \<Rightarrow> hooks \<Rightarrow> u32 \<times> bool \<times> virt_event list \<times> hooks" where
  "real_path env vs ww base sz allocType protect h =
     (case (if ww then corral_on env sz allocType protect h else (0, [], h)) of
        (p, ev, h) \<Rightarrow>
          if p \<noteq> 0 then (p, True, ev @ vtally env ''ScriptArena_Placed'' 1, h)
          else ((case vs_alloc vs of None \<Rightarrow> 0 | Some f \<Rightarrow> f base sz allocType protect), False,
                ev @ (if ww then vtally env ''ScriptArena_Fallback'' 1 else []) @ [RealVirtualAlloc base sz allocType protect], h))"

text \<open>What is recorded of a reserve that the real path served: range log, write-watch line, register of survivors.\<close>

definition real_served ::
  "hook_env \<Rightarrow> bool \<Rightarrow> AllocCallerKind \<Rightarrow> u32 \<Rightarrow> u32 \<Rightarrow> vhooks \<Rightarrow> (virt_event list \<times> vhooks) option" where
  "real_served env ww wwKind p sz v =
     (let frame = first_frame (he_stack env);
          gfx = (wwKind = Graphics);
          ev = range_hit env p sz v @
               (if ww \<and> me_logger (he_mm env)
                then (let m = snd (classify env frame);
                          off = (if frame = 0 then 0 else snd (top_module (he_ld env) frame))
                      in [WriteWatchReserve gfx (if m = [] then ''<unknown>'' else m) off p (sz div 1024) frame])
                else [])
      in if sz \<ge> 1024 * 1024
         then (case RegisterDiagnosticAlloc (he_ld env) (he_cstack env) (h_csInit (vh_core v)) (me_tick (he_mm env)) p sz frame
                      (h_diag (vh_core v)) of
                 None \<Rightarrow> None
               | Some d \<Rightarrow> Some (ev, core (\<lambda>h. h\<lparr>h_diag := d\<rparr>) v))
         else Some (ev, v))"

text \<open>Where a reserve goes: the address, whether the real path served it, whether the script arena did.\<close>

definition va_place ::
  "hook_env \<Rightarrow> virt_sys \<Rightarrow> bool \<Rightarrow> bool \<Rightarrow> u32 \<Rightarrow> u32 \<Rightarrow> u32 \<Rightarrow> u32 \<Rightarrow> hooks \<Rightarrow>
   u32 \<times> bool \<times> bool \<times> virt_event list \<times> hooks" where
  "va_place env vs ww redirect base sz allocType protect h =
     (case (if redirect then redirect_slot env sz protect h else (0, [], h)) of
        (p, reason, h) \<Rightarrow>
          if p \<noteq> 0
          then (p, False, False, [slot_assigned env p sz protect] @ vtally env ''VirtualAlloc_Redirected'' 1 @
                                 vtally env ''VirtualAlloc_RedirectedBytes'' (ucast sz), h)
          else (case real_path env vs ww base sz allocType protect h of
                  (q, placed, ev, h') \<Rightarrow>
                    (q, True, placed, (if redirect then [] else va_not_redirected env base sz allocType protect h) @
                       (if redirect then vtally env ''VirtualAlloc_RedirectFallback_Local'' 1 else []) @
                       (if redirect then redirect_failed env vs reason sz allocType protect else []) @ ev, h')))"

text \<open>What is recorded about it.\<close>

definition va_record ::
  "hook_env \<Rightarrow> bool \<Rightarrow> AllocCallerKind \<Rightarrow> bool \<Rightarrow> bool \<Rightarrow> bool \<Rightarrow> u32 \<Rightarrow> u32 \<Rightarrow> u32 \<Rightarrow> u32 \<Rightarrow> u32 \<Rightarrow> vhooks \<Rightarrow>
   (virt_event list \<times> vhooks) option" where
  "va_record env ww wwKind redirect real placed base sz allocType protect p v =
     (let ev1 = game_reserve env ''VirtualAlloc'' base sz allocType protect redirect (redirect \<and> p \<noteq> 0 \<and> \<not> real);
          (ev2, v) = (if allocType AND MEM_RESERVE \<noteq> 0 \<and> sz \<ge> kForceVirtualAllocMinSize \<and> (p = 0 \<or> (real \<and> \<not> placed))
                      then local_reserve env sz (p = 0) allocType protect (base \<noteq> 0) v else ([], v));
          ev3 = (if sz \<ge> HEAP_CAPTURE_THRESHOLD \<and> me_logger (he_mm env)
                 then [MemHook base sz allocType protect p] else [])
      in case (if p \<noteq> 0 \<and> real \<and> allocType AND MEM_RESERVE \<noteq> 0
               then real_served env ww wwKind p sz v else Some ([], v)) of
           None \<Rightarrow> None
         | Some (ev4, v) \<Rightarrow>
             Some (ev1 @ ev2 @ ev3 @ ev4 @
                   (if p \<noteq> 0 then [EtwVirtualAlloc base sz allocType protect p (\<not> real) 1] else []), v))"

definition virtual_alloc_body ::
  "hook_env \<Rightarrow> virt_sys \<Rightarrow> u32 \<Rightarrow> u32 \<Rightarrow> u32 \<Rightarrow> u32 \<Rightarrow> vhooks \<Rightarrow> (u32 \<times> virt_event list \<times> vhooks) option" where
  "virtual_alloc_body env vs base sz allocType protect v =
     (let ev0 = (if sz > 0 then va_mix env sz allocType protect else []);
          v = core (\<lambda>h. h\<lparr>h_control := EnsureProxyActiveForVirtualPath sz allocType protect (h_control h)\<rparr>) v;
          ww = (allocType AND MEM_WRITE_WATCH \<noteq> 0 \<and> allocType AND MEM_RESERVE \<noteq> 0 \<and> base = 0);
          redirect = redirectable base sz allocType protect (vh_core v)
      in case (if ww then write_watch env sz else Some (Unknown, [])) of
           None \<Rightarrow> None
         | Some (wwKind, ev1) \<Rightarrow>
             (case va_place env vs ww redirect base sz allocType protect (vh_core v) of
                (p, real, placed, ev2, h) \<Rightarrow>
                  (case va_record env ww wwKind redirect real placed base sz allocType protect p (v\<lparr>vh_core := h\<rparr>) of
                     None \<Rightarrow> None
                   | Some (ev3, v) \<Rightarrow> Some (p, ev0 @ ev1 @ ev2 @ ev3, v))))"

definition Hooked_VirtualAlloc ::
  "hook_env \<Rightarrow> virt_sys \<Rightarrow> u32 \<Rightarrow> u32 \<Rightarrow> u32 \<Rightarrow> u32 \<Rightarrow> vhooks \<Rightarrow> (u32 \<times> virt_event list \<times> vhooks) option" where
  "Hooked_VirtualAlloc env vs base sz allocType protect v =
     (case vs_alloc vs of
        None \<Rightarrow> Some (0, [], v)
      | Some f \<Rightarrow>
          if passes_through env (vh_core v)
          then Some (f base sz allocType protect, [RealVirtualAlloc base sz allocType protect], v)
          else (case virtual_alloc_body env vs base sz allocType protect (core enter_scope v) of
                  None \<Rightarrow> None
                | Some (p, ev, v) \<Rightarrow> Some (p, ev, core leave_scope v)))"

subsection \<open>VirtualFree\<close>

text \<open>The record of a survivor that is released, with the line about it.\<close>

definition retire :: "hook_env \<Rightarrow> u32 \<Rightarrow> hooks \<Rightarrow> virt_event list \<times> hooks" where
  "retire env a h =
     (case RemoveDiagnosticAlloc (he_ld env) (h_csInit h) (me_tick (he_mm env)) a (first_frame (he_stack env)) (h_diag h) of
        (None, d) \<Rightarrow> ([], h\<lparr>h_diag := d\<rparr>)
      | (Some (p, kb, m, ra, who, ms), d) \<Rightarrow> ([Provenance p kb m ra who ms], h\<lparr>h_diag := d\<rparr>))"

definition in_script_arena :: "u32 \<Rightarrow> hooks \<Rightarrow> bool" where
  "in_script_arena a h \<longleftrightarrow> a \<noteq> 0 \<and> (case h_mm h of None \<Rightarrow> False | Some (m, g) \<Rightarrow> IsCorralAddress a m)"

definition corral_free_on :: "hook_env \<Rightarrow> u32 \<Rightarrow> hooks \<Rightarrow> virt_event list \<times> hooks" where
  "corral_free_on env a h =
     (case h_mm h of
        None \<Rightarrow> ([], h)
      | Some (m, g) \<Rightarrow> (case CorralFree a m of
                          (b, ev, m) \<Rightarrow> (map (Hook \<circ> Tell) ev @ vtally env ''ScriptArena_Freed'' 1, h\<lparr>h_mm := Some (m, g)\<rparr>)))"

text \<open>A tracked slot is decommitted and goes back to the arena.\<close>

definition free_tracked :: "hook_env \<Rightarrow> u32 \<Rightarrow> u32 \<Rightarrow> u32 \<Rightarrow> hooks \<Rightarrow> virt_event list \<times> hooks" where
  "free_tracked env a sz freeType h =
     ([Hook (Tell (Decommit a sz))] @ vtally env ''VirtualAlloc_RedirectedFreed'' 1 @
        [EtwSlotReleased a sz, EtwVirtualFree a sz freeType True],
      case h_mm h of
        None \<Rightarrow> h
      | Some (m, g) \<Rightarrow> h\<lparr>h_mm := Some (m\<lparr>m_proxyAllocator := Free a sz (m_proxyAllocator m)\<rparr>, g)\<rparr>)"

text \<open>
  The two interceptions of a release, which come before the guard of \<open>VirtualFree\<close>: \<open>True\<close> when
  the address was in the script arena or tracked.
\<close>

definition release_ours :: "hook_env \<Rightarrow> u32 \<Rightarrow> u32 \<Rightarrow> hooks \<Rightarrow> bool \<times> virt_event list \<times> hooks" where
  "release_ours env a freeType h =
     (if freeType AND MEM_RELEASE = 0 then (False, [], h)
      else (case (if a \<noteq> 0 then retire env a h else ([], h)) of
              (ev, h) \<Rightarrow>
                if in_script_arena a h
                then (case corral_free_on env a h of (ev', h) \<Rightarrow> (True, ev @ ev', h))
                else (case VatUntrack a (h_vat h) of
                        (None, t) \<Rightarrow> (False, ev, h\<lparr>h_vat := t\<rparr>)
                      | (Some (b, sz), t) \<Rightarrow>
                          (case free_tracked env a sz freeType (h\<lparr>h_vat := t\<rparr>) of (ev', h) \<Rightarrow> (True, ev @ ev', h)))))"

definition Hooked_VirtualFree ::
  "hook_env \<Rightarrow> virt_sys \<Rightarrow> u32 \<Rightarrow> u32 \<Rightarrow> u32 \<Rightarrow> vhooks \<Rightarrow> bool \<times> virt_event list \<times> vhooks" where
  "Hooked_VirtualFree env vs a sz freeType v =
     (case release_ours env a freeType (vh_core v) of
        (True, ev, h) \<Rightarrow> (True, ev, v\<lparr>vh_core := h\<rparr>)
      | (False, ev, h) \<Rightarrow>
          (let v = v\<lparr>vh_core := h\<rparr>
           in case vs_free vs of
                None \<Rightarrow> (False, ev, v)
              | Some f \<Rightarrow>
                  if passes_through env h then (f a sz freeType, ev @ [RealVirtualFree a sz freeType], v)
                  else (let ok = f a sz freeType
                        in (ok, ev @ [RealVirtualFree a sz freeType, EtwVirtualFree a sz freeType False] @
                                (if me_logger (he_mm env) \<and> \<not> ok then [FreeFailed a sz freeType] else []),
                            core (leave_scope \<circ> enter_scope) v))))"

subsection \<open>The native calls\<close>

text \<open>
  A native call takes the process and the cells of base and size (\<open>None\<close> for a null pointer) and
  leaves them with new contents; the result is the status with the contents of the cells.
\<close>

type_synonym nt_result = "u32 \<times> u32 \<times> u32"

definition own_process :: "virt_sys \<Rightarrow> u32 \<Rightarrow> bool" where
  "own_process vs p \<longleftrightarrow> p = vs_this_process vs \<or> p = - 1"

definition enter_nt :: "hooks \<Rightarrow> hooks" where
  "enter_nt h = (enter_scope h)\<lparr>s_activeHookCalls := s_activeHookCalls h + 1\<rparr>"

text \<open>What is recorded after a native allocation by the system: \<open>b\<close>, \<open>n\<close> are the cells after the call.\<close>

definition nt_reserved :: "hook_env \<Rightarrow> u32 \<Rightarrow> u32 \<Rightarrow> u32 \<Rightarrow> bool \<Rightarrow> bool \<Rightarrow> vhooks \<Rightarrow> virt_event list" where
  "nt_reserved env b n allocType own ok v =
     (if ok \<and> own \<and> allocType AND MEM_RESERVE \<noteq> 0
      then (if b \<noteq> 0 then range_hit env b n v else []) @
           (if n \<ge> HEAP_CAPTURE_THRESHOLD
            then vtally env ''VirtualAlloc_ReserveCount'' 1 @ vtally env ''VirtualAlloc_ReserveBytes'' (ucast n) @ size_band env n
            else [])
      else [])"

definition nt_allocate_body ::
  "hook_env \<Rightarrow> virt_sys \<Rightarrow> u32 \<Rightarrow> u32 \<Rightarrow> u32 \<Rightarrow> u32 \<Rightarrow> u32 \<Rightarrow> u32 \<Rightarrow> vhooks \<Rightarrow> nt_result \<times> virt_event list \<times> vhooks" where
  "nt_allocate_body env vs proc base zeroBits sz allocType protect v =
     (let own = own_process vs proc;
          v = (if own then core (\<lambda>h. h\<lparr>h_control := EnsureProxyActiveForVirtualPath sz allocType protect (h_control h)\<rparr>) v else v);
          ev0 = (if own \<and> sz > 0 then va_mix env sz allocType protect else []);
          redirect = (own \<and> redirectable base sz allocType protect (vh_core v))
      in case (if redirect then redirect_slot env sz protect (vh_core v) else (0, [], vh_core v)) of
           (slot, reason, h) \<Rightarrow>
             let v = v\<lparr>vh_core := h\<rparr> in
             if slot \<noteq> 0
             then ((0, slot, sz),
                   ev0 @ [slot_assigned env slot sz protect] @ vtally env ''VirtualAlloc_Redirected'' 1 @
                   vtally env ''VirtualAlloc_RedirectedBytes'' (ucast sz) @ size_band env sz @
                   [EtwVirtualAlloc base sz allocType protect slot True 0] @
                   game_reserve env ''NtAllocateVirtualMemory'' base sz allocType protect True True, v)
             else (case vs_nt_alloc vs proc base zeroBits sz allocType protect of
                     (status, b, n) \<Rightarrow>
                       let ok = NT_SUCCESS status;
                           ev1 = (if redirect then vtally env ''VirtualAlloc_RedirectFailed'' 1 else []) @
                                 [RealNtAlloc proc base sz allocType protect] @
                                 (if \<not> redirect \<and> own \<and> n > 0 then not_redirected env ''NtAllocVM'' b allocType protect n else []) @
                                 (if own \<and> n > 0
                                  then game_reserve env ''NtAllocateVirtualMemory'' base n allocType protect redirect False else []);
                           (ev2, v) = (if own \<and> allocType AND MEM_RESERVE \<noteq> 0 \<and> n \<ge> kForceVirtualAllocMinSize
                                       then local_reserve env n (\<not> ok) allocType protect False v else ([], v));
                           ev3 = nt_reserved env b n allocType own ok v
                       in ((status, b, n),
                           ev0 @ ev1 @ ev2 @ ev3 @
                           (if ok \<and> own \<and> b \<noteq> 0 then [EtwVirtualAlloc base n allocType protect b False 0] else []), v)))"

definition Hooked_NtAllocateVirtualMemory ::
  "hook_env \<Rightarrow> virt_sys \<Rightarrow> u32 \<Rightarrow> u32 option \<Rightarrow> u32 \<Rightarrow> u32 option \<Rightarrow> u32 \<Rightarrow> u32 \<Rightarrow> vhooks \<Rightarrow>
   nt_result \<times> virt_event list \<times> vhooks" where
  "Hooked_NtAllocateVirtualMemory env vs proc base zeroBits sz allocType protect v =
     (if passes_through env (vh_core v) \<or> h_mm (vh_core v) = None \<or> base = None \<or> sz = None
      then (let b = (case base of None \<Rightarrow> 0 | Some b \<Rightarrow> b); n = (case sz of None \<Rightarrow> 0 | Some n \<Rightarrow> n)
            in (vs_nt_alloc vs proc b zeroBits n allocType protect, [RealNtAlloc proc b n allocType protect], v))
      else (case nt_allocate_body env vs proc (the base) zeroBits (the sz) allocType protect (core enter_nt v) of
              (r, ev, v) \<Rightarrow> (r, ev, core leave_nt v)))"

definition Hooked_NtFreeVirtualMemory ::
  "hook_env \<Rightarrow> virt_sys \<Rightarrow> u32 \<Rightarrow> u32 option \<Rightarrow> u32 option \<Rightarrow> u32 \<Rightarrow> vhooks \<Rightarrow> nt_result \<times> virt_event list \<times> vhooks" where
  "Hooked_NtFreeVirtualMemory env vs proc base sz freeType v =
     (let n = (case sz of None \<Rightarrow> 0 | Some n \<Rightarrow> n)
      in case base of
           None \<Rightarrow> (vs_nt_free vs proc 0 n freeType, [RealNtFree proc 0 n freeType], v)
         | Some b \<Rightarrow>
             if passes_through env (vh_core v) \<or> h_mm (vh_core v) = None
             then (vs_nt_free vs proc b n freeType, [RealNtFree proc b n freeType], v)
             else (case release_ours env b freeType (enter_nt (vh_core v)) of
                     (True, ev, h) \<Rightarrow> ((0, 0, 0), ev, v\<lparr>vh_core := leave_nt h\<rparr>)
                   | (False, ev, h) \<Rightarrow>
                       (let r = vs_nt_free vs proc b n freeType
                        in (r, ev @ [RealNtFree proc b n freeType] @
                               (if NT_SUCCESS (fst r) \<and> b \<noteq> 0 then [EtwVirtualFree b n freeType False] else []),
                            v\<lparr>vh_core := leave_nt h\<rparr>))))"

text \<open>
  \<open>NtAllocateVirtualMemoryEx\<close> may be missing (then the call is not implemented); extended
  parameters exclude a redirection, and every call that does not pass through is an API event.
\<close>

definition nt_allocate_ex_body ::
  "hook_env \<Rightarrow> virt_sys \<Rightarrow> (u32 \<Rightarrow> u32 \<Rightarrow> u32 \<Rightarrow> u32 \<Rightarrow> u32 \<Rightarrow> nt_result) \<Rightarrow>
   u32 \<Rightarrow> u32 \<Rightarrow> u32 \<Rightarrow> u32 \<Rightarrow> u32 \<Rightarrow> bool \<Rightarrow> vhooks \<Rightarrow> nt_result \<times> virt_event list \<times> vhooks" where
  "nt_allocate_ex_body env vs f proc base sz allocType protect extended v =
     (let own = own_process vs proc;
          ev0 = (if own \<and> sz > 0 then va_mix env sz allocType protect else []);
          redirect = (own \<and> redirectable base sz allocType protect (vh_core v) \<and> \<not> extended);
          flags = push_bit 32 (ucast allocType :: u64) OR ucast protect
      in case (if redirect then redirect_slot env sz protect (vh_core v) else (0, [], vh_core v)) of
           (slot, reason, h) \<Rightarrow>
             let v = v\<lparr>vh_core := h\<rparr> in
             if slot \<noteq> 0
             then ((0, slot, sz),
                   ev0 @ [slot_assigned env slot sz protect, EtwVirtualAlloc base sz allocType protect slot True 2] @
                   game_reserve env ''NtAllocateVirtualMemoryEx'' base sz allocType protect True True @
                   [EtwApi ''NtAllocateVirtualMemoryEx'' [ucast proc, ucast base, ucast sz, flags] (ucast slot) (EmitApiHookNt 0)], v)
             else (case f proc base sz allocType protect of
                     (status, b, n) \<Rightarrow>
                       ((status, b, n),
                        ev0 @ [RealNtAlloc proc base sz allocType protect] @
                        (if \<not> redirect \<and> own \<and> n > 0 then not_redirected env ''NtAllocVMEx'' b allocType protect n else []) @
                        (if own \<and> n > 0
                         then game_reserve env ''NtAllocateVirtualMemoryEx'' base n allocType protect redirect False else []) @
                        (if NT_SUCCESS status \<and> own \<and> b \<noteq> 0
                         then [EtwVirtualAlloc base n allocType protect b False 2] else []) @
                        [EtwApi ''NtAllocateVirtualMemoryEx'' [ucast proc, ucast base, ucast n, flags] (ucast b) (EmitApiHookNt status)], v)))"

definition Hooked_NtAllocateVirtualMemoryEx ::
  "hook_env \<Rightarrow> virt_sys \<Rightarrow> u32 \<Rightarrow> u32 option \<Rightarrow> u32 option \<Rightarrow> u32 \<Rightarrow> u32 \<Rightarrow> bool \<Rightarrow> vhooks \<Rightarrow>
   nt_result \<times> virt_event list \<times> vhooks" where
  "Hooked_NtAllocateVirtualMemoryEx env vs proc base sz allocType protect extended v =
     (let b = (case base of None \<Rightarrow> 0 | Some b \<Rightarrow> b); n = (case sz of None \<Rightarrow> 0 | Some n \<Rightarrow> n)
      in case vs_nt_alloc_ex vs of
           None \<Rightarrow> ((STATUS_NOT_IMPLEMENTED, b, n), [], v)
         | Some f \<Rightarrow>
             if passes_through env (vh_core v) \<or> h_mm (vh_core v) = None \<or> base = None \<or> sz = None
             then (f proc b n allocType protect, [RealNtAlloc proc b n allocType protect], v)
             else (case nt_allocate_ex_body env vs f proc b n allocType protect extended (core enter_nt v) of
                     (r, ev, v) \<Rightarrow> (r, ev, core leave_nt v)))"

subsection \<open>The hooks that only observe\<close>

text \<open>
  The pattern of the remaining hooks: the real function is called, and unless the call passes
  through an event with four numbers and the result may be emitted.  \<open>real\<close> is the answer of the
  real function where it was resolved.
\<close>

definition observe ::
  "hook_env \<Rightarrow> virt_sys \<Rightarrow> api \<Rightarrow> string \<Rightarrow> 'r option \<Rightarrow> 'r \<Rightarrow> ('r \<Rightarrow> u64 list) \<Rightarrow> ('r \<Rightarrow> u64) \<Rightarrow> ('r \<Rightarrow> bool) \<Rightarrow> vhooks \<Rightarrow>
   'r \<times> virt_event list \<times> vhooks" where
  "observe env vs a name real absent args res ok v =
     (case real of
        None \<Rightarrow> (absent, [], v)
      | Some r \<Rightarrow>
          if passes_through env (vh_core v) then (r, [RealCall name (args r)], v)
          else (case EmitApiHookWin32 (me_getenv (he_mm env) ''TS3VAS_ETW_VERBOSE_NOISY_API'')
                       (me_getenv (he_mm env) ''TS3VAS_ETW_NOISY_SAMPLE_POW2'') a (vs_last_error vs) (ok r) (vh_etw v) of
                  (st, e, gle) \<Rightarrow>
                    (r, [RealCall name (args r)] @ (case st of None \<Rightarrow> [] | Some s \<Rightarrow> [EtwApi name (args r) (res r) s]),
                     core (leave_scope \<circ> enter_scope) (v\<lparr>vh_etw := e\<rparr>))))"

definition flag :: "bool \<Rightarrow> u64" where "flag b = (if b then 1 else 0)"

definition pack :: "u32 \<Rightarrow> u32 \<Rightarrow> u64" where "pack hi lo = push_bit 32 (ucast hi) OR ucast lo"

definition Hooked_VirtualAllocEx where
  "Hooked_VirtualAllocEx env vs real proc a sz allocType protect =
     observe env vs OtherApi ''VirtualAllocEx'' real (0 :: u32)
       (\<lambda>r. [ucast (proc :: u32), ucast (a :: u32), ucast (sz :: u32), pack allocType protect]) ucast (\<lambda>r. r \<noteq> 0)"

definition Hooked_VirtualFreeEx where
  "Hooked_VirtualFreeEx env vs real proc a sz freeType =
     observe env vs OtherApi ''VirtualFreeEx'' real False
       (\<lambda>r. [ucast (proc :: u32), ucast (a :: u32), ucast (sz :: u32), ucast (freeType :: u32)]) flag id"

text \<open>The answer of a protection change has the old protection when the caller gave a cell for it.\<close>

definition old_protect :: "bool \<times> u32 option \<Rightarrow> u64" where
  "old_protect r = (case r of (True, Some p) \<Rightarrow> ucast p | _ \<Rightarrow> 0)"

definition Hooked_VirtualProtect where
  "Hooked_VirtualProtect env vs real a sz protect =
     observe env vs OtherApi ''VirtualProtect'' real (False, None)
       (\<lambda>r. [ucast (a :: u32), ucast (sz :: u32), ucast (protect :: u32), old_protect r]) (flag \<circ> fst) fst"

definition Hooked_VirtualProtectEx where
  "Hooked_VirtualProtectEx env vs real proc a sz protect =
     observe env vs OtherApi ''VirtualProtectEx'' real (False, None)
       (\<lambda>r. [ucast (proc :: u32), ucast (a :: u32), ucast (sz :: u32), push_bit 32 (ucast (protect :: u32)) OR old_protect r])
       (flag \<circ> fst) fst"

definition Hooked_VirtualQuery where
  "Hooked_VirtualQuery env vs real a buf len =
     observe env vs VirtualQuery ''VirtualQuery'' real (0 :: u32)
       (\<lambda>r. [ucast (a :: u32), ucast (buf :: u32), ucast (len :: u32), 0]) ucast (\<lambda>r. r \<noteq> 0)"

definition Hooked_VirtualQueryEx where
  "Hooked_VirtualQueryEx env vs real proc a buf len =
     observe env vs VirtualQueryEx ''VirtualQueryEx'' real (0 :: u32)
       (\<lambda>r. [ucast (proc :: u32), ucast (a :: u32), ucast (buf :: u32), ucast (len :: u32)]) ucast (\<lambda>r. r \<noteq> 0)"

definition Hooked_VirtualLock where
  "Hooked_VirtualLock env vs real a sz =
     observe env vs OtherApi ''VirtualLock'' real False (\<lambda>r. [ucast (a :: u32), ucast (sz :: u32), 0, 0]) flag id"

definition Hooked_VirtualUnlock where
  "Hooked_VirtualUnlock env vs real a sz =
     observe env vs OtherApi ''VirtualUnlock'' real False (\<lambda>r. [ucast (a :: u32), ucast (sz :: u32), 0, 0]) flag id"

definition Hooked_VirtualAlloc2 where
  "Hooked_VirtualAlloc2 env vs real proc a sz allocType protect =
     observe env vs OtherApi ''VirtualAlloc2'' real (0 :: u32)
       (\<lambda>r. [ucast (proc :: u32), ucast (a :: u32), ucast (sz :: u32), pack allocType protect]) ucast (\<lambda>r. r \<noteq> 0)"

definition Hooked_VirtualAllocFromApp where
  "Hooked_VirtualAllocFromApp env vs real a sz allocType protect =
     observe env vs OtherApi ''VirtualAllocFromApp'' real (0 :: u32)
       (\<lambda>r. [ucast (a :: u32), ucast (sz :: u32), ucast (allocType :: u32), ucast (protect :: u32)]) ucast (\<lambda>r. r \<noteq> 0)"

definition Hooked_VirtualAlloc2FromApp where
  "Hooked_VirtualAlloc2FromApp env vs real proc a sz allocType protect =
     observe env vs OtherApi ''VirtualAlloc2FromApp'' real (0 :: u32)
       (\<lambda>r. [ucast (proc :: u32), ucast (a :: u32), ucast (sz :: u32), pack allocType protect]) ucast (\<lambda>r. r \<noteq> 0)"

end
