(* ===== verification/KernelHeap.thy ===== *)
theory KernelHeap
  imports VirtualHooks
begin

section \<open>The kernel-level heap hooks\<close>

text \<open>
  \<open>HeapAlloc\<close>, \<open>HeapFree\<close>, \<open>HeapReAlloc\<close> and \<open>HeapSize\<close> of \<open>WorkingHooks.cpp\<close> answer a heap call
  from the shards, the arena or the system like the hooks one level below, with guards of their
  own.  The \<open>Global\<close> and \<open>Local\<close> functions run with the in-hook mark set, so that the heap calls
  inside them pass through.  The other heap functions are only observed.  The requests
  \<open>RealAlloc\<close>, \<open>RealFree\<close> and \<open>RealReAlloc\<close> are here those to the kernel's functions.
\<close>

subsection \<open>State\<close>

record kheap =
  kh_v :: vhooks
  s_heapFreeOkCount :: u64

abbreviation kcore :: "kheap \<Rightarrow> hooks" where "kcore k \<equiv> vh_core (kh_v k)"

text \<open>The real functions, where they could be resolved.\<close>

record kernel_sys =
  ks_alloc :: "(u32 \<Rightarrow> u32 \<Rightarrow> u32 \<Rightarrow> u32) option"
  ks_free :: "(u32 \<Rightarrow> u32 \<Rightarrow> u32 \<Rightarrow> bool) option"
  ks_realloc :: "(u32 \<Rightarrow> u32 \<Rightarrow> u32 \<Rightarrow> u32 \<Rightarrow> u32) option"
  ks_size :: "(u32 \<Rightarrow> u32 \<Rightarrow> u32 \<Rightarrow> u32) option"

datatype kernel_event =
    Virt virt_event
  | HeapLine string u32 u32 u32 u32 u32
  | HeapFreeFailed u32 u32 u32

abbreviation khook :: "hook_event list \<Rightarrow> kernel_event list" where
  "khook ev \<equiv> map (Virt \<circ> Hook) ev"

subsection \<open>HeapAlloc\<close>

text \<open>As in the hook below, but the callers from audio modules are not asked for.\<close>

definition kernel_sardine_wanted :: "hook_env \<Rightarrow> u32 \<Rightarrow> u32 \<Rightarrow> hooks \<Rightarrow> bool \<times> hooks" where
  "kernel_sardine_wanted env heap sz h =
     (if ProxyHeapOn (h_heaps h) \<and> sz > 0 \<and> sz < kHeapSubAllocMax \<and> \<not> ProxyHeapIsExecHeap heap (s_execHeaps h) \<and>
         \<not> HeapIsSardineExcluded (h_csInit h) heap (h_use h)
      then (case CallerIsGraphicsModule (he_ld env) (h_csInit h) (he_ra env) (h_mods h) of
              (g, mods) \<Rightarrow> (\<not> g, h\<lparr>h_mods := mods\<rparr>))
      else (False, h))"

definition kernel_sardine :: "hook_env \<Rightarrow> u32 \<Rightarrow> u32 \<Rightarrow> u32 \<Rightarrow> hooks \<Rightarrow> u32 \<times> hook_event list \<times> hooks" where
  "kernel_sardine env heap flags sz h =
     (case kernel_sardine_wanted env heap sz h of
        (False, h) \<Rightarrow> (0, [], h)
      | (True, h) \<Rightarrow>
          (case ProxyHeapAlloc (he_sys env) flags sz (h_heaps h) of
             (hp, reqs, ph) \<Rightarrow>
               let h = h\<lparr>h_heaps := ph\<rparr> in
               if hp = 0 then (0, map Ask reqs, h)
               else (let ev = map Ask reqs @ tally env ''ProxyHeap_Alloc'' 1 @ tally env ''ProxyHeap_AllocBytes'' (ucast sz)
                     in if s_sardineLossProbe ph
                        then (case ProxyHeapSize (he_sys env) 0 hp ph of
                                (act, reqs') \<Rightarrow>
                                  (hp, ev @ map Ask reqs',
                                   if act \<noteq> - 1 then h\<lparr>h_heaps := RecordSardineLoss sz act ph\<rparr> else h))
                        else (hp, ev, h))))"

text \<open>A slot of the arena, in the force-heap mode only.\<close>

definition kernel_create :: "hook_env \<Rightarrow> u32 \<Rightarrow> hooks \<Rightarrow> u32 \<times> hook_event list \<times> hooks" where
  "kernel_create env sz h =
     (if h_mm h \<noteq> None \<and> sz \<ge> kForceHeapProxyMinSize env \<and> IsProxyActive (h_control h) \<and> c_forceHeap (h_control h)
      then create_on env sz PAGE_READWRITE LANE_CONTAINED_A h else (0, [], h))"

definition kernel_alloc_body ::
  "hook_env \<Rightarrow> (u32 \<Rightarrow> u32 \<Rightarrow> u32 \<Rightarrow> u32) \<Rightarrow> u32 \<Rightarrow> u32 \<Rightarrow> u32 \<Rightarrow> hooks \<Rightarrow> u32 \<times> hook_event list \<times> hooks" where
  "kernel_alloc_body env f heap flags sz h =
     (case RecordHeapUse (he_ld env) (h_csInit h) heap sz (he_ra env) (h_use h) of
        (target, use) \<Rightarrow>
          (case kernel_sardine env heap flags sz (h\<lparr>h_use := use\<rparr>) of
             (p, ev1, h) \<Rightarrow>
               if p \<noteq> 0 then (p, ev1, h)
               else (case kernel_create env sz h of
                       (p, ev2, h) \<Rightarrow>
                         if p \<noteq> 0 then (p, ev1 @ ev2, h)
                         else (f heap flags sz, ev1 @ ev2 @ [RealAlloc heap flags sz], h))))"

definition large_line :: "hook_env \<Rightarrow> string \<Rightarrow> u32 \<Rightarrow> u32 \<Rightarrow> u32 \<Rightarrow> u32 \<Rightarrow> u32 \<Rightarrow> kernel_event list" where
  "large_line env name heap flags old sz p =
     (if me_logger (he_mm env) \<and> sz \<ge> HEAP_CAPTURE_THRESHOLD then [HeapLine name heap flags old sz p] else [])"

definition Hooked_HeapAlloc ::
  "hook_env \<Rightarrow> kernel_sys \<Rightarrow> u32 \<Rightarrow> u32 \<Rightarrow> u32 \<Rightarrow> hooks \<Rightarrow> u32 \<times> kernel_event list \<times> hooks" where
  "Hooked_HeapAlloc env ks heap flags sz h =
     (case ks_alloc ks of
        None \<Rightarrow> (0, [], h)
      | Some f \<Rightarrow>
          if passes_through env h then (f heap flags sz, khook [RealAlloc heap flags sz], h)
          else (case kernel_alloc_body env f heap flags sz (enter_scope h) of
                  (p, ev, h) \<Rightarrow> (p, khook ev @ large_line env ''HeapAlloc'' heap flags 0 sz p, leave_scope h)))"

subsection \<open>HeapFree\<close>

definition Hooked_HeapFree ::
  "hook_env \<Rightarrow> kernel_sys \<Rightarrow> u32 \<Rightarrow> u32 \<Rightarrow> u32 \<Rightarrow> kheap \<Rightarrow> bool \<times> kernel_event list \<times> kheap" where
  "Hooked_HeapFree env ks heap flags p k =
     (let h = kcore k; back = (\<lambda>h. k\<lparr>kh_v := (kh_v k)\<lparr>vh_core := h\<rparr>\<rparr>)
      in case (if p \<noteq> 0 then ProxyHeapFree (he_sys env) flags p (h_heaps h) else (False, [])) of
           (True, reqs) \<Rightarrow> (True, khook (map Ask reqs @ tally env ''ProxyHeap_Free'' 1), k)
         | (False, _) \<Rightarrow>
             if p \<noteq> 0 \<and> is_arena_address p h
             then (case free_on env p h of (b, ev, h) \<Rightarrow> (True, khook (ev @ tally env ''HeapFree_Proxy'' 1), back h))
             else (case ks_free ks of
                     None \<Rightarrow> (False, [], k)
                   | Some f \<Rightarrow>
                       if passes_through env h then (f heap flags p, khook [RealFree heap flags p], k)
                       else (let ok = f heap flags p; lg = me_logger (he_mm env);
                                 k = (back (leave_scope (enter_scope h)))
                             in (ok, khook [RealFree heap flags p] @ (if lg \<and> \<not> ok then [HeapFreeFailed heap flags p] else []),
                                 if lg \<and> ok then k\<lparr>s_heapFreeOkCount := s_heapFreeOkCount k + 1\<rparr> else k))))"

subsection \<open>HeapSize and HeapReAlloc\<close>

text \<open>Only a shard's block is looked up; a block of the arena is not.\<close>

definition Hooked_HeapSize ::
  "hook_env \<Rightarrow> virt_sys \<Rightarrow> kernel_sys \<Rightarrow> u32 \<Rightarrow> u32 \<Rightarrow> u32 \<Rightarrow> vhooks \<Rightarrow> u32 \<times> virt_event list \<times> vhooks" where
  "Hooked_HeapSize env vs ks heap flags p v =
     (if p \<noteq> 0 \<and> ProxyHeapShardOf p (h_heaps (vh_core v)) \<noteq> None
      then (case ProxyHeapSize (he_sys env) flags p (h_heaps (vh_core v)) of (n, reqs) \<Rightarrow> (n, map (Hook \<circ> Ask) reqs, v))
      else observe env vs HeapSizeApi ''HeapSize'' (map_option (\<lambda>f. f heap flags p) (ks_size ks)) (- 1)
             (\<lambda>r. [ucast heap, ucast flags, ucast p, 0]) ucast (\<lambda>r. r \<noteq> - 1) v)"

text \<open>
  A block of the system's heap is moved to the arena: as many bytes as its old size, which the
  system is asked for, and the new one have in common; none when the size is not known.
\<close>

definition capture_move ::
  "hook_env \<Rightarrow> kernel_sys \<Rightarrow> u32 \<Rightarrow> u32 \<Rightarrow> u32 \<Rightarrow> u32 \<Rightarrow> u32 \<Rightarrow> hook_event list option" where
  "capture_move env ks heap flags old sz p =
     (if p = 0 \<or> old = 0 then Some []
      else (let oldSize = (case ks_size ks of None \<Rightarrow> - 1 | Some f \<Rightarrow> f heap flags old)
            in case ks_free ks of
                 None \<Rightarrow> None
               | Some _ \<Rightarrow> Some ((if oldSize \<noteq> - 1 then [CopyBytes p old (min oldSize sz)] else []) @ [RealFree heap flags old])))"

text \<open>A block of the arena is moved as in the hook below; no counter is kept of it.\<close>

definition kernel_move ::
  "hook_env \<Rightarrow> (u32 \<Rightarrow> u32 \<Rightarrow> u32 \<Rightarrow> u32) \<Rightarrow> u32 \<Rightarrow> u32 \<Rightarrow> u32 \<Rightarrow> u32 \<Rightarrow> hooks \<Rightarrow> u32 \<times> hook_event list \<times> hooks" where
  "kernel_move env f heap flags p sz h =
     (case (if in_capture_range env h sz \<and> IsProxyActive (h_control h) \<and> \<not> IsShuttingDown (h_control h)
            then create_on env sz PAGE_READWRITE LANE_CONTAINED_A h else (0, [], h)) of
        (q, ev, h) \<Rightarrow>
          let (q, ev) = (if q \<noteq> 0 then (q, ev) else (f heap flags sz, ev @ [RealAlloc heap flags sz]));
              copy = (case h_mm h of None \<Rightarrow> [] | Some (m, g) \<Rightarrow>
                        (case FindRecordByAddress p m of
                           None \<Rightarrow> []
                         | Some r \<Rightarrow> if q \<noteq> 0 \<and> proxy_base r \<noteq> 0 \<and> proxy_size r > 0 \<and> sz > 0
                                     then [CopyBytes q (proxy_base r) (min (proxy_size r) sz)] else []))
          in (case free_on env p h of (b, ev', h) \<Rightarrow> (q, ev @ copy @ ev', h)))"

text \<open>\<open>None\<close>: a real function that is called without a test could not be resolved, and the process ends.\<close>

definition Hooked_HeapReAlloc ::
  "hook_env \<Rightarrow> kernel_sys \<Rightarrow> u32 \<Rightarrow> u32 \<Rightarrow> u32 \<Rightarrow> u32 \<Rightarrow> hooks \<Rightarrow> (u32 \<times> kernel_event list \<times> hooks) option" where
  "Hooked_HeapReAlloc env ks heap flags p sz h =
     (if p \<noteq> 0 \<and> ProxyHeapShardOf p (h_heaps h) \<noteq> None
      then (case ProxyHeapReAlloc (he_sys env) flags p sz (h_heaps h) of (q, reqs) \<Rightarrow> Some (q, khook (map Ask reqs), h))
      else if p \<noteq> 0 \<and> is_arena_address p h
      then (case ks_alloc ks of
              None \<Rightarrow> None
            | Some f \<Rightarrow> (case kernel_move env f heap flags p sz h of
                          (q, ev, h) \<Rightarrow> Some (q, khook ev, h)))
      else (case ks_realloc ks of
              None \<Rightarrow> Some (0, [], h)
            | Some f \<Rightarrow>
                if passes_through env h then Some (f heap flags p sz, khook [RealReAlloc heap flags p sz], h)
                else (case kernel_create env sz (enter_scope h) of
                        (q, ev, h) \<Rightarrow>
                          (case capture_move env ks heap flags p sz q of
                             None \<Rightarrow> None
                           | Some ev' \<Rightarrow>
                               (let (q, ev'') = (if q \<noteq> 0 then (q, []) else (f heap flags p sz, [RealReAlloc heap flags p sz]))
                                in Some (q, khook (ev @ ev' @ ev'') @ large_line env ''HeapReAlloc'' heap flags p sz q,
                                         leave_scope h))))))"

subsection \<open>Global and Local functions\<close>

text \<open>
  The mark is set around the real function and restored.  The real function is a step on the
  state, because the heap calls it makes come back through the hooks.
\<close>

definition suppressed :: "(vhooks \<Rightarrow> u32 \<times> vhooks) option \<Rightarrow> vhooks \<Rightarrow> u32 \<times> vhooks" where
  "suppressed real v =
     (case real of
        None \<Rightarrow> (0, v)
      | Some f \<Rightarrow>
          (let was = h_inHook (vh_core v);
               v = (if was then v else core (\<lambda>h. h\<lparr>h_inHook := True\<rparr>) v);
               (r, v) = f v
           in (r, if was then v else core (\<lambda>h. h\<lparr>h_inHook := False\<rparr>) v)))"

definition Hooked_GlobalAlloc where
  "Hooked_GlobalAlloc real flags n v = suppressed (map_option (\<lambda>f. f (flags :: u32) (n :: u32)) real) v"

definition Hooked_GlobalReAlloc where
  "Hooked_GlobalReAlloc real m n flags v = suppressed (map_option (\<lambda>f. f (m :: u32) (n :: u32) (flags :: u32)) real) v"

definition Hooked_LocalAlloc where
  "Hooked_LocalAlloc real flags n v = suppressed (map_option (\<lambda>f. f (flags :: u32) (n :: u32)) real) v"

definition Hooked_LocalReAlloc where
  "Hooked_LocalReAlloc real m n flags v = suppressed (map_option (\<lambda>f. f (m :: u32) (n :: u32) (flags :: u32)) real) v"

subsection \<open>The heap functions that are only observed\<close>

definition Hooked_HeapCreate where
  "Hooked_HeapCreate env vs real options initial maximum =
     observe env vs OtherApi ''HeapCreate'' real (0 :: u32)
       (\<lambda>r. [ucast (options :: u32), ucast (initial :: u32), ucast (maximum :: u32), 0]) ucast (\<lambda>r. r \<noteq> 0)"

definition Hooked_HeapDestroy where
  "Hooked_HeapDestroy env vs real heap =
     observe env vs OtherApi ''HeapDestroy'' real False (\<lambda>r. [ucast (heap :: u32), 0, 0, 0]) flag id"

definition Hooked_HeapValidate where
  "Hooked_HeapValidate env vs real heap flags p =
     observe env vs OtherApi ''HeapValidate'' real False
       (\<lambda>r. [ucast (heap :: u32), ucast (flags :: u32), ucast (p :: u32), 0]) flag id"

definition Hooked_HeapCompact where
  "Hooked_HeapCompact env vs real heap flags =
     observe env vs OtherApi ''HeapCompact'' real (0 :: u32)
       (\<lambda>r. [ucast (heap :: u32), ucast (flags :: u32), 0, 0]) ucast (\<lambda>r. r \<noteq> 0)"

definition Hooked_HeapWalk where
  "Hooked_HeapWalk env vs real heap entry =
     observe env vs OtherApi ''HeapWalk'' real False (\<lambda>r. [ucast (heap :: u32), ucast (entry :: u32), 0, 0]) flag id"

definition Hooked_HeapLock where
  "Hooked_HeapLock env vs real heap =
     observe env vs OtherApi ''HeapLock'' real False (\<lambda>r. [ucast (heap :: u32), 0, 0, 0]) flag id"

definition Hooked_HeapUnlock where
  "Hooked_HeapUnlock env vs real heap =
     observe env vs OtherApi ''HeapUnlock'' real False (\<lambda>r. [ucast (heap :: u32), 0, 0, 0]) flag id"

end
