(* ===== verification/VirtualHookProps.thy ===== *)
theory VirtualHookProps
  imports VirtualHooks ShardProps HeapBlocks
begin

section \<open>What the virtual-memory hooks promise\<close>

text \<open>
  The heap hooks and the virtual-memory hooks share one arena.  Whatever sequence of them runs,
  the records of the heap hooks, the redirected slots and the slots of others stay apart; a
  redirected slot is lost only when its table is full.  A redirected reserve is released by
  \<open>VirtualFree\<close>.  The native hooks leave their thread marked.
\<close>

subsection \<open>The heap hooks leave the redirected slots alone\<close>

lemma create_on_vat: "create_on env sz protect ln h = (p, ev, h') \<Longrightarrow> h_vat h' = h_vat h"
  by (auto simp: create_on_def split: option.splits prod.splits)

lemma free_on_vat: "free_on env p h = (b, ev, h') \<Longrightarrow> h_vat h' = h_vat h"
  by (auto simp: free_on_def split: option.splits prod.splits)

lemma activate_vat [simp]: "h_vat (activate h) = h_vat h"
  by (simp add: activate_def)

lemma corral_stage_vat: "corral_stage env target sz h = (p, ev, h') \<Longrightarrow> h_vat h' = h_vat h"
  by (auto simp: corral_stage_def Let_def dest!: create_on_vat split: if_splits prod.splits)

lemma sardine_stage_vat:
  assumes "sardine_stage env heap flags sz h = (p, ev, h')"
  shows "h_vat h' = h_vat h"
proof -
  obtain b h1 where w: "sardine_wanted env heap sz h = (b, h1)" by (cases "sardine_wanted env heap sz h")
  obtain hp reqs ph where a: "ProxyHeapAlloc (he_sys env) flags sz (h_heaps h1) = (hp, reqs, ph)" by (metis prod_cases3)
  have "h_vat h1 = h_vat h" using sardine_wanted_mm [OF w] by auto
  then show ?thesis using assms unfolding sardine_stage_def w
    by (cases b; cases "hp = 0"; cases "s_sardineLossProbe ph") (simp_all add: a Let_def split: prod.splits if_splits, auto)
qed

lemma large_lines_vat: "large_lines env k m h = (ev, h') \<Longrightarrow> h_vat h' = h_vat h"
  by (auto simp: large_lines_def Let_def)

lemma grant_events_vat: "grant_events env m sz p h = (ev, h') \<Longrightarrow> h_vat h' = h_vat h"
  by (auto simp: grant_events_def Let_def split: if_splits prod.splits)

lemma large_stage_vat: "large_stage env sz h = (p, ev, h') \<Longrightarrow> h_vat h' = h_vat h"
  by (auto simp: large_stage_def Let_def dest!: large_lines_vat create_on_vat grant_events_vat split: if_splits prod.splits)

lemma alloc_body_vat: "alloc_body env heap flags sz h = (p, ev, h') \<Longrightarrow> h_vat h' = h_vat h"
  by (auto simp: alloc_body_def Let_def dest!: corral_stage_vat sardine_stage_vat large_stage_vat split: if_splits prod.splits)

lemma move_block_vat: "move_block env heap flags p sz h = (q, ev, h') \<Longrightarrow> h_vat h' = h_vat h"
  by (auto simp: move_block_def Let_def dest!: create_on_vat free_on_vat split: if_splits prod.splits)

lemma heap_do_vat: "h_vat (heap_do c h) = h_vat h"
proof (cases c)
  case (CallCreate env flags answer)
  then show ?thesis
    by (auto simp: Hooked_RtlCreateHeap_def Let_def enter_hook_def leave_hook_def split: option.splits if_splits prod.splits)
next
  case (CallAlloc env heap flags sz)
  then show ?thesis
    by (auto simp: Hooked_RtlAllocateHeap_def enter_hook_def leave_hook_def dest!: alloc_body_vat split: prod.splits)
next
  case (CallFree env heap flags p)
  then show ?thesis
    by (auto simp: Hooked_RtlFreeHeap_def Let_def enter_hook_def leave_hook_def dest!: free_on_vat split: prod.splits bool.splits)
next
  case (CallReAlloc env heap flags p sz)
  obtain q ev h1 where m: "move_block env heap flags p sz h = (q, ev, h1)" by (metis prod_cases3)
  then show ?thesis
    using CallReAlloc move_block_vat [OF m]
    by (auto simp: Hooked_RtlReAllocateHeap_def Let_def enter_hook_def leave_hook_def split: prod.split)
qed

subsection \<open>One arena for both\<close>

text \<open>The redirected slots are \<open>h_vat\<close> and \<open>lost\<close>: those that found their table full.\<close>

definition vworld :: "hooks \<Rightarrow> (u32 \<times> u32) list \<Rightarrow> (u32 \<times> u32) list \<Rightarrow> bool" where
  "vworld h lost ext \<longleftrightarrow> world h (h_vat h @ lost @ ext)"

definition vstep ::
  "hooks \<Rightarrow> (u32 \<times> u32) list \<Rightarrow> (u32 \<times> u32) list \<Rightarrow> hooks \<Rightarrow> (u32 \<times> u32) list \<Rightarrow> bool" where
  "vstep h lost ext h' lost' \<longleftrightarrow> vworld h' lost' ext \<and> arena_geo h' = arena_geo h \<and>
     s_proxyHeaps (h_heaps h') = s_proxyHeaps (h_heaps h) \<and>
     length (h_vat h') + length lost' \<le> Suc (length (h_vat h) + length lost) \<and>
     (lost' = lost \<or> kVatMax \<le> length (h_vat h) \<and> length lost' = Suc (length lost))"

lemma mm_with_mset:
  assumes "mm_with m e" "mset e = mset e'"
  shows "mm_with m e'"
  using assms pa_inv_mset [of "m_proxyAllocator m" "mm_sizes (m_allocations m) @ e" "mm_sizes (m_allocations m) @ e'"]
  by (simp add: mm_with_def)

lemma mm_with_allocate:
  assumes "mm_with m e" "req_ok (m_allocGranularity (m_proxyAllocator m)) sz"
    "Allocate sz fromTop (m_proxyAllocator m) = (p, pa)"
  shows "mm_with (m\<lparr>m_proxyAllocator := pa\<rparr>) (if p = 0 then e else (p, sz) # e)"
    "m_allocGranularity pa = m_allocGranularity (m_proxyAllocator m)" "m_arenaBase pa = m_arenaBase (m_proxyAllocator m)"
    "m_arenaSize pa = m_arenaSize (m_proxyAllocator m)"
proof -
  have i: "pa_inv (m_proxyAllocator m) (mm_sizes (m_allocations m) @ e)" using assms(1) by (simp add: mm_with_def)
  note st = Allocate_step [OF i assms(2,3)]
  have "pa_inv pa (mm_sizes (m_allocations m) @ (p, sz) # e)" if "p \<noteq> 0"
    using pa_inv_mset [OF st(1) [OF that]] by simp
  then show "mm_with (m\<lparr>m_proxyAllocator := pa\<rparr>) (if p = 0 then e else (p, sz) # e)"
    using assms(1) st(2) by (simp add: mm_with_def)
  show "m_allocGranularity pa = m_allocGranularity (m_proxyAllocator m)" "m_arenaBase pa = m_arenaBase (m_proxyAllocator m)"
    "m_arenaSize pa = m_arenaSize (m_proxyAllocator m)" using st(3) by auto
qed

lemma mm_with_free:
  assumes "mm_with m ((p, sz) # e)"
  shows "mm_with (m\<lparr>m_proxyAllocator := Free p sz (m_proxyAllocator m)\<rparr>) e"
    "m_allocGranularity (Free p sz (m_proxyAllocator m)) = m_allocGranularity (m_proxyAllocator m)"
    "m_arenaBase (Free p sz (m_proxyAllocator m)) = m_arenaBase (m_proxyAllocator m)"
    "m_arenaSize (Free p sz (m_proxyAllocator m)) = m_arenaSize (m_proxyAllocator m)"
proof -
  have i: "pa_inv (m_proxyAllocator m) ((p, sz) # mm_sizes (m_allocations m) @ e)"
    using assms pa_inv_mset [of _ "mm_sizes (m_allocations m) @ (p, sz) # e"] by (simp add: mm_with_def)
  have mem: "(p, sz) \<in> set ((p, sz) # mm_sizes (m_allocations m) @ e)" by simp
  note st = Free_step [OF i mem]
  show "mm_with (m\<lparr>m_proxyAllocator := Free p sz (m_proxyAllocator m)\<rparr>) e"
    using assms st(1) by (simp add: mm_with_def)
  show "m_allocGranularity (Free p sz (m_proxyAllocator m)) = m_allocGranularity (m_proxyAllocator m)"
    "m_arenaBase (Free p sz (m_proxyAllocator m)) = m_arenaBase (m_proxyAllocator m)"
    "m_arenaSize (Free p sz (m_proxyAllocator m)) = m_arenaSize (m_proxyAllocator m)" using st(2) by auto
qed

text \<open>A slot that is handed out and given back leaves the arena's live slots as they were.\<close>

lemma redirect_slot_step:
  assumes w: "vworld h lost ext" and sz: "size_ok h sz" "sz > 0" and r: "redirect_slot env sz protect h = (p, reason, h')"
  shows "vstep h lost ext h' (if p \<noteq> 0 \<and> kVatMax \<le> length (h_vat h) then (p, sz) # lost else lost)"
    "h_vat h' = (if p = 0 then h_vat h else VatTrack (p, sz) (h_vat h))"
    "h' = h\<lparr>h_mm := h_mm h', h_vat := h_vat h'\<rparr>"
proof -
  let ?e = "h_vat h @ lost @ ext"
  obtain m g where m: "h_mm h = Some (m, g)" "mm_with m ?e" using w by (auto simp: vworld_def world_def)
  let ?pa = "m_proxyAllocator m"
  obtain slot pa where a: "Allocate sz (PrefersTopDown sz ?pa) ?pa = (slot, pa)" by (metis prod.exhaust)
  have q: "req_ok (m_allocGranularity ?pa) sz"
    using sz m by (auto simp: size_ok_def arena_geo_def the_mm_def req_ok_def unat_gt_0 Let_def)
  note al = mm_with_allocate [OF m(2) q a]
  consider (served) "slot \<noteq> 0" "me_commit (he_mm env) slot sz protect" | (undone) "slot \<noteq> 0" "\<not> me_commit (he_mm env) slot sz protect"
    | (dry) "slot = 0" by blast
  then have "vstep h lost ext h' (if p \<noteq> 0 \<and> kVatMax \<le> length (h_vat h) then (p, sz) # lost else lost) \<and>
    h_vat h' = (if p = 0 then h_vat h else VatTrack (p, sz) (h_vat h)) \<and> h' = h\<lparr>h_mm := h_mm h', h_vat := h_vat h'\<rparr>"
  proof cases
    case served
    then have e: "p = slot" "h' = h\<lparr>h_mm := Some (m\<lparr>m_proxyAllocator := pa\<rparr>, g), h_vat := VatTrack (slot, sz) (h_vat h)\<rparr>"
      using r m a by (auto simp: redirect_slot_def)
    let ?lost = "if kVatMax \<le> length (h_vat h) then (p, sz) # lost else lost"
    have "mm_with (m\<lparr>m_proxyAllocator := pa\<rparr>) (h_vat h' @ ?lost @ ext)"
      by (rule mm_with_mset [OF al(1)]) (simp add: e served VatTrack_def)
    then show ?thesis using e served al(2-4) m
      by (auto simp: vstep_def vworld_def world_def arena_geo_def the_mm_def VatTrack_def)
  next
    case undone
    then have e: "p = 0" "h' = h\<lparr>h_mm := Some (m\<lparr>m_proxyAllocator := Free slot sz pa\<rparr>, g)\<rparr>"
      using r m a by (auto simp: redirect_slot_def)
    have "mm_with (m\<lparr>m_proxyAllocator := pa\<rparr>) ((slot, sz) # ?e)" using al(1) undone by simp
    from mm_with_free [OF this] show ?thesis using e al(2-4) m
      by (auto simp: vstep_def vworld_def world_def arena_geo_def the_mm_def)
  next
    case dry
    then have e: "p = 0" "h' = h\<lparr>h_mm := Some (m\<lparr>m_proxyAllocator := pa\<rparr>, g)\<rparr>"
      using r m a by (auto simp: redirect_slot_def)
    then show ?thesis using dry al m
      by (auto simp: vstep_def vworld_def world_def arena_geo_def the_mm_def)
  qed
  then show "vstep h lost ext h' (if p \<noteq> 0 \<and> kVatMax \<le> length (h_vat h) then (p, sz) # lost else lost)"
    "h_vat h' = (if p = 0 then h_vat h else VatTrack (p, sz) (h_vat h))" "h' = h\<lparr>h_mm := h_mm h', h_vat := h_vat h'\<rparr>"
    by auto
qed

subsection \<open>Releases\<close>

lemma mm_with_same:
  assumes "m_allocations m' = m_allocations m" "m_proxyAllocator m' = m_proxyAllocator m"
  shows "mm_with m' e = mm_with m e"
  using assms by (simp add: mm_with_def)

text \<open>Steps outside the arena: the diagnostic table and the script arena.\<close>

lemma vstep_same:
  assumes "vworld h lost ext" "h_vat h' = h_vat h" "s_proxyHeaps (h_heaps h') = s_proxyHeaps (h_heaps h)"
    "h_mm h' = h_mm h \<or> (\<exists>m g m'. h_mm h = Some (m, g) \<and> h_mm h' = Some (m', g) \<and>
       m_allocations m' = m_allocations m \<and> m_proxyAllocator m' = m_proxyAllocator m)"
  shows "vstep h lost ext h' lost"
  using assms(4)
proof
  assume "h_mm h' = h_mm h"
  then show ?thesis using assms(1-3) same_mm(1) [of h' h] same_mm(4) [of h' h] by (simp add: vstep_def vworld_def)
next
  assume "\<exists>m g m'. h_mm h = Some (m, g) \<and> h_mm h' = Some (m', g) \<and>
       m_allocations m' = m_allocations m \<and> m_proxyAllocator m' = m_proxyAllocator m"
  then obtain m g m' where m: "h_mm h = Some (m, g)" "h_mm h' = Some (m', g)"
    "m_allocations m' = m_allocations m" "m_proxyAllocator m' = m_proxyAllocator m" by blast
  show ?thesis using assms(1-3) m mm_with_same [OF m(3,4)] by (simp add: vstep_def vworld_def world_def arena_geo_def the_mm_def)
qed

lemma vstep_refl: "vworld h lost ext \<Longrightarrow> vstep h lost ext h lost"
  by (rule vstep_same) simp_all

lemma AddCorralSegment_frame:
  "AddCorralSegment env sz m = (b, ev, m') \<Longrightarrow> m_allocations m' = m_allocations m \<and> m_proxyAllocator m' = m_proxyAllocator m"
  by (auto simp: AddCorralSegment_def Let_def split: prod.splits if_splits option.splits)

lemma corral_slot_frame:
  "corral_slot env sz m = (p, i, ev, m') \<Longrightarrow> m_allocations m' = m_allocations m \<and> m_proxyAllocator m' = m_proxyAllocator m"
  by (auto simp: corral_slot_def Let_def dest!: AddCorralSegment_frame split: prod.splits if_splits)

lemma CorralReserve_frame:
  "CorralReserve env sz at pr m = (p, ev, m') \<Longrightarrow> m_allocations m' = m_allocations m \<and> m_proxyAllocator m' = m_proxyAllocator m"
  by (auto simp: CorralReserve_def Let_def dest!: corral_slot_frame split: prod.splits if_splits)

lemma CorralFree_frame:
  "CorralFree a m = (b, ev, m') \<Longrightarrow> m_allocations m' = m_allocations m \<and> m_proxyAllocator m' = m_proxyAllocator m"
  by (auto simp: CorralFree_def Let_def split: option.splits if_splits)

lemma corral_on_step:
  assumes "vworld h lost ext" "corral_on env sz at pr h = (p, ev, h')"
  shows "vstep h lost ext h' lost \<and> h_vat h' = h_vat h"
proof -
  obtain m g where m: "h_mm h = Some (m, g)" using assms(1) by (auto simp: vworld_def world_def)
  obtain q ev1 m' where c: "CorralReserve (he_mm env) sz at pr m = (q, ev1, m')" by (metis prod_cases3)
  have e: "h' = h\<lparr>h_mm := Some (m', g)\<rparr>" using assms(2) m c by (auto simp: corral_on_def)
  show ?thesis using vstep_same [OF assms(1), of h'] CorralReserve_frame [OF c] m e by simp
qed

lemma corral_free_on_step:
  assumes "vworld h lost ext" "corral_free_on env a h = (ev, h')"
  shows "vstep h lost ext h' lost \<and> h_vat h' = h_vat h"
proof -
  obtain m g where m: "h_mm h = Some (m, g)" using assms(1) by (auto simp: vworld_def world_def)
  obtain q ev1 m' where c: "CorralFree a m = (q, ev1, m')" by (metis prod_cases3)
  have e: "h' = h\<lparr>h_mm := Some (m', g)\<rparr>" using assms(2) m c by (auto simp: corral_free_on_def)
  show ?thesis using vstep_same [OF assms(1), of h'] CorralFree_frame [OF c] m e by simp
qed

lemma retire_frame: "retire env a h = (ev, h') \<Longrightarrow> \<exists>d. h' = h\<lparr>h_diag := d\<rparr>"
  by (auto simp: retire_def split: prod.splits option.splits)

lemma VatUntrack_Some:
  assumes "VatUntrack a t = (Some (b, sz), t')"
  shows "b = a \<and> mset t = add_mset (a, sz) (mset t')"
proof -
  obtain i where i: "find_index 0 (\<lambda>e. fst e = a) t = Some i" and e: "t ! i = (b, sz)" "t' = swap_remove i t"
    using assms by (auto simp: VatUntrack_def split: option.splits)
  show ?thesis using find_index_Some [OF i] mset_swap_remove [of i t] e by simp
qed

lemma VatUntrack_None: "VatUntrack a t = (None, t') \<Longrightarrow> t' = t \<and> (\<forall>e\<in>set t. fst e \<noteq> a)"
  by (auto simp: VatUntrack_def find_index_None split: option.splits)

lemma free_tracked_step:
  assumes w: "vworld h lost ext" and u: "VatUntrack a (h_vat h) = (Some (b, sz), t)"
    and f: "free_tracked env a sz freeType (h\<lparr>h_vat := t\<rparr>) = (ev, h')"
  shows "vstep h lost ext h' lost \<and> h_vat h' = t"
proof -
  obtain m g where m: "h_mm h = Some (m, g)" "mm_with m (h_vat h @ lost @ ext)" using w by (auto simp: vworld_def world_def)
  have u': "b = a" "mset (h_vat h) = add_mset (a, sz) (mset t)" using VatUntrack_Some [OF u] by auto
  then have "mm_with m ((a, sz) # t @ lost @ ext)" by (intro mm_with_mset [OF m(2)]) simp
  note fr = mm_with_free [OF this]
  have e: "h' = h\<lparr>h_vat := t, h_mm := Some (m\<lparr>m_proxyAllocator := Free a sz (m_proxyAllocator m)\<rparr>, g)\<rparr>"
    using f m(1) by (simp add: free_tracked_def)
  have l: "length t \<le> Suc (length (h_vat h))" using arg_cong [OF u'(2), of size] by simp
  show ?thesis using fr e m(1) l by (simp add: vstep_def vworld_def world_def arena_geo_def the_mm_def)
qed

lemma release_ours_step:
  assumes w: "vworld h lost ext" and r: "release_ours env a freeType h = (b, ev, h')"
  shows "vstep h lost ext h' lost \<and> length (h_vat h') \<le> length (h_vat h)"
proof (cases "freeType AND MEM_RELEASE = 0")
  case True
  then show ?thesis using r vstep_refl [OF w] by (simp add: release_ours_def)
next
  case False
  obtain ev0 h0 where h0: "(if a \<noteq> 0 then retire env a h else ([], h)) = (ev0, h0)" by (metis prod.exhaust)
  obtain d where d: "h0 = h\<lparr>h_diag := d\<rparr>"
  proof (cases "a \<noteq> 0")
    case True
    then show ?thesis using h0 retire_frame [of env a h ev0 h0] that by auto
  next
    case False
    then show ?thesis using h0 that [of "h_diag h"] by simp
  qed
  have w0: "vworld h0 lost ext" using w same_mm(1) [of h0 h] d by (simp add: vworld_def)
  have s: "vstep h0 lost ext h' l = vstep h lost ext h' l" for l
    using d same_mm(4) [of h0 h] by (simp add: vstep_def)
  show ?thesis
  proof (cases "in_script_arena a h0")
    case True
    then show ?thesis using r False h0 corral_free_on_step [OF w0, of env a] s d
      by (cases "corral_free_on env a h0") (auto simp: release_ours_def)
  next
    case False
    obtain o' t where u: "VatUntrack a (h_vat h0) = (o', t)" by (metis prod.exhaust)
    show ?thesis
    proof (cases o')
      case None
      then have "h' = h0\<lparr>h_vat := t\<rparr>" using r False h0 u \<open>freeType AND MEM_RELEASE \<noteq> 0\<close> by (simp add: release_ours_def)
      then show ?thesis using VatUntrack_None [of a "h_vat h0" t] u None vstep_same [OF w0, of h'] s d by simp
    next
      case (Some x)
      obtain q sz where x: "x = (q, sz)" by (cases x)
      obtain ev1 h1 where f: "free_tracked env a sz freeType (h0\<lparr>h_vat := t\<rparr>) = (ev1, h1)" by (metis prod.exhaust)
      have "h' = h1" using r False h0 u Some x f \<open>freeType AND MEM_RELEASE \<noteq> 0\<close> by (simp add: release_ours_def)
      moreover have "length t \<le> length (h_vat h0)"
        using arg_cong [OF conjunct2 [OF VatUntrack_Some], of a "h_vat h0" q sz t size] u Some x by simp
      ultimately show ?thesis using free_tracked_step [OF w0 _ f] u Some x s d by simp
    qed
  qed
qed

subsection \<open>The hooks\<close>

definition same_arena :: "hooks \<Rightarrow> hooks \<Rightarrow> bool" where
  "same_arena h h' \<longleftrightarrow> h_mm h' = h_mm h \<and> h_vat h' = h_vat h \<and> h_heaps h' = h_heaps h"

lemma vstep_start: "same_arena h h1 \<Longrightarrow> vstep h1 lost ext h' l = vstep h lost ext h' l"
  using same_mm(4) [of h1 h] by (simp add: same_arena_def vstep_def)

lemma vstep_end: "same_arena h' h2 \<Longrightarrow> vstep h lost ext h2 l = vstep h lost ext h' l"
  using same_mm(1) [of h2 h'] same_mm(4) [of h2 h'] by (simp add: same_arena_def vstep_def vworld_def)

lemma vworld_cong: "same_arena h h' \<Longrightarrow> vworld h' lost ext = vworld h lost ext"
  using same_mm(1) [of h' h] by (simp add: same_arena_def vworld_def)

lemma size_ok_cong: "same_arena h h' \<Longrightarrow> size_ok h' sz = size_ok h sz"
  using same_mm(5) [of h' h] by (simp add: same_arena_def)

lemma same_arena_enter [simp]:
  "same_arena h (enter_scope h)" "same_arena h (leave_scope h)" "same_arena h (enter_nt h)" "same_arena h (leave_nt h)"
  "same_arena h (h\<lparr>h_control := c\<rparr>)" "same_arena h (h\<lparr>h_diag := d\<rparr>)" "same_arena h h"
  by (simp_all add: same_arena_def enter_scope_def leave_scope_def enter_nt_def leave_nt_def)

text \<open>A step that only keeps a slot if one was lost, then one outside the arena.\<close>

lemma vstep_then_same:
  assumes "vstep h lost ext h1 l" "vstep h1 l ext h2 l" "h_vat h2 = h_vat h1"
  shows "vstep h lost ext h2 l"
  using assms by (simp add: vstep_def)

lemma vstep_world: "vstep h lost ext h' l \<Longrightarrow> vworld h' l ext \<and> arena_geo h' = arena_geo h"
  by (simp add: vstep_def)

lemma local_reserve_core: "local_reserve env sz f at pr b v = (ev, v') \<Longrightarrow> vh_core v' = vh_core v"
  by (auto simp: local_reserve_def split: prod.splits option.splits)

lemma real_served_core: "real_served env ww k p sz v = Some (ev, v') \<Longrightarrow> same_arena (vh_core v) (vh_core v')"
  by (auto simp: real_served_def Let_def split: if_splits option.splits)

lemma va_record_core:
  assumes "va_record env ww k rd real placed base sz at pr p v = Some (ev, v')"
  shows "same_arena (vh_core v) (vh_core v')"
proof -
  let ?c = "at AND MEM_RESERVE \<noteq> 0 \<and> sz \<ge> kForceVirtualAllocMinSize \<and> (p = 0 \<or> (real \<and> \<not> placed))"
  obtain ev2 v2 where l: "(if ?c then local_reserve env sz (p = 0) at pr (base \<noteq> 0) v else ([], v)) = (ev2, v2)"
    by (metis prod.exhaust)
  have "vh_core v2 = vh_core v" using l local_reserve_core by (auto split: if_splits)
  then show ?thesis using assms unfolding va_record_def l
    by (auto simp: Let_def dest!: real_served_core split: if_splits option.splits prod.splits)
qed

lemma redirectable_pos: "redirectable base sz at pr h \<Longrightarrow> sz > 0"
  by (auto simp: redirectable_def HEAP_CAPTURE_THRESHOLD_def kForceVirtualAllocMinSize_def word_le_nat_alt word_less_nat_alt)

text \<open>The slot or nothing, as every allocating hook tries it.\<close>

lemma try_slot_step:
  assumes "vworld h lost ext" "size_ok h sz" "rd \<Longrightarrow> sz > 0"
    "(if rd then redirect_slot env sz protect h else (0, [], h)) = (p, reason, h')"
  shows "\<exists>l. vstep h lost ext h' l"
proof (cases rd)
  case True
  then show ?thesis using redirect_slot_step(1) [OF assms(1,2)] assms(3,4) by fastforce
next
  case False
  then show ?thesis using assms vstep_refl by auto
qed

lemma real_path_step:
  assumes w: "vworld h lost ext" and r: "real_path env vs ww base sz at pr h = (q, placed, ev, h')"
  shows "vstep h lost ext h' lost \<and> h_vat h' = h_vat h"
proof -
  obtain p ev1 h1 where c: "(if ww then corral_on env sz at pr h else (0, [], h)) = (p, ev1, h1)" by (metis prod_cases3)
  have "h' = h1" using r unfolding real_path_def c by (auto split: if_splits)
  then show ?thesis using c corral_on_step [OF w] vstep_refl [OF w] by (cases ww) auto
qed

lemma va_place_step:
  assumes w: "vworld h lost ext" "size_ok h sz" and pos: "rd \<Longrightarrow> sz > 0"
    and r: "va_place env vs ww rd base sz at pr h = (p, real, placed, ev, h')"
  shows "\<exists>l. vstep h lost ext h' l"
proof -
  obtain s reason h1 where s: "(if rd then redirect_slot env sz pr h else (0, [], h)) = (s, reason, h1)" by (metis prod_cases3)
  obtain l where l: "vstep h lost ext h1 l" using try_slot_step [OF w pos s] by blast
  obtain q pl ev1 h2 where q: "real_path env vs ww base sz at pr h1 = (q, pl, ev1, h2)" by (metis prod_cases4)
  have "h' = (if s \<noteq> 0 then h1 else h2)" using r unfolding va_place_def s by (simp add: q split: if_splits)
  then show ?thesis
    using l vstep_then_same [OF l] real_path_step [OF _ q, of l ext] vstep_world [OF l] by (cases "s = 0") auto
qed

lemma Hooked_VirtualAlloc_step:
  assumes w: "vworld (vh_core v) lost ext" "size_ok (vh_core v) sz"
    and r: "Hooked_VirtualAlloc env vs base sz at pr v = Some (p, ev, v')"
  shows "\<exists>l. vstep (vh_core v) lost ext (vh_core v') l"
proof (cases "vs_alloc vs = None \<or> passes_through env (vh_core v)")
  case True
  then show ?thesis using r vstep_refl [OF w(1)] by (auto simp: Hooked_VirtualAlloc_def split: option.splits)
next
  case False
  obtain ev1 v1 where b: "virtual_alloc_body env vs base sz at pr (core enter_scope v) = Some (p, ev1, v1)"
    and v': "v' = core leave_scope v1"
    using False r by (auto simp: Hooked_VirtualAlloc_def split: option.splits)
  let ?h = "(enter_scope (vh_core v))\<lparr>h_control := EnsureProxyActiveForVirtualPath sz at pr (h_control (enter_scope (vh_core v)))\<rparr>"
  let ?ww = "at AND MEM_WRITE_WATCH \<noteq> 0 \<and> at AND MEM_RESERVE \<noteq> 0 \<and> base = 0"
  let ?rd = "redirectable base sz at pr ?h"
  obtain q real placed ev2 h2 where p: "va_place env vs ?ww ?rd base sz at pr ?h = (q, real, placed, ev2, h2)"
    by (metis prod_cases5)
  have s: "same_arena (vh_core v) ?h" by (simp add: same_arena_def enter_scope_def)
  have w': "vworld ?h lost ext" "size_ok ?h sz" using w vworld_cong [OF s] size_ok_cong [OF s] by auto
  obtain l where "vstep ?h lost ext h2 l" using va_place_step [OF w' redirectable_pos p] by blast
  then have "vstep (vh_core v) lost ext h2 l" using vstep_start [OF s] by simp
  moreover obtain k rd v0 ev3 where "va_record env ?ww k rd real placed base sz at pr q v0 = Some (ev3, v1)" "vh_core v0 = h2"
    using b p by (auto simp: virtual_alloc_body_def Let_def split: option.splits)
  then have "same_arena h2 (vh_core v1)" using va_record_core by metis
  moreover have "same_arena (vh_core v1) (vh_core v')" by (simp add: v')
  ultimately show ?thesis using vstep_end by (metis)
qed

lemma Hooked_VirtualFree_step:
  assumes w: "vworld (vh_core v) lost ext" and r: "Hooked_VirtualFree env vs a sz freeType v = (b, ev, v')"
  shows "vstep (vh_core v) lost ext (vh_core v') lost"
proof -
  obtain c ev1 h1 where o': "release_ours env a freeType (vh_core v) = (c, ev1, h1)" by (metis prod_cases3)
  have "same_arena h1 (vh_core v')"
    using r by (cases c; auto simp: Hooked_VirtualFree_def o' Let_def same_arena_def enter_scope_def leave_scope_def
      split: option.splits if_splits)
  then show ?thesis using release_ours_step [OF w o'] vstep_end by blast
qed

lemma nt_allocate_body_step:
  assumes w: "vworld (vh_core v) lost ext" "size_ok (vh_core v) sz"
    and r: "nt_allocate_body env vs proc base zb sz at pr v = (res, ev, v')"
  shows "\<exists>l. vstep (vh_core v) lost ext (vh_core v') l"
proof -
  let ?h = "if own_process vs proc
    then (vh_core v)\<lparr>h_control := EnsureProxyActiveForVirtualPath sz at pr (h_control (vh_core v))\<rparr> else vh_core v"
  let ?rd = "own_process vs proc \<and> redirectable base sz at pr ?h"
  have s: "same_arena (vh_core v) ?h" by simp
  have w': "vworld ?h lost ext" "size_ok ?h sz" using w vworld_cong [OF s] size_ok_cong [OF s] by auto
  have h: "vh_core (if own_process vs proc
    then core (\<lambda>h. h\<lparr>h_control := EnsureProxyActiveForVirtualPath sz at pr (h_control h)\<rparr>) v else v) = ?h" by simp
  obtain p reason h1 where p: "(if ?rd then redirect_slot env sz pr ?h else (0, [], ?h)) = (p, reason, h1)" by (metis prod_cases3)
  obtain l where l: "vstep ?h lost ext h1 l" using try_slot_step [OF w' _ p] redirectable_pos by blast
  have "vh_core v' = h1"
    using r unfolding nt_allocate_body_def Let_def h p
    by (auto simp: dest!: local_reserve_core split: if_splits prod.splits)
  then show ?thesis using l vstep_start [OF s] by auto
qed

lemma Hooked_NtAllocateVirtualMemory_step:
  assumes w: "vworld (vh_core v) lost ext" "\<And>n. sz = Some n \<Longrightarrow> size_ok (vh_core v) n"
    and r: "Hooked_NtAllocateVirtualMemory env vs proc base zb sz at pr v = (res, ev, v')"
  shows "\<exists>l. vstep (vh_core v) lost ext (vh_core v') l"
proof (cases "passes_through env (vh_core v) \<or> h_mm (vh_core v) = None \<or> base = None \<or> sz = None")
  case True
  then have "v' = v" using r by (auto simp: Hooked_NtAllocateVirtualMemory_def Let_def)
  then show ?thesis using vstep_refl [OF w(1)] by auto
next
  case False
  obtain ev1 v1 where b: "nt_allocate_body env vs proc (the base) zb (the sz) at pr (core enter_nt v) = (res, ev1, v1)"
    and v': "v' = core leave_nt v1"
    using False r by (auto simp: Hooked_NtAllocateVirtualMemory_def split: prod.splits)
  have s: "same_arena (vh_core v) (vh_core (core enter_nt v))" by simp
  have "vworld (vh_core (core enter_nt v)) lost ext" "size_ok (vh_core (core enter_nt v)) (the sz)"
    using w False vworld_cong [OF s] size_ok_cong [OF s] by auto
  then obtain l where "vstep (vh_core (core enter_nt v)) lost ext (vh_core v1) l" using nt_allocate_body_step [OF _ _ b] by blast
  moreover have "same_arena (vh_core v1) (vh_core v')" by (simp add: v')
  ultimately show ?thesis using vstep_start [OF s] vstep_end by metis
qed

lemma nt_allocate_ex_body_step:
  assumes w: "vworld (vh_core v) lost ext" "size_ok (vh_core v) sz"
    and r: "nt_allocate_ex_body env vs f proc base sz at pr x v = (res, ev, v')"
  shows "\<exists>l. vstep (vh_core v) lost ext (vh_core v') l"
proof -
  let ?rd = "own_process vs proc \<and> redirectable base sz at pr (vh_core v) \<and> \<not> x"
  obtain p reason h1 where p: "(if ?rd then redirect_slot env sz pr (vh_core v) else (0, [], vh_core v)) = (p, reason, h1)"
    by (metis prod_cases3)
  obtain l where l: "vstep (vh_core v) lost ext h1 l" using try_slot_step [OF w _ p] redirectable_pos by blast
  have "vh_core v' = h1"
    using r unfolding nt_allocate_ex_body_def Let_def p by (auto split: if_splits prod.splits)
  then show ?thesis using l by auto
qed

lemma Hooked_NtAllocateVirtualMemoryEx_step:
  assumes w: "vworld (vh_core v) lost ext" "\<And>n. sz = Some n \<Longrightarrow> size_ok (vh_core v) n"
    and r: "Hooked_NtAllocateVirtualMemoryEx env vs proc base sz at pr x v = (res, ev, v')"
  shows "\<exists>l. vstep (vh_core v) lost ext (vh_core v') l"
proof (cases "vs_nt_alloc_ex vs = None \<or> passes_through env (vh_core v) \<or> h_mm (vh_core v) = None \<or> base = None \<or> sz = None")
  case True
  then have "v' = v" using r by (auto simp: Hooked_NtAllocateVirtualMemoryEx_def Let_def split: option.splits)
  then show ?thesis using vstep_refl [OF w(1)] by auto
next
  case False
  then obtain f where f: "vs_nt_alloc_ex vs = Some f" by auto
  obtain b n where bn: "base = Some b" "sz = Some n" using False by auto
  obtain ev1 v1 where bd: "nt_allocate_ex_body env vs f proc b n at pr x (core enter_nt v) = (res, ev1, v1)"
    and v': "v' = core leave_nt v1"
    using False r f bn by (auto simp: Hooked_NtAllocateVirtualMemoryEx_def Let_def split: prod.splits)
  have s: "same_arena (vh_core v) (vh_core (core enter_nt v))" by simp
  have "vworld (vh_core (core enter_nt v)) lost ext" "size_ok (vh_core (core enter_nt v)) n"
    using w bn vworld_cong [OF s] size_ok_cong [OF s] by auto
  then obtain l where "vstep (vh_core (core enter_nt v)) lost ext (vh_core v1) l" using nt_allocate_ex_body_step [OF _ _ bd] by blast
  moreover have "same_arena (vh_core v1) (vh_core v')" by (simp add: v')
  ultimately show ?thesis using vstep_start [OF s] vstep_end by metis
qed

lemma Hooked_NtFreeVirtualMemory_step:
  assumes w: "vworld (vh_core v) lost ext" and r: "Hooked_NtFreeVirtualMemory env vs proc base sz freeType v = (res, ev, v')"
  shows "vstep (vh_core v) lost ext (vh_core v') lost"
proof (cases "base = None \<or> passes_through env (vh_core v) \<or> h_mm (vh_core v) = None")
  case True
  then have "v' = v" using r by (auto simp: Hooked_NtFreeVirtualMemory_def Let_def split: option.splits)
  then show ?thesis using vstep_refl [OF w] by simp
next
  case False
  then obtain a where a: "base = Some a" by auto
  obtain c ev1 h1 where o': "release_ours env a freeType (enter_nt (vh_core v)) = (c, ev1, h1)" by (metis prod_cases3)
  have s: "same_arena (vh_core v) (enter_nt (vh_core v))" by simp
  have "vworld (enter_nt (vh_core v)) lost ext" using w vworld_cong [OF s] by simp
  then have "vstep (vh_core v) lost ext h1 lost" using release_ours_step [OF _ o'] vstep_start [OF s] by auto
  moreover have "vh_core v' = leave_nt h1"
    using r False a o' by (cases c) (auto simp: Hooked_NtFreeVirtualMemory_def Let_def)
  ultimately show ?thesis using vstep_end [of h1 "vh_core v'"] by simp
qed

subsection \<open>A redirected reserve and its release\<close>

lemma vworld_fresh:
  assumes "vworld h (l1 @ (p, n) # l2) ext"
  shows "\<forall>e\<in>set (h_vat h). fst e \<noteq> p"
proof -
  let ?L = "h_vat h @ (l1 @ (p, n) # l2) @ ext"
  obtain m g where m: "h_mm h = Some (m, g)" "mm_with m ?L"
    using assms by (auto simp: vworld_def world_def)
  let ?R = "mm_sizes (m_allocations m)"
  have "pa_inv (m_proxyAllocator m) ((p, n) # h_vat h @ ?R @ l1 @ l2 @ ext)"
    by (rule pa_inv_mset [of _ "?R @ ?L"]) (use m(2) in \<open>simp_all add: mm_with_def\<close>)
  then show ?thesis using pa_inv_new_apart(2) by (metis Un_iff prod.collapse set_append)
qed

lemma VirtualAlloc_redirected:
  assumes "vs_alloc vs = Some f" "at AND MEM_WRITE_WATCH = 0" "\<not> is_arena_address (f base sz at pr) h0"
    and "Hooked_VirtualAlloc env vs base sz at pr v = Some (p, ev, v1)" "is_arena_address p h0"
  obtains h reason h' where "same_arena (vh_core v) h" "redirect_slot env sz pr h = (p, reason, h')" "p \<noteq> 0" "sz > 0"
    "same_arena h' (vh_core v1)"
proof -
  have np: "\<not> passes_through env (vh_core v)" using assms by (auto simp: Hooked_VirtualAlloc_def)
  then obtain ev1 v0 where b: "virtual_alloc_body env vs base sz at pr (core enter_scope v) = Some (p, ev1, v0)"
    and v1: "v1 = core leave_scope v0"
    using assms(1,4) by (auto simp: Hooked_VirtualAlloc_def split: option.splits)
  let ?h = "(enter_scope (vh_core v))\<lparr>h_control := EnsureProxyActiveForVirtualPath sz at pr (h_control (enter_scope (vh_core v)))\<rparr>"
  let ?rd = "redirectable base sz at pr ?h"
  obtain q real placed ev2 h2 where p: "va_place env vs False ?rd base sz at pr ?h = (q, real, placed, ev2, h2)"
    by (metis prod_cases5)
  obtain k rd vv ev3 where r: "va_record env False k rd real placed base sz at pr q vv = Some (ev3, v0)" "vh_core vv = h2" "p = q"
    using b p assms(2) by (auto simp: virtual_alloc_body_def Let_def split: option.splits)
  have s: "same_arena (vh_core v) ?h" by (simp add: same_arena_def enter_scope_def)
  obtain sl reason h1 where t: "(if ?rd then redirect_slot env sz pr ?h else (0, [], ?h)) = (sl, reason, h1)" by (metis prod_cases3)
  have "real_path env vs False base sz at pr h1 = (f base sz at pr, False, [RealVirtualAlloc base sz at pr], h1)"
    by (simp add: real_path_def assms(1))
  then have "q = (if sl \<noteq> 0 then sl else f base sz at pr) \<and> h2 = h1"
    using p unfolding va_place_def t by (simp split: if_splits)
  then have "sl \<noteq> 0" "q = sl" "h2 = h1" using assms(3,5) r(3) by (cases "sl = 0", auto)
  then have "redirect_slot env sz pr ?h = (p, reason, h1)" "p \<noteq> 0" "sz > 0"
    using t r(3) redirectable_pos by (cases ?rd; auto)+
  moreover have "same_arena h1 (vh_core v1)"
    using va_record_core [OF r(1)] r(2) v1 \<open>h2 = h1\<close> by (simp add: same_arena_def leave_scope_def)
  ultimately show ?thesis using that s by blast
qed

lemma release_tracked:
  assumes "ft AND MEM_RELEASE \<noteq> 0" "p \<noteq> 0" "\<not> in_script_arena p h" "h_vat h = t @ [(p, sz)]" "\<forall>e\<in>set t. fst e \<noteq> p"
  obtains ev h' where "release_ours env p ft h = (True, ev, h')" "mset (h_vat h') = mset t"
    "Hook (Tell (Decommit p sz)) \<in> set ev" "\<And>a b c. RealVirtualFree a b c \<notin> set ev"
proof -
  obtain ev0 h0 where r: "retire env p h = (ev0, h0)" by (metis prod.exhaust)
  have h0: "h_vat h0 = h_vat h" "h_mm h0 = h_mm h" using retire_frame [OF r] by auto
  have e0: "RealVirtualFree a b c \<notin> set ev0" for a b c
    using r by (auto simp: retire_def split: prod.splits option.splits)
  have ns: "\<not> in_script_arena p h0" using assms(3) h0 by (simp add: in_script_arena_def)
  obtain o' t' where u: "VatUntrack p (h_vat h0) = (o', t')" by (metis prod.exhaust)
  obtain e where e: "o' = Some e"
    using VatUntrack_None [of p "h_vat h0" t'] u h0 assms(4) by (cases o') auto
  obtain b sz' where b: "e = (b, sz')" by (cases e)
  have m: "mset (t @ [(p, sz)]) = add_mset (p, sz') (mset t')" "b = p"
    using VatUntrack_Some [of p "h_vat h0" b sz' t'] u e b h0 assms(4) by auto
  then have "(p, sz') \<in> set (t @ [(p, sz)])" by (metis set_mset_mset union_single_eq_member)
  then have z: "sz' = sz" using assms(5) by auto
  then have t': "mset t' = mset t" using m by simp
  obtain ev1 h1 where f: "free_tracked env p sz ft (h0\<lparr>h_vat := t'\<rparr>) = (ev1, h1)" by (metis prod.exhaust)
  have v: "h_vat h1 = t'" "Hook (Tell (Decommit p sz)) \<in> set ev1" "\<And>a b c. RealVirtualFree a b c \<notin> set ev1"
    using f by (auto simp: free_tracked_def split: option.splits)
  have "release_ours env p ft h = (True, ev0 @ ev1, h1)"
    using assms(1,2) r ns u e b z f by (simp add: release_ours_def)
  then show ?thesis using that [of "ev0 @ ev1" h1] v t' e0 by auto
qed

lemma release_untracked:
  assumes "ft AND MEM_RELEASE \<noteq> 0" "p \<noteq> 0" "\<not> in_script_arena p h" "\<forall>e\<in>set (h_vat h). fst e \<noteq> p"
  obtains ev h' where "release_ours env p ft h = (False, ev, h')" "same_arena h h'"
proof -
  obtain ev0 h0 where r: "retire env p h = (ev0, h0)" by (metis prod.exhaust)
  have h0: "same_arena h h0" using retire_frame [OF r] by auto
  have ns: "\<not> in_script_arena p h0" using assms(3) h0 by (simp add: in_script_arena_def same_arena_def)
  obtain o' t' where u: "VatUntrack p (h_vat h0) = (o', t')" by (metis prod.exhaust)
  have "find_index 0 (\<lambda>e. fst e = p) (h_vat h0) = None"
    using assms(4) h0 by (simp add: find_index_None same_arena_def)
  then have "o' = None" "t' = h_vat h0" using u by (simp_all add: VatUntrack_def)
  then have "release_ours env p ft h = (False, ev0, h0)"
    using assms(1,2) r ns u by (simp add: release_ours_def)
  then show ?thesis using that h0 by blast
qed

text \<open>C6: A reserve that \<open>VirtualAlloc\<close> answers from the arena is undone by \<open>VirtualFree\<close> with
  \<open>MEM_RELEASE\<close>, whatever the thread and the size argument: the slot is decommitted and goes back to
  the arena, the table of redirected slots is as before, and the system is not asked.  But when the
  table held its 8192 slots the slot was not noted: then the release goes to the system's
  \<open>VirtualFree\<close>, whose answer the game gets, and the slot stays taken.\<close>

theorem virtual_redirect_roundtrip:
  assumes "vworld (vh_core v) lost ext" "size_ok (vh_core v) sz"
    and "vs_alloc vs = Some f" "at AND MEM_WRITE_WATCH = 0" "\<not> is_arena_address (f base sz at pr) (vh_core v)"
    and "Hooked_VirtualAlloc env vs base sz at pr v = Some (p, ev, v1)" "is_arena_address p (vh_core v)"
    and "\<not> in_script_arena p (vh_core v1)" "ft AND MEM_RELEASE \<noteq> 0" "vs_free vs' = Some f'"
    and "Hooked_VirtualFree env' vs' p n ft v1 = (ok, ev', v2)"
  shows "(length (h_vat (vh_core v)) < kVatMax \<longrightarrow> ok \<and> Hook (Tell (Decommit p sz)) \<in> set ev' \<and>
       (\<forall>a b c. RealVirtualFree a b c \<notin> set ev') \<and>
       mset (h_vat (vh_core v2)) = mset (h_vat (vh_core v)) \<and> vworld (vh_core v2) lost ext) \<and>
     (kVatMax \<le> length (h_vat (vh_core v)) \<longrightarrow> ok = f' p n ft \<and> RealVirtualFree p n ft \<in> set ev' \<and>
       vworld (vh_core v2) ((p, sz) # lost) ext)"
proof -
  obtain h reason h' where h: "same_arena (vh_core v) h" "redirect_slot env sz pr h = (p, reason, h')" "p \<noteq> 0" "sz > 0"
    "same_arena h' (vh_core v1)" using VirtualAlloc_redirected [OF assms(3-7)] by blast
  have w: "vworld h lost ext" "size_ok h sz" using assms(1,2) vworld_cong [OF h(1)] size_ok_cong [OF h(1)] by auto
  let ?full = "kVatMax \<le> length (h_vat h)"
  let ?l = "if p \<noteq> 0 \<and> ?full then (p, sz) # lost else lost"
  note st = redirect_slot_step [OF w h(4,2)]
  have "vstep h lost ext (vh_core v1) ?l" using vstep_end [OF h(5)] st(1) by blast
  then have w1: "vworld (vh_core v1) ?l ext" using vstep_world by blast
  have t1: "h_vat (vh_core v1) = VatTrack (p, sz) (h_vat (vh_core v))" "h_vat h = h_vat (vh_core v)"
    using st(2) h by (simp_all add: same_arena_def)
  show ?thesis
  proof (cases ?full)
    case False
    then have t: "h_vat (vh_core v1) = h_vat (vh_core v) @ [(p, sz)]" using t1 by (simp add: VatTrack_def)
    have "world (vh_core v1) ((h_vat (vh_core v) @ [(p, sz)]) @ lost @ ext)"
      using w1 False t by (simp add: vworld_def)
    then have "vworld ((vh_core v1)\<lparr>h_vat := h_vat (vh_core v)\<rparr>) ([] @ (p, sz) # []) (lost @ ext)"
      using same_mm(1) [of "(vh_core v1)\<lparr>h_vat := h_vat (vh_core v)\<rparr>" "vh_core v1"] by (simp add: vworld_def)
    from vworld_fresh [OF this] have fr: "\<forall>e\<in>set (h_vat (vh_core v)). fst e \<noteq> p" by simp
    obtain ev2 h2 where r: "release_ours env' p ft (vh_core v1) = (True, ev2, h2)" "mset (h_vat h2) = mset (h_vat (vh_core v))"
      "Hook (Tell (Decommit p sz)) \<in> set ev2" "\<And>a b c. RealVirtualFree a b c \<notin> set ev2"
      using release_tracked [OF assms(9) h(3) assms(8) t fr] by blast
    have "ok" "ev' = ev2" "vh_core v2 = h2" using assms(11) r(1) by (auto simp: Hooked_VirtualFree_def)
    then show ?thesis using r False t1(2) vstep_world release_ours_step [OF w1 r(1)] by auto
  next
    case True
    then have t: "h_vat (vh_core v1) = h_vat (vh_core v)" using t1 by (simp add: VatTrack_def)
    have w1': "vworld (vh_core v1) ([] @ (p, sz) # lost) ext" using w1 True h(3) by simp
    obtain ev2 h2 where r: "release_ours env' p ft (vh_core v1) = (False, ev2, h2)" "same_arena (vh_core v1) h2"
      using release_untracked [OF assms(9) h(3) assms(8) vworld_fresh [OF w1']] by blast
    have "ok = f' p n ft" "RealVirtualFree p n ft \<in> set ev'" "same_arena h2 (vh_core v2)"
      using assms(10,11) r(1) by (auto simp: Hooked_VirtualFree_def Let_def same_arena_def enter_scope_def leave_scope_def split: if_splits)
    then show ?thesis using True t1(2) w1' vworld_cong [OF r(2)] vworld_cong [of h2 "vh_core v2"] by simp
  qed
qed

subsection \<open>The properties at a small process\<close>

text \<open>A system that answers fixed addresses outside the arena.\<close>

definition demo_vs :: virt_sys where
  "demo_vs = \<lparr>vs_alloc = Some (\<lambda>b n at pr. 0x700000), vs_free = Some (\<lambda>a n ft. False),
     vs_nt_alloc = (\<lambda>p b z n at pr. (0, 0x710000, n)), vs_nt_free = (\<lambda>p b n ft. (0, b, n)),
     vs_nt_alloc_ex = None, vs_last_error = 0, vs_this_process = 0xFFFFFFFF\<rparr>"

definition demo_v :: "memory_manager \<Rightarrow> proxy_heaps \<Rightarrow> vhooks" where
  "demo_v m ph = \<lparr>vh_core = demo_hooks m ph, vh_local = (local_vas_init, caller_stats_init),
     vh_range = \<lparr>s_rangeLogEnabled = False, s_rangeLogStart = 0, s_rangeLogEnd = 0\<rparr>, vh_etw = api_etw_init\<rparr>"

lemma demo_v_core [simp]: "vh_core (demo_v m ph) = demo_hooks m ph"
  by (simp add: demo_v_def)

lemmas virt_eval = Hooked_VirtualAlloc_def virtual_alloc_body_def va_place_def va_record_def redirectable_def redirect_slot_def
  game_reserve_def local_reserve_def enter_scope_def leave_scope_def slot_assigned_def VatTrack_def kVatMax_def
  EnsureProxyActiveForVirtualPath_def IsProxyActive_def IsExecProtect_def kForceVirtualAllocMinSize_def HEAP_CAPTURE_THRESHOLD_def

lemma demo_valloc:
  "\<exists>ev v1. Hooked_VirtualAlloc (demo_env True) demo_vs 0 0x20000 0x2000 4 (demo_v demo_mm proxy_heaps_init) =
     Some (0x20000000, ev, v1) \<and> \<not> in_script_arena 0x20000000 (vh_core v1)"
  unfolding demo_mm_def
  by (simp add: mm_eval arena_eval virt_eval hook_eval demo_v_def demo_vs_def MEM_RESERVE_def MEM_WRITE_WATCH_def
      MEM_PHYSICAL_def MEM_LARGE_PAGES_def in_script_arena_def IsCorralAddress_def)

lemma virtual_redirect_roundtrip_witness:
  "\<exists>ev v1 ev' v2. Hooked_VirtualAlloc (demo_env True) demo_vs 0 0x20000 0x2000 4 (demo_v demo_mm proxy_heaps_init) =
       Some (0x20000000, ev, v1) \<and>
     Hooked_VirtualFree (demo_env True) demo_vs 0x20000000 0 0x8000 v1 = (True, ev', v2) \<and>
     Hook (Tell (Decommit 0x20000000 0x20000)) \<in> set ev' \<and> h_vat (vh_core v2) = []"
proof -
  let ?v = "demo_v demo_mm proxy_heaps_init"
  obtain ev v1 where a: "Hooked_VirtualAlloc (demo_env True) demo_vs 0 0x20000 0x2000 4 ?v = Some (0x20000000, ev, v1)"
    "\<not> in_script_arena 0x20000000 (vh_core v1)" using demo_valloc by blast
  obtain ok ev' v2 where f: "Hooked_VirtualFree (demo_env True) demo_vs 0x20000000 0 0x8000 v1 = (ok, ev', v2)" by (metis prod_cases3)
  have w: "vworld (vh_core ?v) [] []" using demo_world(1) by (simp add: vworld_def demo_hooks_def)
  have sz: "size_ok (vh_core ?v) 0x20000" using demo_world(2) by simp
  have own: "is_arena_address q (vh_core ?v) \<longleftrightarrow> 0x20000000 \<le> q \<and> q < 0x60000000" for q
    unfolding demo_mm_def by (simp add: is_arena_address_def demo_hooks_def IsProxyAddress_mm_def mm_eval arena_eval)
  have vs: "vs_alloc demo_vs = Some (\<lambda>b n at pr. 0x700000)" "vs_free demo_vs = Some (\<lambda>a n ft. False)" by (simp_all add: demo_vs_def)
  have ft: "(0x8000 :: u32) AND MEM_RELEASE \<noteq> 0" "(0x2000 :: u32) AND MEM_WRITE_WATCH = 0"
    by (simp_all add: MEM_RELEASE_def MEM_WRITE_WATCH_def)
  have "h_vat (vh_core ?v) = []" by (simp add: demo_hooks_def)
  then show ?thesis
    using virtual_redirect_roundtrip [OF w sz vs(1) ft(2) _ a(1) _ a(2) ft(1) vs(2) f] a f own by (simp add: kVatMax_def)
qed

end
