(* ===== verification/KernelHeapProps.thy ===== *)
theory KernelHeapProps
  imports KernelHeap VirtualHookProps
begin

section \<open>What the kernel-level heap hooks promise\<close>

text \<open>
  They keep the arena's invariant, give blocks back to their owner exactly as the hooks below, and
  keep the movable blocks of the \<open>Global\<close> and \<open>Local\<close> functions out of arena and shards.  They
  differ in what they ask about the caller.
\<close>

subsection \<open>The invariant\<close>

definition kept_vat :: "hooks \<Rightarrow> (u32 \<times> u32) list \<Rightarrow> hooks \<Rightarrow> bool" where
  "kept_vat h ext h' \<longleftrightarrow> kept h ext h' \<and> h_vat h' = h_vat h"

lemma kept_vat_vstep: "kept_vat h (h_vat h @ lost @ ext) h' \<Longrightarrow> vstep h lost ext h' lost"
  by (simp add: kept_vat_def kept_def vstep_def vworld_def)

lemma kept_vat_trans: "kept_vat h ext h1 \<Longrightarrow> kept_vat h1 ext h2 \<Longrightarrow> kept_vat h ext h2"
  using kept_trans by (auto simp: kept_vat_def)

lemma kept_vat_world: "kept_vat h ext h' \<Longrightarrow> world h' ext \<and> size_ok h' sz = size_ok h sz"
  using size_ok_geo [of h' h] by (simp add: kept_vat_def kept_def)

text \<open>Bookkeeping around a step.\<close>

lemma kept_vat_same:
  assumes "world h ext" "h_mm h' = h_mm h" "s_proxyHeaps (h_heaps h') = s_proxyHeaps (h_heaps h)" "h_vat h' = h_vat h"
  shows "kept_vat h ext h'"
  using kept_same [OF assms(1-3)] assms(4) by (simp add: kept_vat_def)

lemma kept_vat_marks:
  assumes "world h ext"
  shows "kept_vat h ext (enter_scope h)" "kept_vat h ext (leave_scope h)" "kept_vat h ext (h\<lparr>h_use := u\<rparr>)" "kept_vat h ext h"
  using kept_vat_same [OF assms] by (simp_all add: enter_scope_def leave_scope_def)

lemma kernel_sardine_step:
  assumes "world h ext" "kernel_sardine env heap flags sz h = (p, ev, h')"
  shows "kept_vat h ext h'"
proof -
  obtain b h1 where w: "kernel_sardine_wanted env heap sz h = (b, h1)" by (metis prod.exhaust)
  obtain hp reqs ph where a: "ProxyHeapAlloc (he_sys env) flags sz (h_heaps h1) = (hp, reqs, ph)" by (metis prod_cases3)
  have h1: "h_mm h1 = h_mm h \<and> h_heaps h1 = h_heaps h \<and> h_vat h1 = h_vat h"
    using w by (auto simp: kernel_sardine_wanted_def split: if_splits prod.splits)
  have "h' = h1 \<or> (\<exists>ph'. h' = h1\<lparr>h_heaps := ph'\<rparr> \<and> s_proxyHeaps ph' = s_proxyHeaps (h_heaps h1))"
    using assms(2) ProxyHeapAlloc_shards [OF a] unfolding kernel_sardine_def w
    by (cases b; cases "hp = 0"; cases "s_sardineLossProbe ph")
      (simp_all add: a Let_def RecordSardineLoss_def split: prod.splits if_splits, auto)
  then show ?thesis using kept_vat_same [OF assms(1), of h'] h1 by auto
qed

lemma kernel_create_step:
  assumes "world h ext" "size_ok h sz" "kForceHeapProxyMinSize env \<noteq> 0" "kernel_create env sz h = (p, ev, h')"
  shows "kept_vat h ext h'"
proof (cases "h_mm h \<noteq> None \<and> sz \<ge> kForceHeapProxyMinSize env \<and> IsProxyActive (h_control h) \<and> c_forceHeap (h_control h)")
  case True
  then have "sz > 0" using assms(3) by (auto simp: word_gt_0)
  moreover have c: "create_on env sz PAGE_READWRITE LANE_CONTAINED_A h = (p, ev, h')" using assms(4) True by (simp add: kernel_create_def)
  ultimately show ?thesis
    using granted_kept [OF create_on_world(1) [OF assms(1,2) _ c]] create_on_vat [OF c] by (simp add: kept_vat_def)
next
  case False
  then have "h' = h" using assms(4) by (auto simp: kernel_create_def)
  then show ?thesis using kept_vat_marks(4) [OF assms(1)] by simp
qed

lemma Hooked_HeapAlloc_step:
  assumes w: "world h ext" "size_ok h sz" and pos: "kForceHeapProxyMinSize env \<noteq> 0"
    and r: "Hooked_HeapAlloc env ks heap flags sz h = (p, ev, h')"
  shows "kept_vat h ext h'"
proof (cases "ks_alloc ks = None \<or> passes_through env h")
  case True
  then show ?thesis using r kept_vat_marks(4) [OF w(1)] by (auto simp: Hooked_HeapAlloc_def split: option.splits)
next
  case False
  then obtain f where f: "ks_alloc ks = Some f" by auto
  obtain tg use where u: "RecordHeapUse (he_ld env) (h_csInit (enter_scope h)) heap sz (he_ra env) (h_use (enter_scope h)) = (tg, use)"
    by (metis prod.exhaust)
  let ?h1 = "(enter_scope h)\<lparr>h_use := use\<rparr>"
  obtain p1 ev1 h2 where s: "kernel_sardine env heap flags sz ?h1 = (p1, ev1, h2)" by (metis prod_cases3)
  obtain p2 ev2 h3 where c: "kernel_create env sz h2 = (p2, ev2, h3)" by (metis prod_cases3)
  have k1: "kept_vat h ext ?h1" using kept_vat_same [OF w(1), of ?h1] by (simp add: enter_scope_def)
  then have k2: "kept_vat h ext h2" using kernel_sardine_step [OF _ s] kept_vat_world kept_vat_trans by blast
  have k3: "kept_vat h ext h3"
    using kernel_create_step [OF _ _ pos c] k2 kept_vat_world [OF k2] w(2) kept_vat_trans by blast
  have "h' = leave_scope h2 \<or> h' = leave_scope h3"
    using r False f u s c by (auto simp: Hooked_HeapAlloc_def kernel_alloc_body_def split: if_splits prod.splits)
  then show ?thesis using k2 k3 kept_vat_marks(2) kept_vat_world kept_vat_trans by blast
qed

lemma Hooked_HeapFree_step:
  assumes w: "world (kcore k) ext" and r: "Hooked_HeapFree env ks heap flags p k = (b, ev, k')"
  shows "kept_vat (kcore k) ext (kcore k')"
proof -
  obtain b1 ev1 h1 where f: "free_on env p (kcore k) = (b1, ev1, h1)" by (metis prod_cases3)
  have k1: "kept_vat (kcore k) ext h1" using free_on_world(1) [OF w f] free_on_vat [OF f] by (simp add: kept_vat_def)
  have k2: "kept_vat (kcore k) ext (leave_scope (enter_scope (kcore k)))"
    using kept_vat_same [OF w] by (simp add: enter_scope_def leave_scope_def)
  obtain c reqs where c: "(if p \<noteq> 0 then ProxyHeapFree (he_sys env) flags p (h_heaps (kcore k)) else (False, [])) = (c, reqs)"
    by (metis prod.exhaust)
  have "kcore k' = kcore k \<or> kcore k' = h1 \<or> kcore k' = leave_scope (enter_scope (kcore k))"
    using r unfolding Hooked_HeapFree_def Let_def c
    by (cases c; cases "p \<noteq> 0 \<and> is_arena_address p (kcore k)"; cases "ks_free ks"; cases "passes_through env (kcore k)") (auto simp: f)
  then show ?thesis using k1 k2 kept_vat_marks(4) [OF w] by auto
qed

text \<open>The move is that of the hook below, but for one counter.\<close>

lemma kernel_move_as_below:
  assumes "move_block env heap flags p sz h = (q, ev, h')"
  shows "\<exists>evk. kernel_move env (hs_alloc (he_sys env)) heap flags p sz h = (q, evk, h') \<and>
    (ev = evk \<or> ev = evk @ tally env ''RtlReAllocHeap_ProxyHandled'' 1)"
proof -
  let ?c = "in_capture_range env h sz \<and> IsProxyActive (h_control h) \<and> \<not> IsShuttingDown (h_control h)"
  obtain q1 ev1 h1 where c: "(if ?c then create_on env sz PAGE_READWRITE LANE_CONTAINED_A h else (0, [], h)) = (q1, ev1, h1)"
    by (metis prod_cases3)
  obtain b2 ev2 h2 where f: "free_on env p h1 = (b2, ev2, h2)" by (metis prod_cases3)
  show ?thesis
    using assms unfolding move_block_def kernel_move_def c
    by (cases "q1 = 0"; cases "hs_alloc (he_sys env) heap flags sz = 0")
      (auto simp: f Let_def split: option.splits)
qed

lemma only_sys [simp]:
  "create_on (env\<lparr>he_sys := s\<rparr>) = create_on env" "free_on (env\<lparr>he_sys := s\<rparr>) = free_on env"
  "in_capture_range (env\<lparr>he_sys := s\<rparr>) = in_capture_range env"
  by (simp_all add: fun_eq_iff create_on_def free_on_def in_capture_range_def split: option.split)

lemma kernel_move_kept:
  assumes w: "world h ext" "size_ok h sz" and pos: "kForceHeapProxyMinSize env \<noteq> 0"
    and r: "kernel_move env f heap flags p sz h = (q, ev, h')"
  shows "kept_vat h ext h'"
proof -
  let ?env = "env\<lparr>he_sys := (he_sys env)\<lparr>hs_alloc := f\<rparr>\<rparr>"
  obtain q1 ev1 h1 where m: "move_block ?env heap flags p sz h = (q1, ev1, h1)" by (metis prod_cases3)
  have "kernel_move ?env f heap flags p sz h = kernel_move env f heap flags p sz h"
    by (simp add: kernel_move_def)
  then have "h' = h1" using kernel_move_as_below [OF m] r by auto
  then show ?thesis using move_block_world(1) [OF w m] move_block_vat [OF m] pos by (simp add: kept_vat_def)
qed

lemma Hooked_HeapReAlloc_step:
  assumes w: "world h ext" "size_ok h sz" and pos: "kForceHeapProxyMinSize env \<noteq> 0"
    and r: "Hooked_HeapReAlloc env ks heap flags p sz h = Some (q, ev, h')"
  shows "kept_vat h ext h'"
proof -
  obtain q2 ev2 h2 where c: "kernel_create env sz (enter_scope h) = (q2, ev2, h2)" by (metis prod_cases3)
  have e: "world (enter_scope h) ext" "size_ok (enter_scope h) sz"
    using w kept_vat_world [OF kept_vat_marks(1) [OF w(1)]] by auto
  have k1: "kept_vat h ext h2" by (rule kept_vat_trans [OF kept_vat_marks(1) [OF w(1)] kernel_create_step [OF e pos c]])
  then have "world h2 ext" using kept_vat_world by blast
  then have k2: "kept_vat h ext (leave_scope h2)" by (rule kept_vat_trans [OF k1 kept_vat_marks(2)])
  show ?thesis
  proof (cases "p \<noteq> 0 \<and> ProxyHeapShardOf p (h_heaps h) = None \<and> is_arena_address p h")
    case True
    then show ?thesis using r kernel_move_kept [OF w pos] by (auto simp: Hooked_HeapReAlloc_def split: option.splits prod.splits)
  next
    case False
    then have "h' = h \<or> h' = leave_scope h2"
      using r c by (auto simp: Hooked_HeapReAlloc_def Let_def split: if_splits option.splits prod.splits)
    then show ?thesis using k2 kept_vat_marks(4) [OF w(1)] by auto
  qed
qed

subsection \<open>The two levels give blocks back alike\<close>

text \<open>No reallocation is passed on to the system's heap.\<close>

definition no_realloc :: "hook_event list \<Rightarrow> bool" where
  "no_realloc ev \<longleftrightarrow> (\<forall>a b c d. RealReAlloc a b c d \<notin> set ev)"

lemma no_realloc_simps [simp]:
  "no_realloc []" "no_realloc (ev @ ev') = (no_realloc ev \<and> no_realloc ev')" "no_realloc (map Tell es)"
  "no_realloc (tally env s x)" "no_realloc (map Ask rs)"
  "no_realloc (RealReAlloc p q n m # ev) = False" "no_realloc (CopyBytes p q n # ev) = no_realloc ev"
  "no_realloc (RealAlloc p q n # ev) = no_realloc ev"
  by (auto simp: no_realloc_def tally_def)

lemma create_on_no_realloc: "create_on env sz pr ln h = (p, ev, h') \<Longrightarrow> no_realloc ev"
  by (auto simp: create_on_def split: option.splits prod.splits)

lemma free_on_no_realloc: "free_on env p h = (b, ev, h') \<Longrightarrow> no_realloc ev"
  by (auto simp: free_on_def split: option.splits prod.splits)

lemma kernel_move_no_realloc:
  assumes "kernel_move env f heap flags p sz h = (q, ev, h')"
  shows "no_realloc ev"
proof -
  let ?c = "in_capture_range env h sz \<and> IsProxyActive (h_control h) \<and> \<not> IsShuttingDown (h_control h)"
  obtain q1 ev1 h1 where c: "(if ?c then create_on env sz PAGE_READWRITE LANE_CONTAINED_A h else (0, [], h)) = (q1, ev1, h1)"
    by (metis prod_cases3)
  have n1: "no_realloc ev1" using c create_on_no_realloc by (auto split: if_splits)
  obtain b2 ev2 h2 where f: "free_on env p h1 = (b2, ev2, h2)" by (metis prod_cases3)
  show ?thesis
    using assms n1 free_on_no_realloc [OF f] unfolding kernel_move_def c
    by (cases "q1 = 0"; auto simp: f Let_def split: option.splits if_splits)
qed

text \<open>C22: A block of the arena or of a live shard goes back to its owner from either level: \<open>HeapFree\<close> and
  \<open>RtlFreeHeap\<close> answer true, leave the same state and do not ask the system.  A reallocation of such
  a block gives the same block, requests (but for one counter) and state at both levels while the
  thread is not marked; on a marked thread \<open>HeapReAlloc\<close> still serves it itself, but
  \<open>RtlReAllocateHeap\<close> hands the foreign block to the system's heap.\<close>

theorem heap_levels_agree:
  assumes "p \<noteq> 0" "fst (ProxyHeapFree (he_sys env) flags p (h_heaps (kcore k))) \<or> is_arena_address p (kcore k)"
    and "Hooked_HeapFree env ks heap flags p k = (b, ev, k')" "Hooked_RtlFreeHeap env heap flags p (kcore k) = (b0, ev0, h0)"
    and "is_arena_address p h \<or> ProxyHeapShardOf p (h_heaps h) \<noteq> None" "h_mm h \<noteq> None" "ks_alloc ks = Some (hs_alloc (he_sys env))"
    and "Hooked_RtlReAllocateHeap env heap flags p n h = (q, ev1, h1)"
  shows "(b \<and> b0 \<and> kcore k' = h0 \<and> Virt (Hook (RealFree heap flags p)) \<notin> set ev \<and> RealFree heap flags p \<notin> set ev0) \<and>
    (\<not> passes_through env h \<longrightarrow> (\<exists>es. Hooked_HeapReAlloc env ks heap flags p n h = Some (q, khook es, h1) \<and>
       (ev1 = es \<or> ev1 = es @ tally env ''RtlReAllocHeap_ProxyHandled'' 1))) \<and>
    (passes_through env h \<longrightarrow> ev1 = [RealReAlloc heap flags p n] \<and>
       (\<forall>r es h'. Hooked_HeapReAlloc env ks heap flags p n h = Some (r, khook es, h') \<longrightarrow> no_realloc es))"
proof (intro conjI impI allI)
  let ?h = "kcore k"
  have tl: "RealFree a b c \<notin> set (tally env s x)" for a b c s x by (auto simp: tally_def)
  obtain b1 e1 h1 where f: "free_on env p ?h = (b1, e1, h1)" by (metis prod_cases3)
  have fo: "RealFree a b c \<notin> set e1" for a b c
    using f by (auto simp: free_on_def split: option.splits prod.splits)
  obtain sh reqs where s: "ProxyHeapFree (he_sys env) flags p (h_heaps ?h) = (sh, reqs)" by (metis prod.exhaust)
  have r: "(sh \<and> ev = khook (map Ask reqs @ tally env ''ProxyHeap_Free'' 1) \<and> ev0 = map Ask reqs @ tally env ''ProxyHeap_Free'' 1 \<and>
        kcore k' = ?h \<and> h0 = ?h) \<or>
      (\<not> sh \<and> ev = khook (e1 @ tally env ''HeapFree_Proxy'' 1) \<and> ev0 = e1 @ tally env ''RtlFreeHeap_Proxy'' 1 \<and>
        kcore k' = h1 \<and> h0 = h1)" and bb: "b" "b0"
    using assms(1-4) s f by (cases sh; auto simp: Hooked_HeapFree_def Hooked_RtlFreeHeap_def Let_def)+
  show "b" "b0" by (rule bb)+
  show "kcore k' = h0" using r by auto
  show "Virt (Hook (RealFree heap flags p)) \<notin> set ev" "RealFree heap flags p \<notin> set ev0"
    using r tl fo by auto
next
  assume np: "\<not> passes_through env h"
  obtain q2 ev2 h2 where m: "move_block env heap flags p n h = (q2, ev2, h2)" by (metis prod_cases3)
  obtain q3 rs where s: "ProxyHeapReAlloc (he_sys env) flags p n (h_heaps h) = (q3, rs)" by (metis prod.exhaust)
  show "\<exists>es. Hooked_HeapReAlloc env ks heap flags p n h = Some (q, khook es, h1) \<and>
       (ev1 = es \<or> ev1 = es @ tally env ''RtlReAllocHeap_ProxyHandled'' 1)"
  proof (cases "ProxyHeapShardOf p (h_heaps h) = None")
    case True
    then show ?thesis using assms(1,5-8) np kernel_move_as_below [OF m] m
      by (auto simp: Hooked_HeapReAlloc_def Hooked_RtlReAllocateHeap_def)
  next
    case False
    then show ?thesis using assms(1,6-8) np s
      by (intro exI [of _ "map Ask rs"]) (auto simp: Hooked_HeapReAlloc_def Hooked_RtlReAllocateHeap_def)
  qed
next
  assume pt: "passes_through env h"
  show "ev1 = [RealReAlloc heap flags p n]"
    using assms(8) pt by (simp add: Hooked_RtlReAllocateHeap_def Let_def)
next
  fix r es h'
  assume a: "Hooked_HeapReAlloc env ks heap flags p n h = Some (r, khook es, h')"
  have inj: "khook es = khook fs \<Longrightarrow> es = fs" for fs by (simp add: inj_map_eq_map inj_def)
  obtain q2 ev2 h2 where m: "kernel_move env (hs_alloc (he_sys env)) heap flags p n h = (q2, ev2, h2)" by (metis prod_cases3)
  obtain q3 rs where s: "ProxyHeapReAlloc (he_sys env) flags p n (h_heaps h) = (q3, rs)" by (metis prod.exhaust)
  have "khook es = khook ev2 \<or> khook es = khook (map Ask rs)"
    using a assms(1,5,7) m s by (auto simp: Hooked_HeapReAlloc_def split: if_splits)
  then have "es = ev2 \<or> es = map Ask rs" using inj by blast
  then show "no_realloc es" using kernel_move_no_realloc [OF m] by auto
qed

subsection \<open>Movable blocks\<close>

text \<open>A release is of a block of the system's heap; creations, allocations and reallocations are of any.\<close>

definition genuine :: "u32 \<Rightarrow> hooks \<Rightarrow> bool" where
  "genuine p h \<longleftrightarrow> p \<noteq> 0 \<and> ProxyHeapShardOf p (h_heaps h) = None \<and> \<not> is_arena_address p h"

definition heap_internal :: "hooks \<Rightarrow> heap_call \<Rightarrow> bool" where
  "heap_internal h c = (case c of CallFree env heap flags p \<Rightarrow> genuine p h | _ \<Rightarrow> True)"

lemma marked_passes:
  assumes "h_inHook h"
  shows "Hooked_RtlAllocateHeap env heap fl sz h = (hs_alloc (he_sys env) heap fl sz, [RealAlloc heap fl sz], h)"
    "Hooked_RtlReAllocateHeap env heap fl p sz h = (hs_realloc (he_sys env) heap fl p sz, [RealReAlloc heap fl p sz], h)"
    "genuine p h \<Longrightarrow> Hooked_RtlFreeHeap env heap fl p h = (hs_free (he_sys env) heap fl p, [RealFree heap fl p], h)"
  using assms by (simp_all add: Hooked_RtlAllocateHeap_def Hooked_RtlReAllocateHeap_def Hooked_RtlFreeHeap_def genuine_def
      ProxyHeapFree_def passes_through_def Let_def)

lemma heap_do_suppressed:
  assumes "h_inHook h" "heap_internal h c"
  shows "heap_do c h = h"
  using assms by (cases c) (simp_all add: marked_passes heap_internal_def Hooked_RtlCreateHeap_def passes_through_def Let_def)

lemma heap_run_suppressed: "h_inHook h \<Longrightarrow> \<forall>c\<in>set calls. heap_internal h c \<Longrightarrow> fold heap_do calls h = h"
  by (induction calls) (simp_all add: heap_do_suppressed)

lemma heap_internal_mark [simp]: "heap_internal (h\<lparr>h_inHook := b\<rparr>) = heap_internal h"
  by (rule ext) (simp add: heap_internal_def genuine_def is_arena_address_def split: heap_call.split)

text \<open>C23: A movable block of the \<open>Global\<close> and \<open>Local\<close> functions is a genuine block of the system's heap.
  In each of the four hooked functions, on any thread, the heap creations, allocations and
  reallocations that the real function makes, and its releases of blocks of the system's heap, come back
  through the hooks and pass through, and the state and the thread's marks are as before: an
  unmarked thread is served by the hooks again.  A function that was not found answers null.\<close>

theorem movable_blocks_are_genuine:
  assumes "\<forall>c\<in>set calls. heap_internal (vh_core v) c" "genuine p (vh_core v)"
  shows "Hooked_GlobalAlloc (Some (\<lambda>flags n v. (block, core (fold heap_do calls) v))) flags n v = (block, v) \<and>
    Hooked_GlobalReAlloc (Some (\<lambda>m n flags v. (block, core (fold heap_do calls) v))) m n flags v = (block, v) \<and>
    Hooked_LocalAlloc (Some (\<lambda>flags n v. (block, core (fold heap_do calls) v))) flags n v = (block, v) \<and>
    Hooked_LocalReAlloc (Some (\<lambda>m n flags v. (block, core (fold heap_do calls) v))) m n flags v = (block, v) \<and>
    Hooked_GlobalAlloc None flags n v = (0, v) \<and> Hooked_GlobalReAlloc None m n flags v = (0, v) \<and>
    Hooked_LocalAlloc None flags n v = (0, v) \<and> Hooked_LocalReAlloc None m n flags v = (0, v) \<and>
    (let h = (vh_core v)\<lparr>h_inHook := True\<rparr>
     in Hooked_RtlAllocateHeap env heap fl sz h = (hs_alloc (he_sys env) heap fl sz, [RealAlloc heap fl sz], h) \<and>
        Hooked_RtlReAllocateHeap env heap fl q sz h = (hs_realloc (he_sys env) heap fl q sz, [RealReAlloc heap fl q sz], h) \<and>
        Hooked_RtlFreeHeap env heap fl p h = (hs_free (he_sys env) heap fl p, [RealFree heap fl p], h))"
proof -
  let ?h = "(vh_core v)\<lparr>h_inHook := True\<rparr>"
  have run: "fold heap_do calls ?h = ?h" using heap_run_suppressed [of ?h calls] assms(1) by simp
  have s: "suppressed (Some (\<lambda>v. (block, core (fold heap_do calls) v))) v = (block, v)"
  proof (cases "h_inHook (vh_core v)")
    case True
    then have "fold heap_do calls (vh_core v) = vh_core v" using heap_run_suppressed assms(1) by blast
    then show ?thesis using True by (simp add: suppressed_def)
  next
    case False
    then show ?thesis by (simp add: suppressed_def run)
  qed
  have none: "suppressed None v = (0, v)" by (simp add: suppressed_def)
  have "h_inHook ?h" "genuine p ?h" using assms(2) by (simp_all add: genuine_def is_arena_address_def)
  note m = marked_passes(1,2) [OF this(1)] marked_passes(3) [OF this]
  show ?thesis unfolding Let_def
    by (simp only: Hooked_GlobalAlloc_def Hooked_GlobalReAlloc_def Hooked_LocalAlloc_def Hooked_LocalReAlloc_def
        option.map s none m simp_thms)
qed

subsection \<open>Callers from audio modules\<close>

text \<open>A small allocation by an audio module is kept out of the shards by \<open>RtlAllocateHeap\<close>, whose
  sardine stage answers nothing and asks no shard; \<open>HeapAlloc\<close>, which is meant to use the same tests, puts
  it into a shard whenever one has room.\<close>

theorem audio_blocks_enter_shards:
  assumes "\<not> passes_through env h" "ks_alloc ks = Some f"
    and "RecordHeapUse (he_ld env) (h_csInit h) heap sz (he_ra env) (h_use h) = (tg, use)" "h1 = (enter_scope h)\<lparr>h_use := use\<rparr>"
    and "ProxyHeapOn (h_heaps h)" "sz > 0" "sz < kHeapSubAllocMax" "\<not> ProxyHeapIsExecHeap heap (s_execHeaps h)"
    and "\<not> HeapIsSardineExcluded (h_csInit h) heap use"
    and "CallerIsGraphicsModule (he_ld env) (h_csInit h) (he_ra env) (h_mods h) = (False, mods)"
    and "CallerIsAudioModule (he_ld env) (h_csInit h) (he_ra env) mods = (True, mods')"
    and "ProxyHeapAlloc (he_sys env) flags sz (h_heaps h) = (q, reqs, ph)" "q \<noteq> 0"
  shows "sardine_stage env heap flags sz h1 = (0, [], h1\<lparr>h_mods := mods'\<rparr>) \<and>
    fst (Hooked_HeapAlloc env ks heap flags sz h) = q"
proof -
  have e: "h_heaps h1 = h_heaps h" "s_execHeaps h1 = s_execHeaps h" "h_csInit h1 = h_csInit h" "h_use h1 = use" "h_mods h1 = h_mods h"
    by (simp_all add: assms(4) enter_scope_def)
  have "sardine_wanted env heap sz h1 = (False, h1\<lparr>h_mods := mods'\<rparr>)"
    using assms(5-11) by (simp add: sardine_wanted_def e)
  moreover have w: "kernel_sardine_wanted env heap sz h1 = (True, h1\<lparr>h_mods := mods\<rparr>)"
    using assms(5-10) by (simp add: kernel_sardine_wanted_def e)
  have "fst (kernel_sardine env heap flags sz h1) = q"
    using assms(12,13) unfolding kernel_sardine_def w by (simp add: e Let_def split: prod.split)
  then obtain ev h2 where k: "kernel_sardine env heap flags sz h1 = (q, ev, h2)" by (metis fst_conv prod_cases3)
  have u: "RecordHeapUse (he_ld env) (h_csInit (enter_scope h)) heap sz (he_ra env) (h_use (enter_scope h)) = (tg, use)"
    using assms(3) by (simp add: enter_scope_def)
  have "fst (Hooked_HeapAlloc env ks heap flags sz h) = q"
    using assms(1,2,13) k unfolding assms(4) by (simp add: Hooked_HeapAlloc_def kernel_alloc_body_def u)
  ultimately show ?thesis by (simp add: sardine_stage_def)
qed

subsection \<open>The properties at a small process\<close>

definition demo_ks :: kernel_sys where
  "demo_ks = \<lparr>ks_alloc = Some (hs_alloc demo_sys), ks_free = Some (\<lambda>heap flags p. True),
     ks_realloc = Some (\<lambda>heap flags p n. p), ks_size = None\<rparr>"

lemma demo_arena_address:
  "is_arena_address p (demo_hooks demo_mm ph) \<longleftrightarrow> 0x20000000 \<le> p \<and> p < 0x60000000"
  unfolding demo_mm_def by (simp add: is_arena_address_def demo_hooks_def IsProxyAddress_mm_def mm_eval arena_eval)

lemma heap_levels_agree_witness:
  "\<exists>ev k' ev0 es q h1. Hooked_HeapFree (demo_env True) demo_ks 0x600000 0 0x20000000
       \<lparr>kh_v = demo_v demo_mm proxy_heaps_init, s_heapFreeOkCount = 0\<rparr> = (True, ev, k') \<and>
     Hooked_RtlFreeHeap (demo_env True) 0x600000 0 0x20000000 (demo_hooks demo_mm proxy_heaps_init) = (True, ev0, kcore k') \<and>
     Hooked_HeapReAlloc (demo_env True) demo_ks 0x600000 0 0x20000000 0x100 (demo_hooks demo_mm proxy_heaps_init) =
       Some (q, khook es, h1)"
proof -
  let ?k = "\<lparr>kh_v = demo_v demo_mm proxy_heaps_init, s_heapFreeOkCount = 0\<rparr>" and ?h = "demo_hooks demo_mm proxy_heaps_init"
  have kc: "kcore ?k = ?h" by simp
  obtain b ev k' where a: "Hooked_HeapFree (demo_env True) demo_ks 0x600000 0 0x20000000 ?k = (b, ev, k')" by (metis prod_cases3)
  obtain b0 ev0 h0 where f: "Hooked_RtlFreeHeap (demo_env True) 0x600000 0 0x20000000 (kcore ?k) = (b0, ev0, h0)" by (metis prod_cases3)
  obtain q ev1 h1 where r: "Hooked_RtlReAllocateHeap (demo_env True) 0x600000 0 0x20000000 0x100 ?h = (q, ev1, h1)" by (metis prod_cases3)
  have own: "is_arena_address 0x20000000 ?h" by (simp add: demo_arena_address)
  have np: "\<not> passes_through (demo_env True) ?h" by (simp add: passes_through_def demo_env_def demo_hooks_def IsShuttingDown_def)
  have ks: "ks_alloc demo_ks = Some (hs_alloc (he_sys (demo_env True)))" by (simp add: demo_ks_def demo_env_def)
  have mm: "h_mm ?h \<noteq> None" by (simp add: demo_hooks_def)
  note x = heap_levels_agree [OF _ disjI2 [OF own [folded kc]] a f disjI1 [OF own] mm ks r]
  show ?thesis using x a f np by auto
qed

lemma movable_blocks_are_genuine_witness:
  "Hooked_LocalReAlloc (Some (\<lambda>m n flags v. (0x600200,
       core (fold heap_do [CallAlloc (demo_env True) 0x600000 0 0x20000, CallReAlloc (demo_env True) 0x600000 0 0x600100 0x30000,
         CallFree (demo_env True) 0x600000 0 0x600100]) v)))
     0x600100 0x30000 2 (demo_v demo_mm proxy_heaps_init) = (0x600200, demo_v demo_mm proxy_heaps_init)"
proof -
  let ?v = "demo_v demo_mm proxy_heaps_init"
  have g: "genuine 0x600100 (vh_core ?v)"
    using demo_arena_address [of "0x600100" proxy_heaps_init]
    by (simp add: genuine_def demo_hooks_def ProxyHeapShardOf_def proxy_heaps_init_def)
  then have "\<forall>c\<in>set [CallAlloc (demo_env True) 0x600000 0 0x20000, CallReAlloc (demo_env True) 0x600000 0 0x600100 0x30000,
         CallFree (demo_env True) 0x600000 0 0x600100]. heap_internal (vh_core ?v) c" by (simp add: heap_internal_def)
  from movable_blocks_are_genuine [OF this g, THEN conjunct2, THEN conjunct2, THEN conjunct2, THEN conjunct1] show ?thesis .
qed

definition no_modules :: loader where
  "no_modules = \<lparr>ld_module = \<lambda>_. None, ld_info = \<lambda>_. None, ld_basename = \<lambda>_. [], ld_filename = \<lambda>_. []\<rparr>"

text \<open>A process whose module at \<open>0x70000000\<close> is known as an audio module.\<close>

definition demo_audio :: hooks where
  "demo_audio = (demo_hooks demo_mm ((demo_shards 1)\<lparr>s_proxyHeapEnabled := True\<rparr>))
     \<lparr>h_csInit := True, h_mods := [\<lparr>cm_base = 0x70000000, cm_end = 0x70010000, cm_gfx = False, cm_audio = True\<rparr>]\<rparr>"

lemma demo_turn: "fst (ProxyHeapAlloc demo_sys 0 64 (demo_shards 1)) = 0x3000100"
  by code_simp

lemma audio_blocks_enter_shards_witness:
  "fst (Hooked_HeapAlloc ((demo_env True)\<lparr>he_ra := 0x70000010\<rparr>) demo_ks 0x600000 0 64 demo_audio) = 0x3000100"
proof -
  let ?e = "(demo_env True)\<lparr>he_ra := 0x70000010\<rparr>" and ?h = demo_audio
  have np: "\<not> passes_through ?e ?h"
    by (simp add: passes_through_def demo_env_def demo_audio_def demo_hooks_def IsShuttingDown_def)
  obtain tg use where u: "RecordHeapUse (he_ld ?e) (h_csInit ?h) 0x600000 64 (he_ra ?e) (h_use ?h) = (tg, use)" by (metis prod.exhaust)
  have "\<not> HeapIsSardineExcluded True 0x600000 (snd (RecordHeapUse no_modules True 0x600000 64 0x70000010 ([], 0, None)))"
    by code_simp
  moreover have "he_ld ?e = no_modules" "h_csInit ?h = True" "h_use ?h = ([], 0, None)"
    by (simp_all add: demo_env_def demo_audio_def demo_hooks_def no_modules_def)
  ultimately have nx: "\<not> HeapIsSardineExcluded (h_csInit ?h) 0x600000 use" using u by simp
  obtain q reqs ph where a: "ProxyHeapAlloc (he_sys ?e) 0 64 (h_heaps ?h) = (q, reqs, ph)" by (metis prod_cases3)
  have "q = fst (ProxyHeapAlloc demo_sys 0 64 (demo_shards 1))"
    using a by (simp add: demo_audio_def demo_hooks_def demo_env_def ProxyHeapAlloc_def Let_def split: if_splits prod.splits)
  then have q: "q = 0x3000100" using demo_turn by simp
  have ks: "ks_alloc demo_ks = Some (hs_alloc demo_sys)" by (simp add: demo_ks_def)
  have m: "CallerIsGraphicsModule (he_ld ?e) (h_csInit ?h) (he_ra ?e) (h_mods ?h) = (False, h_mods ?h)"
    "CallerIsAudioModule (he_ld ?e) (h_csInit ?h) (he_ra ?e) (h_mods ?h) = (True, h_mods ?h)"
    by (simp_all add: CallerIsGraphicsModule_def CallerIsAudioModule_def demo_audio_def in_range_def)
  show ?thesis
    using audio_blocks_enter_shards [OF np ks u refl _ _ _ _ nx m a] q
    by (simp add: demo_audio_def ProxyHeapOn_def kHeapSubAllocMax_def ProxyHeapIsExecHeap_def demo_hooks_def)
qed

end
