(* ===== verification/MemoryRuns.thy ===== *)
theory MemoryRuns
  imports KernelHeapProps
begin

section \<open>Runs of memory calls\<close>

text \<open>
  Sequences of the heap hooks, the kernel-level heap hooks and the virtual-memory hooks over the
  one arena, and what the native hooks leave behind in their thread.
\<close>

subsection \<open>Runs\<close>

datatype mem_call =
    Heap heap_call
  | VAlloc hook_env virt_sys u32 u32 u32 u32
  | VFree hook_env virt_sys u32 u32 u32
  | NtAlloc hook_env virt_sys u32 "u32 option" u32 "u32 option" u32 u32
  | NtAllocEx hook_env virt_sys u32 "u32 option" "u32 option" u32 u32 bool
  | NtFree hook_env virt_sys u32 "u32 option" "u32 option" u32
  | KAlloc hook_env kernel_sys u32 u32 u32
  | KFree hook_env kernel_sys u32 u32 u32
  | KReAlloc hook_env kernel_sys u32 u32 u32 u32
  | Thread bool bool

text \<open>
  A call that ends the process leaves the state.  \<open>Thread\<close>: the next calls are made by a thread
  with these marks.
\<close>

fun mem_do :: "mem_call \<Rightarrow> vhooks \<Rightarrow> vhooks" where
  "mem_do (Heap c) v = core (heap_do c) v"
| "mem_do (VAlloc env vs base sz at pr) v =
     (case Hooked_VirtualAlloc env vs base sz at pr v of None \<Rightarrow> v | Some (p, ev, v') \<Rightarrow> v')"
| "mem_do (VFree env vs a sz ft) v = snd (snd (Hooked_VirtualFree env vs a sz ft v))"
| "mem_do (NtAlloc env vs proc base zb sz at pr) v = snd (snd (Hooked_NtAllocateVirtualMemory env vs proc base zb sz at pr v))"
| "mem_do (NtAllocEx env vs proc base sz at pr x) v = snd (snd (Hooked_NtAllocateVirtualMemoryEx env vs proc base sz at pr x v))"
| "mem_do (NtFree env vs proc base sz ft) v = snd (snd (Hooked_NtFreeVirtualMemory env vs proc base sz ft v))"
| "mem_do (KAlloc env ks heap flags sz) v = core (\<lambda>h. snd (snd (Hooked_HeapAlloc env ks heap flags sz h))) v"
| "mem_do (KFree env ks heap flags p) v =
     kh_v (snd (snd (Hooked_HeapFree env ks heap flags p \<lparr>kh_v = v, s_heapFreeOkCount = 0\<rparr>)))"
| "mem_do (KReAlloc env ks heap flags p sz) v =
     core (\<lambda>h. case Hooked_HeapReAlloc env ks heap flags p sz h of None \<Rightarrow> h | Some (q, ev, h') \<Rightarrow> h') v"
| "mem_do (Thread a i) v = core (\<lambda>h. h\<lparr>h_tlActive := a, h_inHook := i\<rparr>) v"

fun mem_fits :: "hooks \<Rightarrow> mem_call \<Rightarrow> bool" where
  "mem_fits h (Heap c) = call_fits h c"
| "mem_fits h (VAlloc env vs base sz at pr) = size_ok h sz"
| "mem_fits h (NtAlloc env vs proc base zb sz at pr) = pred_option (size_ok h) sz"
| "mem_fits h (NtAllocEx env vs proc base sz at pr x) = pred_option (size_ok h) sz"
| "mem_fits h (KAlloc env ks heap flags sz) = (size_ok h sz \<and> kForceHeapProxyMinSize env \<noteq> 0)"
| "mem_fits h (KReAlloc env ks heap flags p sz) = (size_ok h sz \<and> kForceHeapProxyMinSize env \<noteq> 0)"
| "mem_fits h _ = True"

lemma mem_fits_geo: "arena_geo h' = arena_geo h \<Longrightarrow> mem_fits h' c = mem_fits h c"
proof -
  assume g: "arena_geo h' = arena_geo h"
  have "size_ok h' = size_ok h" by (rule ext) (rule size_ok_geo [OF g])
  then show ?thesis using call_fits_geo [OF g] by (cases c) simp_all
qed

lemma heap_do_step:
  assumes "vworld h lost ext" "call_fits h c"
  shows "vstep h lost ext (heap_do c h) lost"
  using heap_do_kept(1) [of h "h_vat h @ lost @ ext" c] assms heap_do_vat by (simp add: vworld_def vstep_def kept_def)

lemma mem_do_step:
  assumes w: "vworld (vh_core v) lost ext" "mem_fits (vh_core v) c"
  shows "\<exists>l. vstep (vh_core v) lost ext (vh_core (mem_do c v)) l"
proof (cases c)
  case (Heap x1)
  then show ?thesis using heap_do_step [OF w(1)] w(2) by auto
next
  case (VAlloc env vs base sz at pr)
  then show ?thesis using Hooked_VirtualAlloc_step [OF w(1)] vstep_refl [OF w(1)] w(2)
    by (auto split: option.splits)
next
  case (VFree env vs a sz ft)
  then show ?thesis using Hooked_VirtualFree_step [OF w(1)] by (metis mem_do.simps(3) prod.collapse)
next
  case (NtAlloc env vs proc base zb sz at pr)
  then show ?thesis using Hooked_NtAllocateVirtualMemory_step [OF w(1)] w(2)
    by (metis mem_do.simps(4) mem_fits.simps(3) option.pred_inject(2) prod.collapse)
next
  case (NtAllocEx env vs proc base sz at pr x)
  then show ?thesis using Hooked_NtAllocateVirtualMemoryEx_step [OF w(1)] w(2)
    by (metis mem_do.simps(5) mem_fits.simps(4) option.pred_inject(2) prod.collapse)
next
  case (NtFree env vs proc base sz ft)
  then show ?thesis using Hooked_NtFreeVirtualMemory_step [OF w(1)] by (metis mem_do.simps(6) prod.collapse)
next
  case (KAlloc env ks heap flags sz)
  have "vworld (vh_core v) lost ext \<Longrightarrow> world (vh_core v) (h_vat (vh_core v) @ lost @ ext)" by (simp add: vworld_def)
  then show ?thesis using Hooked_HeapAlloc_step kept_vat_vstep w KAlloc by (auto intro!: exI [of _ lost]) (metis prod.collapse)
next
  case (KFree env ks heap flags p)
  let ?k = "\<lparr>kh_v = v, s_heapFreeOkCount = 0\<rparr>"
  have "world (kcore ?k) (h_vat (vh_core v) @ lost @ ext)" using w(1) by (simp add: vworld_def)
  from Hooked_HeapFree_step [OF this] show ?thesis
    using kept_vat_vstep KFree by (metis kheap.select_convs(1) mem_do.simps(8) prod.collapse)
next
  case (KReAlloc env ks heap flags p sz)
  have w': "world (vh_core v) (h_vat (vh_core v) @ lost @ ext)" using w(1) by (simp add: vworld_def)
  show ?thesis
  proof (cases "Hooked_HeapReAlloc env ks heap flags p sz (vh_core v)")
    case None
    then show ?thesis using KReAlloc vstep_refl [OF w(1)] by auto
  next
    case (Some x)
    obtain q ev h' where x: "x = (q, ev, h')" by (metis prod_cases3)
    have "kept_vat (vh_core v) (h_vat (vh_core v) @ lost @ ext) h'"
      using Hooked_HeapReAlloc_step [OF w' _ _ Some [unfolded x]] w(2) KReAlloc by simp
    then show ?thesis using kept_vat_vstep [of "vh_core v" lost ext h'] KReAlloc Some x by auto
  qed
next
  case (Thread a i)
  have "same_arena (vh_core v) (vh_core (mem_do c v))" by (simp add: Thread same_arena_def)
  then show ?thesis using vstep_end vstep_refl [OF w(1)] by blast
qed

lemma mem_run_steps:
  assumes "vworld (vh_core v) lost ext" "\<forall>c\<in>set calls. mem_fits (vh_core v) c"
  shows "\<exists>l. vworld (vh_core (fold mem_do calls v)) l ext \<and> arena_geo (vh_core (fold mem_do calls v)) = arena_geo (vh_core v) \<and>
     (l = lost \<or> kVatMax + length l \<le> length (h_vat (vh_core v)) + length lost + length calls)"
  using assms
proof (induction calls arbitrary: v lost)
  case Nil
  then show ?case by auto
next
  case (Cons c cs)
  let ?v = "mem_do c v"
  obtain l where l: "vstep (vh_core v) lost ext (vh_core ?v) l" using mem_do_step [of v lost ext c] Cons.prems by auto
  have "vworld (vh_core ?v) l ext" "\<forall>c\<in>set cs. mem_fits (vh_core ?v) c"
    using vstep_world [OF l] Cons.prems(2) mem_fits_geo [of "vh_core ?v" "vh_core v"] by auto
  from Cons.IH [OF this] obtain l' where l':
    "vworld (vh_core (fold mem_do cs ?v)) l' ext" "arena_geo (vh_core (fold mem_do cs ?v)) = arena_geo (vh_core ?v)"
    "l' = l \<or> kVatMax + length l' \<le> length (h_vat (vh_core ?v)) + length l + length cs" by blast
  have "length (h_vat (vh_core ?v)) + length l \<le> Suc (length (h_vat (vh_core v)) + length lost)"
    "l = lost \<or> kVatMax \<le> length (h_vat (vh_core v)) \<and> length l = Suc (length lost)" using l by (auto simp: vstep_def)
  then have "l' = lost \<or> kVatMax + length l' \<le> length (h_vat (vh_core v)) + length lost + length (c # cs)" using l'(3) by auto
  then show ?case using l' vstep_world [OF l] by auto
qed

lemma world_live:
  assumes "world h e"
  shows "sorted_wrt apart (arena_live h e)" "\<forall>(p, n)\<in>set (arena_live h e). p \<noteq> 0 \<and> is_arena_address p h"
proof -
  obtain m g where m: "h_mm h = Some (m, g)" "mm_with m e" using assms by (auto simp: world_def)
  then have i: "pa_inv (m_proxyAllocator m) (arena_live h e)" by (simp add: mm_with_def arena_live_def the_mm_def)
  show "sorted_wrt apart (arena_live h e)" by (rule arena.live_apart [OF i])
  show "\<forall>(p, n)\<in>set (arena_live h e). p \<noteq> 0 \<and> is_arena_address p h"
    using arena.live_owned [OF i] m by (auto simp: is_arena_address_def IsProxyAddress_mm_def)
qed

lemma is_arena_address_geo:
  assumes "h_mm h = Some x" "h_mm h' = Some x'" "arena_geo h' = arena_geo h"
  shows "is_arena_address a h' = is_arena_address a h"
  using assms by (cases x; cases x') (simp add: is_arena_address_def IsProxyAddress_mm_def IsProxyAddress_def arena_geo_def the_mm_def)

fun mem_sizes_ok :: "u32 \<Rightarrow> mem_call \<Rightarrow> bool" where
  "mem_sizes_ok gr (Heap c) = call_sizes_ok gr c"
| "mem_sizes_ok gr (VAlloc env vs base sz at pr) = (unat sz + unat gr \<le> 4294967296)"
| "mem_sizes_ok gr (NtAlloc env vs proc base zb sz at pr) = pred_option (\<lambda>n. unat n + unat gr \<le> 4294967296) sz"
| "mem_sizes_ok gr (NtAllocEx env vs proc base sz at pr x) = pred_option (\<lambda>n. unat n + unat gr \<le> 4294967296) sz"
| "mem_sizes_ok gr (KAlloc env ks heap flags sz) = (unat sz + unat gr \<le> 4294967296 \<and> kForceHeapProxyMinSize env \<noteq> 0)"
| "mem_sizes_ok gr (KReAlloc env ks heap flags p sz) = (unat sz + unat gr \<le> 4294967296 \<and> kForceHeapProxyMinSize env \<noteq> 0)"
| "mem_sizes_ok gr _ = True"

lemma mem_sizes_ok_fits: "mem_sizes_ok (fst (arena_geo h)) c \<Longrightarrow> mem_fits h c"
proof (cases c)
  case (Heap x)
  then show "mem_sizes_ok (fst (arena_geo h)) c \<Longrightarrow> ?thesis" using call_sizes_ok_fits by simp
qed (auto simp: size_ok_def option.pred_set)

text \<open>The allocator's own count and sum of what it has handed out are those of what is live.\<close>

abbreviation handed_out :: "memory_manager \<Rightarrow> nat \<times> nat" where
  "handed_out m \<equiv> (unat (m_activeAllocations (m_proxyAllocator m)), unat (m_liveRequestedBytes (m_proxyAllocator m)))"

abbreviation tally_slots :: "(u32 \<times> u32) list \<Rightarrow> nat \<times> nat" where
  "tally_slots xs \<equiv> (length xs, sum_list (map (\<lambda>e. unat (snd e)) xs))"

lemma world_accounted:
  assumes "world h e" shows "tally_slots (arena_live h e) = handed_out (the_mm h)"
proof -
  obtain m g where m: "h_mm h = Some (m, g)" "mm_with m e" using assms by (auto simp: world_def)
  then have i: "pa_inv (m_proxyAllocator m) (arena_live h e)" by (simp add: mm_with_def arena_live_def the_mm_def)
  then show ?thesis using m(1) by (simp add: pa_inv_def the_mm_def)
qed

text \<open>C5: The heap hooks and the virtual-memory hooks, of any threads and in any order, keep one arena
  consistent.  From a fresh manager with its shards, after any sequence of their calls with sizes
  that do not wrap, whatever the system answers: the redirected heap blocks, the redirected virtual
  slots and the shards are pairwise apart, not null and inside the arena; and every slot the
  allocator has handed out, by its own count and sum of bytes, is a record of the manager, an entry
  of the table of virtual slots, one of those the shards took at the start, or lost.  At most as many
  are lost as there are calls beyond 8192, so none in a run of at most 8192 calls.\<close>

theorem memory_hooks_keep_arena:
  assumes "me_page env = 4096" "os_pool (me_os env) (of_nat kNodePoolBytes) \<noteq> 0"
    and "range_ok (new_gran env) (ReserveArenaContiguous (me_os env) (new_gran env) PROXY_ARENA_SIZE) PROXY_ARENA_SIZE"
    and "MemoryManager_Initialize env (MemoryManager_init env) = (ok, ev, m)"
    and "req_ok (new_gran env) (shard_bytes env)"
    and "ProxyHeapInit env passive rtl heapCreate (proxy_heaps_init, Some m) = (ph, Some m1)"
    and "\<forall>i. heapCreate i \<noteq> 0 \<longrightarrow> \<not> IsProxyAddress (heapCreate i) (m_proxyAllocator m)"
    and "h_mm (vh_core v) = Some (m1, g)" "h_heaps (vh_core v) = ph" "h_vat (vh_core v) = []"
    and "\<forall>c\<in>set calls. mem_sizes_ok (new_gran env) c"
    and "h' = vh_core (fold mem_do calls v)"
  shows "\<exists>lost ext. sorted_wrt apart (arena_live h' (h_vat h' @ lost @ ext)) \<and>
    (\<forall>(p, n)\<in>set (arena_live h' (h_vat h' @ lost @ ext)). p \<noteq> 0 \<and> is_arena_address p h') \<and>
    (\<forall>s\<in>set (s_proxyHeaps ph). is_arena_address (sh_lo s) h' \<longrightarrow> (sh_lo s, sh_hi s - sh_lo s) \<in> set ext) \<and>
    tally_slots (arena_live h' (h_vat h' @ lost @ ext)) = handed_out (the_mm h') \<and> tally_slots ext = handed_out m1 \<and>
    length lost \<le> length calls - 8192"
proof -
  note i = mm_start [OF assms(1-4)]
  obtain ext where e: "same_geo m m1" "mm_with m1 ext" "m_allocations m1 = []" "\<forall>s\<in>set (s_proxyHeaps ph). shard_home ext heapCreate (shard_bytes env) s"
    using ProxyHeapInit_step [OF i(2) _ assms(6)] i(3,4) assms(5) by auto
  have t: "tally_slots ext = handed_out m1" using e(2,3) by (simp add: mm_with_def pa_inv_def mm_sizes_def)
  have w: "vworld (vh_core v) [] ext" using assms(8,10) e(2) by (simp add: vworld_def world_def)
  have gr: "fst (arena_geo (vh_core v)) = new_gran env"
    using e(1) i(4) assms(8) by (simp add: same_geo_def arena_geo_def the_mm_def)
  have "\<forall>c\<in>set calls. mem_fits (vh_core v) c" using assms(11) mem_sizes_ok_fits [of "vh_core v"] gr by auto
  from mem_run_steps [OF w this] obtain l where l: "vworld h' l ext" "arena_geo h' = arena_geo (vh_core v)"
    "l = [] \<or> kVatMax + length l \<le> length calls" using assms(10,12) by auto
  have w': "world h' (h_vat h' @ l @ ext)" using l(1) by (simp add: vworld_def)
  then obtain x' where x': "h_mm h' = Some x'" by (auto simp: world_def)
  have "is_arena_address a h' = IsProxyAddress a (m_proxyAllocator m)" for a
    using is_arena_address_geo [OF assms(8) x' l(2)] e(1) assms(8)
    by (simp add: is_arena_address_def IsProxyAddress_mm_def IsProxyAddress_def same_geo_def)
  then have "\<forall>s\<in>set (s_proxyHeaps ph). is_arena_address (sh_lo s) h' \<longrightarrow> (sh_lo s, sh_hi s - sh_lo s) \<in> set ext"
    using e(4) assms(7) by (fastforce simp: shard_home_def)
  moreover have "length l \<le> length calls - 8192" using l(3) by (auto simp: kVatMax_def)
  ultimately show ?thesis using world_live [OF w'] world_accounted [OF w'] t by (intro exI [of _ l] exI [of _ ext] conjI)
qed

subsection \<open>The native hooks keep their mark\<close>

fun native_call :: "mem_call \<Rightarrow> bool" where
  "native_call (NtAlloc env vs proc base zb sz at pr) = (base \<noteq> None \<and> sz \<noteq> None)"
| "native_call (NtAllocEx env vs proc base sz at pr x) = (vs_nt_alloc_ex vs \<noteq> None \<and> base \<noteq> None \<and> sz \<noteq> None)"
| "native_call (NtFree env vs proc base sz ft) = (base \<noteq> None)"
| "native_call _ = False"

fun call_env :: "mem_call \<Rightarrow> hook_env option" where
  "call_env (NtAlloc env vs proc base zb sz at pr) = Some env"
| "call_env (NtAllocEx env vs proc base sz at pr x) = Some env"
| "call_env (NtFree env vs proc base sz ft) = Some env"
| "call_env _ = None"

fun same_thread :: "mem_call \<Rightarrow> bool" where
  "same_thread (Thread a i) = False"
| "same_thread _ = True"

lemma leave_nt_marks [simp]: "h_inHook (leave_nt h) = h_inHook h"
  by (simp add: leave_nt_def)

lemma redirect_slot_marks: "redirect_slot env sz pr h = (p, r, h') \<Longrightarrow> h_inHook h' = h_inHook h"
  by (auto simp: redirect_slot_def split: option.splits prod.splits if_splits)

lemma corral_free_on_marks: "corral_free_on env a h = (ev, h') \<Longrightarrow> h_inHook h' = h_inHook h"
  by (auto simp: corral_free_on_def split: option.splits prod.splits)

lemma release_ours_marks: "release_ours env a ft h = (b, ev, h') \<Longrightarrow> h_inHook h' = h_inHook h"
  by (auto simp: release_ours_def free_tracked_def dest!: retire_frame corral_free_on_marks
      split: if_splits option.splits prod.splits)

lemma if_slot_marks: "(if c then redirect_slot env sz pr h else (0, [], h)) = (p, r, h') \<Longrightarrow> h_inHook h' = h_inHook h"
  by (auto dest: redirect_slot_marks split: if_splits)

lemma nt_allocate_body_marks:
  assumes "nt_allocate_body env vs proc base zb sz at pr v = (res, ev, v')"
  shows "h_inHook (vh_core v') = h_inHook (vh_core v)"
proof -
  let ?h = "if own_process vs proc
    then (vh_core v)\<lparr>h_control := EnsureProxyActiveForVirtualPath sz at pr (h_control (vh_core v))\<rparr> else vh_core v"
  let ?rd = "own_process vs proc \<and> redirectable base sz at pr ?h"
  have h: "vh_core (if own_process vs proc
    then core (\<lambda>h. h\<lparr>h_control := EnsureProxyActiveForVirtualPath sz at pr (h_control h)\<rparr>) v else v) = ?h" by simp
  obtain p reason h1 where p: "(if ?rd then redirect_slot env sz pr ?h else (0, [], ?h)) = (p, reason, h1)" by (metis prod_cases3)
  have "vh_core v' = h1"
    using assms unfolding nt_allocate_body_def Let_def h p
    by (auto simp: dest!: local_reserve_core split: if_splits prod.splits)
  then show ?thesis using if_slot_marks [OF p] by simp
qed

lemma nt_allocate_ex_body_marks:
  assumes "nt_allocate_ex_body env vs f proc base sz at pr x v = (res, ev, v')"
  shows "h_inHook (vh_core v') = h_inHook (vh_core v)"
proof -
  let ?rd = "own_process vs proc \<and> redirectable base sz at pr (vh_core v) \<and> \<not> x"
  obtain p reason h1 where p: "(if ?rd then redirect_slot env sz pr (vh_core v) else (0, [], vh_core v)) = (p, reason, h1)"
    by (metis prod_cases3)
  have "vh_core v' = h1"
    using assms unfolding nt_allocate_ex_body_def Let_def p by (auto split: if_splits prod.splits)
  then show ?thesis using if_slot_marks [OF p] by simp
qed

lemma native_call_marks:
  assumes "native_call c" "call_env c = Some env" "\<not> passes_through env (vh_core v)" "h_mm (vh_core v) \<noteq> None"
  shows "h_inHook (vh_core (mem_do c v))"
proof (cases c)
  case (NtAlloc e vs proc base zb sz at pr)
  obtain r ev v1 where b: "nt_allocate_body e vs proc (the base) zb (the sz) at pr (core enter_nt v) = (r, ev, v1)" by (metis prod_cases3)
  show ?thesis using assms NtAlloc b nt_allocate_body_marks [OF b]
    by (auto simp: Hooked_NtAllocateVirtualMemory_def enter_nt_def enter_scope_def)
next
  case (NtAllocEx e vs proc base sz at pr x)
  then obtain f b n where o': "vs_nt_alloc_ex vs = Some f" "base = Some b" "sz = Some n" using assms(1) by auto
  obtain r ev v1 where b: "nt_allocate_ex_body e vs f proc b n at pr x (core enter_nt v) = (r, ev, v1)" by (metis prod_cases3)
  show ?thesis using assms NtAllocEx o' b nt_allocate_ex_body_marks [OF b]
    by (auto simp: Hooked_NtAllocateVirtualMemoryEx_def enter_nt_def enter_scope_def)
next
  case (NtFree e vs proc base sz ft)
  then obtain a where a: "base = Some a" using assms(1) by auto
  obtain b ev h1 where b: "release_ours e a ft (enter_nt (vh_core v)) = (b, ev, h1)" by (metis prod_cases3)
  show ?thesis using assms NtFree a b release_ours_marks [OF b]
    by (cases b) (auto simp: Hooked_NtFreeVirtualMemory_def Let_def enter_nt_def enter_scope_def)
qed (use assms in auto)

lemma in_hook_passes: "h_inHook h \<Longrightarrow> passes_through env h"
  by (simp add: passes_through_def)

lemma heap_do_in_hook:
  assumes "h_inHook h"
  shows "h_inHook (heap_do c h)"
proof (cases c)
  case (CallFree env heap flags p)
  obtain b ev h1 where f: "free_on env p h = (b, ev, h1)" by (metis prod_cases3)
  have "h_inHook h1 = h_inHook h" using f by (auto simp: free_on_def split: option.splits prod.splits)
  then show ?thesis using CallFree assms f by (simp add: Hooked_RtlFreeHeap_def split: prod.split bool.split)
qed (use assms in \<open>simp_all add: Hooked_RtlCreateHeap_def Hooked_RtlAllocateHeap_def Hooked_RtlReAllocateHeap_def
    in_hook_passes Let_def\<close>)

lemma free_on_world_marks: "free_on env p h = (b, ev, h') \<Longrightarrow> h_inHook h' = h_inHook h"
  by (auto simp: free_on_def split: option.splits prod.splits)

lemma create_on_in_hook: "create_on env sz pr ln h = (p, ev, h') \<Longrightarrow> h_inHook h' = h_inHook h"
  by (auto simp: create_on_def split: option.splits prod.splits)

lemma kernel_move_marks: "kernel_move env f heap flags p sz h = (q, ev, h') \<Longrightarrow> h_inHook h' = h_inHook h"
  by (auto simp: kernel_move_def Let_def dest!: free_on_world_marks create_on_in_hook split: if_splits prod.splits)

lemma mem_do_in_hook:
  assumes "h_inHook (vh_core v)" "same_thread c"
  shows "h_inHook (vh_core (mem_do c v))"
proof (cases c)
  case (Heap x)
  then show ?thesis using heap_do_in_hook assms by simp
next
  case (VFree env vs a sz ft)
  obtain b ev h1 where r: "release_ours env a ft (vh_core v) = (b, ev, h1)" by (metis prod_cases3)
  have "h_inHook h1" using release_ours_marks [OF r] assms by simp
  then show ?thesis using VFree r
    by (cases b) (simp_all add: Hooked_VirtualFree_def Let_def in_hook_passes split: option.split)
next
  case (KFree env ks heap flags p)
  obtain b1 ev1 h1 where f: "free_on env p (vh_core v) = (b1, ev1, h1)" by (metis prod_cases3)
  have "h_inHook h1" using free_on_world_marks [OF f] assms by simp
  then show ?thesis using KFree assms f
    by (simp add: Hooked_HeapFree_def in_hook_passes Let_def split: prod.split bool.split option.split)
next
  case (KReAlloc env ks heap flags p sz)
  have "h_inHook h1" if "kernel_move env f heap flags p sz (vh_core v) = (q1, ev1, h1)" for f q1 ev1 h1
    using kernel_move_marks [OF that] assms by simp
  then show ?thesis using KReAlloc assms
    by (auto simp: Hooked_HeapReAlloc_def in_hook_passes split: option.split prod.split)
qed (use assms in \<open>auto simp: Hooked_HeapAlloc_def Hooked_VirtualAlloc_def Hooked_NtAllocateVirtualMemory_def Hooked_NtAllocateVirtualMemoryEx_def
    Hooked_NtFreeVirtualMemory_def in_hook_passes Let_def split: option.split\<close>)

lemma mem_run_in_hook:
  assumes "h_inHook (vh_core v)" "\<forall>c\<in>set calls. same_thread c"
  shows "h_inHook (vh_core (fold mem_do calls v))"
  using assms by (induction calls arbitrary: v) (simp_all add: mem_do_in_hook)

text \<open>C26: The native hooks set the in-hook mark of their thread and never clear it.  After one
  \<open>NtAllocateVirtualMemory\<close>, \<open>NtFreeVirtualMemory\<close> or \<open>NtAllocateVirtualMemoryEx\<close> that did not pass
  through, whatever that thread does next it stays marked, and every heap or virtual allocation
  it makes goes straight to the system, and so does a reallocation, also of a block of the arena
  or of a shard, which the system's heap does not know.\<close>

theorem native_hooks_silence_thread:
  assumes "native_call c" "call_env c = Some env" "\<not> passes_through env (vh_core v)" "h_mm (vh_core v) \<noteq> None"
    and "\<forall>c\<in>set calls. same_thread c" "v' = fold mem_do (c # calls) v"
  shows "h_inHook (vh_core v') \<and>
    (\<forall>e heap flags n. Hooked_RtlAllocateHeap e heap flags n (vh_core v') =
       (hs_alloc (he_sys e) heap flags n, [RealAlloc heap flags n], vh_core v')) \<and>
    (\<forall>e heap flags p n. Hooked_RtlReAllocateHeap e heap flags p n (vh_core v') =
       (hs_realloc (he_sys e) heap flags p n, [RealReAlloc heap flags p n], vh_core v')) \<and>
    (\<forall>e vs f base n at pr. vs_alloc vs = Some f \<longrightarrow>
       Hooked_VirtualAlloc e vs base n at pr v' = Some (f base n at pr, [RealVirtualAlloc base n at pr], v'))"
proof -
  have "h_inHook (vh_core v')"
    using mem_run_in_hook [OF native_call_marks [OF assms(1-4)] assms(5)] assms(6) by simp
  then show ?thesis by (simp add: Hooked_RtlAllocateHeap_def Hooked_RtlReAllocateHeap_def Hooked_VirtualAlloc_def in_hook_passes Let_def)
qed

subsection \<open>The runs of a small process\<close>

lemma memory_hooks_keep_arena_witness:
  "\<exists>m1 ph h' lost ext. ProxyHeapInit (demo_mm_env True) False (Some (\<lambda>slot n. slot)) (\<lambda>i. 0) (proxy_heaps_init, Some demo_mm) = (ph, Some m1) \<and>
     h' = vh_core (fold mem_do [VAlloc (demo_env True) demo_vs 0 0x20000 0x2000 4, Heap (CallAlloc (demo_env True) 0x600000 0 0x20000),
            NtAlloc (demo_env True) demo_vs 0xFFFFFFFF (Some 0) 0 (Some 0x30000) 0x2000 4, Thread False False,
            VFree (demo_env True) demo_vs 0x20000000 0 0x8000] (demo_v m1 ph)) \<and>
     sorted_wrt apart (arena_live h' (h_vat h' @ lost @ ext)) \<and> lost = [] \<and>
     tally_slots (arena_live h' (h_vat h' @ ext)) = handed_out (the_mm h') \<and> tally_slots ext = handed_out m1"
proof -
  obtain ok ev where i: "MemoryManager_Initialize (demo_mm_env True) (MemoryManager_init (demo_mm_env True)) = (ok, ev, demo_mm)"
    using demo_mm_started by blast
  have ro: "range_ok (new_gran (demo_mm_env True))
      (ReserveArenaContiguous (me_os (demo_mm_env True)) (new_gran (demo_mm_env True)) PROXY_ARENA_SIZE) PROXY_ARENA_SIZE"
    using demo_mm_geo(3,4) by simp
  have rq: "req_ok (new_gran (demo_mm_env True)) (shard_bytes (demo_mm_env True))"
    using demo_mm_geo(3) by (simp add: demo_shard_bytes req_ok_def)
  note st = mm_start [OF demo_mm_geo(1,2) ro i]
  obtain ph mm' where u: "ProxyHeapInit (demo_mm_env True) False (Some (\<lambda>slot n. slot)) (\<lambda>i. 0) (proxy_heaps_init, Some demo_mm) = (ph, mm')"
    by (metis prod.exhaust)
  then obtain m1 where m1: "mm' = Some m1"
    using ProxyHeapInit_step [OF st(2) _ u] st(4) rq by auto
  let ?calls = "[VAlloc (demo_env True) demo_vs 0 0x20000 0x2000 4, Heap (CallAlloc (demo_env True) 0x600000 0 0x20000),
            NtAlloc (demo_env True) demo_vs 0xFFFFFFFF (Some 0) 0 (Some 0x30000) 0x2000 4, Thread False False,
            VFree (demo_env True) demo_vs 0x20000000 0 0x8000]"
  have h: "h_mm (vh_core (demo_v m1 ph)) = Some (m1, create_globals_init)" "h_heaps (vh_core (demo_v m1 ph)) = ph"
    "h_vat (vh_core (demo_v m1 ph)) = []" by (simp_all add: demo_hooks_def)
  have c: "\<forall>c\<in>set ?calls. mem_sizes_ok (new_gran (demo_mm_env True)) c" using demo_mm_geo(3) by (simp add: demo_env_def)
  have n: "\<forall>i. (0 :: u32) \<noteq> 0 \<longrightarrow> \<not> IsProxyAddress 0 (m_proxyAllocator demo_mm)" by simp
  obtain l e where r: "sorted_wrt apart (arena_live (vh_core (fold mem_do ?calls (demo_v m1 ph)))
      (h_vat (vh_core (fold mem_do ?calls (demo_v m1 ph))) @ l @ e))"
    "tally_slots (arena_live (vh_core (fold mem_do ?calls (demo_v m1 ph)))
      (h_vat (vh_core (fold mem_do ?calls (demo_v m1 ph))) @ l @ e)) = handed_out (the_mm (vh_core (fold mem_do ?calls (demo_v m1 ph))))"
    "tally_slots e = handed_out m1" "length l \<le> length ?calls - 8192"
    using memory_hooks_keep_arena [OF demo_mm_geo(1,2) ro i rq u [unfolded m1] n h c refl] by blast
  have "length l = 0" using r(4) by simp
  then have l: "l = []" by simp
  show ?thesis
    by (intro exI conjI) (rule u [unfolded m1], rule refl, rule r(1), rule l, rule r(2) [unfolded l append_Nil], rule r(3))
qed

lemma native_hooks_silence_thread_witness:
  "\<exists>v'. v' = fold mem_do [NtAlloc (demo_env True) demo_vs 0xFFFFFFFF (Some 0x10000) 0 (Some 0x1000) 0x1000 4,
       Heap (CallFree (demo_env True) 0x600000 0 0x610000)] (demo_v demo_mm proxy_heaps_init) \<and>
     Hooked_RtlAllocateHeap (demo_env True) 0x600000 0 0x20000 (vh_core v') =
       (0x600100, [RealAlloc 0x600000 0 0x20000], vh_core v')"
proof -
  let ?c = "NtAlloc (demo_env True) demo_vs 0xFFFFFFFF (Some 0x10000) 0 (Some 0x1000) 0x1000 4"
  let ?v = "fold mem_do [?c, Heap (CallFree (demo_env True) 0x600000 0 0x610000)] (demo_v demo_mm proxy_heaps_init)"
  have p: "\<not> passes_through (demo_env True) (vh_core (demo_v demo_mm proxy_heaps_init))"
    by (simp add: passes_through_def demo_env_def demo_hooks_def IsShuttingDown_def)
  have m: "h_mm (vh_core (demo_v demo_mm proxy_heaps_init)) \<noteq> None" by (simp add: demo_hooks_def)
  have "native_call ?c" "call_env ?c = Some (demo_env True)"
    "\<forall>c\<in>set [Heap (CallFree (demo_env True) 0x600000 0 0x610000)]. same_thread c" by simp_all
  from native_hooks_silence_thread [OF this(1,2) p m this(3) refl, THEN conjunct2, THEN conjunct1]
  have "Hooked_RtlAllocateHeap (demo_env True) 0x600000 0 0x20000 (vh_core ?v) =
      (hs_alloc (he_sys (demo_env True)) 0x600000 0 0x20000, [RealAlloc 0x600000 0 0x20000], vh_core ?v)" by blast
  then show ?thesis by (intro exI [of _ ?v]) (simp only: demo_env_def demo_sys_def hook_env.simps heap_sys.simps, simp)
qed

end
