(* ===== verification/VasScan.thy ===== *)
theory VasScan
  imports MemoryManager LocalVas Monitors
begin

section \<open>Scans of the address space and their reports\<close>

text \<open>
  The part of \<open>HeartbeatMonitor.cpp\<close> that looks at the process: the walk with
  \<open>VirtualQuery\<close>, the free totals, the phase snapshot, the table of regions, the leak-hunter
  snapshot and the differences between two snapshots.  \<open>VirtualQuery\<close> is a parameter, one
  function per walk (the address space changes from one walk to the next).  A line of a report
  is a constructor with the values it prints; where the code prints a quotient of doubles the
  line carries dividend and divisor.
\<close>

subsection \<open>The walk\<close>

text \<open>The fields of \<open>MEMORY_BASIC_INFORMATION\<close> the scans read, and the constants they compare with.\<close>

record region =
  rg_base :: u32
  rg_size :: u32
  rg_state :: u32
  rg_type :: u32

definition MEM_FREE :: u32 where "MEM_FREE = 0x10000"
definition MEM_PRIVATE :: u32 where "MEM_PRIVATE = 0x20000"
definition MEM_MAPPED :: u32 where "MEM_MAPPED = 0x40000"
definition MEM_IMAGE :: u32 where "MEM_IMAGE = 0x1000000"

type_synonym vquery = "u32 \<Rightarrow> region option"

text \<open>
  The regions the loop visits, in its order: it ends when \<open>VirtualQuery\<close> has no answer or the
  next address does not lie above this one.
\<close>

function vas_regions :: "vquery \<Rightarrow> u32 \<Rightarrow> region list" where
  "vas_regions q addr =
     (case q addr of
        None \<Rightarrow> []
      | Some r \<Rightarrow>
          (let nextAddr = rg_base r + rg_size r
           in r # (if nextAddr \<le> addr then [] else vas_regions q nextAddr)))"
  by auto
termination
proof (relation "measure (\<lambda>(q, addr). 4294967296 - unat addr)", goal_cases)
  case 1
  then show ?case by simp
next
  case (2 q addr r nextAddr)
  then show ?case using unat_lt_2p32 [of nextAddr] by (auto simp: u32_unat not_le)
qed

declare vas_regions.simps [simp del]

definition mib :: "u32 \<Rightarrow> u32" where
  "mib n = n div (1024 * 1024)"

text \<open>\<open>GetProcessMemoryInfo\<close>: all free bytes, and the largest free region.\<close>

definition add_free :: "region \<Rightarrow> u32 \<times> u32 \<Rightarrow> u32 \<times> u32" where
  "add_free r acc =
     (case acc of (totalFree, largestFree) \<Rightarrow>
        if rg_state r = MEM_FREE
        then (totalFree + rg_size r, if rg_size r > largestFree then rg_size r else largestFree)
        else acc)"

definition GetProcessMemoryInfo :: "vquery \<Rightarrow> u32 \<times> u32" where
  "GetProcessMemoryInfo q = fold add_free (vas_regions q 0) (0, 0)"

subsection \<open>The phase snapshot\<close>

record VasPhaseSnapshot =
  totalFreeMb :: u32
  largestFreeMb :: u32
  freeRegions :: u32
  freeBucket :: "u32 list"
  commitPrivateMb :: u32
  commitImageMb :: u32
  commitMappedMb :: u32
  reserveMb :: u32
  reservePrivateMb :: u32
  reserveMappedMb :: u32
  ps_alloc :: RtlAllocSnapshot
  ps_beat :: u32
  ps_tickMs :: u64

definition free_bucket :: "u32 \<Rightarrow> nat" where
  "free_bucket mb =
     (if mb < 1 then 0 else if mb < 4 then 1 else if mb < 16 then 2 else if mb < 64 then 3
      else if mb < 256 then 4 else 5)"

definition bump_at :: "nat \<Rightarrow> u32 list \<Rightarrow> u32 list" where
  "bump_at i xs = xs[i := xs ! i + 1]"

definition scan_region :: "region \<Rightarrow> VasPhaseSnapshot \<Rightarrow> VasPhaseSnapshot" where
  "scan_region r s =
     (let mb = mib (rg_size r)
      in if rg_state r = MEM_FREE
         then s\<lparr>freeRegions := freeRegions s + 1, totalFreeMb := totalFreeMb s + mb,
                largestFreeMb := (if mb > largestFreeMb s then mb else largestFreeMb s),
                freeBucket := bump_at (free_bucket mb) (freeBucket s)\<rparr>
         else if rg_state r = MEM_COMMIT
         then (if rg_type r = MEM_PRIVATE then s\<lparr>commitPrivateMb := commitPrivateMb s + mb\<rparr>
               else if rg_type r = MEM_IMAGE then s\<lparr>commitImageMb := commitImageMb s + mb\<rparr>
               else s\<lparr>commitMappedMb := commitMappedMb s + mb\<rparr>)
         else if rg_state r = MEM_RESERVE
         then (let s = s\<lparr>reserveMb := reserveMb s + mb\<rparr>
               in if rg_type r = MEM_MAPPED then s\<lparr>reserveMappedMb := reserveMappedMb s + mb\<rparr>
                  else s\<lparr>reservePrivateMb := reservePrivateMb s + mb\<rparr>)
         else s)"

text \<open>
  \<open>now\<close> is the clock, \<open>alloc\<close> what \<open>CaptureAllocSnapshot\<close> returns; the fields are cleared
  before the walk fills them.
\<close>

definition blank_snap :: "u64 \<Rightarrow> RtlAllocSnapshot \<Rightarrow> u32 \<Rightarrow> VasPhaseSnapshot" where
  "blank_snap now alloc beat =
     \<lparr>totalFreeMb = 0, largestFreeMb = 0, freeRegions = 0, freeBucket = replicate 6 0,
      commitPrivateMb = 0, commitImageMb = 0, commitMappedMb = 0, reserveMb = 0,
      reservePrivateMb = 0, reserveMappedMb = 0, ps_alloc = alloc, ps_beat = beat, ps_tickMs = now\<rparr>"

definition CaptureVasPhaseSnapshot :: "u64 \<Rightarrow> vquery \<Rightarrow> RtlAllocSnapshot \<Rightarrow> u32 \<Rightarrow> VasPhaseSnapshot" where
  "CaptureVasPhaseSnapshot now q alloc beat =
     fold scan_region (vas_regions q 0) (blank_snap now alloc beat)"

definition frag_score :: "VasPhaseSnapshot \<Rightarrow> u32" where
  "frag_score s =
     (if totalFreeMb s > 0
      then ucast ((ucast (largestFreeMb s) :: u64) * 100 div ucast (totalFreeMb s)) else 0)"

text \<open>The four lines of \<open>LogVasSnapshot\<close>, as the numbers after the label.\<close>

definition snapshot_lines :: "VasPhaseSnapshot \<Rightarrow> u32 list list" where
  "snapshot_lines s =
     [[totalFreeMb s, largestFreeMb s, frag_score s, freeRegions s],
      [commitPrivateMb s, commitImageMb s, commitMappedMb s, reserveMb s],
      [commitPrivateMb s + reservePrivateMb s, commitMappedMb s + reserveMappedMb s, commitImageMb s],
      freeBucket s]"

definition LogVasSnapshot :: "bool \<Rightarrow> u64 \<Rightarrow> vquery \<Rightarrow> RtlAllocSnapshot \<Rightarrow> string \<Rightarrow> (string \<times> u32 list list) option" where
  "LogVasSnapshot logger now q alloc label =
     (if \<not> logger then None
      else Some (label, snapshot_lines (CaptureVasPhaseSnapshot now q alloc 0)))"

subsection \<open>Size distributions\<close>

definition kSizeBandLbl :: "string list" where
  "kSizeBandLbl = [''0-4KB'', ''4-64KB'', ''64-256KB'', ''256-512KB'', ''512KB-1MB'', ''1-4MB'', ''4-16MB'', ''16MB+'']"

text \<open>
  A header carries the channel, the title, the sum and, in the count view with byte counters,
  the megabytes; a row its label, the band's value and the sum its share is taken of, and the
  figure in brackets.
\<close>

datatype size_line =
    SizeHeader string string u64 "u64 option"
  | SizeRow string u64 u64 u64

definition PrintSizeDistribution ::
  "bool \<Rightarrow> (string \<Rightarrow> u64) option \<Rightarrow> string \<Rightarrow> string \<Rightarrow> string list \<Rightarrow> bool \<Rightarrow> string list option \<Rightarrow> size_line list" where
  "PrintSizeDistribution logger counters channel title ctr asBytes byteCtr =
     (case counters of
        None \<Rightarrow> []
      | Some c \<Rightarrow>
          if \<not> logger then []
          else (let val = map c ctr;
                    total = sum_list val;
                    extraBytes = (case byteCtr of Some bs \<Rightarrow> if asBytes then 0 else sum_list (map c bs) | None \<Rightarrow> 0)
                in if total = 0 then []
                   else (if asBytes then SizeHeader channel title (total div MB) None
                         else if byteCtr \<noteq> None then SizeHeader channel title total (Some (extraBytes div MB))
                         else SizeHeader channel title total None) #
                        map (\<lambda>(l, v). SizeRow l v total (if asBytes then v div MB else v)) (zip kSizeBandLbl val)))"

text \<open>The counters of a distribution: a prefix and the eight bands.\<close>

definition band_counters :: "string \<Rightarrow> string list" where
  "band_counters pre =
     map ((@) pre) [''0to4KB'', ''4to64KB'', ''64to256KB'', ''256to512KB'', ''512KBto1MB'', ''1to4MB'', ''4to16MB'', ''16MBplus'']"

definition ReportAllocSizeDistribution :: "bool \<Rightarrow> (string \<Rightarrow> u64) option \<Rightarrow> size_line list" where
  "ReportAllocSizeDistribution lg cs =
     PrintSizeDistribution lg cs ''ALLOC_SIZE_DIST'' ''block-size distribution'' (band_counters ''AllocSize_'') False None"

definition ReportAllocBytesDistribution :: "bool \<Rightarrow> (string \<Rightarrow> u64) option \<Rightarrow> size_line list" where
  "ReportAllocBytesDistribution lg cs =
     PrintSizeDistribution lg cs ''ALLOC_BYTES_DIST'' ''block-size distribution by BYTES'' (band_counters ''AllocBytes_'') True None"

definition ReportProxySizeDistribution :: "bool \<Rightarrow> (string \<Rightarrow> u64) option \<Rightarrow> size_line list" where
  "ReportProxySizeDistribution lg cs =
     PrintSizeDistribution lg cs ''ALLOC_SIZE_DIST'' ''proxy redirect size distribution''
       (band_counters ''ProxySize_'') False (Some (band_counters ''ProxyBytes_''))"

definition ReportProxyFreeSizeDistribution :: "bool \<Rightarrow> (string \<Rightarrow> u64) option \<Rightarrow> size_line list" where
  "ReportProxyFreeSizeDistribution lg cs =
     PrintSizeDistribution lg cs ''ALLOC_SIZE_DIST'' ''proxy free size distribution''
       (band_counters ''FreeSize_'') False (Some (band_counters ''FreeBytes_''))"

definition ReportHeapLocalDistribution :: "bool \<Rightarrow> (string \<Rightarrow> u64) option \<Rightarrow> size_line list" where
  "ReportHeapLocalDistribution lg cs =
     PrintSizeDistribution lg cs ''ALLOC_SIZE_DIST'' ''heap >=64KB CAPTURED into proxy'' (band_counters ''HeapBandCaptured_'') False None @
     PrintSizeDistribution lg cs ''ALLOC_SIZE_DIST'' ''heap >=64KB MISSED (-> local, real leak)'' (band_counters ''HeapBandMissed_'') False None @
     PrintSizeDistribution lg cs ''ALLOC_SIZE_DIST'' ''heap >=64KB local: our own DLL (self-skip, correct)'' (band_counters ''HeapBandSelf_'') False None"

subsection \<open>The table of regions\<close>

text \<open>
  The setting is read at the first call and kept; only the heartbeat's thread calls it.
  The result is the setting with the cache as the call leaves it.
\<close>

definition ObserveTablesEnabled :: "string option \<Rightarrow> bool option \<Rightarrow> bool \<times> bool option" where
  "ObserveTablesEnabled env memo =
     (let on = (case memo of Some b \<Rightarrow> b | None \<Rightarrow> \<not> (env_set env \<and> says_no (env_text 8 env)))
      in (on, Some on))"

definition kTopN :: nat where "kTopN = 8"

record observed =
  ob_top :: "(u32 \<times> u32) list"
  ob_named :: "(u32 \<times> u32) list"
  proxyCommitted :: u32
  localCommitted :: u32
  localRegions :: u32
  mappedCommitted :: u32
  imageCommitted :: u32
  ob_band :: "u32 list"

definition observed_start :: observed where
  "observed_start =
     \<lparr>ob_top = replicate kTopN (0, 0), ob_named = replicate kTopN (0, 0), proxyCommitted = 0,
      localCommitted = 0, localRegions = 0, mappedCommitted = 0, imageCommitted = 0,
      ob_band = replicate 4 0\<rparr>"

text \<open>The first smaller entry makes room: those behind move back by one and the last is dropped.\<close>

fun insert_region :: "u32 \<times> u32 \<Rightarrow> (u32 \<times> u32) list \<Rightarrow> (u32 \<times> u32) list" where
  "insert_region e [] = []"
| "insert_region e (x # xs) = (if snd e > snd x then e # butlast (x # xs) else x # insert_region e xs)"

definition local_band :: "u32 \<Rightarrow> nat" where
  "local_band mb = (if mb < 1 then 0 else if mb < 16 then 1 else if mb < 64 then 2 else 3)"

definition observe_region :: "u32 \<Rightarrow> u32 \<Rightarrow> region \<Rightarrow> observed \<Rightarrow> observed" where
  "observe_region proxyBase proxyEnd r ob =
     (let rb = rg_base r; rs = rg_size r
      in if rg_state r = MEM_COMMIT \<and> rg_type r = MEM_PRIVATE
         then (if proxyEnd > proxyBase \<and> rb \<ge> proxyBase \<and> rb < proxyEnd
               then ob\<lparr>proxyCommitted := proxyCommitted ob + rs\<rparr>
               else ob\<lparr>localCommitted := localCommitted ob + rs, localRegions := localRegions ob + 1,
                       ob_band := bump_at (local_band (mib rs)) (ob_band ob),
                       ob_top := insert_region (rb, rs) (ob_top ob)\<rparr>)
         else if rg_state r = MEM_COMMIT \<and> (rg_type r = MEM_IMAGE \<or> rg_type r = MEM_MAPPED)
         then (let ob = (if rg_type r = MEM_IMAGE then ob\<lparr>imageCommitted := imageCommitted ob + rs\<rparr>
                         else ob\<lparr>mappedCommitted := mappedCommitted ob + rs\<rparr>)
               in ob\<lparr>ob_named := insert_region (rb, rs) (ob_named ob)\<rparr>)
         else ob)"

definition observe_scan :: "u32 \<Rightarrow> u32 \<Rightarrow> vquery \<Rightarrow> observed" where
  "observe_scan proxyBase proxyEnd q =
     fold (observe_region proxyBase proxyEnd) (vas_regions q 0) observed_start"

text \<open>
  The lines of \<open>LogObserveTables\<close>: the arena with the private bytes inside and outside it, the
  bands, the largest local regions, the file-backed bytes, the largest file-backed regions with
  their names, and the lines of counters (the CPU and the GPU table).
\<close>

datatype table_line =
    ArenaRange u32 u32 u32 u32 u32 u32
  | LocalBands "u32 list"
  | LocalRegion nat u32 u32
  | FileBacked u32 u32
  | NamedRegion nat string u32 u32
  | CpuCounters "u64 list"
  | GpuCounters "u64 list"

text \<open>\<open>for (i = 0; i < kTopN && top[i].size > 0; ++i)\<close>: the entries up to the first empty one, with their index.\<close>

definition filled :: "(u32 \<times> u32) list \<Rightarrow> (nat \<times> u32 \<times> u32) list" where
  "filled xs = enumerate 0 (takeWhile (\<lambda>e. snd e > 0) xs)"

text \<open>\<open>mapped\<close> is \<open>GetMappedFileNameA\<close>: what it leaves in the buffer, \<open>None\<close> when it fails.\<close>

definition region_name :: "(u32 \<Rightarrow> string option) \<Rightarrow> u32 \<Rightarrow> string" where
  "region_name mapped base =
     (case mapped base of
        None \<Rightarrow> ''<anonymous>''
      | Some dev \<Rightarrow> if dev = [] then ''<anonymous>'' else base_name dev)"

definition coverage_lines :: "(string \<Rightarrow> u64) \<Rightarrow> table_line list" where
  "coverage_lines C =
     [CpuCounters [C ''VirtualAlloc_RedirectedBytes'' div MB, C ''VirtualAlloc_NotRedirected_Bytes'' div MB,
        C ''VirtualAlloc_NotRedirected_CommitOnlyBytes'' div MB, C ''RtlAllocHeap_Captureed'' div MB,
        C ''RtlAllocHeap_CaptureCount''],
      CpuCounters [C ''Script_Packages'', C ''Script_Resources'', C ''Script_Xml_Resources'',
        C ''RtlAlloc_ByModule_TS3W'', C ''RtlAlloc_ByModule_RuntimeDll'', C ''RtlAlloc_ByModule_SystemDll'',
        C ''RtlAlloc_ByModule_Mod'']]"

definition gpu_lines :: "(string \<Rightarrow> u64) \<Rightarrow> table_line list" where
  "gpu_lines C =
     [GpuCounters [C ''D3D9_Contained_Bytes'' div MB, C ''D3D9_Contained_Count'',
        C ''D3D9_Excluded_Bytes'' div MB, C ''D3D9_Excluded_Count''],
      GpuCounters [C ''D3D9_Texture_Managed_Bytes'' div MB, C ''D3D9_Texture_SystemMem_Bytes'' div MB,
        C ''D3D9_Texture_Default_Bytes'' div MB,
        (C ''D3D9_VertexBuf_Managed_Bytes'' + C ''D3D9_VertexBuf_Default_Bytes'') div MB,
        (C ''D3D9_IndexBuf_Managed_Bytes'' + C ''D3D9_IndexBuf_Default_Bytes'') div MB],
      GpuCounters [C ''GfxDriverWW_Count'', C ''GfxDriverWW_Bytes'' div MB, C ''GfxDriverWW_Lt256K'',
        C ''GfxDriverWW_256K'', C ''GfxDriverWW_256Kto1M'', C ''GfxDriverWW_1Mto16M'', C ''GfxDriverWW_Gt16M''],
      GpuCounters [C ''ScriptWW_Count'', C ''ScriptWW_Bytes'' div MB, C ''ScriptWW_Lt256K'',
        C ''ScriptWW_256K'', C ''ScriptWW_256Kto1M'', C ''ScriptWW_1Mto16M'', C ''ScriptWW_Gt16M'']]"

definition observed_lines :: "u32 \<Rightarrow> u32 \<Rightarrow> (u32 \<Rightarrow> string option) \<Rightarrow> observed \<Rightarrow> table_line list" where
  "observed_lines proxyBase proxyEnd mapped ob =
     [ArenaRange proxyBase proxyEnd (mib (proxyEnd - proxyBase)) (mib (proxyCommitted ob))
        (mib (localCommitted ob)) (localRegions ob),
      LocalBands (ob_band ob)] @
     map (\<lambda>(i, b, n). LocalRegion i b (mib n)) (filled (ob_top ob)) @
     [FileBacked (mib (imageCommitted ob)) (mib (mappedCommitted ob))] @
     map (\<lambda>(i, b, n). NamedRegion i (region_name mapped b) b (mib n)) (filled (ob_named ob))"

definition LogObserveTables ::
  "bool \<Rightarrow> (string \<Rightarrow> u64) option \<Rightarrow> vquery \<Rightarrow> (u32 \<Rightarrow> string option) \<Rightarrow> memory_manager option \<Rightarrow> table_line list" where
  "LogObserveTables logger counters q mapped mm =
     (if \<not> logger then []
      else (let (proxyBase, proxyEnd) =
                  (case mm of None \<Rightarrow> (0, 0)
                   | Some m \<Rightarrow> (m_arenaBase (m_proxyAllocator m),
                                m_arenaBase (m_proxyAllocator m) + m_arenaSize (m_proxyAllocator m)));
                C = (case counters of None \<Rightarrow> (\<lambda>_. 0) | Some c \<Rightarrow> c)
            in observed_lines proxyBase proxyEnd mapped (observe_scan proxyBase proxyEnd q) @
               coverage_lines C @ gpu_lines C))"

subsection \<open>The leak hunter\<close>

record LeakHunterSnapshot =
  lh_beat :: u32
  lh_tickMs :: u64
  lh_totalFreeMb :: u32
  lh_largestFreeMb :: u32
  proxyUsedBytes_at :: u64
  proxyActiveAllocs :: u32
  mapViewPackageCount :: u64
  lh_alloc :: RtlAllocSnapshot

definition CaptureLeakHunterSnapshot ::
  "u64 \<Rightarrow> (string \<Rightarrow> u64) option \<Rightarrow> RtlAllocSnapshot \<Rightarrow> u32 \<Rightarrow> u32 \<Rightarrow> u32 \<Rightarrow> u64 \<Rightarrow> u32 \<Rightarrow> LeakHunterSnapshot" where
  "CaptureLeakHunterSnapshot now counters alloc beat totalMb largestMb used active =
     \<lparr>lh_beat = beat, lh_tickMs = now, lh_totalFreeMb = totalMb, lh_largestFreeMb = largestMb,
      proxyUsedBytes_at = used, proxyActiveAllocs = active,
      mapViewPackageCount = (case counters of None \<Rightarrow> 0 | Some c \<Rightarrow> c ''MapView_Package''),
      lh_alloc = alloc\<rparr>"

definition kModuleNames :: "string list" where
  "kModuleNames = [''game'', ''graphics'', ''runtime'', ''system'', ''mod'', ''unknown'']"

text \<open>
  The line of the six modules: those whose growth is not zero in MB.  Six entries of at most
  28 characters fit the buffer of 256.
\<close>

definition module_deltas :: "u64 list \<Rightarrow> u64 list \<Rightarrow> (string \<times> int) list" where
  "module_deltas from to =
     filter (\<lambda>e. snd e \<noteq> 0)
       (map (\<lambda>(m, a, b). (m, in_mib (b - a))) (zip kModuleNames (zip from to)))"

text \<open>The difference of two \<open>DWORD\<close>s as an \<open>int\<close>.\<close>

definition int_delta :: "u32 \<Rightarrow> u32 \<Rightarrow> int" where
  "int_delta from to = sint (to - from)"

datatype leak_verdict = LeakLikely int int | LeakPossible u32 | Released int int

text \<open>The numbers of the four lines, the modules, and the verdict.\<close>

definition LogLeakHunterDiff ::
  "LeakHunterSnapshot \<Rightarrow> LeakHunterSnapshot \<Rightarrow> int list list \<times> (string \<times> int) list \<times> leak_verdict" where
  "LogLeakHunterDiff entry now =
     (let sessionBeats = lh_beat now - lh_beat entry;
          sessionMs = lh_tickMs now - lh_tickMs entry;
          vasDelta = int_delta (lh_totalFreeMb entry) (lh_totalFreeMb now);
          lfDelta = int_delta (lh_largestFreeMb entry) (lh_largestFreeMb now);
          proxyBytesDelta = proxyUsedBytes_at now - proxyUsedBytes_at entry;
          proxyAllocsDelta = int_delta (proxyActiveAllocs entry) (proxyActiveAllocs now);
          pkgMapsDelta = mapViewPackageCount now - mapViewPackageCount entry
      in ([[uint sessionBeats, uint sessionMs],
           [vasDelta, lfDelta, uint (lh_totalFreeMb entry), uint (lh_totalFreeMb now)],
           [proxyAllocsDelta, in_mib proxyBytesDelta, uint (proxyActiveAllocs now), uint (proxyUsedBytes_at now div MB)],
           [uint pkgMapsDelta]],
          module_deltas (sn_bytesByModule (lh_alloc entry)) (sn_bytesByModule (lh_alloc now)),
          if proxyAllocsDelta > 0 \<or> sint proxyBytesDelta > 10 * 1024 * 1024
          then LeakLikely proxyAllocsDelta (in_mib proxyBytesDelta)
          else if proxyAllocsDelta = 0 \<and> proxyActiveAllocs entry > 20
          then LeakPossible (proxyActiveAllocs now)
          else Released proxyAllocsDelta (in_mib proxyBytesDelta)))"

subsection \<open>The difference of two phases\<close>

text \<open>
  The numbers of the lines (heading, VAS, commit, proxy), the modules, the local reserves when
  they changed by a megabyte, and the histogram.
\<close>

record phase_diff =
  pd_from :: string
  pd_to :: string
  pd_lines :: "int list list"
  pd_modules :: "(string \<times> int) list"
  pd_local :: "(int \<times> (string \<times> int) list) option"
  pd_hist :: "int list"

definition LogPhaseDiff :: "string \<Rightarrow> string \<Rightarrow> VasPhaseSnapshot \<Rightarrow> VasPhaseSnapshot \<Rightarrow> phase_diff" where
  "LogPhaseDiff fromLabel toLabel from to =
     (let vasDelta = int_delta (totalFreeMb from) (totalFreeMb to);
          durationMs = (if ps_tickMs to > ps_tickMs from then ucast (ps_tickMs to - ps_tickMs from) else 0 :: u32);
          both = (\<lambda>f. [uint (f from), uint (f to)]);
          dLocalMb = in_mib (sn_localVasReserveBytes (ps_alloc to) - sn_localVasReserveBytes (ps_alloc from))
      in \<lparr>pd_from = fromLabel, pd_to = toLabel,
          pd_lines =
            [both ps_beat @ [uint durationMs],
             both totalFreeMb @ [vasDelta] @ both largestFreeMb @ both frag_score @ both freeRegions,
             both commitPrivateMb @ both commitImageMb @ both commitMappedMb @ both reserveMb,
             [sint (sn_captured (ps_alloc to) - sn_captured (ps_alloc from)),
              in_mib (sn_capturedBytes (ps_alloc to) - sn_capturedBytes (ps_alloc from)),
              sint (sn_captureFailed (ps_alloc to) - sn_captureFailed (ps_alloc from))]],
          pd_modules = module_deltas (sn_bytesByModule (ps_alloc from)) (sn_bytesByModule (ps_alloc to)),
          pd_local =
            (if dLocalMb \<noteq> 0
             then Some (dLocalMb, module_deltas (sn_localVasByModule (ps_alloc from)) (sn_localVasByModule (ps_alloc to)))
             else None),
          pd_hist = map (\<lambda>(a, b). int_delta a b) (zip (freeBucket from) (freeBucket to))\<rparr>)"

end
