(* ===== verification/Heartbeat.thy ===== *)
theory Heartbeat
  imports VasScan
begin

section \<open>The heartbeat thread\<close>

text \<open>
  \<open>HeartbeatThreadFunc\<close> of \<open>HeartbeatMonitor.cpp\<close>, one beat at a time: the thread's locals and
  the function's statics are a record, the stages of a beat are definitions composed as in the
  loop body, and what a beat writes, reports, counts or signals is a list of events in the
  code's order.  A beat reads the clock several times; the model gives it one reading.  The
  logger exists while the thread runs (the code dereferences it unchecked).  A report whose
  text other theories model (the callsites, the local sources, the arena's statistics, the
  sub-allocator) is an event that names it.
\<close>

subsection \<open>Lifecycle\<close>

record hb_life =
  m_threadHandle :: u32
  m_wakeEvent :: u32
  m_stopFlag :: bool

text \<open>\<open>created\<close> is the handle the system returns, 0 when it has none.\<close>

definition HeartbeatMonitor_ctor :: "u32 \<Rightarrow> hb_life" where
  "HeartbeatMonitor_ctor created = \<lparr>m_threadHandle = 0, m_wakeEvent = created, m_stopFlag = False\<rparr>"

definition HeartbeatMonitor_Start :: "u32 \<Rightarrow> hb_life \<Rightarrow> hb_life" where
  "HeartbeatMonitor_Start created l =
     (if m_threadHandle l \<noteq> 0 then l else l\<lparr>m_stopFlag := False, m_threadHandle := created\<rparr>)"

text \<open>The second component: was the wake event set.\<close>

definition HeartbeatMonitor_Stop :: "hb_life \<Rightarrow> hb_life \<times> bool" where
  "HeartbeatMonitor_Stop l =
     (if m_threadHandle l = 0 then (l, False)
      else (\<lparr>m_threadHandle = 0, m_wakeEvent = 0, m_stopFlag = True\<rparr>, m_wakeEvent l \<noteq> 0))"

text \<open>
  How long a beat waits when nothing wakes it: \<open>WaitForSingleObject\<close> fails at once on a null
  handle.
\<close>

definition beat_wait :: "hb_life \<Rightarrow> u32 \<Rightarrow> u32" where
  "beat_wait l beat_count =
     (let sleep_duration = (if beat_count < 150 then 2000 else 5000)
      in if m_wakeEvent l = 0 then 0 else sleep_duration)"

subsection \<open>State\<close>

datatype hb_phase = PostInject | MainMenuStable | WorldLoadDetected | PostWorldStable | WorldExitDetected

record LfSample =
  lf_t :: u64
  lf_lf :: u32
  lf_tf :: u32

definition kLfRing :: nat where "kLfRing = 80"
definition kMinWorldMs :: u64 where "kMinWorldMs = 45000"

text \<open>The statics, which outlive the thread, and the components the beat feeds.\<close>

record hb_statics =
  s_latestLargestFreeBytes :: u32
  s_latestTotalFreeBytes :: u32
  s_latestVasSampleTickMs :: u64
  s_observe :: "bool option"
  s_lastHeapCorralReportMs :: u64
  vas_milestone_flags :: u32
  largest_free_milestone_flags :: u32
  hb_gc :: proxy_gc
  hb_monitor :: "vas_monitor option"

text \<open>The locals of the thread function.\<close>

record heartbeat = hb_statics +
  beat_count :: u32
  last_vas_mb :: u32
  prevWriteWatchExecBytes :: u64
  prevReserveCommitGameBytes :: u64
  prevReserveOnlyGameBytes :: u64
  prevReserveCommitGameCount :: u64
  prevReserveOnlyGameCount :: u64
  prevVirtualAllocRedirectedCount :: u64
  prevLargestFreeReportMb :: u32
  hasSlopeBaseline :: bool
  lfRing :: "LfSample list"
  lfRingCount :: nat
  lfRingHead :: nat
  lastLfSampleTick :: u64
  monitorStartTick :: u64
  slopeWarmupMs :: u64
  analyticsReportEveryBeats :: u32
  phase :: hb_phase
  stableStreak :: u32
  phaseSnap :: VasPhaseSnapshot
  prevSnap :: VasPhaseSnapshot
  mapViewQuietStreak :: u32
  prevMapViewPackageCount :: u64
  worldEntrySnap :: LeakHunterSnapshot
  worldEntrySnapTaken :: bool

text \<open>
  What a beat finds: the clock, the address space at the observe scan, at the sample and at the
  phase snapshot, the counters (\<open>None\<close> before the analytics exist), the memory manager, the
  names of file-backed regions, the allocation snapshot, the companion's figure for the managed
  heap and the observe variable.
\<close>

record beat_env =
  be_now :: u64
  be_observe :: vquery
  be_sample :: vquery
  be_snap :: vquery
  be_counters :: "(string \<Rightarrow> u64) option"
  be_mm :: "memory_manager option"
  be_mapped :: "u32 \<Rightarrow> string option"
  be_alloc :: RtlAllocSnapshot
  be_script :: u64
  be_getenv :: "string \<Rightarrow> string option"

subsection \<open>Start of the thread\<close>

definition slope_warmup_min :: "string option \<Rightarrow> u32" where
  "slope_warmup_min env =
     (case env_in_buf 16 env of
        None \<Rightarrow> 10
      | Some wv \<Rightarrow> (let mm = atoi wv in if mm \<ge> 0 \<and> mm \<le> 120 then word_of_int mm else 10))"

text \<open>\<open>strtol\<close> in base 10 is \<open>atoi\<close> here: both saturate at 32 bits.\<close>

definition report_every_beats :: "string option \<Rightarrow> u32" where
  "report_every_beats env =
     (case env_in_buf 32 env of
        None \<Rightarrow> 30
      | Some b \<Rightarrow> (let v = atoi b in if v \<ge> 1 \<and> v \<le> 300 then word_of_int v else 30))"

definition no_alloc_snapshot :: RtlAllocSnapshot where
  "no_alloc_snapshot =
     \<lparr>sn_captured = 0, sn_captureFailed = 0, sn_bytesByModule = replicate 6 0, sn_capturedBytes = 0,
      sn_localVasReserveBytes = 0, sn_localVasByModule = replicate 6 0\<rparr>"

definition no_world_snap :: LeakHunterSnapshot where
  "no_world_snap =
     \<lparr>lh_beat = 0, lh_tickMs = 0, lh_totalFreeMb = 0, lh_largestFreeMb = 0, proxyUsedBytes_at = 0,
      proxyActiveAllocs = 0, mapViewPackageCount = 0, lh_alloc = no_alloc_snapshot\<rparr>"

text \<open>
  The locals before the first beat.  \<open>ProxyGc::Init\<close> has run when the mode is not passive; its
  arguments are the answers to its requests, as in \<open>ProxyGc_Init\<close>.  The first snapshot and the
  baseline in the log are two walks, the second one \<open>be_sample\<close>.
\<close>

definition thread_locals :: "beat_env \<Rightarrow> hb_statics \<Rightarrow> heartbeat" where
  "thread_locals env s =
     (let snap = CaptureVasPhaseSnapshot (be_now env) (be_snap env) (be_alloc env) 0
      in hb_statics.extend s
        \<lparr>beat_count = 0, last_vas_mb = 0, prevWriteWatchExecBytes = 0, prevReserveCommitGameBytes = 0,
         prevReserveOnlyGameBytes = 0, prevReserveCommitGameCount = 0, prevReserveOnlyGameCount = 0,
         prevVirtualAllocRedirectedCount = 0, prevLargestFreeReportMb = 0, hasSlopeBaseline = False,
         lfRing = replicate kLfRing \<lparr>lf_t = 0, lf_lf = 0, lf_tf = 0\<rparr>, lfRingCount = 0, lfRingHead = 0,
         lastLfSampleTick = 0, monitorStartTick = be_now env,
         slopeWarmupMs = ucast (slope_warmup_min (be_getenv env ''TS3VAS_SLOPE_WARMUP_MIN'')) * 60000,
         analyticsReportEveryBeats = report_every_beats (be_getenv env ''TS3VAS_ANALYTICS_REPORT_BEATS''),
         phase = PostInject, stableStreak = 0, phaseSnap = snap, prevSnap = snap,
         mapViewQuietStreak = 0, prevMapViewPackageCount = 0, worldEntrySnap = no_world_snap,
         worldEntrySnapTaken = False\<rparr>)"

definition HeartbeatThread_start ::
  "bool \<Rightarrow> bool \<Rightarrow> bool \<Rightarrow> beat_env \<Rightarrow> hb_statics \<Rightarrow> heartbeat \<times> (string \<times> u32 list list) option" where
  "HeartbeatThread_start passive mapped created env s =
     (let g = be_getenv env;
          s = (if passive then s
               else s\<lparr>hb_gc := ProxyGc_Init (g ''TS3VAS_GC_PRESSURE_MB'') (g ''TS3VAS_GC_INTERVAL_SEC'')
                                 (g ''TS3VAS_GC_PRESSURE_SEC'') mapped created (hb_gc s)\<rparr>)
      in (thread_locals env s, LogVasSnapshot True (be_now env) (be_sample env) (be_alloc env) ''post_inject''))"

subsection \<open>Events\<close>

datatype rate_line = WarmingUp u64 | NoSample | AverageRate int u64 nat

record slope_line =
  sl_reason :: string
  sl_lf :: u32
  sl_lf_delta :: int
  sl_ww :: u64
  sl_rc :: u64
  sl_ro :: u64
  sl_total_ww :: u64
  sl_loss :: "(int \<times> u64) option"
  sl_pop :: "u64 list"
  sl_rate :: rate_line

datatype hb_event =
    TableReport "table_line list"
  | HeapUsageDump
  | SizeReport "size_line list"
  | CorralReport
  | PassiveVas u32 u32 int
  | GcRequested bool
  | PressureNow VASPressureLevel u32
  | TotalMilestone string u32 u32
  | LargestMilestone string u32 u32
  | CountUp string
  | SlopeLine slope_line
  | VasLine u32 u32 int "(u32 \<times> u64) option" u64
  | SourcesReport string
  | AnalyticsDump
  | ChurnLine u64 u64
  | SyncCacheLine "u64 list"
  | ProxyStatsReport string
  | ProxyHeapReport string
  | CallsitesReport string
  | WorldEntry u32 u32 u64
  | WorldExit u32 u64 u32
  | LeakDiff string "int list list" "(string \<times> int) list" leak_verdict
  | UnfreedDump
  | PhaseDiff phase_diff
  | CumulativeGain int u32

subsection \<open>The observe stage\<close>

text \<open>The coarse reports come at most once in five minutes.\<close>

definition size_reports :: "(string \<Rightarrow> u64) option \<Rightarrow> hb_event list" where
  "size_reports cs =
     map SizeReport [ReportAllocSizeDistribution True cs, ReportAllocBytesDistribution True cs,
       ReportProxySizeDistribution True cs, ReportProxyFreeSizeDistribution True cs,
       ReportHeapLocalDistribution True cs]"

definition beat_observe :: "beat_env \<Rightarrow> heartbeat \<Rightarrow> heartbeat \<times> hb_event list" where
  "beat_observe env st =
     (case ObserveTablesEnabled (be_getenv env ''TS3VAS_OBSERVE'') (s_observe st) of
        (on, memo) \<Rightarrow>
          (let st = st\<lparr>s_observe := memo\<rparr>;
               tables = TableReport (LogObserveTables True (be_counters env) (be_observe env) (be_mapped env) (be_mm env))
           in if \<not> on then (st, [])
              else if s_lastHeapCorralReportMs st = 0 \<or> be_now env - s_lastHeapCorralReportMs st \<ge> 300000
              then (st\<lparr>s_lastHeapCorralReportMs := be_now env\<rparr>,
                    tables # HeapUsageDump # size_reports (be_counters env) @
                    (if be_mm env \<noteq> None then [CorralReport] else []))
              else (st, [tables])))"

subsection \<open>The sample and the ring\<close>

definition latest_sample :: "beat_env \<Rightarrow> heartbeat \<Rightarrow> heartbeat" where
  "latest_sample env st =
     (case GetProcessMemoryInfo (be_sample env) of
        (available_vas, largest_free_block) \<Rightarrow>
          st\<lparr>s_latestLargestFreeBytes := largest_free_block, s_latestTotalFreeBytes := available_vas,
             s_latestVasSampleTickMs := be_now env\<rparr>)"

definition current_vas_mb :: "beat_env \<Rightarrow> u32" where
  "current_vas_mb env = mib (fst (GetProcessMemoryInfo (be_sample env)))"

definition largest_free_mb :: "beat_env \<Rightarrow> u32" where
  "largest_free_mb env = mib (snd (GetProcessMemoryInfo (be_sample env)))"

definition ring_due :: "u64 \<Rightarrow> heartbeat \<Rightarrow> bool" where
  "ring_due nowTick st \<longleftrightarrow>
     nowTick - monitorStartTick st \<ge> slopeWarmupMs st \<and>
     (lastLfSampleTick st = 0 \<or> nowTick - lastLfSampleTick st \<ge> 30000)"

definition ring_push :: "beat_env \<Rightarrow> heartbeat \<Rightarrow> heartbeat" where
  "ring_push env st =
     (if \<not> ring_due (be_now env) st then st
      else st\<lparr>lastLfSampleTick := be_now env,
              lfRing := (lfRing st)[lfRingHead st :=
                \<lparr>lf_t = be_now env, lf_lf = largest_free_mb env, lf_tf = current_vas_mb env\<rparr>],
              lfRingHead := (lfRingHead st + 1) mod kLfRing,
              lfRingCount := (if lfRingCount st < kLfRing then lfRingCount st + 1 else lfRingCount st)\<rparr>)"

subsection \<open>The slope readout\<close>

text \<open>The samples oldest first, and the average of those of the last ten minutes.\<close>

definition ring_samples :: "heartbeat \<Rightarrow> LfSample list" where
  "ring_samples st =
     (let start = (if lfRingCount st < kLfRing then 0 else lfRingHead st)
      in map (\<lambda>k. lfRing st ! ((start + k) mod kLfRing)) [0..<lfRingCount st])"

definition in_window :: "u64 \<Rightarrow> LfSample \<Rightarrow> bool" where
  "in_window nowT s \<longleftrightarrow> \<not> nowT - lf_t s > 600000"

definition average_rate :: "u64 \<Rightarrow> u32 \<Rightarrow> LfSample list \<Rightarrow> rate_line" where
  "average_rate nowT cur samples =
     (case filter (in_window nowT) samples of
        [] \<Rightarrow> NoSample
      | f # fs \<Rightarrow> AverageRate (int_delta (lf_tf f) cur) (nowT - lf_t f) (length (f # fs)))"

definition grown :: "u64 \<Rightarrow> u64 \<Rightarrow> u64" where
  "grown now prev = (if now \<ge> prev then now - prev else 0)"

definition ww_exec_total :: "(string \<Rightarrow> u64) \<Rightarrow> u64" where
  "ww_exec_total c =
     c ''VirtualAlloc_NotRedirected_WriteWatchExecBytes'' + c ''NtAllocVM_NotRedirected_WriteWatchExecBytes'' +
     c ''NtAllocVMEx_NotRedirected_WriteWatchExecBytes''"

text \<open>
  \<open>emitVasSlope\<close>.  The loss per megabyte of write-watch memory is printed when there is a
  baseline and such memory was taken: the line carries the loss in MB and the bytes taken.
\<close>

definition slope_of :: "string \<Rightarrow> beat_env \<Rightarrow> (string \<Rightarrow> u64) \<Rightarrow> heartbeat \<Rightarrow> slope_line" where
  "slope_of reasonTag env c st =
     (let lf = largest_free_mb env;
          wwExecDelta = grown (ww_exec_total c) (prevWriteWatchExecBytes st);
          elapsed = be_now env - monitorStartTick st
      in \<lparr>sl_reason = reasonTag, sl_lf = lf,
          sl_lf_delta = (if hasSlopeBaseline st then int_delta (prevLargestFreeReportMb st) lf else 0),
          sl_ww = wwExecDelta,
          sl_rc = grown (c ''VAS_VA_ReserveCommit_Game_Bytes'') (prevReserveCommitGameBytes st),
          sl_ro = grown (c ''VAS_VA_ReserveOnly_Game_Bytes'') (prevReserveOnlyGameBytes st),
          sl_total_ww = ww_exec_total c,
          sl_loss = (if hasSlopeBaseline st \<and> wwExecDelta > 0
                     then Some (int_delta lf (prevLargestFreeReportMb st), wwExecDelta) else None),
          sl_pop = [grown (c ''VirtualAlloc_Redirected'') (prevVirtualAllocRedirectedCount st),
                    grown (c ''VAS_VA_ReserveCommit_Game_Count'') (prevReserveCommitGameCount st),
                    grown (c ''VAS_VA_ReserveOnly_Game_Count'') (prevReserveOnlyGameCount st)],
          sl_rate = (if elapsed < slopeWarmupMs st then WarmingUp (slopeWarmupMs st - elapsed)
                     else average_rate (be_now env) (current_vas_mb env) (ring_samples st))\<rparr>)"

definition emitVasSlope :: "string \<Rightarrow> beat_env \<Rightarrow> heartbeat \<Rightarrow> heartbeat \<times> hb_event list" where
  "emitVasSlope reasonTag env st =
     (case be_counters env of
        None \<Rightarrow> (st, [])
      | Some c \<Rightarrow>
          (st\<lparr>prevWriteWatchExecBytes := ww_exec_total c,
              prevReserveCommitGameBytes := c ''VAS_VA_ReserveCommit_Game_Bytes'',
              prevReserveOnlyGameBytes := c ''VAS_VA_ReserveOnly_Game_Bytes'',
              prevReserveCommitGameCount := c ''VAS_VA_ReserveCommit_Game_Count'',
              prevReserveOnlyGameCount := c ''VAS_VA_ReserveOnly_Game_Count'',
              prevVirtualAllocRedirectedCount := c ''VirtualAlloc_Redirected'',
              prevLargestFreeReportMb := largest_free_mb env, hasSlopeBaseline := True\<rparr>,
           [SlopeLine (slope_of reasonTag env c st)]))"

subsection \<open>Collection, pressure and the arena's figures\<close>

definition beat_monitors :: "beat_env \<Rightarrow> heartbeat \<Rightarrow> heartbeat \<times> hb_event list" where
  "beat_monitors env st =
     (let largest = snd (GetProcessMemoryInfo (be_sample env));
          (gc, req) = MaybeRequestMonoCollect (be_now env) largest (hb_gc st);
          st = st\<lparr>hb_gc := gc\<rparr>;
          ev = (case req of
                  None \<Rightarrow> []
                | Some pressure \<Rightarrow>
                    (if be_counters env \<noteq> None
                     then [CountUp (if pressure then ''MonoGc_Req_Pressure'' else ''MonoGc_Req_Proactive'')] else []) @
                    [GcRequested pressure])
      in case hb_monitor st of
           None \<Rightarrow> (st, ev)
         | Some m \<Rightarrow>
             (case VAS_Update largest m of
                (m, line) \<Rightarrow> (st\<lparr>hb_monitor := Some m\<rparr>,
                              ev @ (case line of None \<Rightarrow> [] | Some (l, mb) \<Rightarrow> [PressureNow l mb]))))"

definition reportedProxyUsage :: "beat_env \<Rightarrow> u64" where
  "reportedProxyUsage env = (case be_mm env of None \<Rightarrow> 0 | Some m \<Rightarrow> ucast (proxyUsedBytes (GetStats_mm m)))"

definition reportedProxyAllocs :: "beat_env \<Rightarrow> u32" where
  "reportedProxyAllocs env =
     (let n = (case be_mm env of None \<Rightarrow> 0 | Some m \<Rightarrow> mm_activeAllocations (GetStats_mm m))
      in if n > 0xFFFFFFFF then 0xFFFFFFFF else ucast n)"

subsection \<open>Milestones\<close>

text \<open>
  One pass over a table of thresholds: a threshold the value is below for the first time sets
  its flag.  The result is the flags and the entries crossed, in the table's order.
\<close>

fun crossings :: "u32 \<Rightarrow> (u32 \<times> nat \<times> 'a) list \<Rightarrow> u32 \<Rightarrow> u32 \<times> 'a list" where
  "crossings mb [] flags = (flags, [])"
| "crossings mb ((threshold, b, x) # ms) flags =
     (if mb < threshold \<and> \<not> bit flags b
      then (case crossings mb ms (set_bit b flags) of (fl, xs) \<Rightarrow> (fl, x # xs))
      else crossings mb ms flags)"

definition milestones :: "(u32 \<times> nat \<times> string) list" where
  "milestones = [(2000, 0, ''2GB''), (1500, 1, ''1.5GB''), (1000, 2, ''1GB''), (500, 3, ''500MB''), (250, 4, ''250MB'')]"

definition largestFreeMilestones :: "(u32 \<times> nat \<times> string \<times> string) list" where
  "largestFreeMilestones =
     [(128, 0, ''128MB'', ''VAS_LargestFree_Warning_Crossed''), (96, 1, ''96MB'', ''VAS_LargestFree_Critical_Crossed''),
      (64, 2, ''64MB'', ''VAS_LargestFree_NearFail_Crossed'')]"

definition count_if :: "beat_env \<Rightarrow> string \<Rightarrow> hb_event list" where
  "count_if env name = (if be_counters env \<noteq> None then [CountUp name] else [])"

text \<open>The third component: was the slope written this beat.\<close>

definition beat_milestones :: "beat_env \<Rightarrow> heartbeat \<Rightarrow> heartbeat \<times> hb_event list \<times> bool" where
  "beat_milestones env st =
     (case crossings (current_vas_mb env) milestones (vas_milestone_flags st) of
        (flags, totals) \<Rightarrow>
        (case crossings (largest_free_mb env) largestFreeMilestones (largest_free_milestone_flags st) of
          (lflags, larges) \<Rightarrow>
          (let st = st\<lparr>vas_milestone_flags := flags, largest_free_milestone_flags := lflags\<rparr>;
               ev = concat (map (\<lambda>l. TotalMilestone l (current_vas_mb env) (beat_count st) # count_if env ''VAS_Milestone_Crossed'') totals) @
                    concat (map (\<lambda>(l, c). LargestMilestone l (largest_free_mb env) (beat_count st) # count_if env c) larges)
           in if larges \<noteq> [] \<and> be_counters env \<noteq> None
              then (case emitVasSlope ''milestone'' env st of (st, sl) \<Rightarrow> (st, ev @ sl, True))
              else (st, ev, False))))"

subsection \<open>The VAS line\<close>

definition script_heap_bytes :: "beat_env \<Rightarrow> heartbeat \<Rightarrow> u64" where
  "script_heap_bytes env st =
     (let g = hb_gc st;
          shBytes = GetScriptHeapBytes (g\<lparr>s_shHeap := map_option (\<lambda>_. be_script env) (s_shHeap g)\<rparr>)
      in if shBytes = 0
         then (case be_mm env of None \<Rightarrow> 0 | Some m \<Rightarrow> ucast (GetCorralUsedBytes m))
         else shBytes)"

definition beat_vas_line :: "beat_env \<Rightarrow> heartbeat \<Rightarrow> hb_event list" where
  "beat_vas_line env st =
     (let cur = current_vas_mb env;
          vas_changed = (cur \<noteq> last_vas_mb st);
          should_log = (beat_count st \<le> 30 \<or> vas_changed \<or> beat_count st mod 10 = 0);
          vas_delta = int_delta (last_vas_mb st) cur
      in if \<not> should_log then []
         else VasLine cur (largest_free_mb env) vas_delta
                (if reportedProxyAllocs env > 0 then Some (reportedProxyAllocs env, reportedProxyUsage env div MB) else None)
                (script_heap_bytes env st div MB) #
              (if vas_delta \<le> - 64 then [SourcesReport ''VAS_LOCAL_SOURCES''] else []))"

subsection \<open>The periodic reports\<close>

definition analytics_reports :: "(string \<Rightarrow> u64) \<Rightarrow> hb_event list" where
  "analytics_reports c =
     [SyncCacheLine [c ''SyncCache_WriteFailed'', c ''SyncCache_WriteFailed_Unsupported''],
      SyncCacheLine [c ''SyncCache_WriteFailed_At_LargestFree_GE128'', c ''SyncCache_WriteFailed_At_LargestFree_96_127'',
        c ''SyncCache_WriteFailed_At_LargestFree_64_95'', c ''SyncCache_WriteFailed_At_LargestFree_LT64'',
        c ''SyncCache_WriteFailed_At_LargestFree_StaleSample'']]"

definition beat_analytics :: "beat_env \<Rightarrow> bool \<Rightarrow> heartbeat \<Rightarrow> heartbeat \<times> hb_event list" where
  "beat_analytics env slopeEmitted st =
     (if \<not> (beat_count st > 0 \<and> beat_count st mod analyticsReportEveryBeats st = 0) then (st, [])
      else (let tail = (if be_mm env \<noteq> None then [ProxyStatsReport ''PROXY_ARENA_REPORT''] else []) @
                       [ProxyHeapReport ''PROXY_HEAP'', CallsitesReport ''RTL_ALLOC_REPORT'', SourcesReport ''VAS_LOCAL_SOURCES'']
            in case be_counters env of
                 None \<Rightarrow> (st, tail)
               | Some c \<Rightarrow>
                   (case (if slopeEmitted then (st, []) else emitVasSlope ''interval'' env st) of
                      (st, sl) \<Rightarrow>
                        (st, [AnalyticsDump, ChurnLine (c ''ReadFile_CacheMiss_RepeatWithin60s'') (c ''ReadFile_CacheMiss'')] @
                             sl @ analytics_reports c @ tail))))"

subsection \<open>The quiet streak of package maps\<close>

definition package_maps :: "beat_env \<Rightarrow> u64" where
  "package_maps env = (case be_counters env of None \<Rightarrow> 0 | Some c \<Rightarrow> c ''MapView_Package'')"

definition beat_quiet :: "beat_env \<Rightarrow> heartbeat \<Rightarrow> heartbeat" where
  "beat_quiet env st =
     st\<lparr>mapViewQuietStreak :=
          (if package_maps env - prevMapViewPackageCount st = 0 then mapViewQuietStreak st + 1 else 0),
        prevMapViewPackageCount := package_maps env\<rparr>"

subsection \<open>The phase machine\<close>

definition phase_name :: "hb_phase \<Rightarrow> string" where
  "phase_name p =
     (case p of PostInject \<Rightarrow> ''post_inject'' | MainMenuStable \<Rightarrow> ''main_menu_stable''
      | WorldLoadDetected \<Rightarrow> ''world_load_detected'' | PostWorldStable \<Rightarrow> ''post_world_stable''
      | WorldExitDetected \<Rightarrow> ''world_exit_detected'')"

definition beat_snap :: "beat_env \<Rightarrow> heartbeat \<Rightarrow> VasPhaseSnapshot" where
  "beat_snap env st = CaptureVasPhaseSnapshot (be_now env) (be_snap env) (be_alloc env) (beat_count st)"

text \<open>A transition: the difference is written, the snapshot taken becomes the boundary's and the previous beat's.\<close>

definition enter_phase :: "hb_phase \<Rightarrow> beat_env \<Rightarrow> heartbeat \<Rightarrow> heartbeat \<times> hb_event list" where
  "enter_phase p env st =
     (let curSnap = beat_snap env st
      in (st\<lparr>phaseSnap := curSnap, phase := p, stableStreak := 0, prevSnap := curSnap\<rparr>,
          [PhaseDiff (LogPhaseDiff (phase_name (phase st)) (phase_name p) (phaseSnap st) curSnap)]))"

text \<open>The previous beat's snapshot when none was taken.\<close>

definition light_update :: "beat_env \<Rightarrow> heartbeat \<Rightarrow> heartbeat" where
  "light_update env st =
     st\<lparr>prevSnap := (prevSnap st)\<lparr>totalFreeMb := current_vas_mb env, ps_beat := beat_count st, ps_tickMs := be_now env\<rparr>\<rparr>"

definition leak_snap :: "beat_env \<Rightarrow> heartbeat \<Rightarrow> LeakHunterSnapshot" where
  "leak_snap env st =
     CaptureLeakHunterSnapshot (be_now env) (be_counters env) (be_alloc env) (beat_count st)
       (current_vas_mb env) (largest_free_mb env) (reportedProxyUsage env) (reportedProxyAllocs env)"

definition take_world_entry :: "beat_env \<Rightarrow> heartbeat \<Rightarrow> heartbeat \<times> hb_event list" where
  "take_world_entry env st =
     (if worldEntrySnapTaken st then (st, [])
      else (st\<lparr>worldEntrySnap := leak_snap env st, worldEntrySnapTaken := True\<rparr>,
            [WorldEntry (beat_count st) (reportedProxyAllocs env) (reportedProxyUsage env div MB)]))"

definition leak_reports :: "beat_env \<Rightarrow> hb_event list" where
  "leak_reports env =
     [CallsitesReport ''LEAK_HUNTER'', SourcesReport ''LEAK_HUNTER''] @
     (if be_mm env \<noteq> None then [ProxyStatsReport ''LEAK_HUNTER''] else [])"

definition leave_world :: "beat_env \<Rightarrow> heartbeat \<Rightarrow> heartbeat \<times> hb_event list" where
  "leave_world env st =
     (let worldDwellMs = be_now env - lh_tickMs (worldEntrySnap st);
          (ints, mods, verdict) = LogLeakHunterDiff (worldEntrySnap st) (leak_snap env st);
          ev1 = [WorldExit (beat_count st) (worldDwellMs div 1000) (mapViewQuietStreak st),
                 LeakDiff ''world_session_diff'' ints mods verdict] @ leak_reports env
      in case emitVasSlope ''leak_hunter'' env st of
           (st, sl) \<Rightarrow>
             (case enter_phase WorldExitDetected env st of
                (st, pd) \<Rightarrow>
                  (st\<lparr>worldEntrySnapTaken := False, mapViewQuietStreak := 0\<rparr>, ev1 @ sl @ [UnfreedDump] @ pd)))"

text \<open>In the world, with no exit: the warning for memory that came back, which moves the baseline.\<close>

definition stay_in_world :: "beat_env \<Rightarrow> heartbeat \<Rightarrow> heartbeat \<times> hb_event list" where
  "stay_in_world env st =
     (let cumulativeDelta = int_delta (totalFreeMb (phaseSnap st)) (current_vas_mb env)
      in if cumulativeDelta \<ge> 150
         then (case emitVasSlope ''leak_hunter_vas'' env st of
                 (st, sl) \<Rightarrow>
                   (st\<lparr>phaseSnap := (phaseSnap st)\<lparr>totalFreeMb := current_vas_mb env, ps_beat := beat_count st,
                                                   ps_tickMs := be_now env\<rparr>\<rparr>,
                    CumulativeGain cumulativeDelta (beat_count st) # leak_reports env @ sl))
         else (st, []))"

definition in_world :: "beat_env \<Rightarrow> heartbeat \<Rightarrow> heartbeat \<times> hb_event list" where
  "in_world env st =
     (case take_world_entry env st of
        (st, ev) \<Rightarrow>
          (if be_now env - lh_tickMs (worldEntrySnap st) \<ge> kMinWorldMs \<and> mapViewQuietStreak st \<ge> 3
           then (case leave_world env st of (st, ev2) \<Rightarrow> (st, ev @ ev2))
           else (case stay_in_world env st of (st, ev2) \<Rightarrow> (light_update env st, ev @ ev2))))"

definition beat_stable :: "beat_env \<Rightarrow> heartbeat \<Rightarrow> bool" where
  "beat_stable env st \<longleftrightarrow>
     (let vasDelta = int_delta (totalFreeMb (prevSnap st)) (current_vas_mb env) in vasDelta > - 50 \<and> vasDelta < 50)"

definition beat_phase :: "beat_env \<Rightarrow> heartbeat \<Rightarrow> heartbeat \<times> hb_event list" where
  "beat_phase env st =
     (let vasDelta = int_delta (totalFreeMb (prevSnap st)) (current_vas_mb env);
          st = st\<lparr>stableStreak := (if beat_stable env st then stableStreak st + 1 else 0)\<rparr>
      in if phase st = PostInject \<and> stableStreak st \<ge> 3 \<and> beat_count st \<ge> 3 then enter_phase MainMenuStable env st
         else if phase st = MainMenuStable \<and> vasDelta \<le> - 200 then enter_phase WorldLoadDetected env st
         else if phase st = WorldLoadDetected \<and> stableStreak st \<ge> 3 then enter_phase PostWorldStable env st
         else if phase st = PostWorldStable then in_world env st
         else if phase st = WorldExitDetected \<and> stableStreak st \<ge> 3 then enter_phase MainMenuStable env st
         else (light_update env st, []))"

subsection \<open>A beat and the loop\<close>

definition passive_tail :: "beat_env \<Rightarrow> heartbeat \<Rightarrow> heartbeat \<times> hb_event list" where
  "passive_tail env st =
     (st\<lparr>last_vas_mb := current_vas_mb env\<rparr>,
      [PassiveVas (current_vas_mb env) (largest_free_mb env) (int_delta (last_vas_mb st) (current_vas_mb env))])"

definition active_tail :: "beat_env \<Rightarrow> heartbeat \<Rightarrow> heartbeat \<times> hb_event list" where
  "active_tail env st =
     (case beat_monitors env st of (st, ev1) \<Rightarrow>
      case beat_milestones env st of (st, ev2, slopeEmitted) \<Rightarrow>
      case beat_analytics env slopeEmitted st of (st2, ev4) \<Rightarrow>
      case beat_phase env (beat_quiet env (st2\<lparr>last_vas_mb := current_vas_mb env\<rparr>)) of
        (st3, ev5) \<Rightarrow> (st3, ev1 @ ev2 @ beat_vas_line env st @ ev4 @ ev5))"

definition hb_beat :: "bool \<Rightarrow> beat_env \<Rightarrow> heartbeat \<Rightarrow> heartbeat \<times> hb_event list" where
  "hb_beat passive env st =
     (let st = st\<lparr>beat_count := beat_count st + 1\<rparr>
      in case (if passive then (st, []) else beat_observe env st) of
           (st, ev) \<Rightarrow>
             (case (if passive then passive_tail else active_tail) env (ring_push env (latest_sample env st)) of
                (st, ev2) \<Rightarrow> (st, ev @ ev2)))"

text \<open>
  The loop over the beats that happen: the stop flag as it is read before the wait and after it,
  and the beat's environment.
\<close>

fun hb_loop :: "bool \<Rightarrow> (bool \<times> bool \<times> beat_env) list \<Rightarrow> heartbeat \<Rightarrow> heartbeat \<times> hb_event list list" where
  "hb_loop passive [] st = (st, [])"
| "hb_loop passive ((stop1, stop2, env) # bs) st =
     (if stop1 \<or> stop2 then (st, [])
      else (case hb_beat passive env st of
              (st, ev) \<Rightarrow> (case hb_loop passive bs st of (st, evs) \<Rightarrow> (st, ev # evs))))"

end
