(* ===== verification/PhaseMachine.thy ===== *)
theory PhaseMachine
  imports Heartbeat
begin

section \<open>The phase machine of the heartbeat\<close>

text \<open>
  What a beat does to the phases, apart from telemetry: an automaton over eight figures with
  four inputs per beat.  The heartbeat's beat refines it, so statements about runs of the
  automaton are statements about runs of the thread.
\<close>

subsection \<open>The automaton\<close>

record phase_core =
  pc_phase :: hb_phase
  pc_streak :: u32
  pc_beat :: u32
  pc_prev :: u32
  pc_base :: u32
  pc_quiet :: u32
  pc_maps :: u64
  pc_entry :: "u64 option"

text \<open>The clock, the free MB of the sample and of the snapshot, and the counter of package maps.\<close>

record pulse =
  pu_now :: u64
  pu_cur :: u32
  pu_snap :: u32
  pu_maps :: u64

definition core_enter :: "hb_phase \<Rightarrow> pulse \<Rightarrow> phase_core \<Rightarrow> phase_core" where
  "core_enter p u c = c\<lparr>pc_phase := p, pc_streak := 0, pc_prev := pu_snap u, pc_base := pu_snap u\<rparr>"

definition core_since :: "pulse \<Rightarrow> phase_core \<Rightarrow> u64" where
  "core_since u c = (case pc_entry c of None \<Rightarrow> pu_now u | Some t \<Rightarrow> t)"

definition core_exits :: "pulse \<Rightarrow> phase_core \<Rightarrow> bool" where
  "core_exits u c \<longleftrightarrow> pu_now u - core_since u c \<ge> kMinWorldMs \<and> pc_quiet c \<ge> 3"

definition core_world :: "pulse \<Rightarrow> phase_core \<Rightarrow> phase_core" where
  "core_world u c =
     (if core_exits u c
      then (core_enter WorldExitDetected u c)\<lparr>pc_entry := None, pc_quiet := 0\<rparr>
      else c\<lparr>pc_entry := Some (core_since u c), pc_prev := pu_cur u,
             pc_base := (if int_delta (pc_base c) (pu_cur u) \<ge> 150 then pu_cur u else pc_base c)\<rparr>)"

definition core_stable :: "pulse \<Rightarrow> phase_core \<Rightarrow> bool" where
  "core_stable u c \<longleftrightarrow> int_delta (pc_prev c) (pu_cur u) > - 50 \<and> int_delta (pc_prev c) (pu_cur u) < 50"

text \<open>The counting of a beat, then the move.\<close>

definition core_count :: "pulse \<Rightarrow> phase_core \<Rightarrow> phase_core" where
  "core_count u c =
     c\<lparr>pc_beat := pc_beat c + 1,
       pc_quiet := (if pu_maps u - pc_maps c = 0 then pc_quiet c + 1 else 0),
       pc_maps := pu_maps u,
       pc_streak := (if core_stable u c then pc_streak c + 1 else 0)\<rparr>"

definition core_move :: "pulse \<Rightarrow> phase_core \<Rightarrow> phase_core" where
  "core_move u c =
     (if pc_phase c = PostInject \<and> pc_streak c \<ge> 3 \<and> pc_beat c \<ge> 3 then core_enter MainMenuStable u c
      else if pc_phase c = MainMenuStable \<and> int_delta (pc_prev c) (pu_cur u) \<le> - 200
      then core_enter WorldLoadDetected u c
      else if pc_phase c = WorldLoadDetected \<and> pc_streak c \<ge> 3 then core_enter PostWorldStable u c
      else if pc_phase c = PostWorldStable then core_world u c
      else if pc_phase c = WorldExitDetected \<and> pc_streak c \<ge> 3 then core_enter MainMenuStable u c
      else c\<lparr>pc_prev := pu_cur u\<rparr>)"

definition core_step :: "pulse \<Rightarrow> phase_core \<Rightarrow> phase_core" where
  "core_step u c = core_move u (core_count u c)"

subsection \<open>The automaton a heartbeat runs\<close>

definition core_of :: "heartbeat \<Rightarrow> phase_core" where
  "core_of st =
     \<lparr>pc_phase = phase st, pc_streak = stableStreak st, pc_beat = beat_count st,
      pc_prev = totalFreeMb (prevSnap st), pc_base = totalFreeMb (phaseSnap st),
      pc_quiet = mapViewQuietStreak st, pc_maps = prevMapViewPackageCount st,
      pc_entry = (if worldEntrySnapTaken st then Some (lh_tickMs (worldEntrySnap st)) else None)\<rparr>"

definition snap_free_mb :: "vquery \<Rightarrow> u32" where
  "snap_free_mb q = fold (\<lambda>r a. if rg_state r = MEM_FREE then a + mib (rg_size r) else a) (vas_regions q 0) 0"

definition pulse_of :: "beat_env \<Rightarrow> pulse" where
  "pulse_of env =
     \<lparr>pu_now = be_now env, pu_cur = current_vas_mb env, pu_snap = snap_free_mb (be_snap env),
      pu_maps = package_maps env\<rparr>"

lemma scan_region_total:
  "totalFreeMb (scan_region r s) = (if rg_state r = MEM_FREE then totalFreeMb s + mib (rg_size r) else totalFreeMb s)"
  by (simp add: scan_region_def Let_def)

lemma scan_total:
  "totalFreeMb (fold scan_region rs s) =
   fold (\<lambda>r a. if rg_state r = MEM_FREE then a + mib (rg_size r) else a) rs (totalFreeMb s)"
  by (induction rs arbitrary: s) (simp_all add: scan_region_total)

lemma snapshot_total [simp]:
  "totalFreeMb (CaptureVasPhaseSnapshot now q alloc beat) = snap_free_mb q"
  by (simp add: CaptureVasPhaseSnapshot_def scan_total snap_free_mb_def blank_snap_def)

text \<open>The stages that are telemetry leave the automaton where it is.\<close>

named_theorems telemetry \<open>stages of a beat that do not touch the phase machine\<close>

lemma core_observe [telemetry]: "core_of (fst (beat_observe env st)) = core_of st"
  by (simp add: beat_observe_def core_of_def Let_def split: prod.split)

lemma core_slope [telemetry]: "core_of (fst (emitVasSlope tag env st)) = core_of st"
  by (simp add: emitVasSlope_def core_of_def split: option.split)

lemma core_monitors [telemetry]: "core_of (fst (beat_monitors env st)) = core_of st"
  by (simp add: beat_monitors_def core_of_def Let_def split: prod.split option.split)

lemma core_ring [telemetry]: "core_of (ring_push env st) = core_of st"
  by (simp add: ring_push_def core_of_def)

lemma core_latest [telemetry]: "core_of (latest_sample env st) = core_of st"
  by (simp add: latest_sample_def core_of_def split: prod.split)

lemma core_flags: "core_of (st\<lparr>vas_milestone_flags := a, largest_free_milestone_flags := b\<rparr>) = core_of st"
  by (simp add: core_of_def)

lemma core_milestones [telemetry]: "core_of (fst (beat_milestones env st)) = core_of st"
  by (simp add: beat_milestones_def Let_def core_slope core_flags split: prod.split)
    (metis core_flags core_slope fst_conv)

lemma core_analytics [telemetry]: "core_of (fst (beat_analytics env b st)) = core_of st"
  using core_slope [of "''interval''" env st]
  by (auto simp: beat_analytics_def Let_def split: option.splits prod.splits if_splits)

lemma core_last_vas [telemetry]: "core_of (st\<lparr>last_vas_mb := v\<rparr>) = core_of st"
  by (simp add: core_of_def)

subsection \<open>A beat refines a step of the automaton\<close>

lemma core_enter_phase: "core_of (fst (enter_phase p env st)) = core_enter p (pulse_of env) (core_of st)"
  by (simp add: enter_phase_def Let_def core_of_def core_enter_def pulse_of_def beat_snap_def)

lemma core_light: "core_of (light_update env st) = (core_of st)\<lparr>pc_prev := pu_cur (pulse_of env)\<rparr>"
  by (simp add: light_update_def core_of_def pulse_of_def)

lemma core_entry:
  "core_of (fst (take_world_entry env st)) = (core_of st)\<lparr>pc_entry := Some (core_since (pulse_of env) (core_of st))\<rparr>"
  by (simp add: take_world_entry_def core_of_def core_since_def pulse_of_def leak_snap_def CaptureLeakHunterSnapshot_def)

lemma entry_since:
  "lh_tickMs (worldEntrySnap (fst (take_world_entry env st))) = core_since (pulse_of env) (core_of st)"
  by (simp add: take_world_entry_def core_of_def core_since_def pulse_of_def leak_snap_def CaptureLeakHunterSnapshot_def)

lemma entry_quiet: "mapViewQuietStreak (fst (take_world_entry env st)) = mapViewQuietStreak st"
  by (simp add: take_world_entry_def)

lemma core_quiet_reset:
  "core_of (st\<lparr>worldEntrySnapTaken := False, mapViewQuietStreak := 0\<rparr>) = (core_of st)\<lparr>pc_entry := None, pc_quiet := 0\<rparr>"
  by (simp add: core_of_def)

lemma core_leave:
  "core_of (fst (leave_world env st)) =
   (core_enter WorldExitDetected (pulse_of env) (core_of st))\<lparr>pc_entry := None, pc_quiet := 0\<rparr>"
proof -
  obtain ints mods v where d: "LogLeakHunterDiff (worldEntrySnap st) (leak_snap env st) = (ints, mods, v)"
    by (metis prod_cases3)
  obtain s1 sl where e: "emitVasSlope ''leak_hunter'' env st = (s1, sl)" by fastforce
  obtain s2 pd where p: "enter_phase WorldExitDetected env s1 = (s2, pd)" by fastforce
  have "core_of s1 = core_of st" using core_slope [of "''leak_hunter''" env st] e by simp
  moreover have "core_of s2 = core_enter WorldExitDetected (pulse_of env) (core_of s1)"
    using core_enter_phase [of WorldExitDetected env s1] p by simp
  ultimately show ?thesis by (simp add: leave_world_def Let_def d e p core_quiet_reset)
qed

lemma core_stay:
  "core_of (fst (stay_in_world env st)) =
   (core_of st)\<lparr>pc_base := (if int_delta (pc_base (core_of st)) (current_vas_mb env) \<ge> 150 then current_vas_mb env
                            else pc_base (core_of st))\<rparr>"
proof -
  obtain s1 sl where e: "emitVasSlope ''leak_hunter_vas'' env st = (s1, sl)" by fastforce
  have c: "core_of s1 = core_of st" using core_slope [of "''leak_hunter_vas''" env st] e by simp
  have "core_of (s1\<lparr>phaseSnap := (phaseSnap s1)\<lparr>totalFreeMb := v, ps_beat := b, ps_tickMs := t\<rparr>\<rparr>) =
        (core_of s1)\<lparr>pc_base := v\<rparr>" for v b t
    by (simp add: core_of_def)
  then show ?thesis by (simp add: stay_in_world_def Let_def e c) (simp add: core_of_def)
qed

lemma core_in_world:
  "core_of (fst (in_world env st)) = core_world (pulse_of env) (core_of st)"
proof -
  obtain s1 ev1 where t: "take_world_entry env st = (s1, ev1)" by fastforce
  define u where "u = pulse_of env"
  have s1: "core_of s1 = (core_of st)\<lparr>pc_entry := Some (core_since u (core_of st))\<rparr>"
    using core_entry [of env st] t by (simp add: u_def)
  have tick: "lh_tickMs (worldEntrySnap s1) = core_since u (core_of st)"
    using entry_since [of env st] t by (simp add: u_def)
  have quiet: "mapViewQuietStreak s1 = pc_quiet (core_of st)"
    using entry_quiet [of env st] t by (simp add: core_of_def)
  have now: "be_now env = pu_now u" and cur: "current_vas_mb env = pu_cur u"
    by (simp_all add: u_def pulse_of_def)
  have leave: "core_of (fst (leave_world env s1)) = core_world u (core_of st)" if "core_exits u (core_of st)"
    using that core_leave [of env s1] by (simp add: core_world_def u_def [symmetric] s1 core_enter_def)
  have stay: "core_of (light_update env (fst (stay_in_world env s1))) = core_world u (core_of st)"
    if "\<not> core_exits u (core_of st)"
    using that by (simp add: core_world_def u_def [symmetric] core_light core_stay s1 cur)
  show ?thesis
    using leave stay
    by (auto simp: in_world_def t tick quiet now core_exits_def u_def [symmetric] split: prod.split)
qed

lemma core_phase:
  "core_of (fst (beat_phase env st)) =
   core_move (pulse_of env)
     ((core_of st)\<lparr>pc_streak := (if core_stable (pulse_of env) (core_of st) then pc_streak (core_of st) + 1 else 0)\<rparr>)"
proof -
  let ?st = "st\<lparr>stableStreak := (if beat_stable env st then stableStreak st + 1 else 0)\<rparr>"
  have stable: "beat_stable env st = core_stable (pulse_of env) (core_of st)"
    by (simp add: beat_stable_def core_stable_def pulse_of_def core_of_def Let_def)
  have c: "core_of ?st = (core_of st)\<lparr>pc_streak := (if core_stable (pulse_of env) (core_of st)
                             then pc_streak (core_of st) + 1 else 0)\<rparr>"
    by (simp add: core_of_def stable)
  have d: "int_delta (totalFreeMb (prevSnap st)) (current_vas_mb env) = int_delta (pc_prev (core_of st)) (pu_cur (pulse_of env))"
    by (simp add: core_of_def pulse_of_def)
  have f: "phase ?st = pc_phase (core_of st)" "beat_count ?st = pc_beat (core_of st)"
    "stableStreak ?st = (if core_stable (pulse_of env) (core_of st) then pc_streak (core_of st) + 1 else 0)"
    by (simp_all add: core_of_def stable)
  show ?thesis
    unfolding beat_phase_def Let_def d core_move_def f fst_conv c [symmetric]
    by (simp only: if_distrib [where f = fst] if_distrib [where f = core_of] core_enter_phase
        core_in_world core_light fst_conv c) simp
qed

lemma core_quiet:
  "core_of (beat_quiet env st) =
   (core_of st)\<lparr>pc_quiet := (if pu_maps (pulse_of env) - pc_maps (core_of st) = 0 then pc_quiet (core_of st) + 1 else 0),
                pc_maps := pu_maps (pulse_of env)\<rparr>"
  by (simp add: beat_quiet_def core_of_def pulse_of_def)

lemma core_active:
  "core_of (fst (active_tail env st)) =
   core_step (pulse_of env) ((core_of st)\<lparr>pc_beat := pc_beat (core_of st) - 1\<rparr>)"
proof -
  obtain s1 ev1 where 1: "beat_monitors env st = (s1, ev1)" by fastforce
  obtain s2 ev2 b where 2: "beat_milestones env s1 = (s2, ev2, b)" by (metis prod_cases3)
  obtain s3 ev3 where 3: "beat_analytics env b s2 = (s3, ev3)" by fastforce
  have "core_of s3 = core_of st"
    using core_monitors [of env st] core_milestones [of env s1] core_analytics [of env b s2] 1 2 3 by simp
  then have q: "core_of (beat_quiet env (s3\<lparr>last_vas_mb := v\<rparr>)) =
      (core_of st)\<lparr>pc_quiet := (if pu_maps (pulse_of env) - pc_maps (core_of st) = 0 then pc_quiet (core_of st) + 1 else 0),
                   pc_maps := pu_maps (pulse_of env)\<rparr>" for v
    by (simp add: core_quiet core_last_vas)
  obtain s4 ev5 where 4: "beat_phase env (beat_quiet env (s3\<lparr>last_vas_mb := current_vas_mb env\<rparr>)) = (s4, ev5)"
    by fastforce
  have "fst (active_tail env st) = s4" by (simp add: active_tail_def 1 2 3 4)
  then show ?thesis
    using core_phase [of env "beat_quiet env (s3\<lparr>last_vas_mb := current_vas_mb env\<rparr>)"]
    by (simp add: 4 q core_step_def core_count_def core_stable_def)
qed

text \<open>The refinement: an active beat is one step of the automaton.\<close>

lemma core_beat:
  "core_of (fst (hb_beat False env st)) = core_step (pulse_of env) (core_of st)"
proof -
  obtain s1 ev1 where 1: "beat_observe env (st\<lparr>beat_count := beat_count st + 1\<rparr>) = (s1, ev1)" by fastforce
  have b: "core_of (st\<lparr>beat_count := beat_count st + 1\<rparr>) = (core_of st)\<lparr>pc_beat := pc_beat (core_of st) + 1\<rparr>"
    by (simp add: core_of_def)
  have s1: "core_of (ring_push env (latest_sample env s1)) = (core_of st)\<lparr>pc_beat := pc_beat (core_of st) + 1\<rparr>"
    using core_observe [of env "st\<lparr>beat_count := beat_count st + 1\<rparr>"] by (simp add: 1 b core_ring core_latest)
  have "fst (hb_beat False env st) = fst (active_tail env (ring_push env (latest_sample env s1)))"
    by (simp add: hb_beat_def Let_def 1 split: prod.split)
  then show ?thesis by (simp add: core_active s1)
qed

end
