(* ===== verification/PhaseProps.thy ===== *)
theory PhaseProps
  imports PhaseMachine
begin

section \<open>Runs of the phase machine\<close>

text \<open>
  Runs of the heartbeat's thread, through the automaton of \<open>PhaseMachine\<close>: what holds after any
  number of beats, and that a program at rest is brought back to the main-menu phase.
\<close>

subsection \<open>Runs\<close>

text \<open>Beats between which nobody asks the thread to stop.\<close>

definition running :: "beat_env list \<Rightarrow> (bool \<times> bool \<times> beat_env) list" where
  "running envs = map (\<lambda>e. (False, False, e)) envs"

lemma loop_fold: "fst (hb_loop passive (running envs) st) = fold (\<lambda>e st. fst (hb_beat passive e st)) envs st"
proof (induction envs arbitrary: st)
  case (Cons e envs)
  obtain s1 ev where 1: "hb_beat passive e st = (s1, ev)" by fastforce
  obtain s2 evs where 2: "hb_loop passive (running envs) s1 = (s2, evs)" by fastforce
  from Cons.IH [of s1] 2 have "s2 = fold (\<lambda>e st. fst (hb_beat passive e st)) envs s1" by simp
  with 1 2 show ?case by (simp add: running_def)
qed (simp add: running_def)

lemma core_loop:
  "core_of (fst (hb_loop False (running envs) st)) = fold core_step (map pulse_of envs) (core_of st)"
  unfolding loop_fold by (induction envs arbitrary: st) (simp_all add: core_beat)

lemma sint_small: "unat (w :: u32) < 2147483648 \<Longrightarrow> sint w = int (unat w)"
proof -
  assume "unat w < 2147483648"
  then have "int (unat w) < 2147483648" by linarith
  then have "uint w < 2147483648" by (simp only: uint_nat)
  moreover have "- 2147483648 \<le> uint w" by (rule order_trans [of _ 0]) simp_all
  ultimately have "sint w = uint w"
    unfolding sint_uint by (intro signed_take_bit_int_eq_self) simp_all
  then show ?thesis by (simp only: uint_nat)
qed

lemma int_delta_small:
  assumes "unat a < 2147483648" "unat b < 2147483648"
  shows "int_delta a b = int (unat b) - int (unat a)"
proof -
  have i: "int (unat a) < 2147483648" "int (unat b) < 2147483648" using assms by linarith+
  have "signed_take_bit 31 (sint b - sint a) = sint b - sint a"
    unfolding sint_small [OF assms(1)] sint_small [OF assms(2)]
    by (rule signed_take_bit_int_eq_self) (use i in \<open>simp_all del: of_nat_unat\<close>)
  then show ?thesis
    by (simp add: int_delta_def sint_word_diff sint_small [OF assms(1)] sint_small [OF assms(2)])
qed

lemma unat_mib: "unat (mib n) = unat n div 1048576"
  by (simp add: mib_def unat_div_distrib)

lemma mib_small: "unat (mib n) < 4096"
  using unat_lt_2p32 [of n] by (simp add: unat_mib less_mult_imp_div_less)

lemma unat_Suc_bounded: "unat (w :: u32) \<le> n \<Longrightarrow> Suc n < 4294967296 \<Longrightarrow> unat (w + 1) = Suc (unat w)"
  by (simp add: unat_plus_no_wrap)

text \<open>
  After \<open>n\<close> beats, the last at time \<open>t\<close>: the streaks are bounded by the beats, an entry is in
  the past and only held in the world, and a streak of three does not outlast its beat in the
  phases that wait for one.
\<close>

definition core_inv :: "nat \<Rightarrow> u64 \<Rightarrow> phase_core \<Rightarrow> bool" where
  "core_inv n t c \<longleftrightarrow>
     pc_beat c = of_nat n \<and> unat (pc_streak c) \<le> n \<and> unat (pc_quiet c) \<le> n \<and>
     (\<forall>e. pc_entry c = Some e \<longrightarrow> unat e \<le> unat t \<and> pc_phase c = PostWorldStable) \<and>
     (pc_phase c \<in> {PostInject, WorldLoadDetected, WorldExitDetected} \<longrightarrow> unat (pc_streak c) \<le> 2)"

lemma core_count_inv:
  assumes "core_inv n t c" "Suc n < 4294967296"
  shows "pc_beat (core_count u c) = of_nat (Suc n)"
    "unat (pc_streak (core_count u c)) = (if core_stable u c then Suc (unat (pc_streak c)) else 0)"
    "unat (pc_quiet (core_count u c)) = (if pu_maps u = pc_maps c then Suc (unat (pc_quiet c)) else 0)"
    "pc_phase (core_count u c) = pc_phase c" "pc_entry (core_count u c) = pc_entry c"
    "pc_prev (core_count u c) = pc_prev c" "pc_maps (core_count u c) = pu_maps u"
  using assms unat_Suc_bounded [of "pc_streak c" n] unat_Suc_bounded [of "pc_quiet c" n]
  by (simp_all add: core_inv_def core_count_def add.commute)

lemma core_world_fields:
  "pc_beat (core_world u c) = pc_beat c"
  "pc_streak (core_world u c) = (if core_exits u c then 0 else pc_streak c)"
  "pc_quiet (core_world u c) = (if core_exits u c then 0 else pc_quiet c)"
  "pc_phase (core_world u c) = (if core_exits u c then WorldExitDetected else pc_phase c)"
  "pc_entry (core_world u c) = (if core_exits u c then None else Some (core_since u c))"
  "pc_prev (core_world u c) = (if core_exits u c then pu_snap u else pu_cur u)"
  "pc_maps (core_world u c) = pc_maps c"
  by (simp_all add: core_world_def core_enter_def)

lemma core_enter_fields [simp]:
  "pc_beat (core_enter p u c) = pc_beat c" "pc_streak (core_enter p u c) = 0"
  "pc_quiet (core_enter p u c) = pc_quiet c" "pc_phase (core_enter p u c) = p"
  "pc_entry (core_enter p u c) = pc_entry c" "pc_prev (core_enter p u c) = pu_snap u"
  "pc_maps (core_enter p u c) = pc_maps c"
  by (simp_all add: core_enter_def)

lemma three_le: "(3 :: u32) \<le> w \<longleftrightarrow> 3 \<le> unat w"
  by (simp add: word_le_nat_alt)

lemma since_past:
  "core_inv n t c \<Longrightarrow> unat t \<le> unat (pu_now u) \<Longrightarrow> unat (core_since u (core_count u' c)) \<le> unat (pu_now u)"
  by (auto simp: core_since_def core_inv_def core_count_def split: option.split)

lemma core_step_inv:
  assumes inv: "core_inv n t c" and n: "Suc n < 4294967296" and t: "unat t \<le> unat (pu_now u)"
  shows "core_inv (Suc n) (pu_now u) (core_step u c)"
proof -
  let ?c = "core_count u c"
  note f = core_count_inv [OF inv n, of u]
  have bounds: "unat (pc_streak ?c) \<le> Suc n" "unat (pc_quiet ?c) \<le> Suc n"
    using inv by (simp_all add: f core_inv_def)
  have beat: "3 \<le> pc_beat ?c" if "3 \<le> unat (pc_streak ?c)"
  proof -
    have "3 \<le> Suc n" using that bounds by simp
    then show ?thesis unfolding three_le f(1) using n by (simp add: unat_of_nat take_bit_nat_eq_self del: of_nat_Suc)
  qed
  have entry: "unat e \<le> unat (pu_now u) \<and> pc_phase c = PostWorldStable" if "pc_entry ?c = Some e" for e
    using that inv t by (auto simp: f core_inv_def)
  have since: "unat (core_since u ?c) \<le> unat (pu_now u)" using since_past [OF inv t] .
  show ?thesis
    unfolding core_inv_def core_step_def
    using bounds beat entry since
    by (cases "pc_phase c"; cases "pc_entry c") (auto simp: core_move_def f core_world_fields three_le)
qed

subsection \<open>A program at rest\<close>

text \<open>
  The free memory stands still (the snapshots lose less than 50 MB to rounding) and no package
  is mapped.
\<close>

definition resting :: "u32 \<Rightarrow> u64 \<Rightarrow> pulse \<Rightarrow> bool" where
  "resting V M u \<longleftrightarrow>
     pu_cur u = V \<and> unat (pu_snap u) \<le> unat V \<and> unat V < unat (pu_snap u) + 50 \<and> pu_maps u = M"

definition settled :: "u32 \<Rightarrow> u64 \<Rightarrow> phase_core \<Rightarrow> bool" where
  "settled V M c \<longleftrightarrow> unat (pc_prev c) \<le> unat V \<and> unat V < unat (pc_prev c) + 50 \<and> pc_maps c = M"

lemma core_step_maps: "pc_maps (core_step u c) = pu_maps u"
  by (simp add: core_step_def core_move_def core_world_fields core_count_def)

lemma core_step_prev: "pc_prev (core_step u c) \<in> {pu_cur u, pu_snap u}"
  by (simp add: core_step_def core_move_def core_world_fields)

lemma settles: "resting V M u \<Longrightarrow> settled V M (core_step u c)"
  using core_step_prev [of u c] by (auto simp: settled_def resting_def core_step_maps)

lemma rest_is_stable:
  assumes "resting V M u" "settled V M c" "unat V < 4096"
  shows "core_stable u c" "\<not> int_delta (pc_prev c) (pu_cur u) \<le> - 200" "pu_maps u = pc_maps c"
proof -
  have "int_delta (pc_prev c) V = int (unat V) - int (unat (pc_prev c))"
    by (rule int_delta_small) (use assms in \<open>simp_all add: settled_def\<close>)
  then have "0 \<le> int_delta (pc_prev c) V" "int_delta (pc_prev c) V < 50"
    using assms(2) unfolding settled_def by linarith+
  then show "core_stable u c" "\<not> int_delta (pc_prev c) (pu_cur u) \<le> - 200" "pu_maps u = pc_maps c"
    using assms by (auto simp: core_stable_def resting_def settled_def)
qed

text \<open>How many beats a settled automaton is from the main menu, when the last beat was at \<open>t\<close>.\<close>

definition dwell_left :: "u64 \<Rightarrow> u64 \<Rightarrow> nat" where
  "dwell_left t e = (45000 + 1999 - (unat t - unat e)) div 2000"

definition rank_of :: "u64 \<Rightarrow> phase_core \<Rightarrow> nat" where
  "rank_of t c =
     (case pc_phase c of
        MainMenuStable \<Rightarrow> 0
      | PostInject \<Rightarrow> max 1 (max (3 - unat (pc_streak c)) (3 - unat (pc_beat c)))
      | WorldExitDetected \<Rightarrow> 3 - unat (pc_streak c)
      | PostWorldStable \<Rightarrow>
          (case pc_entry c of None \<Rightarrow> 28 | Some e \<Rightarrow> 4 + max (dwell_left t e) (3 - unat (pc_quiet c)))
      | WorldLoadDetected \<Rightarrow> 31 - unat (pc_streak c))"

lemma dwell_left_step:
  assumes "unat e \<le> unat t" "unat t + 2000 \<le> unat t'"
  shows "dwell_left t' e \<le> dwell_left t e - 1"
proof -
  have "45000 + 1999 - (unat t' - unat e) \<le> 45000 + 1999 - (unat t - unat e) - 2000" using assms by linarith
  then have "dwell_left t' e \<le> (45000 + 1999 - (unat t - unat e) - 2000) div 2000"
    unfolding dwell_left_def by (rule div_le_mono)
  also have "(x - 2000) div 2000 \<le> x div 2000 - 1" for x :: nat
    by (cases "x < 2000") (simp_all add: le_div_geq)
  finally show ?thesis unfolding dwell_left_def .
qed

lemma dwell_left_done: "unat e \<le> unat t \<Longrightarrow> dwell_left t e = 0 \<longleftrightarrow> kMinWorldMs \<le> t - e"
  by (simp add: dwell_left_def kMinWorldMs_def word_le_nat_alt unat_sub div_eq_0_iff) linarith

lemma rank_bound: "rank_of t c \<le> 31"
proof -
  have "dwell_left t e \<le> 27" for e by (simp add: dwell_left_def)
  then show ?thesis by (auto simp: rank_of_def split: hb_phase.split option.split)
qed

text \<open>Each beat at rest brings the main menu one beat nearer.\<close>

lemma rank_step:
  assumes inv: "core_inv n t c" and n: "Suc n < 4294967296" and t: "unat t + 2000 \<le> unat (pu_now u)"
    and rest: "resting V M u" and settled: "settled V M c" and V: "unat V < 4096"
  shows "rank_of (pu_now u) (core_step u c) \<le> rank_of t c - 1"
proof -
  let ?c = "core_count u c"
  note f = core_count_inv [OF inv n, of u] and r = rest_is_stable [OF rest settled V]
  have beat: "unat (pc_beat ?c) = Suc n" "unat (pc_beat c) = n"
    using inv n by (simp_all only: f core_inv_def unat_of_nat) (simp_all add: take_bit_nat_eq_self)
  show ?thesis
  proof (cases "pc_phase c")
    case PostInject
    then show ?thesis
      using inv r beat by (auto simp: core_step_def core_move_def f rank_of_def three_le core_inv_def)
  next
    case MainMenuStable
    then show ?thesis using r by (simp add: core_step_def core_move_def f rank_of_def)
  next
    case WorldLoadDetected
    then show ?thesis
      using inv r by (auto simp: core_step_def core_move_def f rank_of_def three_le core_inv_def)
  next
    case WorldExitDetected
    then show ?thesis
      using inv r by (auto simp: core_step_def core_move_def f rank_of_def three_le core_inv_def)
  next
    case PostWorldStable
    then have step: "core_step u c = core_world u ?c" by (simp add: core_step_def core_move_def f)
    show ?thesis
    proof (cases "pc_entry c")
      case None
      then have "core_since u ?c = pu_now u" by (simp add: core_since_def f)
      then show ?thesis
        using PostWorldStable None
        by (simp add: step rank_of_def core_world_fields f core_exits_def kMinWorldMs_def dwell_left_def)
    next
      case (Some e)
      then have e: "unat e \<le> unat t" and since: "core_since u ?c = e"
        using inv by (simp_all add: core_inv_def core_since_def f)
      have d: "dwell_left (pu_now u) e \<le> dwell_left t e - 1" by (rule dwell_left_step [OF e t])
      have ex: "core_exits u ?c \<longleftrightarrow> dwell_left (pu_now u) e = 0 \<and> 3 \<le> unat (pc_quiet ?c)"
        using dwell_left_done [of e "pu_now u"] e t by (simp add: core_exits_def since three_le)
      have now: "rank_of t c = 4 + max (dwell_left t e) (3 - unat (pc_quiet c))"
        using PostWorldStable Some by (simp add: rank_of_def)
      have q: "unat (pc_quiet ?c) = Suc (unat (pc_quiet c))" using r(3) by (simp add: f)
      show ?thesis
      proof (cases "core_exits u ?c")
        case True
        then have "rank_of (pu_now u) (core_step u c) = 3" by (simp add: step rank_of_def core_world_fields)
        then show ?thesis using now by linarith
      next
        case False
        then have "rank_of (pu_now u) (core_step u c) = 4 + max (dwell_left (pu_now u) e) (2 - unat (pc_quiet c))"
          using PostWorldStable by (simp add: step rank_of_def core_world_fields f(4) since q)
        moreover have "0 < max (dwell_left (pu_now u) e) (2 - unat (pc_quiet c))"
          using False ex q by (simp add: max_def) linarith
        ultimately show ?thesis using d now by linarith
      qed
    qed
  qed
qed

text \<open>The clock of a run: it never goes back, and at rest the beats are two seconds apart.\<close>

fun clock_from :: "nat \<Rightarrow> u64 \<Rightarrow> pulse list \<Rightarrow> bool" where
  "clock_from d t [] = True"
| "clock_from d t (u # us) \<longleftrightarrow> unat t + d \<le> unat (pu_now u) \<and> clock_from d (pu_now u) us"

definition last_tick :: "u64 \<Rightarrow> pulse list \<Rightarrow> u64" where
  "last_tick t us = (if us = [] then t else pu_now (last us))"

lemma last_tick_Cons: "last_tick t (u # us) = last_tick (pu_now u) us"
  by (simp add: last_tick_def)

lemma fold_inv:
  assumes "core_inv n t c" "n + length us < 4294967296" "clock_from d t us"
  shows "core_inv (n + length us) (last_tick t us) (fold core_step us c)"
  using assms
proof (induction us arbitrary: n t c)
  case (Cons u us)
  have "core_inv (Suc n) (pu_now u) (core_step u c)"
    by (rule core_step_inv) (use Cons.prems in auto)
  from Cons.IH [OF this] Cons.prems show ?case by (simp add: last_tick_Cons)
qed (simp add: last_tick_def)

lemma fold_rank:
  assumes "core_inv n t c" "n + length us < 4294967296" "clock_from 2000 t us"
    and "\<forall>u\<in>set us. resting V M u" "settled V M c" "unat V < 4096"
  shows "rank_of (last_tick t us) (fold core_step us c) \<le> rank_of t c - length us"
  using assms
proof (induction us arbitrary: n t c)
  case (Cons u us)
  have inv: "core_inv (Suc n) (pu_now u) (core_step u c)"
    by (rule core_step_inv) (use Cons.prems in auto)
  have s: "settled V M (core_step u c)" by (rule settles) (use Cons.prems in simp)
  have "rank_of (pu_now u) (core_step u c) \<le> rank_of t c - 1"
    by (rule rank_step [where n = n and V = V and M = M]) (use Cons.prems in auto)
  then show ?case using Cons.IH [OF inv _ _ _ s] Cons.prems by (simp add: last_tick_Cons)
qed (simp add: last_tick_def)

lemma fold_rest:
  assumes inv: "core_inv n t c" and n: "n + length us < 4294967296" and clock: "clock_from 2000 t us"
    and rest: "\<forall>u\<in>set us. resting V M u" and V: "unat V < 4096" and long: "32 \<le> length us"
  shows "pc_phase (fold core_step us c) = MainMenuStable"
proof -
  obtain u us' where us: "us = u # us'" using long by (cases us) auto
  have inv1: "core_inv (Suc n) (pu_now u) (core_step u c)"
    by (rule core_step_inv) (use inv n clock us in auto)
  have "rank_of (last_tick (pu_now u) us') (fold core_step us' (core_step u c)) \<le>
        rank_of (pu_now u) (core_step u c) - length us'"
    by (rule fold_rank [OF inv1 _ _ _ settles]) (use n clock rest us V in auto)
  then have "rank_of (last_tick t us) (fold core_step us c) = 0"
    using rank_bound [of "pu_now u" "core_step u c"] long us by (simp add: last_tick_Cons)
  moreover have "core_inv (n + length us) (last_tick t us) (fold core_step us c)"
    by (rule fold_inv [OF inv n clock])
  ultimately show ?thesis
    by (auto simp: rank_of_def core_inv_def split: hb_phase.splits option.splits)
qed

subsection \<open>What a run remembers\<close>

definition core_after :: "nat \<Rightarrow> pulse list \<Rightarrow> phase_core \<Rightarrow> phase_core" where
  "core_after k us c = fold core_step (take k us) c"

lemma core_after_0 [simp]: "core_after 0 us c = c"
  by (simp add: core_after_def)

lemma core_after_Suc: "k < length us \<Longrightarrow> core_after (Suc k) us c = core_step (us ! k) (core_after k us c)"
  by (simp add: core_after_def take_Suc_conv_app_nth)

text \<open>The package counter as the beat before left it, 0 before the first.\<close>

definition prior_maps :: "u64 list \<Rightarrow> nat \<Rightarrow> u64" where
  "prior_maps ms k = (if k = 0 then 0 else ms ! (k - 1))"

lemma core_step_quiet:
  "pc_quiet (core_step u c) = (if pc_phase c = PostWorldStable \<and> core_exits u (core_count u c) then 0 else pc_quiet (core_count u c))"
  by (auto simp: core_step_def core_move_def core_world_fields core_count_def)

lemma core_step_entry:
  "pc_entry (core_step u c) =
   (if pc_phase c = PostWorldStable
    then (if core_exits u (core_count u c) then None else Some (core_since u c)) else pc_entry c)"
  by (auto simp: core_step_def core_move_def core_world_fields core_count_def core_since_def)

lemma core_step_in_world:
  "pc_phase c = PostWorldStable \<Longrightarrow>
   pc_phase (core_step u c) = (if core_exits u (core_count u c) then WorldExitDetected else PostWorldStable)"
  by (auto simp: core_step_def core_move_def core_world_fields core_count_def)

lemma quiet_history:
  assumes "pc_quiet c = 0" "pc_maps c = 0" "k \<le> length us" "length us < 4294967296"
  shows "unat (pc_quiet (core_after k us c)) \<le> k \<and> pc_maps (core_after k us c) = prior_maps (map pu_maps us) k \<and>
    (\<forall>m. k \<le> m + unat (pc_quiet (core_after k us c)) \<longrightarrow> m < k \<longrightarrow> pu_maps (us ! m) = prior_maps (map pu_maps us) m)"
  using assms(3)
proof (induction k)
  case 0
  then show ?case using assms by (simp add: prior_maps_def)
next
  case (Suc k)
  let ?c = "core_after k us c" and ?u = "us ! k"
  have IH: "unat (pc_quiet ?c) \<le> k" "pc_maps ?c = prior_maps (map pu_maps us) k"
    "\<And>m. k \<le> m + unat (pc_quiet ?c) \<Longrightarrow> m < k \<Longrightarrow> pu_maps (us ! m) = prior_maps (map pu_maps us) m"
    using Suc by simp_all
  have w: "unat (pc_quiet ?c + 1) = Suc (unat (pc_quiet ?c))"
    by (rule unat_Suc_bounded [OF IH(1)]) (use Suc.prems assms(4) in simp)
  have maps: "pc_maps (core_step ?u ?c) = prior_maps (map pu_maps us) (Suc k)"
    using Suc.prems by (simp add: core_step_maps prior_maps_def)
  have q: "unat (pc_quiet (core_step ?u ?c)) \<le> (if pu_maps ?u = pc_maps ?c then Suc (unat (pc_quiet ?c)) else 0)"
    by (simp add: core_step_quiet core_count_def w)
  have "pu_maps (us ! m) = prior_maps (map pu_maps us) m"
    if "Suc k \<le> m + unat (pc_quiet (core_step ?u ?c))" "m < Suc k" for m
  proof (cases "m = k")
    case True
    then show ?thesis using that q IH(2) by (auto split: if_splits)
  next
    case False
    then show ?thesis using that q by (intro IH(3)) (auto split: if_splits)
  qed
  then show ?case using maps q IH(1) Suc.prems by (auto simp: core_after_Suc split: if_splits)
qed

lemma entry_history:
  assumes "pc_entry c = None" "k \<le> length us" "pc_entry (core_after k us c) = Some e"
  shows "\<exists>j<k. pu_now (us ! j) = e \<and> (\<forall>m. j \<le> m \<longrightarrow> m \<le> k \<longrightarrow> pc_phase (core_after m us c) = PostWorldStable)"
  using assms(2,3)
proof (induction k arbitrary: e)
  case 0
  then show ?case using assms by simp
next
  case (Suc k)
  let ?c = "core_after k us c" and ?u = "us ! k"
  have step: "core_after (Suc k) us c = core_step ?u ?c" using Suc.prems by (simp add: core_after_Suc)
  have world: "pc_phase ?c = PostWorldStable \<or> pc_entry ?c = Some e"
    using Suc.prems step by (auto simp: core_step_entry split: if_splits)
  show ?case
  proof (cases "pc_entry ?c")
    case None
    then have p: "pc_phase ?c = PostWorldStable" "pu_now ?u = e" "pc_phase (core_step ?u ?c) = PostWorldStable"
      using Suc.prems step world by (auto simp: core_step_entry core_since_def core_step_in_world split: if_splits)
    then show ?thesis using step by (intro exI [of _ k]) (auto simp: le_Suc_eq)
  next
    case (Some e')
    then obtain j where j: "j < k" "pu_now (us ! j) = e'"
      "\<forall>m. j \<le> m \<longrightarrow> m \<le> k \<longrightarrow> pc_phase (core_after m us c) = PostWorldStable"
      using Suc.IH [of e'] Suc.prems by auto
    then have p: "pc_phase ?c = PostWorldStable" by simp
    then have "e' = e" "pc_phase (core_step ?u ?c) = PostWorldStable"
      using Suc.prems step Some by (auto simp: core_step_entry core_since_def core_step_in_world split: if_splits)
    then show ?thesis using j step by (intro exI [of _ j]) (auto simp: le_Suc_eq)
  qed
qed

lemma core_exit_earned:
  assumes start: "pc_quiet c = 0" "pc_maps c = 0" "pc_entry c = None"
    and k: "k < length us" "length us < 4294967296"
    and exit: "pc_phase (core_after k us c) = PostWorldStable" "pc_phase (core_after (Suc k) us c) = WorldExitDetected"
  shows "\<exists>j<k. (\<forall>m. j \<le> m \<longrightarrow> m \<le> k \<longrightarrow> pc_phase (core_after m us c) = PostWorldStable) \<and>
      pu_now (us ! k) - pu_now (us ! j) \<ge> 45000 \<and>
      2 \<le> k \<and> (\<forall>m\<in>{k - 2..k}. pu_maps (us ! m) = prior_maps (map pu_maps us) m)"
proof -
  let ?c = "core_after k us c" and ?u = "us ! k"
  have ex: "core_exits ?u (core_count ?u ?c)"
    using exit k by (simp add: core_after_Suc core_step_in_world split: if_splits)
  then have dwell: "pu_now ?u - core_since ?u ?c \<ge> 45000" and q: "3 \<le> unat (pc_quiet (core_count ?u ?c))"
    by (simp_all add: core_exits_def kMinWorldMs_def three_le core_since_def core_count_def)
  have H: "unat (pc_quiet ?c) \<le> k" "pc_maps ?c = prior_maps (map pu_maps us) k"
    "\<And>m. k \<le> m + unat (pc_quiet ?c) \<Longrightarrow> m < k \<Longrightarrow> pu_maps (us ! m) = prior_maps (map pu_maps us) m"
    using quiet_history [OF start(1,2) _ k(2), of k] k by auto
  have w: "unat (pc_quiet ?c + 1) = Suc (unat (pc_quiet ?c))"
    by (rule unat_Suc_bounded [OF H(1)]) (use k in simp)
  have two: "2 \<le> unat (pc_quiet ?c)" "pu_maps ?u = pc_maps ?c"
    using q w by (auto simp: core_count_def split: if_splits)
  have "pu_maps (us ! m) = prior_maps (map pu_maps us) m" if "m \<in> {k - 2..k}" for m
    using that two H by (cases "m = k") auto
  moreover have "2 \<le> k" using two H by simp
  moreover obtain e where e: "pc_entry ?c = Some e"
    using dwell by (cases "pc_entry ?c") (simp_all add: core_since_def)
  moreover obtain j where "j < k" "pu_now (us ! j) = e"
    "\<forall>m. j \<le> m \<longrightarrow> m \<le> k \<longrightarrow> pc_phase (core_after m us c) = PostWorldStable"
    using entry_history [OF start(3) _ e] k by auto
  ultimately show ?thesis using dwell by (intro exI [of _ j]) (simp add: core_since_def)
qed

end
