(* ===== verification/HeartbeatTele.thy ===== *)
theory HeartbeatTele
  imports PhaseProps
begin

section \<open>The telemetry of the heartbeat\<close>

text \<open>
  The figures a beat keeps for its reports (milestone flags, the last total, the ring) and the
  events that report them.  The other stages leave both alone.
\<close>

subsection \<open>The figures\<close>

record tele =
  te_flags :: u32
  te_lflags :: u32
  te_last :: u32
  te_ring :: "LfSample list"
  te_count :: nat
  te_head :: nat
  te_tick :: u64
  te_start :: u64
  te_warm :: u64

definition tele_of :: "heartbeat \<Rightarrow> tele" where
  "tele_of st =
     \<lparr>te_flags = vas_milestone_flags st, te_lflags = largest_free_milestone_flags st, te_last = last_vas_mb st,
      te_ring = lfRing st, te_count = lfRingCount st, te_head = lfRingHead st, te_tick = lastLfSampleTick st,
      te_start = monitorStartTick st, te_warm = slopeWarmupMs st\<rparr>"

lemma tele_observe: "tele_of (fst (beat_observe env st)) = tele_of st"
  by (simp add: beat_observe_def tele_of_def Let_def split: prod.split)

lemma tele_slope: "tele_of (fst (emitVasSlope tag env st)) = tele_of st"
  by (simp add: emitVasSlope_def tele_of_def split: option.split)

lemma tele_monitors: "tele_of (fst (beat_monitors env st)) = tele_of st"
  by (simp add: beat_monitors_def tele_of_def Let_def split: prod.split option.split)

lemma tele_latest: "tele_of (latest_sample env st) = tele_of st"
  by (simp add: latest_sample_def tele_of_def split: prod.split)

lemma tele_analytics: "tele_of (fst (beat_analytics env b st)) = tele_of st"
  using tele_slope [of "''interval''" env st]
  by (auto simp: beat_analytics_def Let_def split: option.splits prod.splits if_splits)

lemma tele_quiet: "tele_of (beat_quiet env st) = tele_of st"
  by (simp add: beat_quiet_def tele_of_def)

lemma tele_enter: "tele_of (fst (enter_phase p env st)) = tele_of st"
  by (simp add: enter_phase_def Let_def tele_of_def)

lemma tele_light: "tele_of (light_update env st) = tele_of st"
  by (simp add: light_update_def tele_of_def)

lemma tele_entry: "tele_of (fst (take_world_entry env st)) = tele_of st"
  by (simp add: take_world_entry_def tele_of_def)

lemma tele_leave: "tele_of (fst (leave_world env st)) = tele_of st"
proof -
  obtain ints mods v where d: "LogLeakHunterDiff (worldEntrySnap st) (leak_snap env st) = (ints, mods, v)"
    by (metis prod_cases3)
  obtain s1 sl where e: "emitVasSlope ''leak_hunter'' env st = (s1, sl)" by fastforce
  obtain s2 pd where p: "enter_phase WorldExitDetected env s1 = (s2, pd)" by fastforce
  have "tele_of s2 = tele_of st"
    using tele_slope [of "''leak_hunter''" env st] tele_enter [of WorldExitDetected env s1] e p by simp
  then show ?thesis by (simp add: leave_world_def Let_def d e p) (simp add: tele_of_def)
qed

lemma tele_stay: "tele_of (fst (stay_in_world env st)) = tele_of st"
proof -
  obtain s1 sl where e: "emitVasSlope ''leak_hunter_vas'' env st = (s1, sl)" by fastforce
  have "tele_of s1 = tele_of st" using tele_slope [of "''leak_hunter_vas''" env st] e by simp
  then show ?thesis by (simp add: stay_in_world_def Let_def e) (simp add: tele_of_def)
qed

lemma tele_in_world: "tele_of (fst (in_world env st)) = tele_of st"
proof -
  obtain s1 ev1 where t: "take_world_entry env st = (s1, ev1)" by fastforce
  have "tele_of s1 = tele_of st" using tele_entry [of env st] t by simp
  then show ?thesis
    using tele_leave [of env s1] tele_stay [of env s1] by (auto simp: in_world_def t tele_light split: prod.split)
qed

lemma tele_phase: "tele_of (fst (beat_phase env st)) = tele_of st"
proof -
  have "tele_of (st\<lparr>stableStreak := v\<rparr>) = tele_of st" for v by (simp add: tele_of_def)
  then show ?thesis by (simp add: beat_phase_def Let_def tele_enter tele_in_world tele_light)
qed

lemma tele_milestones:
  "tele_of (fst (beat_milestones env st)) =
   (tele_of st)\<lparr>te_flags := fst (crossings (current_vas_mb env) milestones (te_flags (tele_of st))),
                te_lflags := fst (crossings (largest_free_mb env) largestFreeMilestones (te_lflags (tele_of st)))\<rparr>"
proof -
  obtain fl xs where 1: "crossings (current_vas_mb env) milestones (vas_milestone_flags st) = (fl, xs)" by fastforce
  obtain lf ys where 2: "crossings (largest_free_mb env) largestFreeMilestones (largest_free_milestone_flags st) = (lf, ys)"
    by fastforce
  obtain s1 sl where e: "emitVasSlope ''milestone'' env
      (st\<lparr>vas_milestone_flags := fl, largest_free_milestone_flags := lf\<rparr>) = (s1, sl)" by fastforce
  have "tele_of s1 = tele_of (st\<lparr>vas_milestone_flags := fl, largest_free_milestone_flags := lf\<rparr>)"
    using tele_slope [of "''milestone''" env "st\<lparr>vas_milestone_flags := fl, largest_free_milestone_flags := lf\<rparr>"] e
    by simp
  then show ?thesis by (auto simp: beat_milestones_def Let_def 1 2 e tele_of_def)
qed

subsection \<open>The events\<close>

text \<open>Events that report the figures.\<close>

fun reports_figure :: "hb_event \<Rightarrow> bool" where
  "reports_figure (PassiveVas c l d) = True"
| "reports_figure (VasLine c l d p s) = True"
| "reports_figure (TotalMilestone l mb b) = True"
| "reports_figure (LargestMilestone l mb b) = True"
| "reports_figure _ = False"

definition no_figures :: "hb_event list \<Rightarrow> bool" where
  "no_figures ev \<longleftrightarrow> (\<forall>e\<in>set ev. \<not> reports_figure e)"

lemma no_figures_simps [simp]:
  "no_figures []" "no_figures (e # ev) \<longleftrightarrow> \<not> reports_figure e \<and> no_figures ev"
  "no_figures (ev @ ev') \<longleftrightarrow> no_figures ev \<and> no_figures ev'"
  by (auto simp: no_figures_def)

lemma quiet_observe: "no_figures (snd (beat_observe env st))"
  by (simp add: beat_observe_def Let_def size_reports_def split: prod.split)

lemma quiet_slope: "no_figures (snd (emitVasSlope tag env st))"
  by (simp add: emitVasSlope_def split: option.split)

lemma quiet_monitors: "no_figures (snd (beat_monitors env st))"
  by (simp add: beat_monitors_def Let_def split: prod.split option.split)

lemma quiet_analytics: "no_figures (snd (beat_analytics env b st))"
  using quiet_slope [of "''interval''" env st]
  by (auto simp: beat_analytics_def Let_def analytics_reports_def split: option.splits prod.splits if_splits)

lemma quiet_enter: "no_figures (snd (enter_phase p env st))"
  by (simp add: enter_phase_def Let_def)

lemma quiet_leak: "no_figures (leak_reports env)"
  by (simp add: leak_reports_def)

lemma quiet_phase: "no_figures (snd (beat_phase env st))"
proof -
  have entry: "no_figures (snd (take_world_entry env s))" for s by (simp add: take_world_entry_def)
  have leave: "no_figures (snd (leave_world env s))" for s
  proof -
    obtain ints mods v where d: "LogLeakHunterDiff (worldEntrySnap s) (leak_snap env s) = (ints, mods, v)"
      by (metis prod_cases3)
    show ?thesis
      using quiet_slope [of "''leak_hunter''" env s] quiet_enter [of WorldExitDetected env]
      by (auto simp: leave_world_def Let_def d quiet_leak split: prod.split)
        (metis snd_conv)+
  qed
  have stay: "no_figures (snd (stay_in_world env s))" for s
    using quiet_slope [of "''leak_hunter_vas''" env s]
    by (auto simp: stay_in_world_def Let_def quiet_leak split: prod.split)
  have "no_figures (snd (in_world env s))" for s
    using entry [of s] leave stay by (auto simp: in_world_def split: prod.split) (metis snd_conv)+
  then show ?thesis by (simp add: beat_phase_def Let_def quiet_enter)
qed

subsection \<open>A beat, as its figures see it\<close>

definition figures :: "hb_event list \<Rightarrow> hb_event list" where
  "figures ev = filter reports_figure ev"

lemma figures_append [simp]: "figures (a @ b) = figures a @ figures b"
  by (simp add: figures_def)

lemma figures_none: "no_figures ev \<Longrightarrow> figures ev = []"
  by (simp add: figures_def no_figures_def)

definition ring_due_at :: "u64 \<Rightarrow> tele \<Rightarrow> bool" where
  "ring_due_at now T \<longleftrightarrow> now - te_start T \<ge> te_warm T \<and> (te_tick T = 0 \<or> now - te_tick T \<ge> 30000)"

definition sample_of :: "beat_env \<Rightarrow> LfSample" where
  "sample_of env = \<lparr>lf_t = be_now env, lf_lf = largest_free_mb env, lf_tf = current_vas_mb env\<rparr>"

definition tele_push :: "beat_env \<Rightarrow> tele \<Rightarrow> tele" where
  "tele_push env T =
     (if \<not> ring_due_at (be_now env) T then T
      else T\<lparr>te_tick := be_now env, te_ring := (te_ring T)[te_head T := sample_of env],
             te_head := (te_head T + 1) mod kLfRing,
             te_count := (if te_count T < kLfRing then te_count T + 1 else te_count T)\<rparr>)"

lemma tele_ring: "tele_of (ring_push env st) = tele_push env (tele_of st)"
  by (simp add: ring_push_def tele_push_def tele_of_def ring_due_def ring_due_at_def sample_of_def)

definition total_crossings :: "beat_env \<Rightarrow> u32 \<Rightarrow> u32 \<times> string list" where
  "total_crossings env fl = crossings (current_vas_mb env) milestones fl"

definition largest_crossings :: "beat_env \<Rightarrow> u32 \<Rightarrow> u32 \<times> (string \<times> string) list" where
  "largest_crossings env fl = crossings (largest_free_mb env) largestFreeMilestones fl"

definition tele_step :: "bool \<Rightarrow> beat_env \<Rightarrow> tele \<Rightarrow> tele" where
  "tele_step passive env T =
     (tele_push env T)\<lparr>te_last := current_vas_mb env,
        te_flags := (if passive then te_flags T else fst (total_crossings env (te_flags T))),
        te_lflags := (if passive then te_lflags T else fst (largest_crossings env (te_lflags T)))\<rparr>"

lemma tele_push_other [simp]:
  "te_flags (tele_push env T) = te_flags T" "te_lflags (tele_push env T) = te_lflags T"
  "te_last (tele_push env T) = te_last T"
  by (simp_all add: tele_push_def)

text \<open>The events of a beat that report a figure: the milestones crossed, then the VAS line.\<close>

definition mark_events :: "beat_env \<Rightarrow> u32 \<Rightarrow> tele \<Rightarrow> hb_event list" where
  "mark_events env b T =
     map (\<lambda>l. TotalMilestone l (current_vas_mb env) b) (snd (total_crossings env (te_flags T))) @
     map (\<lambda>(l, c). LargestMilestone l (largest_free_mb env) b) (snd (largest_crossings env (te_lflags T)))"

lemma figures_marks:
  "figures (concat (map (\<lambda>l. TotalMilestone l mb b # count_if env c) xs)) = map (\<lambda>l. TotalMilestone l mb b) xs"
  "figures (concat (map (\<lambda>(l, d). LargestMilestone l mb b # count_if env d) ys)) = map (\<lambda>(l, d). LargestMilestone l mb b) ys"
  by (induction xs; auto simp: figures_def count_if_def) (induction ys; auto simp: figures_def count_if_def)

lemma figures_milestones:
  "figures (fst (snd (beat_milestones env st))) = mark_events env (beat_count st) (tele_of st)"
proof -
  obtain fl xs where 1: "crossings (current_vas_mb env) milestones (vas_milestone_flags st) = (fl, xs)" by fastforce
  obtain lf ys where 2: "crossings (largest_free_mb env) largestFreeMilestones (largest_free_milestone_flags st) = (lf, ys)"
    by fastforce
  let ?st = "st\<lparr>vas_milestone_flags := fl, largest_free_milestone_flags := lf\<rparr>"
  obtain s1 sl where e: "emitVasSlope ''milestone'' env ?st = (s1, sl)" by fastforce
  have "figures sl = []" using quiet_slope [of "''milestone''" env ?st] e by (simp add: figures_none)
  then show ?thesis
    by (simp add: beat_milestones_def Let_def 1 2 e mark_events_def total_crossings_def largest_crossings_def
        tele_of_def figures_marks)
qed

lemma vas_line_same:
  assumes "tele_of s = T" "te_last T = v" "beat_count s = b"
  shows "figures (beat_vas_line env s) =
    (if b \<le> 30 \<or> current_vas_mb env \<noteq> v \<or> b mod 10 = 0
     then [VasLine (current_vas_mb env) (largest_free_mb env) (int_delta v (current_vas_mb env))
            (if reportedProxyAllocs env > 0 then Some (reportedProxyAllocs env, reportedProxyUsage env div MB) else None)
            (script_heap_bytes env s div MB)] else [])"
  using assms by (auto simp: beat_vas_line_def Let_def figures_def tele_of_def)

lemma mark_events_push [simp]: "mark_events env b (tele_push env' T) = mark_events env b T"
  by (simp add: mark_events_def)

definition line_due :: "u32 \<Rightarrow> u32 \<Rightarrow> u32 \<Rightarrow> bool" where
  "line_due b cur prev \<longleftrightarrow> b \<le> 30 \<or> cur \<noteq> prev \<or> b mod 10 = 0"

lemma active_figures:
  "\<exists>p m. figures (snd (active_tail env st)) =
     mark_events env (beat_count st) (tele_of st) @
     (if line_due (beat_count st) (current_vas_mb env) (te_last (tele_of st))
      then [VasLine (current_vas_mb env) (largest_free_mb env) (int_delta (te_last (tele_of st)) (current_vas_mb env)) p m]
      else [])"
  and active_tele:
  "tele_of (fst (active_tail env st)) =
     (tele_of st)\<lparr>te_last := current_vas_mb env, te_flags := fst (total_crossings env (te_flags (tele_of st))),
                  te_lflags := fst (largest_crossings env (te_lflags (tele_of st)))\<rparr>"
proof -
  obtain s1 ev1 where 1: "beat_monitors env st = (s1, ev1)" by fastforce
  obtain s2 ev2 b where 2: "beat_milestones env s1 = (s2, ev2, b)" by (metis prod_cases3)
  obtain s3 ev3 where 3: "beat_analytics env b s2 = (s3, ev3)" by fastforce
  let ?s = "beat_quiet env (s3\<lparr>last_vas_mb := current_vas_mb env\<rparr>)"
  obtain s4 ev5 where 4: "beat_phase env ?s = (s4, ev5)" by fastforce
  have tail: "active_tail env st = (s4, ev1 @ ev2 @ beat_vas_line env s2 @ ev3 @ ev5)"
    by (simp add: active_tail_def 1 2 3 4)
  have t1: "tele_of s1 = tele_of st" using tele_monitors [of env st] 1 by simp
  have t2: "tele_of s2 = (tele_of st)\<lparr>te_flags := fst (total_crossings env (te_flags (tele_of st))),
      te_lflags := fst (largest_crossings env (te_lflags (tele_of st)))\<rparr>"
    using tele_milestones [of env s1] 2 t1 by (simp add: total_crossings_def largest_crossings_def)
  have t3: "tele_of s3 = tele_of s2" using tele_analytics [of env b s2] 3 by simp
  have "tele_of (s3\<lparr>last_vas_mb := v\<rparr>) = (tele_of s3)\<lparr>te_last := v\<rparr>" for v by (simp add: tele_of_def)
  then have "tele_of s4 = (tele_of s3)\<lparr>te_last := current_vas_mb env\<rparr>"
    using tele_phase [of env ?s] 4 by (simp add: tele_quiet)
  then show "tele_of (fst (active_tail env st)) =
     (tele_of st)\<lparr>te_last := current_vas_mb env, te_flags := fst (total_crossings env (te_flags (tele_of st))),
                  te_lflags := fst (largest_crossings env (te_lflags (tele_of st)))\<rparr>"
    by (simp add: tail t3 t2)
  have b: "beat_count s1 = beat_count st" "beat_count s2 = beat_count st"
    using core_monitors [of env st] core_milestones [of env s1] 1 2 by (simp_all add: core_of_def)
  have "figures ev1 = []" "figures ev3 = []" "figures ev5 = []"
    using quiet_monitors [of env st] quiet_analytics [of env b s2] quiet_phase [of env ?s] 1 3 4
    by (simp_all add: figures_none)
  moreover have "figures ev2 = mark_events env (beat_count st) (tele_of st)"
    using figures_milestones [of env s1] 2 t1 b by simp
  moreover have "te_last (tele_of s2) = te_last (tele_of st)" by (simp add: t2)
  ultimately show "\<exists>p m. figures (snd (active_tail env st)) =
     mark_events env (beat_count st) (tele_of st) @
     (if line_due (beat_count st) (current_vas_mb env) (te_last (tele_of st))
      then [VasLine (current_vas_mb env) (largest_free_mb env) (int_delta (te_last (tele_of st)) (current_vas_mb env)) p m]
      else [])"
    using vas_line_same [OF refl _ b(2), of "te_last (tele_of st)" env] by (auto simp: tail line_due_def)
qed

lemma tele_beat: "tele_of (fst (hb_beat passive env st)) = tele_step passive env (tele_of st)"
proof -
  have c: "tele_of (st\<lparr>beat_count := n\<rparr>) = tele_of st" for n by (simp add: tele_of_def)
  obtain s1 ev1 where 1: "(if passive then (st\<lparr>beat_count := beat_count st + 1\<rparr>, [])
      else beat_observe env (st\<lparr>beat_count := beat_count st + 1\<rparr>)) = (s1, ev1)" by fastforce
  have "tele_of s1 = tele_of st"
    using 1 tele_observe [of env "st\<lparr>beat_count := beat_count st + 1\<rparr>"] by (auto simp: c split: if_splits)
  then have t: "tele_of (ring_push env (latest_sample env s1)) = tele_push env (tele_of st)"
    by (simp add: tele_ring tele_latest)
  have p: "tele_of (s\<lparr>last_vas_mb := v\<rparr>) = (tele_of s)\<lparr>te_last := v\<rparr>" for s v by (simp add: tele_of_def)
  have "fst (hb_beat passive env st) =
      fst ((if passive then passive_tail else active_tail) env (ring_push env (latest_sample env s1)))"
    by (simp add: hb_beat_def Let_def 1 split: prod.split)
  then show ?thesis by (simp add: tele_step_def active_tele passive_tail_def p t)
qed

lemma figures_beat:
  "\<exists>p m. figures (snd (hb_beat passive env st)) =
    (if passive
     then [PassiveVas (current_vas_mb env) (largest_free_mb env) (int_delta (te_last (tele_of st)) (current_vas_mb env))]
     else mark_events env (beat_count st + 1) (tele_of st) @
          (if line_due (beat_count st + 1) (current_vas_mb env) (te_last (tele_of st))
           then [VasLine (current_vas_mb env) (largest_free_mb env) (int_delta (te_last (tele_of st)) (current_vas_mb env)) p m]
           else []))"
proof (cases "passive")
  case True
  have "tele_of (ring_push env (latest_sample env (st\<lparr>beat_count := n\<rparr>))) = tele_push env (tele_of st)" for n
    by (simp add: tele_ring tele_latest) (simp add: tele_of_def)
  then have "last_vas_mb (ring_push env (latest_sample env (st\<lparr>beat_count := n\<rparr>))) = te_last (tele_of st)" for n
    by (metis tele_push_other(3) tele.select_convs(3) tele_of_def)
  then show ?thesis using True by (simp add: hb_beat_def Let_def passive_tail_def figures_def)
next
  case False
  let ?st = "st\<lparr>beat_count := beat_count st + 1\<rparr>"
  obtain s1 ev1 where 1: "beat_observe env ?st = (s1, ev1)" by fastforce
  let ?s = "ring_push env (latest_sample env s1)"
  have "tele_of s1 = tele_of ?st" "core_of s1 = core_of ?st"
    using tele_observe [of env ?st] core_observe [of env ?st] 1 by simp_all
  then have t: "tele_of ?s = tele_push env (tele_of st)" and b: "beat_count ?s = beat_count st + 1"
    using core_ring [of env "latest_sample env s1"] core_latest [of env s1]
    by (simp_all add: tele_ring tele_latest) (simp_all add: tele_of_def core_of_def)
  obtain s2 ev2 where 2: "active_tail env ?s = (s2, ev2)" by fastforce
  have "snd (hb_beat False env st) = ev1 @ ev2" by (simp add: hb_beat_def Let_def 1 2)
  moreover have "figures ev1 = []" using quiet_observe [of env ?st] 1 by (simp add: figures_none)
  ultimately have "figures (snd (hb_beat passive env st)) = figures (snd (active_tail env ?s))"
    using 2 False by simp
  then show ?thesis
    using active_figures [of env ?s] False unfolding t b tele_push_other mark_events_push by simp
qed

subsection \<open>Runs of crossings\<close>

lemma crossings_flags:
  assumes "\<forall>(t, b, x)\<in>set ms. b < 32" "n < 32"
  shows "bit (fst (crossings mb ms fl)) n \<longleftrightarrow> bit fl n \<or> (\<exists>t x. (t, n, x) \<in> set ms \<and> mb < t)"
  using assms
proof (induction mb ms fl rule: crossings.induct)
  case (2 mb t b x ms fl)
  have "bit (set_bit b fl) n \<longleftrightarrow> bit fl n \<or> n = b" using 2 by (auto simp: bit_set_bit_iff)
  then show ?case using 2 by (auto split: prod.split) (metis fst_conv)+
qed simp

lemma crossings_found:
  assumes "distinct (map (fst \<circ> snd) ms)" "\<forall>(t, b, x)\<in>set ms. b < 32"
  shows "snd (crossings mb ms fl) = map (snd \<circ> snd) (filter (\<lambda>(t, b, x). mb < t \<and> \<not> bit fl b) ms)"
  using assms
proof (induction mb ms fl rule: crossings.induct)
  case (2 mb t b x ms fl)
  have "filter (\<lambda>(t, c, x). mb < t \<and> \<not> bit (set_bit b fl) c) ms = filter (\<lambda>(t, c, x). mb < t \<and> \<not> bit fl c) ms"
    using 2(3,4) by (intro filter_cong refl) (force simp: bit_set_bit_iff image_iff)
  then show ?case using 2 by (auto split: prod.split)
qed simp

text \<open>One pass per value, the flags kept from each to the next.\<close>

fun cross_run :: "(u32 \<times> nat \<times> 'a) list \<Rightarrow> u32 list \<Rightarrow> u32 \<Rightarrow> 'a list" where
  "cross_run ms [] fl = []"
| "cross_run ms (mb # mbs) fl = snd (crossings mb ms fl) @ cross_run ms mbs (fst (crossings mb ms fl))"

lemma cross_run_once:
  assumes d: "distinct (map (fst \<circ> snd) ms)" and b: "\<forall>(t, b, x)\<in>set ms. b < 32"
    and x: "distinct (map (snd \<circ> snd) ms)"
  shows "distinct (cross_run ms mbs fl) \<and>
    set (cross_run ms mbs fl) = {x. \<exists>t b. (t, b, x) \<in> set ms \<and> \<not> bit fl b \<and> (\<exists>mb\<in>set mbs. mb < t)}"
proof (induction mbs arbitrary: fl)
  case (Cons mb mbs)
  let ?fl = "fst (crossings mb ms fl)" and ?xs = "snd (crossings mb ms fl)"
  have same_bit: "t = t' \<and> y = y'" if "(t, n, y) \<in> set ms" "(t', n, y') \<in> set ms" for t n y t' y'
    using d that unfolding distinct_map inj_on_def by (metis comp_apply fst_conv snd_conv)
  have same_x: "t = t' \<and> n = n'" if "(t, n, y) \<in> set ms" "(t', n', y) \<in> set ms" for t n y t' n'
    using x that unfolding distinct_map inj_on_def by (metis comp_apply fst_conv snd_conv)
  have fl: "bit ?fl n \<longleftrightarrow> bit fl n \<or> mb < t" if "(t, n, y) \<in> set ms" for t n y
    using crossings_flags [OF b, of n mb fl] b that same_bit [OF that] by blast
  have xs: "set ?xs = {y. \<exists>t n. (t, n, y) \<in> set ms \<and> \<not> bit fl n \<and> mb < t}"
    unfolding crossings_found [OF d b] by (auto simp: image_iff) blast+
  have dx: "distinct ?xs"
    unfolding crossings_found [OF d b] using x by (rule distinct_map_filter)
  have rest: "set (cross_run ms mbs ?fl) =
      {y. \<exists>t n. (t, n, y) \<in> set ms \<and> \<not> bit fl n \<and> \<not> mb < t \<and> (\<exists>mb\<in>set mbs. mb < t)}"
    using Cons.IH [of ?fl] fl by blast
  have "set ?xs \<inter> set (cross_run ms mbs ?fl) = {}" unfolding xs rest using same_x by blast
  moreover have "set ?xs \<union> set (cross_run ms mbs ?fl) =
      {y. \<exists>t n. (t, n, y) \<in> set ms \<and> \<not> bit fl n \<and> (\<exists>m\<in>set (mb # mbs). m < t)}"
    unfolding xs rest by (rule set_eqI) (simp, blast)
  ultimately show ?case using dx Cons.IH [of ?fl] by simp
qed simp

lemma milestones_tables:
  "distinct (map (fst \<circ> snd) milestones)" "\<forall>(t, b, x)\<in>set milestones. b < 32" "distinct (map (snd \<circ> snd) milestones)"
  "distinct (map (fst \<circ> snd) largestFreeMilestones)" "\<forall>(t, b, x)\<in>set largestFreeMilestones. b < 32"
  "distinct (map (snd \<circ> snd) largestFreeMilestones)"
  by (simp_all add: milestones_def largestFreeMilestones_def)

subsection \<open>Runs of beats\<close>

lemma running_Cons:
  "hb_loop passive (running (e # envs)) st =
   (fst (hb_loop passive (running envs) (fst (hb_beat passive e st))),
    snd (hb_beat passive e st) # snd (hb_loop passive (running envs) (fst (hb_beat passive e st))))"
  by (simp add: running_def split: prod.split)

lemma running_Nil [simp]: "hb_loop passive (running []) st = (st, [])"
  by (simp add: running_def)

fun total_label :: "hb_event \<Rightarrow> string list" where
  "total_label (TotalMilestone l mb b) = [l]"
| "total_label _ = []"

fun largest_label :: "hb_event \<Rightarrow> string list" where
  "largest_label (LargestMilestone l mb b) = [l]"
| "largest_label _ = []"

fun delta_of :: "hb_event \<Rightarrow> int list" where
  "delta_of (PassiveVas c l d) = [d]"
| "delta_of (VasLine c l d p s) = [d]"
| "delta_of _ = []"

definition total_labels :: "hb_event list \<Rightarrow> string list" where
  "total_labels ev = concat (map total_label ev)"
definition largest_labels :: "hb_event list \<Rightarrow> string list" where
  "largest_labels ev = concat (map largest_label ev)"
definition logged_deltas :: "hb_event list \<Rightarrow> int list" where
  "logged_deltas ev = concat (map delta_of ev)"

lemma read_figures:
  "total_labels ev = total_labels (figures ev)" "largest_labels ev = largest_labels (figures ev)"
  "logged_deltas ev = logged_deltas (figures ev)"
proof -
  have *: "concat (map f ev) = concat (map f (figures ev))" if "\<And>e. \<not> reports_figure e \<Longrightarrow> f e = []" for f :: "hb_event \<Rightarrow> 'b list"
    by (induction ev) (simp_all add: figures_def that)
  have "total_label e = [] \<and> largest_label e = [] \<and> delta_of e = []" if "\<not> reports_figure e" for e
    using that by (cases e) simp_all
  then show "total_labels ev = total_labels (figures ev)" "largest_labels ev = largest_labels (figures ev)"
    "logged_deltas ev = logged_deltas (figures ev)"
    unfolding total_labels_def largest_labels_def logged_deltas_def by (simp_all add: *)
qed

lemma label_append [simp]:
  "total_labels (a @ b) = total_labels a @ total_labels b"
  "largest_labels (a @ b) = largest_labels a @ largest_labels b"
  "logged_deltas (a @ b) = logged_deltas a @ logged_deltas b"
  by (simp_all add: total_labels_def largest_labels_def logged_deltas_def)

lemma label_maps:
  "total_labels (map (\<lambda>l. TotalMilestone l m b) xs) = xs"
  "largest_labels (map (\<lambda>l. TotalMilestone l m b) xs) = []"
  "logged_deltas (map (\<lambda>l. TotalMilestone l m b) xs) = []"
  "total_labels (map (\<lambda>(l, c). LargestMilestone l m b) ys) = []"
  "largest_labels (map (\<lambda>(l, c). LargestMilestone l m b) ys) = map fst ys"
  "logged_deltas (map (\<lambda>(l, c). LargestMilestone l m b) ys) = []"
  by (induction xs; simp add: total_labels_def largest_labels_def logged_deltas_def)+
    (induction ys; auto simp: total_labels_def largest_labels_def logged_deltas_def)+

lemma beat_labels:
  "total_labels (snd (hb_beat False env st)) = snd (total_crossings env (te_flags (tele_of st)))"
  "largest_labels (snd (hb_beat False env st)) = map fst (snd (largest_crossings env (te_lflags (tele_of st))))"
proof -
  obtain p m where "figures (snd (hb_beat False env st)) =
     mark_events env (beat_count st + 1) (tele_of st) @
          (if line_due (beat_count st + 1) (current_vas_mb env) (te_last (tele_of st))
           then [VasLine (current_vas_mb env) (largest_free_mb env) (int_delta (te_last (tele_of st)) (current_vas_mb env)) p m]
           else [])" using figures_beat [of False env st] by auto
  then show "total_labels (snd (hb_beat False env st)) = snd (total_crossings env (te_flags (tele_of st)))"
    "largest_labels (snd (hb_beat False env st)) = map fst (snd (largest_crossings env (te_lflags (tele_of st))))"
    by (simp_all add: read_figures [of "snd (hb_beat False env st)"] mark_events_def label_maps)
      (simp_all add: total_labels_def largest_labels_def)
qed

lemma run_labels:
  "total_labels (concat (snd (hb_loop False (running envs) st))) =
     cross_run milestones (map current_vas_mb envs) (vas_milestone_flags st)"
  "largest_labels (concat (snd (hb_loop False (running envs) st))) =
     map fst (cross_run largestFreeMilestones (map largest_free_mb envs) (largest_free_milestone_flags st))"
proof -
  have f: "vas_milestone_flags s = te_flags (tele_of s)" "largest_free_milestone_flags s = te_lflags (tele_of s)" for s
    by (simp_all add: tele_of_def)
  show "total_labels (concat (snd (hb_loop False (running envs) st))) =
     cross_run milestones (map current_vas_mb envs) (vas_milestone_flags st)"
    unfolding f
    by (induction envs arbitrary: st)
      (simp_all add: running_Cons beat_labels tele_beat tele_step_def total_crossings_def, simp add: total_labels_def)
  show "largest_labels (concat (snd (hb_loop False (running envs) st))) =
     map fst (cross_run largestFreeMilestones (map largest_free_mb envs) (largest_free_milestone_flags st))"
    unfolding f
    by (induction envs arbitrary: st)
      (simp_all add: running_Cons beat_labels tele_beat tele_step_def largest_crossings_def, simp add: largest_labels_def)
qed

lemma beat_deltas:
  assumes "unat (te_last (tele_of st)) < 4096"
  shows "sum_list (logged_deltas (snd (hb_beat passive env st))) =
    int (unat (current_vas_mb env)) - int (unat (te_last (tele_of st)))"
proof -
  have cur: "unat (current_vas_mb env) < 4096" by (simp add: current_vas_mb_def mib_small)
  have d: "int_delta (te_last (tele_of st)) (current_vas_mb env) =
      int (unat (current_vas_mb env)) - int (unat (te_last (tele_of st)))"
    by (rule int_delta_small) (use assms cur in simp_all)
  obtain p m where "figures (snd (hb_beat passive env st)) =
    (if passive
     then [PassiveVas (current_vas_mb env) (largest_free_mb env) (int_delta (te_last (tele_of st)) (current_vas_mb env))]
     else mark_events env (beat_count st + 1) (tele_of st) @
          (if line_due (beat_count st + 1) (current_vas_mb env) (te_last (tele_of st))
           then [VasLine (current_vas_mb env) (largest_free_mb env) (int_delta (te_last (tele_of st)) (current_vas_mb env)) p m]
           else []))" using figures_beat [of "passive" env st] by blast
  then have "logged_deltas (snd (hb_beat passive env st)) =
      (if passive \<or> line_due (beat_count st + 1) (current_vas_mb env) (te_last (tele_of st))
       then [int_delta (te_last (tele_of st)) (current_vas_mb env)] else [])"
    by (simp add: read_figures(3) [of "snd (hb_beat passive env st)"] mark_events_def label_maps)
      (simp add: logged_deltas_def)
  then show ?thesis by (auto simp: d line_due_def)
qed

lemma run_deltas:
  assumes "unat (te_last (tele_of st)) < 4096"
  shows "sum_list (logged_deltas (concat (snd (hb_loop passive (running envs) st)))) =
    int (unat (if envs = [] then te_last (tele_of st) else current_vas_mb (last envs))) - int (unat (te_last (tele_of st)))"
  using assms
proof (induction envs arbitrary: st)
  case Nil
  then show ?case by (simp add: logged_deltas_def)
next
  case (Cons e envs)
  let ?s = "fst (hb_beat passive e st)"
  have l: "te_last (tele_of ?s) = current_vas_mb e" by (simp add: tele_beat tele_step_def)
  then have "unat (te_last (tele_of ?s)) < 4096" by (simp add: current_vas_mb_def mib_small)
  from Cons.IH [OF this] beat_deltas [OF Cons.prems, of "passive" e] show ?case
    by (simp add: running_Cons l)
qed

subsection \<open>The ring\<close>

text \<open>All samples a run takes, whatever the ring keeps of them.\<close>

fun due_samples :: "u64 \<Rightarrow> u64 \<Rightarrow> u64 \<Rightarrow> beat_env list \<Rightarrow> LfSample list" where
  "due_samples start warm tick [] = []"
| "due_samples start warm tick (e # es) =
     (if be_now e - start \<ge> warm \<and> (tick = 0 \<or> be_now e - tick \<ge> 30000)
      then sample_of e # due_samples start warm (be_now e) es else due_samples start warm tick es)"

definition ring_holds :: "tele \<Rightarrow> LfSample list \<Rightarrow> bool" where
  "ring_holds T h \<longleftrightarrow>
     length (te_ring T) = kLfRing \<and> te_count T = min (length h) kLfRing \<and> te_head T = length h mod kLfRing \<and>
     (\<forall>i<length h. length h \<le> i + kLfRing \<longrightarrow> te_ring T ! (i mod kLfRing) = h ! i)"

lemma ring_holds_push:
  assumes "ring_holds T h"
  shows "ring_holds (T\<lparr>te_tick := t, te_ring := (te_ring T)[te_head T := s], te_head := (te_head T + 1) mod kLfRing,
           te_count := (if te_count T < kLfRing then te_count T + 1 else te_count T)\<rparr>) (h @ [s])"
    (is "ring_holds ?T (h @ [s])")
proof -
  have T: "te_ring ?T = (te_ring T)[te_head T := s]" "te_head ?T = (te_head T + 1) mod kLfRing"
    "te_count ?T = (if te_count T < kLfRing then te_count T + 1 else te_count T)" by simp_all
  have other: "i mod kLfRing \<noteq> length h mod kLfRing" if "i < length h" "Suc (length h) \<le> i + kLfRing" for i
  proof
    assume "i mod kLfRing = length h mod kLfRing"
    then have "kLfRing dvd length h - i"
      using mod_eq_dvd_iff_nat [of i "length h" kLfRing] that by simp
    then have "kLfRing \<le> length h - i" using that by (intro dvd_imp_le) simp_all
    then show False using that by linarith
  qed
  have l: "length h mod kLfRing < length (te_ring T)" "te_head T = length h mod kLfRing"
    using assms by (simp_all add: ring_holds_def) (simp add: kLfRing_def)
  have "(te_ring T)[te_head T := s] ! (i mod kLfRing) = (h @ [s]) ! i"
    if "i < Suc (length h)" "Suc (length h) \<le> i + kLfRing" for i
  proof (cases "i = length h")
    case True
    then show ?thesis using l by simp
  next
    case False
    then have "i < length h" using that by simp
    then show ?thesis using other [of i] that assms by (simp add: l nth_append) (simp add: ring_holds_def)
  qed
  then have "\<forall>i<length (h @ [s]). length (h @ [s]) \<le> i + kLfRing \<longrightarrow>
      (te_ring T)[te_head T := s] ! (i mod kLfRing) = (h @ [s]) ! i" by simp
  moreover have "length ((te_ring T)[te_head T := s]) = kLfRing"
    "(te_head T + 1) mod kLfRing = length (h @ [s]) mod kLfRing"
    "(if te_count T < kLfRing then te_count T + 1 else te_count T) = min (length (h @ [s])) kLfRing"
    using assms unfolding ring_holds_def by (simp_all add: mod_Suc_eq)
  ultimately show ?thesis unfolding ring_holds_def T by (intro conjI)
qed

lemma tele_step_ring:
  "ring_holds (tele_step passive e T) h \<longleftrightarrow> ring_holds (tele_push e T) h"
  "te_tick (tele_step passive e T) = te_tick (tele_push e T)"
  "te_start (tele_step passive e T) = te_start (tele_push e T)"
  "te_warm (tele_step passive e T) = te_warm (tele_push e T)"
  by (simp_all add: tele_step_def ring_holds_def)

lemma run_ring:
  assumes "ring_holds (tele_of st) h"
  shows "ring_holds (tele_of (fst (hb_loop passive (running envs) st)))
    (h @ due_samples (te_start (tele_of st)) (te_warm (tele_of st)) (te_tick (tele_of st)) envs)"
  using assms
proof (induction envs arbitrary: st h)
  case (Cons e envs)
  let ?T = "tele_of st" and ?s = "fst (hb_beat passive e st)"
  show ?case
  proof (cases "ring_due_at (be_now e) ?T")
    case True
    have "ring_holds (tele_of ?s) (h @ [sample_of e])"
      using ring_holds_push [OF Cons.prems] True by (simp add: tele_beat tele_step_ring tele_push_def)
    moreover have "te_start (tele_of ?s) = te_start ?T" "te_warm (tele_of ?s) = te_warm ?T"
      "te_tick (tele_of ?s) = be_now e"
      using True by (simp_all add: tele_beat tele_step_ring tele_push_def)
    moreover have "due_samples (te_start ?T) (te_warm ?T) (te_tick ?T) (e # envs) =
        sample_of e # due_samples (te_start ?T) (te_warm ?T) (be_now e) envs"
      using True by (simp add: ring_due_at_def)
    ultimately show ?thesis using Cons.IH [of ?s "h @ [sample_of e]"]
      by (simp only: running_Cons fst_conv append_assoc append_Cons append_Nil)
  next
    case False
    then have "ring_holds (tele_of ?s) h" using Cons.prems by (simp add: tele_beat tele_step_ring tele_push_def)
    moreover have "te_start (tele_of ?s) = te_start ?T" "te_warm (tele_of ?s) = te_warm ?T"
      "te_tick (tele_of ?s) = te_tick ?T"
      using False by (simp_all add: tele_beat tele_step_ring tele_push_def)
    moreover have "due_samples (te_start ?T) (te_warm ?T) (te_tick ?T) (e # envs) =
        due_samples (te_start ?T) (te_warm ?T) (te_tick ?T) envs"
      unfolding due_samples.simps by (rule if_not_P) (use False in \<open>unfold ring_due_at_def\<close>)
    ultimately show ?thesis using Cons.IH [of ?s h] by (simp only: running_Cons fst_conv)
  qed
qed simp

lemma ring_samples_suffix:
  assumes "ring_holds (tele_of st) h"
  shows "ring_samples st = drop (length h - kLfRing) h"
proof -
  let ?n = "length h" and ?start = "if lfRingCount st < kLfRing then 0 else lfRingHead st"
  have r: "lfRingCount st = min ?n kLfRing" "lfRingHead st = ?n mod kLfRing"
    "\<And>i. i < ?n \<Longrightarrow> ?n \<le> i + kLfRing \<Longrightarrow> lfRing st ! (i mod kLfRing) = h ! i"
    using assms by (simp_all add: ring_holds_def tele_of_def)
  have at: "lfRing st ! ((?start + k) mod kLfRing) = drop (?n - kLfRing) h ! k" if "k < min ?n kLfRing" for k
  proof (cases "?n < kLfRing")
    case True
    then show ?thesis using that r(1) r(3) [of k] by (simp add: mod_less)
  next
    case False
    then have "(?start + k) mod kLfRing = (?n + k) mod kLfRing" by (simp add: r mod_add_left_eq)
    also have "\<dots> = (?n - kLfRing + k) mod kLfRing"
      using False by (metis add.commute add.left_commute le_add_diff_inverse2 mod_add_self2 not_less)
    finally show ?thesis using False that r(3) [of "?n - kLfRing + k"] by simp
  qed
  show ?thesis
  proof (rule nth_equalityI)
    fix i assume "i < length (ring_samples st)"
    then have "i < min ?n kLfRing" by (simp add: ring_samples_def Let_def r(1))
    then show "ring_samples st ! i = drop (?n - kLfRing) h ! i"
      using at [of i] by (simp add: ring_samples_def Let_def r(1))
  qed (simp add: ring_samples_def Let_def r(1))
qed

text \<open>Samples are at least 30 s apart, so those the ring has dropped are far outside the ten minutes.\<close>

fun spaced_after :: "nat \<Rightarrow> LfSample list \<Rightarrow> bool" where
  "spaced_after b [] = True"
| "spaced_after b (s # ss) \<longleftrightarrow> b \<le> unat (lf_t s) \<and> spaced_after (unat (lf_t s) + 30000) ss"

lemma pulse_now [simp]: "pu_now (pulse_of e) = be_now e"
  by (simp add: pulse_of_def)

lemma due_spaced:
  assumes "clock_from 0 t (map pulse_of envs)" "0 < unat t" "unat tick \<le> unat t"
  shows "spaced_after (if tick = 0 then 0 else unat tick + 30000) (due_samples start warm tick envs) \<and>
    (\<forall>s\<in>set (due_samples start warm tick envs). unat (lf_t s) \<le> unat (last_tick t (map pulse_of envs)))"
  using assms
proof (induction envs arbitrary: t tick)
  case (Cons e envs)
  have now: "unat t \<le> unat (be_now e)" "clock_from 0 (be_now e) (map pulse_of envs)"
    using Cons.prems by simp_all
  have pos: "0 < unat (be_now e)" "be_now e \<noteq> 0" using now(1) Cons.prems(2) by auto
  have last: "last_tick t (map pulse_of (e # envs)) = last_tick (be_now e) (map pulse_of envs)"
    by (simp add: last_tick_Cons)
  have mono: "unat u \<le> unat (last_tick u (map pulse_of es))" if "clock_from 0 u (map pulse_of es)" for u es
    using that
  proof (induction es arbitrary: u)
    case (Cons e' es)
    then have "unat (pu_now (pulse_of e')) \<le> unat (last_tick (pu_now (pulse_of e')) (map pulse_of es))" by simp
    then show ?case using Cons.prems by (simp add: last_tick_Cons)
  qed (simp add: last_tick_def)
  show ?case
  proof (cases "be_now e - start \<ge> warm \<and> (tick = 0 \<or> be_now e - tick \<ge> 30000)")
    case True
    have "unat tick + 30000 \<le> unat (be_now e)" if "tick \<noteq> 0"
    proof -
      have "30000 \<le> unat (be_now e - tick)" using True that by (simp add: word_le_nat_alt)
      moreover have "tick \<le> be_now e" using Cons.prems(3) now(1) by (simp add: word_le_nat_alt)
      ultimately show ?thesis using unat_minus_no_wrap [of tick "be_now e"] Cons.prems(3) now(1) by linarith
    qed
    then show ?thesis
      using True Cons.IH [OF now(2) pos(1), of "be_now e"] pos mono [OF now(2)]
      unfolding last by (simp add: sample_of_def)
  next
    case False
    then have "due_samples start warm tick (e # envs) = due_samples start warm tick envs"
      unfolding due_samples.simps by (rule if_not_P)
    then show ?thesis using Cons.IH [OF now(2) pos(1), of tick] Cons.prems(3) now(1) unfolding last by simp
  qed
qed simp

lemma spaced_nth:
  "spaced_after b h \<Longrightarrow> i < length h \<Longrightarrow> b + 30000 * i \<le> unat (lf_t (h ! i))"
proof (induction b h arbitrary: i rule: spaced_after.induct)
  case (2 b s ss)
  show ?case
  proof (cases i)
    case (Suc k)
    then have "unat (lf_t s) + 30000 + 30000 * k \<le> unat (lf_t (ss ! k))" using 2 by simp
    then show ?thesis using Suc 2(2) by simp
  qed (use 2 in simp)
qed simp

lemma spaced_drop: "spaced_after b h \<Longrightarrow> i < length h \<Longrightarrow> spaced_after (unat (lf_t (h ! i))) (drop i h)"
proof (induction b h arbitrary: i rule: spaced_after.induct)
  case (2 b s ss)
  then show ?case by (cases i) auto
qed simp

lemma window_of_ring:
  assumes spaced: "spaced_after b h" and last: "\<forall>s\<in>set h. unat (lf_t s) \<le> unat now"
  shows "filter (in_window now) (drop (length h - kLfRing) h) = filter (in_window now) h"
proof -
  have "\<not> in_window now s" if s: "s \<in> set (take (length h - kLfRing) h)" for s
  proof -
    obtain i where "i < length (take (length h - kLfRing) h)" "take (length h - kLfRing) h ! i = s"
      using s unfolding in_set_conv_nth by blast
    then have i: "i < length h - kLfRing" "s = h ! i" by simp_all
    have "unat (lf_t s) + 30000 * kLfRing \<le> unat (lf_t (drop i h ! kLfRing))"
      using spaced_nth [OF spaced_drop [OF spaced], of i kLfRing] i by simp
    moreover have "drop i h ! kLfRing \<in> set h" using i by simp
    ultimately have le: "unat (lf_t s) + 2400000 \<le> unat now" using last by (fastforce simp: kLfRing_def)
    then have "lf_t s \<le> now" by (simp add: word_le_nat_alt)
    then have "unat (now - lf_t s) = unat now - unat (lf_t s)" by (rule unat_minus_no_wrap)
    then show ?thesis using le by (simp add: in_window_def word_less_nat_alt)
  qed
  then have "filter (in_window now) (take (length h - kLfRing) h) = []" by (simp add: filter_empty_conv)
  moreover have "h = take (length h - kLfRing) h @ drop (length h - kLfRing) h" by simp
  ultimately show ?thesis by (metis append_self_conv2 filter_append)
qed

subsection \<open>The rate a beat prints\<close>

text \<open>Every slope line of a beat carries the rate over what the ring holds then.\<close>

definition rate_at :: "beat_env \<Rightarrow> heartbeat \<Rightarrow> rate_line" where
  "rate_at env st =
     (let elapsed = be_now env - monitorStartTick st
      in if elapsed < slopeWarmupMs st then WarmingUp (slopeWarmupMs st - elapsed)
         else average_rate (be_now env) (current_vas_mb env) (ring_samples st))"

definition rates_ok :: "rate_line \<Rightarrow> hb_event list \<Rightarrow> bool" where
  "rates_ok r ev \<longleftrightarrow> (\<forall>sl. SlopeLine sl \<in> set ev \<longrightarrow> sl_rate sl = r)"

lemma rates_ok_simps [simp]:
  "rates_ok r []" "rates_ok r (e # ev) \<longleftrightarrow> (\<forall>sl. e = SlopeLine sl \<longrightarrow> sl_rate sl = r) \<and> rates_ok r ev"
  "rates_ok r (ev @ ev') \<longleftrightarrow> rates_ok r ev \<and> rates_ok r ev'"
  by (auto simp: rates_ok_def)

lemma rate_tele:
  assumes "tele_of s = (tele_of st)\<lparr>te_flags := a, te_lflags := b, te_last := c\<rparr>"
  shows "rate_at env s = rate_at env st"
proof -
  have "lfRing s = lfRing st" "lfRingCount s = lfRingCount st" "lfRingHead s = lfRingHead st"
    "monitorStartTick s = monitorStartTick st" "slopeWarmupMs s = slopeWarmupMs st"
    using assms by (simp_all add: tele_of_def)
  then show ?thesis by (simp only: rate_at_def ring_samples_def)
qed

lemma rate_same: "tele_of s = tele_of st \<Longrightarrow> rate_at env s = rate_at env st"
  by (rule rate_tele [where a = "te_flags (tele_of st)" and b = "te_lflags (tele_of st)" and c = "te_last (tele_of st)"]) simp

lemma rates_slope: "rates_ok (rate_at env st) (snd (emitVasSlope tag env st))"
  by (simp add: emitVasSlope_def slope_of_def rate_at_def Let_def split: option.split)

lemma rates_observe: "rates_ok r (snd (beat_observe env st))"
  by (simp add: beat_observe_def Let_def size_reports_def split: prod.split)

lemma rates_monitors: "rates_ok r (snd (beat_monitors env st))"
  by (simp add: beat_monitors_def Let_def split: prod.split option.split)

lemma rates_vas_line: "rates_ok r (beat_vas_line env st)"
  by (simp add: beat_vas_line_def Let_def)

lemma rates_leak: "rates_ok r (leak_reports env)"
  by (simp add: leak_reports_def)

lemma rates_analytics: "rates_ok (rate_at env st) (snd (beat_analytics env b st))"
  using rates_slope [of env st "''interval''"]
  by (auto simp: beat_analytics_def Let_def analytics_reports_def split: option.splits prod.splits if_splits)

lemma rates_milestones: "rates_ok (rate_at env st) (fst (snd (beat_milestones env st)))"
proof -
  obtain fl xs where 1: "crossings (current_vas_mb env) milestones (vas_milestone_flags st) = (fl, xs)" by fastforce
  obtain lf ys where 2: "crossings (largest_free_mb env) largestFreeMilestones (largest_free_milestone_flags st) = (lf, ys)"
    by fastforce
  let ?st = "st\<lparr>vas_milestone_flags := fl, largest_free_milestone_flags := lf\<rparr>"
  obtain s1 sl where e: "emitVasSlope ''milestone'' env ?st = (s1, sl)" by fastforce
  have "rate_at env ?st = rate_at env st"
    by (rule rate_tele [where a = fl and b = lf and c = "last_vas_mb st"]) (simp add: tele_of_def)
  then have "rates_ok (rate_at env st) sl" using rates_slope [of env ?st "''milestone''"] e by simp
  moreover have "rates_ok r (concat (map (\<lambda>l. TotalMilestone l m b # count_if env c) xs))" for r m b c
    by (induction xs) (simp_all add: count_if_def)
  moreover have "rates_ok r (concat (map (\<lambda>(l, d). LargestMilestone l m b # count_if env d) ys))" for r m b
    by (induction ys) (auto simp: count_if_def)
  ultimately show ?thesis by (simp add: beat_milestones_def Let_def 1 2 e)
qed

lemma rates_enter: "rates_ok r (snd (enter_phase p env st))"
  by (simp add: enter_phase_def Let_def)

lemma rates_leave: "rates_ok (rate_at env st) (snd (leave_world env st))"
proof -
  obtain ints mods v where d: "LogLeakHunterDiff (worldEntrySnap st) (leak_snap env st) = (ints, mods, v)"
    by (metis prod_cases3)
  obtain s1 sl where e: "emitVasSlope ''leak_hunter'' env st = (s1, sl)" by fastforce
  obtain s2 pd where p: "enter_phase WorldExitDetected env s1 = (s2, pd)" by fastforce
  show ?thesis
    using rates_slope [of env st "''leak_hunter''"] rates_enter [of "rate_at env st" WorldExitDetected env s1] e p
    by (simp add: leave_world_def Let_def d rates_leak)
qed

lemma rates_stay: "rates_ok (rate_at env st) (snd (stay_in_world env st))"
proof -
  obtain s1 sl where e: "emitVasSlope ''leak_hunter_vas'' env st = (s1, sl)" by fastforce
  show ?thesis using rates_slope [of env st "''leak_hunter_vas''"] e by (simp add: stay_in_world_def Let_def rates_leak)
qed

lemma rates_in_world: "rates_ok (rate_at env st) (snd (in_world env st))"
proof -
  obtain s1 ev1 where t: "take_world_entry env st = (s1, ev1)" by fastforce
  have "rate_at env s1 = rate_at env st" using rate_same tele_entry [of env st] t by (metis fst_conv)
  moreover have "rates_ok r ev1" for r using t by (auto simp: take_world_entry_def split: if_splits)
  ultimately show ?thesis
    using rates_leave [of env s1] rates_stay [of env s1] by (auto simp: in_world_def t split: prod.split)
qed

lemma rates_phase: "rates_ok (rate_at env st) (snd (beat_phase env st))"
proof -
  have "rate_at env (st\<lparr>stableStreak := v\<rparr>) = rate_at env st" for v
    by (rule rate_same) (simp add: tele_of_def)
  then show ?thesis using rates_in_world [of env "st\<lparr>stableStreak := v\<rparr>" for v]
    by (simp add: beat_phase_def Let_def rates_enter)
qed

lemma rates_active: "rates_ok (rate_at env st) (snd (active_tail env st))"
proof -
  obtain s1 ev1 where 1: "beat_monitors env st = (s1, ev1)" by fastforce
  obtain s2 ev2 b where 2: "beat_milestones env s1 = (s2, ev2, b)" by (metis prod_cases3)
  obtain s3 ev3 where 3: "beat_analytics env b s2 = (s3, ev3)" by fastforce
  let ?s = "beat_quiet env (s3\<lparr>last_vas_mb := current_vas_mb env\<rparr>)"
  obtain s4 ev5 where 4: "beat_phase env ?s = (s4, ev5)" by fastforce
  have t: "tele_of s1 = tele_of st" "tele_of s3 = tele_of s2"
    using tele_monitors [of env st] tele_analytics [of env b s2] 1 3 by simp_all
  have r1: "rate_at env s1 = rate_at env st" by (rule rate_same) (rule t)
  have r2: "rate_at env s2 = rate_at env s1"
    by (rule rate_tele [where c = "te_last (tele_of s1)"]) (use tele_milestones [of env s1] 2 in simp)
  have r3: "rate_at env ?s = rate_at env s3"
    by (rule rate_tele [where a = "te_flags (tele_of s3)" and b = "te_lflags (tele_of s3)" and c = "current_vas_mb env"])
      (simp add: tele_quiet, simp add: tele_of_def)
  have r4: "rate_at env s3 = rate_at env s2" by (rule rate_same) (rule t)
  show ?thesis
    using rates_monitors [of "rate_at env st" env st] rates_milestones [of env s1] rates_analytics [of env s2 b]
      rates_phase [of env ?s] rates_vas_line [of "rate_at env st" env s2]
    by (simp add: active_tail_def 1 2 3 4 r1 r2 r3 r4)
qed

lemma rates_beat:
  "rates_ok (rate_at env (fst (hb_beat False env st))) (snd (hb_beat False env st))"
proof -
  let ?st = "st\<lparr>beat_count := beat_count st + 1\<rparr>"
  obtain s1 ev1 where 1: "beat_observe env ?st = (s1, ev1)" by fastforce
  let ?s = "ring_push env (latest_sample env s1)"
  obtain s2 ev2 where 2: "active_tail env ?s = (s2, ev2)" by fastforce
  have beat: "hb_beat False env st = (s2, ev1 @ ev2)" by (simp add: hb_beat_def Let_def 1 2)
  have "rate_at env s2 = rate_at env ?s"
    by (rule rate_tele [OF active_tele [of env ?s, unfolded 2 fst_conv, THEN trans]]) (rule tele.equality; simp)
  then show ?thesis
    using rates_observe [of "rate_at env ?s" env ?st] rates_active [of env ?s] 1 2 by (simp add: beat)
qed

subsection \<open>Array bounds\<close>

text \<open>The lengths of the two histograms the thread keeps, and the interval of the reports, which no stage changes.\<close>

definition arrays_of :: "heartbeat \<Rightarrow> nat \<times> nat \<times> u32" where
  "arrays_of st = (length (freeBucket (phaseSnap st)), length (freeBucket (prevSnap st)), analyticsReportEveryBeats st)"

lemma scan_bucket_length: "length (freeBucket (scan_region r s)) = length (freeBucket s)"
  by (simp add: scan_region_def Let_def bump_at_def)

lemma snap_bucket_length [simp]: "length (freeBucket (CaptureVasPhaseSnapshot now q alloc beat)) = 6"
proof -
  have "length (freeBucket (fold scan_region rs s)) = length (freeBucket s)" for rs s
    by (induction rs arbitrary: s) (simp_all add: scan_bucket_length)
  then show ?thesis by (simp add: CaptureVasPhaseSnapshot_def blank_snap_def)
qed

definition arrays_ok :: "u32 \<Rightarrow> heartbeat \<Rightarrow> bool" where
  "arrays_ok n st \<longleftrightarrow> arrays_of st = (6, 6, n)"

lemma arrays_observe: "arrays_of (fst (beat_observe env st)) = arrays_of st"
  by (simp add: beat_observe_def arrays_of_def Let_def split: prod.split)

lemma arrays_slope: "arrays_of (fst (emitVasSlope tag env st)) = arrays_of st"
  by (simp add: emitVasSlope_def arrays_of_def split: option.split)

lemma arrays_monitors: "arrays_of (fst (beat_monitors env st)) = arrays_of st"
  by (simp add: beat_monitors_def arrays_of_def Let_def split: prod.split option.split)

lemma arrays_sample: "arrays_of (ring_push env (latest_sample env st)) = arrays_of st"
  by (simp add: ring_push_def latest_sample_def arrays_of_def split: prod.split)

lemma arrays_milestones: "arrays_of (fst (beat_milestones env st)) = arrays_of st"
proof -
  have "arrays_of (st\<lparr>vas_milestone_flags := a, largest_free_milestone_flags := b\<rparr>) = arrays_of st" for a b
    by (simp add: arrays_of_def)
  then show ?thesis
    by (simp add: beat_milestones_def Let_def split: prod.split) (metis arrays_slope fst_conv)
qed

lemma arrays_analytics: "arrays_of (fst (beat_analytics env b st)) = arrays_of st"
  using arrays_slope [of "''interval''" env st]
  by (auto simp: beat_analytics_def Let_def split: option.splits prod.splits if_splits)

lemma arrays_enter: "arrays_ok n st \<Longrightarrow> arrays_ok n (fst (enter_phase p env st))"
  by (simp add: enter_phase_def Let_def arrays_ok_def arrays_of_def beat_snap_def)

lemma arrays_light: "arrays_ok n st \<Longrightarrow> arrays_ok n (light_update env st)"
  by (simp add: light_update_def arrays_ok_def arrays_of_def)

lemma arrays_in_world: "arrays_ok n st \<Longrightarrow> arrays_ok n (fst (in_world env st))"
proof -
  assume ok: "arrays_ok n st"
  obtain s1 ev1 where t: "take_world_entry env st = (s1, ev1)" by fastforce
  have s1: "arrays_ok n s1" using ok t by (auto simp: take_world_entry_def arrays_ok_def arrays_of_def split: if_splits)
  obtain ints mods v where d: "LogLeakHunterDiff (worldEntrySnap s1) (leak_snap env s1) = (ints, mods, v)"
    by (metis prod_cases3)
  obtain s2 sl where e: "emitVasSlope ''leak_hunter'' env s1 = (s2, sl)" by fastforce
  obtain s3 sm where f: "emitVasSlope ''leak_hunter_vas'' env s1 = (s3, sm)" by fastforce
  have "arrays_ok n s2" "arrays_ok n s3"
    using s1 arrays_slope [of "''leak_hunter''" env s1] arrays_slope [of "''leak_hunter_vas''" env s1] e f
    by (simp_all add: arrays_ok_def)
  note s23 = this
  obtain s4 pd where p: "enter_phase WorldExitDetected env s2 = (s4, pd)" by fastforce
  have "arrays_ok n s4" using arrays_enter [OF s23(1), of WorldExitDetected env] p by simp
  then have "arrays_ok n (fst (leave_world env s1))"
    by (simp add: leave_world_def Let_def d e p) (simp add: arrays_ok_def arrays_of_def)
  moreover have "arrays_ok n (fst (stay_in_world env s1))"
    using s1 s23 by (simp add: stay_in_world_def Let_def f) (simp add: arrays_ok_def arrays_of_def)
  ultimately show ?thesis by (auto simp: in_world_def t arrays_light split: prod.split)
qed

lemma arrays_phase: "arrays_ok n st \<Longrightarrow> arrays_ok n (fst (beat_phase env st))"
proof -
  assume "arrays_ok n st"
  then have "arrays_ok n (st\<lparr>stableStreak := v\<rparr>)" for v by (simp add: arrays_ok_def arrays_of_def)
  then show ?thesis by (simp add: beat_phase_def Let_def arrays_enter arrays_in_world arrays_light)
qed

lemma arrays_beat: "arrays_ok n st \<Longrightarrow> arrays_ok n (fst (hb_beat passive env st))"
proof -
  assume ok: "arrays_ok n st"
  have c: "arrays_of (st\<lparr>beat_count := m\<rparr>) = arrays_of st" for m by (simp add: arrays_of_def)
  obtain s1 ev1 where 1: "(if passive then (st\<lparr>beat_count := beat_count st + 1\<rparr>, [])
      else beat_observe env (st\<lparr>beat_count := beat_count st + 1\<rparr>)) = (s1, ev1)" by fastforce
  let ?s = "ring_push env (latest_sample env s1)"
  have s: "arrays_ok n ?s"
    using 1 ok arrays_observe [of env "st\<lparr>beat_count := beat_count st + 1\<rparr>"]
    by (auto simp: arrays_ok_def arrays_sample c split: if_splits)
  obtain s2 ev2 where 2: "beat_monitors env ?s = (s2, ev2)" by fastforce
  obtain s3 ev3 b where 3: "beat_milestones env s2 = (s3, ev3, b)" by (metis prod_cases3)
  obtain s4 ev4 where 4: "beat_analytics env b s3 = (s4, ev4)" by fastforce
  have "arrays_of s4 = arrays_of ?s"
    using arrays_monitors [of env ?s] arrays_milestones [of env s2] arrays_analytics [of env b s3] 2 3 4 by simp
  then have "arrays_ok n (beat_quiet env (s4\<lparr>last_vas_mb := current_vas_mb env\<rparr>))"
    using s by (simp add: arrays_ok_def arrays_of_def beat_quiet_def)
  from arrays_phase [OF this] have "arrays_ok n (fst (active_tail env ?s))"
    by (simp add: active_tail_def 2 3 4 split: prod.split) (metis fst_conv)
  moreover have "arrays_ok n (fst (passive_tail env ?s))"
    using s by (simp add: passive_tail_def arrays_ok_def arrays_of_def)
  ultimately show ?thesis by (simp add: hb_beat_def Let_def 1 split: prod.split) (metis fst_conv)
qed

subsection \<open>Rounding\<close>

definition free_sizes :: "vquery \<Rightarrow> nat list" where
  "free_sizes q = map (\<lambda>r. unat (rg_size r)) (filter (\<lambda>r. rg_state r = MEM_FREE) (vas_regions q 0))"

lemma free_total:
  assumes "sum_list (free_sizes q) < 4294967296"
  shows "unat (fst (GetProcessMemoryInfo q)) = sum_list (free_sizes q)"
proof -
  have "unat (fst (fold add_free rs (t, l))) =
      unat t + sum_list (map (\<lambda>r. unat (rg_size r)) (filter (\<lambda>r. rg_state r = MEM_FREE) rs))"
    if "unat t + sum_list (map (\<lambda>r. unat (rg_size r)) (filter (\<lambda>r. rg_state r = MEM_FREE) rs)) < 4294967296" for rs t l
    using that
  proof (induction rs arbitrary: t l)
    case (Cons r rs)
    show ?case
    proof (cases "rg_state r = MEM_FREE")
      case True
      then have "unat (t + rg_size r) = unat t + unat (rg_size r)" by (intro u32_plus) (use Cons.prems in simp)
      then show ?thesis using Cons.IH [of "t + rg_size r"] Cons.prems True by (simp add: add_free_def)
    qed (use Cons in \<open>simp add: add_free_def\<close>)
  qed simp
  from this [of 0 "vas_regions q 0" 0] show ?thesis
    using assms by (simp add: GetProcessMemoryInfo_def free_sizes_def)
qed

lemma sum_div_le: fixes ns :: "nat list" shows "sum_list (map (\<lambda>n. n div 1048576) ns) \<le> sum_list ns div 1048576"
proof (induction ns)
  case (Cons a ns)
  then show ?case using div_add1_eq [of a "sum_list ns" 1048576] by simp
qed simp

lemma div_sum_le: fixes ns :: "nat list" shows "sum_list ns div 1048576 \<le> sum_list (map (\<lambda>n. n div 1048576) ns) + length ns"
proof (induction ns)
  case (Cons a ns)
  have "(a mod 1048576 + sum_list ns mod 1048576) div 1048576 \<le> 1"
    using mod_less_divisor [of 1048576 a] mod_less_divisor [of 1048576 "sum_list ns"] by linarith
  then show ?case using Cons div_add1_eq [of a "sum_list ns" 1048576] by simp
qed simp

lemma free_snapshot:
  assumes "sum_list (free_sizes q) < 4294967296"
  shows "unat (snap_free_mb q) = sum_list (map (\<lambda>n. n div 1048576) (free_sizes q))"
proof -
  let ?f = "\<lambda>rs. sum_list (map (\<lambda>r. unat (rg_size r) div 1048576) (filter (\<lambda>r. rg_state r = MEM_FREE) rs))"
  have "unat (fold (\<lambda>r a. if rg_state r = MEM_FREE then a + mib (rg_size r) else a) rs t) = unat t + ?f rs"
    if "unat t + ?f rs < 4294967296" for rs t
    using that
  proof (induction rs arbitrary: t)
    case (Cons r rs)
    show ?case
    proof (cases "rg_state r = MEM_FREE")
      case True
      then have "unat (t + mib (rg_size r)) = unat t + unat (rg_size r) div 1048576"
        by (subst u32_plus) (use Cons.prems in \<open>simp_all add: unat_mib\<close>)
      then show ?thesis using Cons.IH [of "t + mib (rg_size r)"] Cons.prems True by simp
    qed (use Cons in simp)
  qed simp
  from this [of 0 "vas_regions q 0"] show ?thesis
    using assms sum_div_le [of "free_sizes q"]
    by (simp add: snap_free_mb_def free_sizes_def comp_def)
qed

end
