(* ===== verification/HeartbeatProps.thy ===== *)
theory HeartbeatProps
  imports HeartbeatTele
begin

section \<open>Properties of the heartbeat\<close>

text \<open>
  Statements about runs of the thread: the refinement of the phase automaton, when a world exit
  is reported, the way back to the main menu, the milestones, the ring behind the ten-minute
  average and the logged deltas.
\<close>

subsection \<open>Phases\<close>

text \<open>The beats that happen before somebody asks the thread to stop.\<close>

definition beats_before_stop :: "(bool \<times> bool \<times> beat_env) list \<Rightarrow> beat_env list" where
  "beats_before_stop bs = map (\<lambda>(a, b, e). e) (takeWhile (\<lambda>(a, b, e). \<not> a \<and> \<not> b) bs)"

lemma loop_until_stop: "hb_loop passive bs st = hb_loop passive (running (beats_before_stop bs)) st"
proof (induction bs arbitrary: st)
  case (Cons b bs)
  obtain p q e where "b = (p, q, e)" by (metis prod_cases3)
  then show ?case
    by (cases "p \<or> q") (auto simp: beats_before_stop_def running_def Cons.IH split: prod.split)
qed (simp add: beats_before_stop_def running_def)

lemma core_start:
  "core_of (fst (HeartbeatThread_start False mapped created env s)) =
   \<lparr>pc_phase = PostInject, pc_streak = 0, pc_beat = 0, pc_prev = snap_free_mb (be_snap env),
    pc_base = snap_free_mb (be_snap env), pc_quiet = 0, pc_maps = 0, pc_entry = None\<rparr>"
  by (simp add: HeartbeatThread_start_def thread_locals_def core_of_def Let_def hb_statics.defs)

text \<open>The state after the first \<open>k\<close> beats of a run.\<close>

definition hb_after :: "nat \<Rightarrow> beat_env list \<Rightarrow> heartbeat \<Rightarrow> heartbeat" where
  "hb_after k envs st = fst (hb_loop False (running (take k envs)) st)"

lemma core_hb_after: "core_of (hb_after k envs st) = core_after k (map pulse_of envs) (core_of st)"
  by (simp add: hb_after_def core_loop core_after_def take_map)

lemma phase_hb_after: "phase (hb_after k envs st) = pc_phase (core_after k (map pulse_of envs) (core_of st))"
  by (simp add: core_hb_after [symmetric]) (simp add: core_of_def)

text \<open>C18: the phase machine inside the heartbeat, with all its reports, samples and telemetry
  around it, is the eight-figure automaton: after any run of active beats, however it is
  stopped, the automaton's figures are those of the automaton driven by the clock, the free
  megabytes and the package counter of the beats that happened.
\<close>

theorem heartbeat_refines_phase_machine:
  "core_of (fst (hb_loop False bs st)) = fold core_step (map pulse_of (beats_before_stop bs)) (core_of st)"
  by (subst loop_until_stop) (rule core_loop)

text \<open>C8: a world exit is only announced when it was earned.  In any run of the thread, if a beat
  takes the phase from post-world-stable to world-exit, then at least 45 s passed since an
  earlier beat, the phase was post-world-stable the whole time between, and the last three
  beats each found the package counter as the beat before had left it.
\<close>

theorem world_exit_is_earned:
  assumes "st = fst (HeartbeatThread_start False mapped created env s)"
    and "k < length envs" "length envs < 4294967296"
    and "phase (hb_after k envs st) = PostWorldStable"
    and "phase (hb_after (Suc k) envs st) = WorldExitDetected"
  shows "\<exists>j<k. (\<forall>m. j \<le> m \<longrightarrow> m \<le> k \<longrightarrow> phase (hb_after m envs st) = PostWorldStable) \<and>
      be_now (envs ! k) - be_now (envs ! j) \<ge> 45000 \<and>
      2 \<le> k \<and> (\<forall>m\<in>{k - 2..k}. package_maps (envs ! m) = prior_maps (map package_maps envs) m)"
proof -
  let ?c = "core_of st"
  have start: "pc_quiet ?c = 0" "pc_maps ?c = 0" "pc_entry ?c = None"
    by (simp_all add: assms(1) core_start)
  have ms: "map pu_maps (map pulse_of envs) = map package_maps envs" by (simp add: pulse_of_def)
  obtain j where "j < k"
    "\<forall>m. j \<le> m \<longrightarrow> m \<le> k \<longrightarrow> pc_phase (core_after m (map pulse_of envs) ?c) = PostWorldStable"
    "pu_now (map pulse_of envs ! k) - pu_now (map pulse_of envs ! j) \<ge> 45000" "2 \<le> k"
    "\<forall>m\<in>{k - 2..k}. pu_maps (map pulse_of envs ! m) = prior_maps (map package_maps envs) m"
    using core_exit_earned [OF start, of k "map pulse_of envs"] assms(2-) unfolding phase_hb_after ms by auto
  then show ?thesis
    using assms(2) by (intro exI [of _ j]) (auto simp: phase_hb_after pulse_of_def)
qed

text \<open>C7: a program at rest is brought back to the main menu.  Whatever happened before and
  whatever phase that left, 32 beats during which the free memory stands still, no package is
  mapped and the beats are two seconds apart end in the main-menu phase, ready for the next
  world.
\<close>

theorem quiet_program_returns_to_menu:
  assumes "32 \<le> length quiet" "length before + length quiet < 4294967296"
    and "clock_from 0 (be_now env) (map pulse_of before)"
    and "clock_from 2000 (last_tick (be_now env) (map pulse_of before)) (map pulse_of quiet)"
    and "\<forall>e\<in>set quiet. resting V M (pulse_of e)"
  shows "phase (fst (hb_loop False (running (before @ quiet))
            (fst (HeartbeatThread_start False mapped created env s)))) = MainMenuStable"
proof -
  let ?st = "fst (HeartbeatThread_start False mapped created env s)"
  have "core_inv 0 (be_now env) (core_of ?st)" by (simp add: core_start core_inv_def)
  then have inv: "core_inv (length before) (last_tick (be_now env) (map pulse_of before))
      (fold core_step (map pulse_of before) (core_of ?st))"
    using fold_inv [of 0 "be_now env" "core_of ?st" "map pulse_of before" 0] assms(2,3) by simp
  obtain e where "e \<in> set quiet" using assms(1) by (cases quiet) auto
  then have "V = mib (fst (GetProcessMemoryInfo (be_sample e)))"
    using assms(5) by (auto simp: resting_def pulse_of_def current_vas_mb_def)
  then have V: "unat V < 4096" using mib_small by simp
  have "pc_phase (fold core_step (map pulse_of quiet) (fold core_step (map pulse_of before) (core_of ?st))) = MainMenuStable"
    by (rule fold_rest [OF inv _ assms(4) _ V]) (use assms in auto)
  then have "pc_phase (core_of (fst (hb_loop False (running (before @ quiet)) ?st))) = MainMenuStable"
    by (simp only: core_loop map_append fold_append o_apply)
  then show ?thesis by (simp add: core_of_def)
qed

text \<open>A run to apply them to: a world is loaded, played and left.\<close>

definition demo_query :: "u32 \<Rightarrow> vquery" where
  "demo_query mb a = (if a = 0 then Some \<lparr>rg_base = 0, rg_size = mb * 1048576, rg_state = MEM_FREE, rg_type = 0\<rparr> else None)"

definition demo_beat :: "u64 \<Rightarrow> u32 \<Rightarrow> beat_env" where
  "demo_beat now mb =
     \<lparr>be_now = now, be_observe = demo_query mb, be_sample = demo_query mb, be_snap = demo_query mb,
      be_counters = Some (\<lambda>_. 7), be_mm = None, be_mapped = (\<lambda>_. None), be_alloc = no_alloc_snapshot,
      be_script = 0, be_getenv = (\<lambda>_. None)\<rparr>"

definition demo_statics :: hb_statics where
  "demo_statics =
     \<lparr>s_latestLargestFreeBytes = 0, s_latestTotalFreeBytes = 0, s_latestVasSampleTickMs = 0, s_observe = None,
      s_lastHeapCorralReportMs = 0, vas_milestone_flags = 0, largest_free_milestone_flags = 0,
      hb_gc = \<lparr>s_gcReqEvent = False, s_lastGcReqMs = 0, s_pressureBytes = 0, s_proactiveIntervalMs = 0,
               s_pressureIntervalMs = 0, s_shHeap = None\<rparr>, hb_monitor = Some vas_monitor_init\<rparr>"

definition demo_start :: heartbeat where
  "demo_start = fst (HeartbeatThread_start False False False (demo_beat 1000 1024) demo_statics)"

definition demo_play :: "beat_env list" where
  "demo_play =
     map (\<lambda>k. demo_beat (3000 + 2000 * of_nat k) 1024) [0..<4] @
     map (\<lambda>k. demo_beat (11000 + 2000 * of_nat k) 700) [0..<5] @
     [demo_beat 64000 700]"

lemma demo_core_start:
  "core_of demo_start =
   \<lparr>pc_phase = PostInject, pc_streak = 0, pc_beat = 0, pc_prev = 1024, pc_base = 1024, pc_quiet = 0,
    pc_maps = 0, pc_entry = None\<rparr>"
proof -
  have "snap_free_mb (demo_query 1024) = 1024" by code_simp
  then show ?thesis by (simp add: demo_start_def core_start demo_beat_def)
qed

lemma demo_phases:
  "phase (hb_after 9 demo_play demo_start) = PostWorldStable"
  "phase (hb_after 10 demo_play demo_start) = WorldExitDetected"
  unfolding phase_hb_after demo_core_start by code_simp+

lemma world_exit_is_earned_witness:
  "(\<exists>j<9. (\<forall>m. j \<le> m \<longrightarrow> m \<le> 9 \<longrightarrow> phase (hb_after m demo_play demo_start) = PostWorldStable) \<and>
      be_now (demo_play ! 9) - be_now (demo_play ! j) \<ge> 45000 \<and>
      2 \<le> (9 :: nat) \<and> (\<forall>m\<in>{9 - 2..9}. package_maps (demo_play ! m) = prior_maps (map package_maps demo_play) m))"
  by (rule world_exit_is_earned [OF demo_start_def _ _ demo_phases(1)])
    (use demo_phases(2) in \<open>simp_all add: demo_play_def\<close>)

definition demo_rest :: "beat_env list" where
  "demo_rest = map (\<lambda>k. demo_beat (66000 + 2000 * of_nat k) 700) [0..<32]"

lemma demo_now: "be_now (demo_beat t mb) = t" "pu_now (pulse_of (demo_beat t mb)) = t"
  by (simp_all add: demo_beat_def pulse_of_def)

lemma quiet_program_returns_to_menu_witness:
  "phase (fst (hb_loop False (running (demo_play @ demo_rest)) demo_start)) = MainMenuStable"
  unfolding demo_start_def
proof (rule quiet_program_returns_to_menu [where V = 700 and M = 7])
  show "\<forall>e\<in>set demo_rest. resting 700 7 (pulse_of e)"
  proof -
    have "resting 700 7 (pulse_of (demo_beat t 700))" for t
    proof -
      have "current_vas_mb (demo_beat 0 700) = 700" "snap_free_mb (demo_query 700) = 700" by code_simp+
      then show ?thesis by (simp add: resting_def pulse_of_def demo_beat_def current_vas_mb_def package_maps_def)
    qed
    then show ?thesis by (auto simp: demo_rest_def)
  qed
  show "clock_from 0 (be_now (demo_beat 1000 1024)) (map pulse_of demo_play)"
    by (simp add: demo_play_def demo_now upt_rec)
  show "clock_from 2000 (last_tick (be_now (demo_beat 1000 1024)) (map pulse_of demo_play)) (map pulse_of demo_rest)"
    by (simp add: demo_play_def demo_rest_def demo_now last_tick_def upt_rec)
qed (simp_all add: demo_play_def demo_rest_def)

subsection \<open>Telemetry\<close>

lemma tele_start:
  "tele_of (fst (HeartbeatThread_start passive mapped created env s)) =
   \<lparr>te_flags = vas_milestone_flags s, te_lflags = largest_free_milestone_flags s, te_last = 0,
    te_ring = replicate kLfRing \<lparr>lf_t = 0, lf_lf = 0, lf_tf = 0\<rparr>, te_count = 0, te_head = 0, te_tick = 0,
    te_start = be_now env,
    te_warm = ucast (slope_warmup_min (be_getenv env ''TS3VAS_SLOPE_WARMUP_MIN'')) * 60000\<rparr>"
  by (simp add: HeartbeatThread_start_def thread_locals_def tele_of_def Let_def hb_statics.defs)

lemma run_fixed:
  "te_start (tele_of (fst (hb_loop passive (running es) st))) = te_start (tele_of st)"
  "te_warm (tele_of (fst (hb_loop passive (running es) st))) = te_warm (tele_of st)"
  by (induction es arbitrary: st) (simp_all add: running_Cons tele_beat tele_step_def tele_push_def)

text \<open>C20: every milestone is announced once.  In any run of active beats no threshold of total free
  memory is announced twice, and those announced are exactly the ones some beat was below
  whose flag was clear at the start; the same holds for the thresholds of the largest block.
\<close>

theorem milestones_announced_once:
  "distinct (total_labels (concat (snd (hb_loop False bs st)))) \<and>
   set (total_labels (concat (snd (hb_loop False bs st)))) =
     {l. \<exists>t b. (t, b, l) \<in> set milestones \<and> \<not> bit (vas_milestone_flags st) b \<and>
            (\<exists>e\<in>set (beats_before_stop bs). current_vas_mb e < t)} \<and>
   distinct (largest_labels (concat (snd (hb_loop False bs st)))) \<and>
   set (largest_labels (concat (snd (hb_loop False bs st)))) =
     {l. \<exists>t b c. (t, b, l, c) \<in> set largestFreeMilestones \<and> \<not> bit (largest_free_milestone_flags st) b \<and>
            (\<exists>e\<in>set (beats_before_stop bs). largest_free_mb e < t)}"
proof -
  let ?es = "beats_before_stop bs"
  let ?L = "cross_run largestFreeMilestones (map largest_free_mb ?es) (largest_free_milestone_flags st)"
  note T = cross_run_once [OF milestones_tables(1-3), of "map current_vas_mb ?es" "vas_milestone_flags st"]
    and L = cross_run_once [OF milestones_tables(4-6), of "map largest_free_mb ?es" "largest_free_milestone_flags st"]
  have sub: "set ?L \<subseteq> snd ` snd ` set largestFreeMilestones" using L by force
  have "inj_on fst (snd ` snd ` set largestFreeMilestones)" by (simp add: largestFreeMilestones_def)
  then have "distinct (map fst ?L)" using L inj_on_subset [OF _ sub] by (simp add: distinct_map)
  moreover have "set (map fst ?L) = {l. \<exists>t b c. (t, b, l, c) \<in> set largestFreeMilestones \<and>
      \<not> bit (largest_free_milestone_flags st) b \<and> (\<exists>e\<in>set ?es. largest_free_mb e < t)}"
    using L by (force simp: image_iff)
  ultimately show ?thesis
    using T unfolding loop_until_stop [of False bs st] run_labels by simp
qed

text \<open>C19: the VAS lines lose nothing.  Although most beats are not logged, the deltas on the lines
  of any run, active or passive, add up to the free megabytes of its last sample: a change of
  the total always reaches the log.
\<close>

theorem vas_lines_are_lossless:
  "sum_list (logged_deltas (concat (snd (hb_loop passive bs
      (fst (HeartbeatThread_start passive mapped created env s)))))) =
   (if beats_before_stop bs = [] then 0 else int (unat (current_vas_mb (last (beats_before_stop bs)))))"
proof -
  let ?st = "fst (HeartbeatThread_start passive mapped created env s)"
  have "unat (te_last (tele_of ?st)) < 4096" by (simp add: tele_start)
  from run_deltas [OF this, of "passive" "beats_before_stop bs"] show ?thesis
    unfolding loop_until_stop [of "passive" bs] by (simp add: tele_start)
qed

text \<open>C17: the ten-minute average is exact.  The ring of 80 samples forgets, but never a sample of
  the last ten minutes: after the warm-up every slope line of a run whose clock does not go
  back carries the rate computed from all samples the run ever took, the current beat's
  included.
\<close>

theorem ten_minute_average_exact:
  assumes "st = fst (HeartbeatThread_start False mapped created env0 s)"
    and "0 < unat (be_now env0)" "clock_from 0 (be_now env0) (map pulse_of (envs @ [env]))"
    and "SlopeLine sl \<in> set (snd (hb_beat False env (fst (hb_loop False (running envs) st))))"
    and "slopeWarmupMs st \<le> be_now env - be_now env0"
  shows "sl_rate sl = average_rate (be_now env) (current_vas_mb env)
    (due_samples (be_now env0) (slopeWarmupMs st) 0 (envs @ [env]))"
proof -
  let ?s = "fst (hb_loop False (running (envs @ [env])) st)"
    and ?h = "due_samples (be_now env0) (slopeWarmupMs st) 0 (envs @ [env])"
  have w: "slopeWarmupMs st = te_warm (tele_of st)" by (simp add: tele_of_def)
  have T: "te_start (tele_of st) = be_now env0" "te_tick (tele_of st) = 0" "ring_holds (tele_of st) []"
    by (simp_all add: assms(1) tele_start ring_holds_def kLfRing_def)
  have h: "ring_holds (tele_of ?s) ?h" using run_ring [OF T(3)] T w by simp
  have "monitorStartTick ?s = be_now env0 \<and> slopeWarmupMs ?s = slopeWarmupMs st"
    using run_fixed [of False "envs @ [env]" st] T(1) by (simp add: tele_of_def)
  then have "rate_at env ?s = average_rate (be_now env) (current_vas_mb env) (ring_samples ?s)"
    unfolding rate_at_def Let_def by (intro if_not_P) (use assms(5) in \<open>simp only: not_less\<close>)
  moreover have "?s = fst (hb_beat False env (fst (hb_loop False (running envs) st)))"
    by (simp add: loop_fold)
  then have "sl_rate sl = rate_at env ?s"
    using rates_beat [of env "fst (hb_loop False (running envs) st)"] assms(4)
    unfolding rates_ok_def by metis
  moreover have "filter (in_window (be_now env)) (ring_samples ?s) = filter (in_window (be_now env)) ?h"
  proof -
    have "spaced_after 0 ?h \<and> (\<forall>x\<in>set ?h. unat (lf_t x) \<le> unat (last_tick (be_now env0) (map pulse_of (envs @ [env]))))"
      using due_spaced [OF assms(3,2), of 0 "be_now env0" "slopeWarmupMs st"] by simp
    then show ?thesis
      unfolding ring_samples_suffix [OF h] by (intro window_of_ring [of 0]) (simp_all add: last_tick_def)
  qed
  ultimately show ?thesis by (simp only: average_rate_def)
qed

text \<open>A minute in which 600 MB are lost, without a warm-up.\<close>

definition demo_env :: "u64 \<Rightarrow> u32 \<Rightarrow> beat_env" where
  "demo_env now mb =
     (demo_beat now mb)\<lparr>be_getenv := (\<lambda>k. if k = ''TS3VAS_SLOPE_WARMUP_MIN'' \<or> k = ''TS3VAS_OBSERVE'' then Some ''0'' else None)\<rparr>"

definition demo_slope :: heartbeat where
  "demo_slope = fst (HeartbeatThread_start False False False (demo_env 1000 700) demo_statics)"

definition slopes :: "hb_event list \<Rightarrow> slope_line list" where
  "slopes ev = concat (map (\<lambda>e. case e of SlopeLine sl \<Rightarrow> [sl] | _ \<Rightarrow> []) ev)"

lemma slopes_mem: "sl \<in> set (slopes ev) \<longleftrightarrow> SlopeLine sl \<in> set ev"
  by (induction ev) (auto simp: slopes_def split: hb_event.split)

lemma demo_slope_emits:
  "slopes (snd (hb_beat False (demo_env 64000 100) (fst (hb_loop False (running [demo_env 3000 700]) demo_slope)))) \<noteq> []"
  by code_simp

lemma demo_slope_rate:
  "average_rate 64000 (current_vas_mb (demo_env 64000 100)) (due_samples 1000 0 0 [demo_env 3000 700, demo_env 64000 100]) =
   AverageRate (- 600) 61000 2"
  "slopeWarmupMs demo_slope = 0"
  by code_simp+

lemma ten_minute_average_exact_witness:
  "\<exists>sl. SlopeLine sl \<in> set (snd (hb_beat False (demo_env 64000 100)
            (fst (hb_loop False (running [demo_env 3000 700]) demo_slope)))) \<and>
        sl_rate sl = AverageRate (- 600) 61000 2"
proof -
  obtain sl where sl: "SlopeLine sl \<in> set (snd (hb_beat False (demo_env 64000 100)
      (fst (hb_loop False (running [demo_env 3000 700]) demo_slope))))"
    using demo_slope_emits slopes_mem by (metis list.set_intros(1) neq_Nil_conv)
  have now: "be_now (demo_env t mb) = t" for t mb by (simp add: demo_env_def demo_beat_def)
  have "sl_rate sl = average_rate (be_now (demo_env 64000 100)) (current_vas_mb (demo_env 64000 100))
      (due_samples (be_now (demo_env 1000 700)) (slopeWarmupMs demo_slope) 0 ([demo_env 3000 700] @ [demo_env 64000 100]))"
    by (rule ten_minute_average_exact [OF demo_slope_def _ _ sl]) (simp_all add: now demo_slope_rate)
  then have "sl_rate sl = AverageRate (- 600) 61000 2"
    unfolding now append_Cons append_Nil demo_slope_rate .
  then show ?thesis using sl by blast
qed

lemma report_every_bounds: "1 \<le> report_every_beats env \<and> report_every_beats env \<le> 300"
proof -
  have "1 \<le> (word_of_int v :: u32) \<and> (word_of_int v :: u32) \<le> 300" if "1 \<le> v" "v \<le> 300" for v
    using that by (simp add: word_le_def uint_word_of_int)
  then show ?thesis by (simp add: report_every_beats_def Let_def split: option.split)
qed

lemma warmup_bound: "unat (ucast (slope_warmup_min env) * 60000 :: u64) \<le> 7200000"
proof -
  have "unat (word_of_int v :: u32) \<le> 120" if "0 \<le> v" "v \<le> 120" for v
  proof -
    have "(word_of_int v :: u32) \<le> 120" using that by (simp add: word_le_def uint_word_of_int)
    then show ?thesis by (simp add: word_le_nat_alt)
  qed
  then have "unat (slope_warmup_min env) \<le> 120"
    by (simp add: slope_warmup_min_def Let_def split: option.split)
  then show ?thesis by (simp add: unat_mult_lem [THEN iffD1])
qed

text \<open>C21: the thread's state stays well formed.  After any beats, active or passive, from any start
  and with any settings, the ring has its 80 places with count and head inside it, both
  histograms have their six bands, and the two settings read from the environment are within
  their limits, so that every index of the loop is in its array and its remainder never
  divides by zero.
\<close>

theorem heartbeat_stays_well_formed:
  "let st = fst (hb_loop passive bs (fst (HeartbeatThread_start passive mapped created env s))) in
     length (lfRing st) = kLfRing \<and> lfRingCount st \<le> kLfRing \<and> lfRingHead st < kLfRing \<and>
     length (freeBucket (phaseSnap st)) = 6 \<and> length (freeBucket (prevSnap st)) = 6 \<and>
     1 \<le> analyticsReportEveryBeats st \<and> analyticsReportEveryBeats st \<le> 300 \<and>
     unat (slopeWarmupMs st) \<le> 7200000"
proof -
  let ?start = "fst (HeartbeatThread_start passive mapped created env s)" and ?es = "beats_before_stop bs"
  let ?n = "report_every_beats (be_getenv env ''TS3VAS_ANALYTICS_REPORT_BEATS'')"
  let ?st = "fst (hb_loop passive (running ?es) ?start)"
  have "ring_holds (tele_of ?start) []" by (simp add: tele_start ring_holds_def kLfRing_def)
  from run_ring [OF this, of "passive" ?es] obtain h where "ring_holds (tele_of ?st) h" by blast
  then have ring: "length (lfRing ?st) = kLfRing \<and> lfRingCount ?st \<le> kLfRing \<and> lfRingHead ?st < kLfRing"
    by (simp add: ring_holds_def tele_of_def kLfRing_def)
  have "arrays_ok ?n ?start"
    by (simp add: arrays_ok_def arrays_of_def HeartbeatThread_start_def thread_locals_def Let_def hb_statics.defs)
  then have "arrays_ok ?n (fold (\<lambda>e st. fst (hb_beat passive e st)) es ?start)" for es
    by (induction es rule: rev_induct) (simp_all add: arrays_beat)
  then have "arrays_ok ?n ?st" by (simp add: loop_fold)
  moreover have "slopeWarmupMs ?st = te_warm (tele_of ?st)" by (simp add: tele_of_def)
  then have "unat (slopeWarmupMs ?st) \<le> 7200000"
    unfolding run_fixed by (simp only: tele_start tele.select_convs warmup_bound)
  ultimately show ?thesis
    unfolding loop_until_stop [of "passive" bs] Let_def using ring report_every_bounds
    by (simp add: arrays_ok_def arrays_of_def)
qed

subsection \<open>Rounding\<close>

text \<open>a phase change plants a rounding gain.  The snapshot rounds every free region down to a
  megabyte, the sample rounds only the sum: when the address space does not change at all, the
  beat after a transition still measures a growth of free memory, never a loss, of up to a
  megabyte per free region, and it is this difference the stability test and the gain warning
  are fed with.
\<close>

theorem phase_change_plants_rounding_gain:
  assumes "sum_list (free_sizes (be_snap env)) < 4294967296" "be_sample env' = be_snap env"
    and "st' = fst (enter_phase p env st)"
  shows "int_delta (totalFreeMb (prevSnap st')) (current_vas_mb env') =
      int (sum_list (free_sizes (be_snap env)) div 1048576) -
      int (sum_list (map (\<lambda>n. n div 1048576) (free_sizes (be_snap env)))) \<and>
    totalFreeMb (phaseSnap st') = totalFreeMb (prevSnap st') \<and>
    0 \<le> int_delta (totalFreeMb (prevSnap st')) (current_vas_mb env') \<and>
    int_delta (totalFreeMb (prevSnap st')) (current_vas_mb env') \<le> int (length (free_sizes (be_snap env)))"
proof -
  let ?ns = "free_sizes (be_snap env)"
  have snaps: "totalFreeMb (prevSnap st') = snap_free_mb (be_snap env)" "totalFreeMb (phaseSnap st') = snap_free_mb (be_snap env)"
    by (simp_all add: assms(3) enter_phase_def Let_def beat_snap_def)
  have s: "unat (snap_free_mb (be_snap env)) = sum_list (map (\<lambda>n. n div 1048576) ?ns)" by (rule free_snapshot [OF assms(1)])
  have c: "unat (current_vas_mb env') = sum_list ?ns div 1048576"
    by (simp add: current_vas_mb_def assms(2) unat_mib free_total [OF assms(1)])
  have "unat (current_vas_mb env') < 4096" by (simp add: current_vas_mb_def mib_small)
  then have d: "int_delta (snap_free_mb (be_snap env)) (current_vas_mb env') =
      int (sum_list ?ns div 1048576) - int (sum_list (map (\<lambda>n. n div 1048576) ?ns))"
    unfolding s [symmetric] c [symmetric]
    by (intro int_delta_small) (use s c sum_div_le [of ?ns] in linarith)+
  show ?thesis unfolding snaps d using sum_div_le [of ?ns] div_sum_le [of ?ns]
    by (intro conjI refl; linarith)
qed

text \<open>Three free regions a page short of a megabyte: the snapshot sees nothing, the sample two megabytes.\<close>

definition demo_holes :: vquery where
  "demo_holes a =
     (let free = (\<lambda>b. \<lparr>rg_base = b, rg_size = 0xFF000, rg_state = MEM_FREE, rg_type = 0\<rparr>);
          taken = (\<lambda>b. \<lparr>rg_base = b, rg_size = 0x101000, rg_state = MEM_COMMIT, rg_type = MEM_PRIVATE\<rparr>)
      in if a \<in> {0, 0x200000, 0x400000} then Some (free a)
         else if a \<in> {0xFF000, 0x2FF000} then Some (taken a) else None)"

lemma demo_holes_sizes: "free_sizes demo_holes = [0xFF000, 0xFF000, 0xFF000]"
  by (simp add: free_sizes_def vas_regions.simps demo_holes_def MEM_FREE_def MEM_COMMIT_def)

definition demo_hole_env :: beat_env where
  "demo_hole_env = (demo_beat 5000 0)\<lparr>be_sample := demo_holes, be_snap := demo_holes\<rparr>"

lemma phase_change_plants_rounding_gain_witness:
  "int_delta (totalFreeMb (prevSnap (fst (enter_phase MainMenuStable demo_hole_env demo_start)))) (current_vas_mb demo_hole_env) = 2"
proof -
  have "be_snap demo_hole_env = demo_holes" "be_sample demo_hole_env = be_snap demo_hole_env"
    by (simp_all add: demo_hole_env_def)
  then show ?thesis
    using phase_change_plants_rounding_gain [of demo_hole_env demo_hole_env _ MainMenuStable demo_start]
    by (simp add: demo_holes_sizes)
qed

end
