(* ===== verification/MapHooks.thy ===== *)
theory MapHooks
  imports VirtualHooks VasScan MapView Dbpf
begin

section \<open>The mapping and file hooks\<close>

text \<open>
  The hooks of \<open>WorkingHooks.cpp\<close> around mapped files: \<open>NtMapViewOfSection\<close> looks at every view
  that is mapped into this process and classifies it (anonymous, image, unnamed, other file,
  package), scans the index of packages and keeps the inventory of \<open>MapViewTypeTracker\<close>;
  \<open>NtUnmapViewOfSection\<close> takes addresses of the arena back; the Win32 functions above them mostly
  observe, and look for scripts in files that are mapped whole.  No view is redirected.
\<close>

subsection \<open>State and system\<close>

record map_state =
  mw_v :: vhooks
  mw_tracker :: "map_view option"
  s_lastDbpfMapTickMs :: u64
  mw_reported :: slots

text \<open>
  The arguments of a native call, and what it leaves in its cells: status, base, size, offset.  A
  cell the caller did not give is \<open>None\<close>.
\<close>

record map_req =
  mr_section :: u32
  mr_process :: u32
  mr_base :: "u32 option"
  mr_zero :: u32
  mr_commit :: u32
  mr_offset :: "u64 option"
  mr_size :: "u32 option"
  mr_inherit :: u32
  mr_alloc :: u32
  mr_protect :: u32

record nt_view =
  nv_status :: u32
  nv_base :: u32
  nv_size :: u32
  nv_offset :: u64

text \<open>
  The system: type and size of the region at an address (\<open>VirtualQuery\<close>), the device path of the
  file mapped there (at most the 519 characters that fit the callers' buffers), the bytes that can
  be read from there, the clock, the drives and their devices.
\<close>

record view_sys =
  vw_nt_map :: "map_req \<Rightarrow> nt_view"
  vw_nt_unmap :: "u32 \<Rightarrow> u32 \<Rightarrow> u32"
  vw_query :: "u32 \<Rightarrow> (u32 \<times> u32) option"
  vw_name :: "u32 \<Rightarrow> string option"
  vw_bytes :: "u32 \<Rightarrow> u8 list"
  vw_tick64 :: u64
  vw_drives :: "string list"
  vw_device :: "string \<Rightarrow> string option"
  vw_last_error :: u32
  vw_this_process :: u32

datatype map_event =
    Virt virt_event
  | RealNtMap map_req
  | RealNtUnmap u32 u32
  | ScriptProbe string u32 u32 u32 nat
  | ScriptHighway string u32 u32 script_tally u32
  | MapLine u32 u32 u32 u32 u32 "u32 option" u32
  | UnmapLine u32 bool
  | LargeView bool u32 u32
  | NoNameView u32 int u32 u32
  | OtherFile string u32 int
  | PackageLine string u32 int bool nat
  | CatalogRow string string u32 u64
  | PackageUnmapped string u32

abbreviation mtally :: "hook_env \<Rightarrow> string \<Rightarrow> u64 \<Rightarrow> map_event list" where
  "mtally env n x \<equiv> map Virt (vtally env n x)"

abbreviation in_v :: "(vhooks \<Rightarrow> vhooks) \<Rightarrow> map_state \<Rightarrow> map_state" where
  "in_v f w \<equiv> w\<lparr>mw_v := f (mw_v w)\<rparr>"

abbreviation hooks_of :: "map_state \<Rightarrow> hooks" where
  "hooks_of w \<equiv> vh_core (mw_v w)"

definition logged :: "hook_env \<Rightarrow> map_event list \<Rightarrow> map_event list" where
  "logged env ev = (if me_logger (he_mm env) then ev else [])"

subsection \<open>Names of mapped files\<close>

text \<open>
  A path on a device, as a path on the first drive whose device it starts with.  \<open>None\<close>: the result
  does not fit the buffer, which ends the process.
\<close>

definition on_device :: "string \<Rightarrow> string \<Rightarrow> bool" where
  "on_device devPath device \<longleftrightarrow>
     length device < length devPath \<and> stricmp_eq (take (length device) devPath) device \<and>
     devPath ! length device = CHR 0x5C"

fun drive_path :: "(string \<Rightarrow> string option) \<Rightarrow> string \<Rightarrow> string list \<Rightarrow> string option" where
  "drive_path dev devPath [] = None"
| "drive_path dev devPath (drv # drives) =
     (case dev (take 2 drv) of
        None \<Rightarrow> drive_path dev devPath drives
      | Some device \<Rightarrow> if on_device devPath device then Some (take 2 drv @ drop (length device) devPath)
                       else drive_path dev devPath drives)"

definition GetMappedFullPath :: "view_sys \<Rightarrow> u32 \<Rightarrow> nat \<Rightarrow> string option" where
  "GetMappedFullPath vw a outBytes =
     (case vw_name vw a of
        None \<Rightarrow> Some []
      | Some devPath \<Rightarrow>
          (case drive_path (vw_device vw) devPath (vw_drives vw) of
             Some p \<Rightarrow> if length p < outBytes then Some p else None
           | None \<Rightarrow> Some (take (outBytes - 1) devPath)))"

text \<open>The part of a name from its last dot on.\<close>

definition extension :: "string \<Rightarrow> string option" where
  "extension s = (if CHR ''.'' \<in> set s then Some (CHR ''.'' # rev (takeWhile (\<lambda>c. c \<noteq> CHR ''.'') (rev s))) else None)"

definition IsPackageExtension :: "string \<Rightarrow> bool" where
  "IsPackageExtension filename =
     (case extension filename of
        None \<Rightarrow> False
      | Some dot \<Rightarrow> stricmp_eq dot ''.package'' \<or> stricmp_eq dot ''.world'' \<or> stricmp_eq dot ''.sims3'')"

subsection \<open>Scripts in a view\<close>

definition name_bytes :: "string \<Rightarrow> u8 list" where "name_bytes s = map of_char s"

definition kMaxTypeStats :: nat where "kMaxTypeStats = 128"

definition probe_view ::
  "hook_env \<Rightarrow> view_sys \<Rightarrow> DbpfTypeStats list \<Rightarrow> u32 \<Rightarrow> u32 \<Rightarrow> map_state \<Rightarrow> map_event list \<times> map_state" where
  "probe_view env vw ts view sz w =
     (let name = (case vw_name vw view of None \<Rightarrow> [] | Some n \<Rightarrow> n)
      in case ProbeScriptAssembly ts (name_bytes name) (mw_reported w) of
           (line, incs, reported) \<Rightarrow>
             ((case line of
                 None \<Rightarrow> []
               | Some (b, s) \<Rightarrow>
                   logged env [ScriptHighway (if name = [] then ''<unnamed>'' else base_name name) view (sz div 1024) s (he_ra env)]) @
              map Virt (vtallies env incs),
              w\<lparr>mw_reported := reported\<rparr>))"

text \<open>A file that was mapped whole: its size is asked for, then it is scanned (guarded).\<close>

definition whole_map ::
  "hook_env \<Rightarrow> view_sys \<Rightarrow> u32 \<Rightarrow> map_state \<Rightarrow> ((u32 \<times> nat) option \<times> map_event list \<times> map_state)" where
  "whole_map env vw p w =
     (let effectiveSize = (case vw_query vw p of None \<Rightarrow> 0 | Some (t, n) \<Rightarrow> n)
      in if effectiveSize > 0
         then (let ts = SafeScanDbpfIndex (vw_bytes vw p) effectiveSize kMaxTypeStats;
                   (ev, w) = probe_view env vw ts p effectiveSize w
               in (Some (effectiveSize div 1024, length ts), ev, w))
         else (None, [], w))"

subsection \<open>Mapping a view\<close>

text \<open>The inventory, and the lines about a view that is not in a package.\<close>

definition track :: "ViewKind \<Rightarrow> string \<Rightarrow> u32 \<Rightarrow> map_state \<Rightarrow> map_state" where
  "track k baseName sz w = w\<lparr>mw_tracker := map_option (RecordView k baseName (ucast sz) False) (mw_tracker w)\<rparr>"

definition unfiled_view :: "hook_env \<Rightarrow> bool \<Rightarrow> u32 \<Rightarrow> u32 \<Rightarrow> map_state \<Rightarrow> map_event list \<times> map_state" where
  "unfiled_view env img sz protect w =
     (mtally env ''MapView_Total'' 1 @ mtally env (if img then ''MapView_ImageSection'' else ''MapView_Anonymous'') 1 @
        (if sz \<ge> 16 * 1024 * 1024 then logged env [LargeView img (sz div (1024 * 1024)) protect] else []),
      track (if img then ImageSection else Anonymous) [] sz w)"

definition nameless_view :: "hook_env \<Rightarrow> view_sys \<Rightarrow> u32 \<Rightarrow> u64 \<Rightarrow> u32 \<Rightarrow> map_state \<Rightarrow> map_event list \<times> map_state" where
  "nameless_view env vw sz secOff protect w =
     ((if sz \<ge> 4 * 1024 * 1024
       then logged env [NoNameView (sz div (1024 * 1024)) (sint secOff) protect (vw_last_error vw)] else []) @
        mtally env ''MapView_FileMapped_NoName_Bytes'' (ucast sz),
      track FileMappedNoName [] sz w)"

definition other_view :: "hook_env \<Rightarrow> string \<Rightarrow> u32 \<Rightarrow> u64 \<Rightarrow> map_state \<Rightarrow> map_event list \<times> map_state" where
  "other_view env baseName sz secOff w =
     ((if sz \<ge> 4 * 1024 * 1024 then logged env [OtherFile baseName (sz div (1024 * 1024)) (sint secOff)] else []),
      track FileMappedOther baseName sz w)"

text \<open>A package: \<open>None\<close> when the unguarded scan of its index reads where nothing can be read.\<close>

definition catalog :: "string \<Rightarrow> DbpfTypeStats list \<Rightarrow> map_event list" where
  "catalog baseName ts =
     map (\<lambda>d. CatalogRow baseName (DbpfTypeName (ds_typeId d)) (ds_entryCount d) (ds_totalMemBytes d div 1024)) ts"

definition package_view ::
  "hook_env \<Rightarrow> view_sys \<Rightarrow> u32 \<Rightarrow> string \<Rightarrow> u32 \<Rightarrow> u64 \<Rightarrow> map_state \<Rightarrow> (map_event list \<times> map_state) option" where
  "package_view env vw base baseName sz secOff w =
     (case ScanDbpfIndex (vw_bytes vw base) sz kMaxTypeStats of
        None \<Rightarrow> None
      | Some ts \<Rightarrow>
          (let hasDbpf = (length ts > 0);
               w = (if hasDbpf then w\<lparr>s_lastDbpfMapTickMs := vw_tick64 vw\<rparr> else w);
               (ev, w) = (if hasDbpf then probe_view env vw ts base sz w else ([], w));
               w = track (if hasDbpf then FileMappedDbpf else FileMappedPackage) baseName sz w;
               w = (if hasDbpf then w\<lparr>mw_tracker := map_option (RecordDbpfTypes ts) (mw_tracker w)\<rparr> else w)
           in Some (ev @ mtally env ''MapView_PackageBytes'' (ucast sz) @
                    logged env [PackageLine baseName (sz div 1024) (sint secOff) hasDbpf (length ts)] @
                    (if hasDbpf then logged env (catalog baseName ts) else []), w)))"

text \<open>The counters of a view of a file, whatever the file is.\<close>

definition file_counters :: "hook_env \<Rightarrow> string \<Rightarrow> bool \<Rightarrow> map_event list" where
  "file_counters env devPath isPackageExt =
     mtally env ''MapView_Total'' 1 @ mtally env ''MapView_FileMapped'' 1 @
     mtally env (if devPath = [] then ''MapView_FileMapped_NoName'' else if isPackageExt then ''MapView_Package''
                 else ''MapView_FileMapped_Other'') 1"

definition filed_view ::
  "hook_env \<Rightarrow> view_sys \<Rightarrow> u32 \<Rightarrow> u32 \<Rightarrow> u64 \<Rightarrow> u32 \<Rightarrow> map_state \<Rightarrow> (map_event list \<times> map_state) option" where
  "filed_view env vw base sz secOff protect w =
     (let devPath = (case vw_name vw base of None \<Rightarrow> [] | Some n \<Rightarrow> n);
          baseName = take 259 (base_name devPath)
      in case GetMappedFullPath vw base 520 of
           None \<Rightarrow> None
         | Some fullPath \<Rightarrow>
             (let isPackageExt = (IsPackageExtension baseName \<or> IsPackageExtension fullPath)
              in case (if devPath = [] then Some (nameless_view env vw sz secOff protect w)
                       else if \<not> isPackageExt then Some (other_view env baseName sz secOff w)
                       else package_view env vw base baseName sz secOff w) of
                   None \<Rightarrow> None
                 | Some (ev, w) \<Rightarrow> Some (file_counters env devPath isPackageExt @ ev, w)))"

text \<open>The views that are looked at: mapped into this process, with an address and a size.\<close>

definition own_view :: "view_sys \<Rightarrow> map_req \<Rightarrow> nt_view \<Rightarrow> bool" where
  "own_view vw req r \<longleftrightarrow>
     NT_SUCCESS (nv_status r) \<and> mr_base req \<noteq> None \<and> nv_base r \<noteq> 0 \<and> mr_size req \<noteq> None \<and> nv_size r \<noteq> 0 \<and>
     (mr_process req = vw_this_process vw \<or> mr_process req = 0xFFFFFFFF)"

definition classify_view ::
  "hook_env \<Rightarrow> view_sys \<Rightarrow> map_req \<Rightarrow> nt_view \<Rightarrow> map_state \<Rightarrow> (map_event list \<times> map_state) option" where
  "classify_view env vw req r w =
     (if \<not> own_view vw req r then Some ([], w)
      else case vw_query vw (nv_base r) of
        None \<Rightarrow> Some ([], w)
      | Some (type, n) \<Rightarrow>
          if type \<noteq> MEM_MAPPED then Some (unfiled_view env (type = MEM_IMAGE) (nv_size r) (mr_protect req) w)
          else filed_view env vw (nv_base r) (nv_size r) (case mr_offset req of None \<Rightarrow> 0 | Some _ \<Rightarrow> nv_offset r)
                 (mr_protect req) w)"

definition Hooked_NtMapViewOfSection ::
  "hook_env \<Rightarrow> view_sys \<Rightarrow> map_req \<Rightarrow> map_state \<Rightarrow> (nt_view \<times> map_event list \<times> map_state) option" where
  "Hooked_NtMapViewOfSection env vw req w =
     (let r = vw_nt_map vw req
      in if passes_through env (hooks_of w) then Some (r, [RealNtMap req], w)
         else (case classify_view env vw req r (in_v (core enter_nt) w) of
                 None \<Rightarrow> None
               | Some (ev, w) \<Rightarrow> Some (r, RealNtMap req # ev, in_v (core leave_nt) w)))"

subsection \<open>Unmapping\<close>

text \<open>What the telemetry build records of a view of a file that is released.\<close>

definition unmap_report :: "hook_env \<Rightarrow> view_sys \<Rightarrow> u32 \<Rightarrow> map_event list" where
  "unmap_report env vw a =
     (case vw_query vw a of
        None \<Rightarrow> []
      | Some (type, n) \<Rightarrow>
          if type \<noteq> MEM_MAPPED then []
          else (let dev = (case vw_name vw a of None \<Rightarrow> [] | Some d \<Rightarrow> d);
                    pkg = (dev \<noteq> [] \<and> IsPackageExtension (base_name dev))
                in mtally env (if pkg then ''Packages_Unmapped'' else ''MapView_FileMapped_Unmapped'') 1 @
                   mtally env ''MapView_FileMapped_Unmapped_KB'' (ucast (n div 1024)) @
                   (if pkg then logged env [PackageUnmapped (base_name dev) (n div 1024)] else [])))"

definition Hooked_NtUnmapViewOfSection ::
  "bool \<Rightarrow> hook_env \<Rightarrow> view_sys \<Rightarrow> u32 \<Rightarrow> u32 \<Rightarrow> map_state \<Rightarrow> u32 \<times> map_event list \<times> map_state" where
  "Hooked_NtUnmapViewOfSection telemetry env vw proc a w =
     (if passes_through env (hooks_of w) then (vw_nt_unmap vw proc a, [RealNtUnmap proc a], w)
      else if is_arena_address a (hooks_of w)
      then (case free_on env a (hooks_of w) of
              (b, ev, h) \<Rightarrow> (0, map (Virt \<circ> Hook) ev @ mtally env ''UnmapView_ProxyFreed'' 1, in_v (core (\<lambda>_. h)) w))
      else (vw_nt_unmap vw proc a,
            mtally env ''UnmapView_Total'' 1 @ (if telemetry then unmap_report env vw a else []) @ [RealNtUnmap proc a], w))"

subsection \<open>The Win32 functions\<close>

definition emit_api ::
  "hook_env \<Rightarrow> view_sys \<Rightarrow> string \<Rightarrow> u64 list \<Rightarrow> u64 \<Rightarrow> bool \<Rightarrow> vhooks \<Rightarrow> map_event list \<times> vhooks" where
  "emit_api env vw name args res ok v =
     (case EmitApiHookWin32 (me_getenv (he_mm env) ''TS3VAS_ETW_VERBOSE_NOISY_API'')
             (me_getenv (he_mm env) ''TS3VAS_ETW_NOISY_SAMPLE_POW2'') OtherApi (vw_last_error vw) ok (vh_etw v) of
        (st, e, gle) \<Rightarrow> ((case st of None \<Rightarrow> [] | Some s \<Rightarrow> [Virt (EtwApi name args res s)]), v\<lparr>vh_etw := e\<rparr>))"

text \<open>
  \<open>MapViewOfFile\<close> and \<open>MapViewOfFileEx\<close> (with a base address).  The system's function is a step on
  the state, because it calls the native function, which is hooked as well.
\<close>

definition map_file ::
  "hook_env \<Rightarrow> view_sys \<Rightarrow> string \<Rightarrow> (map_state \<Rightarrow> u32 \<times> map_event list \<times> map_state) option \<Rightarrow>
   u32 \<Rightarrow> u32 \<Rightarrow> u32 \<Rightarrow> u32 \<Rightarrow> u32 \<Rightarrow> u32 option \<Rightarrow> map_state \<Rightarrow> u32 \<times> map_event list \<times> map_state" where
  "map_file env vw name real hMap access hi lo sz base w =
     (case real of
        None \<Rightarrow> (0, [], w)
      | Some f \<Rightarrow>
          if passes_through env (hooks_of w) then f w
          else (let (p, ev0, w) = f (in_v (core enter_scope) w);
                    (ev1, v) = emit_api env vw name [ucast hMap, ucast access, pack hi lo, ucast sz] (ucast p) (p \<noteq> 0) (mw_v w);
                    (probe, ev2, w) = (if p \<noteq> 0 \<and> sz = 0 then whole_map env vw p (w\<lparr>mw_v := v\<rparr>)
                                       else (None, [], w\<lparr>mw_v := v\<rparr>));
                    line = (case probe of None \<Rightarrow> []
                            | Some (kb, n) \<Rightarrow> logged env [ScriptProbe name p (case base of None \<Rightarrow> 0 | Some b \<Rightarrow> b) kb n])
                in (p, ev0 @ ev1 @ (if base = None then line @ ev2 else ev2 @ line) @
                       logged env [MapLine hMap access hi lo sz base p],
                    in_v (core leave_scope) w)))"

definition Hooked_MapViewOfFile where
  "Hooked_MapViewOfFile env vw real hMap access hi lo sz =
     map_file env vw ''MapViewOfFile'' real hMap access hi lo sz None"

definition Hooked_MapViewOfFileEx where
  "Hooked_MapViewOfFileEx env vw real hMap access hi lo sz base =
     map_file env vw ''MapViewOfFileEx'' real hMap access hi lo sz (Some base)"

definition Hooked_UnmapViewOfFile ::
  "hook_env \<Rightarrow> virt_sys \<Rightarrow> bool option \<Rightarrow> u32 \<Rightarrow> vhooks \<Rightarrow> bool \<times> map_event list \<times> vhooks" where
  "Hooked_UnmapViewOfFile env vs real a v =
     (case observe env vs OtherApi ''UnmapViewOfFile'' real False (\<lambda>r. [ucast a, 0, 0, 0]) flag id v of
        (ok, ev, v') \<Rightarrow>
          (ok, map Virt ev @ (if real = None \<or> passes_through env (vh_core v) then [] else logged env [UnmapLine a ok]), v'))"

definition Hooked_CreateFileMappingA where
  "Hooked_CreateFileMappingA env vs real hFile protect hi lo name =
     observe env vs OtherApi ''CreateFileMappingA'' real (0 :: u32)
       (\<lambda>r. [ucast (hFile :: u32), ucast (protect :: u32), pack hi lo, ucast (name :: u32)]) ucast (\<lambda>r. r \<noteq> 0)"

definition Hooked_CreateFileMappingW where
  "Hooked_CreateFileMappingW env vs real hFile protect hi lo name =
     observe env vs OtherApi ''CreateFileMappingW'' real (0 :: u32)
       (\<lambda>r. [ucast (hFile :: u32), ucast (protect :: u32), pack hi lo, ucast (name :: u32)]) ucast (\<lambda>r. r \<noteq> 0)"

definition Hooked_OpenFileMappingA where
  "Hooked_OpenFileMappingA env vs real access inherit name =
     observe env vs OtherApi ''OpenFileMappingA'' real (0 :: u32)
       (\<lambda>r. [ucast (access :: u32), ucast (inherit :: u32), ucast (name :: u32), 0]) ucast (\<lambda>r. r \<noteq> 0)"

definition Hooked_OpenFileMappingW where
  "Hooked_OpenFileMappingW env vs real access inherit name =
     observe env vs OtherApi ''OpenFileMappingW'' real (0 :: u32)
       (\<lambda>r. [ucast (access :: u32), ucast (inherit :: u32), ucast (name :: u32), 0]) ucast (\<lambda>r. r \<noteq> 0)"

definition Hooked_FlushViewOfFile where
  "Hooked_FlushViewOfFile env vs real a n =
     observe env vs OtherApi ''FlushViewOfFile'' real False (\<lambda>r. [ucast (a :: u32), ucast (n :: u32), 0, 0]) flag id"

subsection \<open>The survivors of a world\<close>

datatype unfreed_line =
    NoneUnfreed
  | UnfreedHead nat
  | UnfreedRow nat u32 u32 string u32

definition unfreed_row :: "nat \<times> DiagnosticAllocRecord \<Rightarrow> unfreed_line list" where
  "unfreed_row = (\<lambda>(i, r).
     if da_address r = 0 then []
     else [UnfreedRow i (da_address r) (da_size r div 1024)
             (if da_moduleName r = [] then ''<unknown>'' else da_moduleName r) (da_retAddr r)])"

definition DumpUnfreedAssets :: "hook_env \<Rightarrow> hooks \<Rightarrow> unfreed_line list" where
  "DumpUnfreedAssets env h =
     (if \<not> me_logger (he_mm env) \<or> \<not> h_csInit h then []
      else if h_diag h = [] then [NoneUnfreed]
      else UnfreedHead (length (h_diag h)) # concat (map unfreed_row (enumerate 0 (h_diag h))))"

end
