(* ===== verification/HookInstall.thy ===== *)
theory HookInstall
  imports MapHooks
begin

section \<open>Installing and removing the hooks\<close>

text \<open>
  \<open>Install\<close> and \<open>Uninstall\<close> of \<open>WorkingHooks.cpp\<close>, and \<open>HookManager.cpp\<close> around them.  The
  detours library is an argument: the status of its commit, and the address it leaves in the pointer
  of an attached function.  As it documents, a commit that succeeds applies every pending attachment
  or removal, one that fails applies none.
\<close>

subsection \<open>Which functions are hooked\<close>

text \<open>
  A function is attached always, only where it could be resolved, only in the telemetry build, or
  both.  The two lists are those of \<open>Install\<close> and \<open>Uninstall\<close> in their order.
\<close>

datatype hook_entry = Always string | IfResolved string | Observer string | ObserverIfResolved string

definition attach_list :: "hook_entry list" where
  "attach_list =
     [Always ''RtlCreateHeap'', Always ''RtlAllocateHeap'', Always ''RtlFreeHeap'',
      Always ''RtlReAllocateHeap'', Always ''NtAllocateVirtualMemory'', Always ''NtFreeVirtualMemory'',
      IfResolved ''NtAllocateVirtualMemoryEx'', Observer ''NtMapViewOfSection'',
      Always ''NtUnmapViewOfSection'', IfResolved ''VirtualAlloc'', IfResolved ''VirtualFree'',
      ObserverIfResolved ''VirtualAllocEx'', ObserverIfResolved ''VirtualFreeEx'',
      ObserverIfResolved ''VirtualProtect'', ObserverIfResolved ''VirtualProtectEx'',
      ObserverIfResolved ''VirtualQuery'', ObserverIfResolved ''VirtualQueryEx'',
      ObserverIfResolved ''VirtualLock'', ObserverIfResolved ''VirtualUnlock'',
      ObserverIfResolved ''VirtualAlloc2'', ObserverIfResolved ''VirtualAllocFromApp'',
      ObserverIfResolved ''VirtualAlloc2FromApp'', IfResolved ''HeapAlloc'', IfResolved ''HeapFree'',
      IfResolved ''HeapReAlloc'', IfResolved ''HeapCreate'', IfResolved ''GlobalAlloc'',
      IfResolved ''GlobalReAlloc'', IfResolved ''LocalAlloc'', IfResolved ''LocalReAlloc'',
      ObserverIfResolved ''HeapDestroy'', IfResolved ''HeapSize'', ObserverIfResolved ''HeapValidate'',
      ObserverIfResolved ''HeapCompact'', ObserverIfResolved ''HeapWalk'', ObserverIfResolved ''HeapLock'',
      ObserverIfResolved ''HeapUnlock'', ObserverIfResolved ''MapViewOfFile'',
      ObserverIfResolved ''MapViewOfFileEx'', ObserverIfResolved ''UnmapViewOfFile'',
      ObserverIfResolved ''CreateFileMappingA'', ObserverIfResolved ''CreateFileMappingW'',
      ObserverIfResolved ''OpenFileMappingA'', ObserverIfResolved ''OpenFileMappingW'',
      ObserverIfResolved ''FlushViewOfFile'']"

definition detach_list :: "hook_entry list" where
  "detach_list =
     [Always ''RtlCreateHeap'', Always ''RtlAllocateHeap'', Always ''RtlFreeHeap'',
      Always ''RtlReAllocateHeap'', Always ''NtAllocateVirtualMemory'', Always ''NtFreeVirtualMemory'',
      IfResolved ''NtAllocateVirtualMemoryEx'', Observer ''NtMapViewOfSection'',
      Always ''NtUnmapViewOfSection'', IfResolved ''VirtualAlloc'', IfResolved ''VirtualFree'',
      ObserverIfResolved ''VirtualAllocEx'', ObserverIfResolved ''VirtualFreeEx'',
      ObserverIfResolved ''VirtualProtect'', ObserverIfResolved ''VirtualProtectEx'',
      ObserverIfResolved ''VirtualQuery'', ObserverIfResolved ''VirtualQueryEx'',
      ObserverIfResolved ''VirtualLock'', ObserverIfResolved ''VirtualUnlock'',
      ObserverIfResolved ''VirtualAlloc2'', ObserverIfResolved ''VirtualAllocFromApp'',
      ObserverIfResolved ''VirtualAlloc2FromApp'', IfResolved ''HeapAlloc'', IfResolved ''HeapFree'',
      IfResolved ''HeapReAlloc'', IfResolved ''HeapCreate'', IfResolved ''GlobalAlloc'',
      IfResolved ''GlobalReAlloc'', IfResolved ''LocalAlloc'', IfResolved ''LocalReAlloc'',
      ObserverIfResolved ''HeapDestroy'', IfResolved ''HeapSize'', ObserverIfResolved ''HeapValidate'',
      ObserverIfResolved ''HeapCompact'', ObserverIfResolved ''HeapWalk'', ObserverIfResolved ''HeapLock'',
      ObserverIfResolved ''HeapUnlock'', ObserverIfResolved ''MapViewOfFile'',
      ObserverIfResolved ''MapViewOfFileEx'', ObserverIfResolved ''UnmapViewOfFile'',
      ObserverIfResolved ''CreateFileMappingA'', ObserverIfResolved ''CreateFileMappingW'',
      ObserverIfResolved ''OpenFileMappingA'', ObserverIfResolved ''OpenFileMappingW'',
      ObserverIfResolved ''FlushViewOfFile'']"

definition ntdll_names :: "string list" where
  "ntdll_names =
     [''RtlCreateHeap'', ''RtlAllocateHeap'', ''RtlFreeHeap'', ''RtlReAllocateHeap'',
      ''NtAllocateVirtualMemory'', ''NtFreeVirtualMemory'', ''NtAllocateVirtualMemoryEx'',
      ''NtMapViewOfSection'', ''NtUnmapViewOfSection'']"

definition kernel_names :: "string list" where
  "kernel_names =
     [''VirtualAlloc'', ''VirtualFree'', ''VirtualAllocEx'', ''VirtualFreeEx'', ''VirtualProtect'',
      ''VirtualProtectEx'', ''VirtualQuery'', ''VirtualQueryEx'', ''VirtualLock'', ''VirtualUnlock'',
      ''VirtualAlloc2'', ''VirtualAllocFromApp'', ''VirtualAlloc2FromApp'', ''HeapAlloc'', ''HeapFree'',
      ''HeapReAlloc'', ''HeapCreate'', ''HeapDestroy'', ''HeapSize'', ''HeapValidate'', ''HeapCompact'',
      ''HeapWalk'', ''HeapLock'', ''HeapUnlock'', ''GlobalAlloc'', ''GlobalReAlloc'', ''LocalAlloc'',
      ''LocalReAlloc'', ''MapViewOfFile'', ''MapViewOfFileEx'', ''UnmapViewOfFile'', ''CreateFileMappingA'',
      ''CreateFileMappingW'', ''OpenFileMappingA'', ''OpenFileMappingW'', ''FlushViewOfFile'']"

text \<open>The functions whose addresses are written to the emergency log.\<close>

definition logged_names :: "string list" where
  "logged_names =
     [''RtlCreateHeap'', ''RtlAllocateHeap'', ''RtlFreeHeap'', ''RtlReAllocateHeap'',
      ''NtAllocateVirtualMemory'', ''NtFreeVirtualMemory'', ''NtMapViewOfSection'', ''NtUnmapViewOfSection'',
      ''VirtualAlloc'', ''VirtualFree'', ''HeapAlloc'', ''HeapFree'', ''HeapReAlloc'', ''MapViewOfFile'',
      ''MapViewOfFileEx'', ''UnmapViewOfFile'']"

fun hook_name :: "hook_entry \<Rightarrow> string" where
  "hook_name (Always n) = n"
| "hook_name (IfResolved n) = n"
| "hook_name (Observer n) = n"
| "hook_name (ObserverIfResolved n) = n"

fun enabled :: "bool \<Rightarrow> (string \<Rightarrow> u32) \<Rightarrow> hook_entry \<Rightarrow> bool" where
  "enabled telemetry real (Always n) = True"
| "enabled telemetry real (IfResolved n) = (real n \<noteq> 0)"
| "enabled telemetry real (Observer n) = telemetry"
| "enabled telemetry real (ObserverIfResolved n) = (telemetry \<and> real n \<noteq> 0)"

definition pending :: "bool \<Rightarrow> (string \<Rightarrow> u32) \<Rightarrow> hook_entry list \<Rightarrow> string list" where
  "pending telemetry real es = map hook_name (filter (enabled telemetry real) es)"

subsection \<open>State and system\<close>

record installer =
  ins_map :: map_state
  ins_tls :: u32
  ins_minSize :: u32
  ins_real :: "string \<Rightarrow> u32"
  ins_attached :: "string list"
  hm_memManager :: "(memory_manager \<times> create_globals) option"
  m_hooksInstalled :: bool

text \<open>
  What the system and the libraries answer.  \<open>ie_commit\<close> is the status of the transaction,
  \<open>ie_pointer\<close> the address it leaves in the pointer of a function: the trampoline of one that was
  attached, the function itself when it was detached.
\<close>

record install_env =
  ie_hook :: hook_env
  ie_telemetry :: bool
  ie_tlsAlloc :: u32
  ie_module :: "string \<Rightarrow> u32"
  ie_proc :: "u32 \<Rightarrow> string \<Rightarrow> u32"
  ie_commit :: u32
  ie_pointer :: "string \<Rightarrow> u32"
  ie_rtlCreate :: "(u32 \<Rightarrow> u32 \<Rightarrow> u32) option"
  ie_heapCreate :: "nat \<Rightarrow> u32"

datatype install_event =
    Note string
  | TlsAllocated u32
  | TlsFreed u32
  | SizeWindow u32 u32 "u32 option"
  | Target string u32
  | Trampoline string u32
  | Removing string u32
  | Attach string
  | Detach string
  | CommitError u32
  | HooksLive
  | ViewReport "report_line list"

definition TLS_OUT_OF_INDEXES :: u32 where "TLS_OUT_OF_INDEXES = 0xFFFFFFFF"

abbreviation hook_state :: "installer \<Rightarrow> hooks" where
  "hook_state s \<equiv> hooks_of (ins_map s)"

abbreviation in_hooks :: "(hooks \<Rightarrow> hooks) \<Rightarrow> installer \<Rightarrow> installer" where
  "in_hooks f s \<equiv> s\<lparr>ins_map := in_v (core f) (ins_map s)\<rparr>"

definition noted :: "install_env \<Rightarrow> install_event list \<Rightarrow> install_event list" where
  "noted ie ev = (if me_logger (he_mm (ie_hook ie)) then ev else [])"

subsection \<open>Resolving the functions\<close>

text \<open>A function of kernel32 that is not found there is looked up in KernelBase.\<close>

definition resolve :: "install_env \<Rightarrow> (string \<Rightarrow> u32) \<Rightarrow> string \<Rightarrow> u32" where
  "resolve ie real n =
     (let ntdll = ie_module ie ''ntdll.dll''; k32 = ie_module ie ''kernel32.dll''; kb = ie_module ie ''KernelBase.dll''
      in if n \<in> set ntdll_names then ie_proc ie ntdll n
         else if n \<in> set kernel_names
         then (let p = ie_proc ie k32 n in if p = 0 \<and> kb \<noteq> 0 then ie_proc ie kb n else p)
         else real n)"

definition required_names :: "string list" where
  "required_names = filter (\<lambda>n. n \<noteq> ''NtAllocateVirtualMemoryEx'') ntdll_names"

subsection \<open>Install\<close>

text \<open>The lower bound of captured heap requests, and the line about the window.\<close>

definition min_size_setting :: "install_env \<Rightarrow> u32 \<Rightarrow> u32" where
  "min_size_setting ie old =
     (let kb = word_of_int (env_atoi 16 (me_getenv (he_mm (ie_hook ie)) ''TS3VAS_PROXY_HEAP_MIN_KB'')) :: u32
      in if kb > 0 then kb * 1024 else old)"

definition size_window :: "u32 \<Rightarrow> hooks \<Rightarrow> install_event" where
  "size_window minSize h =
     (let proxyMax = (case h_mm h of None \<Rightarrow> 0 | Some (m, g) \<Rightarrow> m_proxyMaxBytes m)
      in SizeWindow (minSize div 1024) (kForceVirtualAllocMinSize div 1024)
           (if proxyMax \<noteq> 0 then Some (proxyMax div (1024 * 1024)) else None))"

text \<open>The shards are set up before anything is hooked.\<close>

definition start_shards :: "install_env \<Rightarrow> hooks \<Rightarrow> hooks" where
  "start_shards ie h =
     (case ProxyHeapInit (he_mm (ie_hook ie)) (c_passive (h_control h)) (ie_rtlCreate ie) (ie_heapCreate ie)
             (h_heaps h, map_option fst (h_mm h)) of
        (ph, mm) \<Rightarrow> h\<lparr>h_heaps := ph, h_mm := (case (mm, h_mm h) of (Some m, Some (_, g)) \<Rightarrow> Some (m, g) | _ \<Rightarrow> h_mm h)\<rparr>)"

definition start_tracker :: "map_state \<Rightarrow> map_state" where
  "start_tracker w = w\<lparr>mw_tracker := (case mw_tracker w of None \<Rightarrow> Some map_view_init | Some t \<Rightarrow> Some t)\<rparr>"

text \<open>The first part: TLS, manager, settings, shards, tracker, tables.  The answer is whether to go on.\<close>

definition prepare :: "install_env \<Rightarrow> (memory_manager \<times> create_globals) option \<Rightarrow> installer \<Rightarrow> bool \<times> install_event list \<times> installer" where
  "prepare ie mm s =
     (let s = in_hooks (\<lambda>h. h\<lparr>h_control := (h_control h)\<lparr>s_shuttingDown := False\<rparr>\<rparr>) s;
          s = s\<lparr>ins_tls := ie_tlsAlloc ie\<rparr>
      in if ie_tlsAlloc ie = TLS_OUT_OF_INDEXES then (False, [Note ''Enter.'', Note ''TlsAlloc failed.''], s)
         else (let s = in_hooks (\<lambda>h. h\<lparr>h_mm := mm\<rparr>) s;
                   s = s\<lparr>ins_minSize := min_size_setting ie (ins_minSize s)\<rparr>;
                   ev = [Note ''Enter.'', TlsAllocated (ie_tlsAlloc ie), size_window (ins_minSize s) (hook_state s)];
                   s = in_hooks (start_shards ie) s;
                   s = s\<lparr>ins_map := start_tracker (ins_map s)\<rparr>
               in if ie_module ie ''ntdll.dll'' = 0 then (False, ev @ [Note ''ntdll.dll not found.''], s)
                  else (True, ev, in_hooks (\<lambda>h. h\<lparr>h_csInit := True\<rparr>) s)))"

text \<open>The second part: addresses, transaction, activation.\<close>

definition attach_all :: "install_env \<Rightarrow> installer \<Rightarrow> bool \<times> install_event list \<times> installer" where
  "attach_all ie s =
     (let s = s\<lparr>ins_real := resolve ie (ins_real s)\<rparr>
      in if \<exists>n\<in>set required_names. ins_real s n = 0
         then (False, [Note ''One or more ntdll exports not found.''], s)
         else (let ns = pending (ie_telemetry ie) (ins_real s) attach_list;
                   ev = map (\<lambda>n. Target n (ins_real s n)) logged_names @ map Attach ns
               in if ie_commit ie \<noteq> 0 then (False, ev @ [CommitError (ie_commit ie)] @ noted ie [Note ''CRITICAL: Detours transaction failed.''], s)
                  else (let s = s\<lparr>ins_attached := ins_attached s @ ns,
                                  ins_real := (\<lambda>n. if n \<in> set ns then ie_pointer ie n else ins_real s n)\<rparr>;
                            ev = ev @ map (\<lambda>n. Trampoline n (ins_real s n)) logged_names @ noted ie [HooksLive];
                            force = c_forceProxy (h_control (hook_state s))
                        in (True, ev @ (if force then noted ie [Note ''Force-active enabled at install.''] else []) @
                                  [Note ''Exit success.''],
                            if force then in_hooks (\<lambda>h. h\<lparr>h_control := ActivateProxy (h_control h)\<rparr>) s else s))))"

definition Install ::
  "install_env \<Rightarrow> (memory_manager \<times> create_globals) option \<Rightarrow> installer \<Rightarrow> bool \<times> install_event list \<times> installer" where
  "Install ie mm s =
     (case prepare ie mm s of
        (False, ev, s) \<Rightarrow> (False, ev, s)
      | (True, ev, s) \<Rightarrow> (case attach_all ie s of (ok, ev', s) \<Rightarrow> (ok, ev @ ev', s)))"

definition EnableHooks :: "install_env \<Rightarrow> install_event list" where
  "EnableHooks ie = Note ''Detours hooks already live.'' # noted ie [Note ''All hooks enabled.'']"

subsection \<open>Uninstall\<close>

text \<open>The transaction that removes the hooks; a failure is only reported.\<close>

definition detach_all :: "install_env \<Rightarrow> installer \<Rightarrow> install_event list \<times> installer" where
  "detach_all ie s =
     (let ns = pending (ie_telemetry ie) (ins_real s) detach_list
      in if ie_commit ie \<noteq> 0 then (map Detach ns @ [CommitError (ie_commit ie)], s)
         else (map Detach ns,
               s\<lparr>ins_attached := filter (\<lambda>n. n \<notin> set ns) (ins_attached s),
                 ins_real := (\<lambda>n. if n \<in> set ns then ie_pointer ie n else ins_real s n)\<rparr>))"

definition clear_tables :: "hooks \<Rightarrow> hooks" where
  "clear_tables h = h\<lparr>h_csInit := False, h_vat := [], h_diag := []\<rparr>"

definition release_tls :: "installer \<Rightarrow> install_event list \<times> installer" where
  "release_tls s =
     (if ins_tls s \<noteq> TLS_OUT_OF_INDEXES
      then ([Note ''Free TLS index.'', TlsFreed (ins_tls s)], s\<lparr>ins_tls := TLS_OUT_OF_INDEXES\<rparr>) else ([], s))"

definition close_tracker :: "install_env \<Rightarrow> installer \<Rightarrow> install_event list \<times> installer" where
  "close_tracker ie s =
     (case mw_tracker (ins_map s) of
        None \<Rightarrow> ([], s)
      | Some t \<Rightarrow> (noted ie [ViewReport (Report t)], s\<lparr>ins_map := (ins_map s)\<lparr>mw_tracker := None\<rparr>\<rparr>))"

text \<open>The pointer to the manager is cleared; the manager itself stays with its owner.\<close>

definition Uninstall :: "install_env \<Rightarrow> installer \<Rightarrow> install_event list \<times> installer" where
  "Uninstall ie s =
     (let s = in_hooks (\<lambda>h. h\<lparr>h_control := BeginShutdown (h_control h)\<rparr>) s;
          ev0 = Note ''Enter.'' # map (\<lambda>n. Removing n (ins_real s n)) logged_names;
          (ev1, s) = detach_all ie s;
          s = in_hooks clear_tables s;
          (ev2, s) = release_tls s;
          (ev3, s) = close_tracker ie s;
          s = s\<lparr>hm_memManager := h_mm (hook_state s)\<rparr>
      in (ev0 @ ev1 @ ev2 @ ev3 @ [Note ''Exit.''], in_hooks (\<lambda>h. h\<lparr>h_mm := None\<rparr>) s))"

subsection \<open>The hook manager\<close>

definition HookManager_new :: "(memory_manager \<times> create_globals) option \<Rightarrow> installer \<Rightarrow> installer" where
  "HookManager_new mm s = s\<lparr>hm_memManager := mm, m_hooksInstalled := False\<rparr>"

definition InstallAndEnableHooks :: "install_env \<Rightarrow> installer \<Rightarrow> bool \<times> install_event list \<times> installer" where
  "InstallAndEnableHooks ie s =
     (if m_hooksInstalled s then (True, [], s)
      else case Install ie (hm_memManager s) s of
        (False, ev, s) \<Rightarrow> (False, ev @ noted ie [Note ''Failed to install Rtl heap hooks.''], s)
      | (True, ev, s) \<Rightarrow>
          (True, ev @ EnableHooks ie @ noted ie [Note ''All hooks installed and live.''], s\<lparr>m_hooksInstalled := True\<rparr>))"

definition HookManager_Uninstall :: "install_env \<Rightarrow> installer \<Rightarrow> install_event list \<times> installer" where
  "HookManager_Uninstall ie s =
     (if \<not> m_hooksInstalled s then ([Note ''Enter.'', Note ''No hooks installed, exit.''], s)
      else (let s = in_hooks (\<lambda>h. h\<lparr>h_control := BeginShutdown (h_control h)\<rparr>) s;
                (ev, s) = Uninstall ie s
            in ([Note ''Enter.''] @ noted ie [Note ''Uninstalling API hooks...''] @
                [Note ''Begin RTL shutdown/pass-through.'', Note ''Calling WorkingHooks::Uninstall.''] @ ev @ [Note ''Exit.''],
                s\<lparr>m_hooksInstalled := False\<rparr>)))"

definition HookManager_delete :: "install_env \<Rightarrow> installer \<Rightarrow> install_event list \<times> installer" where
  "HookManager_delete ie s =
     (case HookManager_Uninstall ie s of (ev, s) \<Rightarrow> ([Note ''Enter.''] @ ev @ [Note ''Exit.''], s))"

end
