(* ===== verification/MapHookProps.thy ===== *)
theory MapHookProps
  imports MapHooks VirtualHookProps
begin

section \<open>The inventory of views and its counters\<close>

text \<open>
  Runs of native map and unmap calls.  The inventory of \<open>MapViewTypeTracker\<close> and the counters of
  \<open>Analytics\<close> are two books of the same views; they agree after every run.  Then what keeps views
  out of both: the marks, and the Win32 function around the native one.
\<close>

subsection \<open>Runs\<close>

datatype view_call =
    NtMap hook_env view_sys map_req
  | NtUnmap bool hook_env view_sys u32 u32
  | OnThread bool bool

text \<open>\<open>OnThread\<close>: the next calls are made by a thread with these marks.\<close>

fun view_do :: "view_call \<Rightarrow> map_state \<Rightarrow> (map_event list \<times> map_state) option" where
  "view_do (NtMap env vw req) w = map_option snd (Hooked_NtMapViewOfSection env vw req w)"
| "view_do (NtUnmap tel env vw proc a) w = Some (snd (Hooked_NtUnmapViewOfSection tel env vw proc a w))"
| "view_do (OnThread a i) w = Some ([], in_v (core (\<lambda>h. h\<lparr>h_tlActive := a, h_inHook := i\<rparr>)) w)"

fun view_run :: "view_call list \<Rightarrow> map_state \<Rightarrow> (map_event list \<times> map_state) option" where
  "view_run [] w = Some ([], w)"
| "view_run (c # cs) w =
     (case view_do c w of
        None \<Rightarrow> None
      | Some (ev, w) \<Rightarrow> (case view_run cs w of None \<Rightarrow> None | Some (ev', w) \<Rightarrow> Some (ev @ ev', w)))"

text \<open>What a run adds to a counter.\<close>

fun amount :: "string \<Rightarrow> map_event \<Rightarrow> u64" where
  "amount n (Virt (Hook (Tell (Counter m x)))) = (if m = n then x else 0)"
| "amount n _ = 0"

definition counted :: "string \<Rightarrow> map_event list \<Rightarrow> u64" where
  "counted n ev = sum_list (map (amount n) ev)"

lemma counted_simps [simp]:
  "counted n [] = 0"
  "counted n (e # ev) = amount n e + counted n ev"
  "counted n (ev @ ev') = counted n ev + counted n ev'"
  by (simp_all add: counted_def)

lemma view_counted_tally [simp]:
  "counted n (mtally env m x) = (if me_analytics (he_mm env) \<and> m = n then x else 0)"
  by (simp add: tally_def count_def)

lemma counted_tally_comp [simp]:
  "counted n (map (Virt \<circ> Hook) (tally env m x)) = (if me_analytics (he_mm env) \<and> m = n then x else 0)"
  by (simp add: tally_def count_def)

text \<open>Each figure of the inventory with the counter of the same views.\<close>

definition view_books :: "(string \<times> (map_view \<Rightarrow> u64)) list" where
  "view_books =
     [(''MapView_Total'', total_views), (''MapView_Anonymous'', m_cntAnonymous), (''MapView_ImageSection'', m_cntImage),
      (''MapView_FileMapped'', \<lambda>t. m_cntOtherFile t + m_cntNoName t + m_cntPkgNoDbpf t + m_cntPkgDbpf t),
      (''MapView_FileMapped_Other'', m_cntOtherFile), (''MapView_FileMapped_NoName'', m_cntNoName),
      (''MapView_Package'', \<lambda>t. m_cntPkgNoDbpf t + m_cntPkgDbpf t),
      (''MapView_FileMapped_NoName_Bytes'', m_bytesNoName),
      (''MapView_PackageBytes'', \<lambda>t. m_bytesPkgNoDbpf t + m_bytesPkgDbpf t)]"

definition books_agree :: "map_view option \<Rightarrow> map_event list \<Rightarrow> map_view option \<Rightarrow> bool" where
  "books_agree t ev t' \<longleftrightarrow>
     (case (t, t') of
        (Some t, Some t') \<Rightarrow> list_all (\<lambda>(n, f). f t' = f t + counted n ev) view_books
      | _ \<Rightarrow> t = None \<and> t' = None)"

lemma books_agree_trans:
  "books_agree t ev t' \<Longrightarrow> books_agree t' ev' t'' \<Longrightarrow> books_agree t (ev @ ev') t''"
  by (auto simp: books_agree_def list_all_iff split: option.splits; fastforce)

definition unbooked :: "map_event list \<Rightarrow> bool" where
  "unbooked ev \<longleftrightarrow> list_all (\<lambda>(n, f). counted n ev = 0) view_books"

lemma books_agree_unbooked: "unbooked ev \<Longrightarrow> books_agree t ev t"
  by (auto simp: books_agree_def unbooked_def list_all_iff split: option.splits)

lemma amount_logged [simp]: "counted n (logged env ev) = (if me_logger (he_mm env) then counted n ev else 0)"
  by (simp add: logged_def)

lemma counted_catalog [simp]: "counted n (catalog b ts) = 0"
  by (induction ts) (simp_all add: catalog_def)

lemma counted_vtallies:
  "n \<notin> fst ` set incs \<Longrightarrow> counted n (map Virt (vtallies env incs)) = 0"
  by (induction incs) (auto simp: vtallies_def)

lemma probe_view_keeps:
  assumes "probe_view env vw ts a sz w = (ev, w')"
  shows "unbooked ev" "mw_tracker w' = mw_tracker w" "mw_v w' = mw_v w"
proof -
  have inc: "fst ` set (fst (snd (ProbeScriptAssembly ts d r))) \<subseteq> {''Script_Packages'', ''Script_Resources'', ''Script_Xml_Resources''}"
    for d r by (auto simp: ProbeScriptAssembly_def Let_def split: prod.splits if_splits)
  obtain line incs rep where p:
    "ProbeScriptAssembly ts (name_bytes (case vw_name vw a of None \<Rightarrow> [] | Some n \<Rightarrow> n)) (mw_reported w) = (line, incs, rep)"
    by (cases "ProbeScriptAssembly ts (name_bytes (case vw_name vw a of None \<Rightarrow> [] | Some n \<Rightarrow> n)) (mw_reported w)") auto
  from p inc have i: "fst ` set incs \<subseteq> {''Script_Packages'', ''Script_Resources'', ''Script_Xml_Resources''}"
    by (metis fst_conv snd_conv)
  have c: "counted n (map Virt (vtallies env incs)) = 0"
    if "n \<notin> {''Script_Packages'', ''Script_Resources'', ''Script_Xml_Resources''}" for n
    by (rule counted_vtallies) (use that i in blast)
  from assms p show "mw_tracker w' = mw_tracker w" "mw_v w' = mw_v w"
    by (auto simp: probe_view_def Let_def)
  from assms p have e: "ev = (case line of None \<Rightarrow> [] | Some (b, s) \<Rightarrow>
      logged env [ScriptHighway (if (case vw_name vw a of None \<Rightarrow> [] | Some n \<Rightarrow> n) = [] then ''<unnamed>''
        else base_name (case vw_name vw a of None \<Rightarrow> [] | Some n \<Rightarrow> n)) a (sz div 1024) s (he_ra env)]) @
      map Virt (vtallies env incs)"
    by (simp add: probe_view_def Let_def)
  show "unbooked ev"
    unfolding e by (simp add: unbooked_def view_books_def c split: option.split prod.split)
qed

text \<open>The inventory moves by one view of one kind.\<close>

lemma RecordFileName_figures [simp]:
  "m_cntAnonymous (RecordFileName n b t) = m_cntAnonymous t" "m_cntImage (RecordFileName n b t) = m_cntImage t"
  "m_cntOtherFile (RecordFileName n b t) = m_cntOtherFile t" "m_cntNoName (RecordFileName n b t) = m_cntNoName t"
  "m_cntPkgNoDbpf (RecordFileName n b t) = m_cntPkgNoDbpf t" "m_cntPkgDbpf (RecordFileName n b t) = m_cntPkgDbpf t"
  "m_bytesNoName (RecordFileName n b t) = m_bytesNoName t"
  "m_bytesPkgNoDbpf (RecordFileName n b t) = m_bytesPkgNoDbpf t" "m_bytesPkgDbpf (RecordFileName n b t) = m_bytesPkgDbpf t"
  by (simp_all add: RecordFileName_def split: option.split)

lemma RecordDbpfTypes_figures [simp]: "(n, f) \<in> set view_books \<Longrightarrow> f (RecordDbpfTypes ts t) = f t"
  by (auto simp: view_books_def RecordDbpfTypes_def total_views_def)

lemmas booked = books_agree_def view_books_def RecordView_def total_views_def track_def

lemma unfiled_view_books:
  assumes "me_analytics (he_mm env)" "unfiled_view env img sz protect w = (ev, w')"
  shows "books_agree (mw_tracker w) ev (mw_tracker w')"
  using assms by (auto simp: unfiled_view_def booked split: option.split)

lemma nameless_view_books:
  assumes "me_analytics (he_mm env)" "nameless_view env vw sz off protect w = (ev, w')"
  shows "books_agree (mw_tracker w) (file_counters env [] pkg @ ev) (mw_tracker w')"
  using assms by (auto simp: nameless_view_def file_counters_def booked split: option.split)

lemma other_view_books:
  assumes "me_analytics (he_mm env)" "other_view env b sz off w = (ev, w')" "devPath \<noteq> []"
  shows "books_agree (mw_tracker w) (file_counters env devPath False @ ev) (mw_tracker w')"
  using assms by (auto simp: other_view_def file_counters_def booked split: option.split)

lemma package_kind_list:
  "list_all (\<lambda>(n, f). f (RecordView FileMappedDbpf b x False t)
      = f t + (if n = ''MapView_PackageBytes'' then x
               else if n \<in> {''MapView_Total'', ''MapView_FileMapped'', ''MapView_Package''} then 1 else 0)) view_books"
  "list_all (\<lambda>(n, f). f (RecordView FileMappedPackage b x False t)
      = f t + (if n = ''MapView_PackageBytes'' then x
               else if n \<in> {''MapView_Total'', ''MapView_FileMapped'', ''MapView_Package''} then 1 else 0)) view_books"
  unfolding view_books_def RecordView_def by (simp_all add: total_views_def)

lemma package_kind_figures:
  assumes "(n, f) \<in> set view_books" "k = FileMappedDbpf \<or> k = FileMappedPackage"
  shows "f (RecordView k b x False t)
      = f t + (if n = ''MapView_PackageBytes'' then x
               else if n \<in> {''MapView_Total'', ''MapView_FileMapped'', ''MapView_Package''} then 1 else 0)"
proof -
  note l = package_kind_list [of b x t, unfolded list_all_iff, THEN bspec, OF assms(1), unfolded prod.case]
  show ?thesis using assms(2) by (elim disjE) (simp_all only: l)
qed

lemma package_view_books:
  assumes "me_analytics (he_mm env)" "package_view env vw base b sz off w = Some (ev, w')" "devPath \<noteq> []"
  shows "books_agree (mw_tracker w) (file_counters env devPath True @ ev) (mw_tracker w')" "mw_v w' = mw_v w"
proof -
  obtain ts where ts: "ScanDbpfIndex (vw_bytes vw base) sz kMaxTypeStats = Some ts"
    using assms(2) by (auto simp: package_view_def split: option.splits)
  define w1 where "w1 = (if length ts > 0 then w\<lparr>s_lastDbpfMapTickMs := vw_tick64 vw\<rparr> else w)"
  obtain ev1 w2 where pr: "(if length ts > 0 then probe_view env vw ts base sz w1 else ([], w1)) = (ev1, w2)"
    by (cases "if length ts > 0 then probe_view env vw ts base sz w1 else ([], w1)") auto
  have k: "unbooked ev1" "mw_tracker w2 = mw_tracker w" "mw_v w2 = mw_v w"
    using pr probe_view_keeps [of env vw ts base sz w1 ev1 w2] by (auto simp: w1_def unbooked_def view_books_def split: if_splits)
  have out: "ev = ev1 @ mtally env ''MapView_PackageBytes'' (ucast sz) @
        logged env [PackageLine b (sz div 1024) (sint off) (length ts > 0) (length ts)] @
        (if length ts > 0 then logged env (catalog b ts) else [])"
    "mw_tracker w' = map_option (\<lambda>t. (if length ts > 0 then RecordDbpfTypes ts else id)
       (RecordView (if length ts > 0 then FileMappedDbpf else FileMappedPackage) b (ucast sz) False t)) (mw_tracker w)"
    "mw_v w' = mw_v w"
    using assms(2) pr k by (auto simp: package_view_def ts Let_def w1_def track_def option.map_comp comp_def split: if_splits)
  show "mw_v w' = mw_v w" by (rule out(3))
  have z: "counted n ev1 = 0" if "(n, f) \<in> set view_books" for n f
    using k(1) that by (auto simp: unbooked_def list_all_iff)
  have fig: "f ((if length ts > 0 then RecordDbpfTypes ts else id) t) = f t" if "(n, f) \<in> set view_books" for n f t
    by (cases "length ts > 0") (use that in simp_all)
  show "books_agree (mw_tracker w) (file_counters env devPath True @ ev) (mw_tracker w')"
  proof (cases "mw_tracker w")
    case (Some t)
    define k where "k = (if length ts > 0 then FileMappedDbpf else FileMappedPackage)"
    have k: "k = FileMappedDbpf \<or> k = FileMappedPackage" by (simp add: k_def)
    have c: "counted n (file_counters env devPath True @ ev)
        = (if n = ''MapView_PackageBytes'' then ucast sz
           else if n \<in> {''MapView_Total'', ''MapView_FileMapped'', ''MapView_Package''} then 1 else 0)"
      if nf: "(n, f) \<in> set view_books" for n f
      using assms(1,3) z [OF nf] by (simp add: out(1) file_counters_def)
    have "f ((if length ts > 0 then RecordDbpfTypes ts else id) (RecordView k b (ucast sz) False t))
            = f t + counted n (file_counters env devPath True @ ev)" if nf: "(n, f) \<in> set view_books" for n f
      unfolding fig [OF nf] c [OF nf] by (rule package_kind_figures [OF nf k])
    then show ?thesis unfolding books_agree_def Some out(2) k_def [symmetric] list_all_iff option.map option.case prod.case
      by blast
  qed (simp add: books_agree_def out(2))
qed

lemma filed_view_books:
  assumes "me_analytics (he_mm env)" "filed_view env vw base sz off protect w = Some (ev, w')"
  shows "books_agree (mw_tracker w) ev (mw_tracker w')"
proof -
  define d where "d = (case vw_name vw base of None \<Rightarrow> [] | Some n \<Rightarrow> n)"
  obtain f where f: "GetMappedFullPath vw base 520 = Some f"
    using assms(2) by (auto simp: filed_view_def Let_def split: option.splits)
  define pk where "pk = (IsPackageExtension (take 259 (base_name d)) \<or> IsPackageExtension f)"
  obtain ev0 where e: "ev = file_counters env d pk @ ev0"
    and b: "(if d = [] then Some (nameless_view env vw sz off protect w)
             else if \<not> pk then Some (other_view env (take 259 (base_name d)) sz off w)
             else package_view env vw base (take 259 (base_name d)) sz off w) = Some (ev0, w')"
    using assms(2) unfolding filed_view_def d_def [symmetric] f Let_def option.case pk_def [symmetric]
    by (auto split: option.splits)
  show ?thesis
  proof (cases "d = []")
    case True
    then show ?thesis using b nameless_view_books [OF assms(1)] by (simp add: e)
  next
    case False
    then show ?thesis using b other_view_books [OF assms(1)] package_view_books(1) [OF assms(1)] False
      by (cases pk) (auto simp: e)
  qed
qed

lemma books_agree_mark [simp]: "books_agree t (RealNtMap r # ev) t' = books_agree t ev t'"
  by (auto simp: books_agree_def list_all_iff split: option.split)

lemma classify_view_books:
  assumes "me_analytics (he_mm env)" "classify_view env vw req r w = Some (ev, w')"
  shows "books_agree (mw_tracker w) ev (mw_tracker w')"
proof -
  have "books_agree (mw_tracker w) [] (mw_tracker w)" by (rule books_agree_unbooked) (simp add: unbooked_def view_books_def)
  then show ?thesis
    using assms(2) unfiled_view_books [OF assms(1)] filed_view_books [OF assms(1)]
    by (auto simp: classify_view_def split: if_splits option.splits)
qed

lemma Hooked_NtMap_books:
  assumes "me_analytics (he_mm env)" "Hooked_NtMapViewOfSection env vw req w = Some (r, ev, w')"
  shows "books_agree (mw_tracker w) ev (mw_tracker w')"
proof (cases "passes_through env (hooks_of w)")
  case True
  then show ?thesis using assms(2) books_agree_unbooked [of "[RealNtMap req]"]
    by (auto simp: Hooked_NtMapViewOfSection_def Let_def unbooked_def view_books_def)
next
  case False
  then obtain ev0 w0 where c: "classify_view env vw req (vw_nt_map vw req) (in_v (core enter_nt) w) = Some (ev0, w0)"
    "ev = RealNtMap req # ev0" "mw_tracker w' = mw_tracker w0"
    using assms(2) by (auto simp: Hooked_NtMapViewOfSection_def Let_def split: option.splits)
  then show ?thesis using classify_view_books [OF assms(1) c(1)] by simp
qed

lemma map_Virt_books: "(\<And>n f. (n, f) \<in> set view_books \<Longrightarrow> counted n (map g ev) = 0) \<Longrightarrow> unbooked (map g ev)"
  by (auto simp: unbooked_def list_all_iff)

lemma free_on_unbooked: "free_on env a h = (b, ev, h') \<Longrightarrow> unbooked (map (Virt \<circ> Hook) ev)"
  by (auto simp: free_on_def FreeProxyAllocation_def RecordProxyBandPair_def count_def unbooked_def view_books_def
           split: option.splits prod.splits if_splits)

lemma unmap_report_unbooked: "unbooked (unmap_report env vw a)"
  by (auto simp: unmap_report_def unbooked_def view_books_def Let_def split: option.split)

lemma Hooked_NtUnmap_books:
  assumes "Hooked_NtUnmapViewOfSection tel env vw proc a w = (r, ev, w')"
  shows "unbooked ev" "mw_tracker w' = mw_tracker w"
proof -
  show "mw_tracker w' = mw_tracker w"
    using assms by (auto simp: Hooked_NtUnmapViewOfSection_def split: if_splits prod.splits)
  have z: "counted n e = 0" if "unbooked e" "(n, f) \<in> set view_books" for n f e
    using that by (auto simp: unbooked_def list_all_iff)
  have n: "n \<notin> {''UnmapView_ProxyFreed'', ''UnmapView_Total''}" if "(n, f) \<in> set view_books" for n f
    using that by (auto simp: view_books_def)
  show "unbooked ev"
    unfolding unbooked_def list_all_iff
    using assms z [OF unmap_report_unbooked] z [OF free_on_unbooked] n
    by (fastforce simp: Hooked_NtUnmapViewOfSection_def split: if_splits prod.splits)
qed

subsection \<open>The two books\<close>

fun reports :: "view_call \<Rightarrow> bool" where
  "reports (NtMap env vw req) = me_analytics (he_mm env)"
| "reports _ = True"

lemma view_do_books:
  assumes "view_do c w = Some (ev, w')" "reports c"
  shows "books_agree (mw_tracker w) ev (mw_tracker w')"
proof (cases c)
  case (NtMap env vw req)
  then show ?thesis using assms Hooked_NtMap_books by fastforce
next
  case (NtUnmap tel env vw proc a)
  then show ?thesis using assms(1) Hooked_NtUnmap_books books_agree_unbooked
    by (metis option.inject prod.collapse view_do.simps(2))
next
  case (OnThread a i)
  then show ?thesis using assms(1) books_agree_unbooked [of "[]"] by (auto simp: unbooked_def view_books_def)
qed

lemma view_run_books:
  "view_run cs w = Some (ev, w') \<Longrightarrow> list_all reports cs \<Longrightarrow> books_agree (mw_tracker w) ev (mw_tracker w')"
proof (induction cs arbitrary: w ev)
  case Nil
  then show ?case using books_agree_unbooked [of "[]"] by (simp add: unbooked_def view_books_def)
next
  case (Cons c cs)
  then obtain e1 w1 e2 where s: "view_do c w = Some (e1, w1)" "view_run cs w1 = Some (e2, w')" "ev = e1 @ e2"
    by (auto split: option.splits)
  show ?case
    unfolding s(3) by (rule books_agree_trans [OF view_do_books [OF s(1)] Cons.IH [OF s(2)]]) (use Cons.prems in simp_all)
qed

text \<open>C28: The inventory of views and the analytics counters agree: after any run of native map and unmap
  calls, of any threads, that does not end the process, each figure of the inventory has grown by
  what the run added to the counter of the same views, modulo 2^64.
\<close>

theorem inventory_matches_counters:
  assumes "view_run cs w = Some (ev, w')" "list_all reports cs" "mw_tracker w = Some t"
  shows "\<exists>t'. mw_tracker w' = Some t' \<and>
           total_views t' = total_views t + counted ''MapView_Total'' ev \<and>
           m_cntAnonymous t' = m_cntAnonymous t + counted ''MapView_Anonymous'' ev \<and>
           m_cntImage t' = m_cntImage t + counted ''MapView_ImageSection'' ev \<and>
           m_cntOtherFile t' = m_cntOtherFile t + counted ''MapView_FileMapped_Other'' ev \<and>
           m_cntNoName t' = m_cntNoName t + counted ''MapView_FileMapped_NoName'' ev \<and>
           m_bytesNoName t' = m_bytesNoName t + counted ''MapView_FileMapped_NoName_Bytes'' ev \<and>
           m_cntPkgNoDbpf t' + m_cntPkgDbpf t' = m_cntPkgNoDbpf t + m_cntPkgDbpf t + counted ''MapView_Package'' ev \<and>
           m_bytesPkgNoDbpf t' + m_bytesPkgDbpf t' =
             m_bytesPkgNoDbpf t + m_bytesPkgDbpf t + counted ''MapView_PackageBytes'' ev"
  using view_run_books [OF assms(1,2)] assms(3)
  by (auto simp: books_agree_def view_books_def split: option.splits)

subsection \<open>Views the books miss\<close>

text \<open>
  The system's \<open>MapViewOfFile\<close> does its work by one native call, which is hooked: its steps on the
  state, and the events, are those of the hook.
\<close>

definition through_native ::
  "hook_env \<Rightarrow> view_sys \<Rightarrow> (map_state \<Rightarrow> u32 \<times> map_event list \<times> map_state) \<Rightarrow> bool" where
  "through_native env vw f \<longleftrightarrow>
     (\<forall>w. \<exists>req. case Hooked_NtMapViewOfSection env vw req w of
                 None \<Rightarrow> True
               | Some (r, ev, w') \<Rightarrow> f w = (if NT_SUCCESS (nv_status r) then nv_base r else 0, ev, w'))"

lemma passes_in_scope: "passes_through env (enter_scope h)"
  by (simp add: passes_through_def enter_scope_def)

lemma through_nativeD:
  assumes "through_native env vw f" "passes_through env (hooks_of w)"
  shows "\<exists>req p. f w = (p, [RealNtMap req], w)"
proof -
  obtain req where "case Hooked_NtMapViewOfSection env vw req w of
                 None \<Rightarrow> True
               | Some (r, ev, w') \<Rightarrow> f w = (if NT_SUCCESS (nv_status r) then nv_base r else 0, ev, w')"
    using assms(1) unfolding through_native_def by blast
  moreover have "Hooked_NtMapViewOfSection env vw req w = Some (vw_nt_map vw req, [RealNtMap req], w)"
    using assms(2) by (simp add: Hooked_NtMapViewOfSection_def Let_def)
  ultimately have "f w = (if NT_SUCCESS (nv_status (vw_nt_map vw req)) then nv_base (vw_nt_map vw req) else 0, [RealNtMap req], w)"
    by (simp only: option.case prod.case)
  then show ?thesis by blast
qed

lemma unbooked_Nil: "unbooked []"
  by (simp add: unbooked_def view_books_def)

lemma unbooked_append: "unbooked a \<Longrightarrow> unbooked b \<Longrightarrow> unbooked (a @ b)"
  unfolding unbooked_def list_all_iff by fastforce

lemma emit_api_unbooked: "emit_api env vw name args res ok v = (ev, v') \<Longrightarrow> unbooked ev"
  by (auto simp: emit_api_def unbooked_def view_books_def split: prod.splits option.splits)

lemma whole_map_keeps:
  assumes "whole_map env vw p w = (r, ev, w')"
  shows "unbooked ev" "mw_tracker w' = mw_tracker w"
proof -
  have "(ev = [] \<and> w' = w) \<or> (\<exists>ts n. probe_view env vw ts p n w = (ev, w'))"
    using assms by (auto simp: whole_map_def Let_def split: if_splits prod.splits)
  then show "unbooked ev" "mw_tracker w' = mw_tracker w"
    using probe_view_keeps unbooked_Nil by blast+
qed

lemma tick_whole_map: "whole_map env vw p w = (r, ev, w') \<Longrightarrow> s_lastDbpfMapTickMs w' = s_lastDbpfMapTickMs w"
  by (auto simp: whole_map_def probe_view_def Let_def split: if_splits prod.splits)

text \<open>C29: A file that is mapped with \<open>MapViewOfFile\<close> is not in the books: the hook of that function has
  marked the thread, so the hook of the native function it is built on passes through.  No counter of
  a view moves, the inventory stays, and the time of the last package map stays as well.
\<close>

theorem win32_views_uncounted:
  assumes "through_native env vw f" "\<not> passes_through env (hooks_of w)"
    "Hooked_MapViewOfFile env vw (Some f) hMap access hi lo sz w = (p, ev, w')"
  shows "counted ''MapView_Total'' ev = 0 \<and> counted ''MapView_Package'' ev = 0 \<and>
         mw_tracker w' = mw_tracker w \<and> s_lastDbpfMapTickMs w' = s_lastDbpfMapTickMs w"
proof -
  let ?w = "in_v (core enter_scope) w"
  obtain req q where f: "f ?w = (q, [RealNtMap req], ?w)"
    using through_nativeD [OF assms(1), of ?w] by (auto simp: passes_in_scope)
  obtain ev1 v where e: "emit_api env vw ''MapViewOfFile'' [ucast hMap, ucast access, pack hi lo, ucast sz] (ucast q) (q \<noteq> 0) (mw_v ?w) = (ev1, v)"
    by (metis prod.exhaust)
  obtain pr ev2 w2 where m: "(if q \<noteq> 0 \<and> sz = 0 then whole_map env vw q (?w\<lparr>mw_v := v\<rparr>) else (None, [], ?w\<lparr>mw_v := v\<rparr>)) = (pr, ev2, w2)"
    by (metis prod_cases3)
  have k: "unbooked ev2" "mw_tracker w2 = mw_tracker w" "s_lastDbpfMapTickMs w2 = s_lastDbpfMapTickMs w"
    using m whole_map_keeps tick_whole_map unbooked_Nil by (fastforce split: if_splits)+
  obtain line where out: "ev = [RealNtMap req] @ ev1 @ (line @ ev2) @ logged env [MapLine hMap access hi lo sz None p]"
    "w' = in_v (core leave_scope) w2" "unbooked line"
    using assms(2,3) e m unfolding Hooked_MapViewOfFile_def map_file_def
    by (cases pr) (auto simp: f unbooked_def view_books_def)
  have u: "unbooked ev" unfolding out(1)
    by (intro unbooked_append emit_api_unbooked [OF e] k(1) out(3)) (simp_all add: unbooked_def view_books_def)
  then show ?thesis using k out(2) by (simp add: unbooked_def view_books_def)
qed

text \<open>C30: The native hook scans a package without a guard: when the index of a package lies behind the
  readable part of its view, the map call ends the process, although the Win32 hooks turn the same
  fault into an empty result.
\<close>

theorem truncated_package_ends_process:
  assumes "\<not> passes_through env (hooks_of w)" "own_view vw req (vw_nt_map vw req)"
    "vw_query vw (nv_base (vw_nt_map vw req)) = Some (MEM_MAPPED, n)"
    "vw_name vw (nv_base (vw_nt_map vw req)) = Some path" "IsPackageExtension (take 259 (base_name path))"
    "ScanDbpfIndex (vw_bytes vw (nv_base (vw_nt_map vw req))) (nv_size (vw_nt_map vw req)) kMaxTypeStats = None"
  shows "Hooked_NtMapViewOfSection env vw req w = None \<and>
         SafeScanDbpfIndex (vw_bytes vw (nv_base (vw_nt_map vw req))) (nv_size (vw_nt_map vw req)) kMaxTypeStats = []"
proof -
  have "path \<noteq> []" using assms(5) by (auto simp: base_name_def IsPackageExtension_def extension_def)
  then have "filed_view env vw (nv_base (vw_nt_map vw req)) (nv_size (vw_nt_map vw req)) off protect v = None" for off protect v
    using assms(4,5,6) by (auto simp: filed_view_def package_view_def Let_def split: option.split)
  then show ?thesis
    using assms(1,2,3,6) by (simp add: Hooked_NtMapViewOfSection_def classify_view_def Let_def SafeScanDbpfIndex_def)
qed

subsection \<open>A small system\<close>

definition demo_path :: string where "demo_path = [CHR 0x5C] @ ''Device'' @ [CHR 0x5C] @ ''a.package''"

definition demo_views :: "u32 \<Rightarrow> u8 list \<Rightarrow> view_sys" where
  "demo_views type bytes =
     \<lparr>vw_nt_map = \<lambda>_. \<lparr>nv_status = 0, nv_base = 0x5000000, nv_size = 0x10000, nv_offset = 0\<rparr>, vw_nt_unmap = \<lambda>_ _. 0,
      vw_query = \<lambda>_. Some (type, 0x10000), vw_name = \<lambda>_. Some demo_path, vw_bytes = \<lambda>_. bytes, vw_tick64 = 5000,
      vw_drives = [''C:'' @ [CHR 0x5C]], vw_device = \<lambda>_. Some ([CHR 0x5C] @ ''Device''), vw_last_error = 0,
      vw_this_process = 0xFFFFFFFF\<rparr>"

definition demo_req :: map_req where
  "demo_req = \<lparr>mr_section = 8, mr_process = 0xFFFFFFFF, mr_base = Some 0, mr_zero = 0, mr_commit = 0, mr_offset = None,
     mr_size = Some 0, mr_inherit = 2, mr_alloc = 0, mr_protect = 2\<rparr>"

definition demo_map :: map_state where
  "demo_map = \<lparr>mw_v = demo_v demo_mm proxy_heaps_init, mw_tracker = Some map_view_init, s_lastDbpfMapTickMs = 0,
     mw_reported = \<lambda>_. 0\<rparr>"

text \<open>A package whose index is said to start behind the first page.\<close>

definition truncated_package :: "u8 list" where
  "truncated_package = [0x44, 0x42, 0x50, 0x46, 2, 0, 0, 0] @ replicate 28 0 @ [1, 0, 0, 0] @ replicate 20 0 @ [0, 16, 0, 0]"

lemmas view_eval = Hooked_NtMapViewOfSection_def classify_view_def own_view_def NT_SUCCESS_def filed_view_def
  unfiled_view_def package_view_def GetMappedFullPath_def on_device_def IsPackageExtension_def extension_def base_name_def
  stricmp_eq_def lower_def demo_views_def demo_req_def demo_path_def demo_map_def enter_nt_def leave_nt_def
  enter_scope_def track_def MEM_MAPPED_def MEM_IMAGE_def ScanDbpfIndex_def rd32_def sizeof_DbpfHeaderMV_def
  hdr_majorVersion_def kMaxTypeStats_def

lemma demo_passes: "\<not> passes_through (demo_env True) (hooks_of demo_map)"
  by (simp add: passes_through_def demo_env_def demo_map_def demo_hooks_def IsShuttingDown_def)

lemma inventory_matches_counters_witness:
  "\<exists>ev w' t'. view_run [NtMap (demo_env True) (demo_views MEM_MAPPED (replicate 8 0)) demo_req, OnThread False False,
        NtMap (demo_env True) (demo_views MEM_IMAGE []) demo_req] demo_map = Some (ev, w') \<and>
     mw_tracker w' = Some t' \<and> total_views t' = counted ''MapView_Total'' ev \<and> counted ''MapView_Total'' ev = 2 \<and>
     m_cntImage t' = counted ''MapView_ImageSection'' ev \<and> counted ''MapView_Package'' ev = 1"
proof -
  let ?cs = "[NtMap (demo_env True) (demo_views MEM_MAPPED (replicate 8 0)) demo_req, OnThread False False,
        NtMap (demo_env True) (demo_views MEM_IMAGE []) demo_req]"
  have an: "me_analytics (he_mm (demo_env True))" by (simp add: demo_env_def)
  have "\<exists>ev w'. view_run ?cs demo_map = Some (ev, w') \<and> counted ''MapView_Total'' ev = 2 \<and> counted ''MapView_Package'' ev = 1"
    by (simp add: view_eval Let_def passes_through_def demo_v_def demo_hooks_def IsShuttingDown_def an file_counters_def
        demo_env_def)
  then obtain ev w' where r: "view_run ?cs demo_map = Some (ev, w')" "counted ''MapView_Total'' ev = 2"
    "counted ''MapView_Package'' ev = 1" by blast
  have t: "mw_tracker demo_map = Some map_view_init" by (simp add: demo_map_def)
  have c: "list_all reports ?cs" using an by simp
  show ?thesis
    using inventory_matches_counters [OF r(1) c t] r by (auto simp: map_view_init_def total_views_def)
qed

definition demo_kernel :: "hook_env \<Rightarrow> view_sys \<Rightarrow> map_state \<Rightarrow> u32 \<times> map_event list \<times> map_state" where
  "demo_kernel env vw w =
     (case Hooked_NtMapViewOfSection env vw demo_req w of
        None \<Rightarrow> (0, [], w)
      | Some (r, ev, w') \<Rightarrow> (if NT_SUCCESS (nv_status r) then nv_base r else 0, ev, w'))"

lemma demo_kernel_native: "through_native env vw (demo_kernel env vw)"
  unfolding through_native_def
proof (intro allI exI [of _ demo_req])
  show "case Hooked_NtMapViewOfSection env vw demo_req w of None \<Rightarrow> True
        | Some (r, ev, w') \<Rightarrow> demo_kernel env vw w = (if NT_SUCCESS (nv_status r) then nv_base r else 0, ev, w')" for w
    by (cases "Hooked_NtMapViewOfSection env vw demo_req w") (simp_all add: demo_kernel_def split: prod.split)
qed

lemma win32_views_uncounted_witness:
  "\<exists>p ev w'. Hooked_MapViewOfFile (demo_env True) (demo_views MEM_MAPPED (replicate 8 0))
       (Some (demo_kernel (demo_env True) (demo_views MEM_MAPPED (replicate 8 0)))) 8 4 0 0 64 demo_map = (p, ev, w') \<and>
     counted ''MapView_Package'' ev = 0 \<and> mw_tracker w' = Some map_view_init \<and>
     (\<exists>r ev2 w2. Hooked_NtMapViewOfSection (demo_env True) (demo_views MEM_MAPPED (replicate 8 0)) demo_req demo_map =
        Some (r, ev2, w2) \<and> counted ''MapView_Package'' ev2 = 1)"
proof -
  let ?vw = "demo_views MEM_MAPPED (replicate 8 0)"
  obtain p ev w' where r: "Hooked_MapViewOfFile (demo_env True) ?vw (Some (demo_kernel (demo_env True) ?vw)) 8 4 0 0 64 demo_map = (p, ev, w')"
    by (metis prod_cases3)
  have n: "\<exists>r ev2 w2. Hooked_NtMapViewOfSection (demo_env True) ?vw demo_req demo_map = Some (r, ev2, w2) \<and>
      counted ''MapView_Package'' ev2 = 1"
    by (simp add: view_eval Let_def passes_through_def demo_v_def demo_hooks_def IsShuttingDown_def file_counters_def
        demo_env_def)
  have "mw_tracker demo_map = Some map_view_init" by (simp add: demo_map_def)
  then have "counted ''MapView_Package'' ev = 0 \<and> mw_tracker w' = Some map_view_init"
    using win32_views_uncounted [OF demo_kernel_native demo_passes r] by simp
  then show ?thesis using r n by blast
qed

lemma truncated_package_ends_process_witness:
  "Hooked_NtMapViewOfSection (demo_env True) (demo_views MEM_MAPPED truncated_package) demo_req demo_map = None"
proof -
  let ?vw = "demo_views MEM_MAPPED truncated_package"
  have "own_view ?vw demo_req (vw_nt_map ?vw demo_req)" "vw_query ?vw (nv_base (vw_nt_map ?vw demo_req)) = Some (MEM_MAPPED, 0x10000)"
    "vw_name ?vw (nv_base (vw_nt_map ?vw demo_req)) = Some demo_path" "IsPackageExtension (take 259 (base_name demo_path))"
    by (simp_all add: view_eval)
  moreover have "ScanDbpfIndex truncated_package 0x10000 128 = None"
    by (simp add: ScanDbpfIndex_def rd32_def truncated_package_def scan_count_def sizeof_DbpfHeaderMV_def hdr_majorVersion_def
        hdr_indexOffset_def hdr_indexEntryCount_def sizeof_DbpfIndexEntryMV_def nth_append nth_Cons' ent_typeId_def)
  then have "ScanDbpfIndex (vw_bytes ?vw (nv_base (vw_nt_map ?vw demo_req))) (nv_size (vw_nt_map ?vw demo_req)) kMaxTypeStats = None"
    by (simp add: demo_views_def kMaxTypeStats_def)
  ultimately show ?thesis
    using truncated_package_ends_process [OF demo_passes] by blast
qed

end
