(* ===== verification/HookInstallProps.thy ===== *)
theory HookInstallProps
  imports HookInstall MapHookProps
begin

section \<open>Installation and removal\<close>

text \<open>
  Removal is the counterpart of a successful installation, in both builds and whatever the hooks did
  in between; a failed installation is not undone.
\<close>

subsection \<open>What is attached is detached\<close>

lemma lists_agree: "detach_list = attach_list"
  unfolding detach_list_def attach_list_def by (rule refl)

lemma attach_names_distinct: "distinct (map hook_name attach_list)"
  unfolding attach_list_def by simp

lemma attach_all_ok:
  assumes "attach_all ie s = (True, ev, s')"
  shows "ie_commit ie = 0"
    "ins_attached s' = ins_attached s @ pending (ie_telemetry ie) (resolve ie (ins_real s)) attach_list"
    "ins_real s' = (\<lambda>n. if n \<in> set (pending (ie_telemetry ie) (resolve ie (ins_real s)) attach_list) then ie_pointer ie n
                       else resolve ie (ins_real s) n)"
  using assms by (auto simp: attach_all_def Let_def split: if_splits)

lemma prepare_fields:
  assumes "prepare ie mm s = (b, ev, s')"
  shows "ins_attached s' = ins_attached s" "ins_real s' = ins_real s" "m_hooksInstalled s' = m_hooksInstalled s"
    "ins_tls s' = ie_tlsAlloc ie"
  using assms by (auto simp: prepare_def Let_def split: if_splits)

lemma detach_after_attach:
  assumes "attach_all ie s = (True, ev, s1)" "ins_attached s2 = ins_attached s1" "ins_real s2 = ins_real s1"
    "ie_telemetry ie' = ie_telemetry ie" "ie_commit ie' = 0" "\<forall>n. ie_pointer ie n \<noteq> 0"
    "detach_all ie' s2 = (ev', s3)" "set (ins_attached s) \<inter> set (map hook_name attach_list) = {}"
  shows "ins_attached s3 = ins_attached s"
proof -
  let ?r = "resolve ie (ins_real s)" and ?ns = "pending (ie_telemetry ie) (resolve ie (ins_real s)) attach_list"
  have en: "enabled (ie_telemetry ie) (ins_real s1) e = enabled (ie_telemetry ie) ?r e" if e: "e \<in> set attach_list" for e
  proof (cases "enabled (ie_telemetry ie) ?r e")
    case True
    then have "hook_name e \<in> set ?ns" using e by (auto simp: pending_def)
    then show ?thesis using True assms(6) by (cases e) (auto simp: attach_all_ok(3) [OF assms(1)])
  next
    case False
    have "hook_name e \<notin> set ?ns"
    proof
      assume "hook_name e \<in> set ?ns"
      then obtain e' where "e' \<in> set attach_list" "enabled (ie_telemetry ie) ?r e'" "hook_name e' = hook_name e"
        by (auto simp: pending_def)
      then show False using False e attach_names_distinct by (metis distinct_map inj_onD)
    qed
    then show ?thesis using False by (cases e) (auto simp: attach_all_ok(3) [OF assms(1)])
  qed
  then have p: "pending (ie_telemetry ie) (ins_real s1) detach_list = ?ns"
    unfolding lists_agree pending_def by (metis (no_types, lifting) filter_cong)
  have "set ?ns \<subseteq> set (map hook_name attach_list)" by (auto simp: pending_def)
  then have "filter (\<lambda>n. n \<notin> set ?ns) (ins_attached s) = ins_attached s"
    using assms(8) by (auto simp: filter_id_conv)
  then show ?thesis
    using assms(2,3,4,5,7) p by (auto simp: detach_all_def Let_def attach_all_ok(2) [OF assms(1)])
qed

lemma Uninstall_fields:
  assumes "Uninstall ie s = (ev, s')"
  shows "\<exists>ev1 s1. detach_all ie (in_hooks (\<lambda>h. h\<lparr>h_control := BeginShutdown (h_control h)\<rparr>) s) = (ev1, s1) \<and>
           ins_attached s' = ins_attached s1" "ins_tls s' = TLS_OUT_OF_INDEXES" "mw_tracker (ins_map s') = None"
    "h_mm (hook_state s') = None" "h_vat (hook_state s') = []" "h_diag (hook_state s') = []"
    "IsShuttingDown (h_control (hook_state s'))"
    "ins_tls s \<noteq> TLS_OUT_OF_INDEXES \<Longrightarrow> TlsFreed (ins_tls s) \<in> set ev"
    "ie_commit ie \<noteq> 0 \<Longrightarrow> CommitError (ie_commit ie) \<in> set ev"
  using assms
  by (auto simp: Uninstall_def Let_def detach_all_def release_tls_def close_tracker_def clear_tables_def BeginShutdown_def
      IsShuttingDown_def split: if_splits option.splits prod.splits)

lemma InstallAndEnable_ok:
  assumes "InstallAndEnableHooks ie s = (True, ev, s')" "\<not> m_hooksInstalled s"
  shows "\<exists>ev1 s1 ev2 s2. prepare ie (hm_memManager s) s = (True, ev1, s1) \<and> attach_all ie s1 = (True, ev2, s2) \<and>
           s' = s2\<lparr>m_hooksInstalled := True\<rparr>"
  using assms by (auto simp: InstallAndEnableHooks_def Install_def split: prod.splits bool.splits)

lemma start_shards_mm: "(h_mm (start_shards ie h) = None) = (h_mm h = None)"
  by (simp add: start_shards_def split: prod.split option.split)

lemma start_tracker_some: "mw_tracker (start_tracker w) \<noteq> None" "mw_v (start_tracker w) = mw_v w"
  by (simp_all add: start_tracker_def split: option.split)

lemma start_tracker_ex: "\<exists>t. mw_tracker (start_tracker w) = Some t"
  by (simp add: start_tracker_def split: option.split)

lemma start_shards_ex: "h_mm h = Some x \<Longrightarrow> \<exists>m g. h_mm (start_shards ie h) = Some (m, g)"
  using start_shards_mm [of ie h] by (cases "h_mm (start_shards ie h)") auto

lemma attach_all_tls: "attach_all ie s = (b, ev, s') \<Longrightarrow> ins_tls s' = ins_tls s"
  by (auto simp: attach_all_def Let_def split: if_splits)

lemma uninstall_after_install:
  assumes "InstallAndEnableHooks ie s = (True, ev, s1)" "\<not> m_hooksInstalled s"
    and pointers: "\<forall>n. ie_pointer ie n \<noteq> 0" and free: "set (ins_attached s) \<inter> set (map hook_name attach_list) = {}"
    and later: "s2 = s1\<lparr>ins_map := w\<rparr>" and env: "ie_telemetry ie' = ie_telemetry ie"
    and un: "HookManager_Uninstall ie' s2 = (ev', s3)"
  shows "ins_attached s1 = ins_attached s @ pending (ie_telemetry ie) (resolve ie (ins_real s)) attach_list \<and>
         ins_attached s3 = (if ie_commit ie' = 0 then ins_attached s else ins_attached s1) \<and>
         (ie_commit ie' \<noteq> 0 \<longrightarrow> CommitError (ie_commit ie') \<in> set ev') \<and> ins_tls s3 = TLS_OUT_OF_INDEXES \<and>
         (ie_tlsAlloc ie \<noteq> TLS_OUT_OF_INDEXES \<longrightarrow> TlsFreed (ie_tlsAlloc ie) \<in> set ev') \<and>
         mw_tracker (ins_map s3) = None \<and> h_mm (hook_state s3) = None \<and> h_vat (hook_state s3) = [] \<and>
         h_diag (hook_state s3) = [] \<and> passes_through env (hook_state s3) \<and> \<not> m_hooksInstalled s3"
proof -
  obtain ev1 t1 ev2 t2 where i: "prepare ie (hm_memManager s) s = (True, ev1, t1)" "attach_all ie t1 = (True, ev2, t2)"
    "s1 = t2\<lparr>m_hooksInstalled := True\<rparr>" using InstallAndEnable_ok [OF assms(1,2)] by blast
  note f = prepare_fields [OF i(1)]
  let ?s = "in_hooks (\<lambda>h. h\<lparr>h_control := BeginShutdown (h_control h)\<rparr>) s2"
  obtain ev3 t3 where u: "Uninstall ie' ?s = (ev3, t3)" by (metis prod.exhaust)
  have h: "m_hooksInstalled s2" "ins_tls s2 = ie_tlsAlloc ie"
    using later i(3) f(4) attach_all_tls [OF i(2)] by simp_all
  have s3: "s3 = t3\<lparr>m_hooksInstalled := False\<rparr>" "set ev3 \<subseteq> set ev'"
    using un h(1) by (auto simp: HookManager_Uninstall_def Let_def u)
  note g = Uninstall_fields [OF u]
  obtain ev4 t4 where d: "detach_all ie' (in_hooks (\<lambda>h. h\<lparr>h_control := BeginShutdown (h_control h)\<rparr>) ?s) = (ev4, t4)"
    "ins_attached t3 = ins_attached t4" using g(1) by blast
  have "ins_attached s3 = ins_attached s" if c: "ie_commit ie' = 0"
  proof -
    have "ins_attached t4 = ins_attached t1"
      by (rule detach_after_attach [OF i(2) _ _ env c pointers d(1)]) (use later i(3) free f(1) in simp_all)
    then show ?thesis using d(2) f(1) s3(1) by simp
  qed
  moreover have "ins_attached s3 = ins_attached s1" if "ie_commit ie' \<noteq> 0"
    using d that later s3(1) by (auto simp: detach_all_def Let_def)
  moreover have "CommitError (ie_commit ie') \<in> set ev'" if "ie_commit ie' \<noteq> 0"
    using g(9) [OF that] s3(2) by blast
  moreover have "ins_attached s1 = ins_attached s @ pending (ie_telemetry ie) (resolve ie (ins_real s)) attach_list"
    using attach_all_ok(2) [OF i(2)] i(3) f(1,2) by simp
  moreover have "TlsFreed (ie_tlsAlloc ie) \<in> set ev'" if "ie_tlsAlloc ie \<noteq> TLS_OUT_OF_INDEXES"
    using g(8) that h(2) s3(2) by auto
  ultimately show ?thesis
    using g(2-7) s3(1) by (simp add: passes_through_def)
qed

text \<open>C27: After a successful installation, removing the hooks frees the TLS index, the inventory, the tables and
  the pointer to the manager, and lets a call that is still on its way pass through, whatever the
  hooks did to their own state in between and in both builds.  When the removal's transaction succeeds,
  exactly what was attached before the installation is attached again; when it fails, the failure is
  only reported: every function the installation attached stays hooked, with all of that gone.
\<close>

theorem uninstall_undoes_install:
  assumes "InstallAndEnableHooks ie s = (True, ev, s1)" "\<not> m_hooksInstalled s"
    and pointers: "\<forall>n. ie_pointer ie n \<noteq> 0" and free: "set (ins_attached s) \<inter> set (map hook_name attach_list) = {}"
    and later: "s2 = s1\<lparr>ins_map := w\<rparr>" and env: "ie_telemetry ie' = ie_telemetry ie"
    and un: "HookManager_Uninstall ie' s2 = (ev', s3)"
  shows "ins_attached s1 = ins_attached s @ pending (ie_telemetry ie) (resolve ie (ins_real s)) attach_list \<and>
         ins_attached s3 = (if ie_commit ie' = 0 then ins_attached s else ins_attached s1) \<and>
         (ie_commit ie' \<noteq> 0 \<longrightarrow> CommitError (ie_commit ie') \<in> set ev') \<and> ins_tls s3 = TLS_OUT_OF_INDEXES \<and>
         (ie_tlsAlloc ie \<noteq> TLS_OUT_OF_INDEXES \<longrightarrow> TlsFreed (ie_tlsAlloc ie) \<in> set ev') \<and>
         mw_tracker (ins_map s3) = None \<and> h_mm (hook_state s3) = None \<and> h_vat (hook_state s3) = [] \<and>
         h_diag (hook_state s3) = [] \<and> passes_through env (hook_state s3) \<and> \<not> m_hooksInstalled s3"
  by (rule uninstall_after_install [OF assms])

text \<open>An installation that fails after its first step leaves no function attached, but what it had set up
  is never given back: deleting the hook manager does nothing, the TLS index stays allocated, and the
  hooks keep their pointer to the manager and their inventory.
\<close>

theorem failed_install_keeps_resources:
  assumes "InstallAndEnableHooks ie s = (False, ev, s1)" "ie_tlsAlloc ie \<noteq> TLS_OUT_OF_INDEXES"
    "hm_memManager s \<noteq> None" "HookManager_delete ie' s1 = (ev', s2)"
  shows "ins_attached s2 = ins_attached s \<and> TlsAllocated (ie_tlsAlloc ie) \<in> set ev \<and>
         TlsFreed (ie_tlsAlloc ie) \<notin> set (ev @ ev') \<and> ins_tls s2 = ie_tlsAlloc ie \<and>
         h_mm (hook_state s2) \<noteq> None \<and> mw_tracker (ins_map s2) \<noteq> None"
proof -
  have n: "\<not> m_hooksInstalled s" using assms(1) by (auto simp: InstallAndEnableHooks_def)
  obtain b ev1 t1 where p: "prepare ie (hm_memManager s) s = (b, ev1, t1)" by (metis prod_cases3)
  have t1: "TlsAllocated (ie_tlsAlloc ie) \<in> set ev1" "TlsFreed i \<notin> set ev1" "h_mm (hook_state t1) \<noteq> None"
    "mw_tracker (ins_map t1) \<noteq> None" for i
    using p assms(2,3)
    by (auto simp: prepare_def Let_def size_window_def start_shards_mm start_tracker_some(2) start_tracker_ex start_shards_ex simp del: not_None_eq split: if_splits)
  note f = prepare_fields [OF p]
  obtain b2 ev2 t2 where a: "(if b then attach_all ie t1 else (False, [], t1)) = (b2, ev2, t2)" by (metis prod_cases3)
  have ins: "Install ie (hm_memManager s) s = (b2, ev1 @ ev2, t2)"
    using p a by (cases b) (auto simp: Install_def)
  have r: "\<not> b2" "s1 = t2" "ev = ev1 @ ev2 @ noted ie [Note ''Failed to install Rtl heap hooks.'']"
    using assms(1) n by (auto simp: InstallAndEnableHooks_def ins split: bool.splits)
  have t2: "ins_attached t2 = ins_attached t1" "ins_tls t2 = ins_tls t1" "ins_map t2 = ins_map t1"
    "m_hooksInstalled t2 = m_hooksInstalled t1" "TlsFreed i \<notin> set ev2" for i
    using a r(1) by (auto simp: attach_all_def Let_def noted_def split: if_splits)
  have d: "s2 = s1" "TlsFreed i \<notin> set ev'" for i
    using assms(4) r(2) t2(4) f(3) n by (auto simp: HookManager_delete_def HookManager_Uninstall_def)
  show ?thesis using t1 f t2 r d by (simp add: noted_def)
qed

subsection \<open>A small system\<close>

definition demo_install :: "u32 \<Rightarrow> install_env" where
  "demo_install err =
     \<lparr>ie_hook = demo_env True, ie_telemetry = False, ie_tlsAlloc = 7, ie_module = \<lambda>_. 0x100, ie_proc = \<lambda>_ _. 0x2000,
      ie_commit = err, ie_pointer = \<lambda>_. 0x3000, ie_rtlCreate = None, ie_heapCreate = \<lambda>_. 0\<rparr>"

definition demo_installer :: installer where
  "demo_installer =
     \<lparr>ins_map = demo_map, ins_tls = TLS_OUT_OF_INDEXES, ins_minSize = 4096, ins_real = \<lambda>_. 0, ins_attached = [],
      hm_memManager = Some (demo_mm, create_globals_init), m_hooksInstalled = False\<rparr>"

lemma demo_resolves: "n \<in> set required_names \<Longrightarrow> resolve (demo_install e) r n \<noteq> 0"
  by (auto simp: resolve_def demo_install_def required_names_def Let_def)

lemma demo_prepare: "fst (prepare (demo_install e) mm s)"
  by (simp add: prepare_def Let_def demo_install_def TLS_OUT_OF_INDEXES_def)

lemma demo_attach: "fst (attach_all (demo_install e) s) = (e = 0)"
  using demo_resolves by (auto simp: attach_all_def Let_def demo_install_def)

lemma demo_installs: "fst (InstallAndEnableHooks (demo_install e) demo_installer) = (e = 0)"
proof -
  obtain b1 ev1 s1 where p: "prepare (demo_install e) (hm_memManager demo_installer) demo_installer = (b1, ev1, s1)"
    by (metis prod_cases3)
  obtain b2 ev2 s2 where a: "attach_all (demo_install e) s1 = (b2, ev2, s2)" by (metis prod_cases3)
  have b: "b1" "b2 = (e = 0)"
    using demo_prepare [of e "hm_memManager demo_installer" demo_installer] demo_attach [of e s1] unfolding p a by simp_all
  have m: "\<not> m_hooksInstalled demo_installer" by (simp add: demo_installer_def)
  show ?thesis
    using m by (simp add: InstallAndEnableHooks_def Install_def p a b split: bool.split)
qed

lemma uninstall_undoes_install_witness:
  "\<exists>ev s1 ev' s3. InstallAndEnableHooks (demo_install 0) demo_installer = (True, ev, s1) \<and>
     HookManager_Uninstall (demo_install 0) s1 = (ev', s3) \<and> ins_attached s3 = [] \<and> TlsFreed 7 \<in> set ev' \<and>
     ins_tls s3 = TLS_OUT_OF_INDEXES"
proof -
  obtain b ev s1 where i0: "InstallAndEnableHooks (demo_install 0) demo_installer = (b, ev, s1)" by (metis prod_cases3)
  then have i: "InstallAndEnableHooks (demo_install 0) demo_installer = (True, ev, s1)"
    using demo_installs [of 0] by simp
  obtain ev' s3 where u: "HookManager_Uninstall (demo_install 0) s1 = (ev', s3)" by (metis prod.exhaust)
  have "\<not> m_hooksInstalled demo_installer" "ins_attached demo_installer = []" by (simp_all add: demo_installer_def)
  then show ?thesis
    using uninstall_undoes_install [OF i _ _ _ _ _ u, of "ins_map s1"] i u
    by (simp add: demo_install_def TLS_OUT_OF_INDEXES_def)
qed

lemma failed_install_keeps_resources_witness:
  "\<exists>ev s1 ev' s2. InstallAndEnableHooks (demo_install 5) demo_installer = (False, ev, s1) \<and>
     HookManager_delete (demo_install 5) s1 = (ev', s2) \<and> ins_attached s2 = [] \<and> ins_tls s2 = 7 \<and>
     TlsFreed 7 \<notin> set (ev @ ev') \<and> h_mm (hook_state s2) \<noteq> None"
proof -
  obtain b ev s1 where i0: "InstallAndEnableHooks (demo_install 5) demo_installer = (b, ev, s1)" by (metis prod_cases3)
  then have i: "InstallAndEnableHooks (demo_install 5) demo_installer = (False, ev, s1)"
    using demo_installs [of 5] by simp
  obtain ev' s2 where u: "HookManager_delete (demo_install 5) s1 = (ev', s2)" by (metis prod.exhaust)
  have "ie_tlsAlloc (demo_install 5) \<noteq> TLS_OUT_OF_INDEXES" "hm_memManager demo_installer \<noteq> None"
    by (simp_all add: demo_install_def TLS_OUT_OF_INDEXES_def demo_installer_def)
  note failed_install_keeps_resources [OF i this u]
  then show ?thesis using i u by (simp add: demo_install_def demo_installer_def)
qed

end
