(* ===== verification/ReadObserver.thy ===== *)
theory ReadObserver
  imports Dbpf ScriptScanDedup
begin

section \<open>The observer of file reads\<close>

text \<open>
  The \<open>ReadFile\<close> half of \<open>ObserverHooks.cpp\<close>: the hook passes every read on, and for reads of
  package files it keeps two tables of recent reads (by chunk and by file), reports each package
  once, and scans each package once for scripts through a handle of its own.  The system's answers
  are arguments; \<open>towlower\<close> depends on the locale and is one of them.
\<close>

subsection \<open>Names\<close>

definition wide :: "string \<Rightarrow> u16 list" where "wide s = map of_char s"

text \<open>FNV-1a over the lower-cased path.\<close>

definition HashPathW :: "(u16 \<Rightarrow> u16) \<Rightarrow> u16 list \<Rightarrow> u64" where
  "HashPathW lw s = fold (\<lambda>c h. fnv1a64_byte h (ucast (lw c AND 0xFF))) s 0xcbf29ce484222325"

text \<open>Does the path contain the extension anywhere, whatever the case.\<close>

fun starts_with_ci :: "(u16 \<Rightarrow> u16) \<Rightarrow> u16 list \<Rightarrow> u16 list \<Rightarrow> bool" where
  "starts_with_ci lw [] path = True"
| "starts_with_ci lw (e # ext) [] = False"
| "starts_with_ci lw (e # ext) (c # path) = (lw e = lw c \<and> starts_with_ci lw ext path)"

fun ContainsExtI :: "(u16 \<Rightarrow> u16) \<Rightarrow> u16 list \<Rightarrow> u16 list \<Rightarrow> bool" where
  "ContainsExtI lw [] ext = False"
| "ContainsExtI lw (c # path) ext = (ext \<noteq> [] \<and> (starts_with_ci lw ext (c # path) \<or> ContainsExtI lw path ext))"

definition package_exts :: "string list" where
  "package_exts = [''.package'', ''.world'', ''.sims3'', ''.dbc'', ''.ebc'']"

definition wide_base :: "u16 list \<Rightarrow> u16 list" where
  "wide_base path = rev (takeWhile (\<lambda>c. c \<noteq> 0x5C) (rev path))"

subsection \<open>The set of reported packages\<close>

definition kPkgSlots :: nat where "kPkgSlots = 8192"

fun pkg_probe :: "nat \<Rightarrow> u64 \<Rightarrow> nat \<Rightarrow> slots \<Rightarrow> bool \<times> slots" where
  "pkg_probe 0 key p t = (False, t)"
| "pkg_probe (Suc n) key p t =
     (let i = unat ((key + of_nat p) mod of_nat kPkgSlots)
      in if t i = key then (True, t)
         else if t i = 0 then (False, t(i := key))
         else pkg_probe n key (Suc p) t)"

definition PackageReportedOnce :: "u64 \<Rightarrow> slots \<Rightarrow> bool \<times> slots" where
  "PackageReportedOnce key t = (let key = (if key = 0 then 1 else key) in pkg_probe 32 key 0 t)"

subsection \<open>Scanning a package\<close>

text \<open>A script, or tuning; the types are those of the view scanner.\<close>

definition bump_kind :: "u32 \<Rightarrow> u32 \<times> u32 \<Rightarrow> u32 \<times> u32" where
  "bump_kind t c =
     (if t = kDbpfTypeScript \<or> t = kDbpfTypeScriptSym \<or> t = kDbpfTypeS3SAMod then (fst c + 1, snd c)
      else if t = kDbpfTypeXml then (fst c, snd c + 1) else c)"

definition type_at :: "u8 list \<Rightarrow> nat \<Rightarrow> u32" where
  "type_at bs off = (case rd32 bs off of Some t \<Rightarrow> t | None \<Rightarrow> 0)"

definition count_batch :: "u8 list \<Rightarrow> nat \<Rightarrow> u32 \<times> u32 \<Rightarrow> u32 \<times> u32" where
  "count_batch batch n c = fold (\<lambda>i. bump_kind (type_at batch (i * sizeof_DbpfIndexEntryMV))) [0..<n] c"

definition kBatch :: nat where "kBatch = 512"
definition kMaxEntries :: u32 where "kMaxEntries = 16384"

text \<open>
  Batch after batch from \<open>pos\<close>, until all entries are read, a read fails (\<open>io pos\<close> is its answer) or
  the file ends.
\<close>

function scan_batches :: "(nat \<Rightarrow> bool) \<Rightarrow> u8 list \<Rightarrow> nat \<Rightarrow> nat \<Rightarrow> u32 \<times> u32 \<Rightarrow> u32 \<times> u32" where
  "scan_batches io file pos remaining c =
     (if remaining = 0 then c
      else (let n = min remaining kBatch;
                batch = take (n * sizeof_DbpfIndexEntryMV) (drop pos file);
                have = length batch div sizeof_DbpfIndexEntryMV
            in if \<not> io pos \<or> have = 0 then c
               else if have < n then count_batch batch have c
               else scan_batches io file (pos + length batch) (remaining - have) (count_batch batch have c)))"
  by pat_completeness auto
termination by (relation "measure (\<lambda>(io, file, pos, remaining, c). remaining)") auto

declare scan_batches.simps [simp del]

definition header_ok :: "u8 list \<Rightarrow> bool" where
  "header_ok hdr \<longleftrightarrow>
     length hdr = sizeof_DbpfHeaderMV \<and> rd32 hdr 0 = Some 0x46504244 \<and> rd32 hdr hdr_majorVersion = Some 2 \<and>
     type_at hdr hdr_indexOffset \<noteq> 0 \<and> type_at hdr hdr_indexEntryCount \<noteq> 0"

text \<open>Scripts and tuning in a file: \<open>None\<close> when it is not scanned.\<close>

definition scan_file :: "(nat \<Rightarrow> bool) \<Rightarrow> u8 list \<Rightarrow> (u32 \<times> u32) option" where
  "scan_file io file =
     (let hdr = take sizeof_DbpfHeaderMV file
      in if \<not> io 0 \<or> \<not> header_ok hdr then None
         else Some (scan_batches io file (unat (type_at hdr hdr_indexOffset))
                      (unat (min (type_at hdr hdr_indexEntryCount) kMaxEntries)) (0, 0)))"

subsection \<open>The hook\<close>

record read_observer =
  ro_chunkSeen :: "nat \<Rightarrow> u64 \<times> u64"
  ro_fileSeen :: "nat \<Rightarrow> u64 \<times> u64"
  ro_pkgReported :: slots
  ro_scriptSeen :: slots
  s_rfCSInit :: bool

text \<open>
  One call: what the system says about the handle, and the answer of the real read with the number
  of bytes (\<open>None\<close>: the caller gave no cell for it).  \<open>rc_open\<close> is what a handle of the scan's own
  reads, when it can be opened.
\<close>

record read_call =
  rc_analytics :: bool
  rc_logger :: bool
  rc_shutting :: bool
  rc_disk :: bool
  rc_path :: "u16 list option"
  rc_offset :: u64
  rc_result :: bool
  rc_read :: "u32 option"
  rc_tick :: u64
  rc_size :: u64
  rc_open :: "u8 list option"
  rc_io :: "nat \<Rightarrow> bool"

datatype read_event =
    RealRead
  | ReadCounter string u64
  | PackageLoad "u16 list" int
  | ScriptInPackage "u16 list" u32 u32

definition rtally :: "read_call \<Rightarrow> string \<Rightarrow> u64 \<Rightarrow> read_event list" where
  "rtally c n x = (if rc_analytics c then [ReadCounter n x] else [])"

definition kChunkSlots :: nat where "kChunkSlots = 16384"
definition kFileSlots :: nat where "kFileSlots = 4096"

definition is_package_path :: "(u16 \<Rightarrow> u16) \<Rightarrow> u16 list \<Rightarrow> bool" where
  "is_package_path lw path \<longleftrightarrow> list_ex (\<lambda>e. ContainsExtI lw path (wide e)) package_exts"

definition chunk_key :: "u64 \<Rightarrow> u64 \<Rightarrow> u64" where
  "chunk_key fileHash off = fileHash XOR (off * 0x9E3779B97F4A7C15)"

definition seen_within :: "u64 \<Rightarrow> u64 \<Rightarrow> u64 \<times> u64 \<Rightarrow> bool" where
  "seen_within key now s \<longleftrightarrow> fst s = key \<and> now - snd s \<le> 60000"

text \<open>Repeated reads within a minute: the same chunk, or another chunk of the same file.\<close>

definition note_repeat :: "read_call \<Rightarrow> u64 \<Rightarrow> u32 \<Rightarrow> read_observer \<Rightarrow> read_event list \<times> read_observer" where
  "note_repeat c fileHash n s =
     (if \<not> s_rfCSInit s then ([], s)
      else (let ck = chunk_key fileHash (rc_offset c);
                cslot = unat (ck mod of_nat kChunkSlots); fslot = unat (fileHash mod of_nat kFileSlots);
                sameChunk = seen_within ck (rc_tick c) (ro_chunkSeen s cslot);
                sameFile = seen_within fileHash (rc_tick c) (ro_fileSeen s fslot)
            in (if sameChunk
                then rtally c ''ReadFile_Repeat_SameChunk_60s'' 1 @ rtally c ''ReadFile_Repeat_SameChunk_Bytes'' (ucast n)
                else if sameFile
                then rtally c ''ReadFile_Repeat_SamePackage_60s'' 1 @ rtally c ''ReadFile_Repeat_SamePackage_Bytes'' (ucast n)
                else [],
                s\<lparr>ro_chunkSeen := (ro_chunkSeen s)(cslot := (ck, rc_tick c)),
                  ro_fileSeen := (ro_fileSeen s)(fslot := (fileHash, rc_tick c))\<rparr>)))"

definition report_load :: "read_call \<Rightarrow> u16 list \<Rightarrow> u64 \<Rightarrow> read_observer \<Rightarrow> read_event list \<times> read_observer" where
  "report_load c baseName baseKey s =
     (case PackageReportedOnce baseKey (ro_pkgReported s) of
        (was, t) \<Rightarrow>
          (if was then []
           else (let kb = sint (rc_size c) sdiv 1024
                 in (if rc_logger c then [PackageLoad baseName kb] else []) @
                    rtally c ''Packages_Loaded'' 1 @ rtally c ''Packages_Loaded_KB'' (word_of_int kb)),
           s\<lparr>ro_pkgReported := t\<rparr>))"

definition ScanPackageForScript :: "read_call \<Rightarrow> u16 list \<Rightarrow> read_event list" where
  "ScanPackageForScript c path =
     (case rc_open c of
        None \<Rightarrow> []
      | Some file \<Rightarrow>
          (case scan_file (rc_io c) file of
             None \<Rightarrow> []
           | Some (scriptCount, xmlCount) \<Rightarrow>
               if scriptCount > 0
               then (if rc_logger c then [ScriptInPackage (wide_base path) scriptCount xmlCount] else []) @
                    rtally c ''Script_Packages'' 1 @ rtally c ''Script_Resources'' (ucast scriptCount) @
                    rtally c ''Script_Xml_Resources'' (ucast xmlCount)
               else []))"

text \<open>What is recorded of a package read that delivered \<open>n\<close> bytes.\<close>

definition package_read ::
  "(u16 \<Rightarrow> u16) \<Rightarrow> read_call \<Rightarrow> u16 list \<Rightarrow> u32 \<Rightarrow> read_observer \<Rightarrow> read_event list \<times> read_observer" where
  "package_read lw c path n s =
     (let ev1 = rtally c ''ReadFile_Package_Reads'' 1 @ rtally c ''ReadFile_Package_Bytes'' (ucast n);
          (ev2, s) = note_repeat c (HashPathW lw path) n s;
          baseName = wide_base path; baseKey = KeyFromBaseNameW lw baseName;
          (ev3, s) = report_load c baseName baseKey s;
          (was, t) = MarkOnce baseKey (ro_scriptSeen s)
      in (ev1 @ ev2 @ ev3 @ (if was then [] else ScanPackageForScript c path), s\<lparr>ro_scriptSeen := t\<rparr>))"

definition Hooked_ReadFile ::
  "(u16 \<Rightarrow> u16) \<Rightarrow> read_call \<Rightarrow> read_observer \<Rightarrow> bool \<times> read_event list \<times> read_observer" where
  "Hooked_ReadFile lw c s =
     (if rc_shutting c then (rc_result c, [RealRead], s)
      else if \<not> rc_disk c then (rc_result c, rtally c ''ReadFile_Bypassed_NonDisk'' 1 @ [RealRead], s)
      else case rc_path c of
        None \<Rightarrow> (rc_result c, rtally c ''ReadFile_Bypassed_NoPath'' 1 @ [RealRead], s)
      | Some path \<Rightarrow>
          if \<not> is_package_path lw path
          then (rc_result c, rtally c ''ReadFile_Bypassed_NonPackage'' 1 @ [RealRead], s)
          else (case rc_read c of
                  None \<Rightarrow> (rc_result c, [RealRead], s)
                | Some n \<Rightarrow>
                    if \<not> rc_result c \<or> n = 0 then (rc_result c, [RealRead], s)
                    else (case package_read lw c path n s of (ev, s) \<Rightarrow> (True, RealRead # ev, s))))"

subsection \<open>Attaching the hook\<close>

record read_install =
  ri_real :: bool
  s_readFileHooked :: bool

datatype observe_line = ReadFileNotFound | AttachFailed | ReadHookLive

text \<open>\<open>found\<close>: was the function found, \<open>commit\<close>: the status of the transaction.\<close>

definition InstallReadFileObserver ::
  "bool \<Rightarrow> bool \<Rightarrow> u32 \<Rightarrow> read_install \<times> read_observer \<Rightarrow> bool \<times> observe_line list \<times> read_install \<times> read_observer" where
  "InstallReadFileObserver lg found commit st =
     (case st of (i, s) \<Rightarrow>
        if \<not> found then (False, if lg then [ReadFileNotFound] else [], i, s)
        else (let i = i\<lparr>ri_real := True\<rparr>; s = s\<lparr>s_rfCSInit := True\<rparr>
              in if commit \<noteq> 0 then (False, if lg then [AttachFailed] else [], i, s)
                 else (True, if lg then [ReadHookLive] else [], i\<lparr>s_readFileHooked := True\<rparr>, s)))"

definition UninstallReadFileObserver :: "read_install \<Rightarrow> bool \<times> read_install" where
  "UninstallReadFileObserver i =
     (if \<not> s_readFileHooked i then (False, i) else (True, i\<lparr>s_readFileHooked := False\<rparr>))"

end
