(* ===== verification/ReadObserverProps.thy ===== *)
theory ReadObserverProps
  imports ReadObserver
begin

section \<open>What the read observer reports\<close>

subsection \<open>The scan in batches\<close>

lemma rd32_take: "off + 4 \<le> k \<Longrightarrow> rd32 (take k bs) off = rd32 bs off"
  by (auto simp: rd32_def)

lemma rd32_drop: "rd32 (drop d bs) off = rd32 bs (d + off)"
  by (auto simp: rd32_def add.assoc)

lemma type_at_take: "off + 4 \<le> k \<Longrightarrow> type_at (take k bs) off = type_at bs off"
  by (simp add: type_at_def rd32_take)

lemma type_at_drop: "type_at (drop d bs) off = type_at bs (d + off)"
  by (simp add: type_at_def rd32_drop)

lemma count_batch_take:
  assumes "n * sizeof_DbpfIndexEntryMV \<le> k"
  shows "count_batch (take k bs) n c = count_batch bs n c"
proof -
  have "type_at (take k bs) (i * sizeof_DbpfIndexEntryMV) = type_at bs (i * sizeof_DbpfIndexEntryMV)" if "i < n" for i
    using that assms by (intro type_at_take) (auto simp: sizeof_DbpfIndexEntryMV_def)
  then show ?thesis unfolding count_batch_def by (intro fold_cong) auto
qed

lemma count_batch_add:
  "count_batch bs (a + b) c = count_batch (drop (a * sizeof_DbpfIndexEntryMV) bs) b (count_batch bs a c)"
proof -
  have s: "[0..<a + b] = [0..<a] @ map (\<lambda>i. a + i) [0..<b]"
    using map_add_upt [of a b] by (simp add: upt_add_eq_append [of 0 a b] add.commute)
  show ?thesis
    by (simp add: count_batch_def s fold_map comp_def type_at_drop add_mult_distrib)
qed

lemma scan_batches_all:
  "(\<And>p. io p) \<Longrightarrow> scan_batches io contents pos n c =
     count_batch (drop pos contents) (min n ((length contents - pos) div sizeof_DbpfIndexEntryMV)) c"
proof (induction "io" "contents" "pos" n c rule: scan_batches.induct)
  case (1 io contents pos remaining c)
  define n where "n = min remaining kBatch"
  define batch where "batch = take (n * sizeof_DbpfIndexEntryMV) (drop pos contents)"
  define room where "room = (length contents - pos) div sizeof_DbpfIndexEntryMV"
  define have' where "have' = length batch div sizeof_DbpfIndexEntryMV"
  have h: "have' = min n room"
    by (simp add: have'_def batch_def room_def sizeof_DbpfIndexEntryMV_def min_def) (auto simp: div_le_mono)
  have cb: "count_batch batch have' c = count_batch (drop pos contents) have' c"
    unfolding batch_def using h by (intro count_batch_take) (simp add: sizeof_DbpfIndexEntryMV_def)
  have unf: "scan_batches io contents pos remaining c =
     (if remaining = 0 then c else if have' = 0 then c
      else if have' < n then count_batch batch have' c
      else scan_batches io contents (pos + length batch) (remaining - have') (count_batch batch have' c))"
    using 1(2) by (subst scan_batches.simps) (simp add: Let_def n_def batch_def have'_def)
  consider "remaining = 0 \<or> have' = 0" | "remaining \<noteq> 0" "have' \<noteq> 0" "have' < n" | "remaining \<noteq> 0" "have' \<noteq> 0" "\<not> have' < n" by blast
  then show ?case
  proof cases
    case 1
    then have "min remaining room = 0" using h by (auto simp: n_def kBatch_def)
    then show ?thesis using 1 unf by (auto simp: count_batch_def room_def)
  next
    case 2
    then have e: "have' = min remaining room" using h by (auto simp: n_def)
    have "scan_batches io contents pos remaining c = count_batch (drop pos contents) have' c" using 2 unf cb by simp
    then show ?thesis by (simp only: e room_def)
  next
    case 3
    then have hn: "have' = n" "n \<le> room" using h by auto
    have lb: "length batch = n * sizeof_DbpfIndexEntryMV"
      using hn(2) by (simp add: batch_def room_def sizeof_DbpfIndexEntryMV_def)
    have "scan_batches io contents (pos + length batch) (remaining - have') (count_batch batch have' c) =
       count_batch (drop (pos + length batch) contents)
         (min (remaining - have') ((length contents - (pos + length batch)) div sizeof_DbpfIndexEntryMV)) (count_batch batch have' c)"
      by (rule "1.IH" [OF 3(1) n_def batch_def have'_def]) (use 3 "1.prems" in auto)
    also have "(length contents - (pos + length batch)) div sizeof_DbpfIndexEntryMV = room - n"
      unfolding lb room_def by (simp add: sizeof_DbpfIndexEntryMV_def)
    also have "count_batch (drop (pos + length batch) contents) (min (remaining - have') (room - n)) (count_batch batch have' c) =
       count_batch (drop pos contents) (n + min (remaining - have') (room - n)) c"
      unfolding count_batch_add lb using cb [unfolded hn(1)] by (simp add: hn(1) drop_drop add.commute)
    also have "n + min (remaining - have') (room - n) = min remaining room"
      using hn by (auto simp: n_def min_def)
    finally show ?thesis using 3 unf by (simp add: room_def)
  qed
qed


subsection \<open>The two scanners agree\<close>

definition is_script :: "u32 \<Rightarrow> bool" where
  "is_script t \<longleftrightarrow> t = kDbpfTypeScript \<or> t = kDbpfTypeScriptSym \<or> t = kDbpfTypeS3SAMod"

lemma xml_no_script: "\<not> is_script kDbpfTypeXml"
  by (simp add: is_script_def kDbpfTypeScript_def kDbpfTypeScriptSym_def kDbpfTypeS3SAMod_def kDbpfTypeXml_def)

lemma fold_bump_kind:
  "fold bump_kind ts c =
     (fst c + of_nat (length (filter is_script ts)), snd c + of_nat (length (filter (\<lambda>t. t = kDbpfTypeXml) ts)))"
proof (induction ts arbitrary: c)
  case (Cons t ts)
  have b: "bump_kind t c = (if is_script t then (fst c + 1, snd c) else if t = kDbpfTypeXml then (fst c, snd c + 1) else c)"
    by (simp add: bump_kind_def is_script_def)
  show ?case using xml_no_script by (auto simp: Cons b)
qed simp

lemma count_batch_types:
  "count_batch bs n c = fold bump_kind (map (\<lambda>i. type_at bs (i * sizeof_DbpfIndexEntryMV)) [0..<n]) c"
  by (simp add: count_batch_def fold_map comp_def)

lemma read_entries_types:
  "read_entries bs off n = Some es \<Longrightarrow>
   map fst es = map (\<lambda>i. type_at bs (off + i * sizeof_DbpfIndexEntryMV)) [0..<n]"
proof (induction n arbitrary: off es)
  case (Suc n)
  then obtain t s r where r: "rd32 bs (off + ent_typeId) = Some t" "read_entries bs (off + sizeof_DbpfIndexEntryMV) n = Some r"
    "es = (t, s) # r" by (auto split: option.splits)
  have "[0..<Suc n] = 0 # map Suc [0..<n]" by (simp add: map_Suc_upt upt_conv_Cons del: upt_Suc)
  then show ?case
    using Suc.IH [OF r(2)] r(1,3) by (simp add: comp_def type_at_def ent_typeId_def add.assoc)
qed simp

text \<open>The tally over the rows of distinct types is the tally over the entries.\<close>

lemma fold_tally_rows:
  assumes "distinct ts"
  shows "st_scrCount (fold tally_script (map (stats_row es) ts) s) =
           st_scrCount s + (if kDbpfTypeScript \<in> set ts then ds_entryCount (stats_row es kDbpfTypeScript) else 0)"
    "st_symCount (fold tally_script (map (stats_row es) ts) s) =
           st_symCount s + (if kDbpfTypeScriptSym \<in> set ts then ds_entryCount (stats_row es kDbpfTypeScriptSym) else 0)"
    "st_modCount (fold tally_script (map (stats_row es) ts) s) =
           st_modCount s + (if kDbpfTypeS3SAMod \<in> set ts then ds_entryCount (stats_row es kDbpfTypeS3SAMod) else 0)"
    "st_xmlCount (fold tally_script (map (stats_row es) ts) s) =
           st_xmlCount s + (if kDbpfTypeXml \<in> set ts then ds_entryCount (stats_row es kDbpfTypeXml) else 0)"
  using assms
  by (induction ts arbitrary: s)
     (auto simp: tally_script_def kDbpfTypeScript_def kDbpfTypeScriptSym_def kDbpfTypeS3SAMod_def kDbpfTypeXml_def)

lemma row_count:
  "ds_entryCount (stats_row es t) = of_nat (length (filter (\<lambda>x. x = t) (map fst es)))"
  by (simp add: stats_row_def sizes_of_def filter_map comp_def)

lemma absent_count: "t \<notin> set ts \<Longrightarrow> length (filter (\<lambda>x. x = t) ts) = 0"
  by (auto simp: filter_empty_conv)

lemma script_length:
  "length (filter is_script ts) = length (filter (\<lambda>x. x = kDbpfTypeScript) ts) +
     length (filter (\<lambda>x. x = kDbpfTypeScriptSym) ts) + length (filter (\<lambda>x. x = kDbpfTypeS3SAMod) ts)"
  by (induction ts) (auto simp: is_script_def kDbpfTypeScript_def kDbpfTypeScriptSym_def kDbpfTypeS3SAMod_def)

definition no_scripts :: script_tally where
  "no_scripts = \<lparr>st_scrCount = 0, st_symCount = 0, st_modCount = 0, st_xmlCount = 0, st_scrBytes = 0, st_xmlBytes = 0\<rparr>"

lemma tally_of_types:
  assumes "length (first_types es []) \<le> cap"
  defines "s \<equiv> fold tally_script (map (stats_row es) (take cap (first_types es []))) no_scripts"
  shows "fold bump_kind (map fst es) (0, 0) = (st_scrCount s + st_symCount s + st_modCount s, st_xmlCount s)"
proof -
  let ?T = "first_types es []"
  have d: "distinct ?T" "set ?T = fst ` set es" using first_types_distinct [of "[]" es] by (simp_all add: first_types_set)
  have s: "s = fold tally_script (map (stats_row es) ?T) no_scripts" using assms(1) by (simp add: s_def)
  have c: "(if t \<in> set ?T then ds_entryCount (stats_row es t) else 0) = of_nat (length (filter (\<lambda>x. x = t) (map fst es)))" for t
    using absent_count [of t "map fst es"] by (simp add: row_count d(2))
  show ?thesis
    unfolding s fold_tally_rows [OF d(1)] c fold_bump_kind script_length by (simp add: no_scripts_def)
qed


lemma ScanDbpfIndex_exact_rows:
  assumes "length view < 2 ^ 32" "0 < cap" "64 \<le> length view"
  shows "ScanDbpfIndex view (of_nat (length view)) cap = Some (map (stats_row (scanned view)) (take cap (first_types (scanned view) [])))"
  using scan_of_scanned [OF assms] by (simp add: tally_rows)

text \<open>C31: A package within the bounds of both scanners is counted alike whichever way it is seen first: for a
  file below 4 GB whose header is sound, whose index has at most 16384 entries of at most as many
  types as the tally of a view has room for, and of which every read succeeds, the scan of the read
  hook, in batches of 512 entries, finds the scripts and the tuning that the tally of its mapped
  view finds.  Outside these bounds the two stop at different places.
\<close>

theorem script_scans_agree:
  assumes "length contents < 2 ^ 32" "header_ok (take sizeof_DbpfHeaderMV contents)" "\<And>p. io p"
    "type_at contents hdr_indexEntryCount \<le> kMaxEntries" "length (first_types (scanned contents) []) \<le> cap" "0 < cap"
  shows "\<exists>ts. ScanDbpfIndex contents (of_nat (length contents)) cap = Some ts \<and>
    scan_file io contents =
      Some (let s = fold tally_script ts no_scripts in (st_scrCount s + st_symCount s + st_modCount s, st_xmlCount s))"
proof -
  let ?hdr = "take sizeof_DbpfHeaderMV contents"
  have len: "64 \<le> length contents" using assms(2) by (auto simp: header_ok_def sizeof_DbpfHeaderMV_def min_def split: if_splits)
  have u: "unat (of_nat (length contents) :: u32) = length contents" using assms(1) by (simp add: unsigned_of_nat take_bit_nat_eq_self)
  have t: "type_at ?hdr hdr_indexOffset = type_at contents hdr_indexOffset" "type_at ?hdr hdr_indexEntryCount = type_at contents hdr_indexEntryCount"
    "rd32 ?hdr 0 = rd32 contents 0" "rd32 ?hdr hdr_majorVersion = rd32 contents hdr_majorVersion"
    by (simp_all add: type_at_take rd32_take hdr_indexOffset_def hdr_indexEntryCount_def hdr_majorVersion_def sizeof_DbpfHeaderMV_def)
  obtain off n where on: "rd32 contents hdr_indexOffset = Some off" "rd32 contents hdr_indexEntryCount = Some n"
    using len by (simp add: rd32_def hdr_indexOffset_def hdr_indexEntryCount_def)
  then have ta: "type_at contents hdr_indexOffset = off" "type_at contents hdr_indexEntryCount = n" by (simp_all add: type_at_def)
  have ok: "rd32 contents 0 = Some 0x46504244" "rd32 contents hdr_majorVersion = Some 2" "off \<noteq> 0" "n \<noteq> 0"
    using assms(2) by (simp_all add: header_ok_def t ta)
  let ?k = "min (unat n) ((length contents - unat off) div sizeof_DbpfIndexEntryMV)"
  have m: "map fst (scanned contents) = map (\<lambda>i. type_at contents (unat off + i * sizeof_DbpfIndexEntryMV)) [0..<?k]"
  proof (cases "off < of_nat (length contents)")
    case True
    let ?c = "scan_count (of_nat (length contents)) off n"
    obtain es where es: "read_entries contents (unat off) ?c = Some es"
      using scan_count_bound [OF True, of n] read_entries_in_bounds [of "unat off" ?c contents] u by auto
    have lt: "unat off < length contents" using True u by (simp add: word_less_nat_alt)
    then have d: "unat ((of_nat (length contents) - off) div of_nat sizeof_DbpfIndexEntryMV) = (length contents - unat off) div 32"
      using u unat_minus_no_wrap [OF less_imp_le [OF True]] by (simp add: unat_div sizeof_DbpfIndexEntryMV_def)
    have "?c = ?k"
      unfolding scan_count_def Let_def word_less_nat_alt d by (simp add: sizeof_DbpfIndexEntryMV_def min_def d [unfolded sizeof_DbpfIndexEntryMV_def])
    moreover have "scanned contents = es" using True ok on es by (simp add: scanned_def)
    ultimately show ?thesis using read_entries_types [OF es] by simp
  next
    case False
    then have "length contents \<le> unat off" using u by (simp add: word_less_nat_alt)
    then show ?thesis using False ok on by (simp add: scanned_def)
  qed
  have "unat (min n kMaxEntries) = unat n" using assms(4) ta by (simp add: min_def)
  then have "scan_file io contents = Some (count_batch (drop (unat off) contents) ?k (0, 0))"
    using assms(2,3) scan_batches_all [of io contents "unat off" "unat n" "(0, 0)"] by (simp add: scan_file_def t ta)
  also have "count_batch (drop (unat off) contents) ?k (0, 0) = fold bump_kind (map fst (scanned contents)) (0, 0)"
    unfolding m count_batch_types type_at_drop by simp
  finally have sf: "scan_file io contents = Some (fold bump_kind (map fst (scanned contents)) (0, 0))" .
  show ?thesis
    using ScanDbpfIndex_exact_rows [OF assms(1,6) len] sf tally_of_types [OF assms(5)] by (simp add: Let_def)
qed

definition demo_package :: "u8 list" where
  "demo_package = [0x44, 0x42, 0x50, 0x46, 2, 0, 0, 0] @ replicate 28 0 @ [2, 0, 0, 0] @ replicate 20 0 @ [64, 0, 0, 0] @
     [0xcd, 0xe5, 0x75, 0x01] @ replicate 28 0 @ [0x6c, 0x40, 0x33, 0x03] @ replicate 28 0"

lemma length_first_types: "length (first_types es ts) \<le> length ts + length es"
  by (induction es ts rule: first_types.induct) (auto simp: le_SucI)

lemma demo_package_reads:
  "length demo_package = 128" "type_at demo_package hdr_indexOffset = 64" "type_at demo_package hdr_indexEntryCount = 2"
  "rd32 demo_package 0 = Some 0x46504244" "rd32 demo_package hdr_majorVersion = Some 2"
  by (simp_all add: demo_package_def type_at_def rd32_def hdr_indexOffset_def hdr_indexEntryCount_def hdr_majorVersion_def
      nth_append nth_Cons')

lemma demo_package_header: "header_ok (take sizeof_DbpfHeaderMV demo_package)"
  using demo_package_reads
  by (simp add: header_ok_def type_at_take rd32_take hdr_indexOffset_def hdr_indexEntryCount_def hdr_majorVersion_def
      sizeof_DbpfHeaderMV_def)

lemma demo_package_scanned: "length (first_types (scanned demo_package) []) \<le> 128"
proof -
  have "length (scanned demo_package) \<le> 128"
  proof -
    have "length es \<le> 128" if "read_entries demo_package off n = Some es" "off + n * 32 \<le> 128" for off n es
    proof -
      have "length es = n" using arg_cong [OF read_entries_types [OF that(1)], of length] by simp
      then show ?thesis using that(2) by linarith
    qed
    then show ?thesis
      using scan_count_bound [of _ "of_nat (length demo_package)"] demo_package_reads(1)
      by (auto simp: scanned_def sizeof_DbpfIndexEntryMV_def split: option.split)
  qed
  then show ?thesis using length_first_types [of "scanned demo_package" "[]"] by simp
qed

lemma script_scans_agree_witness:
  "scan_file (\<lambda>_. True) demo_package = Some (1, 1) \<and>
   (\<exists>ts. ScanDbpfIndex demo_package 128 128 = Some ts \<and>
      (let s = fold tally_script ts no_scripts in st_scrCount s + st_symCount s + st_modCount s = 1 \<and> st_xmlCount s = 1))"
proof -
  have t: "type_at demo_package 64 = kDbpfTypeScript" "type_at demo_package 96 = kDbpfTypeXml"
    by (simp_all add: demo_package_def type_at_def rd32_def nth_append nth_Cons' kDbpfTypeScript_def kDbpfTypeXml_def)
  have e: "type_at (take sizeof_DbpfHeaderMV demo_package) hdr_indexOffset = 64"
    "type_at (take sizeof_DbpfHeaderMV demo_package) hdr_indexEntryCount = 2"
    using demo_package_reads by (simp_all add: type_at_take hdr_indexOffset_def hdr_indexEntryCount_def sizeof_DbpfHeaderMV_def)
  have "scan_file (\<lambda>_. True) demo_package = Some (count_batch (drop 64 demo_package) 2 (0, 0))"
    using demo_package_header scan_batches_all [of "\<lambda>_. True" demo_package 64 2 "(0, 0)"]
    by (simp add: scan_file_def e demo_package_reads(1) sizeof_DbpfIndexEntryMV_def kMaxEntries_def min_def)
  also have "count_batch (drop 64 demo_package) 2 (0, 0) = (1, 1)"
    using xml_no_script
    by (simp add: count_batch_types type_at_drop sizeof_DbpfIndexEntryMV_def t bump_kind_def is_script_def numeral_2_eq_2)
  finally have f: "scan_file (\<lambda>_. True) demo_package = Some (1, 1)" .
  have "length demo_package < 2 ^ 32" "type_at demo_package hdr_indexEntryCount \<le> kMaxEntries"
    using demo_package_reads by (simp_all add: kMaxEntries_def)
  from script_scans_agree [OF this(1) demo_package_header _ this(2) demo_package_scanned, of "\<lambda>_. True"] f
  show ?thesis by (simp add: demo_package_reads(1) Let_def)
qed

subsection \<open>Repeated chunks\<close>













end
