(* ===== verification/FrameObserver.thy ===== *)
theory FrameObserver
  imports ReadObserver Config "HOL-Library.Signed_Division"
begin

section \<open>The observer of frames\<close>

text \<open>
  The Direct3D half of \<open>ObserverHooks.cpp\<close>: the hook of \<open>Present\<close> (hitches, lost devices, the frame
  cap), the shield around \<open>SetRenderTarget\<close>, and the tallies of created resources.  The device's
  answers and the clock are arguments; counter values of the clock are taken as integers (they stay
  far below 2^63).  Surface sizes are products of a half-byte count, as the code's doubles hold them
  exactly; a level of 4 GB or more, whose conversion C leaves undefined, wraps here.
\<close>

definition D3D_OK :: u32 where "D3D_OK = 0"
definition D3DERR_INVALIDCALL :: u32 where "D3DERR_INVALIDCALL = 0x8876086C"
definition HITCH_THRESHOLD_MS :: u32 where "HITCH_THRESHOLD_MS = 50"

definition SUCCEEDED :: "u32 \<Rightarrow> bool" where "SUCCEEDED hr \<longleftrightarrow> 0 \<le> sint hr"

subsection \<open>State and events\<close>

record frame_observer =
  g_installed :: bool
  g_capInit :: bool
  g_targetFps :: u32
  g_captureHitchStacks :: bool
  g_hitchLogInterval :: u32
  g_inPresentHook :: bool
  g_lastPresentTime :: int
  g_qpcFrequency :: int
  g_presentCallCount :: u32
  g_hitchCount :: u32
  g_stackCaptureFailures :: u32
  g_resourceHooksInstalled :: bool
  g_deviceGuard :: bool
  g_deviceLost :: bool
  g_deviceLostEvents :: u32
  g_guardedCallCount :: u32
  fo_real :: "string list"

datatype frame_wait = TimerWait int | SleepMs u32

datatype hitch_trace = Captured | CaptureFailed | TraceDisabled

datatype frame_event =
    RealPresent
  | RealSetRenderTarget
  | CheckApis
  | HitchLine u32 u32 hitch_trace
  | LostLine u32
  | RecoveredLine
  | Wait frame_wait

text \<open>
  One call of \<open>Present\<close>: the clock before and after the wait, what the device says about itself
  (\<open>None\<close>: no device), the environment, and whether a stack could be captured, a timer made.
\<close>

record present_call =
  pc_shutting :: bool
  pc_detector :: bool
  pc_logger :: bool
  pc_now :: int
  pc_after :: int
  pc_coop :: "u32 option"
  pc_getenv :: "string \<Rightarrow> string option"
  pc_walker :: bool
  pc_captured :: bool
  pc_timer :: bool

subsection \<open>Lost devices\<close>

definition NoteCoopLevel :: "bool \<Rightarrow> u32 \<Rightarrow> frame_observer \<Rightarrow> frame_event list \<times> frame_observer" where
  "NoteCoopLevel lg coop s =
     (let lost = (coop \<noteq> D3D_OK); was = g_deviceLost s; s = s\<lparr>g_deviceLost := lost\<rparr>
      in if lost \<and> \<not> was then (if lg then [LostLine coop] else [], s\<lparr>g_deviceLostEvents := g_deviceLostEvents s + 1\<rparr>)
         else if \<not> lost \<and> was then (if lg then [RecoveredLine] else [], s)
         else ([], s))"

text \<open>The shield: while the device is lost the call does not reach it.\<close>

definition Hooked_SetRenderTarget ::
  "bool \<Rightarrow> u32 \<Rightarrow> u32 option \<Rightarrow> frame_observer \<Rightarrow> u32 \<times> frame_event list \<times> frame_observer" where
  "Hooked_SetRenderTarget lg real coop s =
     (if ''SetRenderTarget'' \<notin> set (fo_real s) then (D3DERR_INVALIDCALL, [], s)
      else case (if g_deviceGuard s then coop else None) of
        None \<Rightarrow> (real, [RealSetRenderTarget], s)
      | Some c \<Rightarrow>
          if c \<noteq> D3D_OK
          then (case NoteCoopLevel lg c s of
                  (ev, s) \<Rightarrow> (c, ev, s\<lparr>g_guardedCallCount := g_guardedCallCount s + 1\<rparr>))
          else (real, [RealSetRenderTarget], s))"

subsection \<open>Settings\<close>

definition strtoul :: "string \<Rightarrow> u32" where
  "strtoul v = (if \<bar>signed_digits v\<bar> > 4294967295 then 0xFFFFFFFF else word_of_int (signed_digits v))"

definition ResolveTargetFps :: "(string \<Rightarrow> string option) \<Rightarrow> frame_observer \<Rightarrow> u32 \<times> frame_observer" where
  "ResolveTargetFps getenv s =
     (if g_capInit s then (g_targetFps s, s)
      else (let cap = getenv ''TS3VAS_FPS_CAP'';
                fps = (if env_set cap then min (strtoul (env_text 32 cap)) 240 else 60);
                stacks = (case env_in_buf 32 (getenv ''TS3VAS_D3D9_CAPTURE_STACKS'') of None \<Rightarrow> False | Some v \<Rightarrow> says_yes v);
                interval = (case env_in_buf 32 (getenv ''TS3VAS_D3D9_HITCH_LOG_INTERVAL'') of
                              None \<Rightarrow> g_hitchLogInterval s
                            | Some v \<Rightarrow> if 1 \<le> strtoul v \<and> strtoul v \<le> 1000 then strtoul v else g_hitchLogInterval s)
            in (fps, s\<lparr>g_capInit := True, g_targetFps := fps, g_captureHitchStacks := stacks, g_hitchLogInterval := interval\<rparr>)))"

subsection \<open>Present\<close>

text \<open>Clock values are of 64 bits with a sign, and so is every intermediate result.\<close>

definition longlong :: "int \<Rightarrow> int" where "longlong x = sint (word_of_int x :: 64 word)"

text \<open>\<open>timer\<close>: a timer could be made and set; otherwise the thread sleeps whole milliseconds.\<close>

definition FrameCapWait :: "bool \<Rightarrow> int \<Rightarrow> int \<Rightarrow> frame_wait option" where
  "FrameCapWait timer freq remainingTicks =
     (if remainingTicks \<le> 0 \<or> freq \<le> 0 then None
      else (let hundredNs = longlong (remainingTicks * 10000000) sdiv freq
            in if hundredNs \<le> 0 then None
               else if timer then Some (TimerWait hundredNs)
               else (let ms = word_of_int (hundredNs sdiv 10000) in if ms > 0 then Some (SleepMs ms) else None)))"

text \<open>A long frame is counted; every so many a line is written, with a stack if that is wanted.\<close>

definition note_frame_time :: "present_call \<Rightarrow> u32 \<Rightarrow> bool \<Rightarrow> frame_observer \<Rightarrow> frame_event list \<times> frame_observer" where
  "note_frame_time c every stacks s =
     (let frameTimeMs = word_of_int (longlong (longlong (pc_now c - g_lastPresentTime s) * 1000) sdiv g_qpcFrequency s)
      in if g_lastPresentTime s \<le> 0 \<or> \<not> frameTimeMs > HITCH_THRESHOLD_MS then ([], s)
         else (let n = g_hitchCount s + 1; s = s\<lparr>g_hitchCount := n\<rparr>;
                   captured = (stacks \<and> pc_walker c \<and> pc_captured c)
               in if every > 0 \<and> n mod every = 0
                  then ((if pc_logger c
                         then [HitchLine frameTimeMs n (if stacks then if captured then Captured else CaptureFailed else TraceDisabled)]
                         else []),
                        if stacks \<and> \<not> captured then s\<lparr>g_stackCaptureFailures := g_stackCaptureFailures s + 1\<rparr> else s)
                  else ([], s)))"

text \<open>The wait and the clock after it.\<close>

definition pace_frame :: "present_call \<Rightarrow> u32 \<Rightarrow> bool \<Rightarrow> frame_observer \<Rightarrow> frame_event list \<times> int" where
  "pace_frame c targetFps deviceLost s =
     (let targetTicks = g_qpcFrequency s sdiv uint targetFps; elapsedTicks = longlong (pc_now c - g_lastPresentTime s)
      in if \<not> deviceLost \<and> targetFps > 0 \<and> g_qpcFrequency s > 0 \<and> g_lastPresentTime s > 0 \<and> elapsedTicks < targetTicks
         then (case FrameCapWait (pc_timer c) (g_qpcFrequency s) (longlong (targetTicks - elapsedTicks)) of
                 None \<Rightarrow> [] | Some w \<Rightarrow> [Wait w], pc_after c)
         else ([], pc_now c))"

definition present_body :: "present_call \<Rightarrow> frame_observer \<Rightarrow> frame_event list \<times> frame_observer" where
  "present_body c s =
     (let (targetFps, s) = ResolveTargetFps (pc_getenv c) s;
          ev0 = (if pc_detector c then [CheckApis] else []);
          (ev1, s) = note_frame_time c (g_hitchLogInterval s) (g_captureHitchStacks s) s;
          coop = (if g_deviceGuard s then pc_coop c else None);
          (ev2, s) = (case coop of None \<Rightarrow> ([], s) | Some k \<Rightarrow> NoteCoopLevel (pc_logger c) k s);
          deviceLost = (case coop of None \<Rightarrow> False | Some k \<Rightarrow> k \<noteq> D3D_OK);
          (ev3, now) = pace_frame c targetFps deviceLost s
      in (ev0 @ ev1 @ ev2 @ ev3,
          s\<lparr>g_lastPresentTime := now, g_presentCallCount := g_presentCallCount s + 1\<rparr>))"

definition Hooked_Present :: "u32 \<Rightarrow> present_call \<Rightarrow> frame_observer \<Rightarrow> u32 \<times> frame_event list \<times> frame_observer" where
  "Hooked_Present real c s =
     (if ''Present'' \<notin> set (fo_real s) then (D3DERR_INVALIDCALL, [], s)
      else if g_inPresentHook s \<or> pc_shutting c then (real, [RealPresent], s)
      else (case present_body c (s\<lparr>g_inPresentHook := True\<rparr>) of
              (ev, s) \<Rightarrow> (real, ev @ [RealPresent], s\<lparr>g_inPresentHook := False\<rparr>)))"

subsection \<open>Sizes of resources\<close>

text \<open>The formats the code knows, with twice their bytes per texel; others count as 32 bits.\<close>

definition fmt_half_bytes :: "u32 \<Rightarrow> nat" where
  "fmt_half_bytes fmt =
     (if fmt = 0x31545844 then 1
      else if fmt \<in> {0x32545844, 0x33545844, 0x34545844, 0x35545844, 28, 50, 41} then 2
      else if fmt \<in> {23, 24, 25, 26, 51} then 4
      else 8)"

text \<open>The levels from one of \<open>w\<close> by \<open>h\<close> texels on, at most \<open>n\<close>.\<close>

fun level_chain :: "nat \<Rightarrow> nat \<Rightarrow> nat \<Rightarrow> nat \<Rightarrow> u32 \<Rightarrow> u32" where
  "level_chain b 0 w h acc = acc"
| "level_chain b (Suc n) w h acc =
     (let acc = acc + of_nat (w * h * b div 2)
      in if w = 1 \<and> h = 1 then acc
         else level_chain b n (if w > 1 then w div 2 else w) (if h > 1 then h div 2 else h) acc)"

definition ApproxTextureBytes :: "u32 \<Rightarrow> u32 \<Rightarrow> u32 \<Rightarrow> u32 \<Rightarrow> u32" where
  "ApproxTextureBytes w h levels fmt =
     level_chain (fmt_half_bytes fmt) (if levels = 0 then 32 else unat levels)
       (if w = 0 then 1 else unat w) (if h = 0 then 1 else unat h) 0"

subsection \<open>Lanes\<close>

definition D3DPOOL_DEFAULT :: u32 where "D3DPOOL_DEFAULT = 0"
definition D3DPOOL_MANAGED :: u32 where "D3DPOOL_MANAGED = 1"
definition D3DPOOL_SYSTEMMEM :: u32 where "D3DPOOL_SYSTEMMEM = 2"
definition D3DPOOL_SCRATCH :: u32 where "D3DPOOL_SCRATCH = 3"
definition D3DUSAGE_DYNAMIC :: u32 where "D3DUSAGE_DYNAMIC = 0x200"

definition PoolTag :: "u32 \<Rightarrow> string" where
  "PoolTag pool =
     (if pool = D3DPOOL_DEFAULT then ''Default'' else if pool = D3DPOOL_MANAGED then ''Managed''
      else if pool = D3DPOOL_SYSTEMMEM then ''SystemMem'' else if pool = D3DPOOL_SCRATCH then ''Scratch'' else ''Other'')"

definition PoolIsContained :: "u32 \<Rightarrow> bool" where
  "PoolIsContained pool \<longleftrightarrow> pool = D3DPOOL_MANAGED \<or> pool = D3DPOOL_SYSTEMMEM"

definition TallyResource :: "bool \<Rightarrow> string \<Rightarrow> u32 \<Rightarrow> u32 \<Rightarrow> bool \<Rightarrow> (string \<times> u64) list" where
  "TallyResource analytics kind pool bytes dynamic =
     (if \<not> analytics then []
      else (let p = ''D3D9_'' @ kind @ ''_'' @ PoolTag pool;
                ln = (if PoolIsContained pool \<and> \<not> dynamic then ''D3D9_Contained'' else ''D3D9_Excluded'')
            in [(p @ ''_Count'', 1), (p @ ''_Bytes'', ucast bytes), (ln @ ''_Count'', 1), (ln @ ''_Bytes'', ucast bytes)]))"

text \<open>
  The hooks of the creating methods: \<open>real\<close> is the answer of the method, \<open>None\<close> where it is not
  hooked; a creation that fails, or that comes while the program shuts down, is not counted.
\<close>

definition created ::
  "bool \<Rightarrow> bool \<Rightarrow> u32 option \<Rightarrow> string \<Rightarrow> u32 \<Rightarrow> u32 \<Rightarrow> u32 \<Rightarrow> u32 \<times> (string \<times> u64) list" where
  "created analytics shutting real kind usage pool bytes =
     (case real of
        None \<Rightarrow> (D3DERR_INVALIDCALL, [])
      | Some hr \<Rightarrow>
          (hr, if SUCCEEDED hr \<and> \<not> shutting then TallyResource analytics kind pool bytes (usage AND D3DUSAGE_DYNAMIC \<noteq> 0)
               else []))"

definition Hooked_CreateTexture ::
  "bool \<Rightarrow> bool \<Rightarrow> u32 option \<Rightarrow> u32 \<Rightarrow> u32 \<Rightarrow> u32 \<Rightarrow> u32 \<Rightarrow> u32 \<Rightarrow> u32 \<Rightarrow> u32 \<times> (string \<times> u64) list" where
  "Hooked_CreateTexture an sh real w h levels usage fmt pool =
     created an sh real ''Texture'' usage pool (ApproxTextureBytes w h levels fmt)"

definition Hooked_CreateCubeTexture ::
  "bool \<Rightarrow> bool \<Rightarrow> u32 option \<Rightarrow> u32 \<Rightarrow> u32 \<Rightarrow> u32 \<Rightarrow> u32 \<Rightarrow> u32 \<Rightarrow> u32 \<times> (string \<times> u64) list" where
  "Hooked_CreateCubeTexture an sh real edge levels usage fmt pool =
     created an sh real ''CubeTex'' usage pool (ApproxTextureBytes edge edge levels fmt * 6)"

definition Hooked_CreateVolumeTexture ::
  "bool \<Rightarrow> bool \<Rightarrow> u32 option \<Rightarrow> u32 \<Rightarrow> u32 \<Rightarrow> u32 \<Rightarrow> u32 \<Rightarrow> u32 \<Rightarrow> u32 \<Rightarrow> u32 \<Rightarrow> u32 \<times> (string \<times> u64) list" where
  "Hooked_CreateVolumeTexture an sh real w h d levels usage fmt pool =
     created an sh real ''VolumeTex'' usage pool (ApproxTextureBytes w h levels fmt * (if d \<noteq> 0 then d else 1))"

definition Hooked_CreateVertexBuffer ::
  "bool \<Rightarrow> bool \<Rightarrow> u32 option \<Rightarrow> u32 \<Rightarrow> u32 \<Rightarrow> u32 \<Rightarrow> u32 \<times> (string \<times> u64) list" where
  "Hooked_CreateVertexBuffer an sh real len usage pool = created an sh real ''VertexBuf'' usage pool len"

definition Hooked_CreateIndexBuffer ::
  "bool \<Rightarrow> bool \<Rightarrow> u32 option \<Rightarrow> u32 \<Rightarrow> u32 \<Rightarrow> u32 \<Rightarrow> u32 \<times> (string \<times> u64) list" where
  "Hooked_CreateIndexBuffer an sh real len usage pool = created an sh real ''IndexBuf'' usage pool len"

subsection \<open>Installation\<close>

datatype d3d_line =
    Installing
  | NoLibrary
  | NoDirect3D
  | NoDevice
  | AttachError
  | GuardOn
  | ResourceHooksLive
  | Installed u32
  | Removed u32 u32
  | LostTotals u32 u32
  | FreeD3DLibrary
  | AttachMethod string
  | DetachMethod string

record d3d_env =
  de_logger :: bool
  de_frequency :: int
  de_library :: bool
  de_direct3d :: bool
  de_device :: bool
  de_commit :: u32
  de_getenv :: "string \<Rightarrow> string option"

definition switched_off :: "string option \<Rightarrow> bool" where
  "switched_off e \<longleftrightarrow> env_set e \<and> says_no (env_text 8 e)"

definition resource_methods :: "string list" where
  "resource_methods = [''CreateTexture'', ''CreateVolumeTexture'', ''CreateCubeTexture'', ''CreateVertexBuffer'', ''CreateIndexBuffer'']"

text \<open>The last step, with all slots of the device at hand: \<open>g_hD3D9\<close> is set from here on.\<close>

definition attach_methods :: "d3d_env \<Rightarrow> frame_observer \<Rightarrow> bool \<times> d3d_line list \<times> frame_observer" where
  "attach_methods de s =
     (let hookResources = (\<not> switched_off (de_getenv de ''TS3VAS_D3D9_RESOURCE_HOOK''));
          s = (if switched_off (de_getenv de ''TS3VAS_D3D9_DEVICE_GUARD'') then s\<lparr>g_deviceGuard := False\<rparr> else s);
          ms = [''Present''] @ (if g_deviceGuard s then [''SetRenderTarget''] else []) @ (if hookResources then resource_methods else []);
          s = s\<lparr>fo_real := fo_real s @ filter (\<lambda>m. m \<notin> set (fo_real s)) ms\<rparr>
      in if de_commit de \<noteq> 0
         then (False, map AttachMethod ms @ [AttachError],
               s\<lparr>fo_real := filter (\<lambda>m. m \<noteq> ''Present'' \<and> m \<noteq> ''SetRenderTarget'') (fo_real s)\<rparr>)
         else (let shielded = (g_deviceGuard s \<and> ''SetRenderTarget'' \<in> set (fo_real s));
                   s = (if hookResources then s\<lparr>g_resourceHooksInstalled := True\<rparr> else s);
                   (fps, s) = ResolveTargetFps (de_getenv de) (s\<lparr>g_installed := True\<rparr>)
               in (True, map AttachMethod ms @ (if shielded then [GuardOn] else []) @
                         (if hookResources then [ResourceHooksLive] else []) @ [Installed fps], s)))"

definition InstallFrameObserver :: "d3d_env \<Rightarrow> frame_observer \<Rightarrow> bool \<times> d3d_line list \<times> frame_observer" where
  "InstallFrameObserver de s =
     (if g_installed s then (True, [], s)
      else if \<not> de_logger de then (False, [], s)
      else (let s = s\<lparr>g_qpcFrequency := de_frequency de\<rparr>
            in if \<not> de_library de then (False, [Installing, NoLibrary], s)
               else if \<not> de_direct3d de then (False, [Installing, NoDirect3D], s)
               else if \<not> de_device de then (False, [Installing, NoDevice], s)
               else (case attach_methods de s of (ok, ev, s) \<Rightarrow> (ok, Installing # ev, s))))"

text \<open>The percentage in the line is the quotient of its numbers.  \<open>handle\<close>: the library is loaded.\<close>

definition UninstallFrameObserver :: "bool \<Rightarrow> bool \<Rightarrow> frame_observer \<Rightarrow> d3d_line list \<times> frame_observer" where
  "UninstallFrameObserver lg handle s =
     (if ''Present'' \<notin> set (fo_real s) then ([], s)
      else (let ms = filter (\<lambda>m. m \<in> set (fo_real s)) resource_methods;
                ev0 = (if g_resourceHooksInstalled s then map DetachMethod ms else []);
                ev1 = [DetachMethod ''Present''] @
                      (if ''SetRenderTarget'' \<in> set (fo_real s) then [DetachMethod ''SetRenderTarget''] else []);
                ev2 = (if lg then [Removed (g_presentCallCount s) (g_hitchCount s), LostTotals (g_deviceLostEvents s) (g_guardedCallCount s)]
                       else [])
            in (ev0 @ ev1 @ ev2 @ (if handle then [FreeD3DLibrary] else []),
                s\<lparr>g_resourceHooksInstalled := False, g_installed := False,
                  fo_real := filter (\<lambda>m. m \<noteq> ''Present'' \<and> m \<noteq> ''SetRenderTarget'') (fo_real s)\<rparr>)))"

text \<open>
  Both halves together: the observer of reads is installed and removed whatever becomes of the
  observer of frames.
\<close>

record observers =
  ob_install :: read_install
  ob_reads :: read_observer
  ob_frames :: frame_observer

datatype observer_line = OfReads observe_line | OfFrames d3d_line

definition ObserverHooks_Install ::
  "d3d_env \<Rightarrow> bool \<Rightarrow> u32 \<Rightarrow> observers \<Rightarrow> bool \<times> observer_line list \<times> observers" where
  "ObserverHooks_Install de found commit ob =
     (case InstallReadFileObserver (de_logger de) found commit (ob_install ob, ob_reads ob) of
        (ok, l, i, r) \<Rightarrow>
          (case InstallFrameObserver de (ob_frames ob) of
             (ok', l', f) \<Rightarrow> (ok', map OfReads l @ map OfFrames l', \<lparr>ob_install = i, ob_reads = r, ob_frames = f\<rparr>)))"

definition ObserverHooks_Uninstall :: "bool \<Rightarrow> bool \<Rightarrow> observers \<Rightarrow> bool \<times> observer_line list \<times> observers" where
  "ObserverHooks_Uninstall lg handle ob =
     (case UninstallReadFileObserver (ob_install ob) of
        (detached, i) \<Rightarrow>
          (case UninstallFrameObserver lg handle (ob_frames ob) of
             (l, f) \<Rightarrow> (detached, map OfFrames l, ob\<lparr>ob_install := i, ob_frames := f\<rparr>)))"

definition ObserverHooks_IsInstalled :: "frame_observer \<Rightarrow> bool" where
  "ObserverHooks_IsInstalled s = g_installed s"

end
