(* ===== verification/FrameObserverProps.thy ===== *)
theory FrameObserverProps
  imports FrameObserver
begin

section \<open>What the frame observer promises\<close>

subsection \<open>Lost devices\<close>

datatype frame_call =
    Present u32 present_call
  | SetRenderTarget bool u32 "u32 option"

fun frame_do :: "frame_call \<Rightarrow> frame_observer \<Rightarrow> u32 \<times> frame_event list \<times> frame_observer" where
  "frame_do (Present real c) s = Hooked_Present real c s"
| "frame_do (SetRenderTarget lg real coop) s = Hooked_SetRenderTarget lg real coop s"

fun frame_run :: "frame_call list \<Rightarrow> frame_observer \<Rightarrow> frame_event list \<times> frame_observer" where
  "frame_run [] s = ([], s)"
| "frame_run (c # cs) s =
     (case frame_do c s of (r, ev, s) \<Rightarrow> (case frame_run cs s of (ev', s) \<Rightarrow> (ev @ ev', s)))"

fun with_log :: "frame_call \<Rightarrow> bool" where
  "with_log (Present real c) = pc_logger c"
| "with_log (SetRenderTarget lg real coop) = lg"

text \<open>
  Do the lines about the device alternate, from one state of the device to another; and how often
  was it lost.
\<close>

fun device_lines :: "bool \<Rightarrow> frame_event list \<Rightarrow> bool option" where
  "device_lines lost [] = Some lost"
| "device_lines lost (LostLine c # ev) = (if lost then None else device_lines True ev)"
| "device_lines lost (RecoveredLine # ev) = (if lost then device_lines False ev else None)"
| "device_lines lost (e # ev) = device_lines lost ev"

fun losses :: "frame_event list \<Rightarrow> nat" where
  "losses [] = 0"
| "losses (LostLine c # ev) = Suc (losses ev)"
| "losses (e # ev) = losses ev"

definition tells :: "frame_observer \<Rightarrow> frame_event list \<Rightarrow> frame_observer \<Rightarrow> bool" where
  "tells s ev s' \<longleftrightarrow> device_lines (g_deviceLost s) ev = Some (g_deviceLost s') \<and>
                      g_deviceLostEvents s' = g_deviceLostEvents s + of_nat (losses ev)"

lemma device_lines_append:
  "device_lines b (ev @ ev') = (case device_lines b ev of None \<Rightarrow> None | Some b' \<Rightarrow> device_lines b' ev')"
  by (induction b ev rule: device_lines.induct) auto

lemma losses_append: "losses (ev @ ev') = losses ev + losses ev'"
  by (induction ev rule: losses.induct) auto

lemma tells_trans: "tells s ev s' \<Longrightarrow> tells s' ev' s'' \<Longrightarrow> tells s (ev @ ev') s''"
  by (simp add: tells_def device_lines_append losses_append add.assoc)

text \<open>Steps that leave the device alone.\<close>

definition other_lines :: "frame_event list \<Rightarrow> bool" where
  "other_lines ev \<longleftrightarrow> (\<forall>b. device_lines b ev = Some b) \<and> losses ev = 0"

definition same_device :: "frame_observer \<Rightarrow> frame_observer \<Rightarrow> bool" where
  "same_device s s' \<longleftrightarrow> g_deviceLost s' = g_deviceLost s \<and> g_deviceLostEvents s' = g_deviceLostEvents s"

lemma tells_other: "other_lines ev \<Longrightarrow> same_device s s' \<Longrightarrow> tells s ev s'"
  by (simp add: tells_def other_lines_def same_device_def)

lemma NoteCoopLevel_tells: "NoteCoopLevel True c s = (ev, s') \<Longrightarrow> tells s ev s'"
  by (auto simp: NoteCoopLevel_def tells_def Let_def split: if_splits)

lemma note_frame_time_tells: "note_frame_time c n st s = (ev, s') \<Longrightarrow> tells s ev s'"
  by (rule tells_other) (auto simp: note_frame_time_def other_lines_def same_device_def Let_def split: if_splits)

lemma pace_frame_other: "pace_frame c fps lost s = (ev, t) \<Longrightarrow> other_lines ev"
  by (auto simp: pace_frame_def other_lines_def Let_def split: if_splits option.splits)

lemma ResolveTargetFps_device: "ResolveTargetFps g s = (fps, s') \<Longrightarrow> same_device s s'"
  by (auto simp: ResolveTargetFps_def same_device_def Let_def split: if_splits)

text \<open>The stages of a frame.\<close>

lemma present_body_parts:
  obtains fps s1 ev1 s2 coop ev2 s3 ev3 t where
    "ResolveTargetFps (pc_getenv c) s = (fps, s1)"
    "note_frame_time c (g_hitchLogInterval s1) (g_captureHitchStacks s1) s1 = (ev1, s2)"
    "(case coop of None \<Rightarrow> ([], s2) | Some k \<Rightarrow> NoteCoopLevel (pc_logger c) k s2) = (ev2, s3)"
    "pace_frame c fps (case coop of None \<Rightarrow> False | Some k \<Rightarrow> k \<noteq> D3D_OK) s3 = (ev3, t)"
    "present_body c s = ((if pc_detector c then [CheckApis] else []) @ ev1 @ ev2 @ ev3,
       s3\<lparr>g_lastPresentTime := t, g_presentCallCount := g_presentCallCount s3 + 1\<rparr>)"
proof -
  obtain fps s1 where r: "ResolveTargetFps (pc_getenv c) s = (fps, s1)" by (metis prod.exhaust)
  obtain ev1 s2 where n: "note_frame_time c (g_hitchLogInterval s1) (g_captureHitchStacks s1) s1 = (ev1, s2)" by (metis prod.exhaust)
  let ?coop = "if g_deviceGuard s2 then pc_coop c else None"
  obtain ev2 s3 where k: "(case ?coop of None \<Rightarrow> ([], s2) | Some k \<Rightarrow> NoteCoopLevel (pc_logger c) k s2) = (ev2, s3)" by (metis prod.exhaust)
  obtain ev3 t where p: "pace_frame c fps (case ?coop of None \<Rightarrow> False | Some k \<Rightarrow> k \<noteq> D3D_OK) s3 = (ev3, t)" by (metis prod.exhaust)
  show thesis
    by (rule that [OF r n k p]) (simp only: present_body_def Let_def r n k p prod.case)
qed

lemma present_body_tells:
  assumes "present_body c s = (ev, s')" "pc_logger c"
  shows "tells s ev s'"
proof -
  obtain fps s1 ev1 s2 coop ev2 s3 ev3 t where d:
    "ResolveTargetFps (pc_getenv c) s = (fps, s1)"
    "note_frame_time c (g_hitchLogInterval s1) (g_captureHitchStacks s1) s1 = (ev1, s2)"
    "(case coop of None \<Rightarrow> ([], s2) | Some k \<Rightarrow> NoteCoopLevel (pc_logger c) k s2) = (ev2, s3)"
    "pace_frame c fps (case coop of None \<Rightarrow> False | Some k \<Rightarrow> k \<noteq> D3D_OK) s3 = (ev3, t)"
    "present_body c s = ((if pc_detector c then [CheckApis] else []) @ ev1 @ ev2 @ ev3,
       s3\<lparr>g_lastPresentTime := t, g_presentCallCount := g_presentCallCount s3 + 1\<rparr>)"
    by (rule present_body_parts)
  have "tells s (if pc_detector c then [CheckApis] else []) s1"
    by (rule tells_other) (use ResolveTargetFps_device [OF d(1)] in \<open>auto simp: other_lines_def\<close>)
  moreover have "tells s1 ev1 s2" by (rule note_frame_time_tells [OF d(2)])
  moreover have "tells s2 ev2 s3"
    using d(3) assms(2) NoteCoopLevel_tells by (auto simp: tells_def split: option.splits)
  moreover have "tells s3 ev3 s'"
    by (rule tells_other [OF pace_frame_other [OF d(4)]]) (use assms(1) d(5) in \<open>auto simp: same_device_def\<close>)
  ultimately show ?thesis using assms(1) d(5) by (auto intro: tells_trans)
qed

lemma frame_do_tells:
  assumes "frame_do c s = (r, ev, s')" "with_log c"
  shows "tells s ev s'"
proof (cases c)
  case (Present real pc)
  show ?thesis
  proof (cases "''Present'' \<notin> set (fo_real s) \<or> g_inPresentHook s \<or> pc_shutting pc")
    case True
    then have "s' = s" "ev = [] \<or> ev = [RealPresent]" using assms Present by (auto simp: Hooked_Present_def split: if_splits)
    then show ?thesis by (auto simp: tells_def)
  next
    case False
    obtain ev1 s1 where b: "present_body pc (s\<lparr>g_inPresentHook := True\<rparr>) = (ev1, s1)" by (metis prod.exhaust)
    have "tells (s\<lparr>g_inPresentHook := True\<rparr>) ev1 s1" using present_body_tells [OF b] assms(2) Present by simp
    moreover have "ev = ev1 @ [RealPresent]" "s' = s1\<lparr>g_inPresentHook := False\<rparr>"
      using assms(1) Present False b by (auto simp: Hooked_Present_def)
    ultimately show ?thesis by (simp add: tells_def device_lines_append losses_append)
  qed
next
  case (SetRenderTarget lg real coop)
  show ?thesis
  proof (cases "''SetRenderTarget'' \<in> set (fo_real s) \<and> g_deviceGuard s \<and> coop \<noteq> None \<and> coop \<noteq> Some D3D_OK")
    case True
    then obtain k where k: "coop = Some k" "k \<noteq> D3D_OK" by auto
    obtain ev1 s1 where n: "NoteCoopLevel True k s = (ev1, s1)" by (metis prod.exhaust)
    have "ev = ev1" "s' = s1\<lparr>g_guardedCallCount := g_guardedCallCount s1 + 1\<rparr>"
      using assms SetRenderTarget True k n by (auto simp: Hooked_SetRenderTarget_def)
    then show ?thesis using NoteCoopLevel_tells [OF n] by (simp add: tells_def)
  next
    case False
    then have "s' = s" "ev = [] \<or> ev = [RealSetRenderTarget]"
      using assms SetRenderTarget by (auto simp: Hooked_SetRenderTarget_def split: if_splits option.splits)
    then show ?thesis by (auto simp: tells_def)
  qed
qed

lemma frame_run_tells: "frame_run cs s = (ev, s') \<Longrightarrow> list_all with_log cs \<Longrightarrow> tells s ev s'"
proof (induction cs arbitrary: s ev)
  case (Cons c cs)
  obtain r e1 s1 where d: "frame_do c s = (r, e1, s1)" by (metis prod_cases3)
  obtain e2 s2 where f: "frame_run cs s1 = (e2, s2)" by (metis prod.exhaust)
  have "ev = e1 @ e2" "s' = s2" using Cons.prems(1) d f by auto
  then show ?case using tells_trans [OF frame_do_tells [OF d] Cons.IH [OF f [folded \<open>s' = s2\<close>]]] Cons.prems(2) by simp
qed (simp add: tells_def)

lemma quiet_parts:
  "RealSetRenderTarget \<notin> set (fst (note_frame_time c n st s))" "RealSetRenderTarget \<notin> set (fst (NoteCoopLevel lg k s))"
  "RealSetRenderTarget \<notin> set (fst (pace_frame c fps lost s))"
  by (auto simp: note_frame_time_def NoteCoopLevel_def pace_frame_def Let_def split: option.splits)

lemma present_body_quiet: "RealSetRenderTarget \<notin> set (fst (present_body c s))"
proof -
  obtain fps s1 ev1 s2 coop ev2 s3 ev3 t where d:
    "ResolveTargetFps (pc_getenv c) s = (fps, s1)"
    "note_frame_time c (g_hitchLogInterval s1) (g_captureHitchStacks s1) s1 = (ev1, s2)"
    "(case coop of None \<Rightarrow> ([], s2) | Some k \<Rightarrow> NoteCoopLevel (pc_logger c) k s2) = (ev2, s3)"
    "pace_frame c fps (case coop of None \<Rightarrow> False | Some k \<Rightarrow> k \<noteq> D3D_OK) s3 = (ev3, t)"
    "present_body c s = ((if pc_detector c then [CheckApis] else []) @ ev1 @ ev2 @ ev3,
       s3\<lparr>g_lastPresentTime := t, g_presentCallCount := g_presentCallCount s3 + 1\<rparr>)"
    by (rule present_body_parts)
  have "RealSetRenderTarget \<notin> set ev1" using quiet_parts(1) d(2) by (metis fst_conv)
  moreover have "RealSetRenderTarget \<notin> set ev2"
  proof (cases coop)
    case None
    then show ?thesis using d(3) by auto
  next
    case (Some a)
    then show ?thesis using d(3) quiet_parts(2) [of "pc_logger c" a s2] by simp
  qed
  moreover have "RealSetRenderTarget \<notin> set ev3" using quiet_parts(3) d(4) by (metis fst_conv)
  ultimately show ?thesis by (simp add: d(5))
qed

subsection \<open>The shield\<close>

fun reaches :: "frame_call \<Rightarrow> bool" where
  "reaches (SetRenderTarget lg real coop) = (coop = None \<or> coop = Some D3D_OK)"
| "reaches (Present real c) = False"

fun shielded :: "frame_call \<Rightarrow> bool" where
  "shielded (SetRenderTarget lg real coop) = (coop \<noteq> None \<and> coop \<noteq> Some D3D_OK)"
| "shielded (Present real c) = False"

definition same_shield :: "frame_observer \<Rightarrow> frame_observer \<Rightarrow> bool" where
  "same_shield s s' \<longleftrightarrow> g_deviceGuard s' = g_deviceGuard s \<and> fo_real s' = fo_real s \<and> g_guardedCallCount s' = g_guardedCallCount s"

lemma shield_parts:
  "same_shield s (snd (ResolveTargetFps g s))" "same_shield s (snd (note_frame_time c n st s))"
  "same_shield s (snd (NoteCoopLevel lg k s))"
  by (auto simp: ResolveTargetFps_def note_frame_time_def NoteCoopLevel_def same_shield_def Let_def)

lemma Hooked_Present_shield:
  assumes "Hooked_Present real c s = (r, ev, s')"
  shows "same_shield s s'" "RealSetRenderTarget \<notin> set ev"
proof -
  have body: "same_shield t (snd (present_body c t))" for t
  proof -
    obtain fps s1 ev1 s2 coop ev2 s3 ev3 u where d:
      "ResolveTargetFps (pc_getenv c) t = (fps, s1)"
      "note_frame_time c (g_hitchLogInterval s1) (g_captureHitchStacks s1) s1 = (ev1, s2)"
      "(case coop of None \<Rightarrow> ([], s2) | Some k \<Rightarrow> NoteCoopLevel (pc_logger c) k s2) = (ev2, s3)"
      "pace_frame c fps (case coop of None \<Rightarrow> False | Some k \<Rightarrow> k \<noteq> D3D_OK) s3 = (ev3, u)"
      "present_body c t = ((if pc_detector c then [CheckApis] else []) @ ev1 @ ev2 @ ev3,
         s3\<lparr>g_lastPresentTime := u, g_presentCallCount := g_presentCallCount s3 + 1\<rparr>)"
      by (rule present_body_parts)
    have "same_shield t s1" "same_shield s1 s2" using shield_parts(1,2) d(1,2) by (metis snd_conv)+
    moreover have "same_shield s2 s3"
    proof (cases coop)
      case None
      then show ?thesis using d(3) by (simp add: same_shield_def)
    next
      case (Some a)
      then show ?thesis using d(3) shield_parts(3) [of s2 "pc_logger c" a] by simp
    qed
    ultimately show ?thesis by (simp add: d(5) same_shield_def)
  qed
  obtain e1 s1 where b: "present_body c (s\<lparr>g_inPresentHook := True\<rparr>) = (e1, s1)" by (metis prod.exhaust)
  have f: "same_shield s s1" "RealSetRenderTarget \<notin> set e1"
    using body [of "s\<lparr>g_inPresentHook := True\<rparr>"] present_body_quiet [of c "s\<lparr>g_inPresentHook := True\<rparr>"] b
    by (simp_all add: same_shield_def)
  show "same_shield s s'" "RealSetRenderTarget \<notin> set ev"
    using assms f by (auto simp: Hooked_Present_def b same_shield_def split: if_splits)
qed

lemma count_none: "e \<notin> set ev \<Longrightarrow> count_list ev e = 0"
  by (induction ev) auto

lemma frame_do_shield:
  assumes "frame_do c s = (r, ev, s')" "g_deviceGuard s" "''SetRenderTarget'' \<in> set (fo_real s)"
  shows "count_list ev RealSetRenderTarget = (if reaches c then 1 else 0) \<and>
         g_guardedCallCount s' = g_guardedCallCount s + (if shielded c then 1 else 0) \<and>
         g_deviceGuard s' \<and> ''SetRenderTarget'' \<in> set (fo_real s')"
proof (cases c)
  case (Present real pc)
  then show ?thesis using assms Hooked_Present_shield [of real pc s r ev s'] by (auto simp: same_shield_def count_none)
next
  case (SetRenderTarget lg real coop)
  show ?thesis
  proof (cases "shielded c")
    case True
    then obtain k where k: "coop = Some k" "k \<noteq> D3D_OK" using SetRenderTarget by auto
    obtain e1 s1 where n: "NoteCoopLevel lg k s = (e1, s1)" by (metis prod.exhaust)
    have "same_shield s s1" "RealSetRenderTarget \<notin> set e1" using shield_parts(3) quiet_parts(2) n by (metis snd_conv, metis fst_conv)
    then show ?thesis using assms SetRenderTarget k n True
      by (auto simp: Hooked_SetRenderTarget_def same_shield_def count_none)
  next
    case False
    then show ?thesis using assms SetRenderTarget by (auto simp: Hooked_SetRenderTarget_def)
  qed
qed

text \<open>C33: A lost device is shielded and its losses are told once: in any run of frames and render-target
  changes the lines about the device alternate between lost and recovered and end in its last seen
  state, the counter counts the losses, and a change of the render target goes to the driver exactly
  when the device does not report itself lost; the others are counted as guarded.
\<close>

theorem lost_device_is_shielded:
  assumes "frame_run cs s = (ev, s')" "list_all with_log cs" "g_deviceGuard s" "''SetRenderTarget'' \<in> set (fo_real s)"
  shows "device_lines (g_deviceLost s) ev = Some (g_deviceLost s') \<and>
         g_deviceLostEvents s' = g_deviceLostEvents s + of_nat (losses ev) \<and>
         count_list ev RealSetRenderTarget = length (filter reaches cs) \<and>
         g_guardedCallCount s' = g_guardedCallCount s + of_nat (length (filter shielded cs))"
proof -
  have "count_list ev RealSetRenderTarget = length (filter reaches cs) \<and>
        g_guardedCallCount s' = g_guardedCallCount s + of_nat (length (filter shielded cs))"
    using assms(1,3,4)
  proof (induction cs arbitrary: s ev)
    case (Cons c cs)
    obtain r e1 s1 where d: "frame_do c s = (r, e1, s1)" by (metis prod_cases3)
    obtain e2 s2 where f: "frame_run cs s1 = (e2, s2)" by (metis prod.exhaust)
    have e: "ev = e1 @ e2" "s' = s2" using Cons.prems(1) d f by auto
    note h = frame_do_shield [OF d Cons.prems(2,3)]
    note ih = Cons.IH [OF f [folded e(2)]]
    show ?case using h ih e(1) by (auto simp: count_list_append)
  qed simp
  then show ?thesis using frame_run_tells [OF assms(1,2)] by (simp add: tells_def)
qed

definition demo_frames :: frame_observer where
  "demo_frames = \<lparr>g_installed = True, g_capInit = True, g_targetFps = 60, g_captureHitchStacks = False, g_hitchLogInterval = 25,
     g_inPresentHook = False, g_lastPresentTime = 0, g_qpcFrequency = 10000000, g_presentCallCount = 0, g_hitchCount = 0,
     g_stackCaptureFailures = 0, g_resourceHooksInstalled = True, g_deviceGuard = True, g_deviceLost = False,
     g_deviceLostEvents = 0, g_guardedCallCount = 0, fo_real = [''Present'', ''SetRenderTarget'']\<rparr>"

definition demo_present :: "int \<Rightarrow> u32 \<Rightarrow> present_call" where
  "demo_present now coop = \<lparr>pc_shutting = False, pc_detector = False, pc_logger = True, pc_now = now, pc_after = now,
     pc_coop = Some coop, pc_getenv = \<lambda>_. None, pc_walker = False, pc_captured = False, pc_timer = True\<rparr>"

lemma lost_device_is_shielded_witness:
  "\<exists>ev s'. frame_run [Present 0 (demo_present 1000 0), SetRenderTarget True 0 (Some 0x88760868), Present 0 (demo_present 2000 0)]
        demo_frames = (ev, s') \<and> g_deviceLostEvents s' = 1 \<and> \<not> g_deviceLost s' \<and> g_guardedCallCount s' = 1 \<and>
     count_list ev RealSetRenderTarget = 0 \<and> losses ev = 1"
proof -
  let ?cs = "[Present 0 (demo_present 1000 0), SetRenderTarget True 0 (Some 0x88760868), Present 0 (demo_present 2000 0)]"
  have "\<exists>ev s'. frame_run ?cs demo_frames = (ev, s') \<and> losses ev = 1 \<and> \<not> g_deviceLost s'"
    by (simp add: demo_frames_def demo_present_def Hooked_Present_def present_body_def ResolveTargetFps_def note_frame_time_def
        NoteCoopLevel_def pace_frame_def FrameCapWait_def Hooked_SetRenderTarget_def D3D_OK_def HITCH_THRESHOLD_MS_def Let_def)
  then obtain ev s' where r: "frame_run ?cs demo_frames = (ev, s')" "losses ev = 1" "\<not> g_deviceLost s'" by blast
  have h: "list_all with_log ?cs" "g_deviceGuard demo_frames" "''SetRenderTarget'' \<in> set (fo_real demo_frames)"
    by (simp_all add: demo_present_def demo_frames_def)
  show ?thesis
    using lost_device_is_shielded [OF r(1) h] r by (simp add: demo_frames_def D3D_OK_def)
qed

subsection \<open>The two lanes\<close>

datatype resource_call =
    Texture "u32 option" u32 u32 u32 u32 u32 u32
  | CubeTexture "u32 option" u32 u32 u32 u32 u32
  | VolumeTexture "u32 option" u32 u32 u32 u32 u32 u32 u32
  | VertexBuffer "u32 option" u32 u32 u32
  | IndexBuffer "u32 option" u32 u32 u32

fun resource_do :: "bool \<Rightarrow> bool \<Rightarrow> resource_call \<Rightarrow> u32 \<times> (string \<times> u64) list" where
  "resource_do an sh (Texture real w h levels usage fmt pool) = Hooked_CreateTexture an sh real w h levels usage fmt pool"
| "resource_do an sh (CubeTexture real edge levels usage fmt pool) = Hooked_CreateCubeTexture an sh real edge levels usage fmt pool"
| "resource_do an sh (VolumeTexture real w h d levels usage fmt pool) = Hooked_CreateVolumeTexture an sh real w h d levels usage fmt pool"
| "resource_do an sh (VertexBuffer real len usage pool) = Hooked_CreateVertexBuffer an sh real len usage pool"
| "resource_do an sh (IndexBuffer real len usage pool) = Hooked_CreateIndexBuffer an sh real len usage pool"

definition resource_run :: "bool \<Rightarrow> bool \<Rightarrow> resource_call list \<Rightarrow> (string \<times> u64) list" where
  "resource_run an sh cs = concat (map (snd \<circ> resource_do an sh) cs)"

definition added :: "string \<Rightarrow> (string \<times> u64) list \<Rightarrow> u64" where
  "added n incs = sum_list (map snd (filter (\<lambda>e. fst e = n) incs))"

definition resource_names :: "string \<Rightarrow> string list" where
  "resource_names sfx =
     concat (map (\<lambda>k. map (\<lambda>t. ''D3D9_'' @ k @ ''_'' @ t @ sfx) [''Default'', ''Managed'', ''SystemMem'', ''Scratch'', ''Other''])
       [''Texture'', ''CubeTex'', ''VolumeTex'', ''VertexBuf'', ''IndexBuf''])"

lemma added_simps [simp]:
  "added n [] = 0" "added n ((m, x) # incs) = (if m = n then x else 0) + added n incs"
  "added n (a @ b) = added n a + added n b"
  by (simp_all add: added_def)

definition lanes_balanced :: "(string \<times> u64) list \<Rightarrow> bool" where
  "lanes_balanced incs \<longleftrightarrow>
     (\<Sum>n\<leftarrow>resource_names ''_Bytes''. added n incs) = added ''D3D9_Contained_Bytes'' incs + added ''D3D9_Excluded_Bytes'' incs \<and>
     (\<Sum>n\<leftarrow>resource_names ''_Count''. added n incs) = added ''D3D9_Contained_Count'' incs + added ''D3D9_Excluded_Count'' incs"

text \<open>The names are different, so the sum over the names counts each entry with such a name once.\<close>

lemma sum_added:
  assumes "distinct ns"
  shows "(\<Sum>n\<leftarrow>ns. added n incs) = sum_list (map snd (filter (\<lambda>e. fst e \<in> set ns) incs))"
proof (induction incs)
  case (Cons e incs)
  have "(\<Sum>n\<leftarrow>ns. if fst e = n then snd e else 0) = (if fst e \<in> set ns then snd e else 0)"
    using assms by (induction ns) auto
  moreover have "added n (e # incs) = (if fst e = n then snd e else 0) + added n incs" for n by (cases e) simp
  ultimately show ?case using Cons by (simp add: sum_list_addf)
qed simp

lemma resource_names_distinct: "distinct (resource_names ''_Bytes'')" "distinct (resource_names ''_Count'')"
  by code_simp+

lemma resource_names_last: "n \<in> set (resource_names sfx) \<Longrightarrow> sfx \<noteq> [] \<Longrightarrow> last n = last sfx"
  by (auto simp: resource_names_def)

lemma lane_names_apart:
  "list_all (\<lambda>n. n \<notin> set (resource_names ''_Bytes'') \<and> n \<notin> set (resource_names ''_Count''))
     [''D3D9_Contained_Count'', ''D3D9_Contained_Bytes'', ''D3D9_Excluded_Count'', ''D3D9_Excluded_Bytes'']"
  by code_simp

lemma four_entries:
  assumes "cnt \<in> C" "cnt \<notin> B" "byt \<in> B" "byt \<notin> C" "lc = cc \<and> lb = cb \<or> lc = ec \<and> lb = eb"
    "distinct [cc, cb, ec, eb]" "list_all (\<lambda>n. n \<notin> B \<and> n \<notin> C) [cc, cb, ec, eb]" "evs = [(cnt, 1), (byt, x), (lc, 1), (lb, x)]"
  shows "sum_list (map snd (filter (\<lambda>e. fst e \<in> B) evs)) = added cb evs + added eb evs"
    "sum_list (map snd (filter (\<lambda>e. fst e \<in> C) evs)) = added cc evs + added ec evs"
  using assms by auto

lemma lanes_balanced_four:
  assumes "cnt \<in> set (resource_names ''_Count'')" "cnt \<notin> set (resource_names ''_Bytes'')"
    "byt \<in> set (resource_names ''_Bytes'')" "byt \<notin> set (resource_names ''_Count'')"
    "lc = ''D3D9_Contained_Count'' \<and> lb = ''D3D9_Contained_Bytes'' \<or> lc = ''D3D9_Excluded_Count'' \<and> lb = ''D3D9_Excluded_Bytes''"
  shows "lanes_balanced [(cnt, 1), (byt, x), (lc, 1), (lb, x)]"
proof -
  have d: "distinct [''D3D9_Contained_Count'', ''D3D9_Contained_Bytes'', ''D3D9_Excluded_Count'', ''D3D9_Excluded_Bytes'']" by simp
  show ?thesis
    unfolding lanes_balanced_def sum_added [OF resource_names_distinct(1)] sum_added [OF resource_names_distinct(2)]
    using four_entries [OF assms d lane_names_apart refl] by (rule conjI)
qed

lemma TallyResource_balanced:
  assumes "kind \<in> {''Texture'', ''CubeTex'', ''VolumeTex'', ''VertexBuf'', ''IndexBuf''}"
  shows "lanes_balanced (TallyResource an kind pool bytes dyn)"
proof -
  define p where "p = ''D3D9_'' @ kind @ ''_'' @ PoolTag pool"
  have "PoolTag pool \<in> {''Default'', ''Managed'', ''SystemMem'', ''Scratch'', ''Other''}" by (simp add: PoolTag_def)
  then have m: "p @ sfx \<in> set (resource_names sfx)" for sfx using assms unfolding resource_names_def p_def by force
  have n: "p @ ''_Count'' \<notin> set (resource_names ''_Bytes'')" "p @ ''_Bytes'' \<notin> set (resource_names ''_Count'')"
    using resource_names_last [of "p @ ''_Count''" "''_Bytes''"] resource_names_last [of "p @ ''_Bytes''" "''_Count''"] by auto
  have "ln @ ''_Count'' = ''D3D9_Contained_Count'' \<and> ln @ ''_Bytes'' = ''D3D9_Contained_Bytes'' \<or>
      ln @ ''_Count'' = ''D3D9_Excluded_Count'' \<and> ln @ ''_Bytes'' = ''D3D9_Excluded_Bytes''"
    if "ln = (if PoolIsContained pool \<and> \<not> dyn then ''D3D9_Contained'' else ''D3D9_Excluded'')" for ln
    using that by simp
  from lanes_balanced_four [OF m n(1) m n(2) this [OF refl], of "ucast bytes"]
  have "lanes_balanced (TallyResource True kind pool bytes dyn)" by (simp only: TallyResource_def Let_def p_def not_True_eq_False if_False)
  moreover have "lanes_balanced (TallyResource False kind pool bytes dyn)" by (simp add: TallyResource_def lanes_balanced_def)
  ultimately show ?thesis by (cases an) simp_all
qed

lemma created_balanced:
  assumes "kind \<in> {''Texture'', ''CubeTex'', ''VolumeTex'', ''VertexBuf'', ''IndexBuf''}"
  shows "lanes_balanced (snd (created an sh real kind usage pool bytes))"
  using TallyResource_balanced [OF assms] by (simp add: created_def lanes_balanced_def split: option.split)

lemma resource_do_balanced: "lanes_balanced (snd (resource_do an sh c))"
  by (cases c) (simp_all add: Hooked_CreateTexture_def Hooked_CreateCubeTexture_def Hooked_CreateVolumeTexture_def
      Hooked_CreateVertexBuffer_def Hooked_CreateIndexBuffer_def created_balanced)

text \<open>The two lanes account for every resource: after any run of creations the bytes and the numbers
  counted by kind and pool add up to those of the contained and the excluded lane.
\<close>

theorem lanes_account_for_resources:
  "(\<Sum>n\<leftarrow>resource_names ''_Bytes''. added n (resource_run an sh cs)) =
     added ''D3D9_Contained_Bytes'' (resource_run an sh cs) + added ''D3D9_Excluded_Bytes'' (resource_run an sh cs) \<and>
   (\<Sum>n\<leftarrow>resource_names ''_Count''. added n (resource_run an sh cs)) =
     added ''D3D9_Contained_Count'' (resource_run an sh cs) + added ''D3D9_Excluded_Count'' (resource_run an sh cs)"
proof -
  have "lanes_balanced (resource_run an sh cs)"
  proof (induction cs)
    case Nil
    show ?case by (simp add: resource_run_def lanes_balanced_def)
  next
    case (Cons c cs)
    have "resource_run an sh (c # cs) = snd (resource_do an sh c) @ resource_run an sh cs" by (simp add: resource_run_def)
    then show ?case using Cons.IH resource_do_balanced [of an sh c]
      by (simp add: lanes_balanced_def sum_list_addf)
  qed
  then show ?thesis by (simp add: lanes_balanced_def)
qed

subsection \<open>The frame cap\<close>






end
