(* ===== verification/Logging.thy ===== *)
theory Logging
  imports MapView
begin

section \<open>The loggers\<close>

text \<open>
  \<open>Logger.cpp\<close> and \<open>EmergencyLogger.cpp\<close>.  A handle is the path of the file it is open on, and what
  reaches files, the console and the debugger are events.  Whether a file can be opened, and what
  \<open>wsprintfA\<close> makes of a line (it is documented to stop at 1024 bytes), the system decides.  The
  message is given as it comes out of its format.
\<close>

subsection \<open>Text\<close>

definition digit :: "nat \<Rightarrow> char" where "digit d = ''0123456789'' ! d"

fun dec :: "nat \<Rightarrow> string" where
  "dec n = (if n < 10 then [digit n] else dec (n div 10) @ [digit (n mod 10)])"

declare dec.simps [simp del]

definition pad :: "nat \<Rightarrow> nat \<Rightarrow> string" where
  "pad w n = replicate (w - length (dec n)) CHR ''0'' @ dec n"

fun has_prefix :: "string \<Rightarrow> string \<Rightarrow> bool" where
  "has_prefix [] s = True"
| "has_prefix (c # p) [] = False"
| "has_prefix (c # p) (d # s) = (c = d \<and> has_prefix p s)"

fun strstr :: "string \<Rightarrow> string \<Rightarrow> bool" where
  "strstr [] needle = (needle = [])"
| "strstr (c # s) needle = (has_prefix needle (c # s) \<or> strstr s needle)"

record systime =
  st_year :: nat
  st_month :: nat
  st_day :: nat
  st_hour :: nat
  st_minute :: nat
  st_second :: nat
  st_ms :: nat

definition stamp :: "systime \<Rightarrow> string" where
  "stamp t = pad 2 (st_month t) @ pad 2 (st_day t) @ ''_'' @ pad 2 (st_hour t) @ pad 2 (st_minute t)"

definition clock :: "systime \<Rightarrow> string" where
  "clock t = pad 2 (st_hour t) @ '':'' @ pad 2 (st_minute t) @ '':'' @ pad 2 (st_second t) @ ''.'' @ pad 3 (st_ms t)"

definition crlf :: string where "crlf = [CHR 0x0D, CHR 0x0A]"

definition log_path :: "string \<Rightarrow> string \<Rightarrow> string" where
  "log_path name st = ''C:'' @ [CHR 0x5C] @ ''ts3_tool'' @ [CHR 0x5C] @ name @ ''_'' @ st @ ''.txt''"

subsection \<open>State and events\<close>

text \<open>
  \<open>le_time\<close> is the local time, \<open>le_opens\<close> whether a file can be opened for writing now, \<open>le_console\<close>
  whether there is a console to write to.
\<close>

record log_env =
  le_telemetry :: bool
  le_time :: systime
  le_opens :: "string \<Rightarrow> bool"
  le_console :: bool
  le_wsprintf :: "string \<Rightarrow> string"

record logger =
  m_hFile :: "string option"
  m_initialized :: bool
  s_sessionStamp :: string
  s_mainLogPath :: string

datatype log_event =
    ConsoleMade
  | DirectoryMade bool
  | FileMade string
  | Wrote string string
  | FlushedFile string
  | FileShut string
  | DebugOut string
  | ConsoleOut string
  | Emergency string string

subsection \<open>Channels\<close>

definition ShouldSuppressConsoleNamed :: "string \<Rightarrow> bool" where
  "ShouldSuppressConsoleNamed name \<longleftrightarrow>
     list_ex (stricmp_eq name)
       [''MEMHOOK'', ''CPU_TABLE'', ''GPU_TABLE'', ''OBSERVE'', ''RESERVE_CTX'', ''ANALYTICS_REPORT'', ''GFX_SHADOW'']"

definition ShouldSuppressConsoleLine :: "string \<Rightarrow> bool" where
  "ShouldSuppressConsoleLine line = strstr line ''[HITCH]''"

definition ResolveNamedLogTarget :: "string \<Rightarrow> string" where
  "ResolveNamedLogTarget name =
     (if name = [] then name
      else if list_ex (stricmp_eq name) [''VAS_REPORT'', ''VAS_LOCAL_SOURCES'', ''SCRIPT_VAS'', ''VAS_SNAPSHOT'', ''VAS_SLOPE'']
      then ''VAS_COMBINED''
      else if list_ex (stricmp_eq name) [''PHASE_DIFF'', ''SERVER_REPORT'', ''PROXY_ARENA_REPORT'', ''RTL_ALLOC_REPORT'']
      then ''OPS_REPORT''
      else if list_ex (stricmp_eq name) [''CPU_TABLE'', ''GPU_TABLE''] then ''OBSERVE''
      else name)"

subsection \<open>Starting\<close>

definition AttachConsole :: "log_env \<Rightarrow> log_event list" where
  "AttachConsole le = (if le_telemetry le then [ConsoleMade] else [])"

definition Logger_new :: "logger" where
  "Logger_new = \<lparr>m_hFile = None, m_initialized = False, s_sessionStamp = [], s_mainLogPath = []\<rparr>"

text \<open>One line, as it is written to the main file and shown.\<close>

definition log_line :: "log_env \<Rightarrow> string \<Rightarrow> string \<Rightarrow> string" where
  "log_line le level msg =
     le_wsprintf le (''['' @ clock (le_time le) @ ''] ['' @ level @ ''] '' @ take 2047 msg @ crlf)"

definition named_line :: "log_env \<Rightarrow> string \<Rightarrow> string \<Rightarrow> string \<Rightarrow> string" where
  "named_line le name level msg =
     le_wsprintf le (''['' @ clock (le_time le) @ ''] ['' @ level @ ''] ['' @ name @ ''] '' @ take 2047 msg @ crlf)"

text \<open>The file of the build without telemetry is opened by the first error.\<close>

definition EnsureLazyLogFile :: "log_env \<Rightarrow> logger \<Rightarrow> log_event list \<times> logger" where
  "EnsureLazyLogFile le l =
     (if m_hFile l \<noteq> None \<or> s_mainLogPath l = [] \<or> \<not> le_opens le (s_mainLogPath l) then ([], l)
      else ([FileMade (s_mainLogPath l)], l\<lparr>m_hFile := Some (s_mainLogPath l)\<rparr>))"

definition shown :: "log_env \<Rightarrow> bool \<Rightarrow> string \<Rightarrow> log_event list" where
  "shown le quiet line =
     [DebugOut line] @ (if \<not> quiet \<and> \<not> ShouldSuppressConsoleLine line \<and> le_console le then [ConsoleOut line] else [])"

definition to_main :: "logger \<Rightarrow> string \<Rightarrow> log_event list" where
  "to_main l line = (case m_hFile l of None \<Rightarrow> [] | Some p \<Rightarrow> [Wrote p line])"

definition Log :: "log_env \<Rightarrow> string \<Rightarrow> string \<Rightarrow> logger \<Rightarrow> log_event list \<times> logger" where
  "Log le level msg l =
     (if \<not> m_initialized l \<or> \<not> le_telemetry le \<and> level \<noteq> ''ERROR'' then ([], l)
      else (case (if le_telemetry le then ([], l) else EnsureLazyLogFile le l) of
              (ev, l) \<Rightarrow> (ev @ shown le False (log_line le level msg) @ to_main l (log_line le level msg), l)))"

definition LogNamed :: "log_env \<Rightarrow> string \<Rightarrow> string \<Rightarrow> string \<Rightarrow> logger \<Rightarrow> log_event list" where
  "LogNamed le name level msg l =
     (if \<not> m_initialized l \<or> name = [] \<or> \<not> le_telemetry le then []
      else (let line = named_line le name level msg;
                p = log_path (ResolveNamedLogTarget name) (s_sessionStamp l)
            in shown le (ShouldSuppressConsoleNamed name) line @ to_main l line @
               (if le_opens le p then [Wrote p line] else [])))"

definition Logger_Init :: "log_env \<Rightarrow> string \<Rightarrow> logger \<Rightarrow> log_event list \<times> logger" where
  "Logger_Init le name l =
     (let ev0 = [Emergency ''Logger'' ''Init called'']
      in if m_initialized l then (ev0 @ [Emergency ''Logger'' ''Already initialized, returning''], l)
         else (let ev1 = ev0 @ AttachConsole le @ [Emergency ''Logger'' ''AttachConsole returned'', DirectoryMade False,
                                                   Emergency ''Logger'' ''CreateLogDirectory returned''];
                   st = stamp (le_time le)
               in if le_telemetry le
                  then (let p = log_path name st;
                            l = l\<lparr>s_sessionStamp := st, m_hFile := (if le_opens le p then Some p else None), m_initialized := True\<rparr>;
                            ev2 = ev1 @ [Emergency ''Logger'' (''Log path constructed: '' @ p), Emergency ''Logger'' ''Calling CreateFileA''] @
                                  (if le_opens le p then [FileMade p] else []) @ [Emergency ''Logger'' ''CreateFileA returned'']
                        in if m_hFile l = None then (ev2 @ [Emergency ''Logger'' ''FATAL: Failed to open log file''], l)
                           else (case Log le ''INFO'' (''Logger initialized. Log file: '' @ p) l of (ev3, l) \<Rightarrow> (ev2 @ ev3, l)))
                  else (ev1, l\<lparr>s_sessionStamp := st, s_mainLogPath := log_path ''xcpt'' st, m_hFile := None, m_initialized := True\<rparr>)))"

text \<open>The single instance.\<close>

definition Logger_Initialize :: "log_env \<Rightarrow> string \<Rightarrow> logger option \<Rightarrow> log_event list \<times> logger option" where
  "Logger_Initialize le name i =
     (case i of
        Some l \<Rightarrow> ([], Some l)
      | None \<Rightarrow> (case Logger_Init le name Logger_new of (ev, l) \<Rightarrow> (ev, Some l)))"

definition Logger_delete :: "log_env \<Rightarrow> logger \<Rightarrow> log_event list" where
  "Logger_delete le l =
     (if \<not> m_initialized l then []
      else (case Log le ''INFO'' ''Logger shutting down.'' l of
              (ev, l) \<Rightarrow> ev @ (case m_hFile l of None \<Rightarrow> [] | Some p \<Rightarrow> [FlushedFile p, FileShut p])))"

definition Logger_Shutdown :: "log_env \<Rightarrow> logger option \<Rightarrow> log_event list \<times> logger option" where
  "Logger_Shutdown le i = ((case i of None \<Rightarrow> [] | Some l \<Rightarrow> Logger_delete le l), None)"

definition Logger_Flush :: "logger \<Rightarrow> log_event list" where
  "Logger_Flush l = (if m_initialized l then (case m_hFile l of None \<Rightarrow> [] | Some p \<Rightarrow> [FlushedFile p]) else [])"

text \<open>The functions the program calls.\<close>

datatype log_call =
    Info string
  | Warn string
  | Error string
  | NamedInfo string string
  | NamedWarn string string
  | NamedError string string
  | Flush

fun log_do :: "log_env \<Rightarrow> log_call \<Rightarrow> logger \<Rightarrow> log_event list \<times> logger" where
  "log_do le (Info msg) l = Log le ''INFO'' msg l"
| "log_do le (Warn msg) l = Log le ''WARN'' msg l"
| "log_do le (Error msg) l = Log le ''ERROR'' msg l"
| "log_do le (NamedInfo name msg) l = (LogNamed le name ''INFO'' msg l, l)"
| "log_do le (NamedWarn name msg) l = (LogNamed le name ''WARN'' msg l, l)"
| "log_do le (NamedError name msg) l = (LogNamed le name ''ERROR'' msg l, l)"
| "log_do le Flush l = (Logger_Flush l, l)"

subsection \<open>The first error among threads\<close>

text \<open>
  The file is opened before the lock is taken.  A thread of the build without telemetry that reports
  an error reads the handle, opens the file when there is none, stores the result, and then writes
  under the lock.  The file is opened for one writer: while a handle is open, opening it again fails.
\<close>

datatype lazy_pc = Outside | Opening | Storing bool | Writing

record lazy_log =
  lz_handle :: bool
  lz_open :: nat
  lz_text :: "nat list"
  lz_pc :: "nat \<Rightarrow> lazy_pc"

definition lazy_start :: lazy_log where
  "lazy_start = \<lparr>lz_handle = False, lz_open = 0, lz_text = [], lz_pc = (\<lambda>_. Outside)\<rparr>"

definition lazy_do :: "nat \<Rightarrow> lazy_log \<Rightarrow> lazy_log" where
  "lazy_do i s =
     (case lz_pc s i of
        Outside \<Rightarrow> s\<lparr>lz_pc := (lz_pc s)(i := if lz_handle s then Writing else Opening)\<rparr>
      | Opening \<Rightarrow>
          if lz_open s = 0 then s\<lparr>lz_open := 1, lz_pc := (lz_pc s)(i := Storing True)\<rparr>
          else s\<lparr>lz_pc := (lz_pc s)(i := Storing False)\<rparr>
      | Storing ok \<Rightarrow> s\<lparr>lz_handle := ok, lz_pc := (lz_pc s)(i := Writing)\<rparr>
      | Writing \<Rightarrow>
          s\<lparr>lz_text := lz_text s @ (if lz_handle s then [i] else []), lz_pc := (lz_pc s)(i := Outside)\<rparr>)"

inductive lazy_run :: "lazy_log \<Rightarrow> lazy_log \<Rightarrow> bool" where
  stop: "lazy_run s s"
| step: "lazy_run s s' \<Longrightarrow> lazy_run s (lazy_do i s')"

inductive_cases lazy_runE: "lazy_run s s'"

subsection \<open>The emergency logger\<close>

text \<open>The instance: not made, or made with its file when that could be opened.\<close>

type_synonym emergency_logger = "string option option"

definition EmergencyLogger_Initialize :: "log_env \<Rightarrow> emergency_logger \<Rightarrow> log_event list \<times> emergency_logger" where
  "EmergencyLogger_Initialize le i =
     (case i of
        Some h \<Rightarrow> ([], Some h)
      | None \<Rightarrow>
          (let p = log_path ''main_log'' (stamp (le_time le))
           in if le_telemetry le \<and> le_opens le p then ([DirectoryMade True], Some (Some p)) else ([DirectoryMade True], Some None)))"

definition EmergencyLogger_Shutdown :: "emergency_logger \<Rightarrow> log_event list \<times> emergency_logger" where
  "EmergencyLogger_Shutdown i = ((case i of Some (Some p) \<Rightarrow> [FileShut p] | _ \<Rightarrow> []), None)"

definition emergency_line :: "log_env \<Rightarrow> nat \<Rightarrow> string \<Rightarrow> string \<Rightarrow> string" where
  "emergency_line le tid component msg =
     ''['' @ pad 4 (st_year (le_time le)) @ ''-'' @ pad 2 (st_month (le_time le)) @ ''-'' @ pad 2 (st_day (le_time le)) @ '' '' @
     clock (le_time le) @ ''] ['' @ component @ '':'' @ dec tid @ ''] '' @ msg @ crlf"

definition EmergencyLogger_Write :: "log_env \<Rightarrow> nat \<Rightarrow> string \<Rightarrow> string \<Rightarrow> emergency_logger \<Rightarrow> log_event list" where
  "EmergencyLogger_Write le tid component msg i =
     (case i of Some (Some p) \<Rightarrow> [Wrote p (emergency_line le tid component msg)] | _ \<Rightarrow> [])"

end
