(* ===== verification/LoggingProps.thy ===== *)
theory LoggingProps
  imports Logging
begin

section \<open>What the loggers promise\<close>

subsection \<open>Runs of calls\<close>

fun log_run :: "(log_env \<times> log_call) list \<Rightarrow> logger \<Rightarrow> log_event list \<times> logger" where
  "log_run [] l = ([], l)"
| "log_run ((le, c) # cs) l =
     (case log_do le c l of (ev, l) \<Rightarrow> (case log_run cs l of (ev', l) \<Rightarrow> (ev @ ev', l)))"

text \<open>The text that reaches a file, and how often a file is made.\<close>

fun text_in :: "string \<Rightarrow> log_event \<Rightarrow> string" where
  "text_in p (Wrote q s) = (if q = p then s else [])"
| "text_in p e = []"

definition written :: "string \<Rightarrow> log_event list \<Rightarrow> string" where
  "written p ev = concat (map (text_in p) ev)"

lemma written_simps [simp]:
  "written p [] = []" "written p (e # ev) = text_in p e @ written p ev" "written p (ev @ ev') = written p ev @ written p ev'"
  by (simp_all add: written_def)

lemma written_shown [simp]: "written p (shown le q line) = []"
  by (simp add: shown_def)

text \<open>The line of a call, and the channel it is for.\<close>

fun line_of :: "log_env \<Rightarrow> log_call \<Rightarrow> string" where
  "line_of le (Info msg) = log_line le ''INFO'' msg"
| "line_of le (Warn msg) = log_line le ''WARN'' msg"
| "line_of le (Error msg) = log_line le ''ERROR'' msg"
| "line_of le (NamedInfo name msg) = named_line le name ''INFO'' msg"
| "line_of le (NamedWarn name msg) = named_line le name ''WARN'' msg"
| "line_of le (NamedError name msg) = named_line le name ''ERROR'' msg"
| "line_of le Flush = []"

fun channel :: "log_call \<Rightarrow> string" where
  "channel (NamedInfo name msg) = name"
| "channel (NamedWarn name msg) = name"
| "channel (NamedError name msg) = name"
| "channel c = []"

definition routed :: "string \<Rightarrow> log_env \<times> log_call \<Rightarrow> bool" where
  "routed t c \<longleftrightarrow> channel (snd c) \<noteq> [] \<and> ResolveNamedLogTarget (channel (snd c)) = t"

fun is_log :: "log_call \<Rightarrow> bool" where
  "is_log (NamedInfo name msg) = (name \<noteq> [])"
| "is_log (NamedWarn name msg) = (name \<noteq> [])"
| "is_log (NamedError name msg) = (name \<noteq> [])"
| "is_log Flush = False"
| "is_log c = True"

definition lines_of :: "(log_env \<times> log_call \<Rightarrow> bool) \<Rightarrow> (log_env \<times> log_call) list \<Rightarrow> string" where
  "lines_of P cs = concat (map (\<lambda>(le, c). line_of le c) (filter P cs))"

lemma lines_of_simps [simp]:
  "lines_of P [] = []"
  "lines_of P ((le, c) # cs) = (if P (le, c) then line_of le c else []) @ lines_of P cs"
  by (simp_all add: lines_of_def)

text \<open>The telemetry build, with every file of the session at hand.\<close>

definition open_session :: "log_env \<times> log_call \<Rightarrow> bool" where
  "open_session c \<longleftrightarrow> le_telemetry (fst c) \<and> (\<forall>p. le_opens (fst c) p)"

lemma log_path_inj [simp]: "log_path a st = log_path b st \<longleftrightarrow> a = b"
  by (simp add: log_path_def)

lemma LogNamed_written:
  assumes "m_initialized l" "m_hFile l = Some main" "le_telemetry le" "\<And>p. le_opens le p"
    "main \<noteq> log_path t (s_sessionStamp l)"
  shows "written main (LogNamed le name level msg l) =
           (if name \<noteq> [] \<and> log_path (ResolveNamedLogTarget name) (s_sessionStamp l) \<noteq> main then named_line le name level msg
            else if name \<noteq> [] then named_line le name level msg @ named_line le name level msg else [])"
    and "written (log_path t (s_sessionStamp l)) (LogNamed le name level msg l) =
           (if name \<noteq> [] \<and> ResolveNamedLogTarget name = t then named_line le name level msg else [])"
  using assms by (auto simp: LogNamed_def to_main_def Let_def)

lemma Log_written:
  assumes "m_initialized l" "m_hFile l = Some main" "le_telemetry le"
  shows "snd (Log le level msg l) = l" "written main (fst (Log le level msg l)) = log_line le level msg"
    "p \<noteq> main \<Longrightarrow> written p (fst (Log le level msg l)) = []"
  using assms by (auto simp: Log_def to_main_def)

lemma log_do_written:
  assumes "log_do le c l = (ev, l')" "m_initialized l" "m_hFile l = Some main" "open_session (le, c)"
    "main = log_path m (s_sessionStamp l)" "t \<noteq> m" "\<not> routed m (le, c)"
  shows "l' = l" "written main ev = (if is_log c then line_of le c else [])"
    "written (log_path t (s_sessionStamp l)) ev = (if routed t (le, c) then line_of le c else [])"
proof -
  have e: "le_telemetry le" "\<And>p. le_opens le p" using assms(4) by (auto simp: open_session_def)
  note n = LogNamed_written [OF assms(2,3) e, of t] and g = Log_written [OF assms(2,3) e(1)]
  have ne: "main \<noteq> log_path t (s_sessionStamp l)" "log_path t (s_sessionStamp l) \<noteq> main" using assms(5,6) by simp_all
  show "l' = l" using assms(1) g(1) by (cases c) (auto simp: prod_eq_iff)
  show "written main ev = (if is_log c then line_of le c else [])"
    using assms(1,5,7) n(1) [OF ne(1)] g(2) by (cases c) (auto simp: routed_def Logger_Flush_def prod_eq_iff split: option.splits)
  show "written (log_path t (s_sessionStamp l)) ev = (if routed t (le, c) then line_of le c else [])"
    using assms(1) n(2) [OF ne(1)] g(3) [OF ne(2)]
    by (cases c) (auto simp: routed_def Logger_Flush_def prod_eq_iff split: option.splits)
qed

text \<open>In the telemetry build every line reaches the main file, in the order of the calls, and the file of
  a channel has exactly the lines of the channels that are routed to it, in that order, when no file
  of the session fails to open and no channel has the name of the main file.
\<close>

theorem channels_get_their_lines:
  assumes "log_run cs l = (ev, l')" "m_initialized l" "m_hFile l = Some (log_path m (s_sessionStamp l))"
    "list_all open_session cs" "list_all (\<lambda>c. \<not> routed m c) cs" "t \<noteq> m"
  shows "written (log_path m (s_sessionStamp l)) ev = lines_of (is_log \<circ> snd) cs \<and>
         written (log_path t (s_sessionStamp l)) ev = lines_of (routed t) cs"
  using assms(1,4,5)
proof (induction cs arbitrary: ev)
  case (Cons c cs)
  obtain le k where c: "c = (le, k)" by (metis prod.exhaust)
  obtain e1 l1 where d: "log_do le k l = (e1, l1)" by (metis prod.exhaust)
  obtain e2 l2 where r: "log_run cs l1 = (e2, l2)" by (metis prod.exhaust)
  have k: "open_session (le, k)" "\<not> routed m (le, k)" using Cons.prems(2,3) c by simp_all
  note w = log_do_written [OF d assms(2,3) k(1) refl assms(6) k(2)]
  have "l2 = l'" "ev = e1 @ e2" using Cons.prems(1) c d r by auto
  then show ?case using Cons.IH [of e2] Cons.prems(2,3) r w by (auto simp: c)
qed simp

subsection \<open>The build without telemetry\<close>

fun is_error :: "log_call \<Rightarrow> bool" where
  "is_error (Error msg) = True"
| "is_error c = False"

fun makes :: "log_event \<Rightarrow> bool" where
  "makes (FileMade p) = True"
| "makes e = False"

fun file_event :: "log_event \<Rightarrow> bool" where
  "file_event (FileMade p) = True"
| "file_event (Wrote p t) = True"
| "file_event (FlushedFile p) = True"
| "file_event (FileShut p) = True"
| "file_event e = False"

text \<open>A call of that build, while there is no file and once there is one.\<close>

definition lean :: "log_env \<times> log_call \<Rightarrow> bool" where
  "lean c \<longleftrightarrow> \<not> le_telemetry (fst c)"

lemma shown_no_file [simp]: "filter makes (shown le q line) = []" "filter file_event (shown le q line) = []"
  by (simp_all add: shown_def)

lemma lean_call:
  assumes "\<not> le_telemetry le" "c \<noteq> Flush"
  shows "log_do le c l =
    (if is_error c \<and> m_initialized l
     then (case EnsureLazyLogFile le l of (ev, l) \<Rightarrow> (ev @ shown le False (line_of le c) @ to_main l (line_of le c), l)) else ([], l))"
  using assms by (cases c) (simp_all add: Log_def LogNamed_def)

lemma lean_call_open:
  assumes "lean (le, c)" "m_initialized l" "m_hFile l = Some p" "log_do le c l = (ev, l')"
  shows "l' = l" "filter makes ev = []" "written p ev = (if is_error c then line_of le c else [])" "q \<noteq> p \<Longrightarrow> written q ev = []"
proof -
  have "l' = l \<and> filter makes ev = [] \<and> written p ev = (if is_error c then line_of le c else []) \<and> (q \<noteq> p \<longrightarrow> written q ev = [])"
  proof (cases "c = Flush")
    case True
    then show ?thesis using assms by (auto simp: Logger_Flush_def)
  next
    case False
    have "EnsureLazyLogFile le l = ([], l)" using assms(3) by (simp add: EnsureLazyLogFile_def)
    then show ?thesis using assms lean_call [of le c l] False by (auto simp: lean_def to_main_def)
  qed
  then show "l' = l" "filter makes ev = []" "written p ev = (if is_error c then line_of le c else [])" "q \<noteq> p \<Longrightarrow> written q ev = []"
    by blast+
qed

lemma lean_call_closed:
  assumes "lean (le, c)" "m_initialized l" "m_hFile l = None" "s_mainLogPath l = p" "p \<noteq> []" "log_do le c l = (ev, l')"
  shows "if is_error c \<and> le_opens le p
         then l' = l\<lparr>m_hFile := Some p\<rparr> \<and> hd (filter file_event ev) = FileMade p \<and> filter makes ev = [FileMade p] \<and>
              written p ev = line_of le c \<and> (q \<noteq> p \<longrightarrow> written q ev = []) \<and> filter file_event ev \<noteq> []
         else l' = l \<and> filter file_event ev = [] \<and> (\<not> is_error c \<longrightarrow> ev = [])"
proof (cases "c = Flush")
  case True
  then show ?thesis using assms by (auto simp: Logger_Flush_def)
next
  case False
  have "EnsureLazyLogFile le l = (if le_opens le p then ([FileMade p], l\<lparr>m_hFile := Some p\<rparr>) else ([], l))"
    using assms(3-5) by (simp add: EnsureLazyLogFile_def)
  then show ?thesis using assms lean_call [of le c l] False by (auto simp: lean_def to_main_def split: if_splits)
qed

lemma no_file_no_text: "filter file_event ev = [] \<Longrightarrow> written q ev = [] \<and> filter makes ev = []"
proof (induction ev)
  case (Cons e ev)
  then show ?case by (cases e) simp_all
qed simp

lemma lean_run_open:
  assumes "log_run cs l = (ev, l')" "m_initialized l" "m_hFile l = Some p" "list_all lean cs"
  shows "l' = l \<and> filter makes ev = [] \<and> written p ev = lines_of (is_error \<circ> snd) cs \<and> (q \<noteq> p \<longrightarrow> written q ev = [])"
  using assms(1,4)
proof (induction cs arbitrary: ev)
  case (Cons c cs)
  obtain le k where c: "c = (le, k)" by (metis prod.exhaust)
  obtain e1 l1 where d: "log_do le k l = (e1, l1)" by (metis prod.exhaust)
  obtain e2 l2 where r: "log_run cs l1 = (e2, l2)" by (metis prod.exhaust)
  have "lean (le, k)" using Cons.prems(2) c by simp
  note o = lean_call_open [OF this assms(2,3) d]
  have "ev = e1 @ e2" "l2 = l'" using Cons.prems(1) c d r by auto
  then show ?case using Cons.IH [of e2] Cons.prems(2) r o by (auto simp: c)
qed simp

text \<open>C38: The build without telemetry writes errors only.  A run without an error leaves no trace, its
  flushes included: no file, nothing shown.  In any run the file is made at most once, by the first
  error at which it can be opened; nothing is done with a file before that, no other file is written,
  and the file has the lines of the errors from that one on and nothing else.\<close>

theorem play_build_writes_errors_only:
  assumes "log_run cs l = (ev, l')" "m_initialized l" "m_hFile l = None" "s_mainLogPath l = p" "p \<noteq> []" "list_all lean cs"
    "heard = dropWhile (\<lambda>(le, c). \<not> (is_error c \<and> le_opens le p)) cs"
  shows "(list_all (\<lambda>c. \<not> is_error (snd c)) cs \<longrightarrow> ev = [] \<and> l' = l) \<and>
    (if heard = [] then filter file_event ev = [] \<and> m_hFile l' = None
     else hd (filter file_event ev) = FileMade p \<and> filter makes ev = [FileMade p] \<and> m_hFile l' = Some p) \<and>
    written p ev = lines_of (is_error \<circ> snd) heard \<and> (q \<noteq> p \<longrightarrow> written q ev = [])"
  using assms(1,6,7)
proof (induction cs arbitrary: ev heard)
  case Nil
  then show ?case using assms(3) by simp
next
  case (Cons c cs)
  obtain le k where c: "c = (le, k)" by (metis prod.exhaust)
  obtain e1 l1 where d: "log_do le k l = (e1, l1)" by (metis prod.exhaust)
  obtain e2 l2 where r: "log_run cs l1 = (e2, l2)" by (metis prod.exhaust)
  have n: "lean (le, k)" using Cons.prems(2) c by simp
  note o = lean_call_closed [OF n assms(2-5) d, of q]
  have ev: "ev = e1 @ e2" "l2 = l'" using Cons.prems(1) c d r by auto
  show ?case
  proof (cases "is_error k \<and> le_opens le p")
    case True
    then have l1: "m_initialized l1" "m_hFile l1 = Some p" using o assms(2) by simp_all
    have h: "heard = (le, k) # cs" using Cons.prems(3) True c by simp
    have "list_all lean cs" using Cons.prems(2) by simp
    from lean_run_open [OF r l1 this, of q] show ?thesis
      using True o ev h l1(2) by (auto simp: c hd_append comp_def)
  next
    case False
    then have e: "l1 = l" "filter file_event e1 = []" "\<not> is_error k \<Longrightarrow> e1 = []" using o by (auto split: if_splits)
    have h: "heard = dropWhile (\<lambda>(le, c). \<not> (is_error c \<and> le_opens le p)) cs" using Cons.prems(3) False c by simp
    from Cons.IH [OF _ _ h, of e2] show ?thesis
      using r ev e no_file_no_text [OF e(2)] Cons.prems(2) by (auto simp: c comp_def)
  qed
qed

subsection \<open>Two first errors at once\<close>

text \<open>
  The file is lost: no handle is kept although one is open, and no thread is about to store one.
\<close>

definition log_lost :: "lazy_log \<Rightarrow> bool" where
  "log_lost s \<longleftrightarrow> \<not> lz_handle s \<and> lz_open s \<noteq> 0 \<and> (\<forall>i. lz_pc s i \<noteq> Storing True)"

lemma lazy_do_lost:
  assumes "log_lost s" shows "log_lost (lazy_do i s)" "lz_text (lazy_do i s) = lz_text s"
  using assms by (auto simp: log_lost_def lazy_do_def split: lazy_pc.splits)

lemma lazy_run_lost:
  assumes "lazy_run s s'" "log_lost s" shows "log_lost s' \<and> lz_text s' = lz_text s"
  using assms by (induction rule: lazy_run.induct) (simp_all add: lazy_do_lost)

definition lazy_exec :: "nat list \<Rightarrow> lazy_log \<Rightarrow> lazy_log" where
  "lazy_exec is s = fold lazy_do is s"

lemma lazy_exec_run: "lazy_run s (lazy_exec is s)"
proof (induction "is" rule: rev_induct)
  case (snoc i "is")
  then show ?case using lazy_run.step [OF snoc, of i] by (simp add: lazy_exec_def)
qed (simp add: lazy_exec_def lazy_run.stop)

text \<open>C39: Two threads whose first errors meet can lose the crash file: when the thread that could not open it
  stores its failure after the other has stored its handle, no error of any thread is ever written
  again, whatever they do.
\<close>

theorem lost_log_stays_lost:
  assumes "lazy_run lazy_start s" "lz_handle s" "lz_pc s i = Storing False" "\<And>j. lz_pc s j \<noteq> Storing True"
    "lazy_run (lazy_do i s) s'"
  shows "lz_text s' = lz_text s \<and> \<not> lz_handle s'"
proof -
  have "lz_open s \<noteq> 0 \<or> \<not> lz_handle s \<and> (\<forall>j. lz_pc s j \<noteq> Storing True)" using assms(1)
    by (induction "lazy_start" s rule: lazy_run.induct)
       (auto simp: lazy_start_def lazy_do_def split: lazy_pc.splits if_splits)
  then have "log_lost (lazy_do i s)" using assms(2-4) by (auto simp: log_lost_def lazy_do_def)
  from lazy_run_lost [OF assms(5) this] show ?thesis
    using assms(3) by (auto simp: log_lost_def lazy_do_def)
qed

subsection \<open>Witnesses\<close>

definition demo_log_env :: "bool \<Rightarrow> log_env" where
  "demo_log_env telemetry =
     \<lparr>le_telemetry = telemetry,
      le_time = \<lparr>st_year = 2024, st_month = 3, st_day = 9, st_hour = 18, st_minute = 5, st_second = 7, st_ms = 42\<rparr>,
      le_opens = \<lambda>_. True, le_console = True, le_wsprintf = take 1023\<rparr>"

definition demo_calls :: "bool \<Rightarrow> (log_env \<times> log_call) list" where
  "demo_calls telemetry =
     map (\<lambda>c. (demo_log_env telemetry, c))
       [Info ''up'', NamedInfo ''VAS_SLOPE'' ''a'', NamedWarn ''vas_report'' ''b'', NamedInfo ''MEMHOOK'' ''c'', Error ''d'']"

lemma demo_routes:
  "ResolveNamedLogTarget ''VAS_SLOPE'' = ''VAS_COMBINED''" "ResolveNamedLogTarget ''vas_report'' = ''VAS_COMBINED''"
  "ResolveNamedLogTarget ''MEMHOOK'' = ''MEMHOOK''"
  by (simp_all add: ResolveNamedLogTarget_def stricmp_eq_def lower_def char_of_def bit_0)

definition demo_logger :: "bool \<Rightarrow> logger" where
  "demo_logger telemetry = snd (Logger_Init (demo_log_env telemetry) ''TS3VAS'' Logger_new)"

lemma demo_stamp: "stamp (le_time (demo_log_env b)) = ''0309_1805''"
  by code_simp

lemma Log_keeps: "le_telemetry le \<Longrightarrow> snd (Log le level msg l) = l"
  by (simp add: Log_def)

lemma demo_log_env_simps: "le_telemetry (demo_log_env b) = b" "le_opens (demo_log_env b) p"
  by (simp_all add: demo_log_env_def)

lemma demo_logger_fields:
  "m_initialized (demo_logger b)" "s_sessionStamp (demo_logger b) = ''0309_1805''"
  "m_hFile (demo_logger True) = Some (log_path ''TS3VAS'' ''0309_1805'')"
  "m_hFile (demo_logger False) = None" "s_mainLogPath (demo_logger False) = log_path ''xcpt'' ''0309_1805''"
proof -
  let ?p = "log_path ''TS3VAS'' ''0309_1805''"
  have t: "demo_logger True = \<lparr>m_hFile = Some ?p, m_initialized = True, s_sessionStamp = ''0309_1805'', s_mainLogPath = []\<rparr>"
    by (simp add: demo_logger_def Logger_Init_def Log_keeps Logger_new_def demo_stamp demo_log_env_simps Let_def case_prod_beta del: append.simps)
  have f: "demo_logger False = \<lparr>m_hFile = None, m_initialized = True, s_sessionStamp = ''0309_1805'',
      s_mainLogPath = log_path ''xcpt'' ''0309_1805''\<rparr>"
    by (simp add: demo_logger_def Logger_Init_def Logger_new_def demo_stamp demo_log_env_simps Let_def del: append.simps)
  show "m_initialized (demo_logger b)" "s_sessionStamp (demo_logger b) = ''0309_1805''" by (cases b; simp add: t f)+
  show "m_hFile (demo_logger True) = Some ?p" "m_hFile (demo_logger False) = None"
    "s_mainLogPath (demo_logger False) = log_path ''xcpt'' ''0309_1805''" by (simp_all add: t f)
qed

theorem channels_get_their_lines_witness:
  "written (log_path ''VAS_COMBINED'' ''0309_1805'') (fst (log_run (demo_calls True) (demo_logger True))) =
     named_line (demo_log_env True) ''VAS_SLOPE'' ''INFO'' ''a'' @ named_line (demo_log_env True) ''vas_report'' ''WARN'' ''b''"
proof -
  note f = demo_logger_fields(1) [of True] demo_logger_fields(2)
  have "list_all open_session (demo_calls True)" "list_all (\<lambda>c. \<not> routed ''TS3VAS'' c) (demo_calls True)"
    by (simp_all add: demo_calls_def demo_log_env_def open_session_def routed_def demo_routes)
  then have "written (log_path ''VAS_COMBINED'' (s_sessionStamp (demo_logger True))) (fst (log_run (demo_calls True) (demo_logger True))) =
      lines_of (routed ''VAS_COMBINED'') (demo_calls True)"
    using channels_get_their_lines [where cs = "demo_calls True" and m = "''TS3VAS''" and t = "''VAS_COMBINED''", OF prod.collapse [symmetric] f(1)]
    by (simp add: demo_logger_fields)
  also have "lines_of (routed ''VAS_COMBINED'') (demo_calls True) =
      named_line (demo_log_env True) ''VAS_SLOPE'' ''INFO'' ''a'' @ named_line (demo_log_env True) ''vas_report'' ''WARN'' ''b''"
    by (simp add: demo_calls_def routed_def demo_routes)
  finally show ?thesis by (simp add: demo_logger_fields)
qed

theorem play_build_writes_errors_only_witness:
  "written (log_path ''xcpt'' ''0309_1805'')
     (fst (log_run ((demo_log_env False, Flush) # demo_calls False @ [(demo_log_env False, Flush)]) (demo_logger False))) =
     log_line (demo_log_env False) ''ERROR'' ''d''"
proof -
  let ?cs = "(demo_log_env False, Flush) # demo_calls False @ [(demo_log_env False, Flush)]"
  note f = demo_logger_fields(1) [of False] demo_logger_fields(4,5)
  have n: "list_all lean ?cs" by (simp add: demo_calls_def demo_log_env_def lean_def)
  have ne: "log_path ''xcpt'' ''0309_1805'' \<noteq> []" by (simp add: log_path_def)
  show ?thesis
    using play_build_writes_errors_only [where cs = ?cs, OF prod.collapse [symmetric] f ne n refl, of "[]"]
    by (simp add: demo_calls_def demo_log_env_simps)
qed

theorem lost_log_stays_lost_witness:
  "lz_text (lazy_exec [0, 1, 0, 1, 0, 1, 0, 1, 0, 0, 0, 0] lazy_start) = []"
proof -
  let ?s = "lazy_exec [0, 1, 0, 1, 0] lazy_start" and ?t = "lazy_exec [0, 1, 0, 1, 0, 1, 0, 1, 0, 0, 0, 0] lazy_start"
  have r: "lazy_run lazy_start ?s" by (rule lazy_exec_run)
  have s: "lz_handle ?s" "lz_pc ?s 1 = Storing False" "lz_pc ?s j \<noteq> Storing True" "lz_text ?s = []" for j
    by (simp_all add: lazy_exec_def lazy_do_def lazy_start_def)
  have "?t = lazy_exec [0, 1, 0, 0, 0, 0] (lazy_do 1 ?s)" by (simp add: lazy_exec_def)
  then have "lazy_run (lazy_do 1 ?s) ?t" using lazy_exec_run by simp
  then show ?thesis using lost_log_stays_lost [OF r s(1-3)] s(4) by simp
qed

end
