(* ===== verification/StackCapture.thy ===== *)
theory StackCapture
  imports Logging
begin

section \<open>Captured stacks and crashes\<close>

text \<open>
  \<open>StackWalker.cpp\<close>: threads queue the stacks they capture, a worker logs them.  The steps between
  two accesses to shared state are the steps of a thread, so any interleaving of any number of
  threads with the worker is a run.  \<open>ExceptionHandler.cpp\<close>: the filter of last resort and what it
  writes.  Captured frames, thread ids, the local time and the answers of waits are arguments.
\<close>

subsection \<open>The queue\<close>

record StackWalkRequest =
  req_frames :: "u32 list"
  req_reason :: string
  req_tid :: nat

definition MAX_QUEUE_SIZE :: nat where "MAX_QUEUE_SIZE = 50"
definition MAX_STACK_FRAMES :: nat where "MAX_STACK_FRAMES = 32"

text \<open>A semaphore is its count, or \<open>None\<close> when it could not be made.\<close>

record walker =
  sw_threadHandle :: bool
  sw_semaphore :: "nat option"
  sw_stop :: bool
  sw_queue :: "StackWalkRequest list"
  sw_droppedCaptures :: nat

definition StackWalker_new :: "bool \<Rightarrow> walker" where
  "StackWalker_new made =
     \<lparr>sw_threadHandle = False, sw_semaphore = (if made then Some 0 else None), sw_stop = False, sw_queue = [], sw_droppedCaptures = 0\<rparr>"

text \<open>\<open>created\<close>: could the thread be started.\<close>

definition StackWalker_Start :: "bool \<Rightarrow> bool \<Rightarrow> walker \<Rightarrow> log_call list \<times> walker" where
  "StackWalker_Start lg created w =
     (if sw_threadHandle w \<or> sw_semaphore w = None \<or> \<not> created then ([], w)
      else (if lg then [Info ''[STACKWALKER] Asynchronous raw stack capture service started.''] else [], w\<lparr>sw_threadHandle := True\<rparr>))"

definition ReleaseSemaphore :: "walker \<Rightarrow> walker" where
  "ReleaseSemaphore w = w\<lparr>sw_semaphore := map_option Suc (sw_semaphore w)\<rparr>"

definition make_request :: "string option \<Rightarrow> nat \<Rightarrow> u32 list \<Rightarrow> StackWalkRequest" where
  "make_request reason tid frames =
     \<lparr>req_frames = take MAX_STACK_FRAMES frames,
      req_reason = take 127 (case reason of None \<Rightarrow> ''Unknown'' | Some r \<Rightarrow> r), req_tid = tid\<rparr>"

text \<open>What is tested before the queue is locked.\<close>

definition may_capture :: "walker \<Rightarrow> StackWalkRequest \<Rightarrow> bool" where
  "may_capture w r \<longleftrightarrow> \<not> sw_stop w \<and> sw_semaphore w \<noteq> None \<and> sw_threadHandle w \<and> req_frames r \<noteq> []"

definition enqueue :: "StackWalkRequest \<Rightarrow> walker \<Rightarrow> bool \<times> walker" where
  "enqueue r w =
     (if length (sw_queue w) < MAX_QUEUE_SIZE then (True, w\<lparr>sw_queue := sw_queue w @ [r]\<rparr>)
      else (False, w\<lparr>sw_droppedCaptures := sw_droppedCaptures w + 1\<rparr>))"

definition CaptureAndLogStackAsync :: "string option \<Rightarrow> nat \<Rightarrow> u32 list \<Rightarrow> walker \<Rightarrow> bool \<times> walker" where
  "CaptureAndLogStackAsync reason tid frames w =
     (let r = make_request reason tid frames
      in if \<not> may_capture w r then (False, w)
         else (case enqueue r w of (queued, w) \<Rightarrow> (queued, if queued then ReleaseSemaphore w else w)))"

subsection \<open>The queue among threads\<close>

text \<open>A caller is outside, before the lock, or has queued its request and not released the semaphore.\<close>

datatype caller_pc = Away | Queuing StackWalkRequest | Releasing

text \<open>The worker tests the stop flag, waits, has been woken, logs a request, or has ended.\<close>

datatype worker_pc = Testing | Waiting | Woken | Logging StackWalkRequest | Ended

text \<open>\<open>cap_accepted\<close> are the requests whose call answers True, in order; \<open>cap_logged\<close> those logged.\<close>

record capture =
  cap_walker :: walker
  cap_worker :: worker_pc
  cap_callers :: "nat \<Rightarrow> caller_pc"
  cap_accepted :: "StackWalkRequest list"
  cap_logged :: "StackWalkRequest list"

datatype wait_result = Signalled | TimedOut | WaitFailed

text \<open>A step of a caller (a new request is made when it is outside), of the worker, of the destructor.\<close>

datatype cap_act = Caller nat StackWalkRequest | Worker wait_result | Destroy

definition caller_step :: "nat \<Rightarrow> StackWalkRequest \<Rightarrow> capture \<Rightarrow> capture" where
  "caller_step i r s =
     (case cap_callers s i of
        Away \<Rightarrow> if may_capture (cap_walker s) r then s\<lparr>cap_callers := (cap_callers s)(i := Queuing r)\<rparr> else s
      | Queuing q \<Rightarrow>
          (case enqueue q (cap_walker s) of
             (True, w) \<Rightarrow> s\<lparr>cap_walker := w, cap_accepted := cap_accepted s @ [q], cap_callers := (cap_callers s)(i := Releasing)\<rparr>
           | (False, w) \<Rightarrow> s\<lparr>cap_walker := w, cap_callers := (cap_callers s)(i := Away)\<rparr>)
      | Releasing \<Rightarrow> s\<lparr>cap_walker := ReleaseSemaphore (cap_walker s), cap_callers := (cap_callers s)(i := Away)\<rparr>)"

text \<open>A wait is signalled only while the count is positive, which it then lowers.\<close>

definition wait_step :: "wait_result \<Rightarrow> capture \<Rightarrow> capture" where
  "wait_step r s =
     (case r of
        TimedOut \<Rightarrow> s\<lparr>cap_worker := Testing\<rparr>
      | WaitFailed \<Rightarrow> s\<lparr>cap_worker := Ended\<rparr>
      | Signalled \<Rightarrow>
          (case sw_semaphore (cap_walker s) of
             Some (Suc n) \<Rightarrow> s\<lparr>cap_walker := (cap_walker s)\<lparr>sw_semaphore := Some n\<rparr>, cap_worker := Woken\<rparr>
           | _ \<Rightarrow> s))"

definition worker_step :: "wait_result \<Rightarrow> capture \<Rightarrow> capture" where
  "worker_step r s =
     (case cap_worker s of
        Testing \<Rightarrow> s\<lparr>cap_worker := (if sw_stop (cap_walker s) then Ended else Waiting)\<rparr>
      | Waiting \<Rightarrow> wait_step r s
      | Woken \<Rightarrow>
          if sw_stop (cap_walker s) then s\<lparr>cap_worker := Ended\<rparr>
          else (case sw_queue (cap_walker s) of
                  [] \<Rightarrow> s\<lparr>cap_worker := Testing\<rparr>
                | q # qs \<Rightarrow> s\<lparr>cap_walker := (cap_walker s)\<lparr>sw_queue := qs\<rparr>, cap_worker := Logging q\<rparr>)
      | Logging q \<Rightarrow> s\<lparr>cap_logged := cap_logged s @ [q], cap_worker := Testing\<rparr>
      | Ended \<Rightarrow> s)"

text \<open>The destructor sets the flag and wakes the worker; what follows in it only waits and closes.\<close>

definition destroy_step :: "capture \<Rightarrow> capture" where
  "destroy_step s =
     (if sw_stop (cap_walker s) then s
      else s\<lparr>cap_walker := ReleaseSemaphore ((cap_walker s)\<lparr>sw_stop := True\<rparr>)\<rparr>)"

fun cap_do :: "cap_act \<Rightarrow> capture \<Rightarrow> capture" where
  "cap_do (Caller i r) s = caller_step i r s"
| "cap_do (Worker r) s = worker_step r s"
| "cap_do Destroy s = destroy_step s"

definition cap_start :: capture where
  "cap_start =
     \<lparr>cap_walker = snd (StackWalker_Start True True (StackWalker_new True)), cap_worker = Testing, cap_callers = (\<lambda>_. Away),
      cap_accepted = [], cap_logged = []\<rparr>"

inductive cap_run :: "capture \<Rightarrow> capture \<Rightarrow> bool" where
  stop: "cap_run s s"
| step: "cap_run s s' \<Longrightarrow> cap_run s (cap_do a s')"

inductive_cases cap_runE: "cap_run s s'"

subsection \<open>What is written\<close>

text \<open>A call of the logger, or of the emergency logger while there is no logger.\<close>

datatype trace_out = ToLog log_call | ToEmergency string

definition WriteToStackFile :: "bool \<Rightarrow> string \<Rightarrow> trace_out list" where
  "WriteToStackFile lg text =
     (if text = [] then []
      else if lg then [ToLog (Info (''[STACKTRACE] '' @ text))]
      else [ToEmergency (''STACKTRACE (logger unavailable): '' @ text)])"

definition frame_line :: "nat \<times> u32 \<Rightarrow> string" where
  "frame_line = (\<lambda>(i, f). ''  #'' @ pad 2 i @ '': 0x'' @ hex8 f)"

definition day_time :: "systime \<Rightarrow> string" where
  "day_time t = pad 2 (st_month t) @ ''/'' @ pad 2 (st_day t) @ '' '' @ pad 2 (st_hour t) @ '':'' @ pad 2 (st_minute t)"

definition LogRawFrames :: "bool \<Rightarrow> systime \<Rightarrow> StackWalkRequest \<Rightarrow> trace_out list" where
  "LogRawFrames lg t r =
     WriteToStackFile lg (crlf @ ''--- Stack Trace ['' @ day_time t @ ''] Reason: '' @ req_reason r @ ''  TID: '' @ dec (req_tid r) @ '' ---'' @ crlf) @
     (if req_frames r = [] then WriteToStackFile lg (''  (No frames captured - FPO optimization or corrupted stack)'' @ crlf)
      else concat (map (\<lambda>f. WriteToStackFile lg (frame_line f @ crlf)) (enumerate 0 (req_frames r)))) @
     WriteToStackFile lg (''--- End Stack Trace ---'' @ crlf) @
     (if lg then [ToLog (Info (''[STACKTRACE] '' @ req_reason r @ '' TID:'' @ dec (req_tid r) @ '' frames:'' @ dec (length (req_frames r)) @
                               ''  #00:0x'' @ hex8 (case req_frames r of [] \<Rightarrow> 0 | f # fs \<Rightarrow> f)))] else [])"

text \<open>\<open>eip\<close>: the program counter of the context, when there is one.\<close>

definition LogStackOnCrash :: "bool \<Rightarrow> systime \<Rightarrow> u32 option \<Rightarrow> string option \<Rightarrow> nat \<Rightarrow> u32 list \<Rightarrow> trace_out list" where
  "LogStackOnCrash lg t eip reason tid frames =
     (let why = (case reason of None \<Rightarrow> ''Crash'' | Some r \<Rightarrow> r); fs = enumerate 0 (take MAX_STACK_FRAMES frames)
      in WriteToStackFile lg (crlf @ ''=== CRASH STACK TRACE ['' @ day_time t @ ''] Reason: '' @ why @ ''  TID: '' @ dec tid @ '' ==='' @ crlf) @
         (case eip of None \<Rightarrow> [] | Some a \<Rightarrow> WriteToStackFile lg (''  EIP: 0x'' @ hex8 a @ crlf)) @
         (if frames = [] then WriteToStackFile lg (''  (No frames captured - stack may be corrupted)'' @ crlf)
          else concat (map (\<lambda>f. WriteToStackFile lg (frame_line f @ crlf)) fs)) @
         WriteToStackFile lg (''=== End Crash Stack Trace ==='' @ crlf) @
         (if \<not> lg then []
          else map ToLog
            ([Error (''--- Raw Stack Trace (Reason: '' @ why @ '', TID: '' @ dec tid @ '') ---'')] @
             (case eip of None \<Rightarrow> [] | Some a \<Rightarrow> [Error (''  EIP: 0x'' @ hex8 a)]) @
             (if frames = [] then [Error ''  (No frames captured - stack may be corrupted)''] else map (Error \<circ> frame_line) fs) @
             [Error ''--- End Stack Trace ---'', Flush])))"

subsection \<open>The filter of last resort\<close>

datatype top_filter = Ours | Other u32

record exception_handler = m_previousFilter :: "top_filter option"

text \<open>The second component is the filter the system holds.\<close>

definition ExceptionHandler_Install :: "exception_handler \<times> top_filter option \<Rightarrow> exception_handler \<times> top_filter option" where
  "ExceptionHandler_Install = (\<lambda>(e, f). (e\<lparr>m_previousFilter := f\<rparr>, Some Ours))"

definition ExceptionHandler_Uninstall :: "exception_handler \<times> top_filter option \<Rightarrow> exception_handler \<times> top_filter option" where
  "ExceptionHandler_Uninstall =
     (\<lambda>(e, f). (case m_previousFilter e of None \<Rightarrow> (e, f) | Some g \<Rightarrow> (e\<lparr>m_previousFilter := None\<rparr>, Some g)))"

record cpu_context =
  cx_eax :: u32
  cx_ebx :: u32
  cx_ecx :: u32
  cx_edx :: u32
  cx_esi :: u32
  cx_edi :: u32
  cx_eip :: u32
  cx_esp :: u32
  cx_ebp :: u32
  cx_eflags :: u32

definition LogContextRecord :: "cpu_context \<Rightarrow> log_call list" where
  "LogContextRecord c =
     [Error ''--- BEGIN CPU CONTEXT DUMP ---'',
      Error (''  EAX: 0x'' @ hex8 (cx_eax c) @ ''   EBX: 0x'' @ hex8 (cx_ebx c) @ ''   ECX: 0x'' @ hex8 (cx_ecx c)),
      Error (''  EDX: 0x'' @ hex8 (cx_edx c) @ ''   ESI: 0x'' @ hex8 (cx_esi c) @ ''   EDI: 0x'' @ hex8 (cx_edi c)),
      Error (''  EIP: 0x'' @ hex8 (cx_eip c) @ ''   ESP: 0x'' @ hex8 (cx_esp c) @ ''   EBP: 0x'' @ hex8 (cx_ebp c)),
      Error (''  Flags: 0x'' @ hex8 (cx_eflags c)),
      Error ''--- END CPU CONTEXT DUMP ---'']"

record crash =
  cr_code :: u32
  cr_address :: u32
  cr_flags :: u32
  cr_params :: "u32 list"
  cr_context :: "cpu_context option"
  cr_tid :: nat
  cr_frames :: "u32 list"
  cr_time :: systime

datatype crash_step = PassThrough | Out trace_out | ReportCounters | ShutLogger

text \<open>
  What the filter does, in order; \<open>walker\<close> and \<open>analytics\<close>: is there an instance.  It reads the
  exception's code before it tests the record, so the record is taken to be there.
\<close>

definition PrintStackTrace :: "bool \<Rightarrow> bool \<Rightarrow> crash \<Rightarrow> cpu_context \<Rightarrow> trace_out list" where
  "PrintStackTrace walker lg c cx =
     (if walker then LogStackOnCrash lg (cr_time c) (Some (cx_eip cx)) (Some ''Unhandled Exception'') (cr_tid c) (cr_frames c) else [])"

definition UnhandledFilter :: "bool \<Rightarrow> bool \<Rightarrow> bool \<Rightarrow> crash \<Rightarrow> crash_step list" where
  "UnhandledFilter lg walker analytics c =
     [PassThrough, Out (ToEmergency (''!!! UNHANDLED EXCEPTION 0x'' @ hex8 (cr_code c) @ '' at 0x'' @ hex8 (cr_address c) @ '' !!!''))] @
     (if \<not> lg then [Out (ToEmergency ''Logger or exception pointers are NULL. Cannot log details.'')]
      else map (Out \<circ> ToLog)
             ([Error (replicate 66 CHR ''!''),
               Error ''!!!               FATAL: UNHANDLED EXCEPTION CAUGHT            !!!'',
               Error (replicate 66 CHR ''!''),
               Error (''  Exception Code:    0x'' @ hex8 (cr_code c)),
               Error (''  Exception Address: 0x'' @ hex8 (cr_address c)),
               Error (''  Exception Flags:   0x'' @ hex8 (cr_flags c)),
               Error (''  NumberParameters:  '' @ dec (length (cr_params c)))] @
              map (\<lambda>(i, p). Error (''    Param['' @ dec i @ '']: 0x'' @ hex8 p)) (enumerate 0 (cr_params c))) @
           (case cr_context c of
              None \<Rightarrow> [Out (ToLog (Error ''  CRITICAL: ContextRecord is NULL, cannot dump registers or stack trace.''))]
            | Some cx \<Rightarrow> map (Out \<circ> ToLog) (LogContextRecord cx) @ map Out (PrintStackTrace walker lg c cx)) @
           [Out (ToLog (Error ''--- FINALIZING LOGS BEFORE TERMINATION ---'')), Out (ToLog Flush)] @
           (if analytics then [ReportCounters] else []) @ [ShutLogger])"

end
