(* ===== verification/StackCaptureProps.thy ===== *)
theory StackCaptureProps
  imports StackCapture
begin

section \<open>What the capture of stacks promises\<close>

fun held :: "worker_pc \<Rightarrow> StackWalkRequest list" where
  "held (Logging q) = [q]"
| "held w = []"

definition releasing :: "capture \<Rightarrow> nat set" where
  "releasing s = {i. cap_callers s i = Releasing}"

text \<open>
  No request is lost, doubled or overtaken; and until the destructor runs the count of the semaphore,
  the releases that are still to come and a wake-up that is not yet used are as many as the requests
  in the queue.
\<close>

definition cap_inv :: "capture \<Rightarrow> bool" where
  "cap_inv s \<longleftrightarrow>
     finite (releasing s) \<and> cap_accepted s = cap_logged s @ held (cap_worker s) @ sw_queue (cap_walker s) \<and>
     length (sw_queue (cap_walker s)) \<le> MAX_QUEUE_SIZE \<and>
     (\<exists>n. sw_semaphore (cap_walker s) = Some n \<and>
        (sw_stop (cap_walker s) \<or>
         n + card (releasing s) + (if cap_worker s = Woken then 1 else 0) = length (sw_queue (cap_walker s))))"

lemma releasing_update:
  "releasing (s\<lparr>cap_callers := (cap_callers s)(i := p)\<rparr>) = (if p = Releasing then insert i (releasing s) else releasing s - {i})"
  by (auto simp: releasing_def)

lemma releasing_frame [simp]:
  "releasing (s\<lparr>cap_walker := w\<rparr>) = releasing s" "releasing (s\<lparr>cap_worker := k\<rparr>) = releasing s"
  "releasing (s\<lparr>cap_logged := l\<rparr>) = releasing s" "releasing (s\<lparr>cap_accepted := l\<rparr>) = releasing s"
  by (simp_all add: releasing_def)

lemma caller_step_inv:
  assumes "cap_inv s" shows "cap_inv (caller_step i r s)"
proof (cases "cap_callers s i")
  case Away
  then have "releasing s - {i} = releasing s" by (auto simp: releasing_def)
  then show ?thesis using assms Away by (simp add: caller_step_def cap_inv_def releasing_update)
next
  case (Queuing q)
  then have r: "i \<notin> releasing s" "releasing s - {i} = releasing s" by (auto simp: releasing_def)
  obtain n where n: "sw_semaphore (cap_walker s) = Some n" "finite (releasing s)"
    "sw_stop (cap_walker s) \<or> n + card (releasing s) + (if cap_worker s = Woken then 1 else 0) = length (sw_queue (cap_walker s))"
    using assms by (auto simp: cap_inv_def)
  show ?thesis
  proof (cases "length (sw_queue (cap_walker s)) < MAX_QUEUE_SIZE")
    case True
    let ?w = "(cap_walker s)\<lparr>sw_queue := sw_queue (cap_walker s) @ [q]\<rparr>"
    have "caller_step i r s = s\<lparr>cap_walker := ?w, cap_accepted := cap_accepted s @ [q], cap_callers := (cap_callers s)(i := Releasing)\<rparr>"
      using Queuing True by (simp add: caller_step_def enqueue_def)
    moreover have "releasing (s\<lparr>cap_walker := ?w, cap_accepted := cap_accepted s @ [q], cap_callers := (cap_callers s)(i := Releasing)\<rparr>) = insert i (releasing s)"
      by (auto simp: releasing_def)
    ultimately show ?thesis using assms n r True by (auto simp: cap_inv_def)
  next
    case False
    let ?w = "(cap_walker s)\<lparr>sw_droppedCaptures := sw_droppedCaptures (cap_walker s) + 1\<rparr>"
    have "caller_step i r s = s\<lparr>cap_walker := ?w, cap_callers := (cap_callers s)(i := Away)\<rparr>"
      using Queuing False by (simp add: caller_step_def enqueue_def)
    moreover have "releasing (s\<lparr>cap_walker := ?w, cap_callers := (cap_callers s)(i := Away)\<rparr>) = releasing s"
      using r by (auto simp: releasing_def)
    ultimately show ?thesis using assms by (simp add: cap_inv_def)
  qed
next
  case Releasing
  then have i: "i \<in> releasing s" by (simp add: releasing_def)
  let ?s = "s\<lparr>cap_walker := ReleaseSemaphore (cap_walker s), cap_callers := (cap_callers s)(i := Away)\<rparr>"
  have s: "caller_step i r s = ?s" "releasing ?s = releasing s - {i}" using Releasing by (auto simp: caller_step_def releasing_def)
  have "Suc (card (releasing s - {i})) = card (releasing s)" if "finite (releasing s)" using card.remove [OF that i] by simp
  then show ?thesis using assms unfolding s(1) cap_inv_def s(2) by (auto simp: ReleaseSemaphore_def)
qed

lemma worker_step_inv:
  assumes "cap_inv s" shows "cap_inv (worker_step r s)"
  using assms
  by (auto simp: cap_inv_def worker_step_def wait_step_def split: worker_pc.splits wait_result.splits nat.splits list.splits)

lemma destroy_step_inv:
  assumes "cap_inv s" shows "cap_inv (destroy_step s)"
  using assms by (auto simp: cap_inv_def destroy_step_def ReleaseSemaphore_def)

lemma cap_do_inv: "cap_inv s \<Longrightarrow> cap_inv (cap_do a s)"
  by (cases a) (simp_all add: caller_step_inv worker_step_inv destroy_step_inv)

lemma cap_start_inv: "cap_inv cap_start"
  by (simp add: cap_start_def cap_inv_def releasing_def StackWalker_Start_def StackWalker_new_def)

lemma cap_run_inv: "cap_run s s' \<Longrightarrow> cap_inv s \<Longrightarrow> cap_inv s'"
  by (induction rule: cap_run.induct) (simp_all add: cap_do_inv)

text \<open>C37: Whatever the interleaving of callers and worker: the captures that were accepted are logged in the
  order they were accepted, each once; at most 50 wait; a worker that was woken finds a request; and
  no wake-up is lost: while requests wait and no caller still has to release the semaphore, the
  worker's wait is answered.
\<close>

theorem captures_logged_in_order:
  assumes "cap_run cap_start s" "\<not> sw_stop (cap_walker s)"
  shows "cap_accepted s = cap_logged s @ held (cap_worker s) @ sw_queue (cap_walker s) \<and>
         length (sw_queue (cap_walker s)) \<le> 50 \<and>
         (cap_worker s = Woken \<longrightarrow> sw_queue (cap_walker s) \<noteq> []) \<and>
         (cap_worker s = Waiting \<and> sw_queue (cap_walker s) \<noteq> [] \<and> (\<forall>i. cap_callers s i \<noteq> Releasing) \<longrightarrow>
            cap_worker (cap_do (Worker Signalled) s) = Woken)"
proof -
  have inv: "cap_inv s" by (rule cap_run_inv [OF assms(1) cap_start_inv])
  then obtain n where n: "sw_semaphore (cap_walker s) = Some n"
    "n + card (releasing s) + (if cap_worker s = Woken then 1 else 0) = length (sw_queue (cap_walker s))"
    using assms(2) by (auto simp: cap_inv_def)
  have w: "cap_worker (worker_step Signalled s) = Woken"
    if "cap_worker s = Waiting" "sw_queue (cap_walker s) \<noteq> []" "\<forall>i. cap_callers s i \<noteq> Releasing"
  proof -
    have "releasing s = {}" using that(3) by (simp add: releasing_def)
    then have "n \<noteq> 0" using n(2) that(1,2) by auto
    then obtain k where "n = Suc k" by (cases n) auto
    then show ?thesis using that(1) n(1) by (simp add: worker_step_def wait_step_def)
  qed
  moreover have "sw_queue (cap_walker s) \<noteq> []" if "cap_worker s = Woken" using n(2) that by auto
  ultimately show ?thesis using inv by (auto simp: cap_inv_def MAX_QUEUE_SIZE_def)
qed

text \<open>Once the destructor has set the flag, at most the request the worker has in hand is still logged:
  those in the queue are given up, although their callers were told that they are captured.
\<close>

theorem shutdown_gives_up_the_queue:
  assumes "cap_run cap_start s" "sw_stop (cap_walker s)" "cap_run s s'"
  shows "\<exists>n. cap_logged s' = cap_logged s @ take n (held (cap_worker s)) \<and> 
         cap_accepted s' = cap_logged s' @ held (cap_worker s') @ sw_queue (cap_walker s')"
proof -
  have "cap_run cap_start s'" using assms(3,1) by (induction rule: cap_run.induct) (auto intro: cap_run.intros)
  then have inv: "cap_inv s'" by (rule cap_run_inv [OF _ cap_start_inv])
  have "sw_stop (cap_walker s') \<and> (cap_logged s' = cap_logged s \<and> held (cap_worker s') = held (cap_worker s) \<or>
          held (cap_worker s') = [] \<and> (cap_logged s' = cap_logged s @ held (cap_worker s) \<or> cap_logged s' = cap_logged s))"
    using assms(3,2)
  proof (induction rule: cap_run.induct)
    case (step s s' a)
    then have ih: "sw_stop (cap_walker s')" "cap_logged s' = cap_logged s \<and> held (cap_worker s') = held (cap_worker s) \<or>
          held (cap_worker s') = [] \<and> (cap_logged s' = cap_logged s @ held (cap_worker s) \<or> cap_logged s' = cap_logged s)" by auto
    show ?case
    proof (cases a)
      case (Caller i r)
      have "sw_stop (cap_walker (caller_step i r s')) \<and> cap_logged (caller_step i r s') = cap_logged s' \<and>
            cap_worker (caller_step i r s') = cap_worker s'"
        using ih(1) by (auto simp: caller_step_def enqueue_def ReleaseSemaphore_def split: caller_pc.split)
      then show ?thesis using ih(2) Caller by simp
    next
      case (Worker r)
      have "sw_stop (cap_walker (worker_step r s')) \<and>
            (cap_logged (worker_step r s') = cap_logged s' \<and> held (cap_worker (worker_step r s')) = held (cap_worker s') \<or>
             cap_logged (worker_step r s') = cap_logged s' @ held (cap_worker s') \<and> held (cap_worker (worker_step r s')) = [])"
        using ih(1) by (auto simp: worker_step_def wait_step_def split: worker_pc.split wait_result.split option.split nat.split)
      then show ?thesis using ih(2) Worker by auto
    next
      case Destroy
      then show ?thesis using ih by (simp add: destroy_step_def)
    qed
  qed auto
  moreover have "cap_accepted s' = cap_logged s' @ held (cap_worker s') @ sw_queue (cap_walker s')" using inv by (simp add: cap_inv_def)
  ultimately show ?thesis by (metis append_Nil2 take0 take_all_iff order_refl)
qed

subsection \<open>Witnesses\<close>

definition cap_exec :: "cap_act list \<Rightarrow> capture \<Rightarrow> capture" where
  "cap_exec as s = fold cap_do as s"

lemma cap_exec_run: "cap_run s (cap_exec as s)"
proof (induction as rule: rev_induct)
  case (snoc a as)
  then show ?case using cap_run.step [OF snoc, of a] by (simp add: cap_exec_def)
qed (simp add: cap_exec_def cap_run.stop)

definition demo_request :: "nat \<Rightarrow> StackWalkRequest" where
  "demo_request tid = make_request (Some ''LongFrame'') tid [0x401000, 0x402000]"

definition demo_captures :: "cap_act list" where
  "demo_captures =
     [Caller 1 (demo_request 1), Caller 2 (demo_request 2), Worker TimedOut, Caller 2 (demo_request 2), Caller 1 (demo_request 1),
      Caller 2 (demo_request 2), Worker Signalled, Worker Signalled, Worker Signalled, Caller 1 (demo_request 1)]"

lemma demo_captures_state:
  "cap_logged (cap_exec demo_captures cap_start) = [demo_request 2]"
  "sw_queue (cap_walker (cap_exec demo_captures cap_start)) = [demo_request 1]"
  "\<not> sw_stop (cap_walker (cap_exec demo_captures cap_start))"
  and demo_captures_worker: "cap_worker (cap_exec demo_captures cap_start) = Testing"
  by (simp_all add: cap_exec_def demo_captures_def demo_request_def make_request_def cap_start_def StackWalker_Start_def
        StackWalker_new_def caller_step_def worker_step_def wait_step_def may_capture_def enqueue_def ReleaseSemaphore_def
        MAX_QUEUE_SIZE_def MAX_STACK_FRAMES_def numeral_nat)

theorem captures_logged_in_order_witness:
  "cap_accepted (cap_exec demo_captures cap_start) = [demo_request 2, demo_request 1]"
  using captures_logged_in_order [OF cap_exec_run demo_captures_state(3)] demo_captures_state(1,2)
  by (auto simp: demo_captures_worker)

theorem shutdown_gives_up_the_queue_witness:
  "cap_logged (cap_exec (Destroy # replicate 9 (Worker Signalled)) (cap_exec demo_captures cap_start)) \<noteq> [demo_request 2, demo_request 1]"
proof -
  let ?s = "cap_exec demo_captures cap_start"
  let ?t = "cap_exec [Destroy] ?s" and ?u = "cap_exec (replicate 9 (Worker Signalled)) (cap_exec [Destroy] ?s)"
  have r: "cap_run cap_start ?t" "cap_run ?t ?u"
    using cap_exec_run [of cap_start "demo_captures @ [Destroy]"] by (simp add: cap_exec_def) (rule cap_exec_run)
  have t: "sw_stop (cap_walker ?t)" "cap_logged ?t = [demo_request 2]" "held (cap_worker ?t) = []"
    using demo_captures_state demo_captures_worker by (simp_all add: cap_exec_def destroy_step_def ReleaseSemaphore_def)
  have "cap_exec (Destroy # replicate 9 (Worker Signalled)) ?s = ?u" by (simp add: cap_exec_def)
  then show ?thesis using shutdown_gives_up_the_queue [OF r(1) t(1) r(2)] t(2,3) by auto
qed

end
