(* ===== verification/Lifecycle.thy ===== *)
theory Lifecycle
  imports HookInstall FrameObserver StackCapture Heartbeat
begin

section \<open>Starting and stopping the patch\<close>

text \<open>
  \<open>Main.cpp\<close>: \<open>StartPatch\<close>, which the thread made by \<open>DllMain\<close> runs, and \<open>StopPatch\<close>, composed from
  the components' own operations.  A stage takes the state, and answers whether to go on, what
  happened, and the new state.  Of \<open>Analytics\<close>, \<open>HitchDetector\<close> and \<open>VASPressureMonitor\<close> the state
  here is whether there is an instance.  The operators \<open>new\<close> do not fail.  Of the lines for the emergency log only a few are kept.
\<close>

subsection \<open>State\<close>

record patch =
  g_isStarted :: bool
  g_isStopping :: bool
  pt_etw :: bool
  pt_emergency :: emergency_logger
  pt_logger :: "logger option"
  pt_analytics :: bool
  pt_hitchDetector :: bool
  pt_pressure :: bool
  pt_walker :: "walker option"
  g_memoryManager :: "(memory_manager \<times> create_globals) option"
  g_hookManager :: bool
  g_exceptionHandler :: "exception_handler option"
  pt_filter :: "top_filter option"
  g_heartbeatMonitor :: "hb_life option"
  pt_hooks :: installer
  pt_observers :: observers

text \<open>
  The answers of the system during one call: the name of the process, the environment of the parts,
  whether the priority could be raised, the handles of semaphore, threads and event, whether the
  worker of the stack walker ended in time.
\<close>

record patch_env =
  pe_process :: string
  pe_signature :: string
  pe_tid :: nat
  pe_log :: log_env
  pe_install :: install_env
  pe_priority :: bool
  pe_semaphore :: bool
  pe_worker :: bool
  pe_workerEnded :: bool
  pe_wakeEvent :: u32
  pe_heartThread :: u32
  pe_d3d :: d3d_env
  pe_d3dHandle :: bool
  pe_readFound :: bool
  pe_readCommit :: u32

datatype patch_event =
    LogOut log_event
  | HookOut install_event
  | MemoryOut mm_event
  | ObserverOut observer_line
  | ReadDetached
  | EtwRegister
  | EtwUnregister
  | PriorityRaised
  | Made string
  | Gone string
  | CountersReported
  | WakeHeartbeat
  | WorkerKilled

type_synonym stage = "patch \<Rightarrow> bool \<times> patch_event list \<times> patch"

fun stages :: "stage list \<Rightarrow> stage" where
  "stages [] s = (True, [], s)"
| "stages (a # as) s =
     (case a s of
        (False, ev, s) \<Rightarrow> (False, ev, s)
      | (True, ev, s) \<Rightarrow> (case stages as s of (ok, ev', s) \<Rightarrow> (ok, ev @ ev', s)))"

abbreviation pe_getenv :: "patch_env \<Rightarrow> string \<Rightarrow> string option" where
  "pe_getenv pe \<equiv> me_getenv (he_mm (ie_hook (pe_install pe)))"

subsection \<open>Messages\<close>

fun log_all :: "log_env \<Rightarrow> log_call list \<Rightarrow> logger \<Rightarrow> log_event list \<times> logger" where
  "log_all le [] l = ([], l)"
| "log_all le (c # cs) l = (case log_do le c l of (ev, l) \<Rightarrow> (case log_all le cs l of (ev', l) \<Rightarrow> (ev @ ev', l)))"

text \<open>Lines for the log, when there is one, and for the emergency log.\<close>

definition say :: "patch_env \<Rightarrow> log_call list \<Rightarrow> stage" where
  "say pe cs s =
     (case pt_logger s of
        None \<Rightarrow> (True, [], s)
      | Some l \<Rightarrow> (case log_all (pe_log pe) cs l of (ev, l) \<Rightarrow> (True, map LogOut ev, s\<lparr>pt_logger := Some l\<rparr>)))"

definition cry :: "patch_env \<Rightarrow> string \<Rightarrow> string \<Rightarrow> stage" where
  "cry pe component msg s =
     (True, map LogOut (EmergencyLogger_Write (pe_log pe) (pe_tid pe) component msg (pt_emergency s)), s)"

definition EnvFlagEnabled :: "(string \<Rightarrow> string option) \<Rightarrow> string \<Rightarrow> bool \<Rightarrow> bool" where
  "EnvFlagEnabled getenv name defaultValue =
     (case env_in_buf 16 (getenv name) of None \<Rightarrow> defaultValue | Some v \<Rightarrow> says_yes v)"

definition banner :: string where "banner = replicate 66 CHR ''=''"

definition passiveMode :: "patch \<Rightarrow> bool" where
  "passiveMode s = c_passive (h_control (hook_state (pt_hooks s)))"

definition on_hooks :: "(hooks \<Rightarrow> hooks) \<Rightarrow> patch \<Rightarrow> patch" where
  "on_hooks f s = s\<lparr>pt_hooks := in_hooks f (pt_hooks s)\<rparr>"

subsection \<open>StopPatch\<close>

text \<open>
  The manager as the hooks leave it: they hold it while they are installed, and also after an
  installation that failed.
\<close>

definition manager_left :: "installer \<Rightarrow> (memory_manager \<times> create_globals) option" where
  "manager_left i = (case h_mm (hook_state i) of Some m \<Rightarrow> Some m | None \<Rightarrow> hm_memManager i)"

definition stop_hooks :: "patch_env \<Rightarrow> stage" where
  "stop_hooks pe s =
     (if \<not> g_hookManager s then (True, [], s)
      else (case HookManager_delete (pe_install pe) (pt_hooks s) of
              (ev, i) \<Rightarrow> (True, map HookOut ev, s\<lparr>pt_hooks := i, g_hookManager := False, g_memoryManager := manager_left i\<rparr>)))"

definition stop_observers :: "patch_env \<Rightarrow> stage" where
  "stop_observers pe s =
     (case ObserverHooks_Uninstall (pt_logger s \<noteq> None) (pe_d3dHandle pe) (pt_observers s) of
        (detached, ev, ob) \<Rightarrow>
          (True, (if detached then [ReadDetached] else []) @ map ObserverOut ev, s\<lparr>pt_observers := ob\<rparr>))"

definition stop_heartbeat :: "patch_env \<Rightarrow> stage" where
  "stop_heartbeat pe s =
     (case g_heartbeatMonitor s of
        None \<Rightarrow> (True, [], s)
      | Some h \<Rightarrow> (True, (if snd (HeartbeatMonitor_Stop h) then [WakeHeartbeat] else []) @ [Gone ''HeartbeatMonitor''],
                   s\<lparr>g_heartbeatMonitor := None\<rparr>))"

definition stop_handler :: "patch_env \<Rightarrow> stage" where
  "stop_handler pe s =
     (case g_exceptionHandler s of
        None \<Rightarrow> (True, [], s)
      | Some e \<Rightarrow> (True, [Gone ''ExceptionHandler''],
                   s\<lparr>g_exceptionHandler := None, pt_filter := snd (ExceptionHandler_Uninstall (e, pt_filter s))\<rparr>))"

definition stop_manager :: "patch_env \<Rightarrow> stage" where
  "stop_manager pe s =
     (case g_memoryManager s of
        None \<Rightarrow> (True, [], s)
      | Some (m, g) \<Rightarrow> (True, map MemoryOut (fst (MemoryManager_destroy m)) @ [Gone ''MemoryManager''], s\<lparr>g_memoryManager := None\<rparr>))"

definition stop_walker :: "patch_env \<Rightarrow> stage" where
  "stop_walker pe s =
     (case pt_walker s of
        None \<Rightarrow> (True, [], s)
      | Some w \<Rightarrow> (True, (if sw_threadHandle w \<and> \<not> pe_workerEnded pe then [WorkerKilled] else []) @ [Gone ''StackWalker''],
                   s\<lparr>pt_walker := None\<rparr>))"

text \<open>The instances and the log, in their order.\<close>

definition stop_instances :: "patch_env \<Rightarrow> stage" where
  "stop_instances pe s =
     (if \<not> g_isStarted s then (True, [], s)
      else stages
        [stop_walker pe,
         (\<lambda>s. (True, if pt_hitchDetector s then [Gone ''HitchDetector''] else [], s\<lparr>pt_hitchDetector := False\<rparr>)),
         (\<lambda>s. (True, if pt_analytics s then [CountersReported, Gone ''Analytics''] else [], s\<lparr>pt_analytics := False\<rparr>)),
         (\<lambda>s. (True, if pt_pressure s then [Gone ''VASPressureMonitor''] else [], s\<lparr>pt_pressure := False\<rparr>)),
         say pe [Info banner, Info ''           TS3VAS: Shutdown Complete'', Info banner],
         (\<lambda>s. (case Logger_Shutdown (pe_log pe) (pt_logger s) of (ev, l) \<Rightarrow> (True, map LogOut ev, s\<lparr>pt_logger := l\<rparr>)))] s)"

definition stop_rest :: "patch_env \<Rightarrow> stage" where
  "stop_rest pe =
     stages
       [(\<lambda>s. (True, [EtwUnregister], s\<lparr>g_isStarted := False, pt_etw := False\<rparr>)),
        cry pe ''StopPatch'' ''Shutdown complete.'',
        (\<lambda>s. (case EmergencyLogger_Shutdown (pt_emergency s) of (ev, e) \<Rightarrow> (True, map LogOut ev, s\<lparr>pt_emergency := e\<rparr>)))]"

definition stop_stages :: "patch_env \<Rightarrow> stage list" where
  "stop_stages pe =
     [cry pe ''StopPatch'' ''Enter.'',
      cry pe ''StopPatch'' ''Begin RTL shutdown/pass-through.'',
      (\<lambda>s. (True, [], on_hooks (\<lambda>h. h\<lparr>h_control := BeginShutdown (h_control h)\<rparr>) s)),
      (\<lambda>s. if g_isStarted s then say pe [Info banner, Info ''           TS3VAS: Shutdown Sequence Started'', Info banner] s else (True, [], s)),
      stop_hooks pe, stop_observers pe, stop_heartbeat pe, stop_handler pe, stop_manager pe, stop_instances pe, stop_rest pe]"

definition StopPatch :: "patch_env \<Rightarrow> patch \<Rightarrow> patch_event list \<times> patch" where
  "StopPatch pe s =
     (if g_isStopping s then ([], s)
      else (case stages (stop_stages pe) (s\<lparr>g_isStopping := True\<rparr>) of (ok, ev, s) \<Rightarrow> (ev, s)))"

text \<open>A start that gives up.\<close>

definition give_up :: "patch_env \<Rightarrow> string \<Rightarrow> stage" where
  "give_up pe msg s =
     (case say pe [Error msg] s of (_, ev, s) \<Rightarrow> (case StopPatch pe s of (ev', s) \<Rightarrow> (False, ev @ ev', s)))"

subsection \<open>StartPatch\<close>

definition non_game :: "string \<Rightarrow> bool" where
  "non_game name \<longleftrightarrow> list_ex (strstr name) [''Launcher'', ''launcher'', ''patcher'', ''CASMode'']"

definition start_enter :: "patch_env \<Rightarrow> stage" where
  "start_enter pe s =
     (case EmergencyLogger_Initialize (pe_log pe) (pt_emergency s) of
        (ev, e) \<Rightarrow>
          (case cry pe ''StartPatch'' (''Enter. Process: '' @ pe_process pe) (s\<lparr>pt_emergency := e\<rparr>) of
             (_, ev', s) \<Rightarrow> (\<not> non_game (pe_process pe) \<and> \<not> g_isStarted s, map LogOut ev @ ev', s)))"

definition start_log :: "patch_env \<Rightarrow> stage" where
  "start_log pe s =
     (case Logger_Initialize (pe_log pe) ''TS3VAS'' (pt_logger s) of
        (ev, l) \<Rightarrow> (True, [EtwRegister] @ map LogOut ev, s\<lparr>pt_etw := True, pt_logger := l, g_isStarted := True\<rparr>))"

definition raise_priority :: "patch_env \<Rightarrow> stage" where
  "raise_priority pe s =
     (if passiveMode s then say pe [Info ''[PHASE_1] Process priority left at default (passive baseline).''] s
      else if pe_priority pe
      then (case say pe [Info ''[PHASE_1] Process priority set to HIGH.''] s of (ok, ev, s) \<Rightarrow> (ok, PriorityRaised # ev, s))
      else say pe [Warn ''[PHASE_1] SetPriorityClass failed.''] s)"

definition start_instances :: "patch_env \<Rightarrow> stage" where
  "start_instances pe s =
     (True,
      (if pt_analytics s then [] else [Made ''Analytics'']) @ (if pt_hitchDetector s then [] else [Made ''HitchDetector'']) @
      (if pt_walker s = None then [Made ''StackWalker''] else []) @ (if pt_pressure s then [] else [Made ''VASPressureMonitor'']),
      s\<lparr>pt_analytics := True, pt_hitchDetector := True,
        pt_walker := (case pt_walker s of None \<Rightarrow> Some (StackWalker_new (pe_semaphore pe)) | Some w \<Rightarrow> Some w), pt_pressure := True\<rparr>)"

definition start_manager :: "patch_env \<Rightarrow> stage" where
  "start_manager pe s =
     (if passiveMode s
      then say pe [Info ''[PHASE_3] PASSIVE baseline mode: proxy arena, redirect hooks, and sardine shards DISABLED''] s
      else (let env = he_mm (ie_hook (pe_install pe))
            in case say pe [Info ''[PHASE_3] Initializing proxy memory manager...''] s of
                 (_, ev0, s) \<Rightarrow>
                   (case MemoryManager_Initialize env (MemoryManager_init env) of
                      (ok, ev, m) \<Rightarrow>
                        (case (if ok then say pe [Info ''[PHASE_3] Proxy memory manager ready.'']
                               else give_up pe ''[PHASE_3] CRITICAL: proxy arena init failed!'')
                              (s\<lparr>g_memoryManager := Some (m, create_globals_init)\<rparr>) of
                           (go, ev', s) \<Rightarrow> (go, ev0 @ [Made ''MemoryManager''] @ map MemoryOut ev @ ev', s)))))"

definition start_handler :: "patch_env \<Rightarrow> stage" where
  "start_handler pe s =
     (case ExceptionHandler_Install (\<lparr>m_previousFilter = None\<rparr>, pt_filter s) of
        (e, f) \<Rightarrow> (True, [Made ''ExceptionHandler''], s\<lparr>g_exceptionHandler := Some e, pt_filter := f\<rparr>))"

definition start_hooks :: "patch_env \<Rightarrow> stage" where
  "start_hooks pe s =
     (if passiveMode s then say pe [Info ''[PHASE_5] Allocation hooks NOT installed (passive baseline)''] s
      else (case say pe [Info ''[PHASE_5] Installing hooks...''] s of
              (_, ev0, s) \<Rightarrow>
                (case InstallAndEnableHooks (pe_install pe) (HookManager_new (g_memoryManager s) (pt_hooks s)) of
                   (ok, ev, i) \<Rightarrow>
                     (let s = s\<lparr>g_hookManager := True, pt_hooks := i\<rparr>
                      in case (if \<not> ok then give_up pe ''[PHASE_5] CRITICAL: Hook installation failed!'' s
                               else say pe [Info ''[HOOKS] All hooks installed and live'']
                                      (on_hooks (\<lambda>h. h\<lparr>h_control := ActivateProxy (h_control h)\<rparr>) s)) of
                           (go, ev', s) \<Rightarrow> (go, ev0 @ map HookOut ev @ ev', s)))))"

definition start_threads :: "patch_env \<Rightarrow> stage" where
  "start_threads pe s =
     (let h = HeartbeatMonitor_Start (pe_heartThread pe) (HeartbeatMonitor_ctor (pe_wakeEvent pe));
          (ls, w) = (case pt_walker s of
                       None \<Rightarrow> ([], None)
                     | Some w \<Rightarrow> (case StackWalker_Start (pt_logger s \<noteq> None) (pe_worker pe) w of (ls, w) \<Rightarrow> (ls, Some w)))
      in case say pe ls (s\<lparr>g_heartbeatMonitor := Some h, pt_walker := w\<rparr>) of
           (ok, ev, s) \<Rightarrow> (ok, [Made ''HeartbeatMonitor''] @ ev, s))"

definition start_observers :: "patch_env \<Rightarrow> stage" where
  "start_observers pe s =
     (if passiveMode s then say pe [Info ''[PHASE_5] D3D9 hook NOT installed (passive baseline)''] s
      else if EnvFlagEnabled (pe_getenv pe) ''TS3VAS_ENABLE_D3D9_HOOK'' True
      then (case ObserverHooks_Install (pe_d3d pe) (pe_readFound pe) (pe_readCommit pe) (pt_observers s) of
              (_, ev, ob) \<Rightarrow>
                (case say pe [Info ''[PHASE_5] D3D9 hook enabled''] (s\<lparr>pt_observers := ob\<rparr>) of
                   (ok, ev', s) \<Rightarrow> (ok, map ObserverOut ev @ ev', s)))
      else say pe [Info ''[PHASE_5] D3D9 hook disabled (TS3VAS_ENABLE_D3D9_HOOK=0).''] s)"

definition start_stages :: "patch_env \<Rightarrow> stage list" where
  "start_stages pe =
     [start_enter pe, start_log pe,
      say pe [Info banner, Info (pe_signature pe), Info banner, Info ''[PHASE_1] Logger initialized.''],
      raise_priority pe,
      say pe [Info ''[PHASE_2] Initializing core subsystems...''], start_instances pe, say pe [Info ''[PHASE_2] Core subsystems ready.''],
      start_manager pe,
      say pe [Info ''[PHASE_4] Installing exception handler...''], start_handler pe, say pe [Info ''[PHASE_4] Exception handler installed.''],
      start_hooks pe, start_threads pe,
      (\<lambda>s. if passiveMode s then (True, [], s) else say pe [Info ''[PHASE_5] All hooks live. RtlAllocateHeap active from process start.''] s),
      start_observers pe,
      (\<lambda>s. say pe [Flush, Info banner,
             Info (if passiveMode s then ''  TS3VASManager: PASSIVE baseline'' else ''  TS3VASManager: hooked''),
             Info ''  No D3D9 activation trigger required.'', Info banner, Flush] s)]"

text \<open>The first component: did the start reach its end.\<close>

definition StartPatch :: "patch_env \<Rightarrow> patch \<Rightarrow> bool \<times> patch_event list \<times> patch" where
  "StartPatch pe s =
     (case stages (start_stages pe) s of
        (ok, ev, s) \<Rightarrow> (ok, ev @ (if ok then fst (snd (cry pe ''StartPatch'' ''Exit.'' s)) else []), s))"

subsection \<open>The entry point\<close>

datatype detach = Unloaded | Terminating

text \<open>At the end of the process only the hooks are told; when the library is unloaded all is taken down.\<close>

definition DllMain_detach :: "patch_env \<Rightarrow> detach \<Rightarrow> patch \<Rightarrow> patch_event list \<times> patch" where
  "DllMain_detach pe d s =
     (case d of
        Terminating \<Rightarrow> (fst (snd (cry pe ''DllMain'' ''DLL_PROCESS_DETACH'' s)), on_hooks (\<lambda>h. h\<lparr>h_control := BeginShutdown (h_control h)\<rparr>) s)
      | Unloaded \<Rightarrow>
          (case StopPatch pe s of (ev, s') \<Rightarrow> (fst (snd (cry pe ''DllMain'' ''DLL_PROCESS_DETACH'' s)) @ ev, s')))"

end
