(* ===== verification/LifecycleProps.thy ===== *)
theory LifecycleProps
  imports Lifecycle HookInstallProps LoggingProps
begin

section \<open>What starting and stopping promise\<close>

subsection \<open>Stages\<close>

text \<open>
  A stage takes states with \<open>I\<close> to states with \<open>J\<close> when it goes on and with \<open>Q\<close> when it does not,
  and all its events satisfy \<open>E\<close>.
\<close>

definition triple :: "(patch \<Rightarrow> bool) \<Rightarrow> stage \<Rightarrow> (patch \<Rightarrow> bool) \<Rightarrow> (patch \<Rightarrow> bool) \<Rightarrow> (patch_event \<Rightarrow> bool) \<Rightarrow> bool" where
  "triple I a J Q E \<longleftrightarrow>
     (\<forall>s. I s \<longrightarrow> (case a s of (ok, ev, s') \<Rightarrow> (if ok then J s' else Q s') \<and> (\<forall>e\<in>set ev. E e)))"

lemma tripleI:
  assumes "\<And>s ok ev s'. I s \<Longrightarrow> a s = (ok, ev, s') \<Longrightarrow> (if ok then J s' else Q s') \<and> (\<forall>e\<in>set ev. E e)"
  shows "triple I a J Q E"
  unfolding triple_def
proof (intro allI impI)
  fix s assume s: "I s"
  obtain ok ev s' where a: "a s = (ok, ev, s')" by (metis prod_cases3)
  show "case a s of (ok, ev, s') \<Rightarrow> (if ok then J s' else Q s') \<and> (\<forall>e\<in>set ev. E e)"
    using assms [OF s a] by (simp add: a)
qed

lemma tripleD:
  assumes "triple I a J Q E" "I s" "a s = (ok, ev, s')"
  shows "ok \<Longrightarrow> J s'" "\<not> ok \<Longrightarrow> Q s'" "e \<in> set ev \<Longrightarrow> E e"
proof -
  have "(if ok then J s' else Q s') \<and> (\<forall>e\<in>set ev. E e)" using assms(1) [unfolded triple_def, rule_format, OF assms(2)] assms(3) by simp
  then show "ok \<Longrightarrow> J s'" "\<not> ok \<Longrightarrow> Q s'" "e \<in> set ev \<Longrightarrow> E e" by auto
qed

lemma triple_conseq:
  assumes "triple I a J Q E" "\<And>s. I' s \<Longrightarrow> I s" "\<And>s. J s \<Longrightarrow> J' s"
  shows "triple I' a J' Q E"
  using assms by (fastforce simp: triple_def)

lemma triple_Nil: "triple I (stages []) I Q E"
  by (simp add: triple_def)

lemma triple_Cons:
  assumes "triple I a J Q E" "triple J (stages as) K Q E"
  shows "triple I (stages (a # as)) K Q E"
proof (rule tripleI)
  fix s ok ev s'
  assume s: "I s" "stages (a # as) s = (ok, ev, s')"
  obtain b ev1 s1 where a: "a s = (b, ev1, s1)" by (metis prod_cases3)
  obtain b2 ev2 s2 where r: "stages as s1 = (b2, ev2, s2)" by (metis prod_cases3)
  note d = tripleD [OF assms(1) s(1) a]
  show "(if ok then K s' else Q s') \<and> (\<forall>e\<in>set ev. E e)"
  proof (cases b)
    case True
    then show ?thesis using s(2) a r d tripleD [OF assms(2) d(1) [OF True] r] by auto
  next
    case False
    then show ?thesis using s(2) a d by auto
  qed
qed

lemmas triple_stages = triple_Cons triple_Nil

lemma triple_all: "list_all (\<lambda>a. triple I a I Q E) as \<Longrightarrow> triple I (stages as) I Q E"
  by (induction as) (auto intro: triple_stages)

lemma stages_append:
  "stages (as @ bs) s =
     (case stages as s of
        (False, ev, s) \<Rightarrow> (False, ev, s)
      | (True, ev, s) \<Rightarrow> (case stages bs s of (ok, ev', s) \<Rightarrow> (ok, ev @ ev', s)))"
  by (induction as arbitrary: s) (auto split: prod.splits bool.splits)

text \<open>Messages change the logger only, and leave it there.\<close>

lemma say_step:
  assumes "say pe cs s = (ok, ev, s')"
  shows "ok" "\<exists>l. s' = s\<lparr>pt_logger := l\<rparr> \<and> (l = None \<longleftrightarrow> pt_logger s = None)" "e \<in> set ev \<Longrightarrow> \<exists>x. e = LogOut x"
  using assms by (auto simp: say_def split: option.splits prod.splits)

lemma cry_step:
  assumes "cry pe c msg s = (ok, ev, s')"
  shows "ok" "s' = s" "e \<in> set ev \<Longrightarrow> \<exists>x. e = LogOut x"
  using assms by (auto simp: cry_def)

text \<open>What a stage keeps when only the logger matters to it.\<close>

definition logger_free :: "(patch \<Rightarrow> bool) \<Rightarrow> bool" where
  "logger_free I \<longleftrightarrow> (\<forall>s l. I s \<longrightarrow> (l = None \<longleftrightarrow> pt_logger s = None) \<longrightarrow> I (s\<lparr>pt_logger := l\<rparr>))"

lemma triple_say:
  assumes "logger_free I" "\<And>x. E (LogOut x)" shows "triple I (say pe cs) I Q E"
proof (rule tripleI)
  fix s ok ev s' assume "I s" and c: "say pe cs s = (ok, ev, s')"
  then show "(if ok then I s' else Q s') \<and> (\<forall>e\<in>set ev. E e)"
    using say_step [OF c] assms unfolding logger_free_def by metis
qed

lemma triple_cry: "(\<And>x. E (LogOut x)) \<Longrightarrow> triple I (cry pe c msg) I Q E"
  by (rule tripleI) (metis cry_step)

subsection \<open>Stopping\<close>

text \<open>Nothing of the patch is left, and only \<open>attached\<close> is hooked.\<close>

definition all_gone :: "string list \<Rightarrow> patch \<Rightarrow> bool" where
  "all_gone attached s \<longleftrightarrow>
     \<not> g_isStarted s \<and> \<not> pt_etw s \<and> pt_emergency s = None \<and> pt_logger s = None \<and> \<not> pt_analytics s \<and>
     \<not> pt_hitchDetector s \<and> \<not> pt_pressure s \<and> pt_walker s = None \<and> g_memoryManager s = None \<and> \<not> g_hookManager s \<and>
     g_exceptionHandler s = None \<and> g_heartbeatMonitor s = None \<and>
     ins_attached (pt_hooks s) = attached \<and>
     \<not> s_readFileHooked (ob_install (pt_observers s)) \<and> ''Present'' \<notin> set (fo_real (ob_frames (pt_observers s)))"

text \<open>A patch that is not started has no instances.\<close>

definition coherent :: "patch \<Rightarrow> bool" where
  "coherent s \<longleftrightarrow>
     g_isStarted s \<or>
     pt_logger s = None \<and> \<not> pt_analytics s \<and> \<not> pt_hitchDetector s \<and> \<not> pt_pressure s \<and> pt_walker s = None"

fun memory_event :: "patch_event \<Rightarrow> bool" where
  "memory_event (MemoryOut e) = True"
| "memory_event e = False"

fun detach_event :: "patch_event \<Rightarrow> bool" where
  "detach_event (HookOut (Detach n)) = True"
| "detach_event (ObserverOut (OfFrames (DetachMethod n))) = True"
| "detach_event ReadDetached = True"
| "detach_event e = False"

lemma triple_guard:
  assumes "triple (\<lambda>s. I s \<and> b s) a J Q E" "\<And>s. I s \<Longrightarrow> \<not> b s \<Longrightarrow> J s"
  shows "triple I (\<lambda>s. if b s then a s else (True, [], s)) J Q E"
  using assms unfolding triple_def by auto

lemma triple_update: "(\<And>s. I s \<Longrightarrow> J (f s)) \<Longrightarrow> (\<And>s e. I s \<Longrightarrow> e \<in> set (g s) \<Longrightarrow> E e) \<Longrightarrow> triple I (\<lambda>s. (True, g s, f s)) J Q E"
  by (simp add: triple_def)

text \<open>What the hook manager leaves attached.\<close>

definition left_attached :: "patch_env \<Rightarrow> patch \<Rightarrow> string list" where
  "left_attached pe s =
     (if g_hookManager s then ins_attached (snd (HookManager_delete (pe_install pe) (pt_hooks s))) else ins_attached (pt_hooks s))"


lemma BeginShutdown_again: "BeginShutdown (BeginShutdown c) = BeginShutdown c"
  by (simp add: BeginShutdown_def)

lemma in_hooks_again:
  assumes "\<And>h. f (f h) = f h" shows "in_hooks f (in_hooks f i) = in_hooks f i"
  using assms by simp

lemma delete_after_begin:
  "ins_attached (snd (HookManager_delete ie (in_hooks (\<lambda>h. h\<lparr>h_control := BeginShutdown (h_control h)\<rparr>) i))) =
   ins_attached (snd (HookManager_delete ie i))"
proof (cases "m_hooksInstalled i")
  case True
  have "in_hooks (\<lambda>h. h\<lparr>h_control := BeginShutdown (h_control h)\<rparr>) (in_hooks (\<lambda>h. h\<lparr>h_control := BeginShutdown (h_control h)\<rparr>) i) =
        in_hooks (\<lambda>h. h\<lparr>h_control := BeginShutdown (h_control h)\<rparr>) i"
    by (rule in_hooks_again) (simp add: BeginShutdown_again)
  then show ?thesis using True by (simp add: HookManager_delete_def HookManager_Uninstall_def)
qed (simp add: HookManager_delete_def HookManager_Uninstall_def)

lemma hook_events_only:
  "e \<in> set (map HookOut ev) \<Longrightarrow> \<not> memory_event e" "e \<in> set (map MemoryOut ev') \<Longrightarrow> \<not> detach_event e"
  "\<not> memory_event (LogOut x)" "\<not> detach_event (LogOut x)"
  by auto

text \<open>The stages up to the manager's, and from the manager's on.\<close>

definition with_manager :: "string list \<Rightarrow> patch \<Rightarrow> bool" where
  "with_manager A s \<longleftrightarrow>
     coherent s \<and> \<not> g_hookManager s \<and> ins_attached (pt_hooks s) = A \<and> g_heartbeatMonitor s = None \<and> g_exceptionHandler s = None \<and>
     \<not> s_readFileHooked (ob_install (pt_observers s)) \<and> ''Present'' \<notin> set (fo_real (ob_frames (pt_observers s)))"

definition before_manager :: "patch_env \<Rightarrow> stage list" where
  "before_manager pe = take 8 (stop_stages pe)"

lemma stop_stages_split: "stop_stages pe = before_manager pe @ [stop_manager pe, stop_instances pe, stop_rest pe]"
  by (simp add: before_manager_def stop_stages_def)

lemma coherent_logger: "coherent s \<Longrightarrow> (l = None \<longleftrightarrow> pt_logger s = None) \<Longrightarrow> coherent (s\<lparr>pt_logger := l\<rparr>)"
  by (auto simp: coherent_def)

lemma before_manager_triple:
  "triple (\<lambda>s. coherent s \<and> left_attached pe s = A) (stages (before_manager pe)) (with_manager A) Q (\<lambda>e. \<not> memory_event e)"
proof -
  let ?I = "\<lambda>s. coherent s \<and> left_attached pe s = A"
  let ?J1 = "\<lambda>s. coherent s \<and> \<not> g_hookManager s \<and> ins_attached (pt_hooks s) = A"
  let ?J2 = "\<lambda>s. ?J1 s \<and> \<not> s_readFileHooked (ob_install (pt_observers s)) \<and> ''Present'' \<notin> set (fo_real (ob_frames (pt_observers s)))"
  let ?J3 = "\<lambda>s. ?J2 s \<and> g_heartbeatMonitor s = None"
  let ?E = "\<lambda>e. \<not> memory_event e"
  have lf: "logger_free ?I" "logger_free (\<lambda>s. ?I s \<and> g_isStarted s)"
    by (auto simp: logger_free_def left_attached_def coherent_logger)
  have t1: "triple ?I (\<lambda>s. (True, [], on_hooks (\<lambda>h. h\<lparr>h_control := BeginShutdown (h_control h)\<rparr>) s)) ?I Q ?E"
    by (rule triple_update)
       (auto simp: on_hooks_def coherent_def left_attached_def delete_after_begin)
  have t2: "triple ?I (\<lambda>s. if g_isStarted s then say pe cs s else (True, [], s)) ?I Q ?E" for cs
    by (rule triple_guard, rule triple_conseq [OF triple_say [OF lf(2)]]) auto
  have t3: "triple ?I (stop_hooks pe) ?J1 Q ?E"
    by (rule tripleI) (auto simp: stop_hooks_def left_attached_def coherent_def split: if_splits prod.splits)
  have t4: "triple ?J1 (stop_observers pe) ?J2 Q ?E"
    by (rule tripleI)
       (auto simp: stop_observers_def coherent_def ObserverHooks_Uninstall_def UninstallReadFileObserver_def UninstallFrameObserver_def Let_def
         split: if_splits prod.splits)
  have t5: "triple ?J2 (stop_heartbeat pe) ?J3 Q ?E"
    by (rule tripleI) (auto simp: stop_heartbeat_def coherent_def split: option.splits if_splits)
  have t6: "triple ?J3 (stop_handler pe) (with_manager A) Q ?E"
    by (rule tripleI) (auto simp: stop_handler_def coherent_def with_manager_def split: option.splits)
  show ?thesis
    unfolding before_manager_def stop_stages_def
    by (simp del: stages.simps)
       (rule triple_Cons [OF triple_cry triple_Cons [OF triple_cry triple_Cons [OF t1 triple_Cons [OF t2
          triple_Cons [OF t3 triple_Cons [OF t4 triple_Cons [OF t5 triple_Cons [OF t6 triple_Nil]]]]]]]]; simp)
qed


lemma after_manager_triple:
  "triple (with_manager A) (stages [stop_manager pe, stop_instances pe, stop_rest pe]) (all_gone A) Q (\<lambda>e. \<not> detach_event e)"
proof -
  let ?J1 = "\<lambda>s. with_manager A s \<and> g_memoryManager s = None"
  let ?J2 = "\<lambda>s. ?J1 s \<and> pt_logger s = None \<and> \<not> pt_analytics s \<and> \<not> pt_hitchDetector s \<and> \<not> pt_pressure s \<and> pt_walker s = None"
  let ?E = "\<lambda>e. \<not> detach_event e"
  let ?S = "\<lambda>s. ?J1 s \<and> g_isStarted s"
  let ?S1 = "\<lambda>s. ?S s \<and> pt_walker s = None"
  let ?S2 = "\<lambda>s. ?S1 s \<and> \<not> pt_hitchDetector s"
  let ?S3 = "\<lambda>s. ?S2 s \<and> \<not> pt_analytics s"
  let ?S4 = "\<lambda>s. ?S3 s \<and> \<not> pt_pressure s"
  have t1: "triple (with_manager A) (stop_manager pe) ?J1 Q ?E"
    by (rule tripleI) (auto simp: stop_manager_def with_manager_def coherent_def split: option.splits prod.splits)
  have w: "triple ?S (stop_walker pe) ?S1 Q ?E"
    by (rule tripleI) (auto simp: stop_walker_def with_manager_def coherent_def split: option.splits if_splits)
  have h: "triple ?S1 (\<lambda>s. (True, if pt_hitchDetector s then [Gone ''HitchDetector''] else [], s\<lparr>pt_hitchDetector := False\<rparr>)) ?S2 Q ?E"
    by (rule triple_update) (auto simp: with_manager_def coherent_def split: if_splits)
  have a: "triple ?S2 (\<lambda>s. (True, if pt_analytics s then [CountersReported, Gone ''Analytics''] else [], s\<lparr>pt_analytics := False\<rparr>)) ?S3 Q ?E"
    by (rule triple_update) (auto simp: with_manager_def coherent_def split: if_splits)
  have p: "triple ?S3 (\<lambda>s. (True, if pt_pressure s then [Gone ''VASPressureMonitor''] else [], s\<lparr>pt_pressure := False\<rparr>)) ?S4 Q ?E"
    by (rule triple_update) (auto simp: with_manager_def coherent_def split: if_splits)
  have s: "triple ?S4 (say pe cs) ?S4 Q ?E" for cs
    by (rule triple_say) (auto simp: logger_free_def with_manager_def coherent_def)
  have l: "triple ?S4 (\<lambda>s. (case Logger_Shutdown (pe_log pe) (pt_logger s) of (ev, l) \<Rightarrow> (True, map LogOut ev, s\<lparr>pt_logger := l\<rparr>))) ?J2 Q ?E"
    by (rule tripleI) (auto simp: Logger_Shutdown_def with_manager_def coherent_def)
  have i: "triple ?S (stages is) ?J2 Q ?E \<Longrightarrow> triple ?J1 (\<lambda>s. if \<not> g_isStarted s then (True, [], s) else stages is s) ?J2 Q ?E" for "is"
    by (auto simp: triple_def with_manager_def coherent_def)
  have t2: "triple ?J1 (stop_instances pe) ?J2 Q ?E"
    unfolding stop_instances_def
    by (rule i, rule triple_Cons [OF w triple_Cons [OF h triple_Cons [OF a triple_Cons [OF p triple_Cons [OF s triple_Cons [OF l triple_Nil]]]]]])
  have t3: "triple ?J2 (stop_rest pe) (all_gone A) Q ?E"
    by (rule tripleI)
       (auto simp: stop_rest_def cry_def EmergencyLogger_Shutdown_def all_gone_def with_manager_def)
  show ?thesis by (rule triple_Cons [OF t1 triple_Cons [OF t2 triple_Cons [OF t3 triple_Nil]]])
qed

lemma filter_append_none: "(\<forall>e\<in>set a. \<not> P e) \<Longrightarrow> (\<forall>e\<in>set b. \<not> R e) \<Longrightarrow> filter R (dropWhile (\<lambda>e. \<not> P e) (a @ b)) = []"
  by (induction a) (auto simp: filter_empty_conv dest: set_dropWhileD)

lemma StopPatch_ends:
  assumes "StopPatch pe s = (ev, s')" "\<not> g_isStopping s" "coherent s"
  shows "all_gone (left_attached pe s) s'" "filter detach_event (dropWhile (\<lambda>e. \<not> memory_event e) ev) = []"
proof -
  let ?s = "s\<lparr>g_isStopping := True\<rparr>" and ?A = "left_attached pe s"
  have s: "coherent ?s \<and> left_attached pe ?s = ?A" using assms(3) by (simp add: coherent_def left_attached_def)
  obtain b1 ev1 s1 where a: "stages (before_manager pe) ?s = (b1, ev1, s1)" by (metis prod_cases3)
  obtain b2 ev2 s2 where c: "stages [stop_manager pe, stop_instances pe, stop_rest pe] s1 = (b2, ev2, s2)" by (metis prod_cases3)
  note t1 = tripleD [OF before_manager_triple [where A = ?A and Q = "\<lambda>_. False"] s a]
  then have b1: "b1" by blast
  note t2 = tripleD [OF after_manager_triple [where Q = "\<lambda>_. False"] t1(1) [OF b1] c]
  then have b2: "b2" by blast
  have "ev = ev1 @ ev2" "s' = s2"
    using assms(1,2) a c b1 unfolding StopPatch_def stop_stages_split stages_append by auto
  then show "all_gone ?A s'" "filter detach_event (dropWhile (\<lambda>e. \<not> memory_event e) ev) = []"
    using t1(3) t2(1) [OF b2] t2(3) filter_append_none [of ev1 memory_event ev2 detach_event] by auto
qed


subsection \<open>Starting\<close>

lemma failed_install_attached:
  assumes "InstallAndEnableHooks ie s = (False, ev, i)" "\<not> m_hooksInstalled s"
  shows "ins_attached (snd (HookManager_delete ie' i)) = ins_attached s"
proof -
  obtain b ev1 t1 where p: "prepare ie (hm_memManager s) s = (b, ev1, t1)" by (metis prod_cases3)
  obtain b2 ev2 t2 where a: "(if b then attach_all ie t1 else (False, [], t1)) = (b2, ev2, t2)" by (metis prod_cases3)
  have "Install ie (hm_memManager s) s = (b2, ev1 @ ev2, t2)" using p a by (cases b) (auto simp: Install_def)
  then have r: "\<not> b2" "i = t2" using assms by (auto simp: InstallAndEnableHooks_def split: bool.splits)
  have "ins_attached t2 = ins_attached t1" "m_hooksInstalled t2 = m_hooksInstalled t1"
    using a r(1) by (auto simp: attach_all_def Let_def split: if_splits)
  then show ?thesis
    using prepare_fields [OF p] r assms(2) by (simp add: HookManager_delete_def HookManager_Uninstall_def)
qed

text \<open>Before the hooks, with them or without, and after a start that did not reach its end.\<close>

definition hooks_fresh :: "installer \<Rightarrow> patch \<Rightarrow> bool" where
  "hooks_fresh i s \<longleftrightarrow> \<not> g_isStopping s \<and> coherent s \<and> \<not> g_hookManager s \<and> pt_hooks s = i"

definition hooks_up :: "patch_env \<Rightarrow> installer \<Rightarrow> patch \<Rightarrow> bool" where
  "hooks_up pe i s \<longleftrightarrow>
     \<not> g_isStopping s \<and> coherent s \<and>
     (g_hookManager s \<and> (\<exists>mm ev s1 w. InstallAndEnableHooks (pe_install pe) (HookManager_new mm i) = (True, ev, s1) \<and>
                                      pt_hooks s = s1\<lparr>ins_map := w\<rparr>) \<or>
      \<not> g_hookManager s \<and> pt_hooks s = i)"

definition given_up :: "installer \<Rightarrow> patch \<Rightarrow> bool" where
  "given_up i s \<longleftrightarrow> hooks_fresh i s \<or> g_isStopping s \<and> all_gone (ins_attached i) s"

lemma up_if_fresh: "hooks_fresh i s \<Longrightarrow> hooks_up pe i s"
  by (simp add: hooks_fresh_def hooks_up_def)

lemma stop_keeps_flag:
  assumes "StopPatch pe s = (ev, s')" shows "g_isStopping s'"
proof (cases "g_isStopping s")
  case False
  have all: "triple g_isStopping (stages (stop_stages pe)) g_isStopping g_isStopping (\<lambda>_. True)"
  proof -
    have lf: "logger_free g_isStopping" by (simp add: logger_free_def)
    have s: "triple g_isStopping (say pe cs) g_isStopping g_isStopping (\<lambda>_. True)" for cs by (rule triple_say [OF lf]) simp
    have c: "triple g_isStopping (\<lambda>s. if g_isStarted s then say pe cs s else (True, [], s)) g_isStopping g_isStopping (\<lambda>_. True)" for cs
      by (rule triple_guard, rule triple_conseq [OF s]) simp_all
    have h: "triple g_isStopping a g_isStopping g_isStopping (\<lambda>_. True)"
      if "a \<in> {stop_hooks pe, stop_observers pe, stop_heartbeat pe, stop_handler pe, stop_manager pe, stop_walker pe, stop_rest pe}" for a
      using that
      by (auto simp: triple_def stop_hooks_def stop_observers_def stop_heartbeat_def stop_handler_def stop_manager_def stop_walker_def
            stop_rest_def cry_def on_hooks_def split: option.splits prod.splits if_splits)
    have u: "triple g_isStopping a g_isStopping g_isStopping (\<lambda>_. True)"
      if "a \<in> {(\<lambda>s. (True, if pt_hitchDetector s then [Gone ''HitchDetector''] else [], s\<lparr>pt_hitchDetector := False\<rparr>)),
               (\<lambda>s. (True, if pt_analytics s then [CountersReported, Gone ''Analytics''] else [], s\<lparr>pt_analytics := False\<rparr>)),
               (\<lambda>s. (True, if pt_pressure s then [Gone ''VASPressureMonitor''] else [], s\<lparr>pt_pressure := False\<rparr>)),
               (\<lambda>s. (case Logger_Shutdown (pe_log pe) (pt_logger s) of (ev, l) \<Rightarrow> (True, map LogOut ev, s\<lparr>pt_logger := l\<rparr>)))}" for a
      using that by (auto simp: triple_def split: prod.splits)
    have i: "triple g_isStopping (stop_instances pe) g_isStopping g_isStopping (\<lambda>_. True)"
    proof -
      have g: "triple g_isStopping (stages is) g_isStopping g_isStopping (\<lambda>_. True) \<Longrightarrow>
          triple g_isStopping (\<lambda>s. if \<not> g_isStarted s then (True, [], s) else stages is s) g_isStopping g_isStopping (\<lambda>_. True)" for "is"
        by (auto simp: triple_def)
      show ?thesis unfolding stop_instances_def by (rule g, rule triple_all) (simp add: s h u)
    qed
    have o: "triple g_isStopping (\<lambda>s. (True, [], on_hooks f s)) g_isStopping g_isStopping (\<lambda>_. True)" for f
      by (simp add: triple_def on_hooks_def)
    have r: "triple g_isStopping (cry pe k msg) g_isStopping g_isStopping (\<lambda>_. True)" for k msg by (rule triple_cry) simp
    show ?thesis unfolding stop_stages_def by (rule triple_all) (simp add: c h i o r)
  qed
  obtain b e t where r: "stages (stop_stages pe) (s\<lparr>g_isStopping := True\<rparr>) = (b, e, t)" by (metis prod_cases3)
  have "g_isStopping t" using tripleD(1,2) [OF all _ r] by (cases b) simp_all
  moreover have "s' = t" using assms False r by (simp add: StopPatch_def)
  ultimately show ?thesis by simp
qed (use assms in \<open>simp add: StopPatch_def\<close>)

lemma give_up_ends:
  "triple (\<lambda>s. \<not> g_isStopping s \<and> coherent s \<and> left_attached pe s = ins_attached i) (give_up pe msg) J (given_up i) (\<lambda>_. True)"
proof (rule tripleI)
  fix s ok ev s'
  assume s: "\<not> g_isStopping s \<and> coherent s \<and> left_attached pe s = ins_attached i" and g: "give_up pe msg s = (ok, ev, s')"
  obtain b e1 s1 where y: "say pe [Error msg] s = (b, e1, s1)" by (metis prod_cases3)
  obtain e2 s2 where t: "StopPatch pe s1 = (e2, s2)" by (metis prod.exhaust)
  have r: "\<not> ok" "s' = s2" using g y t by (auto simp: give_up_def)
  have "\<not> g_isStopping s1" "coherent s1" "left_attached pe s1 = ins_attached i"
    using say_step(2) [OF y] s coherent_logger by (auto simp: left_attached_def)
  then show "(if ok then J s' else given_up i s') \<and> (\<forall>e\<in>set ev. True)"
    using StopPatch_ends [OF t] stop_keeps_flag [OF t] r by (simp add: given_up_def)
qed


lemma start_triple:
  "triple (\<lambda>s. hooks_fresh i s) (stages (start_stages pe)) (hooks_up pe i) (given_up i) (\<lambda>_. True)"
proof -
  let ?T = "\<lambda>_ :: patch_event. True" and ?Q = "given_up i"
  let ?F = "hooks_fresh i" and ?F1 = "\<lambda>s. hooks_fresh i s \<and> g_isStarted s" and ?U = "\<lambda>s. hooks_up pe i s \<and> g_isStarted s"
  have lf: "logger_free ?F1" "logger_free ?U" "logger_free (\<lambda>s. ?U s \<and> passiveMode s)" "logger_free (\<lambda>s. ?F1 s \<and> passiveMode s)"
    by (auto simp: logger_free_def hooks_fresh_def hooks_up_def coherent_def passiveMode_def)
  have y: "triple ?F1 (say pe cs) ?F1 ?Q ?T" "triple ?U (say pe cs) ?U ?Q ?T" for cs
    by (rule triple_say [OF lf(1)] triple_say [OF lf(2)]; simp)+
  have enter: "triple ?F (start_enter pe) ?F ?Q ?T"
    by (rule tripleI)
       (auto simp: start_enter_def cry_def hooks_fresh_def coherent_def given_up_def split: prod.splits)
  have log: "triple ?F (start_log pe) ?F1 ?Q ?T"
    by (rule tripleI) (auto simp: start_log_def hooks_fresh_def coherent_def split: prod.splits)
  have prio: "triple ?F1 (raise_priority pe) ?F1 ?Q ?T"
  proof (rule tripleI)
    fix s ok ev s' assume s: "?F1 s" "raise_priority pe s = (ok, ev, s')"
    then obtain cs b ev' where "say pe cs s = (b, ev', s')" "ok = b"
      by (auto simp: raise_priority_def split: if_splits prod.splits)
    then show "(if ok then ?F1 s' else ?Q s') \<and> (\<forall>e\<in>set ev. True)" using tripleD(1,2) [OF y(1) s(1)] by auto
  qed
  have inst: "triple ?F1 (start_instances pe) ?F1 ?Q ?T"
    by (rule tripleI) (auto simp: start_instances_def hooks_fresh_def coherent_def)
  have gu: "triple ?F1 (give_up pe msg) ?F1 ?Q ?T" for msg
    by (rule triple_conseq [OF give_up_ends]) (auto simp: hooks_fresh_def left_attached_def)
  have man: "triple ?F1 (start_manager pe) ?F1 ?Q ?T"
  proof (rule tripleI)
    fix s ok ev s' assume s: "?F1 s" "start_manager pe s = (ok, ev, s')"
    show "(if ok then ?F1 s' else ?Q s') \<and> (\<forall>e\<in>set ev. True)"
    proof (cases "passiveMode s")
      case True
      then show ?thesis using s(2) tripleD(1,2) [OF y(1) s(1)] by (auto simp: start_manager_def)
    next
      case False
      obtain b0 ev0 s0 where a: "say pe [Info ''[PHASE_3] Initializing proxy memory manager...''] s = (b0, ev0, s0)" by (rule prod_cases3)
      obtain b1 ev1 m where m: "MemoryManager_Initialize (he_mm (ie_hook (pe_install pe))) (MemoryManager_init (he_mm (ie_hook (pe_install pe)))) = (b1, ev1, m)"
        by (rule prod_cases3)
      let ?s = "s0\<lparr>g_memoryManager := Some (m, create_globals_init)\<rparr>"
      obtain b2 ev2 s2 where c: "(if b1 then say pe [Info ''[PHASE_3] Proxy memory manager ready.'']
          else give_up pe ''[PHASE_3] CRITICAL: proxy arena init failed!'') ?s = (b2, ev2, s2)" by (rule prod_cases3)
      have "?F1 s0" using tripleD(1) [OF y(1) s(1) a] say_step(1) [OF a] by blast
      then have f: "?F1 ?s" by (simp add: hooks_fresh_def coherent_def)
      have "ok = b2" "s' = s2" using s(2) False a m c by (auto simp: start_manager_def Let_def)
      then show ?thesis using c tripleD(1,2) [OF y(1) f] tripleD(1,2) [OF gu f] by (cases b1) auto
    qed
  qed
  have hand: "triple ?F1 (start_handler pe) ?F1 ?Q ?T"
    by (rule tripleI) (auto simp: start_handler_def hooks_fresh_def coherent_def split: prod.splits)
  have hooks: "triple ?F1 (start_hooks pe) ?U ?Q ?T"
  proof (rule tripleI)
    fix s ok ev s' assume s: "?F1 s" "start_hooks pe s = (ok, ev, s')"
    show "(if ok then ?U s' else ?Q s') \<and> (\<forall>e\<in>set ev. True)"
    proof (cases "passiveMode s")
      case True
      then have "(if ok then ?F1 s' else ?Q s')" using s(2) tripleD(1,2) [OF y(1) s(1)] by (auto simp: start_hooks_def)
      then show ?thesis using up_if_fresh by (auto split: if_splits)
    next
      case False
      obtain b0 ev0 s0 where a: "say pe [Info ''[PHASE_5] Installing hooks...''] s = (b0, ev0, s0)" by (rule prod_cases3)
      have f0: "?F1 s0" using tripleD(1) [OF y(1) s(1) a] say_step(1) [OF a] by blast
      let ?i = "HookManager_new (g_memoryManager s0) (pt_hooks s0)"
      obtain b1 ev1 i1 where m: "InstallAndEnableHooks (pe_install pe) ?i = (b1, ev1, i1)" by (rule prod_cases3)
      have i: "?i = HookManager_new (g_memoryManager s0) i" using f0 by (simp add: hooks_fresh_def)
      let ?s = "s0\<lparr>g_hookManager := True, pt_hooks := i1\<rparr>"
      let ?t = "on_hooks (\<lambda>h. h\<lparr>h_control := ActivateProxy (h_control h)\<rparr>) ?s"
      show ?thesis
      proof (cases b1)
        case True
        obtain b2 ev2 s2 where c: "say pe [Info ''[HOOKS] All hooks installed and live''] ?t = (b2, ev2, s2)" by (rule prod_cases3)
        have "hooks_up pe i ?t"
          using f0 m True i by (auto simp: hooks_up_def hooks_fresh_def on_hooks_def coherent_def)
        then have u: "?U ?t" using f0 by (simp add: on_hooks_def)
        have "ok = b2" "s' = s2" using s(2) False True a m c by (auto simp: start_hooks_def Let_def)
        then show ?thesis using tripleD(1,2) [OF y(2) u c] by auto
      next
        case no: False
        obtain b2 ev2 s2 where c: "give_up pe ''[PHASE_5] CRITICAL: Hook installation failed!'' ?s = (b2, ev2, s2)" by (rule prod_cases3)
        have "ins_attached (snd (HookManager_delete (pe_install pe) i1)) = ins_attached i"
          using failed_install_attached [OF m [unfolded i, simplified no]] by (simp add: HookManager_new_def)
        then have l: "\<not> g_isStopping ?s \<and> coherent ?s \<and> left_attached pe ?s = ins_attached i"
          using f0 by (simp add: hooks_fresh_def coherent_def left_attached_def)
        have "ok = b2" "s' = s2" using s(2) False no a m c by (auto simp: start_hooks_def Let_def)
        then show ?thesis using tripleD(1,2) [OF give_up_ends [where J = ?U] l c] by auto
      qed
    qed
  qed
  have thr: "triple ?U (start_threads pe) ?U ?Q ?T"
  proof (rule tripleI)
    fix s ok ev s' assume s: "?U s" "start_threads pe s = (ok, ev, s')"
    then obtain ls h w ev' where c: "say pe ls (s\<lparr>g_heartbeatMonitor := h, pt_walker := w\<rparr>) = (ok, ev', s')"
      by (auto simp: start_threads_def Let_def split: prod.splits)
    have "?U (s\<lparr>g_heartbeatMonitor := h, pt_walker := w\<rparr>)" using s(1) by (auto simp: hooks_up_def coherent_def)
    then show "(if ok then ?U s' else ?Q s') \<and> (\<forall>e\<in>set ev. True)" using tripleD(1,2) [OF y(2) _ c] by auto
  qed
  have live: "triple ?U (\<lambda>s. if passiveMode s then (True, [], s) else say pe cs s) ?U ?Q ?T" for cs
    using y(2) by (auto simp: triple_def)
  have obs: "triple ?U (start_observers pe) ?U ?Q ?T"
  proof (rule tripleI)
    fix s ok ev s' assume s: "?U s" "start_observers pe s = (ok, ev, s')"
    then obtain cs ob ev' where c: "say pe cs (s\<lparr>pt_observers := ob\<rparr>) = (ok, ev', s')"
      by (cases s) (auto simp: start_observers_def split: if_splits prod.splits)
    have "?U (s\<lparr>pt_observers := ob\<rparr>)" using s(1) by (auto simp: hooks_up_def coherent_def)
    then show "(if ok then ?U s' else ?Q s') \<and> (\<forall>e\<in>set ev. True)" using tripleD(1,2) [OF y(2) _ c] by auto
  qed
  have fin: "triple ?U (\<lambda>s. say pe (f s) s) ?U ?Q ?T" for f
  proof (rule tripleI)
    fix s ok ev s' assume "?U s" "say pe (f s) s = (ok, ev, s')"
    from tripleD(1,2) [OF y(2) this] show "(if ok then ?U s' else ?Q s') \<and> (\<forall>e\<in>set ev. True)" by auto
  qed
  have "triple ?F (stages (start_stages pe)) ?U ?Q ?T"
    unfolding start_stages_def
    by (rule triple_Cons [OF enter triple_Cons [OF log triple_Cons [OF y(1) triple_Cons [OF prio triple_Cons [OF y(1) triple_Cons [OF inst
          triple_Cons [OF y(1) triple_Cons [OF man triple_Cons [OF y(1) triple_Cons [OF hand triple_Cons [OF y(1) triple_Cons [OF hooks
          triple_Cons [OF thr triple_Cons [OF live triple_Cons [OF obs triple_Cons [OF fin triple_Nil]]]]]]]]]]]]]]]])
  then show ?thesis by (rule triple_conseq) auto
qed


subsection \<open>The order of events\<close>

text \<open>The manager is deleted, or a block it handed out is decommitted.\<close>

fun gives_back :: "patch_event \<Rightarrow> bool" where
  "gives_back (MemoryOut (Decommit a n)) = True"
| "gives_back (Gone c) = (c = ''MemoryManager'')"
| "gives_back e = False"

definition hooks_first :: "patch_event list \<Rightarrow> bool" where
  "hooks_first ev \<longleftrightarrow> filter detach_event (dropWhile (\<lambda>e. \<not> gives_back e) ev) = []"

lemma hooks_first_none: "filter gives_back ev = [] \<Longrightarrow> hooks_first ev"
  by (induction ev) (auto simp: hooks_first_def split: if_splits)

lemma hooks_first_append: "filter gives_back a = [] \<Longrightarrow> hooks_first (a @ b) = hooks_first b"
  by (induction a) (auto simp: hooks_first_def split: if_splits)

text \<open>What every stage of a stop does, whatever the state.\<close>

abbreviation always :: "stage \<Rightarrow> (patch_event \<Rightarrow> bool) \<Rightarrow> bool" where
  "always a E \<equiv> triple (\<lambda>_. True) a (\<lambda>_. True) (\<lambda>_. True) E"

lemma always_say: "(\<And>x. E (LogOut x)) \<Longrightarrow> always (say pe cs) E"
  by (rule triple_say) (simp_all add: logger_free_def)

lemma before_manager_always: "always (stages (before_manager pe)) (\<lambda>e. \<not> gives_back e)"
proof -
  let ?E = "\<lambda>e. \<not> gives_back e"
  have "always (stop_hooks pe) ?E" "always (stop_observers pe) ?E" "always (stop_heartbeat pe) ?E" "always (stop_handler pe) ?E"
    by (auto simp: triple_def stop_hooks_def stop_observers_def stop_heartbeat_def stop_handler_def
        split: option.splits prod.splits if_splits)
  moreover have "always (\<lambda>s. if g_isStarted s then say pe cs s else (True, [], s)) ?E" for cs
    using always_say [of ?E pe cs] by (auto simp: triple_def)
  moreover have "always (\<lambda>s. (True, [], on_hooks f s)) ?E" for f by (simp add: triple_def)
  moreover have "always (cry pe k msg) ?E" for k msg by (rule triple_cry) simp
  ultimately show ?thesis unfolding before_manager_def stop_stages_def
    by (intro triple_all) simp
qed

lemma after_manager_always: "always (stages [stop_manager pe, stop_instances pe, stop_rest pe]) (\<lambda>e. \<not> detach_event e)"
proof -
  let ?E = "\<lambda>e. \<not> detach_event e"
  have m: "always (stop_manager pe) ?E" "always (stop_walker pe) ?E" "always (stop_rest pe) ?E"
    by (auto simp: triple_def stop_manager_def stop_walker_def stop_rest_def cry_def split: option.splits prod.splits if_splits)
  have u: "always (\<lambda>s. (True, if c s then es else [], f s)) ?E" if "\<forall>e\<in>set es. ?E e" for c es f
    using that by (simp add: triple_def)
  have l: "always (\<lambda>s. (case Logger_Shutdown (pe_log pe) (pt_logger s) of (ev, l) \<Rightarrow> (True, map LogOut ev, s\<lparr>pt_logger := l\<rparr>))) ?E"
    by (auto simp: triple_def split: prod.splits)
  have g: "always (stages is) ?E \<Longrightarrow> always (\<lambda>s. if \<not> g_isStarted s then (True, [], s) else stages is s) ?E" for "is"
    by (auto simp: triple_def)
  have "always (stop_instances pe) ?E" unfolding stop_instances_def
    by (rule g, rule triple_all) (simp add: m u l always_say)
  then show ?thesis by (intro triple_all) (simp add: m)
qed

lemma StopPatch_order:
  assumes "StopPatch pe s = (ev, s')" shows "hooks_first ev"
proof (cases "g_isStopping s")
  case False
  obtain b1 ev1 s1 where a: "stages (before_manager pe) (s\<lparr>g_isStopping := True\<rparr>) = (b1, ev1, s1)" by (metis prod_cases3)
  obtain b2 ev2 s2 where c: "stages [stop_manager pe, stop_instances pe, stop_rest pe] s1 = (b2, ev2, s2)" by (metis prod_cases3)
  have n: "\<forall>e\<in>set ev1. \<not> gives_back e" "\<forall>e\<in>set ev2. \<not> detach_event e"
    using tripleD(3) [OF before_manager_always _ a] tripleD(3) [OF after_manager_always _ c] by auto
  have "ev = ev1 \<or> ev = ev1 @ ev2"
    using assms False a c unfolding StopPatch_def stop_stages_split stages_append by (auto split: bool.splits)
  then show ?thesis
    using n filter_append_none [of ev1 gives_back ev2 detach_event] hooks_first_none [of ev1]
    by (auto simp: hooks_first_def filter_empty_conv)
qed (use assms in \<open>simp add: StopPatch_def hooks_first_def\<close>)

text \<open>A stage of a start gives nothing back; if it does not go on, it may have stopped the patch, in order.\<close>

definition orderly :: "stage \<Rightarrow> bool" where
  "orderly a \<longleftrightarrow>
     (\<forall>s. case a s of (ok, ev, s') \<Rightarrow> filter gives_back ev = [] \<or> \<not> ok \<and> hooks_first ev \<and> g_isStopping s')"

lemma orderlyI:
  "(\<And>s ok ev s'. a s = (ok, ev, s') \<Longrightarrow> filter gives_back ev = [] \<or> \<not> ok \<and> hooks_first ev \<and> g_isStopping s') \<Longrightarrow> orderly a"
  by (auto simp: orderly_def)

lemma orderlyD: "orderly a \<Longrightarrow> a s = (ok, ev, s') \<Longrightarrow> filter gives_back ev = [] \<or> \<not> ok \<and> hooks_first ev \<and> g_isStopping s'"
  by (auto simp: orderly_def dest: spec [of _ s])

lemma orderly_stages: "list_all orderly as \<Longrightarrow> orderly (stages as)"
proof (induction as)
  case (Cons a as)
  show ?case
  proof (rule orderlyI)
    fix s ok ev s' assume st: "stages (a # as) s = (ok, ev, s')"
    obtain b1 ev1 s1 where a: "a s = (b1, ev1, s1)" by (metis prod_cases3)
    obtain b2 ev2 s2 where c: "stages as s1 = (b2, ev2, s2)" by (metis prod_cases3)
    have o: "orderly a" "orderly (stages as)" using Cons by simp_all
    from orderlyD [OF o(1) a] orderlyD [OF o(2) c] st a c
    show "filter gives_back ev = [] \<or> \<not> ok \<and> hooks_first ev \<and> g_isStopping s'"
      by (cases b1) (auto simp: hooks_first_append)
  qed
qed (simp add: orderly_def)

lemma say_quiet: "say pe cs s = (b, ev, s') \<Longrightarrow> filter gives_back ev = []"
  by (auto simp: say_def filter_empty_conv split: option.splits prod.splits)

lemma orderly_say: "orderly (say pe cs)"
  by (rule orderlyI) (simp add: say_quiet)

lemma orderly_give_up: "orderly (give_up pe msg)"
proof (rule orderlyI)
  fix s ok ev s' assume g: "give_up pe msg s = (ok, ev, s')"
  obtain b e1 s1 where y: "say pe [Error msg] s = (b, e1, s1)" by (metis prod_cases3)
  obtain e2 s2 where t: "StopPatch pe s1 = (e2, s2)" by (metis prod.exhaust)
  note q = say_quiet [OF y]
  show "filter gives_back ev = [] \<or> \<not> ok \<and> hooks_first ev \<and> g_isStopping s'"
    using g y t StopPatch_order [OF t] stop_keeps_flag [OF t] hooks_first_append [OF q] by (auto simp: give_up_def)
qed

lemma Initialize_keeps_blocks:
  assumes "MemoryManager_Initialize env m = (ok, ev, m')" shows "filter gives_back (map MemoryOut ev) = []"
proof -
  have seg: "AddCorralSegment env sz m0 = (b, e, m1) \<Longrightarrow> Decommit a n \<notin> set e" for sz m0 b e m1 a n
    by (auto simp: AddCorralSegment_def Let_def split: if_splits prod.splits)
  have "Decommit a n \<notin> set (fst (snd (InitScriptArena env m0)))" for a n m0
    using seg by (auto simp: InitScriptArena_def Let_def split: if_splits prod.splits)
  then have "Decommit a n \<notin> set ev" for a n
    using assms by (auto simp: MemoryManager_Initialize_def Let_def split: if_splits prod.splits) (metis fst_conv snd_conv)+
  then show ?thesis unfolding filter_empty_conv by (auto elim!: gives_back.elims)
qed

lemma orderly_start: "orderly (stages (start_stages pe))"
proof -
  have enter: "orderly (start_enter pe)"
    by (rule orderlyI) (auto simp: start_enter_def cry_def filter_empty_conv split: prod.splits)
  have log: "orderly (start_log pe)"
    by (rule orderlyI) (auto simp: start_log_def filter_empty_conv split: prod.splits)
  have prio: "orderly (raise_priority pe)"
  proof (rule orderlyI)
    fix s ok ev s' assume r: "raise_priority pe s = (ok, ev, s')"
    then obtain cs b ev' where "say pe cs s = (b, ev', s')" "ev = ev' \<or> ev = PriorityRaised # ev'"
      by (auto simp: raise_priority_def split: if_splits prod.splits)
    then have "filter gives_back ev = []" using say_quiet by fastforce
    then show "filter gives_back ev = [] \<or> \<not> ok \<and> hooks_first ev \<and> g_isStopping s'" by blast
  qed
  have inst: "orderly (start_instances pe)" by (rule orderlyI) (auto simp: start_instances_def)
  have hand: "orderly (start_handler pe)" by (rule orderlyI) (auto simp: start_handler_def split: prod.splits)
  note quiet = say_quiet
  have man: "orderly (start_manager pe)"
  proof (rule orderlyI)
    fix s ok ev s' assume r: "start_manager pe s = (ok, ev, s')"
    show "filter gives_back ev = [] \<or> \<not> ok \<and> hooks_first ev \<and> g_isStopping s'"
    proof (cases "passiveMode s")
      case True
      then show ?thesis using r quiet by (simp add: start_manager_def)
    next
      case False
      obtain b0 ev0 s0 where a: "say pe [Info ''[PHASE_3] Initializing proxy memory manager...''] s = (b0, ev0, s0)" by (rule prod_cases3)
      obtain b1 ev1 m where m: "MemoryManager_Initialize (he_mm (ie_hook (pe_install pe))) (MemoryManager_init (he_mm (ie_hook (pe_install pe)))) = (b1, ev1, m)"
        by (rule prod_cases3)
      let ?s = "s0\<lparr>g_memoryManager := Some (m, create_globals_init)\<rparr>"
      obtain b2 ev2 s2 where c: "(if b1 then say pe [Info ''[PHASE_3] Proxy memory manager ready.'']
          else give_up pe ''[PHASE_3] CRITICAL: proxy arena init failed!'') ?s = (b2, ev2, s2)" by (rule prod_cases3)
      have e: "ok = b2" "s' = s2" "ev = (ev0 @ [Made ''MemoryManager''] @ map MemoryOut ev1) @ ev2"
        using r False a m c by (auto simp: start_manager_def Let_def)
      have n: "filter gives_back (ev0 @ [Made ''MemoryManager''] @ map MemoryOut ev1) = []"
        using quiet [OF a] Initialize_keeps_blocks [OF m] by simp
      have "filter gives_back ev2 = [] \<or> \<not> b2 \<and> hooks_first ev2 \<and> g_isStopping s2"
      proof (cases b1)
        case True
        then show ?thesis using c say_quiet by simp
      next
        case False
        with c have "give_up pe ''[PHASE_3] CRITICAL: proxy arena init failed!'' ?s = (b2, ev2, s2)" by simp
        from orderlyD [OF orderly_give_up this] show ?thesis .
      qed
      then show ?thesis unfolding e(1,2) using n hooks_first_append [OF n, of ev2] by (auto simp: e(3))
    qed
  qed
  have hooks: "orderly (start_hooks pe)"
  proof (rule orderlyI)
    fix s ok ev s' assume r: "start_hooks pe s = (ok, ev, s')"
    show "filter gives_back ev = [] \<or> \<not> ok \<and> hooks_first ev \<and> g_isStopping s'"
    proof (cases "passiveMode s")
      case True
      then show ?thesis using r quiet by (simp add: start_hooks_def)
    next
      case False
      obtain b0 ev0 s0 where a: "say pe [Info ''[PHASE_5] Installing hooks...''] s = (b0, ev0, s0)" by (rule prod_cases3)
      obtain b1 ev1 i1 where m: "InstallAndEnableHooks (pe_install pe) (HookManager_new (g_memoryManager s0) (pt_hooks s0)) = (b1, ev1, i1)"
        by (rule prod_cases3)
      let ?s = "s0\<lparr>g_hookManager := True, pt_hooks := i1\<rparr>"
      obtain b2 ev2 s2 where c: "(if \<not> b1 then give_up pe ''[PHASE_5] CRITICAL: Hook installation failed!'' ?s
          else say pe [Info ''[HOOKS] All hooks installed and live'']
                 (on_hooks (\<lambda>h. h\<lparr>h_control := ActivateProxy (h_control h)\<rparr>) ?s)) = (b2, ev2, s2)" by (rule prod_cases3)
      have e: "ok = b2" "s' = s2" "ev = (ev0 @ map HookOut ev1) @ ev2"
        using r False a m c by (auto simp: start_hooks_def Let_def split: if_splits)
      have n: "filter gives_back (ev0 @ map HookOut ev1) = []" using quiet [OF a] by (auto simp: filter_empty_conv)
      have "filter gives_back ev2 = [] \<or> \<not> b2 \<and> hooks_first ev2 \<and> g_isStopping s2"
      proof (cases b1)
        case True
        then show ?thesis using c say_quiet by simp
      next
        case False
        with c have "give_up pe ''[PHASE_5] CRITICAL: Hook installation failed!'' ?s = (b2, ev2, s2)" by simp
        from orderlyD [OF orderly_give_up this] show ?thesis .
      qed
      then show ?thesis unfolding e(1,2) using n hooks_first_append [OF n, of ev2] by (auto simp: e(3))
    qed
  qed
  have thr: "orderly (start_threads pe)"
    by (rule orderlyI) (auto simp: start_threads_def Let_def dest: quiet split: prod.splits)
  have live: "orderly (\<lambda>s. if passiveMode s then (True, [], s) else say pe cs s)" for cs
    by (rule orderlyI) (auto dest: quiet split: if_splits)
  have obs: "orderly (start_observers pe)"
  proof (rule orderlyI)
    fix s ok ev s' assume r: "start_observers pe s = (ok, ev, s')"
    then obtain cs ob ev0 ev' where "say pe cs (s\<lparr>pt_observers := ob\<rparr>) = (ok, ev', s')" "ev = map ObserverOut ev0 @ ev'"
      by (cases s) (auto simp: start_observers_def split: if_splits prod.splits)
    then have "filter gives_back ev = []" using say_quiet [of pe cs _ ok ev' s'] by (auto simp: filter_empty_conv)
    then show "filter gives_back ev = [] \<or> \<not> ok \<and> hooks_first ev \<and> g_isStopping s'" by blast
  qed
  have fin: "orderly (\<lambda>s. say pe (f s) s)" for f
    by (rule orderlyI) (auto dest: quiet)
  show ?thesis unfolding start_stages_def
    by (rule orderly_stages) (simp add: enter log prio inst hand man hooks thr live obs fin orderly_say)
qed

lemma StopPatch_of_started:
  assumes "hooks_up pe i p1" "\<forall>n. ie_pointer (pe_install pe) n \<noteq> 0"
    "set (ins_attached i) \<inter> set (map hook_name attach_list) = {}"
    "p2 = p1\<lparr>pt_hooks := (pt_hooks p1)\<lparr>ins_map := w\<rparr>\<rparr>" "ie_telemetry (pe_install pe') = ie_telemetry (pe_install pe)"
  shows "left_attached pe' p2 = (if ie_commit (pe_install pe') = 0 then ins_attached i else ins_attached (pt_hooks p1))"
proof (cases "g_hookManager p1")
  case False
  then show ?thesis using assms(1,4) by (simp add: hooks_up_def left_attached_def)
next
  case True
  then obtain mm ev0 s1 w0 where a: "InstallAndEnableHooks (pe_install pe) (HookManager_new mm i) = (True, ev0, s1)"
    "pt_hooks p1 = s1\<lparr>ins_map := w0\<rparr>" using assms(1) by (auto simp: hooks_up_def)
  obtain ev1 s3 where d: "HookManager_Uninstall (pe_install pe') (s1\<lparr>ins_map := w\<rparr>) = (ev1, s3)" by (metis prod.exhaust)
  have "ins_attached s3 = (if ie_commit (pe_install pe') = 0 then ins_attached (HookManager_new mm i) else ins_attached s1)"
    using uninstall_after_install [OF a(1) _ assms(2) _ refl assms(5) d] assms(3) by (simp add: HookManager_new_def)
  then show ?thesis using True a(2) d assms(4) by (simp add: left_attached_def HookManager_delete_def HookManager_new_def)
qed

text \<open>C35: Stopping undoes starting: whether a start reached its end, ended early or gave up and stopped
  itself, and whatever the hooks did in between, after \<open>StopPatch\<close> no instance, thread, log or manager
  is left, and the observers hold themselves removed.  When the transaction that removes the
  allocation hooks succeeds, the functions attached are those attached before; when it fails, those the
  start attached stay attached although the manager is gone.  Over the start and the
  stop together no hook of either kind is taken off after the manager is deleted or one of its blocks
  is decommitted.  This is for one build, trampolines that are not null, and functions that were not
  attached before; whether the observers' own transactions succeed the code does not look.
\<close>

theorem stop_undoes_start:
  assumes "StartPatch pe p = (ok, ev, p1)" "hooks_fresh i p" "\<forall>n. ie_pointer (pe_install pe) n \<noteq> 0"
    "set (ins_attached i) \<inter> set (map hook_name attach_list) = {}"
    "p2 = p1\<lparr>pt_hooks := (pt_hooks p1)\<lparr>ins_map := w\<rparr>\<rparr>" "StopPatch pe' p2 = (ev', p3)"
    "ie_telemetry (pe_install pe') = ie_telemetry (pe_install pe)"
  shows "all_gone (if ie_commit (pe_install pe') = 0 then ins_attached i else ins_attached (pt_hooks p1)) p3 \<and>
    hooks_first (ev @ ev') \<and> filter detach_event (dropWhile (\<lambda>e. \<not> memory_event e) ev') = []"
proof -
  obtain b e t where s: "stages (start_stages pe) p = (b, e, t)" by (rule prod_cases3)
  have p1: "p1 = t" "ev = e @ (if b then fst (snd (cry pe ''StartPatch'' ''Exit.'' t)) else [])" using assms(1) s by (auto simp: StartPatch_def)
  have r: "hooks_up pe i p1 \<or> g_isStopping p1 \<and> all_gone (ins_attached i) p1"
    using tripleD(1,2) [OF start_triple assms(2) s] up_if_fresh p1(1) by (cases b) (auto simp: given_up_def)
  have o: "filter gives_back ev = [] \<or> hooks_first ev \<and> g_isStopping p1"
    using orderlyD [OF orderly_start s] p1 by (auto simp: cry_def filter_empty_conv)
  show ?thesis
  proof (cases "g_isStopping p1")
    case True
    then have "p3 = p2" "ev' = []" using assms(5,6) by (simp_all add: StopPatch_def)
    then show ?thesis using r True assms(5) o hooks_first_none by (auto simp: hooks_up_def all_gone_def)
  next
    case False
    then have u: "hooks_up pe i p1" using r by simp
    have st: "\<not> g_isStopping p2" "coherent p2" using u assms(5) by (simp_all add: hooks_up_def coherent_def)
    have "hooks_first (ev @ ev')" using o False hooks_first_append StopPatch_order [OF assms(6)] by simp
    then show ?thesis using StopPatch_ends [OF assms(6) st] StopPatch_of_started [OF u assms(3,4,5,7)] by simp
  qed
qed

subsection \<open>The passive baseline\<close>

text \<open>An event that changes how the game runs: hooks, memory, priority.\<close>

fun intrusive :: "patch_event \<Rightarrow> bool" where
  "intrusive (HookOut e) = True"
| "intrusive (MemoryOut e) = True"
| "intrusive (ObserverOut e) = True"
| "intrusive PriorityRaised = True"
| "intrusive e = False"

definition untouched :: "patch \<Rightarrow> patch \<Rightarrow> bool" where
  "untouched p s \<longleftrightarrow>
     pt_hooks s = pt_hooks p \<and> pt_observers s = pt_observers p \<and> g_memoryManager s = g_memoryManager p \<and> g_hookManager s = g_hookManager p"

lemma passive_keep:
  assumes "logger_free I" "\<And>s. I s \<Longrightarrow> passiveMode s"
  shows "triple I (say pe cs) I Q (\<lambda>e. \<not> intrusive e)" "triple I (\<lambda>s. say pe (f s) s) I Q (\<lambda>e. \<not> intrusive e)"
    "triple I (raise_priority pe) I Q (\<lambda>e. \<not> intrusive e)" "triple I (start_manager pe) I Q (\<lambda>e. \<not> intrusive e)"
    "triple I (start_hooks pe) I Q (\<lambda>e. \<not> intrusive e)" "triple I (start_observers pe) I Q (\<lambda>e. \<not> intrusive e)"
    "triple I (\<lambda>s. if passiveMode s then (True, [], s) else say pe cs s) I Q (\<lambda>e. \<not> intrusive e)"
proof -
  let ?E = "\<lambda>e. \<not> intrusive e"
  have y: "triple I (say pe cs) I Q ?E" for cs by (rule triple_say [OF assms(1)]) simp
  have via: "triple I a I Q ?E" if v: "\<And>s. I s \<Longrightarrow> \<exists>cs. a s = say pe cs s" for a
  proof (rule tripleI)
    fix s ok ev s' assume s: "I s" "a s = (ok, ev, s')"
    obtain cs where c: "say pe cs s = (ok, ev, s')" using v [OF s(1)] s(2) by auto
    show "(if ok then I s' else Q s') \<and> (\<forall>e\<in>set ev. ?E e)" using tripleD [OF y s(1) c] by auto
  qed
  show "triple I (say pe cs) I Q ?E" "triple I (\<lambda>s. say pe (f s) s) I Q ?E" by (rule via, blast)+
  show "triple I (raise_priority pe) I Q ?E" "triple I (start_manager pe) I Q ?E" "triple I (start_hooks pe) I Q ?E" "triple I (start_observers pe) I Q ?E"
    by (rule via; use assms(2) in \<open>auto simp: raise_priority_def start_manager_def start_hooks_def start_observers_def\<close>)+
  show "triple I (\<lambda>s. if passiveMode s then (True, [], s) else say pe cs s) I Q ?E"
    using assms(2) by (simp add: triple_def)
qed

lemma start_threads_step:
  assumes "start_threads pe s = (ok, ev, s')"
  shows "\<exists>l h w. s' = s\<lparr>g_heartbeatMonitor := Some h, pt_walker := w, pt_logger := l\<rparr> \<and> (l = None \<longleftrightarrow> pt_logger s = None) \<and> ok \<and>
         (\<forall>e\<in>set ev. \<not> intrusive e)"
proof -
  obtain ls h w ev' where c: "say pe ls (s\<lparr>g_heartbeatMonitor := Some h, pt_walker := w\<rparr>) = (ok, ev', s')" "ev = Made ''HeartbeatMonitor'' # ev'"
    using assms by (auto simp: start_threads_def Let_def split: prod.splits)
  then show ?thesis using say_step [OF c(1)] by fastforce
qed

lemma passive_stages:
  assumes "passiveMode p"
  shows "triple (untouched p) (stages (start_stages pe)) (untouched p) (untouched p) (\<lambda>e. \<not> intrusive e)"
proof -
  let ?I = "untouched p" and ?E = "\<lambda>e. \<not> intrusive e"
  have lf: "logger_free ?I" by (simp add: logger_free_def untouched_def)
  have m: "passiveMode s" if "?I s" for s using that assms by (simp add: untouched_def passiveMode_def)
  note k = passive_keep [OF lf m]
  have enter: "triple ?I (start_enter pe) ?I ?I ?E"
    by (rule tripleI) (auto simp: start_enter_def cry_def untouched_def split: prod.splits)
  have log: "triple ?I (start_log pe) ?I ?I ?E"
    by (rule tripleI) (auto simp: start_log_def untouched_def split: prod.splits)
  have inst: "triple ?I (start_instances pe) ?I ?I ?E"
    by (rule tripleI) (auto simp: start_instances_def untouched_def split: if_splits)
  have hand: "triple ?I (start_handler pe) ?I ?I ?E"
    by (rule tripleI) (auto simp: start_handler_def untouched_def split: prod.splits)
  have thr: "triple ?I (start_threads pe) ?I ?I ?E"
    by (rule tripleI) (use start_threads_step in \<open>fastforce simp: untouched_def\<close>)
  show ?thesis unfolding start_stages_def
    by (rule triple_all) (simp add: k enter log inst hand thr)
qed

lemma passive_start_ends:
  assumes "\<not> non_game (pe_process pe)"
  shows "triple (\<lambda>s. passiveMode s \<and> \<not> g_isStarted s) (stages (start_stages pe))
           (\<lambda>s. g_heartbeatMonitor s \<noteq> None \<and> g_exceptionHandler s \<noteq> None \<and> pt_logger s \<noteq> None) (\<lambda>_. False) (\<lambda>e. \<not> intrusive e)"
proof -
  let ?Q = "\<lambda>_. False" and ?E = "\<lambda>e. \<not> intrusive e"
  let ?L = "\<lambda>s. passiveMode s \<and> pt_logger s \<noteq> None"
  let ?H = "\<lambda>s. ?L s \<and> g_exceptionHandler s \<noteq> None"
  let ?T = "\<lambda>s. ?H s \<and> g_heartbeatMonitor s \<noteq> None"
  have lf: "logger_free ?L" "logger_free ?H" "logger_free ?T" by (auto simp: logger_free_def passiveMode_def)
  note l = passive_keep [OF lf(1)] and h = passive_keep [OF lf(2)] and t = passive_keep [OF lf(3)]
  have enter: "triple (\<lambda>s. passiveMode s \<and> \<not> g_isStarted s) (start_enter pe) passiveMode ?Q ?E"
    by (rule tripleI) (use assms in \<open>auto simp: start_enter_def cry_def passiveMode_def split: prod.splits\<close>)
  have log: "triple passiveMode (start_log pe) ?L ?Q ?E"
    by (rule tripleI) (auto simp: start_log_def passiveMode_def Logger_Initialize_def split: prod.splits option.splits)
  have inst: "triple ?L (start_instances pe) ?L ?Q ?E"
    by (rule tripleI) (auto simp: start_instances_def passiveMode_def split: if_splits)
  have hand: "triple ?L (start_handler pe) ?H ?Q ?E"
    by (rule tripleI) (auto simp: start_handler_def passiveMode_def split: prod.splits)
  have thr: "triple ?H (start_threads pe) ?T ?Q ?E"
    by (rule tripleI) (use start_threads_step in \<open>fastforce simp: passiveMode_def\<close>)
  have "triple (\<lambda>s. passiveMode s \<and> \<not> g_isStarted s) (stages (start_stages pe)) ?T ?Q ?E"
    unfolding start_stages_def
    by (rule triple_Cons [OF enter triple_Cons [OF log triple_Cons [OF l(1) triple_Cons [OF l(3) triple_Cons [OF l(1) triple_Cons [OF inst
          triple_Cons [OF l(1) triple_Cons [OF l(4) triple_Cons [OF l(1) triple_Cons [OF hand triple_Cons [OF h(1) triple_Cons [OF h(5)
          triple_Cons [OF thr triple_Cons [OF t(7) triple_Cons [OF t(6) triple_Cons [OF t(2) triple_Nil]]]]]]]]]]]]]]]]; simp)
  then show ?thesis by (rule triple_conseq) auto
qed

text \<open>C36: The passive baseline does not touch the game: a start in passive mode reaches its end, leaves the
  hooks' state, the observers and the manager as they were, installs nothing, asks for no memory and
  does not raise the priority; only the log, the heartbeat and the crash filter are there.
\<close>

theorem passive_start_touches_nothing:
  assumes "passiveMode p" "\<not> non_game (pe_process pe)" "\<not> g_isStarted p" "StartPatch pe p = (ok, ev, p1)"
  shows "ok \<and> untouched p p1 \<and> filter intrusive ev = [] \<and> g_heartbeatMonitor p1 \<noteq> None \<and> g_exceptionHandler p1 \<noteq> None \<and> pt_logger p1 \<noteq> None"
proof -
  obtain b e t where s: "stages (start_stages pe) p = (b, e, t)" by (rule prod_cases3)
  have ev: "ok = b" "p1 = t" "ev = e @ (if b then fst (snd (cry pe ''StartPatch'' ''Exit.'' t)) else [])"
    using assms(4) s by (auto simp: StartPatch_def)
  have "passiveMode p \<and> \<not> g_isStarted p" using assms(1,3) by simp
  note r = tripleD [OF passive_start_ends [OF assms(2)] this s]
  have "untouched p p" by (simp add: untouched_def)
  note u = tripleD [OF passive_stages [OF assms(1)] this s]
  have b: "b" using r(2) by blast
  have "filter intrusive ev = []" using u(3) ev(3) by (auto simp: filter_empty_conv cry_def)
  then show ?thesis using u(1) [OF b] r(1) [OF b] ev(1,2) b by simp
qed

subsection \<open>Witnesses\<close>

definition demo_frame_state :: frame_observer where
  "demo_frame_state =
     \<lparr>g_installed = False, g_capInit = False, g_targetFps = 0, g_captureHitchStacks = False, g_hitchLogInterval = 25,
      g_inPresentHook = False, g_lastPresentTime = 0, g_qpcFrequency = 0, g_presentCallCount = 0, g_hitchCount = 0,
      g_stackCaptureFailures = 0, g_resourceHooksInstalled = False, g_deviceGuard = True, g_deviceLost = False,
      g_deviceLostEvents = 0, g_guardedCallCount = 0, fo_real = []\<rparr>"

definition demo_patch :: "bool \<Rightarrow> patch" where
  "demo_patch passive =
     \<lparr>g_isStarted = False, g_isStopping = False, pt_etw = False, pt_emergency = None, pt_logger = None, pt_analytics = False,
      pt_hitchDetector = False, pt_pressure = False, pt_walker = None, g_memoryManager = None, g_hookManager = False,
      g_exceptionHandler = None, pt_filter = None, g_heartbeatMonitor = None,
      pt_hooks = in_hooks (\<lambda>h. h\<lparr>h_control := (h_control h)\<lparr>c_passive := passive\<rparr>\<rparr>) demo_installer,
      pt_observers = \<lparr>ob_install = \<lparr>ri_real = False, s_readFileHooked = False\<rparr>,
                      ob_reads = \<lparr>ro_chunkSeen = \<lambda>_. (0, 0), ro_fileSeen = \<lambda>_. (0, 0), ro_pkgReported = \<lambda>_. 0,
                                  ro_scriptSeen = \<lambda>_. 0, s_rfCSInit = False\<rparr>,
                      ob_frames = demo_frame_state\<rparr>\<rparr>"

definition demo_patch_env :: patch_env where
  "demo_patch_env =
     \<lparr>pe_process = ''TS3W.exe'', pe_signature = ''build'', pe_tid = 7, pe_log = demo_log_env True, pe_install = demo_install 0,
      pe_priority = True, pe_semaphore = True, pe_worker = True, pe_workerEnded = True, pe_wakeEvent = 0x44, pe_heartThread = 0x48,
      pe_d3d = \<lparr>de_logger = True, de_frequency = 10000000, de_library = True, de_direct3d = True, de_device = True,
                de_commit = 0, de_getenv = \<lambda>_. None\<rparr>,
      pe_d3dHandle = True, pe_readFound = True, pe_readCommit = 0\<rparr>"

lemma demo_process: "\<not> non_game (pe_process demo_patch_env)"
  by (simp add: demo_patch_env_def non_game_def)

lemma demo_fresh: "hooks_fresh (pt_hooks (demo_patch b)) (demo_patch b)" "ins_attached (pt_hooks (demo_patch b)) = []"
  by (simp_all add: demo_patch_def hooks_fresh_def coherent_def demo_installer_def)

lemma passive_start_touches_nothing_witness:
  "\<exists>ev p1. StartPatch demo_patch_env (demo_patch True) = (True, ev, p1) \<and> pt_hooks p1 = pt_hooks (demo_patch True) \<and>
     filter intrusive ev = [] \<and> g_heartbeatMonitor p1 \<noteq> None"
proof -
  obtain ok ev p1 where s: "StartPatch demo_patch_env (demo_patch True) = (ok, ev, p1)" by (rule prod_cases3)
  have p: "passiveMode (demo_patch True)" "\<not> g_isStarted (demo_patch True)" by (simp_all add: demo_patch_def passiveMode_def)
  show ?thesis using passive_start_touches_nothing [OF p(1) demo_process p(2) s] s by (simp add: untouched_def)
qed

lemma Initialize_ok: "fst (MemoryManager_Initialize env m) = fst (Initialize (me_os env) PROXY_ARENA_SIZE (m_proxyAllocator m))"
  by (simp add: MemoryManager_Initialize_def Let_def split: prod.split)

lemma demo_manager_ok: "fst (MemoryManager_Initialize (he_mm (ie_hook (demo_install 0))) (MemoryManager_init (he_mm (ie_hook (demo_install 0)))))"
  unfolding Initialize_ok
  by (simp add: mm_eval arena_eval demo_env_def demo_install_def)

lemma demo_install_ok: "fst (InstallAndEnableHooks (demo_install 0) (HookManager_new mm i))"
proof -
  let ?i = "HookManager_new mm i"
  obtain b1 ev1 s1 where p: "prepare (demo_install 0) (hm_memManager ?i) ?i = (b1, ev1, s1)" by (rule prod_cases3)
  obtain b2 ev2 s2 where a: "attach_all (demo_install 0) s1 = (b2, ev2, s2)" by (rule prod_cases3)
  have b: "b1" "b2" using demo_prepare [of 0 "hm_memManager ?i" ?i] demo_attach [of 0 s1] unfolding p a by simp_all
  have m: "\<not> m_hooksInstalled ?i" by (simp add: HookManager_new_def)
  have "Install (demo_install 0) (hm_memManager ?i) ?i = (True, ev1 @ ev2, s2)" using b p a by (simp add: Install_def)
  then show ?thesis using m by (simp add: InstallAndEnableHooks_def)
qed

text \<open>A start that is not passive reaches its end when manager and installation do.\<close>

lemma active_start_ends:
  assumes "\<not> non_game (pe_process pe)"
    "fst (MemoryManager_Initialize (he_mm (ie_hook (pe_install pe))) (MemoryManager_init (he_mm (ie_hook (pe_install pe)))))"
    "\<And>mm i. fst (InstallAndEnableHooks (pe_install pe) (HookManager_new mm i))"
  shows "triple (\<lambda>s. \<not> passiveMode s \<and> \<not> g_isStarted s) (stages (start_stages pe)) g_hookManager (\<lambda>_. False) (\<lambda>_. True)"
proof -
  let ?Q = "\<lambda>_ :: patch. False" and ?E = "\<lambda>_ :: patch_event. True"
  let ?N = "\<lambda>s. \<not> passiveMode s" and ?H = g_hookManager
  have lf: "logger_free ?N" "logger_free ?H" by (simp_all add: logger_free_def passiveMode_def)
  have n: "triple ?N (say pe cs) ?N ?Q ?E" and h: "triple ?H (say pe cs) ?H ?Q ?E" for cs
    by (rule triple_say [OF lf(1)] triple_say [OF lf(2)]; simp)+
  have ns: "say pe cs s = (b, e, t) \<Longrightarrow> ?N s \<Longrightarrow> b \<and> ?N t" and hs: "say pe cs s = (b, e, t) \<Longrightarrow> ?H s \<Longrightarrow> b \<and> ?H t" for cs s b e t
    using tripleD(1,2) [OF n] tripleD(1,2) [OF h] by metis+
  have enter: "triple (\<lambda>s. ?N s \<and> \<not> g_isStarted s) (start_enter pe) ?N ?Q ?E"
    by (rule tripleI) (use assms(1) in \<open>auto simp: start_enter_def cry_def passiveMode_def split: prod.splits\<close>)
  have simple: "triple ?N (start_log pe) ?N ?Q ?E" "triple ?N (start_instances pe) ?N ?Q ?E" "triple ?N (start_handler pe) ?N ?Q ?E"
    by (auto simp: triple_def start_log_def start_instances_def start_handler_def passiveMode_def split: prod.splits)
  have prio: "triple ?N (raise_priority pe) ?N ?Q ?E"
  proof (rule tripleI)
    fix s ok ev s' assume s: "?N s" "raise_priority pe s = (ok, ev, s')"
    then obtain cs ev' where "say pe cs s = (ok, ev', s')" by (auto simp: raise_priority_def split: if_splits prod.splits)
    from ns [OF this s(1)] show "(if ok then ?N s' else ?Q s') \<and> (\<forall>e\<in>set ev. ?E e)" by simp
  qed
  have man: "triple ?N (start_manager pe) ?N ?Q ?E"
  proof (rule tripleI)
    fix s ok ev s' assume s: "?N s" "start_manager pe s = (ok, ev, s')"
    obtain b0 ev0 s0 where a: "say pe [Info ''[PHASE_3] Initializing proxy memory manager...''] s = (b0, ev0, s0)" by (rule prod_cases3)
    obtain b1 ev1 m where m: "MemoryManager_Initialize (he_mm (ie_hook (pe_install pe))) (MemoryManager_init (he_mm (ie_hook (pe_install pe)))) = (b1, ev1, m)"
      by (rule prod_cases3)
    let ?s = "s0\<lparr>g_memoryManager := Some (m, create_globals_init)\<rparr>"
    obtain b2 ev2 s2 where c: "say pe [Info ''[PHASE_3] Proxy memory manager ready.''] ?s = (b2, ev2, s2)" by (rule prod_cases3)
    have "b1" using assms(2) m by simp
    then have "ok = b2" "s' = s2" using s a m c by (auto simp: start_manager_def Let_def)
    moreover have "?N ?s" using ns [OF a s(1)] by (simp add: passiveMode_def)
    ultimately show "(if ok then ?N s' else ?Q s') \<and> (\<forall>e\<in>set ev. ?E e)" using ns [OF c] by simp
  qed
  have hooks: "triple ?N (start_hooks pe) ?H ?Q ?E"
  proof (rule tripleI)
    fix s ok ev s' assume s: "?N s" "start_hooks pe s = (ok, ev, s')"
    obtain b0 ev0 s0 where a: "say pe [Info ''[PHASE_5] Installing hooks...''] s = (b0, ev0, s0)" by (rule prod_cases3)
    obtain b1 ev1 i1 where m: "InstallAndEnableHooks (pe_install pe) (HookManager_new (g_memoryManager s0) (pt_hooks s0)) = (b1, ev1, i1)"
      by (rule prod_cases3)
    let ?t = "on_hooks (\<lambda>h. h\<lparr>h_control := ActivateProxy (h_control h)\<rparr>) (s0\<lparr>g_hookManager := True, pt_hooks := i1\<rparr>)"
    obtain b2 ev2 s2 where c: "say pe [Info ''[HOOKS] All hooks installed and live''] ?t = (b2, ev2, s2)" by (rule prod_cases3)
    have "b1" using assms(3) [of "g_memoryManager s0" "pt_hooks s0"] m by simp
    then have "ok = b2" "s' = s2" using s a m c by (auto simp: start_hooks_def Let_def)
    moreover have "?H ?t" by (simp add: on_hooks_def)
    ultimately show "(if ok then ?H s' else ?Q s') \<and> (\<forall>e\<in>set ev. ?E e)" using hs [OF c] by simp
  qed
  have thr: "triple ?H (start_threads pe) ?H ?Q ?E"
    by (rule tripleI) (use start_threads_step in fastforce)
  have live: "triple ?H (\<lambda>s. if passiveMode s then (True, [], s) else say pe cs s) ?H ?Q ?E" for cs
    using h by (auto simp: triple_def)
  have obs: "triple ?H (start_observers pe) ?H ?Q ?E"
  proof (rule tripleI)
    fix s ok ev s' assume s: "?H s" "start_observers pe s = (ok, ev, s')"
    then obtain cs ob ev' where c: "say pe cs (s\<lparr>pt_observers := ob\<rparr>) = (ok, ev', s')"
      by (cases s) (auto simp: start_observers_def split: if_splits prod.splits)
    show "(if ok then ?H s' else ?Q s') \<and> (\<forall>e\<in>set ev. ?E e)" using hs [OF c] s(1) by simp
  qed
  have fin: "triple ?H (\<lambda>s. say pe (f s) s) ?H ?Q ?E" for f
  proof (rule tripleI)
    fix s ok ev s' assume s: "?H s" "say pe (f s) s = (ok, ev, s')"
    from hs [OF s(2,1)] show "(if ok then ?H s' else ?Q s') \<and> (\<forall>e\<in>set ev. ?E e)" by simp
  qed
  show ?thesis unfolding start_stages_def
    by (rule triple_Cons [OF enter triple_Cons [OF simple(1) triple_Cons [OF n triple_Cons [OF prio triple_Cons [OF n triple_Cons [OF simple(2)
          triple_Cons [OF n triple_Cons [OF man triple_Cons [OF n triple_Cons [OF simple(3) triple_Cons [OF n triple_Cons [OF hooks
          triple_Cons [OF thr triple_Cons [OF live triple_Cons [OF obs triple_Cons [OF fin triple_Nil]]]]]]]]]]]]]]]])
qed

lemma demo_starts:
  assumes "StartPatch demo_patch_env (demo_patch False) = (ok, ev, p1)" shows "ok" "g_hookManager p1"
proof -
  obtain b e t where s: "stages (start_stages demo_patch_env) (demo_patch False) = (b, e, t)" by (rule prod_cases3)
  have i: "pe_install demo_patch_env = demo_install 0" by (simp add: demo_patch_env_def)
  have "\<not> passiveMode (demo_patch False) \<and> \<not> g_isStarted (demo_patch False)" by (simp add: demo_patch_def passiveMode_def)
  note r = tripleD [OF active_start_ends [OF demo_process] this s, unfolded i, OF demo_manager_ok demo_install_ok]
  show "ok" "g_hookManager p1" using r(1,2) assms s by (auto simp: StartPatch_def)
qed

lemma stop_undoes_start_witness:
  "\<exists>ev p1 ev' p3. StartPatch demo_patch_env (demo_patch False) = (True, ev, p1) \<and> g_hookManager p1 \<and> StopPatch demo_patch_env p1 = (ev', p3) \<and>
     all_gone [] p3"
proof -
  obtain ok ev p1 where s: "StartPatch demo_patch_env (demo_patch False) = (ok, ev, p1)" by (rule prod_cases3)
  obtain ev' p3 where t: "StopPatch demo_patch_env p1 = (ev', p3)" by (metis prod.exhaust)
  have p: "\<forall>n. ie_pointer (pe_install demo_patch_env) n \<noteq> 0" "ie_commit (pe_install demo_patch_env) = 0"
    by (simp_all add: demo_patch_env_def demo_install_def)
  have "p1 = p1\<lparr>pt_hooks := (pt_hooks p1)\<lparr>ins_map := ins_map (pt_hooks p1)\<rparr>\<rparr>"
    "set (ins_attached (pt_hooks (demo_patch False))) \<inter> set (map hook_name attach_list) = {}" by (simp_all add: demo_fresh(2))
  from stop_undoes_start [OF s demo_fresh(1) p(1) this(2,1) t refl]
  have "all_gone [] p3" unfolding demo_fresh(2) using p(2) by simp
  with s t demo_starts [OF s] show ?thesis by auto
qed

end
