(* ===== verification/Launcher.thy ===== *)
theory Launcher
  imports Logging
begin

section \<open>The launcher\<close>

text \<open>
  \<open>TS3Launcher.cpp\<close>, the program that starts the game and puts the library into it.  The files that
  exist, the processes at each look, and the answers of the system's calls are arguments; what it asks
  of the system, and what it says, are events.  Buffers for paths are taken to be long enough.
\<close>

definition PROCESS_POLL_MS :: u32 where "PROCESS_POLL_MS = 250"
definition GAME_TIMEOUT_SEC :: u32 where "GAME_TIMEOUT_SEC = 60"
definition PRE_INJECT_SLEEP_MS :: u32 where "PRE_INJECT_SLEEP_MS = 500"
definition EXE_DIRECT :: string where "EXE_DIRECT = ''TS3W.exe''"
definition EXE_MONITOR :: string where "EXE_MONITOR = ''TS3.exe''"
definition EXE_EALAUN :: string where "EXE_EALAUN = ''Sims3Launcher.exe''"
definition DLL_CANDIDATES :: "string list" where "DLL_CANDIDATES = [''TS3VASManager.dll'', ''TS3VASManager_play.dll'']"

datatype launch_event =
    Sleeping u32
  | StillWaiting u32
  | FoundAfter u32 u32
  | TimedOutAfter u32
  | OpenedProcess
  | ClosedProcess
  | AllocatedRemote
  | FreedRemote
  | WrotePath string
  | StartedThread
  | ClosedThread
  | Trouble string
  | LoadedAt u32
  | SpawnedLauncher string
  | CreatedGame string
  | RaisedPriority
  | Paused

subsection \<open>Waiting for the game\<close>

text \<open>A look at the processes: names with their ids, or \<open>None\<close> when no snapshot could be taken.\<close>

type_synonym snapshot = "(string \<times> u32) list option"

definition FindProcess :: "string \<Rightarrow> snapshot \<Rightarrow> u32" where
  "FindProcess exeName snap =
     (case snap of
        None \<Rightarrow> 0
      | Some ps \<Rightarrow> (case find (\<lambda>p. stricmp_eq (fst p) exeName) ps of None \<Rightarrow> 0 | Some p \<Rightarrow> snd p))"

text \<open>
  The loop; \<open>looks k\<close> is what the \<open>k\<close>-th look finds.  The elapsed time is a word, so a limit near its
  end could be jumped over for ever.
\<close>

definition still_waiting :: "u32 \<Rightarrow> launch_event list" where
  "still_waiting elapsed = (if elapsed mod 5000 = 0 then [StillWaiting (elapsed div 1000)] else [])"

partial_function (option) wait_loop :: "(nat \<Rightarrow> u32) \<Rightarrow> u32 \<Rightarrow> nat \<Rightarrow> u32 \<Rightarrow> (launch_event list \<times> u32) option" where
  "wait_loop looks limit k elapsed =
     (if \<not> elapsed < limit then Some ([TimedOutAfter limit], 0)
      else if looks k \<noteq> 0 then Some ([FoundAfter (looks k) elapsed], looks k)
      else Option.bind (wait_loop looks limit (Suc k) (elapsed + PROCESS_POLL_MS))
             (\<lambda>(ev, pid). Some (Sleeping PROCESS_POLL_MS # still_waiting (elapsed + PROCESS_POLL_MS) @ ev, pid)))"

definition WaitForProcess :: "string \<Rightarrow> (nat \<Rightarrow> snapshot) \<Rightarrow> u32 \<Rightarrow> (launch_event list \<times> u32) option" where
  "WaitForProcess exeName snaps timeoutSec = wait_loop (\<lambda>k. FindProcess exeName (snaps k)) (timeoutSec * 1000) 0 0"

subsection \<open>Injection into a running process\<close>

text \<open>\<open>in_exit\<close> is what \<open>GetExitCodeThread\<close> says after the wait of ten seconds: 259 while the thread still runs.\<close>

record inject_sys =
  in_open :: bool
  in_alloc :: bool
  in_write :: bool
  in_loadlib :: bool
  in_thread :: bool
  in_exit :: u32

definition InjectDLL :: "inject_sys \<Rightarrow> string \<Rightarrow> bool \<times> launch_event list" where
  "InjectDLL sys dllPath =
     (if \<not> in_open sys then (False, [Trouble ''OpenProcess''])
      else if \<not> in_alloc sys then (False, [OpenedProcess, Trouble ''VirtualAllocEx'', ClosedProcess])
      else if \<not> in_write sys then (False, [OpenedProcess, AllocatedRemote, Trouble ''WriteProcessMemory'', FreedRemote, ClosedProcess])
      else if \<not> in_loadlib sys
      then (False, [OpenedProcess, AllocatedRemote, WrotePath dllPath, Trouble ''GetProcAddress'', FreedRemote, ClosedProcess])
      else if \<not> in_thread sys
      then (False, [OpenedProcess, AllocatedRemote, WrotePath dllPath, Trouble ''CreateRemoteThread'', FreedRemote, ClosedProcess])
      else (in_exit sys \<noteq> 0,
            [OpenedProcess, AllocatedRemote, WrotePath dllPath, StartedThread, ClosedThread, FreedRemote, ClosedProcess,
             if in_exit sys = 0 then Trouble ''LoadLibraryA'' else LoadedAt (in_exit sys)]))"

definition SpawnIntermediateLauncher :: "bool \<Rightarrow> string \<Rightarrow> launch_event list" where
  "SpawnIntermediateLauncher ok path = (if ok then [SpawnedLauncher path] else [Trouble ''CreateProcess''])"

subsection \<open>The main program\<close>

record launch_sys =
  ls_self :: "string option"
  ls_exists :: "string \<Rightarrow> bool"
  ls_args :: "string list"
  ls_create :: bool
  ls_priority :: bool
  ls_running :: snapshot
  ls_spawn :: bool
  ls_looks :: "nat \<Rightarrow> snapshot"
  ls_inject :: inject_sys

definition in_dir :: "string \<Rightarrow> string \<Rightarrow> string" where "in_dir dir name = dir @ [CHR 0x5C] @ name"

text \<open>The candidate that is there, or the first name for the error that follows.\<close>

definition choose_dll :: "launch_sys \<Rightarrow> string \<Rightarrow> string" where
  "choose_dll sys dir = (case find (\<lambda>c. ls_exists sys (in_dir dir c)) DLL_CANDIDATES of Some c \<Rightarrow> c | None \<Rightarrow> hd DLL_CANDIDATES)"

text \<open>The command line in its buffer of 772 bytes, cut where it does not fit.\<close>

definition command_line :: "string \<Rightarrow> string list \<Rightarrow> string" where
  "command_line gameExe args =
     fold (\<lambda>a c. take 771 (take 771 (c @ '' '') @ a)) args (take 771 ([CHR 0x22] @ gameExe @ [CHR 0x22]))"

definition launch_direct :: "launch_sys \<Rightarrow> string \<Rightarrow> nat \<times> launch_event list" where
  "launch_direct sys gameExe =
     (if \<not> ls_create sys then (1, [Trouble ''DetourCreateProcessWithDllExA'', Paused])
      else (0, [CreatedGame (command_line gameExe (ls_args sys)), if ls_priority sys then RaisedPriority else Trouble ''SetPriorityClass'']))"

definition running_pid :: "launch_sys \<Rightarrow> u32" where "running_pid sys = FindProcess EXE_MONITOR (ls_running sys)"

text \<open>The process to inject into: one that runs already, or one that is waited for.\<close>

definition find_game :: "launch_sys \<Rightarrow> string \<Rightarrow> (launch_event list \<times> u32) option" where
  "find_game sys dir =
     (if running_pid sys \<noteq> 0 then Some ([], running_pid sys)
      else Option.bind (WaitForProcess EXE_MONITOR (ls_looks sys) GAME_TIMEOUT_SEC)
             (\<lambda>(ev, pid). Some ((if ls_exists sys (in_dir dir EXE_EALAUN)
                                then SpawnIntermediateLauncher (ls_spawn sys) (in_dir dir EXE_EALAUN) @ [Sleeping 2000] else []) @ ev, pid)))"

definition launch_monitor :: "launch_sys \<Rightarrow> string \<Rightarrow> string \<Rightarrow> (nat \<times> launch_event list) option" where
  "launch_monitor sys dir dllPath =
     Option.bind (find_game sys dir)
       (\<lambda>(ev, pid).
          if pid = 0 then Some (1, ev @ [Paused])
          else (case InjectDLL (ls_inject sys) dllPath of
                  (ok, ev') \<Rightarrow> Some (if ok then 0 else 1, ev @ [Sleeping PRE_INJECT_SLEEP_MS] @ ev' @ (if ok then [] else [Paused]))))"

definition launcher_main :: "launch_sys \<Rightarrow> (nat \<times> launch_event list) option" where
  "launcher_main sys =
     (case ls_self sys of
        None \<Rightarrow> Some (1, [Trouble ''GetModuleFileNameA'', Paused])
      | Some dir \<Rightarrow>
          (let dllPath = in_dir dir (choose_dll sys dir); direct = ls_exists sys (in_dir dir EXE_DIRECT)
           in if \<not> direct \<and> \<not> ls_exists sys (in_dir dir EXE_MONITOR) then Some (1, [Trouble ''no game'', Paused])
              else if \<not> ls_exists sys dllPath then Some (1, [Trouble ''no library'', Paused])
              else if direct then Some (launch_direct sys (in_dir dir EXE_DIRECT))
              else launch_monitor sys dir dllPath))"

subsection \<open>What the launcher promises\<close>

text \<open>The events that must balance, and those that must not occur while waiting.\<close>

definition balanced :: "launch_event list \<Rightarrow> bool" where
  "balanced ev =
     (count_list ev OpenedProcess = count_list ev ClosedProcess \<and> count_list ev AllocatedRemote = count_list ev FreedRemote \<and>
      count_list ev StartedThread = count_list ev ClosedThread)"

definition polls :: "launch_event list \<Rightarrow> nat" where "polls ev = count_list ev (Sleeping PROCESS_POLL_MS)"

definition first_look :: "(nat \<Rightarrow> u32) \<Rightarrow> nat \<Rightarrow> u32" where
  "first_look looks n = (case find (\<lambda>j. looks j \<noteq> 0) [0..<n] of None \<Rightarrow> 0 | Some j \<Rightarrow> looks j)"

definition game_looks :: "launch_sys \<Rightarrow> nat \<Rightarrow> u32" where "game_looks sys k = FindProcess EXE_MONITOR (ls_looks sys k)"

lemma balanced_append [intro]: "balanced xs \<Longrightarrow> balanced ys \<Longrightarrow> balanced (xs @ ys)"
  by (simp add: balanced_def)

lemma polls_append [simp]: "polls (xs @ ys) = polls xs + polls ys"
  by (simp add: polls_def)

lemma still_waiting_quiet [simp]:
  "polls (still_waiting n) = 0" "balanced (still_waiting n)" "Paused \<notin> set (still_waiting n)"
  by (simp_all add: still_waiting_def polls_def balanced_def)

lemma small_unat: "n \<le> 60000 \<Longrightarrow> unat (of_nat n :: u32) = n"
  by (simp add: unsigned_of_nat take_bit_nat_eq_self)

lemma wait_loop_run:
  assumes "k \<le> 240"
  shows "\<exists>ev. wait_loop looks 60000 k (of_nat (250 * k)) =
           Some (ev, case find (\<lambda>j. looks j \<noteq> 0) [k..<240] of None \<Rightarrow> 0 | Some j \<Rightarrow> looks j) \<and>
         polls ev = (case find (\<lambda>j. looks j \<noteq> 0) [k..<240] of None \<Rightarrow> 240 - k | Some j \<Rightarrow> j - k) \<and>
         balanced ev \<and> Paused \<notin> set ev"
  using assms
proof (induction "240 - k" arbitrary: k)
  case 0
  then have "\<not> (of_nat (250 * k) :: u32) < 60000" using small_unat [of "250 * k"] by (simp add: word_less_nat_alt)
  then show ?case using 0 by (subst wait_loop.simps) (simp add: polls_def balanced_def)
next
  case (Suc n)
  have k: "k < 240" using Suc.hyps(2) by simp
  have e: "(of_nat (250 * k) :: u32) < 60000"
    using k small_unat [of "250 * k"] by (simp add: word_less_nat_alt del: of_nat_mult)
  have up: "[k..<240] = k # [Suc k..<240]" using k by (simp add: upt_conv_Cons)
  show ?case
  proof (cases "looks k = 0")
    case False
    then show ?thesis using e up by (subst wait_loop.simps) (simp add: polls_def balanced_def)
  next
    case True
    have next_: "(of_nat (250 * k) :: u32) + PROCESS_POLL_MS = of_nat (250 * Suc k)" by (simp add: PROCESS_POLL_MS_def)
    have j: "Suc k \<le> j" if "find (\<lambda>j. looks j \<noteq> 0) [Suc k..<240] = Some j" for j
      using that by (auto simp: find_Some_iff)
    have "n = 240 - Suc k" "Suc k \<le> 240" using Suc.hyps(2) k by simp_all
    from Suc.hyps(1) [OF this]
    obtain ev where r: "wait_loop looks 60000 (Suc k) (of_nat (250 * Suc k)) =
        Some (ev, case find (\<lambda>j. looks j \<noteq> 0) [Suc k..<240] of None \<Rightarrow> 0 | Some j \<Rightarrow> looks j)"
      "polls ev = (case find (\<lambda>j. looks j \<noteq> 0) [Suc k..<240] of None \<Rightarrow> 240 - Suc k | Some j \<Rightarrow> j - Suc k)"
      "balanced ev" "Paused \<notin> set ev" by blast
    define sw where "sw = still_waiting (of_nat (250 * Suc k))"
    have "polls (Sleeping PROCESS_POLL_MS # sw @ ev) = Suc (polls ev)" "balanced (Sleeping PROCESS_POLL_MS # sw @ ev)"
      "Paused \<notin> set (Sleeping PROCESS_POLL_MS # sw @ ev)"
      using r(3,4) still_waiting_quiet [of "of_nat (250 * Suc k)"] unfolding sw_def [symmetric]
      by (simp_all add: polls_def balanced_def)
    moreover have "wait_loop looks 60000 k (of_nat (250 * k)) = Some (Sleeping PROCESS_POLL_MS # sw @ ev,
        case find (\<lambda>j. looks j \<noteq> 0) [Suc k..<240] of None \<Rightarrow> 0 | Some j \<Rightarrow> looks j)"
      by (subst wait_loop.simps) (simp only: e True next_ r(1) sw_def bind.bind_lunit prod.case not_True_eq_False if_False simp_thms)
    ultimately show ?thesis using up True r(2) j k by (auto split: option.splits)
  qed
qed

lemma WaitForProcess_run:
  "\<exists>ev. WaitForProcess exe snaps GAME_TIMEOUT_SEC = Some (ev, first_look (\<lambda>k. FindProcess exe (snaps k)) 240) \<and> polls ev \<le> 240 \<and> balanced ev \<and> Paused \<notin> set ev"
proof -
  define looks where "looks = (\<lambda>k. FindProcess exe (snaps k))"
  obtain ev where "wait_loop looks 60000 0 (of_nat (250 * 0)) = Some (ev, first_look looks 240)"
    "polls ev = (case find (\<lambda>j. looks j \<noteq> 0) [0..<240] of None \<Rightarrow> 240 - 0 | Some j \<Rightarrow> j - 0)" "balanced ev" "Paused \<notin> set ev"
    using wait_loop_run [of 0 looks] unfolding first_look_def by blast
  moreover have "polls ev \<le> 240" using calculation(2) by (auto simp: find_Some_iff split: option.splits)
  ultimately show ?thesis unfolding looks_def by (auto simp: WaitForProcess_def GAME_TIMEOUT_SEC_def)
qed

lemma InjectDLL_clean:
  "InjectDLL sys p = (ok, ev) \<Longrightarrow> balanced ev \<and> polls ev = 0 \<and> Paused \<notin> set ev"
  by (auto simp: InjectDLL_def balanced_def polls_def split: if_splits)

lemma find_game_run:
  "\<exists>ev. find_game sys dir = Some (ev, if running_pid sys \<noteq> 0 then running_pid sys else first_look (game_looks sys) 240) \<and>
     polls ev \<le> 240 \<and> balanced ev \<and> Paused \<notin> set ev"
proof -
  obtain ev where "WaitForProcess EXE_MONITOR (ls_looks sys) GAME_TIMEOUT_SEC = Some (ev, first_look (game_looks sys) 240)"
    "polls ev \<le> 240" "balanced ev" "Paused \<notin> set ev" using WaitForProcess_run unfolding game_looks_def by blast
  then show ?thesis
    by (auto simp: find_game_def SpawnIntermediateLauncher_def polls_def balanced_def PROCESS_POLL_MS_def)
qed

text \<open>
  When a launch should succeed: a library to inject, and a game that starts, or that runs or appears
  within 240 looks, lets itself be written to and loads the library (\<open>in_exit\<close> is not zero).
\<close>

definition injectable :: "inject_sys \<Rightarrow> bool" where
  "injectable i = (in_open i \<and> in_alloc i \<and> in_write i \<and> in_loadlib i \<and> in_thread i \<and> in_exit i \<noteq> 0)"

definition can_launch :: "launch_sys \<Rightarrow> bool" where
  "can_launch sys =
     (case ls_self sys of
        None \<Rightarrow> False
      | Some dir \<Rightarrow>
          list_ex (\<lambda>c. ls_exists sys (in_dir dir c)) DLL_CANDIDATES \<and>
          (if ls_exists sys (in_dir dir EXE_DIRECT) then ls_create sys
           else ls_exists sys (in_dir dir EXE_MONITOR) \<and>
                list_ex (\<lambda>p. p \<noteq> 0) (running_pid sys # List.map (game_looks sys) [0..<240]) \<and> injectable (ls_inject sys)))"

lemma chosen_dll_exists:
  "ls_exists sys (in_dir dir (choose_dll sys dir)) = list_ex (\<lambda>c. ls_exists sys (in_dir dir c)) DLL_CANDIDATES"
  by (auto simp: choose_dll_def DLL_CANDIDATES_def split: option.splits)

lemma first_look_nonzero: "first_look looks n \<noteq> 0 \<longleftrightarrow> list_ex (\<lambda>p. p \<noteq> 0) (List.map looks [0..<n])"
proof (cases "find (\<lambda>j. looks j \<noteq> 0) [0..<n]")
  case None
  then have "first_look looks n = 0" by (simp add: first_look_def)
  moreover have "looks k = 0" if "k < n" for k using None that by (simp add: find_None_iff)
  ultimately show ?thesis by (auto simp: list_ex_iff)
next
  case (Some j)
  then have "first_look looks n = looks j" by (simp add: first_look_def)
  moreover have "looks j \<noteq> 0" "j < n" using Some by (auto simp: find_Some_iff)
  ultimately show ?thesis by (auto simp: list_ex_iff)
qed

lemma InjectDLL_succeeds: "fst (InjectDLL i p) = injectable i"
  by (simp add: InjectDLL_def injectable_def)

lemma launch_direct_run:
  "\<exists>code ev. launch_direct sys game = (code, ev) \<and> polls ev = 0 \<and> balanced ev \<and> (code = 0 \<longleftrightarrow> ls_create sys) \<and>
     (code = 0 \<longleftrightarrow> Paused \<notin> set ev)"
  by (simp add: launch_direct_def polls_def balanced_def)

lemma launch_monitor_run:
  "\<exists>code ev. launch_monitor sys dir dll = Some (code, ev) \<and> polls ev \<le> 240 \<and> balanced ev \<and>
     (code = 0 \<longleftrightarrow> list_ex (\<lambda>p. p \<noteq> 0) (running_pid sys # List.map (game_looks sys) [0..<240]) \<and> injectable (ls_inject sys)) \<and>
     (code = 0 \<longleftrightarrow> Paused \<notin> set ev)"
proof -
  define pid where "pid = (if running_pid sys \<noteq> 0 then running_pid sys else first_look (game_looks sys) 240)"
  obtain ev where f: "find_game sys dir = Some (ev, pid)" "polls ev \<le> 240" "balanced ev" "Paused \<notin> set ev"
    using find_game_run unfolding pid_def by blast
  obtain ok ev' where i: "InjectDLL (ls_inject sys) dll = (ok, ev')" by fastforce
  note c = InjectDLL_clean [OF i]
  have ok: "ok = injectable (ls_inject sys)" using InjectDLL_succeeds [of "ls_inject sys" dll] i by simp
  have pid: "pid \<noteq> 0 \<longleftrightarrow> list_ex (\<lambda>p. p \<noteq> 0) (running_pid sys # List.map (game_looks sys) [0..<240])"
    using first_look_nonzero [of "game_looks sys" 240] by (simp add: pid_def del: upt_rec_numeral)
  have q: "balanced (ev @ [Paused])" "balanced (ev @ Sleeping PRE_INJECT_SLEEP_MS # ev')"
    "balanced (ev @ Sleeping PRE_INJECT_SLEEP_MS # ev' @ [Paused])" using f(3) c by (simp_all add: balanced_def)
  have p: "polls [Paused] = 0" "polls (Sleeping PRE_INJECT_SLEEP_MS # ev') = 0"
    "polls (Sleeping PRE_INJECT_SLEEP_MS # ev' @ [Paused]) = 0"
    using c by (simp_all add: polls_def PROCESS_POLL_MS_def PRE_INJECT_SLEEP_MS_def)
  show ?thesis
    unfolding pid [symmetric] ok [symmetric] using f c i q p by (auto simp: launch_monitor_def)
qed

text \<open>C40: the launcher always ends, after at most 240 waits of 250 ms (60 seconds), between which and
  before which it looks for the game.  Whatever the system answers, every process handle, remote
  buffer and thread handle it took to inject is given back.  It reports success exactly when a library
  and a game were there and the game could be started with the library, or, where it injects, the game
  was seen and opened, its memory allocated and written, the thread started, and the exit code of that
  thread, the answer of \<open>LoadLibraryA\<close>, is not zero; and it stays on the screen exactly when it failed.\<close>

theorem launch_is_bounded_and_clean:
  "\<exists>code ev. launcher_main sys = Some (code, ev) \<and> polls ev \<le> 240 \<and> balanced ev \<and>
     (code = 0 \<longleftrightarrow> can_launch sys) \<and> (code = 0 \<longleftrightarrow> Paused \<notin> set ev)"
proof (cases "ls_self sys")
  case None
  then show ?thesis by (simp add: launcher_main_def can_launch_def polls_def balanced_def)
next
  case (Some dir)
  let ?game = "in_dir dir EXE_DIRECT" and ?dll = "in_dir dir (choose_dll sys dir)"
  note d = launch_direct_run [of sys ?game] and m = launch_monitor_run [of sys dir ?dll]
  consider (direct) "ls_exists sys ?game" "ls_exists sys ?dll"
    | (monitor) "\<not> ls_exists sys ?game" "ls_exists sys (in_dir dir EXE_MONITOR)" "ls_exists sys ?dll"
    | (missing) "\<not> ls_exists sys ?dll \<or> (\<not> ls_exists sys ?game \<and> \<not> ls_exists sys (in_dir dir EXE_MONITOR))" by blast
  then show ?thesis
  proof cases
    case direct
    then show ?thesis using d Some chosen_dll_exists [of sys dir] by (auto simp: launcher_main_def can_launch_def Let_def)
  next
    case monitor
    then have "launcher_main sys = launch_monitor sys dir ?dll" "can_launch sys =
        (list_ex (\<lambda>p. p \<noteq> 0) (running_pid sys # List.map (game_looks sys) [0..<240]) \<and> injectable (ls_inject sys))"
      using Some chosen_dll_exists [of sys dir] by (simp_all only: launcher_main_def can_launch_def option.case Let_def if_False simp_thms)
    then show ?thesis using m by simp
  next
    case missing
    then have "\<not> can_launch sys" "\<exists>w. launcher_main sys = Some (1, [Trouble w, Paused])"
      using Some chosen_dll_exists [of sys dir] by (auto simp: launcher_main_def can_launch_def Let_def)
    then show ?thesis by (auto simp: polls_def balanced_def)
  qed
qed

end
