(* ===== verification/Spec2Isabelle.thy ===== *)
theory Spec2Isabelle
  imports ArenaProps ProxyTrace Analytics Monitors ScriptScanDedup MapViewProps
    ModulesProps LocalVasProps SwapTables Dbpf Config CorralProps HeapBlocks
    MemoryRuns HeartbeatProps HookInstallProps ReadObserverProps FrameObserverProps
    LoggingProps StackCaptureProps LifecycleProps Launcher
begin

text \<open>
  A verification development for TS3VASManager, a DLL injected into a 32-bit game.  It hooks the
  heap and virtual-memory functions of Windows and serves large allocations from an arena of
  1 GB that it reserves in the game's own address space, small ones from a few private heaps,
  and reports on what it sees.

  \<^bold>\<open>Parts and how they interact.\<close>  The hooks (\<open>WorkingHooks.cpp\<close>) receive every heap call.  They ask
  the memory manager (\<open>MemoryManager.cpp\<close>) for redirected allocations; the manager keeps a
  \<open>std::map\<close> of them and takes slots from the arena allocator (\<open>ProxyAllocator.cpp\<close>), one for the
  arena and one for each zone of the script arena.  The sub-allocator for small blocks carves
  its shards from the same arena.  The hooks classify the caller by its module, count what they do
  (\<open>Analytics.cpp\<close>), feed the hitch detector, the pressure monitor and the collector of garbage
  (\<open>HitchDetector.cpp\<close>, \<open>VASPressureMonitor.cpp\<close>, \<open>ProxyGc.cpp\<close>), and scan the files the game maps
  (\<open>MapViewTypeTracker.cpp\<close>, \<open>ScriptScanDedup.cpp\<close>, the index scanner of \<open>WorkingHooks.cpp\<close>).  A second
  set of hooks only watches: the reads of package files and the calls of Direct3D
  (\<open>ObserverHooks.cpp\<close>).  A thread of its own samples the address space (\<open>HeartbeatMonitor.cpp\<close>), another
  writes the stacks that were captured (\<open>StackWalker.cpp\<close>).  \<open>Main.cpp\<close> brings all of it up and down, and
  \<open>TS3Launcher.cpp\<close> starts the game and puts the library into it.

  \<^bold>\<open>Theories and sources.\<close>
  \<^item> \<open>Prelude\<close>: the words and names of the model, text and environment helpers (\<open>atoi\<close>, case-insensitive
    search), constants of Windows, generic lemmas.
  \<^item> \<open>ArenaBlocks\<close> (sorted free list, searches), \<open>SizeClasses\<close> (size-class cache), \<open>ArenaReserve\<close>
    (choice of the arena's range), \<open>ProxyAllocator\<close> (state and operations): \<open>ProxyAllocator.cpp\<close>.
    \<open>ArenaInv\<close> has the invariant and one step lemma per operation, \<open>ArenaProps\<close> the claims.
  \<^item> \<open>SlotContract\<close>: the contract of a slot allocator as a locale, with the theorems on runs of
    requests and releases; interpreted on the arena in \<open>ArenaProps\<close>, once with and once without the
    assumption that nodes do not run out.
  \<^item> \<open>OrderedMap\<close>: \<open>std::map\<close> as an association list sorted by key.  \<open>AddressMap\<close>: the contract of a
    registry of slots (\<open>slot_registry\<close>), refined by the manager and by the script arena.
  \<^item> \<open>MemoryManager\<close>: \<open>MemoryManager.cpp\<close>; \<open>ManagerProps\<close> and \<open>CorralProps\<close>: redirected allocations and
    script-arena slots as maps from addresses to sizes.
  \<^item> \<open>Modules\<close>, \<open>LocalVas\<close>, \<open>SwapTables\<close>, \<open>Dbpf\<close>, \<open>Config\<close>: the tables, classifications, accounts,
    scanner and switches of \<open>WorkingHooks.cpp\<close>; \<open>ModulesProps\<close>, \<open>LocalVasProps\<close>: their claims.
  \<^item> \<open>ProxyHeaps\<close> (the shards) and \<open>HeapHooks\<close> (\<open>Hooked_RtlCreateHeap\<close>, \<open>Hooked_RtlAllocateHeap\<close>,
    \<open>Hooked_RtlFreeHeap\<close>, \<open>Hooked_RtlReAllocateHeap\<close>): the hooks as functions on the state \<open>hooks\<close>, with
    the list of what they ask the system and tell the counters.  \<open>HeapHookProps\<close>: the manager's
    invariant under every stage of every hook; \<open>ShardProps\<close>: bringing the shards up, runs of heap
    calls, the shards' turns and the committed-bytes walk; \<open>HeapBlocks\<close>: single blocks and counters.
  \<^item> \<open>VirtualHooks\<close>: \<open>VirtualAlloc\<close>, \<open>VirtualFree\<close>, the native hooks and the hooks that only observe,
    on the state \<open>vhooks\<close> that extends that of the heap hooks.  \<open>VirtualHookProps\<close>: a step lemma per
    hook and the round trip of a redirected reserve.
  \<^item> \<open>KernelHeap\<close>: \<open>HeapAlloc\<close>, \<open>HeapFree\<close>, \<open>HeapReAlloc\<close>, \<open>HeapSize\<close> and the functions around them;
    \<open>KernelHeapProps\<close>: how they relate to the hooks one level below.  \<open>MemoryRuns\<close>: runs that mix all
    these hooks over the one arena, and the mark the native hooks leave behind.
  \<^item> \<open>VasScan\<close> (the walks over the address space and the reports of \<open>HeartbeatMonitor.cpp\<close>) and \<open>Heartbeat\<close>
    (\<open>Start\<close>, \<open>Stop\<close> and \<open>HeartbeatThreadFunc\<close>: one definition per stage of a beat, \<open>hb_beat\<close> and
    \<open>hb_loop\<close>).  \<open>PhaseMachine\<close>: the automaton of the phases and that a beat refines it;
    \<open>PhaseProps\<close>: its runs; \<open>HeartbeatTele\<close>: milestones, logged deltas, the ring, array bounds and
    rounding; \<open>HeartbeatProps\<close>: the claims.
  \<^item> \<open>MapView\<close>, \<open>MapViewProps\<close>: \<open>MapViewTypeTracker.cpp\<close>.  \<open>ProbeTable\<close>: the contract of an
    open-addressing table (locale \<open>probe_table\<close>), interpreted on the table of types and the table of
    callers.
  \<^item> \<open>Analytics\<close>, \<open>ProxyTrace\<close>, \<open>Monitors\<close>, \<open>ScriptScanDedup\<close>: the sources of those names, and
    \<open>ContainmentLane.cpp\<close>, \<open>HitchDetector.cpp\<close>, \<open>VASPressureMonitor.cpp\<close>, \<open>ProxyGc.cpp\<close> in \<open>Monitors\<close>.

  \<^item> \<open>MapHooks\<close>: the hooks of \<open>WorkingHooks.cpp\<close> that see files being opened and mapped, on the state of
    the virtual-memory hooks extended by handles, views and the inventory of types; \<open>MapHookProps\<close>: their
    claims.  \<open>HookInstall\<close>, \<open>HookInstallProps\<close>: resolution, attachment and removal of all hooks.
  \<^item> \<open>ReadObserver\<close>, \<open>FrameObserver\<close> and their \<open>Props\<close>: the file half and the Direct3D half of
    \<open>ObserverHooks.cpp\<close>.
  \<^item> \<open>Logging\<close>, \<open>LoggingProps\<close>: \<open>Logger.cpp\<close> and \<open>EmergencyLogger.cpp\<close>; the race for the emergency file is
    a step relation over threads.  \<open>StackCapture\<close>, \<open>StackCaptureProps\<close>: \<open>StackWalker.cpp\<close> (its queue as a
    step relation) and \<open>ExceptionHandler.cpp\<close>.
  \<^item> \<open>Lifecycle\<close>, \<open>LifecycleProps\<close>: \<open>StartPatch\<close> and \<open>StopPatch\<close> of \<open>Main.cpp\<close> as lists of stages over the
    components' own operations, with a triple per stage.  \<open>Launcher\<close>: \<open>TS3Launcher.cpp\<close>.

  \<^bold>\<open>How the code is rendered.\<close>  Addresses and sizes are words of 32 bits, counters words of 64 bits, clock values signed
  numbers of 64 bits (\<open>longlong\<close>), so
  wrap-around is in the model.  A linked list of nodes is a list with the number of free nodes of the
  pool.  An operation takes the state and returns it updated; what Windows answers during a call
  (reservations, commits, the environment block, ticks, modules, captured stacks, the heaps of the
  system) is an argument, a record of functions per component (\<open>mm_env\<close>, \<open>hook_env\<close>, \<open>heap_sys\<close>, \<open>loader\<close>,
  \<open>os_env\<close>, \<open>beat_env\<close>), and log lines, counters and requests to the system are events in the result.  Under a
  lock an operation is one step; the lock-free tables of \<open>ScriptScanDedup\<close> and \<open>LocalVas\<close>,
  the emergency file and the queue of stacks are step relations over threads.

  \<^bold>\<open>What the lemmas show.\<close>
  \<^item> Arena: any run of requests and releases keeps live slots apart; while nodes do not run out it loses
    no byte and a request fails only when nothing fits; which sizes wrap and what running out of nodes
    does.
  \<^item> Manager and script arena: both refine a map from addresses to sizes, on every error branch.
  \<^item> Hooks: from a fresh manager, through the start of the shards and any sequence of heap calls, the
    redirected blocks stay apart from each other and from the shards; a block the arena serves goes back
    to it; counters reconcile; what a failed reallocation does.  With the virtual-memory hooks the same
    holds of the redirected slots, and every slot the allocator has handed out, by its count and bytes,
    is accounted for: a record, an entry of the table, a shard, or lost because the table was full.
    The heap calls inside the \<open>Global\<close> and \<open>Local\<close> functions are left alone.
  \<^item> Tables: swap-remove arrays and probe tables implement bounded maps; caches answer as the functions
    they cache; what is lost when they are full or raced.
  \<^item> Heartbeat: the phases of its thread are an automaton over eight figures; a program at rest is
    brought back to the main menu in 32 beats, a world exit takes 45 s and three quiet beats; the
    average, the milestones and the logged deltas are exact; what rounding does to the phases.
  \<^item> Scanner: never outside the view, exact counts.  Monitors and throttles: rate bounds and exactness
    across wraps of the tick counter.
  \<^item> Mapping hooks: the inventory of types and the counters agree; which views are never counted; the
    read that ends the process.  Observers: both scans of a package agree within the
    bounds of both, a chunk is counted as repeated only if its key is, a lost device is not drawn on, a
    frame is held for what remains of its period, by the timer or by the sleep.
  \<^item> Installation: removal undoes a successful installation when its own transaction succeeds; when that
    fails the failure is only reported and the functions stay hooked, with tables and manager gone.
    Stopping undoes a start that succeeded, ended early or gave up, with the same two outcomes, and no
    hook is taken off after memory was given back; a passive start changes nothing of the game.
  \<^item> Logs: what the play build writes, and that a log that could not be opened stays closed.  Captured
    stacks are written once, in order, by one thread.  Launcher: it ends, gives back what it took, and
    says that it succeeded exactly when the game could be started, or the library was loaded by the
    answer of \<open>LoadLibraryA\<close>, which is all it looks at.

  \<^bold>\<open>Bounds and fuel.\<close>  Statements on the arena assume a granularity that is a power of two up to 64 KB
  (\<open>gran_ok\<close>, what the constructor leaves), sizes that do not wrap when rounded (\<open>req_ok\<close>; the wrapping
  case has its own theorem), and a range that the reservation really has (\<open>range_ok\<close>).  That nodes never
  run out holds while the arena has fewer granules than the pool has nodes (\<open>pool_cap\<close>); without it the
  addresses lost are the subject of a theorem.  \<open>shard_committed\<close> has as much fuel as the range has
  bytes, plus two, and is shown never to need more.  \<open>reserve_scan\<close> and the other loops end
  by structural recursion or a measure; \<open>vas_regions\<close> ends because the address grows.  A
  run of the heartbeat is stated for fewer than \<open>2^32\<close> beats where a streak must not wrap.  The script arena is stated for pages of 4 KB.

  Fixed sizes are those of the code: 128 types in the inventory, indices of at most 16384 entries read
  512 at a time, 16384 slots for chunks and for names, 50 captured stacks in the queue.  \<open>wait_loop\<close> of the launcher may in general not return and is an option;
  for the limit that \<open>main\<close> gives it ends after at most 240 waits of 250 ms, with a look before the first and after each.

  \<^bold>\<open>Not modelled.\<close>  The library of detours, the symbol and stack functions of Windows, the file system and
  Direct3D itself are arguments.  Left out: the writing of ETW events (\<open>ETWProvider.cpp\<close>), most lines of the
  emergency log, the text of reports that repeat figures of the state, \<open>IsValidAddress\<close> (nobody calls
  it), and the C# companion that runs inside the game.
\<close>

end
